(* ===== verification/Prelude.thy ===== *)
theory Prelude
  imports Main "HOL-Library.Word" "HOL-Library.List_Lexorder" "HOL-Library.Char_ord"
begin

text \<open>
  The vocabulary every component of the development shares.

  \<^item> The sentinel errors of the modules (the \<open>errors.go\<close> files and the SDK's
    \<open>sdkerrors\<close>): an error value of the Go code is identified by the sentinel it wraps, its
    formatted message is not modelled.
  \<^item> \<open>'a res\<close>: what a Go call gives back, a value, an error or a panic.
  \<^item> \<open>('s, 'a) go\<close>: a Go function over a state \<open>'s\<close>. The state is returned on every
    path, also with an error: hooks run from the begin blocker keep what a failing call wrote,
    so a failure does not roll the state back by itself.
  \<^item> \<open>go_try\<close> is \<open>x, err := f()\<close> with the error kept as a value, \<open>for_each\<close> a
    \<open>for ... range\<close> loop whose body may return early.
  \<^item> Machine integers: \<open>uint64\<close> values are 64-bit words (addition wraps), \<open>int64\<close>
    values are integers wrapped by \<open>int64_wrap\<close>.
\<close>

section \<open>Errors and results\<close>

datatype sdk_error =
    ErrInvalidRequest | ErrNotFound | ErrInsufficientFunds | ErrInvalidCoins
  | ErrInvalidAddress | ErrUnknownRequest | ErrKeyNotFound | ErrUnauthorized
  | ErrUnknownAddress | ErrInvalidType | ErrLogic | ErrInvalidChainID | ErrInsufficientFee
  | ErrTxDecode

datatype ratelimit_error =
    ErrRateLimitAlreadyExists | ErrRateLimitNotFound | ErrZeroChannelValue | ErrQuotaExceeded
  | ErrInvalidClientState | ErrChannelNotFound | ErrDenomIsBlacklisted

datatype records_error =
    ErrInvalidVersion | ErrRedemptionAlreadyExists | ErrEpochUnbondingRecordNotFound
  | ErrUnknownDepositRecord | ErrRecordsUnmarshalFailure | ErrAddingHostZone

datatype stakeibc_error =
    ErrInvalidToken | ErrInvalidHostZone | ErrICAStake | ErrEpochNotFound | ErrRecordNotFound
  | ErrInvalidAmount | ErrValidatorAlreadyExists | ErrNoValidatorWeights | ErrValidatorNotFound
  | ErrWeightsNotDifferent | ErrValidatorDelegationChg | ErrAcctNotScopedForFunc
  | ErrInsufficientStakeFunds | ErrInvalidUserRedemptionRecord | ErrRequiredFieldEmpty
  | ErrInvalidNumValidator | ErrValidatorNotRemoved | ErrHostZoneNotFound | ErrOutsideIcqWindow
  | ErrParamNotFound | ErrUnmarshalFailure | ErrMarshalFailure | ErrInvalidPacketCompletionTime
  | ErrIntCast | ErrFeeAccountNotRegistered | ErrRedemptionRateOutsideSafetyBounds
  | ErrTxMsgDataInvalid | ErrFailedToRegisterHostZone | ErrInvalidInterchainAccountAddress
  | ErrICAAccountNotFound | ErrICATxFailed | ErrICQFailed | ErrDivisionByZero
  | ErrSlashExceedsSafetyThreshold | ErrInvalidEpoch | ErrHostZoneICAAccountNotFound
  | ErrNoValidatorAmts | ErrMaxNumValidators | ErrUndelegationAmount
  | ErrRewardCollectorAccountNotFound | ErrHaltedHostZone | ErrInsufficientLiquidStake

datatype icacallbacks_error = ErrCallbackHandlerNotFound | ErrCallbackFailed | ErrInvalidAcknowledgement

datatype interchainquery_error = ErrInvalidICQProof | ErrICQCallbackNotFound

text \<open>Two sentinels of \<open>x/claim\<close> are prefixed, since \<open>x/stakeibc\<close> has errors of the same
  names.\<close>

datatype claim_error =
    ErrTotalWeightNotSet | ErrTotalWeightParse | ErrFailedToGetTotalWeight | ErrFailedToParseDec
  | ErrAirdropAlreadyExists | ErrDistributorAlreadyExists | ErrClaimInvalidAmount | ErrClaimInvalidAccount
  | ErrAirdropNotFound | ErrClaimNotFound | ErrModifyingClaimRecord | ErrAirdropChainIdAlreadyExists

datatype autopilot_error =
    ErrInvalidPacketMetadata | ErrUnsupportedStakeibcAction | ErrInvalidClaimAirdropId | ErrInvalidModuleRoutes
  | ErrUnsupportedAutopilotRoute | ErrInvalidReceiverAddress | ErrPacketForwardingInactive | ErrInvalidMemoSize

text \<open>The errors of Archway's \<open>x/rewards\<close>, prefixed where the SDK has the same name.\<close>

datatype rewards_error =
    ErrInternal | ErrContractNotFound | ErrMetadataNotFound | ErrRewardsUnauthorized | ErrRewardsInvalidRequest
  | ErrContractFlatFeeNotFound

text \<open>\<open>Plain\<close> is an error made with \<open>errors.New\<close> or \<open>fmt.Errorf\<close>, or one a
  third-party keeper returned: it wraps no sentinel of the repository.\<close>

datatype error =
    Sdk sdk_error
  | RateLimitErr ratelimit_error
  | RecordsErr records_error
  | StakeIBCErr stakeibc_error
  | IcaCallbacksErr icacallbacks_error
  | InterchainQueryErr interchainquery_error
  | ClaimErr claim_error
  | AutopilotErr autopilot_error
  | RewardsErr rewards_error
  | Plain

datatype 'a res = Ok 'a | Err error | Panic

definition rbind :: "'a res \<Rightarrow> ('a \<Rightarrow> 'b res) \<Rightarrow> 'b res" where
  "rbind m f = (case m of Ok x \<Rightarrow> f x | Err e \<Rightarrow> Err e | Panic \<Rightarrow> Panic)"

definition rguard :: "bool \<Rightarrow> error \<Rightarrow> unit res" where
  "rguard b e = (if b then Ok () else Err e)"

named_theorems go_simps \<open>rules that run and invert Go calls\<close>

lemma rbind_simps [simp]:
  "rbind (Ok x) f = f x" "rbind (Err e) f = Err e" "rbind Panic f = Panic"
  by (simp_all add: rbind_def)

lemma rbind_eq_Ok [go_simps]: "rbind m f = Ok y \<longleftrightarrow> (\<exists>x. m = Ok x \<and> f x = Ok y)"
  by (cases m) auto

lemma rbind_eq_Err [go_simps]:
  "rbind m f = Err e \<longleftrightarrow> m = Err e \<or> (\<exists>x. m = Ok x \<and> f x = Err e)"
  by (cases m) auto

lemma rbind_eq_Panic [go_simps]:
  "rbind m f = Panic \<longleftrightarrow> m = Panic \<or> (\<exists>x. m = Ok x \<and> f x = Panic)"
  by (cases m) auto

lemma rguard_eq [go_simps]:
  "rguard b e = Ok u \<longleftrightarrow> b" "rguard b e = Err e' \<longleftrightarrow> \<not> b \<and> e' = e" "rguard b e \<noteq> Panic"
  by (auto simp: rguard_def)

lemma rguard_simps [simp]: "rguard True e = Ok ()" "rguard False e = Err e"
  by (simp_all add: rguard_def)

definition res_ok :: "'a res \<Rightarrow> bool" where
  "res_ok r = (case r of Ok _ \<Rightarrow> True | _ \<Rightarrow> False)"

lemma res_ok_simps [simp]: "res_ok (Ok x)" "\<not> res_ok (Err e)" "\<not> res_ok Panic"
  by (simp_all add: res_ok_def)

lemma res_ok_iff: "res_ok r \<longleftrightarrow> (\<exists>x. r = Ok x)"
  by (cases r) auto

section \<open>Go functions over a state\<close>

type_synonym ('s, 'a) go = "'s \<Rightarrow> 'a res \<times> 's"

definition go_ret :: "'a \<Rightarrow> ('s, 'a) go" where
  "go_ret x s = (Ok x, s)"

definition go_fail :: "error \<Rightarrow> ('s, 'a) go" where
  "go_fail e s = (Err e, s)"

definition go_panic :: "('s, 'a) go" where
  "go_panic s = (Panic, s)"

definition go_bind :: "('s, 'a) go \<Rightarrow> ('a \<Rightarrow> ('s, 'b) go) \<Rightarrow> ('s, 'b) go" where
  "go_bind m f s =
     (case m s of (Ok x, t) \<Rightarrow> f x t | (Err e, t) \<Rightarrow> (Err e, t) | (Panic, t) \<Rightarrow> (Panic, t))"

definition go_lift :: "'a res \<Rightarrow> ('s, 'a) go" where
  "go_lift r s = (r, s)"

definition go_gets :: "('s \<Rightarrow> 'a) \<Rightarrow> ('s, 'a) go" where
  "go_gets f s = (Ok (f s), s)"

definition go_modify :: "('s \<Rightarrow> 's) \<Rightarrow> ('s, unit) go" where
  "go_modify f s = (Ok (), f s)"

definition go_guard :: "bool \<Rightarrow> error \<Rightarrow> ('s, unit) go" where
  "go_guard b e s = (if b then (Ok (), s) else (Err e, s))"

text \<open>\<open>val, found := ...\<close> followed by \<open>if !found { return err }\<close>.\<close>

definition go_found :: "'a option \<Rightarrow> error \<Rightarrow> ('s, 'a) go" where
  "go_found x e s = (case x of Some v \<Rightarrow> (Ok v, s) | None \<Rightarrow> (Err e, s))"

text \<open>\<open>if err != nil { return errorsmod.Wrap(other, ...) }\<close>: the sentinel is replaced.\<close>

definition go_wrap :: "error \<Rightarrow> ('s, 'a) go \<Rightarrow> ('s, 'a) go" where
  "go_wrap e m s = (case m s of (Err _, t) \<Rightarrow> (Err e, t) | r \<Rightarrow> r)"

text \<open>\<open>if err != nil { panic(err) }\<close>.\<close>

definition must :: "('s, 'a) go \<Rightarrow> ('s, 'a) go" where
  "must m s = (case m s of (Err _, t) \<Rightarrow> (Panic, t) | r \<Rightarrow> r)"

text \<open>\<open>x, err := f()\<close>: the error becomes a value; a panic still unwinds.\<close>

definition go_try :: "('s, 'a) go \<Rightarrow> ('s, 'a res) go" where
  "go_try m s = (case m s of (Panic, t) \<Rightarrow> (Panic, t) | (r, t) \<Rightarrow> (Ok r, t))"

fun for_each :: "('x \<Rightarrow> ('s, unit) go) \<Rightarrow> 'x list \<Rightarrow> ('s, unit) go" where
  "for_each f [] s = (Ok (), s)"
| "for_each f (x # xs) s =
     (case f x s of (Ok _, t) \<Rightarrow> for_each f xs t | (Err e, t) \<Rightarrow> (Err e, t)
      | (Panic, t) \<Rightarrow> (Panic, t))"

text \<open>A loop with an accumulator held in local variables of the Go function.\<close>

fun for_acc :: "('x \<Rightarrow> 'a \<Rightarrow> ('s, 'a) go) \<Rightarrow> 'x list \<Rightarrow> 'a \<Rightarrow> ('s, 'a) go" where
  "for_acc f [] a s = (Ok a, s)"
| "for_acc f (x # xs) a s =
     (case f x a s of (Ok a', t) \<Rightarrow> for_acc f xs a' t | (Err e, t) \<Rightarrow> (Err e, t)
      | (Panic, t) \<Rightarrow> (Panic, t))"

text \<open>The same without state, for the pure helpers.\<close>

fun res_acc :: "('x \<Rightarrow> 'a \<Rightarrow> 'a res) \<Rightarrow> 'x list \<Rightarrow> 'a \<Rightarrow> 'a res" where
  "res_acc f [] a = Ok a"
| "res_acc f (x # xs) a = rbind (f x a) (res_acc f xs)"

lemma res_acc_no_Err: "(\<And>x a e. f x a \<noteq> Err e) \<Longrightarrow> res_acc f xs a \<noteq> Err e"
  by (induction xs arbitrary: a) (auto simp: rbind_eq_Err)

lemma for_acc_no_Err: "(\<And>x a s e t. f x a s \<noteq> (Err e, t)) \<Longrightarrow> for_acc f xs a s \<noteq> (Err e, t)"
  by (induction xs arbitrary: a s) (auto split: prod.splits res.splits)

lemma go_bind_eq_Ok [go_simps]:
  "go_bind m f s = (Ok y, u) \<longleftrightarrow> (\<exists>x t. m s = (Ok x, t) \<and> f x t = (Ok y, u))"
  by (auto simp: go_bind_def split: prod.splits res.splits)

lemma go_bind_eq_Err [go_simps]:
  "go_bind m f s = (Err e, u) \<longleftrightarrow>
     m s = (Err e, u) \<or> (\<exists>x t. m s = (Ok x, t) \<and> f x t = (Err e, u))"
  by (auto simp: go_bind_def split: prod.splits res.splits)

lemma go_bind_eq_Panic [go_simps]:
  "go_bind m f s = (Panic, u) \<longleftrightarrow>
     m s = (Panic, u) \<or> (\<exists>x t. m s = (Ok x, t) \<and> f x t = (Panic, u))"
  by (auto simp: go_bind_def split: prod.splits res.splits)

lemma go_ret_eq [go_simps]: "go_ret x s = (r, t) \<longleftrightarrow> r = Ok x \<and> t = s"
  by (auto simp: go_ret_def)

lemma go_fail_eq [go_simps]: "go_fail e s = (r, t) \<longleftrightarrow> r = Err e \<and> t = s"
  by (auto simp: go_fail_def)

lemma go_panic_eq [go_simps]: "go_panic s = (r, t) \<longleftrightarrow> r = Panic \<and> t = s"
  by (auto simp: go_panic_def)

lemma go_lift_eq [go_simps]: "go_lift q s = (r, t) \<longleftrightarrow> q = r \<and> t = s"
  by (auto simp: go_lift_def)

lemma go_gets_eq [go_simps]: "go_gets f s = (r, t) \<longleftrightarrow> r = Ok (f s) \<and> t = s"
  by (auto simp: go_gets_def)

lemma go_modify_eq [go_simps]: "go_modify f s = (r, t) \<longleftrightarrow> r = Ok () \<and> t = f s"
  by (auto simp: go_modify_def)

lemma go_guard_eq [go_simps]:
  "go_guard b e s = (r, t) \<longleftrightarrow> t = s \<and> (if b then r = Ok () else r = Err e)"
  by (auto simp: go_guard_def)

lemma go_found_eq [go_simps]:
  "go_found x e s = (r, t) \<longleftrightarrow> t = s \<and> (case x of Some v \<Rightarrow> r = Ok v | None \<Rightarrow> r = Err e)"
  by (auto simp: go_found_def split: option.splits)

lemma go_wrap_eq_Ok [go_simps]: "go_wrap e m s = (Ok x, t) \<longleftrightarrow> m s = (Ok x, t)"
  by (auto simp: go_wrap_def split: prod.splits res.splits)

lemma go_wrap_eq_Err [go_simps]:
  "go_wrap e m s = (Err e', t) \<longleftrightarrow> e' = e \<and> (\<exists>e''. m s = (Err e'', t))"
  by (auto simp: go_wrap_def split: prod.splits res.splits)

lemma go_wrap_eq_Panic [go_simps]: "go_wrap e m s = (Panic, t) \<longleftrightarrow> m s = (Panic, t)"
  by (auto simp: go_wrap_def split: prod.splits res.splits)

lemma go_try_eq_Ok [go_simps]:
  "go_try m s = (Ok r, t) \<longleftrightarrow> m s = (r, t) \<and> r \<noteq> Panic"
  by (auto simp: go_try_def split: prod.splits res.splits)

lemma go_try_eq_Err [go_simps]: "go_try m s \<noteq> (Err e, t)"
  by (auto simp: go_try_def split: prod.splits res.splits)

lemma go_try_eq_Panic [go_simps]: "go_try m s = (Panic, t) \<longleftrightarrow> m s = (Panic, t)"
  by (auto simp: go_try_def split: prod.splits res.splits)

lemma must_Ok [go_simps]: "must m s = (Ok x, t) \<longleftrightarrow> m s = (Ok x, t)"
  by (auto simp: must_def split: prod.splits res.splits)

lemma must_Err [go_simps]: "must m s \<noteq> (Err e, t)"
  by (auto simp: must_def split: prod.splits res.splits)

lemma must_Panic [go_simps]: "must m s = (Panic, t) \<longleftrightarrow> m s = (Panic, t) \<or> (\<exists>e. m s = (Err e, t))"
  by (auto simp: must_def split: prod.splits res.splits)

lemmas go_defs = go_bind_def go_ret_def go_fail_def go_panic_def go_lift_def go_gets_def
  go_modify_def go_guard_def go_found_def go_wrap_def go_try_def

text \<open>Loop rules: an invariant every iteration keeps, whatever it returns, holds after the loop.\<close>

lemma for_each_invariant:
  assumes "\<And>x s r t. x \<in> set xs \<Longrightarrow> I s \<Longrightarrow> f x s = (r, t) \<Longrightarrow> I t"
    and "I s" and "for_each f xs s = (r, t)"
  shows "I t"
  using assms
proof (induction xs arbitrary: s)
  case (Cons x xs)
  obtain r1 t1 where f: "f x s = (r1, t1)" by (cases "f x s")
  with Cons.prems(1,2) have I1: "I t1" by (meson list.set_intros(1))
  have tl: "\<And>y s r t. y \<in> set xs \<Longrightarrow> I s \<Longrightarrow> f y s = (r, t) \<Longrightarrow> I t"
    using Cons.prems(1) by (meson list.set_intros(2))
  show ?case using f I1 Cons.prems(3) Cons.IH [OF tl I1] by (cases r1) auto
qed simp

lemma for_acc_invariant:
  assumes "\<And>x a s r t. x \<in> set xs \<Longrightarrow> I s \<Longrightarrow> f x a s = (r, t) \<Longrightarrow> I t"
    and "I s" and "for_acc f xs a s = (r, t)"
  shows "I t"
  using assms
proof (induction xs arbitrary: s a)
  case (Cons x xs)
  obtain r1 t1 where f: "f x a s = (r1, t1)" by (cases "f x a s")
  with Cons.prems(1,2) have I1: "I t1" by (meson list.set_intros(1))
  have tl: "\<And>y a s r t. y \<in> set xs \<Longrightarrow> I s \<Longrightarrow> f y a s = (r, t) \<Longrightarrow> I t"
    using Cons.prems(1) by (meson list.set_intros(2))
  show ?case using f I1 Cons.prems(3) Cons.IH [OF tl I1] by (cases r1) auto
qed simp

lemma for_each_append:
  "for_each f (xs @ ys) s = go_bind (for_each f xs) (\<lambda>_. for_each f ys) s"
  by (induction xs arbitrary: s) (auto simp: go_bind_def split: prod.splits res.splits)

lemma go_bind_invariant:
  assumes "\<And>r t. m s = (r, t) \<Longrightarrow> I t"
    and "\<And>x t r u. m s = (Ok x, t) \<Longrightarrow> I t \<Longrightarrow> f x t = (r, u) \<Longrightarrow> I u"
    and "go_bind m f s = (r, u)"
  shows "I u"
  using assms by (auto simp: go_bind_def split: prod.splits res.splits)

section \<open>What a function keeps\<close>

text \<open>\<open>keeps I m\<close>: whatever \<open>m\<close> returns, a state with \<open>I\<close> is left in one
  with \<open>I\<close>. The rules follow the shape of a function, so that a handler keeps what its calls
  keep.\<close>

definition keeps :: "('s \<Rightarrow> bool) \<Rightarrow> ('s, 'a) go \<Rightarrow> bool" where
  "keeps I m \<longleftrightarrow> (\<forall>s r t. I s \<longrightarrow> m s = (r, t) \<longrightarrow> I t)"

named_theorems keeps_intros \<open>rules for what a function keeps\<close>

lemma keepsI: "(\<And>s r t. I s \<Longrightarrow> m s = (r, t) \<Longrightarrow> I t) \<Longrightarrow> keeps I m"
  by (auto simp: keeps_def)

lemma keepsD: "keeps I m \<Longrightarrow> m s = (r, t) \<Longrightarrow> I s \<Longrightarrow> I t"
  by (auto simp: keeps_def)

lemma keeps_basic [keeps_intros]:
  "keeps I (go_ret x)" "keeps I (go_fail e)" "keeps I go_panic" "keeps I (go_lift q)" "keeps I (go_gets g)"
  "keeps I (go_guard b e)" "keeps I (go_found v e)" "keeps I (\<lambda>s. (h s, s))"
  by (auto simp: keeps_def go_ret_def go_fail_def go_panic_def go_lift_def go_gets_def go_guard_def go_found_def
      split: option.splits if_splits)

lemma keeps_modify [keeps_intros]: "(\<And>s. I s \<Longrightarrow> I (f s)) \<Longrightarrow> keeps I (go_modify f)"
  by (auto simp: keeps_def go_modify_def)

lemma keeps_bind [keeps_intros]: "keeps I m \<Longrightarrow> (\<And>x. keeps I (f x)) \<Longrightarrow> keeps I (go_bind m f)"
  by (rule keepsI) (rule go_bind_invariant [where m = m and f = f and I = I], auto dest: keepsD)

lemma keeps_wrap [keeps_intros]: "keeps I m \<Longrightarrow> keeps I (go_wrap e m)"
  unfolding keeps_def go_wrap_def by (auto split: prod.splits res.splits)

lemma keeps_try [keeps_intros]: "keeps I m \<Longrightarrow> keeps I (go_try m)"
  unfolding keeps_def go_try_def by (auto split: prod.splits res.splits)

lemma keeps_must [keeps_intros]: "keeps I m \<Longrightarrow> keeps I (must m)"
  unfolding keeps_def must_def by (auto split: prod.splits res.splits)

lemma keeps_for_each [keeps_intros]: "(\<And>x. keeps I (f x)) \<Longrightarrow> keeps I (for_each f xs)"
  by (rule keepsI) (rule for_each_invariant [where f = f and xs = xs], auto dest: keepsD)

lemma keeps_for_acc [keeps_intros]: "(\<And>x a. keeps I (f x a)) \<Longrightarrow> keeps I (for_acc f xs a)"
  by (rule keepsI) (rule for_acc_invariant [where f = f and xs = xs and a = a], auto dest: keepsD)

lemma keeps_if [keeps_intros]: "(b \<Longrightarrow> keeps I m) \<Longrightarrow> (\<not> b \<Longrightarrow> keeps I n) \<Longrightarrow> keeps I (if b then m else n)"
  by simp

lemma keeps_option [keeps_intros]:
  "keeps I m \<Longrightarrow> (\<And>v. x = Some v \<Longrightarrow> keeps I (f v)) \<Longrightarrow> keeps I (case x of None \<Rightarrow> m | Some v \<Rightarrow> f v)"
  by (cases x) auto

lemma keeps_res [keeps_intros]:
  "(\<And>v. keeps I (f v)) \<Longrightarrow> (\<And>e. keeps I (g e)) \<Longrightarrow> keeps I h \<Longrightarrow>
     keeps I (case x of Ok v \<Rightarrow> f v | Err e \<Rightarrow> g e | Panic \<Rightarrow> h)"
  by (cases x) auto

lemma keeps_prod [keeps_intros]: "(\<And>a b. keeps I (f a b)) \<Longrightarrow> keeps I (case x of (a, b) \<Rightarrow> f a b)"
  by (cases x) auto

lemma keeps_Let [keeps_intros]: "(\<And>x. keeps I (f x)) \<Longrightarrow> keeps I (let x = a in f x)"
  by simp

section \<open>Machine integers\<close>

type_synonym uint64 = "64 word"

text \<open>A string of the Go code is its bytes.\<close>

type_synonym denom = string
type_synonym address = string

definition int64_wrap :: "int \<Rightarrow> int" where
  "int64_wrap x = (x + 2 ^ 63) mod 2 ^ 64 - 2 ^ 63"

definition is_int64 :: "int \<Rightarrow> bool" where
  "is_int64 x \<longleftrightarrow> - (2 ^ 63) \<le> x \<and> x < 2 ^ 63"

lemma int64_wrap_id [simp]: "is_int64 x \<Longrightarrow> int64_wrap x = x"
  by (simp add: int64_wrap_def is_int64_def)

lemma is_int64_wrap [simp]: "is_int64 (int64_wrap x)"
  using pos_mod_bound [of "2 ^ 64" "x + 2 ^ 63"] pos_mod_sign [of "2 ^ 64" "x + 2 ^ 63"]
  unfolding int64_wrap_def is_int64_def by simp

text \<open>
  The conversions of \<open>spf13/cast\<close> the code uses: \<open>ToUint64E\<close> on an
  \<open>int64\<close> refuses a negative value, \<open>ToInt64E\<close> on a \<open>uint64\<close> refuses one past
  \<open>MaxInt64\<close>, \<open>ToIntE\<close> on a \<open>uint64\<close> is Go's conversion, which reinterprets the
  bits. The variants without \<open>E\<close> give zero where these fail.
\<close>

definition ToUint64E :: "int \<Rightarrow> uint64 res" where
  "ToUint64E x = (if x < 0 then Err Plain else Ok (word_of_int x))"

definition ToInt64E :: "uint64 \<Rightarrow> int res" where
  "ToInt64E w = (if 2 ^ 63 \<le> uint w then Err Plain else Ok (uint w))"

definition ToIntE :: "uint64 \<Rightarrow> int res" where
  "ToIntE w = Ok (sint w)"

definition ToUint64 :: "int \<Rightarrow> uint64" where
  "ToUint64 x = (case ToUint64E x of Ok w \<Rightarrow> w | _ \<Rightarrow> 0)"

definition ToInt64 :: "uint64 \<Rightarrow> int" where
  "ToInt64 w = (case ToInt64E w of Ok x \<Rightarrow> x | _ \<Rightarrow> 0)"

lemma ToInt64E_Ok [go_simps]: "ToInt64E w = Ok x \<longleftrightarrow> uint w < 2 ^ 63 \<and> x = uint w"
  by (auto simp: ToInt64E_def)

lemma ToInt64E_no_panic [simp]: "ToInt64E w \<noteq> Panic"
  by (simp add: ToInt64E_def)

lemma ToUint64E_no_panic [simp]: "ToUint64E x \<noteq> Panic"
  by (simp add: ToUint64E_def)

lemma ToUint64E_Ok: "ToUint64E x = Ok w \<Longrightarrow> is_int64 x \<Longrightarrow> 0 \<le> x \<and> uint w = x"
  by (auto simp: ToUint64E_def is_int64_def uint_word_of_int split: if_splits)

lemma sint_small: "uint (w :: uint64) < 2 ^ 63 \<Longrightarrow> sint w = uint w"
  by (simp add: sint_uint signed_take_bit_eq_if_positive bit_iff_odd drop_bit_eq_div take_bit_int_eq_self)

section \<open>Integer division\<close>

lemma div_bounds:
  "0 < (b::int) \<Longrightarrow> (a div b) * b \<le> a" "0 < (b::int) \<Longrightarrow> a < (a div b) * b + b"
  using pos_mod_sign [of b a] pos_mod_bound [of b a] div_mult_mod_eq [of a b] by linarith+

lemma le_div_iff: "0 < b \<Longrightarrow> c \<le> a div b \<longleftrightarrow> c * b \<le> (a::int)"
proof
  assume "0 < b" "c \<le> a div b"
  then have "c * b \<le> (a div b) * b" by (simp add: mult_right_mono)
  with div_bounds(1) [OF \<open>0 < b\<close>, of a] show "c * b \<le> a" by linarith
next
  assume "0 < b" "c * b \<le> a"
  with zdiv_mono1 [of "c * b" a b] show "c \<le> a div b" by simp
qed

lemma div_less_iff: "0 < b \<Longrightarrow> a div b < c \<longleftrightarrow> (a::int) < c * b"
  using le_div_iff [of b c a] by linarith

section \<open>Lists\<close>

text \<open>The sum a Go loop computes with a running total.\<close>

lemma filter_eq_Nil_iff: "filter P xs = [] \<longleftrightarrow> (\<forall>x\<in>set xs. \<not> P x)"
  by (induction xs) auto

lemma sum_list_map_nonneg: "(\<And>x. x \<in> set xs \<Longrightarrow> (0::int) \<le> f x) \<Longrightarrow> 0 \<le> sum_list (map f xs)"
  by (induction xs) auto

lemma sum_list_map_ge_member:
  "(\<And>x. x \<in> set xs \<Longrightarrow> (0::int) \<le> f x) \<Longrightarrow> y \<in> set xs \<Longrightarrow> f y \<le> sum_list (map f xs)"
proof (induction xs)
  case (Cons x xs)
  then show ?case using sum_list_map_nonneg [of xs f] by fastforce
qed simp

text \<open>The first element that satisfies a predicate, as a search loop with an early return.\<close>

lemma find_key_None: "k \<notin> f ` set xs \<Longrightarrow> List.find (\<lambda>x. f x = k) xs = None"
  by (auto simp: find_None_iff)

lemma find_Some_D: "List.find P xs = Some x \<Longrightarrow> x \<in> set xs \<and> P x"
  by (auto simp: find_Some_iff)

section \<open>Strings\<close>

text \<open>The functions of \<open>strings\<close> and \<open>strconv\<close> the modules call.\<close>

definition HasPrefix :: "string \<Rightarrow> string \<Rightarrow> bool" where
  "HasPrefix s pfx \<longleftrightarrow> take (length pfx) s = pfx"

definition TrimPrefix :: "string \<Rightarrow> string \<Rightarrow> string" where
  "TrimPrefix s pfx = (if HasPrefix s pfx then drop (length pfx) s else s)"

fun split_on :: "char \<Rightarrow> string \<Rightarrow> string list" where
  "split_on sep [] = [[]]"
| "split_on sep (c # cs) =
     (if c = sep then [] # split_on sep cs
      else case split_on sep cs of [] \<Rightarrow> [[c]] | w # ws \<Rightarrow> (c # w) # ws)"

definition is_space :: "char \<Rightarrow> bool" where
  "is_space ch \<longleftrightarrow> (of_char ch :: nat) \<in> set [9, 10, 11, 12, 13, 32]"

text \<open>\<open>%d\<close> of a \<open>uint64\<close>.\<close>

definition digit_char :: "nat \<Rightarrow> char" where
  "digit_char n = char_of (48 + n)"

fun decimal :: "nat \<Rightarrow> string" where
  "decimal n = (if n < 10 then [digit_char n] else decimal (n div 10) @ [digit_char (n mod 10)])"

declare decimal.simps [simp del]

definition Itoa :: "int \<Rightarrow> string" where
  "Itoa i = (if i < 0 then CHR ''-'' # decimal (nat (- i)) else decimal (nat i))"

lemma HasPrefix_append [simp]: "HasPrefix (pfx @ s) pfx"
  by (simp add: HasPrefix_def)

lemma HasPrefix_iff: "HasPrefix s pfx \<longleftrightarrow> (\<exists>s'. s = pfx @ s')"
  unfolding HasPrefix_def by (metis append_take_drop_id append_eq_conv_conj)

lemma TrimPrefix_append [simp]: "TrimPrefix (pfx @ s) pfx = s"
  by (simp add: TrimPrefix_def)

end
