(* ===== verification/KVStore.thy ===== *)
theory KVStore
  imports Prelude
begin

text \<open>
  The key-value stores of the modules. Every keeper of the repository keeps its items under
  \<open>prefix.NewStore(ctx.KVStore(storeKey), prefix)\<close>, reads them back with \<open>Get\<close>, writes
  them with \<open>Set\<close>, removes them with \<open>Delete\<close> and walks them with an iterator in the
  order of their keys.

  A store is the association list the iterator walks, sorted by key. The values are the structs
  themselves: \<open>cdc.MustMarshal\<close> and \<open>cdc.MustUnmarshal\<close> are taken to be inverse to each
  other. \<open>item_store\<close> is the contract the keepers give their clients: an item carries its own
  key, a set is read back by that key and touches no other, the listing holds exactly what can be
  read. The module keepers interpret it on their own operations. \<open>genesis_store\<close> adds the
  empty store, and what a genesis import followed by an export gives back.
\<close>

type_synonym ('k, 'v) kvstore = "('k \<times> 'v) list"

definition kv_get :: "('k, 'v) kvstore \<Rightarrow> 'k \<Rightarrow> 'v option" where
  "kv_get m k = map_of m k"

fun kv_set :: "'k::linorder \<Rightarrow> 'v \<Rightarrow> ('k, 'v) kvstore \<Rightarrow> ('k, 'v) kvstore" where
  "kv_set k v [] = [(k, v)]"
| "kv_set k v ((k', v') # m) =
     (if k < k' then (k, v) # (k', v') # m
      else if k = k' then (k, v) # m
      else (k', v') # kv_set k v m)"

definition kv_delete :: "'k \<Rightarrow> ('k, 'v) kvstore \<Rightarrow> ('k, 'v) kvstore" where
  "kv_delete k m = filter (\<lambda>e. fst e \<noteq> k) m"

definition kv_values :: "('k, 'v) kvstore \<Rightarrow> 'v list" where
  "kv_values m = map snd m"

definition kv_sorted :: "('k::linorder, 'v) kvstore \<Rightarrow> bool" where
  "kv_sorted m = sorted_wrt (<) (map fst m)"

named_theorems store_simps \<open>reading a store back\<close>

lemma kv_get_Nil [simp]: "kv_get [] k = None"
  by (simp add: kv_get_def)

lemma kv_get_set [store_simps, simp]:
  "kv_get (kv_set k v m) k' = (if k' = k then Some v else kv_get m k')"
  by (induction m) (auto simp: kv_get_def)

lemma kv_get_delete [store_simps, simp]:
  "kv_get (kv_delete k m) k' = (if k' = k then None else kv_get m k')"
  by (induction m) (auto simp: kv_get_def kv_delete_def)

lemma fst_set_kv_set: "fst ` set (kv_set k v m) = insert k (fst ` set m)"
proof (induction m)
  case (Cons e m)
  then show ?case by (cases e) (simp add: insert_commute)
qed simp

lemma set_kv_set_subset: "set (kv_set k v m) \<subseteq> insert (k, v) (set m)"
  by (induction m) (auto split: if_splits)

lemma kv_sorted_Nil [simp]: "kv_sorted []"
  by (simp add: kv_sorted_def)

lemma kv_sorted_set [simp]: "kv_sorted m \<Longrightarrow> kv_sorted (kv_set k v m)"
proof (induction m)
  case (Cons e m)
  obtain k' v' where e: "e = (k', v')" by (cases e)
  have "fst ` set (kv_set k v m) = insert k (fst ` set m)" by (rule fst_set_kv_set)
  with Cons e show ?case by (auto simp: kv_sorted_def)
qed (simp add: kv_sorted_def)

lemma kv_sorted_delete [simp]: "kv_sorted m \<Longrightarrow> kv_sorted (kv_delete k m)"
  by (induction m) (auto simp: kv_sorted_def kv_delete_def)

lemma kv_sorted_distinct: "kv_sorted m \<Longrightarrow> distinct (map fst m)"
  using strict_sorted_iff by (auto simp: kv_sorted_def)

lemma kv_get_iff_mem: "kv_sorted m \<Longrightarrow> kv_get m k = Some v \<longleftrightarrow> (k, v) \<in> set m"
  by (simp add: kv_get_def kv_sorted_distinct)

lemma kv_values_iff: "kv_sorted m \<Longrightarrow> v \<in> set (kv_values m) \<longleftrightarrow> (\<exists>k. kv_get m k = Some v)"
  by (force simp: kv_values_def kv_get_iff_mem)

lemma kv_ext:
  assumes "kv_sorted m" "kv_sorted m'" "\<And>k. kv_get m k = kv_get m' k"
  shows "m = m'"
proof -
  have "set m = set m'"
    using assms by (auto simp flip: kv_get_iff_mem)
  moreover have "distinct m" "distinct m'"
    using assms kv_sorted_distinct distinct_map by blast+
  moreover have "sorted (map fst m)" "sorted (map fst m')" "inj_on fst (set m)"
    using assms kv_sorted_distinct
    by (auto simp: kv_sorted_def strict_sorted_iff distinct_map)
  ultimately show ?thesis
    by (metis map_sorted_distinct_set_unique Un_absorb assms(1,2) kv_sorted_distinct)
qed

text \<open>Every entry of a keeper's store is filed under its own key.\<close>

definition kv_keyed :: "('v \<Rightarrow> 'k) \<Rightarrow> ('k::linorder, 'v) kvstore \<Rightarrow> bool" where
  "kv_keyed key m \<longleftrightarrow> kv_sorted m \<and> (\<forall>e\<in>set m. fst e = key (snd e))"

lemma kv_keyed_Nil [simp]: "kv_keyed key []"
  by (simp add: kv_keyed_def)

lemma kv_keyed_set [simp]: "kv_keyed key m \<Longrightarrow> kv_keyed key (kv_set (key v) v m)"
  using set_kv_set_subset [of "key v" v m] by (auto simp: kv_keyed_def)

lemma kv_keyed_delete [simp]: "kv_keyed key m \<Longrightarrow> kv_keyed key (kv_delete k m)"
  by (auto simp: kv_keyed_def kv_delete_def kv_sorted_delete [unfolded kv_delete_def])

lemma kv_keyed_get: "kv_keyed key m \<Longrightarrow> kv_get m k = Some v \<Longrightarrow> k = key v"
  by (auto simp: kv_keyed_def kv_get_iff_mem)

lemma kv_keyed_values_iff:
  "kv_keyed key m \<Longrightarrow> v \<in> set (kv_values m) \<longleftrightarrow> kv_get m (key v) = Some v"
  by (force simp: kv_keyed_def kv_values_def kv_get_iff_mem)

lemma kv_keyed_values_keys: "kv_keyed key m \<Longrightarrow> map key (kv_values m) = map fst m"
  by (auto simp: kv_keyed_def kv_values_def)

lemma kv_keyed_values_sorted:
  "kv_keyed key m \<Longrightarrow> sorted_wrt (<) (map key (kv_values m))"
  by (simp add: kv_keyed_values_keys) (simp add: kv_keyed_def kv_sorted_def)

text \<open>Setting the items of a store one by one into an empty one, as a genesis import does.\<close>

lemma kv_set_last: "(\<forall>e\<in>set m. fst e < k) \<Longrightarrow> kv_set k v m = m @ [(k, v)]"
  by (induction m) auto

lemma kv_import: "kv_keyed key m \<Longrightarrow> fold (\<lambda>v. kv_set (key v) v) (kv_values m) [] = m"
proof (induction m rule: rev_induct)
  case (snoc e m)
  then have m: "kv_keyed key m" and less: "\<forall>e'\<in>set m. fst e' < fst e" and "fst e = key (snd e)"
    by (fastforce simp: kv_keyed_def kv_sorted_def sorted_wrt_append)+
  with snoc.IH kv_set_last [OF less] show ?case by (cases e) (simp add: kv_values_def)
qed (simp add: kv_values_def)

section \<open>The contract of a module's item keeper\<close>

locale item_store =
  fixes key :: "'v \<Rightarrow> 'k::linorder"
    and get :: "'s \<Rightarrow> 'k \<Rightarrow> 'v option"
    and put :: "'v \<Rightarrow> 's \<Rightarrow> 's"
    and del :: "'k \<Rightarrow> 's \<Rightarrow> 's"
    and listing :: "'s \<Rightarrow> 'v list"
    and wf :: "'s \<Rightarrow> bool"
  assumes get_put: "get (put v s) k = (if k = key v then Some v else get s k)"
    and get_del: "get (del k s) k' = (if k' = k then None else get s k')"
    and wf_put: "wf s \<Longrightarrow> wf (put v s)"
    and wf_del: "wf s \<Longrightarrow> wf (del k s)"
    and get_key: "wf s \<Longrightarrow> get s k = Some v \<Longrightarrow> key v = k"
    and listing_iff: "wf s \<Longrightarrow> v \<in> set (listing s) \<longleftrightarrow> get s (key v) = Some v"
    and listing_sorted: "wf s \<Longrightarrow> sorted_wrt (<) (map key (listing s))"
begin

lemma get_put_same: "get (put v s) (key v) = Some v"
  by (simp add: get_put)

lemma get_put_other: "k \<noteq> key v \<Longrightarrow> get (put v s) k = get s k"
  by (simp add: get_put)

lemma listing_distinct_keys: "wf s \<Longrightarrow> distinct (map key (listing s))"
  using listing_sorted strict_sorted_iff by blast

lemma listing_put_iff:
  "wf s \<Longrightarrow> w \<in> set (listing (put v s)) \<longleftrightarrow> w = v \<or> (w \<in> set (listing s) \<and> key w \<noteq> key v)"
  by (auto simp: listing_iff wf_put get_put)

lemma listing_del_iff:
  "wf s \<Longrightarrow> w \<in> set (listing (del k s)) \<longleftrightarrow> w \<in> set (listing s) \<and> key w \<noteq> k"
  by (auto simp: listing_iff wf_del get_del)

lemma wf_fold_put: "wf s \<Longrightarrow> wf (fold put vs s)"
  by (induction vs arbitrary: s) (auto intro: wf_put)

text \<open>A later \<open>Set\<close> under the same key wins.\<close>

lemma get_fold_put:
  "get (fold put vs s) k =
     (case List.find (\<lambda>v. key v = k) (rev vs) of Some v \<Rightarrow> Some v | None \<Rightarrow> get s k)"
proof (induction vs rule: rev_induct)
  case (snoc v vs)
  then show ?case by (auto simp: get_put)
qed simp

lemma find_key_distinct:
  "distinct (map key vs) \<Longrightarrow> v \<in> set vs \<Longrightarrow> List.find (\<lambda>w. key w = key v) vs = Some v"
  by (induction vs) (auto simp: rev_image_eqI)

lemma get_fold_put_distinct:
  assumes "distinct (map key vs)"
  shows "get (fold put vs s) (key v) = Some v \<longleftrightarrow>
     v \<in> set vs \<or> (key v \<notin> key ` set vs \<and> get s (key v) = Some v)"
proof (cases "key v \<in> key ` set vs")
  case True
  then obtain w where w: "w \<in> set vs" "key v = key w" by auto
  have "List.find (\<lambda>x. key x = key w) (rev vs) = Some w"
    using assms w by (intro find_key_distinct) (auto simp flip: rev_map)
  with w have g: "get (fold put vs s) (key v) = Some w"
    by (simp add: get_fold_put)
  have "v \<in> set vs \<Longrightarrow> v = w"
    using assms w by (auto simp: distinct_map inj_on_def)
  with g w True show ?thesis by auto
next
  case False
  then have "List.find (\<lambda>x. key x = key v) (rev vs) = None"
    by (intro find_key_None) simp
  with False show ?thesis by (auto simp: get_fold_put)
qed

text \<open>A loop over the listing that writes back some of the items, keys unchanged.\<close>

lemma listing_inj:
  "wf s \<Longrightarrow> v \<in> set (listing s) \<Longrightarrow> w \<in> set (listing s) \<Longrightarrow> key v = key w \<Longrightarrow> v = w"
  using listing_distinct_keys by (auto simp: distinct_map inj_on_def)

lemma mem_update_some:
  assumes wf: "wf s" and g: "\<And>v. key (g v) = key v"
  shows "x \<in> set (listing (fold put (map g (filter P (listing s))) s)) \<longleftrightarrow>
    (\<exists>v\<in>set (listing s). x = (if P v then g v else v))"
proof -
  let ?rs = "map g (filter P (listing s))"
  have "map key ?rs = map key (filter P (listing s))" by (simp add: g)
  moreover have "distinct (map key (filter P (listing s)))"
    using listing_distinct_keys [OF wf] by (rule distinct_map_filter)
  ultimately have dist: "distinct (map key ?rs)" by (simp only:)
  have mem: "x \<in> set (listing (fold put ?rs s)) \<longleftrightarrow>
      x \<in> set ?rs \<or> (key x \<notin> key ` set ?rs \<and> x \<in> set (listing s))"
    using wf by (simp only: listing_iff [OF wf_fold_put] listing_iff get_fold_put_distinct [OF dist])
  have key_rs: "k \<in> key ` set ?rs \<longleftrightarrow> (\<exists>w\<in>set (listing s). P w \<and> key w = k)" for k
    by (auto simp: g image_iff)
  show ?thesis
  proof
    assume "x \<in> set (listing (fold put ?rs s))"
    then consider "x \<in> set ?rs" | "key x \<notin> key ` set ?rs" "x \<in> set (listing s)"
      unfolding mem by blast
    then show "\<exists>v\<in>set (listing s). x = (if P v then g v else v)"
    proof cases
      case 2
      then have "\<not> P x" unfolding key_rs by blast
      with 2 show ?thesis by (intro bexI [of _ x]) simp_all
    qed auto
  next
    assume "\<exists>v\<in>set (listing s). x = (if P v then g v else v)"
    then obtain v where v: "v \<in> set (listing s)" "x = (if P v then g v else v)" by blast
    show "x \<in> set (listing (fold put ?rs s))"
    proof (cases "P v")
      case True
      with v show ?thesis unfolding mem by simp
    next
      case False
      then have "key v \<notin> key ` set ?rs"
        unfolding key_rs using listing_inj [OF wf _ v(1)] by blast
      with v False show ?thesis unfolding mem by simp
    qed
  qed
qed

lemma listing_update_some:
  assumes wf: "wf s" and g: "\<And>v. key (g v) = key v"
  shows "listing (fold put (map g (filter P (listing s))) s) =
    map (\<lambda>v. if P v then g v else v) (listing s)" (is "listing ?t = map ?h _")
proof -
  have wft: "wf ?t" using wf by (rule wf_fold_put)
  have mk: "map key (map ?h (listing s)) = map key (listing s)" by (simp add: g)
  have "set (listing ?t) = ?h ` set (listing s)"
    using mem_update_some [OF wf g] by blast
  then have sets: "set (listing ?t) = set (map ?h (listing s))" by simp
  have sorted: "sorted (map key (listing ?t))" "sorted (map key (map ?h (listing s)))"
    "distinct (map key (listing ?t))" "distinct (map key (map ?h (listing s)))"
    unfolding mk using wf wft listing_sorted listing_distinct_keys strict_sorted_iff by blast+
  have "inj_on key (set (listing ?t) \<union> set (map ?h (listing s)))"
    using sorted(3) unfolding sets [symmetric] Un_absorb by (simp add: distinct_map)
  then show ?thesis
    using sorted(1,3,2,4) sets by (rule map_sorted_distinct_set_unique)
qed

end

text \<open>
  Genesis: \<open>InitGenesis\<close> sets the exported items one by one into an empty store. The
  listing determines the store's contents, so an export can be imported back unchanged.
\<close>

locale genesis_store = item_store +
  fixes fresh :: "'c"
  assumes wf_fresh: "wf fresh" and get_fresh: "get fresh k = None"
begin

lemma import_get:
  assumes "wf s"
  shows "get (fold put (listing s) fresh) k = get s k"
proof (cases "get s k")
  case None
  have "List.find (\<lambda>v. key v = k) (rev (listing s)) = None"
    using None assms by (auto simp: find_None_iff listing_iff)
  with None show ?thesis by (simp add: get_fold_put get_fresh)
next
  case (Some v)
  with assms have k: "k = key v" by (simp add: get_key)
  with Some assms have "v \<in> set (listing s)" by (simp add: listing_iff)
  with assms have "get (fold put (listing s) fresh) (key v) = Some v"
    by (simp add: get_fold_put_distinct listing_distinct_keys)
  with Some k show ?thesis by simp
qed

lemma import_listing:
  assumes "wf s"
  shows "listing (fold put (listing s) fresh) = listing s"
proof -
  let ?t = "fold put (listing s) fresh"
  have wf: "wf ?t" by (simp add: wf_fold_put wf_fresh)
  have "set (listing ?t) = set (listing s)"
    using assms wf by (auto simp: listing_iff import_get)
  moreover have "sorted (map key (listing ?t))" "sorted (map key (listing s))"
    "distinct (map key (listing ?t))" "distinct (map key (listing s))"
    using wf assms listing_sorted listing_distinct_keys strict_sorted_iff by blast+
  ultimately show ?thesis
    by (metis map_sorted_distinct_set_unique distinct_map Un_absorb)
qed

end

text \<open>
  The store of one item type alone satisfies the contract; a module whose state has several
  stores gets it for each of them from its own accessors.
\<close>

lemma item_store_kv:
  "item_store key kv_get (\<lambda>v. kv_set (key v) v) kv_delete kv_values (kv_keyed key)"
  by unfold_locales
    (auto simp: kv_keyed_values_iff kv_keyed_values_sorted dest: kv_keyed_get)

end
