(* ===== verification/SdkMath.thy ===== *)
theory SdkMath
  imports KVStore "HOL-Library.Log_Nat"
begin

text \<open>
  \<open>cosmossdk.io/math\<close>: the signed integers (\<open>int.go\<close>) and the 18-digit fixed-point
  decimals (\<open>dec.go\<close>) all amounts and rates of the modules are made of.

  An \<open>Int\<close> is a big integer of at most 256 bits; every operation that would exceed them
  panics. A \<open>Dec\<close> is its numerator over \<open>10 ^ 18\<close>, of at most 315 bits. \<open>Quo\<close> of
  the big integers truncates toward zero and panics on a zero divisor; \<open>Mul\<close> and \<open>Quo\<close>
  of the decimals round half to even. The lemmas give each operation's exact error bound, which
  the staking components use to bound what rounding can move.
\<close>

type_synonym Dec = int

definition BitLen :: "int \<Rightarrow> int" where
  "BitLen x = bitlen \<bar>x\<bar>"

abbreviation (input) MaxBitLen :: int where "MaxBitLen \<equiv> 256"
abbreviation (input) maxDecBitLen :: int where "maxDecBitLen \<equiv> 315"

text \<open>The quotient of two big integers, truncated toward zero.\<close>

definition big_quo :: "int \<Rightarrow> int \<Rightarrow> int" where
  "big_quo a b = sgn a * sgn b * (\<bar>a\<bar> div \<bar>b\<bar>)"

definition NewIntFromBigInt :: "int \<Rightarrow> int res" where
  "NewIntFromBigInt x = (if BitLen x > MaxBitLen then Panic else Ok x)"

definition Int_Add :: "int \<Rightarrow> int \<Rightarrow> int res" where
  "Int_Add a b = (if BitLen (a + b) > MaxBitLen then Panic else Ok (a + b))"

definition Int_Sub :: "int \<Rightarrow> int \<Rightarrow> int res" where
  "Int_Sub a b = (if BitLen (a - b) > MaxBitLen then Panic else Ok (a - b))"

definition Int_Mul :: "int \<Rightarrow> int \<Rightarrow> int res" where
  "Int_Mul a b =
     (if BitLen a + BitLen b - 1 > MaxBitLen then Panic
      else if BitLen (a * b) > MaxBitLen then Panic else Ok (a * b))"

definition Int_Quo :: "int \<Rightarrow> int \<Rightarrow> int res" where
  "Int_Quo a b = (if b = 0 then Panic else Ok (big_quo a b))"

section \<open>Decimals\<close>

definition precisionReuse :: int where
  "precisionReuse = 10 ^ 18"

definition fivePrecision :: int where
  "fivePrecision = big_quo precisionReuse 2"

definition NewDec :: "int \<Rightarrow> Dec" where
  "NewDec i = i * precisionReuse"

definition NewDecFromInt :: "int \<Rightarrow> Dec" where
  "NewDecFromInt i = i * precisionReuse"

definition ZeroDec :: Dec where "ZeroDec = 0"
definition OneDec :: Dec where "OneDec = precisionReuse"

text \<open>Banker's rounding of the last 18 digits, the sign taken off and put back.\<close>

definition chop_nonneg :: "int \<Rightarrow> int" where
  "chop_nonneg d =
     (let quo = d div precisionReuse; rem = d mod precisionReuse in
      if rem = 0 then quo
      else if rem < fivePrecision then quo
      else if rem > fivePrecision then quo + 1
      else if even quo then quo else quo + 1)"

definition chopPrecisionAndRound :: "int \<Rightarrow> int" where
  "chopPrecisionAndRound d = (if d < 0 then - chop_nonneg (- d) else chop_nonneg d)"

definition chopPrecisionAndTruncate :: "int \<Rightarrow> int" where
  "chopPrecisionAndTruncate d = big_quo d precisionReuse"

definition Dec_Add :: "Dec \<Rightarrow> Dec \<Rightarrow> Dec res" where
  "Dec_Add d d2 = (if BitLen (d + d2) > maxDecBitLen then Panic else Ok (d + d2))"

definition Dec_Sub :: "Dec \<Rightarrow> Dec \<Rightarrow> Dec res" where
  "Dec_Sub d d2 = (if BitLen (d - d2) > maxDecBitLen then Panic else Ok (d - d2))"

definition Dec_Mul :: "Dec \<Rightarrow> Dec \<Rightarrow> Dec res" where
  "Dec_Mul d d2 =
     (let chopped = chopPrecisionAndRound (d * d2) in
      if BitLen chopped > maxDecBitLen then Panic else Ok chopped)"

definition Dec_Quo :: "Dec \<Rightarrow> Dec \<Rightarrow> Dec res" where
  "Dec_Quo d d2 =
     (if d2 = 0 then Panic
      else let q = chopPrecisionAndRound (big_quo (d * (precisionReuse * precisionReuse)) d2) in
        if BitLen q > maxDecBitLen then Panic else Ok q)"

definition Dec_TruncateInt :: "Dec \<Rightarrow> int res" where
  "Dec_TruncateInt d = NewIntFromBigInt (chopPrecisionAndTruncate d)"

definition Dec_RoundInt :: "Dec \<Rightarrow> int res" where
  "Dec_RoundInt d = NewIntFromBigInt (chopPrecisionAndRound d)"

section \<open>Running and inverting the operations\<close>

lemma BitLen_gt_iff [simp]: "BitLen x > 256 \<longleftrightarrow> 2 ^ 256 \<le> \<bar>x\<bar>"
  using bitlen_le_iff_power [of "\<bar>x\<bar>" 256]
  by (simp only: BitLen_def) (metis nat_numeral not_le zero_le_numeral)

lemma BitLen_dec_gt_iff [simp]: "BitLen x > 315 \<longleftrightarrow> 2 ^ 315 \<le> \<bar>x\<bar>"
  using bitlen_le_iff_power [of "\<bar>x\<bar>" 315]
  by (simp only: BitLen_def) (metis nat_numeral not_le zero_le_numeral)

lemma BitLen_lower: "x \<noteq> 0 \<Longrightarrow> 1 \<le> BitLen x \<and> 2 ^ nat (BitLen x - 1) \<le> \<bar>x\<bar>"
  using bitlen_bounds [of "\<bar>x\<bar>"] bitlen_nonneg [of "\<bar>x\<bar>"] bitlen_eq_zero_iff [of "\<bar>x\<bar>"]
  by (auto simp: BitLen_def)

definition fits :: "int \<Rightarrow> bool" where
  "fits x \<longleftrightarrow> \<bar>x\<bar> < 2 ^ 256"

definition fits_dec :: "Dec \<Rightarrow> bool" where
  "fits_dec x \<longleftrightarrow> \<bar>x\<bar> < 2 ^ 315"

lemma Int_Add_eq: "Int_Add a b = (if fits (a + b) then Ok (a + b) else Panic)"
  by (simp add: Int_Add_def fits_def del: power_numeral)

lemma Int_Sub_eq: "Int_Sub a b = (if fits (a - b) then Ok (a - b) else Panic)"
  by (simp add: Int_Sub_def fits_def del: power_numeral)

lemma NewIntFromBigInt_eq: "NewIntFromBigInt a = (if fits a then Ok a else Panic)"
  by (simp add: NewIntFromBigInt_def fits_def del: power_numeral)

lemma Int_Add_Ok [go_simps]: "Int_Add a b = Ok c \<longleftrightarrow> fits (a + b) \<and> c = a + b"
  by (auto simp: Int_Add_eq)

lemma Int_Sub_Ok [go_simps]: "Int_Sub a b = Ok c \<longleftrightarrow> fits (a - b) \<and> c = a - b"
  by (auto simp: Int_Sub_eq)

lemma NewIntFromBigInt_Ok [go_simps]: "NewIntFromBigInt a = Ok c \<longleftrightarrow> fits a \<and> c = a"
  by (auto simp: NewIntFromBigInt_eq)

lemma Int_no_Err [go_simps]:
  "Int_Add a b \<noteq> Err e" "Int_Sub a b \<noteq> Err e" "Int_Mul a b \<noteq> Err e" "Int_Quo a b \<noteq> Err e"
  "NewIntFromBigInt a \<noteq> Err e"
  by (auto simp: Int_Add_def Int_Sub_def Int_Mul_def Int_Quo_def NewIntFromBigInt_def)

lemma Int_Mul_Ok: "Int_Mul a b = Ok c \<Longrightarrow> c = a * b \<and> fits (a * b)"
  by (auto simp: Int_Mul_def fits_def not_le split: if_splits simp del: power_numeral)

lemma Int_Quo_Ok [go_simps]: "Int_Quo a b = Ok c \<longleftrightarrow> b \<noteq> 0 \<and> c = big_quo a b"
  by (auto simp: Int_Quo_def)

text \<open>The first overflow test of \<open>Mul\<close> never refuses a product that fits.\<close>

lemma Int_Mul_fits:
  assumes "fits a" "fits b" "fits (a * b)"
  shows "Int_Mul a b = Ok (a * b)"
proof -
  have "BitLen a + BitLen b - 1 \<le> 256"
  proof (cases "a = 0 \<or> b = 0")
    case True
    moreover have "BitLen a \<le> 256" "BitLen b \<le> 256"
      using assms BitLen_gt_iff [of a] BitLen_gt_iff [of b] unfolding fits_def by linarith+
    moreover have "BitLen 0 = 0" by (simp add: BitLen_def)
    ultimately show ?thesis by auto
  next
    case False
    define m n where "m = nat (BitLen a - 1)" and "n = nat (BitLen b - 1)"
    have m: "2 ^ m \<le> \<bar>a\<bar>" "BitLen a = int m + 1" and n: "2 ^ n \<le> \<bar>b\<bar>" "BitLen b = int n + 1"
      using False BitLen_lower [of a] BitLen_lower [of b] by (auto simp: m_def n_def)
    have "(2::int) ^ (m + n) \<le> \<bar>a * b\<bar>"
      using mult_mono [OF m(1) n(1)] by (simp add: power_add abs_mult)
    also have "\<dots> < 2 ^ 256" using assms(3) by (simp add: fits_def)
    finally have "m + n < 256" by (simp only: power_strict_increasing_iff)
    then show ?thesis using m n by simp
  qed
  moreover have "\<not> BitLen (a * b) > 256"
    using assms(3) unfolding BitLen_gt_iff fits_def by simp
  ultimately show ?thesis by (simp add: Int_Mul_def)
qed

lemma big_quo_pos: "0 \<le> a \<Longrightarrow> 0 < b \<Longrightarrow> big_quo a b = a div b"
  by (cases "a = 0") (auto simp: big_quo_def)

lemma big_quo_nonneg: "0 \<le> a \<Longrightarrow> 0 \<le> b \<Longrightarrow> 0 \<le> big_quo a b"
proof (cases "b = 0")
  case False
  assume "0 \<le> a" "0 \<le> b"
  with False have "big_quo a b = a div b" "0 < b" by (simp_all add: big_quo_pos)
  then show ?thesis using \<open>0 \<le> a\<close> by (simp add: pos_imp_zdiv_nonneg_iff)
qed (simp add: big_quo_def)

lemma fivePrecision_val [simp]: "fivePrecision = 500000000000000000"
  by (simp add: fivePrecision_def precisionReuse_def big_quo_def)

lemma precisionReuse_pos [simp]:
  "0 < precisionReuse" "0 \<le> precisionReuse" "precisionReuse \<noteq> 0"
  by (simp_all add: precisionReuse_def)

section \<open>Rounding bounds\<close>

lemma chop_nonneg_exact [simp]: "chop_nonneg (x * precisionReuse) = x"
  by (simp add: chop_nonneg_def)

lemma chop_nonneg_cases:
  "chop_nonneg d = d div precisionReuse \<and> 2 * (d mod precisionReuse) \<le> precisionReuse \<or>
   chop_nonneg d = d div precisionReuse + 1 \<and> precisionReuse \<le> 2 * (d mod precisionReuse)"
  by (auto simp: chop_nonneg_def Let_def precisionReuse_def)

lemma chop_nonneg_bounds:
  shows "2 * (chop_nonneg d * precisionReuse) \<le> 2 * d + precisionReuse"
    and "2 * d \<le> 2 * (chop_nonneg d * precisionReuse) + precisionReuse"
proof -
  define q r where "q = d div precisionReuse" and "r = d mod precisionReuse"
  have d: "d = q * precisionReuse + r" and r: "0 \<le> r" "r < precisionReuse"
    by (simp_all add: q_def r_def)
  have "chop_nonneg d = q \<and> 2 * r \<le> precisionReuse \<or>
      chop_nonneg d = q + 1 \<and> precisionReuse \<le> 2 * r"
    using chop_nonneg_cases [of d] by (simp add: q_def r_def)
  then show "2 * (chop_nonneg d * precisionReuse) \<le> 2 * d + precisionReuse"
    and "2 * d \<le> 2 * (chop_nonneg d * precisionReuse) + precisionReuse"
    using d r by (auto simp: distrib_right)
qed

lemma chop_nonneg_ge_0: "0 \<le> d \<Longrightarrow> 0 \<le> chop_nonneg d"
  using chop_nonneg_cases [of d] by (auto simp: pos_imp_zdiv_nonneg_iff)

text \<open>A value strictly below the midpoint above \<open>n\<close> is not rounded past \<open>n\<close>.\<close>

lemma chop_nonneg_le:
  assumes "2 * d < 2 * (n * precisionReuse) + precisionReuse"
  shows "chop_nonneg d \<le> n"
proof (rule ccontr)
  assume "\<not> chop_nonneg d \<le> n"
  then have "(n + 1) * precisionReuse \<le> chop_nonneg d * precisionReuse"
    by (intro mult_right_mono) auto
  with assms chop_nonneg_bounds(1) [of d] show False by (simp add: algebra_simps)
qed

lemma chopPrecisionAndRound_nonneg: "0 \<le> d \<Longrightarrow> chopPrecisionAndRound d = chop_nonneg d"
  by (simp add: chopPrecisionAndRound_def)

lemma chopPrecisionAndRound_error:
  "2 * \<bar>chopPrecisionAndRound d * precisionReuse - d\<bar> \<le> precisionReuse"
  using chop_nonneg_bounds [of d] chop_nonneg_bounds [of "- d"]
  by (auto simp: chopPrecisionAndRound_def abs_if)

lemma chopPrecisionAndRound_exact [simp]: "chopPrecisionAndRound (x * precisionReuse) = x"
  using chop_nonneg_exact [of x] chop_nonneg_exact [of "- x"]
  by (simp add: chopPrecisionAndRound_def del: chop_nonneg_exact)

lemma Dec_Add_Ok [go_simps]: "Dec_Add a b = Ok c \<longleftrightarrow> fits_dec (a + b) \<and> c = a + b"
  by (auto simp: Dec_Add_def fits_dec_def not_le simp del: power_numeral)

lemma Dec_Sub_Ok [go_simps]: "Dec_Sub a b = Ok c \<longleftrightarrow> fits_dec (a - b) \<and> c = a - b"
  by (auto simp: Dec_Sub_def fits_dec_def not_le simp del: power_numeral)

lemma Dec_Mul_Ok [go_simps]:
  "Dec_Mul a b = Ok c \<longleftrightarrow> c = chopPrecisionAndRound (a * b) \<and> fits_dec c"
  by (auto simp: Dec_Mul_def fits_dec_def Let_def not_le simp del: power_numeral)

lemma Dec_Quo_Ok [go_simps]:
  "Dec_Quo a b = Ok c \<longleftrightarrow>
     b \<noteq> 0 \<and> c = chopPrecisionAndRound (big_quo (a * (precisionReuse * precisionReuse)) b) \<and> fits_dec c"
  by (auto simp: Dec_Quo_def fits_dec_def Let_def not_le simp del: power_numeral)

lemma Dec_TruncateInt_Ok [go_simps]:
  "Dec_TruncateInt d = Ok n \<longleftrightarrow> n = chopPrecisionAndTruncate d \<and> fits n"
  by (auto simp: Dec_TruncateInt_def go_simps)

lemma Dec_RoundInt_Ok [go_simps]:
  "Dec_RoundInt d = Ok n \<longleftrightarrow> n = chopPrecisionAndRound d \<and> fits n"
  by (auto simp: Dec_RoundInt_def go_simps)

lemma Dec_no_Err [go_simps]:
  "Dec_Add a b \<noteq> Err e" "Dec_Sub a b \<noteq> Err e" "Dec_Mul a b \<noteq> Err e" "Dec_Quo a b \<noteq> Err e"
  "Dec_TruncateInt a \<noteq> Err e" "Dec_RoundInt a \<noteq> Err e"
  by (auto simp: Dec_Add_def Dec_Sub_def Dec_Mul_def Dec_Quo_def Dec_TruncateInt_def
      Dec_RoundInt_def Let_def go_simps)

lemma truncate_nonneg: "0 \<le> d \<Longrightarrow> chopPrecisionAndTruncate d = d div precisionReuse"
  by (simp add: chopPrecisionAndTruncate_def big_quo_pos)

lemma truncate_le: "0 \<le> d \<Longrightarrow> chopPrecisionAndTruncate d * precisionReuse \<le> d"
  by (simp add: truncate_nonneg) (metis div_mult_mod_eq le_add_same_cancel1 pos_mod_sign precisionReuse_pos(1))

text \<open>
  The round trip behind liquid staking: \<open>amount / rate\<close> truncated to an integer and
  multiplied back by the same \<open>rate\<close>, rounded, is at most \<open>amount\<close>, although both
  operations round half to even. The rate has to stay below \<open>10 ^ 18\<close> (numerator below
  \<open>10 ^ 36\<close>): past that, half a unit of the quotient's last digit is worth half a token.
\<close>

lemma stake_redeem_le:
  assumes "0 \<le> amt" "0 < rate" "rate < precisionReuse * precisionReuse"
  defines "q \<equiv> chopPrecisionAndRound (big_quo (NewDecFromInt amt * (precisionReuse * precisionReuse)) rate)"
  defines "st \<equiv> chopPrecisionAndTruncate q"
  shows "chopPrecisionAndRound (st * rate) \<le> amt" and "0 \<le> st"
proof -
  let ?P = precisionReuse
  define X where "X = amt * (?P * ?P * ?P) div rate"
  have X: "big_quo (NewDecFromInt amt * (?P * ?P)) rate = X" "0 \<le> X"
    using assms(1,2)
    by (simp_all add: big_quo_pos NewDecFromInt_def X_def pos_imp_zdiv_nonneg_iff ac_simps)
  have XR: "X * rate \<le> amt * (?P * ?P * ?P)"
    unfolding X_def by (metis assms(2) div_mult_mod_eq le_add_same_cancel1 pos_mod_sign)
  have q: "q = chop_nonneg X" "0 \<le> q"
    using X by (simp_all add: q_def chopPrecisionAndRound_nonneg chop_nonneg_ge_0)
  then show st0: "0 \<le> st" by (simp add: st_def truncate_nonneg pos_imp_zdiv_nonneg_iff)
  have "2 * (st * ?P) * ?P \<le> 2 * q * ?P"
    using truncate_le [OF q(2)] by (intro mult_right_mono) (auto simp: st_def)
  also have "\<dots> \<le> 2 * X + ?P" using chop_nonneg_bounds(1) [of X] q by simp
  finally have "(2 * (st * ?P) * ?P) * rate \<le> (2 * X + ?P) * rate"
    using assms by (intro mult_right_mono) auto
  also have "\<dots> \<le> 2 * (amt * (?P * ?P * ?P)) + ?P * rate"
    using XR by (simp add: distrib_right)
  also have "\<dots> < 2 * (amt * (?P * ?P * ?P)) + ?P * (?P * ?P)"
    using mult_strict_left_mono [OF assms(3) precisionReuse_pos(1)] by simp
  finally have "(2 * (st * rate)) * (?P * ?P) < (2 * (amt * ?P) + ?P) * (?P * ?P)"
    by (simp add: algebra_simps)
  then have "2 * (st * rate) < 2 * (amt * ?P) + ?P"
    by (rule mult_right_less_imp_less) simp
  then show "chopPrecisionAndRound (st * rate) \<le> amt"
    using st0 assms(2) by (simp add: chopPrecisionAndRound_nonneg chop_nonneg_le)
qed

text \<open>Multiplying an integer amount by a rate is exact.\<close>

lemma Dec_Mul_int: "chopPrecisionAndRound (NewDecFromInt n * rate) = n * rate"
  using chopPrecisionAndRound_exact [of "n * rate"]
  by (simp add: NewDecFromInt_def algebra_simps del: chopPrecisionAndRound_exact)

end
