(* ===== verification/RateLimit.thy ===== *)
theory RateLimit
  imports Epochs
begin

text \<open>
  \<open>x/ratelimit\<close>: quotas on the IBC transfers of a denom through a channel.

  A \<open>RateLimit\<close> holds the path, the quota (percentages of the channel value and a duration
  in hours) and the flow since the last reset. The middleware calls
  \<open>SendRateLimitedPacket\<close> and \<open>ReceiveRateLimitedPacket\<close> (\<open>keeper/packet.go\<close>) for
  every transfer, these call \<open>CheckRateLimitAndUpdateFlow\<close> (\<open>keeper/rate_limit.go\<close>);
  governance adds, updates, removes and resets limits (\<open>keeper/gov/gov.go\<close>), and the hour
  epoch resets those whose duration has passed (\<open>keeper/hooks.go\<close>).

  Parameters: the bank's supply of a denom, whether a channel exists, the parsing of a denom
  trace and its hash (\<open>ibc-go\<close>), the decoding of a packet's JSON and of its amount. Events
  and log lines are left out.
\<close>

section \<open>Data\<close>

record Path =
  path_Denom :: denom
  path_ChannelId :: string

record Quota =
  q_MaxPercentSend :: int
  q_MaxPercentRecv :: int
  q_DurationHours :: uint64

record Flow =
  f_Inflow :: int
  f_Outflow :: int
  f_ChannelValue :: int

record RateLimit =
  rl_Path :: Path
  rl_Quota :: Quota
  rl_Flow :: Flow

text \<open>The enum has two values; \<open>PACKET_OTHER\<close> stands for a number outside them.\<close>

datatype PacketDirection = PACKET_SEND | PACKET_RECV | PACKET_OTHER int

record ratelimit_state =
  rls_limits :: "(string, RateLimit) kvstore"
  rls_blacklist :: "(string, string) kvstore"

section \<open>Flow and quota\<close>

definition NewFlow :: "int \<Rightarrow> Flow" where
  "NewFlow channelValue = \<lparr>f_Inflow = 0, f_Outflow = 0, f_ChannelValue = channelValue\<rparr>"

definition CheckExceedsQuota :: "Quota \<Rightarrow> PacketDirection \<Rightarrow> int \<Rightarrow> int \<Rightarrow> bool res" where
  "CheckExceedsQuota q direction amount totalValue =
     (if totalValue = 0 then Ok False
      else rbind (rbind (Int_Mul totalValue
                   (if direction = PACKET_RECV then q_MaxPercentRecv q else q_MaxPercentSend q))
                 (\<lambda>x. Int_Quo x 100))
           (\<lambda>threshold. Ok (amount > threshold)))"

definition AddInflow :: "Flow \<Rightarrow> int \<Rightarrow> Quota \<Rightarrow> Flow res" where
  "AddInflow f amount quota =
     rbind (Int_Sub (f_Inflow f) (f_Outflow f)) (\<lambda>d.
     rbind (Int_Add d amount) (\<lambda>netInflow.
     rbind (CheckExceedsQuota quota PACKET_RECV netInflow (f_ChannelValue f)) (\<lambda>exceeds.
     if exceeds then Err (RateLimitErr ErrQuotaExceeded)
     else rbind (Int_Add (f_Inflow f) amount) (\<lambda>inflow. Ok (f\<lparr>f_Inflow := inflow\<rparr>)))))"

definition AddOutflow :: "Flow \<Rightarrow> int \<Rightarrow> Quota \<Rightarrow> Flow res" where
  "AddOutflow f amount quota =
     rbind (Int_Sub (f_Outflow f) (f_Inflow f)) (\<lambda>d.
     rbind (Int_Add d amount) (\<lambda>netOutflow.
     rbind (CheckExceedsQuota quota PACKET_SEND netOutflow (f_ChannelValue f)) (\<lambda>exceeds.
     if exceeds then Err (RateLimitErr ErrQuotaExceeded)
     else rbind (Int_Add (f_Outflow f) amount) (\<lambda>outflow. Ok (f\<lparr>f_Outflow := outflow\<rparr>)))))"

section \<open>The keeper\<close>

definition GetRateLimitItemKey :: "denom \<Rightarrow> string \<Rightarrow> string" where
  "GetRateLimitItemKey denom channelId = denom @ channelId"

definition rl_key :: "RateLimit \<Rightarrow> string" where
  "rl_key rl = GetRateLimitItemKey (path_Denom (rl_Path rl)) (path_ChannelId (rl_Path rl))"

definition SetRateLimit :: "RateLimit \<Rightarrow> ratelimit_state \<Rightarrow> ratelimit_state" where
  "SetRateLimit rateLimit s =
     s\<lparr>rls_limits := kv_set (rl_key rateLimit) rateLimit (rls_limits s)\<rparr>"

definition RemoveRateLimit :: "denom \<Rightarrow> string \<Rightarrow> ratelimit_state \<Rightarrow> ratelimit_state" where
  "RemoveRateLimit denom channelId s =
     s\<lparr>rls_limits := kv_delete (GetRateLimitItemKey denom channelId) (rls_limits s)\<rparr>"

definition GetRateLimit :: "ratelimit_state \<Rightarrow> denom \<Rightarrow> string \<Rightarrow> RateLimit option" where
  "GetRateLimit s denom channelId = kv_get (rls_limits s) (GetRateLimitItemKey denom channelId)"

definition GetAllRateLimits :: "ratelimit_state \<Rightarrow> RateLimit list" where
  "GetAllRateLimits s = kv_values (rls_limits s)"

definition AddDenomToBlacklist :: "denom \<Rightarrow> ratelimit_state \<Rightarrow> ratelimit_state" where
  "AddDenomToBlacklist denom s = s\<lparr>rls_blacklist := kv_set denom denom (rls_blacklist s)\<rparr>"

definition RemoveDenomFromBlacklist :: "denom \<Rightarrow> ratelimit_state \<Rightarrow> ratelimit_state" where
  "RemoveDenomFromBlacklist denom s = s\<lparr>rls_blacklist := kv_delete denom (rls_blacklist s)\<rparr>"

definition IsDenomBlacklisted :: "ratelimit_state \<Rightarrow> denom \<Rightarrow> bool" where
  "IsDenomBlacklisted s denom =
     (case kv_get (rls_blacklist s) denom of
        None \<Rightarrow> False
      | Some value \<Rightarrow> if length value = 0 then False else denom = value)"

definition GetAllBlacklistedDenoms :: "ratelimit_state \<Rightarrow> string list" where
  "GetAllBlacklistedDenoms s = map fst (rls_blacklist s)"

definition UpdateFlow :: "RateLimit \<Rightarrow> PacketDirection \<Rightarrow> int \<Rightarrow> RateLimit res" where
  "UpdateFlow rateLimit direction amount =
     (case direction of
        PACKET_SEND \<Rightarrow> rbind (AddOutflow (rl_Flow rateLimit) amount (rl_Quota rateLimit))
          (\<lambda>f. Ok (rateLimit\<lparr>rl_Flow := f\<rparr>))
      | PACKET_RECV \<Rightarrow> rbind (AddInflow (rl_Flow rateLimit) amount (rl_Quota rateLimit))
          (\<lambda>f. Ok (rateLimit\<lparr>rl_Flow := f\<rparr>))
      | PACKET_OTHER _ \<Rightarrow> Err (Sdk ErrInvalidRequest))"

definition CheckRateLimitAndUpdateFlow ::
  "PacketDirection \<Rightarrow> denom \<Rightarrow> string \<Rightarrow> int \<Rightarrow> (ratelimit_state, unit) go" where
  "CheckRateLimitAndUpdateFlow direction denom channelId amount =
     go_bind (go_gets (\<lambda>s. IsDenomBlacklisted s denom)) (\<lambda>blacklisted.
     if blacklisted then go_fail (RateLimitErr ErrDenomIsBlacklisted)
     else go_bind (go_gets (\<lambda>s. GetRateLimit s denom channelId)) (\<lambda>found.
       case found of
         None \<Rightarrow> go_ret ()
       | Some rateLimit \<Rightarrow>
           go_bind (go_lift (UpdateFlow rateLimit direction amount)) (\<lambda>rateLimit'.
           go_modify (SetRateLimit rateLimit'))))"

text \<open>\<open>supply\<close> is \<open>k.GetChannelValue\<close>, the bank's supply of the denom.\<close>

definition ResetRateLimit :: "(denom \<Rightarrow> int) \<Rightarrow> denom \<Rightarrow> string \<Rightarrow> (ratelimit_state, unit) go" where
  "ResetRateLimit supply denom channelId =
     go_bind (go_gets (\<lambda>s. GetRateLimit s denom channelId)) (\<lambda>found.
     go_bind (go_found found (RateLimitErr ErrRateLimitNotFound)) (\<lambda>rateLimit.
     go_modify (SetRateLimit (rateLimit\<lparr>rl_Flow :=
       \<lparr>f_Inflow = 0, f_Outflow = 0, f_ChannelValue = supply denom\<rparr>\<rparr>))))"

section \<open>Packets\<close>

record DenomTrace =
  trace_Path :: string
  trace_BaseDenom :: string

record FungibleTokenPacketData =
  pd_Denom :: string
  pd_Amount :: string

record Packet =
  pkt_SourcePort :: string
  pkt_SourceChannel :: string
  pkt_DestPort :: string
  pkt_DestChannel :: string
  pkt_Data :: string

text \<open>
  \<open>transfertypes.ParseDenomTrace\<close> and \<open>DenomTrace.IBCDenom\<close>, the JSON decoding of the
  packet data and \<open>sdk.NewIntFromString\<close>.
\<close>

record ibc_env =
  ParseDenomTrace :: "string \<Rightarrow> DenomTrace"
  IBCDenom :: "DenomTrace \<Rightarrow> string"
  UnmarshalPacketData :: "string \<Rightarrow> FungibleTokenPacketData res"
  NewIntFromString :: "string \<Rightarrow> int option"

definition GetDenomPrefix :: "string \<Rightarrow> string \<Rightarrow> string" where
  "GetDenomPrefix portID channelID = portID @ ''/'' @ channelID @ ''/''"

definition ReceiverChainIsSource :: "string \<Rightarrow> string \<Rightarrow> string \<Rightarrow> bool" where
  "ReceiverChainIsSource sourcePort sourceChannel denom =
     (let voucherPrefix = GetDenomPrefix sourcePort sourceChannel in
      take (length voucherPrefix) denom = voucherPrefix)"

definition ParseDenomFromSendPacket :: "ibc_env \<Rightarrow> FungibleTokenPacketData \<Rightarrow> denom" where
  "ParseDenomFromSendPacket env packet =
     (let denomTrace = ParseDenomTrace env (pd_Denom packet) in
      if trace_Path denomTrace = [] then pd_Denom packet else IBCDenom env denomTrace)"

definition ParseDenomFromRecvPacket ::
  "ibc_env \<Rightarrow> Packet \<Rightarrow> FungibleTokenPacketData \<Rightarrow> denom" where
  "ParseDenomFromRecvPacket env packet packetData =
     (if ReceiverChainIsSource (pkt_SourcePort packet) (pkt_SourceChannel packet)
           (pd_Denom packetData) then
        let sourcePrefix = GetDenomPrefix (pkt_SourcePort packet) (pkt_SourceChannel packet);
            unprefixedDenom = drop (length sourcePrefix) (pd_Denom packetData);
            denomTrace = ParseDenomTrace env unprefixedDenom in
        if trace_Path denomTrace = [] then unprefixedDenom else IBCDenom env denomTrace
      else
        let destinationPrefix = GetDenomPrefix (pkt_DestPort packet) (pkt_DestChannel packet);
            prefixedDenom = destinationPrefix @ pd_Denom packetData in
        IBCDenom env (ParseDenomTrace env prefixedDenom))"

definition SendRateLimitedPacket :: "ibc_env \<Rightarrow> string \<Rightarrow> string \<Rightarrow> (ratelimit_state, unit) go" where
  "SendRateLimitedPacket env sourceChannel data =
     go_bind (go_lift (UnmarshalPacketData env data)) (\<lambda>packetData.
     go_bind (go_found (NewIntFromString env (pd_Amount packetData)) (Sdk ErrInvalidRequest)) (\<lambda>amount.
     let denom = ParseDenomFromSendPacket env packetData in
     CheckRateLimitAndUpdateFlow PACKET_SEND denom sourceChannel amount))"

definition ReceiveRateLimitedPacket :: "ibc_env \<Rightarrow> Packet \<Rightarrow> (ratelimit_state, unit) go" where
  "ReceiveRateLimitedPacket env packet =
     go_bind (go_lift (UnmarshalPacketData env (pkt_Data packet))) (\<lambda>packetData.
     go_bind (go_found (NewIntFromString env (pd_Amount packetData)) (Sdk ErrInvalidRequest)) (\<lambda>amount.
     let denom = ParseDenomFromRecvPacket env packet packetData in
     CheckRateLimitAndUpdateFlow PACKET_RECV denom (pkt_DestChannel packet) amount))"

text \<open>
  The middleware: a packet the limiter refuses is answered with an error acknowledgement and never
  reaches the transfer application; a send it refuses never reaches the channel keeper. The
  wrapped application and channel keeper are parameters, working on the state beside the limiter's.
\<close>

datatype Acknowledgement = ErrorAck error | AppAck string

definition OnRecvPacket ::
  "ibc_env \<Rightarrow> (Packet \<Rightarrow> (ratelimit_state \<times> 's, Acknowledgement) go) \<Rightarrow> Packet \<Rightarrow>
   (ratelimit_state \<times> 's, Acknowledgement) go" where
  "OnRecvPacket env app packet rs =
     (case ReceiveRateLimitedPacket env packet (fst rs) of
        (Err e, rl) \<Rightarrow> (Ok (ErrorAck e), (rl, snd rs))
      | (Panic, rl) \<Rightarrow> (Panic, (rl, snd rs))
      | (Ok _, rl) \<Rightarrow> app packet (rl, snd rs))"

definition SendPacket ::
  "ibc_env \<Rightarrow> (string \<Rightarrow> string \<Rightarrow> (ratelimit_state \<times> 's, uint64) go) \<Rightarrow> string \<Rightarrow> string \<Rightarrow>
   (ratelimit_state \<times> 's, uint64) go" where
  "SendPacket env ics4_SendPacket sourceChannel data rs =
     (case SendRateLimitedPacket env sourceChannel data (fst rs) of
        (Err e, rl) \<Rightarrow> (Err e, (rl, snd rs))
      | (Panic, rl) \<Rightarrow> (Panic, (rl, snd rs))
      | (Ok _, rl) \<Rightarrow> ics4_SendPacket sourceChannel data (rl, snd rs))"

section \<open>Epoch hook\<close>

definition ratelimit_BeforeEpochStart ::
  "(denom \<Rightarrow> int) \<Rightarrow> EpochInfo \<Rightarrow> (ratelimit_state, unit) go" where
  "ratelimit_BeforeEpochStart supply epochInfo s =
     (if ei_Identifier epochInfo = HOUR_EPOCH then
        let epochHour = (word_of_int (ei_CurrentEpoch epochInfo) :: uint64) in
        for_each (\<lambda>rateLimit.
          if q_DurationHours (rl_Quota rateLimit) = 0 then go_panic
          else if epochHour mod q_DurationHours (rl_Quota rateLimit) = 0 then
            go_bind (go_try (ResetRateLimit supply (path_Denom (rl_Path rateLimit))
                               (path_ChannelId (rl_Path rateLimit)))) (\<lambda>_. go_ret ())
          else go_ret ()) (GetAllRateLimits s) s
      else (Ok (), s))"

section \<open>Governance\<close>

record AddRateLimitProposal =
  p_Title :: string
  p_Description :: string
  p_Denom :: denom
  p_ChannelId :: string
  p_MaxPercentSend :: int
  p_MaxPercentRecv :: int
  p_DurationHours :: uint64

definition proposal_limit :: "(denom \<Rightarrow> int) \<Rightarrow> AddRateLimitProposal \<Rightarrow> RateLimit" where
  "proposal_limit supply p =
     \<lparr>rl_Path = \<lparr>path_Denom = p_Denom p, path_ChannelId = p_ChannelId p\<rparr>,
      rl_Quota = \<lparr>q_MaxPercentSend = p_MaxPercentSend p, q_MaxPercentRecv = p_MaxPercentRecv p,
                  q_DurationHours = p_DurationHours p\<rparr>,
      rl_Flow = \<lparr>f_Inflow = 0, f_Outflow = 0, f_ChannelValue = supply (p_Denom p)\<rparr>\<rparr>"

definition gov_AddRateLimit ::
  "(denom \<Rightarrow> int) \<Rightarrow> (string \<Rightarrow> bool) \<Rightarrow> AddRateLimitProposal \<Rightarrow> (ratelimit_state, unit) go" where
  "gov_AddRateLimit supply channelFound p =
     (if supply (p_Denom p) = 0 then go_fail (RateLimitErr ErrZeroChannelValue)
      else go_bind (go_gets (\<lambda>s. GetRateLimit s (p_Denom p) (p_ChannelId p))) (\<lambda>found.
        if found \<noteq> None then go_fail (RateLimitErr ErrRateLimitAlreadyExists)
        else if \<not> channelFound (p_ChannelId p) then go_fail (RateLimitErr ErrChannelNotFound)
        else go_modify (SetRateLimit (proposal_limit supply p))))"

definition gov_UpdateRateLimit ::
  "(denom \<Rightarrow> int) \<Rightarrow> AddRateLimitProposal \<Rightarrow> (ratelimit_state, unit) go" where
  "gov_UpdateRateLimit supply p =
     go_bind (go_gets (\<lambda>s. GetRateLimit s (p_Denom p) (p_ChannelId p))) (\<lambda>found.
       if found = None then go_fail (RateLimitErr ErrRateLimitNotFound)
       else go_modify (SetRateLimit (proposal_limit supply p)))"

definition gov_RemoveRateLimit :: "denom \<Rightarrow> string \<Rightarrow> (ratelimit_state, unit) go" where
  "gov_RemoveRateLimit denom channelId =
     go_bind (go_gets (\<lambda>s. GetRateLimit s denom channelId)) (\<lambda>found.
       if found = None then go_fail (RateLimitErr ErrRateLimitNotFound)
       else go_modify (RemoveRateLimit denom channelId))"

definition gov_ResetRateLimit ::
  "(denom \<Rightarrow> int) \<Rightarrow> denom \<Rightarrow> string \<Rightarrow> (ratelimit_state, unit) go" where
  "gov_ResetRateLimit supply denom channelId = ResetRateLimit supply denom channelId"

text \<open>The regular expression \<open>^channel-\d+$\<close>.\<close>

definition is_digit_char :: "char \<Rightarrow> bool" where
  "is_digit_char c \<longleftrightarrow> CHR ''0'' \<le> c \<and> c \<le> CHR ''9''"

definition is_channel_id :: "string \<Rightarrow> bool" where
  "is_channel_id s \<longleftrightarrow>
     take 8 s = ''channel-'' \<and> drop 8 s \<noteq> [] \<and> list_all is_digit_char (drop 8 s)"

text \<open>\<open>validateAbstract\<close> stands for \<open>govtypes.ValidateAbstract\<close> on title and description.\<close>

definition AddRateLimitProposal_ValidateBasic ::
  "(string \<Rightarrow> string \<Rightarrow> unit res) \<Rightarrow> AddRateLimitProposal \<Rightarrow> unit res" where
  "AddRateLimitProposal_ValidateBasic validateAbstract p =
     rbind (validateAbstract (p_Title p) (p_Description p)) (\<lambda>_.
     if p_Denom p = [] then Err (Sdk ErrInvalidRequest)
     else if \<not> is_channel_id (p_ChannelId p) then Err (Sdk ErrInvalidRequest)
     else if p_MaxPercentSend p > 100 \<or> p_MaxPercentSend p < 0 then Err (Sdk ErrInvalidRequest)
     else if p_MaxPercentRecv p > 100 \<or> p_MaxPercentRecv p < 0 then Err (Sdk ErrInvalidRequest)
     else if p_MaxPercentRecv p = 0 \<and> p_MaxPercentSend p = 0 then Err (Sdk ErrInvalidRequest)
     else if p_DurationHours p = 0 then Err (Sdk ErrInvalidRequest)
     else Ok ())"

definition UpdateRateLimitProposal_ValidateBasic ::
  "(string \<Rightarrow> string \<Rightarrow> unit res) \<Rightarrow> AddRateLimitProposal \<Rightarrow> unit res" where
  "UpdateRateLimitProposal_ValidateBasic validateAbstract p =
     rbind (validateAbstract (p_Title p) (p_Description p)) (\<lambda>_.
     if p_Denom p = [] then Err (Sdk ErrInvalidRequest)
     else if \<not> is_channel_id (p_ChannelId p) then Err (Sdk ErrInvalidRequest)
     else if p_MaxPercentSend p > 100 \<or> p_MaxPercentSend p < 0 then Err (Sdk ErrInvalidRequest)
     else if p_MaxPercentRecv p > 100 \<or> p_MaxPercentRecv p < 0 then Err (Sdk ErrInvalidRequest)
     else if p_MaxPercentRecv p = 0 \<and> p_MaxPercentSend p = 0 then Err (Sdk ErrInvalidRequest)
     else if p_DurationHours p = 0 then Err (Sdk ErrInvalidRequest)
     else Ok ())"

definition RemoveRateLimitProposal_ValidateBasic ::
  "(string \<Rightarrow> string \<Rightarrow> unit res) \<Rightarrow> string \<Rightarrow> string \<Rightarrow> denom \<Rightarrow> string \<Rightarrow> unit res" where
  "RemoveRateLimitProposal_ValidateBasic validateAbstract title description denom channelId =
     rbind (validateAbstract title description) (\<lambda>_.
     if denom = [] then Err (Sdk ErrInvalidRequest)
     else if \<not> is_channel_id channelId then Err (Sdk ErrInvalidRequest)
     else Ok ())"

definition ResetRateLimitProposal_ValidateBasic ::
  "(string \<Rightarrow> string \<Rightarrow> unit res) \<Rightarrow> string \<Rightarrow> string \<Rightarrow> denom \<Rightarrow> string \<Rightarrow> unit res" where
  "ResetRateLimitProposal_ValidateBasic validateAbstract title description denom channelId =
     rbind (validateAbstract title description) (\<lambda>_.
     if denom = [] then Err (Sdk ErrInvalidRequest)
     else if \<not> is_channel_id channelId then Err (Sdk ErrInvalidRequest)
     else Ok ())"

section \<open>Genesis and queries\<close>

definition ratelimit_InitGenesis :: "RateLimit list \<Rightarrow> ratelimit_state \<Rightarrow> ratelimit_state" where
  "ratelimit_InitGenesis rateLimits s = fold SetRateLimit rateLimits s"

definition ratelimit_ExportGenesis :: "ratelimit_state \<Rightarrow> RateLimit list" where
  "ratelimit_ExportGenesis s = GetAllRateLimits s"

text \<open>\<open>clientChainId\<close> is \<open>GetChannelClientState\<close> followed by the type assertion to a
  tendermint client: \<open>None\<close> where either fails.\<close>

fun RateLimitsByChainId_loop ::
  "(string \<Rightarrow> string option) \<Rightarrow> string \<Rightarrow> RateLimit list \<Rightarrow> RateLimit list res" where
  "RateLimitsByChainId_loop clientChainId chainId [] = Ok []"
| "RateLimitsByChainId_loop clientChainId chainId (rateLimit # rest) =
     (case clientChainId (path_ChannelId (rl_Path rateLimit)) of
        None \<Rightarrow> Err (RateLimitErr ErrInvalidClientState)
      | Some clientId \<Rightarrow>
          rbind (RateLimitsByChainId_loop clientChainId chainId rest) (\<lambda>rateLimits.
          Ok (if clientId = chainId then rateLimit # rateLimits else rateLimits)))"

definition RateLimitsByChainId ::
  "(string \<Rightarrow> string option) \<Rightarrow> ratelimit_state \<Rightarrow> string \<Rightarrow> RateLimit list res" where
  "RateLimitsByChainId clientChainId s chainId =
     RateLimitsByChainId_loop clientChainId chainId (GetAllRateLimits s)"

definition RateLimitsByChannelId :: "ratelimit_state \<Rightarrow> string \<Rightarrow> RateLimit list" where
  "RateLimitsByChannelId s channelId =
     filter (\<lambda>rateLimit. path_ChannelId (rl_Path rateLimit) = channelId) (GetAllRateLimits s)"

section \<open>The keeper satisfies the store contract\<close>

definition ratelimits_wf :: "ratelimit_state \<Rightarrow> bool" where
  "ratelimits_wf s = kv_keyed rl_key (rls_limits s)"

interpretation ratelimits: genesis_store rl_key "\<lambda>s. kv_get (rls_limits s)" SetRateLimit
  "\<lambda>k s. s\<lparr>rls_limits := kv_delete k (rls_limits s)\<rparr>" GetAllRateLimits ratelimits_wf
  "\<lparr>rls_limits = [], rls_blacklist = []\<rparr>"
  by unfold_locales
    (auto simp: SetRateLimit_def GetAllRateLimits_def ratelimits_wf_def kv_keyed_values_iff
      kv_keyed_values_sorted dest: kv_keyed_get)

interpretation blacklist: item_store "\<lambda>d. d" "\<lambda>s. kv_get (rls_blacklist s)" AddDenomToBlacklist
  RemoveDenomFromBlacklist GetAllBlacklistedDenoms "\<lambda>s. kv_keyed (\<lambda>d. d) (rls_blacklist s)"
proof unfold_locales
  fix s :: ratelimit_state and v :: string
  assume wf: "kv_keyed (\<lambda>d. d) (rls_blacklist s)"
  then have "map fst (rls_blacklist s) = kv_values (rls_blacklist s)"
    using kv_keyed_values_keys [OF wf] by simp
  then show "v \<in> set (GetAllBlacklistedDenoms s) \<longleftrightarrow> kv_get (rls_blacklist s) v = Some v"
    and "sorted_wrt (<) (map (\<lambda>d. d) (GetAllBlacklistedDenoms s))"
    using kv_keyed_values_iff [OF wf, of v] kv_keyed_values_sorted [OF wf]
    by (simp_all add: GetAllBlacklistedDenoms_def)
qed (use kv_keyed_set [of "\<lambda>d. d"] in \<open>auto simp: AddDenomToBlacklist_def
    RemoveDenomFromBlacklist_def dest: kv_keyed_get\<close>)

lemma GetRateLimit_key: "GetRateLimit s d c = kv_get (rls_limits s) (GetRateLimitItemKey d c)"
  by (simp add: GetRateLimit_def)

lemma GetRateLimit_Set:
  "GetRateLimit (SetRateLimit rl s) d c =
     (if GetRateLimitItemKey d c = rl_key rl then Some rl else GetRateLimit s d c)"
  by (simp add: GetRateLimit_def ratelimits.get_put)

lemma IsDenomBlacklisted_Set [simp]:
  "IsDenomBlacklisted (SetRateLimit rl s) d = IsDenomBlacklisted s d"
  by (simp add: IsDenomBlacklisted_def SetRateLimit_def)

text \<open>The blacklist is a set of denoms; the empty denom cannot be on it.\<close>

lemma IsDenomBlacklisted_Add:
  "IsDenomBlacklisted (AddDenomToBlacklist d s) d' \<longleftrightarrow>
     (if d' = d then d \<noteq> [] else IsDenomBlacklisted s d')"
  by (simp add: IsDenomBlacklisted_def AddDenomToBlacklist_def)

lemma IsDenomBlacklisted_Remove:
  "IsDenomBlacklisted (RemoveDenomFromBlacklist d s) d' \<longleftrightarrow> d' \<noteq> d \<and> IsDenomBlacklisted s d'"
  by (simp add: IsDenomBlacklisted_def RemoveDenomFromBlacklist_def)

section \<open>Thresholds\<close>

text \<open>The most a flow may exceed its opposite, by direction.\<close>

definition threshold :: "Quota \<Rightarrow> PacketDirection \<Rightarrow> int \<Rightarrow> int" where
  "threshold q direction value =
     big_quo (value * (if direction = PACKET_RECV then q_MaxPercentRecv q else q_MaxPercentSend q)) 100"

definition netflow :: "PacketDirection \<Rightarrow> Flow \<Rightarrow> int" where
  "netflow direction f =
     (if direction = PACKET_RECV then f_Inflow f - f_Outflow f else f_Outflow f - f_Inflow f)"

definition add_flow :: "PacketDirection \<Rightarrow> int \<Rightarrow> RateLimit \<Rightarrow> RateLimit" where
  "add_flow direction amount rl =
     rl\<lparr>rl_Flow := (if direction = PACKET_RECV
        then (rl_Flow rl)\<lparr>f_Inflow := f_Inflow (rl_Flow rl) + amount\<rparr>
        else (rl_Flow rl)\<lparr>f_Outflow := f_Outflow (rl_Flow rl) + amount\<rparr>)\<rparr>"

definition exceeds :: "RateLimit \<Rightarrow> PacketDirection \<Rightarrow> int \<Rightarrow> bool" where
  "exceeds rl direction amount \<longleftrightarrow>
     f_ChannelValue (rl_Flow rl) \<noteq> 0 \<and>
     netflow direction (rl_Flow rl) + amount > threshold (rl_Quota rl) direction (f_ChannelValue (rl_Flow rl))"

lemma CheckExceedsQuota_Ok:
  "CheckExceedsQuota q dir amount value = Ok b \<Longrightarrow>
     b \<longleftrightarrow> value \<noteq> 0 \<and> amount > threshold q dir value"
  by (auto simp: CheckExceedsQuota_def threshold_def go_simps dest!: Int_Mul_Ok split: if_splits)

lemma CheckExceedsQuota_no_Err [simp]: "CheckExceedsQuota q dir amount value \<noteq> Err e"
  by (auto simp: CheckExceedsQuota_def go_simps)

lemma UpdateFlow_Ok:
  assumes "UpdateFlow rl dir amount = Ok rl'"
  shows "rl' = add_flow dir amount rl" "\<not> exceeds rl dir amount" "dir = PACKET_SEND \<or> dir = PACKET_RECV"
  using assms
  by (auto simp: UpdateFlow_def AddInflow_def AddOutflow_def add_flow_def exceeds_def netflow_def
      go_simps dest!: CheckExceedsQuota_Ok split: PacketDirection.splits if_splits)

lemma UpdateFlow_Err:
  assumes "UpdateFlow rl dir amount = Err e" "dir = PACKET_SEND \<or> dir = PACKET_RECV"
  shows "e = RateLimitErr ErrQuotaExceeded" "exceeds rl dir amount"
  using assms
  by (auto simp: UpdateFlow_def AddInflow_def AddOutflow_def exceeds_def netflow_def
      go_simps dest!: CheckExceedsQuota_Ok split: PacketDirection.splits if_splits)

lemma add_flow_key [simp]: "rl_key (add_flow dir amount rl) = rl_key rl"
  by (simp add: add_flow_def rl_key_def)

text \<open>What a transfer does: the whole case distinction of \<open>CheckRateLimitAndUpdateFlow\<close>.\<close>

lemma CheckRateLimit_cases:
  assumes "CheckRateLimitAndUpdateFlow dir d c amount s = (r, t)"
  shows "case GetRateLimit s d c of
      None \<Rightarrow> t = s \<and> r = (if IsDenomBlacklisted s d then Err (RateLimitErr ErrDenomIsBlacklisted) else Ok ())
    | Some rl \<Rightarrow>
        if IsDenomBlacklisted s d then t = s \<and> r = Err (RateLimitErr ErrDenomIsBlacklisted)
        else (case UpdateFlow rl dir amount of
            Ok rl' \<Rightarrow> r = Ok () \<and> t = SetRateLimit rl' s
          | Err e \<Rightarrow> r = Err e \<and> t = s
          | Panic \<Rightarrow> r = Panic \<and> t = s)"
  using assms
  by (auto simp: CheckRateLimitAndUpdateFlow_def go_defs split: option.splits res.splits if_splits)

lemma CheckRateLimit_state:
  assumes "CheckRateLimitAndUpdateFlow dir d c amount s = (r, t)"
  shows "t = s \<or> (\<exists>rl. GetRateLimit s d c = Some rl \<and> \<not> exceeds rl dir amount \<and>
    (dir = PACKET_SEND \<or> dir = PACKET_RECV) \<and> t = SetRateLimit (add_flow dir amount rl) s)"
  using CheckRateLimit_cases [OF assms]
  by (auto split: option.splits res.splits if_splits dest: UpdateFlow_Ok)

section \<open>The epoch reset\<close>

definition reset_flow :: "(denom \<Rightarrow> int) \<Rightarrow> RateLimit \<Rightarrow> RateLimit" where
  "reset_flow cval rl = rl\<lparr>rl_Flow := NewFlow (cval (path_Denom (rl_Path rl)))\<rparr>"

definition due :: "EpochInfo \<Rightarrow> RateLimit \<Rightarrow> bool" where
  "due epochInfo rl \<longleftrightarrow>
     (word_of_int (ei_CurrentEpoch epochInfo) :: uint64) mod q_DurationHours (rl_Quota rl) = 0"

lemma reset_flow_key [simp]: "rl_key (reset_flow cval rl) = rl_key rl"
  by (simp add: reset_flow_def rl_key_def)

lemma ResetRateLimit_path:
  assumes "kv_get (rls_limits s) (rl_key rl) = Some rl"
  shows "ResetRateLimit cval (path_Denom (rl_Path rl)) (path_ChannelId (rl_Path rl)) s =
     (Ok (), SetRateLimit (reset_flow cval rl) s)"
  using assms
  by (simp add: ResetRateLimit_def GetRateLimit_def rl_key_def reset_flow_def NewFlow_def go_defs)

text \<open>The loop of the hook, over the limits listed before it started.\<close>

lemma hour_loop:
  assumes "\<And>rl. rl \<in> set rls \<Longrightarrow> q_DurationHours (rl_Quota rl) \<noteq> 0"
    and "\<And>rl. rl \<in> set rls \<Longrightarrow> kv_get (rls_limits s) (rl_key rl) = Some rl"
    and "distinct (map rl_key rls)"
  shows "for_each (\<lambda>rateLimit.
          if q_DurationHours (rl_Quota rateLimit) = 0 then go_panic
          else if (word_of_int (ei_CurrentEpoch epochInfo) :: uint64) mod
                  q_DurationHours (rl_Quota rateLimit) = 0 then
            go_bind (go_try (ResetRateLimit cval (path_Denom (rl_Path rateLimit))
                               (path_ChannelId (rl_Path rateLimit)))) (\<lambda>_. go_ret ())
          else go_ret ()) rls s
     = (Ok (), fold SetRateLimit (map (reset_flow cval) (filter (due epochInfo) rls)) s)"
  using assms
proof (induction rls arbitrary: s)
  case (Cons rl rls)
  have reset: "ResetRateLimit cval (path_Denom (rl_Path rl)) (path_ChannelId (rl_Path rl)) s =
     (Ok (), SetRateLimit (reset_flow cval rl) s)"
    by (intro ResetRateLimit_path Cons.prems) simp
  have other: "kv_get (rls_limits (SetRateLimit (reset_flow cval rl) s)) (rl_key x) = Some x"
    if "x \<in> set rls" for x
  proof -
    have "rl_key x \<noteq> rl_key rl" using that Cons.prems(3) by (metis distinct.simps(2) image_eqI list.simps(9) set_map)
    then show ?thesis using that Cons.prems(2) by (simp add: ratelimits.get_put)
  qed
  show ?case
    using Cons.prems reset
      Cons.IH [of s] Cons.IH [of "SetRateLimit (reset_flow cval rl) s", OF _ other]
    by (simp add: due_def go_defs)
qed simp

lemma hour_hook_eq:
  assumes "ratelimits_wf s" "\<And>rl. rl \<in> set (GetAllRateLimits s) \<Longrightarrow> q_DurationHours (rl_Quota rl) \<noteq> 0"
    and "ei_Identifier epochInfo = HOUR_EPOCH"
  shows "ratelimit_BeforeEpochStart cval epochInfo s =
     (Ok (), fold SetRateLimit (map (reset_flow cval) (filter (due epochInfo) (GetAllRateLimits s))) s)"
  unfolding ratelimit_BeforeEpochStart_def Let_def
  using assms ratelimits.listing_distinct_keys [OF assms(1)]
  by (subst hour_loop) (auto simp: ratelimits.listing_iff)

lemma hour_hook_listing:
  assumes "ratelimits_wf s"
  shows "GetAllRateLimits (fold SetRateLimit
      (map (reset_flow cval) (filter (due epochInfo) (GetAllRateLimits s))) s) =
    map (\<lambda>rl. if due epochInfo rl then reset_flow cval rl else rl) (GetAllRateLimits s)"
  using assms by (rule ratelimits.listing_update_some) simp

section \<open>The limiter as a state machine\<close>

text \<open>
  What can happen to the limiter's state: transfers of a non-negative amount, epoch hooks,
  governance proposals that passed \<open>ValidateBasic\<close>, the blacklist. The bank's supply is
  whatever it is at each step.
\<close>

inductive ratelimit_step :: "ratelimit_state \<Rightarrow> ratelimit_state \<Rightarrow> bool" where
  transfer: "0 \<le> amount \<Longrightarrow> CheckRateLimitAndUpdateFlow dir d c amount s = (r, t) \<Longrightarrow>
     ratelimit_step s t"
| epoch: "(\<And>d. 0 \<le> cval d) \<Longrightarrow> ratelimit_BeforeEpochStart cval epochInfo s = (r, t) \<Longrightarrow>
     ratelimit_step s t"
| add: "(\<And>d. 0 \<le> cval d) \<Longrightarrow> AddRateLimitProposal_ValidateBasic va p = Ok () \<Longrightarrow>
     gov_AddRateLimit cval channelFound p s = (r, t) \<Longrightarrow> ratelimit_step s t"
| update: "(\<And>d. 0 \<le> cval d) \<Longrightarrow> UpdateRateLimitProposal_ValidateBasic va p = Ok () \<Longrightarrow>
     gov_UpdateRateLimit cval p s = (r, t) \<Longrightarrow> ratelimit_step s t"
| remove: "gov_RemoveRateLimit d c s = (r, t) \<Longrightarrow> ratelimit_step s t"
| reset: "(\<And>d. 0 \<le> cval d) \<Longrightarrow> gov_ResetRateLimit cval d c s = (r, t) \<Longrightarrow> ratelimit_step s t"
| ban: "ratelimit_step s (AddDenomToBlacklist d s)"
| unban: "ratelimit_step s (RemoveDenomFromBlacklist d s)"

inductive ratelimit_reachable :: "ratelimit_state \<Rightarrow> bool" where
  init: "ratelimit_reachable \<lparr>rls_limits = [], rls_blacklist = bl\<rparr>"
| step: "ratelimit_reachable s \<Longrightarrow> ratelimit_step s t \<Longrightarrow> ratelimit_reachable t"

definition sane_quota :: "Quota \<Rightarrow> bool" where
  "sane_quota q \<longleftrightarrow> 0 \<le> q_MaxPercentSend q \<and> q_MaxPercentSend q \<le> 100 \<and>
     0 \<le> q_MaxPercentRecv q \<and> q_MaxPercentRecv q \<le> 100 \<and> q_DurationHours q \<noteq> 0"

definition within_quota :: "RateLimit \<Rightarrow> bool" where
  "within_quota rl \<longleftrightarrow>
     f_ChannelValue (rl_Flow rl) = 0 \<or>
     (\<forall>dir \<in> {PACKET_SEND, PACKET_RECV}. netflow dir (rl_Flow rl) \<le>
        threshold (rl_Quota rl) dir (f_ChannelValue (rl_Flow rl)))"

definition limit_ok :: "RateLimit \<Rightarrow> bool" where
  "limit_ok rl \<longleftrightarrow> sane_quota (rl_Quota rl) \<and> within_quota rl"

definition limits_inv :: "ratelimit_state \<Rightarrow> bool" where
  "limits_inv s \<longleftrightarrow> ratelimits_wf s \<and> (\<forall>rl\<in>set (GetAllRateLimits s). limit_ok rl)"

lemma threshold_nonneg: "sane_quota q \<Longrightarrow> 0 \<le> v \<Longrightarrow> 0 \<le> threshold q dir v"
  by (auto simp: threshold_def sane_quota_def intro!: big_quo_nonneg mult_nonneg_nonneg)

lemma limit_ok_add_flow:
  assumes "limit_ok rl" "0 \<le> amount" "\<not> exceeds rl dir amount" "dir = PACKET_SEND \<or> dir = PACKET_RECV"
  shows "limit_ok (add_flow dir amount rl)"
  using assms by (auto simp: limit_ok_def within_quota_def add_flow_def exceeds_def netflow_def)

lemma limit_ok_NewFlow:
  assumes "sane_quota (rl_Quota rl)" "0 \<le> v"
  shows "limit_ok (rl\<lparr>rl_Flow := NewFlow v\<rparr>)"
  using assms threshold_nonneg [OF assms]
  by (auto simp: limit_ok_def within_quota_def NewFlow_def netflow_def)

lemma limit_ok_proposal:
  assumes "AddRateLimitProposal_ValidateBasic va p = Ok ()" "0 \<le> cval (p_Denom p)"
  shows "limit_ok (proposal_limit cval p)"
proof -
  have "sane_quota (rl_Quota (proposal_limit cval p))"
    using assms(1) by (auto simp: AddRateLimitProposal_ValidateBasic_def sane_quota_def
        proposal_limit_def go_simps split: if_splits)
  then have "limit_ok ((proposal_limit cval p)\<lparr>rl_Flow := NewFlow (cval (p_Denom p))\<rparr>)"
    using assms(2) by (rule limit_ok_NewFlow)
  then show ?thesis by (simp add: proposal_limit_def NewFlow_def)
qed

lemma Update_ValidateBasic_eq:
  "UpdateRateLimitProposal_ValidateBasic = AddRateLimitProposal_ValidateBasic"
  by (simp add: fun_eq_iff UpdateRateLimitProposal_ValidateBasic_def
      AddRateLimitProposal_ValidateBasic_def)

lemma limits_inv_Set: "limits_inv s \<Longrightarrow> limit_ok rl \<Longrightarrow> limits_inv (SetRateLimit rl s)"
  by (auto simp: limits_inv_def ratelimits.wf_put ratelimits.listing_put_iff)

lemma limits_inv_Remove: "limits_inv s \<Longrightarrow> limits_inv (RemoveRateLimit d c s)"
  using ratelimits.wf_del [of s "GetRateLimitItemKey d c"]
    ratelimits.listing_del_iff [of s _ "GetRateLimitItemKey d c"]
  by (auto simp: limits_inv_def RemoveRateLimit_def)

lemma limits_inv_get:
  assumes "limits_inv s" "GetRateLimit s d c = Some rl"
  shows "limit_ok rl" "rl_key rl = GetRateLimitItemKey d c"
proof -
  show "rl_key rl = GetRateLimitItemKey d c"
    using assms by (intro ratelimits.get_key [of s]) (auto simp: limits_inv_def GetRateLimit_def)
  then show "limit_ok rl"
    using assms by (auto simp: limits_inv_def ratelimits.listing_iff GetRateLimit_def)
qed

lemma limits_inv_reset:
  assumes "limits_inv s" "\<And>d. 0 \<le> cval d" "ResetRateLimit cval d c s = (r, t)"
  shows "limits_inv t"
proof (cases "GetRateLimit s d c")
  case (Some rl)
  have "limit_ok (rl\<lparr>rl_Flow := NewFlow (cval d)\<rparr>)"
    using limits_inv_get [OF assms(1) Some] assms(2)
    by (intro limit_ok_NewFlow) (auto simp: limit_ok_def)
  with assms Some show ?thesis
    by (auto simp: ResetRateLimit_def go_defs NewFlow_def intro: limits_inv_Set)
qed (use assms in \<open>auto simp: ResetRateLimit_def go_defs\<close>)

lemma limits_inv_epoch:
  assumes "limits_inv s" "\<And>d. 0 \<le> cval d" "ratelimit_BeforeEpochStart cval epochInfo s = (r, t)"
  shows "limits_inv t \<and> r = Ok ()"
proof (cases "ei_Identifier epochInfo = HOUR_EPOCH")
  case True
  let ?rs = "map (reset_flow cval) (filter (due epochInfo) (GetAllRateLimits s))"
  have "ratelimit_BeforeEpochStart cval epochInfo s = (Ok (), fold SetRateLimit ?rs s)"
    using assms(1) True
    by (intro hour_hook_eq) (auto simp: limits_inv_def limit_ok_def sane_quota_def)
  moreover have "limit_ok (if due epochInfo rl then reset_flow cval rl else rl)"
    if "rl \<in> set (GetAllRateLimits s)" for rl
    using that assms(1,2) limit_ok_NewFlow [of rl]
    by (auto simp: limits_inv_def limit_ok_def reset_flow_def)
  ultimately show ?thesis
    using assms(1,3) hour_hook_listing [of s cval epochInfo] ratelimits.wf_fold_put [of s "?rs"]
    by (fastforce simp: limits_inv_def)
qed (use assms in \<open>simp add: ratelimit_BeforeEpochStart_def\<close>)

lemma limits_inv_step: "ratelimit_step s t \<Longrightarrow> limits_inv s \<Longrightarrow> limits_inv t"
proof (induction rule: ratelimit_step.induct)
  case (transfer amount dir d c s r t)
  show ?case
    using CheckRateLimit_state [OF transfer.hyps(2)] transfer limits_inv_get
    by (fastforce intro: limits_inv_Set limit_ok_add_flow)
next
  case (epoch cval epochInfo s r t)
  then show ?case using limits_inv_epoch by blast
next
  case (add cval va p channelFound s r t)
  then show ?case using limit_ok_proposal [of va p cval]
    by (auto simp: gov_AddRateLimit_def go_defs intro: limits_inv_Set split: if_splits)
next
  case (update cval va p s r t)
  then show ?case using limit_ok_proposal [of va p cval]
    by (auto simp: gov_UpdateRateLimit_def go_defs Update_ValidateBasic_eq intro: limits_inv_Set
        split: if_splits)
next
  case (remove d c s r t)
  then show ?case
    by (auto simp: gov_RemoveRateLimit_def go_defs intro: limits_inv_Remove split: if_splits)
next
  case (reset cval d c s r t)
  then show ?case using limits_inv_reset by (simp add: gov_ResetRateLimit_def) blast
qed (auto simp: limits_inv_def ratelimits_wf_def GetAllRateLimits_def AddDenomToBlacklist_def
    RemoveDenomFromBlacklist_def)

lemma limits_inv_reachable: "ratelimit_reachable s \<Longrightarrow> limits_inv s"
proof (induction rule: ratelimit_reachable.induct)
  case (init bl)
  show ?case by (simp add: limits_inv_def ratelimits_wf_def GetAllRateLimits_def kv_values_def)
next
  case (step s t)
  then show ?case using limits_inv_step by blast
qed

section \<open>No panic on realistic amounts\<close>

text \<open>
  \<open>sdkmath.Int\<close> panics past 256 bits. Amounts, flows and channel values below
  \<open>2 ^ 200\<close> leave room for the sums and for the product with a percentage.
\<close>

definition small :: "int \<Rightarrow> bool" where
  "small x \<longleftrightarrow> \<bar>x\<bar> < 2 ^ 200"

definition small_flow :: "Flow \<Rightarrow> bool" where
  "small_flow f \<longleftrightarrow> small (f_Inflow f) \<and> small (f_Outflow f) \<and> small (f_ChannelValue f)"

lemma small_sum_fits: "small a \<Longrightarrow> small b \<Longrightarrow> small c \<Longrightarrow> fits (a + b) \<and> fits (a - b) \<and> fits (a - b + c)"
  unfolding small_def fits_def by auto

lemma small_percent_fits:
  assumes "small v" "0 \<le> p" "p \<le> 100"
  shows "Int_Mul v p = Ok (v * p)"
proof (rule Int_Mul_fits)
  have "\<bar>v * p\<bar> \<le> \<bar>v\<bar> * 100"
    using assms by (simp add: abs_mult mult_left_mono)
  then show "fits (v * p)" "fits v" "fits p"
    using assms unfolding small_def fits_def by auto
qed

lemma CheckExceedsQuota_small:
  assumes "sane_quota q" "small v"
  shows "CheckExceedsQuota q dir amount v = Ok (v \<noteq> 0 \<and> amount > threshold q dir v)"
  using assms
  by (auto simp: CheckExceedsQuota_def threshold_def sane_quota_def small_percent_fits Int_Quo_def)

lemma UpdateFlow_small:
  assumes "sane_quota (rl_Quota rl)" "small_flow (rl_Flow rl)" "small amount"
    and "dir = PACKET_SEND \<or> dir = PACKET_RECV"
  shows "UpdateFlow rl dir amount =
     (if exceeds rl dir amount then Err (RateLimitErr ErrQuotaExceeded)
      else Ok (add_flow dir amount rl))"
  using assms
  by (auto simp: UpdateFlow_def AddInflow_def AddOutflow_def small_flow_def CheckExceedsQuota_small
      Int_Sub_eq Int_Add_eq small_sum_fits exceeds_def netflow_def add_flow_def)

section \<open>Keys and denoms\<close>

text \<open>
  The store key is the denom followed by the channel id without a separator. The channel id's
  form makes the split unique: the trailing digits and the \<open>channel-\<close> before them can be
  read off the end of the key.
\<close>

lemma takeWhile_digits_rev:
  assumes "list_all is_digit_char ds"
  shows "takeWhile is_digit_char (rev (xs @ ''channel-'' @ ds)) = rev ds"
proof -
  have "takeWhile is_digit_char (rev ds @ ys) = rev ds @ takeWhile is_digit_char ys" for ys
    using assms by (intro takeWhile_append2) (simp add: list_all_iff)
  moreover have "\<not> is_digit_char (CHR ''-'')" by (simp add: is_digit_char_def)
  ultimately show ?thesis by simp
qed

lemma is_channel_id_split:
  "is_channel_id c \<Longrightarrow> \<exists>ds. c = ''channel-'' @ ds \<and> list_all is_digit_char ds"
  unfolding is_channel_id_def by (metis append_take_drop_id)

lemma item_key_inj:
  assumes "is_channel_id c1" "is_channel_id c2"
    and "GetRateLimitItemKey d1 c1 = GetRateLimitItemKey d2 c2"
  shows "d1 = d2 \<and> c1 = c2"
proof -
  obtain ds1 ds2 where ds: "c1 = ''channel-'' @ ds1" "list_all is_digit_char ds1"
      "c2 = ''channel-'' @ ds2" "list_all is_digit_char ds2"
    using assms(1,2) is_channel_id_split by meson
  have eq: "d1 @ ''channel-'' @ ds1 = d2 @ ''channel-'' @ ds2"
    using assms(3) ds by (simp add: GetRateLimitItemKey_def)
  have "rev ds1 = rev ds2"
    using takeWhile_digits_rev [OF ds(2), of d1] takeWhile_digits_rev [OF ds(4), of d2]
    by (simp only: eq)
  with eq ds show ?thesis by simp
qed

section \<open>Properties\<close>

text \<open>Property C1. Whatever sequence of transfers, hour epochs, governance proposals and
  blacklist changes the limiter has been through, the net flow of every limited path, in each
  direction, is at most the quota's percentage of the channel value, unless the channel value is
  zero (then the code checks nothing).\<close>

theorem flows_within_quota:
  assumes "ratelimit_reachable s" "GetRateLimit s denom channelId = Some rl"
    and "f_ChannelValue (rl_Flow rl) \<noteq> 0"
  shows "f_Inflow (rl_Flow rl) - f_Outflow (rl_Flow rl) \<le>
           big_quo (f_ChannelValue (rl_Flow rl) * q_MaxPercentRecv (rl_Quota rl)) 100 \<and>
         f_Outflow (rl_Flow rl) - f_Inflow (rl_Flow rl) \<le>
           big_quo (f_ChannelValue (rl_Flow rl) * q_MaxPercentSend (rl_Quota rl)) 100"
  using limits_inv_get(1) [OF limits_inv_reachable [OF assms(1)] assms(2)] assms(3)
  by (auto simp: limit_ok_def within_quota_def netflow_def threshold_def)

definition demo_proposal :: AddRateLimitProposal where
  "demo_proposal = \<lparr>p_Title = ''t'', p_Description = ''d'', p_Denom = ''ustrd'',
     p_ChannelId = ''channel-0'', p_MaxPercentSend = 10, p_MaxPercentRecv = 20,
     p_DurationHours = 24\<rparr>"

definition demo_limit :: RateLimit where
  "demo_limit = proposal_limit (\<lambda>_. 1000) demo_proposal"

definition demo_limits :: ratelimit_state where
  "demo_limits = SetRateLimit demo_limit \<lparr>rls_limits = [], rls_blacklist = []\<rparr>"

lemma demo_limits_reachable: "ratelimit_reachable demo_limits"
proof (rule ratelimit_reachable.step [OF ratelimit_reachable.init [of "[]"] ratelimit_step.add])
  show "AddRateLimitProposal_ValidateBasic (\<lambda>_ _. Ok ()) demo_proposal = Ok ()"
    by (simp add: AddRateLimitProposal_ValidateBasic_def demo_proposal_def is_channel_id_def
        is_digit_char_def)
  show "gov_AddRateLimit (\<lambda>_. 1000) (\<lambda>_. True) demo_proposal
      \<lparr>rls_limits = [], rls_blacklist = []\<rparr> = (Ok (), demo_limits)"
    by (simp add: gov_AddRateLimit_def go_defs demo_limits_def demo_limit_def GetRateLimit_def)
qed simp

lemma demo_limits_get [simp]: "GetRateLimit demo_limits ''ustrd'' ''channel-0'' = Some demo_limit"
  by (simp add: demo_limits_def GetRateLimit_Set demo_limit_def proposal_limit_def rl_key_def
      demo_proposal_def)

lemma demo_limit_sane: "sane_quota (rl_Quota demo_limit)" "small_flow (rl_Flow demo_limit)"
  by (simp_all add: sane_quota_def small_flow_def small_def demo_limit_def proposal_limit_def
      demo_proposal_def)

lemma demo_not_exceeds: "\<not> exceeds demo_limit PACKET_SEND 60" "exceeds demo_limit PACKET_SEND 101"
  by (simp_all add: exceeds_def netflow_def threshold_def big_quo_def demo_limit_def
      proposal_limit_def demo_proposal_def)

definition demo_sent :: ratelimit_state where
  "demo_sent = SetRateLimit (add_flow PACKET_SEND 60 demo_limit) demo_limits"

lemma demo_sent_reachable: "ratelimit_reachable demo_sent"
proof (rule ratelimit_reachable.step [OF demo_limits_reachable ratelimit_step.transfer])
  show "CheckRateLimitAndUpdateFlow PACKET_SEND ''ustrd'' ''channel-0'' 60 demo_limits = (Ok (), demo_sent)"
    using UpdateFlow_small [OF demo_limit_sane, of 60 PACKET_SEND] demo_not_exceeds
    by (simp add: CheckRateLimitAndUpdateFlow_def go_defs small_def demo_sent_def)
      (simp add: IsDenomBlacklisted_def demo_limits_def SetRateLimit_def)
qed simp

theorem flows_within_quota_witness:
  "GetRateLimit demo_sent ''ustrd'' ''channel-0'' = Some (add_flow PACKET_SEND 60 demo_limit) \<and>
   f_Outflow (rl_Flow (add_flow PACKET_SEND 60 demo_limit)) = 60 \<and>
   f_Outflow (rl_Flow (add_flow PACKET_SEND 60 demo_limit)) -
     f_Inflow (rl_Flow (add_flow PACKET_SEND 60 demo_limit)) \<le> 100"
proof -
  let ?rl = "add_flow PACKET_SEND 60 demo_limit"
  have get: "GetRateLimit demo_sent ''ustrd'' ''channel-0'' = Some ?rl"
    by (simp add: demo_sent_def GetRateLimit_Set)
      (simp add: demo_limit_def proposal_limit_def rl_key_def demo_proposal_def)
  have vals: "f_ChannelValue (rl_Flow ?rl) = 1000" "q_MaxPercentSend (rl_Quota ?rl) = 10"
    "f_Outflow (rl_Flow ?rl) = 60"
    by (simp_all add: add_flow_def demo_limit_def proposal_limit_def demo_proposal_def)
  have "f_Outflow (rl_Flow ?rl) - f_Inflow (rl_Flow ?rl) \<le> big_quo (1000 * 10) 100"
    using flows_within_quota [OF demo_sent_reachable get] by (simp add: vals)
  with get vals show ?thesis by (simp add: big_quo_def)
qed



lemma CheckRateLimit_Err_state:
  "CheckRateLimitAndUpdateFlow dir d c amount s = (Err e, t) \<Longrightarrow> t = s"
  using CheckRateLimit_cases [of dir d c amount s "Err e" t]
  by (auto split: option.splits res.splits if_splits)

lemma packet_Err_state:
  "ReceiveRateLimitedPacket env packet s = (Err e, t) \<Longrightarrow> t = s"
  "SendRateLimitedPacket env sourceChannel data s = (Err e, t) \<Longrightarrow> t = s"
  by (auto simp: ReceiveRateLimitedPacket_def SendRateLimitedPacket_def go_simps Let_def
      dest: CheckRateLimit_Err_state split: option.splits)

text \<open>Property C3. A packet the limiter refuses never reaches the wrapped application or the
  channel keeper, whatever these do, and the refusal leaves every store as it was: a receive is
  answered with an error acknowledgement, a send with the error.\<close>

theorem refused_packets_stop:
  "(ReceiveRateLimitedPacket env packet rl = (Err e, rl') \<longrightarrow>
      OnRecvPacket env app packet (rl, s) = (Ok (ErrorAck e), (rl, s))) \<and>
   (SendRateLimitedPacket env sourceChannel data rl = (Err e, rl') \<longrightarrow>
      SendPacket env channelKeeper sourceChannel data (rl, s) = (Err e, (rl, s)))"
  by (auto simp: OnRecvPacket_def SendPacket_def dest: packet_Err_state)

text \<open>An environment for the witnesses: traces of one hop, amounts in unary.\<close>

definition demo_env :: ibc_env where
  "demo_env = \<lparr>ParseDenomTrace = (\<lambda>d. if take 19 d = ''transfer/channel-0/''
       then \<lparr>trace_Path = take 18 d, trace_BaseDenom = drop 19 d\<rparr>
       else \<lparr>trace_Path = [], trace_BaseDenom = d\<rparr>),
     IBCDenom = (\<lambda>tr. ''ibc/'' @ trace_Path tr @ trace_BaseDenom tr),
     UnmarshalPacketData = (\<lambda>data. Ok \<lparr>pd_Denom = ''ustrd'', pd_Amount = data\<rparr>),
     NewIntFromString = (\<lambda>s. Some (10 * int (length s)))\<rparr>"

theorem refused_packets_stop_witness:
  "OnRecvPacket demo_env (\<lambda>_. go_ret (AppAck ''ok''))
     \<lparr>pkt_SourcePort = ''transfer'', pkt_SourceChannel = ''channel-7'', pkt_DestPort = ''transfer'',
      pkt_DestChannel = ''channel-0'', pkt_Data = ''1''\<rparr>
     (AddDenomToBlacklist ''ibc/transfer/channel-0ustrd'' demo_limits, ()) =
   (Ok (ErrorAck (RateLimitErr ErrDenomIsBlacklisted)),
     (AddDenomToBlacklist ''ibc/transfer/channel-0ustrd'' demo_limits, ())) \<and>
   SendPacket demo_env (\<lambda>_ _. go_ret 1) ''channel-0'' ''12345678901'' (demo_limits, ()) =
     (Err (RateLimitErr ErrQuotaExceeded), (demo_limits, ()))"
proof -
  let ?bl = "AddDenomToBlacklist ''ibc/transfer/channel-0ustrd'' demo_limits"
  let ?p = "\<lparr>pkt_SourcePort = ''transfer'', pkt_SourceChannel = ''channel-7'',
    pkt_DestPort = ''transfer'', pkt_DestChannel = ''channel-0'', pkt_Data = ''1''\<rparr>"
  have recv: "ReceiveRateLimitedPacket demo_env ?p ?bl = (Err (RateLimitErr ErrDenomIsBlacklisted), ?bl)"
    by (simp add: ReceiveRateLimitedPacket_def demo_env_def go_defs ParseDenomFromRecvPacket_def
        ReceiverChainIsSource_def GetDenomPrefix_def CheckRateLimitAndUpdateFlow_def
        IsDenomBlacklisted_Add Let_def)
  have send: "SendRateLimitedPacket demo_env ''channel-0'' ''12345678901'' demo_limits =
      (Err (RateLimitErr ErrQuotaExceeded), demo_limits)"
  proof -
    have "exceeds demo_limit PACKET_SEND 110"
      by (simp add: exceeds_def netflow_def threshold_def big_quo_def demo_limit_def
          proposal_limit_def demo_proposal_def)
    moreover have "\<not> IsDenomBlacklisted demo_limits ''ustrd''"
      by (simp add: demo_limits_def) (simp add: IsDenomBlacklisted_def)
    ultimately show ?thesis
      using UpdateFlow_small [OF demo_limit_sane, of 110 PACKET_SEND]
      by (simp add: SendRateLimitedPacket_def demo_env_def go_defs ParseDenomFromSendPacket_def
          CheckRateLimitAndUpdateFlow_def small_def Let_def)
  qed
  show ?thesis
    by (intro conjI) (rule refused_packets_stop [THEN conjunct1, THEN mp, OF recv],
      rule refused_packets_stop [THEN conjunct2, THEN mp, OF send])
qed

text \<open>Two paths whose channel ids have the form the proposals are checked for
  never share a store key, although the key joins denom and channel id without a separator: a
  limit set on one path is neither read nor removed through another.\<close>

theorem limits_do_not_alias:
  assumes "is_channel_id c1" "is_channel_id c2" "(d1, c1) \<noteq> (d2, c2)"
    and "rl_Path rl = \<lparr>path_Denom = d1, path_ChannelId = c1\<rparr>"
  shows "GetRateLimit (SetRateLimit rl s) d2 c2 = GetRateLimit s d2 c2 \<and>
         GetRateLimit (RemoveRateLimit d1 c1 s) d2 c2 = GetRateLimit s d2 c2"
proof -
  have "GetRateLimitItemKey d2 c2 \<noteq> GetRateLimitItemKey d1 c1"
    using item_key_inj [OF assms(2,1)] assms(3) by blast
  then show ?thesis
    using assms(4) GetRateLimit_Set [of rl s d2 c2]
    by (simp add: rl_key_def) (simp add: GetRateLimit_def RemoveRateLimit_def)
qed

theorem limits_do_not_alias_witness:
  "GetRateLimit (RemoveRateLimit ''ustrd'' ''channel-01'' demo_limits) ''ustrd'' ''channel-0''
     = Some demo_limit"
  using limits_do_not_alias [of "''channel-01''" "''channel-0''" "''ustrd''" "''ustrd''"
      "demo_limit\<lparr>rl_Path := \<lparr>path_Denom = ''ustrd'', path_ChannelId = ''channel-01''\<rparr>\<rparr>" demo_limits]
  by (simp add: is_channel_id_def is_digit_char_def)

text \<open>Property C4. A token counts against the same limit in both directions. When a voucher
  of it comes home (the packet's denom carries the sender's port and channel), the receive packet
  is charged to the denom its send packet is charged to; when a foreign token arrives, it is
  charged to the denom under which sending it back is charged. The second half relies on
  \<open>ParseDenomTrace\<close> giving a prefixed denom a non-empty path.\<close>

theorem same_denom_both_ways:
  assumes "\<And>base. trace_Path (ParseDenomTrace env
             (GetDenomPrefix (pkt_DestPort packet) (pkt_DestChannel packet) @ base)) \<noteq> []"
  shows "(pd_Denom recvd = GetDenomPrefix (pkt_SourcePort packet) (pkt_SourceChannel packet) @ pd_Denom sent \<longrightarrow>
            ParseDenomFromRecvPacket env packet recvd = ParseDenomFromSendPacket env sent) \<and>
         (\<not> ReceiverChainIsSource (pkt_SourcePort packet) (pkt_SourceChannel packet) (pd_Denom recvd) \<and>
          pd_Denom sent = GetDenomPrefix (pkt_DestPort packet) (pkt_DestChannel packet) @ pd_Denom recvd \<longrightarrow>
            ParseDenomFromRecvPacket env packet recvd = ParseDenomFromSendPacket env sent)"
  using assms
  by (simp add: ParseDenomFromRecvPacket_def ParseDenomFromSendPacket_def ReceiverChainIsSource_def
      Let_def)

theorem same_denom_both_ways_witness:
  "ParseDenomFromRecvPacket demo_env
     \<lparr>pkt_SourcePort = ''transfer'', pkt_SourceChannel = ''channel-7'', pkt_DestPort = ''transfer'',
      pkt_DestChannel = ''channel-0'', pkt_Data = []\<rparr>
     \<lparr>pd_Denom = ''uatom'', pd_Amount = ''1''\<rparr> = ''ibc/transfer/channel-0uatom'' \<and>
   ParseDenomFromSendPacket demo_env
     \<lparr>pd_Denom = ''transfer/channel-0/uatom'', pd_Amount = ''1''\<rparr> = ''ibc/transfer/channel-0uatom''"
proof -
  let ?p = "\<lparr>pkt_SourcePort = ''transfer'', pkt_SourceChannel = ''channel-7'',
    pkt_DestPort = ''transfer'', pkt_DestChannel = ''channel-0'', pkt_Data = []\<rparr>"
  have "ParseDenomFromRecvPacket demo_env ?p \<lparr>pd_Denom = ''uatom'', pd_Amount = ''1''\<rparr> =
    ParseDenomFromSendPacket demo_env \<lparr>pd_Denom = ''transfer/channel-0/uatom'', pd_Amount = ''1''\<rparr>"
    using same_denom_both_ways [of demo_env ?p "\<lparr>pd_Denom = ''uatom'', pd_Amount = ''1''\<rparr>"
        "\<lparr>pd_Denom = ''transfer/channel-0/uatom'', pd_Amount = ''1''\<rparr>"]
    by (simp add: demo_env_def GetDenomPrefix_def ReceiverChainIsSource_def)
  then show ?thesis
    by (simp add: ParseDenomFromSendPacket_def demo_env_def)
qed

text \<open>In every reachable state the epoch hook succeeds. At an hour epoch it gives
  exactly the limits whose duration divides the epoch number zero flow and the current supply
  as channel value, and leaves the others alone.\<close>

theorem hour_epoch_resets_due_limits:
  assumes "ratelimit_reachable s" "\<And>d. 0 \<le> cval d" "ei_Identifier epochInfo = HOUR_EPOCH"
  shows "\<exists>t. ratelimit_BeforeEpochStart cval epochInfo s = (Ok (), t) \<and>
    GetAllRateLimits t = map (\<lambda>rl.
      if (word_of_int (ei_CurrentEpoch epochInfo) :: uint64) mod q_DurationHours (rl_Quota rl) = 0
      then rl\<lparr>rl_Flow := NewFlow (cval (path_Denom (rl_Path rl)))\<rparr> else rl) (GetAllRateLimits s)"
proof -
  have inv: "limits_inv s" "ratelimits_wf s"
    using limits_inv_reachable [OF assms(1)] by (simp_all add: limits_inv_def)
  have "ratelimit_BeforeEpochStart cval epochInfo s = (Ok (), fold SetRateLimit
      (map (reset_flow cval) (filter (due epochInfo) (GetAllRateLimits s))) s)"
    using inv assms(3) by (intro hour_hook_eq) (auto simp: limits_inv_def limit_ok_def sane_quota_def)
  with hour_hook_listing [OF inv(2)] show ?thesis
    by (simp add: reset_flow_def due_def)
qed

definition demo_hour :: "int \<Rightarrow> EpochInfo" where
  "demo_hour n = (genesis_epoch HOUR_EPOCH (3600 * 10 ^ 9))\<lparr>ei_CurrentEpoch := n\<rparr>"

theorem hour_epoch_resets_due_limits_witness:
  "\<exists>t. ratelimit_BeforeEpochStart (\<lambda>_. 500) (demo_hour 48) demo_sent = (Ok (), t) \<and>
     map rl_Flow (GetAllRateLimits t) = [\<lparr>f_Inflow = 0, f_Outflow = 0, f_ChannelValue = 500\<rparr>]"
proof -
  have "map rl_Flow (GetAllRateLimits demo_sent) =
      [\<lparr>f_Inflow = 0, f_Outflow = 60, f_ChannelValue = 1000\<rparr>]"
    "map rl_Quota (GetAllRateLimits demo_sent) =
      [\<lparr>q_MaxPercentSend = 10, q_MaxPercentRecv = 20, q_DurationHours = 24\<rparr>]"
    by (simp_all add: GetAllRateLimits_def kv_values_def demo_sent_def demo_limits_def
        SetRateLimit_def demo_limit_def proposal_limit_def demo_proposal_def rl_key_def add_flow_def
        GetRateLimitItemKey_def)
  then obtain rl where "GetAllRateLimits demo_sent = [rl]" "q_DurationHours (rl_Quota rl) = 24"
    by (auto simp: map_eq_Cons_conv)
  then show ?thesis
    using hour_epoch_resets_due_limits [OF demo_sent_reachable, of "\<lambda>_. 500" "demo_hour 48"]
    by (auto simp: demo_hour_def genesis_epoch_def NewFlow_def)
qed

text \<open>Property C5. An export imported into an empty store gives every limit back, in the same
  order; the blacklist is not part of the genesis state, and after the import no denom is
  blacklisted.\<close>

theorem ratelimit_genesis_roundtrip:
  assumes "ratelimits_wf s"
  shows "let t = ratelimit_InitGenesis (ratelimit_ExportGenesis s) \<lparr>rls_limits = [], rls_blacklist = []\<rparr> in
     ratelimit_ExportGenesis t = ratelimit_ExportGenesis s \<and>
     GetRateLimit t d c = GetRateLimit s d c \<and> \<not> IsDenomBlacklisted t d"
proof -
  let ?t = "fold SetRateLimit (GetAllRateLimits s) \<lparr>rls_limits = [], rls_blacklist = []\<rparr>"
  have "rls_blacklist (fold SetRateLimit rls u) = rls_blacklist u" for rls u
    by (induction rls arbitrary: u) (simp_all add: SetRateLimit_def)
  then have "\<not> IsDenomBlacklisted ?t d" by (simp add: IsDenomBlacklisted_def)
  then show ?thesis
    using ratelimits.import_listing [OF assms] ratelimits.import_get [OF assms]
    by (simp add: ratelimit_InitGenesis_def ratelimit_ExportGenesis_def GetRateLimit_def)
qed

theorem ratelimit_genesis_roundtrip_witness:
  "GetRateLimit (ratelimit_InitGenesis (ratelimit_ExportGenesis (AddDenomToBlacklist ''ustrd'' demo_limits))
      \<lparr>rls_limits = [], rls_blacklist = []\<rparr>) ''ustrd'' ''channel-0'' = Some demo_limit \<and>
   IsDenomBlacklisted (AddDenomToBlacklist ''ustrd'' demo_limits) ''ustrd'' \<and>
   \<not> IsDenomBlacklisted (ratelimit_InitGenesis (ratelimit_ExportGenesis
        (AddDenomToBlacklist ''ustrd'' demo_limits)) \<lparr>rls_limits = [], rls_blacklist = []\<rparr>) ''ustrd''"
proof -
  let ?s = "AddDenomToBlacklist ''ustrd'' demo_limits"
  have "ratelimits_wf demo_limits"
    using limits_inv_reachable [OF demo_limits_reachable] by (simp add: limits_inv_def)
  then have "ratelimits_wf ?s" by (simp add: ratelimits_wf_def AddDenomToBlacklist_def)
  moreover have "GetRateLimit ?s ''ustrd'' ''channel-0'' = Some demo_limit"
    using demo_limits_get by (simp add: GetRateLimit_def AddDenomToBlacklist_def)
  ultimately show ?thesis
    using ratelimit_genesis_roundtrip [of "?s" "''ustrd''" "''channel-0''"]
    by (simp add: Let_def IsDenomBlacklisted_Add)
qed

end
