(* ===== verification/Bank.thy ===== *)
theory Bank
  imports SdkMath
begin

text \<open>
  The part of the SDK's bank keeper the modules call (\<open>x/bank/keeper/send.go\<close> and
  \<open>keeper.go\<close> of the vendored SDK): sending between accounts and module accounts, minting
  and burning.

  A balance that is not stored is zero, so the balances and the supply are functions. Coins are
  lists of denom and amount. What the bank takes from the auth module is a parameter: the locked
  (vesting) amounts, the module accounts with their permissions, the blocked addresses. Balance
  subtractions stay within 256 bits because balances do; additions panic on overflow as in the
  code. Account creation, events and the reverse index are left out.
\<close>

type_synonym coins = "(denom \<times> int) list"

record bank =
  bk_balance :: "address \<Rightarrow> denom \<Rightarrow> int"
  bk_supply :: "denom \<Rightarrow> int"

record bank_env =
  be_locked :: "address \<Rightarrow> denom \<Rightarrow> int"
  be_module :: "string \<Rightarrow> address option"
  be_minter :: "string \<Rightarrow> bool"
  be_burner :: "string \<Rightarrow> bool"
  be_blocked :: "address \<Rightarrow> bool"

section \<open>Coins\<close>

definition denom_letter :: "char \<Rightarrow> bool" where
  "denom_letter c \<longleftrightarrow> (CHR ''a'' \<le> c \<and> c \<le> CHR ''z'') \<or> (CHR ''A'' \<le> c \<and> c \<le> CHR ''Z'')"

definition denom_char :: "char \<Rightarrow> bool" where
  "denom_char c \<longleftrightarrow> denom_letter c \<or> (CHR ''0'' \<le> c \<and> c \<le> CHR ''9'') \<or> c \<in> set ''/:._-''"

text \<open>\<open>reDnmString\<close>: a letter followed by 2 to 127 letters, digits or separators.\<close>

definition ValidateDenom :: "denom \<Rightarrow> bool" where
  "ValidateDenom d \<longleftrightarrow>
     (case d of [] \<Rightarrow> False
      | c # cs \<Rightarrow> denom_letter c \<and> 2 \<le> length cs \<and> length cs \<le> 127 \<and> list_all denom_char cs)"

definition NewCoin :: "denom \<Rightarrow> int \<Rightarrow> (denom \<times> int) res" where
  "NewCoin d amount = (if ValidateDenom d \<and> 0 \<le> amount then Ok (d, amount) else Panic)"

definition Coins_IsValid :: "coins \<Rightarrow> bool" where
  "Coins_IsValid cs \<longleftrightarrow>
     sorted_wrt (<) (map fst cs) \<and> list_all (\<lambda>c. ValidateDenom (fst c) \<and> 0 < snd c) cs"

definition NewCoins :: "coins \<Rightarrow> coins res" where
  "NewCoins cs =
     (let newCoins = sort_key fst (filter (\<lambda>c. snd c \<noteq> 0) cs) in
      if Coins_IsValid newCoins then Ok newCoins else Panic)"

section \<open>The keeper\<close>

definition GetBalance :: "bank \<Rightarrow> address \<Rightarrow> denom \<Rightarrow> int" where
  "GetBalance b addr d = bk_balance b addr d"

definition GetSupply :: "bank \<Rightarrow> denom \<Rightarrow> int" where
  "GetSupply b d = bk_supply b d"

definition setBalance :: "address \<Rightarrow> denom \<Rightarrow> int \<Rightarrow> bank \<Rightarrow> bank" where
  "setBalance addr d amount b =
     b\<lparr>bk_balance := (bk_balance b)(addr := (bk_balance b addr)(d := amount))\<rparr>"

definition setSupply :: "denom \<Rightarrow> int \<Rightarrow> bank \<Rightarrow> bank" where
  "setSupply d amount b = b\<lparr>bk_supply := (bk_supply b)(d := amount)\<rparr>"

definition subUnlockedCoin :: "bank_env \<Rightarrow> address \<Rightarrow> denom \<times> int \<Rightarrow> (bank, unit) go" where
  "subUnlockedCoin env addr coin =
     go_bind (go_gets (\<lambda>b. GetBalance b addr (fst coin))) (\<lambda>balance.
     let spendable = balance - be_locked env addr (fst coin) in
     if spendable < 0 then go_fail (Sdk ErrInsufficientFunds)
     else if spendable - snd coin < 0 then go_fail (Sdk ErrInsufficientFunds)
     else if balance - snd coin < 0 then go_panic
     else go_modify (setBalance addr (fst coin) (balance - snd coin)))"

definition subUnlockedCoins :: "bank_env \<Rightarrow> address \<Rightarrow> coins \<Rightarrow> (bank, unit) go" where
  "subUnlockedCoins env addr amt =
     (if \<not> Coins_IsValid amt then go_fail (Sdk ErrInvalidCoins)
      else for_each (subUnlockedCoin env addr) amt)"

definition addCoin :: "address \<Rightarrow> denom \<times> int \<Rightarrow> (bank, unit) go" where
  "addCoin addr coin =
     go_bind (go_gets (\<lambda>b. GetBalance b addr (fst coin))) (\<lambda>balance.
     go_bind (go_lift (Int_Add balance (snd coin))) (\<lambda>newBalance.
     go_modify (setBalance addr (fst coin) newBalance)))"

definition addCoins :: "address \<Rightarrow> coins \<Rightarrow> (bank, unit) go" where
  "addCoins addr amt =
     (if \<not> Coins_IsValid amt then go_fail (Sdk ErrInvalidCoins)
      else for_each (addCoin addr) amt)"

definition SendCoins :: "bank_env \<Rightarrow> address \<Rightarrow> address \<Rightarrow> coins \<Rightarrow> (bank, unit) go" where
  "SendCoins env fromAddr toAddr amt =
     go_bind (subUnlockedCoins env fromAddr amt) (\<lambda>_. addCoins toAddr amt)"

definition SendCoinsFromModuleToAccount ::
  "bank_env \<Rightarrow> string \<Rightarrow> address \<Rightarrow> coins \<Rightarrow> (bank, unit) go" where
  "SendCoinsFromModuleToAccount env senderModule recipientAddr amt =
     (case be_module env senderModule of
        None \<Rightarrow> go_panic
      | Some senderAddr \<Rightarrow>
          if be_blocked env recipientAddr then go_fail (Sdk ErrUnauthorized)
          else SendCoins env senderAddr recipientAddr amt)"

definition SendCoinsFromModuleToModule ::
  "bank_env \<Rightarrow> string \<Rightarrow> string \<Rightarrow> coins \<Rightarrow> (bank, unit) go" where
  "SendCoinsFromModuleToModule env senderModule recipientModule amt =
     (case be_module env senderModule of
        None \<Rightarrow> go_panic
      | Some senderAddr \<Rightarrow>
          (case be_module env recipientModule of
             None \<Rightarrow> go_panic
           | Some recipientAddr \<Rightarrow> SendCoins env senderAddr recipientAddr amt))"

definition SendCoinsFromAccountToModule ::
  "bank_env \<Rightarrow> address \<Rightarrow> string \<Rightarrow> coins \<Rightarrow> (bank, unit) go" where
  "SendCoinsFromAccountToModule env senderAddr recipientModule amt =
     (case be_module env recipientModule of
        None \<Rightarrow> go_panic
      | Some recipientAddr \<Rightarrow> SendCoins env senderAddr recipientAddr amt)"

definition MintCoins :: "bank_env \<Rightarrow> string \<Rightarrow> coins \<Rightarrow> (bank, unit) go" where
  "MintCoins env moduleName amounts =
     (case be_module env moduleName of
        None \<Rightarrow> go_panic
      | Some acc \<Rightarrow>
          if \<not> be_minter env moduleName then go_panic
          else go_bind (addCoins acc amounts) (\<lambda>_.
            for_each (\<lambda>amount.
              go_bind (go_gets (\<lambda>b. GetSupply b (fst amount))) (\<lambda>total.
              go_bind (go_lift (Int_Add total (snd amount))) (\<lambda>total'.
              go_modify (setSupply (fst amount) total')))) amounts))"

definition BurnCoins :: "bank_env \<Rightarrow> string \<Rightarrow> coins \<Rightarrow> (bank, unit) go" where
  "BurnCoins env moduleName amounts =
     (case be_module env moduleName of
        None \<Rightarrow> go_panic
      | Some acc \<Rightarrow>
          if \<not> be_burner env moduleName then go_panic
          else go_bind (subUnlockedCoins env acc amounts) (\<lambda>_.
            for_each (\<lambda>amount.
              go_bind (go_gets (\<lambda>b. GetSupply b (fst amount))) (\<lambda>total.
              if total - snd amount < 0 then go_panic
              else go_modify (setSupply (fst amount) (total - snd amount)))) amounts))"

section \<open>One coin\<close>

text \<open>
  The modules always move a single coin, through \<open>NewCoins\<close>, which drops it when its amount
  is zero.
\<close>

definition bank_add :: "address \<Rightarrow> denom \<Rightarrow> int \<Rightarrow> bank \<Rightarrow> bank" where
  "bank_add addr d x b = setBalance addr d (bk_balance b addr d + x) b"

definition bank_move :: "address \<Rightarrow> address \<Rightarrow> denom \<Rightarrow> int \<Rightarrow> bank \<Rightarrow> bank" where
  "bank_move from to d x b = bank_add to d x (bank_add from d (- x) b)"

definition supply_add :: "denom \<Rightarrow> int \<Rightarrow> bank \<Rightarrow> bank" where
  "supply_add d x b = setSupply d (bk_supply b d + x) b"

lemma bank_add_zero [simp]: "bank_add addr d 0 b = b"
  by (simp add: bank_add_def setBalance_def)

lemma supply_add_zero [simp]: "supply_add d 0 b = b"
  by (simp add: supply_add_def setSupply_def)

lemma bank_move_zero [simp]: "bank_move from to d 0 b = b"
  by (simp add: bank_move_def)

lemma bk_balance_add [simp]:
  "bk_balance (bank_add addr d x b) a' d' =
     bk_balance b a' d' + (if a' = addr \<and> d' = d then x else 0)"
  by (simp add: bank_add_def setBalance_def)

lemma bk_supply_add [simp]: "bk_supply (bank_add addr d x b) = bk_supply b"
  by (simp add: bank_add_def setBalance_def)

lemma bk_supply_supply_add [simp]:
  "bk_supply (supply_add d x b) d' = bk_supply b d' + (if d' = d then x else 0)"
  by (simp add: supply_add_def setSupply_def)

lemma bk_balance_supply_add [simp]: "bk_balance (supply_add d x b) = bk_balance b"
  by (simp add: supply_add_def setSupply_def)

lemma bk_balance_move:
  "bk_balance (bank_move from to d x b) a' d' =
     bk_balance b a' d' + (if a' = to \<and> d' = d then x else 0) - (if a' = from \<and> d' = d then x else 0)"
  by (simp add: bank_move_def)

lemma bk_supply_move [simp]: "bk_supply (bank_move from to d x b) = bk_supply b"
  by (simp add: bank_move_def)

lemma NewCoin_Ok [go_simps]: "NewCoin d x = Ok c \<longleftrightarrow> ValidateDenom d \<and> 0 \<le> x \<and> c = (d, x)"
  by (auto simp: NewCoin_def)

lemma NewCoin_no_Err [go_simps]: "NewCoin d x \<noteq> Err e"
  by (simp add: NewCoin_def)

lemma NewCoins_single:
  "NewCoins [(d, x)] =
     (if x = 0 then Ok [] else if ValidateDenom d \<and> 0 < x then Ok [(d, x)] else Panic)"
  by (simp add: NewCoins_def Coins_IsValid_def)

lemma NewCoins_no_Err [go_simps]: "NewCoins cs \<noteq> Err e"
  by (simp add: NewCoins_def Let_def)

text \<open>The contract of a transfer of one coin: it moves the amount, or fails and changes nothing.\<close>

lemma subUnlockedCoins_Nil [simp]: "subUnlockedCoins env addr [] b = (Ok (), b)"
  by (simp add: subUnlockedCoins_def Coins_IsValid_def)

lemma addCoins_Nil [simp]: "addCoins addr [] b = (Ok (), b)"
  by (simp add: addCoins_def Coins_IsValid_def)

lemma SendCoins_Nil [simp]: "SendCoins env from to [] b = (Ok (), b)"
  by (simp add: SendCoins_def go_bind_def)

lemma subUnlockedCoins_single:
  "ValidateDenom d \<Longrightarrow> 0 < x \<Longrightarrow> 0 \<le> be_locked env addr d \<Longrightarrow>
   subUnlockedCoins env addr [(d, x)] b =
     (if bk_balance b addr d - be_locked env addr d < x then (Err (Sdk ErrInsufficientFunds), b)
      else (Ok (), bank_add addr d (- x) b))"
  by (auto simp: subUnlockedCoins_def Coins_IsValid_def subUnlockedCoin_def go_defs GetBalance_def
      bank_add_def Let_def)

lemma addCoins_single:
  "ValidateDenom d \<Longrightarrow> 0 < x \<Longrightarrow>
   addCoins addr [(d, x)] b =
     (if fits (bk_balance b addr d + x) then (Ok (), bank_add addr d x b) else (Panic, b))"
  by (simp add: addCoins_def Coins_IsValid_def addCoin_def go_defs GetBalance_def bank_add_def
      Int_Add_eq)

definition can_send :: "bank_env \<Rightarrow> address \<Rightarrow> address \<Rightarrow> denom \<Rightarrow> int \<Rightarrow> bank \<Rightarrow> bool" where
  "can_send env from to d x b \<longleftrightarrow> x = 0 \<or>
     (x \<le> bk_balance b from d - be_locked env from d \<and>
      fits (bk_balance (bank_add from d (- x) b) to d + x))"

lemma SendCoins_single:
  assumes "ValidateDenom d" "0 < x" "0 \<le> be_locked env from d"
  shows "SendCoins env from to [(d, x)] b =
     (if bk_balance b from d - be_locked env from d < x then (Err (Sdk ErrInsufficientFunds), b)
      else if fits (bk_balance (bank_add from d (- x) b) to d + x) then (Ok (), bank_move from to d x b)
      else (Panic, bank_add from d (- x) b))"
  using assms by (simp add: SendCoins_def go_bind_def subUnlockedCoins_single addCoins_single bank_move_def)

text \<open>
  What a successful call did, for the coins \<open>NewCoins\<close> builds. No premise on the amount: the
  calls check it.
\<close>

lemma SendCoins_Ok:
  assumes "SendCoins env from to cs b = (Ok u, b')" "NewCoins [(d, x)] = Ok cs"
    and "0 \<le> be_locked env from d"
  shows "b' = bank_move from to d x b" "0 \<le> x" "0 < x \<longrightarrow> x \<le> bk_balance b from d"
  using assms by (auto simp: NewCoins_single SendCoins_single split: if_splits)

lemma SendCoins_Err:
  assumes "SendCoins env from to cs b = (Err e, b')" "NewCoins [(d, x)] = Ok cs"
    and "0 \<le> be_locked env from d"
  shows "b' = b" "e = Sdk ErrInsufficientFunds"
  using assms by (auto simp: NewCoins_single SendCoins_single split: if_splits)

lemma MintCoins_Ok:
  assumes "MintCoins env m cs b = (Ok u, b')" "NewCoins [(d, x)] = Ok cs"
  shows "\<exists>acc. be_module env m = Some acc \<and> be_minter env m \<and>
    b' = supply_add d x (bank_add acc d x b) \<and> 0 \<le> x"
  using assms
  by (auto simp: MintCoins_def NewCoins_single addCoins_single go_defs GetSupply_def Int_Add_eq
      supply_add_def setSupply_def split: option.splits if_splits)

lemma MintCoins_no_Err:
  "NewCoins [(d, x)] = Ok cs \<Longrightarrow> MintCoins env m cs b \<noteq> (Err e, b')"
  by (auto simp: MintCoins_def NewCoins_single addCoins_single go_defs Int_Add_eq
      split: option.splits if_splits)

lemma BurnCoins_Ok:
  assumes "BurnCoins env m cs b = (Ok u, b')" "NewCoins [(d, x)] = Ok cs"
    and "\<And>acc. be_module env m = Some acc \<Longrightarrow> 0 \<le> be_locked env acc d"
  shows "\<exists>acc. be_module env m = Some acc \<and> be_burner env m \<and>
    b' = supply_add d (- x) (bank_add acc d (- x) b) \<and> 0 \<le> x"
  using assms
  by (auto simp: BurnCoins_def NewCoins_single subUnlockedCoins_single go_defs GetSupply_def
      supply_add_def setSupply_def split: option.splits if_splits)

lemma BurnCoins_Err:
  assumes "BurnCoins env m cs b = (Err e, b')" "NewCoins [(d, x)] = Ok cs"
    and "\<And>acc. be_module env m = Some acc \<Longrightarrow> 0 \<le> be_locked env acc d"
  shows "b' = b"
  using assms
  by (auto simp: BurnCoins_def NewCoins_single subUnlockedCoins_single go_defs
      split: option.splits if_splits)

text \<open>A transfer leaves the supply alone, whatever its outcome.\<close>

lemma subUnlockedCoins_supply:
  assumes "subUnlockedCoins env addr cs b = (r, b')"
  shows "bk_supply b' = bk_supply b"
proof (cases "Coins_IsValid cs")
  case True
  with assms have "for_each (subUnlockedCoin env addr) cs b = (r, b')"
    by (simp add: subUnlockedCoins_def)
  then show ?thesis
    by (rule for_each_invariant [where I = "\<lambda>s. bk_supply s = bk_supply b", rotated 2])
      (auto simp: subUnlockedCoin_def go_defs setBalance_def Let_def split: if_splits)
qed (use assms in \<open>simp add: subUnlockedCoins_def go_fail_def\<close>)

lemma addCoins_supply:
  assumes "addCoins addr cs b = (r, b')"
  shows "bk_supply b' = bk_supply b"
proof (cases "Coins_IsValid cs")
  case True
  with assms have "for_each (addCoin addr) cs b = (r, b')"
    by (simp add: addCoins_def)
  then show ?thesis
    by (rule for_each_invariant [where I = "\<lambda>s. bk_supply s = bk_supply b", rotated 2])
      (auto simp: addCoin_def go_defs setBalance_def split: res.splits)
qed (use assms in \<open>simp add: addCoins_def go_fail_def\<close>)

lemma SendCoins_supply:
  assumes "SendCoins env from to cs b = (r, b')"
  shows "bk_supply b' = bk_supply b"
  using assms unfolding SendCoins_def
  by (rule go_bind_invariant [where I = "\<lambda>s. bk_supply s = bk_supply b", rotated 2])
    (auto dest: subUnlockedCoins_supply addCoins_supply)

end
