(* ===== verification/Records.thy ===== *)
theory Records
  imports KVStore
begin

text \<open>
  \<open>x/records\<close>: the book-keeping of deposits and unbondings.

  A \<open>DepositRecord\<close> follows tokens from the liquid stake to the delegation on the host
  (\<open>keeper/deposit_record.go\<close>); an \<open>EpochUnbondingRecord\<close> has one
  \<open>HostZoneUnbonding\<close> per host zone for the redemptions of a day
  (\<open>keeper/epoch_unbonding_record.go\<close>); a \<open>UserRedemptionRecord\<close> is one user's claim
  (\<open>keeper/user_redemption_record.go\<close>). \<open>TransferCallback\<close> moves a deposit record on
  when the transfer to the host was acknowledged (\<open>keeper/callback_transfer.go\<close>).

  Deposit and unbonding records are stored under the big-endian bytes of their number; the model
  keys them by the number, which has the same order (\<open>IDBytes_less_iff\<close>). Decoding the
  callback's arguments and the packet's JSON are parameters.
\<close>

section \<open>Data\<close>

datatype DepositRecord_Status =
  TRANSFER_QUEUE | TRANSFER_IN_PROGRESS | DELEGATION_QUEUE | DELEGATION_IN_PROGRESS

datatype DepositRecord_Source = STRIDE | WITHDRAWAL_ICA

record DepositRecord =
  dr_Id :: uint64
  dr_Amount :: int
  dr_Denom :: denom
  dr_HostZoneId :: string
  dr_Status :: DepositRecord_Status
  dr_DepositEpochNumber :: uint64
  dr_Source :: DepositRecord_Source

datatype HostZoneUnbonding_Status =
  UNBONDING_QUEUE | UNBONDING_IN_PROGRESS | EXIT_TRANSFER_QUEUE | EXIT_TRANSFER_IN_PROGRESS
  | CLAIMABLE

record HostZoneUnbonding =
  hzu_StTokenAmount :: int
  hzu_NativeTokenAmount :: int
  hzu_Denom :: denom
  hzu_HostZoneId :: string
  hzu_UnbondingTime :: uint64
  hzu_Status :: HostZoneUnbonding_Status
  hzu_UserRedemptionRecords :: "string list"

record EpochUnbondingRecord =
  eur_EpochNumber :: uint64
  eur_HostZoneUnbondings :: "HostZoneUnbonding list"

record UserRedemptionRecord =
  urr_Id :: string
  urr_Sender :: address
  urr_Receiver :: address
  urr_Amount :: int
  urr_Denom :: denom
  urr_HostZoneId :: string
  urr_EpochNumber :: uint64
  urr_ClaimIsPending :: bool

record records_state =
  rs_deposits :: "(uint64, DepositRecord) kvstore"
  rs_depositCount :: uint64
  rs_unbondings :: "(uint64, EpochUnbondingRecord) kvstore"
  rs_redemptions :: "(string, UserRedemptionRecord) kvstore"

section \<open>Deposit records\<close>

definition GetDepositRecordCount :: "records_state \<Rightarrow> uint64" where
  "GetDepositRecordCount s = rs_depositCount s"

definition SetDepositRecordCount :: "uint64 \<Rightarrow> records_state \<Rightarrow> records_state" where
  "SetDepositRecordCount count s = s\<lparr>rs_depositCount := count\<rparr>"

definition SetDepositRecord :: "DepositRecord \<Rightarrow> records_state \<Rightarrow> records_state" where
  "SetDepositRecord depositRecord s =
     s\<lparr>rs_deposits := kv_set (dr_Id depositRecord) depositRecord (rs_deposits s)\<rparr>"

definition AppendDepositRecord :: "DepositRecord \<Rightarrow> (records_state, uint64) go" where
  "AppendDepositRecord depositRecord =
     go_bind (go_gets GetDepositRecordCount) (\<lambda>count.
     go_bind (go_modify (SetDepositRecord (depositRecord\<lparr>dr_Id := count\<rparr>))) (\<lambda>_.
     go_bind (go_modify (SetDepositRecordCount (count + 1))) (\<lambda>_.
     go_ret count)))"

definition GetDepositRecord :: "records_state \<Rightarrow> uint64 \<Rightarrow> DepositRecord option" where
  "GetDepositRecord s recordId = kv_get (rs_deposits s) recordId"

definition RemoveDepositRecord :: "uint64 \<Rightarrow> records_state \<Rightarrow> records_state" where
  "RemoveDepositRecord recordId s = s\<lparr>rs_deposits := kv_delete recordId (rs_deposits s)\<rparr>"

definition GetAllDepositRecord :: "records_state \<Rightarrow> DepositRecord list" where
  "GetAllDepositRecord s = kv_values (rs_deposits s)"

definition GetTransferDepositRecordByEpochAndChain ::
  "records_state \<Rightarrow> uint64 \<Rightarrow> string \<Rightarrow> DepositRecord option" where
  "GetTransferDepositRecordByEpochAndChain s epochNumber chainId =
     List.find (\<lambda>depositRecord. dr_DepositEpochNumber depositRecord = epochNumber \<and>
       dr_HostZoneId depositRecord = chainId \<and> dr_Status depositRecord = TRANSFER_QUEUE)
       (GetAllDepositRecord s)"

text \<open>\<open>GetDepositRecordIDBytes\<close>: the eight big-endian bytes of a record number.\<close>

fun big_endian :: "nat \<Rightarrow> nat \<Rightarrow> nat list" where
  "big_endian 0 n = []"
| "big_endian (Suc k) n = n div 256 ^ k # big_endian k (n mod 256 ^ k)"

definition GetDepositRecordIDBytes :: "uint64 \<Rightarrow> nat list" where
  "GetDepositRecordIDBytes recordId = big_endian 8 (unat recordId)"

section \<open>Epoch unbonding records\<close>

definition SetEpochUnbondingRecord :: "EpochUnbondingRecord \<Rightarrow> records_state \<Rightarrow> records_state" where
  "SetEpochUnbondingRecord r s =
     s\<lparr>rs_unbondings := kv_set (eur_EpochNumber r) r (rs_unbondings s)\<rparr>"

definition GetEpochUnbondingRecord :: "records_state \<Rightarrow> uint64 \<Rightarrow> EpochUnbondingRecord option" where
  "GetEpochUnbondingRecord s epochNumber = kv_get (rs_unbondings s) epochNumber"

definition RemoveEpochUnbondingRecord :: "uint64 \<Rightarrow> records_state \<Rightarrow> records_state" where
  "RemoveEpochUnbondingRecord epochNumber s =
     s\<lparr>rs_unbondings := kv_delete epochNumber (rs_unbondings s)\<rparr>"

definition GetAllEpochUnbondingRecord :: "records_state \<Rightarrow> EpochUnbondingRecord list" where
  "GetAllEpochUnbondingRecord s = kv_values (rs_unbondings s)"

definition GetAllPreviousEpochUnbondingRecords ::
  "records_state \<Rightarrow> uint64 \<Rightarrow> EpochUnbondingRecord list" where
  "GetAllPreviousEpochUnbondingRecords s epochNumber =
     filter (\<lambda>r. eur_EpochNumber r < epochNumber) (GetAllEpochUnbondingRecord s)"

definition GetHostZoneUnbondingByChainId ::
  "records_state \<Rightarrow> uint64 \<Rightarrow> string \<Rightarrow> HostZoneUnbonding option" where
  "GetHostZoneUnbondingByChainId s epochNumber chainId =
     (case GetEpochUnbondingRecord s epochNumber of
        None \<Rightarrow> None
      | Some r \<Rightarrow> List.find (\<lambda>hzu. hzu_HostZoneId hzu = chainId) (eur_HostZoneUnbondings r))"

text \<open>The loop of \<open>AddHostZoneToEpochUnbondingRecord\<close>: overwrite the first entry of the
  chain, or append.\<close>

fun put_hzu :: "string \<Rightarrow> HostZoneUnbonding \<Rightarrow> HostZoneUnbonding list \<Rightarrow> HostZoneUnbonding list" where
  "put_hzu chainId hzu [] = [hzu]"
| "put_hzu chainId hzu (h # hs) =
     (if hzu_HostZoneId h = chainId then hzu # hs else h # put_hzu chainId hzu hs)"

definition AddHostZoneToEpochUnbondingRecord ::
  "records_state \<Rightarrow> uint64 \<Rightarrow> string \<Rightarrow> HostZoneUnbonding \<Rightarrow> EpochUnbondingRecord option" where
  "AddHostZoneToEpochUnbondingRecord s epochNumber chainId hzu =
     map_option (\<lambda>r. r\<lparr>eur_HostZoneUnbondings := put_hzu chainId hzu (eur_HostZoneUnbondings r)\<rparr>)
       (GetEpochUnbondingRecord s epochNumber)"

definition SetHostZoneUnbondings ::
  "string \<Rightarrow> uint64 list \<Rightarrow> HostZoneUnbonding_Status \<Rightarrow> (records_state, unit) go" where
  "SetHostZoneUnbondings chainId epochUnbondingRecordIds status =
     for_each (\<lambda>recordId.
       go_bind (go_gets (\<lambda>s. GetHostZoneUnbondingByChainId s recordId chainId)) (\<lambda>found.
       go_bind (go_found found (StakeIBCErr ErrHostZoneNotFound)) (\<lambda>hostZoneUnbonding.
       go_bind (go_gets (\<lambda>s. AddHostZoneToEpochUnbondingRecord s recordId chainId
                              (hostZoneUnbonding\<lparr>hzu_Status := status\<rparr>))) (\<lambda>updated.
       go_bind (go_found updated (RecordsErr ErrAddingHostZone)) (\<lambda>updatedRecord.
       go_modify (SetEpochUnbondingRecord updatedRecord))))))
     epochUnbondingRecordIds"

section \<open>User redemption records\<close>

definition SetUserRedemptionRecord :: "UserRedemptionRecord \<Rightarrow> records_state \<Rightarrow> records_state" where
  "SetUserRedemptionRecord r s = s\<lparr>rs_redemptions := kv_set (urr_Id r) r (rs_redemptions s)\<rparr>"

definition GetUserRedemptionRecord :: "records_state \<Rightarrow> string \<Rightarrow> UserRedemptionRecord option" where
  "GetUserRedemptionRecord s recordId = kv_get (rs_redemptions s) recordId"

definition RemoveUserRedemptionRecord :: "string \<Rightarrow> records_state \<Rightarrow> records_state" where
  "RemoveUserRedemptionRecord recordId s = s\<lparr>rs_redemptions := kv_delete recordId (rs_redemptions s)\<rparr>"

definition GetAllUserRedemptionRecord :: "records_state \<Rightarrow> UserRedemptionRecord list" where
  "GetAllUserRedemptionRecord s = kv_values (rs_redemptions s)"

definition UserRedemptionRecordKeyFormatter :: "string \<Rightarrow> uint64 \<Rightarrow> address \<Rightarrow> string" where
  "UserRedemptionRecordKeyFormatter chainId epochNumber sender =
     chainId @ ''.'' @ decimal (unat epochNumber) @ ''.'' @ sender"

section \<open>The transfer callback\<close>

datatype AckResponseStatus =
  AckResponseStatus_SUCCESS | AckResponseStatus_TIMEOUT | AckResponseStatus_FAILURE

text \<open>\<open>args\<close> is the result of decoding the callback's arguments, \<open>packetDecodes\<close> that
  of decoding the packet's JSON.\<close>

definition TransferCallback ::
  "uint64 res \<Rightarrow> bool \<Rightarrow> AckResponseStatus \<Rightarrow> (records_state, unit) go" where
  "TransferCallback args packetDecodes status =
     go_bind (go_wrap (RecordsErr ErrRecordsUnmarshalFailure) (go_lift args)) (\<lambda>recordId.
     go_bind (go_gets (\<lambda>s. GetDepositRecord s recordId)) (\<lambda>found.
     go_bind (go_found found (RecordsErr ErrUnknownDepositRecord)) (\<lambda>depositRecord.
     if status = AckResponseStatus_TIMEOUT then
       go_modify (SetDepositRecord (depositRecord\<lparr>dr_Status := TRANSFER_QUEUE\<rparr>))
     else if status = AckResponseStatus_FAILURE then
       go_modify (SetDepositRecord (depositRecord\<lparr>dr_Status := TRANSFER_QUEUE\<rparr>))
     else if \<not> packetDecodes then go_fail (Sdk ErrUnknownRequest)
     else go_modify (SetDepositRecord (depositRecord\<lparr>dr_Status := DELEGATION_QUEUE\<rparr>)))))"

section \<open>Genesis\<close>

record RecordsGenesis =
  rg_UserRedemptionRecordList :: "UserRedemptionRecord list"
  rg_EpochUnbondingRecordList :: "EpochUnbondingRecord list"
  rg_DepositRecordList :: "DepositRecord list"
  rg_DepositRecordCount :: uint64

definition records_InitGenesis :: "RecordsGenesis \<Rightarrow> records_state \<Rightarrow> records_state" where
  "records_InitGenesis g s =
     SetDepositRecordCount (rg_DepositRecordCount g)
       (fold SetDepositRecord (rg_DepositRecordList g)
         (fold SetEpochUnbondingRecord (rg_EpochUnbondingRecordList g)
           (fold SetUserRedemptionRecord (rg_UserRedemptionRecordList g) s)))"

definition records_ExportGenesis :: "records_state \<Rightarrow> RecordsGenesis" where
  "records_ExportGenesis s =
     \<lparr>rg_UserRedemptionRecordList = GetAllUserRedemptionRecord s,
      rg_EpochUnbondingRecordList = GetAllEpochUnbondingRecord s,
      rg_DepositRecordList = GetAllDepositRecord s,
      rg_DepositRecordCount = GetDepositRecordCount s\<rparr>"

text \<open>\<open>portValid\<close> is the verdict of the IBC port validator; the module has no parameters to
  validate.\<close>

fun no_duplicates :: "'a list \<Rightarrow> 'a list \<Rightarrow> bool" where
  "no_duplicates seen [] = True"
| "no_duplicates seen (x # xs) = (if x \<in> set seen then False else no_duplicates (x # seen) xs)"

fun deposits_valid :: "uint64 \<Rightarrow> uint64 list \<Rightarrow> DepositRecord list \<Rightarrow> bool" where
  "deposits_valid count seen [] = True"
| "deposits_valid count seen (d # ds) =
     (if dr_Id d \<in> set seen then False
      else if count \<le> dr_Id d then False
      else deposits_valid count (dr_Id d # seen) ds)"

definition records_GenesisState_Validate :: "bool \<Rightarrow> RecordsGenesis \<Rightarrow> unit res" where
  "records_GenesisState_Validate portValid g =
     (if \<not> portValid then Err Plain
      else if \<not> no_duplicates [] (map urr_Id (rg_UserRedemptionRecordList g)) then Err Plain
      else if \<not> no_duplicates [] (map eur_EpochNumber (rg_EpochUnbondingRecordList g)) then Err Plain
      else if \<not> deposits_valid (rg_DepositRecordCount g) [] (rg_DepositRecordList g) then Err Plain
      else Ok ())"

section \<open>The keepers satisfy the store contract\<close>

definition records_empty :: records_state where
  "records_empty = \<lparr>rs_deposits = [], rs_depositCount = 0, rs_unbondings = [], rs_redemptions = []\<rparr>"

definition records_wf :: "records_state \<Rightarrow> bool" where
  "records_wf s \<longleftrightarrow> kv_keyed dr_Id (rs_deposits s) \<and> kv_keyed eur_EpochNumber (rs_unbondings s) \<and>
     kv_keyed urr_Id (rs_redemptions s)"

interpretation deposits: genesis_store dr_Id GetDepositRecord SetDepositRecord RemoveDepositRecord
  GetAllDepositRecord records_wf records_empty
  by unfold_locales
    (auto simp: GetDepositRecord_def SetDepositRecord_def RemoveDepositRecord_def
      GetAllDepositRecord_def records_wf_def records_empty_def kv_keyed_values_iff
      kv_keyed_values_sorted dest: kv_keyed_get)

interpretation unbondings: genesis_store eur_EpochNumber GetEpochUnbondingRecord
  SetEpochUnbondingRecord RemoveEpochUnbondingRecord GetAllEpochUnbondingRecord records_wf
  records_empty
  by unfold_locales
    (auto simp: GetEpochUnbondingRecord_def SetEpochUnbondingRecord_def
      RemoveEpochUnbondingRecord_def GetAllEpochUnbondingRecord_def records_wf_def
      records_empty_def kv_keyed_values_iff kv_keyed_values_sorted dest: kv_keyed_get)

interpretation redemptions: genesis_store urr_Id GetUserRedemptionRecord SetUserRedemptionRecord
  RemoveUserRedemptionRecord GetAllUserRedemptionRecord records_wf records_empty
  by unfold_locales
    (auto simp: GetUserRedemptionRecord_def SetUserRedemptionRecord_def
      RemoveUserRedemptionRecord_def GetAllUserRedemptionRecord_def records_wf_def
      records_empty_def kv_keyed_values_iff kv_keyed_values_sorted dest: kv_keyed_get)

text \<open>The three stores are independent.\<close>

lemma records_frame [simp]:
  "GetEpochUnbondingRecord (SetDepositRecord d s) = GetEpochUnbondingRecord s"
  "GetUserRedemptionRecord (SetDepositRecord d s) = GetUserRedemptionRecord s"
  "GetDepositRecordCount (SetDepositRecord d s) = GetDepositRecordCount s"
  "GetDepositRecord (SetEpochUnbondingRecord u s) = GetDepositRecord s"
  "GetAllDepositRecord (SetEpochUnbondingRecord u s) = GetAllDepositRecord s"
  "GetUserRedemptionRecord (SetEpochUnbondingRecord u s) = GetUserRedemptionRecord s"
  "GetDepositRecord (SetUserRedemptionRecord r s) = GetDepositRecord s"
  "GetAllDepositRecord (SetUserRedemptionRecord r s) = GetAllDepositRecord s"
  "GetEpochUnbondingRecord (SetUserRedemptionRecord r s) = GetEpochUnbondingRecord s"
  "GetAllEpochUnbondingRecord (SetUserRedemptionRecord r s) = GetAllEpochUnbondingRecord s"
  "GetAllEpochUnbondingRecord (SetDepositRecord d s) = GetAllEpochUnbondingRecord s"
  "GetAllUserRedemptionRecord (SetDepositRecord d s) = GetAllUserRedemptionRecord s"
  "GetAllUserRedemptionRecord (SetEpochUnbondingRecord u s) = GetAllUserRedemptionRecord s"
  "GetDepositRecord (SetDepositRecordCount c s) = GetDepositRecord s"
  "GetAllDepositRecord (SetDepositRecordCount c s) = GetAllDepositRecord s"
  "GetAllEpochUnbondingRecord (SetDepositRecordCount c s) = GetAllEpochUnbondingRecord s"
  "GetAllUserRedemptionRecord (SetDepositRecordCount c s) = GetAllUserRedemptionRecord s"
  "GetDepositRecordCount (SetDepositRecordCount c s) = c"
  "records_wf (SetDepositRecordCount c s) = records_wf s"
  by (simp_all add: fun_eq_iff GetEpochUnbondingRecord_def SetDepositRecord_def
      GetUserRedemptionRecord_def GetDepositRecord_def SetEpochUnbondingRecord_def
      SetUserRedemptionRecord_def GetDepositRecordCount_def GetAllDepositRecord_def
      GetAllEpochUnbondingRecord_def GetAllUserRedemptionRecord_def SetDepositRecordCount_def
      records_wf_def)

section \<open>Keys\<close>

lemma big_endian_length [simp]: "length (big_endian k n) = k"
  by (induction k arbitrary: n) simp_all

lemma big_endian_less_iff:
  "n < 256 ^ k \<Longrightarrow> m < 256 ^ k \<Longrightarrow> big_endian k n < big_endian k m \<longleftrightarrow> n < m"
proof (induction k arbitrary: n m)
  case (Suc k)
  define P :: nat where "P = 256 ^ k"
  have P: "0 < P" by (simp add: P_def)
  have IH: "big_endian k (n mod P) < big_endian k (m mod P) \<longleftrightarrow> n mod P < m mod P"
    using P by (intro Suc.IH) (simp_all add: P_def)
  have "n < m \<longleftrightarrow> n div P < m div P \<or> n div P = m div P \<and> n mod P < m mod P"
  proof (cases "n div P" "m div P" rule: linorder_cases)
    case less
    then have "n < m" using div_le_mono [of m n P] by (metis leD not_le)
    with less show ?thesis by simp
  next
    case equal
    then show ?thesis
      using div_mult_mod_eq [of n P] div_mult_mod_eq [of m P] by (metis nat_add_left_cancel_less less_irrefl)
  next
    case greater
    then have "m < n" using div_le_mono [of n m P] by (metis leD not_le)
    with greater show ?thesis by simp
  qed
  with IH show ?case by (simp add: P_def [symmetric])
qed simp

lemma IDBytes_less_iff:
  "GetDepositRecordIDBytes v < GetDepositRecordIDBytes w \<longleftrightarrow> v < w"
proof -
  have "unat u < 256 ^ 8" for u :: uint64
    using unsigned_less [where ?'a = nat, of u] by simp
  then show ?thesis
    by (simp only: GetDepositRecordIDBytes_def big_endian_less_iff word_less_nat_alt)
qed

text \<open>Decimal numerals can be read back, and contain no dot.\<close>

definition undecimal :: "string \<Rightarrow> nat" where
  "undecimal cs = foldl (\<lambda>n c. 10 * n + (of_char c - 48)) 0 cs"

lemma of_digit_char [simp]: "n < 10 \<Longrightarrow> of_char (digit_char n) = 48 + (n::nat)"
  by (simp add: digit_char_def)

lemma undecimal_decimal [simp]: "undecimal (decimal n) = n"
proof (induction n rule: decimal.induct)
  case (1 n)
  then show ?case by (subst decimal.simps) (auto simp: undecimal_def)
qed

lemma digit_char_no_dot: "n < 10 \<Longrightarrow> digit_char n \<noteq> CHR ''.''"
proof
  assume "n < 10" "digit_char n = CHR ''.''"
  then have "(48 + n :: nat) = of_char (CHR ''.'')" by (metis of_digit_char)
  then show False by simp
qed

lemma decimal_no_dot: "CHR ''.'' \<notin> set (decimal n)"
proof (induction n rule: decimal.induct)
  case (1 n)
  then show ?case
    using digit_char_no_dot [of n] digit_char_no_dot [of "n mod 10"] by (subst decimal.simps) auto
qed

lemma split_at_dot:
  assumes "xs @ ''.'' @ ys = xs' @ ''.'' @ ys'" "CHR ''.'' \<notin> set ys" "CHR ''.'' \<notin> set ys'"
  shows "xs = xs' \<and> ys = ys'"
proof -
  have "takeWhile (\<lambda>c. c \<noteq> CHR ''.'') (rev (zs @ ''.'' @ ws)) = rev ws"
    if "CHR ''.'' \<notin> set ws" for zs ws :: string
  proof -
    have "takeWhile (\<lambda>c. c \<noteq> CHR ''.'') (rev ws @ us) = rev ws @ takeWhile (\<lambda>c. c \<noteq> CHR ''.'') us" for us
      using that by (intro takeWhile_append2) auto
    then show ?thesis by simp
  qed
  then have "rev ys = rev ys'" using assms by metis
  with assms(1) show ?thesis by simp
qed

lemma key_formatter_inj:
  assumes "UserRedemptionRecordKeyFormatter c e a = UserRedemptionRecordKeyFormatter c' e' a'"
    and "CHR ''.'' \<notin> set a" "CHR ''.'' \<notin> set a'"
  shows "c = c' \<and> e = e' \<and> a = a'"
proof -
  have "(c @ ''.'' @ decimal (unat e)) @ ''.'' @ a = (c' @ ''.'' @ decimal (unat e')) @ ''.'' @ a'"
    using assms(1) by (simp add: UserRedemptionRecordKeyFormatter_def)
  then have "c @ ''.'' @ decimal (unat e) = c' @ ''.'' @ decimal (unat e')" and a: "a = a'"
    using split_at_dot assms(2,3) by blast+
  then have "c = c'" "decimal (unat e) = decimal (unat e')"
    using split_at_dot [OF _ decimal_no_dot decimal_no_dot] by blast+
  then have "unat e = unat e'" by (metis undecimal_decimal)
  with a \<open>c = c'\<close> show ?thesis by (simp add: unsigned_word_eqI)
qed

section \<open>Host zone unbondings\<close>

lemma find_put_hzu:
  assumes "hzu_HostZoneId h = c"
  shows "List.find (\<lambda>x. hzu_HostZoneId x = c') (put_hzu c h hs) =
    (if c' = c then Some h else List.find (\<lambda>x. hzu_HostZoneId x = c') hs)"
  using assms by (induction hs) auto

lemma GetHZU_HostZoneId:
  "GetHostZoneUnbondingByChainId s e c = Some h \<Longrightarrow> hzu_HostZoneId h = c"
  by (auto simp: GetHostZoneUnbondingByChainId_def dest!: find_Some_D split: option.splits)

lemma AddHZU_Some:
  assumes "GetHostZoneUnbondingByChainId s e c = Some h0"
  shows "\<exists>r. AddHostZoneToEpochUnbondingRecord s e c h = Some r"
  using assms
  by (auto simp: GetHostZoneUnbondingByChainId_def AddHostZoneToEpochUnbondingRecord_def
      split: option.splits)

lemma GetHZU_put:
  assumes "records_wf s" "AddHostZoneToEpochUnbondingRecord s e c h = Some r" "hzu_HostZoneId h = c"
  shows "GetHostZoneUnbondingByChainId (SetEpochUnbondingRecord r s) e' c' =
    (if e' = e \<and> c' = c then Some h else GetHostZoneUnbondingByChainId s e' c')"
proof -
  obtain r0 where r0: "GetEpochUnbondingRecord s e = Some r0"
    "r = r0\<lparr>eur_HostZoneUnbondings := put_hzu c h (eur_HostZoneUnbondings r0)\<rparr>"
    using assms(2) by (auto simp: AddHostZoneToEpochUnbondingRecord_def)
  have "eur_EpochNumber r0 = e" using assms(1) r0(1) by (rule unbondings.get_key)
  with r0 show ?thesis
    by (simp add: GetHostZoneUnbondingByChainId_def unbondings.get_put find_put_hzu [OF assms(3)])
qed

lemma SetHZU_status_step:
  assumes "records_wf s" "GetHostZoneUnbondingByChainId s e c = Some h"
  shows "\<exists>r. AddHostZoneToEpochUnbondingRecord s e c (h\<lparr>hzu_Status := st\<rparr>) = Some r \<and>
    records_wf (SetEpochUnbondingRecord r s) \<and>
    (\<forall>e' c'. GetHostZoneUnbondingByChainId (SetEpochUnbondingRecord r s) e' c' =
      (if e' = e \<and> c' = c then Some (h\<lparr>hzu_Status := st\<rparr>) else GetHostZoneUnbondingByChainId s e' c'))"
proof -
  obtain r where r: "AddHostZoneToEpochUnbondingRecord s e c (h\<lparr>hzu_Status := st\<rparr>) = Some r"
    using AddHZU_Some [OF assms(2)] by blast
  moreover have "hzu_HostZoneId (h\<lparr>hzu_Status := st\<rparr>) = c"
    using GetHZU_HostZoneId [OF assms(2)] by simp
  ultimately show ?thesis
    using GetHZU_put [OF assms(1)] unbondings.wf_put [OF assms(1)] by blast
qed

lemma SetHostZoneUnbondings_Cons:
  assumes "records_wf s" "GetHostZoneUnbondingByChainId s e c = Some h"
  shows "\<exists>s1. SetHostZoneUnbondings c (e # ids) st s = SetHostZoneUnbondings c ids st s1 \<and>
      records_wf s1 \<and> (\<forall>e' c'. GetHostZoneUnbondingByChainId s1 e' c' =
      (if e' = e \<and> c' = c then Some (h\<lparr>hzu_Status := st\<rparr>) else GetHostZoneUnbondingByChainId s e' c'))"
  using SetHZU_status_step [OF assms, of st] assms
  by (auto simp: SetHostZoneUnbondings_def go_defs)

lemma SetHostZoneUnbondings_Ok_iff:
  assumes "records_wf s" "SetHostZoneUnbondings c ids st s = (r, t)"
  shows "(\<forall>e\<in>set ids. GetHostZoneUnbondingByChainId s e c \<noteq> None) \<Longrightarrow>
      r = Ok () \<and> records_wf t \<and>
      (\<forall>e' c'. GetHostZoneUnbondingByChainId t e' c' =
        (if c' = c \<and> e' \<in> set ids then map_option (hzu_Status_update (\<lambda>_. st)) (GetHostZoneUnbondingByChainId s e' c')
         else GetHostZoneUnbondingByChainId s e' c'))"
    and "\<not> (\<forall>e\<in>set ids. GetHostZoneUnbondingByChainId s e c \<noteq> None) \<Longrightarrow>
      r = Err (StakeIBCErr ErrHostZoneNotFound)"
  using assms
proof (induction ids arbitrary: s)
  case Nil
  { case 1 then show ?case by (auto simp: SetHostZoneUnbondings_def) }
  { case 2 then show ?case by simp }
next
  case (Cons e ids)
  { case 1
    then obtain h where h: "GetHostZoneUnbondingByChainId s e c = Some h" by auto
    from SetHostZoneUnbondings_Cons [OF 1(2) h, of ids st] obtain s1 where s1:
        "SetHostZoneUnbondings c ids st s1 = (r, t)" "records_wf s1"
        "\<And>e' c'. GetHostZoneUnbondingByChainId s1 e' c' =
          (if e' = e \<and> c' = c then Some (h\<lparr>hzu_Status := st\<rparr>) else GetHostZoneUnbondingByChainId s e' c')"
      using 1(3) by auto
    show ?case using Cons.IH(1) [OF _ s1(2,1)] 1(1) s1(3) h by (auto split: if_splits) }
  { case 2
    show ?case
    proof (cases "GetHostZoneUnbondingByChainId s e c")
      case None
      with 2(3) show ?thesis by (auto simp: SetHostZoneUnbondings_def go_defs)
    next
      case (Some h)
      from SetHostZoneUnbondings_Cons [OF 2(2) Some, of ids st] obtain s1 where s1:
          "SetHostZoneUnbondings c ids st s1 = (r, t)" "records_wf s1"
          "\<And>e' c'. GetHostZoneUnbondingByChainId s1 e' c' =
            (if e' = e \<and> c' = c then Some (h\<lparr>hzu_Status := st\<rparr>) else GetHostZoneUnbondingByChainId s e' c')"
        using 2(3) by auto
      from 2(1) Some obtain e' where "e' \<in> set ids" "GetHostZoneUnbondingByChainId s e' c = None"
        by auto
      with Some have "e' \<in> set ids \<and> GetHostZoneUnbondingByChainId s1 e' c = None"
        by (auto simp: s1(3))
      then have "\<not> (\<forall>e\<in>set ids. GetHostZoneUnbondingByChainId s1 e c \<noteq> None)" by blast
      then show ?thesis using Cons.IH(2) [OF _ s1(2,1)] by blast
    qed }
qed

text \<open>Status changes leave the other two stores alone, whatever happens.\<close>

lemma SetHostZoneUnbondings_frame:
  assumes "SetHostZoneUnbondings c ids st s = (r, t)"
  shows "GetDepositRecord t = GetDepositRecord s" "GetUserRedemptionRecord t = GetUserRedemptionRecord s"
    "GetAllDepositRecord t = GetAllDepositRecord s" "records_wf s \<Longrightarrow> records_wf t"
proof -
  let ?I = "\<lambda>t. GetDepositRecord t = GetDepositRecord s \<and>
    GetUserRedemptionRecord t = GetUserRedemptionRecord s \<and>
    GetAllDepositRecord t = GetAllDepositRecord s \<and> (records_wf s \<longrightarrow> records_wf t)"
  have "?I t"
    by (rule for_each_invariant [where I = ?I, OF _ _ assms [unfolded SetHostZoneUnbondings_def]])
      (auto simp: go_defs unbondings.wf_put split: option.splits)
  then show "GetDepositRecord t = GetDepositRecord s" "GetUserRedemptionRecord t = GetUserRedemptionRecord s"
    "GetAllDepositRecord t = GetAllDepositRecord s" "records_wf s \<Longrightarrow> records_wf t"
    by simp_all
qed

section \<open>Fresh deposit records\<close>

definition deposit_ids_ok :: "records_state \<Rightarrow> bool" where
  "deposit_ids_ok s \<longleftrightarrow> records_wf s \<and> (\<forall>d\<in>set (GetAllDepositRecord s). dr_Id d < GetDepositRecordCount s)"

lemma AppendDepositRecord_eq:
  "AppendDepositRecord d s = (Ok (GetDepositRecordCount s),
     SetDepositRecordCount (GetDepositRecordCount s + 1)
       (SetDepositRecord (d\<lparr>dr_Id := GetDepositRecordCount s\<rparr>) s))"
  by (simp add: AppendDepositRecord_def go_defs)

lemma word_less_succ:
  assumes "w \<noteq> (- 1 :: uint64)"
  shows "w < w + 1"
proof -
  have "unat w \<noteq> unat (- 1 :: uint64)" using assms by (metis unsigned_word_eqI)
  then have "unat w + 1 < 2 ^ 64"
    using unsigned_less [where ?'a = nat, of w] by (simp add: unsigned_minus_1_eq_mask mask_eq_exp_minus_1)
  then have "unat (w + 1) = unat w + 1" by (simp add: unat_word_ariths)
  then show ?thesis by (simp add: word_less_nat_alt)
qed

lemma deposit_ids_ok_append:
  assumes "deposit_ids_ok s" "GetDepositRecordCount s \<noteq> - 1" "AppendDepositRecord d s = (r, t)"
  shows "deposit_ids_ok t"
proof -
  have succ: "GetDepositRecordCount s < GetDepositRecordCount s + 1"
    using assms(2) by (rule word_less_succ)
  have "v < GetDepositRecordCount s + 1" if "v < GetDepositRecordCount s" for v
    using that succ by (rule less_trans)
  with succ assms show ?thesis
    by (auto simp: AppendDepositRecord_eq deposit_ids_ok_def deposits.wf_put deposits.listing_put_iff)
qed

lemma no_duplicates_iff: "no_duplicates seen xs \<longleftrightarrow> distinct xs \<and> set xs \<inter> set seen = {}"
  by (induction xs arbitrary: seen) auto

lemma deposits_valid_iff:
  "deposits_valid n seen ds \<longleftrightarrow>
     distinct (map dr_Id ds) \<and> set (map dr_Id ds) \<inter> set seen = {} \<and> (\<forall>d\<in>set ds. dr_Id d < n)"
  by (induction ds arbitrary: seen) (auto simp: not_le)

lemma records_InitGenesis_eq:
  "records_InitGenesis g records_empty =
     \<lparr>rs_deposits = fold (\<lambda>d. kv_set (dr_Id d) d) (rg_DepositRecordList g) [],
      rs_depositCount = rg_DepositRecordCount g,
      rs_unbondings = fold (\<lambda>u. kv_set (eur_EpochNumber u) u) (rg_EpochUnbondingRecordList g) [],
      rs_redemptions = fold (\<lambda>r. kv_set (urr_Id r) r) (rg_UserRedemptionRecordList g) []\<rparr>"
proof -
  have "fold SetDepositRecord ds s = s\<lparr>rs_deposits := fold (\<lambda>d. kv_set (dr_Id d) d) ds (rs_deposits s)\<rparr>"
    "fold SetEpochUnbondingRecord us s =
       s\<lparr>rs_unbondings := fold (\<lambda>u. kv_set (eur_EpochNumber u) u) us (rs_unbondings s)\<rparr>"
    "fold SetUserRedemptionRecord rs s =
       s\<lparr>rs_redemptions := fold (\<lambda>r. kv_set (urr_Id r) r) rs (rs_redemptions s)\<rparr>" for ds us rs s
    by (induction ds arbitrary: s, auto simp: SetDepositRecord_def)
      (induction us arbitrary: s, auto simp: SetEpochUnbondingRecord_def,
       induction rs arbitrary: s, auto simp: SetUserRedemptionRecord_def)
  then show ?thesis
    by (simp add: records_InitGenesis_def records_empty_def SetDepositRecordCount_def)
qed

lemma records_import_export:
  "records_wf s \<Longrightarrow> records_InitGenesis (records_ExportGenesis s) records_empty = s"
  by (simp add: records_InitGenesis_eq records_ExportGenesis_def GetAllDepositRecord_def
      GetAllEpochUnbondingRecord_def GetAllUserRedemptionRecord_def GetDepositRecordCount_def
      records_wf_def kv_import)

lemma kv_keyed_fold: "kv_keyed key m \<Longrightarrow> kv_keyed key (fold (\<lambda>v. kv_set (key v) v) vs m)"
  by (induction vs arbitrary: m) simp_all

lemma kv_values_fold_subset:
  "set (kv_values (fold (\<lambda>v. kv_set (key v) v) vs m)) \<subseteq> set (kv_values m) \<union> set vs"
proof (induction vs arbitrary: m)
  case (Cons v vs)
  have "set (kv_values (kv_set (key v) v m)) \<subseteq> insert v (set (kv_values m))"
    using set_kv_set_subset [of "key v" v m] by (fastforce simp: kv_values_def)
  with Cons [of "kv_set (key v) v m"] show ?case by auto
qed simp

lemma records_import_valid:
  assumes "records_GenesisState_Validate portValid g = Ok ()"
  shows "deposit_ids_ok (records_InitGenesis g records_empty)"
proof -
  have "\<forall>d\<in>set (rg_DepositRecordList g). dr_Id d < rg_DepositRecordCount g"
    using assms by (auto simp: records_GenesisState_Validate_def deposits_valid_iff split: if_splits)
  moreover have "set (kv_values (fold (\<lambda>d. kv_set (dr_Id d) d) (rg_DepositRecordList g) [])) \<subseteq>
      set (rg_DepositRecordList g)"
    using kv_values_fold_subset [of dr_Id "rg_DepositRecordList g" "[]"] by (simp add: kv_values_def)
  ultimately show ?thesis
    by (auto simp: deposit_ids_ok_def records_wf_def records_InitGenesis_eq kv_keyed_fold
        GetAllDepositRecord_def GetDepositRecordCount_def)
qed

section \<open>Properties\<close>

text \<open>A user redemption record's key determines host zone, epoch and sender, also
  when the chain id itself contains dots, as long as the sender does not (bech32 addresses have no
  dots): two users, two epochs or two zones never share a record.\<close>

theorem redemption_keys_distinct:
  assumes "CHR ''.'' \<notin> set sender" "CHR ''.'' \<notin> set sender'"
  shows "UserRedemptionRecordKeyFormatter chainId epoch sender =
           UserRedemptionRecordKeyFormatter chainId' epoch' sender' \<longleftrightarrow>
         chainId = chainId' \<and> epoch = epoch' \<and> sender = sender'"
  using key_formatter_inj [OF _ assms] by auto

theorem redemption_keys_distinct_witness:
  "UserRedemptionRecordKeyFormatter ''a.1'' 2 ''stride1x'' \<noteq> UserRedemptionRecordKeyFormatter ''a'' 12 ''stride1x''"
  using redemption_keys_distinct [of "''stride1x''" "''stride1x''" "''a.1''" 2 "''a''" 12] by simp

text \<open>\<open>SetHostZoneUnbondings\<close> succeeds exactly when every listed epoch has
  an unbonding of the host zone. Then it gives those unbondings the new status and changes nothing
  else of them, and leaves the unbondings of other zones and other epochs, the deposit records and
  the redemption records alone.\<close>

theorem SetHostZoneUnbondings_spec:
  assumes "records_wf s" "SetHostZoneUnbondings chainId epochs status s = (r, t)"
  shows "(r = Ok () \<longleftrightarrow> (\<forall>e\<in>set epochs. GetHostZoneUnbondingByChainId s e chainId \<noteq> None)) \<and>
    (r = Ok () \<longrightarrow> (\<forall>e c. GetHostZoneUnbondingByChainId t e c =
       (if c = chainId \<and> e \<in> set epochs
        then map_option (\<lambda>h. h\<lparr>hzu_Status := status\<rparr>) (GetHostZoneUnbondingByChainId s e c)
        else GetHostZoneUnbondingByChainId s e c))) \<and>
    GetDepositRecord t = GetDepositRecord s \<and> GetUserRedemptionRecord t = GetUserRedemptionRecord s"
proof (cases "\<forall>e\<in>set epochs. GetHostZoneUnbondingByChainId s e chainId \<noteq> None")
  case True
  then show ?thesis
    using SetHostZoneUnbondings_Ok_iff(1) [OF assms True] SetHostZoneUnbondings_frame [OF assms(2)]
    by auto
next
  case False
  then show ?thesis
    using SetHostZoneUnbondings_Ok_iff(2) [OF assms False] SetHostZoneUnbondings_frame [OF assms(2)]
    by auto
qed

definition demo_hzu :: "string \<Rightarrow> int \<Rightarrow> HostZoneUnbonding_Status \<Rightarrow> HostZoneUnbonding" where
  "demo_hzu c x st = \<lparr>hzu_StTokenAmount = x, hzu_NativeTokenAmount = x, hzu_Denom = ''uatom'',
     hzu_HostZoneId = c, hzu_UnbondingTime = 0, hzu_Status = st, hzu_UserRedemptionRecords = []\<rparr>"

definition demo_records :: records_state where
  "demo_records = SetEpochUnbondingRecord
     \<lparr>eur_EpochNumber = 7, eur_HostZoneUnbondings =
        [demo_hzu ''GAIA'' 100 UNBONDING_QUEUE, demo_hzu ''OSMO'' 50 UNBONDING_QUEUE]\<rparr> records_empty"

lemma demo_records_wf: "records_wf demo_records"
  unfolding demo_records_def by (rule unbondings.wf_put) (rule unbondings.wf_fresh)

lemma demo_records_hzu:
  "GetHostZoneUnbondingByChainId demo_records 7 ''GAIA'' = Some (demo_hzu ''GAIA'' 100 UNBONDING_QUEUE)"
  "GetHostZoneUnbondingByChainId demo_records 7 ''OSMO'' = Some (demo_hzu ''OSMO'' 50 UNBONDING_QUEUE)"
  by (simp_all add: demo_records_def GetHostZoneUnbondingByChainId_def unbondings.get_put demo_hzu_def)

theorem SetHostZoneUnbondings_spec_witness:
  "\<exists>t. SetHostZoneUnbondings ''GAIA'' [7] UNBONDING_IN_PROGRESS demo_records = (Ok (), t) \<and>
     GetHostZoneUnbondingByChainId t 7 ''GAIA'' = Some (demo_hzu ''GAIA'' 100 UNBONDING_IN_PROGRESS) \<and>
     GetHostZoneUnbondingByChainId t 7 ''OSMO'' = Some (demo_hzu ''OSMO'' 50 UNBONDING_QUEUE)"
proof -
  obtain r t where run: "SetHostZoneUnbondings ''GAIA'' [7] UNBONDING_IN_PROGRESS demo_records = (r, t)"
    by (cases "SetHostZoneUnbondings ''GAIA'' [7] UNBONDING_IN_PROGRESS demo_records")
  show ?thesis
    using SetHostZoneUnbondings_spec [OF demo_records_wf run] run
    by (auto simp: demo_records_hzu) (simp_all add: demo_hzu_def)
qed

text \<open>Deposit record numbers are never reused: while every stored number is below
  the counter, an append stores the record under a number that was free, returns it, changes no
  other record and keeps the numbers below the counter. Only the wrap-around of the counter after
  \<open>2 ^ 64 - 1\<close> appends would break this.\<close>

theorem AppendDepositRecord_fresh:
  assumes "deposit_ids_ok s" "GetDepositRecordCount s \<noteq> - 1"
  shows "\<exists>t. AppendDepositRecord d s = (Ok (GetDepositRecordCount s), t) \<and>
    GetDepositRecord s (GetDepositRecordCount s) = None \<and>
    GetDepositRecord t (GetDepositRecordCount s) = Some (d\<lparr>dr_Id := GetDepositRecordCount s\<rparr>) \<and>
    (\<forall>i. i \<noteq> GetDepositRecordCount s \<longrightarrow> GetDepositRecord t i = GetDepositRecord s i) \<and>
    deposit_ids_ok t"
proof -
  have "GetDepositRecord s (GetDepositRecordCount s) = None"
  proof (rule ccontr)
    assume "GetDepositRecord s (GetDepositRecordCount s) \<noteq> None"
    then obtain x where x: "GetDepositRecord s (GetDepositRecordCount s) = Some x" by blast
    moreover have "dr_Id x = GetDepositRecordCount s"
      using assms(1) x by (auto simp: deposit_ids_ok_def intro: deposits.get_key)
    ultimately have "x \<in> set (GetAllDepositRecord s)"
      using assms(1) by (simp add: deposit_ids_ok_def deposits.listing_iff)
    with assms(1) \<open>dr_Id x = GetDepositRecordCount s\<close> show False
      by (auto simp: deposit_ids_ok_def)
  qed
  with deposit_ids_ok_append [OF assms AppendDepositRecord_eq] show ?thesis
    by (simp add: AppendDepositRecord_eq deposits.get_put)
qed

definition demo_deposit :: "int \<Rightarrow> DepositRecord_Status \<Rightarrow> DepositRecord" where
  "demo_deposit x st = \<lparr>dr_Id = 0, dr_Amount = x, dr_Denom = ''uatom'', dr_HostZoneId = ''GAIA'',
     dr_Status = st, dr_DepositEpochNumber = 1, dr_Source = STRIDE\<rparr>"

lemma deposit_ids_ok_empty: "deposit_ids_ok records_empty"
  using deposits.wf_fresh
  by (simp add: deposit_ids_ok_def) (simp add: GetAllDepositRecord_def records_empty_def kv_values_def)

theorem AppendDepositRecord_fresh_witness:
  "\<exists>t. AppendDepositRecord (demo_deposit 5 TRANSFER_QUEUE) records_empty = (Ok 0, t) \<and>
     GetDepositRecord t 0 = Some (demo_deposit 5 TRANSFER_QUEUE) \<and> deposit_ids_ok t"
  using AppendDepositRecord_fresh [OF deposit_ids_ok_empty, of "demo_deposit 5 TRANSFER_QUEUE"]
  by (auto simp: GetDepositRecordCount_def records_empty_def demo_deposit_def)

text \<open>The acknowledgement of a transfer moves its deposit record to
  \<open>DELEGATION_QUEUE\<close> on success and back to \<open>TRANSFER_QUEUE\<close> on a timeout or an
  error; the amount never changes, no other record is touched, and an unknown record or undecodable
  packet is an error that changes nothing.\<close>

theorem TransferCallback_spec:
  assumes "records_wf s" "GetDepositRecord s i = Some d"
  shows "TransferCallback (Ok i) True AckResponseStatus_SUCCESS s =
           (Ok (), SetDepositRecord (d\<lparr>dr_Status := DELEGATION_QUEUE\<rparr>) s) \<and>
         TransferCallback (Ok i) dec AckResponseStatus_TIMEOUT s =
           (Ok (), SetDepositRecord (d\<lparr>dr_Status := TRANSFER_QUEUE\<rparr>) s) \<and>
         TransferCallback (Ok i) dec AckResponseStatus_FAILURE s =
           (Ok (), SetDepositRecord (d\<lparr>dr_Status := TRANSFER_QUEUE\<rparr>) s) \<and>
         TransferCallback (Ok i) False AckResponseStatus_SUCCESS s = (Err (Sdk ErrUnknownRequest), s) \<and>
         (\<forall>j st. GetDepositRecord (SetDepositRecord (d\<lparr>dr_Status := st\<rparr>) s) j =
            (if j = i then Some (d\<lparr>dr_Status := st\<rparr>) else GetDepositRecord s j))"
proof -
  have "dr_Id d = i" using assms by (rule deposits.get_key)
  with assms(2) show ?thesis by (simp add: TransferCallback_def go_defs deposits.get_put)
qed

theorem TransferCallback_spec_witness:
  "TransferCallback (Ok 0) True AckResponseStatus_SUCCESS
     (SetDepositRecord (demo_deposit 5 TRANSFER_IN_PROGRESS) records_empty) =
   (Ok (), SetDepositRecord (demo_deposit 5 DELEGATION_QUEUE)
     (SetDepositRecord (demo_deposit 5 TRANSFER_IN_PROGRESS) records_empty))"
proof -
  let ?d = "demo_deposit 5 TRANSFER_IN_PROGRESS"
  have "records_wf (SetDepositRecord ?d records_empty)"
    by (rule deposits.wf_put) (rule deposits.wf_fresh)
  moreover have "GetDepositRecord (SetDepositRecord ?d records_empty) 0 = Some ?d"
    by (simp add: deposits.get_put demo_deposit_def)
  ultimately show ?thesis
    using TransferCallback_spec [of "SetDepositRecord ?d records_empty" 0 ?d] by (simp add: demo_deposit_def)
qed

text \<open>Genesis: exporting and importing gives back the three listings and the
  counter; a genesis that passes \<open>Validate\<close> imports into a state whose deposit numbers are all
  below the counter, so that later appends are fresh.\<close>

theorem records_genesis:
  "(records_wf s \<longrightarrow> records_ExportGenesis (records_InitGenesis (records_ExportGenesis s) records_empty) =
      records_ExportGenesis s) \<and>
   (records_GenesisState_Validate portValid g = Ok () \<longrightarrow> deposit_ids_ok (records_InitGenesis g records_empty))"
  by (simp add: records_import_export records_import_valid)

theorem records_genesis_witness:
  "records_ExportGenesis (records_InitGenesis (records_ExportGenesis demo_records) records_empty) =
     records_ExportGenesis demo_records \<and>
   deposit_ids_ok (records_InitGenesis \<lparr>rg_UserRedemptionRecordList = [], rg_EpochUnbondingRecordList = [],
     rg_DepositRecordList = [demo_deposit 5 TRANSFER_QUEUE], rg_DepositRecordCount = 1\<rparr> records_empty)"
  using records_genesis [of demo_records] demo_records_wf
    records_genesis [of records_empty True "\<lparr>rg_UserRedemptionRecordList = [], rg_EpochUnbondingRecordList = [],
     rg_DepositRecordList = [demo_deposit 5 TRANSFER_QUEUE], rg_DepositRecordCount = 1\<rparr>"]
  by (simp add: records_GenesisState_Validate_def demo_deposit_def)

end
