(* ===== verification/ChainState.thy ===== *)
theory ChainState
  imports Epochs Bank Records
begin

text \<open>
  The state \<open>x/stakeibc\<close> works on, and what it takes from outside.

  \<^item> The data of \<open>x/stakeibc/types\<close>: host zones with their validators and interchain
    accounts, epoch trackers, parameters, the arguments of the ICA callbacks.
  \<^item> \<open>chain\<close>: the stores a stakeibc handler can reach, its own (host zones, epoch
    trackers), the bank, the records module, the callback data of \<open>x/icacallbacks\<close>, the
    queries of \<open>x/interchainquery\<close>, and the list of interchain account transactions handed to
    the ICA controller so far.
  \<^item> \<open>env\<close>: the parameters of the model, which the handlers only read: the block, the
    module parameters, and the answers of third-party code (IBC clients and connections, the ICA
    controller, bech32 decoding, the IBC transfer application).

  The arguments of a callback are kept typed: marshalling them and unmarshalling them with the
  function of the callback they were stored for is taken to give them back.
\<close>

section \<open>Data of x/stakeibc\<close>

datatype ICAAccountType =
  ICAAccountType_DELEGATION | ICAAccountType_FEE | ICAAccountType_WITHDRAWAL
  | ICAAccountType_REDEMPTION

fun ICAAccountType_String :: "ICAAccountType \<Rightarrow> string" where
  "ICAAccountType_String ICAAccountType_DELEGATION = ''DELEGATION''"
| "ICAAccountType_String ICAAccountType_FEE = ''FEE''"
| "ICAAccountType_String ICAAccountType_WITHDRAWAL = ''WITHDRAWAL''"
| "ICAAccountType_String ICAAccountType_REDEMPTION = ''REDEMPTION''"

record ICAAccount =
  ica_Address :: address
  ica_Target :: ICAAccountType

definition FormatICAAccountOwner :: "string \<Rightarrow> ICAAccountType \<Rightarrow> string" where
  "FormatICAAccountOwner chainId accountType = chainId @ ''.'' @ ICAAccountType_String accountType"

record ValidatorExchangeRate =
  ver_InternalTokensToSharesRate :: Dec
  ver_EpochNumber :: uint64

record Validator =
  val_Name :: string
  val_Address :: address
  val_DelegationAmt :: int
  val_Weight :: uint64
  val_InternalExchangeRate :: "ValidatorExchangeRate option"

text \<open>A nil \<open>Dec\<close> (an unset bound of the redemption rate) and a nil account are \<open>None\<close>.\<close>

record HostZone =
  hz_ChainId :: string
  hz_ConnectionId :: string
  hz_Bech32Prefix :: string
  hz_TransferChannelId :: string
  hz_Validators :: "Validator list"
  hz_BlacklistedValidators :: "Validator list"
  hz_WithdrawalAccount :: "ICAAccount option"
  hz_FeeAccount :: "ICAAccount option"
  hz_DelegationAccount :: "ICAAccount option"
  hz_RedemptionAccount :: "ICAAccount option"
  hz_IbcDenom :: denom
  hz_HostDenom :: denom
  hz_LastRedemptionRate :: Dec
  hz_RedemptionRate :: Dec
  hz_UnbondingFrequency :: uint64
  hz_StakedBal :: int
  hz_Address :: address
  hz_Halted :: bool
  hz_MinRedemptionRate :: "Dec option"
  hz_MaxRedemptionRate :: "Dec option"

record EpochTracker =
  et_EpochIdentifier :: string
  et_EpochNumber :: uint64
  et_NextEpochStartTime :: uint64
  et_Duration :: uint64

record Params =
  prm_RewardsInterval :: uint64
  prm_DelegateInterval :: uint64
  prm_DepositInterval :: uint64
  prm_RedemptionRateInterval :: uint64
  prm_StrideCommission :: uint64
  prm_ReinvestInterval :: uint64
  prm_IcaTimeoutNanos :: uint64
  prm_BufferSize :: uint64
  prm_IbcTimeoutBlocks :: uint64
  prm_FeeTransferTimeoutNanos :: uint64
  prm_MaxStakeIcaCallsPerEpoch :: uint64
  prm_DefaultMinRedemptionRateThreshold :: uint64
  prm_DefaultMaxRedemptionRateThreshold :: uint64
  prm_IbcTransferTimeoutNanos :: uint64
  prm_SafetyNumValidators :: uint64
  prm_SafetyMaxSlashPercent :: uint64

definition DefaultParams :: Params where
  "DefaultParams =
     \<lparr>prm_RewardsInterval = 1, prm_DelegateInterval = 1, prm_DepositInterval = 1,
      prm_RedemptionRateInterval = 1, prm_StrideCommission = 10, prm_ReinvestInterval = 1,
      prm_IcaTimeoutNanos = 600000000000, prm_BufferSize = 5, prm_IbcTimeoutBlocks = 300,
      prm_FeeTransferTimeoutNanos = 1800000000000, prm_MaxStakeIcaCallsPerEpoch = 100,
      prm_DefaultMinRedemptionRateThreshold = 90, prm_DefaultMaxRedemptionRateThreshold = 150,
      prm_IbcTransferTimeoutNanos = 1800000000000, prm_SafetyNumValidators = 35,
      prm_SafetyMaxSlashPercent = 10\<rparr>"

section \<open>Interchain account messages and callbacks\<close>

record SplitDelegation =
  sd_Validator :: address
  sd_Amount :: int

record DelegateCallback =
  dcb_HostZoneId :: string
  dcb_DepositRecordId :: uint64
  dcb_SplitDelegations :: "SplitDelegation list"

record ClaimCallback =
  ccb_UserRedemptionRecordId :: string
  ccb_ChainId :: string
  ccb_EpochNumber :: uint64

record ReinvestCallback =
  rcb_ReinvestAmount :: "denom \<times> int"
  rcb_HostZoneId :: string

record UndelegateCallback =
  ucb_HostZoneId :: string
  ucb_SplitDelegations :: "SplitDelegation list"
  ucb_EpochUnbondingRecordIds :: "uint64 list"

record RedemptionCallback =
  rdcb_HostZoneId :: string
  rdcb_EpochUnbondingRecordIds :: "uint64 list"

record Rebalancing =
  rb_SrcValidator :: address
  rb_DstValidator :: address
  rb_Amt :: int

record RebalanceCallback =
  rbcb_HostZoneId :: string
  rbcb_Rebalancings :: "Rebalancing list"

datatype CallbackArgs =
    DelegateArgs DelegateCallback
  | ClaimArgs ClaimCallback
  | ReinvestArgs ReinvestCallback
  | UndelegateArgs UndelegateCallback
  | RedemptionArgs RedemptionCallback
  | RebalanceArgs RebalanceCallback
  | TransferArgs uint64

record CallbackData =
  cb_CallbackKey :: string
  cb_PortId :: string
  cb_ChannelId :: string
  cb_Sequence :: uint64
  cb_CallbackId :: string
  cb_CallbackArgs :: CallbackArgs

text \<open>The messages the module sends to its interchain accounts.\<close>

record MsgTransfer =
  mt_SourcePort :: string
  mt_SourceChannel :: string
  mt_Token :: "denom \<times> int"
  mt_Sender :: address
  mt_Receiver :: address
  mt_TimeoutTimestamp :: uint64

datatype ica_msg =
    MsgDelegate address address "denom \<times> int"
  | MsgUndelegate address address "denom \<times> int"
  | MsgBeginRedelegate address address address "denom \<times> int"
  | MsgSetWithdrawAddress address address
  | MsgSend address address coins
  | IcaTransfer MsgTransfer

record MsgSendTx =
  tx_Owner :: string
  tx_ConnectionId :: string
  tx_RelativeTimeout :: uint64
  tx_Msgs :: "ica_msg list"

record Query =
  q_Id :: string
  q_ConnectionId :: string
  q_ChainId :: string
  q_QueryType :: string
  q_Request :: string
  q_CallbackId :: string
  q_Ttl :: uint64
  q_RequestSent :: bool

section \<open>State and parameters\<close>

record chain =
  c_bank :: bank
  c_records :: records_state
  c_hostZones :: "(string, HostZone) kvstore"
  c_epochTrackers :: "(string, EpochTracker) kvstore"
  c_callbacks :: "(string, CallbackData) kvstore"
  c_queries :: "(string, Query) kvstore"
  c_outbox :: "MsgSendTx list"

text \<open>An IBC connection, as far as the module reads it, and a light client's state: only a
  Tendermint client has a chain id.\<close>

record connection =
  conn_ClientId :: string
  conn_CounterpartyClientId :: string

datatype client_state = TendermintClient string uint64 | OtherClient uint64

fun client_height :: "client_state \<Rightarrow> uint64" where
  "client_height (TendermintClient _ h) = h"
| "client_height (OtherClient h) = h"

text \<open>An account of the auth module: its Go type, and whether it has signed anything.\<close>

datatype account_type =
    BaseAccount | DelayedVestingAccount | ContinuousVestingAccount | BaseVestingAccount
  | PeriodicVestingAccount | PermanentLockedAccount | ModuleAccount | OtherAccount

record account =
  acc_Type :: account_type
  acc_Sequence :: uint64
  acc_HasPubKey :: bool

record env =
  e_bank :: bank_env
  e_params :: Params
  e_blockTime :: int \<comment> \<open>\<open>ctx.BlockTime().UnixNano()\<close>\<close>
  e_GetConnection :: "string \<Rightarrow> connection option"
  e_GetClientState :: "string \<Rightarrow> client_state option"
  e_GetLatestConsensusTime :: "string \<Rightarrow> uint64 option"
  e_GetAllInterchainAccounts :: "(string \<times> string) list" \<comment> \<open>port and connection\<close>
  e_GetActiveChannelID :: "string \<Rightarrow> string \<Rightarrow> string option"
  e_SerializeCosmosTx :: "ica_msg list \<Rightarrow> unit res"
  e_SendTx :: "MsgSendTx list \<Rightarrow> MsgSendTx \<Rightarrow> uint64 res"
  e_Transfer :: "MsgTransfer \<Rightarrow> (bank, uint64) go"
  e_DecodeBech32 :: "string \<Rightarrow> (string \<times> address) option"
  e_Sha256Hex :: "string \<Rightarrow> string"
  e_EncodeBech32 :: "string \<Rightarrow> address \<Rightarrow> string"
  e_ParseCoin :: "int \<Rightarrow> denom \<Rightarrow> bool" \<comment> \<open>\<open>sdk.ParseCoinNormalized\<close> accepts amount and denom\<close>
  e_RegisterInterchainAccount :: "string \<Rightarrow> string \<Rightarrow> unit res" \<comment> \<open>connection and owner\<close>
  e_GetInterchainAccountAddress :: "string \<Rightarrow> string \<Rightarrow> address option" \<comment> \<open>connection and port\<close>
  e_GetCounterpartyChannel :: "string \<Rightarrow> string \<Rightarrow> string option" \<comment> \<open>port and channel\<close>
  e_ModuleAddress :: "string \<Rightarrow> string \<Rightarrow> address" \<comment> \<open>\<open>address.Module(name, key)\<close>\<close>
  e_GetAccount :: "address \<Rightarrow> account option"

definition on_bank :: "(bank, 'a) go \<Rightarrow> (chain, 'a) go" where
  "on_bank m c = (case m (c_bank c) of (r, b) \<Rightarrow> (r, c\<lparr>c_bank := b\<rparr>))"

definition on_records :: "(records_state, 'a) go \<Rightarrow> (chain, 'a) go" where
  "on_records m c = (case m (c_records c) of (r, s) \<Rightarrow> (r, c\<lparr>c_records := s\<rparr>))"

definition mod_records :: "(records_state \<Rightarrow> records_state) \<Rightarrow> chain \<Rightarrow> chain" where
  "mod_records f c = c\<lparr>c_records := f (c_records c)\<rparr>"

lemma on_bank_eq [go_simps]:
  "on_bank m c = (r, t) \<longleftrightarrow> (\<exists>b. m (c_bank c) = (r, b) \<and> t = c\<lparr>c_bank := b\<rparr>)"
  by (auto simp: on_bank_def split: prod.splits)

lemma on_records_eq [go_simps]:
  "on_records m c = (r, t) \<longleftrightarrow> (\<exists>s. m (c_records c) = (r, s) \<and> t = c\<lparr>c_records := s\<rparr>)"
  by (auto simp: on_records_def split: prod.splits)

lemma keeps_on_bank [keeps_intros]:
  "(\<And>c b. I c \<Longrightarrow> I (c\<lparr>c_bank := b\<rparr>)) \<Longrightarrow> keeps I (on_bank m)"
  by (auto simp: keeps_def on_bank_eq)

lemma keeps_on_records [keeps_intros]:
  "(\<And>c s. I c \<Longrightarrow> I (c\<lparr>c_records := s\<rparr>)) \<Longrightarrow> keeps I (on_records m)"
  by (auto simp: keeps_def on_records_eq)

section \<open>The host zone keeper\<close>

definition SetHostZone :: "HostZone \<Rightarrow> chain \<Rightarrow> chain" where
  "SetHostZone hostZone c = c\<lparr>c_hostZones := kv_set (hz_ChainId hostZone) hostZone (c_hostZones c)\<rparr>"

definition GetHostZone :: "chain \<Rightarrow> string \<Rightarrow> HostZone option" where
  "GetHostZone c chain_id = kv_get (c_hostZones c) chain_id"

definition RemoveHostZone :: "string \<Rightarrow> chain \<Rightarrow> chain" where
  "RemoveHostZone chain_id c = c\<lparr>c_hostZones := kv_delete chain_id (c_hostZones c)\<rparr>"

definition GetAllHostZone :: "chain \<Rightarrow> HostZone list" where
  "GetAllHostZone c = kv_values (c_hostZones c)"

definition GetAllActiveHostZone :: "chain \<Rightarrow> HostZone list" where
  "GetAllActiveHostZone c = filter (\<lambda>z. \<not> hz_Halted z) (kv_values (c_hostZones c))"

text \<open>The iteration keeps going after a match, so the last zone with the denom is returned; the
  empty chain id stands for no match.\<close>

definition last_match :: "(HostZone \<Rightarrow> bool) \<Rightarrow> chain \<Rightarrow> HostZone res" where
  "last_match P c =
     (case List.find P (rev (GetAllHostZone c)) of
        Some z \<Rightarrow> if hz_ChainId z \<noteq> '''' then Ok z else Err (Sdk ErrUnknownRequest)
      | None \<Rightarrow> Err (Sdk ErrUnknownRequest))"

definition GetHostZoneFromHostDenom :: "chain \<Rightarrow> denom \<Rightarrow> HostZone res" where
  "GetHostZoneFromHostDenom c denom = last_match (\<lambda>z. hz_HostDenom z = denom) c"

definition GetHostZoneFromIBCDenom :: "chain \<Rightarrow> denom \<Rightarrow> HostZone res" where
  "GetHostZoneFromIBCDenom c denom = last_match (\<lambda>z. hz_IbcDenom z = denom) c"

definition GetHostZoneFromTransferChannelID :: "chain \<Rightarrow> string \<Rightarrow> HostZone option" where
  "GetHostZoneFromTransferChannelID c channelID =
     List.find (\<lambda>z. hz_TransferChannelId z = channelID) (GetAllActiveHostZone c)"

definition StAssetDenomFromHostZoneDenom :: "denom \<Rightarrow> denom" where
  "StAssetDenomFromHostZoneDenom hostZoneDenom = ''st'' @ hostZoneDenom"

definition CheckIsStToken :: "chain \<Rightarrow> denom \<Rightarrow> bool" where
  "CheckIsStToken c denom =
     list_ex (\<lambda>z. StAssetDenomFromHostZoneDenom (hz_HostDenom z) = denom) (GetAllHostZone c)"

definition GetRedemptionAccount :: "HostZone \<Rightarrow> ICAAccount option" where
  "GetRedemptionAccount hostZone = hz_RedemptionAccount hostZone"

section \<open>The epoch tracker keeper\<close>

definition EpochTrackerKey :: "string \<Rightarrow> string" where
  "EpochTrackerKey epochIdentifier = epochIdentifier @ ''/''"

definition SetEpochTracker :: "EpochTracker \<Rightarrow> chain \<Rightarrow> chain" where
  "SetEpochTracker t c =
     c\<lparr>c_epochTrackers := kv_set (EpochTrackerKey (et_EpochIdentifier t)) t (c_epochTrackers c)\<rparr>"

definition GetEpochTracker :: "chain \<Rightarrow> string \<Rightarrow> EpochTracker option" where
  "GetEpochTracker c epochIdentifier = kv_get (c_epochTrackers c) (EpochTrackerKey epochIdentifier)"

definition RemoveEpochTracker :: "string \<Rightarrow> chain \<Rightarrow> chain" where
  "RemoveEpochTracker epochIdentifier c =
     c\<lparr>c_epochTrackers := kv_delete (EpochTrackerKey epochIdentifier) (c_epochTrackers c)\<rparr>"

definition GetAllEpochTracker :: "chain \<Rightarrow> EpochTracker list" where
  "GetAllEpochTracker c = kv_values (c_epochTrackers c)"

section \<open>The callback data of x/icacallbacks\<close>

definition PacketID :: "string \<Rightarrow> string \<Rightarrow> uint64 \<Rightarrow> string" where
  "PacketID portID channelID sequence = portID @ ''.'' @ channelID @ ''.'' @ decimal (unat sequence)"

definition CallbackDataKey :: "string \<Rightarrow> string" where
  "CallbackDataKey callbackKey = callbackKey @ ''/''"

definition SetCallbackData :: "CallbackData \<Rightarrow> chain \<Rightarrow> chain" where
  "SetCallbackData callbackData c =
     c\<lparr>c_callbacks := kv_set (CallbackDataKey (cb_CallbackKey callbackData)) callbackData (c_callbacks c)\<rparr>"

definition GetCallbackData :: "chain \<Rightarrow> string \<Rightarrow> CallbackData option" where
  "GetCallbackData c callbackKey = kv_get (c_callbacks c) (CallbackDataKey callbackKey)"

definition RemoveCallbackData :: "string \<Rightarrow> chain \<Rightarrow> chain" where
  "RemoveCallbackData callbackKey c =
     c\<lparr>c_callbacks := kv_delete (CallbackDataKey callbackKey) (c_callbacks c)\<rparr>"

definition GetAllCallbackData :: "chain \<Rightarrow> CallbackData list" where
  "GetAllCallbackData c = kv_values (c_callbacks c)"

section \<open>The keepers satisfy the store contract\<close>

definition zones_wf :: "chain \<Rightarrow> bool" where
  "zones_wf c \<longleftrightarrow> kv_keyed hz_ChainId (c_hostZones c)"

interpretation zones: item_store hz_ChainId GetHostZone SetHostZone RemoveHostZone GetAllHostZone zones_wf
  by unfold_locales
    (auto simp: GetHostZone_def SetHostZone_def RemoveHostZone_def GetAllHostZone_def zones_wf_def
      kv_keyed_values_iff kv_keyed_values_sorted dest: kv_keyed_get)

lemma EpochTrackerKey_inj [simp]: "EpochTrackerKey a = EpochTrackerKey b \<longleftrightarrow> a = b"
  by (simp add: EpochTrackerKey_def)

lemma CallbackDataKey_inj [simp]: "CallbackDataKey a = CallbackDataKey b \<longleftrightarrow> a = b"
  by (simp add: CallbackDataKey_def)

lemma GetEpochTracker_Set [store_simps, simp]:
  "GetEpochTracker (SetEpochTracker t c) k =
     (if k = et_EpochIdentifier t then Some t else GetEpochTracker c k)"
  by (simp add: GetEpochTracker_def SetEpochTracker_def)

lemma GetCallbackData_Set [store_simps, simp]:
  "GetCallbackData (SetCallbackData d c) k =
     (if k = cb_CallbackKey d then Some d else GetCallbackData c k)"
  by (simp add: GetCallbackData_def SetCallbackData_def)

lemma GetCallbackData_Remove [store_simps, simp]:
  "GetCallbackData (RemoveCallbackData k c) k' = (if k' = k then None else GetCallbackData c k')"
  by (simp add: GetCallbackData_def RemoveCallbackData_def)

lemmas GetHostZone_Set [store_simps, simp] = zones.get_put

lemma active_iff: "z \<in> set (GetAllActiveHostZone c) \<longleftrightarrow> z \<in> set (GetAllHostZone c) \<and> \<not> hz_Halted z"
  by (auto simp: GetAllActiveHostZone_def GetAllHostZone_def)

text \<open>The stores of the chain are independent.\<close>

lemma chain_frame [simp]:
  "c_bank (SetHostZone z c) = c_bank c" "c_records (SetHostZone z c) = c_records c"
  "c_outbox (SetHostZone z c) = c_outbox c" "c_callbacks (SetHostZone z c) = c_callbacks c"
  "c_queries (SetHostZone z c) = c_queries c" "c_epochTrackers (SetHostZone z c) = c_epochTrackers c"
  "GetEpochTracker (SetHostZone z c) = GetEpochTracker c"
  "c_bank (SetEpochTracker e c) = c_bank c" "c_records (SetEpochTracker e c) = c_records c"
  "c_hostZones (SetEpochTracker e c) = c_hostZones c" "GetHostZone (SetEpochTracker e c) = GetHostZone c"
  "c_bank (SetCallbackData d c) = c_bank c" "c_records (SetCallbackData d c) = c_records c"
  "c_hostZones (SetCallbackData d c) = c_hostZones c" "c_outbox (SetCallbackData d c) = c_outbox c"
  "GetHostZone (SetCallbackData d c) = GetHostZone c"
  "GetHostZone (c\<lparr>c_bank := b\<rparr>) = GetHostZone c" "GetHostZone (c\<lparr>c_records := r\<rparr>) = GetHostZone c"
  "GetHostZone (c\<lparr>c_outbox := ob\<rparr>) = GetHostZone c" "GetHostZone (mod_records f c) = GetHostZone c"
  "GetEpochTracker (c\<lparr>c_bank := b\<rparr>) = GetEpochTracker c"
  "GetEpochTracker (c\<lparr>c_records := r\<rparr>) = GetEpochTracker c"
  "c_records (mod_records f c) = f (c_records c)" "c_bank (mod_records f c) = c_bank c"
  "c_hostZones (mod_records f c) = c_hostZones c" "c_outbox (mod_records f c) = c_outbox c"
  "c_callbacks (mod_records f c) = c_callbacks c"
  by (simp_all add: fun_eq_iff SetHostZone_def SetEpochTracker_def SetCallbackData_def
      GetHostZone_def GetEpochTracker_def mod_records_def)

lemma chain_frame_more [simp]:
  "GetEpochTracker (mod_records f c) = GetEpochTracker c" "GetEpochTracker (c\<lparr>c_outbox := ob\<rparr>) = GetEpochTracker c"
  "GetEpochTracker (SetCallbackData d c) = GetEpochTracker c"
  "c_epochTrackers (mod_records f c) = c_epochTrackers c" "c_queries (mod_records f c) = c_queries c"
  "c_epochTrackers (SetCallbackData d c) = c_epochTrackers c" "c_queries (SetCallbackData d c) = c_queries c"
  "GetAllHostZone (mod_records f c) = GetAllHostZone c" "GetAllActiveHostZone (mod_records f c) = GetAllActiveHostZone c"
  "GetCallbackData (mod_records f c) = GetCallbackData c" "GetCallbackData (SetHostZone z c) = GetCallbackData c"
  "c_bank (RemoveCallbackData k c) = c_bank c" "c_records (RemoveCallbackData k c) = c_records c"
  "c_hostZones (RemoveCallbackData k c) = c_hostZones c" "c_outbox (RemoveCallbackData k c) = c_outbox c"
  "GetHostZone (RemoveCallbackData k c) = GetHostZone c"
  by (simp_all add: fun_eq_iff SetHostZone_def SetCallbackData_def GetHostZone_def GetEpochTracker_def
      mod_records_def GetAllHostZone_def GetAllActiveHostZone_def GetCallbackData_def RemoveCallbackData_def)

lemma zones_wf_frame [simp]:
  "zones_wf (c\<lparr>c_bank := b\<rparr>) = zones_wf c" "zones_wf (c\<lparr>c_records := r\<rparr>) = zones_wf c"
  "zones_wf (c\<lparr>c_outbox := ob\<rparr>) = zones_wf c" "zones_wf (mod_records f c) = zones_wf c"
  "zones_wf (SetCallbackData d c) = zones_wf c" "zones_wf (SetEpochTracker e c) = zones_wf c"
  by (simp_all add: zones_wf_def mod_records_def SetCallbackData_def SetEpochTracker_def)

text \<open>Packet ids are distinct for distinct packets (channel ids have no dot, port ids may).\<close>

lemma PacketID_inj:
  assumes "PacketID p c n = PacketID p' c' n'" "CHR ''.'' \<notin> set c" "CHR ''.'' \<notin> set c'"
  shows "p = p' \<and> c = c' \<and> n = n'"
proof -
  have "(p @ ''.'' @ c) @ ''.'' @ decimal (unat n) = (p' @ ''.'' @ c') @ ''.'' @ decimal (unat n')"
    using assms(1) by (simp add: PacketID_def)
  then have pc: "p @ ''.'' @ c = p' @ ''.'' @ c'" and "decimal (unat n) = decimal (unat n')"
    using split_at_dot [OF _ decimal_no_dot decimal_no_dot] by blast+
  then have "unat n = unat n'" by (metis undecimal_decimal)
  with split_at_dot [OF pc assms(2,3)] show ?thesis by (simp add: unsigned_word_eqI)
qed

section \<open>A small instance\<close>

text \<open>Concrete parameters for the witnesses: one host chain behind \<open>connection-0\<close>, open
  interchain account channels, an IBC application that escrows into the account \<open>escrow\<close>,
  addresses of the form \<open>prefix1bytes\<close>.\<close>

definition demo_bank_env :: bank_env where
  "demo_bank_env = \<lparr>be_locked = (\<lambda>_ _. 0),
     be_module = (\<lambda>m. if m \<in> {''stakeibc'', ''mint'', ''reward_collector''} then Some m else None),
     be_minter = (\<lambda>m. m \<in> {''stakeibc'', ''mint''}), be_burner = (\<lambda>m. m = ''stakeibc''),
     be_blocked = (\<lambda>_. False)\<rparr>"

definition demo_env :: env where
  "demo_env = \<lparr>e_bank = demo_bank_env, e_params = DefaultParams, e_blockTime = 1900,
     e_GetConnection = (\<lambda>k. if k = ''connection-0''
       then Some \<lparr>conn_ClientId = ''07-tendermint-0'', conn_CounterpartyClientId = ''07-tendermint-1''\<rparr> else None),
     e_GetClientState = (\<lambda>k. if k = ''07-tendermint-0'' then Some (TendermintClient ''GAIA'' 42) else None),
     e_GetLatestConsensusTime = (\<lambda>k. if k = ''07-tendermint-0'' then Some 1850 else None),
     e_GetAllInterchainAccounts = [(''icacontroller-GAIA.DELEGATION'', ''connection-0'')],
     e_GetActiveChannelID = (\<lambda>conn port. if conn = ''connection-0'' then Some ''channel-7'' else None),
     e_SerializeCosmosTx = (\<lambda>_. Ok ()),
     e_SendTx = (\<lambda>sent msg. Ok (word_of_nat (length sent + 1))),
     e_Transfer = (\<lambda>msg. go_bind (SendCoins demo_bank_env (mt_Sender msg) ''escrow'' [mt_Token msg]) (\<lambda>_. go_ret 1)),
     e_DecodeBech32 = (\<lambda>s. case dropWhile (\<lambda>ch. ch \<noteq> CHR ''1'') s of [] \<Rightarrow> None
       | _ # bs \<Rightarrow> Some (takeWhile (\<lambda>ch. ch \<noteq> CHR ''1'') s, bs)),
     e_Sha256Hex = (\<lambda>s. s), e_EncodeBech32 = (\<lambda>p bz. p @ ''1'' @ bz),
     e_ParseCoin = (\<lambda>x d. 0 \<le> x \<and> ValidateDenom d), e_RegisterInterchainAccount = (\<lambda>_ _. Ok ()),
     e_GetInterchainAccountAddress = (\<lambda>_ _. Some ''cosmos1delegation''),
     e_GetCounterpartyChannel = (\<lambda>_ _. Some ''channel-9''), e_ModuleAddress = (\<lambda>n k. n @ ''/'' @ k),
     e_GetAccount = (\<lambda>_. None)\<rparr>"

definition empty_chain :: chain where
  "empty_chain = \<lparr>c_bank = \<lparr>bk_balance = (\<lambda>_ _. 0), bk_supply = (\<lambda>_. 0)\<rparr>, c_records = records_empty,
     c_hostZones = [], c_epochTrackers = [], c_callbacks = [], c_queries = [], c_outbox = []\<rparr>"

lemma empty_chain_wf [simp]: "zones_wf empty_chain"
  by (simp add: zones_wf_def empty_chain_def)

definition demo_tracker :: "string \<Rightarrow> EpochTracker" where
  "demo_tracker i = \<lparr>et_EpochIdentifier = i, et_EpochNumber = 3, et_NextEpochStartTime = 2000,
     et_Duration = 1000\<rparr>"

end
