(* ===== verification/EpochWindow.thy ===== *)
theory EpochWindow
  imports ChainState
begin

text \<open>
  The clock of \<open>x/stakeibc\<close> (\<open>keeper/keeper.go\<close>, \<open>keeper/hooks.go\<close> and
  \<open>keeper/msg_server_submit_tx.go\<close>): the epoch tracker the begin blocker keeps, the share of
  the stride epoch that has elapsed, the buffer window at its end in which queries are allowed, and
  the time interchain account transactions time out at.

  Times are nanoseconds. \<open>epochTracker.Duration / bufferSizeParam\<close> panics on a zero
  parameter and the subtraction from the next start wraps, as in the code.
\<close>

section \<open>The tracker\<close>

definition UpdateEpochTracker :: "EpochInfo \<Rightarrow> (chain, uint64) go" where
  "UpdateEpochTracker epochInfo =
     go_bind (go_lift (ToUint64E (ei_CurrentEpoch epochInfo))) (\<lambda>epochNumber.
     go_bind (go_lift (ToUint64E (ei_Duration epochInfo))) (\<lambda>epochDurationNano.
     go_bind (go_lift (ToUint64E (int64_wrap (ei_CurrentEpochStartTime epochInfo + ei_Duration epochInfo))))
       (\<lambda>nextEpochStartTime.
     go_bind (go_modify (SetEpochTracker
       \<lparr>et_EpochIdentifier = ei_Identifier epochInfo, et_EpochNumber = epochNumber,
        et_NextEpochStartTime = nextEpochStartTime, et_Duration = epochDurationNano\<rparr>)) (\<lambda>_.
     go_ret epochNumber))))"

definition GetStartTimeNextEpoch :: "chain \<Rightarrow> string \<Rightarrow> uint64 res" where
  "GetStartTimeNextEpoch c epochType =
     (case GetEpochTracker c epochType of
        None \<Rightarrow> Err (Sdk ErrInvalidRequest)
      | Some epochTracker \<Rightarrow> Ok (et_NextEpochStartTime epochTracker))"

section \<open>The buffer window\<close>

definition GetStrideEpochElapsedShare :: "env \<Rightarrow> chain \<Rightarrow> Dec res" where
  "GetStrideEpochElapsedShare env c =
     (case GetEpochTracker c STRIDE_EPOCH of
        None \<Rightarrow> Err (Sdk ErrNotFound)
      | Some epochTracker \<Rightarrow>
          (case ToInt64E (et_Duration epochTracker) of
             Ok epochDuration \<Rightarrow>
               (case ToInt64E (et_NextEpochStartTime epochTracker) of
                  Ok epochEndTime \<Rightarrow>
                    (let epochStartTime = int64_wrap (epochEndTime - epochDuration);
                         currBlockTime = e_blockTime env in
                     if currBlockTime < epochStartTime \<or> epochEndTime < currBlockTime
                     then Err (StakeIBCErr ErrInvalidEpoch)
                     else let elapsedTime = int64_wrap (currBlockTime - epochStartTime) in
                       rbind (Dec_Quo (NewDec elapsedTime) (NewDec epochDuration)) (\<lambda>elapsedShare.
                       if elapsedShare < ZeroDec \<or> OneDec < elapsedShare
                       then Err (StakeIBCErr ErrInvalidEpoch)
                       else Ok elapsedShare))
                | _ \<Rightarrow> Err (StakeIBCErr ErrIntCast))
           | _ \<Rightarrow> Err (StakeIBCErr ErrIntCast)))"

definition IsWithinBufferWindow :: "env \<Rightarrow> chain \<Rightarrow> bool res" where
  "IsWithinBufferWindow env c =
     rbind (GetStrideEpochElapsedShare env c) (\<lambda>elapsedShareOfEpoch.
     rbind (ToInt64E (prm_BufferSize (e_params env))) (\<lambda>bufferSize.
     rbind (Dec_Quo (NewDec 1) (NewDec bufferSize)) (\<lambda>share.
     rbind (Dec_Sub (NewDec 1) share) (\<lambda>epochShareThresh.
     Ok (epochShareThresh < elapsedShareOfEpoch)))))"

definition GetICATimeoutNanos :: "env \<Rightarrow> chain \<Rightarrow> string \<Rightarrow> uint64 res" where
  "GetICATimeoutNanos env c epochType =
     (case GetEpochTracker c epochType of
        None \<Rightarrow> Err (Sdk ErrInvalidRequest)
      | Some epochTracker \<Rightarrow>
          (let bufferSizeParam = prm_BufferSize (e_params env) in
           if bufferSizeParam = 0 then Panic
           else let bufferSize = et_Duration epochTracker div bufferSizeParam in
             if et_Duration epochTracker < bufferSize then Err (Sdk ErrInvalidRequest)
             else Ok (et_NextEpochStartTime epochTracker - bufferSize)))"

section \<open>Rounding of shares\<close>

text \<open>The share \<open>a / b\<close> of two integers as a decimal is off by at most half a unit of the
  last digit (plus the truncation of the first quotient).\<close>

lemma Dec_Quo_share:
  assumes "0 \<le> a" "a \<le> b" "0 < b"
  shows "\<exists>q. Dec_Quo (NewDec a) (NewDec b) = Ok q \<and> 0 \<le> q \<and> q \<le> OneDec \<and>
    a * precisionReuse - b \<le> q * b \<and> q * b \<le> a * precisionReuse + b"
proof -
  let ?P = precisionReuse
  define X where "X = a * (?P * ?P) div b"
  define q where "q = chop_nonneg X"
  have mono: "big_quo (NewDec a * (?P * ?P)) (NewDec b) = X"
    using assms by (simp add: NewDec_def big_quo_pos X_def ac_simps)
  have X0: "0 \<le> X" using assms by (simp add: X_def pos_imp_zdiv_nonneg_iff)
  have X1: "X * b \<le> a * (?P * ?P)" "a * (?P * ?P) < X * b + b"
    using assms(3) pos_mod_bound [of b "a * (?P * ?P)"] pos_mod_sign [of b "a * (?P * ?P)"]
      div_mult_mod_eq [of "a * (?P * ?P)" b] unfolding X_def by linarith+
  have "a * (?P * ?P) \<le> b * (?P * ?P)" using assms by (intro mult_right_mono) auto
  with X1(1) have "X * b \<le> b * (?P * ?P)" by (rule order_trans)
  then have "X * b \<le> (?P * ?P) * b" by (simp only: mult.commute)
  then have XP: "X \<le> ?P * ?P" using assms(3) by simp
  have q0: "0 \<le> q" using X0 by (simp add: q_def chop_nonneg_ge_0)
  have q1: "q \<le> ?P"
    unfolding q_def by (rule chop_nonneg_le) (use XP precisionReuse_pos(1) in linarith)
  have "2 * (q * ?P) * b \<le> (2 * X + ?P) * b" "(2 * X) * b \<le> (2 * (q * ?P) + ?P) * b"
    using chop_nonneg_bounds [of X] assms(3) by (auto simp: q_def intro: mult_right_mono)
  then have "2 * (q * b * ?P) \<le> 2 * (X * b) + ?P * b" "2 * (X * b) \<le> 2 * (q * b * ?P) + ?P * b"
    by (simp_all add: algebra_simps)
  then have "2 * (q * b) * ?P \<le> (2 * (a * ?P) + b) * ?P"
    "(2 * (a * ?P)) * ?P \<le> (2 * (q * b) + b) * ?P + 2 * b"
    using X1 by (simp_all add: algebra_simps)
  then have "2 * (q * b) \<le> 2 * (a * ?P) + b" "(2 * (a * ?P)) * ?P \<le> (2 * (q * b) + b + b) * ?P"
    using assms(3) by (auto simp: precisionReuse_def algebra_simps)
  then have "2 * (q * b) \<le> 2 * (a * ?P) + b" "2 * (a * ?P) \<le> 2 * (q * b) + b + b"
    by (auto simp: precisionReuse_def)
  then have bnd: "a * ?P - b \<le> q * b" "q * b \<le> a * ?P + b" using assms(3) by linarith+
  have "fits_dec q" using q0 q1 by (simp add: fits_dec_def precisionReuse_def)
  then have "Dec_Quo (NewDec a) (NewDec b) = Ok q"
    using assms(3) X0 mono
    by (simp add: Dec_Quo_Ok chopPrecisionAndRound_nonneg q_def) (simp add: NewDec_def)
  with q0 q1 bnd show ?thesis by (auto simp: OneDec_def)
qed

text \<open>What a well-formed tracker looks like at a block of its epoch.\<close>

definition tracker_covers :: "EpochTracker \<Rightarrow> int \<Rightarrow> bool" where
  "tracker_covers t now \<longleftrightarrow>
     0 < uint (et_Duration t) \<and> uint (et_Duration t) < 2 ^ 63 \<and> uint (et_NextEpochStartTime t) < 2 ^ 63 \<and>
     uint (et_NextEpochStartTime t) - uint (et_Duration t) \<le> now \<and> now \<le> uint (et_NextEpochStartTime t)"

lemma elapsed_share:
  assumes "GetEpochTracker c STRIDE_EPOCH = Some t" "tracker_covers t (e_blockTime env)"
  shows "GetStrideEpochElapsedShare env c =
    Dec_Quo (NewDec (e_blockTime env - (uint (et_NextEpochStartTime t) - uint (et_Duration t))))
      (NewDec (uint (et_Duration t)))"
proof -
  define d n now where "d = uint (et_Duration t)" and "n = uint (et_NextEpochStartTime t)"
    and "now = e_blockTime env"
  have h: "0 < d" "d < 2 ^ 63" "n < 2 ^ 63" "n - d \<le> now" "now \<le> n"
    using assms(2) by (auto simp: tracker_covers_def d_def n_def now_def)
  have n0: "0 \<le> n" by (simp add: n_def)
  have "is_int64 (n - d)" "is_int64 (now - (n - d))"
    using h n0 by (auto simp: is_int64_def)
  moreover obtain q where "Dec_Quo (NewDec (now - (n - d))) (NewDec d) = Ok q" "0 \<le> q" "q \<le> OneDec"
    using Dec_Quo_share [of "now - (n - d)" d] h by auto
  ultimately show ?thesis
    using h by (simp add: GetStrideEpochElapsedShare_def assms(1) ToInt64E_def Let_def ZeroDec_def
        flip: d_def n_def now_def)
qed

text \<open>Inside an epoch the buffer window check returns a verdict without error or
  panic, and the verdict is whether less than one \<open>bufferSize\<close>-th of the epoch is left: it
  is exact up to one unit of the eighteenth decimal digit of the share.\<close>

theorem buffer_window_at_epoch_end:
  assumes "GetEpochTracker c STRIDE_EPOCH = Some t" "tracker_covers t (e_blockTime env)"
    and "0 < uint (prm_BufferSize (e_params env))" "uint (prm_BufferSize (e_params env)) < 2 ^ 63"
  defines "left \<equiv> uint (et_NextEpochStartTime t) - e_blockTime env"
    and "d \<equiv> uint (et_Duration t)" and "n \<equiv> uint (prm_BufferSize (e_params env))"
  shows "\<exists>v. IsWithinBufferWindow env c = Ok v \<and>
    (left * n * 10 ^ 18 + 2 * d * n < d * 10 ^ 18 \<longrightarrow> v) \<and>
    (d * 10 ^ 18 + 2 * d * n < left * n * 10 ^ 18 \<longrightarrow> \<not> v)"
proof -
  let ?P = precisionReuse
  define a where "a = e_blockTime env - (uint (et_NextEpochStartTime t) - d)"
  have a: "0 \<le> a" "a \<le> d" "0 < d" "a = d - left"
    using assms(2) by (auto simp: tracker_covers_def a_def d_def left_def)
  obtain q where q: "GetStrideEpochElapsedShare env c = Ok q"
      "a * ?P - d \<le> q * d" "q * d \<le> a * ?P + d"
    using Dec_Quo_share [OF a(1-3)] elapsed_share [OF assms(1,2)] by (auto simp: a_def d_def)
  have n: "0 < n" "n < 2 ^ 63" using assms(3,4) by (simp_all add: n_def)
  obtain s where s: "Dec_Quo (NewDec 1) (NewDec n) = Ok s" "0 \<le> s" "s \<le> OneDec"
      "?P - n \<le> s * n" "s * n \<le> ?P + n"
    using Dec_Quo_share [of 1 n] n by auto
  have sub: "Dec_Sub (NewDec 1) s = Ok (?P - s)"
    using s(2,3) by (auto simp: Dec_Sub_Ok NewDec_def OneDec_def fits_dec_def precisionReuse_def)
  have run: "IsWithinBufferWindow env c = Ok (?P - s < q)"
    using q(1) s(1) sub n by (simp add: IsWithinBufferWindow_def ToInt64E_def flip: n_def)
  have e: "(?P - s) * (d * n) = d * n * ?P - d * (s * n)" "q * (d * n) = (q * d) * n"
      "a * ?P = d * ?P - left * ?P"
    by (simp_all add: a(4) algebra_simps)
  have "d * (?P - n) \<le> d * (s * n)" "d * (s * n) \<le> d * (?P + n)"
    using s(4,5) a(3) by (simp_all add: mult_left_mono)
  then have lo: "d * n * ?P - d * (?P + n) \<le> (?P - s) * (d * n)"
      "(?P - s) * (d * n) \<le> d * n * ?P - d * (?P - n)"
    unfolding e by linarith+
  have hi: "(d * ?P - left * ?P - d) * n \<le> q * (d * n)" "q * (d * n) \<le> (d * ?P - left * ?P + d) * n"
    using q(2,3) n(1) unfolding e by (simp_all add: mult_right_mono)
  have dn: "0 < d * n" using a(3) n(1) by simp
  have "?P - s < q" if "left * n * ?P + 2 * d * n < d * ?P"
  proof -
    have "(?P - s) * (d * n) < q * (d * n)" using lo hi that by (simp add: algebra_simps)
    with dn show ?thesis by (simp add: mult_less_cancel_right)
  qed
  moreover have "\<not> ?P - s < q" if "d * ?P + 2 * d * n < left * n * ?P"
  proof -
    have "q * (d * n) < (?P - s) * (d * n)" using lo hi that by (simp add: algebra_simps)
    with dn show ?thesis by (simp add: mult_less_cancel_right)
  qed
  ultimately show ?thesis using run by (simp add: precisionReuse_def)
qed

theorem buffer_window_at_epoch_end_witness:
  "IsWithinBufferWindow demo_env (SetEpochTracker (demo_tracker STRIDE_EPOCH) empty_chain) = Ok True"
proof -
  let ?c = "SetEpochTracker (demo_tracker STRIDE_EPOCH) empty_chain"
  have "GetEpochTracker ?c STRIDE_EPOCH = Some (demo_tracker STRIDE_EPOCH)"
    by (simp add: demo_tracker_def)
  moreover have "tracker_covers (demo_tracker STRIDE_EPOCH) (e_blockTime demo_env)"
    by (simp add: tracker_covers_def demo_tracker_def demo_env_def)
  ultimately show ?thesis
    using buffer_window_at_epoch_end [of ?c "demo_tracker STRIDE_EPOCH" demo_env]
    by (auto simp: demo_tracker_def demo_env_def DefaultParams_def)
qed

lemma int_div_le_self: "0 \<le> a \<Longrightarrow> 0 < b \<Longrightarrow> a div b \<le> (a::int)"
  using div_by_1 zdiv_mono2 [of a 1 b] by simp

section \<open>Trackers and timeouts\<close>

text \<open>The hook records an epoch of the timer faithfully, and the timeout the module
  computes for that epoch lies exactly one \<open>bufferSize\<close>-th of the epoch before its end: never
  before the epoch began, never after the next one starts, and without wrap-around or panic.\<close>

theorem ica_timeout_inside_epoch:
  assumes "0 \<le> ei_CurrentEpoch e" "ei_CurrentEpoch e < 2 ^ 63" "0 < ei_Duration e"
    and "0 \<le> ei_CurrentEpochStartTime e" "ei_CurrentEpochStartTime e + ei_Duration e < 2 ^ 63"
    and "prm_BufferSize (e_params env) \<noteq> 0"
  defines "buffer \<equiv> ei_Duration e div uint (prm_BufferSize (e_params env))"
  shows "\<exists>t w. UpdateEpochTracker e c = (Ok (word_of_int (ei_CurrentEpoch e)), t) \<and>
    GetICATimeoutNanos env t (ei_Identifier e) = Ok w \<and>
    uint w = ei_CurrentEpochStartTime e + ei_Duration e - buffer \<and>
    ei_CurrentEpochStartTime e \<le> uint w \<and> uint w \<le> ei_CurrentEpochStartTime e + ei_Duration e \<and>
    (\<forall>now. ei_CurrentEpochStartTime e \<le> now \<and> now \<le> ei_CurrentEpochStartTime e + ei_Duration e \<longrightarrow>
      (\<exists>tr. GetEpochTracker t (ei_Identifier e) = Some tr \<and> tracker_covers tr now))"
proof -
  define n d x where "n = ei_CurrentEpochStartTime e + ei_Duration e" and "d = ei_Duration e"
    and "x = ei_CurrentEpoch e"
  have h: "0 < d" "d \<le> n" "n < 2 ^ 63" "0 \<le> x" "x < 2 ^ 63" "n - d = ei_CurrentEpochStartTime e"
    using assms by (simp_all add: n_def d_def x_def)
  have sum: "ei_CurrentEpochStartTime e + d = n" by (simp add: n_def d_def)
  from h have iw: "int64_wrap n = n" by (intro int64_wrap_id) (simp add: is_int64_def)
  define tr where "tr = \<lparr>et_EpochIdentifier = ei_Identifier e, et_EpochNumber = word_of_int x,
        et_NextEpochStartTime = word_of_int n, et_Duration = word_of_int d\<rparr>"
  have run: "UpdateEpochTracker e c = (Ok (word_of_int x), SetEpochTracker tr c)"
    using h iw by (simp add: UpdateEpochTracker_def go_defs ToUint64E_def tr_def sum flip: d_def x_def)
  have u: "uint (word_of_int n :: uint64) = n" "uint (word_of_int d :: uint64) = d"
    using h by (simp_all add: uint_word_of_int)
  let ?B = "prm_BufferSize (e_params env)"
  have B: "0 < uint ?B" using assms(6) by (simp add: word_neq_0_conv word_less_alt)
  have b: "0 \<le> buffer" "buffer \<le> d"
    using h B int_div_le_self [of d "uint ?B"]
    by (simp_all add: buffer_def pos_imp_zdiv_nonneg_iff flip: d_def)
  define w where "w = (word_of_int n - word_of_int d div ?B :: uint64)"
  have ub: "uint (word_of_int d div ?B :: uint64) = buffer"
    using u by (simp add: uint_div_distrib buffer_def flip: d_def)
  then have uw: "uint w = n - buffer"
    using u b h by (simp add: w_def uint_word_ariths)
  have "GetICATimeoutNanos env (SetEpochTracker tr c) (ei_Identifier e) = Ok w"
    using assms(6) ub u b
    by (simp add: GetICATimeoutNanos_def tr_def w_def Let_def word_less_alt)
  moreover have "tracker_covers tr now" if "n - d \<le> now" "now \<le> n" for now
    using that h u by (simp add: tracker_covers_def tr_def)
  ultimately show ?thesis
    using run uw b h by (intro exI [of _ "SetEpochTracker tr c"] exI [of _ w])
      (auto simp: tr_def simp flip: n_def d_def x_def)
qed

theorem ica_timeout_inside_epoch_witness:
  "\<exists>t w. UpdateEpochTracker \<lparr>ei_Identifier = DAY_EPOCH, ei_StartTime = 0, ei_Duration = 1000,
      ei_CurrentEpoch = 2, ei_CurrentEpochStartTime = 1000, ei_EpochCountingStarted = True,
      ei_CurrentEpochStartHeight = 1\<rparr> empty_chain = (Ok 2, t) \<and>
    GetICATimeoutNanos demo_env t DAY_EPOCH = Ok w \<and> uint w = 1800"
  using ica_timeout_inside_epoch [of "\<lparr>ei_Identifier = DAY_EPOCH, ei_StartTime = 0, ei_Duration = 1000,
      ei_CurrentEpoch = 2, ei_CurrentEpochStartTime = 1000, ei_EpochCountingStarted = True,
      ei_CurrentEpochStartHeight = 1\<rparr>" demo_env empty_chain]
  by (auto simp: demo_env_def DefaultParams_def)

end
