(* ===== verification/HostZones.thy ===== *)
theory HostZones
  imports EpochWindow
begin

text \<open>
  Host zones and their validator sets: \<open>keeper/host_zone.go\<close>, the validator messages
  (\<open>keeper/msg_server_add_validators.go\<close>, \<open>msg_server_delete_validator.go\<close>,
  \<open>msg_server_change_validator_weight.go\<close>, \<open>keeper/gov.go\<close>), the safety checks of
  \<open>keeper/keeper.go\<close> and the validation of the parameters (\<open>types/params.go\<close>).

  The Go code mutates validators through the pointers of \<open>hostZone.Validators\<close>; here an
  operation that does so returns the changed host zone.
\<close>

section \<open>Delegations of one validator\<close>

fun GetValidatorFromAddress :: "Validator list \<Rightarrow> address \<Rightarrow> (Validator \<times> nat) option" where
  "GetValidatorFromAddress [] address = None"
| "GetValidatorFromAddress (v # vs) address =
     (if val_Address v = address then Some (v, 0)
      else map_option (\<lambda>(w, i). (w, Suc i)) (GetValidatorFromAddress vs address))"

text \<open>The loop of \<open>AddDelegationToValidator\<close>; \<open>Ok None\<close> is its result
  \<open>false\<close>.\<close>

fun add_delegation :: "address \<Rightarrow> int \<Rightarrow> Validator list \<Rightarrow> Validator list option res" where
  "add_delegation validatorAddress amount [] = Ok None"
| "add_delegation validatorAddress amount (v # vs) =
     (if val_Address v = validatorAddress then
        (if 0 \<le> amount then
           rbind (Int_Add (val_DelegationAmt v) amount) (\<lambda>d. Ok (Some (v\<lparr>val_DelegationAmt := d\<rparr> # vs)))
         else let absAmt = \<bar>amount\<bar> in
           if val_DelegationAmt v < absAmt then Ok None
           else rbind (Int_Sub (val_DelegationAmt v) absAmt) (\<lambda>d. Ok (Some (v\<lparr>val_DelegationAmt := d\<rparr> # vs))))
      else rbind (add_delegation validatorAddress amount vs) (\<lambda>r. Ok (map_option (\<lambda>vs'. v # vs') r)))"

definition AddDelegationToValidator :: "HostZone \<Rightarrow> address \<Rightarrow> int \<Rightarrow> HostZone option res" where
  "AddDelegationToValidator hostZone validatorAddress amount =
     rbind (add_delegation validatorAddress amount (hz_Validators hostZone)) (\<lambda>r.
     Ok (map_option (\<lambda>vs. hostZone\<lparr>hz_Validators := vs\<rparr>) r))"

section \<open>The validator set\<close>

definition nonzero_weights :: "Validator list \<Rightarrow> nat" where
  "nonzero_weights validators = length (filter (\<lambda>v. 0 < val_Weight v) validators)"

definition ConfirmValSetHasSpace :: "env \<Rightarrow> Validator list \<Rightarrow> unit res" where
  "ConfirmValSetHasSpace env validators =
     (case ToIntE (prm_SafetyNumValidators (e_params env)) of
        Ok maxNumVals \<Rightarrow>
          if maxNumVals \<le> int (nonzero_weights validators) then Err (StakeIBCErr ErrMaxNumValidators) else Ok ()
      | _ \<Rightarrow> Err (StakeIBCErr ErrMaxNumValidators))"

text \<open>The duplicate check, which computes the smallest non-zero weight on the way.\<close>

fun check_new_validator :: "Validator \<Rightarrow> uint64 \<Rightarrow> Validator list \<Rightarrow> uint64 res" where
  "check_new_validator validator minWeight [] = Ok minWeight"
| "check_new_validator validator minWeight (e # es) =
     (if val_Address e = val_Address validator then Err (StakeIBCErr ErrValidatorAlreadyExists)
      else if val_Name e = val_Name validator then Err (StakeIBCErr ErrValidatorAlreadyExists)
      else check_new_validator validator
        (if val_Weight e < minWeight \<and> 0 < val_Weight e then val_Weight e else minWeight) es)"

definition AddValidatorToHostZone :: "env \<Rightarrow> string \<Rightarrow> Validator \<Rightarrow> bool \<Rightarrow> (chain, unit) go" where
  "AddValidatorToHostZone env chainId validator fromGovernance =
     go_bind (go_gets (\<lambda>c. GetHostZone c chainId)) (\<lambda>found.
     go_bind (go_found found (StakeIBCErr ErrHostZoneNotFound)) (\<lambda>hostZone.
     go_bind (go_wrap (StakeIBCErr ErrMaxNumValidators)
       (go_lift (ConfirmValSetHasSpace env (hz_Validators hostZone)))) (\<lambda>_.
     go_bind (go_lift (check_new_validator validator (- 1) (hz_Validators hostZone))) (\<lambda>minWeight.
     let valWeight = (if fromGovernance then minWeight else val_Weight validator) in
     go_modify (SetHostZone (hostZone\<lparr>hz_Validators := hz_Validators hostZone @
       [\<lparr>val_Name = val_Name validator, val_Address = val_Address validator, val_DelegationAmt = 0,
         val_Weight = valWeight, val_InternalExchangeRate = None\<rparr>]\<rparr>))))))"

definition AddValidators :: "env \<Rightarrow> string \<Rightarrow> Validator list \<Rightarrow> (chain, unit) go" where
  "AddValidators env hostZone validators =
     for_each (\<lambda>validator. AddValidatorToHostZone env hostZone validator False) validators"

definition AddValidatorsProposal :: "env \<Rightarrow> string \<Rightarrow> Validator list \<Rightarrow> (chain, unit) go" where
  "AddValidatorsProposal env hostZone validators =
     for_each (\<lambda>validator. AddValidatorToHostZone env hostZone validator True) validators"

fun remove_validator :: "address \<Rightarrow> Validator list \<Rightarrow> Validator list res" where
  "remove_validator validatorAddress [] = Err (StakeIBCErr ErrValidatorNotFound)"
| "remove_validator validatorAddress (v # vs) =
     (if val_Address v = validatorAddress then
        (if val_DelegationAmt v = 0 \<and> val_Weight v = 0 then Ok vs else Err Plain)
      else rbind (remove_validator validatorAddress vs) (\<lambda>vs'. Ok (v # vs')))"

definition RemoveValidatorFromHostZone :: "string \<Rightarrow> address \<Rightarrow> (chain, unit) go" where
  "RemoveValidatorFromHostZone chainId validatorAddress =
     go_bind (go_gets (\<lambda>c. GetHostZone c chainId)) (\<lambda>found.
     go_bind (go_found found (StakeIBCErr ErrHostZoneNotFound)) (\<lambda>hostZone.
     go_bind (go_lift (remove_validator validatorAddress (hz_Validators hostZone))) (\<lambda>vs.
     go_modify (SetHostZone (hostZone\<lparr>hz_Validators := vs\<rparr>)))))"

definition DeleteValidator :: "string \<Rightarrow> address \<Rightarrow> (chain, unit) go" where
  "DeleteValidator hostZone valAddr =
     go_wrap (StakeIBCErr ErrValidatorNotRemoved) (RemoveValidatorFromHostZone hostZone valAddr)"

text \<open>\<open>space\<close> is the result of \<open>ConfirmValSetHasSpace\<close> on the whole set.\<close>

fun set_weight :: "bool \<Rightarrow> address \<Rightarrow> uint64 \<Rightarrow> Validator list \<Rightarrow> Validator list res" where
  "set_weight space valAddr weight [] = Err (StakeIBCErr ErrValidatorNotFound)"
| "set_weight space valAddr weight (v # vs) =
     (if val_Address v = valAddr then
        (if val_Weight v = 0 \<and> 0 < weight \<and> \<not> space then Err (StakeIBCErr ErrMaxNumValidators)
         else Ok (v\<lparr>val_Weight := weight\<rparr> # vs))
      else rbind (set_weight space valAddr weight vs) (\<lambda>vs'. Ok (v # vs')))"

definition ChangeValidatorWeight :: "env \<Rightarrow> string \<Rightarrow> address \<Rightarrow> uint64 \<Rightarrow> (chain, unit) go" where
  "ChangeValidatorWeight env chainId valAddr weight =
     go_bind (go_gets (\<lambda>c. GetHostZone c chainId)) (\<lambda>found.
     go_bind (go_found found (StakeIBCErr ErrInvalidHostZone)) (\<lambda>hostZone.
     go_bind (go_lift (set_weight (res_ok (ConfirmValSetHasSpace env (hz_Validators hostZone)))
       valAddr weight (hz_Validators hostZone))) (\<lambda>vs.
     go_modify (SetHostZone (hostZone\<lparr>hz_Validators := vs\<rparr>)))))"

section \<open>Parameters and safety bounds\<close>

definition validTimeoutNanos :: "uint64 \<Rightarrow> bool" where
  "validTimeoutNanos ival \<longleftrightarrow> 600000000000 \<le> ival \<and> ival \<le> 600000000000 * 6"

definition validMaxRedemptionRateThreshold :: "uint64 \<Rightarrow> bool" where
  "validMaxRedemptionRateThreshold ival \<longleftrightarrow> ival \<le> 1000"

definition validMinRedemptionRateThreshold :: "uint64 \<Rightarrow> bool" where
  "validMinRedemptionRateThreshold ival \<longleftrightarrow> 75 \<le> ival"

definition validSlashPercent :: "uint64 \<Rightarrow> bool" where
  "validSlashPercent ival \<longleftrightarrow> ival \<le> 100"

definition isPositive :: "uint64 \<Rightarrow> bool" where
  "isPositive ival \<longleftrightarrow> 0 < ival"

definition isCommission :: "uint64 \<Rightarrow> bool" where
  "isCommission ival \<longleftrightarrow> ival \<le> 100"

definition Params_Validate :: "Params \<Rightarrow> unit res" where
  "Params_Validate p =
     rbind (rguard (isPositive (prm_DepositInterval p)) Plain) (\<lambda>_.
     rbind (rguard (isPositive (prm_DelegateInterval p)) Plain) (\<lambda>_.
     rbind (rguard (isPositive (prm_RewardsInterval p)) Plain) (\<lambda>_.
     rbind (rguard (isPositive (prm_RedemptionRateInterval p)) Plain) (\<lambda>_.
     rbind (rguard (isCommission (prm_StrideCommission p)) Plain) (\<lambda>_.
     rbind (rguard (isPositive (prm_ReinvestInterval p)) Plain) (\<lambda>_.
     rbind (rguard (isPositive (prm_IcaTimeoutNanos p)) Plain) (\<lambda>_.
     rbind (rguard (isPositive (prm_BufferSize p)) Plain) (\<lambda>_.
     rbind (rguard (isPositive (prm_IbcTimeoutBlocks p)) Plain) (\<lambda>_.
     rbind (rguard (validTimeoutNanos (prm_FeeTransferTimeoutNanos p)) Plain) (\<lambda>_.
     rbind (rguard (isPositive (prm_MaxStakeIcaCallsPerEpoch p)) Plain) (\<lambda>_.
     rbind (rguard (validMinRedemptionRateThreshold (prm_DefaultMinRedemptionRateThreshold p)) Plain) (\<lambda>_.
     rbind (rguard (validMaxRedemptionRateThreshold (prm_DefaultMaxRedemptionRateThreshold p)) Plain) (\<lambda>_.
     rbind (rguard (validTimeoutNanos (prm_IbcTransferTimeoutNanos p)) Plain) (\<lambda>_.
     rbind (rguard (isPositive (prm_SafetyNumValidators p)) Plain) (\<lambda>_.
     rguard (validSlashPercent (prm_SafetyMaxSlashPercent p)) Plain)))))))))))))))"

text \<open>\<open>sdk.NewDec(int64(x))\<close> reinterprets the bits of the parameter.\<close>

definition IsRedemptionRateWithinSafetyBounds :: "env \<Rightarrow> HostZone \<Rightarrow> bool res" where
  "IsRedemptionRateWithinSafetyBounds env zone =
     rbind (Dec_Quo (NewDec (sint (prm_DefaultMinRedemptionRateThreshold (e_params env)))) (NewDec 100)) (\<lambda>defaultMin.
     let minSafetyThreshold = (case hz_MinRedemptionRate zone of
           Some m \<Rightarrow> if 0 < m then m else defaultMin | None \<Rightarrow> defaultMin) in
     rbind (Dec_Quo (NewDec (sint (prm_DefaultMaxRedemptionRateThreshold (e_params env)))) (NewDec 100)) (\<lambda>defaultMax.
     let maxSafetyThreshold = (case hz_MaxRedemptionRate zone of
           Some m \<Rightarrow> if 0 < m then m else defaultMax | None \<Rightarrow> defaultMax) in
     if hz_RedemptionRate zone < minSafetyThreshold \<or> maxSafetyThreshold < hz_RedemptionRate zone
     then Err (StakeIBCErr ErrRedemptionRateOutsideSafetyBounds)
     else Ok True))"

section \<open>Lemmas on delegations\<close>

definition total_delegation :: "Validator list \<Rightarrow> int" where
  "total_delegation vs = sum_list (map val_DelegationAmt vs)"

lemma total_delegation_simps [simp]:
  "total_delegation [] = 0" "total_delegation (v # vs) = val_DelegationAmt v + total_delegation vs"
  by (simp_all add: total_delegation_def)

text \<open>Everything but the delegations of a validator list.\<close>

definition val_frame :: "Validator list \<Rightarrow> Validator list" where
  "val_frame = map (val_DelegationAmt_update (\<lambda>_. 0))"

lemma val_frame_simps [simp]:
  "val_frame [] = []" "val_frame (v # vs) = v\<lparr>val_DelegationAmt := 0\<rparr> # val_frame vs"
  by (simp_all add: val_frame_def)

lemma val_frame_addresses:
  "val_frame vs = val_frame ws \<Longrightarrow>
     map val_Address vs = map val_Address ws \<and> map val_Name vs = map val_Name ws \<and>
     map val_Weight vs = map val_Weight ws"
proof -
  have "map val_Address vs = map val_Address (val_frame vs)" "map val_Name vs = map val_Name (val_frame vs)"
    "map val_Weight vs = map val_Weight (val_frame vs)" for vs
    by (induction vs) auto
  then show "val_frame vs = val_frame ws \<Longrightarrow> ?thesis" by metis
qed

lemma add_delegation_Some:
  assumes "add_delegation a x vs = Ok (Some ws)"
  shows "total_delegation ws = total_delegation vs + x \<and> val_frame ws = val_frame vs \<and>
    a \<in> val_Address ` set vs"
  using assms
  by (induction vs arbitrary: ws) (auto simp: Let_def rbind_eq_Ok Int_Add_Ok Int_Sub_Ok split: if_splits)

lemma add_delegation_nonneg:
  assumes "add_delegation a x vs = Ok (Some ws)" "\<forall>v\<in>set vs. 0 \<le> val_DelegationAmt v"
  shows "\<forall>v\<in>set ws. 0 \<le> val_DelegationAmt v"
  using assms
  by (induction vs arbitrary: ws) (auto simp: Let_def rbind_eq_Ok Int_Add_Ok Int_Sub_Ok split: if_splits)

lemma add_delegation_no_Err: "add_delegation a x vs \<noteq> Err e"
  by (induction vs) (auto simp: Let_def rbind_eq_Err Int_no_Err)

section \<open>The validator set invariant\<close>

definition valset_ok :: "env \<Rightarrow> Validator list \<Rightarrow> bool" where
  "valset_ok env vs \<longleftrightarrow> distinct (map val_Address vs) \<and> distinct (map val_Name vs) \<and>
     int (nonzero_weights vs) \<le> sint (prm_SafetyNumValidators (e_params env))"

definition zones_ok :: "env \<Rightarrow> chain \<Rightarrow> bool" where
  "zones_ok env c \<longleftrightarrow> (\<forall>k z. GetHostZone c k = Some z \<longrightarrow> hz_ChainId z = k \<and> valset_ok env (hz_Validators z))"

lemma check_new_validator_Ok:
  "check_new_validator v m es = Ok w \<Longrightarrow> val_Address v \<notin> val_Address ` set es \<and> val_Name v \<notin> val_Name ` set es"
  by (induction es arbitrary: m) (auto split: if_splits)

lemma check_new_validator_weight:
  "check_new_validator v m es = Ok w \<Longrightarrow>
     w \<le> m \<and> (\<forall>e\<in>set es. 0 < val_Weight e \<longrightarrow> w \<le> val_Weight e) \<and>
     (w = m \<or> (\<exists>e\<in>set es. 0 < val_Weight e \<and> w = val_Weight e))"
proof (induction es arbitrary: m)
  case (Cons e es)
  let ?m = "if val_Weight e < m \<and> 0 < val_Weight e then val_Weight e else m"
  from Cons have "w \<le> ?m \<and> (\<forall>e\<in>set es. 0 < val_Weight e \<longrightarrow> w \<le> val_Weight e) \<and>
     (w = ?m \<or> (\<exists>e\<in>set es. 0 < val_Weight e \<and> w = val_Weight e))"
    by (auto split: if_splits)
  then show ?case by (auto split: if_splits)
qed simp

lemma ConfirmValSetHasSpace_Ok [go_simps]:
  "ConfirmValSetHasSpace env vs = Ok u \<longleftrightarrow>
     int (nonzero_weights vs) < sint (prm_SafetyNumValidators (e_params env))"
  by (auto simp: ConfirmValSetHasSpace_def ToIntE_def)

lemma nonzero_weights_simps [simp]:
  "nonzero_weights [] = 0"
  "nonzero_weights (v # vs) = (if 0 < val_Weight v then 1 else 0) + nonzero_weights vs"
  "nonzero_weights (vs @ ws) = nonzero_weights vs + nonzero_weights ws"
  by (simp_all add: nonzero_weights_def)

lemma remove_validator_Ok:
  "remove_validator a vs = Ok ws \<Longrightarrow>
     \<exists>us v us'. vs = us @ v # us' \<and> ws = us @ us' \<and> val_Address v = a \<and> val_DelegationAmt v = 0 \<and> val_Weight v = 0"
proof (induction vs arbitrary: ws)
  case (Cons v vs)
  show ?case
  proof (cases "val_Address v = a")
    case True
    with Cons.prems show ?thesis by (intro exI [of _ "[]"]) (auto split: if_splits)
  next
    case False
    with Cons.prems obtain ws' where ws': "remove_validator a vs = Ok ws'" "ws = v # ws'"
      by (auto simp: rbind_eq_Ok)
    with Cons.IH obtain us w us' where "vs = us @ w # us'" "ws' = us @ us'" "val_Address w = a"
      "val_DelegationAmt w = 0" "val_Weight w = 0" by blast
    with ws' show ?thesis by (intro exI [of _ "v # us"] exI [of _ w] exI [of _ us']) simp
  qed
qed simp

lemma set_weight_Ok:
  "set_weight sp a w vs = Ok ws \<Longrightarrow>
     map val_Address ws = map val_Address vs \<and> map val_Name ws = map val_Name vs \<and>
     map val_DelegationAmt ws = map val_DelegationAmt vs \<and>
     nonzero_weights ws \<le> nonzero_weights vs + (if sp then 1 else 0)"
  by (induction vs arbitrary: ws) (auto simp: rbind_eq_Ok word_neq_0_conv split: if_splits)

lemma zones_ok_Set:
  "zones_ok env c \<Longrightarrow> valset_ok env (hz_Validators z) \<Longrightarrow> zones_ok env (SetHostZone z c)"
  by (auto simp: zones_ok_def)

lemma AddValidator_ok:
  assumes "zones_ok env c" "AddValidatorToHostZone env k v g c = (r, t)"
  shows "zones_ok env t"
proof -
  have "zones_ok env t" if z: "GetHostZone c k = Some z" "ConfirmValSetHasSpace env (hz_Validators z) = Ok ()"
      "check_new_validator v (- 1) (hz_Validators z) = Ok m"
      "t = SetHostZone (z\<lparr>hz_Validators := hz_Validators z @ [\<lparr>val_Name = val_Name v, val_Address = val_Address v,
         val_DelegationAmt = 0, val_Weight = w, val_InternalExchangeRate = None\<rparr>]\<rparr>) c" for z m w
  proof -
    have "valset_ok env (hz_Validators z)" using assms(1) z(1) by (simp add: zones_ok_def)
    with check_new_validator_Ok [OF z(3)] z(2) show ?thesis unfolding z(4)
      by (intro zones_ok_Set [OF assms(1)]) (auto simp: valset_ok_def ConfirmValSetHasSpace_Ok)
  qed
  with assms show ?thesis
    by (cases r) (auto simp: AddValidatorToHostZone_def go_simps Let_def split: option.splits)
qed

lemma RemoveValidator_ok:
  assumes "zones_ok env c" "RemoveValidatorFromHostZone k a c = (r, t)"
  shows "zones_ok env t"
proof -
  have "zones_ok env (SetHostZone (z\<lparr>hz_Validators := ws\<rparr>) c)"
    if z: "GetHostZone c k = Some z" "remove_validator a (hz_Validators z) = Ok ws" for z ws
  proof -
    have "valset_ok env (hz_Validators z)" using assms(1) z(1) by (simp add: zones_ok_def)
    with remove_validator_Ok [OF z(2)] have "valset_ok env ws" by (auto simp: valset_ok_def)
    then show ?thesis by (intro zones_ok_Set [OF assms(1)]) simp
  qed
  with assms show ?thesis
    by (cases r) (auto simp: RemoveValidatorFromHostZone_def go_simps split: option.splits)
qed

lemma ChangeWeight_ok:
  assumes "zones_ok env c" "ChangeValidatorWeight env k a w c = (r, t)"
  shows "zones_ok env t"
proof -
  have "zones_ok env (SetHostZone (z\<lparr>hz_Validators := ws\<rparr>) c)"
    if z: "GetHostZone c k = Some z"
      "set_weight (res_ok (ConfirmValSetHasSpace env (hz_Validators z))) a w (hz_Validators z) = Ok ws" for z ws
  proof -
    have "valset_ok env (hz_Validators z)" using assms(1) z(1) by (simp add: zones_ok_def)
    with set_weight_Ok [OF z(2)] have "valset_ok env ws"
      by (auto simp: valset_ok_def res_ok_iff ConfirmValSetHasSpace_Ok split: if_splits)
    then show ?thesis by (intro zones_ok_Set [OF assms(1)]) simp
  qed
  with assms show ?thesis
    by (cases r) (auto simp: ChangeValidatorWeight_def go_simps split: option.splits)
qed

section \<open>Administration as a step relation\<close>

text \<open>One administrative transaction on some validator set, whatever its outcome: after an error
  the state is what the handler had written until then.\<close>

inductive valset_step :: "env \<Rightarrow> chain \<Rightarrow> chain \<Rightarrow> bool" for env where
  add: "AddValidators env k vs c = (r, t) \<Longrightarrow> valset_step env c t"
| propose: "AddValidatorsProposal env k vs c = (r, t) \<Longrightarrow> valset_step env c t"
| delete: "DeleteValidator k a c = (r, t) \<Longrightarrow> valset_step env c t"
| weight: "ChangeValidatorWeight env k a w c = (r, t) \<Longrightarrow> valset_step env c t"

text \<open>What administration must not touch: the sum of the delegations of a zone and all of its
  fields but the validators.\<close>

definition zone_rest :: "HostZone \<Rightarrow> int \<times> HostZone" where
  "zone_rest z = (total_delegation (hz_Validators z), z\<lparr>hz_Validators := []\<rparr>)"

definition same_rest :: "chain \<Rightarrow> chain \<Rightarrow> bool" where
  "same_rest c t \<longleftrightarrow> (\<forall>k. map_option zone_rest (GetHostZone t k) = map_option zone_rest (GetHostZone c k))"

lemma same_rest_refl [simp]: "same_rest c c"
  by (simp add: same_rest_def)

lemma same_rest_trans: "same_rest a b \<Longrightarrow> same_rest b c \<Longrightarrow> same_rest a c"
  by (simp add: same_rest_def)

lemma total_delegation_append [simp]:
  "total_delegation (vs @ ws) = total_delegation vs + total_delegation ws"
  by (simp add: total_delegation_def)

lemma same_rest_Set:
  assumes "zones_ok env c" "GetHostZone c k = Some z" "total_delegation vs = total_delegation (hz_Validators z)"
  shows "same_rest c (SetHostZone (z\<lparr>hz_Validators := vs\<rparr>) c)"
  using assms by (auto simp: same_rest_def zone_rest_def zones_ok_def)

lemma AddValidator_rest:
  assumes "zones_ok env c" "AddValidatorToHostZone env k v g c = (r, t)"
  shows "same_rest c t"
  using assms
  by (cases r) (auto simp: AddValidatorToHostZone_def go_simps Let_def intro!: same_rest_Set split: option.splits)

lemma RemoveValidator_rest:
  assumes "zones_ok env c" "RemoveValidatorFromHostZone k a c = (r, t)"
  shows "same_rest c t"
  using assms
  by (cases r) (auto simp: RemoveValidatorFromHostZone_def go_simps intro!: same_rest_Set
      dest!: remove_validator_Ok split: option.splits)

lemma ChangeWeight_rest:
  assumes "zones_ok env c" "ChangeValidatorWeight env k a w c = (r, t)"
  shows "same_rest c t"
proof -
  have "total_delegation ws = total_delegation vs" if "set_weight sp a w vs = Ok ws" for sp vs ws
    using set_weight_Ok [OF that] by (simp add: total_delegation_def)
  with assms show ?thesis
    by (cases r) (auto simp: ChangeValidatorWeight_def go_simps intro!: same_rest_Set split: option.splits)
qed

lemma AddValidators_loop:
  assumes "zones_ok env c" "for_each (\<lambda>v. AddValidatorToHostZone env k v g) vs c = (r, t)"
  shows "zones_ok env t \<and> same_rest c t"
  by (rule for_each_invariant [where I = "\<lambda>t. zones_ok env t \<and> same_rest c t", OF _ _ assms(2)])
    (use assms(1) in \<open>auto intro: AddValidator_ok same_rest_trans AddValidator_rest\<close>)

lemma valset_step_ok:
  assumes "valset_step env c t" "zones_ok env c"
  shows "zones_ok env t \<and> same_rest c t"
  using assms
proof cases
  case (delete k a r)
  then obtain r' where "RemoveValidatorFromHostZone k a c = (r', t)"
    by (cases r) (auto simp: DeleteValidator_def go_simps)
  with assms(2) show ?thesis by (blast intro: RemoveValidator_ok RemoveValidator_rest)
next
  case (weight k a w r)
  with assms(2) show ?thesis by (blast intro: ChangeWeight_ok ChangeWeight_rest)
qed (use assms(2) AddValidators_loop in \<open>auto simp: AddValidators_def AddValidatorsProposal_def\<close>)

lemma valset_steps_ok:
  assumes "(valset_step env)\<^sup>*\<^sup>* c t" "zones_ok env c"
  shows "zones_ok env t \<and> same_rest c t"
  using assms
proof induction
  case (step t u)
  then show ?case using valset_step_ok [of env t u] by (blast intro: same_rest_trans)
qed simp

text \<open>However validators are added, proposed, removed and re-weighted, in whatever
  order and also when the transactions fail half-way: no host zone ever has two validators with
  the same address or the same name, none has more validators with a weight than the safety
  parameter allows, and no zone's total delegation, staked balance, redemption rate or accounts
  change.\<close>

theorem validator_sets_stay_valid:
  assumes "zones_ok env c" "(valset_step env)\<^sup>*\<^sup>* c t" "GetHostZone t k = Some z"
  shows "distinct (map val_Address (hz_Validators z)) \<and> distinct (map val_Name (hz_Validators z)) \<and>
    int (length (filter (\<lambda>v. val_Weight v \<noteq> 0) (hz_Validators z))) \<le> sint (prm_SafetyNumValidators (e_params env)) \<and>
    (\<exists>z0. GetHostZone c k = Some z0 \<and> z = z0\<lparr>hz_Validators := hz_Validators z\<rparr> \<and>
      total_delegation (hz_Validators z) = total_delegation (hz_Validators z0))"
proof -
  have ok: "zones_ok env t" "same_rest c t" using valset_steps_ok [OF assms(2,1)] by simp_all
  have w: "val_Weight v \<noteq> 0 \<longleftrightarrow> 0 < val_Weight v" for v by (simp add: word_neq_0_conv)
  have v: "valset_ok env (hz_Validators z)" using ok(1) assms(3) by (simp add: zones_ok_def)
  have "map_option zone_rest (GetHostZone c k) = Some (zone_rest z)"
    using ok(2) assms(3) unfolding same_rest_def by (metis option.map(2))
  then obtain z0 where z0: "GetHostZone c k = Some z0" "zone_rest z0 = zone_rest z" by auto
  then have "z\<lparr>hz_Validators := []\<rparr> = z0\<lparr>hz_Validators := []\<rparr>" by (simp add: zone_rest_def)
  then have "z\<lparr>hz_Validators := []\<rparr>\<lparr>hz_Validators := hz_Validators z\<rparr> =
      z0\<lparr>hz_Validators := []\<rparr>\<lparr>hz_Validators := hz_Validators z\<rparr>" by (rule arg_cong)
  then have "z = z0\<lparr>hz_Validators := hz_Validators z\<rparr>" by simp
  with v z0 show ?thesis by (auto simp: valset_ok_def nonzero_weights_def w zone_rest_def)
qed

definition demo_validator :: "string \<Rightarrow> uint64 \<Rightarrow> int \<Rightarrow> Validator" where
  "demo_validator a w d = \<lparr>val_Name = a, val_Address = a, val_DelegationAmt = d, val_Weight = w,
     val_InternalExchangeRate = None\<rparr>"

definition demo_account :: "address \<Rightarrow> ICAAccountType \<Rightarrow> ICAAccount option" where
  "demo_account a ty = Some \<lparr>ica_Address = a, ica_Target = ty\<rparr>"

definition demo_zone :: "Validator list \<Rightarrow> HostZone" where
  "demo_zone vs = \<lparr>hz_ChainId = ''GAIA'', hz_ConnectionId = ''connection-0'', hz_Bech32Prefix = ''cosmos'',
     hz_TransferChannelId = ''channel-0'', hz_Validators = vs, hz_BlacklistedValidators = [],
     hz_WithdrawalAccount = demo_account ''cosmos1withdrawal'' ICAAccountType_WITHDRAWAL,
     hz_FeeAccount = demo_account ''cosmos1fee'' ICAAccountType_FEE,
     hz_DelegationAccount = demo_account ''cosmos1delegation'' ICAAccountType_DELEGATION,
     hz_RedemptionAccount = demo_account ''cosmos1redemption'' ICAAccountType_REDEMPTION,
     hz_IbcDenom = ''ibc/atom'', hz_HostDenom = ''uatom'', hz_LastRedemptionRate = OneDec,
     hz_RedemptionRate = OneDec, hz_UnbondingFrequency = 4, hz_StakedBal = total_delegation vs,
     hz_Address = ''stride1zzzzzzzzzzzzzzzzzzzz'', hz_Halted = False, hz_MinRedemptionRate = None, hz_MaxRedemptionRate = None\<rparr>"

theorem validator_sets_stay_valid_witness:
  "\<exists>z. GetHostZone (snd (AddValidators demo_env ''GAIA'' [demo_validator ''v2'' 5 0]
        (SetHostZone (demo_zone [demo_validator ''v1'' 10 100]) empty_chain))) ''GAIA'' = Some z \<and>
     map val_Address (hz_Validators z) = [''v1'', ''v2''] \<and> distinct (map val_Name (hz_Validators z)) \<and>
     total_delegation (hz_Validators z) = 100"
proof -
  let ?c = "SetHostZone (demo_zone [demo_validator ''v1'' 10 100]) empty_chain"
  obtain r t where run: "AddValidators demo_env ''GAIA'' [demo_validator ''v2'' 5 0] ?c = (r, t)"
    by (cases "AddValidators demo_env ''GAIA'' [demo_validator ''v2'' 5 0] ?c")
  then have steps: "(valset_step demo_env)\<^sup>*\<^sup>* ?c t" by (blast intro: valset_step.add r_into_rtranclp)
  have t: "GetHostZone t ''GAIA'' = Some (demo_zone [demo_validator ''v1'' 10 100]
      \<lparr>hz_Validators := [demo_validator ''v1'' 10 100, demo_validator ''v2'' 5 0]\<rparr>)"
    using run by (auto simp: AddValidators_def AddValidatorToHostZone_def go_defs demo_zone_def demo_validator_def
        ConfirmValSetHasSpace_def ToIntE_def demo_env_def DefaultParams_def Let_def split: prod.splits)
  have "zones_ok demo_env ?c"
    by (auto simp: zones_ok_def valset_ok_def demo_zone_def demo_validator_def demo_env_def DefaultParams_def
        empty_chain_def GetHostZone_def SetHostZone_def kv_get_def split: if_splits)
  from validator_sets_stay_valid [OF this steps t] t run show ?thesis
    by (simp add: demo_validator_def)
qed

lemma Dec_Quo_percent:
  assumes "0 \<le> x" "x < 2 ^ 64"
  shows "Dec_Quo (NewDec x) (NewDec 100) = Ok (x * 10 ^ 16)"
proof -
  have "x * precisionReuse * (precisionReuse * precisionReuse) =
      (x * 10 ^ 16 * precisionReuse) * (100 * precisionReuse)"
    by (simp add: precisionReuse_def)
  then have "big_quo (NewDec x * (precisionReuse * precisionReuse)) (NewDec 100) = x * 10 ^ 16 * precisionReuse"
    using assms by (simp add: NewDec_def big_quo_pos precisionReuse_def)
  then show ?thesis
    using assms by (simp add: Dec_Quo_Ok fits_dec_def NewDec_def)
qed

text \<open>The redemption rate check: with parameters that pass \<open>Validate\<close> it never
  panics, and it passes exactly when the rate lies between the bounds of the zone, or the default
  bounds (parameters over 100) where the zone has none.\<close>

theorem safety_bounds:
  fixes zone :: HostZone
  assumes "Params_Validate (e_params env) = Ok ()"
    and "prm_DefaultMinRedemptionRateThreshold (e_params env) < 2 ^ 63"
  defines "lo \<equiv> (case hz_MinRedemptionRate zone of Some m \<Rightarrow> if 0 < m then m else
      uint (prm_DefaultMinRedemptionRateThreshold (e_params env)) * 10 ^ 16
    | None \<Rightarrow> uint (prm_DefaultMinRedemptionRateThreshold (e_params env)) * 10 ^ 16)"
    and "hi \<equiv> (case hz_MaxRedemptionRate zone of Some m \<Rightarrow> if 0 < m then m else
      uint (prm_DefaultMaxRedemptionRateThreshold (e_params env)) * 10 ^ 16
    | None \<Rightarrow> uint (prm_DefaultMaxRedemptionRateThreshold (e_params env)) * 10 ^ 16)"
  shows "IsRedemptionRateWithinSafetyBounds env zone =
    (if lo \<le> hz_RedemptionRate zone \<and> hz_RedemptionRate zone \<le> hi then Ok True
     else Err (StakeIBCErr ErrRedemptionRateOutsideSafetyBounds))"
proof -
  let ?l = "prm_DefaultMinRedemptionRateThreshold (e_params env)"
  let ?h = "prm_DefaultMaxRedemptionRateThreshold (e_params env)"
  have "?h \<le> 1000" using assms(1) by (auto simp: Params_Validate_def go_simps validMaxRedemptionRateThreshold_def)
  then have h: "uint ?h \<le> 1000" by (simp add: word_le_def)
  have l: "uint ?l < 2 ^ 63" using assms(2) by (simp add: word_less_def)
  have "sint ?h = uint ?h" "sint ?l = uint ?l"
    using h l by (simp_all add: sint_small)
  moreover have "Dec_Quo (NewDec (uint ?h)) (NewDec 100) = Ok (uint ?h * 10 ^ 16)"
    "Dec_Quo (NewDec (uint ?l)) (NewDec 100) = Ok (uint ?l * 10 ^ 16)"
    by (rule Dec_Quo_percent; use h l in simp)+
  ultimately show ?thesis
    by (auto simp: IsRedemptionRateWithinSafetyBounds_def Let_def lo_def hi_def not_le split: option.splits)
qed

theorem safety_bounds_witness:
  "IsRedemptionRateWithinSafetyBounds demo_env (demo_zone []) = Ok True \<and>
   IsRedemptionRateWithinSafetyBounds demo_env ((demo_zone [])\<lparr>hz_RedemptionRate := 2 * OneDec\<rparr>) =
     Err (StakeIBCErr ErrRedemptionRateOutsideSafetyBounds)"
proof -
  have "Params_Validate (e_params demo_env) = Ok ()"
    "prm_DefaultMinRedemptionRateThreshold (e_params demo_env) < 2 ^ 63"
    by (simp_all add: Params_Validate_def demo_env_def DefaultParams_def isPositive_def isCommission_def
        validTimeoutNanos_def validMinRedemptionRateThreshold_def validMaxRedemptionRateThreshold_def
        validSlashPercent_def)
  from safety_bounds [OF this] show ?thesis
    by (simp add: demo_env_def DefaultParams_def demo_zone_def OneDec_def precisionReuse_def)
qed

end
