(* ===== verification/ValidatorSelection.thy ===== *)
theory ValidatorSelection
  imports HostZones "HOL-Library.Multiset"
begin

text \<open>
  How stake is spread over a host zone's validators: \<open>keeper/validator_selection.go\<close> and the
  redelegation loop of \<open>keeper/msg_server_rebalance_validators.go\<close>.

  A Go map from addresses to amounts is the association list of its entries sorted by key, the
  order \<open>utils.StringMapKeys\<close> walks it in. \<open>GetTargetValAmtsForHostZone\<close> reverses and
  sorts \<open>hostZone.Validators\<close> in place, so it also returns the host zone its caller sees
  afterwards. The total weight is a \<open>uint64\<close> sum and wraps.
\<close>

type_synonym amounts = "(address, int) kvstore"

definition GetTotalValidatorDelegations :: "HostZone \<Rightarrow> int res" where
  "GetTotalValidatorDelegations hostZone =
     res_acc (\<lambda>validator total_delegation. Int_Add total_delegation (val_DelegationAmt validator))
       (hz_Validators hostZone) 0"

definition GetTotalValidatorWeight :: "HostZone \<Rightarrow> uint64" where
  "GetTotalValidatorWeight hostZone =
     foldl (\<lambda>total_weight validator. total_weight + val_Weight validator) 0 (hz_Validators hostZone)"

fun target_amts :: "uint64 \<Rightarrow> int \<Rightarrow> Validator list \<Rightarrow> int \<Rightarrow> amounts \<Rightarrow> amounts res" where
  "target_amts totalWeight finalDelegation [] totalAllocated m = Ok m"
| "target_amts totalWeight finalDelegation [validator] totalAllocated m =
     rbind (Int_Sub finalDelegation totalAllocated) (\<lambda>rest. Ok (kv_set (val_Address validator) rest m))"
| "target_amts totalWeight finalDelegation (validator # v # vs) totalAllocated m =
     rbind (Int_Mul (uint (val_Weight validator)) finalDelegation) (\<lambda>p.
     rbind (Int_Quo p (uint totalWeight)) (\<lambda>delegateAmt.
     rbind (Int_Add totalAllocated delegateAmt) (\<lambda>totalAllocated'.
     target_amts totalWeight finalDelegation (v # vs) totalAllocated'
       (kv_set (val_Address validator) delegateAmt m))))"

definition sort_validators :: "Validator list \<Rightarrow> Validator list" where
  "sort_validators validators = sort_key val_Weight (rev validators)"

definition GetTargetValAmtsForHostZone :: "HostZone \<Rightarrow> int \<Rightarrow> (amounts \<times> HostZone) res" where
  "GetTargetValAmtsForHostZone hostZone finalDelegation =
     (if finalDelegation = 0 then Err (StakeIBCErr ErrNoValidatorWeights)
      else let totalWeight = GetTotalValidatorWeight hostZone in
        if totalWeight = 0 then Err (StakeIBCErr ErrNoValidatorWeights)
        else let validators = sort_validators (hz_Validators hostZone) in
          rbind (target_amts totalWeight finalDelegation validators 0 []) (\<lambda>m.
          Ok (m, hostZone\<lparr>hz_Validators := validators\<rparr>)))"

text \<open>A validator without a target reads a nil \<open>Int\<close>, whose subtraction panics.\<close>

definition GetValidatorDelegationAmtDifferences :: "HostZone \<Rightarrow> (amounts \<times> HostZone) res" where
  "GetValidatorDelegationAmtDifferences hostZone =
     rbind (GetTotalValidatorDelegations hostZone) (\<lambda>totalDelegatedAmt.
     rbind (GetTargetValAmtsForHostZone hostZone totalDelegatedAmt) (\<lambda>(targetDelegation, hostZone').
     rbind (res_acc (\<lambda>validator delegationDelta.
       (case kv_get targetDelegation (val_Address validator) of
          None \<Rightarrow> Panic
        | Some targetDelForVal \<Rightarrow>
            rbind (Int_Sub targetDelForVal (val_DelegationAmt validator)) (\<lambda>delta.
            Ok (kv_set (val_Address validator) delta delegationDelta))))
       (hz_Validators hostZone') []) (\<lambda>delegationDelta.
     Ok (delegationDelta, hostZone'))))"

section \<open>The redelegation loop\<close>

text \<open>\<open>valPair\<close> entries are copied out of the slice, so the updates of \<open>deltaAmt\<close>
  in the loop body change local variables only.\<close>

type_synonym valPair = "int \<times> address"

definition valDeltaList :: "amounts \<Rightarrow> valPair list" where
  "valDeltaList validatorDeltas = sort_key fst (map (\<lambda>(valAddr, deltaAmt). (deltaAmt, valAddr)) validatorDeltas)"

definition slice_at :: "'a list \<Rightarrow> int \<Rightarrow> 'a res" where
  "slice_at xs i = (if 0 \<le> i \<and> i < int (length xs) then Ok (xs ! nat i) else Panic)"

fun rebalance_loop :: "denom \<Rightarrow> valPair list \<Rightarrow> nat \<Rightarrow> int \<Rightarrow> int \<Rightarrow> Rebalancing list \<Rightarrow> Rebalancing list res" where
  "rebalance_loop denom xs 0 underWeightIndex overWeightIndex acc = Ok acc"
| "rebalance_loop denom xs (Suc n) underWeightIndex overWeightIndex acc =
     rbind (slice_at xs underWeightIndex) (\<lambda>underWeightElem.
     rbind (slice_at xs overWeightIndex) (\<lambda>overWeightElem.
     if fst underWeightElem < 0 then Ok acc
     else if 0 < fst overWeightElem then Ok acc
     else let overWeightElemAbs = \<bar>fst overWeightElem\<bar> in
       if overWeightElemAbs < fst underWeightElem then
         rbind (NewCoin denom overWeightElemAbs) (\<lambda>coin.
         rebalance_loop denom xs n underWeightIndex (overWeightIndex + 1)
           (acc @ [\<lparr>rb_SrcValidator = snd overWeightElem, rb_DstValidator = snd underWeightElem, rb_Amt = snd coin\<rparr>]))
       else if fst underWeightElem < overWeightElemAbs then
         rbind (NewCoin denom (fst underWeightElem)) (\<lambda>coin.
         rebalance_loop denom xs n (underWeightIndex - 1) overWeightIndex
           (acc @ [\<lparr>rb_SrcValidator = snd overWeightElem, rb_DstValidator = snd underWeightElem, rb_Amt = snd coin\<rparr>]))
       else
         rbind (NewCoin denom (fst underWeightElem)) (\<lambda>coin.
         rebalance_loop denom xs n (underWeightIndex - 1) (overWeightIndex + 1)
           (acc @ [\<lparr>rb_SrcValidator = snd overWeightElem, rb_DstValidator = snd underWeightElem, rb_Amt = snd coin\<rparr>]))))"

section \<open>Target amounts\<close>

definition total_weight :: "Validator list \<Rightarrow> int" where
  "total_weight vs = sum_list (map (\<lambda>v. uint (val_Weight v)) vs)"

lemma total_weight_simps [simp]:
  "total_weight [] = 0" "total_weight (v # vs) = uint (val_Weight v) + total_weight vs"
  by (simp_all add: total_weight_def)

lemma total_weight_nonneg [simp]: "0 \<le> total_weight vs"
  by (induction vs) auto

lemma foldl_weight: "uint (foldl (\<lambda>t v. t + val_Weight v) w vs) = (uint w + total_weight vs) mod 2 ^ 64"
proof (induction vs arbitrary: w)
  case Nil
  show ?case using unsigned_less [where ?'a = int, of w] by simp
qed (simp add: uint_word_ariths mod_simps ac_simps)

lemma GetTotalValidatorWeight_eq:
  "uint (GetTotalValidatorWeight z) = total_weight (hz_Validators z) mod 2 ^ 64"
  by (simp add: GetTotalValidatorWeight_def foldl_weight)

lemma total_weight_mset: "mset vs = mset ws \<Longrightarrow> total_weight vs = total_weight ws"
  unfolding total_weight_def by (metis mset_map sum_mset_sum_list)

lemma total_delegation_mset: "mset vs = mset ws \<Longrightarrow> total_delegation vs = total_delegation ws"
  unfolding total_delegation_def by (metis mset_map sum_mset_sum_list)

lemma mset_sort_validators [simp]: "mset (sort_validators vs) = mset vs"
  by (simp add: sort_validators_def)

lemma set_sort_validators [simp]: "set (sort_validators vs) = set vs"
  by (simp add: sort_validators_def)

text \<open>The amount a map gives a validator.\<close>

definition amt_of :: "amounts \<Rightarrow> Validator \<Rightarrow> int" where
  "amt_of m v = (case kv_get m (val_Address v) of Some x \<Rightarrow> x | None \<Rightarrow> 0)"

lemma share_step:
  fixes W f w d al k :: int
  assumes "0 < W" "d = w * f div W" "al * W \<le> f * (W - (w + r))" "f * (W - (w + r)) \<le> (al + k) * W"
  shows "(al + d) * W \<le> f * (W - r)" "f * (W - r) \<le> (al + d + (k + 1)) * W"
proof -
  have "d * W \<le> w * f" "w * f \<le> d * W + W"
    using assms(2) div_bounds [OF assms(1), of "w * f"] by simp_all
  then show "(al + d) * W \<le> f * (W - r)" "f * (W - r) \<le> (al + d + (k + 1)) * W"
    using assms(3,4) by (simp_all add: algebra_simps)
qed

lemma target_amts_spec:
  assumes "vs \<noteq> []" "distinct (map val_Address vs)" "0 \<le> f" "f < 2 ^ 192" "0 < uint tw" "0 \<le> al"
    and "al * uint tw \<le> f * (uint tw - total_weight vs)"
    and "f * (uint tw - total_weight vs) \<le> (al + k) * uint tw"
  shows "\<exists>m'. target_amts tw f vs al m = Ok m' \<and>
    (\<forall>a. a \<notin> val_Address ` set vs \<longrightarrow> kv_get m' a = kv_get m a) \<and>
    (\<forall>v\<in>set (butlast vs). kv_get m' (val_Address v) = Some (uint (val_Weight v) * f div uint tw)) \<and>
    (\<forall>x. kv_get m' (val_Address (last vs)) = Some x \<longrightarrow>
       uint (val_Weight (last vs)) * f div uint tw \<le> x \<and>
       x \<le> uint (val_Weight (last vs)) * f div uint tw + k + int (length vs) - 1) \<and>
    kv_get m' (val_Address (last vs)) \<noteq> None \<and> sum_list (map (amt_of m') vs) = f - al"
  using assms
proof (induction tw f vs al m arbitrary: k rule: target_amts.induct)
  case (2 tw f v al m)
  let ?W = "uint tw" and ?w = "uint (val_Weight v)"
  have "(f - al - k) * ?W \<le> ?w * f" "?w * f \<le> (f - al) * ?W"
    using 2(7,8) by (simp_all add: algebra_simps)
  then have "f - al - k \<le> ?w * f div ?W" "?w * f div ?W \<le> f - al"
    using 2(5) le_div_iff [of ?W "f - al - k" "?w * f"] zdiv_mono1 [of "?w * f" "(f - al) * ?W" ?W]
    by simp_all
  moreover have "al \<le> f"
  proof -
    have "f * (?W - ?w) \<le> f * ?W" using 2(3) by (intro mult_left_mono) auto
    with 2(7) have "al * ?W \<le> f * ?W" by simp
    with 2(5) show ?thesis by simp
  qed
  then have "fits (f - al)" using 2(4,6) by (simp add: fits_def)
  ultimately show ?case by (simp add: Int_Sub_eq amt_of_def)
next
  case (3 tw f v v' vs al m)
  let ?W = "uint tw" and ?w = "uint (val_Weight v)"
  define d where "d = ?w * f div ?W"
  have w: "0 \<le> ?w" "?w < 2 ^ 64" using unsigned_less [where ?'a = int, of "val_Weight v"] by auto
  have d0: "0 \<le> d" using 3(4,6) w by (simp add: d_def pos_imp_zdiv_nonneg_iff)
  note st = share_step [OF 3(6) d_def, of al "total_weight (v' # vs)" k]
  have inv: "(al + d) * ?W \<le> f * (?W - total_weight (v' # vs))"
    "f * (?W - total_weight (v' # vs)) \<le> (al + d + (k + 1)) * ?W"
    by (rule st; use 3(8,9) in simp)+
  have "f * (?W - total_weight (v' # vs)) \<le> f * ?W"
    using 3(4) total_weight_nonneg [of "v' # vs"] by (intro mult_left_mono) linarith+
  with inv(1) have "(al + d) * ?W \<le> f * ?W" by linarith
  with 3(6) have "al + d \<le> f" by simp
  then have fa: "fits (al + d)" using 3(5,7) d0 by (simp add: fits_def)
  have "?w * f \<le> 2 ^ 64 * f" using w 3(4) by (intro mult_right_mono) auto
  also have "\<dots> < 2 ^ 256" using 3(5) by simp
  finally have "Int_Mul ?w f = Ok (?w * f)"
    using w 3(4,5) by (intro Int_Mul_fits) (auto simp: fits_def)
  then have run: "target_amts tw f (v # v' # vs) al m =
      target_amts tw f (v' # vs) (al + d) (kv_set (val_Address v) d m)"
    using 3(4,6) w fa by (simp add: Int_Quo_def Int_Add_eq big_quo_pos d_def)
  have IH: "\<exists>m'. target_amts tw f (v' # vs) (al + d) (kv_set (val_Address v) d m) = Ok m' \<and>
    (\<forall>a. a \<notin> val_Address ` set (v' # vs) \<longrightarrow> kv_get m' a = kv_get (kv_set (val_Address v) d m) a) \<and>
    (\<forall>v\<in>set (butlast (v' # vs)). kv_get m' (val_Address v) = Some (uint (val_Weight v) * f div ?W)) \<and>
    (\<forall>x. kv_get m' (val_Address (last (v' # vs))) = Some x \<longrightarrow>
       uint (val_Weight (last (v' # vs))) * f div ?W \<le> x \<and>
       x \<le> uint (val_Weight (last (v' # vs))) * f div ?W + (k + 1) + int (length (v' # vs)) - 1) \<and>
    kv_get m' (val_Address (last (v' # vs))) \<noteq> None \<and>
    sum_list (map (amt_of m') (v' # vs)) = f - (al + d)"
    by (rule 3(1)) (use 3 inv d0 in \<open>auto simp: d_def Int_Mul_fits\<close>)
  then obtain m' where m': "target_amts tw f (v' # vs) (al + d) (kv_set (val_Address v) d m) = Ok m'"
    and out: "\<forall>a. a \<notin> val_Address ` set (v' # vs) \<longrightarrow> kv_get m' a = kv_get (kv_set (val_Address v) d m) a"
    and rest: "\<forall>v\<in>set (butlast (v' # vs)). kv_get m' (val_Address v) = Some (uint (val_Weight v) * f div ?W)"
      "\<forall>x. kv_get m' (val_Address (last (v' # vs))) = Some x \<longrightarrow>
       uint (val_Weight (last (v' # vs))) * f div ?W \<le> x \<and>
       x \<le> uint (val_Weight (last (v' # vs))) * f div ?W + (k + 1) + int (length (v' # vs)) - 1"
      "kv_get m' (val_Address (last (v' # vs))) \<noteq> None"
      "sum_list (map (amt_of m') (v' # vs)) = f - (al + d)"
    by blast
  have head: "kv_get m' (val_Address v) = Some d" using out 3(3) by auto
  have amt: "amt_of m' v = d" using head by (simp add: amt_of_def)
  show ?case unfolding run
  proof (intro exI conjI)
    show "target_amts tw f (v' # vs) (al + d) (kv_set (val_Address v) d m) = Ok m'" by (rule m')
    show "\<forall>a. a \<notin> val_Address ` set (v # v' # vs) \<longrightarrow> kv_get m' a = kv_get m a" using out by auto
    show "\<forall>u\<in>set (butlast (v # v' # vs)). kv_get m' (val_Address u) = Some (uint (val_Weight u) * f div ?W)"
      using rest(1) head by (auto simp: d_def)
    show "sum_list (map (amt_of m') (v # v' # vs)) = f - al" using rest(4) amt by simp
  qed (use rest(2,3) in auto)
qed simp

lemma total_weight_zero: "total_weight vs = 0 \<longleftrightarrow> (\<forall>v\<in>set vs. val_Weight v = 0)"
  by (induction vs) (auto simp: add_nonneg_eq_0_iff uint_0_iff)

lemma last_sort_weight:
  assumes "0 < total_weight vs"
  shows "sort_validators vs \<noteq> []" "val_Weight (last (sort_validators vs)) \<noteq> 0"
    "last (sort_validators vs) \<in> set vs" "\<And>v. v \<in> set vs \<Longrightarrow> val_Weight v \<le> val_Weight (last (sort_validators vs))"
proof -
  let ?s = "sort_validators vs"
  from assms obtain v where v: "v \<in> set vs" "val_Weight v \<noteq> 0"
    using total_weight_zero [of vs] by fastforce
  then show ne: "?s \<noteq> []" by (metis set_sort_validators empty_iff list.set(1))
  have "sorted (map val_Weight ?s)" by (simp add: sort_validators_def)
  then have "sorted (map val_Weight (butlast ?s @ [last ?s]))" using ne by simp
  then have "\<forall>w\<in>set (butlast ?s). val_Weight w \<le> val_Weight (last ?s)"
    by (simp add: sorted_append)
  moreover have "set ?s = insert (last ?s) (set (butlast ?s))"
    using ne by (metis append_butlast_last_id list.simps(15) rotate1.simps(2) set_rotate1)
  ultimately show heaviest: "val_Weight v \<le> val_Weight (last ?s)" if "v \<in> set vs" for v
    using that by (metis insert_iff order_refl set_sort_validators)
  show "last ?s \<in> set vs" using last_in_set [OF ne] by simp
  from heaviest [OF v(1)] v(2) show "val_Weight (last ?s) \<noteq> 0" by (metis word_le_0_iff)
qed

lemma GetTarget_spec:
  assumes "distinct (map val_Address (hz_Validators z))" "0 < f" "f < 2 ^ 192"
    and "0 < total_weight (hz_Validators z)" "total_weight (hz_Validators z) < 2 ^ 64"
  defines "vs \<equiv> hz_Validators z" and "W \<equiv> total_weight (hz_Validators z)"
  shows "\<exists>m. GetTargetValAmtsForHostZone z f = Ok (m, z\<lparr>hz_Validators := sort_validators vs\<rparr>) \<and>
    (\<forall>v\<in>set vs. \<exists>x. kv_get m (val_Address v) = Some x \<and> uint (val_Weight v) * f div W \<le> x \<and>
      x \<le> uint (val_Weight v) * f div W + int (length vs) - 1 \<and> (val_Weight v = 0 \<longrightarrow> x = 0)) \<and>
    (\<forall>v\<in>set vs. v \<noteq> last (sort_validators vs) \<longrightarrow> amt_of m v = uint (val_Weight v) * f div W) \<and>
    sum_list (map (amt_of m) vs) = f"
proof -
  let ?s = "sort_validators vs"
  note ne = last_sort_weight [OF assms(4)]
  have W: "uint (GetTotalValidatorWeight z) = W"
    using assms(4,5) by (simp add: GetTotalValidatorWeight_eq W_def)
  have tws: "total_weight ?s = W" unfolding W_def vs_def by (rule total_weight_mset) simp
  have "distinct (map val_Address ?s)"
    using assms(1) unfolding vs_def by (metis mset_sort_validators mset_map mset_eq_imp_distinct_iff)
  then obtain m where m: "target_amts (GetTotalValidatorWeight z) f ?s 0 [] = Ok m"
    and front: "\<forall>v\<in>set (butlast ?s). kv_get m (val_Address v) = Some (uint (val_Weight v) * f div W)"
    and lst: "\<forall>x. kv_get m (val_Address (last ?s)) = Some x \<longrightarrow>
       uint (val_Weight (last ?s)) * f div W \<le> x \<and> x \<le> uint (val_Weight (last ?s)) * f div W + int (length ?s) - 1"
       "kv_get m (val_Address (last ?s)) \<noteq> None"
    and sm: "sum_list (map (amt_of m) ?s) = f"
    using target_amts_spec [of ?s f "GetTotalValidatorWeight z" 0 0 "[]"] ne(1) assms(2-4) W tws
    by (auto simp: vs_def W_def)
  have len: "length ?s = length vs" by (metis mset_sort_validators mset_eq_length)
  have "length vs \<noteq> 0" using ne(1) len by (metis length_0_conv vs_def)
  then have l1: "1 \<le> int (length vs)" by (simp add: Suc_le_eq)
  have share0: "uint (val_Weight v) * f div W = 0" if "val_Weight v = 0" for v using that by simp
  have "\<exists>x. kv_get m (val_Address v) = Some x \<and> uint (val_Weight v) * f div W \<le> x \<and>
      x \<le> uint (val_Weight v) * f div W + int (length vs) - 1 \<and> (val_Weight v = 0 \<longrightarrow> x = 0)"
    if "v \<in> set vs" for v
  proof (cases "v = last ?s")
    case True
    with ne lst len show ?thesis by (auto simp: vs_def)
  next
    case False
    have "v \<in> set ?s" using that by simp
    then have "v \<in> set (butlast ?s @ [last ?s])" using ne(1) by (simp add: vs_def)
    with False have "v \<in> set (butlast ?s)" by auto
    with front l1 share0 show ?thesis by auto
  qed
  moreover have "amt_of m v = uint (val_Weight v) * f div W" if "v \<in> set vs" "v \<noteq> last ?s" for v
  proof -
    have "v \<in> set (butlast ?s @ [last ?s])" using that(1) ne(1) by (simp add: vs_def)
    with that(2) have "v \<in> set (butlast ?s)" by auto
    with front show ?thesis by (simp add: amt_of_def)
  qed
  moreover have "sum_list (map (amt_of m) vs) = f"
    using sm by (metis mset_sort_validators mset_map sum_mset_sum_list)
  moreover have "GetTotalValidatorWeight z \<noteq> 0" using W assms(4) by (auto simp: W_def)
  ultimately show ?thesis
    using m assms(2) by (auto simp: GetTargetValAmtsForHostZone_def Let_def simp flip: vs_def)
qed

text \<open>Property C11. Splitting an amount over the validators: nothing is lost or created (the
  targets add up to the amount), every validator but one gets exactly its share by weight, rounded
  down, and that one has the largest weight of all and gets the rest, which exceeds its
  own share by less than one unit per validator. Validators without weight get nothing, and the
  validators are only reordered. This needs distinct addresses and weights whose sum fits into 64
  bits.\<close>

theorem targets_split_exactly:
  assumes "distinct (map val_Address (hz_Validators z))" "0 < f" "f < 2 ^ 192"
    and "0 < total_weight (hz_Validators z)" "total_weight (hz_Validators z) < 2 ^ 64"
  defines "share \<equiv> \<lambda>v. uint (val_Weight v) * f div total_weight (hz_Validators z)"
  shows "\<exists>m z' w. GetTargetValAmtsForHostZone z f = Ok (m, z') \<and>
    sum_list (map (amt_of m) (hz_Validators z)) = f \<and>
    w \<in> set (hz_Validators z) \<and> (\<forall>v\<in>set (hz_Validators z). val_Weight v \<le> val_Weight w) \<and>
    (\<forall>v\<in>set (hz_Validators z). v \<noteq> w \<longrightarrow> amt_of m v = share v) \<and>
    share w \<le> amt_of m w \<and> amt_of m w < share w + int (length (hz_Validators z)) \<and>
    (\<forall>v\<in>set (hz_Validators z). val_Weight v = 0 \<longrightarrow> amt_of m v = 0) \<and>
    z' = z\<lparr>hz_Validators := hz_Validators z'\<rparr> \<and> mset (hz_Validators z') = mset (hz_Validators z)"
proof -
  let ?w = "last (sort_validators (hz_Validators z))"
  note w = last_sort_weight [OF assms(4)]
  obtain m where m: "GetTargetValAmtsForHostZone z f = Ok (m, z\<lparr>hz_Validators := sort_validators (hz_Validators z)\<rparr>)"
    "\<forall>v\<in>set (hz_Validators z). \<exists>x. kv_get m (val_Address v) = Some x \<and>
       uint (val_Weight v) * f div total_weight (hz_Validators z) \<le> x \<and>
       x \<le> uint (val_Weight v) * f div total_weight (hz_Validators z) + int (length (hz_Validators z)) - 1 \<and>
       (val_Weight v = 0 \<longrightarrow> x = 0)"
    "\<forall>v\<in>set (hz_Validators z). v \<noteq> ?w \<longrightarrow> amt_of m v = share v"
    "sum_list (map (amt_of m) (hz_Validators z)) = f"
    using GetTarget_spec [OF assms(1-5)] unfolding share_def by blast
  have "share ?w \<le> amt_of m ?w \<and> amt_of m ?w < share ?w + int (length (hz_Validators z))"
    using m(2) w(3) unfolding amt_of_def share_def by force
  moreover have "amt_of m v = 0" if "v \<in> set (hz_Validators z)" "val_Weight v = 0" for v
    using m(2) that unfolding amt_of_def by force
  ultimately show ?thesis
    using m(1,3,4) w(3,4) by (intro exI [of _ m] exI [of _ "z\<lparr>hz_Validators := sort_validators (hz_Validators z)\<rparr>"] exI [of _ ?w]) simp
qed

theorem targets_split_exactly_witness:
  "\<exists>m z'. GetTargetValAmtsForHostZone (demo_zone [demo_validator ''v1'' 2 0, demo_validator ''v2'' 1 0]) 100 = Ok (m, z') \<and>
     amt_of m (demo_validator ''v1'' 2 0) = 67 \<and> amt_of m (demo_validator ''v2'' 1 0) = 33"
proof -
  obtain m z' w where m: "GetTargetValAmtsForHostZone (demo_zone [demo_validator ''v1'' 2 0, demo_validator ''v2'' 1 0]) 100 = Ok (m, z')"
    "amt_of m (demo_validator ''v1'' 2 0) + amt_of m (demo_validator ''v2'' 1 0) = 100"
    "w = demo_validator ''v1'' 2 0 \<or> w = demo_validator ''v2'' 1 0" "2 \<le> val_Weight w" 
    "demo_validator ''v2'' 1 0 \<noteq> w \<Longrightarrow> amt_of m (demo_validator ''v2'' 1 0) = 33"
    using targets_split_exactly [of "demo_zone [demo_validator ''v1'' 2 0, demo_validator ''v2'' 1 0]" 100]
    by (auto simp: demo_zone_def demo_validator_def)
  have "\<not> (2::uint64) \<le> 1" by code_simp
  with m(4) have "demo_validator ''v2'' 1 0 \<noteq> w" by (auto simp: demo_validator_def)
  with m(1,2,5) show ?thesis by auto
qed

section \<open>Weights given by governance\<close>

text \<open>A validator added through governance gets the smallest weight of the set. On a
  zone without weighted validators that is \<open>MaxUint64\<close>: three validators proposed on a new
  zone have weights whose sum wraps around, and splitting 100 tokens over them gives the first two
  100 each and the last one -100.\<close>

theorem governance_weights_wrap:
  "\<exists>t z. AddValidatorsProposal demo_env ''GAIA''
      [demo_validator ''v1'' 1 0, demo_validator ''v2'' 1 0, demo_validator ''v3'' 1 0]
      (SetHostZone (demo_zone []) empty_chain) = (Ok (), t) \<and>
    GetHostZone t ''GAIA'' = Some z \<and> map val_Weight (hz_Validators z) = [- 1, - 1, - 1] \<and>
    (\<exists>m z'. GetTargetValAmtsForHostZone z 100 = Ok (m, z') \<and>
      map (amt_of m) (hz_Validators z') = [100, 100, - 100])"
proof -
  let ?vs = "[demo_validator ''v1'' (- 1) 0, demo_validator ''v2'' (- 1) 0, demo_validator ''v3'' (- 1) 0]"
  have "\<exists>t. AddValidatorsProposal demo_env ''GAIA''
      [demo_validator ''v1'' 1 0, demo_validator ''v2'' 1 0, demo_validator ''v3'' 1 0]
      (SetHostZone (demo_zone []) empty_chain) = (Ok (), t) \<and>
      GetHostZone t ''GAIA'' = Some (demo_zone []\<lparr>hz_Validators := ?vs\<rparr>)"
    by (simp add: AddValidatorsProposal_def AddValidatorToHostZone_def go_defs demo_zone_def demo_validator_def
        ConfirmValSetHasSpace_def ToIntE_def demo_env_def DefaultParams_def Let_def)
  moreover have "Int_Mul (uint (- 1 :: uint64)) 100 = Ok 1844674407370955161500"
    by (subst Int_Mul_fits) (simp_all add: fits_def unsigned_minus_1_eq_mask mask_eq_exp_minus_1)
  then have "GetTargetValAmtsForHostZone (demo_zone []\<lparr>hz_Validators := ?vs\<rparr>) 100 =
      Ok ([(''v1'', - 100), (''v2'', 100), (''v3'', 100)], demo_zone []\<lparr>hz_Validators := rev ?vs\<rparr>)"
    by (simp add: GetTargetValAmtsForHostZone_def GetTotalValidatorWeight_def sort_validators_def
        demo_validator_def fits_def Int_Quo_def Int_Add_eq Int_Sub_eq big_quo_def)
  ultimately show ?thesis by (auto simp: demo_validator_def amt_of_def kv_get_def)
qed

end
