(* ===== verification/Ica.thy ===== *)
theory Ica
  imports ValidatorSelection
begin

text \<open>
  Talking to the host chain: \<open>keeper/msg_server_submit_tx.go\<close>, the IBC lookups of
  \<open>keeper/keeper.go\<close>, and \<open>MakeRequest\<close> with the query store of
  \<open>x/interchainquery\<close> (\<open>keeper/keeper.go\<close>, \<open>keeper/queries.go\<close>).

  A transaction the ICA controller accepts is appended to \<open>c_outbox\<close>; the sequence number it
  gets is the controller's answer. A nil callback is \<open>None\<close>. Addresses are decoded by the
  parameter \<open>e_DecodeBech32\<close>, queries are named by the parameter hash.
\<close>

section \<open>IBC lookups\<close>

definition client_chain_id :: "env \<Rightarrow> string \<Rightarrow> string res" where
  "client_chain_id env clientId =
     (case e_GetClientState env clientId of
        None \<Rightarrow> Err Plain
      | Some (TendermintClient chainId _) \<Rightarrow> Ok chainId
      | Some (OtherClient _) \<Rightarrow> Err Plain)"

definition GetChainID :: "env \<Rightarrow> string \<Rightarrow> string res" where
  "GetChainID env connectionID =
     (case e_GetConnection env connectionID of
        None \<Rightarrow> Err Plain
      | Some conn \<Rightarrow> client_chain_id env (conn_ClientId conn))"

definition GetCounterpartyChainId :: "env \<Rightarrow> string \<Rightarrow> string res" where
  "GetCounterpartyChainId env connectionID =
     (case e_GetConnection env connectionID of
        None \<Rightarrow> Err Plain
      | Some conn \<Rightarrow> client_chain_id env (conn_CounterpartyClientId conn))"

definition GetConnectionId :: "env \<Rightarrow> string \<Rightarrow> string res" where
  "GetConnectionId env portId =
     (case List.find (\<lambda>ica. fst ica = portId) (e_GetAllInterchainAccounts env) of
        Some ica \<Rightarrow> Ok (snd ica)
      | None \<Rightarrow> Err Plain)"

definition GetLightClientHeightSafely :: "env \<Rightarrow> string \<Rightarrow> uint64 res" where
  "GetLightClientHeightSafely env connectionID =
     (case e_GetConnection env connectionID of
        None \<Rightarrow> Err Plain
      | Some conn \<Rightarrow>
          (case e_GetClientState env (conn_ClientId conn) of
             None \<Rightarrow> Err Plain
           | Some clientState \<Rightarrow> Ok (client_height clientState)))"

definition GetLightClientTimeSafely :: "env \<Rightarrow> string \<Rightarrow> uint64 res" where
  "GetLightClientTimeSafely env connectionID =
     (case e_GetConnection env connectionID of
        None \<Rightarrow> Err Plain
      | Some conn \<Rightarrow>
          (case e_GetLatestConsensusTime env (conn_ClientId conn) of
             None \<Rightarrow> Err Plain
           | Some latestTime \<Rightarrow> Ok latestTime))"

definition NewControllerPortID :: "string \<Rightarrow> string res" where
  "NewControllerPortID owner =
     (if list_all is_space owner then Err Plain else Ok (''icacontroller-'' @ owner))"

text \<open>An account owner contains a dot, so its port id always exists.\<close>

lemma NewControllerPortID_owner [simp]:
  "NewControllerPortID (FormatICAAccountOwner chainId ty) = Ok (''icacontroller-'' @ FormatICAAccountOwner chainId ty)"
  by (simp add: NewControllerPortID_def FormatICAAccountOwner_def is_space_def)

section \<open>Submitting transactions\<close>

definition SubmitTxs ::
  "env \<Rightarrow> string \<Rightarrow> ica_msg list \<Rightarrow> ICAAccount \<Rightarrow> uint64 \<Rightarrow> string \<Rightarrow> CallbackArgs option \<Rightarrow> (chain, uint64) go" where
  "SubmitTxs env connectionId msgs account timeoutTimestamp callbackId callbackArgs =
     go_bind (go_lift (GetChainID env connectionId)) (\<lambda>chainId.
     let owner = FormatICAAccountOwner chainId (ica_Target account) in
     go_bind (go_lift (NewControllerPortID owner)) (\<lambda>portID.
     go_bind (go_found (e_GetActiveChannelID env connectionId portID) Plain) (\<lambda>channelID.
     go_bind (go_lift (e_SerializeCosmosTx env msgs)) (\<lambda>_.
     let msg = \<lparr>tx_Owner = owner, tx_ConnectionId = connectionId, tx_RelativeTimeout = timeoutTimestamp,
                tx_Msgs = msgs\<rparr> in
     go_bind (\<lambda>c. (e_SendTx env (c_outbox c) msg, c)) (\<lambda>sequence.
     go_bind (go_modify (\<lambda>c. c\<lparr>c_outbox := c_outbox c @ [msg]\<rparr>)) (\<lambda>_.
     go_bind (case callbackArgs of
         Some args \<Rightarrow>
           if callbackId \<noteq> '''' then
             go_modify (SetCallbackData \<lparr>cb_CallbackKey = PacketID portID channelID sequence,
               cb_PortId = portID, cb_ChannelId = channelID, cb_Sequence = sequence,
               cb_CallbackId = callbackId, cb_CallbackArgs = args\<rparr>)
           else go_ret ()
       | None \<Rightarrow> go_ret ()) (\<lambda>_.
     go_ret sequence)))))))"

definition SubmitTxsEpoch ::
  "env \<Rightarrow> string \<Rightarrow> ica_msg list \<Rightarrow> ICAAccount \<Rightarrow> string \<Rightarrow> string \<Rightarrow> CallbackArgs option \<Rightarrow> (chain, uint64) go" where
  "SubmitTxsEpoch env connectionId msgs account epochType callbackId callbackArgs =
     go_bind (go_wrap (Sdk ErrInvalidRequest) (\<lambda>c. (GetICATimeoutNanos env c epochType, c))) (\<lambda>timeoutNanosUint64.
     SubmitTxs env connectionId msgs account timeoutNanosUint64 callbackId callbackArgs)"

definition SubmitTxsDayEpoch ::
  "env \<Rightarrow> string \<Rightarrow> ica_msg list \<Rightarrow> ICAAccount \<Rightarrow> string \<Rightarrow> CallbackArgs option \<Rightarrow> (chain, uint64) go" where
  "SubmitTxsDayEpoch env connectionId msgs account callbackId callbackArgs =
     SubmitTxsEpoch env connectionId msgs account DAY_EPOCH callbackId callbackArgs"

definition SubmitTxsStrideEpoch ::
  "env \<Rightarrow> string \<Rightarrow> ica_msg list \<Rightarrow> ICAAccount \<Rightarrow> string \<Rightarrow> CallbackArgs option \<Rightarrow> (chain, uint64) go" where
  "SubmitTxsStrideEpoch env connectionId msgs account callbackId callbackArgs =
     SubmitTxsEpoch env connectionId msgs account STRIDE_EPOCH callbackId callbackArgs"

text \<open>An account that is nil or has no address yet.\<close>

definition registered :: "ICAAccount option \<Rightarrow> ICAAccount option" where
  "registered a = (case a of Some acc \<Rightarrow> if ica_Address acc = '''' then None else Some acc | None \<Rightarrow> None)"

text \<open>The connection of a zone's delegation account.\<close>

definition delegation_connection :: "env \<Rightarrow> HostZone \<Rightarrow> string res" where
  "delegation_connection env hostZone =
     (case NewControllerPortID (FormatICAAccountOwner (hz_ChainId hostZone) ICAAccountType_DELEGATION) of
        Ok portID \<Rightarrow>
          (case GetConnectionId env portID of
             Ok connectionId \<Rightarrow> Ok connectionId
           | _ \<Rightarrow> Err (Sdk ErrInvalidChainID))
      | _ \<Rightarrow> Err (Sdk ErrInvalidAddress))"

section \<open>Delegating\<close>

text \<open>A missing target is a nil \<open>Int\<close>, which \<open>sdk.NewCoin\<close> refuses with a panic, as it
  refuses a negative amount.\<close>

definition delegation_coin :: "denom \<Rightarrow> amounts \<Rightarrow> Validator \<Rightarrow> (denom \<times> int) res" where
  "delegation_coin d targetDelegatedAmts validator =
     (case kv_get targetDelegatedAmts (val_Address validator) of
        None \<Rightarrow> Panic
      | Some x \<Rightarrow> NewCoin d x)"

fun delegation_msgs ::
  "address \<Rightarrow> denom \<Rightarrow> amounts \<Rightarrow> Validator list \<Rightarrow> (ica_msg list \<times> SplitDelegation list) res" where
  "delegation_msgs delegator d targets [] = Ok ([], [])"
| "delegation_msgs delegator d targets (validator # vs) =
     rbind (delegation_coin d targets validator) (\<lambda>relativeAmount.
     rbind (delegation_msgs delegator d targets vs) (\<lambda>(msgs, splitDelegations).
     Ok ((if 0 < snd relativeAmount
          then MsgDelegate delegator (val_Address validator) relativeAmount # msgs else msgs),
         \<lparr>sd_Validator = val_Address validator, sd_Amount = snd relativeAmount\<rparr> # splitDelegations)))"

definition DelegateOnHost :: "env \<Rightarrow> HostZone \<Rightarrow> denom \<times> int \<Rightarrow> DepositRecord \<Rightarrow> (chain, unit) go" where
  "DelegateOnHost env hostZone amt depositRecord =
     go_bind (go_lift (delegation_connection env hostZone)) (\<lambda>connectionId.
     go_bind (go_found (registered (hz_DelegationAccount hostZone)) (Sdk ErrInvalidAddress)) (\<lambda>delegationAccount.
     go_bind (go_lift (GetTargetValAmtsForHostZone hostZone (snd amt))) (\<lambda>(targetDelegatedAmts, hostZone').
     go_bind (go_lift (delegation_msgs (ica_Address delegationAccount) (fst amt) targetDelegatedAmts
       (hz_Validators hostZone'))) (\<lambda>(msgs, splitDelegations).
     go_bind (SubmitTxsStrideEpoch env connectionId msgs delegationAccount ''delegate''
       (Some (DelegateArgs \<lparr>dcb_HostZoneId = hz_ChainId hostZone, dcb_DepositRecordId = dr_Id depositRecord,
         dcb_SplitDelegations = splitDelegations\<rparr>))) (\<lambda>_.
     go_modify (mod_records (SetDepositRecord (depositRecord\<lparr>dr_Status := DELEGATION_IN_PROGRESS\<rparr>))))))))"

definition SetWithdrawalAddressOnHost :: "env \<Rightarrow> HostZone \<Rightarrow> (chain, unit) go" where
  "SetWithdrawalAddressOnHost env hostZone =
     go_bind (go_lift (delegation_connection env hostZone)) (\<lambda>connectionId.
     case registered (hz_DelegationAccount hostZone) of
       None \<Rightarrow> go_ret ()
     | Some delegationAccount \<Rightarrow>
         (case registered (hz_WithdrawalAccount hostZone) of
            None \<Rightarrow> go_ret ()
          | Some withdrawalAccount \<Rightarrow>
              go_bind (go_wrap (Sdk ErrInvalidRequest) (SubmitTxsStrideEpoch env connectionId
                [MsgSetWithdrawAddress (ica_Address delegationAccount) (ica_Address withdrawalAccount)]
                delegationAccount '''' None)) (\<lambda>_.
              go_ret ())))"

section \<open>Interchain queries\<close>

definition GenerateQueryHash :: "env \<Rightarrow> string \<Rightarrow> string \<Rightarrow> string \<Rightarrow> string \<Rightarrow> string \<Rightarrow> string \<Rightarrow> string" where
  "GenerateQueryHash env connectionId chainId queryType request moduleName callbackId =
     e_Sha256Hex env ((moduleName @ connectionId @ chainId @ queryType @ callbackId) @ request)"

definition NewQuery ::
  "env \<Rightarrow> string \<Rightarrow> string \<Rightarrow> string \<Rightarrow> string \<Rightarrow> string \<Rightarrow> string \<Rightarrow> uint64 \<Rightarrow> Query" where
  "NewQuery env moduleName callbackId chainId connectionId queryType request ttl =
     \<lparr>q_Id = GenerateQueryHash env connectionId chainId queryType request moduleName callbackId,
      q_ConnectionId = connectionId, q_ChainId = chainId, q_QueryType = queryType, q_Request = request,
      q_CallbackId = callbackId, q_Ttl = ttl, q_RequestSent = False\<rparr>"

definition GetQuery :: "chain \<Rightarrow> string \<Rightarrow> Query option" where
  "GetQuery c i = kv_get (c_queries c) i"

definition SetQuery :: "Query \<Rightarrow> chain \<Rightarrow> chain" where
  "SetQuery query c = c\<lparr>c_queries := kv_set (q_Id query) query (c_queries c)\<rparr>"

definition DeleteQuery :: "string \<Rightarrow> chain \<Rightarrow> chain" where
  "DeleteQuery i c = c\<lparr>c_queries := kv_delete i (c_queries c)\<rparr>"

definition AllQueries :: "chain \<Rightarrow> Query list" where
  "AllQueries c = kv_values (c_queries c)"

text \<open>The only module that registers query callbacks is stakeibc (\<open>app.go\<close> and
  \<open>RegisterICQCallbacks\<close>).\<close>

definition HasICQCallback :: "string \<Rightarrow> bool" where
  "HasICQCallback i \<longleftrightarrow> i \<in> set [''withdrawalbalance'', ''feebalance'', ''delegation'', ''validator'']"

definition MakeRequest ::
  "env \<Rightarrow> string \<Rightarrow> string \<Rightarrow> string \<Rightarrow> string \<Rightarrow> string \<Rightarrow> string \<Rightarrow> uint64 \<Rightarrow> (chain, unit) go" where
  "MakeRequest env moduleName callbackId chainId connectionId queryType request ttl =
     (if connectionId = '''' then go_fail (Sdk ErrInvalidRequest)
      else if take 10 connectionId \<noteq> ''connection'' then go_fail (Sdk ErrInvalidRequest)
      else if chainId = '''' then go_fail (Sdk ErrInvalidRequest)
      else if moduleName \<noteq> '''' \<and> moduleName \<noteq> ''stakeibc'' then go_fail (Sdk ErrInvalidRequest)
      else if moduleName \<noteq> '''' \<and> \<not> HasICQCallback callbackId then go_fail (Sdk ErrInvalidRequest)
      else go_modify (SetQuery (NewQuery env moduleName callbackId chainId connectionId queryType request ttl)))"

definition MustLengthPrefix :: "address \<Rightarrow> string res" where
  "MustLengthPrefix bz =
     (if bz = [] then Ok bz
      else if 255 < length bz then Panic
      else Ok (char_of (length bz) # bz))"

definition decode_address :: "env \<Rightarrow> string \<Rightarrow> address res" where
  "decode_address env a =
     (case e_DecodeBech32 env a of None \<Rightarrow> Err (Sdk ErrInvalidRequest) | Some (_, bz) \<Rightarrow> Ok bz)"

definition UpdateWithdrawalBalance :: "env \<Rightarrow> HostZone \<Rightarrow> (chain, unit) go" where
  "UpdateWithdrawalBalance env hostZone =
     go_bind (go_found (registered (hz_WithdrawalAccount hostZone)) (StakeIBCErr ErrICAAccountNotFound)) (\<lambda>withdrawalAccount.
     go_bind (go_lift (decode_address env (ica_Address withdrawalAccount))) (\<lambda>withdrawalAddressBz.
     go_bind (go_lift (MustLengthPrefix withdrawalAddressBz)) (\<lambda>p.
     let queryData = (char_of (2::nat) # p) @ hz_HostDenom hostZone in
     go_bind (go_wrap (Sdk ErrInvalidRequest) (\<lambda>c. (GetICATimeoutNanos env c STRIDE_EPOCH, c))) (\<lambda>ttl.
     MakeRequest env ''stakeibc'' ''withdrawalbalance'' (hz_ChainId hostZone) (hz_ConnectionId hostZone)
       ''store/bank/key'' queryData ttl))))"

text \<open>\<open>strings.Contains\<close>.\<close>

fun str_contains :: "string \<Rightarrow> string \<Rightarrow> bool" where
  "str_contains [] sub = (sub = [])"
| "str_contains (x # xs) sub = (take (length sub) (x # xs) = sub \<or> str_contains xs sub)"

definition require_buffer_window :: "env \<Rightarrow> (chain, unit) go" where
  "require_buffer_window env =
     go_bind (go_wrap (Sdk ErrInvalidRequest) (\<lambda>c. (IsWithinBufferWindow env c, c))) (\<lambda>withinBufferWindow.
     go_guard withinBufferWindow (StakeIBCErr ErrOutsideIcqWindow))"

definition QueryValidatorExchangeRate :: "env \<Rightarrow> string \<Rightarrow> string \<Rightarrow> (chain, unit) go" where
  "QueryValidatorExchangeRate env chainId valoper =
     go_bind (require_buffer_window env) (\<lambda>_.
     go_bind (go_gets (\<lambda>c. GetHostZone c chainId)) (\<lambda>found.
     go_bind (go_found found (StakeIBCErr ErrInvalidHostZone)) (\<lambda>hostZone.
     go_bind (go_guard (str_contains valoper (hz_Bech32Prefix hostZone)) (Sdk ErrInvalidRequest)) (\<lambda>_.
     go_bind (go_lift (decode_address env valoper)) (\<lambda>validatorAddressBz.
     go_bind (go_lift (MustLengthPrefix validatorAddressBz)) (\<lambda>p.
     let queryData = char_of (33::nat) # p in
     go_bind (go_wrap (Sdk ErrInvalidRequest) (\<lambda>c. (GetStartTimeNextEpoch c STRIDE_EPOCH, c))) (\<lambda>ttl.
     MakeRequest env ''stakeibc'' ''validator'' (hz_ChainId hostZone) (hz_ConnectionId hostZone)
       ''store/staking/key'' queryData ttl)))))))"

definition QueryDelegationsIcq :: "env \<Rightarrow> HostZone \<Rightarrow> string \<Rightarrow> (chain, unit) go" where
  "QueryDelegationsIcq env hostZone valoper =
     go_bind (require_buffer_window env) (\<lambda>_.
     go_bind (go_found (registered (hz_DelegationAccount hostZone)) (StakeIBCErr ErrICAAccountNotFound)) (\<lambda>delegationAccount.
     go_bind (go_lift (decode_address env valoper)) (\<lambda>validatorAddressBz.
     go_bind (go_lift (decode_address env (ica_Address delegationAccount))) (\<lambda>delegatorAddressBz.
     go_bind (go_lift (MustLengthPrefix delegatorAddressBz)) (\<lambda>pd.
     go_bind (go_lift (MustLengthPrefix validatorAddressBz)) (\<lambda>pv.
     let queryData = (char_of (49::nat) # pd) @ pv in
     go_bind (go_wrap (Sdk ErrInvalidRequest) (\<lambda>c. (GetStartTimeNextEpoch c STRIDE_EPOCH, c))) (\<lambda>ttl.
     MakeRequest env ''stakeibc'' ''delegation'' (hz_ChainId hostZone) (hz_ConnectionId hostZone)
       ''store/staking/key'' queryData ttl)))))))"

section \<open>What submitting does\<close>

lemma SubmitTxs_Ok:
  assumes "SubmitTxs env conn msgs acc timeout cbId args c = (Ok seq, t)"
  shows "\<exists>chainId portID channelID msg. GetChainID env conn = Ok chainId \<and>
    msg = \<lparr>tx_Owner = FormatICAAccountOwner chainId (ica_Target acc), tx_ConnectionId = conn,
      tx_RelativeTimeout = timeout, tx_Msgs = msgs\<rparr> \<and>
    portID = ''icacontroller-'' @ tx_Owner msg \<and> e_GetActiveChannelID env conn portID = Some channelID \<and>
    e_SendTx env (c_outbox c) msg = Ok seq \<and>
    t = (let c' = c\<lparr>c_outbox := c_outbox c @ [msg]\<rparr> in
      if cbId \<noteq> '''' \<and> args \<noteq> None
      then SetCallbackData \<lparr>cb_CallbackKey = PacketID portID channelID seq, cb_PortId = portID,
        cb_ChannelId = channelID, cb_Sequence = seq, cb_CallbackId = cbId, cb_CallbackArgs = the args\<rparr> c'
      else c')"
  using assms
  by (auto simp: SubmitTxs_def go_simps Let_def NewControllerPortID_def split: option.splits if_splits)

lemma SubmitTxs_Err:
  assumes "SubmitTxs env conn msgs acc timeout cbId args c = (Err e, t)"
  shows "t = c"
  using assms by (auto simp: SubmitTxs_def go_simps Let_def split: option.splits if_splits)

lemma SubmitTxs_Panic:
  assumes "SubmitTxs env conn msgs acc timeout cbId args c = (Panic, t)"
  shows "t = c"
  using assms by (auto simp: SubmitTxs_def go_simps Let_def split: option.splits if_splits)

text \<open>A submission changes only the outbox and the callback data; a failed one changes nothing.\<close>

definition ica_frame :: "chain \<Rightarrow> chain \<Rightarrow> bool" where
  "ica_frame c t \<longleftrightarrow> c_bank t = c_bank c \<and> c_records t = c_records c \<and> c_hostZones t = c_hostZones c \<and>
     c_epochTrackers t = c_epochTrackers c \<and> c_queries t = c_queries c"

lemma ica_frame_refl [simp]: "ica_frame c c"
  by (simp add: ica_frame_def)

lemma SubmitTxs_frame:
  assumes "SubmitTxs env conn msgs acc timeout cbId args c = (r, t)"
  shows "ica_frame c t"
proof (cases r)
  case (Ok seq)
  from SubmitTxs_Ok [OF assms [unfolded Ok]] show ?thesis
    by (auto simp: ica_frame_def SetCallbackData_def Let_def)
qed (use assms in \<open>auto dest: SubmitTxs_Err SubmitTxs_Panic\<close>)

lemma SubmitTxsEpoch_frame:
  assumes "SubmitTxsEpoch env conn msgs acc ep cbId args c = (r, t)"
  shows "ica_frame c t" and "(\<forall>seq. r \<noteq> Ok seq) \<Longrightarrow> t = c"
proof -
  show "ica_frame c t"
    using assms by (cases r) (auto simp: SubmitTxsEpoch_def go_simps dest: SubmitTxs_frame)
  show "t = c" if "\<forall>seq. r \<noteq> Ok seq"
    using assms that by (cases r) (auto simp: SubmitTxsEpoch_def go_simps dest: SubmitTxs_Err SubmitTxs_Panic)
qed

lemma SubmitTxsEpoch_Ok:
  assumes "SubmitTxsEpoch env conn msgs acc ep cbId args c = (Ok seq, t)"
  shows "\<exists>w. GetICATimeoutNanos env c ep = Ok w \<and> SubmitTxs env conn msgs acc w cbId args c = (Ok seq, t)"
  using assms by (auto simp: SubmitTxsEpoch_def go_simps)

section \<open>Delegations add up\<close>

text \<open>Whatever the weights, targets that were computed add up to the amount.\<close>

lemma target_amts_sum:
  assumes "target_amts tw f vs al m = Ok m'" "vs \<noteq> []" "distinct (map val_Address vs)"
  shows "sum_list (map (amt_of m') vs) = f - al \<and>
    (\<forall>a. a \<notin> val_Address ` set vs \<longrightarrow> kv_get m' a = kv_get m a)"
  using assms
proof (induction tw f vs al m rule: target_amts.induct)
  case (2 tw f v al m)
  then show ?case by (auto simp: go_simps amt_of_def)
next
  case (3 tw f v v' vs al m)
  then obtain p d al' where p: "Int_Mul (uint (val_Weight v)) f = Ok p" "Int_Quo p (uint tw) = Ok d"
      "Int_Add al d = Ok al'" "target_amts tw f (v' # vs) al' (kv_set (val_Address v) d m) = Ok m'"
    by (auto simp: rbind_eq_Ok)
  have IH: "sum_list (map (amt_of m') (v' # vs)) = f - al' \<and>
    (\<forall>a. a \<notin> val_Address ` set (v' # vs) \<longrightarrow> kv_get m' a = kv_get (kv_set (val_Address v) d m) a)"
    using 3(1) [OF p(4)] 3(4) by simp
  then have "kv_get m' (val_Address v) = Some d" using 3(4) by auto
  then have "amt_of m' v = d" by (simp add: amt_of_def)
  moreover have "al' = al + d" using p(3) by (simp add: go_simps)
  ultimately show ?case using IH by auto
qed simp

lemma GetTarget_sum:
  assumes "GetTargetValAmtsForHostZone z f = Ok (m, z')" "distinct (map val_Address (hz_Validators z))"
  shows "sum_list (map (amt_of m) (hz_Validators z')) = f \<and> z' = z\<lparr>hz_Validators := sort_validators (hz_Validators z)\<rparr>"
proof -
  have m: "target_amts (GetTotalValidatorWeight z) f (sort_validators (hz_Validators z)) 0 [] = Ok m"
    "z' = z\<lparr>hz_Validators := sort_validators (hz_Validators z)\<rparr>" "GetTotalValidatorWeight z \<noteq> 0"
    using assms(1) by (auto simp: GetTargetValAmtsForHostZone_def Let_def rbind_eq_Ok split: if_splits)
  from m(3) have "hz_Validators z \<noteq> []" by (auto simp: GetTotalValidatorWeight_def)
  then have "sort_validators (hz_Validators z) \<noteq> []"
    by (metis set_sort_validators set_empty)
  moreover have "distinct (map val_Address (sort_validators (hz_Validators z)))"
    using assms(2) by (metis mset_sort_validators mset_map mset_eq_imp_distinct_iff)
  ultimately show ?thesis using target_amts_sum [OF m(1)] m(2) by simp
qed

lemma delegation_msgs_spec:
  assumes "delegation_msgs del d m vs = Ok (msgs, sds)"
  shows "map sd_Validator sds = map val_Address vs \<and> map sd_Amount sds = map (amt_of m) vs \<and>
    (\<forall>s\<in>set sds. 0 \<le> sd_Amount s) \<and>
    msgs = map (\<lambda>s. MsgDelegate del (sd_Validator s) (d, sd_Amount s)) (filter (\<lambda>s. 0 < sd_Amount s) sds)"
  using assms
  by (induction vs arbitrary: msgs sds)
    (auto simp: rbind_eq_Ok delegation_coin_def amt_of_def NewCoin_Ok split: option.splits prod.splits)

lemma DelegateOnHost_Ok:
  assumes "DelegateOnHost env z (d, x) rec c = (Ok u, t)"
  shows "\<exists>acc m z' msgs sds conn seq s. registered (hz_DelegationAccount z) = Some acc \<and>
    GetTargetValAmtsForHostZone z x = Ok (m, z') \<and>
    delegation_msgs (ica_Address acc) d m (hz_Validators z') = Ok (msgs, sds) \<and>
    SubmitTxsStrideEpoch env conn msgs acc ''delegate'' (Some (DelegateArgs
      \<lparr>dcb_HostZoneId = hz_ChainId z, dcb_DepositRecordId = dr_Id rec, dcb_SplitDelegations = sds\<rparr>)) c = (Ok seq, s) \<and>
    t = mod_records (SetDepositRecord (rec\<lparr>dr_Status := DELEGATION_IN_PROGRESS\<rparr>)) s"
  using assms
  apply (clarsimp simp: DelegateOnHost_def go_simps split: option.splits prod.splits)
  apply (metis (no_types, lifting))
  done

lemma DelegateOnHost_fail:
  assumes "DelegateOnHost env z amt rec c = (r, t)" "r \<noteq> Ok ()"
  shows "t = c"
  using assms
  by (cases r) (auto simp: DelegateOnHost_def SubmitTxsStrideEpoch_def go_simps
      dest: SubmitTxsEpoch_frame(2) split: option.splits prod.splits)

text \<open>A deposit that is delegated goes out whole: one interchain account transaction is
  sent, its delegations are positive, one per validator with a target, and add up exactly to the
  deposit; the callback stored for that packet lists the same amounts (with zeros) and the deposit
  record is marked in progress. When anything fails, nothing is sent and nothing changes.\<close>

theorem DelegateOnHost_sends_deposit:
  assumes "distinct (map val_Address (hz_Validators z))" "DelegateOnHost env z (d, x) rec c = (r, t)"
  shows "(r \<noteq> Ok () \<longrightarrow> t = c) \<and>
    (r = Ok () \<longrightarrow> (\<exists>acc msg sds cb. hz_DelegationAccount z = Some acc \<and> c_outbox t = c_outbox c @ [msg] \<and>
      tx_Msgs msg = map (\<lambda>s. MsgDelegate (ica_Address acc) (sd_Validator s) (d, sd_Amount s))
        (filter (\<lambda>s. 0 < sd_Amount s) sds) \<and>
      sum_list (map sd_Amount sds) = x \<and> (\<forall>s\<in>set sds. 0 \<le> sd_Amount s) \<and>
      mset (map sd_Validator sds) = mset (map val_Address (hz_Validators z)) \<and>
      GetCallbackData t (cb_CallbackKey cb) = Some cb \<and> cb_CallbackId cb = ''delegate'' \<and>
      cb_CallbackArgs cb = DelegateArgs \<lparr>dcb_HostZoneId = hz_ChainId z, dcb_DepositRecordId = dr_Id rec,
        dcb_SplitDelegations = sds\<rparr> \<and>
      c_records t = SetDepositRecord (rec\<lparr>dr_Status := DELEGATION_IN_PROGRESS\<rparr>) (c_records c) \<and>
      c_bank t = c_bank c \<and> c_hostZones t = c_hostZones c))"
proof (cases "r = Ok ()")
  case True
  with assms(2) have "DelegateOnHost env z (d, x) rec c = (Ok (), t)" by simp
  from DelegateOnHost_Ok [OF this] obtain acc m z' msgs sds conn seq s where
    acc: "registered (hz_DelegationAccount z) = Some acc"
    and m: "GetTargetValAmtsForHostZone z x = Ok (m, z')"
    and ms: "delegation_msgs (ica_Address acc) d m (hz_Validators z') = Ok (msgs, sds)"
    and sub: "SubmitTxsStrideEpoch env conn msgs acc ''delegate'' (Some (DelegateArgs
      \<lparr>dcb_HostZoneId = hz_ChainId z, dcb_DepositRecordId = dr_Id rec, dcb_SplitDelegations = sds\<rparr>)) c = (Ok seq, s)"
    and t: "t = mod_records (SetDepositRecord (rec\<lparr>dr_Status := DELEGATION_IN_PROGRESS\<rparr>)) s"
    by blast
  from SubmitTxsEpoch_Ok [OF sub [unfolded SubmitTxsStrideEpoch_def]] obtain w where
    "SubmitTxs env conn msgs acc w ''delegate'' (Some (DelegateArgs
      \<lparr>dcb_HostZoneId = hz_ChainId z, dcb_DepositRecordId = dr_Id rec, dcb_SplitDelegations = sds\<rparr>)) c = (Ok seq, s)"
    by blast
  from SubmitTxs_Ok [OF this] obtain msg cb where
    s: "s = SetCallbackData cb (c\<lparr>c_outbox := c_outbox c @ [msg]\<rparr>)" "tx_Msgs msg = msgs"
      "cb_CallbackId cb = ''delegate''" "cb_CallbackArgs cb = DelegateArgs
      \<lparr>dcb_HostZoneId = hz_ChainId z, dcb_DepositRecordId = dr_Id rec, dcb_SplitDelegations = sds\<rparr>"
    by (auto simp: Let_def)
  have acc': "hz_DelegationAccount z = Some acc"
    using acc by (auto simp: registered_def split: option.splits if_splits)
  note sum = GetTarget_sum [OF m assms(1)]
  note sds = delegation_msgs_spec [OF ms]
  have "mset (map val_Address (hz_Validators z')) = mset (map val_Address (hz_Validators z))"
    using sum by (simp flip: mset_map) (metis mset_map mset_sort_validators)
  then have vals: "mset (map sd_Validator sds) = mset (map val_Address (hz_Validators z))"
    using sds by simp
  have "GetCallbackData t (cb_CallbackKey cb) = Some cb"
    by (simp add: t s(1) GetCallbackData_def mod_records_def SetCallbackData_def)
  with True acc' sum sds vals s t show ?thesis
    by (intro conjI impI exI [of _ acc] exI [of _ msg] exI [of _ sds] exI [of _ cb]) auto
qed (use DelegateOnHost_fail [OF assms(2)] in auto)

text \<open>The small instance with a zone, its deposit record and trackers of both epochs.\<close>

definition demo_chain :: "Validator list \<Rightarrow> chain" where
  "demo_chain vs = SetHostZone (demo_zone vs)
     (SetEpochTracker (demo_tracker DAY_EPOCH) (SetEpochTracker (demo_tracker STRIDE_EPOCH) empty_chain))"

lemma demo_chain_simps [simp]:
  "GetHostZone (demo_chain vs) ''GAIA'' = Some (demo_zone vs)"
  "GetEpochTracker (demo_chain vs) STRIDE_EPOCH = Some (demo_tracker STRIDE_EPOCH)"
  "GetEpochTracker (demo_chain vs) DAY_EPOCH = Some (demo_tracker DAY_EPOCH)"
  "c_outbox (demo_chain vs) = []" "c_records (demo_chain vs) = records_empty"
  by (simp_all add: demo_chain_def demo_zone_def demo_tracker_def DAY_EPOCH_def STRIDE_EPOCH_def)
    (simp_all add: SetEpochTracker_def empty_chain_def)

lemma demo_submit:
  "SubmitTxsEpoch demo_env ''connection-0'' msgs acc STRIDE_EPOCH cbId args (demo_chain vs) =
   SubmitTxs demo_env ''connection-0'' msgs acc 1800 cbId args (demo_chain vs)"
  by (simp add: SubmitTxsEpoch_def go_defs GetICATimeoutNanos_def demo_tracker_def demo_env_def DefaultParams_def Let_def)

lemma demo_SubmitTxs_Ok:
  "\<exists>t. SubmitTxs demo_env ''connection-0'' msgs acc w cbId args c = (Ok (word_of_nat (length (c_outbox c) + 1)), t)"
  by (simp add: SubmitTxs_def go_defs GetChainID_def client_chain_id_def demo_env_def Let_def split: option.splits)

theorem DelegateOnHost_sends_deposit_witness:
  "\<exists>t msg (sds :: SplitDelegation list). DelegateOnHost demo_env (demo_zone [demo_validator ''v1'' 2 0, demo_validator ''v2'' 1 0])
       (''uatom'', 100) (demo_deposit 100 DELEGATION_QUEUE)
       (demo_chain [demo_validator ''v1'' 2 0, demo_validator ''v2'' 1 0]) = (Ok (), t) \<and>
     c_outbox t = [msg] \<and> sum_list (map sd_Amount sds) = 100 \<and>
     tx_Msgs msg = map (\<lambda>s. MsgDelegate ''cosmos1delegation'' (sd_Validator s) (''uatom'', sd_Amount s))
        (filter (\<lambda>s. 0 < sd_Amount s) sds)"
proof -
  let ?vs = "[demo_validator ''v1'' 2 0, demo_validator ''v2'' 1 0]"
  let ?run = "DelegateOnHost demo_env (demo_zone ?vs) (''uatom'', 100) (demo_deposit 100 DELEGATION_QUEUE) (demo_chain ?vs)"
  have "\<exists>m z'. GetTargetValAmtsForHostZone (demo_zone ?vs) 100 = Ok (m, z') \<and>
      hz_Validators z' = rev ?vs \<and> m = [(''v1'', 67), (''v2'', 33)]"
    by (simp add: GetTargetValAmtsForHostZone_def GetTotalValidatorWeight_def sort_validators_def
        demo_validator_def demo_zone_def Int_Mul_fits fits_def Int_Quo_def Int_Add_eq Int_Sub_eq big_quo_def)
  then obtain m z' where m: "GetTargetValAmtsForHostZone (demo_zone ?vs) 100 = Ok (m, z')"
    "hz_Validators z' = rev ?vs" "m = [(''v1'', 67), (''v2'', 33)]" by blast
  have vd: "ValidateDenom ''uatom''" by (simp add: ValidateDenom_def denom_letter_def denom_char_def)
  have conn: "delegation_connection demo_env (demo_zone ?vs) = Ok ''connection-0''"
    by (simp add: delegation_connection_def demo_zone_def GetConnectionId_def demo_env_def)
      (simp add: FormatICAAccountOwner_def)
  have acc: "registered (hz_DelegationAccount (demo_zone ?vs)) =
      Some \<lparr>ica_Address = ''cosmos1delegation'', ica_Target = ICAAccountType_DELEGATION\<rparr>"
    by (simp add: demo_zone_def registered_def demo_account_def)
  have msgs: "\<exists>msgs sds. delegation_msgs ''cosmos1delegation'' ''uatom'' m (hz_Validators z') = Ok (msgs, sds)"
    using vd by (simp add: m(2,3) demo_validator_def delegation_coin_def kv_get_def NewCoin_def)
  have "\<exists>t. ?run = (Ok (), t)"
    using msgs demo_SubmitTxs_Ok [of _ _ 1800 "''delegate''" _ "demo_chain ?vs"]
    by (auto simp: DelegateOnHost_def go_bind_def go_lift_def go_found_def go_modify_def conn acc m(1)
        SubmitTxsStrideEpoch_def demo_submit split: prod.splits res.splits)
      (metis prod.inject res.distinct res.inject)+
  then obtain t where run: "?run = (Ok (), t)" by blast
  have "distinct (map val_Address (hz_Validators (demo_zone ?vs)))"
    by (simp add: demo_zone_def demo_validator_def)
  from DelegateOnHost_sends_deposit [OF this run] obtain acc msg and sds :: "SplitDelegation list" where
    "hz_DelegationAccount (demo_zone ?vs) = Some acc" "c_outbox t = c_outbox (demo_chain ?vs) @ [msg]"
    "tx_Msgs msg = map (\<lambda>s. MsgDelegate (ica_Address acc) (sd_Validator s) (''uatom'', sd_Amount s))
        (filter (\<lambda>s. 0 < sd_Amount s) sds)" "sum_list (map sd_Amount sds) = 100"
    by blast
  moreover have "hz_DelegationAccount (demo_zone ?vs) =
      Some \<lparr>ica_Address = ''cosmos1delegation'', ica_Target = ICAAccountType_DELEGATION\<rparr>"
    by (simp add: demo_zone_def demo_account_def)
  ultimately show ?thesis using run by (intro exI [of _ t] exI [of _ msg] exI [of _ sds]) auto
qed

end
