(* ===== verification/LiquidStaking.thy ===== *)
theory LiquidStaking
  imports Ica
begin

text \<open>
  The user's side of \<open>x/stakeibc\<close>: \<open>LiquidStake\<close>
  (\<open>keeper/msg_server_liquid_stake.go\<close>) and \<open>RedeemStake\<close>
  (\<open>keeper/msg_server_redeem_stake.go\<close>), with the address helpers of
  \<open>utils/utils.go\<close>.

  Liquid staking takes native tokens into the zone's account and mints
  \<open>amount / redemptionRate\<close> liquid tokens, rounded to 18 decimals and cut to whole ones. Redeeming escrows liquid tokens in
  the zone's account and promises \<open>amount * redemptionRate\<close> native tokens, rounded to the
  nearest, by a redemption record and the unbonding of the day. The hook called after a liquid
  stake is a parameter, as it is an interface in the code.
\<close>

section \<open>Addresses\<close>

definition GetFromBech32 :: "env \<Rightarrow> string \<Rightarrow> string \<Rightarrow> address res" where
  "GetFromBech32 env bech32str pfx =
     (if bech32str = '''' then Err Plain
      else case e_DecodeBech32 env bech32str of
        None \<Rightarrow> Err Plain
      | Some (hrp, bz) \<Rightarrow> if hrp \<noteq> pfx then Ok bz else Ok bz)"

definition VerifyAddressFormat :: "address \<Rightarrow> unit res" where
  "VerifyAddressFormat bz =
     (if length bz \<noteq> 20 then Err Plain
      else if bz = [] then Err (Sdk ErrUnknownAddress)
      else if 255 < length bz then Err (Sdk ErrUnknownAddress)
      else Ok ())"

definition AccAddressFromBech32 :: "env \<Rightarrow> string \<Rightarrow> string \<Rightarrow> address res" where
  "AccAddressFromBech32 env a bech32prefix =
     (if list_all is_space a then Err Plain
      else rbind (GetFromBech32 env a bech32prefix) (\<lambda>bz.
           rbind (VerifyAddressFormat bz) (\<lambda>_. Ok bz)))"

text \<open>The SDK's function of the same name, with the chain's prefix and the verifier of
  \<open>cmd/strided/config/config.go\<close>.\<close>

definition AddressVerifier :: "address \<Rightarrow> unit res" where
  "AddressVerifier bz =
     (if bz = [] then Err (Sdk ErrUnknownAddress)
      else if 255 < length bz then Err (Sdk ErrUnknownAddress)
      else if length bz \<noteq> 20 \<and> length bz \<noteq> 32 then Err (Sdk ErrUnknownAddress)
      else Ok ())"

definition sdk_AccAddressFromBech32 :: "env \<Rightarrow> string \<Rightarrow> address res" where
  "sdk_AccAddressFromBech32 env a =
     (if list_all is_space a then Err Plain
      else case e_DecodeBech32 env a of
        None \<Rightarrow> Err Plain
      | Some (hrp, bz) \<Rightarrow>
          if hrp \<noteq> ''stride'' then Err Plain else rbind (AddressVerifier bz) (\<lambda>_. Ok bz))"

section \<open>Liquid staking\<close>

record MsgLiquidStake =
  mls_Creator :: string
  mls_Amount :: int
  mls_HostDenom :: denom

definition IsIBCToken :: "denom \<Rightarrow> bool" where
  "IsIBCToken denom \<longleftrightarrow> take 4 denom = ''ibc/''"

definition MsgLiquidStake_ValidateBasic :: "env \<Rightarrow> MsgLiquidStake \<Rightarrow> unit res" where
  "MsgLiquidStake_ValidateBasic env msg =
     (case sdk_AccAddressFromBech32 env (mls_Creator msg) of
        Ok _ \<Rightarrow>
          if mls_Amount msg \<le> 0 then Err (StakeIBCErr ErrInvalidAmount)
          else if mls_HostDenom msg = '''' then Err (StakeIBCErr ErrRequiredFieldEmpty)
          else if \<not> ValidateDenom (mls_HostDenom msg) then Err Plain
          else Ok ()
      | _ \<Rightarrow> Err (Sdk ErrInvalidAddress))"

definition LiquidStake :: "env \<Rightarrow> (address \<Rightarrow> chain \<Rightarrow> chain) \<Rightarrow> MsgLiquidStake \<Rightarrow> (chain, unit) go" where
  "LiquidStake env AfterLiquidStake msg =
     go_bind (go_wrap (StakeIBCErr ErrInvalidToken) (\<lambda>c. (GetHostZoneFromHostDenom c (mls_HostDenom msg), c))) (\<lambda>hostZone.
     go_bind (go_guard (\<not> hz_Halted hostZone) (StakeIBCErr ErrHaltedHostZone)) (\<lambda>_.
     go_bind (go_lift (sdk_AccAddressFromBech32 env (mls_Creator msg))) (\<lambda>liquidStakerAddress.
     go_bind (go_lift (sdk_AccAddressFromBech32 env (hz_Address hostZone))) (\<lambda>hostZoneAddress.
     go_bind (go_wrap (StakeIBCErr ErrRedemptionRateOutsideSafetyBounds)
       (go_lift (IsRedemptionRateWithinSafetyBounds env hostZone))) (\<lambda>_.
     go_bind (go_gets (\<lambda>c. GetEpochTracker c STRIDE_EPOCH)) (\<lambda>found.
     go_bind (go_found found (Sdk ErrNotFound)) (\<lambda>strideEpochTracker.
     go_bind (go_gets (\<lambda>c. GetTransferDepositRecordByEpochAndChain (c_records c)
       (et_EpochNumber strideEpochTracker) (hz_ChainId hostZone))) (\<lambda>found.
     go_bind (go_found found (Sdk ErrNotFound)) (\<lambda>depositRecord.
     let nativeDenom = hz_IbcDenom hostZone in
     go_bind (go_lift (NewCoin nativeDenom (mls_Amount msg))) (\<lambda>nativeCoin.
     go_bind (go_guard (IsIBCToken nativeDenom) (StakeIBCErr ErrInvalidToken)) (\<lambda>_.
     go_bind (go_gets (\<lambda>c. GetBalance (c_bank c) liquidStakerAddress nativeDenom)) (\<lambda>balance.
     go_bind (go_guard (\<not> balance < mls_Amount msg) (Sdk ErrInsufficientFunds)) (\<lambda>_.
     go_bind (go_lift (Dec_Quo (NewDecFromInt (mls_Amount msg)) (hz_RedemptionRate hostZone))) (\<lambda>q.
     go_bind (go_lift (Dec_TruncateInt q)) (\<lambda>stAmount.
     go_bind (go_guard (stAmount \<noteq> 0) (StakeIBCErr ErrInsufficientLiquidStake)) (\<lambda>_.
     go_bind (go_lift (NewCoins [nativeCoin])) (\<lambda>coins.
     go_bind (on_bank (SendCoins (e_bank env) liquidStakerAddress hostZoneAddress coins)) (\<lambda>_.
     let stDenom = StAssetDenomFromHostZoneDenom (mls_HostDenom msg) in
     go_bind (go_lift (NewCoin stDenom stAmount)) (\<lambda>stCoin.
     go_bind (go_lift (NewCoins [stCoin])) (\<lambda>stCoins.
     go_bind (on_bank (MintCoins (e_bank env) ''stakeibc'' stCoins)) (\<lambda>_.
     go_bind (on_bank (SendCoinsFromModuleToAccount (e_bank env) ''stakeibc'' liquidStakerAddress stCoins)) (\<lambda>_.
     go_bind (go_lift (Int_Add (dr_Amount depositRecord) (mls_Amount msg))) (\<lambda>amount.
     go_bind (go_modify (mod_records (SetDepositRecord (depositRecord\<lparr>dr_Amount := amount\<rparr>)))) (\<lambda>_.
     go_modify (AfterLiquidStake liquidStakerAddress)))))))))))))))))))))))))"

section \<open>Redeeming\<close>

record MsgRedeemStake =
  mrs_Creator :: string
  mrs_Amount :: int
  mrs_HostZone :: string
  mrs_Receiver :: string

text \<open>The unbonding of the zone for the day, with the redemption added.\<close>

definition add_redemption :: "int \<Rightarrow> int \<Rightarrow> string \<Rightarrow> HostZoneUnbonding \<Rightarrow> HostZoneUnbonding res" where
  "add_redemption nativeAmount stAmount redemptionId hzu =
     rbind (Int_Add (hzu_NativeTokenAmount hzu) nativeAmount) (\<lambda>n.
     rbind (Int_Add (hzu_StTokenAmount hzu) stAmount) (\<lambda>s.
     Ok (hzu\<lparr>hzu_NativeTokenAmount := n, hzu_StTokenAmount := s,
       hzu_UserRedemptionRecords := hzu_UserRedemptionRecords hzu @ [redemptionId]\<rparr>)))"

definition RedeemStake :: "env \<Rightarrow> MsgRedeemStake \<Rightarrow> (chain, unit) go" where
  "RedeemStake env msg =
     go_bind (go_wrap (Sdk ErrInvalidAddress) (go_lift (sdk_AccAddressFromBech32 env (mrs_Creator msg)))) (\<lambda>sender.
     go_bind (go_gets (\<lambda>c. GetHostZone c (mrs_HostZone msg))) (\<lambda>found.
     go_bind (go_found found (StakeIBCErr ErrInvalidHostZone)) (\<lambda>hostZone.
     go_bind (go_guard (\<not> hz_Halted hostZone) (StakeIBCErr ErrHaltedHostZone)) (\<lambda>_.
     go_bind (go_gets (\<lambda>c. GetEpochTracker c DAY_EPOCH)) (\<lambda>found.
     go_bind (go_found found (StakeIBCErr ErrEpochNotFound)) (\<lambda>epochTracker.
     let senderAddr = e_EncodeBech32 env ''stride'' sender;
         redemptionId = UserRedemptionRecordKeyFormatter (hz_ChainId hostZone) (et_EpochNumber epochTracker) senderAddr in
     go_bind (go_gets (\<lambda>c. GetUserRedemptionRecord (c_records c) redemptionId)) (\<lambda>existing.
     go_bind (go_guard (existing = None) (RecordsErr ErrRedemptionAlreadyExists)) (\<lambda>_.
     go_bind (go_wrap (Sdk ErrInvalidAddress)
       (go_lift (AccAddressFromBech32 env (mrs_Receiver msg) (hz_Bech32Prefix hostZone)))) (\<lambda>_.
     let stDenom = StAssetDenomFromHostZoneDenom (hz_HostDenom hostZone) in
     go_bind (go_lift (Dec_Mul (NewDecFromInt (mrs_Amount msg)) (hz_RedemptionRate hostZone))) (\<lambda>p.
     go_bind (go_lift (Dec_RoundInt p)) (\<lambda>nativeAmount.
     go_bind (go_guard (\<not> hz_StakedBal hostZone < nativeAmount) (StakeIBCErr ErrInvalidAmount)) (\<lambda>_.
     go_bind (go_wrap (StakeIBCErr ErrRedemptionRateOutsideSafetyBounds)
       (go_lift (IsRedemptionRateWithinSafetyBounds env hostZone))) (\<lambda>_.
     go_bind (go_guard (e_ParseCoin env nativeAmount stDenom) (Sdk ErrInvalidCoins)) (\<lambda>_.
     go_bind (go_guard (0 < nativeAmount) (Sdk ErrInvalidCoins)) (\<lambda>_.
     go_bind (go_gets (\<lambda>c. GetBalance (c_bank c) sender stDenom)) (\<lambda>balance.
     go_bind (go_guard (\<not> balance < mrs_Amount msg) (Sdk ErrInvalidCoins)) (\<lambda>_.
     let userRedemptionRecord = \<lparr>urr_Id = redemptionId, urr_Sender = senderAddr, urr_Receiver = mrs_Receiver msg,
           urr_Amount = nativeAmount, urr_Denom = hz_HostDenom hostZone, urr_HostZoneId = hz_ChainId hostZone,
           urr_EpochNumber = et_EpochNumber epochTracker, urr_ClaimIsPending = False\<rparr> in
     go_bind (go_gets (\<lambda>c. GetEpochUnbondingRecord (c_records c) (et_EpochNumber epochTracker))) (\<lambda>found.
     go_bind (go_found found (RecordsErr ErrEpochUnbondingRecordNotFound)) (\<lambda>epochUnbondingRecord.
     go_bind (go_gets (\<lambda>c. GetHostZoneUnbondingByChainId (c_records c)
       (eur_EpochNumber epochUnbondingRecord) (hz_ChainId hostZone))) (\<lambda>found.
     go_bind (go_found found (StakeIBCErr ErrInvalidHostZone)) (\<lambda>hostZoneUnbonding.
     go_bind (go_lift (Int_Add (hzu_NativeTokenAmount hostZoneUnbonding) nativeAmount)) (\<lambda>_.
     go_bind (go_lift (NewCoin stDenom (mrs_Amount msg))) (\<lambda>stCoin.
     go_bind (go_lift (NewCoins [stCoin])) (\<lambda>redeemCoin.
     go_bind (go_wrap Plain (go_lift (sdk_AccAddressFromBech32 env (hz_Address hostZone)))) (\<lambda>bech32ZoneAddress.
     go_bind (go_wrap (StakeIBCErr ErrInsufficientStakeFunds)
       (on_bank (SendCoins (e_bank env) sender bech32ZoneAddress redeemCoin))) (\<lambda>_.
     go_bind (go_lift (add_redemption nativeAmount (mrs_Amount msg) redemptionId hostZoneUnbonding)) (\<lambda>hostZoneUnbonding'.
     go_bind (go_modify (mod_records (SetUserRedemptionRecord userRedemptionRecord))) (\<lambda>_.
     go_bind (go_gets (\<lambda>c. AddHostZoneToEpochUnbondingRecord (c_records c)
       (eur_EpochNumber epochUnbondingRecord) (hz_ChainId hostZone) hostZoneUnbonding')) (\<lambda>updated.
     case updated of
       None \<Rightarrow> go_panic
     | Some updatedEpochUnbondingRecord \<Rightarrow>
         go_modify (mod_records (SetEpochUnbondingRecord updatedEpochUnbondingRecord)))))))))))))))))))))))))))))))"

section \<open>What a successful liquid stake did\<close>

lemma LiquidStake_Ok:
  assumes "LiquidStake env hook msg c = (Ok u, t)"
  obtains z user zaddr tr dep q coins stCoins b1 b2 b3 where
    "GetHostZoneFromHostDenom c (mls_HostDenom msg) = Ok z" "\<not> hz_Halted z"
    "sdk_AccAddressFromBech32 env (mls_Creator msg) = Ok user"
    "sdk_AccAddressFromBech32 env (hz_Address z) = Ok zaddr"
    "\<exists>b. IsRedemptionRateWithinSafetyBounds env z = Ok b"
    "GetEpochTracker c STRIDE_EPOCH = Some tr"
    "GetTransferDepositRecordByEpochAndChain (c_records c) (et_EpochNumber tr) (hz_ChainId z) = Some dep"
    "0 \<le> mls_Amount msg" "mls_Amount msg \<le> bk_balance (c_bank c) user (hz_IbcDenom z)"
    "Dec_Quo (NewDecFromInt (mls_Amount msg)) (hz_RedemptionRate z) = Ok q"
    "chopPrecisionAndTruncate q \<noteq> 0"
    "NewCoins [(hz_IbcDenom z, mls_Amount msg)] = Ok coins"
    "SendCoins (e_bank env) user zaddr coins (c_bank c) = (Ok (), b1)"
    "NewCoins [(StAssetDenomFromHostZoneDenom (mls_HostDenom msg), chopPrecisionAndTruncate q)] = Ok stCoins"
    "MintCoins (e_bank env) ''stakeibc'' stCoins b1 = (Ok (), b2)"
    "SendCoinsFromModuleToAccount (e_bank env) ''stakeibc'' user stCoins b2 = (Ok (), b3)"
    "t = hook user (mod_records (SetDepositRecord (dep\<lparr>dr_Amount := dr_Amount dep + mls_Amount msg\<rparr>)) (c\<lparr>c_bank := b3\<rparr>))"
proof -
  from assms obtain z user zaddr tr dep q coins stCoins b1 b2 b3 where
    "GetHostZoneFromHostDenom c (mls_HostDenom msg) = Ok z \<and> \<not> hz_Halted z \<and>
    sdk_AccAddressFromBech32 env (mls_Creator msg) = Ok user \<and>
    sdk_AccAddressFromBech32 env (hz_Address z) = Ok zaddr \<and>
    (\<exists>b. IsRedemptionRateWithinSafetyBounds env z = Ok b) \<and>
    GetEpochTracker c STRIDE_EPOCH = Some tr \<and>
    GetTransferDepositRecordByEpochAndChain (c_records c) (et_EpochNumber tr) (hz_ChainId z) = Some dep \<and>
    0 \<le> mls_Amount msg \<and> mls_Amount msg \<le> bk_balance (c_bank c) user (hz_IbcDenom z) \<and>
    Dec_Quo (NewDecFromInt (mls_Amount msg)) (hz_RedemptionRate z) = Ok q \<and>
    chopPrecisionAndTruncate q \<noteq> 0 \<and>
    NewCoins [(hz_IbcDenom z, mls_Amount msg)] = Ok coins \<and>
    SendCoins (e_bank env) user zaddr coins (c_bank c) = (Ok (), b1) \<and>
    NewCoins [(StAssetDenomFromHostZoneDenom (mls_HostDenom msg), chopPrecisionAndTruncate q)] = Ok stCoins \<and>
    MintCoins (e_bank env) ''stakeibc'' stCoins b1 = (Ok (), b2) \<and>
    SendCoinsFromModuleToAccount (e_bank env) ''stakeibc'' user stCoins b2 = (Ok (), b3) \<and>
    t = hook user (mod_records (SetDepositRecord (dep\<lparr>dr_Amount := dr_Amount dep + mls_Amount msg\<rparr>)) (c\<lparr>c_bank := b3\<rparr>))"
    by (clarsimp simp: LiquidStake_def go_bind_eq_Ok go_wrap_eq_Ok go_guard_eq go_lift_eq go_gets_eq go_found_eq
        go_modify_eq on_bank_eq NewCoin_Ok Dec_TruncateInt_Ok Int_Add_Ok Let_def GetBalance_def not_less
        split: option.splits if_splits)
  then show ?thesis using that by blast
qed

text \<open>What the bank owes its callers: locked amounts and balances are not negative, and module
  accounts are not vesting accounts.\<close>

definition bank_ok :: "bank_env \<Rightarrow> bank \<Rightarrow> bool" where
  "bank_ok be b \<longleftrightarrow> (\<forall>a d. 0 \<le> be_locked be a d) \<and> (\<forall>a d. 0 \<le> bk_balance b a d) \<and>
     (\<forall>m a d. be_module be m = Some a \<longrightarrow> be_locked be a d = 0)"

lemma bank_ok_locked: "bank_ok be b \<Longrightarrow> 0 \<le> be_locked be a d"
  by (simp add: bank_ok_def)

lemma mint_to_account_Ok:
  assumes "MintCoins be m cs b1 = (Ok (), b2)" "SendCoinsFromModuleToAccount be m user cs b2 = (Ok (), b3)"
    and "NewCoins [(d, x)] = Ok cs" "\<And>a. 0 \<le> be_locked be a d"
  shows "bk_balance b3 a d' = bk_balance b1 a d' + (if a = user \<and> d' = d then x else 0) \<and>
    bk_supply b3 d' = bk_supply b1 d' + (if d' = d then x else 0)"
proof -
  obtain acc where acc: "be_module be m = Some acc" "b2 = supply_add d x (bank_add acc d x b1)"
    using MintCoins_Ok [OF assms(1,3)] by blast
  have "SendCoins be acc user cs b2 = (Ok (), b3)"
    using assms(2) acc(1) by (auto simp: SendCoinsFromModuleToAccount_def go_fail_def split: if_splits)
  from SendCoins_Ok(1) [OF this assms(3,4)] acc(2) show ?thesis
    by (simp add: bk_balance_move)
qed

text \<open>The amount minted, against the exact quotient: never worth more than what was paid, and
  short of it by less than one token and a rounding unit.\<close>

lemma mint_amount_bound:
  assumes "0 \<le> amt" "0 < rate" "Dec_Quo (NewDecFromInt amt) rate = Ok q"
  defines "st \<equiv> chopPrecisionAndTruncate q"
  shows "10 ^ 17 * (amt * precisionReuse) < (10 ^ 17 * (st + 1) + 1) * rate"
proof -
  let ?P = precisionReuse
  define X where "X = amt * (?P * ?P * ?P) div rate"
  have X: "big_quo (NewDecFromInt amt * (?P * ?P)) rate = X" "0 \<le> X"
    using assms(1,2) by (simp_all add: big_quo_pos NewDecFromInt_def X_def pos_imp_zdiv_nonneg_iff ac_simps)
  then have q: "q = chop_nonneg X" "0 \<le> q"
    using assms(3) by (simp_all add: Dec_Quo_Ok chopPrecisionAndRound_nonneg chop_nonneg_ge_0)
  have "q < (st + 1) * ?P"
    using q(2) div_less_iff [of ?P q "st + 1"] by (simp add: st_def truncate_nonneg)
  then have "q + 1 \<le> (st + 1) * ?P" by simp
  then have "2 * (q * ?P) + 2 * ?P \<le> 2 * ((st + 1) * ?P) * ?P"
    using mult_right_mono [of "q + 1" "(st + 1) * ?P" "2 * ?P"] by (simp add: algebra_simps)
  moreover have "2 * X \<le> 2 * (q * ?P) + ?P" using chop_nonneg_bounds(2) [of X] q(1) by simp
  ultimately have "2 * X + ?P \<le> 2 * ((st + 1) * ?P) * ?P" by linarith
  then have "(2 * X + ?P) * rate \<le> (2 * ((st + 1) * ?P) * ?P) * rate"
    using assms(2) by (intro mult_right_mono) auto
  then have "2 * (X * rate) + ?P * rate \<le> 2 * ((st + 1) * rate * (?P * ?P))"
    by (simp add: algebra_simps)
  moreover have "amt * (?P * ?P * ?P) < X * rate + rate"
    unfolding X_def by (rule div_bounds(2) [OF assms(2)])
  moreover have "0 \<le> ?P * rate" using assms(2) by simp
  ultimately have "2 * (amt * (?P * ?P * ?P)) < 2 * ((st + 1) * rate * (?P * ?P)) + 2 * rate"
    by linarith
  then have "(2 * (amt * ?P)) * (?P * ?P) < (2 * ((st + 1) * rate)) * (?P * ?P) + 2 * rate"
    by (simp add: ac_simps)
  then have "10 ^ 17 * (2 * (amt * ?P)) * (?P * ?P) < 10 ^ 17 * (2 * ((st + 1) * rate)) * (?P * ?P) + 10 ^ 17 * (2 * rate)"
    by simp
  moreover have "10 ^ 17 * (2 * rate) \<le> 2 * rate * (?P * ?P)"
    using assms(2) by (simp add: precisionReuse_def)
  moreover have "A * K < B * K + C \<Longrightarrow> C \<le> D * K \<Longrightarrow> A * K < (B + D) * K" for A B C D K :: int
    by (simp add: distrib_right)
  ultimately have "(10 ^ 17 * (2 * (amt * ?P))) * (?P * ?P) < (10 ^ 17 * (2 * ((st + 1) * rate)) + 2 * rate) * (?P * ?P)"
    by blast
  then have "10 ^ 17 * (2 * (amt * ?P)) < 10 ^ 17 * (2 * ((st + 1) * rate)) + 2 * rate"
    by (simp only: mult_less_cancel_right_disj) (auto simp: precisionReuse_def)
  then show ?thesis by (simp add: algebra_simps)
qed

lemma mint_amount_upper:
  assumes "0 \<le> amt" "0 < rate" "Dec_Quo (NewDecFromInt amt) rate = Ok q"
  defines "st \<equiv> chopPrecisionAndTruncate q"
  shows "2 * precisionReuse * (st * rate) \<le> 2 * precisionReuse * (amt * precisionReuse) + rate"
proof -
  let ?P = precisionReuse
  have P: "0 < ?P" by (simp add: precisionReuse_def)
  define X where "X = amt * (?P * ?P * ?P) div rate"
  have X: "big_quo (NewDecFromInt amt * (?P * ?P)) rate = X" "0 \<le> X"
    using assms(1,2) by (simp_all add: big_quo_pos NewDecFromInt_def X_def pos_imp_zdiv_nonneg_iff ac_simps)
  then have q: "q = chop_nonneg X" "0 \<le> q"
    using assms(3) by (simp_all add: Dec_Quo_Ok chopPrecisionAndRound_nonneg chop_nonneg_ge_0)
  have "2 * (st * ?P) * ?P \<le> 2 * q * ?P"
    using truncate_le [OF q(2)] P by (intro mult_right_mono) (simp_all add: st_def)
  also have "\<dots> \<le> 2 * X + ?P" using chop_nonneg_bounds(1) [of X] q(1) by simp
  finally have "2 * (st * ?P) * ?P * rate \<le> (2 * X + ?P) * rate"
    using assms(2) by (intro mult_right_mono) simp_all
  also have "\<dots> = 2 * (X * rate) + ?P * rate" by (simp add: algebra_simps)
  also have "X * rate \<le> amt * (?P * ?P * ?P)"
    unfolding X_def using assms(2) pos_mod_sign [OF assms(2), of "amt * (?P * ?P * ?P)"]
      minus_mod_eq_div_mult [of "amt * (?P * ?P * ?P)" rate, symmetric] by linarith
  finally have "(2 * ?P * (st * rate)) * ?P \<le> (2 * ?P * (amt * ?P) + rate) * ?P" by (simp add: algebra_simps)
  then show ?thesis using P mult_le_cancel_right_pos by blast
qed

text \<open>Property C9. A successful liquid stake moves exactly the staked amount from the creator's account
  to the zone's account, mints the liquid tokens to the creator and to nobody else, and adds the
  amount to a deposit record of the zone that waits for its transfer and belongs to the epoch the
  stride epoch tracker is in. What is minted is the quotient of amount and rate, rounded half to
  even to 18 decimals and then cut to whole tokens: it is positive, redeemable at the same rate for
  at most what was paid, above the exact quotient by no more than half a unit of the last decimal,
  and below it by less than a token and a rounding unit. The rest of the chain (other balances,
  supplies and records, zones, trackers, callbacks, queries, messages sent) is as it was when the
  claim hook is called. This needs a rate that is positive and below 10 to the 18.\<close>

theorem LiquidStake_mints_by_rate:
  assumes "LiquidStake env hook msg c = (Ok u, t)" "bank_ok (e_bank env) (c_bank c)"
    and "GetHostZoneFromHostDenom c (mls_HostDenom msg) = Ok z"
    and "0 < hz_RedemptionRate z" "hz_RedemptionRate z < 10 ^ 36"
  shows "\<exists>user zaddr tr dep st t0. t = hook user t0 \<and>
    sdk_AccAddressFromBech32 env (mls_Creator msg) = Ok user \<and> sdk_AccAddressFromBech32 env (hz_Address z) = Ok zaddr \<and>
    \<not> hz_Halted z \<and> 0 < st \<and>
    st = chop_nonneg (NewDecFromInt (mls_Amount msg) * precisionReuse * precisionReuse div hz_RedemptionRate z) div precisionReuse \<and>
    chopPrecisionAndRound (st * hz_RedemptionRate z) \<le> mls_Amount msg \<and>
    2 * precisionReuse * (st * hz_RedemptionRate z) \<le> 2 * precisionReuse * NewDecFromInt (mls_Amount msg) + hz_RedemptionRate z \<and>
    10 ^ 17 * NewDecFromInt (mls_Amount msg) < (10 ^ 17 * (st + 1) + 1) * hz_RedemptionRate z \<and>
    (\<forall>a d. bk_balance (c_bank t0) a d = bk_balance (c_bank c) a d +
      (if a = zaddr \<and> d = hz_IbcDenom z then mls_Amount msg else 0) -
      (if a = user \<and> d = hz_IbcDenom z then mls_Amount msg else 0) +
      (if a = user \<and> d = ''st'' @ mls_HostDenom msg then st else 0)) \<and>
    (\<forall>d. bk_supply (c_bank t0) d = bk_supply (c_bank c) d + (if d = ''st'' @ mls_HostDenom msg then st else 0)) \<and>
    GetEpochTracker c STRIDE_EPOCH = Some tr \<and> dep \<in> set (GetAllDepositRecord (c_records c)) \<and>
    dr_DepositEpochNumber dep = et_EpochNumber tr \<and> dr_Status dep = TRANSFER_QUEUE \<and> dr_HostZoneId dep = hz_ChainId z \<and>
    t0 = c\<lparr>c_bank := c_bank t0, c_records := SetDepositRecord (dep\<lparr>dr_Amount := dr_Amount dep + mls_Amount msg\<rparr>) (c_records c)\<rparr>"
proof -
  from assms(1) obtain z' user zaddr tr dep q coins stCoins b1 b2 b3 where
    z': "GetHostZoneFromHostDenom c (mls_HostDenom msg) = Ok z'" "\<not> hz_Halted z'"
    and addr: "sdk_AccAddressFromBech32 env (mls_Creator msg) = Ok user"
      "sdk_AccAddressFromBech32 env (hz_Address z') = Ok zaddr"
    and dep: "GetEpochTracker c STRIDE_EPOCH = Some tr"
      "GetTransferDepositRecordByEpochAndChain (c_records c) (et_EpochNumber tr) (hz_ChainId z') = Some dep"
    and amt: "0 \<le> mls_Amount msg"
    and q: "Dec_Quo (NewDecFromInt (mls_Amount msg)) (hz_RedemptionRate z') = Ok q" "chopPrecisionAndTruncate q \<noteq> 0"
    and send: "NewCoins [(hz_IbcDenom z', mls_Amount msg)] = Ok coins"
      "SendCoins (e_bank env) user zaddr coins (c_bank c) = (Ok (), b1)"
    and mint: "NewCoins [(StAssetDenomFromHostZoneDenom (mls_HostDenom msg), chopPrecisionAndTruncate q)] = Ok stCoins"
      "MintCoins (e_bank env) ''stakeibc'' stCoins b1 = (Ok (), b2)"
      "SendCoinsFromModuleToAccount (e_bank env) ''stakeibc'' user stCoins b2 = (Ok (), b3)"
    and t: "t = hook user (mod_records (SetDepositRecord (dep\<lparr>dr_Amount := dr_Amount dep + mls_Amount msg\<rparr>)) (c\<lparr>c_bank := b3\<rparr>))"
    by (rule LiquidStake_Ok) blast
  have [simp]: "z' = z" using z' assms(3) by simp
  note locked = bank_ok_locked [OF assms(2)]
  define st where "st = chopPrecisionAndTruncate q"
  have qv: "q = chopPrecisionAndRound (big_quo (NewDecFromInt (mls_Amount msg) * (precisionReuse * precisionReuse)) (hz_RedemptionRate z))"
    using q(1) by (simp add: Dec_Quo_Ok)
  have "hz_RedemptionRate z < precisionReuse * precisionReuse" using assms(5) by (simp add: precisionReuse_def)
  note le = stake_redeem_le [OF amt assms(4) this, folded qv, folded st_def]
  have st: "0 < st" using le(2) q(2) by (simp add: st_def)
  have exact: "st = chop_nonneg (NewDecFromInt (mls_Amount msg) * precisionReuse * precisionReuse div hz_RedemptionRate z) div precisionReuse"
  proof -
    have P: "0 < precisionReuse" by (simp add: precisionReuse_def)
    have num: "0 \<le> NewDecFromInt (mls_Amount msg) * precisionReuse * precisionReuse" using amt P by (simp add: NewDecFromInt_def)
    then have "q = chop_nonneg (NewDecFromInt (mls_Amount msg) * precisionReuse * precisionReuse div hz_RedemptionRate z)"
      using qv assms(4) by (simp add: big_quo_pos mult.assoc [symmetric] chopPrecisionAndRound_nonneg pos_imp_zdiv_nonneg_iff)
    moreover from this num assms(4) have "0 \<le> q" by (simp add: chop_nonneg_ge_0 pos_imp_zdiv_nonneg_iff)
    ultimately show ?thesis by (simp add: st_def truncate_nonneg)
  qed
  let ?t0 = "mod_records (SetDepositRecord (dep\<lparr>dr_Amount := dr_Amount dep + mls_Amount msg\<rparr>)) (c\<lparr>c_bank := b3\<rparr>)"
  have sent: "b1 = bank_move user zaddr (hz_IbcDenom z) (mls_Amount msg) (c_bank c)"
    using SendCoins_Ok(1) [OF send(2,1) locked] by simp
  note minted = mint_to_account_Ok [OF mint(2,3,1) locked]
  have "10 ^ 17 * NewDecFromInt (mls_Amount msg) < (10 ^ 17 * (st + 1) + 1) * hz_RedemptionRate z"
    "2 * precisionReuse * (st * hz_RedemptionRate z) \<le> 2 * precisionReuse * NewDecFromInt (mls_Amount msg) + hz_RedemptionRate z"
    using mint_amount_bound [OF amt assms(4), of q] mint_amount_upper [OF amt assms(4), of q] q(1)
    by (simp_all add: st_def NewDecFromInt_def)
  moreover have "bk_balance (c_bank ?t0) a d = bk_balance (c_bank c) a d +
      (if a = zaddr \<and> d = hz_IbcDenom z then mls_Amount msg else 0) -
      (if a = user \<and> d = hz_IbcDenom z then mls_Amount msg else 0) +
      (if a = user \<and> d = ''st'' @ mls_HostDenom msg then st else 0)" for a d
    using minted by (simp add: sent bk_balance_move StAssetDenomFromHostZoneDenom_def st_def)
  moreover have "bk_supply (c_bank ?t0) d = bk_supply (c_bank c) d + (if d = ''st'' @ mls_HostDenom msg then st else 0)" for d
    using minted SendCoins_supply [OF send(2)] by (simp add: StAssetDenomFromHostZoneDenom_def st_def)
  moreover have "dep \<in> set (GetAllDepositRecord (c_records c))" "dr_DepositEpochNumber dep = et_EpochNumber tr"
    "dr_Status dep = TRANSFER_QUEUE" "dr_HostZoneId dep = hz_ChainId z"
    using dep(2) by (auto simp: GetTransferDepositRecordByEpochAndChain_def dest!: find_Some_D)
  moreover have "?t0 = c\<lparr>c_bank := c_bank ?t0, c_records := SetDepositRecord (dep\<lparr>dr_Amount := dr_Amount dep + mls_Amount msg\<rparr>) (c_records c)\<rparr>"
    by (simp add: mod_records_def)
  ultimately show ?thesis
    using t addr st exact le(1) dep(1) z'(2)
    by (intro exI [of _ user] exI [of _ zaddr] exI [of _ tr] exI [of _ dep] exI [of _ st] exI [of _ ?t0]) simp
qed

section \<open>Failed liquid stakes\<close>

lemma SendCoins_bank_ok:
  assumes "SendCoins be from to cs b = (Ok (), b')" "NewCoins [(d, x)] = Ok cs" "bank_ok be b"
  shows "bank_ok be b'"
proof -
  note s = SendCoins_Ok [OF assms(1,2) bank_ok_locked [OF assms(3)]]
  have "0 \<le> bk_balance b' a d'" for a d'
    using s assms(3) by (cases "0 < x") (auto simp: bk_balance_move bank_ok_def)
  with assms(3) show ?thesis by (simp add: bank_ok_def)
qed

lemma minted_can_be_sent:
  assumes "MintCoins be m cs b1 = (Ok (), b2)" "NewCoins [(d, x)] = Ok cs" "bank_ok be b1" "\<not> be_blocked be user"
  shows "SendCoinsFromModuleToAccount be m user cs b2 \<noteq> (Err e, b3)"
proof
  assume run: "SendCoinsFromModuleToAccount be m user cs b2 = (Err e, b3)"
  obtain acc where acc: "be_module be m = Some acc" "b2 = supply_add d x (bank_add acc d x b1)" "0 \<le> x"
    using MintCoins_Ok [OF assms(1,2)] by blast
  have "SendCoins be acc user cs b2 = (Err e, b3)"
    using run acc(1) assms(4) by (simp add: SendCoinsFromModuleToAccount_def)
  moreover have "be_locked be acc d = 0" "0 \<le> bk_balance b1 acc d"
    using assms(3) acc(1) by (auto simp: bank_ok_def)
  ultimately show False
    using assms(2) acc by (auto simp: NewCoins_single SendCoins_single split: if_splits)
qed

text \<open>A liquid stake that returns an error has changed nothing, even before the
  transaction is rolled back: every check comes before the first
  write, and none of the later calls can fail. The one exception is a staker on the bank's block
  list, whom the liquid tokens cannot be sent to.\<close>

theorem LiquidStake_errors_change_nothing:
  assumes "LiquidStake env hook msg c = (Err e, t)" "bank_ok (e_bank env) (c_bank c)"
    and "\<And>user. sdk_AccAddressFromBech32 env (mls_Creator msg) = Ok user \<Longrightarrow> \<not> be_blocked (e_bank env) user"
  shows "t = c"
proof -
  have send: "b = c_bank c"
    if "SendCoins (e_bank env) a a' cs (c_bank c) = (Err e', b)" "NewCoins [(d, x)] = Ok cs" for a a' cs b d x e'
    using SendCoins_Err(1) [OF that bank_ok_locked [OF assms(2)]] .
  have tail: False
    if "SendCoins (e_bank env) a a' cs (c_bank c) = (Ok (), b1)" "NewCoins [(d, x)] = Ok cs"
      "NewCoins [(d', x')] = Ok cs'" "MintCoins (e_bank env) m cs' b1 = (Ok (), b2)"
      "sdk_AccAddressFromBech32 env (mls_Creator msg) = Ok a"
      "SendCoinsFromModuleToAccount (e_bank env) m a cs' b2 = (Err e', b3)" for a a' cs cs' b1 b2 b3 d x d' x' m e'
    using minted_can_be_sent [OF that(4,3) SendCoins_bank_ok [OF that(1,2) assms(2)] assms(3) [OF that(5)]] that(6)
    by blast
  show ?thesis
    using assms(1)
    by (clarsimp simp: LiquidStake_def go_bind_eq_Err go_wrap_eq_Ok go_wrap_eq_Err go_guard_eq go_lift_eq go_gets_eq
        go_found_eq go_modify_eq on_bank_eq NewCoin_Ok NewCoin_no_Err NewCoins_no_Err Dec_TruncateInt_Ok Dec_no_Err
        Int_Add_Ok Int_no_Err Let_def split: option.splits if_splits)
      (auto dest: send tail MintCoins_no_Err split: if_splits)
qed

section \<open>Redemptions\<close>

lemmas go_Ok_simps = go_bind_eq_Ok go_wrap_eq_Ok go_guard_eq go_lift_eq go_gets_eq go_found_eq go_modify_eq
  go_ret_eq go_fail_eq go_panic_eq on_bank_eq on_records_eq

lemmas go_Err_simps = go_bind_eq_Err go_wrap_eq_Ok go_wrap_eq_Err go_guard_eq go_lift_eq go_gets_eq go_found_eq
  go_modify_eq go_ret_eq go_fail_eq go_panic_eq on_bank_eq on_records_eq

lemma add_redemption_Ok [go_simps]:
  "add_redemption n s i h = Ok h' \<longleftrightarrow> fits (hzu_NativeTokenAmount h + n) \<and> fits (hzu_StTokenAmount h + s) \<and>
     h' = h\<lparr>hzu_NativeTokenAmount := hzu_NativeTokenAmount h + n, hzu_StTokenAmount := hzu_StTokenAmount h + s,
       hzu_UserRedemptionRecords := hzu_UserRedemptionRecords h @ [i]\<rparr>"
  by (auto simp: add_redemption_def rbind_eq_Ok Int_Add_Ok)

lemma add_redemption_no_Err: "add_redemption n s i h \<noteq> Err e"
  by (auto simp: add_redemption_def rbind_eq_Err Int_no_Err)

text \<open>The record a redemption leaves.\<close>

definition redemption_record :: "env \<Rightarrow> HostZone \<Rightarrow> uint64 \<Rightarrow> address \<Rightarrow> MsgRedeemStake \<Rightarrow> int \<Rightarrow> UserRedemptionRecord" where
  "redemption_record env z epoch sender msg native =
     \<lparr>urr_Id = UserRedemptionRecordKeyFormatter (hz_ChainId z) epoch (e_EncodeBech32 env ''stride'' sender),
      urr_Sender = e_EncodeBech32 env ''stride'' sender, urr_Receiver = mrs_Receiver msg, urr_Amount = native,
      urr_Denom = hz_HostDenom z, urr_HostZoneId = hz_ChainId z, urr_EpochNumber = epoch, urr_ClaimIsPending = False\<rparr>"

lemma RedeemStake_Ok:
  assumes "RedeemStake env msg c = (Ok u, t)"
  obtains sender z tr zaddr r h r' native coins b where
    "sdk_AccAddressFromBech32 env (mrs_Creator msg) = Ok sender"
    "GetHostZone c (mrs_HostZone msg) = Some z" "\<not> hz_Halted z"
    "GetEpochTracker c DAY_EPOCH = Some tr"
    "GetUserRedemptionRecord (c_records c) (urr_Id (redemption_record env z (et_EpochNumber tr) sender msg native)) = None"
    "native = chopPrecisionAndRound (mrs_Amount msg * hz_RedemptionRate z)" "0 < native" "native \<le> hz_StakedBal z"
    "mrs_Amount msg \<le> bk_balance (c_bank c) sender (StAssetDenomFromHostZoneDenom (hz_HostDenom z))"
    "GetEpochUnbondingRecord (c_records c) (et_EpochNumber tr) = Some r"
    "GetHostZoneUnbondingByChainId (c_records c) (eur_EpochNumber r) (hz_ChainId z) = Some h"
    "NewCoins [(StAssetDenomFromHostZoneDenom (hz_HostDenom z), mrs_Amount msg)] = Ok coins"
    "sdk_AccAddressFromBech32 env (hz_Address z) = Ok zaddr"
    "SendCoins (e_bank env) sender zaddr coins (c_bank c) = (Ok (), b)"
    "AddHostZoneToEpochUnbondingRecord (SetUserRedemptionRecord (redemption_record env z (et_EpochNumber tr) sender msg native) (c_records c))
       (eur_EpochNumber r) (hz_ChainId z)
       (h\<lparr>hzu_NativeTokenAmount := hzu_NativeTokenAmount h + native, hzu_StTokenAmount := hzu_StTokenAmount h + mrs_Amount msg,
          hzu_UserRedemptionRecords := hzu_UserRedemptionRecords h @ [urr_Id (redemption_record env z (et_EpochNumber tr) sender msg native)]\<rparr>) = Some r'"
    "c_records t = SetEpochUnbondingRecord r' (SetUserRedemptionRecord (redemption_record env z (et_EpochNumber tr) sender msg native) (c_records c))"
    "t = c\<lparr>c_bank := b, c_records := c_records t\<rparr>"
  using assms
  by (clarsimp simp: RedeemStake_def go_Ok_simps NewCoin_Ok Dec_Mul_Ok Dec_RoundInt_Ok Int_Add_Ok add_redemption_Ok
      Dec_Mul_int Let_def GetBalance_def not_less redemption_record_def mod_records_def split: option.splits if_splits)

lemma RedeemStake_Err:
  assumes "RedeemStake env msg c = (Err e, t)" "bank_ok (e_bank env) (c_bank c)"
  shows "t = c"
proof -
  have send: "b = c_bank c"
    if "SendCoins (e_bank env) a a' cs (c_bank c) = (Err e', b)" "NewCoins [(d, x)] = Ok cs" for a a' cs b d x e'
    using SendCoins_Err(1) [OF that bank_ok_locked [OF assms(2)]] .
  show ?thesis
    using assms(1)
    by (clarsimp simp: RedeemStake_def go_Err_simps NewCoin_Ok NewCoin_no_Err NewCoins_no_Err
        Dec_no_Err Int_no_Err add_redemption_no_Err Let_def split: option.splits if_splits)
      (auto dest: send split: if_splits option.splits)
qed

text \<open>Property C10. A redemption that succeeds moves exactly the liquid tokens from the account of the
  message's creator, who holds as many, to the address of the zone, which exists and is not
  halted, files one redemption record that did not exist before, for the rounded value of the
  tokens at the zone's rate, which is positive and covered by the staked balance, and adds both
  amounts and the record's id to the zone's unbonding of the epoch the day tracker is in. Other
  users' records, other unbondings, deposit records and everything that is neither bank nor record
  stay. One that returns an error has changed nothing.\<close>

theorem RedeemStake_escrows:
  assumes "RedeemStake env msg c = (r, t)" "bank_ok (e_bank env) (c_bank c)"
    and "records_wf (c_records c)" "zones_wf c"
  shows "(\<forall>e. r = Err e \<longrightarrow> t = c) \<and>
    (r = Ok () \<longrightarrow> (\<exists>sender z tr zaddr h rec native.
      sdk_AccAddressFromBech32 env (mrs_Creator msg) = Ok sender \<and>
      GetHostZone c (mrs_HostZone msg) = Some z \<and> \<not> hz_Halted z \<and> sdk_AccAddressFromBech32 env (hz_Address z) = Ok zaddr \<and>
      GetEpochTracker c DAY_EPOCH = Some tr \<and> mrs_Amount msg \<le> bk_balance (c_bank c) sender (''st'' @ hz_HostDenom z) \<and>
      native = chopPrecisionAndRound (mrs_Amount msg * hz_RedemptionRate z) \<and> 0 < native \<and> native \<le> hz_StakedBal z \<and>
      rec = redemption_record env z (et_EpochNumber tr) sender msg native \<and>
      c_bank t = bank_move sender zaddr (''st'' @ hz_HostDenom z) (mrs_Amount msg) (c_bank c) \<and>
      GetUserRedemptionRecord (c_records c) (urr_Id rec) = None \<and>
      GetUserRedemptionRecord (c_records t) = (GetUserRedemptionRecord (c_records c))(urr_Id rec \<mapsto> rec) \<and>
      GetHostZoneUnbondingByChainId (c_records c) (et_EpochNumber tr) (hz_ChainId z) = Some h \<and>
      (\<forall>ep k. GetHostZoneUnbondingByChainId (c_records t) ep k =
        (if ep = et_EpochNumber tr \<and> k = hz_ChainId z
         then Some (h\<lparr>hzu_NativeTokenAmount := hzu_NativeTokenAmount h + native,
           hzu_StTokenAmount := hzu_StTokenAmount h + mrs_Amount msg,
           hzu_UserRedemptionRecords := hzu_UserRedemptionRecords h @ [urr_Id rec]\<rparr>)
         else GetHostZoneUnbondingByChainId (c_records c) ep k)) \<and>
      GetDepositRecord (c_records t) = GetDepositRecord (c_records c) \<and>
      t = c\<lparr>c_bank := c_bank t, c_records := c_records t\<rparr>))"
    (is "_ \<and> (_ \<longrightarrow> ?Q)")
proof (intro conjI allI impI)
  show "t = c" if "r = Err e" for e using assms(1,2) that by (auto intro: RedeemStake_Err)
next
  assume "r = Ok ()"
  with assms(1) have run: "RedeemStake env msg c = (Ok (), t)" by simp
  then obtain sender z tr zaddr ru h r' native coins b where
    z: "sdk_AccAddressFromBech32 env (mrs_Creator msg) = Ok sender"
      "GetHostZone c (mrs_HostZone msg) = Some z" "\<not> hz_Halted z" "sdk_AccAddressFromBech32 env (hz_Address z) = Ok zaddr"
      "GetEpochTracker c DAY_EPOCH = Some tr"
      "mrs_Amount msg \<le> bk_balance (c_bank c) sender (StAssetDenomFromHostZoneDenom (hz_HostDenom z))"
      "GetUserRedemptionRecord (c_records c) (urr_Id (redemption_record env z (et_EpochNumber tr) sender msg native)) = None"
      "native = chopPrecisionAndRound (mrs_Amount msg * hz_RedemptionRate z)" "0 < native" "native \<le> hz_StakedBal z"
    and ru: "GetEpochUnbondingRecord (c_records c) (et_EpochNumber tr) = Some ru"
      "GetHostZoneUnbondingByChainId (c_records c) (eur_EpochNumber ru) (hz_ChainId z) = Some h"
    and send: "NewCoins [(StAssetDenomFromHostZoneDenom (hz_HostDenom z), mrs_Amount msg)] = Ok coins"
      "SendCoins (e_bank env) sender zaddr coins (c_bank c) = (Ok (), b)"
    and r': "AddHostZoneToEpochUnbondingRecord (SetUserRedemptionRecord (redemption_record env z (et_EpochNumber tr) sender msg native) (c_records c))
       (eur_EpochNumber ru) (hz_ChainId z)
       (h\<lparr>hzu_NativeTokenAmount := hzu_NativeTokenAmount h + native, hzu_StTokenAmount := hzu_StTokenAmount h + mrs_Amount msg,
          hzu_UserRedemptionRecords := hzu_UserRedemptionRecords h @ [urr_Id (redemption_record env z (et_EpochNumber tr) sender msg native)]\<rparr>) = Some r'"
    and t: "c_records t = SetEpochUnbondingRecord r' (SetUserRedemptionRecord (redemption_record env z (et_EpochNumber tr) sender msg native) (c_records c))"
      "t = c\<lparr>c_bank := b, c_records := c_records t\<rparr>"
    by (rule RedeemStake_Ok) blast
  let ?rec = "redemption_record env z (et_EpochNumber tr) sender msg native"
  let ?s = "SetUserRedemptionRecord ?rec (c_records c)"
  have ep: "eur_EpochNumber ru = et_EpochNumber tr" using assms(3) ru(1) by (rule unbondings.get_key)
  have wf: "records_wf ?s" using assms(3) by (rule redemptions.wf_put)
  have hid: "hzu_HostZoneId h = hz_ChainId z" using ru(2) by (rule GetHZU_HostZoneId)
  have same: "GetHostZoneUnbondingByChainId ?s = GetHostZoneUnbondingByChainId (c_records c)"
    by (simp add: fun_eq_iff GetHostZoneUnbondingByChainId_def)
  have b: "c_bank t = b" using arg_cong [OF t(2), of c_bank] by simp
  have bank: "c_bank t = bank_move sender zaddr (''st'' @ hz_HostDenom z) (mrs_Amount msg) (c_bank c)"
    using SendCoins_Ok(1) [OF send(2,1) bank_ok_locked [OF assms(2)]] b
    by (simp add: StAssetDenomFromHostZoneDenom_def)
  have hzu: "GetHostZoneUnbondingByChainId (c_records t) e k =
        (if e = et_EpochNumber tr \<and> k = hz_ChainId z
         then Some (h\<lparr>hzu_NativeTokenAmount := hzu_NativeTokenAmount h + native,
           hzu_StTokenAmount := hzu_StTokenAmount h + mrs_Amount msg,
           hzu_UserRedemptionRecords := hzu_UserRedemptionRecords h @ [urr_Id ?rec]\<rparr>)
         else GetHostZoneUnbondingByChainId (c_records c) e k)" for e k
    using GetHZU_put [OF wf r'] hid by (simp add: t(1) ep same)
  have "GetUserRedemptionRecord (c_records t) = (GetUserRedemptionRecord (c_records c))(urr_Id ?rec \<mapsto> ?rec)"
    by (simp add: t(1) fun_eq_iff redemptions.get_put)
  moreover have "GetDepositRecord (c_records t) = GetDepositRecord (c_records c)" by (simp add: t(1))
  moreover have "t = c\<lparr>c_bank := c_bank t, c_records := c_records t\<rparr>" using t(2) unfolding b .
  ultimately show ?Q
    using z [unfolded StAssetDenomFromHostZoneDenom_def] ru(2) [unfolded ep] bank hzu
    by (intro exI [of _ sender] exI [of _ z] exI [of _ tr] exI [of _ zaddr] exI [of _ h] exI [of _ ?rec] exI [of _ native] conjI)
      (simp_all add: StAssetDenomFromHostZoneDenom_def)
qed

section \<open>A staker on the small instance\<close>

definition demo_user :: string where
  "demo_user = ''stride1aaaaaaaaaaaaaaaaaaaa''"

definition staking_chain :: chain where
  "staking_chain = (demo_chain [demo_validator ''v1'' 1 500])
     \<lparr>c_bank := \<lparr>bk_balance = (\<lambda>a d. if a = ''aaaaaaaaaaaaaaaaaaaa'' \<and> d \<in> {''ibc/atom'', ''stuatom''} then 1000 else 0),
        bk_supply = (\<lambda>d. 1000)\<rparr>,
      c_records := SetDepositRecord ((demo_deposit 7 TRANSFER_QUEUE)\<lparr>dr_DepositEpochNumber := 3\<rparr>)
        (SetEpochUnbondingRecord \<lparr>eur_EpochNumber = 3, eur_HostZoneUnbondings = [demo_hzu ''GAIA'' 0 UNBONDING_QUEUE]\<rparr> records_empty)\<rparr>"

lemma staking_chain_simps [simp]:
  "GetHostZone staking_chain ''GAIA'' = Some (demo_zone [demo_validator ''v1'' 1 500])"
  "GetHostZoneFromHostDenom staking_chain ''uatom'' = Ok (demo_zone [demo_validator ''v1'' 1 500])"
  "GetEpochTracker staking_chain STRIDE_EPOCH = Some (demo_tracker STRIDE_EPOCH)"
  "GetEpochTracker staking_chain DAY_EPOCH = Some (demo_tracker DAY_EPOCH)"
  "zones_wf staking_chain" "records_wf (c_records staking_chain)"
proof -
  show "records_wf (c_records staking_chain)"
    unfolding staking_chain_def by (simp add: deposits.wf_put unbondings.wf_put unbondings.wf_fresh)
  show "GetHostZoneFromHostDenom staking_chain ''uatom'' = Ok (demo_zone [demo_validator ''v1'' 1 500])"
    by (simp add: staking_chain_def demo_chain_def GetHostZoneFromHostDenom_def last_match_def GetAllHostZone_def
        SetHostZone_def SetEpochTracker_def empty_chain_def kv_values_def demo_zone_def)
  show "zones_wf staking_chain"
    unfolding staking_chain_def demo_chain_def by (simp add: zones.wf_put)
qed (simp_all add: staking_chain_def)

lemma demo_fields [simp]:
  "e_bank demo_env = demo_bank_env" "e_params demo_env = DefaultParams" "hz_ChainId (demo_zone vs) = ''GAIA''"
  "hz_HostDenom (demo_zone vs) = ''uatom''" "hz_IbcDenom (demo_zone vs) = ''ibc/atom''"
  "hz_RedemptionRate (demo_zone vs) = OneDec" "hz_StakedBal (demo_zone vs) = total_delegation vs"
  "hz_Halted (demo_zone vs) = False" "hz_Validators (demo_zone vs) = vs"
  by (simp_all add: demo_env_def demo_zone_def)

lemma demo_addresses:
  "sdk_AccAddressFromBech32 demo_env demo_user = Ok ''aaaaaaaaaaaaaaaaaaaa''"
  "sdk_AccAddressFromBech32 demo_env (hz_Address (demo_zone vs)) = Ok ''zzzzzzzzzzzzzzzzzzzz''"
  by (simp_all add: sdk_AccAddressFromBech32_def demo_user_def demo_zone_def is_space_def demo_env_def AddressVerifier_def)

lemma staking_bank_ok: "bank_ok (e_bank demo_env) (c_bank staking_chain)"
  by (simp add: bank_ok_def staking_chain_def demo_env_def demo_bank_env_def)

lemma demo_rate: "IsRedemptionRateWithinSafetyBounds demo_env (demo_zone vs) = Ok True"
  by (simp add: IsRedemptionRateWithinSafetyBounds_def demo_env_def DefaultParams_def demo_zone_def Dec_Quo_percent
      OneDec_def precisionReuse_def)

lemma demo_denoms: "ValidateDenom ''ibc/atom''" "ValidateDenom ''stuatom''" "IsIBCToken ''ibc/atom''"
  by (simp_all add: ValidateDenom_def denom_letter_def denom_char_def IsIBCToken_def)

lemma demo_quo: "Dec_Quo (NewDecFromInt 300) OneDec = Ok (300 * precisionReuse)"
proof -
  have "big_quo (NewDecFromInt 300 * (precisionReuse * precisionReuse)) OneDec = (300 * precisionReuse) * precisionReuse"
    by (simp add: NewDecFromInt_def OneDec_def big_quo_pos)
  then show ?thesis
    by (simp only: Dec_Quo_Ok chopPrecisionAndRound_exact)
      (simp add: OneDec_def fits_dec_def precisionReuse_def)
qed

lemma staking_bank: "c_bank staking_chain =
    \<lparr>bk_balance = (\<lambda>a d. if a = ''aaaaaaaaaaaaaaaaaaaa'' \<and> d \<in> {''ibc/atom'', ''stuatom''} then 1000 else 0),
     bk_supply = (\<lambda>d. 1000)\<rparr>"
  by (simp add: staking_chain_def)

lemma demo_liquid_stake:
  "\<exists>t. LiquidStake demo_env (\<lambda>_ c. c) \<lparr>mls_Creator = demo_user, mls_Amount = 300, mls_HostDenom = ''uatom''\<rparr> staking_chain = (Ok (), t)"
proof -
  have "Dec_TruncateInt (300 * precisionReuse) = Ok 300"
    by (simp add: Dec_TruncateInt_Ok fits_def truncate_nonneg)
  moreover have "GetTransferDepositRecordByEpochAndChain (c_records staking_chain) 3 ''GAIA'' =
      Some ((demo_deposit 7 TRANSFER_QUEUE)\<lparr>dr_DepositEpochNumber := 3\<rparr>)"
    by (simp add: staking_chain_def GetTransferDepositRecordByEpochAndChain_def GetAllDepositRecord_def SetDepositRecord_def
        SetEpochUnbondingRecord_def records_empty_def kv_values_def demo_deposit_def)
  ultimately show ?thesis
    using demo_quo demo_rate [of "[demo_validator ''v1'' 1 500]"] demo_denoms
    by (simp add: LiquidStake_def go_defs demo_addresses demo_rate demo_denoms demo_quo NewCoin_def NewCoins_single on_bank_def
        SendCoins_single MintCoins_def addCoins_single SendCoinsFromModuleToAccount_def Let_def GetBalance_def
        GetSupply_def Int_Add_eq fits_def demo_tracker_def demo_bank_env_def staking_bank StAssetDenomFromHostZoneDenom_def
        demo_deposit_def setSupply_def bk_balance_move)
qed

theorem LiquidStake_mints_by_rate_witness:
  "\<exists>t. LiquidStake demo_env (\<lambda>_ c. c) \<lparr>mls_Creator = demo_user, mls_Amount = 300, mls_HostDenom = ''uatom''\<rparr> staking_chain = (Ok (), t) \<and>
    bk_balance (c_bank t) ''zzzzzzzzzzzzzzzzzzzz'' ''ibc/atom'' = 300 \<and>
    bk_balance (c_bank t) ''aaaaaaaaaaaaaaaaaaaa'' ''ibc/atom'' = 700 \<and>
    bk_supply (c_bank t) ''stuatom'' = 1300"
proof -
  obtain t where run: "LiquidStake demo_env (\<lambda>_ c. c)
      \<lparr>mls_Creator = demo_user, mls_Amount = 300, mls_HostDenom = ''uatom''\<rparr> staking_chain = (Ok (), t)"
    using demo_liquid_stake by blast
  show ?thesis
    using LiquidStake_mints_by_rate [OF run staking_bank_ok, of "demo_zone [demo_validator ''v1'' 1 500]"] run
    by (clarsimp simp: demo_addresses OneDec_def staking_bank precisionReuse_def NewDecFromInt_def chop_nonneg_def Let_def)
qed

theorem LiquidStake_errors_change_nothing_witness:
  "\<exists>e. LiquidStake demo_env (\<lambda>_ c. c) \<lparr>mls_Creator = demo_user, mls_Amount = 2000, mls_HostDenom = ''uatom''\<rparr> staking_chain = (Err e, staking_chain)"
proof -
  have "GetTransferDepositRecordByEpochAndChain (c_records staking_chain) 3 ''GAIA'' =
      Some ((demo_deposit 7 TRANSFER_QUEUE)\<lparr>dr_DepositEpochNumber := 3\<rparr>)"
    by (simp add: staking_chain_def GetTransferDepositRecordByEpochAndChain_def GetAllDepositRecord_def SetDepositRecord_def
        SetEpochUnbondingRecord_def records_empty_def kv_values_def demo_deposit_def)
  then obtain e t where run: "LiquidStake demo_env (\<lambda>_ c. c)
      \<lparr>mls_Creator = demo_user, mls_Amount = 2000, mls_HostDenom = ''uatom''\<rparr> staking_chain = (Err e, t)"
    using demo_rate [of "[demo_validator ''v1'' 1 500]"] demo_denoms
    by (simp add: LiquidStake_def go_defs demo_addresses demo_tracker_def NewCoin_def GetBalance_def staking_bank Let_def)
  show ?thesis
    using LiquidStake_errors_change_nothing [OF run staking_bank_ok] run
    by (simp add: demo_addresses demo_bank_env_def)
qed

lemma staking_records:
  "GetUserRedemptionRecord (c_records staking_chain) k = None"
  "GetEpochUnbondingRecord (c_records staking_chain) 3 =
     Some \<lparr>eur_EpochNumber = 3, eur_HostZoneUnbondings = [demo_hzu ''GAIA'' 0 UNBONDING_QUEUE]\<rparr>"
  "GetHostZoneUnbondingByChainId (c_records staking_chain) 3 ''GAIA'' = Some (demo_hzu ''GAIA'' 0 UNBONDING_QUEUE)"
  by (simp_all add: staking_chain_def GetHostZoneUnbondingByChainId_def unbondings.get_put demo_hzu_def
      redemptions.get_fresh)

definition demo_redemption :: MsgRedeemStake where
  "demo_redemption = \<lparr>mrs_Creator = demo_user, mrs_Amount = 300, mrs_HostZone = ''GAIA'',
     mrs_Receiver = ''cosmos1bbbbbbbbbbbbbbbbbbbb''\<rparr>"

lemma demo_redeem: "\<exists>t. RedeemStake demo_env demo_redemption staking_chain = (Ok (), t)"
proof -
  have "AccAddressFromBech32 demo_env ''cosmos1bbbbbbbbbbbbbbbbbbbb'' p = Ok ''bbbbbbbbbbbbbbbbbbbb''" for p
    by (simp add: AccAddressFromBech32_def GetFromBech32_def VerifyAddressFormat_def demo_env_def is_space_def)
  moreover have "Dec_Mul (NewDecFromInt 300) OneDec = Ok (300 * precisionReuse)"
    by (simp add: Dec_Mul_Ok chopPrecisionAndRound_exact OneDec_def NewDecFromInt_def fits_dec_def)
       (simp add: precisionReuse_def)
  moreover have "Dec_RoundInt (300 * precisionReuse) = Ok 300"
    by (simp add: Dec_RoundInt_Ok chopPrecisionAndRound_exact fits_def)
  moreover have "e_ParseCoin demo_env 300 ''stuatom''" using demo_denoms by (simp add: demo_env_def)
  ultimately show ?thesis
    using demo_rate [of "[demo_validator ''v1'' 1 500]"] demo_denoms
    by (simp add: RedeemStake_def demo_redemption_def go_defs demo_addresses demo_tracker_def NewCoin_def NewCoins_single
        on_bank_def SendCoins_single Let_def GetBalance_def Int_Add_eq fits_def demo_bank_env_def staking_bank
        StAssetDenomFromHostZoneDenom_def staking_records demo_validator_def demo_hzu_def add_redemption_def rbind_def
        AddHostZoneToEpochUnbondingRecord_def mod_records_def)
qed

theorem RedeemStake_escrows_witness:
  "\<exists>t. RedeemStake demo_env demo_redemption staking_chain = (Ok (), t) \<and>
    bk_balance (c_bank t) ''zzzzzzzzzzzzzzzzzzzz'' ''stuatom'' = 300 \<and>
    bk_balance (c_bank t) ''aaaaaaaaaaaaaaaaaaaa'' ''stuatom'' = 700 \<and> bk_supply (c_bank t) ''stuatom'' = 1000 \<and>
    (\<exists>h. GetHostZoneUnbondingByChainId (c_records t) 3 ''GAIA'' = Some h \<and> hzu_NativeTokenAmount h = 300)"
proof -
  obtain t where run: "RedeemStake demo_env demo_redemption staking_chain = (Ok (), t)" using demo_redeem by blast
  have "chopPrecisionAndRound (300 * OneDec) = 300"
    by (simp add: OneDec_def chopPrecisionAndRound_exact)
  then show ?thesis
    using RedeemStake_escrows [OF run staking_bank_ok] run
    by (auto simp: staking_records demo_redemption_def demo_tracker_def demo_hzu_def staking_bank demo_addresses bk_balance_move)
qed

text \<open>The prefix a receiver's address is checked against plays no part: any well-formed
  address of twenty bytes is accepted as a receiver on any host chain.\<close>

theorem receiver_prefix_not_checked:
  "AccAddressFromBech32 env a p = AccAddressFromBech32 env a q"
  by (simp add: AccAddressFromBech32_def GetFromBech32_def split: option.splits)

end
