(* ===== verification/Coins.thy ===== *)
theory Coins
  imports Bank "HOL-Library.Multiset"
begin

text \<open>
  \<open>sdk.Coins\<close> (\<open>types/coin.go\<close> of the vendored SDK), as far as the modules compute
  with it: sums, differences, minima and look-ups of coin lists sorted by denom.

  \<open>amt\<close> reads a coin list as a function from denoms to amounts. The lemmas show that each
  operation does on amounts what its name says, that its result is again a valid list, and when it
  panics; the components reason with \<open>amt\<close> and never unfold a list.
\<close>

section \<open>Operations\<close>

text \<open>\<open>Coins.Sub\<close> adds the negated coins denom by denom and panics on a negative result;
  \<open>Find\<close> is a binary search.\<close>

definition combo_coin :: "coins \<Rightarrow> denom \<Rightarrow> int res" where
  "combo_coin cs d = res_acc (\<lambda>c sum. Int_Add sum (snd c)) (filter (\<lambda>c. fst c = d) cs) 0"

definition Coins_safeAdd :: "coins \<Rightarrow> coins \<Rightarrow> coins res" where
  "Coins_safeAdd coins coinsB =
     (if \<not> sorted (map fst coins) \<or> \<not> sorted (map fst coinsB) then Panic
      else rbind (res_acc (\<lambda>d out. rbind (combo_coin (coins @ coinsB) d) (\<lambda>x. Ok (out @ [(d, x)])))
             (sort (remdups (map fst (coins @ coinsB)))) [])
           (\<lambda>coalesced. Ok (filter (\<lambda>c. snd c \<noteq> 0) coalesced)))"

definition Coins_negative :: "coins \<Rightarrow> coins" where
  "Coins_negative cs = map (\<lambda>c. (fst c, - snd c)) cs"

definition Coins_Sub :: "coins \<Rightarrow> coins \<Rightarrow> coins res" where
  "Coins_Sub coins coinsB =
     rbind (NewCoins coinsB) (\<lambda>b.
     rbind (Coins_safeAdd coins (Coins_negative b)) (\<lambda>diff.
     if list_ex (\<lambda>c. snd c < 0) diff then Panic else Ok diff))"

function Coins_Find :: "coins \<Rightarrow> denom \<Rightarrow> int option" where
  "Coins_Find cs d =
     (case cs of
        [] \<Rightarrow> None
      | [c] \<Rightarrow> if fst c = d then Some (snd c) else None
      | _ \<Rightarrow>
          let midIdx = length cs div 2; c = cs ! midIdx in
          if d < fst c then Coins_Find (take midIdx cs) d
          else if d = fst c then Some (snd c)
          else Coins_Find (drop (midIdx + 1) cs) d)"
  by pat_completeness auto
termination by (relation "measure (length \<circ> fst)") auto

declare Coins_Find.simps [simp del]

definition AmountOf :: "coins \<Rightarrow> denom \<Rightarrow> int res" where
  "AmountOf cs d =
     (if \<not> ValidateDenom d then Panic
      else Ok (case Coins_Find cs d of Some x \<Rightarrow> x | None \<Rightarrow> 0))"

definition Int_Int64 :: "int \<Rightarrow> int res" where
  "Int_Int64 x = (if is_int64 x then Ok x else Panic)"

definition Coins_Add :: "coins \<Rightarrow> coins \<Rightarrow> coins res" where
  "Coins_Add coins coinsB = Coins_safeAdd coins coinsB"

fun coins_min :: "coins \<Rightarrow> coins \<Rightarrow> coins" where
  "coins_min (a # as) (b # bs) =
     (if fst a < fst b then coins_min as (b # bs)
      else if fst a = fst b then
        (let minCoin = (if snd b < snd a then b else a) in
         (if snd minCoin \<noteq> 0 then [minCoin] else []) @ coins_min as bs)
      else coins_min (a # as) bs)"
| "coins_min _ _ = []"

definition Coins_Min :: "coins \<Rightarrow> coins \<Rightarrow> coins res" where
  "Coins_Min coins coinsB = NewCoins (coins_min coins coinsB)"

definition Coins_IsAllGTE :: "coins \<Rightarrow> coins \<Rightarrow> bool res" where
  "Coins_IsAllGTE coins coinsB =
     (if coinsB = [] then Ok True
      else if coins = [] then Ok False
      else res_acc (\<lambda>coinB all. if \<not> all then Ok False
             else rbind (AmountOf coins (fst coinB)) (\<lambda>amount. Ok (\<not> snd coinB > amount))) coinsB True)"

definition Coins_IsAllLTE :: "coins \<Rightarrow> coins \<Rightarrow> bool res" where
  "Coins_IsAllLTE coins coinsB = Coins_IsAllGTE coinsB coins"

text \<open>\<open>Coin.IsEqual\<close> panics on two different denoms.\<close>

definition Coins_IsEqual :: "coins \<Rightarrow> coins \<Rightarrow> bool res" where
  "Coins_IsEqual coins coinsB =
     (if length coins \<noteq> length coinsB then Ok False
      else res_acc (\<lambda>p all. if \<not> all then Ok False
             else if fst (fst p) \<noteq> fst (snd p) then Panic else Ok (snd (fst p) = snd (snd p)))
           (zip (sort_key fst coins) (sort_key fst coinsB)) True)"

section \<open>Binary search\<close>

lemma Coins_Find_split:
  assumes "2 \<le> length cs"
  shows "Coins_Find cs d =
    (let midIdx = length cs div 2; c = cs ! midIdx in
     if d < fst c then Coins_Find (take midIdx cs) d
     else if d = fst c then Some (snd c) else Coins_Find (drop (midIdx + 1) cs) d)"
proof -
  obtain c1 c2 cs' where "cs = c1 # c2 # cs'" using assms by (cases cs; cases "tl cs") auto
  then show ?thesis by (subst Coins_Find.simps) simp
qed

text \<open>On coins sorted by denom the binary search finds what a linear search finds.\<close>

lemma Coins_Find_map_of:
  assumes "sorted_wrt (<) (map fst cs)"
  shows "Coins_Find cs d = map_of cs d"
  using assms
proof (induction cs rule: length_induct)
  case (1 cs)
  show ?case
  proof (cases "length cs < 2")
    case True
    then consider "cs = []" | c where "cs = [c]" by (cases cs; cases "tl cs") auto
    then show ?thesis by cases (simp_all add: Coins_Find.simps)
  next
    case False
    define m where "m = length cs div 2"
    define c where "c = cs ! m"
    have m: "m < length cs" using False by (simp add: m_def)
    have dec: "cs = take m cs @ c # drop (m + 1) cs"
      using m by (simp add: c_def id_take_nth_drop)
    with "1.prems" have s: "sorted_wrt (<) (map fst (take m cs @ c # drop (m + 1) cs))" by simp
    have l: "\<forall>x\<in>set (take m cs). fst x < fst c" and r: "\<forall>x\<in>set (drop (m + 1) cs). fst c < fst x"
      and sl: "sorted_wrt (<) (map fst (take m cs))" and sr: "sorted_wrt (<) (map fst (drop (m + 1) cs))"
      using s by (auto simp: sorted_wrt_append)
    have IH: "Coins_Find (take m cs) d = map_of (take m cs) d"
      "Coins_Find (drop (m + 1) cs) d = map_of (drop (m + 1) cs) d"
      using "1.IH" sl sr m by auto
    have unf: "Coins_Find cs d =
        (if d < fst c then map_of (take m cs) d else if d = fst c then Some (snd c)
         else map_of (drop (m + 1) cs) d)"
      using False IH by (simp add: Coins_Find_split m_def c_def Let_def)
    have look: "map_of cs d = (map_of (drop (m + 1) cs) ++ [fst c \<mapsto> snd c] ++ map_of (take m cs)) d"
      by (subst dec) (cases c, simp)
    have none: "map_of xs d = None" if "\<forall>x\<in>set xs. fst x \<noteq> d" for xs :: coins
      using that by (auto simp: map_of_eq_None_iff)
    have "d < fst c \<Longrightarrow> map_of (drop (m + 1) cs) d = None" "fst c \<le> d \<Longrightarrow> map_of (take m cs) d = None"
      using l r by (intro none; force)+
    then show ?thesis unfolding unf look map_add_def by (auto split: option.splits)
  qed
qed

lemma AmountOf_single:
  "ValidateDenom d' \<Longrightarrow> AmountOf (if x = 0 then [] else [(d, x)]) d' = Ok (if d = d' then x else 0)"
  by (auto simp: AmountOf_def Coins_Find_map_of)

lemma Coins_Sub_single:
  assumes "ValidateDenom d" "0 \<le> y" "y \<le> x" "fits x" "NewCoins [(d, x)] = Ok cs" "NewCoins [(d, y)] = Ok cs'"
  shows "\<exists>r. Coins_Sub cs cs' = Ok r \<and> NewCoins [(d, x - y)] = Ok r"
  using assms
  by (auto simp: Coins_Sub_def Coins_safeAdd_def Coins_negative_def combo_coin_def NewCoins_single Int_Add_eq
      NewCoins_def Coins_IsValid_def fits_def split: if_splits)

lemma Int_Int64_Ok [go_simps]: "Int_Int64 x = Ok y \<longleftrightarrow> is_int64 x \<and> y = x"
  by (auto simp: Int_Int64_def)

section \<open>Amounts\<close>

definition amt :: "coins \<Rightarrow> denom \<Rightarrow> int" where
  "amt cs d = sum_list (map snd (filter (\<lambda>c. fst c = d) cs))"

lemma amt_simps [simp]:
  "amt [] d = 0" "amt (c # cs) d = (if fst c = d then snd c else 0) + amt cs d"
  "amt (cs @ cs') d = amt cs d + amt cs' d"
  by (simp_all add: amt_def)

lemma amt_notin: "d \<notin> fst ` set cs \<Longrightarrow> amt cs d = 0"
  by (induction cs) auto

lemma amt_nonneg: "(\<And>c. c \<in> set cs \<Longrightarrow> 0 \<le> snd c) \<Longrightarrow> 0 \<le> amt cs d"
  by (auto simp: amt_def intro: sum_list_map_nonneg)

lemma amt_member: "(\<And>c. c \<in> set cs \<Longrightarrow> 0 \<le> snd c) \<Longrightarrow> c \<in> set cs \<Longrightarrow> snd c \<le> amt cs (fst c)"
  unfolding amt_def by (rule sum_list_map_ge_member) auto

lemma amt_filter_zero [simp]: "amt (filter (\<lambda>c. snd c \<noteq> 0) cs) d = amt cs d"
  by (induction cs) auto

lemma amt_negative [simp]: "amt (Coins_negative cs) d = - amt cs d"
  by (induction cs) (auto simp: Coins_negative_def)

lemma amt_distinct: "distinct (map fst cs) \<Longrightarrow> c \<in> set cs \<Longrightarrow> amt cs (fst c) = snd c"
  by (induction cs) (auto simp: amt_notin rev_image_eqI)

lemma strictly_sorted_distinct: "sorted_wrt (<) (map fst cs) \<Longrightarrow> distinct (map fst (cs :: coins))"
  using strict_sorted_iff by blast

lemma map_of_amt:
  assumes "sorted_wrt (<) (map fst cs)"
  shows "(case map_of cs d of Some x \<Rightarrow> x | None \<Rightarrow> 0) = amt cs d"
proof (cases "map_of cs d")
  case None
  then have "d \<notin> fst ` set cs" by (simp add: map_of_eq_None_iff)
  with None show ?thesis by (simp add: amt_notin)
next
  case (Some x)
  then have "amt cs (fst (d, x)) = snd (d, x)"
    by (intro amt_distinct strictly_sorted_distinct assms map_of_SomeD)
  with Some show ?thesis by simp
qed

lemma AmountOf_amt:
  "sorted_wrt (<) (map fst cs) \<Longrightarrow> AmountOf cs d = (if ValidateDenom d then Ok (amt cs d) else Panic)"
  by (simp add: AmountOf_def Coins_Find_map_of map_of_amt)

lemma IsValid_sorted: "Coins_IsValid cs \<Longrightarrow> sorted_wrt (<) (map fst cs)"
  and IsValid_pos: "Coins_IsValid cs \<Longrightarrow> c \<in> set cs \<Longrightarrow> 0 < snd c"
  and IsValid_denom: "Coins_IsValid cs \<Longrightarrow> c \<in> set cs \<Longrightarrow> ValidateDenom (fst c)"
  by (auto simp: Coins_IsValid_def list_all_iff)

lemma IsValid_amt_nonneg: "Coins_IsValid cs \<Longrightarrow> 0 \<le> amt cs d"
  by (rule amt_nonneg) (auto dest: IsValid_pos)

lemma IsValid_Nil [simp]: "Coins_IsValid []"
  by (simp add: Coins_IsValid_def)

lemma IsValid_single: "Coins_IsValid [(d, x)] \<longleftrightarrow> ValidateDenom d \<and> 0 < x"
  by (simp add: Coins_IsValid_def)

text \<open>A valid list is determined by its amounts.\<close>

lemma IsValid_mem_iff: "Coins_IsValid cs \<Longrightarrow> (d, x) \<in> set cs \<longleftrightarrow> x = amt cs d \<and> x \<noteq> 0"
proof
  assume "Coins_IsValid cs" "(d, x) \<in> set cs"
  then show "x = amt cs d \<and> x \<noteq> 0"
    using amt_distinct [of cs "(d, x)"] IsValid_pos [of cs "(d, x)"]
    by (simp add: IsValid_sorted strictly_sorted_distinct)
next
  assume v: "Coins_IsValid cs" and x: "x = amt cs d \<and> x \<noteq> 0"
  then have "d \<in> fst ` set cs" using amt_notin by blast
  then obtain y where "(d, y) \<in> set cs" by force
  with amt_distinct [of cs "(d, y)"] v x show "(d, x) \<in> set cs"
    by (simp add: IsValid_sorted strictly_sorted_distinct)
qed

lemma IsValid_ext:
  assumes "Coins_IsValid cs" "Coins_IsValid cs'" "\<And>d. amt cs d = amt cs' d"
  shows "cs = cs'"
proof -
  have "set cs = set cs'" using assms by (auto simp: IsValid_mem_iff)
  moreover have "distinct (map fst cs)" "distinct (map fst cs')" "sorted (map fst cs)" "sorted (map fst cs')"
    using assms IsValid_sorted strict_sorted_iff by blast+
  ultimately show ?thesis
    by (metis map_sorted_distinct_set_unique Un_absorb distinct_map)
qed

lemma NewCoins_Ok:
  assumes "NewCoins cs = Ok r"
  shows "Coins_IsValid r" "amt r d = amt cs d"
proof -
  have r: "r = sort_key fst (filter (\<lambda>c. snd c \<noteq> 0) cs)" and "Coins_IsValid r"
    using assms by (auto simp: NewCoins_def Let_def split: if_splits)
  then show "Coins_IsValid r" by simp
  have "amt (sort_key fst xs) d = amt xs d" for xs :: coins
    unfolding amt_def by (metis (no_types) mset_filter mset_map mset_sort sum_mset_sum_list)
  then show "amt r d = amt cs d" by (simp add: r)
qed

lemma NewCoins_valid: "Coins_IsValid cs \<Longrightarrow> NewCoins cs = Ok cs"
proof -
  assume v: "Coins_IsValid cs"
  then have "filter (\<lambda>c. snd c \<noteq> 0) cs = cs" by (auto simp: filter_id_conv dest: IsValid_pos)
  moreover have "sort_key fst cs = cs"
    using v IsValid_sorted strict_sorted_iff by (intro sort_key_id_if_sorted) blast
  ultimately show ?thesis using v by (simp add: NewCoins_def)
qed

section \<open>Sums and differences\<close>

lemma combo_coin_Ok: "combo_coin cs d = Ok x \<Longrightarrow> x = amt cs d"
proof -
  have "res_acc (\<lambda>c sum. Int_Add sum (snd c)) xs a = Ok y \<Longrightarrow> y = a + sum_list (map snd xs)" for xs :: coins and a y
    by (induction xs arbitrary: a) (fastforce simp: go_simps)+
  from this [of "filter (\<lambda>c. fst c = d) cs" 0 x]
  show "combo_coin cs d = Ok x \<Longrightarrow> x = amt cs d" by (simp add: combo_coin_def amt_def)
qed

lemma collect_Ok:
  "res_acc (\<lambda>d out. rbind (f d) (\<lambda>x. Ok (out @ [(d, x)]))) ds out = Ok r \<Longrightarrow>
   (\<And>d x. f d = Ok x \<Longrightarrow> x = g d) \<Longrightarrow> r = out @ map (\<lambda>d. (d, g d)) ds"
  by (induction ds arbitrary: out) (fastforce simp: go_simps)+

lemma collect_total:
  "(\<And>d. d \<in> set ds \<Longrightarrow> f d = Ok (g d)) \<Longrightarrow>
   res_acc (\<lambda>d out. rbind (f d) (\<lambda>x. Ok (out @ [(d, x)]))) ds out = Ok (out @ map (\<lambda>d. (d, g d)) ds)"
  by (induction ds arbitrary: out) auto

lemma amt_graph: "distinct ds \<Longrightarrow> amt (map (\<lambda>d. (d, g d)) ds) d = (if d \<in> set ds then g d else 0)"
  by (induction ds) auto

definition coins_sum :: "coins \<Rightarrow> coins \<Rightarrow> coins" where
  "coins_sum a b = filter (\<lambda>c. snd c \<noteq> 0)
     (map (\<lambda>d. (d, amt a d + amt b d)) (sort (remdups (map fst (a @ b)))))"

lemma amt_coins_sum [simp]: "amt (coins_sum a b) d = amt a d + amt b d"
  by (auto simp: coins_sum_def amt_graph amt_notin)

lemma coins_sum_sorted: "sorted_wrt (<) (map fst (coins_sum a b))"
proof -
  have "map fst (coins_sum a b) =
      filter (\<lambda>d. amt a d + amt b d \<noteq> 0) (sort (remdups (map fst (a @ b))))"
    by (simp add: coins_sum_def filter_map comp_def)
  then show ?thesis by (simp add: strict_sorted_iff sorted_wrt_filter)
qed

lemma coins_sum_mem: "c \<in> set (coins_sum a b) \<Longrightarrow>
  snd c = amt a (fst c) + amt b (fst c) \<and> snd c \<noteq> 0 \<and> fst c \<in> fst ` set a \<union> fst ` set b"
  by (force simp: coins_sum_def)

lemma coins_sum_valid:
  assumes "\<And>d. 0 \<le> amt a d + amt b d" "\<And>c. c \<in> set a \<union> set b \<Longrightarrow> ValidateDenom (fst c)"
  shows "Coins_IsValid (coins_sum a b)"
proof -
  have "ValidateDenom (fst c) \<and> 0 < snd c" if "c \<in> set (coins_sum a b)" for c
    using coins_sum_mem [OF that] assms(1) [of "fst c"] assms(2) by fastforce
  then show ?thesis by (simp add: Coins_IsValid_def list_all_iff coins_sum_sorted)
qed

lemma Coins_safeAdd_Ok:
  "Coins_safeAdd a b = Ok c \<Longrightarrow> c = coins_sum a b"
  unfolding Coins_safeAdd_def coins_sum_def
  by (auto simp: go_simps split: if_splits dest!: collect_Ok [where g = "\<lambda>d. amt a d + amt b d"] combo_coin_Ok)

text \<open>With at most one coin of a denom on each side, the sum exists as soon as it fits.\<close>

lemma filter_denom:
  "distinct (map fst cs) \<Longrightarrow> filter (\<lambda>c. fst c = d) cs = (if d \<in> fst ` set cs then [(d, amt cs d)] else [])"
  by (induction cs) (auto simp: amt_notin rev_image_eqI)

lemma Coins_safeAdd_total:
  assumes "sorted_wrt (<) (map fst a)" "sorted_wrt (<) (map fst b)"
    and "\<And>d. fits (amt a d)" "\<And>d. fits (amt b d)" "\<And>d. fits (amt a d + amt b d)"
  shows "Coins_safeAdd a b = Ok (coins_sum a b)"
proof -
  have "combo_coin (a @ b) d = Ok (amt a d + amt b d)" for d
    using assms by (simp add: combo_coin_def filter_denom strictly_sorted_distinct Int_Add_eq amt_notin)
  then have "res_acc (\<lambda>d out. rbind (combo_coin (a @ b) d) (\<lambda>x. Ok (out @ [(d, x)]))) ds [] =
      Ok (map (\<lambda>d. (d, amt a d + amt b d)) ds)" for ds
    using collect_total [of ds "combo_coin (a @ b)" "\<lambda>d. amt a d + amt b d" "[]"] by simp
  then show ?thesis
    using assms(1,2) by (simp add: Coins_safeAdd_def coins_sum_def strict_sorted_iff)
qed

lemma negative_sorted [simp]: "map fst (Coins_negative cs) = map fst cs"
  by (simp add: Coins_negative_def comp_def)

lemma Coins_Sub_total:
  assumes "Coins_IsValid a" "Coins_IsValid b" "\<And>d. amt b d \<le> amt a d" "\<And>d. fits (amt a d)"
  shows "\<exists>r. Coins_Sub a b = Ok r \<and> Coins_IsValid r \<and> (\<forall>d. amt r d = amt a d - amt b d)"
proof -
  let ?r = "coins_sum a (Coins_negative b)"
  have nn: "0 \<le> amt a d" "0 \<le> amt b d" for d using assms IsValid_amt_nonneg by blast+
  have f: "fits (amt b d)" "fits (- amt b d)" "fits (amt a d + - amt b d)" for d
    using assms(3,4) nn [of d] by (smt (verit) fits_def)+
  have "Coins_safeAdd a (Coins_negative b) = Ok ?r"
    using assms f by (intro Coins_safeAdd_total) (auto simp: IsValid_sorted)
  moreover have v: "Coins_IsValid ?r"
  proof (rule coins_sum_valid)
    show "0 \<le> amt a d + amt (Coins_negative b) d" for d using assms(3) [of d] by simp
    show "ValidateDenom (fst c)" if "c \<in> set a \<union> set (Coins_negative b)" for c
      using that assms(1,2) by (auto simp: Coins_negative_def Coins_IsValid_def list_all_iff)
  qed
  then have "\<not> list_ex (\<lambda>c. snd c < 0) ?r" by (fastforce simp: list_ex_iff dest: IsValid_pos)
  ultimately show ?thesis using assms v by (simp add: Coins_Sub_def NewCoins_valid)
qed

lemma Coins_Sub_Ok:
  assumes "Coins_Sub a b = Ok r"
  shows "amt r d = amt a d - amt b d" "0 \<le> amt r d" "sorted_wrt (<) (map fst r)"
proof -
  obtain b' where b: "NewCoins b = Ok b'" and r: "r = coins_sum a (Coins_negative b')"
    and nn: "\<not> list_ex (\<lambda>c. snd c < 0) r"
    using assms by (auto simp: Coins_Sub_def go_simps split: if_splits dest!: Coins_safeAdd_Ok)
  show "amt r d = amt a d - amt b d" using NewCoins_Ok(2) [OF b] by (simp add: r)
  show "0 \<le> amt r d" using nn by (intro amt_nonneg) (auto simp: list_ex_iff not_less)
  show "sorted_wrt (<) (map fst r)" by (simp add: r coins_sum_sorted)
qed

section \<open>Minima\<close>

lemma coins_min_subset: "fst ` set (coins_min a b) \<subseteq> fst ` set a \<inter> fst ` set b"
proof (induction a b rule: coins_min.induct)
  case (1 a as b bs)
  consider (less) "fst a < fst b" | (same) "fst a = fst b" | (greater) "fst b < fst a" by (rule linorder_cases)
  then show ?case
  proof cases
    case less
    with 1(1) show ?thesis by auto
  next
    case same
    define mc where "mc = (if snd b < snd a then b else a)"
    have "fst mc = fst b" using same by (simp add: mc_def)
    with same 1(2) [of mc] show ?thesis by (auto simp: mc_def [symmetric] Let_def)
  next
    case greater
    with 1(3) show ?thesis by auto
  qed
qed simp_all

lemma amt_coins_min:
  assumes "Coins_IsValid a" "Coins_IsValid b"
  shows "amt (coins_min a b) d = min (amt a d) (amt b d) \<and> Coins_IsValid (coins_min a b)"
  using assms
proof (induction a b rule: coins_min.induct)
  case (1 a as b bs)
  have tl: "Coins_IsValid as" "Coins_IsValid bs" and pos: "0 < snd a" "0 < snd b" "ValidateDenom (fst a)"
    and above: "\<And>c. c \<in> set as \<Longrightarrow> fst a < fst c" "\<And>c. c \<in> set bs \<Longrightarrow> fst b < fst c"
    using "1.prems" by (simp_all add: Coins_IsValid_def)
  have nn: "0 \<le> amt as d" "0 \<le> amt bs d" using tl IsValid_amt_nonneg by blast+
  consider (less) "fst a < fst b" | (same) "fst a = fst b" | (greater) "fst b < fst a" by (rule linorder_cases)
  then show ?case
  proof cases
    case less
    then have "fst a \<notin> fst ` set (b # bs)" using above(2) by fastforce
    then have "amt (b # bs) (fst a) = 0" by (rule amt_notin)
    with "1.IH"(1) [OF less tl(1) "1.prems"(2)] less nn pos show ?thesis by auto
  next
    case same
    have z: "amt as (fst a) = 0" "amt bs (fst a) = 0" using above same by (fastforce intro!: amt_notin)+
    have IH: "amt (coins_min as bs) d = min (amt as d) (amt bs d)" "Coins_IsValid (coins_min as bs)"
      using "1.IH"(2) [OF _ same refl tl] same by simp_all
    have sub: "fst a < fst c" if "c \<in> set (coins_min as bs)" for c
    proof -
      have "fst c \<in> fst ` set as \<inter> fst ` set bs"
        by (rule subsetD [OF coins_min_subset imageI [OF that]])
      then obtain e where "e \<in> set as" "fst c = fst e" by (elim IntE imageE)
      with above(1) show ?thesis by simp
    qed
    show ?thesis
    proof
      show "amt (coins_min (a # as) (b # bs)) d = min (amt (a # as) d) (amt (b # bs) d)"
        using same IH(1) pos z by (cases "fst b = d") (simp_all add: Let_def)
      show "Coins_IsValid (coins_min (a # as) (b # bs))"
        using same IH(2) pos sub by (simp add: Let_def Coins_IsValid_def)
    qed
  next
    case greater
    then have "fst b \<notin> fst ` set (a # as)" using above(1) by fastforce
    then have "amt (a # as) (fst b) = 0" by (rule amt_notin)
    with "1.IH"(3) [OF _ _ "1.prems"(1) tl(2)] greater nn pos show ?thesis by auto
  qed
qed (simp_all add: IsValid_amt_nonneg min_absorb1 min_absorb2)

lemma Coins_Min_total:
  assumes "Coins_IsValid a" "Coins_IsValid b"
  shows "\<exists>r. Coins_Min a b = Ok r \<and> Coins_IsValid r \<and> (\<forall>d. amt r d = min (amt a d) (amt b d))"
  using amt_coins_min [OF assms] by (auto simp: Coins_Min_def NewCoins_valid)

section \<open>Comparisons\<close>

lemma res_all_Ok:
  "res_acc (\<lambda>x all. if \<not> all then Ok False else f x) xs b = Ok True \<longleftrightarrow>
   b \<and> (\<forall>x\<in>set xs. f x = Ok True)"
proof -
  have F: "res_acc (\<lambda>x all. if \<not> all then Ok False else f x) xs False = Ok False" for xs
    by (induction xs) auto
  show ?thesis
  proof (induction xs arbitrary: b)
    case (Cons x xs)
    show ?case
    proof (cases b)
      case True
      then show ?thesis using Cons.IH F by (cases "f x") auto
    qed (use F in auto)
  qed simp
qed

lemma Coins_IsAllLTE_True:
  assumes "Coins_IsValid a" "sorted_wrt (<) (map fst b)" "\<And>d. amt a d \<le> amt b d"
  shows "Coins_IsAllLTE a b = Ok True"
proof (cases "a = []")
  case False
  have mem: "snd c = amt a (fst c)" "0 < snd c" "ValidateDenom (fst c)" if "c \<in> set a" for c
    using that assms(1) IsValid_mem_iff [of a "fst c" "snd c"]
    by (auto dest: IsValid_pos IsValid_denom)
  have "b \<noteq> []"
  proof
    assume "b = []"
    with mem [of "hd a"] assms(3) [of "fst (hd a)"] False show False by simp
  qed
  moreover have "\<not> snd c > amt b (fst c)" if "c \<in> set a" for c
    using mem(1) [OF that] assms(3) [of "fst c"] by linarith
  ultimately show ?thesis
    using mem(3) assms(2) False by (simp add: Coins_IsAllLTE_def Coins_IsAllGTE_def res_all_Ok AmountOf_amt)
qed (simp add: Coins_IsAllLTE_def Coins_IsAllGTE_def)

end
