(* ===== verification/Mint.thy ===== *)
theory Mint
  imports LiquidStaking Coins
begin

text \<open>
  \<open>x/mint\<close>: the inflation of the chain.

  At the end of every epoch of the configured timer \<open>AfterEpochEnd\<close>
  (\<open>keeper/hooks.go\<close>) mints the epoch provisions and \<open>DistributeMintedCoin\<close>
  (\<open>keeper/keeper.go\<close>) pays them out to the fee collector, the strategic reserve and two
  community pools; every reduction period the provisions are multiplied by the reduction factor
  (\<open>types/minter.go\<close>). The state is the module's store, its parameters, the bank and the
  module accounts it creates. The derivation of module addresses and the fee collector's name,
  which the application passes in, are parameters.

  Shown here: a distribution pays out exactly what was minted, in the configured proportions, with
  a rounding remainder below four tokens; as long as parameters and provisions are not set anew, what
  the hook mints is bounded by the provisions of a period over one minus the reduction factor; and
  once the provisions fall below one token, which they do with any factor below one, the hook
  divides by zero, so no such run of the chain passes a certain epoch.
\<close>

section \<open>Data\<close>

record Minter =
  mn_EpochProvisions :: Dec

record DistributionProportions =
  dp_Staking :: Dec
  dp_CommunityPoolGrowth :: Dec
  dp_CommunityPoolSecurityBudget :: Dec
  dp_StrategicReserve :: Dec

record mint_Params =
  mp_MintDenom :: denom
  mp_GenesisEpochProvisions :: Dec
  mp_EpochIdentifier :: string
  mp_ReductionPeriodInEpochs :: int
  mp_ReductionFactor :: Dec
  mp_DistributionProportions :: DistributionProportions
  mp_MintingRewardsDistributionStartEpoch :: int

record mint_GenesisState =
  mg_Minter :: Minter
  mg_Params :: mint_Params
  mg_ReductionStartedEpoch :: int

text \<open>The stored minter and reduction epoch, absent before genesis; \<open>ms_accounts\<close> are the
  module accounts with their names.\<close>

record mint_state =
  ms_minter :: "Minter option"
  ms_lastReduction :: "uint64 option"
  ms_params :: mint_Params
  ms_accounts :: "address \<Rightarrow> string option"
  ms_bank :: bank

record mint_env =
  me_env :: env
  me_feeCollectorName :: string

section \<open>Parameters and genesis data\<close>

definition DefaultBondDenom :: denom where
  "DefaultBondDenom = ''stake''"

definition validateMintDenom :: "denom \<Rightarrow> unit res" where
  "validateMintDenom v =
     (if list_all is_space v then Err Plain else if \<not> ValidateDenom v then Err Plain else Ok ())"

definition validateGenesisEpochProvisions :: "Dec \<Rightarrow> unit res" where
  "validateGenesisEpochProvisions v = rguard (\<not> v < ZeroDec) Plain"

definition ValidateEpochIdentifierString :: "string \<Rightarrow> unit res" where
  "ValidateEpochIdentifierString s = rguard (\<not> list_all is_space s) Plain"

definition validateReductionPeriodInEpochs :: "int \<Rightarrow> unit res" where
  "validateReductionPeriodInEpochs v = rguard (\<not> v \<le> 0) Plain"

definition validateReductionFactor :: "Dec \<Rightarrow> unit res" where
  "validateReductionFactor v =
     (if v > NewDec 1 then Err Plain else if v < 0 then Err Plain else Ok ())"

definition validateDistributionProportions :: "DistributionProportions \<Rightarrow> unit res" where
  "validateDistributionProportions v =
     (if dp_Staking v < 0 then Err Plain
      else if dp_CommunityPoolGrowth v < 0 then Err Plain
      else if dp_CommunityPoolSecurityBudget v < 0 then Err Plain
      else if dp_StrategicReserve v < 0 then Err Plain
      else rbind (Dec_Add (dp_Staking v) (dp_CommunityPoolGrowth v)) (\<lambda>t.
           rbind (Dec_Add t (dp_CommunityPoolSecurityBudget v)) (\<lambda>t.
           rbind (Dec_Add t (dp_StrategicReserve v)) (\<lambda>totalProportions.
           if totalProportions \<noteq> NewDec 1 then Err Plain else Ok ()))))"

definition validateMintingRewardsDistributionStartEpoch :: "int \<Rightarrow> unit res" where
  "validateMintingRewardsDistributionStartEpoch v = rguard (\<not> v < 0) Plain"

definition mint_Params_Validate :: "mint_Params \<Rightarrow> unit res" where
  "mint_Params_Validate p =
     rbind (validateMintDenom (mp_MintDenom p)) (\<lambda>_.
     rbind (validateGenesisEpochProvisions (mp_GenesisEpochProvisions p)) (\<lambda>_.
     rbind (ValidateEpochIdentifierString (mp_EpochIdentifier p)) (\<lambda>_.
     rbind (validateReductionPeriodInEpochs (mp_ReductionPeriodInEpochs p)) (\<lambda>_.
     rbind (validateReductionFactor (mp_ReductionFactor p)) (\<lambda>_.
     rbind (validateDistributionProportions (mp_DistributionProportions p)) (\<lambda>_.
     validateMintingRewardsDistributionStartEpoch (mp_MintingRewardsDistributionStartEpoch p)))))))"

text \<open>\<open>DefaultParams\<close>: 2.5 million tokens in the first year, in hourly epochs.\<close>

definition mint_DefaultParams :: "mint_Params res" where
  "mint_DefaultParams =
     rbind (Dec_Mul (NewDec 2500000) (NewDec 1000000)) (\<lambda>x.
     rbind (Dec_Quo x (NewDec (24 * 365))) (\<lambda>genesisEpochProvisions.
     Ok \<lparr>mp_MintDenom = DefaultBondDenom, mp_GenesisEpochProvisions = genesisEpochProvisions,
         mp_EpochIdentifier = ''mint'', mp_ReductionPeriodInEpochs = 24 * 365,
         mp_ReductionFactor = big_quo (NewDec 1) 2,
         mp_DistributionProportions =
           \<lparr>dp_Staking = 276400000000000000, dp_CommunityPoolGrowth = 186000000000000000,
            dp_CommunityPoolSecurityBudget = 117100000000000000, dp_StrategicReserve = 420500000000000000\<rparr>,
         mp_MintingRewardsDistributionStartEpoch = 0\<rparr>))"

definition InitialMinter :: Minter where
  "InitialMinter = \<lparr>mn_EpochProvisions = NewDec 0\<rparr>"

definition ValidateMinter :: "Minter \<Rightarrow> unit res" where
  "ValidateMinter minter = Ok ()"

definition mint_ValidateGenesis :: "mint_GenesisState \<Rightarrow> unit res" where
  "mint_ValidateGenesis data =
     rbind (mint_Params_Validate (mg_Params data)) (\<lambda>_. ValidateMinter (mg_Minter data))"

definition mint_DefaultGenesisState :: "mint_GenesisState res" where
  "mint_DefaultGenesisState =
     rbind mint_DefaultParams (\<lambda>params.
     Ok \<lparr>mg_Minter = InitialMinter, mg_Params = params, mg_ReductionStartedEpoch = 0\<rparr>)"

definition NextEpochProvisions :: "Minter \<Rightarrow> mint_Params \<Rightarrow> Dec res" where
  "NextEpochProvisions m params = Dec_Mul (mn_EpochProvisions m) (mp_ReductionFactor params)"

definition EpochProvision :: "Minter \<Rightarrow> mint_Params \<Rightarrow> (denom \<times> int) res" where
  "EpochProvision m params =
     rbind (Dec_TruncateInt (mn_EpochProvisions m)) (\<lambda>x. NewCoin (mp_MintDenom params) x)"

section \<open>The keeper\<close>

definition on_mint_bank :: "(bank, 'a) go \<Rightarrow> (mint_state, 'a) go" where
  "on_mint_bank m s = (case m (ms_bank s) of (r, b) \<Rightarrow> (r, s\<lparr>ms_bank := b\<rparr>))"

definition mint_ModuleName :: string where
  "mint_ModuleName = ''mint''"

definition GetLastReductionEpochNum :: "mint_state \<Rightarrow> int" where
  "GetLastReductionEpochNum s = (case ms_lastReduction s of None \<Rightarrow> 0 | Some b \<Rightarrow> ToInt64 b)"

definition SetLastReductionEpochNum :: "int \<Rightarrow> mint_state \<Rightarrow> mint_state" where
  "SetLastReductionEpochNum epochNum s = s\<lparr>ms_lastReduction := Some (ToUint64 epochNum)\<rparr>"

definition GetMinter :: "(mint_state, Minter) go" where
  "GetMinter s = (case ms_minter s of None \<Rightarrow> (Panic, s) | Some minter \<Rightarrow> (Ok minter, s))"

definition SetMinter :: "Minter \<Rightarrow> mint_state \<Rightarrow> mint_state" where
  "SetMinter minter s = s\<lparr>ms_minter := Some minter\<rparr>"

definition mint_MintCoins :: "mint_env \<Rightarrow> coins \<Rightarrow> (mint_state, unit) go" where
  "mint_MintCoins me newCoins =
     (if newCoins = [] then go_ret ()
      else on_mint_bank (MintCoins (e_bank (me_env me)) mint_ModuleName newCoins))"

definition GetProportions :: "denom \<times> int \<Rightarrow> Dec \<Rightarrow> (denom \<times> int) res" where
  "GetProportions mintedCoin ratio =
     rbind (Dec_Mul (NewDecFromInt (snd mintedCoin)) ratio) (\<lambda>d.
     rbind (Dec_TruncateInt d) (\<lambda>x. NewCoin (fst mintedCoin) x))"

definition GetSubmoduleAddress :: "mint_env \<Rightarrow> string \<Rightarrow> string \<Rightarrow> address" where
  "GetSubmoduleAddress me submoduleName submoduleNamespace =
     e_ModuleAddress (me_env me) mint_ModuleName (submoduleNamespace @ submoduleName)"

definition StrategicReserveAddress :: string where
  "StrategicReserveAddress = ''stride1alnn79kh0xka0r5h4h82uuaqfhpdmph6rvpf5f''"

definition SubmoduleCommunityNamespaceKey :: string where
  "SubmoduleCommunityNamespaceKey = ''commmunity''"

text \<open>One share: the coin, its coins and the amount that is logged, for which \<open>Int64()\<close> is
  called.\<close>

definition mint_share :: "denom \<times> int \<Rightarrow> Dec \<Rightarrow> coins res" where
  "mint_share mintedCoin ratio =
     rbind (GetProportions mintedCoin ratio) (\<lambda>proportion.
     rbind (NewCoins [proportion]) (\<lambda>coins.
     rbind (Int_Int64 (snd proportion)) (\<lambda>_. Ok coins)))"

text \<open>The check that less than 5\% remain.\<close>

definition remaining_too_large :: "denom \<times> int \<Rightarrow> coins \<Rightarrow> bool res" where
  "remaining_too_large mintedCoin remainingCoins =
     rbind (AmountOf remainingCoins DefaultBondDenom) (\<lambda>remainingBal.
     rbind (Dec_Quo (NewDec 5) (NewDec 100)) (\<lambda>thresh.
     rbind (Dec_Quo (NewDecFromInt remainingBal) (NewDecFromInt (snd mintedCoin))) (\<lambda>ratio.
     Ok (ratio > thresh))))"

definition DistributeMintedCoin :: "mint_env \<Rightarrow> denom \<times> int \<Rightarrow> (mint_state, unit) go" where
  "DistributeMintedCoin me mintedCoin =
     (let bank = e_bank (me_env me) in
     go_bind (go_gets ms_params) (\<lambda>params.
     let proportions = mp_DistributionProportions params in
     go_bind (go_lift (Int_Int64 (snd mintedCoin))) (\<lambda>_.
     go_bind (go_lift (mint_share mintedCoin (dp_Staking proportions))) (\<lambda>stakingIncentivesCoins.
     go_bind (go_wrap (Sdk ErrInvalidAddress)
       (go_lift (sdk_AccAddressFromBech32 (me_env me) StrategicReserveAddress))) (\<lambda>strategicReserveAddress.
     go_bind (go_lift (mint_share mintedCoin (dp_StrategicReserve proportions))) (\<lambda>strategicReserveCoins.
     let communityPoolGrowthAddress = GetSubmoduleAddress me ''growth'' SubmoduleCommunityNamespaceKey in
     go_bind (go_lift (mint_share mintedCoin (dp_CommunityPoolGrowth proportions))) (\<lambda>communityPoolGrowthCoins.
     let communityPoolSecurityBudgetAddress = GetSubmoduleAddress me ''security-budget'' SubmoduleCommunityNamespaceKey in
     go_bind (go_lift (mint_share mintedCoin (dp_CommunityPoolSecurityBudget proportions)))
       (\<lambda>communityPoolSecurityBudgetCoins.
     go_bind (go_lift (rbind (NewCoins [mintedCoin]) (\<lambda>r.
       rbind (Coins_Sub r stakingIncentivesCoins) (\<lambda>r.
       rbind (Coins_Sub r strategicReserveCoins) (\<lambda>r.
       rbind (Coins_Sub r communityPoolGrowthCoins) (\<lambda>r.
       Coins_Sub r communityPoolSecurityBudgetCoins)))))) (\<lambda>remainingCoins.
     go_bind (go_lift (remaining_too_large mintedCoin remainingCoins)) (\<lambda>tooLarge.
     if tooLarge then go_fail (Sdk ErrInsufficientFunds)
     else
       go_bind (on_mint_bank (SendCoinsFromModuleToModule bank mint_ModuleName (me_feeCollectorName me)
         stakingIncentivesCoins)) (\<lambda>_.
       go_bind (on_mint_bank (SendCoinsFromModuleToAccount bank mint_ModuleName strategicReserveAddress
         strategicReserveCoins)) (\<lambda>_.
       go_bind (on_mint_bank (SendCoinsFromModuleToAccount bank mint_ModuleName communityPoolGrowthAddress
         communityPoolGrowthCoins)) (\<lambda>_.
       go_bind (on_mint_bank (SendCoinsFromModuleToAccount bank mint_ModuleName communityPoolSecurityBudgetAddress
         communityPoolSecurityBudgetCoins)) (\<lambda>_.
       on_mint_bank (SendCoinsFromModuleToAccount bank mint_ModuleName communityPoolGrowthAddress
         remainingCoins)))))))))))))))"

section \<open>The epoch hook\<close>

definition reduce_provisions :: "int \<Rightarrow> mint_Params \<Rightarrow> Minter \<Rightarrow> (mint_state, Minter) go" where
  "reduce_provisions epochNumber params minter =
     go_bind (go_gets GetLastReductionEpochNum) (\<lambda>last.
     if epochNumber \<ge> int64_wrap (mp_ReductionPeriodInEpochs params + last) then
       go_bind (go_lift (NextEpochProvisions minter params)) (\<lambda>next.
       let minter' = minter\<lparr>mn_EpochProvisions := next\<rparr> in
       go_bind (go_modify (SetMinter minter')) (\<lambda>_.
       go_bind (go_modify (SetLastReductionEpochNum epochNumber)) (\<lambda>_. go_ret minter')))
     else go_ret minter)"

definition mint_AfterEpochEnd :: "mint_env \<Rightarrow> EpochInfo \<Rightarrow> (mint_state, unit) go" where
  "mint_AfterEpochEnd me epochInfo =
     (let epochNumber = ei_CurrentEpoch epochInfo in
     go_bind (go_gets ms_params) (\<lambda>params.
     if ei_Identifier epochInfo \<noteq> mp_EpochIdentifier params then go_ret ()
     else if epochNumber < mp_MintingRewardsDistributionStartEpoch params then go_ret ()
     else
       go_bind (if epochNumber = mp_MintingRewardsDistributionStartEpoch params
         then go_modify (SetLastReductionEpochNum epochNumber) else go_ret ()) (\<lambda>_.
       go_bind GetMinter (\<lambda>minter.
       go_bind (reduce_provisions epochNumber params minter) (\<lambda>minter.
       go_bind (go_lift (EpochProvision minter params)) (\<lambda>mintedCoin.
       go_bind (go_lift (NewCoins [mintedCoin])) (\<lambda>mintedCoins.
       go_bind (must (mint_MintCoins me mintedCoins)) (\<lambda>_.
       must (DistributeMintedCoin me mintedCoin))))))))) "

definition mint_hooks :: "mint_env \<Rightarrow> mint_state EpochHooks" where
  "mint_hooks me = \<lparr>hook_AfterEpochEnd = mint_AfterEpochEnd me, hook_BeforeEpochStart = (\<lambda>_. go_ret ())\<rparr>"

section \<open>Genesis\<close>

definition SetupNewModuleAccount :: "mint_env \<Rightarrow> string \<Rightarrow> string \<Rightarrow> mint_state \<Rightarrow> mint_state" where
  "SetupNewModuleAccount me submoduleName submoduleNamespace s =
     (let acctAddress = GetSubmoduleAddress me submoduleName submoduleNamespace in
      s\<lparr>ms_accounts := (ms_accounts s)(acctAddress \<mapsto> e_EncodeBech32 (me_env me) ''stride'' acctAddress)\<rparr>)"

text \<open>\<open>GetModuleAccount\<close> creates the account of the module when it is missing.\<close>

definition ensure_module_account :: "mint_env \<Rightarrow> mint_state \<Rightarrow> mint_state" where
  "ensure_module_account me s =
     (case be_module (e_bank (me_env me)) mint_ModuleName of
        None \<Rightarrow> s
      | Some acc \<Rightarrow>
          if ms_accounts s acc = None then s\<lparr>ms_accounts := (ms_accounts s)(acc \<mapsto> mint_ModuleName)\<rparr> else s)"

definition genesis_minter :: "mint_GenesisState \<Rightarrow> Minter" where
  "genesis_minter data =
     (if mn_EpochProvisions (mg_Minter data) = 0
      then (mg_Minter data)\<lparr>mn_EpochProvisions := mp_GenesisEpochProvisions (mg_Params data)\<rparr>
      else mg_Minter data)"

text \<open>\<open>SetParamSet\<close> panics on a parameter its validator refuses.\<close>

definition mint_SetParams :: "mint_Params \<Rightarrow> (mint_state, unit) go" where
  "mint_SetParams params =
     (if res_ok (mint_Params_Validate params) then go_modify (\<lambda>s. s\<lparr>ms_params := params\<rparr>) else go_panic)"

definition mint_InitGenesis :: "mint_env \<Rightarrow> mint_GenesisState \<Rightarrow> (mint_state, unit) go" where
  "mint_InitGenesis me data =
     (let ns = SubmoduleCommunityNamespaceKey in
      go_bind (go_modify (SetMinter (genesis_minter data))) (\<lambda>_.
      go_bind (mint_SetParams (mg_Params data)) (\<lambda>_.
      go_bind (go_modify (ensure_module_account me)) (\<lambda>_.
      go_bind (go_modify (SetupNewModuleAccount me ''growth'' ns)) (\<lambda>_.
      go_bind (go_modify (SetupNewModuleAccount me ''security-budget'' ns)) (\<lambda>_.
      go_bind (go_modify (SetupNewModuleAccount me ''usage'' ns)) (\<lambda>_.
      go_modify (SetLastReductionEpochNum (mg_ReductionStartedEpoch data)))))))))"

definition mint_ExportGenesis :: "(mint_state, mint_GenesisState) go" where
  "mint_ExportGenesis =
     go_bind GetMinter (\<lambda>minter.
     go_bind (go_gets ms_params) (\<lambda>params.
     go_bind (go_gets GetLastReductionEpochNum) (\<lambda>lastReductionEpoch.
     go_ret \<lparr>mg_Minter = minter, mg_Params = params, mg_ReductionStartedEpoch = lastReductionEpoch\<rparr>)))"

section \<open>The distribution\<close>

abbreviation (input) share_of :: "int \<Rightarrow> Dec \<Rightarrow> int" where
  "share_of amount ratio \<equiv> amount * ratio div precisionReuse"

lemma share_bounds:
  assumes "0 \<le> a" "0 \<le> ratio" "ratio \<le> precisionReuse"
  shows "0 \<le> share_of a ratio" "share_of a ratio \<le> a"
proof -
  show "0 \<le> share_of a ratio" using assms by (simp add: pos_imp_zdiv_nonneg_iff)
  have "a * ratio div precisionReuse \<le> a * precisionReuse div precisionReuse"
    using assms by (intro zdiv_mono1 mult_left_mono) auto
  then show "share_of a ratio \<le> a" by simp
qed

lemma mint_share_eq:
  assumes "ValidateDenom d" "0 \<le> a" "a < 2 ^ 63" "0 \<le> ratio" "ratio \<le> precisionReuse"
  shows "mint_share (d, a) ratio = NewCoins [(d, share_of a ratio)]"
proof -
  let ?x = "share_of a ratio"
  have x: "0 \<le> ?x" "?x < 2 ^ 63" using share_bounds [OF assms(2,4,5)] assms(3) by auto
  have "a * ratio \<le> a * precisionReuse" using assms by (intro mult_left_mono) auto
  moreover have "a * precisionReuse < 2 ^ 63 * precisionReuse" using assms by (intro mult_strict_right_mono) auto
  ultimately have "fits_dec (a * ratio)" using assms by (simp add: fits_dec_def precisionReuse_def)
  moreover have "fits ?x" "is_int64 ?x" using x by (simp_all add: fits_def is_int64_def)
  ultimately have "GetProportions (d, a) ratio = Ok (d, ?x)"
    using assms x by (simp add: GetProportions_def go_simps Dec_Mul_int truncate_nonneg NewCoin_def)
  then show ?thesis
    using \<open>is_int64 ?x\<close> x assms by (simp add: mint_share_def Int_Int64_def NewCoins_single)
qed

lemma valid_proportions:
  assumes "mint_Params_Validate params = Ok u" "dps = mp_DistributionProportions params"
  shows "0 \<le> dp_Staking dps" "0 \<le> dp_StrategicReserve dps" "0 \<le> dp_CommunityPoolGrowth dps"
    "0 \<le> dp_CommunityPoolSecurityBudget dps"
    "dp_Staking dps + dp_StrategicReserve dps + dp_CommunityPoolGrowth dps + dp_CommunityPoolSecurityBudget dps
       = precisionReuse"
  using assms
  by (auto simp: mint_Params_Validate_def validateDistributionProportions_def go_simps NewDec_def split: if_splits)

text \<open>Four shares rounded down leave less than four tokens.\<close>

lemma shares_remainder:
  assumes "p + q + r + s = precisionReuse" "0 \<le> a"
  defines "rest \<equiv> a - share_of a p - share_of a q - share_of a r - share_of a s"
  shows "0 \<le> rest" "rest < 4"
proof -
  let ?P = precisionReuse
  have "a * ?P = a * p + a * q + a * r + a * s" using assms(1) by (metis distrib_left)
  moreover have "share_of a k * ?P \<le> a * k" "a * k < share_of a k * ?P + ?P" for k
    using div_bounds [OF precisionReuse_pos(1)] by blast+
  note this [of p] this [of q] this [of r] this [of s]
  ultimately have "(share_of a p + share_of a q + share_of a r + share_of a s) * ?P \<le> a * ?P"
    and "a * ?P < (share_of a p + share_of a q + share_of a r + share_of a s + 4) * ?P"
    unfolding distrib_right by linarith+
  then show "0 \<le> rest" "rest < 4"
    unfolding rest_def by (simp_all add: mult_le_cancel_right mult_less_cancel_right)
qed

lemma thresh_val: "Dec_Quo (NewDec 5) (NewDec 100) = Ok 50000000000000000"
  by (simp add: Dec_Quo_Ok NewDec_def precisionReuse_def big_quo_def chopPrecisionAndRound_def chop_nonneg_def
      fits_dec_def Let_def)

lemma small_remainder_accepted:
  assumes "ValidateDenom d" "0 < a" "a < 2 ^ 63" "0 \<le> rest" "rest < 4" "60 \<le> a \<or> d \<noteq> DefaultBondDenom"
    and "NewCoins [(d, rest)] = Ok cs"
  shows "remaining_too_large (d, a) cs = Ok False"
proof -
  let ?P = precisionReuse
  define x where "x = (if d = DefaultBondDenom then rest else 0)"
  have x: "0 \<le> x" "x < 4" "20 * x \<le> a" using assms by (auto simp: x_def)
  have "cs = (if rest = 0 then [] else [(d, rest)])" using assms by (auto simp: NewCoins_single split: if_splits)
  then have amount: "AmountOf cs DefaultBondDenom = Ok x"
    unfolding x_def by (simp only:) (rule AmountOf_single, simp add: ValidateDenom_def DefaultBondDenom_def
        denom_letter_def denom_char_def)
  define y where "y = x * (?P * ?P) div a"
  have "NewDecFromInt x * (?P * ?P) = (x * (?P * ?P)) * ?P" "NewDecFromInt a = a * ?P"
    by (simp_all add: NewDecFromInt_def)
  then have q: "big_quo (NewDecFromInt x * (?P * ?P)) (NewDecFromInt a) = y" "0 \<le> y"
    using x assms(2) by (simp_all add: big_quo_pos y_def pos_imp_zdiv_nonneg_iff)
  have "20 * (y * a) \<le> 20 * (x * (?P * ?P))" using div_bounds(1) [OF assms(2)] by (simp add: y_def)
  also have "\<dots> \<le> ?P * ?P * a" using mult_right_mono [OF x(3), of "?P * ?P"] by (simp add: algebra_simps)
  finally have "(20 * y) * a \<le> (?P * ?P) * a" by simp
  then have "20 * y \<le> ?P * ?P" using assms(2) by (simp only: mult_le_cancel_right)
  then have "2 * y < 2 * (50000000000000000 * ?P) + ?P" by (simp add: precisionReuse_def)
  then have "chop_nonneg y \<le> 50000000000000000" by (rule chop_nonneg_le)
  moreover have "0 \<le> chop_nonneg y" using q(2) by (rule chop_nonneg_ge_0)
  ultimately have "Dec_Quo (NewDecFromInt x) (NewDecFromInt a) = Ok (chop_nonneg y)"
    "\<not> chop_nonneg y > 50000000000000000"
    using q assms(2) by (simp_all add: Dec_Quo_Ok chopPrecisionAndRound_nonneg fits_dec_def NewDecFromInt_def)
  then show ?thesis unfolding remaining_too_large_def using amount thresh_val by simp
qed

text \<open>\<open>payable\<close>: the module can pay out \<open>r\<close> tokens, to whomever, without running out of
  balance or of bits.\<close>

definition payable :: "bank_env \<Rightarrow> address \<Rightarrow> denom \<Rightarrow> int \<Rightarrow> bank \<Rightarrow> bool" where
  "payable env m d r b \<longleftrightarrow> 0 \<le> be_locked env m d \<and> r \<le> bk_balance b m d - be_locked env m d \<and>
     (\<forall>a. 0 \<le> bk_balance b a d \<and> bk_balance b a d + r < 2 ^ 256)"

lemma payableD:
  assumes "payable env m d r b"
  shows "0 \<le> be_locked env m d" "r \<le> bk_balance b m d - be_locked env m d" "0 \<le> bk_balance b a d"
    "bk_balance b a d + r < 2 ^ 256"
  using assms unfolding payable_def by blast+

lemma payable_step:
  assumes "payable env m d r b" "0 \<le> x" "x \<le> r"
  shows "payable env m d (r - x) (bank_move m to d x b)"
proof -
  note p = payableD [OF assms(1)]
  have "0 \<le> bk_balance (bank_move m to d x b) a d \<and> bk_balance (bank_move m to d x b) a d + (r - x) < 2 ^ 256" for a
    using assms(2,3) p(1,2) p(3,4) [of a] unfolding bk_balance_move by (auto split: if_splits)
  moreover have "r - x \<le> bk_balance (bank_move m to d x b) m d - be_locked env m d"
    using assms(2) p(2) by (auto simp: bk_balance_move)
  ultimately show ?thesis using p(1) unfolding payable_def by blast
qed

lemma payable_send:
  assumes "payable env m d r b" "0 \<le> x" "x \<le> r" "ValidateDenom d" "NewCoins [(d, x)] = Ok cs"
  shows "SendCoins env m to cs b = (Ok (), bank_move m to d x b)"
proof (cases "x = 0")
  case False
  note p = payableD [OF assms(1)]
  have "fits (bk_balance (bank_add m d (- x) b) to d + x)"
    using assms(2,3) p(1,2) p(3,4) [of to] unfolding fits_def by (auto split: if_splits)
  then show ?thesis
    using False assms p(1,2)
    by (auto simp: NewCoins_single SendCoins_single simp del: bk_balance_add split: if_splits)
qed (use assms in \<open>simp add: NewCoins_single\<close>)

definition pay :: "address \<Rightarrow> denom \<Rightarrow> (address \<times> int) list \<Rightarrow> bank \<Rightarrow> bank" where
  "pay m d ps b = fold (\<lambda>(to, x). bank_move m to d x) ps b"

lemma payable_pay:
  assumes "payable env m d r b" "\<And>p. p \<in> set ps \<Longrightarrow> 0 \<le> snd p" "sum_list (map snd ps) \<le> r"
  shows "payable env m d (r - sum_list (map snd ps)) (pay m d ps b)"
  using assms
proof (induction ps arbitrary: r b)
  case (Cons p ps)
  have nn: "0 \<le> sum_list (map snd ps)" using Cons.prems(2) by (intro sum_list_map_nonneg) auto
  then have "payable env m d (r - snd p) (bank_move m (fst p) d (snd p) b)"
    using Cons.prems by (intro payable_step) auto
  then show ?case
    using Cons.IH [of "r - snd p" "bank_move m (fst p) d (snd p) b"] Cons.prems
    by (simp add: pay_def case_prod_beta algebra_simps)
qed (simp add: pay_def)

text \<open>The same for the calls of the keeper.\<close>

lemma on_mint_bank_eq [go_simps]:
  "on_mint_bank m s = (r, t) \<longleftrightarrow> (\<exists>b. m (ms_bank s) = (r, b) \<and> t = s\<lparr>ms_bank := b\<rparr>)"
  by (auto simp: on_mint_bank_def split: prod.splits)

lemma pay_to_account:
  assumes "payable env m d (r - sum_list (map snd ps)) (pay m d ps b)" "0 \<le> x"
    and "x \<le> r - sum_list (map snd ps)" "ValidateDenom d" "NewCoins [(d, x)] = Ok cs"
    and "be_module env n = Some m" "\<not> be_blocked env to"
  shows "on_mint_bank (SendCoinsFromModuleToAccount env n to cs) (s\<lparr>ms_bank := pay m d ps b\<rparr>) =
      (Ok (), s\<lparr>ms_bank := pay m d (ps @ [(to, x)]) b\<rparr>)"
    and "payable env m d (r - sum_list (map snd (ps @ [(to, x)]))) (pay m d (ps @ [(to, x)]) b)"
  using payable_send [OF assms(1-5), of to] payable_step [OF assms(1-3), of to] assms(6,7)
  by (simp_all add: on_mint_bank_def SendCoinsFromModuleToAccount_def pay_def algebra_simps)

lemma remaining_coins:
  assumes "ValidateDenom d" "0 < a" "a < 2 ^ 63" "0 \<le> w" "0 \<le> x" "0 \<le> y" "0 \<le> z" "w + x + y + z \<le> a"
    and "NewCoins [(d, w)] = Ok cw" "NewCoins [(d, x)] = Ok cx" "NewCoins [(d, y)] = Ok cy" "NewCoins [(d, z)] = Ok cz"
  shows "\<exists>cs. rbind (NewCoins [(d, a)]) (\<lambda>r. rbind (Coins_Sub r cw) (\<lambda>r. rbind (Coins_Sub r cx) (\<lambda>r.
      rbind (Coins_Sub r cy) (\<lambda>r. Coins_Sub r cz)))) = Ok cs \<and> NewCoins [(d, a - w - x - y - z)] = Ok cs"
proof -
  have f: "fits v" if "0 \<le> v" "v \<le> a" for v using that assms(3) by (simp add: fits_def)
  obtain c0 where c0: "NewCoins [(d, a)] = Ok c0" using assms(1,2) by (simp add: NewCoins_single)
  obtain c1 where c1: "Coins_Sub c0 cw = Ok c1" "NewCoins [(d, a - w)] = Ok c1"
    using Coins_Sub_single [OF assms(1) _ _ f c0 assms(9)] assms by auto
  obtain c2 where c2: "Coins_Sub c1 cx = Ok c2" "NewCoins [(d, a - w - x)] = Ok c2"
    using Coins_Sub_single [OF assms(1) _ _ f c1(2) assms(10)] assms by auto
  obtain c3 where c3: "Coins_Sub c2 cy = Ok c3" "NewCoins [(d, a - w - x - y)] = Ok c3"
    using Coins_Sub_single [OF assms(1) _ _ f c2(2) assms(11)] assms by auto
  show ?thesis
    using Coins_Sub_single [OF assms(1) _ _ f c3(2) assms(12)] assms c0 c1 c2 c3 by auto
qed

lemma distribution_sends:
  assumes "ValidateDenom d" "payable env m d a (ms_bank s)" "be_module env n = Some m" "be_module env n' = Some feeCollector"
    and "\<forall>x\<in>{reserve, growth, budget}. \<not> be_blocked env x"
    and nn: "0 \<le> w" "0 \<le> x" "0 \<le> y" "0 \<le> z" "0 \<le> rest" "w + x + y + z + rest = a"
    and c: "NewCoins [(d, w)] = Ok cw" "NewCoins [(d, x)] = Ok cx" "NewCoins [(d, y)] = Ok cy"
      "NewCoins [(d, z)] = Ok cz" "NewCoins [(d, rest)] = Ok cr"
  shows "go_bind (on_mint_bank (SendCoinsFromModuleToModule env n n' cw)) (\<lambda>_.
     go_bind (on_mint_bank (SendCoinsFromModuleToAccount env n reserve cx)) (\<lambda>_.
     go_bind (on_mint_bank (SendCoinsFromModuleToAccount env n growth cy)) (\<lambda>_.
     go_bind (on_mint_bank (SendCoinsFromModuleToAccount env n budget cz)) (\<lambda>_.
     on_mint_bank (SendCoinsFromModuleToAccount env n growth cr))))) s =
     (Ok (), s\<lparr>ms_bank := pay m d [(feeCollector, w), (reserve, x), (growth, y), (budget, z), (growth, rest)]
       (ms_bank s)\<rparr>)"
proof -
  let ?b = "ms_bank s" and ?p1 = "[(feeCollector, w)]"
  have one: "on_mint_bank (SendCoinsFromModuleToModule env n n' cw) s = (Ok (), s\<lparr>ms_bank := pay m d ?p1 ?b\<rparr>)"
    using payable_send [OF assms(2) nn(1) _ assms(1) c(1), of feeCollector] assms(3,4) nn
    by (simp add: on_mint_bank_def SendCoinsFromModuleToModule_def pay_def)
  have p1: "payable env m d (a - sum_list (map snd ?p1)) (pay m d ?p1 ?b)"
    using payable_pay [OF assms(2), of ?p1] nn by simp
  note two = pay_to_account [OF p1 nn(2) _ assms(1) c(2) assms(3), of reserve]
  note three = pay_to_account [OF two(2) nn(3) _ assms(1) c(3) assms(3), of growth]
  note four = pay_to_account [OF three(2) nn(4) _ assms(1) c(4) assms(3), of budget]
  note five = pay_to_account(1) [OF four(2) nn(5) _ assms(1) c(5) assms(3), of growth]
  show ?thesis using one two(1) three(1) four(1) five assms(5) nn by (simp add: go_bind_def)
qed

text \<open>Property C19. The distribution of minted coins pays out everything: with valid parameters
  each recipient gets its proportion of the amount, rounded down, the growth pool also gets the
  remainder of less than four tokens, and together they get exactly the amount minted. The amount
  has to fit an \<open>int64\<close>, for the log lines, and to be at least 60 where the mint denom is
  the SDK's default bond denom, since otherwise the rounding can be more than the tolerated five
  percent.\<close>

theorem DistributeMintedCoin_pays_all:
  assumes "mint_Params_Validate (ms_params s) = Ok ()" "ValidateDenom d" "0 < a" "a < 2 ^ 63"
    and "60 \<le> a \<or> d \<noteq> DefaultBondDenom"
    and "be_module (e_bank (me_env me)) mint_ModuleName = Some m"
    and "be_module (e_bank (me_env me)) (me_feeCollectorName me) = Some feeCollector"
    and "sdk_AccAddressFromBech32 (me_env me) StrategicReserveAddress = Ok reserve"
    and "growth = GetSubmoduleAddress me ''growth'' SubmoduleCommunityNamespaceKey"
    and "budget = GetSubmoduleAddress me ''security-budget'' SubmoduleCommunityNamespaceKey"
    and "\<forall>x\<in>{reserve, growth, budget}. \<not> be_blocked (e_bank (me_env me)) x"
    and "payable (e_bank (me_env me)) m d a (ms_bank s)"
    and "dps = mp_DistributionProportions (ms_params s)"
  shows "\<exists>rest. 0 \<le> rest \<and> rest < 4 \<and>
    share_of a (dp_Staking dps) + share_of a (dp_StrategicReserve dps) + share_of a (dp_CommunityPoolGrowth dps)
      + share_of a (dp_CommunityPoolSecurityBudget dps) + rest = a \<and>
    DistributeMintedCoin me (d, a) s = (Ok (), s\<lparr>ms_bank := pay m d
      [(feeCollector, share_of a (dp_Staking dps)), (reserve, share_of a (dp_StrategicReserve dps)),
       (growth, share_of a (dp_CommunityPoolGrowth dps)), (budget, share_of a (dp_CommunityPoolSecurityBudget dps)),
       (growth, rest)] (ms_bank s)\<rparr>)"
proof -
  let ?e = "e_bank (me_env me)" and ?b = "ms_bank s" and ?P = precisionReuse
  note v = valid_proportions [OF assms(1,13)]
  define w x y z where "w = share_of a (dp_Staking dps)" and "x = share_of a (dp_StrategicReserve dps)"
    and "y = share_of a (dp_CommunityPoolGrowth dps)" and "z = share_of a (dp_CommunityPoolSecurityBudget dps)"
  define rest where "rest = a - w - x - y - z"
  have rest: "0 \<le> rest" "rest < 4"
    using shares_remainder [OF v(5), of a] assms(3) by (simp_all add: rest_def w_def x_def y_def z_def)
  have nn: "0 \<le> w" "0 \<le> x" "0 \<le> y" "0 \<le> z"
    using v assms(3) by (simp_all add: w_def x_def y_def z_def pos_imp_zdiv_nonneg_iff)
  have "\<exists>c. NewCoins [(d, u)] = Ok c" if "0 \<le> u" for u using that assms(2) by (simp add: NewCoins_single)
  then obtain cw cx cy cz where c: "NewCoins [(d, w)] = Ok cw" "NewCoins [(d, x)] = Ok cx"
    "NewCoins [(d, y)] = Ok cy" "NewCoins [(d, z)] = Ok cz" using nn by metis
  have sh: "mint_share (d, a) (dp_Staking dps) = Ok cw" "mint_share (d, a) (dp_StrategicReserve dps) = Ok cx"
    "mint_share (d, a) (dp_CommunityPoolGrowth dps) = Ok cy"
    "mint_share (d, a) (dp_CommunityPoolSecurityBudget dps) = Ok cz"
    using mint_share_eq [OF assms(2) _ assms(4)] assms(3) v c by (simp_all add: w_def x_def y_def z_def)
  obtain cr where r: "rbind (NewCoins [(d, a)]) (\<lambda>r. rbind (Coins_Sub r cw) (\<lambda>r. rbind (Coins_Sub r cx) (\<lambda>r.
      rbind (Coins_Sub r cy) (\<lambda>r. Coins_Sub r cz)))) = Ok cr" "NewCoins [(d, rest)] = Ok cr"
    using remaining_coins [OF assms(2-4) nn _ c] rest by (auto simp: rest_def)
  have ok: "remaining_too_large (d, a) cr = Ok False"
    using small_remainder_accepted [OF assms(2-4) rest assms(5) r(2)] .
  note sends = distribution_sends [OF assms(2,12,6,7,11) nn rest(1) _ c r(2)]
  have "DistributeMintedCoin me (d, a) s = (Ok (), s\<lparr>ms_bank := pay m d
      [(feeCollector, w), (reserve, x), (growth, y), (budget, z), (growth, rest)] ?b\<rparr>)"
    using sh r(1) ok sends assms(3,4,8-10,13)
    by (simp add: DistributeMintedCoin_def Let_def go_bind_def go_gets_def go_lift_def go_wrap_def Int_Int64_def
        is_int64_def rest_def)
  then show ?thesis using rest unfolding w_def x_def y_def z_def rest_def
    by (intro exI [of _ rest]) (simp add: rest_def w_def x_def y_def z_def)
qed

text \<open>Genesis: exporting what was imported gives it back, with the provisions filled in.\<close>

lemma ToInt64_ToUint64: "0 \<le> n \<Longrightarrow> n < 2 ^ 63 \<Longrightarrow> ToInt64 (ToUint64 n) = n"
  by (simp add: ToInt64_def ToUint64_def ToInt64E_def ToUint64E_def uint_word_of_int take_bit_int_eq_self)

lemma mint_InitGenesis_Ok:
  assumes "mint_InitGenesis me data s = (Ok (), s0)"
  shows "ms_params s0 = mg_Params data" "ms_minter s0 = Some (genesis_minter data)"
    "ms_lastReduction s0 = Some (ToUint64 (mg_ReductionStartedEpoch data))" "ms_bank s0 = ms_bank s"
  using assms
  by (auto simp: mint_InitGenesis_def Let_def go_simps mint_SetParams_def SetMinter_def ensure_module_account_def
      SetupNewModuleAccount_def SetLastReductionEpochNum_def split: if_splits option.splits)

lemma mint_genesis_roundtrip:
  assumes "mint_InitGenesis me data s = (Ok (), s0)"
    and "0 \<le> mg_ReductionStartedEpoch data" "mg_ReductionStartedEpoch data < 2 ^ 63"
  shows "mint_ExportGenesis s0 = (Ok (data\<lparr>mg_Minter := genesis_minter data\<rparr>), s0)"
  using mint_InitGenesis_Ok [OF assms(1)] assms(2,3)
  by (simp add: mint_ExportGenesis_def GetMinter_def go_defs GetLastReductionEpochNum_def ToInt64_ToUint64)

section \<open>The schedule of the inflation\<close>

lemma GetMinter_Ok [go_simps]: "GetMinter s = (Ok m, t) \<longleftrightarrow> ms_minter s = Some m \<and> t = s"
  by (auto simp: GetMinter_def split: option.splits)

text \<open>Whatever its outcome, a distribution moves coins and touches nothing else; the supply
  stays.\<close>

definition same_but_bank :: "mint_state \<Rightarrow> mint_state \<Rightarrow> bool" where
  "same_but_bank s t \<longleftrightarrow> ms_minter t = ms_minter s \<and> ms_lastReduction t = ms_lastReduction s \<and>
     ms_params t = ms_params s \<and> ms_accounts t = ms_accounts s \<and> bk_supply (ms_bank t) = bk_supply (ms_bank s)"

lemma keeps_on_mint_bank:
  assumes "\<And>b r b'. m b = (r, b') \<Longrightarrow> bk_supply b' = bk_supply b"
  shows "keeps (same_but_bank s) (on_mint_bank m)"
  using assms by (auto simp: keeps_def on_mint_bank_eq same_but_bank_def)

lemma keeps_sends [keeps_intros]:
  "keeps (same_but_bank s) (on_mint_bank (SendCoinsFromModuleToAccount env n a cs))"
  "keeps (same_but_bank s) (on_mint_bank (SendCoinsFromModuleToModule env n n' cs))"
  by (rule keeps_on_mint_bank, auto simp: SendCoinsFromModuleToAccount_def SendCoinsFromModuleToModule_def go_simps
      dest: SendCoins_supply split: option.splits if_splits)+

lemma DistributeMintedCoin_keeps: "keeps (same_but_bank s) (DistributeMintedCoin me coin)"
  unfolding DistributeMintedCoin_def Let_def by (intro keeps_intros)

lemma DistributeMintedCoin_Ok_pos:
  assumes "DistributeMintedCoin me (d, a) s = (Ok u, t)"
  shows "a \<noteq> 0" "same_but_bank s t"
proof -
  have "\<exists>cs. remaining_too_large (d, a) cs = Ok False"
    using assms by (auto simp: DistributeMintedCoin_def go_simps Let_def split: if_splits)
  then show "a \<noteq> 0" by (auto simp: remaining_too_large_def go_simps NewDecFromInt_def)
  show "same_but_bank s t"
    by (rule keepsD [OF DistributeMintedCoin_keeps assms]) (simp add: same_but_bank_def)
qed

text \<open>What a successful hook at an epoch of the mint timer has done.\<close>

definition hook_reduced :: "mint_state \<Rightarrow> int \<Rightarrow> bool" where
  "hook_reduced s n \<longleftrightarrow>
     n \<ge> int64_wrap (mp_ReductionPeriodInEpochs (ms_params s) +
       (if n = mp_MintingRewardsDistributionStartEpoch (ms_params s) then ToInt64 (ToUint64 n)
        else GetLastReductionEpochNum s))"

lemma mint_AfterEpochEnd_Ok:
  assumes "mint_AfterEpochEnd me e s = (Ok u, t)"
    and "ei_Identifier e = mp_EpochIdentifier (ms_params s)" "n = ei_CurrentEpoch e"
    and "mp_MintingRewardsDistributionStartEpoch (ms_params s) \<le> n" "ms_minter s = Some m"
  shows "\<exists>m' a. ms_minter t = Some m' \<and> ms_params t = ms_params s \<and>
    m' = (if hook_reduced s n
      then \<lparr>mn_EpochProvisions = chopPrecisionAndRound (mn_EpochProvisions m * mp_ReductionFactor (ms_params s))\<rparr>
      else m) \<and>
    GetLastReductionEpochNum t = (if hook_reduced s n \<or> n = mp_MintingRewardsDistributionStartEpoch (ms_params s)
      then ToInt64 (ToUint64 n) else GetLastReductionEpochNum s) \<and>
    a = chopPrecisionAndTruncate (mn_EpochProvisions m') \<and> 0 < a \<and>
    bk_supply (ms_bank t) (mp_MintDenom (ms_params s)) = bk_supply (ms_bank s) (mp_MintDenom (ms_params s)) + a"
proof -
  define S where "S = mp_MintingRewardsDistributionStartEpoch (ms_params s)"
  define s1 where "s1 = (if n = S then SetLastReductionEpochNum n s else s)"
  have s1: "ms_params s1 = ms_params s" "ms_minter s1 = Some m" "ms_bank s1 = ms_bank s"
    "GetLastReductionEpochNum s1 = (if n = S then ToInt64 (ToUint64 n) else GetLastReductionEpochNum s)"
    using assms(5) by (simp_all add: s1_def SetLastReductionEpochNum_def GetLastReductionEpochNum_def)
  have step: "(if n = S then go_modify (SetLastReductionEpochNum n) else go_ret ()) s = (Ok (), s1)"
    by (simp add: s1_def go_modify_def go_ret_def)
  obtain m' s2 d a cs s3 where red: "reduce_provisions n (ms_params s) m s1 = (Ok m', s2)"
    and prov: "EpochProvision m' (ms_params s) = Ok (d, a)" "NewCoins [(d, a)] = Ok cs"
    and mint: "mint_MintCoins me cs s2 = (Ok (), s3)" and dist: "DistributeMintedCoin me (d, a) s3 = (Ok u, t)"
    using assms step s1(1,2) unfolding S_def
    by (auto simp: mint_AfterEpochEnd_def Let_def go_bind_eq_Ok go_gets_eq go_lift_eq go_ret_eq GetMinter_Ok must_Ok
        split: if_splits)
  have da: "d = mp_MintDenom (ms_params s)" "a = chopPrecisionAndTruncate (mn_EpochProvisions m')" "0 \<le> a"
    using prov(1) by (auto simp: EpochProvision_def go_simps)
  note pos = DistributeMintedCoin_Ok_pos [OF dist]
  have "\<exists>acc. s3 = s2\<lparr>ms_bank := supply_add d a (bank_add acc d a (ms_bank s2))\<rparr>"
    using mint prov(2) pos(1)
    by (auto simp: mint_MintCoins_def on_mint_bank_eq NewCoins_single split: if_splits dest!: MintCoins_Ok)
  then obtain acc where s3: "s3 = s2\<lparr>ms_bank := supply_add d a (bank_add acc d a (ms_bank s2))\<rparr>" ..
  have t: "ms_minter t = ms_minter s2" "ms_params t = ms_params s2" "ms_lastReduction t = ms_lastReduction s2"
    "bk_supply (ms_bank t) d = bk_supply (ms_bank s2) d + a"
    using pos(2) s3 unfolding same_but_bank_def by simp_all
  have "hook_reduced s n \<longleftrightarrow> n \<ge> int64_wrap (mp_ReductionPeriodInEpochs (ms_params s) + GetLastReductionEpochNum s1)"
    unfolding hook_reduced_def s1(4) S_def by simp
  with red have s2: "ms_minter s2 = Some m'" "ms_params s2 = ms_params s" "ms_bank s2 = ms_bank s"
    "m' = (if hook_reduced s n
      then \<lparr>mn_EpochProvisions = chopPrecisionAndRound (mn_EpochProvisions m * mp_ReductionFactor (ms_params s))\<rparr>
      else m)"
    "GetLastReductionEpochNum s2 = (if hook_reduced s n then ToInt64 (ToUint64 n) else GetLastReductionEpochNum s1)"
    using s1(1-3)
    by (auto simp: reduce_provisions_def go_simps NextEpochProvisions_def SetMinter_def SetLastReductionEpochNum_def
        GetLastReductionEpochNum_def Let_def split: if_splits)
  then show ?thesis
    using t da pos(1) s1(4) by (auto simp: S_def GetLastReductionEpochNum_def)
qed

text \<open>A run of the chain as the module sees it, from a state \<open>s0\<close> in which the epoch of the mint timer is
  \<open>n0\<close>: epochs of the mint timer with consecutive numbers, epochs of other timers, and steps of other
  modules, which may do what they like with coins and accounts. The parameters stay. A
  panic of a hook stops the chain, so every step returned. \<open>minted\<close> counts what the hook has added to
  the supply.\<close>

inductive mint_run :: "mint_env \<Rightarrow> mint_state \<Rightarrow> int \<Rightarrow> int \<Rightarrow> int \<Rightarrow> mint_state \<Rightarrow> bool" for me s0 n0 where
  start: "mint_run me s0 n0 n0 0 s0"
| epoch: "mint_run me s0 n0 n minted s \<Longrightarrow> ei_Identifier e = mp_EpochIdentifier (ms_params s) \<Longrightarrow>
    ei_CurrentEpoch e = n + 1 \<Longrightarrow> mint_AfterEpochEnd me e s = (Ok (), t) \<Longrightarrow>
    new = bk_supply (ms_bank t) (mp_MintDenom (ms_params s)) - bk_supply (ms_bank s) (mp_MintDenom (ms_params s)) \<Longrightarrow>
    mint_run me s0 n0 (n + 1) (minted + new) t"
| other_epoch: "mint_run me s0 n0 n minted s \<Longrightarrow> ei_Identifier e \<noteq> mp_EpochIdentifier (ms_params s) \<Longrightarrow>
    mint_AfterEpochEnd me e s = (Ok (), t) \<Longrightarrow> mint_run me s0 n0 n minted t"
| modules: "mint_run me s0 n0 n minted s \<Longrightarrow> t = s\<lparr>ms_bank := b, ms_accounts := acs\<rparr> \<Longrightarrow> mint_run me s0 n0 n minted t"

text \<open>The provisions after a number of reductions.\<close>

definition reduced :: "Dec \<Rightarrow> Dec \<Rightarrow> Dec" where
  "reduced f p = chopPrecisionAndRound (p * f)"

definition provisions_after :: "Dec \<Rightarrow> Dec \<Rightarrow> nat \<Rightarrow> Dec" where
  "provisions_after f p0 j = (reduced f ^^ j) p0"

lemma provisions_after_simps [simp]:
  "provisions_after f p0 0 = p0" "provisions_after f p0 (Suc j) = reduced f (provisions_after f p0 j)"
  by (simp_all add: provisions_after_def)

lemma reduced_bounds:
  assumes "0 \<le> p" "0 \<le> f"
  shows "0 \<le> reduced f p" "2 * precisionReuse * reduced f p \<le> 2 * f * p + precisionReuse"
proof -
  have r: "reduced f p = chop_nonneg (p * f)"
    using assms by (simp add: reduced_def chopPrecisionAndRound_nonneg)
  then show "0 \<le> reduced f p" using assms by (simp add: chop_nonneg_ge_0)
  show "2 * precisionReuse * reduced f p \<le> 2 * f * p + precisionReuse"
    using chop_nonneg_bounds(1) [of "p * f"] r by (simp add: ac_simps)
qed

lemma reduced_le:
  assumes "0 \<le> p" "0 \<le> f" "f \<le> precisionReuse"
  shows "reduced f p \<le> p" "f < precisionReuse \<Longrightarrow> precisionReuse \<le> p \<Longrightarrow> reduced f p < p"
proof -
  let ?P = precisionReuse
  have P: "0 < ?P" by (simp add: precisionReuse_def)
  note b = reduced_bounds(2) [OF assms(1,2)]
  have "2 * f * p \<le> 2 * ?P * p" using assms by (intro mult_right_mono) simp_all
  moreover have "2 * ?P * (p + 1) = 2 * ?P * p + 2 * ?P" by (simp add: distrib_left)
  ultimately have "2 * ?P * reduced f p < 2 * ?P * (p + 1)" using b P by linarith
  then show "reduced f p \<le> p" using P mult_less_cancel_left_pos [of "2 * ?P"] by simp
  assume "f < ?P" "?P \<le> p"
  then have "2 * f * p \<le> 2 * (?P - 1) * p" using assms by (intro mult_right_mono) simp_all
  also have "\<dots> = 2 * ?P * p - 2 * p" by (simp add: algebra_simps)
  finally have "2 * ?P * reduced f p < 2 * ?P * p" using b P \<open>?P \<le> p\<close> by linarith
  then show "reduced f p < p" using P mult_less_cancel_left_pos [of "2 * ?P"] by simp
qed

lemma provisions_after_nonneg: "0 \<le> p0 \<Longrightarrow> 0 \<le> f \<Longrightarrow> 0 \<le> provisions_after f p0 j"
  by (induction j) (simp_all add: reduced_bounds)

lemma provisions_after_antimono:
  assumes "0 \<le> p0" "0 \<le> f" "f \<le> precisionReuse" "i \<le> j"
  shows "provisions_after f p0 j \<le> provisions_after f p0 i"
  using assms(4)
  by (induction rule: dec_induct) (auto intro: order_trans [OF reduced_le(1)] simp: provisions_after_nonneg assms)

text \<open>With a factor below one every reduction of a token or more takes something away, so they end.\<close>

lemma provisions_run_out:
  assumes "0 \<le> p0" "0 \<le> f" "f < precisionReuse" shows "\<exists>k. provisions_after f p0 k < precisionReuse"
proof (rule ccontr)
  assume "\<not> ?thesis"
  then have ge: "precisionReuse \<le> provisions_after f p0 k" for k by (simp add: not_less)
  have "provisions_after f p0 k \<le> p0 - int k" for k
  proof (induction k)
    case (Suc k)
    have "provisions_after f p0 (Suc k) < provisions_after f p0 k"
      using reduced_le(2) [OF provisions_after_nonneg [OF assms(1,2)] assms(2) _ assms(3) ge] assms(3) by simp
    with Suc show ?case by simp
  qed simp
  from this [of "nat p0"] ge [of "nat p0"] assms(1) show False by (simp add: precisionReuse_def)
qed

text \<open>The provisions of all periods together: a geometric series, as long as each is at least a token.\<close>

lemma provisions_sum:
  assumes "0 \<le> p0" "0 \<le> f" "f \<le> precisionReuse" "precisionReuse \<le> provisions_after f p0 j"
  shows "(2 * (precisionReuse - f) - 1) * (\<Sum>i\<le>j. provisions_after f p0 i) \<le> 2 * precisionReuse * p0"
proof -
  let ?p = "provisions_after f p0"
  have big: "precisionReuse \<le> ?p i" if "i \<le> j" for i
    using provisions_after_antimono [OF assms(1-3) that] assms(4) by simp
  have "2 * precisionReuse * (\<Sum>i\<le>k. ?p i) \<le> 2 * precisionReuse * p0 + (2 * f + 1) * (\<Sum>i<k. ?p i)" if "k \<le> j" for k
    using that
  proof (induction k)
    case (Suc k)
    have "2 * precisionReuse * ?p (Suc k) \<le> 2 * f * ?p k + precisionReuse"
      using reduced_bounds(2) [OF provisions_after_nonneg [OF assms(1,2)] assms(2)] by simp
    also have "\<dots> \<le> (2 * f + 1) * ?p k" using big [of k] Suc.prems by (simp add: distrib_right)
    finally show ?case using Suc.IH Suc.prems by (simp add: distrib_left)
  qed simp
  from this [OF order_refl] have "2 * precisionReuse * (\<Sum>i\<le>j. ?p i) \<le> 2 * precisionReuse * p0 + (2 * f + 1) * (\<Sum>i<j. ?p i)" .
  moreover have "(\<Sum>i<j. ?p i) \<le> (\<Sum>i\<le>j. ?p i)"
    using provisions_after_nonneg [OF assms(1,2)] by (intro sum_mono2) auto
  then have "(2 * f + 1) * (\<Sum>i<j. ?p i) \<le> (2 * f + 1) * (\<Sum>i\<le>j. ?p i)" using assms(2) by (intro mult_left_mono) simp_all
  ultimately have "2 * precisionReuse * (\<Sum>i\<le>j. ?p i) \<le> 2 * precisionReuse * p0 + (2 * f + 1) * (\<Sum>i\<le>j. ?p i)" by linarith
  then show ?thesis by (simp add: algebra_simps)
qed

text \<open>The epoch of the first reduction, for a start epoch, a period, and a last reduction at genesis or
  whenever the run begins.\<close>

definition first_reduction :: "int \<Rightarrow> int \<Rightarrow> int \<Rightarrow> int \<Rightarrow> int" where
  "first_reduction start period lastr n0 = (if n0 < start then start + period else max (n0 + 1) (lastr + period))"

text \<open>Epochs that have been paid at the current level of provisions.\<close>

definition paid_epochs :: "int \<Rightarrow> int \<Rightarrow> int \<Rightarrow> int \<Rightarrow> int \<Rightarrow> nat \<Rightarrow> int" where
  "paid_epochs start period D n0 n j =
     (if j = 0 then max 0 (n - max (start - 1) n0) else n - (D + (int j - 1) * period) + 1)"

text \<open>The invariant of a run after \<open>j\<close> reductions.\<close>

definition schedule_inv :: "int \<Rightarrow> int \<Rightarrow> int \<Rightarrow> Dec \<Rightarrow> Dec \<Rightarrow> int \<Rightarrow> int \<Rightarrow> nat \<Rightarrow> int \<Rightarrow> bool" where
  "schedule_inv start period D f p0 n0 n j minted \<longleftrightarrow> n0 \<le> n \<and> n < D + int j * period \<and>
     (0 < j \<longrightarrow> D + (int j - 1) * period \<le> n) \<and> 0 \<le> minted \<and>
     (max (start - 1) n0 < n \<longrightarrow> precisionReuse \<le> provisions_after f p0 j) \<and>
     minted * precisionReuse \<le> period * (\<Sum>i<j. provisions_after f p0 i) +
       paid_epochs start period D n0 n j * provisions_after f p0 j"

lemma paid_epochs_le:
  assumes "schedule_inv start period D f p0 n0 n j minted" "D - 1 - max (start - 1) n0 \<le> period" "0 < period"
  shows "paid_epochs start period D n0 n j \<le> period"
  using assms by (auto simp: schedule_inv_def paid_epochs_def left_diff_distrib)

lemma schedule_before:
  assumes "schedule_inv start period (first_reduction start period lastr n0) f p0 n0 n j minted"
    and "n + 1 < start" "0 < period"
  shows "schedule_inv start period (first_reduction start period lastr n0) f p0 n0 (n + 1) j minted"
proof -
  have n: "n0 < start" "first_reduction start period lastr n0 = start + period"
    using assms by (auto simp: schedule_inv_def first_reduction_def)
  have "j = 0"
  proof (rule ccontr)
    assume "j \<noteq> 0"
    then have "0 \<le> (int j - 1) * period" using assms(3) by simp
    with assms(1,2) n(2) \<open>j \<noteq> 0\<close> assms(3) show False by (simp add: schedule_inv_def)
  qed
  with assms n show ?thesis by (simp add: schedule_inv_def paid_epochs_def)
qed

lemma schedule_step:
  assumes inv: "schedule_inv start period D f p0 n0 n j minted" and n: "start \<le> n + 1"
    and ok: "0 \<le> p0" "0 \<le> f" "0 < period" "D - 1 - max (start - 1) n0 \<le> period"
    and red: "red \<longleftrightarrow> D + int j * period \<le> n + 1" and j': "j' = (if red then Suc j else j)"
    and a: "a * precisionReuse \<le> provisions_after f p0 j'" "0 < a"
  shows "schedule_inv start period D f p0 n0 (n + 1) j' (minted + a)"
proof -
  let ?P = precisionReuse and ?p = "provisions_after f p0" and ?c = "paid_epochs start period D n0"
  have p: "0 \<le> ?p i" for i by (rule provisions_after_nonneg [OF ok(1,2)])
  have P: "1 * ?P \<le> a * ?P" using a(2) by (intro mult_right_mono) (simp_all add: precisionReuse_def)
  have "minted * ?P + a * ?P \<le> period * (\<Sum>i<j'. ?p i) + ?c (n + 1) j' * ?p j'"
  proof (cases red)
    case True
    have "?c n j * ?p j \<le> period * ?p j" using paid_epochs_le [OF inv ok(4,3)] p by (intro mult_right_mono)
    moreover have "?c (n + 1) j' = 1"
      using inv True red j' by (simp add: schedule_inv_def paid_epochs_def)
    ultimately show ?thesis using inv a True j' by (simp add: schedule_inv_def distrib_left)
  next
    case False
    have "?c (n + 1) j = ?c n j + 1"
      using inv n by (auto simp: schedule_inv_def paid_epochs_def)
    then show ?thesis using inv a False j' by (simp add: schedule_inv_def distrib_right)
  qed
  moreover have "n + 1 < D + int j' * period" "0 < j' \<longrightarrow> D + (int j' - 1) * period \<le> n + 1"
    using inv red j' ok(3) by (auto simp: schedule_inv_def distrib_right)
  moreover have "?P \<le> ?p j'" using a(1) P by linarith
  ultimately show ?thesis using inv a(2) by (simp add: schedule_inv_def distrib_right)
qed

text \<open>What a run is started from: parameters that pass validation, provisions that are not
  negative, and, where the minting has begun, a last reduction that is not ahead of the timer.\<close>

definition mint_ready :: "mint_state \<Rightarrow> Minter \<Rightarrow> int \<Rightarrow> bool" where
  "mint_ready s0 m0 n0 \<longleftrightarrow> mint_Params_Validate (ms_params s0) = Ok () \<and>
     mp_ReductionPeriodInEpochs (ms_params s0) < 2 ^ 62 \<and> ms_minter s0 = Some m0 \<and> 0 \<le> mn_EpochProvisions m0 \<and>
     0 \<le> n0 \<and> 0 \<le> GetLastReductionEpochNum s0 \<and>
     (mp_MintingRewardsDistributionStartEpoch (ms_params s0) \<le> n0 \<longrightarrow> GetLastReductionEpochNum s0 \<le> n0 + 1)"

lemma mint_readyD:
  assumes "mint_ready s0 m0 n0"
  shows "0 \<le> mn_EpochProvisions m0" "0 \<le> mp_ReductionFactor (ms_params s0)"
    "mp_ReductionFactor (ms_params s0) \<le> precisionReuse" "0 < mp_ReductionPeriodInEpochs (ms_params s0)"
    "mp_ReductionPeriodInEpochs (ms_params s0) < 2 ^ 62" "0 \<le> mp_MintingRewardsDistributionStartEpoch (ms_params s0)"
    "ms_minter s0 = Some m0" "0 \<le> n0" "0 \<le> GetLastReductionEpochNum s0"
    "mp_MintingRewardsDistributionStartEpoch (ms_params s0) \<le> n0 \<Longrightarrow> GetLastReductionEpochNum s0 \<le> n0 + 1"
  using assms
  by (auto simp: mint_ready_def mint_Params_Validate_def go_simps validateReductionFactor_def NewDec_def
      validateReductionPeriodInEpochs_def validateMintingRewardsDistributionStartEpoch_def split: if_splits)

lemma mint_genesis_ready:
  assumes "mint_InitGenesis me data s = (Ok (), s0)" "mint_ValidateGenesis data = Ok ()"
    and "mp_ReductionPeriodInEpochs (mg_Params data) < 2 ^ 62" "0 \<le> mn_EpochProvisions (genesis_minter data)"
    and "0 \<le> n0" "n0 < 2 ^ 62" "0 \<le> mg_ReductionStartedEpoch data" "mg_ReductionStartedEpoch data \<le> n0 + 1"
  shows "mint_ready s0 (genesis_minter data) n0"
  using mint_InitGenesis_Ok [OF assms(1)] assms(2-)
  by (auto simp: mint_ready_def mint_ValidateGenesis_def GetLastReductionEpochNum_def ToInt64_ToUint64 go_simps)

definition reduction_epoch :: "mint_state \<Rightarrow> int \<Rightarrow> int" where
  "reduction_epoch s0 n0 = first_reduction (mp_MintingRewardsDistributionStartEpoch (ms_params s0))
     (mp_ReductionPeriodInEpochs (ms_params s0)) (GetLastReductionEpochNum s0) n0"

definition mint_inv :: "mint_state \<Rightarrow> Minter \<Rightarrow> int \<Rightarrow> int \<Rightarrow> int \<Rightarrow> mint_state \<Rightarrow> nat \<Rightarrow> bool" where
  "mint_inv s0 m0 n0 n minted s j \<longleftrightarrow>
     (let par = ms_params s0; start = mp_MintingRewardsDistributionStartEpoch par;
          period = mp_ReductionPeriodInEpochs par; D = reduction_epoch s0 n0 in
      ms_params s = par \<and>
      map_option mn_EpochProvisions (ms_minter s) = Some (provisions_after (mp_ReductionFactor par) (mn_EpochProvisions m0) j) \<and>
      GetLastReductionEpochNum s =
        (if 0 < j then D + (int j - 1) * period
         else if n0 < start \<and> start \<le> n then start else GetLastReductionEpochNum s0) \<and>
      schedule_inv start period D (mp_ReductionFactor par) (mn_EpochProvisions m0) n0 n j minted)"

lemma reduction_epoch_bounds:
  assumes "mint_ready s0 m0 n0"
  shows "n0 < reduction_epoch s0 n0"
    "reduction_epoch s0 n0 - 1 - max (mp_MintingRewardsDistributionStartEpoch (ms_params s0) - 1) n0
      \<le> mp_ReductionPeriodInEpochs (ms_params s0)"
    "mp_MintingRewardsDistributionStartEpoch (ms_params s0) \<le> reduction_epoch s0 n0"
  using mint_readyD [OF assms] by (auto simp: reduction_epoch_def first_reduction_def)

lemma hook_reduced_schedule:
  assumes ready: "mint_ready s0 m0 n0" and inv: "mint_inv s0 m0 n0 n minted s j"
    and n: "mp_MintingRewardsDistributionStartEpoch (ms_params s0) \<le> n + 1" "n + 1 < 2 ^ 62"
  shows "hook_reduced s (n + 1) \<longleftrightarrow> reduction_epoch s0 n0 + int j * mp_ReductionPeriodInEpochs (ms_params s0) \<le> n + 1"
proof -
  let ?start = "mp_MintingRewardsDistributionStartEpoch (ms_params s0)"
  let ?R = "mp_ReductionPeriodInEpochs (ms_params s0)" and ?D = "reduction_epoch s0 n0"
  note g = mint_readyD [OF ready] and D = reduction_epoch_bounds [OF ready]
  have par: "ms_params s = ms_params s0"
    and l: "GetLastReductionEpochNum s = (if 0 < j then ?D + (int j - 1) * ?R
         else if n0 < ?start \<and> ?start \<le> n then ?start else GetLastReductionEpochNum s0)"
    and s: "n0 \<le> n" "n < ?D + int j * ?R" "0 < j \<longrightarrow> ?D + (int j - 1) * ?R \<le> n"
    using inv by (simp_all add: mint_inv_def schedule_inv_def Let_def)
  have conv: "ToInt64 (ToUint64 (n + 1)) = n + 1" using n(2) g(8) s(1) by (simp add: ToInt64_ToUint64)
  define lastr where "lastr = (if n + 1 = ?start then n + 1 else GetLastReductionEpochNum s)"
  have j0: "0 \<le> (int j - 1) * ?R" if "0 < j" using that g(4) by simp
  have lastr: "0 \<le> lastr" "lastr \<le> n + 1" "?R + lastr \<le> n + 1 \<longleftrightarrow> ?D + int j * ?R \<le> n + 1"
  proof -
    consider (first) "n + 1 = ?start" | (level0) "j = 0" "?start \<le> n" | (level) "0 < j" "n + 1 \<noteq> ?start" using n(1) by linarith
    then have "0 \<le> lastr \<and> lastr \<le> n + 1 \<and> (?R + lastr \<le> n + 1 \<longleftrightarrow> ?D + int j * ?R \<le> n + 1)"
    proof cases
      case first
      then have "n0 < ?start" "?D = ?start + ?R" using s(1) by (simp_all add: reduction_epoch_def first_reduction_def)
      moreover have "j = 0"
      proof (rule ccontr)
        assume "j \<noteq> 0"
        with j0 s(3) have "0 \<le> (int j - 1) * ?R" "?D + (int j - 1) * ?R \<le> n" by simp_all
        with first \<open>?D = ?start + ?R\<close> g(4) show False by linarith
      qed
      ultimately show ?thesis using first g(4,8) s(1) by (simp add: lastr_def)
    next
      case level0
      then show ?thesis using l s(1) g(4,6,8-10)
        by (auto simp: lastr_def reduction_epoch_def first_reduction_def)
    next
      case level
      have "0 \<le> ?D" using D(1) g(8) by simp
      with level show ?thesis using l s(3) j0 by (auto simp: lastr_def left_diff_distrib)
    qed
    then show "0 \<le> lastr" "lastr \<le> n + 1" "?R + lastr \<le> n + 1 \<longleftrightarrow> ?D + int j * ?R \<le> n + 1" by simp_all
  qed
  have "int64_wrap (?R + lastr) = ?R + lastr" using g(4,5) n(2) lastr(1,2) by (simp add: is_int64_def)
  then have "hook_reduced s (n + 1) \<longleftrightarrow> ?R + lastr \<le> n + 1"
    using conv par by (auto simp: hook_reduced_def lastr_def)
  with lastr(3) show ?thesis by simp
qed

lemma mint_inv_epoch:
  assumes ready: "mint_ready s0 m0 n0" and inv: "mint_inv s0 m0 n0 n minted s j" and n: "n + 1 < 2 ^ 62"
    and e: "ei_Identifier e = mp_EpochIdentifier (ms_params s)" "ei_CurrentEpoch e = n + 1"
    and run: "mint_AfterEpochEnd me e s = (Ok (), t)"
    and new: "new = bk_supply (ms_bank t) (mp_MintDenom (ms_params s)) - bk_supply (ms_bank s) (mp_MintDenom (ms_params s))"
  shows "\<exists>j'. mint_inv s0 m0 n0 (n + 1) (minted + new) t j'"
proof -
  let ?par = "ms_params s0"
  let ?start = "mp_MintingRewardsDistributionStartEpoch ?par" and ?R = "mp_ReductionPeriodInEpochs ?par"
  let ?p = "provisions_after (mp_ReductionFactor ?par) (mn_EpochProvisions m0)"
  note g = mint_readyD [OF ready]
  obtain m where par: "ms_params s = ?par" and m: "ms_minter s = Some m" "mn_EpochProvisions m = ?p j"
    and l: "GetLastReductionEpochNum s = (if 0 < j then reduction_epoch s0 n0 + (int j - 1) * ?R
         else if n0 < ?start \<and> ?start \<le> n then ?start else GetLastReductionEpochNum s0)"
    and sch: "schedule_inv ?start ?R (reduction_epoch s0 n0) (mp_ReductionFactor ?par) (mn_EpochProvisions m0) n0 n j minted"
    using inv by (auto simp: mint_inv_def Let_def)
  show ?thesis
  proof (cases "n + 1 < ?start")
    case True
    then have "t = s" using run e par by (auto simp: mint_AfterEpochEnd_def Let_def go_simps split: if_splits)
    moreover have "schedule_inv ?start ?R (reduction_epoch s0 n0) (mp_ReductionFactor ?par) (mn_EpochProvisions m0) n0 (n + 1) j minted"
      using schedule_before [OF sch [unfolded reduction_epoch_def] True g(4)] by (simp add: reduction_epoch_def)
    ultimately show ?thesis using True par m l new by (auto simp: mint_inv_def Let_def intro!: exI [of _ j])
  next
    case False
    note red = hook_reduced_schedule [OF ready inv _ n]
    define j' where "j' = (if hook_reduced s (n + 1) then Suc j else j)"
    have "mp_MintingRewardsDistributionStartEpoch (ms_params s) \<le> n + 1" using False par by simp
    from mint_AfterEpochEnd_Ok [OF run e(1) e(2) [symmetric] this m(1)]
    obtain m' a where t: "ms_minter t = Some m'" "ms_params t = ?par"
      "m' = (if hook_reduced s (n + 1)
        then \<lparr>mn_EpochProvisions = chopPrecisionAndRound (mn_EpochProvisions m * mp_ReductionFactor ?par)\<rparr> else m)"
      "GetLastReductionEpochNum t = (if hook_reduced s (n + 1) \<or> n + 1 = ?start
        then ToInt64 (ToUint64 (n + 1)) else GetLastReductionEpochNum s)"
      and a: "a = chopPrecisionAndTruncate (mn_EpochProvisions m')" "0 < a" "new = a"
      using par new by auto
    have p': "mn_EpochProvisions m' = ?p j'" using t(3) m(2) by (simp add: j'_def reduced_def)
    have "a * precisionReuse \<le> ?p j'"
      using truncate_le [of "?p j'"] provisions_after_nonneg [OF g(1,2)] a(1) p' by simp
    then have "schedule_inv ?start ?R (reduction_epoch s0 n0) (mp_ReductionFactor ?par) (mn_EpochProvisions m0) n0 (n + 1) j' (minted + new)"
      using False a(2,3) red by (intro schedule_step [OF sch _ g(1,2,4) reduction_epoch_bounds(2) [OF ready] _ j'_def]) auto
    moreover have "GetLastReductionEpochNum t = (if 0 < j' then reduction_epoch s0 n0 + (int j' - 1) * ?R
         else if n0 < ?start \<and> ?start \<le> n + 1 then ?start else GetLastReductionEpochNum s0)"
    proof -
      have "n0 \<le> n" "n < reduction_epoch s0 n0 + int j * ?R" "0 < j \<longrightarrow> reduction_epoch s0 n0 + (int j - 1) * ?R \<le> n"
        using sch by (simp_all add: schedule_inv_def)
      moreover have "ToInt64 (ToUint64 (n + 1)) = n + 1" using n g(8) \<open>n0 \<le> n\<close> by (simp add: ToInt64_ToUint64)
      moreover have "j = 0" if "n + 1 = ?start"
      proof (rule ccontr)
        assume "j \<noteq> 0"
        then have "0 \<le> (int j - 1) * ?R" using g(4) by simp
        with \<open>j \<noteq> 0\<close> that calculation(1,3) g(4) show False
          by (simp add: reduction_epoch_def first_reduction_def)
      qed
      ultimately show ?thesis using t(4) l red False by (cases "j = 0") (auto simp: j'_def)
    qed
    ultimately show ?thesis using t(1,2) p' by (auto simp: mint_inv_def Let_def intro!: exI [of _ j'])
  qed
qed

lemma mint_run_inv:
  assumes "mint_run me s0 n0 n minted t" "mint_ready s0 m0 n0" "n < 2 ^ 62"
  shows "\<exists>j. mint_inv s0 m0 n0 n minted t j"
  using assms
proof (induction rule: mint_run.induct)
  case start
  note g = mint_readyD [OF start(1)]
  have "mint_inv s0 m0 n0 n0 0 s0 0"
    using g reduction_epoch_bounds(1) [OF start(1)]
    by (auto simp: mint_inv_def Let_def schedule_inv_def paid_epochs_def)
  then show ?case ..
next
  case (epoch n minted s e t new)
  then obtain j where "mint_inv s0 m0 n0 n minted s j" by force
  with epoch show ?case by (intro mint_inv_epoch [where s = s and e = e and me = me]) simp_all
next
  case (other_epoch n minted s e t)
  then have "t = s" by (auto simp: mint_AfterEpochEnd_def Let_def go_simps)
  with other_epoch show ?case by simp
next
  case (modules n minted s t b acs)
  then obtain j where "mint_inv s0 m0 n0 n minted s j" by blast
  then have "mint_inv s0 m0 n0 n minted t j"
    unfolding modules(2) by (simp add: mint_inv_def Let_def GetLastReductionEpochNum_def)
  then show ?case ..
qed

lemma mint_run_minted:
  assumes ready: "mint_ready s0 m0 n0" and inv: "mint_inv s0 m0 n0 n minted t j"
  shows "minted * (2 * (precisionReuse - mp_ReductionFactor (ms_params s0)) - 1)
    \<le> 2 * mp_ReductionPeriodInEpochs (ms_params s0) * mn_EpochProvisions m0"
proof -
  let ?P = precisionReuse and ?f = "mp_ReductionFactor (ms_params s0)" and ?R = "mp_ReductionPeriodInEpochs (ms_params s0)"
  let ?start = "mp_MintingRewardsDistributionStartEpoch (ms_params s0)" and ?D = "reduction_epoch s0 n0"
  let ?p = "provisions_after ?f (mn_EpochProvisions m0)"
  define K where "K = 2 * (?P - ?f) - 1"
  have P: "0 < ?P" by (simp add: precisionReuse_def)
  note g = mint_readyD [OF ready]
  have sch: "schedule_inv ?start ?R ?D ?f (mn_EpochProvisions m0) n0 n j minted" using inv by (simp add: mint_inv_def Let_def)
  have nn: "0 \<le> minted" using sch by (simp add: schedule_inv_def)
  have rhs: "0 \<le> 2 * ?R * mn_EpochProvisions m0" using g(1,4) by simp
  show ?thesis unfolding K_def [symmetric]
  proof (cases "K \<le> 0 \<or> minted = 0")
    case True
    then have "minted * K \<le> 0" using nn by (auto intro: mult_nonneg_nonpos)
    with rhs show "minted * K \<le> 2 * ?R * mn_EpochProvisions m0" by linarith
  next
    case False
    have paid: "minted * ?P \<le> ?R * (\<Sum>i\<le>j. ?p i)"
    proof -
      have "paid_epochs ?start ?R ?D n0 n j * ?p j \<le> ?R * ?p j"
        using paid_epochs_le [OF sch reduction_epoch_bounds(2) [OF ready] g(4)] provisions_after_nonneg [OF g(1,2)]
        by (intro mult_right_mono)
      moreover have "(\<Sum>i\<le>j. ?p i) = (\<Sum>i<j. ?p i) + ?p j" by (simp flip: lessThan_Suc_atMost)
      ultimately show ?thesis using sch by (simp add: schedule_inv_def distrib_left)
    qed
    have "max (?start - 1) n0 < n"
    proof (rule ccontr)
      assume early: "\<not> max (?start - 1) n0 < n"
      have "j = 0"
      proof (rule ccontr)
        assume "j \<noteq> 0"
        then have "0 \<le> (int j - 1) * ?R" "?D + (int j - 1) * ?R \<le> n" using g(4) sch by (simp_all add: schedule_inv_def)
        with early reduction_epoch_bounds(1,3) [OF ready] show False by linarith
      qed
      with early sch have "minted * ?P \<le> 0" by (simp add: schedule_inv_def paid_epochs_def max_def split: if_splits)
      moreover have "0 < minted * ?P" using nn False P by (intro mult_pos_pos) auto
      ultimately show False by linarith
    qed
    then have "?P \<le> ?p j" using sch by (simp add: schedule_inv_def)
    note series = provisions_sum [OF g(1-3) this, folded K_def]
    have "minted * ?P * K \<le> ?R * (\<Sum>i\<le>j. ?p i) * K" using paid False by (intro mult_right_mono) simp_all
    also have "\<dots> = ?R * (K * (\<Sum>i\<le>j. ?p i))" by (simp add: ac_simps)
    also have "\<dots> \<le> ?R * (2 * ?P * mn_EpochProvisions m0)" using series g(4) by (intro mult_left_mono) simp_all
    finally have "(minted * K) * ?P \<le> (2 * ?R * mn_EpochProvisions m0) * ?P" by (simp add: ac_simps)
    then show "minted * K \<le> 2 * ?R * mn_EpochProvisions m0" using P mult_le_cancel_right_pos by blast
  qed
qed

text \<open>The epoch in which provisions that \<open>k\<close> reductions have brought below one token are due.\<close>

definition halt_epoch :: "mint_state \<Rightarrow> int \<Rightarrow> nat \<Rightarrow> int" where
  "halt_epoch s0 n0 k =
     (if k = 0 then max (mp_MintingRewardsDistributionStartEpoch (ms_params s0)) (n0 + 1)
      else reduction_epoch s0 n0 + (int k - 1) * mp_ReductionPeriodInEpochs (ms_params s0))"

lemma mint_run_bound:
  assumes ready: "mint_ready s0 m0 n0" and inv: "mint_inv s0 m0 n0 n minted t j"
    and k: "provisions_after (mp_ReductionFactor (ms_params s0)) (mn_EpochProvisions m0) k < precisionReuse"
  shows "n < halt_epoch s0 n0 k"
proof -
  let ?R = "mp_ReductionPeriodInEpochs (ms_params s0)" and ?D = "reduction_epoch s0 n0"
  let ?p = "provisions_after (mp_ReductionFactor (ms_params s0)) (mn_EpochProvisions m0)"
  let ?start = "mp_MintingRewardsDistributionStartEpoch (ms_params s0)"
  note g = mint_readyD [OF ready] and D = reduction_epoch_bounds [OF ready]
  have sch: "n < ?D + int j * ?R" "max (?start - 1) n0 < n \<longrightarrow> precisionReuse \<le> ?p j"
    using inv by (simp_all add: mint_inv_def Let_def schedule_inv_def)
  have mono: "0 \<le> (int k - 1) * ?R" if "k \<noteq> 0" using that g(4) by simp
  show ?thesis
  proof (cases "max (?start - 1) n0 < n")
    case False
    then have n: "n < ?D" using D(1,3) by linarith
    show ?thesis
    proof (cases "k = 0")
      case True
      with False show ?thesis by (simp add: halt_epoch_def max_def split: if_splits)
    next
      case False
      with n mono show ?thesis by (simp add: halt_epoch_def)
    qed
  next
    case True
    with sch(2) k have "?p k < ?p j" by simp
    then have "j < k" using provisions_after_antimono [OF g(1-3)] by (metis linorder_not_less)
    then have "int j * ?R \<le> (int k - 1) * ?R" using g(4) by (intro mult_right_mono) simp_all
    with sch(1) \<open>j < k\<close> show ?thesis by (simp add: halt_epoch_def)
  qed
qed

lemma mint_AfterEpochEnd_no_Err: "mint_AfterEpochEnd me e s \<noteq> (Err x, t)"
  by (auto simp: mint_AfterEpochEnd_def Let_def go_simps reduce_provisions_def NextEpochProvisions_def
      EpochProvision_def GetMinter_def must_def split: if_splits option.splits prod.splits res.splits)

text \<open>Property C20. The inflation is bounded. From any moment with valid parameters, provisions that are not
  negative and a last reduction that is not ahead of the timer, genesis or an upgrade that sets the
  provisions anew, until the parameters or the provisions are set again: whatever the other modules do
  with the coins, what the hook mints is at most the provisions of a period, over one minus the
  reduction factor and half a unit of the last decimal place. The factor is any that passes validation,
  and the bound is empty for a factor of one. Numbers of epochs are below \<open>2 ^ 62\<close>. With the default
  parameters the bound is 5 million whole tokens.\<close>

theorem inflation_is_bounded:
  assumes "mint_ready s0 m0 n0" "mint_run me s0 n0 n minted t" "n < 2 ^ 62"
  shows "minted * (2 * (precisionReuse - mp_ReductionFactor (ms_params s0)) - 1)
    \<le> 2 * mp_ReductionPeriodInEpochs (ms_params s0) * mn_EpochProvisions m0"
  using mint_run_inv [OF assms(2,1,3)] mint_run_minted [OF assms(1)] by blast

text \<open>Property C21. The inflation stops the chain. When provisions have been reduced below one token, the
  distribution divides by an amount of zero. From any moment with valid parameters, provisions that
  are not negative and a last reduction that is not ahead of the timer, and as long as parameters and
  provisions are not set anew: if \<open>k\<close> reductions bring the provisions below one token, then no run passes
  the epoch in which these are due, and the hook of that epoch panics. With a reduction factor
  below one there is such a \<open>k\<close>; with a factor of one, which is valid too, provisions stay as they
  are. Numbers of epochs are below \<open>2 ^ 62\<close>.\<close>

theorem exhausted_provisions_halt:
  assumes "mint_ready s0 m0 n0" "mint_run me s0 n0 n minted t" "n + 1 < 2 ^ 62"
  defines "p \<equiv> provisions_after (mp_ReductionFactor (ms_params s0)) (mn_EpochProvisions m0)"
  shows "(\<forall>k. p k < precisionReuse \<longrightarrow> n < halt_epoch s0 n0 k \<and>
      (\<forall>e. ei_Identifier e = mp_EpochIdentifier (ms_params t) \<and> ei_CurrentEpoch e = n + 1 \<and> n + 1 = halt_epoch s0 n0 k \<longrightarrow>
        fst (mint_AfterEpochEnd me e t) = Panic)) \<and>
    (mp_ReductionFactor (ms_params s0) < precisionReuse \<longrightarrow> (\<exists>k. p k < precisionReuse))"
proof (intro conjI allI impI)
  fix k assume k: "p k < precisionReuse"
  have bound: "n' < halt_epoch s0 n0 k" if "mint_run me s0 n0 n' minted' t'" "n' < 2 ^ 62" for n' t' minted'
    using mint_run_inv [OF that(1) assms(1) that(2)] mint_run_bound [OF assms(1)] k unfolding p_def by blast
  show "n < halt_epoch s0 n0 k" using bound [OF assms(2)] assms(3) by simp
  fix e :: EpochInfo assume e: "ei_Identifier e = mp_EpochIdentifier (ms_params t) \<and> ei_CurrentEpoch e = n + 1 \<and> n + 1 = halt_epoch s0 n0 k"
  obtain r u where run: "mint_AfterEpochEnd me e t = (r, u)" by (cases "mint_AfterEpochEnd me e t")
  have "r \<noteq> Ok ()"
  proof
    assume "r = Ok ()"
    then have "mint_AfterEpochEnd me e t = (Ok (), u)" using run by simp
    from bound [OF mint_run.epoch [OF assms(2) _ _ this refl] assms(3)] e show False by simp
  qed
  then show "fst (mint_AfterEpochEnd me e t) = Panic"
    using run mint_AfterEpochEnd_no_Err [of me e t] by (cases r) auto
next
  assume "mp_ReductionFactor (ms_params s0) < precisionReuse"
  then show "\<exists>k. p k < precisionReuse"
    unfolding p_def using mint_readyD [OF assms(1)] by (intro provisions_run_out)
qed

section \<open>Concrete runs\<close>

definition mint_demo_env :: mint_env where
  "mint_demo_env = \<lparr>me_env = demo_env\<lparr>e_bank := demo_bank_env\<lparr>be_module := (\<lambda>m. Some m)\<rparr>,
       e_DecodeBech32 := (\<lambda>s. Some (takeWhile (\<lambda>ch. ch \<noteq> CHR ''1'') s, take 20 (drop 7 s)))\<rparr>,
     me_feeCollectorName = ''fee_collector''\<rparr>"

definition mint_empty :: "mint_Params \<Rightarrow> mint_state" where
  "mint_empty params = \<lparr>ms_minter = None, ms_lastReduction = None, ms_params = params, ms_accounts = (\<lambda>_. None),
     ms_bank = \<lparr>bk_balance = (\<lambda>_ _. 0), bk_supply = (\<lambda>_. 0)\<rparr>\<rparr>"

definition mint_epoch_info :: "int \<Rightarrow> EpochInfo" where
  "mint_epoch_info n = (genesis_epoch MINT_EPOCH 3600)\<lparr>ei_CurrentEpoch := n\<rparr>"

definition mint_default :: mint_Params where
  "mint_default = \<lparr>mp_MintDenom = ''stake'', mp_GenesisEpochProvisions = 285388127853881278538812785,
     mp_EpochIdentifier = ''mint'', mp_ReductionPeriodInEpochs = 8760, mp_ReductionFactor = 500000000000000000,
     mp_DistributionProportions =
       \<lparr>dp_Staking = 276400000000000000, dp_CommunityPoolGrowth = 186000000000000000,
        dp_CommunityPoolSecurityBudget = 117100000000000000, dp_StrategicReserve = 420500000000000000\<rparr>,
     mp_MintingRewardsDistributionStartEpoch = 0\<rparr>"

definition mint_default_genesis :: mint_GenesisState where
  "mint_default_genesis = \<lparr>mg_Minter = InitialMinter, mg_Params = mint_default, mg_ReductionStartedEpoch = 0\<rparr>"

lemma mint_DefaultGenesisState_eq: "mint_DefaultGenesisState = Ok mint_default_genesis"
  by code_simp

lemma mint_default_ok: "mint_ValidateGenesis mint_default_genesis = Ok ()" "mint_Params_Validate mint_default = Ok ()"
  by code_simp+

definition mint_loaded :: mint_state where
  "mint_loaded = (mint_empty mint_default)\<lparr>ms_bank := \<lparr>bk_balance = (\<lambda>a d. if a = ''mint'' then 1000 else 0),
     bk_supply = (\<lambda>_. 1000)\<rparr>\<rparr>"

lemma mint_loaded_payable: "payable (e_bank (me_env mint_demo_env)) ''mint'' ''stake'' 1000 (ms_bank mint_loaded)"
  by (simp add: payable_def mint_loaded_def mint_demo_env_def demo_bank_env_def)

lemma mint_demo_fields:
  "be_module (e_bank (me_env mint_demo_env)) n = Some n" "me_feeCollectorName mint_demo_env = ''fee_collector''"
  "\<not> be_blocked (e_bank (me_env mint_demo_env)) a" "GetSubmoduleAddress mint_demo_env n k = ''mint/'' @ k @ n"
  by (simp_all add: mint_demo_env_def demo_bank_env_def demo_env_def GetSubmoduleAddress_def mint_ModuleName_def)

lemma mint_demo_reserve:
  "sdk_AccAddressFromBech32 (me_env mint_demo_env) StrategicReserveAddress = Ok ''alnn79kh0xka0r5h4h82''"
  by code_simp

theorem DistributeMintedCoin_pays_all_witness:
  "DistributeMintedCoin mint_demo_env (''stake'', 1000) mint_loaded =
     (Ok (), mint_loaded\<lparr>ms_bank := pay ''mint'' ''stake''
       [(''fee_collector'', 276), (''alnn79kh0xka0r5h4h82'', 420), (''mint/commmunitygrowth'', 186),
        (''mint/commmunitysecurity-budget'', 117), (''mint/commmunitygrowth'', 1)] (ms_bank mint_loaded)\<rparr>)"
proof -
  have p: "ms_params mint_loaded = mint_default" by (simp add: mint_loaded_def mint_empty_def)
  have d: "ValidateDenom ''stake''" by code_simp
  note * = DistributeMintedCoin_pays_all [of mint_loaded "''stake''" 1000 mint_demo_env "''mint''" "''fee_collector''"
      "''alnn79kh0xka0r5h4h82''" "''mint/commmunitygrowth''" "''mint/commmunitysecurity-budget''"
      "mp_DistributionProportions mint_default"]
  show ?thesis
    using * d mint_loaded_payable mint_demo_reserve mint_default_ok
    by (simp add: p mint_demo_fields mint_ModuleName_def SubmoduleCommunityNamespaceKey_def mint_default_def precisionReuse_def)
qed

definition mint_first :: mint_state where
  "mint_first = snd (mint_InitGenesis mint_demo_env mint_default_genesis (mint_empty mint_default))"

lemma mint_first_run: "mint_InitGenesis mint_demo_env mint_default_genesis (mint_empty mint_default) = (Ok (), mint_first)"
  by (simp add: mint_first_def mint_InitGenesis_def mint_SetParams_def mint_default_genesis_def mint_default_ok go_defs Let_def)

lemma mint_first_fields: "ms_params mint_first = mint_default" "bk_supply (ms_bank mint_first) d = 0"
  using mint_InitGenesis_Ok [OF mint_first_run] by (simp_all add: mint_default_genesis_def mint_empty_def)

text \<open>The timer is in epoch 1 when the chain starts, so the first epoch that ends is number 2.\<close>

lemma mint_first_ready: "mint_ready mint_first (genesis_minter mint_default_genesis) 1"
  by (rule mint_genesis_ready [OF mint_first_run mint_default_ok(1)]) (code_simp+)

lemma mint_second_run:
  "case mint_AfterEpochEnd mint_demo_env (mint_epoch_info 2) mint_first of
     (r, t) \<Rightarrow> r = Ok () \<and> bk_supply (ms_bank t) ''stake'' = 285388127"
  by code_simp

theorem inflation_is_bounded_witness:
  "\<exists>t. mint_run mint_demo_env mint_first 1 2 285388127 t \<and>
     285388127 * (precisionReuse - 1) \<le> 2 * 8760 * 285388127853881278538812785"
proof -
  obtain t where t: "mint_AfterEpochEnd mint_demo_env (mint_epoch_info 2) mint_first = (Ok (), t)"
    "bk_supply (ms_bank t) ''stake'' = 285388127"
    using mint_second_run by (auto split: prod.splits)
  have "mint_run mint_demo_env mint_first 1 (1 + 1) (0 + 285388127) t"
    by (rule mint_run.epoch [OF mint_run.start _ _ t(1)])
      (use t(2) in \<open>simp_all add: mint_epoch_info_def genesis_epoch_def mint_first_fields mint_default_def MINT_EPOCH_def\<close>)
  then have run: "mint_run mint_demo_env mint_first 1 2 285388127 t" by simp
  have "2 * (precisionReuse - mp_ReductionFactor mint_default) - 1 = precisionReuse - 1"
    "mp_ReductionPeriodInEpochs mint_default = 8760"
    "mn_EpochProvisions (genesis_minter mint_default_genesis) = 285388127853881278538812785"
    by code_simp+
  with inflation_is_bounded [OF mint_first_ready run] run show ?thesis
    by (intro exI [of _ t]) (simp add: mint_first_fields)
qed

text \<open>A chain that starts with one token per epoch and halves it every epoch stops at the first.\<close>

definition mint_tiny :: mint_GenesisState where
  "mint_tiny = \<lparr>mg_Minter = \<lparr>mn_EpochProvisions = 1000000000000000000\<rparr>,
     mg_Params = mint_default\<lparr>mp_ReductionPeriodInEpochs := 1\<rparr>, mg_ReductionStartedEpoch = 0\<rparr>"

lemma mint_tiny_ok: "mint_ValidateGenesis mint_tiny = Ok ()" "mint_Params_Validate (mint_default\<lparr>mp_ReductionPeriodInEpochs := 1\<rparr>) = Ok ()"
  by code_simp+

theorem exhausted_provisions_halt_witness:
  "\<exists>s0. mint_InitGenesis mint_demo_env mint_tiny (mint_empty mint_default) = (Ok (), s0) \<and>
     fst (mint_AfterEpochEnd mint_demo_env (mint_epoch_info 2) s0) = Panic"
proof -
  obtain s0 where s0: "mint_InitGenesis mint_demo_env mint_tiny (mint_empty mint_default) = (Ok (), s0)"
    by (simp add: mint_InitGenesis_def mint_SetParams_def mint_tiny_def mint_tiny_ok go_defs Let_def)
  note i = mint_InitGenesis_Ok [OF s0]
  have gm: "genesis_minter mint_tiny = \<lparr>mn_EpochProvisions = 1000000000000000000\<rparr>" by code_simp
  have ready: "mint_ready s0 (genesis_minter mint_tiny) 1"
    by (rule mint_genesis_ready [OF s0 mint_tiny_ok(1)]) (simp_all add: gm, simp_all add: mint_tiny_def)
  have fields: "mp_MintingRewardsDistributionStartEpoch (ms_params s0) = 0" "mp_ReductionPeriodInEpochs (ms_params s0) = 1"
    "mp_ReductionFactor (ms_params s0) = 500000000000000000" "mp_EpochIdentifier (ms_params s0) = MINT_EPOCH"
    "GetLastReductionEpochNum s0 = 0"
    using i(1,3) by (simp_all add: mint_tiny_def mint_default_def MINT_EPOCH_def GetLastReductionEpochNum_def ToInt64_ToUint64)
  have "provisions_after 500000000000000000 1000000000000000000 1 < precisionReuse" by code_simp
  moreover have "halt_epoch s0 1 1 = 2"
    by (simp add: halt_epoch_def reduction_epoch_def first_reduction_def fields)
  ultimately have "fst (mint_AfterEpochEnd mint_demo_env (mint_epoch_info 2) s0) = Panic"
    using exhausted_provisions_halt [OF ready mint_run.start [of mint_demo_env], THEN conjunct1, rule_format, of 1,
        THEN conjunct2, rule_format, of "mint_epoch_info 2"]
    by (simp add: gm fields mint_epoch_info_def genesis_epoch_def)
  with s0 show ?thesis by blast
qed

end
