(* ===== verification/Unbondings.thy ===== *)
theory Unbondings
  imports LiquidStaking
begin

text \<open>
  The way out of a host zone: \<open>keeper/unbonding_records.go\<close>.

  Every day an unbonding record is created with an entry per active zone
  (\<open>CreateEpochUnbondingRecord\<close>). When a zone unbonds, the queued entries of all days are
  summed, the sum is split over the validators by weight, cut down to what each validator has and
  the rest moved to validators with room (\<open>GetHostZoneUnbondingMsgs\<close>); the transaction goes
  out and the entries are marked in progress (\<open>InitiateAllHostZoneUnbondings\<close>). Entries whose
  unbonding time has passed are swept to the redemption account
  (\<open>SweepAllUnbondedTokens\<close>), and records with nothing left are deleted
  (\<open>CleanupEpochUnbondingRecords\<close>).
\<close>

section \<open>Creating and deleting the records of a day\<close>

definition CreateEpochUnbondingRecord :: "uint64 \<Rightarrow> chain \<Rightarrow> chain" where
  "CreateEpochUnbondingRecord epochNumber c =
     mod_records (SetEpochUnbondingRecord \<lparr>eur_EpochNumber = epochNumber,
       eur_HostZoneUnbondings = map (\<lambda>hostZone.
         \<lparr>hzu_StTokenAmount = 0, hzu_NativeTokenAmount = 0, hzu_Denom = hz_HostDenom hostZone,
          hzu_HostZoneId = hz_ChainId hostZone, hzu_UnbondingTime = 0, hzu_Status = UNBONDING_QUEUE,
          hzu_UserRedemptionRecords = []\<rparr>) (GetAllActiveHostZone c)\<rparr>) c"

definition CleanupEpochUnbondingRecords :: "uint64 \<Rightarrow> records_state \<Rightarrow> records_state" where
  "CleanupEpochUnbondingRecords epochNumber s =
     fold (\<lambda>epochUnbondingRecord s'.
       if list_all (\<lambda>hzu. hzu_NativeTokenAmount hzu = 0) (eur_HostZoneUnbondings epochUnbondingRecord)
       then RemoveEpochUnbondingRecord (eur_EpochNumber epochUnbondingRecord) s' else s')
       (GetAllEpochUnbondingRecord s) s"

section \<open>The undelegations of a zone\<close>

text \<open>The first loop: the queued unbondings of the zone, their sum and their epochs.\<close>

definition queued_unbonding :: "records_state \<Rightarrow> string \<Rightarrow> EpochUnbondingRecord \<Rightarrow> int \<times> uint64 list \<Rightarrow> (int \<times> uint64 list) res" where
  "queued_unbonding s chainId epochUnbonding acc =
     (case GetHostZoneUnbondingByChainId s (eur_EpochNumber epochUnbonding) chainId of
        None \<Rightarrow> Ok acc
      | Some hostZoneRecord \<Rightarrow>
          if hzu_Status hostZoneRecord = UNBONDING_QUEUE \<and> 0 < hzu_NativeTokenAmount hostZoneRecord then
            rbind (Int_Add (fst acc) (hzu_NativeTokenAmount hostZoneRecord)) (\<lambda>total.
            Ok (total, snd acc @ [eur_EpochNumber epochUnbonding]))
          else Ok acc)"

text \<open>The second loop cuts each target down to what the validator has and counts what is left
  over; a validator without a target reads a nil \<open>Int\<close>.\<close>

definition cap_unbonding :: "amounts \<Rightarrow> Validator \<Rightarrow> amounts \<times> int \<Rightarrow> (amounts \<times> int) res" where
  "cap_unbonding targets validator acc =
     (case kv_get targets (val_Address validator) of
        None \<Rightarrow> Panic
      | Some targetUnbondAmount \<Rightarrow>
          if val_DelegationAmt validator < targetUnbondAmount then
            rbind (Int_Add (snd acc) targetUnbondAmount) (\<lambda>x.
            rbind (Int_Sub x (val_DelegationAmt validator)) (\<lambda>overflowAmount.
            Ok (kv_set (val_Address validator) (val_DelegationAmt validator) (fst acc), overflowAmount)))
          else Ok (kv_set (val_Address validator) targetUnbondAmount (fst acc), snd acc))"

text \<open>The third loop spreads what is left over the validators with room, and stops when one can
  take all of it.\<close>

fun spread_overflow :: "Validator list \<Rightarrow> amounts \<Rightarrow> int \<Rightarrow> (amounts \<times> int) res" where
  "spread_overflow [] final overflowAmount = Ok (final, overflowAmount)"
| "spread_overflow (validator # vs) final overflowAmount =
     (case kv_get final (val_Address validator) of
        None \<Rightarrow> Panic
      | Some targetUnbondAmount \<Rightarrow>
          rbind (Int_Sub (val_DelegationAmt validator) targetUnbondAmount) (\<lambda>extraCapacity.
          if 0 < extraCapacity then
            if overflowAmount < extraCapacity then
              rbind (Int_Add targetUnbondAmount overflowAmount) (\<lambda>x.
              Ok (kv_set (val_Address validator) x final, 0))
            else
              rbind (Int_Add targetUnbondAmount extraCapacity) (\<lambda>x.
              rbind (Int_Sub overflowAmount extraCapacity) (\<lambda>overflowAmount'.
              spread_overflow vs (kv_set (val_Address validator) x final) overflowAmount'))
          else spread_overflow vs final overflowAmount))"

text \<open>The messages, in the order of the validator addresses.\<close>

fun undelegation_msgs :: "address \<Rightarrow> denom \<Rightarrow> amounts \<Rightarrow> (ica_msg list \<times> SplitDelegation list) res" where
  "undelegation_msgs delegator d [] = Ok ([], [])"
| "undelegation_msgs delegator d ((validatorAddress, amount) # rest) =
     rbind (NewCoin d amount) (\<lambda>undelegationAmount.
     rbind (undelegation_msgs delegator d rest) (\<lambda>(msgs, splitDelegations).
     if snd undelegationAmount = 0 then Ok (msgs, splitDelegations)
     else Ok (MsgUndelegate delegator validatorAddress undelegationAmount # msgs,
       \<lparr>sd_Validator = validatorAddress, sd_Amount = snd undelegationAmount\<rparr> # splitDelegations)))"

text \<open>The amounts to take from each validator.\<close>

definition unbonding_amounts :: "HostZone \<Rightarrow> int \<Rightarrow> amounts res" where
  "unbonding_amounts hostZone totalAmountToUnbond =
     (case GetTargetValAmtsForHostZone hostZone totalAmountToUnbond of
        Panic \<Rightarrow> Panic
      | Err _ \<Rightarrow> Err (StakeIBCErr ErrNoValidatorAmts)
      | Ok (targets, hostZone') \<Rightarrow>
          rbind (res_acc (cap_unbonding targets) (hz_Validators hostZone') ([], 0)) (\<lambda>(final, overflowAmount).
          rbind (if 0 < overflowAmount then spread_overflow (hz_Validators hostZone') final overflowAmount
                 else Ok (final, overflowAmount)) (\<lambda>(final', overflowAmount').
          if 0 < overflowAmount' then Err (Sdk ErrNotFound) else Ok final')))"

record unbonding_plan =
  up_msgs :: "ica_msg list"
  up_total :: int
  up_args :: "CallbackArgs option"
  up_epochs :: "uint64 list"

definition nothing_to_unbond :: unbonding_plan where
  "nothing_to_unbond = \<lparr>up_msgs = [], up_total = 0, up_args = None, up_epochs = []\<rparr>"

definition GetHostZoneUnbondingMsgs :: "chain \<Rightarrow> HostZone \<Rightarrow> unbonding_plan res" where
  "GetHostZoneUnbondingMsgs c hostZone =
     rbind (res_acc (queued_unbonding (c_records c) (hz_ChainId hostZone))
       (GetAllEpochUnbondingRecord (c_records c)) (0, [])) (\<lambda>(totalAmountToUnbond, epochUnbondingRecordIds).
     if totalAmountToUnbond = 0 then Ok nothing_to_unbond
     else
       rbind (unbonding_amounts hostZone totalAmountToUnbond) (\<lambda>final.
       case registered (hz_DelegationAccount hostZone) of
         None \<Rightarrow> Err (StakeIBCErr ErrHostZoneICAAccountNotFound)
       | Some delegationAccount \<Rightarrow>
           rbind (undelegation_msgs (ica_Address delegationAccount) (hz_HostDenom hostZone) final) (\<lambda>(msgs, splitDelegations).
           if msgs = [] then Err (Sdk ErrInvalidRequest)
           else Ok \<lparr>up_msgs = msgs, up_total = totalAmountToUnbond,
             up_args = Some (UndelegateArgs \<lparr>ucb_HostZoneId = hz_ChainId hostZone,
               ucb_SplitDelegations = splitDelegations, ucb_EpochUnbondingRecordIds = epochUnbondingRecordIds\<rparr>),
             up_epochs = epochUnbondingRecordIds\<rparr>)))"

definition SubmitHostZoneUnbondingMsg ::
  "env \<Rightarrow> ica_msg list \<Rightarrow> int \<Rightarrow> CallbackArgs option \<Rightarrow> HostZone \<Rightarrow> (chain, unit) go" where
  "SubmitHostZoneUnbondingMsg env msgs totalAmtToUnbond args hostZone =
     go_bind (go_guard (msgs \<noteq> []) (Sdk ErrInvalidRequest)) (\<lambda>_.
     case hz_DelegationAccount hostZone of
       None \<Rightarrow> go_panic
     | Some delegationAccount \<Rightarrow>
         go_bind (go_wrap (Sdk ErrNotFound)
           (SubmitTxsDayEpoch env (hz_ConnectionId hostZone) msgs delegationAccount ''undelegate'' args)) (\<lambda>_.
         go_ret ()))"

record unbonding_report =
  ub_success :: bool
  ub_successful :: "string list"
  ub_failed :: "string list"

text \<open>One round of the loop of \<open>InitiateAllHostZoneUnbondings\<close>. A zone with frequency zero
  divides by zero.\<close>

definition initiate_unbonding :: "env \<Rightarrow> uint64 \<Rightarrow> HostZone \<Rightarrow> unbonding_report \<Rightarrow> (chain, unbonding_report) go" where
  "initiate_unbonding env dayNumber hostZone report =
     (if hz_UnbondingFrequency hostZone = 0 then go_panic
      else if dayNumber mod hz_UnbondingFrequency hostZone \<noteq> 0 then go_ret report
      else
        let failed = report\<lparr>ub_success := False, ub_failed := ub_failed report @ [hz_ChainId hostZone]\<rparr> in
        go_bind (go_try (\<lambda>c. (GetHostZoneUnbondingMsgs c hostZone, c))) (\<lambda>plan.
        case plan of
          Ok p \<Rightarrow>
            if up_total p = 0 then go_ret report
            else
              go_bind (go_try (SubmitHostZoneUnbondingMsg env (up_msgs p) (up_total p) (up_args p) hostZone)) (\<lambda>sent.
              if \<not> res_ok sent then go_ret failed
              else
                go_bind (go_try (on_records (SetHostZoneUnbondings (hz_ChainId hostZone) (up_epochs p) UNBONDING_IN_PROGRESS))) (\<lambda>set.
                if \<not> res_ok set then go_ret (report\<lparr>ub_success := False\<rparr>)
                else go_ret (report\<lparr>ub_successful := ub_successful report @ [hz_ChainId hostZone]\<rparr>)))
        | _ \<Rightarrow> go_ret failed))"

definition InitiateAllHostZoneUnbondings :: "env \<Rightarrow> uint64 \<Rightarrow> (chain, unbonding_report) go" where
  "InitiateAllHostZoneUnbondings env dayNumber =
     go_bind (go_gets GetAllActiveHostZone) (\<lambda>hostZones.
     for_acc (initiate_unbonding env dayNumber) hostZones \<lparr>ub_success = True, ub_successful = [], ub_failed = []\<rparr>)"

section \<open>Sweeping\<close>

definition ready_to_sweep :: "HostZoneUnbonding \<Rightarrow> uint64 \<Rightarrow> bool" where
  "ready_to_sweep hzu blockTime \<longleftrightarrow>
     hzu_Status hzu = EXIT_TRANSFER_QUEUE \<and> 0 < hzu_UnbondingTime hzu \<and> hzu_UnbondingTime hzu < blockTime"

definition swept_unbonding :: "env \<Rightarrow> records_state \<Rightarrow> HostZone \<Rightarrow> EpochUnbondingRecord \<Rightarrow> int \<times> uint64 list \<Rightarrow> (int \<times> uint64 list) res" where
  "swept_unbonding env s hostZone epochUnbondingRecord acc =
     (case GetHostZoneUnbondingByChainId s (eur_EpochNumber epochUnbondingRecord) (hz_ChainId hostZone) of
        None \<Rightarrow> Ok acc
      | Some hostZoneUnbonding \<Rightarrow>
          (case GetLightClientTimeSafely env (hz_ConnectionId hostZone) of
             Ok blockTime \<Rightarrow>
               if ready_to_sweep hostZoneUnbonding blockTime then
                 rbind (Int_Add (fst acc) (hzu_NativeTokenAmount hostZoneUnbonding)) (\<lambda>total.
                 Ok (total, snd acc @ [eur_EpochNumber epochUnbondingRecord]))
               else Ok acc
           | Err _ \<Rightarrow> Ok acc
           | Panic \<Rightarrow> Panic))"

text \<open>The result is the flag \<open>success\<close> and the amount swept.\<close>

definition SweepAllUnbondedTokensForHostZone ::
  "env \<Rightarrow> HostZone \<Rightarrow> EpochUnbondingRecord list \<Rightarrow> (chain, bool \<times> int) go" where
  "SweepAllUnbondedTokensForHostZone env hostZone epochUnbondingRecords =
     go_bind (\<lambda>c. (res_acc (swept_unbonding env (c_records c) hostZone) epochUnbondingRecords (0, []), c))
       (\<lambda>(total, epochUnbondingRecordIds).
     if total \<le> 0 then go_ret (True, total)
     else case registered (hz_DelegationAccount hostZone) of
       None \<Rightarrow> go_ret (False, 0)
     | Some delegationAccount \<Rightarrow>
         (case registered (hz_RedemptionAccount hostZone) of
            None \<Rightarrow> go_ret (False, 0)
          | Some redemptionAccount \<Rightarrow>
              go_bind (go_lift (NewCoin (hz_HostDenom hostZone) total)) (\<lambda>sweepCoin.
              go_bind (go_lift (NewCoins [sweepCoin])) (\<lambda>coins.
              go_bind (go_try (SubmitTxsDayEpoch env (hz_ConnectionId hostZone)
                [MsgSend (ica_Address delegationAccount) (ica_Address redemptionAccount) coins]
                delegationAccount ''redemption''
                (Some (RedemptionArgs \<lparr>rdcb_HostZoneId = hz_ChainId hostZone,
                  rdcb_EpochUnbondingRecordIds = epochUnbondingRecordIds\<rparr>)))) (\<lambda>sent.
              if \<not> res_ok sent then go_ret (False, 0)
              else
                go_bind (go_try (on_records (SetHostZoneUnbondings (hz_ChainId hostZone) epochUnbondingRecordIds
                  EXIT_TRANSFER_IN_PROGRESS))) (\<lambda>set.
                if \<not> res_ok set then go_ret (False, 0) else go_ret (True, total)))))))"

record sweep_report =
  sw_success :: bool
  sw_successful :: "string list"
  sw_amounts :: "int list"
  sw_failed :: "string list"

definition SweepAllUnbondedTokens :: "env \<Rightarrow> (chain, sweep_report) go" where
  "SweepAllUnbondedTokens env =
     go_bind (go_gets GetAllActiveHostZone) (\<lambda>hostZones.
     go_bind (go_gets (\<lambda>c. GetAllEpochUnbondingRecord (c_records c))) (\<lambda>epochUnbondingRecords.
     for_acc (\<lambda>hostZone report.
       go_bind (SweepAllUnbondedTokensForHostZone env hostZone epochUnbondingRecords) (\<lambda>(hostZoneSuccess, sweepAmount).
       if hostZoneSuccess then
         go_ret (report\<lparr>sw_successful := sw_successful report @ [hz_ChainId hostZone],
           sw_amounts := sw_amounts report @ [sweepAmount]\<rparr>)
       else
         go_ret (report\<lparr>sw_success := False, sw_failed := sw_failed report @ [hz_ChainId hostZone]\<rparr>)))
       hostZones \<lparr>sw_success = True, sw_successful = [], sw_amounts = [], sw_failed = []\<rparr>))"

section \<open>What is taken from the validators\<close>

lemma map_amt_of_cong:
  "(\<And>a. a \<in> val_Address ` set vs \<Longrightarrow> kv_get m a = kv_get m' a) \<Longrightarrow> map (amt_of m) vs = map (amt_of m') vs"
  by (simp add: amt_of_def)

text \<open>A map whose keys are the addresses of the validators has the sum of its entries.\<close>

lemma kv_sum_amt_of:
  assumes "kv_sorted m" "distinct (map val_Address vs)" "fst ` set m = val_Address ` set vs"
  shows "sum_list (map snd m) = sum_list (map (amt_of m) vs)"
proof -
  let ?f = "\<lambda>a. case kv_get m a of Some x \<Rightarrow> x | None \<Rightarrow> 0"
  have "snd e = ?f (fst e)" if "e \<in> set m" for e
    using that kv_get_iff_mem [OF assms(1), of "fst e" "snd e"] by simp
  then have eq: "map snd m = map ?f (map fst m)" by simp
  have "sum_list (map snd m) = sum ?f (fst ` set m)"
    unfolding eq sum_list_distinct_conv_sum_set [OF kv_sorted_distinct [OF assms(1)], of ?f] by simp
  moreover have "map (amt_of m) vs = map ?f (map val_Address vs)" by (simp add: amt_of_def)
  then have "sum_list (map (amt_of m) vs) = sum ?f (val_Address ` set vs)"
    by (simp only: sum_list_distinct_conv_sum_set [OF assms(2), of ?f] set_map)
  ultimately show ?thesis using assms(3) by simp
qed

text \<open>The state of the two loops over the validators \<open>vs\<close>: what each gives up.\<close>

definition within_delegations :: "amounts \<Rightarrow> Validator list \<Rightarrow> bool" where
  "within_delegations m vs \<longleftrightarrow>
     (\<forall>v\<in>set vs. \<exists>x. kv_get m (val_Address v) = Some x \<and> 0 \<le> x \<and> x \<le> val_DelegationAmt v)"

lemma cap_loop:
  assumes "distinct (map val_Address vs)" "\<forall>v\<in>set vs. \<exists>x. kv_get targets (val_Address v) = Some x \<and> 0 \<le> x"
    and "\<forall>v\<in>set vs. 0 \<le> val_DelegationAmt v" "0 \<le> ov" "ov + sum_list (map (amt_of targets) vs) < 2 ^ 255"
  shows "\<exists>m' ov'. res_acc (cap_unbonding targets) vs (m, ov) = Ok (m', ov') \<and> within_delegations m' vs \<and> 0 \<le> ov' \<and>
    sum_list (map (amt_of m') vs) + ov' = sum_list (map (amt_of targets) vs) + ov \<and>
    (\<forall>a. a \<notin> val_Address ` set vs \<longrightarrow> kv_get m' a = kv_get m a) \<and>
    (kv_sorted m \<longrightarrow> kv_sorted m') \<and> fst ` set m' = val_Address ` set vs \<union> fst ` set m"
  using assms
proof (induction vs arbitrary: m ov)
  case (Cons v vs)
  obtain x where x: "kv_get targets (val_Address v) = Some x" "0 \<le> x" using Cons.prems(2) by auto
  then have ax: "amt_of targets v = x" by (simp add: amt_of_def)
  have d: "0 \<le> val_DelegationAmt v" using Cons.prems(3) by simp
  have nn: "0 \<le> sum_list (map (amt_of targets) vs)"
    using Cons.prems(2) by (intro sum_list_map_nonneg) (auto simp: amt_of_def split: option.splits)
  define y where "y = min x (val_DelegationAmt v)"
  define m1 where "m1 = kv_set (val_Address v) y m"
  have y: "0 \<le> y" "y \<le> x" using x(2) d by (auto simp: y_def)
  have step: "cap_unbonding targets v (m, ov) = Ok (m1, ov + (x - y))"
    using x d Cons.prems(4,5) ax nn
    by (auto simp: cap_unbonding_def y_def m1_def Int_Add_eq Int_Sub_eq fits_def)
  have "\<exists>m' ov'. res_acc (cap_unbonding targets) vs (m1, ov + (x - y)) = Ok (m', ov') \<and> within_delegations m' vs \<and> 0 \<le> ov' \<and>
    sum_list (map (amt_of m') vs) + ov' = sum_list (map (amt_of targets) vs) + (ov + (x - y)) \<and>
    (\<forall>a. a \<notin> val_Address ` set vs \<longrightarrow> kv_get m' a = kv_get m1 a) \<and>
    (kv_sorted m1 \<longrightarrow> kv_sorted m') \<and> fst ` set m' = val_Address ` set vs \<union> fst ` set m1"
    using Cons.prems ax d y by (intro Cons.IH) auto
  then obtain m' ov' where r: "res_acc (cap_unbonding targets) vs (m1, ov + (x - y)) = Ok (m', ov')"
      "within_delegations m' vs" "0 \<le> ov'"
      "sum_list (map (amt_of m') vs) + ov' = sum_list (map (amt_of targets) vs) + (ov + (x - y))"
      "\<forall>a. a \<notin> val_Address ` set vs \<longrightarrow> kv_get m' a = kv_get m1 a"
      "kv_sorted m1 \<longrightarrow> kv_sorted m'" "fst ` set m' = val_Address ` set vs \<union> fst ` set m1"
    by blast
  have v: "kv_get m' (val_Address v) = Some y" using r(5) Cons.prems(1) by (simp add: m1_def)
  then have "amt_of m' v = y" by (simp add: amt_of_def)
  moreover have "within_delegations m' (v # vs)"
    using r(2) v x d by (auto simp: within_delegations_def y_def)
  moreover have "fst ` set m' = val_Address ` set (v # vs) \<union> fst ` set m"
    using r(7) by (auto simp: m1_def fst_set_kv_set)
  ultimately show ?case using step r ax by (auto simp: m1_def)
qed (auto simp: within_delegations_def)

lemma spread_loop:
  assumes "distinct (map val_Address vs)" "within_delegations m vs" "0 \<le> ov"
    and "\<forall>v\<in>set vs. val_DelegationAmt v < 2 ^ 255" "ov < 2 ^ 255"
  shows "\<exists>m' ov'. spread_overflow vs m ov = Ok (m', ov') \<and> within_delegations m' vs \<and> 0 \<le> ov' \<and>
    sum_list (map (amt_of m') vs) + ov' = sum_list (map (amt_of m) vs) + ov \<and>
    (0 < ov' \<longrightarrow> map (amt_of m') vs = map val_DelegationAmt vs) \<and>
    (\<forall>a. a \<notin> val_Address ` set vs \<longrightarrow> kv_get m' a = kv_get m a) \<and>
    (kv_sorted m \<longrightarrow> kv_sorted m') \<and> (val_Address ` set vs \<subseteq> fst ` set m \<longrightarrow> fst ` set m' = fst ` set m)"
  using assms
proof (induction vs arbitrary: m ov)
  case (Cons v vs)
  obtain x where x: "kv_get m (val_Address v) = Some x" "0 \<le> x" "x \<le> val_DelegationAmt v"
    using Cons.prems(2) by (auto simp: within_delegations_def)
  then have ax: "amt_of m v = x" by (simp add: amt_of_def)
  define e where "e = val_DelegationAmt v - x"
  have d: "val_DelegationAmt v < 2 ^ 255" using Cons.prems(4) by simp
  have sub: "Int_Sub (val_DelegationAmt v) x = Ok e" using x d by (simp add: Int_Sub_eq fits_def e_def)
  define y where "y = (if 0 < e then if ov < e then x + ov else x + e else x)"
  define m1 where "m1 = (if 0 < e then kv_set (val_Address v) y m else m)"
  have y: "0 \<le> y" "y \<le> val_DelegationAmt v" using x Cons.prems(3) by (auto simp: y_def e_def)
  have get1: "kv_get m1 a = (if a = val_Address v then Some y else kv_get m a)" for a
    using x(1) by (simp add: m1_def y_def)
  have same: "kv_get m1 a = kv_get m a" if "a \<in> val_Address ` set vs" for a
  proof -
    have "val_Address v \<notin> val_Address ` set vs" using Cons.prems(1) by simp
    with that have "a \<noteq> val_Address v" by blast
    then show ?thesis by (simp add: get1)
  qed
  have w1: "within_delegations m1 vs"
    using Cons.prems(2) same by (auto simp: within_delegations_def)
  have sums: "sum_list (map (amt_of m1) vs) = sum_list (map (amt_of m) vs)"
    by (rule arg_cong [OF map_amt_of_cong]) (rule same)
  have keys: "val_Address v \<in> fst ` set m \<longrightarrow> fst ` set m1 = fst ` set m"
    "kv_sorted m \<longrightarrow> kv_sorted m1" by (auto simp: m1_def fst_set_kv_set)
  show ?case
  proof (cases "0 < e \<and> ov < e")
    case True
    then have "spread_overflow (v # vs) m ov = Ok (m1, 0)"
      using x sub Cons.prems(3,5) d by (simp add: Int_Add_eq fits_def m1_def y_def)
    moreover have "amt_of m1 v = x + ov" using True get1 by (simp add: amt_of_def y_def)
    moreover have "within_delegations m1 (v # vs)" using w1 y get1 by (auto simp: within_delegations_def)
    ultimately show ?thesis using sums ax keys get1 by auto
  next
    case False
    define ov1 where "ov1 = ov - (y - x)"
    have ov1: "0 \<le> ov1" "ov1 < 2 ^ 255" using False Cons.prems(3,5) x by (auto simp: ov1_def y_def e_def)
    have step: "spread_overflow (v # vs) m ov = spread_overflow vs m1 ov1"
      using x sub d ov1 False Cons.prems(3,5) by (auto simp: Int_Add_eq Int_Sub_eq fits_def m1_def y_def ov1_def e_def)
    have "\<exists>m' ov'. spread_overflow vs m1 ov1 = Ok (m', ov') \<and> within_delegations m' vs \<and> 0 \<le> ov' \<and>
      sum_list (map (amt_of m') vs) + ov' = sum_list (map (amt_of m1) vs) + ov1 \<and>
      (0 < ov' \<longrightarrow> map (amt_of m') vs = map val_DelegationAmt vs) \<and>
      (\<forall>a. a \<notin> val_Address ` set vs \<longrightarrow> kv_get m' a = kv_get m1 a) \<and>
      (kv_sorted m1 \<longrightarrow> kv_sorted m') \<and> (val_Address ` set vs \<subseteq> fst ` set m1 \<longrightarrow> fst ` set m' = fst ` set m1)"
      using Cons.prems w1 ov1 by (intro Cons.IH) auto
    then obtain m' ov' where r: "spread_overflow vs m1 ov1 = Ok (m', ov')" "within_delegations m' vs" "0 \<le> ov'"
      "sum_list (map (amt_of m') vs) + ov' = sum_list (map (amt_of m1) vs) + ov1"
      "0 < ov' \<longrightarrow> map (amt_of m') vs = map val_DelegationAmt vs"
      "\<forall>a. a \<notin> val_Address ` set vs \<longrightarrow> kv_get m' a = kv_get m1 a"
      "kv_sorted m1 \<longrightarrow> kv_sorted m'" "val_Address ` set vs \<subseteq> fst ` set m1 \<longrightarrow> fst ` set m' = fst ` set m1"
      by blast
    have v: "kv_get m' (val_Address v) = Some y" using r(6) get1 Cons.prems(1) by simp
    then have av: "amt_of m' v = y" by (simp add: amt_of_def)
    have "y = val_DelegationAmt v" using False x by (auto simp: y_def e_def)
    moreover have "within_delegations m' (v # vs)" using r(2) v y by (auto simp: within_delegations_def)
    moreover have "\<forall>a. a \<notin> val_Address ` set (v # vs) \<longrightarrow> kv_get m' a = kv_get m a"
      using r(6) get1 by auto
    moreover have "val_Address ` set (v # vs) \<subseteq> fst ` set m \<longrightarrow> fst ` set m' = fst ` set m"
      using r(8) keys(1) by auto
    ultimately show ?thesis using step r(1,3-5,7) sums ax av keys(2) by (auto simp: ov1_def)
  qed
qed (auto simp: within_delegations_def)

lemma within_delegations_sum:
  assumes "within_delegations m vs"
  shows "sum_list (map (amt_of m) vs) \<le> total_delegation vs"
  unfolding total_delegation_def
  using assms by (intro sum_list_mono) (auto simp: within_delegations_def amt_of_def)

text \<open>What a zone can be asked for: validators with distinct addresses, delegations that are not
  negative, weights whose sum is a \<open>uint64\<close>.\<close>

definition zone_can_split :: "HostZone \<Rightarrow> bool" where
  "zone_can_split z \<longleftrightarrow> distinct (map val_Address (hz_Validators z)) \<and>
     (\<forall>v\<in>set (hz_Validators z). 0 \<le> val_DelegationAmt v \<and> val_DelegationAmt v < 2 ^ 255) \<and>
     0 < total_weight (hz_Validators z) \<and> total_weight (hz_Validators z) < 2 ^ 64"

lemma unbonding_amounts_spec:
  assumes "zone_can_split z" "0 < T" "T < 2 ^ 192"
  shows "(T \<le> total_delegation (hz_Validators z) \<longrightarrow>
      (\<exists>m. unbonding_amounts z T = Ok m \<and> kv_sorted m \<and> fst ` set m = val_Address ` set (hz_Validators z) \<and>
        within_delegations m (hz_Validators z) \<and> sum_list (map (amt_of m) (hz_Validators z)) = T)) \<and>
    (total_delegation (hz_Validators z) < T \<longrightarrow> unbonding_amounts z T = Err (Sdk ErrNotFound))"
proof -
  define vs where "vs = sort_validators (hz_Validators z)"
  have eq: "set vs = set (hz_Validators z)" "total_delegation vs = total_delegation (hz_Validators z)"
    by (simp_all add: vs_def total_delegation_mset [OF mset_sort_validators])
  have dist: "distinct (map val_Address vs)"
    using assms(1) unfolding vs_def zone_can_split_def by (metis mset_sort_validators mset_map mset_eq_imp_distinct_iff)
  have sums: "sum_list (map f vs) = sum_list (map f (hz_Validators z))" for f :: "Validator \<Rightarrow> int"
    unfolding vs_def by (metis mset_sort_validators mset_map sum_mset_sum_list)
  obtain m0 where m0: "GetTargetValAmtsForHostZone z T = Ok (m0, z\<lparr>hz_Validators := vs\<rparr>)"
    "\<forall>v\<in>set vs. \<exists>x. kv_get m0 (val_Address v) = Some x \<and> 0 \<le> x" "sum_list (map (amt_of m0) vs) = T"
  proof -
    have nn: "0 \<le> uint (val_Weight v) * T div total_weight (hz_Validators z)" for v
      using assms by (simp add: zone_can_split_def pos_imp_zdiv_nonneg_iff)
    from GetTarget_spec [of z T] assms obtain m where
      "GetTargetValAmtsForHostZone z T = Ok (m, z\<lparr>hz_Validators := vs\<rparr>)"
      "\<forall>v\<in>set (hz_Validators z). \<exists>x. kv_get m (val_Address v) = Some x \<and>
         uint (val_Weight v) * T div total_weight (hz_Validators z) \<le> x"
      "sum_list (map (amt_of m) (hz_Validators z)) = T"
      unfolding vs_def zone_can_split_def by blast
    with nn that show ?thesis by (metis eq(1) order_trans sums)
  qed
  have dl: "\<forall>v\<in>set vs. 0 \<le> val_DelegationAmt v \<and> val_DelegationAmt v < 2 ^ 255"
    using assms(1) eq(1) by (auto simp: zone_can_split_def)
  obtain m1 ov1 where m1: "res_acc (cap_unbonding m0) vs ([], 0) = Ok (m1, ov1)" "within_delegations m1 vs" "0 \<le> ov1"
    "sum_list (map (amt_of m1) vs) + ov1 = T" "kv_sorted m1" "fst ` set m1 = val_Address ` set vs"
    using cap_loop [OF dist m0(2), of 0 "[]"] dl assms(3) m0(3) by auto
  have nn: "0 \<le> sum_list (map (amt_of m1) vs)"
    using m1(2) by (intro sum_list_map_nonneg) (auto simp: within_delegations_def amt_of_def)
  obtain m2 ov2 where m2: "(if 0 < ov1 then spread_overflow vs m1 ov1 else Ok (m1, ov1)) = Ok (m2, ov2)"
    "within_delegations m2 vs" "0 \<le> ov2" "sum_list (map (amt_of m2) vs) + ov2 = T" "kv_sorted m2"
    "fst ` set m2 = val_Address ` set vs" "0 < ov2 \<longrightarrow> map (amt_of m2) vs = map val_DelegationAmt vs"
    using spread_loop [OF dist m1(2,3)] dl m1(4,5,6) m1(2,3) nn assms(3) by (cases "0 < ov1") auto
  have run: "unbonding_amounts z T = (if 0 < ov2 then Err (Sdk ErrNotFound) else Ok m2)"
    using m0(1) m1(1) m2(1) by (cases "0 < ov1") (simp_all add: unbonding_amounts_def)
  have "0 < ov2 \<longleftrightarrow> total_delegation vs < T"
  proof
    assume "0 < ov2"
    then show "total_delegation vs < T" using m2(4,7) by (simp add: total_delegation_def)
  next
    assume "total_delegation vs < T"
    with within_delegations_sum [OF m2(2)] m2(4) show "0 < ov2" by linarith
  qed
  moreover have "within_delegations m2 (hz_Validators z)" using m2(2) eq(1) by (simp add: within_delegations_def)
  ultimately show ?thesis
    using run m2(3-6) eq sums by (auto simp: not_less)
qed

lemma undelegation_msgs_spec:
  assumes "\<forall>e\<in>set m. 0 \<le> snd e" "ValidateDenom d"
  shows "\<exists>sds. undelegation_msgs del d m =
      Ok (map (\<lambda>s. MsgUndelegate del (sd_Validator s) (d, sd_Amount s)) sds, sds) \<and>
    sds = map (\<lambda>e. \<lparr>sd_Validator = fst e, sd_Amount = snd e\<rparr>) (filter (\<lambda>e. snd e \<noteq> 0) m) \<and>
    sum_list (map sd_Amount sds) = sum_list (map snd m)"
  using assms
proof (induction m)
  case (Cons e m)
  then show ?case by (cases e) (auto simp: NewCoin_def)
qed simp

section \<open>The plan for a zone\<close>

definition queued_amount :: "records_state \<Rightarrow> string \<Rightarrow> uint64 \<Rightarrow> int" where
  "queued_amount s chainId epoch =
     (case GetHostZoneUnbondingByChainId s epoch chainId of
        Some h \<Rightarrow> if hzu_Status h = UNBONDING_QUEUE \<and> 0 < hzu_NativeTokenAmount h then hzu_NativeTokenAmount h else 0
      | None \<Rightarrow> 0)"

definition queued_epochs :: "records_state \<Rightarrow> string \<Rightarrow> uint64 list" where
  "queued_epochs s chainId =
     filter (\<lambda>e. 0 < queued_amount s chainId e) (map eur_EpochNumber (GetAllEpochUnbondingRecord s))"

definition queued_total :: "records_state \<Rightarrow> string \<Rightarrow> int" where
  "queued_total s chainId = sum_list (map (queued_amount s chainId) (queued_epochs s chainId))"

lemma queued_unbonding_eq:
  "queued_unbonding s k r (a, ids) =
     (if 0 < queued_amount s k (eur_EpochNumber r)
      then rbind (Int_Add a (queued_amount s k (eur_EpochNumber r))) (\<lambda>t. Ok (t, ids @ [eur_EpochNumber r]))
      else Ok (a, ids))"
  by (auto simp: queued_unbonding_def queued_amount_def split: option.splits)

lemma queued_loop:
  assumes "res_acc (queued_unbonding s k) rs (a, ids) = Ok (a', ids')"
  shows "a' = a + sum_list (map (queued_amount s k) (filter (\<lambda>e. 0 < queued_amount s k e) (map eur_EpochNumber rs))) \<and>
    ids' = ids @ filter (\<lambda>e. 0 < queued_amount s k e) (map eur_EpochNumber rs)"
  using assms
proof (induction rs arbitrary: a ids)
  case (Cons r rs)
  then show ?case
    by (cases "0 < queued_amount s k (eur_EpochNumber r)")
      (fastforce simp: queued_unbonding_eq rbind_eq_Ok Int_Add_Ok)+
qed simp

lemma queued_loop_total:
  assumes "0 \<le> a" "a + sum_list (map (queued_amount s k) (filter (\<lambda>e. 0 < queued_amount s k e) (map eur_EpochNumber rs))) < 2 ^ 255"
  shows "\<exists>x. res_acc (queued_unbonding s k) rs (a, ids) = Ok x"
  using assms
proof (induction rs arbitrary: a ids)
  case (Cons r rs)
  let ?q = "queued_amount s k (eur_EpochNumber r)"
  have nn: "0 \<le> sum_list (map (queued_amount s k) (filter (\<lambda>e. 0 < queued_amount s k e) (map eur_EpochNumber rs)))"
    by (intro sum_list_map_nonneg) auto
  have q: "0 \<le> ?q" by (auto simp: queued_amount_def split: option.splits)
  have "\<exists>ids'. queued_unbonding s k r (a, ids) = Ok (a + ?q, ids')"
    using Cons.prems nn q by (cases "0 < ?q") (auto simp: queued_unbonding_eq Int_Add_eq fits_def)
  then show ?case using Cons.IH [of "a + ?q"] Cons.prems q by (auto split: if_splits)
qed simp

lemma queued_loop_run:
  assumes "queued_total s k < 2 ^ 192"
  shows "res_acc (queued_unbonding s k) (GetAllEpochUnbondingRecord s) (0, []) = Ok (queued_total s k, queued_epochs s k)"
proof -
  obtain a ids where "res_acc (queued_unbonding s k) (GetAllEpochUnbondingRecord s) (0, []) = Ok (a, ids)"
    using queued_loop_total [of 0 s k "GetAllEpochUnbondingRecord s" "[]"] assms
    by (auto simp: queued_total_def queued_epochs_def)
  with queued_loop [OF this] show ?thesis by (simp add: queued_total_def queued_epochs_def)
qed

lemma queued_total_nonneg: "0 \<le> queued_total s k"
  unfolding queued_total_def queued_epochs_def by (rule sum_list_map_nonneg) auto

lemma unbonding_plan_spec:
  fixes c :: chain
  assumes "zone_can_split z" "registered (hz_DelegationAccount z) = Some acc" "ValidateDenom (hz_HostDenom z)"
    and "queued_total (c_records c) (hz_ChainId z) < 2 ^ 192"
  defines "due \<equiv> queued_total (c_records c) (hz_ChainId z)"
  shows "(due = 0 \<longrightarrow> GetHostZoneUnbondingMsgs c z = Ok nothing_to_unbond) \<and>
    (total_delegation (hz_Validators z) < due \<longrightarrow> GetHostZoneUnbondingMsgs c z = Err (Sdk ErrNotFound)) \<and>
    (0 < due \<and> due \<le> total_delegation (hz_Validators z) \<longrightarrow>
      (\<exists>sds. GetHostZoneUnbondingMsgs c z = Ok
          \<lparr>up_msgs = map (\<lambda>s. MsgUndelegate (ica_Address acc) (sd_Validator s) (hz_HostDenom z, sd_Amount s)) sds,
           up_total = due,
           up_args = Some (UndelegateArgs \<lparr>ucb_HostZoneId = hz_ChainId z, ucb_SplitDelegations = sds,
             ucb_EpochUnbondingRecordIds = queued_epochs (c_records c) (hz_ChainId z)\<rparr>),
           up_epochs = queued_epochs (c_records c) (hz_ChainId z)\<rparr> \<and>
        sum_list (map sd_Amount sds) = due \<and> distinct (map sd_Validator sds) \<and>
        (\<forall>s\<in>set sds. \<exists>v\<in>set (hz_Validators z). val_Address v = sd_Validator s \<and>
           0 < sd_Amount s \<and> sd_Amount s \<le> val_DelegationAmt v)))"
proof -
  note run = queued_loop_run [OF assms(4)]
  note defs = GetHostZoneUnbondingMsgs_def run assms(2) due_def [symmetric]
  note spec = unbonding_amounts_spec [OF assms(1), of due]
  have lt: "due < 2 ^ 192" using assms(4) by (simp add: due_def)
  have td: "0 \<le> total_delegation (hz_Validators z)"
    unfolding total_delegation_def using assms(1) by (intro sum_list_map_nonneg) (simp add: zone_can_split_def)
  have "GetHostZoneUnbondingMsgs c z = Err (Sdk ErrNotFound)" if "total_delegation (hz_Validators z) < due"
    using spec that lt td by (simp add: defs)
  moreover have "\<exists>sds. GetHostZoneUnbondingMsgs c z = Ok
          \<lparr>up_msgs = map (\<lambda>s. MsgUndelegate (ica_Address acc) (sd_Validator s) (hz_HostDenom z, sd_Amount s)) sds,
           up_total = due,
           up_args = Some (UndelegateArgs \<lparr>ucb_HostZoneId = hz_ChainId z, ucb_SplitDelegations = sds,
             ucb_EpochUnbondingRecordIds = queued_epochs (c_records c) (hz_ChainId z)\<rparr>),
           up_epochs = queued_epochs (c_records c) (hz_ChainId z)\<rparr> \<and>
        sum_list (map sd_Amount sds) = due \<and> distinct (map sd_Validator sds) \<and>
        (\<forall>s\<in>set sds. \<exists>v\<in>set (hz_Validators z). val_Address v = sd_Validator s \<and>
           0 < sd_Amount s \<and> sd_Amount s \<le> val_DelegationAmt v)"
    if pos: "0 < due" "due \<le> total_delegation (hz_Validators z)"
  proof -
    obtain m where m: "unbonding_amounts z due = Ok m" "kv_sorted m" "fst ` set m = val_Address ` set (hz_Validators z)"
      "within_delegations m (hz_Validators z)" "sum_list (map (amt_of m) (hz_Validators z)) = due"
      using spec pos lt by blast
    have e: "\<exists>v\<in>set (hz_Validators z). val_Address v = fst e \<and> 0 \<le> snd e \<and> snd e \<le> val_DelegationAmt v" if "e \<in> set m" for e
    proof -
      have "fst e \<in> val_Address ` set (hz_Validators z)" using imageI [OF that, of fst] m(3) by simp
      then obtain v where v: "v \<in> set (hz_Validators z)" "val_Address v = fst e" by (elim imageE) simp
      have "kv_get m (fst e) = Some (snd e)" using kv_get_iff_mem [OF m(2)] that by simp
      with v m(4) show ?thesis by (fastforce simp: within_delegations_def)
    qed
    obtain sds where sds: "undelegation_msgs (ica_Address acc) (hz_HostDenom z) m =
        Ok (map (\<lambda>s. MsgUndelegate (ica_Address acc) (sd_Validator s) (hz_HostDenom z, sd_Amount s)) sds, sds)"
      "sds = map (\<lambda>e. \<lparr>sd_Validator = fst e, sd_Amount = snd e\<rparr>) (filter (\<lambda>e. snd e \<noteq> 0) m)"
      "sum_list (map sd_Amount sds) = sum_list (map snd m)"
      using undelegation_msgs_spec [OF _ assms(3), of m "ica_Address acc"] e by blast
    have total: "sum_list (map sd_Amount sds) = due"
      using sds(3) kv_sum_amt_of [OF m(2) _ m(3)] m(5) assms(1) by (simp add: zone_can_split_def)
    then have ne: "sds \<noteq> []" using pos(1) by auto
    have "distinct (map fst (filter (\<lambda>e. snd e \<noteq> 0) m))"
      using kv_sorted_distinct [OF m(2)] by (rule distinct_map_filter)
    then have "distinct (map sd_Validator sds)" by (simp add: sds(2) comp_def)
    moreover have "\<exists>v\<in>set (hz_Validators z). val_Address v = sd_Validator s \<and> 0 < sd_Amount s \<and> sd_Amount s \<le> val_DelegationAmt v"
      if "s \<in> set sds" for s
      using that e by (fastforce simp: sds(2))
    ultimately show ?thesis
      using sds(1) total ne pos(1) m(1) by (intro exI [of _ sds]) (simp add: defs)
  qed
  ultimately show ?thesis by (simp add: defs)
qed

text \<open>Property C12. What a zone asks its validators for when it unbonds. With nothing queued no message
  is built. Otherwise, when the delegations cover the queued redemptions, there is one positive
  undelegation per validator, none above what the validator has, and they add up to exactly the
  queued redemptions of all epochs; the callback carries the same amounts and exactly the queued
  epochs. When the delegations do not cover them, the plan is refused.\<close>

theorem unbonding_plan_covers:
  fixes c :: chain
  assumes "zone_can_split z" "registered (hz_DelegationAccount z) = Some acc" "ValidateDenom (hz_HostDenom z)"
    and "queued_total (c_records c) (hz_ChainId z) < 2 ^ 192"
  defines "due \<equiv> queued_total (c_records c) (hz_ChainId z)"
  shows "(due = 0 \<longrightarrow> GetHostZoneUnbondingMsgs c z = Ok nothing_to_unbond) \<and>
    (total_delegation (hz_Validators z) < due \<longrightarrow> GetHostZoneUnbondingMsgs c z = Err (Sdk ErrNotFound)) \<and>
    (0 < due \<and> due \<le> total_delegation (hz_Validators z) \<longrightarrow>
      (\<exists>sds. GetHostZoneUnbondingMsgs c z = Ok
          \<lparr>up_msgs = map (\<lambda>s. MsgUndelegate (ica_Address acc) (sd_Validator s) (hz_HostDenom z, sd_Amount s)) sds,
           up_total = due,
           up_args = Some (UndelegateArgs \<lparr>ucb_HostZoneId = hz_ChainId z, ucb_SplitDelegations = sds,
             ucb_EpochUnbondingRecordIds = queued_epochs (c_records c) (hz_ChainId z)\<rparr>),
           up_epochs = queued_epochs (c_records c) (hz_ChainId z)\<rparr> \<and>
        sum_list (map sd_Amount sds) = due \<and> distinct (map sd_Validator sds) \<and>
        (\<forall>s\<in>set sds. \<exists>v\<in>set (hz_Validators z). val_Address v = sd_Validator s \<and>
           0 < sd_Amount s \<and> sd_Amount s \<le> val_DelegationAmt v)))"
  using unbonding_plan_spec [OF assms(1-4)] by (simp add: due_def)

section \<open>Initiating the unbondings of a day\<close>

lemma queued_amount_Some: "0 < queued_amount s k e \<Longrightarrow> GetHostZoneUnbondingByChainId s e k \<noteq> None"
  by (auto simp: queued_amount_def split: option.splits)

lemma queued_epochs_iff:
  assumes "records_wf s"
  shows "e \<in> set (queued_epochs s k) \<longleftrightarrow> 0 < queued_amount s k e"
proof -
  have "e \<in> eur_EpochNumber ` set (GetAllEpochUnbondingRecord s)" if q: "0 < queued_amount s k e"
  proof -
    obtain h where "GetHostZoneUnbondingByChainId s e k = Some h"
      using queued_amount_Some [OF q] by auto
    then obtain r where "GetEpochUnbondingRecord s e = Some r"
      by (auto simp: GetHostZoneUnbondingByChainId_def split: option.splits)
    then have "eur_EpochNumber r = e \<and> r \<in> set (GetAllEpochUnbondingRecord s)"
      using unbondings.get_key [OF assms] unbondings.listing_iff [OF assms] by auto
    then show ?thesis by auto
  qed
  then show ?thesis by (auto simp: queued_epochs_def)
qed

lemma unbonding_plan_epochs:
  assumes "GetHostZoneUnbondingMsgs c z = Ok p" "up_total p \<noteq> 0"
  shows "up_epochs p = queued_epochs (c_records c) (hz_ChainId z)"
  using assms queued_loop [of "c_records c" "hz_ChainId z" "GetAllEpochUnbondingRecord (c_records c)" 0 "[]"]
  by (auto simp: GetHostZoneUnbondingMsgs_def rbind_eq_Ok nothing_to_unbond_def queued_epochs_def
      split: if_splits option.splits prod.splits)

text \<open>The unbonding entries after the zones \<open>ks\<close> have sent their undelegations.\<close>

definition marked_in_progress :: "records_state \<Rightarrow> string set \<Rightarrow> records_state \<Rightarrow> bool" where
  "marked_in_progress s ks t \<longleftrightarrow> (\<forall>e k. GetHostZoneUnbondingByChainId t e k =
     (if k \<in> ks \<and> 0 < queued_amount s k e
      then map_option (hzu_Status_update (\<lambda>_. UNBONDING_IN_PROGRESS)) (GetHostZoneUnbondingByChainId s e k)
      else GetHostZoneUnbondingByChainId s e k))"

lemma submit_unbonding:
  assumes "SubmitHostZoneUnbondingMsg env msgs tot args z c = (r, t)"
  shows "ica_frame c t" "r \<noteq> Ok () \<Longrightarrow> t = c" "r = Ok () \<Longrightarrow> \<exists>msg. tx_Msgs msg = msgs \<and> c_outbox t = c_outbox c @ [msg]"
proof -
  show "ica_frame c t" using assms
    by (cases r) (auto simp: SubmitHostZoneUnbondingMsg_def SubmitTxsDayEpoch_def go_simps
        dest: SubmitTxsEpoch_frame(1) split: option.splits if_splits)
  show "t = c" if "r \<noteq> Ok ()" using assms that
    by (cases r) (auto simp: SubmitHostZoneUnbondingMsg_def SubmitTxsDayEpoch_def go_simps
        dest!: SubmitTxsEpoch_frame(2) split: option.splits if_splits)
  show "\<exists>msg. tx_Msgs msg = msgs \<and> c_outbox t = c_outbox c @ [msg]" if "r = Ok ()"
    using assms that
    by (auto simp: SubmitHostZoneUnbondingMsg_def SubmitTxsDayEpoch_def go_simps Let_def
        dest!: SubmitTxsEpoch_Ok SubmitTxs_Ok split: option.splits if_splits)
qed

lemma initiate_step:
  assumes "initiate_unbonding env day z rep c = (Ok rep', t)" "records_wf (c_records c)"
  shows "records_wf (c_records t) \<and> c_bank t = c_bank c \<and> c_hostZones t = c_hostZones c \<and>
    (t = c \<and> ub_successful rep' = ub_successful rep \<or>
     ub_successful rep' = ub_successful rep @ [hz_ChainId z] \<and> (\<exists>msg. c_outbox t = c_outbox c @ [msg]) \<and>
     marked_in_progress (c_records c) {hz_ChainId z} (c_records t))"
proof -
  have sent: ?thesis
    if p: "GetHostZoneUnbondingMsgs c z = Ok p" "up_total p \<noteq> 0"
      and s: "SubmitHostZoneUnbondingMsg env (up_msgs p) (up_total p) (up_args p) z c = (Ok (), c1)"
      and u: "SetHostZoneUnbondings (hz_ChainId z) (up_epochs p) UNBONDING_IN_PROGRESS (c_records c1) = (r, s')"
      and rep: "ub_successful rep' = (if res_ok r then ub_successful rep @ [hz_ChainId z] else ub_successful rep)"
      and t: "t = c1\<lparr>c_records := s'\<rparr>"
    for p c1 r s'
  proof -
    note f = submit_unbonding [OF s]
    have rec: "c_records c1 = c_records c" using f(1) by (simp add: ica_frame_def)
    have "\<forall>e\<in>set (up_epochs p). GetHostZoneUnbondingByChainId (c_records c1) e (hz_ChainId z) \<noteq> None"
      using unbonding_plan_epochs [OF p] queued_epochs_iff [OF assms(2)] queued_amount_Some by (auto simp: rec)
    from SetHostZoneUnbondings_Ok_iff(1) [OF _ u this] assms(2) have
      "r = Ok ()" "records_wf s'" "marked_in_progress (c_records c) {hz_ChainId z} s'"
      using unbonding_plan_epochs [OF p] queued_epochs_iff [OF assms(2)]
      by (auto simp: rec marked_in_progress_def)
    then show ?thesis using f(1,3) rep t by (auto simp: ica_frame_def)
  qed
  show ?thesis
  proof (cases "hz_UnbondingFrequency z \<noteq> 0 \<and> day mod hz_UnbondingFrequency z = 0 \<and>
      (\<exists>p. GetHostZoneUnbondingMsgs c z = Ok p \<and> up_total p \<noteq> 0)")
    case True
    then obtain p where p: "GetHostZoneUnbondingMsgs c z = Ok p" "up_total p \<noteq> 0" by blast
    obtain r1 c1 where s: "SubmitHostZoneUnbondingMsg env (up_msgs p) (up_total p) (up_args p) z c = (r1, c1)" by fastforce
    obtain r2 s' where u: "SetHostZoneUnbondings (hz_ChainId z) (up_epochs p) UNBONDING_IN_PROGRESS (c_records c1) = (r2, s')"
      by fastforce
    note run = assms(1) [unfolded initiate_unbonding_def Let_def]
    show ?thesis
    proof (cases "r1 = Ok ()")
      case ok: True
      have "t = c1\<lparr>c_records := s'\<rparr>" "ub_successful rep' = (if res_ok r2 then ub_successful rep @ [hz_ChainId z] else ub_successful rep)"
        using run True p s u ok by (cases r2; auto simp: go_defs on_records_def)+
      then show ?thesis using sent [OF p _ u] s ok by blast
    next
      case False
      then have "t = c \<and> ub_successful rep' = ub_successful rep"
        using run True p s submit_unbonding(2) [OF s] by (cases r1) (auto simp: go_defs)
      with assms(2) show ?thesis by simp
    qed
  next
    case False
    then have "t = c \<and> ub_successful rep' = ub_successful rep"
      using assms(1) by (cases "GetHostZoneUnbondingMsgs c z")
        (auto simp: initiate_unbonding_def go_defs Let_def split: if_splits)
    with assms(2) show ?thesis by simp
  qed
qed

lemma marked_in_progress_insert:
  assumes "marked_in_progress s ks s1" "k \<notin> ks" "marked_in_progress s1 {k} s2"
  shows "marked_in_progress s (insert k ks) s2"
proof -
  have "GetHostZoneUnbondingByChainId s1 e k = GetHostZoneUnbondingByChainId s e k" for e
    using assms(1,2) by (simp add: marked_in_progress_def)
  then have "queued_amount s1 k e = queued_amount s k e" for e by (simp add: queued_amount_def)
  then show ?thesis using assms by (auto simp: marked_in_progress_def)
qed

lemma initiate_loop:
  assumes "for_acc (initiate_unbonding env day) zs rep c = (Ok rep', t)" "records_wf (c_records c)"
    and "distinct (map hz_ChainId zs)" "set (ub_successful rep) \<inter> hz_ChainId ` set zs = {}"
    and "marked_in_progress s0 (set (ub_successful rep)) (c_records c)"
  shows "c_bank t = c_bank c \<and> c_hostZones t = c_hostZones c \<and> records_wf (c_records t) \<and>
    marked_in_progress s0 (set (ub_successful rep')) (c_records t) \<and>
    length (c_outbox t) + length (ub_successful rep) = length (c_outbox c) + length (ub_successful rep') \<and>
    set (ub_successful rep') \<subseteq> set (ub_successful rep) \<union> hz_ChainId ` set zs"
  using assms
proof (induction zs arbitrary: rep c)
  case (Cons z zs)
  from Cons.prems(1) obtain rep1 c1 where r: "initiate_unbonding env day z rep c = (Ok rep1, c1)"
    "for_acc (initiate_unbonding env day) zs rep1 c1 = (Ok rep', t)"
    by (auto split: prod.splits res.splits)
  note st = initiate_step [OF r(1) Cons.prems(2)]
  have new: "hz_ChainId z \<notin> set (ub_successful rep)" using Cons.prems(4) by auto
  have succ: "ub_successful rep1 = ub_successful rep \<and> c1 = c \<or> ub_successful rep1 = ub_successful rep @ [hz_ChainId z] \<and>
      length (c_outbox c1) = Suc (length (c_outbox c)) \<and> marked_in_progress (c_records c) {hz_ChainId z} (c_records c1)"
    using st by auto
  then have m: "marked_in_progress s0 (set (ub_successful rep1)) (c_records c1)"
    using Cons.prems(5) marked_in_progress_insert [OF Cons.prems(5) new] by auto
  have d: "set (ub_successful rep1) \<inter> hz_ChainId ` set zs = {}"
    using succ Cons.prems(3,4) by (simp, elim disjE) (simp_all add: disjoint_iff)
  from Cons.IH [OF r(2) _ _ d m] st succ Cons.prems(3) show ?case by auto
qed simp

text \<open>When the unbondings of a day are initiated, an entry of an unbonding record is marked
  in progress exactly when the undelegation of its zone was handed to the interchain account: one
  transaction per successful zone, the queued entries of these zones, and nothing else of the
  records, the zones or the bank.\<close>

theorem initiated_exactly_when_sent:
  assumes "InitiateAllHostZoneUnbondings env day c = (Ok rep, t)" "records_wf (c_records c)" "zones_wf c"
  shows "length (c_outbox t) = length (c_outbox c) + length (ub_successful rep) \<and>
    set (ub_successful rep) \<subseteq> hz_ChainId ` set (GetAllActiveHostZone c) \<and>
    (\<forall>e k. GetHostZoneUnbondingByChainId (c_records t) e k =
      (if k \<in> set (ub_successful rep) \<and> 0 < queued_amount (c_records c) k e
       then map_option (hzu_Status_update (\<lambda>_. UNBONDING_IN_PROGRESS)) (GetHostZoneUnbondingByChainId (c_records c) e k)
       else GetHostZoneUnbondingByChainId (c_records c) e k)) \<and>
    c_bank t = c_bank c \<and> c_hostZones t = c_hostZones c"
proof -
  have "distinct (map hz_ChainId (GetAllActiveHostZone c))"
    using zones.listing_distinct_keys [OF assms(3)]
    by (simp add: GetAllActiveHostZone_def GetAllHostZone_def distinct_map_filter)
  moreover have "for_acc (initiate_unbonding env day) (GetAllActiveHostZone c)
      \<lparr>ub_success = True, ub_successful = [], ub_failed = []\<rparr> c = (Ok rep, t)"
    using assms(1) by (simp add: InitiateAllHostZoneUnbondings_def go_defs)
  moreover have "marked_in_progress (c_records c) {} (c_records c)" by (simp add: marked_in_progress_def)
  ultimately show ?thesis
    using initiate_loop [of env day "GetAllActiveHostZone c" _ c rep t "c_records c"] assms(2)
    by (fastforce simp: marked_in_progress_def)
qed

section \<open>A zone that unbonds\<close>

text \<open>Two validators, of which the heavier one does not have its share of the 600 that are queued.\<close>

definition unbonding_zone :: HostZone where
  "unbonding_zone = demo_zone [demo_validator ''v1'' 1 500, demo_validator ''v2'' 2 200]"

definition unbonding_chain :: chain where
  "unbonding_chain = mod_records (SetEpochUnbondingRecord
     \<lparr>eur_EpochNumber = 3, eur_HostZoneUnbondings = [demo_hzu ''GAIA'' 600 UNBONDING_QUEUE]\<rparr>)
     (demo_chain [demo_validator ''v1'' 1 500, demo_validator ''v2'' 2 200])"

lemma unbonding_records: "c_records unbonding_chain = SetEpochUnbondingRecord
     \<lparr>eur_EpochNumber = 3, eur_HostZoneUnbondings = [demo_hzu ''GAIA'' 600 UNBONDING_QUEUE]\<rparr> records_empty"
  by (simp add: unbonding_chain_def)

lemma unbonding_chain_simps [simp]:
  "c_outbox unbonding_chain = []" "GetAllActiveHostZone unbonding_chain = [unbonding_zone]"
  by (simp_all add: unbonding_chain_def unbonding_zone_def)
    (simp add: GetAllActiveHostZone_def mod_records_def demo_chain_def SetHostZone_def SetEpochTracker_def empty_chain_def
      kv_values_def demo_zone_def)

lemma unbonding_chain_wf: "records_wf (c_records unbonding_chain)" "zones_wf unbonding_chain"
proof -
  show "records_wf (c_records unbonding_chain)" by (simp add: unbonding_records unbondings.wf_put unbondings.wf_fresh)
  show "zones_wf unbonding_chain" unfolding unbonding_chain_def demo_chain_def by (simp add: zones.wf_put)
qed

lemma unbonding_queue:
  "GetHostZoneUnbondingByChainId (c_records unbonding_chain) e k =
     (if e = 3 \<and> k = ''GAIA'' then Some (demo_hzu ''GAIA'' 600 UNBONDING_QUEUE) else None)"
  "queued_amount (c_records unbonding_chain) ''GAIA'' 3 = 600"
  "queued_total (c_records unbonding_chain) (hz_ChainId unbonding_zone) = 600"
proof -
  show *: "GetHostZoneUnbondingByChainId (c_records unbonding_chain) e k =
     (if e = 3 \<and> k = ''GAIA'' then Some (demo_hzu ''GAIA'' 600 UNBONDING_QUEUE) else None)" for e k
    by (simp add: unbonding_records GetHostZoneUnbondingByChainId_def unbondings.get_put unbondings.get_fresh demo_hzu_def)
  show q: "queued_amount (c_records unbonding_chain) ''GAIA'' 3 = 600"
    by (simp add: queued_amount_def *) (simp add: demo_hzu_def)
  have "map eur_EpochNumber (GetAllEpochUnbondingRecord (c_records unbonding_chain)) = [3]"
    by (simp add: unbonding_records GetAllEpochUnbondingRecord_def SetEpochUnbondingRecord_def records_empty_def kv_values_def)
  then show "queued_total (c_records unbonding_chain) (hz_ChainId unbonding_zone) = 600"
    using q by (simp add: queued_total_def queued_epochs_def unbonding_zone_def)
qed

lemma unbonding_zone_ok:
  "zone_can_split unbonding_zone" "total_delegation (hz_Validators unbonding_zone) = 700"
  "registered (hz_DelegationAccount unbonding_zone) = Some \<lparr>ica_Address = ''cosmos1delegation'', ica_Target = ICAAccountType_DELEGATION\<rparr>"
  "ValidateDenom (hz_HostDenom unbonding_zone)"
  by (simp_all add: unbonding_zone_def zone_can_split_def demo_validator_def)
    (simp_all add: demo_zone_def registered_def demo_account_def ValidateDenom_def denom_letter_def denom_char_def)

theorem unbonding_plan_covers_witness:
  "\<exists>p (sds :: SplitDelegation list). GetHostZoneUnbondingMsgs unbonding_chain unbonding_zone = Ok p \<and> up_total p = 600 \<and>
     up_msgs p = map (\<lambda>s. MsgUndelegate ''cosmos1delegation'' (sd_Validator s) (''uatom'', sd_Amount s)) sds \<and>
     sum_list (map sd_Amount sds) = 600"
proof -
  have "hz_HostDenom unbonding_zone = ''uatom''" by (simp add: unbonding_zone_def)
  with unbonding_plan_covers [OF unbonding_zone_ok(1,3,4), of unbonding_chain] unbonding_queue(3) unbonding_zone_ok(2)
  obtain sds :: "SplitDelegation list" and args eps where
    "GetHostZoneUnbondingMsgs unbonding_chain unbonding_zone = Ok
       \<lparr>up_msgs = map (\<lambda>s. MsgUndelegate ''cosmos1delegation'' (sd_Validator s) (''uatom'', sd_Amount s)) sds,
        up_total = 600, up_args = args, up_epochs = eps\<rparr>" "sum_list (map sd_Amount sds) = 600"
    by auto
  then show ?thesis by (intro exI conjI) (assumption | simp)+
qed

lemma unbonding_run:
  "\<exists>t. InitiateAllHostZoneUnbondings demo_env 4 unbonding_chain =
     (Ok \<lparr>ub_success = True, ub_successful = [''GAIA''], ub_failed = []\<rparr>, t)"
proof -
  obtain p where p: "GetHostZoneUnbondingMsgs unbonding_chain unbonding_zone = Ok p" "up_total p = 600" "up_msgs p \<noteq> []"
    using unbonding_plan_spec [OF unbonding_zone_ok(1,3,4), of unbonding_chain] unbonding_queue(3) unbonding_zone_ok(2)
    by force
  have tm: "GetICATimeoutNanos demo_env unbonding_chain DAY_EPOCH = Ok 1800"
    by (simp add: unbonding_chain_def GetICATimeoutNanos_def demo_tracker_def demo_env_def DefaultParams_def Let_def)
  obtain t1 where "SubmitTxs demo_env ''connection-0'' (up_msgs p)
      \<lparr>ica_Address = ''cosmos1delegation'', ica_Target = ICAAccountType_DELEGATION\<rparr> 1800 ''undelegate'' (up_args p) unbonding_chain = (Ok 1, t1)"
    using demo_SubmitTxs_Ok [of "up_msgs p" _ 1800 "''undelegate''" "up_args p" unbonding_chain] by auto
  then have s: "SubmitHostZoneUnbondingMsg demo_env (up_msgs p) (up_total p) (up_args p) unbonding_zone unbonding_chain = (Ok (), t1)"
    using p(3) tm by (simp add: SubmitHostZoneUnbondingMsg_def SubmitTxsDayEpoch_def SubmitTxsEpoch_def go_defs unbonding_zone_def
        demo_zone_def demo_account_def)
  have rec: "c_records t1 = c_records unbonding_chain" using submit_unbonding(1) [OF s] by (simp add: ica_frame_def)
  obtain r2 s2 where u: "SetHostZoneUnbondings ''GAIA'' (up_epochs p) UNBONDING_IN_PROGRESS (c_records t1) = (r2, s2)" by fastforce
  have z: "hz_ChainId unbonding_zone = ''GAIA''" "hz_UnbondingFrequency unbonding_zone = 4" by (simp_all add: unbonding_zone_def demo_zone_def)
  have "\<forall>e\<in>set (up_epochs p). GetHostZoneUnbondingByChainId (c_records t1) e ''GAIA'' \<noteq> None"
    using unbonding_plan_epochs [OF p(1)] p(2) queued_epochs_iff [OF unbonding_chain_wf(1)] queued_amount_Some z(1)
    by (auto simp: rec)
  then have "r2 = Ok ()"
    using SetHostZoneUnbondings_Ok_iff(1) [OF _ u] unbonding_chain_wf(1) rec by simp
  then show ?thesis
    using p s u z by (simp add: InitiateAllHostZoneUnbondings_def initiate_unbonding_def go_defs on_records_def Let_def)
qed

theorem initiated_exactly_when_sent_witness:
  "\<exists>t. InitiateAllHostZoneUnbondings demo_env 4 unbonding_chain =
      (Ok \<lparr>ub_success = True, ub_successful = [''GAIA''], ub_failed = []\<rparr>, t) \<and> length (c_outbox t) = 1 \<and>
    GetHostZoneUnbondingByChainId (c_records t) 3 ''GAIA'' = Some (demo_hzu ''GAIA'' 600 UNBONDING_IN_PROGRESS)"
proof -
  obtain t where run: "InitiateAllHostZoneUnbondings demo_env 4 unbonding_chain =
      (Ok \<lparr>ub_success = True, ub_successful = [''GAIA''], ub_failed = []\<rparr>, t)" using unbonding_run by blast
  have "length (c_outbox t) = 1 \<and> GetHostZoneUnbondingByChainId (c_records t) 3 ''GAIA'' =
      Some (hzu_Status_update (\<lambda>_. UNBONDING_IN_PROGRESS) (demo_hzu ''GAIA'' 600 UNBONDING_QUEUE))"
    using initiated_exactly_when_sent [OF run unbonding_chain_wf] unbonding_queue(2) by (simp add: unbonding_queue(1))
  with run show ?thesis by (simp add: demo_hzu_def)
qed

end
