(* ===== verification/Callbacks.thy ===== *)
theory Callbacks
  imports Unbondings
begin

text \<open>
  What happens when the host chain has answered: the interchain account callbacks of
  \<open>x/stakeibc\<close> (\<open>keeper/icacallbacks_*.go\<close>), the claim of unbonded tokens
  (\<open>keeper/msg_server_claim_undelegated_tokens.go\<close>) and the redelegations
  (\<open>keeper/msg_server_rebalance_validators.go\<close>).

  An acknowledgement is its status and, for undelegations, the completion times decoded from the
  message responses (\<open>None\<close> where a response does not decode). Times are nanoseconds since
  1970; \<open>UnixNano\<close> wraps at 64 bits.
\<close>

section \<open>Delegating\<close>

definition delegate_split :: "SplitDelegation \<Rightarrow> HostZone \<Rightarrow> (chain, HostZone) go" where
  "delegate_split splitDelegation hostZone =
     go_bind (go_lift (Int_Add (hz_StakedBal hostZone) (sd_Amount splitDelegation))) (\<lambda>stakedBal.
     go_bind (go_lift (AddDelegationToValidator (hostZone\<lparr>hz_StakedBal := stakedBal\<rparr>)
       (sd_Validator splitDelegation) (sd_Amount splitDelegation))) (\<lambda>success.
     go_bind (go_found success (StakeIBCErr ErrValidatorDelegationChg)) (\<lambda>hostZone'.
     go_bind (go_modify (SetHostZone hostZone')) (\<lambda>_.
     go_ret hostZone'))))"

definition DelegateCallback_ack :: "AckResponseStatus \<Rightarrow> DelegateCallback \<Rightarrow> (chain, unit) go" where
  "DelegateCallback_ack status args =
     go_bind (go_gets (\<lambda>c. GetHostZone c (dcb_HostZoneId args))) (\<lambda>found.
     go_bind (go_found found (Sdk ErrInvalidRequest)) (\<lambda>hostZone.
     go_bind (go_gets (\<lambda>c. GetDepositRecord (c_records c) (dcb_DepositRecordId args))) (\<lambda>found.
     go_bind (go_found found (Sdk ErrInvalidRequest)) (\<lambda>depositRecord.
     case status of
       AckResponseStatus_TIMEOUT \<Rightarrow> go_ret ()
     | AckResponseStatus_FAILURE \<Rightarrow>
         go_modify (mod_records (SetDepositRecord (depositRecord\<lparr>dr_Status := DELEGATION_QUEUE\<rparr>)))
     | AckResponseStatus_SUCCESS \<Rightarrow>
         go_bind (for_acc delegate_split (dcb_SplitDelegations args) hostZone) (\<lambda>_.
         go_modify (mod_records (RemoveDepositRecord (dcb_DepositRecordId args))))))))"

section \<open>Undelegating\<close>

fun undelegate_splits :: "SplitDelegation list \<Rightarrow> HostZone \<Rightarrow> HostZone res" where
  "undelegate_splits [] zone = Ok zone"
| "undelegate_splits (undelegation # us) zone =
     (if hz_StakedBal zone < sd_Amount undelegation then Err (StakeIBCErr ErrUndelegationAmount)
      else rbind (Int_Sub (hz_StakedBal zone) (sd_Amount undelegation)) (\<lambda>stakedBal.
        rbind (AddDelegationToValidator (zone\<lparr>hz_StakedBal := stakedBal\<rparr>)
          (sd_Validator undelegation) (- sd_Amount undelegation)) (\<lambda>success.
        case success of
          None \<Rightarrow> Err (StakeIBCErr ErrValidatorDelegationChg)
        | Some zone' \<Rightarrow> undelegate_splits us zone')))"

definition UpdateDelegationBalances :: "HostZone \<Rightarrow> UndelegateCallback \<Rightarrow> (chain, unit) go" where
  "UpdateDelegationBalances zone undelegateCallback =
     go_bind (go_lift (undelegate_splits (ucb_SplitDelegations undelegateCallback) zone)) (\<lambda>zone'.
     go_modify (SetHostZone zone'))"

text \<open>\<open>time.Time{}\<close> is the first of January of year one.\<close>

definition unset_time :: int where
  "unset_time = - 62135596800000000000"

fun latest_time :: "int option list \<Rightarrow> int \<Rightarrow> int res" where
  "latest_time [] latestCompletionTime = Ok latestCompletionTime"
| "latest_time (None # rs) latestCompletionTime = Err (StakeIBCErr ErrUnmarshalFailure)"
| "latest_time (Some completionTime # rs) latestCompletionTime =
     latest_time rs (if latestCompletionTime < completionTime then completionTime else latestCompletionTime)"

definition GetLatestCompletionTime :: "int option list \<Rightarrow> int res" where
  "GetLatestCompletionTime msgResponses =
     rbind (latest_time msgResponses unset_time) (\<lambda>latestCompletionTime.
     if latestCompletionTime = unset_time then Err (StakeIBCErr ErrInvalidPacketCompletionTime)
     else Ok latestCompletionTime)"

definition set_unbonding_time :: "int \<Rightarrow> string \<Rightarrow> uint64 \<Rightarrow> int \<Rightarrow> (records_state, int) go" where
  "set_unbonding_time latestCompletionTime chainId epochNumber stTokenBurnAmount =
     go_bind (go_gets (\<lambda>s. GetEpochUnbondingRecord s epochNumber)) (\<lambda>found.
     go_bind (go_found found (Sdk ErrKeyNotFound)) (\<lambda>epochUnbondingRecord.
     go_bind (go_gets (\<lambda>s. GetHostZoneUnbondingByChainId s (eur_EpochNumber epochUnbondingRecord) chainId)) (\<lambda>found.
     go_bind (go_found found (Sdk ErrKeyNotFound)) (\<lambda>hostZoneUnbonding.
     go_bind (go_lift (Int_Add stTokenBurnAmount (hzu_StTokenAmount hostZoneUnbonding))) (\<lambda>burn.
     go_bind (go_gets (\<lambda>s. AddHostZoneToEpochUnbondingRecord s (eur_EpochNumber epochUnbondingRecord) chainId
       (hostZoneUnbonding\<lparr>hzu_UnbondingTime := ToUint64 (int64_wrap latestCompletionTime)\<rparr>))) (\<lambda>updated.
     case updated of
       None \<Rightarrow> go_panic
     | Some updatedRecord \<Rightarrow>
         go_bind (go_modify (SetEpochUnbondingRecord updatedRecord)) (\<lambda>_. go_ret burn)))))))"

definition UpdateHostZoneUnbondings :: "int \<Rightarrow> string \<Rightarrow> UndelegateCallback \<Rightarrow> (records_state, int) go" where
  "UpdateHostZoneUnbondings latestCompletionTime chainId undelegateCallback =
     for_acc (set_unbonding_time latestCompletionTime chainId) (ucb_EpochUnbondingRecordIds undelegateCallback) 0"

definition BurnTokens :: "env \<Rightarrow> HostZone \<Rightarrow> int \<Rightarrow> (chain, unit) go" where
  "BurnTokens env hostZone stTokenBurnAmount =
     (let stCoinDenom = StAssetDenomFromHostZoneDenom (hz_HostDenom hostZone) in
     go_bind (go_guard (e_ParseCoin env stTokenBurnAmount stCoinDenom) (Sdk ErrInvalidCoins)) (\<lambda>_.
     go_bind (go_wrap Plain (go_lift (sdk_AccAddressFromBech32 env (hz_Address hostZone)))) (\<lambda>bech32ZoneAddress.
     go_bind (go_lift (NewCoins [(stCoinDenom, stTokenBurnAmount)])) (\<lambda>coins.
     go_bind (go_wrap Plain (on_bank (SendCoinsFromAccountToModule (e_bank env) bech32ZoneAddress ''stakeibc'' coins))) (\<lambda>_.
     go_wrap (StakeIBCErr ErrInsufficientStakeFunds) (on_bank (BurnCoins (e_bank env) ''stakeibc'' coins)))))))"

definition UndelegateCallback_ack ::
  "env \<Rightarrow> AckResponseStatus \<Rightarrow> int option list \<Rightarrow> UndelegateCallback \<Rightarrow> (chain, unit) go" where
  "UndelegateCallback_ack env status msgResponses args =
     (let chainId = ucb_HostZoneId args in
     case status of
       AckResponseStatus_TIMEOUT \<Rightarrow> go_ret ()
     | AckResponseStatus_FAILURE \<Rightarrow>
         on_records (SetHostZoneUnbondings chainId (ucb_EpochUnbondingRecordIds args) UNBONDING_QUEUE)
     | AckResponseStatus_SUCCESS \<Rightarrow>
         go_bind (go_gets (\<lambda>c. GetHostZone c chainId)) (\<lambda>found.
         go_bind (go_found found (Sdk ErrKeyNotFound)) (\<lambda>hostZone.
         go_bind (UpdateDelegationBalances hostZone args) (\<lambda>_.
         go_bind (go_lift (GetLatestCompletionTime msgResponses)) (\<lambda>latestCompletionTime.
         go_bind (on_records (UpdateHostZoneUnbondings latestCompletionTime chainId args)) (\<lambda>stTokenBurnAmount.
         go_bind (BurnTokens env hostZone stTokenBurnAmount) (\<lambda>_.
         on_records (SetHostZoneUnbondings chainId (ucb_EpochUnbondingRecordIds args) EXIT_TRANSFER_QUEUE))))))))"

definition RedemptionCallback_ack :: "AckResponseStatus \<Rightarrow> RedemptionCallback \<Rightarrow> (chain, unit) go" where
  "RedemptionCallback_ack status args =
     (let chainId = rdcb_HostZoneId args in
     case status of
       AckResponseStatus_TIMEOUT \<Rightarrow> go_ret ()
     | AckResponseStatus_FAILURE \<Rightarrow>
         on_records (SetHostZoneUnbondings chainId (rdcb_EpochUnbondingRecordIds args) EXIT_TRANSFER_QUEUE)
     | AckResponseStatus_SUCCESS \<Rightarrow>
         go_bind (go_gets (\<lambda>c. GetHostZone c chainId)) (\<lambda>found.
         go_bind (go_found found (Sdk ErrKeyNotFound)) (\<lambda>_.
         on_records (SetHostZoneUnbondings chainId (rdcb_EpochUnbondingRecordIds args) CLAIMABLE))))"

section \<open>Reinvesting\<close>

definition ReinvestCallback_ack :: "env \<Rightarrow> AckResponseStatus \<Rightarrow> ReinvestCallback \<Rightarrow> (chain, unit) go" where
  "ReinvestCallback_ack env status args =
     (let chainId = rcb_HostZoneId args in
     go_bind (go_gets (\<lambda>c. GetHostZone c chainId)) (\<lambda>found.
     go_bind (go_found found (StakeIBCErr ErrHostZoneNotFound)) (\<lambda>hostZone.
     case status of
       AckResponseStatus_TIMEOUT \<Rightarrow> go_ret ()
     | AckResponseStatus_FAILURE \<Rightarrow> go_ret ()
     | AckResponseStatus_SUCCESS \<Rightarrow>
         go_bind (go_gets (\<lambda>c. GetEpochTracker c STRIDE_EPOCH)) (\<lambda>found.
         go_bind (go_found found Plain) (\<lambda>strideEpochTracker.
         go_bind (on_records (AppendDepositRecord \<lparr>dr_Id = 0, dr_Amount = snd (rcb_ReinvestAmount args),
           dr_Denom = fst (rcb_ReinvestAmount args), dr_HostZoneId = rcb_HostZoneId args,
           dr_Status = DELEGATION_QUEUE, dr_DepositEpochNumber = et_EpochNumber strideEpochTracker,
           dr_Source = WITHDRAWAL_ICA\<rparr>)) (\<lambda>_.
         go_bind (go_found (registered (hz_FeeAccount hostZone)) (StakeIBCErr ErrICAAccountNotFound)) (\<lambda>feeAccount.
         go_bind (go_lift (decode_address env (ica_Address feeAccount))) (\<lambda>feeAddressBz.
         go_bind (go_lift (MustLengthPrefix feeAddressBz)) (\<lambda>p.
         let queryData = (char_of (2::nat) # p) @ hz_HostDenom hostZone in
         go_bind (\<lambda>c. (GetICATimeoutNanos env c STRIDE_EPOCH, c)) (\<lambda>timeout.
         MakeRequest env ''stakeibc'' ''feebalance'' chainId (hz_ConnectionId hostZone)
           ''store/bank/key'' queryData timeout))))))))))"

section \<open>Claiming\<close>

record MsgClaimUndelegatedTokens =
  mct_HostZoneId :: string
  mct_Epoch :: uint64
  mct_Sender :: string

definition GetClaimableRedemptionRecord :: "records_state \<Rightarrow> MsgClaimUndelegatedTokens \<Rightarrow> UserRedemptionRecord res" where
  "GetClaimableRedemptionRecord s msg =
     (case GetUserRedemptionRecord s (UserRedemptionRecordKeyFormatter (mct_HostZoneId msg) (mct_Epoch msg) (mct_Sender msg)) of
        None \<Rightarrow> Err (StakeIBCErr ErrInvalidUserRedemptionRecord)
      | Some userRedemptionRecord \<Rightarrow>
          (case GetHostZoneUnbondingByChainId s (urr_EpochNumber userRedemptionRecord) (mct_HostZoneId msg) of
             None \<Rightarrow> Err (StakeIBCErr ErrInvalidUserRedemptionRecord)
           | Some hostZoneUnbonding \<Rightarrow>
               if hzu_Status hostZoneUnbonding \<noteq> CLAIMABLE then Err (StakeIBCErr ErrInvalidUserRedemptionRecord)
               else if urr_ClaimIsPending userRedemptionRecord then Err (StakeIBCErr ErrInvalidUserRedemptionRecord)
               else Ok userRedemptionRecord))"

record IcaTx =
  itx_ConnectionId :: string
  itx_Msgs :: "ica_msg list"
  itx_Account :: ICAAccount
  itx_Timeout :: uint64

definition GetRedemptionTransferMsg :: "env \<Rightarrow> chain \<Rightarrow> UserRedemptionRecord \<Rightarrow> string \<Rightarrow> IcaTx res" where
  "GetRedemptionTransferMsg env c userRedemptionRecord hostZoneId =
     (case GetHostZone c hostZoneId of
        None \<Rightarrow> Err (StakeIBCErr ErrInvalidHostZone)
      | Some hostZone \<Rightarrow>
          (case GetRedemptionAccount hostZone of
             None \<Rightarrow> Err (StakeIBCErr ErrInvalidHostZone)
           | Some redemptionAccount \<Rightarrow>
               rbind (NewCoin (urr_Denom userRedemptionRecord) (urr_Amount userRedemptionRecord)) (\<lambda>coin.
               rbind (NewCoins [coin]) (\<lambda>coins.
               case GetEpochTracker c STRIDE_EPOCH of
                 None \<Rightarrow> Err (StakeIBCErr ErrEpochNotFound)
               | Some epochTracker \<Rightarrow>
                   Ok \<lparr>itx_ConnectionId = hz_ConnectionId hostZone,
                     itx_Msgs = [MsgSend (ica_Address redemptionAccount) (urr_Receiver userRedemptionRecord) coins],
                     itx_Account = redemptionAccount,
                     itx_Timeout = et_NextEpochStartTime epochTracker + prm_IcaTimeoutNanos (e_params env)\<rparr>))))"

definition ClaimUndelegatedTokens :: "env \<Rightarrow> MsgClaimUndelegatedTokens \<Rightarrow> (chain, unit) go" where
  "ClaimUndelegatedTokens env msg =
     go_bind (go_wrap (StakeIBCErr ErrRecordNotFound) (\<lambda>c. (GetClaimableRedemptionRecord (c_records c) msg, c))) (\<lambda>userRedemptionRecord.
     go_bind (go_gets (\<lambda>c. GetHostZone c (mct_HostZoneId msg))) (\<lambda>found.
     go_bind (go_found found (StakeIBCErr ErrHostZoneNotFound)) (\<lambda>hostZone.
     go_bind (go_guard (\<not> hz_Halted hostZone) (StakeIBCErr ErrHaltedHostZone)) (\<lambda>_.
     go_bind (\<lambda>c. (GetRedemptionTransferMsg env c userRedemptionRecord (mct_HostZoneId msg), c)) (\<lambda>icaTx.
     go_bind (SubmitTxs env (itx_ConnectionId icaTx) (itx_Msgs icaTx) (itx_Account icaTx) (itx_Timeout icaTx) ''claim''
       (Some (ClaimArgs \<lparr>ccb_UserRedemptionRecordId = urr_Id userRedemptionRecord,
         ccb_ChainId = mct_HostZoneId msg, ccb_EpochNumber = mct_Epoch msg\<rparr>))) (\<lambda>_.
     go_modify (mod_records (SetUserRedemptionRecord (userRedemptionRecord\<lparr>urr_ClaimIsPending := True\<rparr>)))))))))"

definition DecrementHostZoneUnbonding :: "UserRedemptionRecord \<Rightarrow> ClaimCallback \<Rightarrow> (records_state, unit) go" where
  "DecrementHostZoneUnbonding userRedemptionRecord callbackArgs =
     go_bind (go_gets (\<lambda>s. GetHostZoneUnbondingByChainId s (ccb_EpochNumber callbackArgs) (ccb_ChainId callbackArgs))) (\<lambda>found.
     go_bind (go_found found (StakeIBCErr ErrRecordNotFound)) (\<lambda>hostZoneUnbonding.
     go_bind (go_lift (Int_Sub (hzu_NativeTokenAmount hostZoneUnbonding) (urr_Amount userRedemptionRecord))) (\<lambda>amount.
     go_bind (go_gets (\<lambda>s. AddHostZoneToEpochUnbondingRecord s (ccb_EpochNumber callbackArgs) (ccb_ChainId callbackArgs)
       (hostZoneUnbonding\<lparr>hzu_NativeTokenAmount := amount\<rparr>))) (\<lambda>updated.
     go_bind (go_found updated (StakeIBCErr ErrRecordNotFound)) (\<lambda>epochUnbondingRecord.
     go_modify (SetEpochUnbondingRecord epochUnbondingRecord))))))"

definition ClaimCallback_ack :: "AckResponseStatus \<Rightarrow> ClaimCallback \<Rightarrow> (records_state, unit) go" where
  "ClaimCallback_ack status args =
     go_bind (go_gets (\<lambda>s. GetUserRedemptionRecord s (ccb_UserRedemptionRecordId args))) (\<lambda>found.
     go_bind (go_found found (StakeIBCErr ErrRecordNotFound)) (\<lambda>userRedemptionRecord.
     case status of
       AckResponseStatus_TIMEOUT \<Rightarrow>
         go_modify (SetUserRedemptionRecord (userRedemptionRecord\<lparr>urr_ClaimIsPending := False\<rparr>))
     | AckResponseStatus_FAILURE \<Rightarrow>
         go_modify (SetUserRedemptionRecord (userRedemptionRecord\<lparr>urr_ClaimIsPending := False\<rparr>))
     | AckResponseStatus_SUCCESS \<Rightarrow>
         go_bind (go_modify (RemoveUserRedemptionRecord (ccb_UserRedemptionRecordId args))) (\<lambda>_.
         DecrementHostZoneUnbonding userRedemptionRecord args)))"

section \<open>Rebalancing\<close>

text \<open>\<open>valAddrMap\<close> holds the last validator with an address.\<close>

fun move_delegation :: "address \<Rightarrow> int \<Rightarrow> Validator list \<Rightarrow> Validator list option res" where
  "move_delegation addr amount [] = Ok None"
| "move_delegation addr amount (v # vs) =
     rbind (move_delegation addr amount vs) (\<lambda>r.
     case r of
       Some vs' \<Rightarrow> Ok (Some (v # vs'))
     | None \<Rightarrow>
         if val_Address v = addr then
           rbind (Int_Add (val_DelegationAmt v) amount) (\<lambda>d. Ok (Some (v\<lparr>val_DelegationAmt := d\<rparr> # vs)))
         else Ok None)"

fun apply_rebalancings :: "Rebalancing list \<Rightarrow> Validator list \<Rightarrow> Validator list res" where
  "apply_rebalancings [] vs = Ok vs"
| "apply_rebalancings (r # rs) vs =
     rbind (move_delegation (rb_SrcValidator r) (- rb_Amt r) vs) (\<lambda>src.
     case src of
       None \<Rightarrow> Err (Sdk ErrInvalidRequest)
     | Some vs1 \<Rightarrow>
         rbind (move_delegation (rb_DstValidator r) (rb_Amt r) vs1) (\<lambda>dst.
         case dst of
           None \<Rightarrow> Err (Sdk ErrInvalidRequest)
         | Some vs2 \<Rightarrow> apply_rebalancings rs vs2))"

definition RebalanceCallback_ack :: "AckResponseStatus \<Rightarrow> RebalanceCallback \<Rightarrow> (chain, unit) go" where
  "RebalanceCallback_ack status args =
     (case status of
        AckResponseStatus_TIMEOUT \<Rightarrow> go_ret ()
      | AckResponseStatus_FAILURE \<Rightarrow> go_ret ()
      | AckResponseStatus_SUCCESS \<Rightarrow>
          go_bind (go_gets (\<lambda>c. GetHostZone c (rbcb_HostZoneId args))) (\<lambda>found.
          go_bind (go_found found (Sdk ErrInvalidRequest)) (\<lambda>hostZone.
          go_bind (go_lift (apply_rebalancings (rbcb_Rebalancings args) (hz_Validators hostZone))) (\<lambda>vs.
          go_modify (SetHostZone (hostZone\<lparr>hz_Validators := vs\<rparr>))))))"

definition RebalanceValidators :: "env \<Rightarrow> string \<Rightarrow> uint64 \<Rightarrow> (chain, unit) go" where
  "RebalanceValidators env chainId numRebalance =
     go_bind (go_gets (\<lambda>c. GetHostZone c chainId)) (\<lambda>found.
     go_bind (go_found found (StakeIBCErr ErrInvalidHostZone)) (\<lambda>hostZone.
     go_bind (go_lift (GetValidatorDelegationAmtDifferences hostZone)) (\<lambda>(validatorDeltas, hostZone').
     let xs = valDeltaList validatorDeltas in
     go_bind (go_lift (GetTotalValidatorDelegations hostZone')) (\<lambda>total_delegation.
     go_bind (go_guard (total_delegation \<noteq> 0) (Sdk ErrInvalidRequest)) (\<lambda>_.
     go_bind (go_found (registered (hz_DelegationAccount hostZone')) (Sdk ErrInvalidAddress)) (\<lambda>delegationIca.
     go_bind (go_lift (rebalance_loop (hz_HostDenom hostZone') xs (unat numRebalance) (int (length xs) - 1) 0 [])) (\<lambda>rebalancings.
     go_bind (go_wrap (Sdk ErrInvalidRequest) (SubmitTxsStrideEpoch env (hz_ConnectionId hostZone')
       (map (\<lambda>r. MsgBeginRedelegate (ica_Address delegationIca) (rb_SrcValidator r) (rb_DstValidator r)
         (hz_HostDenom hostZone', rb_Amt r)) rebalancings)
       delegationIca ''rebalance'' (Some (RebalanceArgs \<lparr>rbcb_HostZoneId = hz_ChainId hostZone',
         rbcb_Rebalancings = rebalancings\<rparr>)))) (\<lambda>_.
     go_ret ()))))))))"

section \<open>The books of a zone\<close>

text \<open>The staked balance of a zone is the sum of what its validators hold.\<close>

definition balanced :: "HostZone \<Rightarrow> bool" where
  "balanced z \<longleftrightarrow> hz_StakedBal z = total_delegation (hz_Validators z)"

definition books_balance :: "chain \<Rightarrow> bool" where
  "books_balance c \<longleftrightarrow> (\<forall>k z. GetHostZone c k = Some z \<longrightarrow> balanced z)"

lemma books_balance_get: "books_balance c \<Longrightarrow> GetHostZone c k = Some z \<Longrightarrow> balanced z"
  by (auto simp: books_balance_def)

lemma books_balance_Set: "books_balance c \<Longrightarrow> balanced z \<Longrightarrow> books_balance (SetHostZone z c)"
  by (auto simp: books_balance_def split: if_splits)

lemma books_balance_zones: "c_hostZones t = c_hostZones c \<Longrightarrow> books_balance t = books_balance c"
  by (simp add: books_balance_def GetHostZone_def)

lemma books_balance_frame [simp]:
  "books_balance (mod_records f c) = books_balance c" "books_balance (c\<lparr>c_records := s\<rparr>) = books_balance c"
  "books_balance (c\<lparr>c_bank := b\<rparr>) = books_balance c" "books_balance (SetCallbackData d c) = books_balance c"
  "books_balance (RemoveCallbackData k c) = books_balance c" "books_balance (c\<lparr>c_outbox := ob\<rparr>) = books_balance c"
  by (rule books_balance_zones, simp)+

lemma AddDelegation_SomeE:
  assumes "AddDelegationToValidator z a x = Ok (Some z')"
  obtains vs where "z' = z\<lparr>hz_Validators := vs\<rparr>" "total_delegation vs = total_delegation (hz_Validators z) + x"
    "val_frame vs = val_frame (hz_Validators z)"
proof -
  obtain vs where "add_delegation a x (hz_Validators z) = Ok (Some vs)" "z' = z\<lparr>hz_Validators := vs\<rparr>"
    using assms by (auto simp: AddDelegationToValidator_def rbind_eq_Ok)
  with add_delegation_Some that show thesis by blast
qed

lemma AddDelegation_no_Err: "AddDelegationToValidator z a x \<noteq> Err e"
  by (simp add: AddDelegationToValidator_def rbind_eq_Err add_delegation_no_Err)

lemma delegate_split_Ok:
  assumes "delegate_split sd z c = (Ok z', t)"
  shows "t = SetHostZone z' c" "hz_ChainId z' = hz_ChainId z" "balanced z \<Longrightarrow> balanced z'"
    "hz_StakedBal z' = hz_StakedBal z + sd_Amount sd" "val_frame (hz_Validators z') = val_frame (hz_Validators z)"
proof -
  from assms have add: "AddDelegationToValidator (z\<lparr>hz_StakedBal := hz_StakedBal z + sd_Amount sd\<rparr>) (sd_Validator sd) (sd_Amount sd) = Ok (Some z')"
    and t: "t = SetHostZone z' c"
    by (auto simp: delegate_split_def go_simps split: option.splits)
  obtain vs where "z' = z\<lparr>hz_StakedBal := hz_StakedBal z + sd_Amount sd, hz_Validators := vs\<rparr>"
    "total_delegation vs = total_delegation (hz_Validators z) + sd_Amount sd" "val_frame vs = val_frame (hz_Validators z)"
    by (rule AddDelegation_SomeE [OF add]) simp
  with t show "t = SetHostZone z' c" "hz_ChainId z' = hz_ChainId z" "balanced z \<Longrightarrow> balanced z'"
    "hz_StakedBal z' = hz_StakedBal z + sd_Amount sd" "val_frame (hz_Validators z') = val_frame (hz_Validators z)"
    by (simp_all add: balanced_def)
qed

lemma delegate_split_fail: "delegate_split sd z c = (r, t) \<Longrightarrow> (\<And>z'. r \<noteq> Ok z') \<Longrightarrow> t = c"
  by (cases r) (auto simp: delegate_split_def go_simps split: option.splits)

lemma delegate_loop_books:
  assumes "for_acc delegate_split sds z c = (r, t)" "books_balance c" "balanced z"
  shows "books_balance t"
  using assms
proof (induction sds arbitrary: z c)
  case (Cons sd sds)
  obtain r1 t1 where s: "delegate_split sd z c = (r1, t1)" by fastforce
  show ?case
  proof (cases r1)
    case (Ok z1)
    with s have s': "delegate_split sd z c = (Ok z1, t1)" by simp
    note d = delegate_split_Ok [OF s']
    have "books_balance t1" "balanced z1" using d(1,3) Cons.prems(2,3) by (auto intro: books_balance_Set)
    with Cons.IH Cons.prems(1) s' show ?thesis by simp
  qed (use s delegate_split_fail [OF s] Cons.prems in auto)
qed simp

lemma delegate_loop_Ok:
  assumes "for_acc delegate_split sds z c = (Ok z', t)" "GetHostZone c (hz_ChainId z) = Some z"
  shows "(\<forall>k. GetHostZone t k = (if k = hz_ChainId z then Some z' else GetHostZone c k)) \<and>
    hz_StakedBal z' = hz_StakedBal z + sum_list (map sd_Amount sds) \<and>
    val_frame (hz_Validators z') = val_frame (hz_Validators z) \<and>
    c_records t = c_records c \<and> c_bank t = c_bank c \<and> c_outbox t = c_outbox c"
  using assms
proof (induction sds arbitrary: z c)
  case (Cons sd sds)
  obtain z1 t1 where s: "delegate_split sd z c = (Ok z1, t1)" "for_acc delegate_split sds z1 t1 = (Ok z', t)"
    using Cons.prems(1) by (auto split: prod.splits res.splits)
  note d = delegate_split_Ok [OF s(1)]
  have "GetHostZone t1 (hz_ChainId z1) = Some z1" by (simp add: d(1))
  from Cons.IH [OF s(2) this] d show ?case by simp
qed auto

lemma undelegate_splits_OkE:
  assumes "undelegate_splits us z = Ok z'"
  obtains vs where "z' = z\<lparr>hz_StakedBal := hz_StakedBal z - sum_list (map sd_Amount us), hz_Validators := vs\<rparr>"
    "total_delegation vs = total_delegation (hz_Validators z) - sum_list (map sd_Amount us)"
    "val_frame vs = val_frame (hz_Validators z)"
  using assms
proof (induction us arbitrary: z thesis)
  case Nil
  then show ?case by (auto intro: Nil(1) [of "hz_Validators z"])
next
  case (Cons u us)
  obtain z1 where z1: "AddDelegationToValidator (z\<lparr>hz_StakedBal := hz_StakedBal z - sd_Amount u\<rparr>) (sd_Validator u)
      (- sd_Amount u) = Ok (Some z1)" "undelegate_splits us z1 = Ok z'"
    using Cons.prems(2) by (auto simp: rbind_eq_Ok Int_Sub_Ok split: if_splits option.splits)
  obtain vs1 where "z1 = z\<lparr>hz_StakedBal := hz_StakedBal z - sd_Amount u, hz_Validators := vs1\<rparr>"
    "total_delegation vs1 = total_delegation (hz_Validators z) - sd_Amount u" "val_frame vs1 = val_frame (hz_Validators z)"
    by (rule AddDelegation_SomeE [OF z1(1)]) simp
  moreover obtain vs where "z' = z1\<lparr>hz_StakedBal := hz_StakedBal z1 - sum_list (map sd_Amount us), hz_Validators := vs\<rparr>"
    "total_delegation vs = total_delegation (hz_Validators z1) - sum_list (map sd_Amount us)"
    "val_frame vs = val_frame (hz_Validators z1)"
    by (rule Cons.IH [OF _ z1(2)])
  ultimately show ?case by (intro Cons.prems(1) [of vs]) (simp_all add: algebra_simps)
qed

lemma undelegate_splits_balanced:
  assumes "undelegate_splits us z = Ok z'" "balanced z"
  shows "balanced z'" "hz_ChainId z' = hz_ChainId z" "hz_Address z' = hz_Address z" "hz_HostDenom z' = hz_HostDenom z"
  using assms by (auto simp: balanced_def elim!: undelegate_splits_OkE)

lemma move_delegation_Some:
  assumes "move_delegation a x vs = Ok (Some ws)"
  shows "total_delegation ws = total_delegation vs + x \<and> val_frame ws = val_frame vs"
  using assms
  by (induction vs arbitrary: ws) (auto simp: rbind_eq_Ok Int_Add_Ok split: option.splits if_splits)

lemma apply_rebalancings_Ok:
  "apply_rebalancings rs vs = Ok ws \<Longrightarrow> total_delegation ws = total_delegation vs \<and> val_frame ws = val_frame vs"
proof (induction rs arbitrary: vs)
  case (Cons r rs)
  then obtain vs1 vs2 where "move_delegation (rb_SrcValidator r) (- rb_Amt r) vs = Ok (Some vs1)"
    "move_delegation (rb_DstValidator r) (rb_Amt r) vs1 = Ok (Some vs2)" "apply_rebalancings rs vs2 = Ok ws"
    by (auto simp: rbind_eq_Ok split: option.splits)
  with Cons.IH show ?case by (auto dest!: move_delegation_Some)
qed simp

section \<open>An undelegation settles\<close>

text \<open>What the settled epochs burn: the receipts of the zone in them.\<close>

definition receipts_of :: "records_state \<Rightarrow> string \<Rightarrow> uint64 \<Rightarrow> int" where
  "receipts_of s k e = (case GetHostZoneUnbondingByChainId s e k of Some h \<Rightarrow> hzu_StTokenAmount h | None \<Rightarrow> 0)"

lemma set_unbonding_time_Ok:
  assumes "set_unbonding_time T k e b s = (Ok b', t)" "records_wf s"
  shows "\<exists>h. GetHostZoneUnbondingByChainId s e k = Some h \<and> b' = b + hzu_StTokenAmount h \<and> records_wf t \<and>
    GetUserRedemptionRecord t = GetUserRedemptionRecord s \<and> GetDepositRecord t = GetDepositRecord s \<and>
    (\<forall>e' c'. GetHostZoneUnbondingByChainId t e' c' = (if e' = e \<and> c' = k
       then Some (h\<lparr>hzu_UnbondingTime := ToUint64 (int64_wrap T)\<rparr>) else GetHostZoneUnbondingByChainId s e' c'))"
proof -
  obtain r h u where r: "GetEpochUnbondingRecord s e = Some r"
    and h: "GetHostZoneUnbondingByChainId s (eur_EpochNumber r) k = Some h"
    and u: "AddHostZoneToEpochUnbondingRecord s (eur_EpochNumber r) k
        (h\<lparr>hzu_UnbondingTime := ToUint64 (int64_wrap T)\<rparr>) = Some u"
    and b: "b' = b + hzu_StTokenAmount h" and t: "t = SetEpochUnbondingRecord u s"
    using assms(1) by (auto simp: set_unbonding_time_def go_simps Int_Add_Ok split: option.splits)
  have e: "eur_EpochNumber r = e" by (rule unbondings.get_key [OF assms(2) r])
  have "hzu_HostZoneId (h\<lparr>hzu_UnbondingTime := ToUint64 (int64_wrap T)\<rparr>) = k" using GetHZU_HostZoneId [OF h] by simp
  from GetHZU_put [OF assms(2) u this] h b e t show ?thesis by (simp add: unbondings.wf_put assms(2))
qed

lemma set_unbonding_times_Ok:
  assumes "for_acc (set_unbonding_time T k) es b s = (Ok b', t)" "records_wf s"
  shows "b' = b + sum_list (map (receipts_of s k) es) \<and> records_wf t \<and>
    GetUserRedemptionRecord t = GetUserRedemptionRecord s \<and> GetDepositRecord t = GetDepositRecord s \<and>
    (\<forall>e\<in>set es. GetHostZoneUnbondingByChainId s e k \<noteq> None) \<and>
    (\<forall>e c. GetHostZoneUnbondingByChainId t e c = (if c = k \<and> e \<in> set es
       then map_option (hzu_UnbondingTime_update (\<lambda>_. ToUint64 (int64_wrap T))) (GetHostZoneUnbondingByChainId s e c)
       else GetHostZoneUnbondingByChainId s e c))"
  using assms
proof (induction es arbitrary: b s)
  case (Cons e es)
  obtain b1 s1 where st: "set_unbonding_time T k e b s = (Ok b1, s1)" and rest: "for_acc (set_unbonding_time T k) es b1 s1 = (Ok b', t)"
    using Cons.prems(1) by (auto split: prod.splits res.splits)
  obtain h where h: "GetHostZoneUnbondingByChainId s e k = Some h" "b1 = b + hzu_StTokenAmount h" "records_wf s1"
      "GetUserRedemptionRecord s1 = GetUserRedemptionRecord s" "GetDepositRecord s1 = GetDepositRecord s"
      "\<And>e' c'. GetHostZoneUnbondingByChainId s1 e' c' = (if e' = e \<and> c' = k
        then Some (h\<lparr>hzu_UnbondingTime := ToUint64 (int64_wrap T)\<rparr>) else GetHostZoneUnbondingByChainId s e' c')"
    using set_unbonding_time_Ok [OF st Cons.prems(2)] by blast
  have "receipts_of s1 k e' = receipts_of s k e'" for e'
    using h(1) by (simp add: receipts_of_def h(6))
  with Cons.IH [OF rest h(3)] h show ?case
    by (auto simp: receipts_of_def split: if_splits)
qed auto

lemma BurnTokens_Ok:
  assumes "BurnTokens env z x c = (Ok u, t)" "\<forall>a d. 0 \<le> be_locked (e_bank env) a d"
  shows "\<exists>a. sdk_AccAddressFromBech32 env (hz_Address z) = Ok a \<and>
    0 \<le> x \<and> (\<exists>b. t = c\<lparr>c_bank := b\<rparr> \<and> (\<forall>d. bk_supply b d = bk_supply (c_bank c) d - (if d = ''st'' @ hz_HostDenom z then x else 0)) \<and>
      (be_module (e_bank env) ''stakeibc'' \<noteq> Some a \<longrightarrow>
       bk_balance b a (''st'' @ hz_HostDenom z) = bk_balance (c_bank c) a (''st'' @ hz_HostDenom z) - x))"
proof -
  let ?d = "StAssetDenomFromHostZoneDenom (hz_HostDenom z)"
  obtain a cs b1 b2 where a: "sdk_AccAddressFromBech32 env (hz_Address z) = Ok a"
    and cs: "NewCoins [(?d, x)] = Ok cs"
    and s: "SendCoinsFromAccountToModule (e_bank env) a ''stakeibc'' cs (c_bank c) = (Ok (), b1)"
    and b: "BurnCoins (e_bank env) ''stakeibc'' cs b1 = (Ok (), b2)" and t: "t = c\<lparr>c_bank := b2\<rparr>"
    using assms(1) by (auto simp: BurnTokens_def Let_def go_simps split: if_splits)
  obtain m where m: "be_module (e_bank env) ''stakeibc'' = Some m" "SendCoins (e_bank env) a m cs (c_bank c) = (Ok (), b1)"
    using s by (auto simp: SendCoinsFromAccountToModule_def go_panic_def split: option.splits)
  have "b1 = bank_move a m ?d x (c_bank c)" "0 \<le> x" using SendCoins_Ok [OF m(2) cs] assms(2) by auto
  moreover have "b2 = supply_add ?d (- x) (bank_add m ?d (- x) b1)" using BurnCoins_Ok [OF b cs] assms(2) m(1) by auto
  ultimately show ?thesis using a t m(1)
    by (auto simp: StAssetDenomFromHostZoneDenom_def bk_balance_move)
qed

text \<open>Property C13. When the host acknowledges an undelegation and the callback succeeds, the zone's
  staked balance and the sum of its validators' delegations go down by the undelegated amount, the
  supply of the receipt token goes down by exactly the receipts queued in the listed epochs, and the
  zone's unbondings of those epochs, and no others, carry the latest completion time and wait for the
  transfer out of the delegation account. Users' redemption records and the deposit records stay.\<close>

theorem UndelegateCallback_settles:
  assumes run: "UndelegateCallback_ack env AckResponseStatus_SUCCESS msgResponses args c = (Ok (), t)"
    and wf: "records_wf (c_records c)" "zones_wf c" and locked: "\<forall>a d. 0 \<le> be_locked (e_bank env) a d"
  shows "\<exists>z z' T. GetHostZone c (ucb_HostZoneId args) = Some z \<and> GetHostZone t (ucb_HostZoneId args) = Some z' \<and>
    GetLatestCompletionTime msgResponses = Ok T \<and>
    hz_StakedBal z' = hz_StakedBal z - sum_list (map sd_Amount (ucb_SplitDelegations args)) \<and>
    total_delegation (hz_Validators z') = total_delegation (hz_Validators z) - sum_list (map sd_Amount (ucb_SplitDelegations args)) \<and>
    (\<forall>d. bk_supply (c_bank t) d = bk_supply (c_bank c) d - (if d = ''st'' @ hz_HostDenom z
       then sum_list (map (receipts_of (c_records c) (ucb_HostZoneId args)) (ucb_EpochUnbondingRecordIds args)) else 0)) \<and>
    (\<forall>e k. GetHostZoneUnbondingByChainId (c_records t) e k =
       (if k = ucb_HostZoneId args \<and> e \<in> set (ucb_EpochUnbondingRecordIds args)
        then map_option (\<lambda>h. h\<lparr>hzu_UnbondingTime := ToUint64 (int64_wrap T), hzu_Status := EXIT_TRANSFER_QUEUE\<rparr>)
          (GetHostZoneUnbondingByChainId (c_records c) e k)
        else GetHostZoneUnbondingByChainId (c_records c) e k)) \<and>
    GetUserRedemptionRecord (c_records t) = GetUserRedemptionRecord (c_records c) \<and>
    GetDepositRecord (c_records t) = GetDepositRecord (c_records c)"
proof -
  let ?k = "ucb_HostZoneId args" and ?es = "ucb_EpochUnbondingRecordIds args"
  obtain z z1 T s1 burn t2 s3 where z: "GetHostZone c ?k = Some z"
    and u: "undelegate_splits (ucb_SplitDelegations args) z = Ok z1" and T: "GetLatestCompletionTime msgResponses = Ok T"
    and l: "for_acc (set_unbonding_time T ?k) ?es 0 (c_records c) = (Ok burn, s1)"
    and b: "BurnTokens env z burn ((SetHostZone z1 c)\<lparr>c_records := s1\<rparr>) = (Ok (), t2)"
    and e: "SetHostZoneUnbondings ?k ?es EXIT_TRANSFER_QUEUE (c_records t2) = (Ok (), s3)" and t: "t = t2\<lparr>c_records := s3\<rparr>"
    using run by (auto simp: UndelegateCallback_ack_def UpdateDelegationBalances_def UpdateHostZoneUnbondings_def
        Let_def go_simps split: option.splits)
  obtain vs where z1: "z1 = z\<lparr>hz_StakedBal := hz_StakedBal z - sum_list (map sd_Amount (ucb_SplitDelegations args)), hz_Validators := vs\<rparr>"
    and vs: "total_delegation vs = total_delegation (hz_Validators z) - sum_list (map sd_Amount (ucb_SplitDelegations args))"
    using u by (rule undelegate_splits_OkE)
  have k: "hz_ChainId z1 = ?k" using zones.get_key [OF wf(2) z] by (simp add: z1)
  obtain b2 where t2: "t2 = SetHostZone z1 c\<lparr>c_records := s1, c_bank := b2\<rparr>"
    and sup: "\<And>d. bk_supply b2 d = bk_supply (c_bank c) d - (if d = ''st'' @ hz_HostDenom z then burn else 0)"
    using BurnTokens_Ok [OF b locked] by auto
  note l' = set_unbonding_times_Ok [OF l wf(1)]
  have r2: "c_records t2 = s1" by (simp add: t2)
  have e': "SetHostZoneUnbondings ?k ?es EXIT_TRANSFER_QUEUE s1 = (Ok (), s3)" using e r2 by simp
  have "\<forall>e\<in>set ?es. GetHostZoneUnbondingByChainId s1 e ?k \<noteq> None" using l' by auto
  note s = SetHostZoneUnbondings_Ok_iff(1) [OF conjunct1 [OF conjunct2 [OF l']] e' this]
  have hzu: "GetHostZoneUnbondingByChainId (c_records t) e k = (if k = ?k \<and> e \<in> set ?es
        then map_option (\<lambda>h. h\<lparr>hzu_UnbondingTime := ToUint64 (int64_wrap T), hzu_Status := EXIT_TRANSFER_QUEUE\<rparr>)
          (GetHostZoneUnbondingByChainId (c_records c) e k)
        else GetHostZoneUnbondingByChainId (c_records c) e k)" for e k
    using s l' by (simp add: t option.map_comp comp_def)
  have fr: "GetUserRedemptionRecord (c_records t) = GetUserRedemptionRecord (c_records c)"
    "GetDepositRecord (c_records t) = GetDepositRecord (c_records c)"
    using SetHostZoneUnbondings_frame(1,2) [OF e'] l' by (simp_all add: t)
  have "GetHostZone t ?k = Some z1" "c_bank t = b2" using k by (simp_all add: t t2)
  with z T hzu fr sup l' vs show ?thesis
    by (intro exI [of _ z] exI [of _ z1] exI [of _ T]) (simp add: z1)
qed

definition settle_args :: UndelegateCallback where
  "settle_args = \<lparr>ucb_HostZoneId = ''GAIA'', ucb_SplitDelegations = [\<lparr>sd_Validator = ''v1'', sd_Amount = 400\<rparr>,
     \<lparr>sd_Validator = ''v2'', sd_Amount = 200\<rparr>], ucb_EpochUnbondingRecordIds = [3]\<rparr>"

definition settle_chain :: chain where
  "settle_chain = unbonding_chain\<lparr>c_bank := \<lparr>bk_balance = (\<lambda>a d. if a = ''zzzzzzzzzzzzzzzzzzzz'' \<and> d = ''stuatom'' then 1000 else 0),
     bk_supply = (\<lambda>d. 1000)\<rparr>\<rparr>"

lemma settle_chain_simps [simp]:
  "c_records settle_chain = c_records unbonding_chain" "GetHostZone settle_chain ''GAIA'' = Some unbonding_zone"
  "zones_wf settle_chain"
  using unbonding_chain_wf(2) by (simp_all add: settle_chain_def) (simp add: unbonding_chain_def unbonding_zone_def)

lemma settle_run:
  "\<exists>t. UndelegateCallback_ack demo_env AckResponseStatus_SUCCESS [Some 5000, Some 9000] settle_args settle_chain = (Ok (), t)"
proof -
  have u: "\<exists>z. undelegate_splits (ucb_SplitDelegations settle_args) unbonding_zone = Ok z \<and> hz_ChainId z = ''GAIA''"
    by (simp add: settle_args_def unbonding_zone_def AddDelegationToValidator_def demo_validator_def Int_Sub_eq fits_def)
  then obtain z where z: "undelegate_splits (ucb_SplitDelegations settle_args) unbonding_zone = Ok z" by blast
  have T: "GetLatestCompletionTime [Some 5000, Some 9000] = Ok 9000" by (simp add: GetLatestCompletionTime_def unset_time_def)
  obtain r where r: "GetEpochUnbondingRecord (c_records unbonding_chain) 3 = Some r" "eur_EpochNumber r = 3"
    by (simp add: unbonding_records unbondings.get_put)
  obtain u where u: "AddHostZoneToEpochUnbondingRecord (c_records unbonding_chain) 3 ''GAIA''
      (demo_hzu ''GAIA'' 600 UNBONDING_QUEUE\<lparr>hzu_UnbondingTime := ToUint64 (int64_wrap 9000)\<rparr>) = Some u"
    using AddHZU_Some [of "c_records unbonding_chain" 3 "''GAIA''"] by (auto simp: unbonding_queue)
  define s1 where "s1 = SetEpochUnbondingRecord u (c_records unbonding_chain)"
  have l: "for_acc (set_unbonding_time 9000 ''GAIA'') [3] 0 (c_records unbonding_chain) = (Ok 600, s1)"
  proof -
    have h: "GetHostZoneUnbondingByChainId (c_records unbonding_chain) 3 ''GAIA'' = Some (demo_hzu ''GAIA'' 600 UNBONDING_QUEUE)"
      by (simp add: unbonding_queue)
    have "Int_Add 0 (hzu_StTokenAmount (demo_hzu ''GAIA'' 600 UNBONDING_QUEUE)) = Ok 600"
      by (simp add: demo_hzu_def Int_Add_eq fits_def)
    then have "set_unbonding_time 9000 ''GAIA'' 3 0 (c_records unbonding_chain) = (Ok 600, s1)"
      unfolding set_unbonding_time_def go_bind_eq_Ok go_gets_eq go_found_eq go_lift_eq go_modify_eq go_ret_eq s1_def
      using r u h by (auto simp: go_bind_def go_modify_def go_ret_def)
    then show ?thesis by simp
  qed
  have some: "\<forall>e\<in>set [3]. GetHostZoneUnbondingByChainId s1 e ''GAIA'' \<noteq> None" and wf: "records_wf s1"
    using set_unbonding_times_Ok [OF l unbonding_chain_wf(1)] by (auto simp: unbonding_queue)
  obtain r3 s3 where e: "SetHostZoneUnbondings ''GAIA'' [3] EXIT_TRANSFER_QUEUE s1 = (r3, s3)" by fastforce
  have r3: "r3 = Ok ()" using SetHostZoneUnbondings_Ok_iff(1) [OF wf e some] by simp
  have p: "e_ParseCoin demo_env 600 d = ValidateDenom d" for d by (simp add: demo_env_def)
  have "\<exists>b. BurnTokens demo_env unbonding_zone 600 (SetHostZone z settle_chain\<lparr>c_records := s1\<rparr>) =
      (Ok (), (SetHostZone z settle_chain\<lparr>c_records := s1\<rparr>)\<lparr>c_bank := b\<rparr>)"
    using demo_denoms(2) demo_addresses(2) p
    by (simp add: BurnTokens_def unbonding_zone_def go_defs on_bank_def StAssetDenomFromHostZoneDenom_def NewCoins_single
        SendCoinsFromAccountToModule_def BurnCoins_def settle_chain_def SendCoins_single subUnlockedCoins_single
        demo_bank_env_def GetSupply_def fits_def bk_balance_move) (rule exI, rule refl)
  then obtain b where b: "BurnTokens demo_env unbonding_zone 600 (SetHostZone z settle_chain\<lparr>c_records := s1\<rparr>) =
      (Ok (), (SetHostZone z settle_chain\<lparr>c_records := s1\<rparr>)\<lparr>c_bank := b\<rparr>)" by blast
  have a: "ucb_HostZoneId settle_args = ''GAIA''" "ucb_EpochUnbondingRecordIds settle_args = [3]" by (simp_all add: settle_args_def)
  show ?thesis
    unfolding UndelegateCallback_ack_def UpdateDelegationBalances_def UpdateHostZoneUnbondings_def a Let_def
    using z T l b e r3 by (simp add: go_defs on_records_def del: for_acc.simps)
qed

theorem UndelegateCallback_settles_witness:
  "\<exists>t z. UndelegateCallback_ack demo_env AckResponseStatus_SUCCESS [Some 5000, Some 9000] settle_args settle_chain = (Ok (), t) \<and>
     GetHostZone t ''GAIA'' = Some z \<and> hz_StakedBal z = 100 \<and> bk_supply (c_bank t) ''stuatom'' = 400 \<and>
     GetHostZoneUnbondingByChainId (c_records t) 3 ''GAIA'' =
       Some (demo_hzu ''GAIA'' 600 EXIT_TRANSFER_QUEUE\<lparr>hzu_UnbondingTime := 9000\<rparr>)"
proof -
  obtain t where run: "UndelegateCallback_ack demo_env AckResponseStatus_SUCCESS [Some 5000, Some 9000] settle_args settle_chain = (Ok (), t)"
    using settle_run by blast
  have l: "\<forall>a d. 0 \<le> be_locked (e_bank demo_env) a d" by (simp add: demo_bank_env_def)
  have a: "ucb_HostZoneId settle_args = ''GAIA''" "ucb_EpochUnbondingRecordIds settle_args = [3]"
    "sum_list (map sd_Amount (ucb_SplitDelegations settle_args)) = 600" by (simp_all add: settle_args_def)
  have T: "GetLatestCompletionTime [Some 5000, Some 9000] = Ok 9000" by (simp add: GetLatestCompletionTime_def unset_time_def)
  have z: "hz_StakedBal unbonding_zone = 700" "hz_HostDenom unbonding_zone = ''uatom''"
    by (simp_all add: unbonding_zone_def demo_validator_def)
  have s: "bk_supply (c_bank settle_chain) d = 1000" "receipts_of (c_records unbonding_chain) ''GAIA'' 3 = 600" for d
    by (simp_all add: settle_chain_def receipts_of_def unbonding_queue) (simp add: demo_hzu_def)
  have w: "ToUint64 (int64_wrap 9000) = 9000" by (simp add: ToUint64_def ToUint64E_def is_int64_def)
  have wf: "records_wf (c_records settle_chain)" using unbonding_chain_wf(1) by simp
  obtain z' where "GetHostZone t ''GAIA'' = Some z'" "hz_StakedBal z' = 100" "bk_supply (c_bank t) ''stuatom'' = 400"
    "GetHostZoneUnbondingByChainId (c_records t) 3 ''GAIA'' = map_option (\<lambda>h. h\<lparr>hzu_UnbondingTime := 9000, hzu_Status := EXIT_TRANSFER_QUEUE\<rparr>)
       (GetHostZoneUnbondingByChainId (c_records unbonding_chain) 3 ''GAIA'')"
    using UndelegateCallback_settles [OF run wf settle_chain_simps(3) l] unfolding a T
    by (auto simp: z s w)
  with run show ?thesis by (simp add: unbonding_queue) (simp add: demo_hzu_def)
qed

section \<open>Rebalancing takes too much\<close>

text \<open>\<open>RebalanceValidators\<close> copies the entries of its list, so what a validator already gave up
  in an earlier round is not taken off its surplus: with two rounds a validator that is 10 over its
  target gives up 15 while one that is 5 over keeps its 5.\<close>

lemma rebalance_overshoots:
  "rebalance_loop ''uatom'' [(-10, ''a''), (-5, ''b''), (7, ''c''), (8, ''d'')] 2 3 0 [] =
     Ok [\<lparr>rb_SrcValidator = ''a'', rb_DstValidator = ''d'', rb_Amt = 8\<rparr>,
         \<lparr>rb_SrcValidator = ''a'', rb_DstValidator = ''c'', rb_Amt = 7\<rparr>]"
  by (simp add: numeral_2_eq_2 slice_at_def NewCoin_def ValidateDenom_def denom_letter_def denom_char_def)

end
