(* ===== verification/Acknowledgements.thy ===== *)
theory Acknowledgements
  imports Callbacks
begin

text \<open>
  From an IBC packet's acknowledgement or timeout to the callback stored for it:
  \<open>x/icacallbacks\<close> (\<open>icacallbacks.go\<close>, \<open>keeper/keeper.go\<close>), the handlers that
  \<open>x/stakeibc\<close> and \<open>x/records\<close> register (\<open>keeper/icacallbacks.go\<close>,
  \<open>keeper/callbacks.go\<close>, \<open>app.go\<close>), and the IBC entry points of both modules
  (\<open>module_ibc.go\<close>).

  Decoding the acknowledgement, the ICS-27 responses and the packet, the module that owns a channel
  and the wrapped transfer application are parameters (\<open>ack_env\<close>). A callback's arguments are
  stored typed; arguments of another callback are an unmarshalling failure.
\<close>

section \<open>Data\<close>

record Packet =
  pk_SourcePort :: string
  pk_SourceChannel :: string
  pk_Sequence :: uint64
  pk_Data :: string

datatype Acknowledgement = Acknowledgement_Result string | Acknowledgement_Error string | Acknowledgement_unset

record TxMsgData =
  tmd_Data :: "string list"
  tmd_MsgResponses :: "string list"

record AcknowledgementResponse =
  ar_Status :: AckResponseStatus
  ar_MsgResponses :: "string list"

record ack_env =
  ae_DecodeAcknowledgement :: "string \<Rightarrow> Acknowledgement option"
  ae_DecodeTxMsgData :: "string \<Rightarrow> TxMsgData option"
  ae_DecodeCompletionTime :: "string \<Rightarrow> int option"
  ae_DecodeTransferData :: "string \<Rightarrow> bool"
  ae_LookupModuleByChannel :: "string \<Rightarrow> string \<Rightarrow> string option"
  ae_AppOnAcknowledgement :: "Packet \<Rightarrow> string \<Rightarrow> (bank, unit) go"
  ae_AppOnTimeout :: "Packet \<Rightarrow> (bank, unit) go"

section \<open>Unpacking an acknowledgement\<close>

definition ParseTxMsgData :: "ack_env \<Rightarrow> string \<Rightarrow> string list res" where
  "ParseTxMsgData ae acknowledgementResult =
     (case ae_DecodeTxMsgData ae acknowledgementResult of
        None \<Rightarrow> Err (Sdk ErrUnknownRequest)
      | Some txMsgData \<Rightarrow>
          if tmd_Data txMsgData = [] then Ok (tmd_MsgResponses txMsgData) else Ok (tmd_Data txMsgData))"

definition UnpackAcknowledgementResponse :: "ack_env \<Rightarrow> string \<Rightarrow> bool \<Rightarrow> AcknowledgementResponse res" where
  "UnpackAcknowledgementResponse ae ack isICA =
     (case ae_DecodeAcknowledgement ae ack of
        None \<Rightarrow> Err (Sdk ErrUnknownRequest)
      | Some (Acknowledgement_Result result) \<Rightarrow>
          if result = [] then Err Plain
          else if \<not> isICA then Ok \<lparr>ar_Status = AckResponseStatus_SUCCESS, ar_MsgResponses = []\<rparr>
          else (case ParseTxMsgData ae result of
              Ok msgResponses \<Rightarrow> Ok \<lparr>ar_Status = AckResponseStatus_SUCCESS, ar_MsgResponses = msgResponses\<rparr>
            | Err _ \<Rightarrow> Err (Sdk ErrUnknownRequest)
            | Panic \<Rightarrow> Panic)
      | Some (Acknowledgement_Error _) \<Rightarrow> Ok \<lparr>ar_Status = AckResponseStatus_FAILURE, ar_MsgResponses = []\<rparr>
      | Some Acknowledgement_unset \<Rightarrow> Err Plain)"

section \<open>The registered handlers\<close>

datatype ICACallbackHandler = StakeibcICACallbacks | RecordsICACallbacks

definition GetICACallbackHandler :: "string \<Rightarrow> ICACallbackHandler res" where
  "GetICACallbackHandler moduleName =
     (if moduleName = ''icacontroller'' then Ok StakeibcICACallbacks
      else if moduleName = ''transfer'' then Ok RecordsICACallbacks
      else Err Plain)"

fun HasICACallback :: "ICACallbackHandler \<Rightarrow> string \<Rightarrow> bool" where
  "HasICACallback StakeibcICACallbacks i \<longleftrightarrow>
     i \<in> set [''delegate'', ''claim'', ''undelegate'', ''reinvest'', ''redemption'', ''rebalance'']"
| "HasICACallback RecordsICACallbacks i \<longleftrightarrow> i = ''transfer''"

definition unmarshal_failure :: "(chain, unit) go" where
  "unmarshal_failure = go_fail (StakeIBCErr ErrUnmarshalFailure)"

definition stakeibc_CallICACallback ::
  "env \<Rightarrow> ack_env \<Rightarrow> string \<Rightarrow> AcknowledgementResponse \<Rightarrow> CallbackArgs \<Rightarrow> (chain, unit) go" where
  "stakeibc_CallICACallback env ae i ackResponse args =
     (let status = ar_Status ackResponse in
      if i = ''delegate'' then (case args of DelegateArgs a \<Rightarrow> DelegateCallback_ack status a | _ \<Rightarrow> unmarshal_failure)
      else if i = ''claim'' then (case args of ClaimArgs a \<Rightarrow> on_records (ClaimCallback_ack status a) | _ \<Rightarrow> unmarshal_failure)
      else if i = ''undelegate'' then (case args of UndelegateArgs a \<Rightarrow>
          UndelegateCallback_ack env status (map (ae_DecodeCompletionTime ae) (ar_MsgResponses ackResponse)) a
        | _ \<Rightarrow> unmarshal_failure)
      else if i = ''reinvest'' then (case args of ReinvestArgs a \<Rightarrow> ReinvestCallback_ack env status a | _ \<Rightarrow> unmarshal_failure)
      else if i = ''redemption'' then (case args of RedemptionArgs a \<Rightarrow> RedemptionCallback_ack status a | _ \<Rightarrow> unmarshal_failure)
      else if i = ''rebalance'' then (case args of RebalanceArgs a \<Rightarrow> RebalanceCallback_ack status a | _ \<Rightarrow> unmarshal_failure)
      else go_panic)"

definition records_CallICACallback ::
  "ack_env \<Rightarrow> string \<Rightarrow> Packet \<Rightarrow> AcknowledgementResponse \<Rightarrow> CallbackArgs \<Rightarrow> (chain, unit) go" where
  "records_CallICACallback ae i packet ackResponse args =
     (if i = ''transfer'' then
        on_records (TransferCallback (case args of TransferArgs depositRecordId \<Rightarrow> Ok depositRecordId | _ \<Rightarrow> Err Plain)
          (ae_DecodeTransferData ae (pk_Data packet)) (ar_Status ackResponse))
      else go_panic)"

fun CallICACallback ::
  "env \<Rightarrow> ack_env \<Rightarrow> ICACallbackHandler \<Rightarrow> string \<Rightarrow> Packet \<Rightarrow> AcknowledgementResponse \<Rightarrow> CallbackArgs \<Rightarrow> (chain, unit) go" where
  "CallICACallback env ae StakeibcICACallbacks i packet ackResponse args = stakeibc_CallICACallback env ae i ackResponse args"
| "CallICACallback env ae RecordsICACallbacks i packet ackResponse args = records_CallICACallback ae i packet ackResponse args"

section \<open>Calling the registered callback\<close>

definition GetCallbackDataFromPacket :: "chain \<Rightarrow> Packet \<Rightarrow> string \<Rightarrow> CallbackData option" where
  "GetCallbackDataFromPacket c modulePacket callbackDataKey = GetCallbackData c callbackDataKey"

definition GetICACallbackHandlerFromPacket :: "ack_env \<Rightarrow> Packet \<Rightarrow> ICACallbackHandler res" where
  "GetICACallbackHandlerFromPacket ae modulePacket =
     (case ae_LookupModuleByChannel ae (pk_SourcePort modulePacket) (pk_SourceChannel modulePacket) of
        None \<Rightarrow> Err Plain
      | Some moduleName \<Rightarrow>
          (case GetICACallbackHandler moduleName of
             Ok callbackHandler \<Rightarrow> Ok callbackHandler
           | _ \<Rightarrow> Err (IcaCallbacksErr ErrCallbackHandlerNotFound)))"

definition packet_key :: "Packet \<Rightarrow> string" where
  "packet_key p = PacketID (pk_SourcePort p) (pk_SourceChannel p) (pk_Sequence p)"

definition CallRegisteredICACallback ::
  "env \<Rightarrow> ack_env \<Rightarrow> Packet \<Rightarrow> AcknowledgementResponse \<Rightarrow> (chain, unit) go" where
  "CallRegisteredICACallback env ae modulePacket ackResponse =
     (let callbackDataKey = packet_key modulePacket in
     go_bind (go_gets (\<lambda>c. GetCallbackDataFromPacket c modulePacket callbackDataKey)) (\<lambda>found.
     case found of
       None \<Rightarrow> go_ret ()
     | Some callbackData \<Rightarrow>
         go_bind (go_lift (GetICACallbackHandlerFromPacket ae modulePacket)) (\<lambda>callbackHandler.
         go_bind (if HasICACallback callbackHandler (cb_CallbackId callbackData)
             then go_wrap (IcaCallbacksErr ErrCallbackFailed)
               (CallICACallback env ae callbackHandler (cb_CallbackId callbackData) modulePacket ackResponse
                 (cb_CallbackArgs callbackData))
             else go_ret ()) (\<lambda>_.
         go_modify (RemoveCallbackData callbackDataKey)))))"

section \<open>The IBC entry points\<close>

definition stakeibc_OnAcknowledgementPacket :: "env \<Rightarrow> ack_env \<Rightarrow> Packet \<Rightarrow> string \<Rightarrow> (chain, unit) go" where
  "stakeibc_OnAcknowledgementPacket env ae modulePacket acknowledgement =
     go_bind (go_wrap (IcaCallbacksErr ErrInvalidAcknowledgement)
       (go_lift (UnpackAcknowledgementResponse ae acknowledgement True))) (\<lambda>ackResponse.
     go_wrap (IcaCallbacksErr ErrCallbackFailed) (CallRegisteredICACallback env ae modulePacket ackResponse))"

definition timeout_response :: AcknowledgementResponse where
  "timeout_response = \<lparr>ar_Status = AckResponseStatus_TIMEOUT, ar_MsgResponses = []\<rparr>"

definition stakeibc_OnTimeoutPacket :: "env \<Rightarrow> ack_env \<Rightarrow> Packet \<Rightarrow> (chain, unit) go" where
  "stakeibc_OnTimeoutPacket env ae modulePacket = CallRegisteredICACallback env ae modulePacket timeout_response"

definition records_OnAcknowledgementPacket :: "env \<Rightarrow> ack_env \<Rightarrow> Packet \<Rightarrow> string \<Rightarrow> (chain, unit) go" where
  "records_OnAcknowledgementPacket env ae packet acknowledgement =
     go_bind (go_wrap (IcaCallbacksErr ErrInvalidAcknowledgement)
       (go_lift (UnpackAcknowledgementResponse ae acknowledgement False))) (\<lambda>ackResponse.
     go_bind (go_wrap (IcaCallbacksErr ErrCallbackFailed) (CallRegisteredICACallback env ae packet ackResponse)) (\<lambda>_.
     on_bank (ae_AppOnAcknowledgement ae packet acknowledgement)))"

definition records_OnTimeoutPacket :: "env \<Rightarrow> ack_env \<Rightarrow> Packet \<Rightarrow> (chain, unit) go" where
  "records_OnTimeoutPacket env ae packet =
     go_bind (CallRegisteredICACallback env ae packet timeout_response) (\<lambda>_.
     on_bank (ae_AppOnTimeout ae packet))"

text \<open>\<open>GetConnectionId\<close>'s error is only logged; the empty connection id is used then.\<close>

definition set_ica_account :: "string \<Rightarrow> string \<Rightarrow> address \<Rightarrow> HostZone \<Rightarrow> HostZone" where
  "set_ica_account hostChainId portID address zoneInfo =
     (let port = (\<lambda>ty. ''icacontroller-'' @ FormatICAAccountOwner hostChainId ty);
          account = (\<lambda>ty. Some \<lparr>ica_Address = address, ica_Target = ty\<rparr>) in
      if portID = port ICAAccountType_WITHDRAWAL then zoneInfo\<lparr>hz_WithdrawalAccount := account ICAAccountType_WITHDRAWAL\<rparr>
      else if portID = port ICAAccountType_FEE then zoneInfo\<lparr>hz_FeeAccount := account ICAAccountType_FEE\<rparr>
      else if portID = port ICAAccountType_DELEGATION then zoneInfo\<lparr>hz_DelegationAccount := account ICAAccountType_DELEGATION\<rparr>
      else if portID = port ICAAccountType_REDEMPTION then zoneInfo\<lparr>hz_RedemptionAccount := account ICAAccountType_REDEMPTION\<rparr>
      else zoneInfo)"

definition stakeibc_OnChanOpenAck :: "env \<Rightarrow> string \<Rightarrow> (chain, unit) go" where
  "stakeibc_OnChanOpenAck env portID =
     (let controllerConnectionId = (case GetConnectionId env portID of Ok i \<Rightarrow> i | _ \<Rightarrow> '''') in
     case e_GetInterchainAccountAddress env controllerConnectionId portID of
       None \<Rightarrow> go_ret ()
     | Some address \<Rightarrow>
         (case GetChainID env controllerConnectionId of
            Ok hostChainId \<Rightarrow>
              go_bind (go_gets (\<lambda>c. GetHostZone c hostChainId)) (\<lambda>found.
              case found of
                None \<Rightarrow> go_ret ()
              | Some zoneInfo \<Rightarrow> go_modify (SetHostZone (set_ica_account hostChainId portID address zoneInfo)))
          | _ \<Rightarrow> go_ret ()))"

section \<open>What the callbacks leave alone\<close>

lemma keeps_on_records_sub [keeps_intros]: "keeps P m \<Longrightarrow> keeps (\<lambda>c. P (c_records c)) (on_records m)"
  unfolding keeps_def on_records_def by (auto split: prod.splits)

lemma keeps_status [keeps_intros]:
  "keeps I m1 \<Longrightarrow> keeps I m2 \<Longrightarrow> keeps I m3 \<Longrightarrow>
     keeps I (case st of AckResponseStatus_SUCCESS \<Rightarrow> m1 | AckResponseStatus_TIMEOUT \<Rightarrow> m2 | AckResponseStatus_FAILURE \<Rightarrow> m3)"
  by (cases st) auto

lemma SetQuery_frame [simp]:
  "c_callbacks (SetQuery q c) = c_callbacks c" "c_records (SetQuery q c) = c_records c"
  "c_hostZones (SetQuery q c) = c_hostZones c" "c_bank (SetQuery q c) = c_bank c" "c_outbox (SetQuery q c) = c_outbox c"
  by (simp_all add: SetQuery_def)

lemmas callback_defs = DelegateCallback_ack_def delegate_split_def UndelegateCallback_ack_def UpdateDelegationBalances_def
  BurnTokens_def RedemptionCallback_ack_def ReinvestCallback_ack_def MakeRequest_def RebalanceCallback_ack_def

lemma callbacks_keep_callbacks:
  "keeps (\<lambda>c. c_callbacks c = m) (DelegateCallback_ack st a1)"
  "keeps (\<lambda>c. c_callbacks c = m) (UndelegateCallback_ack env st rs a2)"
  "keeps (\<lambda>c. c_callbacks c = m) (RedemptionCallback_ack st a3)"
  "keeps (\<lambda>c. c_callbacks c = m) (ReinvestCallback_ack env st a4)"
  "keeps (\<lambda>c. c_callbacks c = m) (RebalanceCallback_ack st a5)"
  unfolding callback_defs Let_def by (intro keeps_intros; simp)+

lemma stakeibc_callback_keeps_callbacks: "keeps (\<lambda>c. c_callbacks c = m) (stakeibc_CallICACallback env ae i ar args)"
  unfolding stakeibc_CallICACallback_def Let_def unmarshal_failure_def
  by (cases args; simp only: CallbackArgs.case;
      intro keeps_if keeps_basic keeps_on_records callbacks_keep_callbacks; simp)

lemma records_callback_keeps_callbacks: "keeps (\<lambda>c. c_callbacks c = m) (records_CallICACallback ae i p ar args)"
  unfolding records_CallICACallback_def by (intro keeps_intros; simp)

lemma CallICACallback_keeps_callbacks: "keeps (\<lambda>c. c_callbacks c = m) (CallICACallback env ae h i p ar args)"
  by (cases h) (simp_all add: stakeibc_callback_keeps_callbacks records_callback_keeps_callbacks)

section \<open>A callback runs once\<close>

lemma CallRegistered_callbacks:
  assumes "CallRegisteredICACallback env ae p ar c = (r, t)"
  shows "GetCallbackData t k = (if r = Ok () \<and> k = packet_key p then None else GetCallbackData c k)"
proof (cases "GetCallbackData c (packet_key p)")
  case None
  with assms show ?thesis by (auto simp: CallRegisteredICACallback_def go_defs Let_def GetCallbackDataFromPacket_def)
next
  case (Some d)
  have kept: "GetCallbackData u k = GetCallbackData c k"
    if "CallICACallback env ae h (cb_CallbackId d) p ar (cb_CallbackArgs d) c = (q, u)" for h q u k
    using keepsD [OF CallICACallback_keeps_callbacks that] by (simp add: GetCallbackData_def)
  show ?thesis
    using assms Some
    by (cases r) (auto simp: CallRegisteredICACallback_def go_simps Let_def GetCallbackDataFromPacket_def split: if_splits dest: kept)
qed

lemma CallRegistered_none:
  "GetCallbackData c (packet_key p) = None \<Longrightarrow> CallRegisteredICACallback env ae p ar c = (Ok (), c)"
  by (simp add: CallRegisteredICACallback_def GetCallbackDataFromPacket_def go_defs Let_def)

text \<open>Property C14. An acknowledgement is acted on once. When handling it succeeds, the callback
  stored for the packet is gone, and handling any acknowledgement or the timeout of the same packet
  afterwards changes nothing. When handling it fails, every stored callback is still there, so the
  packet can be relayed again. Callbacks of other packets are never touched.\<close>

theorem acknowledged_once:
  assumes "stakeibc_OnAcknowledgementPacket env ae p ack c = (r, t)"
  shows "(\<forall>k. k \<noteq> packet_key p \<longrightarrow> GetCallbackData t k = GetCallbackData c k) \<and>
    (r \<noteq> Ok () \<longrightarrow> GetCallbackData t (packet_key p) = GetCallbackData c (packet_key p)) \<and>
    (r = Ok () \<longrightarrow> GetCallbackData t (packet_key p) = None \<and>
       (\<forall>env' ae' ack'. snd (stakeibc_OnAcknowledgementPacket env' ae' p ack' t) = t \<and>
          stakeibc_OnTimeoutPacket env' ae' p t = (Ok (), t)))"
proof -
  have get: "GetCallbackData t k = (if r = Ok () \<and> k = packet_key p then None else GetCallbackData c k)" for k
    using assms
    by (cases r) (auto simp: stakeibc_OnAcknowledgementPacket_def go_simps dest!: CallRegistered_callbacks [where k = k])
  have "snd (stakeibc_OnAcknowledgementPacket env' ae' p ack' t) = t \<and> stakeibc_OnTimeoutPacket env' ae' p t = (Ok (), t)"
    if "r = Ok ()" for env' ae' ack'
    using CallRegistered_none [of t p env' ae'] get that
    by (auto simp: stakeibc_OnAcknowledgementPacket_def stakeibc_OnTimeoutPacket_def go_defs split: res.splits)
  with get show ?thesis by simp
qed

section \<open>Claims in flight\<close>

definition claim_of :: "CallbackData \<Rightarrow> string option" where
  "claim_of d = (case cb_CallbackArgs d of ClaimArgs a \<Rightarrow> Some (ccb_UserRedemptionRecordId a) | _ \<Rightarrow> None)"

definition claims_in_flight :: "chain \<Rightarrow> string \<Rightarrow> string set" where
  "claims_in_flight c i = {k. \<exists>d. GetCallbackData c k = Some d \<and> claim_of d = Some i}"

definition claim_pending :: "chain \<Rightarrow> string \<Rightarrow> bool" where
  "claim_pending c i \<longleftrightarrow> (\<exists>r. GetUserRedemptionRecord (c_records c) i = Some r \<and> urr_ClaimIsPending r)"

text \<open>What the code relies on of IBC: a channel never gives out a sequence number twice, so the
  packet of a new transaction has no callback yet; the ports of interchain accounts belong to the
  ICA controller.\<close>

definition fresh_sequences :: "env \<Rightarrow> chain \<Rightarrow> bool" where
  "fresh_sequences env c \<longleftrightarrow> (\<forall>msg seq ch. e_SendTx env (c_outbox c) msg = Ok seq \<longrightarrow>
     e_GetActiveChannelID env (tx_ConnectionId msg) (''icacontroller-'' @ tx_Owner msg) = Some ch \<longrightarrow>
     GetCallbackData c (PacketID (''icacontroller-'' @ tx_Owner msg) ch seq) = None)"

definition controller_ports :: "ack_env \<Rightarrow> bool" where
  "controller_ports ae \<longleftrightarrow> (\<forall>p ch m. take 14 p = ''icacontroller-'' \<longrightarrow>
     ae_LookupModuleByChannel ae p ch = Some m \<longrightarrow> m = ''icacontroller'')"

text \<open>The steps that create, claim and settle redemption records, and every other interchain account
  transaction. A message or packet whose handler fails is rolled back, so only successful ones are
  steps; a hook keeps what it sent, so a submission is a step whatever it returns. Blocks differ in
  what the parameters answer.\<close>

inductive claim_step :: "chain \<Rightarrow> chain \<Rightarrow> bool" where
  redeem: "RedeemStake env msg c = (Ok (), t) \<Longrightarrow> claim_step c t"
| claim: "ClaimUndelegatedTokens env msg c = (Ok (), t) \<Longrightarrow> fresh_sequences env c \<Longrightarrow> claim_step c t"
| submit: "SubmitTxs env conn msgs acc tmo cbId args c = (r, t) \<Longrightarrow> fresh_sequences env c \<Longrightarrow>
     \<forall>a. args \<noteq> Some (ClaimArgs a) \<Longrightarrow> claim_step c t"
| ack: "stakeibc_OnAcknowledgementPacket env ae p ackBz c = (Ok (), t) \<Longrightarrow> controller_ports ae \<Longrightarrow> claim_step c t"
| timeout: "stakeibc_OnTimeoutPacket env ae p c = (Ok (), t) \<Longrightarrow> controller_ports ae \<Longrightarrow> claim_step c t"

definition claims_ok :: "chain \<Rightarrow> bool" where
  "claims_ok c \<longleftrightarrow> records_wf (c_records c) \<and>
     (\<forall>k d i. GetCallbackData c k = Some d \<longrightarrow> claim_of d = Some i \<longrightarrow>
        cb_CallbackId d = ''claim'' \<and> take 14 k = ''icacontroller-'') \<and>
     (\<forall>i. (claims_in_flight c i \<noteq> {} \<longleftrightarrow> claim_pending c i) \<and> (\<exists>k. claims_in_flight c i \<subseteq> {k}))"

lemma claim_pending_cong:
  "GetUserRedemptionRecord (c_records t) = GetUserRedemptionRecord (c_records c) \<Longrightarrow> claim_pending t = claim_pending c"
  by (simp add: claim_pending_def fun_eq_iff)

lemma claims_in_flight_cong: "GetCallbackData t = GetCallbackData c \<Longrightarrow> claims_in_flight t = claims_in_flight c"
  by (simp add: claims_in_flight_def fun_eq_iff)

lemma claims_ok_cong:
  assumes "claims_ok c" "records_wf (c_records t)" "GetCallbackData t = GetCallbackData c" "claim_pending t = claim_pending c"
  shows "claims_ok t"
  using assms claims_in_flight_cong [OF assms(3)] by (simp add: claims_ok_def)

lemma PacketID_controller: "take 14 (PacketID p ch n) = ''icacontroller-'' \<longleftrightarrow> take 14 p = ''icacontroller-''"
proof
  assume a: "take 14 (PacketID p ch n) = ''icacontroller-''"
  have "14 \<le> length p"
  proof (rule ccontr)
    assume "\<not> 14 \<le> length p"
    then have x: "take 14 (PacketID p ch n) ! length p = CHR ''.''" and l: "length p < length (take 14 (PacketID p ch n))"
      by (simp_all add: PacketID_def nth_append)
    have "CHR ''.'' \<in> set (take 14 (PacketID p ch n))" using nth_mem [OF l] unfolding x .
    then show False by (simp add: a)
  qed
  with a show "take 14 p = ''icacontroller-''" by (simp add: PacketID_def)
next
  assume a: "take 14 p = ''icacontroller-''"
  then have "length (take 14 p) = 14" by simp
  then have "14 \<le> length p" by simp
  with a show "take 14 (PacketID p ch n) = ''icacontroller-''" by (simp add: PacketID_def)
qed

text \<open>Storing the callback of a new packet that carries no claim.\<close>

lemma claims_ok_other_callback:
  assumes "claims_ok c" "GetCallbackData c (cb_CallbackKey d) = None" "claim_of d = None"
  shows "claims_ok (SetCallbackData d c)"
proof -
  have "claims_in_flight (SetCallbackData d c) i = claims_in_flight c i" for i
    using assms(2,3) by (auto simp: claims_in_flight_def)
  moreover have "claim_pending (SetCallbackData d c) = claim_pending c" by (rule claim_pending_cong) simp
  ultimately show ?thesis using assms by (auto simp: claims_ok_def split: if_splits)
qed

lemma claims_ok_outbox [simp]: "claims_ok (c\<lparr>c_outbox := ob\<rparr>) = claims_ok c"
  by (simp add: claims_ok_def claims_in_flight_def claim_pending_def GetCallbackData_def)

lemma SubmitTxs_OkE:
  assumes "SubmitTxs env conn msgs acc tmo cbId args c = (Ok seq, t)"
  obtains msg channelID where "e_GetActiveChannelID env (tx_ConnectionId msg) (''icacontroller-'' @ tx_Owner msg) = Some channelID"
    "e_SendTx env (c_outbox c) msg = Ok seq" "tx_Msgs msg = msgs"
    "t = (if cbId \<noteq> '''' \<and> args \<noteq> None
        then SetCallbackData \<lparr>cb_CallbackKey = PacketID (''icacontroller-'' @ tx_Owner msg) channelID seq,
          cb_PortId = ''icacontroller-'' @ tx_Owner msg, cb_ChannelId = channelID, cb_Sequence = seq, cb_CallbackId = cbId,
          cb_CallbackArgs = the args\<rparr> (c\<lparr>c_outbox := c_outbox c @ [msg]\<rparr>) else c\<lparr>c_outbox := c_outbox c @ [msg]\<rparr>)"
proof -
  obtain chainId portID channelID msg where m: "portID = ''icacontroller-'' @ tx_Owner msg"
    "msg = \<lparr>tx_Owner = FormatICAAccountOwner chainId (ica_Target acc), tx_ConnectionId = conn,
      tx_RelativeTimeout = tmo, tx_Msgs = msgs\<rparr>"
    and r: "e_GetActiveChannelID env conn portID = Some channelID" "e_SendTx env (c_outbox c) msg = Ok seq"
      "t = (let c' = c\<lparr>c_outbox := c_outbox c @ [msg]\<rparr> in
        if cbId \<noteq> '''' \<and> args \<noteq> None
        then SetCallbackData \<lparr>cb_CallbackKey = PacketID portID channelID seq, cb_PortId = portID,
          cb_ChannelId = channelID, cb_Sequence = seq, cb_CallbackId = cbId, cb_CallbackArgs = the args\<rparr> c'
        else c')"
    using SubmitTxs_Ok [OF assms] by blast
  have "tx_ConnectionId msg = conn" "tx_Msgs msg = msgs" by (simp_all add: m(2))
  with r show thesis unfolding m(1) Let_def by (intro that) simp_all
qed

lemma claims_ok_submit:
  assumes "claims_ok c" "SubmitTxs env conn msgs acc tmo cbId args c = (r, t)" "fresh_sequences env c"
    "\<forall>a. args \<noteq> Some (ClaimArgs a)"
  shows "claims_ok t"
proof (cases r)
  case (Ok seq)
  obtain msg channelID where
    m: "e_GetActiveChannelID env (tx_ConnectionId msg) (''icacontroller-'' @ tx_Owner msg) = Some channelID"
      "e_SendTx env (c_outbox c) msg = Ok seq"
      "t = (if cbId \<noteq> '''' \<and> args \<noteq> None
        then SetCallbackData \<lparr>cb_CallbackKey = PacketID (''icacontroller-'' @ tx_Owner msg) channelID seq,
          cb_PortId = ''icacontroller-'' @ tx_Owner msg, cb_ChannelId = channelID, cb_Sequence = seq, cb_CallbackId = cbId,
          cb_CallbackArgs = the args\<rparr> (c\<lparr>c_outbox := c_outbox c @ [msg]\<rparr>) else c\<lparr>c_outbox := c_outbox c @ [msg]\<rparr>)"
    by (rule SubmitTxs_OkE [OF assms(2) [unfolded Ok]])
  have "GetCallbackData c (PacketID (''icacontroller-'' @ tx_Owner msg) channelID seq) = None"
    using assms(3) m(1,2) by (auto simp: fresh_sequences_def)
  moreover have "claim_of d = None" if "cb_CallbackArgs d = the args" "args \<noteq> None" for d
    using that assms(4) by (auto simp: claim_of_def split: CallbackArgs.splits)
  ultimately show ?thesis
    using assms(1) m(3) by (auto intro!: claims_ok_other_callback simp: GetCallbackData_def)
qed (use assms in \<open>auto dest: SubmitTxs_Err SubmitTxs_Panic\<close>)

lemma claims_ok_redeem:
  assumes "claims_ok c" "RedeemStake env msg c = (Ok (), t)"
  shows "claims_ok t"
  using assms(2)
proof (rule RedeemStake_Ok)
  fix sender z tr zaddr r h r' native coins b
  let ?rec = "redemption_record env z (et_EpochNumber tr) sender msg native"
  assume new: "GetUserRedemptionRecord (c_records c) (urr_Id ?rec) = None"
    and rec: "c_records t = SetEpochUnbondingRecord r' (SetUserRedemptionRecord ?rec (c_records c))"
    and t: "t = c\<lparr>c_bank := b, c_records := c_records t\<rparr>"
  have "records_wf (c_records c)" using assms(1) by (simp add: claims_ok_def)
  then have "records_wf (c_records t)" by (simp add: rec unbondings.wf_put redemptions.wf_put)
  moreover have "claim_pending t = claim_pending c"
    using new by (auto simp: claim_pending_def fun_eq_iff rec redemptions.get_put redemption_record_def)
  moreover have "GetCallbackData t = GetCallbackData c"
    using arg_cong [OF t, of c_callbacks] by (simp add: fun_eq_iff GetCallbackData_def)
  ultimately show ?thesis using claims_ok_cong [OF assms(1)] by blast
qed

lemma GetClaimable_Ok:
  assumes "GetClaimableRedemptionRecord s msg = Ok r"
  shows "GetUserRedemptionRecord s (UserRedemptionRecordKeyFormatter (mct_HostZoneId msg) (mct_Epoch msg) (mct_Sender msg)) = Some r"
    "\<not> urr_ClaimIsPending r"
    "\<exists>h. GetHostZoneUnbondingByChainId s (urr_EpochNumber r) (mct_HostZoneId msg) = Some h \<and> hzu_Status h = CLAIMABLE"
  using assms by (auto simp: GetClaimableRedemptionRecord_def split: option.splits if_splits)

lemma ClaimUndelegatedTokens_OkE:
  assumes "ClaimUndelegatedTokens env msg c = (Ok (), t)"
  obtains r tx seq c1 where "GetClaimableRedemptionRecord (c_records c) msg = Ok r"
    "GetRedemptionTransferMsg env c r (mct_HostZoneId msg) = Ok tx"
    "SubmitTxs env (itx_ConnectionId tx) (itx_Msgs tx) (itx_Account tx) (itx_Timeout tx) ''claim''
       (Some (ClaimArgs \<lparr>ccb_UserRedemptionRecordId = urr_Id r, ccb_ChainId = mct_HostZoneId msg,
          ccb_EpochNumber = mct_Epoch msg\<rparr>)) c = (Ok seq, c1)"
    "t = mod_records (SetUserRedemptionRecord (r\<lparr>urr_ClaimIsPending := True\<rparr>)) c1"
  using assms by (clarsimp simp: ClaimUndelegatedTokens_def go_simps split: option.splits if_splits)

lemma claims_ok_claim:
  assumes ok: "claims_ok c" and run: "ClaimUndelegatedTokens env msg c = (Ok (), t)" and fresh: "fresh_sequences env c"
  shows "claims_ok t"
  using run
proof (rule ClaimUndelegatedTokens_OkE)
  fix r :: UserRedemptionRecord and tx :: IcaTx and seq c1
  let ?args = "ClaimArgs \<lparr>ccb_UserRedemptionRecordId = urr_Id r, ccb_ChainId = mct_HostZoneId msg, ccb_EpochNumber = mct_Epoch msg\<rparr>"
  assume r: "GetClaimableRedemptionRecord (c_records c) msg = Ok r"
    and s: "SubmitTxs env (itx_ConnectionId tx) (itx_Msgs tx) (itx_Account tx) (itx_Timeout tx) ''claim'' (Some ?args) c = (Ok seq, c1)"
    and t: "t = mod_records (SetUserRedemptionRecord (r\<lparr>urr_ClaimIsPending := True\<rparr>)) c1"
  have wf: "records_wf (c_records c)" using ok by (simp add: claims_ok_def)
  have id: "GetUserRedemptionRecord (c_records c) (urr_Id r) = Some r"
    using GetClaimable_Ok(1) [OF r] redemptions.get_key [OF wf GetClaimable_Ok(1) [OF r]] by simp
  have idle: "\<not> claim_pending c (urr_Id r)" using id GetClaimable_Ok(2) [OF r] by (simp add: claim_pending_def)
  obtain tmsg ch where
    m: "e_GetActiveChannelID env (tx_ConnectionId tmsg) (''icacontroller-'' @ tx_Owner tmsg) = Some ch"
      "e_SendTx env (c_outbox c) tmsg = Ok seq"
      "c1 = SetCallbackData \<lparr>cb_CallbackKey = PacketID (''icacontroller-'' @ tx_Owner tmsg) ch seq,
          cb_PortId = ''icacontroller-'' @ tx_Owner tmsg, cb_ChannelId = ch, cb_Sequence = seq, cb_CallbackId = ''claim'',
          cb_CallbackArgs = ?args\<rparr> (c\<lparr>c_outbox := c_outbox c @ [tmsg]\<rparr>)"
    using s by (rule SubmitTxs_OkE) simp
  define key where "key = PacketID (''icacontroller-'' @ tx_Owner tmsg) ch seq"
  have new: "GetCallbackData c key = None" using fresh m(1,2) by (auto simp: fresh_sequences_def key_def)
  have port: "take 14 key = ''icacontroller-''" by (simp add: key_def PacketID_controller)
  have data: "GetCallbackData t k = (if k = key then Some \<lparr>cb_CallbackKey = key,
          cb_PortId = ''icacontroller-'' @ tx_Owner tmsg, cb_ChannelId = ch, cb_Sequence = seq, cb_CallbackId = ''claim'',
          cb_CallbackArgs = ?args\<rparr> else GetCallbackData c k)" for k
    by (simp add: t m(3) key_def GetCallbackData_def SetCallbackData_def)
  have flight: "claims_in_flight t i = (if i = urr_Id r then insert key (claims_in_flight c i) else claims_in_flight c i)" for i
    using new by (auto simp: claims_in_flight_def data claim_of_def)
  have pending: "claim_pending t i = (i = urr_Id r \<or> claim_pending c i)" for i
    by (auto simp: claim_pending_def t m(3) redemptions.get_put)
  have "claims_in_flight c (urr_Id r) = {}" using ok idle by (auto simp: claims_ok_def)
  moreover have "records_wf (c_records t)" using wf by (simp add: t m(3) redemptions.wf_put)
  moreover have "cb_CallbackId d = ''claim'' \<and> take 14 k = ''icacontroller-''"
    if "GetCallbackData t k = Some d" "claim_of d = Some i" for k d i
    using that ok port by (auto simp: data claims_ok_def split: if_splits)
  ultimately show ?thesis using ok flight pending by (auto simp: claims_ok_def)
qed

section \<open>Settling a claim\<close>

lemmas keeps_flow = keeps_basic keeps_modify keeps_bind keeps_wrap keeps_try keeps_for_each keeps_for_acc keeps_if
  keeps_option keeps_res keeps_prod keeps_Let keeps_on_bank keeps_status keeps_on_records_sub

definition redemptions_are :: "(string \<Rightarrow> UserRedemptionRecord option) \<Rightarrow> records_state \<Rightarrow> bool" where
  "redemptions_are g s \<longleftrightarrow> GetUserRedemptionRecord s = g \<and> records_wf s"

lemma redemptions_are_frame [simp]:
  "redemptions_are g s \<Longrightarrow> redemptions_are g (SetDepositRecord d s)"
  "redemptions_are g s \<Longrightarrow> redemptions_are g (RemoveDepositRecord i s)"
  "redemptions_are g s \<Longrightarrow> redemptions_are g (SetEpochUnbondingRecord r s)"
  "redemptions_are g s \<Longrightarrow> redemptions_are g (SetDepositRecordCount n s)"
  by (auto simp: redemptions_are_def deposits.wf_put deposits.wf_del unbondings.wf_put)
    (simp_all add: SetDepositRecordCount_def RemoveDepositRecord_def records_wf_def GetUserRedemptionRecord_def fun_eq_iff)

lemma keeps_redemptions [keeps_intros]:
  "keeps (redemptions_are g) (SetHostZoneUnbondings k es st)"
  "keeps (redemptions_are g) (set_unbonding_time T k e b)"
  "keeps (redemptions_are g) (UpdateHostZoneUnbondings T k a)"
  "keeps (redemptions_are g) (AppendDepositRecord d)"
  "keeps (redemptions_are g) (TransferCallback q dec ar)"
  unfolding SetHostZoneUnbondings_def set_unbonding_time_def UpdateHostZoneUnbondings_def AppendDepositRecord_def TransferCallback_def
  by (intro keeps_flow; simp)+

lemma callbacks_keep_redemptions:
  "keeps (\<lambda>c. redemptions_are g (c_records c)) (DelegateCallback_ack st a1)"
  "keeps (\<lambda>c. redemptions_are g (c_records c)) (UndelegateCallback_ack env st rs a2)"
  "keeps (\<lambda>c. redemptions_are g (c_records c)) (RedemptionCallback_ack st a3)"
  "keeps (\<lambda>c. redemptions_are g (c_records c)) (ReinvestCallback_ack env st a4)"
  "keeps (\<lambda>c. redemptions_are g (c_records c)) (RebalanceCallback_ack st a5)"
  unfolding callback_defs Let_def by (intro keeps_flow keeps_redemptions; simp)+

lemma CallICACallback_keeps_redemptions:
  assumes "\<forall>a. args \<noteq> ClaimArgs a"
  shows "keeps (\<lambda>c. redemptions_are g (c_records c)) (CallICACallback env ae h i p ar args)"
proof (cases h)
  case StakeibcICACallbacks
  then show ?thesis
    using assms unfolding CallICACallback.simps stakeibc_CallICACallback_def Let_def unmarshal_failure_def
    by (cases args; simp only: CallbackArgs.case CallICACallback.simps stakeibc_CallICACallback_def Let_def unmarshal_failure_def;
        (intro keeps_if keeps_basic callbacks_keep_redemptions)?; blast?)
next
  case RecordsICACallbacks
  then show ?thesis
    by (simp only: CallICACallback.simps records_CallICACallback_def) (intro keeps_if keeps_basic keeps_on_records_sub keeps_redemptions)
qed

lemma CallRegistered_OkE:
  assumes "CallRegisteredICACallback env ae p ar c = (Ok (), t)" "GetCallbackData c (packet_key p) = Some d"
  obtains h u where "GetICACallbackHandlerFromPacket ae p = Ok h" "t = RemoveCallbackData (packet_key p) u"
    "if HasICACallback h (cb_CallbackId d) then CallICACallback env ae h (cb_CallbackId d) p ar (cb_CallbackArgs d) c = (Ok (), u) else u = c"
proof -
  from assms obtain h u where h: "GetICACallbackHandlerFromPacket ae p = Ok h" "t = RemoveCallbackData (packet_key p) u"
    and u: "(if HasICACallback h (cb_CallbackId d)
       then go_wrap (IcaCallbacksErr ErrCallbackFailed) (CallICACallback env ae h (cb_CallbackId d) p ar (cb_CallbackArgs d))
       else go_ret ()) c = (Ok (), u)"
    by (auto simp: CallRegisteredICACallback_def go_bind_eq_Ok go_gets_eq go_lift_eq go_modify_eq Let_def GetCallbackDataFromPacket_def)
  from u have "if HasICACallback h (cb_CallbackId d)
      then CallICACallback env ae h (cb_CallbackId d) p ar (cb_CallbackArgs d) c = (Ok (), u) else u = c"
    by (simp add: go_simps split: if_splits)
  with h show thesis by (rule that)
qed

lemma claim_callback_settles:
  assumes "ClaimCallback_ack st a s = (Ok (), s')" "records_wf s"
  shows "records_wf s' \<and> (\<exists>r. GetUserRedemptionRecord s (ccb_UserRedemptionRecordId a) = Some r \<and>
    GetUserRedemptionRecord s' = (GetUserRedemptionRecord s)(ccb_UserRedemptionRecordId a :=
      (if st = AckResponseStatus_SUCCESS then None else Some (r\<lparr>urr_ClaimIsPending := False\<rparr>))))"
proof -
  let ?i = "ccb_UserRedemptionRecordId a"
  obtain r where r: "GetUserRedemptionRecord s ?i = Some r"
    using assms(1) by (cases "GetUserRedemptionRecord s ?i") (auto simp: ClaimCallback_ack_def go_simps)
  have i: "urr_Id r = ?i" by (rule redemptions.get_key [OF assms(2) r])
  have set: "GetUserRedemptionRecord (SetUserRedemptionRecord (r\<lparr>urr_ClaimIsPending := False\<rparr>) s) =
      (GetUserRedemptionRecord s)(?i := Some (r\<lparr>urr_ClaimIsPending := False\<rparr>))"
    by (simp add: fun_eq_iff redemptions.get_put i)
  show ?thesis
  proof (cases st)
    case AckResponseStatus_SUCCESS
    with assms(1) r have d: "DecrementHostZoneUnbonding r a (RemoveUserRedemptionRecord ?i s) = (Ok (), s')"
      by (auto simp: ClaimCallback_ack_def go_simps)
    have "keeps (redemptions_are ((GetUserRedemptionRecord s)(?i := None))) (DecrementHostZoneUnbonding r a)"
      unfolding DecrementHostZoneUnbonding_def by (intro keeps_flow; simp)
    from keepsD [OF this d] AckResponseStatus_SUCCESS r assms(2) show ?thesis
      by (auto simp: redemptions_are_def redemptions.wf_del redemptions.get_del fun_eq_iff)
  qed (use assms r set in \<open>auto simp: ClaimCallback_ack_def go_simps redemptions.wf_put\<close>)
qed

lemma claims_ok_registered:
  assumes ok: "claims_ok c" and run: "CallRegisteredICACallback env ae p ar c = (Ok (), t)" and ports: "controller_ports ae"
  shows "claims_ok t"
proof (cases "GetCallbackData c (packet_key p)")
  case None
  with CallRegistered_none [OF None] run ok show ?thesis by simp
next
  case (Some d)
  have wf: "records_wf (c_records c)" using ok by (simp add: claims_ok_def)
  obtain h u where h: "GetICACallbackHandlerFromPacket ae p = Ok h" "t = RemoveCallbackData (packet_key p) u"
    "if HasICACallback h (cb_CallbackId d) then CallICACallback env ae h (cb_CallbackId d) p ar (cb_CallbackArgs d) c = (Ok (), u) else u = c"
    by (rule CallRegistered_OkE [OF run Some])
  have data: "GetCallbackData t k = (if k = packet_key p then None else GetCallbackData c k)" for k
    using CallRegistered_callbacks [OF run, of k] by simp
  have flight: "claims_in_flight t i = claims_in_flight c i - {packet_key p}" for i
    by (auto simp: claims_in_flight_def data)
  have typed: "cb_CallbackId d' = ''claim'' \<and> take 14 k = ''icacontroller-''"
    if "GetCallbackData t k = Some d'" "claim_of d' = Some i" for k d' i
    using that ok by (auto simp: data claims_ok_def split: if_splits)
  show ?thesis
  proof (cases "claim_of d")
    case None
    then have "\<forall>a. cb_CallbackArgs d \<noteq> ClaimArgs a" by (auto simp: claim_of_def)
    then have "redemptions_are (GetUserRedemptionRecord (c_records c)) (c_records u)"
      using h(3) keepsD [OF CallICACallback_keeps_redemptions] wf by (force simp: redemptions_are_def split: if_splits)
    then have "claim_pending t = claim_pending c" "records_wf (c_records t)"
      using h(2) by (auto simp: redemptions_are_def intro: claim_pending_cong)
    moreover have "packet_key p \<notin> claims_in_flight c i" for i using Some None by (auto simp: claims_in_flight_def)
    ultimately show ?thesis using ok flight typed by (auto simp: claims_ok_def)
  next
    case (Some i)
    then obtain a where a: "cb_CallbackArgs d = ClaimArgs a" "i = ccb_UserRedemptionRecordId a"
      by (auto simp: claim_of_def split: CallbackArgs.splits)
    have id: "cb_CallbackId d = ''claim''" "take 14 (packet_key p) = ''icacontroller-''"
      using ok \<open>GetCallbackData c (packet_key p) = Some d\<close> Some by (auto simp: claims_ok_def)
    then have "h = StakeibcICACallbacks"
      using h(1) ports by (auto simp: packet_key_def PacketID_controller controller_ports_def GetICACallbackHandlerFromPacket_def
          GetICACallbackHandler_def split: option.splits if_splits)
    then obtain s' where s': "ClaimCallback_ack (ar_Status ar) a (c_records c) = (Ok (), s')" "c_records u = s'"
      using h(3) id(1) a(1) by (auto simp: stakeibc_CallICACallback_def Let_def on_records_eq)
    note settled = claim_callback_settles [OF s'(1) wf]
    have pending: "claim_pending t j = (claim_pending c j \<and> j \<noteq> i)" for j
      using settled a(2) s'(2) h(2) by (auto simp: claim_pending_def split: if_splits)
    have mem: "packet_key p \<in> claims_in_flight c i" using Some \<open>GetCallbackData c (packet_key p) = Some d\<close>
      by (auto simp: claims_in_flight_def)
    then have one: "claims_in_flight c i = {packet_key p}" using ok unfolding claims_ok_def by blast
    moreover have "packet_key p \<notin> claims_in_flight c j" if "j \<noteq> i" for j
      using that Some \<open>GetCallbackData c (packet_key p) = Some d\<close> by (auto simp: claims_in_flight_def)
    ultimately have "claims_in_flight t j = (if j = i then {} else claims_in_flight c j)" for j
      using flight by auto
    with ok typed pending settled s'(2) h(2) show ?thesis by (auto simp: claims_ok_def)
  qed
qed

lemma claims_ok_step: "claim_step c t \<Longrightarrow> claims_ok c \<Longrightarrow> claims_ok t"
proof (induction rule: claim_step.induct)
  case (ack env ae p ackBz c t)
  then show ?case by (auto simp: stakeibc_OnAcknowledgementPacket_def go_simps intro: claims_ok_registered)
next
  case (timeout env ae p c t)
  then show ?case by (auto simp: stakeibc_OnTimeoutPacket_def intro: claims_ok_registered)
qed (auto intro: claims_ok_redeem claims_ok_claim claims_ok_submit)

lemma claims_ok_reachable: "claim_step\<^sup>*\<^sup>* c t \<Longrightarrow> claims_ok c \<Longrightarrow> claims_ok t"
  by (induction rule: rtranclp_induct) (auto intro: claims_ok_step)

lemma claims_ok_fresh:
  assumes "records_wf (c_records c)" "c_callbacks c = []" "\<forall>i. \<not> claim_pending c i"
  shows "claims_ok c"
  using assms by (auto simp: claims_ok_def claims_in_flight_def GetCallbackData_def)

text \<open>Property C15. No redemption is paid twice and none is stuck. From a state without open callbacks
  and pending claims, however redemptions, claims, other interchain account transactions,
  acknowledgements of any status and timeouts follow one another, at most one claim transaction is in
  flight for a redemption record, and one is in flight exactly when the record exists and is marked as
  pending (a pending record cannot be claimed, a paid one is gone).\<close>

theorem claims_settle_once:
  assumes "records_wf (c_records c)" "c_callbacks c = []" "\<forall>i. \<not> claim_pending c i" "claim_step\<^sup>*\<^sup>* c t"
  shows "(\<exists>k. claims_in_flight t i \<subseteq> {k}) \<and> (claims_in_flight t i \<noteq> {} \<longleftrightarrow> claim_pending t i) \<and>
    (claims_in_flight t i \<noteq> {} \<longrightarrow> (\<forall>env msg. UserRedemptionRecordKeyFormatter (mct_HostZoneId msg) (mct_Epoch msg) (mct_Sender msg) = i \<longrightarrow>
       ClaimUndelegatedTokens env msg t = (Err (StakeIBCErr ErrRecordNotFound), t)))"
proof -
  have ok: "claims_ok t" using claims_ok_reachable [OF assms(4)] claims_ok_fresh [OF assms(1-3)] by blast
  have "ClaimUndelegatedTokens env msg t = (Err (StakeIBCErr ErrRecordNotFound), t)"
    if "claim_pending t i" "UserRedemptionRecordKeyFormatter (mct_HostZoneId msg) (mct_Epoch msg) (mct_Sender msg) = i" for env msg
    using that by (auto simp: claim_pending_def ClaimUndelegatedTokens_def GetClaimableRedemptionRecord_def go_defs split: option.splits)
  with ok show ?thesis by (auto simp: claims_ok_def)
qed

section \<open>A claim that is refused and repeated\<close>

definition demo_redemption_record :: "bool \<Rightarrow> UserRedemptionRecord" where
  "demo_redemption_record pend = \<lparr>urr_Id = UserRedemptionRecordKeyFormatter ''GAIA'' 3 demo_user, urr_Sender = demo_user,
     urr_Receiver = ''cosmos1receiver'', urr_Amount = 600, urr_Denom = ''uatom'', urr_HostZoneId = ''GAIA'',
     urr_EpochNumber = 3, urr_ClaimIsPending = pend\<rparr>"

definition claim_msg :: MsgClaimUndelegatedTokens where
  "claim_msg = \<lparr>mct_HostZoneId = ''GAIA'', mct_Epoch = 3, mct_Sender = demo_user\<rparr>"

definition claim_chain :: "bool \<Rightarrow> chain" where
  "claim_chain pend = mod_records (\<lambda>s. SetUserRedemptionRecord (demo_redemption_record pend) (SetEpochUnbondingRecord
     \<lparr>eur_EpochNumber = 3, eur_HostZoneUnbondings = [demo_hzu ''GAIA'' 600 CLAIMABLE]\<rparr> s)) (demo_chain [demo_validator ''v1'' 1 500])"

definition claim_packet :: Packet where
  "claim_packet = \<lparr>pk_SourcePort = ''icacontroller-GAIA.REDEMPTION'', pk_SourceChannel = ''channel-7'', pk_Sequence = 1, pk_Data = ''''\<rparr>"

definition demo_ack_env :: ack_env where
  "demo_ack_env = \<lparr>ae_DecodeAcknowledgement = (\<lambda>s. if s = ''error'' then Some (Acknowledgement_Error s) else Some (Acknowledgement_Result s)),
     ae_DecodeTxMsgData = (\<lambda>s. Some \<lparr>tmd_Data = [], tmd_MsgResponses = [s]\<rparr>), ae_DecodeCompletionTime = (\<lambda>_. Some 9000),
     ae_DecodeTransferData = (\<lambda>_. True),
     ae_LookupModuleByChannel = (\<lambda>p ch. Some (if take 14 p = ''icacontroller-'' then ''icacontroller'' else ''transfer'')),
     ae_AppOnAcknowledgement = (\<lambda>_ _. go_ret ()), ae_AppOnTimeout = (\<lambda>_. go_ret ())\<rparr>"

lemma claim_chain_records:
  "GetUserRedemptionRecord (c_records (claim_chain pend)) i =
     (if i = urr_Id (demo_redemption_record pend) then Some (demo_redemption_record pend) else None)"
  "GetHostZoneUnbondingByChainId (c_records (claim_chain pend)) 3 ''GAIA'' = Some (demo_hzu ''GAIA'' 600 CLAIMABLE)"
  "records_wf (c_records (claim_chain pend))" "c_callbacks (claim_chain pend) = []"
  "GetHostZone (claim_chain pend) ''GAIA'' = Some (demo_zone [demo_validator ''v1'' 1 500])"
  "GetEpochTracker (claim_chain pend) STRIDE_EPOCH = Some (demo_tracker STRIDE_EPOCH)"
proof -
  have e: "c_records (demo_chain [demo_validator ''v1'' 1 500]) = records_empty" "c_callbacks (demo_chain [demo_validator ''v1'' 1 500]) = []"
    by (simp_all add: demo_chain_def empty_chain_def SetEpochTracker_def)
  show "GetUserRedemptionRecord (c_records (claim_chain pend)) i =
     (if i = urr_Id (demo_redemption_record pend) then Some (demo_redemption_record pend) else None)"
    by (simp add: claim_chain_def e redemptions.get_put redemptions.get_fresh)
  show "GetHostZoneUnbondingByChainId (c_records (claim_chain pend)) 3 ''GAIA'' = Some (demo_hzu ''GAIA'' 600 CLAIMABLE)"
    by (simp add: claim_chain_def GetHostZoneUnbondingByChainId_def unbondings.get_put) (simp add: demo_hzu_def)
  show "records_wf (c_records (claim_chain pend))"
    by (simp add: claim_chain_def e unbondings.wf_put redemptions.wf_put unbondings.wf_fresh)
  show "c_callbacks (claim_chain pend) = []" by (simp add: claim_chain_def e)
qed (simp_all add: claim_chain_def)

lemma claim_run: "\<exists>t. ClaimUndelegatedTokens demo_env claim_msg (claim_chain False) = (Ok (), t)"
proof -
  have g: "GetClaimableRedemptionRecord (c_records (claim_chain False)) claim_msg = Ok (demo_redemption_record False)"
    by (simp add: GetClaimableRedemptionRecord_def claim_msg_def claim_chain_records demo_redemption_record_def)
      (simp add: demo_hzu_def)
  have "ValidateDenom ''uatom''" by (simp add: ValidateDenom_def denom_letter_def denom_char_def)
  then obtain tx where tx: "GetRedemptionTransferMsg demo_env (claim_chain False) (demo_redemption_record False) ''GAIA'' = Ok tx"
    "itx_ConnectionId tx = ''connection-0''"
    by (simp add: GetRedemptionTransferMsg_def claim_chain_records demo_redemption_record_def NewCoin_def NewCoins_single
        GetRedemptionAccount_def demo_zone_def demo_account_def)
  from demo_SubmitTxs_Ok tx(2) obtain seq c1 where "SubmitTxs demo_env (itx_ConnectionId tx) (itx_Msgs tx) (itx_Account tx) (itx_Timeout tx) ''claim''
      (Some (ClaimArgs \<lparr>ccb_UserRedemptionRecordId = urr_Id (demo_redemption_record False), ccb_ChainId = ''GAIA'', ccb_EpochNumber = 3\<rparr>))
      (claim_chain False) = (Ok seq, c1)" by metis
  with g tx(1) show ?thesis
    by (simp add: ClaimUndelegatedTokens_def go_defs claim_chain_records claim_msg_def)
qed

theorem claims_settle_once_witness:
  "\<exists>t. ClaimUndelegatedTokens demo_env claim_msg (claim_chain False) = (Ok (), t) \<and>
     claims_in_flight t (urr_Id (demo_redemption_record False)) \<noteq> {} \<and>
     ClaimUndelegatedTokens demo_env claim_msg t = (Err (StakeIBCErr ErrRecordNotFound), t)"
proof -
  let ?i = "urr_Id (demo_redemption_record False)"
  obtain t where t: "ClaimUndelegatedTokens demo_env claim_msg (claim_chain False) = (Ok (), t)" using claim_run by blast
  have f: "fresh_sequences demo_env (claim_chain False)" by (simp add: fresh_sequences_def GetCallbackData_def claim_chain_records(4))
  have idle: "\<forall>i. \<not> claim_pending (claim_chain False) i"
    by (auto simp: claim_pending_def claim_chain_records(1) demo_redemption_record_def split: if_splits)
  have steps: "claim_step\<^sup>*\<^sup>* (claim_chain False) t" using claim_step.claim [OF t f] by blast
  have key: "UserRedemptionRecordKeyFormatter (mct_HostZoneId claim_msg) (mct_Epoch claim_msg) (mct_Sender claim_msg) = ?i"
    by (simp add: claim_msg_def demo_redemption_record_def)
  have "claim_pending t ?i"
    using t
  proof (rule ClaimUndelegatedTokens_OkE)
    fix r :: UserRedemptionRecord and tx :: IcaTx and seq c1
    assume r: "GetClaimableRedemptionRecord (c_records (claim_chain False)) claim_msg = Ok r"
      and "t = mod_records (SetUserRedemptionRecord (r\<lparr>urr_ClaimIsPending := True\<rparr>)) c1"
    moreover have "r = demo_redemption_record False"
      using GetClaimable_Ok(1) [OF r] by (simp add: key claim_chain_records(1))
    ultimately show ?thesis by (simp add: claim_pending_def redemptions.get_put)
  qed
  with claims_settle_once [OF claim_chain_records(3,4) idle steps, of ?i] key t show ?thesis by blast
qed

definition claim_data :: CallbackData where
  "claim_data = \<lparr>cb_CallbackKey = packet_key claim_packet, cb_PortId = pk_SourcePort claim_packet, cb_ChannelId = ''channel-7'',
     cb_Sequence = 1, cb_CallbackId = ''claim'', cb_CallbackArgs = ClaimArgs \<lparr>ccb_UserRedemptionRecordId =
       urr_Id (demo_redemption_record True), ccb_ChainId = ''GAIA'', ccb_EpochNumber = 3\<rparr>\<rparr>"

lemma refused_run:
  "\<exists>t. stakeibc_OnAcknowledgementPacket demo_env demo_ack_env claim_packet ''error'' (SetCallbackData claim_data (claim_chain True)) = (Ok (), t)"
proof -
  have u: "UnpackAcknowledgementResponse demo_ack_env ''error'' True = Ok \<lparr>ar_Status = AckResponseStatus_FAILURE, ar_MsgResponses = []\<rparr>"
    by (simp add: UnpackAcknowledgementResponse_def demo_ack_env_def)
  have h: "GetICACallbackHandlerFromPacket demo_ack_env claim_packet = Ok StakeibcICACallbacks"
    by (simp add: GetICACallbackHandlerFromPacket_def demo_ack_env_def claim_packet_def GetICACallbackHandler_def)
  have d: "GetCallbackData (SetCallbackData claim_data (claim_chain True)) (packet_key claim_packet) = Some claim_data"
    "cb_CallbackKey claim_data = packet_key claim_packet" "cb_CallbackId claim_data = ''claim''" "cb_CallbackArgs claim_data = ClaimArgs \<lparr>ccb_UserRedemptionRecordId =
       urr_Id (demo_redemption_record True), ccb_ChainId = ''GAIA'', ccb_EpochNumber = 3\<rparr>"
    by (simp_all add: claim_data_def)
  show ?thesis
    by (simp add: stakeibc_OnAcknowledgementPacket_def CallRegisteredICACallback_def GetCallbackDataFromPacket_def u h d go_defs Let_def
        stakeibc_CallICACallback_def ClaimCallback_ack_def claim_chain_records on_records_def)
qed

theorem acknowledged_once_witness:
  "\<exists>t. stakeibc_OnAcknowledgementPacket demo_env demo_ack_env claim_packet ''error'' (SetCallbackData claim_data (claim_chain True)) = (Ok (), t) \<and>
     GetCallbackData t (packet_key claim_packet) = None \<and>
     stakeibc_OnTimeoutPacket demo_env demo_ack_env claim_packet t = (Ok (), t)"
proof -
  obtain t where run: "stakeibc_OnAcknowledgementPacket demo_env demo_ack_env claim_packet ''error'' (SetCallbackData claim_data (claim_chain True)) = (Ok (), t)"
    using refused_run by blast
  from acknowledged_once [OF run] run show ?thesis by blast
qed

end
