(* ===== verification/Deposits.thy ===== *)
theory Deposits
  imports Acknowledgements
begin

text \<open>
  The life of a deposit and the epoch hook that drives it: deposit records per epoch, their transfer
  to the host chain and their delegation (\<open>x/stakeibc/keeper/deposit_records.go\<close>,
  \<open>Transfer\<close> of \<open>x/records/keeper/keeper.go\<close>), the redemption rate and the whole
  \<open>BeforeEpochStart\<close> (\<open>keeper/hooks.go\<close>), and the allocation of rewards
  (\<open>keeper/reward_allocation.go\<close>).

  The IBC transfer application is the parameter \<open>e_Transfer\<close>; the bank's listing of an
  account's balances is an argument of the functions that read it.
\<close>

section \<open>Deposit records\<close>

definition FilterDepositRecords :: "DepositRecord list \<Rightarrow> (DepositRecord \<Rightarrow> bool) \<Rightarrow> DepositRecord list" where
  "FilterDepositRecords arr condition = filter condition arr"

definition CreateDepositRecordsForEpoch :: "uint64 \<Rightarrow> (chain, unit) go" where
  "CreateDepositRecordsForEpoch epochNumber =
     go_bind (go_gets GetAllActiveHostZone) (\<lambda>hostZones.
     for_each (\<lambda>hostZone.
       go_bind (on_records (AppendDepositRecord \<lparr>dr_Id = 0, dr_Amount = 0, dr_Denom = hz_HostDenom hostZone,
         dr_HostZoneId = hz_ChainId hostZone, dr_Status = TRANSFER_QUEUE, dr_DepositEpochNumber = epochNumber,
         dr_Source = STRIDE\<rparr>)) (\<lambda>_. go_ret ())) hostZones)"

definition records_Transfer :: "env \<Rightarrow> MsgTransfer \<Rightarrow> DepositRecord \<Rightarrow> (chain, unit) go" where
  "records_Transfer env msg depositRecord =
     go_bind (on_bank (e_Transfer env msg)) (\<lambda>sequence.
     go_bind (go_modify (SetCallbackData
       \<lparr>cb_CallbackKey = PacketID (mt_SourcePort msg) (mt_SourceChannel msg) sequence,
        cb_PortId = mt_SourcePort msg, cb_ChannelId = mt_SourceChannel msg, cb_Sequence = sequence,
        cb_CallbackId = ''transfer'', cb_CallbackArgs = TransferArgs (dr_Id depositRecord)\<rparr>)) (\<lambda>_.
     go_modify (mod_records (SetDepositRecord (depositRecord\<lparr>dr_Status := TRANSFER_IN_PROGRESS\<rparr>)))))"

definition transfer_deposit :: "env \<Rightarrow> uint64 \<Rightarrow> DepositRecord \<Rightarrow> (chain, unit) go" where
  "transfer_deposit env epochNumber depositRecord =
     (if dr_Amount depositRecord \<le> 0 \<and> dr_DepositEpochNumber depositRecord < epochNumber then
        go_modify (mod_records (RemoveDepositRecord (dr_Id depositRecord)))
      else
        go_bind (go_gets (\<lambda>c. GetHostZone c (dr_HostZoneId depositRecord))) (\<lambda>found.
        case found of
          None \<Rightarrow> go_ret ()
        | Some hostZone \<Rightarrow>
            if hz_Halted hostZone then go_ret ()
            else (case registered (hz_DelegationAccount hostZone) of
                None \<Rightarrow> go_ret ()
              | Some delegateAccount \<Rightarrow>
                  go_bind (go_lift (NewCoin (hz_IbcDenom hostZone) (dr_Amount depositRecord))) (\<lambda>transferCoin.
                  go_bind (go_try (records_Transfer env
                    \<lparr>mt_SourcePort = ''transfer'', mt_SourceChannel = hz_TransferChannelId hostZone, mt_Token = transferCoin,
                     mt_Sender = hz_Address hostZone, mt_Receiver = ica_Address delegateAccount,
                     mt_TimeoutTimestamp = word_of_int (e_blockTime env) + prm_IbcTransferTimeoutNanos (e_params env)\<rparr>
                    depositRecord)) (\<lambda>_.
                  go_ret ())))))"

definition TransferExistingDepositsToHostZones :: "env \<Rightarrow> uint64 \<Rightarrow> DepositRecord list \<Rightarrow> (chain, unit) go" where
  "TransferExistingDepositsToHostZones env epochNumber depositRecords =
     for_each (transfer_deposit env epochNumber)
       (FilterDepositRecords depositRecords
         (\<lambda>record. dr_Status record = TRANSFER_QUEUE \<and> dr_DepositEpochNumber record < epochNumber))"

definition stake_deposit :: "env \<Rightarrow> DepositRecord \<Rightarrow> (chain, unit) go" where
  "stake_deposit env depositRecord =
     go_bind (go_gets (\<lambda>c. GetHostZone c (dr_HostZoneId depositRecord))) (\<lambda>found.
     case found of
       None \<Rightarrow> go_ret ()
     | Some hostZone \<Rightarrow>
         if hz_Halted hostZone then go_ret ()
         else (case registered (hz_DelegationAccount hostZone) of
             None \<Rightarrow> go_ret ()
           | Some _ \<Rightarrow>
               go_bind (go_lift (NewCoin (hz_HostDenom hostZone) (dr_Amount depositRecord))) (\<lambda>stakeAmount.
               go_bind (go_try (DelegateOnHost env hostZone stakeAmount depositRecord)) (\<lambda>_.
               go_ret ()))))"

definition utils_Min :: "int \<Rightarrow> int \<Rightarrow> int" where
  "utils_Min a b = (if a < b then a else b)"

text \<open>\<open>stakeDepositRecords[:n]\<close> panics for a negative \<open>n\<close>; \<open>cast.ToInt\<close>
  reinterprets the parameter's bits.\<close>

definition StakeExistingDepositsOnHostZones :: "env \<Rightarrow> uint64 \<Rightarrow> DepositRecord list \<Rightarrow> (chain, unit) go" where
  "StakeExistingDepositsOnHostZones env epochNumber depositRecords =
     (let stakeDepositRecords = FilterDepositRecords depositRecords
            (\<lambda>record. dr_Status record = DELEGATION_QUEUE \<and> dr_DepositEpochNumber record < epochNumber) in
      if stakeDepositRecords = [] then go_ret ()
      else
        let maxDepositRecordsToStake = utils_Min (int (length stakeDepositRecords))
              (sint (prm_MaxStakeIcaCallsPerEpoch (e_params env))) in
        if maxDepositRecordsToStake < 0 then go_panic
        else for_each (stake_deposit env) (take (nat maxDepositRecordsToStake) stakeDepositRecords))"

section \<open>The redemption rate\<close>

definition deposits_sum :: "DepositRecord list \<Rightarrow> int res" where
  "deposits_sum records = res_acc (\<lambda>depositRecord totalAmount. Int_Add totalAmount (dr_Amount depositRecord)) records 0"

definition GetUndelegatedBalance :: "HostZone \<Rightarrow> DepositRecord list \<Rightarrow> int res" where
  "GetUndelegatedBalance hostZone depositRecords =
     deposits_sum (FilterDepositRecords depositRecords
       (\<lambda>record. (dr_Status record = DELEGATION_QUEUE \<or> dr_Status record = DELEGATION_IN_PROGRESS) \<and>
          dr_HostZoneId record = hz_ChainId hostZone))"

definition GetModuleAccountBalance :: "HostZone \<Rightarrow> DepositRecord list \<Rightarrow> int res" where
  "GetModuleAccountBalance hostZone depositRecords =
     deposits_sum (FilterDepositRecords depositRecords
       (\<lambda>record. (dr_Status record = TRANSFER_QUEUE \<or> dr_Status record = TRANSFER_IN_PROGRESS) \<and>
          dr_HostZoneId record = hz_ChainId hostZone))"

definition update_redemption_rate :: "DepositRecord list \<Rightarrow> HostZone \<Rightarrow> (chain, unit) go" where
  "update_redemption_rate depositRecords hostZone =
     go_bind (go_gets (\<lambda>c. GetSupply (c_bank c) (StAssetDenomFromHostZoneDenom (hz_HostDenom hostZone)))) (\<lambda>stSupply.
     if stSupply = 0 then go_ret ()
     else
       go_bind (go_lift (GetUndelegatedBalance hostZone depositRecords)) (\<lambda>undelegatedBalance.
       go_bind (go_lift (GetModuleAccountBalance hostZone depositRecords)) (\<lambda>moduleAcctBalance.
       go_bind (go_lift (Dec_Add (NewDecFromInt undelegatedBalance) (NewDecFromInt (hz_StakedBal hostZone)))) (\<lambda>d1.
       go_bind (go_lift (Dec_Add d1 (NewDecFromInt moduleAcctBalance))) (\<lambda>d2.
       go_bind (go_lift (Dec_Quo d2 (NewDecFromInt stSupply))) (\<lambda>redemptionRate.
       go_modify (SetHostZone (hostZone\<lparr>hz_LastRedemptionRate := hz_RedemptionRate hostZone,
         hz_RedemptionRate := redemptionRate\<rparr>))))))))"

definition UpdateRedemptionRates :: "DepositRecord list \<Rightarrow> (chain, unit) go" where
  "UpdateRedemptionRates depositRecords =
     go_bind (go_gets GetAllActiveHostZone) (\<lambda>hostZones. for_each (update_redemption_rate depositRecords) hostZones)"

section \<open>Rewards\<close>

definition SetWithdrawalAddress :: "env \<Rightarrow> (chain, unit) go" where
  "SetWithdrawalAddress env =
     go_bind (go_gets GetAllActiveHostZone) (\<lambda>hostZones.
     for_each (\<lambda>hostZone. go_bind (go_try (SetWithdrawalAddressOnHost env hostZone)) (\<lambda>_. go_ret ())) hostZones)"

definition ReinvestRewards :: "env \<Rightarrow> (chain, unit) go" where
  "ReinvestRewards env =
     go_bind (go_gets GetAllActiveHostZone) (\<lambda>hostZones.
     for_each (\<lambda>hostZone.
       case registered (hz_WithdrawalAccount hostZone) of
         None \<Rightarrow> go_ret ()
       | Some _ \<Rightarrow>
           (case GetLightClientTimeSafely env (hz_ConnectionId hostZone) of
              Ok _ \<Rightarrow> go_bind (go_try (UpdateWithdrawalBalance env hostZone)) (\<lambda>_. go_ret ())
            | Err _ \<Rightarrow> go_ret ()
            | Panic \<Rightarrow> go_panic)) hostZones)"

text \<open>\<open>GetModuleAccount\<close> gives the address of the module; \<open>AfterLiquidStake\<close> is the
  hook the claim module registers.\<close>

definition liquid_stake_token ::
  "env \<Rightarrow> (address \<Rightarrow> chain \<Rightarrow> chain) \<Rightarrow> address \<Rightarrow> denom \<times> int \<Rightarrow> bool \<Rightarrow> (chain, bool) go" where
  "liquid_stake_token env AfterLiquidStake rewardCollectorAddress token rewardsAccrued =
     go_bind (go_try (\<lambda>c. (GetHostZoneFromIBCDenom c (fst token), c))) (\<lambda>found.
     case found of
       Ok hz \<Rightarrow>
         let msg = \<lparr>mls_Creator = e_EncodeBech32 env ''stride'' rewardCollectorAddress, mls_Amount = snd token,
                    mls_HostDenom = hz_HostDenom hz\<rparr> in
         if \<not> res_ok (MsgLiquidStake_ValidateBasic env msg) then go_ret rewardsAccrued
         else
           go_bind (go_try (LiquidStake env AfterLiquidStake msg)) (\<lambda>staked.
           if res_ok staked then go_ret True else go_ret rewardsAccrued)
     | _ \<Rightarrow> go_ret rewardsAccrued)"

definition LiquidStakeRewardCollectorBalance ::
  "env \<Rightarrow> (address \<Rightarrow> chain \<Rightarrow> chain) \<Rightarrow> (bank \<Rightarrow> address \<Rightarrow> coins) \<Rightarrow> (chain, bool) go" where
  "LiquidStakeRewardCollectorBalance env AfterLiquidStake GetAllBalances =
     (case be_module (e_bank env) ''reward_collector'' of
        None \<Rightarrow> go_panic
      | Some rewardCollectorAddress \<Rightarrow>
          go_bind (go_gets (\<lambda>c. GetAllBalances (c_bank c) rewardCollectorAddress)) (\<lambda>rewardedTokens.
          if rewardedTokens = [] then go_ret False
          else for_acc (liquid_stake_token env AfterLiquidStake rewardCollectorAddress) rewardedTokens False))"

definition SweepStTokensFromRewardCollToFeeColl :: "env \<Rightarrow> (bank \<Rightarrow> address \<Rightarrow> coins) \<Rightarrow> (chain, unit) go" where
  "SweepStTokensFromRewardCollToFeeColl env GetAllBalances =
     (case be_module (e_bank env) ''reward_collector'' of
        None \<Rightarrow> go_panic
      | Some rewardCollectorAddress \<Rightarrow>
          go_bind (go_gets (\<lambda>c. filter (\<lambda>token. CheckIsStToken c (fst token)) (GetAllBalances (c_bank c) rewardCollectorAddress))) (\<lambda>stTokens.
          on_bank (SendCoinsFromModuleToModule (e_bank env) ''reward_collector'' ''fee_collector'' stTokens)))"

definition AllocateHostZoneReward ::
  "env \<Rightarrow> (address \<Rightarrow> chain \<Rightarrow> chain) \<Rightarrow> (bank \<Rightarrow> address \<Rightarrow> coins) \<Rightarrow> (chain, unit) go" where
  "AllocateHostZoneReward env AfterLiquidStake GetAllBalances =
     go_bind (LiquidStakeRewardCollectorBalance env AfterLiquidStake GetAllBalances) (\<lambda>rewardsFound.
     if \<not> rewardsFound then go_ret ()
     else go_bind (go_try (SweepStTokensFromRewardCollToFeeColl env GetAllBalances)) (\<lambda>_. go_ret ()))"

section \<open>The epoch hook\<close>

text \<open>\<open>epochNumber % interval == 0\<close> divides by zero for an interval of zero.\<close>

definition at_interval :: "uint64 \<Rightarrow> uint64 \<Rightarrow> (chain, unit) go \<Rightarrow> (chain, unit) go" where
  "at_interval epochNumber interval m =
     (if interval = 0 then go_panic else if epochNumber mod interval = 0 then m else go_ret ())"

definition day_epoch :: "env \<Rightarrow> uint64 \<Rightarrow> (chain, unit) go" where
  "day_epoch env epochNumber =
     go_bind (InitiateAllHostZoneUnbondings env epochNumber) (\<lambda>_.
     go_bind (SweepAllUnbondedTokens env) (\<lambda>_.
     go_bind (go_modify (mod_records (CleanupEpochUnbondingRecords epochNumber))) (\<lambda>_.
     go_modify (CreateEpochUnbondingRecord epochNumber))))"

text \<open>What follows the snapshot of the deposit records in a stride epoch.\<close>

definition process_deposits :: "env \<Rightarrow> uint64 \<Rightarrow> DepositRecord list \<Rightarrow> (chain, unit) go" where
  "process_deposits env epochNumber depositRecords =
     (let params = e_params env in
     go_bind (SetWithdrawalAddress env) (\<lambda>_.
     go_bind (at_interval epochNumber (prm_RedemptionRateInterval params) (UpdateRedemptionRates depositRecords)) (\<lambda>_.
     go_bind (at_interval epochNumber (prm_DepositInterval params)
       (TransferExistingDepositsToHostZones env epochNumber depositRecords)) (\<lambda>_.
     go_bind (at_interval epochNumber (prm_DelegateInterval params)
       (StakeExistingDepositsOnHostZones env epochNumber depositRecords)) (\<lambda>_.
     at_interval epochNumber (prm_ReinvestInterval params) (ReinvestRewards env))))))"

definition stride_epoch :: "env \<Rightarrow> uint64 \<Rightarrow> (chain, unit) go" where
  "stride_epoch env epochNumber =
     go_bind (CreateDepositRecordsForEpoch epochNumber) (\<lambda>_.
     go_bind (go_gets (\<lambda>c. GetAllDepositRecord (c_records c))) (process_deposits env epochNumber))"

definition stakeibc_BeforeEpochStart ::
  "env \<Rightarrow> (address \<Rightarrow> chain \<Rightarrow> chain) \<Rightarrow> (bank \<Rightarrow> address \<Rightarrow> coins) \<Rightarrow> EpochInfo \<Rightarrow> (chain, unit) go" where
  "stakeibc_BeforeEpochStart env AfterLiquidStake GetAllBalances epochInfo =
     go_bind (go_try (UpdateEpochTracker epochInfo)) (\<lambda>updated.
     case updated of
       Ok epochNumber \<Rightarrow>
         go_bind (if ei_Identifier epochInfo = DAY_EPOCH then day_epoch env epochNumber else go_ret ()) (\<lambda>_.
         go_bind (if ei_Identifier epochInfo = STRIDE_EPOCH then stride_epoch env epochNumber else go_ret ()) (\<lambda>_.
         if ei_Identifier epochInfo = MINT_EPOCH then AllocateHostZoneReward env AfterLiquidStake GetAllBalances else go_ret ()))
     | _ \<Rightarrow> go_ret ())"

section \<open>Deposits survive the epoch\<close>

text \<open>What an epoch may do to a deposit: nothing, or send it on its way.\<close>

definition sent_on :: "uint64 \<Rightarrow> DepositRecord \<Rightarrow> DepositRecord_Status \<Rightarrow> bool" where
  "sent_on n d st \<longleftrightarrow> st = dr_Status d \<or> dr_DepositEpochNumber d < n \<and>
     (dr_Status d = TRANSFER_QUEUE \<and> st = TRANSFER_IN_PROGRESS \<or>
      dr_Status d = DELEGATION_QUEUE \<and> st = DELEGATION_IN_PROGRESS)"

definition deposits_follow :: "uint64 \<Rightarrow> DepositRecord list \<Rightarrow> records_state \<Rightarrow> bool" where
  "deposits_follow n ds s \<longleftrightarrow> (\<forall>d\<in>set ds. 0 < dr_Amount d \<longrightarrow>
     (\<exists>st. GetDepositRecord s (dr_Id d) = Some (d\<lparr>dr_Status := st\<rparr>) \<and> sent_on n d st))"

lemma deposits_follow_set:
  assumes "deposits_follow n ds s" "distinct (map dr_Id ds)" "d \<in> set ds" "sent_on n d st"
  shows "deposits_follow n ds (SetDepositRecord (d\<lparr>dr_Status := st\<rparr>) s)"
proof -
  have "d' = d" if "d' \<in> set ds" "dr_Id d' = dr_Id d" for d'
    using that assms(2,3) by (auto simp: distinct_map inj_on_def)
  then show ?thesis using assms(1,4) by (auto simp: deposits_follow_def deposits.get_put)
qed

lemma deposits_follow_remove:
  assumes "deposits_follow n ds s" "distinct (map dr_Id ds)" "d \<in> set ds" "dr_Amount d \<le> 0"
  shows "deposits_follow n ds (RemoveDepositRecord (dr_Id d) s)"
proof -
  have "dr_Id d' \<noteq> dr_Id d" if "d' \<in> set ds" "0 < dr_Amount d'" for d'
    using that assms(2-4) by (auto simp: distinct_map inj_on_def)
  then show ?thesis using assms(1) by (auto simp: deposits_follow_def deposits.get_del)
qed

lemma keeps_records_ica:
  "keeps (\<lambda>c. P (c_records c)) (SubmitTxs env conn msgs acc tmo cbId args)"
  "keeps (\<lambda>c. P (c_records c)) (SubmitTxsStrideEpoch env conn msgs acc cbId args)"
  "keeps (\<lambda>c. P (c_records c)) (MakeRequest env m i k conn qt q ttl)"
proof -
  show *: "keeps (\<lambda>c. P (c_records c)) (SubmitTxs env conn msgs acc tmo cbId args)" for conn msgs acc tmo cbId args
    by (rule keepsI) (auto dest!: SubmitTxs_frame simp: ica_frame_def)
  show "keeps (\<lambda>c. P (c_records c)) (SubmitTxsStrideEpoch env conn msgs acc cbId args)"
    unfolding SubmitTxsStrideEpoch_def SubmitTxsEpoch_def by (intro keeps_flow *)
  show "keeps (\<lambda>c. P (c_records c)) (MakeRequest env m i k conn qt q ttl)"
    unfolding MakeRequest_def by (intro keeps_flow) simp_all
qed

lemma keeps_records_hooks:
  "keeps (\<lambda>c. P (c_records c)) (SetWithdrawalAddress env)"
  "keeps (\<lambda>c. P (c_records c)) (UpdateRedemptionRates ds)"
  "keeps (\<lambda>c. P (c_records c)) (ReinvestRewards env)"
  unfolding SetWithdrawalAddress_def SetWithdrawalAddressOnHost_def UpdateRedemptionRates_def update_redemption_rate_def
    ReinvestRewards_def UpdateWithdrawalBalance_def Let_def
  by (intro keeps_flow keeps_records_ica; simp)+

lemma keeps_transfers:
  assumes "distinct (map dr_Id ds)"
  shows "keeps (\<lambda>c. deposits_follow n ds (c_records c)) (TransferExistingDepositsToHostZones env n ds)"
proof (rule keepsI)
  fix c r t
  assume I: "deposits_follow n ds (c_records c)" and run: "TransferExistingDepositsToHostZones env n ds c = (r, t)"
  have one: "keeps (\<lambda>c. deposits_follow n ds (c_records c)) (transfer_deposit env n d)"
    if d: "d \<in> set ds" "dr_Status d = TRANSFER_QUEUE" "dr_DepositEpochNumber d < n" for d
  proof -
    have s: "sent_on n d TRANSFER_IN_PROGRESS" using d(2,3) by (simp add: sent_on_def)
    show ?thesis
      unfolding transfer_deposit_def records_Transfer_def
      by (intro keeps_flow)
        (auto intro: deposits_follow_set [OF _ assms d(1) s] deposits_follow_remove [OF _ assms d(1)])
  qed
  show "deposits_follow n ds (c_records t)"
    using run I unfolding TransferExistingDepositsToHostZones_def FilterDepositRecords_def
    by (elim for_each_invariant [where I = "\<lambda>c. deposits_follow n ds (c_records c)", rotated 2])
      (auto dest: keepsD [OF one])
qed

lemma keeps_delegate:
  assumes "distinct (map dr_Id ds)" "d \<in> set ds" "sent_on n d DELEGATION_IN_PROGRESS"
  shows "keeps (\<lambda>c. deposits_follow n ds (c_records c)) (DelegateOnHost env z amt d)"
  unfolding DelegateOnHost_def
  by (intro keeps_flow keeps_records_ica) (auto intro: deposits_follow_set [OF _ assms])

lemma keeps_stakes:
  assumes "distinct (map dr_Id ds)"
  shows "keeps (\<lambda>c. deposits_follow n ds (c_records c)) (StakeExistingDepositsOnHostZones env n ds)"
proof (rule keepsI)
  fix c r t
  assume I: "deposits_follow n ds (c_records c)" and run: "StakeExistingDepositsOnHostZones env n ds c = (r, t)"
  let ?q = "filter (\<lambda>record. dr_Status record = DELEGATION_QUEUE \<and> dr_DepositEpochNumber record < n) ds"
  have one: "keeps (\<lambda>c. deposits_follow n ds (c_records c)) (stake_deposit env d)" if "d \<in> set (take k ?q)" for d k
  proof -
    have d: "d \<in> set ds" "sent_on n d DELEGATION_IN_PROGRESS" using in_set_takeD [OF that] by (auto simp: sent_on_def)
    show ?thesis unfolding stake_deposit_def by (intro keeps_flow keeps_delegate assms d)
  qed
  show "deposits_follow n ds (c_records t)"
  proof (cases "?q = [] \<or> utils_Min (int (length ?q)) (sint (prm_MaxStakeIcaCallsPerEpoch (e_params env))) < 0")
    case True
    with run I show ?thesis
      by (auto simp: StakeExistingDepositsOnHostZones_def FilterDepositRecords_def Let_def go_simps split: if_splits)
  next
    case False
    with run have "for_each (stake_deposit env)
        (take (nat (utils_Min (int (length ?q)) (sint (prm_MaxStakeIcaCallsPerEpoch (e_params env))))) ?q) c = (r, t)"
      by (simp add: StakeExistingDepositsOnHostZones_def FilterDepositRecords_def Let_def)
    then show ?thesis
      using I by (elim for_each_invariant [where I = "\<lambda>c. deposits_follow n ds (c_records c)", rotated 2])
        (auto dest: keepsD [OF one])
  qed
qed

lemma keeps_process_deposits:
  assumes "distinct (map dr_Id ds)"
  shows "keeps (\<lambda>c. deposits_follow n ds (c_records c)) (process_deposits env n ds)"
  unfolding process_deposits_def at_interval_def Let_def
  by (intro keeps_flow keeps_records_hooks keeps_transfers keeps_stakes assms)

text \<open>Property C16. No deposit is lost in a stride epoch. Whatever happens while an epoch's deposits are
  processed (transfers and delegations that fail, missing or halted zones, even a panic half way), a
  record with a positive amount is still there with its amount, zone and epoch; its status is what it
  was, or, for a record of an earlier epoch, a queued transfer or delegation is now in progress.\<close>

theorem deposits_survive_epoch:
  assumes "process_deposits env n (GetAllDepositRecord (c_records c)) c = (r, t)" "records_wf (c_records c)"
    and "GetDepositRecord (c_records c) i = Some d" "0 < dr_Amount d"
  shows "\<exists>st. GetDepositRecord (c_records t) i = Some (d\<lparr>dr_Status := st\<rparr>) \<and>
    (st = dr_Status d \<or> dr_DepositEpochNumber d < n \<and>
      (dr_Status d = TRANSFER_QUEUE \<and> st = TRANSFER_IN_PROGRESS \<or>
       dr_Status d = DELEGATION_QUEUE \<and> st = DELEGATION_IN_PROGRESS))"
proof -
  let ?ds = "GetAllDepositRecord (c_records c)"
  have i: "dr_Id d = i" by (rule deposits.get_key [OF assms(2,3)])
  have mem: "d \<in> set ?ds" using deposits.listing_iff [OF assms(2), of d] assms(3) i by simp
  have dist: "distinct (map dr_Id ?ds)" by (rule deposits.listing_distinct_keys [OF assms(2)])
  have "GetDepositRecord (c_records c) (dr_Id d') = Some d'" if "d' \<in> set ?ds" for d'
    using deposits.listing_iff [OF assms(2), of d'] that by simp
  then have "deposits_follow n ?ds (c_records c)"
    by (auto simp: deposits_follow_def sent_on_def intro!: exI [of _ "dr_Status _"])
  from keepsD [OF keeps_process_deposits [OF dist] assms(1) this] mem assms(4) i show ?thesis
    by (auto simp: deposits_follow_def sent_on_def)
qed

section \<open>The rate is backing over supply\<close>

text \<open>Everything that backs a zone's receipt tokens: what is staked and all its deposit records,
  wherever they are on their way.\<close>

definition backing :: "DepositRecord list \<Rightarrow> HostZone \<Rightarrow> int" where
  "backing ds z = hz_StakedBal z + sum_list (map dr_Amount (filter (\<lambda>d. dr_HostZoneId d = hz_ChainId z) ds))"

lemma deposits_sum_Ok: "deposits_sum ds = Ok x \<Longrightarrow> x = sum_list (map dr_Amount ds)"
proof -
  have "res_acc (\<lambda>d tot. Int_Add tot (dr_Amount d)) ds a = Ok x \<Longrightarrow> x = a + sum_list (map dr_Amount ds)" for a
    by (induction ds arbitrary: a) (fastforce simp: rbind_eq_Ok Int_Add_Ok)+
  from this [of 0] show "deposits_sum ds = Ok x \<Longrightarrow> x = sum_list (map dr_Amount ds)" by (simp add: deposits_sum_def)
qed

lemma deposits_partition:
  "sum_list (map dr_Amount (filter (\<lambda>d. (dr_Status d = DELEGATION_QUEUE \<or> dr_Status d = DELEGATION_IN_PROGRESS) \<and> dr_HostZoneId d = k) ds)) +
   sum_list (map dr_Amount (filter (\<lambda>d. (dr_Status d = TRANSFER_QUEUE \<or> dr_Status d = TRANSFER_IN_PROGRESS) \<and> dr_HostZoneId d = k) ds)) =
   sum_list (map dr_Amount (filter (\<lambda>d. dr_HostZoneId d = k) ds))"
proof (induction ds)
  case (Cons d ds)
  then show ?case by (cases "dr_Status d") auto
qed simp

lemma abs_shift:
  assumes "2 * \<bar>y - v\<bar> \<le> p" "v \<le> x" "x < v + w"
  shows "2 * \<bar>y - x\<bar> \<le> p + 2 * (w :: int)"
proof -
  have "\<bar>y - x\<bar> \<le> \<bar>y - v\<bar> + w" using assms(2,3) by (simp add: abs_if)
  with assms(1) show ?thesis by simp
qed

text \<open>Dividing two integers as decimals is exact to less than one unit of the last decimal place.\<close>

lemma Dec_Quo_ints:
  assumes "Dec_Quo (NewDecFromInt a) (NewDecFromInt b) = Ok r" "0 \<le> a" "0 < b"
  shows "\<bar>r * b - a * precisionReuse\<bar> < b"
proof -
  define P where "P = precisionReuse"
  define q where "q = a * P * (P * P) div (b * P)"
  have P: "2 < P" by (simp add: P_def precisionReuse_def)
  have "big_quo (a * P * (P * P)) (b * P) = q" using assms(2,3) P by (simp add: q_def big_quo_pos)
  then have r: "r = chopPrecisionAndRound q" using assms(1) by (auto simp: Dec_Quo_Ok NewDecFromInt_def P_def)
  have "a * P * (P * P) = (a * (P * P)) * P" by (simp only: ac_simps)
  then have "q = a * (P * P) div b" using P by (simp only: q_def) simp
  then have q: "q * b \<le> a * (P * P)" "a * (P * P) < q * b + b" using div_bounds [OF assms(3)] by auto
  have "0 \<le> q" using assms P by (simp add: q_def pos_imp_zdiv_nonneg_iff)
  then have e: "2 * \<bar>r * P - q\<bar> \<le> P" using chopPrecisionAndRound_error [of q] by (simp add: r P_def)
  have "2 * \<bar>r * P - q\<bar> * b \<le> P * b" using e assms(3) by (simp add: mult_right_mono)
  moreover have "\<bar>r * P * b - q * b\<bar> = \<bar>r * P - q\<bar> * b" using assms(3) by (simp only: left_diff_distrib [symmetric] abs_mult)
  ultimately have "2 * \<bar>r * P * b - q * b\<bar> \<le> P * b" by (simp only: mult.assoc)
  then have "2 * \<bar>r * P * b - a * (P * P)\<bar> \<le> P * b + 2 * b" using q by (rule abs_shift)
  also have "\<dots> < 2 * (P * b)" using P assms(3) by (simp add: mult.commute)
  finally have "\<bar>P * (r * b - a * P)\<bar> < P * b" by (simp add: algebra_simps)
  then have "P * \<bar>r * b - a * P\<bar> < P * b" using P by (simp add: abs_mult)
  then show ?thesis using P by (simp add: P_def)
qed

definition with_rate :: "Dec \<Rightarrow> HostZone \<Rightarrow> HostZone" where
  "with_rate r z = z\<lparr>hz_LastRedemptionRate := hz_RedemptionRate z, hz_RedemptionRate := r\<rparr>"

lemma update_redemption_rate_Ok:
  assumes "update_redemption_rate ds z c = (Ok (), t)"
  shows "if GetSupply (c_bank c) (''st'' @ hz_HostDenom z) = 0 then t = c
    else \<exists>r. Dec_Quo (NewDecFromInt (backing ds z)) (NewDecFromInt (GetSupply (c_bank c) (''st'' @ hz_HostDenom z))) = Ok r \<and>
      t = SetHostZone (with_rate r z) c"
proof (cases "GetSupply (c_bank c) (''st'' @ hz_HostDenom z) = 0")
  case False
  with assms obtain u m r where u: "GetUndelegatedBalance z ds = Ok u" and m: "GetModuleAccountBalance z ds = Ok m"
    and r: "Dec_Quo (NewDecFromInt u + NewDecFromInt (hz_StakedBal z) + NewDecFromInt m)
        (NewDecFromInt (GetSupply (c_bank c) (''st'' @ hz_HostDenom z))) = Ok r"
    and t: "t = SetHostZone (with_rate r z) c"
    by (auto simp: update_redemption_rate_def StAssetDenomFromHostZoneDenom_def go_bind_eq_Ok go_gets_eq go_lift_eq
        go_modify_eq Dec_Add_Ok with_rate_def)
  have "u + m = sum_list (map dr_Amount (filter (\<lambda>d. dr_HostZoneId d = hz_ChainId z) ds))"
    using deposits_sum_Ok [OF u [unfolded GetUndelegatedBalance_def]] deposits_sum_Ok [OF m [unfolded GetModuleAccountBalance_def]]
      deposits_partition [of "hz_ChainId z" ds]
    by (simp add: FilterDepositRecords_def)
  then have "backing ds z = hz_StakedBal z + (u + m)" by (simp add: backing_def)
  then have "NewDecFromInt u + NewDecFromInt (hz_StakedBal z) + NewDecFromInt m = NewDecFromInt (backing ds z)"
    by (simp add: NewDecFromInt_def algebra_simps)
  with r t False show ?thesis by auto
qed (use assms in \<open>auto simp: update_redemption_rate_def StAssetDenomFromHostZoneDenom_def go_bind_eq_Ok go_gets_eq go_ret_eq\<close>)

lemma rates_loop:
  assumes "for_each (update_redemption_rate ds) zs c = (Ok (), t)" "distinct (map hz_ChainId zs)"
  shows "c_bank t = c_bank c \<and> (\<forall>k. k \<notin> hz_ChainId ` set zs \<longrightarrow> GetHostZone t k = GetHostZone c k) \<and>
    (\<forall>z\<in>set zs. if GetSupply (c_bank c) (''st'' @ hz_HostDenom z) = 0 then GetHostZone t (hz_ChainId z) = GetHostZone c (hz_ChainId z)
      else \<exists>r. Dec_Quo (NewDecFromInt (backing ds z)) (NewDecFromInt (GetSupply (c_bank c) (''st'' @ hz_HostDenom z))) = Ok r \<and>
        GetHostZone t (hz_ChainId z) = Some (with_rate r z))"
  using assms
proof (induction zs arbitrary: c)
  case (Cons z zs)
  obtain c1 where s: "update_redemption_rate ds z c = (Ok (), c1)" and rest: "for_each (update_redemption_rate ds) zs c1 = (Ok (), t)"
    using Cons.prems(1) by (auto split: prod.splits res.splits)
  note u = update_redemption_rate_Ok [OF s]
  have b: "c_bank c1 = c_bank c" using u by (auto split: if_splits)
  have other: "GetHostZone c1 k = GetHostZone c k" if "k \<noteq> hz_ChainId z" for k
    using u that by (auto simp: with_rate_def split: if_splits)
  note IH = Cons.IH [OF rest]
  have z: "GetHostZone t (hz_ChainId z) = GetHostZone c1 (hz_ChainId z)" using IH Cons.prems(2) by simp
  have "if GetSupply (c_bank c) (''st'' @ hz_HostDenom z) = 0 then GetHostZone t (hz_ChainId z) = GetHostZone c (hz_ChainId z)
      else \<exists>r. Dec_Quo (NewDecFromInt (backing ds z)) (NewDecFromInt (GetSupply (c_bank c) (''st'' @ hz_HostDenom z))) = Ok r \<and>
        GetHostZone t (hz_ChainId z) = Some (with_rate r z)"
    using u unfolding z by (auto simp: with_rate_def)
  moreover have "if GetSupply (c_bank c) (''st'' @ hz_HostDenom y) = 0 then GetHostZone t (hz_ChainId y) = GetHostZone c (hz_ChainId y)
      else \<exists>r. Dec_Quo (NewDecFromInt (backing ds y)) (NewDecFromInt (GetSupply (c_bank c) (''st'' @ hz_HostDenom y))) = Ok r \<and>
        GetHostZone t (hz_ChainId y) = Some (with_rate r y)" if "y \<in> set zs" for y
  proof -
    have "hz_ChainId y \<in> hz_ChainId ` set zs" using that by simp
    then have "hz_ChainId y \<noteq> hz_ChainId z" using Cons.prems(2) by auto
    from other [OF this] show ?thesis using IH Cons.prems(2) that b by auto
  qed
  ultimately show ?case using IH Cons.prems(2) b other by auto
qed simp

text \<open>Property C17. Updating the redemption rates gives every active zone with receipt tokens in
  circulation the value of one token: the staked balance plus all the zone's deposit records, divided
  by the supply, exact to less than one unit of the eighteenth decimal place when the backing is not
  negative. The old rate is kept as the last rate. Halted zones and zones without tokens keep
  theirs.\<close>

theorem redemption_rate_is_backing:
  assumes run: "UpdateRedemptionRates ds c = (Ok (), t)" and wf: "zones_wf c" and z: "GetHostZone c k = Some z"
  shows "(hz_Halted z \<or> GetSupply (c_bank c) (''st'' @ hz_HostDenom z) = 0 \<longrightarrow> GetHostZone t k = Some z) \<and>
    (\<not> hz_Halted z \<and> GetSupply (c_bank c) (''st'' @ hz_HostDenom z) \<noteq> 0 \<longrightarrow>
      (\<exists>r. GetHostZone t k = Some (z\<lparr>hz_LastRedemptionRate := hz_RedemptionRate z, hz_RedemptionRate := r\<rparr>) \<and>
        (0 \<le> backing ds z \<and> 0 < GetSupply (c_bank c) (''st'' @ hz_HostDenom z) \<longrightarrow>
          \<bar>r * GetSupply (c_bank c) (''st'' @ hz_HostDenom z) - backing ds z * precisionReuse\<bar>
            < GetSupply (c_bank c) (''st'' @ hz_HostDenom z))))"
proof -
  have l: "for_each (update_redemption_rate ds) (GetAllActiveHostZone c) c = (Ok (), t)"
    using run by (simp add: UpdateRedemptionRates_def go_bind_def go_gets_def)
  have dist: "distinct (map hz_ChainId (GetAllActiveHostZone c))"
    using zones.listing_distinct_keys [OF wf] by (simp add: GetAllActiveHostZone_def GetAllHostZone_def distinct_map_filter)
  have k: "hz_ChainId z = k" by (rule zones.get_key [OF wf z])
  have listed: "z' \<in> set (GetAllActiveHostZone c) \<longleftrightarrow> GetHostZone c (hz_ChainId z') = Some z' \<and> \<not> hz_Halted z'" for z'
    by (simp add: active_iff zones.listing_iff [OF wf])
  note L = rates_loop [OF l dist]
  show ?thesis
  proof (cases "hz_Halted z")
    case True
    then have "k \<notin> hz_ChainId ` set (GetAllActiveHostZone c)" using z by (auto simp: listed)
    with L z True show ?thesis by simp
  next
    case False
    then have "z \<in> set (GetAllActiveHostZone c)" using z k by (simp add: listed)
    with L have "if GetSupply (c_bank c) (''st'' @ hz_HostDenom z) = 0 then GetHostZone t k = Some z
      else \<exists>r. Dec_Quo (NewDecFromInt (backing ds z)) (NewDecFromInt (GetSupply (c_bank c) (''st'' @ hz_HostDenom z))) = Ok r \<and>
        GetHostZone t k = Some (with_rate r z)" using z k by auto
    with False show ?thesis by (auto simp: with_rate_def dest: Dec_Quo_ints split: if_splits)
  qed
qed

section \<open>An epoch of the staking example\<close>

lemma staking_deposits:
  "GetAllDepositRecord (c_records staking_chain) = [(demo_deposit 7 TRANSFER_QUEUE)\<lparr>dr_DepositEpochNumber := 3\<rparr>]"
  "GetDepositRecord (c_records staking_chain) (dr_Id (demo_deposit 7 TRANSFER_QUEUE)) =
     Some ((demo_deposit 7 TRANSFER_QUEUE)\<lparr>dr_DepositEpochNumber := 3\<rparr>)"
  by (simp_all add: staking_chain_def GetAllDepositRecord_def GetDepositRecord_def SetDepositRecord_def SetEpochUnbondingRecord_def
      records_empty_def kv_values_def kv_get_def)

theorem deposits_survive_epoch_witness:
  "\<exists>st. GetDepositRecord (c_records (snd (process_deposits demo_env 4 (GetAllDepositRecord (c_records staking_chain)) staking_chain)))
       (dr_Id (demo_deposit 7 TRANSFER_QUEUE)) = Some ((demo_deposit 7 TRANSFER_QUEUE)\<lparr>dr_DepositEpochNumber := 3, dr_Status := st\<rparr>) \<and>
     st \<in> {TRANSFER_QUEUE, TRANSFER_IN_PROGRESS}"
proof -
  obtain r t where run: "process_deposits demo_env 4 (GetAllDepositRecord (c_records staking_chain)) staking_chain = (r, t)"
    by fastforce
  have a: "0 < dr_Amount ((demo_deposit 7 TRANSFER_QUEUE)\<lparr>dr_DepositEpochNumber := 3\<rparr>)" by (simp add: demo_deposit_def)
  from deposits_survive_epoch [OF run staking_chain_simps(6) staking_deposits(2) a] run show ?thesis
    by (auto simp: demo_deposit_def)
qed

lemma rate_run:
  "\<exists>t. UpdateRedemptionRates (GetAllDepositRecord (c_records staking_chain)) staking_chain = (Ok (), t)"
proof -
  let ?z = "demo_zone [demo_validator ''v1'' 1 500]"
  have act: "GetAllActiveHostZone staking_chain = [?z]"
    by (simp add: staking_chain_def demo_chain_def GetAllActiveHostZone_def SetHostZone_def SetEpochTracker_def empty_chain_def
        kv_values_def demo_zone_def)
  have sup: "GetSupply (c_bank staking_chain) d = 1000" for d by (simp add: staking_bank GetSupply_def)
  have u: "GetUndelegatedBalance ?z (GetAllDepositRecord (c_records staking_chain)) = Ok 0"
    "GetModuleAccountBalance ?z (GetAllDepositRecord (c_records staking_chain)) = Ok 7"
    by (simp_all add: GetUndelegatedBalance_def GetModuleAccountBalance_def staking_deposits FilterDepositRecords_def deposits_sum_def
        demo_deposit_def Int_Add_eq fits_def)
  have b: "hz_StakedBal ?z = 500" by (simp add: demo_validator_def)
  have "big_quo (507 * precisionReuse * (precisionReuse * precisionReuse)) (1000 * precisionReuse) = 507000000000000000 * precisionReuse"
    by (simp add: big_quo_pos precisionReuse_def)
  then have q: "Dec_Quo (507 * precisionReuse) (1000 * precisionReuse) = Ok 507000000000000000"
    by (simp only: Dec_Quo_Ok chopPrecisionAndRound_exact) (simp add: precisionReuse_def fits_dec_def)
  have d: "Dec_Add (NewDecFromInt 0) (NewDecFromInt 500) = Ok (500 * precisionReuse)"
    "Dec_Add (500 * precisionReuse) (NewDecFromInt 7) = Ok (507 * precisionReuse)"
    by (simp_all add: Dec_Add_Ok NewDecFromInt_def fits_dec_def precisionReuse_def)
  have "\<exists>t. update_redemption_rate (GetAllDepositRecord (c_records staking_chain)) ?z staking_chain = (Ok (), t)"
    unfolding update_redemption_rate_def go_bind_def go_gets_def go_lift_def go_modify_def sup u b
    using q d by (simp add: NewDecFromInt_def)
  then show ?thesis by (auto simp: UpdateRedemptionRates_def go_bind_def go_gets_def act)
qed

theorem redemption_rate_is_backing_witness:
  "\<exists>t r. UpdateRedemptionRates (GetAllDepositRecord (c_records staking_chain)) staking_chain = (Ok (), t) \<and>
     GetHostZone t ''GAIA'' = Some ((demo_zone [demo_validator ''v1'' 1 500])\<lparr>hz_LastRedemptionRate := OneDec, hz_RedemptionRate := r\<rparr>) \<and>
     \<bar>r * 1000 - 507 * precisionReuse\<bar> < 1000"
proof -
  let ?z = "demo_zone [demo_validator ''v1'' 1 500]" and ?ds = "GetAllDepositRecord (c_records staking_chain)"
  obtain t where run: "UpdateRedemptionRates ?ds staking_chain = (Ok (), t)" using rate_run by blast
  have sup: "GetSupply (c_bank staking_chain) d = 1000" for d by (simp add: staking_bank GetSupply_def)
  have b: "backing ?ds ?z = 507" by (simp add: backing_def staking_deposits demo_deposit_def demo_validator_def)
  have "\<exists>r. GetHostZone t ''GAIA'' = Some (?z\<lparr>hz_LastRedemptionRate := OneDec, hz_RedemptionRate := r\<rparr>) \<and>
     \<bar>r * 1000 - 507 * precisionReuse\<bar> < 1000"
    using redemption_rate_is_backing [OF run staking_chain_simps(5,1)] unfolding sup b by simp
  with run show ?thesis by blast
qed

end
