(* ===== verification/Queries.thy ===== *)
theory Queries
  imports Deposits
begin

text \<open>
  Interchain queries: \<open>SubmitQueryResponse\<close> with the proof check and the callback dispatch,
  the end blocker and the genesis of \<open>x/interchainquery\<close> (\<open>keeper/msg_server.go\<close>,
  \<open>keeper/abci.go\<close>, \<open>keeper/queries.go\<close>, \<open>genesis.go\<close>), and the query
  callbacks of \<open>x/stakeibc\<close> (\<open>keeper/icqcallbacks*.go\<close>), which split rewards and
  write down slashes. \<open>ClearBalance\<close> (\<open>keeper/msg_server_clear_balance.go\<close>) is here
  because it moves the fee account's balance, as the fee query does.

  Decoding of responses, consensus states and Merkle proofs are parameters (\<open>icq_env\<close>).
\<close>

section \<open>Data\<close>

record queried_validator =
  qv_OperatorAddress :: address
  qv_Tokens :: int
  qv_DelegatorShares :: Dec

record queried_delegation =
  qd_ValidatorAddress :: address
  qd_Shares :: Dec

datatype consensus_state = TendermintConsensus string | OtherConsensus

record icq_env =
  iq_DecodeInt :: "string \<Rightarrow> int option"
  iq_DecodeCoin :: "string \<Rightarrow> int option"
  iq_DecodeValidator :: "string \<Rightarrow> queried_validator option"
  iq_DecodeDelegation :: "string \<Rightarrow> queried_delegation option"
  iq_ParseChainID :: "string \<Rightarrow> uint64"
  iq_GetClientConsensusState :: "string \<Rightarrow> uint64 \<times> uint64 \<Rightarrow> consensus_state option"
  iq_ProofSpecs :: "string \<Rightarrow> string"
  iq_ConvertProofs :: "string \<Rightarrow> string option"
  iq_VerifyMembership :: "string \<Rightarrow> string \<Rightarrow> string \<Rightarrow> string list \<Rightarrow> string \<Rightarrow> bool"
    \<comment> \<open>proof, specs, root, path, value\<close>
  iq_VerifyNonMembership :: "string \<Rightarrow> string \<Rightarrow> string \<Rightarrow> string list \<Rightarrow> bool"

record MsgSubmitQueryResponse =
  sq_QueryId :: string
  sq_Result :: string
  sq_ProofOps :: "string option"
  sq_Height :: int

text \<open>\<open>strings.Split(s, "/")\<close> and \<open>url.PathEscape\<close>.\<close>

fun split_slash :: "string \<Rightarrow> string list" where
  "split_slash [] = [[]]"
| "split_slash (x # xs) =
     (if x = CHR ''/'' then [] # split_slash xs
      else case split_slash xs of p # ps \<Rightarrow> (x # p) # ps | [] \<Rightarrow> [[x]])"

definition hex_digit :: "nat \<Rightarrow> char" where
  "hex_digit n = (if n < 10 then char_of (48 + n) else char_of (55 + n))"

definition path_plain :: "char \<Rightarrow> bool" where
  "path_plain c \<longleftrightarrow> (CHR ''a'' \<le> c \<and> c \<le> CHR ''z'') \<or> (CHR ''A'' \<le> c \<and> c \<le> CHR ''Z'') \<or>
     (CHR ''0'' \<le> c \<and> c \<le> CHR ''9'') \<or> c \<in> set ''-_.~$&+=:@''"

definition PathEscape :: "string \<Rightarrow> string" where
  "PathEscape s = concat (map (\<lambda>c. if path_plain c then [c]
     else [CHR ''%'', hex_digit (of_char c div 16), hex_digit (of_char c mod 16)]) s)"

section \<open>Checking a response\<close>

definition VerifyKeyProof :: "env \<Rightarrow> icq_env \<Rightarrow> MsgSubmitQueryResponse \<Rightarrow> Query \<Rightarrow> unit res" where
  "VerifyKeyProof env iq msg query =
     (let pathParts = split_slash (q_QueryType query); bad = Err (InterchainQueryErr ErrInvalidICQProof) in
      if last pathParts \<noteq> ''key'' then Ok ()
      else case sq_ProofOps msg of
        None \<Rightarrow> bad
      | Some proofOps \<Rightarrow>
          rbind (ToUint64E (sq_Height msg)) (\<lambda>msgHeight.
          let height = (iq_ParseChainID iq (q_ChainId query), msgHeight + 1) in
          case e_GetConnection env (q_ConnectionId query) of
            None \<Rightarrow> bad
          | Some conn \<Rightarrow>
              (case iq_GetClientConsensusState iq (conn_ClientId conn) height of
                 None \<Rightarrow> bad
               | Some consensusState \<Rightarrow>
                   (case e_GetClientState env (conn_ClientId conn) of
                      None \<Rightarrow> bad
                    | Some clientState \<Rightarrow>
                        (case (consensusState, clientState) of
                           (TendermintConsensus stateRoot, TendermintClient _ _) \<Rightarrow>
                             if length pathParts < 2 then Panic
                             else
                               let path = [pathParts ! 1, PathEscape (q_Request query)];
                                   specs = iq_ProofSpecs iq (conn_ClientId conn) in
                               (case iq_ConvertProofs iq proofOps of
                                  None \<Rightarrow> bad
                                | Some merkleProof \<Rightarrow>
                                    if sq_Result msg \<noteq> '''' then
                                      (if iq_VerifyMembership iq merkleProof specs stateRoot path (sq_Result msg) then Ok () else bad)
                                    else
                                      (if iq_VerifyNonMembership iq merkleProof specs stateRoot path then Ok () else bad))
                         | _ \<Rightarrow> bad)))))"

definition UnmarshalAmountFromBalanceQuery :: "icq_env \<Rightarrow> string \<Rightarrow> int res" where
  "UnmarshalAmountFromBalanceQuery iq queryResponseBz =
     (if queryResponseBz = '''' then Ok 0
      else case iq_DecodeInt iq queryResponseBz of
        Some amount \<Rightarrow> Ok amount
      | None \<Rightarrow>
          (case iq_DecodeCoin iq queryResponseBz of
             Some amount \<Rightarrow> Ok amount
           | None \<Rightarrow> Err (Sdk ErrInvalidRequest)))"

section \<open>Rewards and fees\<close>

definition split_rewards :: "uint64 \<Rightarrow> int \<Rightarrow> (int \<times> int) res" where
  "split_rewards commission withdrawalBalanceAmount =
     rbind (ToInt64E commission) (\<lambda>strideCommissionInt.
     rbind (Dec_Quo (NewDec strideCommissionInt) (NewDec 100)) (\<lambda>strideCommission.
     if strideCommission < ZeroDec \<or> OneDec < strideCommission then Err (Sdk ErrInvalidRequest)
     else
       rbind (Dec_Mul strideCommission (NewDecFromInt withdrawalBalanceAmount)) (\<lambda>fee.
       rbind (Dec_TruncateInt fee) (\<lambda>feeAmount.
       rbind (Int_Sub withdrawalBalanceAmount feeAmount) (\<lambda>reinvestAmount.
       rbind (Int_Add feeAmount reinvestAmount) (\<lambda>total.
       if total \<noteq> withdrawalBalanceAmount then Err (Sdk ErrInvalidRequest)
       else Ok (feeAmount, reinvestAmount)))))))"

definition send_if_positive :: "address \<Rightarrow> address \<Rightarrow> denom \<times> int \<Rightarrow> ica_msg list res" where
  "send_if_positive from to coin =
     (if 0 < snd coin then rbind (NewCoins [coin]) (\<lambda>coins. Ok [MsgSend from to coins]) else Ok [])"

definition WithdrawalBalanceCallback :: "env \<Rightarrow> icq_env \<Rightarrow> string \<Rightarrow> Query \<Rightarrow> (chain, unit) go" where
  "WithdrawalBalanceCallback env iq args query =
     (let chainId = q_ChainId query in
     go_bind (go_gets (\<lambda>c. GetHostZone c chainId)) (\<lambda>found.
     go_bind (go_found found (StakeIBCErr ErrHostZoneNotFound)) (\<lambda>hostZone.
     go_bind (go_lift (UnmarshalAmountFromBalanceQuery iq args)) (\<lambda>withdrawalBalanceAmount.
     if withdrawalBalanceAmount \<le> 0 then go_ret ()
     else
       go_bind (go_found (registered (hz_WithdrawalAccount hostZone)) (StakeIBCErr ErrICAAccountNotFound)) (\<lambda>withdrawalAccount.
       go_bind (go_found (registered (hz_DelegationAccount hostZone)) (StakeIBCErr ErrICAAccountNotFound)) (\<lambda>delegationAccount.
       go_bind (go_found (registered (hz_FeeAccount hostZone)) (StakeIBCErr ErrICAAccountNotFound)) (\<lambda>feeAccount.
       go_bind (go_lift (split_rewards (prm_StrideCommission (e_params env)) withdrawalBalanceAmount)) (\<lambda>(feeAmount, reinvestAmount).
       go_bind (go_lift (NewCoin (hz_HostDenom hostZone) feeAmount)) (\<lambda>feeCoin.
       go_bind (go_lift (NewCoin (hz_HostDenom hostZone) reinvestAmount)) (\<lambda>reinvestCoin.
       go_bind (go_lift (send_if_positive (ica_Address withdrawalAccount) (ica_Address feeAccount) feeCoin)) (\<lambda>feeMsgs.
       go_bind (go_lift (send_if_positive (ica_Address withdrawalAccount) (ica_Address delegationAccount) reinvestCoin)) (\<lambda>reinvestMsgs.
       go_bind (go_wrap (StakeIBCErr ErrICATxFailed) (SubmitTxsStrideEpoch env (hz_ConnectionId hostZone) (feeMsgs @ reinvestMsgs)
         withdrawalAccount ''reinvest'' (Some (ReinvestArgs \<lparr>rcb_ReinvestAmount = reinvestCoin,
           rcb_HostZoneId = hz_ChainId hostZone\<rparr>)))) (\<lambda>_.
       go_ret ())))))))))))))"

definition FeeBalanceCallback :: "env \<Rightarrow> icq_env \<Rightarrow> string \<Rightarrow> Query \<Rightarrow> (chain, unit) go" where
  "FeeBalanceCallback env iq args query =
     (let chainId = q_ChainId query in
     go_bind (go_gets (\<lambda>c. GetHostZone c chainId)) (\<lambda>found.
     go_bind (go_found found (StakeIBCErr ErrHostZoneNotFound)) (\<lambda>hostZone.
     go_bind (go_lift (UnmarshalAmountFromBalanceQuery iq args)) (\<lambda>feeBalanceAmount.
     if feeBalanceAmount \<le> 0 then go_ret ()
     else
       go_bind (go_found (registered (hz_FeeAccount hostZone)) (StakeIBCErr ErrICAAccountNotFound)) (\<lambda>feeAccount.
       go_bind (\<lambda>c. (GetICATimeoutNanos env c STRIDE_EPOCH, c)) (\<lambda>timeout.
       go_bind (go_found (e_GetCounterpartyChannel env ''transfer'' (hz_TransferChannelId hostZone)) Plain) (\<lambda>counterpartyChannelId.
       go_bind (go_lift (NewCoin (hz_HostDenom hostZone) feeBalanceAmount)) (\<lambda>rewardsCoin.
       case be_module (e_bank env) ''reward_collector'' of
         None \<Rightarrow> go_panic
       | Some rewardsCollectorAddress \<Rightarrow>
           go_bind (go_wrap (StakeIBCErr ErrICATxFailed) (SubmitTxsStrideEpoch env (hz_ConnectionId hostZone)
             [IcaTransfer \<lparr>mt_SourcePort = ''transfer'', mt_SourceChannel = counterpartyChannelId, mt_Token = rewardsCoin,
               mt_Sender = ica_Address feeAccount, mt_Receiver = e_EncodeBech32 env ''stride'' rewardsCollectorAddress,
               mt_TimeoutTimestamp = timeout\<rparr>]
             feeAccount ''reinvest'' None)) (\<lambda>_.
           go_ret ())))))))))"

definition FeeAccount_address :: string where
  "FeeAccount_address = ''stride1czvrk3jkvtj8m27kqsqu2yrkhw3h3ykwj3rxh6''"

text \<open>\<open>ClearBalance\<close> sends the amount of the message from a zone's fee account home.\<close>

definition ClearBalance :: "env \<Rightarrow> string \<Rightarrow> int \<Rightarrow> string \<Rightarrow> (chain, unit) go" where
  "ClearBalance env chainId amount channel =
     go_bind (go_gets (\<lambda>c. GetHostZone c chainId)) (\<lambda>found.
     go_bind (go_found found (StakeIBCErr ErrInvalidHostZone)) (\<lambda>zone.
     go_bind (go_found (hz_FeeAccount zone) (StakeIBCErr ErrFeeAccountNotRegistered)) (\<lambda>feeAccount.
     go_bind (go_guard (e_ParseCoin env amount (hz_HostDenom zone)) Plain) (\<lambda>_.
     go_bind (SubmitTxs env (hz_ConnectionId zone)
       [IcaTransfer \<lparr>mt_SourcePort = ''transfer'', mt_SourceChannel = channel, mt_Token = (hz_HostDenom zone, amount),
         mt_Sender = ica_Address feeAccount, mt_Receiver = FeeAccount_address,
         mt_TimeoutTimestamp = ToUint64 (e_blockTime env) + prm_FeeTransferTimeoutNanos (e_params env)\<rparr>]
       feeAccount (ToUint64 (e_blockTime env) + prm_IcaTimeoutNanos (e_params env)) '''' None) (\<lambda>_.
     go_ret ())))))"

section \<open>Slashes\<close>

definition Dec_MulInt :: "Dec \<Rightarrow> int \<Rightarrow> Dec res" where
  "Dec_MulInt d i = (if BitLen (d * i) > maxDecBitLen then Panic else Ok (d * i))"

definition TokensFromShares :: "queried_validator \<Rightarrow> Dec \<Rightarrow> Dec res" where
  "TokensFromShares v shares = rbind (Dec_MulInt shares (qv_Tokens v)) (\<lambda>m. Dec_Quo m (qv_DelegatorShares v))"

definition ValidatorExchangeRateCallback :: "env \<Rightarrow> icq_env \<Rightarrow> string \<Rightarrow> Query \<Rightarrow> (chain, unit) go" where
  "ValidatorExchangeRateCallback env iq args query =
     go_bind (go_gets (\<lambda>c. GetHostZone c (q_ChainId query))) (\<lambda>found.
     go_bind (go_found found (StakeIBCErr ErrHostZoneNotFound)) (\<lambda>hostZone.
     go_bind (go_found (iq_DecodeValidator iq args) (StakeIBCErr ErrMarshalFailure)) (\<lambda>queriedValidator.
     go_bind (require_buffer_window env) (\<lambda>_.
     go_bind (go_found (GetValidatorFromAddress (hz_Validators hostZone) (qv_OperatorAddress queriedValidator))
       (StakeIBCErr ErrValidatorNotFound)) (\<lambda>(validator, valIndex).
     go_bind (go_gets (\<lambda>c. GetEpochTracker c STRIDE_EPOCH)) (\<lambda>found.
     go_bind (go_found found (Sdk ErrNotFound)) (\<lambda>strideEpochTracker.
     go_bind (go_guard (qv_DelegatorShares queriedValidator \<noteq> 0) (StakeIBCErr ErrDivisionByZero)) (\<lambda>_.
     go_bind (go_lift (TokensFromShares queriedValidator (NewDec 1))) (\<lambda>rate.
     let validator' = validator\<lparr>val_InternalExchangeRate :=
           Some \<lparr>ver_InternalTokensToSharesRate = rate, ver_EpochNumber = et_EpochNumber strideEpochTracker\<rparr>\<rparr>;
         hostZone' = hostZone\<lparr>hz_Validators := (hz_Validators hostZone)[valIndex := validator']\<rparr> in
     go_bind (go_modify (SetHostZone hostZone')) (\<lambda>_.
     go_wrap (StakeIBCErr ErrICQFailed) (QueryDelegationsIcq env hostZone' (qv_OperatorAddress queriedValidator))))))))))))"

text \<open>\<open>Int.Uint64\<close> panics out of range.\<close>

definition Int_Uint64 :: "int \<Rightarrow> uint64 res" where
  "Int_Uint64 x = (if 0 \<le> x \<and> x < 2 ^ 64 then Ok (word_of_int x) else Panic)"

text \<open>The validator after a slash of \<open>slashAmount\<close>: the branch past the precision check.\<close>

definition slash_validator :: "env \<Rightarrow> int \<Rightarrow> Validator \<Rightarrow> (Validator \<times> int) res" where
  "slash_validator env delegatedTokens validator =
     rbind (Int_Sub (val_DelegationAmt validator) delegatedTokens) (\<lambda>slashAmount.
     rbind (Dec_Quo (NewDecFromInt slashAmount) (NewDecFromInt (val_DelegationAmt validator))) (\<lambda>slashPct.
     rbind (ToInt64E (prm_SafetyMaxSlashPercent (e_params env))) (\<lambda>slashThreshold.
     rbind (Dec_Quo (NewDec slashThreshold) (NewDec 100)) (\<lambda>slashThresholdDecimal.
     if slashThresholdDecimal < slashPct then Err (StakeIBCErr ErrSlashExceedsSafetyThreshold)
     else
       (case ToInt64E (val_Weight validator) of
          Ok weight \<Rightarrow>
            rbind (Dec_Quo (NewDecFromInt delegatedTokens) (NewDecFromInt (val_DelegationAmt validator))) (\<lambda>weightAdjustment.
            rbind (Dec_Mul (NewDec weight) weightAdjustment) (\<lambda>w.
            rbind (Dec_TruncateInt w) (\<lambda>n.
            rbind (Int_Uint64 n) (\<lambda>newWeight.
            rbind (Int_Sub (val_DelegationAmt validator) slashAmount) (\<lambda>amt.
            Ok (validator\<lparr>val_Weight := newWeight, val_DelegationAmt := amt\<rparr>, slashAmount))))))
        | _ \<Rightarrow> Err (StakeIBCErr ErrIntCast))))))"

definition DelegatorSharesCallback :: "env \<Rightarrow> icq_env \<Rightarrow> string \<Rightarrow> Query \<Rightarrow> (chain, unit) go" where
  "DelegatorSharesCallback env iq args query =
     go_bind (go_gets (\<lambda>c. GetHostZone c (q_ChainId query))) (\<lambda>found.
     go_bind (go_found found (StakeIBCErr ErrHostZoneNotFound)) (\<lambda>hostZone.
     go_bind (go_found (iq_DecodeDelegation iq args) (StakeIBCErr ErrMarshalFailure)) (\<lambda>queriedDelegation.
     go_bind (require_buffer_window env) (\<lambda>_.
     go_bind (go_found (GetValidatorFromAddress (hz_Validators hostZone) (qd_ValidatorAddress queriedDelegation))
       (StakeIBCErr ErrValidatorNotFound)) (\<lambda>(validator, valIndex).
     go_bind (go_gets (\<lambda>c. GetEpochTracker c STRIDE_EPOCH)) (\<lambda>found.
     go_bind (go_found found (Sdk ErrNotFound)) (\<lambda>strideEpochTracker.
     case val_InternalExchangeRate validator of
       None \<Rightarrow> go_panic
     | Some exchangeRate \<Rightarrow>
         go_bind (go_guard (ver_EpochNumber exchangeRate = et_EpochNumber strideEpochTracker) (Sdk ErrInvalidRequest)) (\<lambda>_.
         go_bind (go_lift (Dec_Mul (qd_Shares queriedDelegation) (ver_InternalTokensToSharesRate exchangeRate))) (\<lambda>tokens.
         go_bind (go_lift (Dec_TruncateInt tokens)) (\<lambda>delegatedTokens.
         if delegatedTokens = val_DelegationAmt validator then go_ret ()
         else
           go_bind (go_lift (Int_Sub delegatedTokens (val_DelegationAmt validator))) (\<lambda>precisionError.
           if 0 < precisionError \<and> precisionError \<le> 25 then
             go_bind (go_lift (Int_Add (val_DelegationAmt validator) precisionError)) (\<lambda>amt.
             go_bind (go_lift (Int_Add (hz_StakedBal hostZone) precisionError)) (\<lambda>stakedBal.
             go_modify (SetHostZone (hostZone\<lparr>hz_StakedBal := stakedBal,
               hz_Validators := (hz_Validators hostZone)[valIndex := validator\<lparr>val_DelegationAmt := amt\<rparr>]\<rparr>))))
           else if val_DelegationAmt validator < delegatedTokens then go_fail (Sdk ErrInvalidRequest)
           else
             go_bind (go_lift (slash_validator env delegatedTokens validator)) (\<lambda>(validator', slashAmount).
             go_bind (go_lift (Int_Sub (hz_StakedBal hostZone) slashAmount)) (\<lambda>stakedBal.
             go_modify (SetHostZone (hostZone\<lparr>hz_StakedBal := stakedBal,
               hz_Validators := (hz_Validators hostZone)[valIndex := validator']\<rparr>)))))))))))))))"

section \<open>Handling a response\<close>

definition CallICQCallback :: "env \<Rightarrow> icq_env \<Rightarrow> string \<Rightarrow> string \<Rightarrow> Query \<Rightarrow> (chain, unit) go" where
  "CallICQCallback env iq i args query =
     (if i = ''withdrawalbalance'' then WithdrawalBalanceCallback env iq args query
      else if i = ''feebalance'' then FeeBalanceCallback env iq args query
      else if i = ''delegation'' then DelegatorSharesCallback env iq args query
      else if i = ''validator'' then ValidatorExchangeRateCallback env iq args query
      else go_panic)"

definition InvokeCallback :: "env \<Rightarrow> icq_env \<Rightarrow> MsgSubmitQueryResponse \<Rightarrow> Query \<Rightarrow> (chain, unit) go" where
  "InvokeCallback env iq msg query =
     (if HasICQCallback (q_CallbackId query) then CallICQCallback env iq (q_CallbackId query) (sq_Result msg) query
      else go_fail (InterchainQueryErr ErrICQCallbackNotFound))"

definition SubmitQueryResponse :: "env \<Rightarrow> icq_env \<Rightarrow> MsgSubmitQueryResponse \<Rightarrow> (chain, unit) go" where
  "SubmitQueryResponse env iq msg =
     go_bind (go_gets (\<lambda>c. GetQuery c (sq_QueryId msg))) (\<lambda>found.
     case found of
       None \<Rightarrow> go_ret ()
     | Some query \<Rightarrow>
         go_bind (go_lift (VerifyKeyProof env iq msg query)) (\<lambda>_.
         go_bind (go_modify (DeleteQuery (q_Id query))) (\<lambda>_.
         go_bind (go_lift (ToUint64E (e_blockTime env))) (\<lambda>currBlockTime.
         if q_Ttl query < currBlockTime then go_ret ()
         else if sq_Result msg = '''' then go_ret ()
         else InvokeCallback env iq msg query))))"

text \<open>The events of the end blocker are the queries it announces.\<close>

definition icq_EndBlocker :: "chain \<Rightarrow> Query list \<times> chain" where
  "icq_EndBlocker c =
     (let events = filter (\<lambda>query. \<not> q_RequestSent query) (AllQueries c) in
      (events, fold (\<lambda>query. SetQuery (query\<lparr>q_RequestSent := True\<rparr>)) events c))"

definition PendingQueries :: "chain \<Rightarrow> Query list" where
  "PendingQueries c = filter q_RequestSent (AllQueries c)"

definition icq_InitGenesis :: "Query list \<Rightarrow> chain \<Rightarrow> chain" where
  "icq_InitGenesis queries c = fold SetQuery queries c"

definition icq_ExportGenesis :: "chain \<Rightarrow> Query list" where
  "icq_ExportGenesis c = AllQueries c"

section \<open>Rewards are split exactly\<close>

lemma split_rewards_Ok:
  assumes "split_rewards w x = Ok (f, g)" "0 \<le> x"
  shows "f = uint w * x div 100" "f + g = x" "uint w \<le> 100"
proof -
  let ?n = "uint w"
  have n: "?n < 2 ^ 63" "0 \<le> ?n" using assms(1) by (auto simp: split_rewards_def rbind_eq_Ok ToInt64E_Ok)
  have q: "Dec_Quo (NewDec ?n) (NewDec 100) = Ok (?n * 10 ^ 16)" using n by (intro Dec_Quo_percent) auto
  from assms(1) n have le: "\<not> OneDec < ?n * 10 ^ 16" and g: "g = x - f"
    and f: "f = chopPrecisionAndTruncate (chopPrecisionAndRound (?n * 10 ^ 16 * NewDecFromInt x))"
    by (auto simp: split_rewards_def rbind_eq_Ok ToInt64E_def q Dec_Mul_Ok Dec_TruncateInt_Ok Int_Sub_Ok Int_Add_Ok split: if_splits)
  show "uint w \<le> 100" using le by (simp add: OneDec_def precisionReuse_def)
  have "?n * 10 ^ 16 * NewDecFromInt x = (?n * 10 ^ 16 * x) * precisionReuse" by (simp add: NewDecFromInt_def)
  then have "chopPrecisionAndRound (?n * 10 ^ 16 * NewDecFromInt x) = ?n * 10 ^ 16 * x"
    by (simp only: chopPrecisionAndRound_exact)
  then have "f = (?n * 10 ^ 16 * x) div precisionReuse"
    unfolding f using assms(2) n(2) by (simp add: truncate_nonneg)
  also have "(?n * 10 ^ 16 * x) div precisionReuse = (?n * x * 10 ^ 16) div (100 * 10 ^ 16)"
    by (simp add: precisionReuse_def mult.commute mult.left_commute)
  also have "\<dots> = ?n * x div 100" by (rule div_mult_mult2) simp
  finally show "f = uint w * x div 100" .
  show "f + g = x" using g by simp
qed

lemma SubmitTxsStrideEpoch_OkE:
  assumes "SubmitTxsStrideEpoch env conn msgs acc cbId args c = (Ok seq, t)"
  obtains tmo where "SubmitTxs env conn msgs acc tmo cbId args c = (Ok seq, t)"
  using assms by (auto simp: SubmitTxsStrideEpoch_def SubmitTxsEpoch_def go_simps)

lemma send_if_positive_eq:
  "ValidateDenom d \<Longrightarrow> 0 \<le> x \<Longrightarrow> send_if_positive a b (d, x) = Ok (if 0 < x then [MsgSend a b [(d, x)]] else [])"
  by (simp add: send_if_positive_def NewCoins_single)

lemma rewards_split_spec:
  assumes run: "WithdrawalBalanceCallback env iq args query c = (Ok (), t)"
    and x: "UnmarshalAmountFromBalanceQuery iq args = Ok x" "0 < x"
  shows "\<exists>z w d f fee reinvest msg k cb. GetHostZone c (q_ChainId query) = Some z \<and>
    registered (hz_WithdrawalAccount z) = Some w \<and> registered (hz_DelegationAccount z) = Some d \<and> registered (hz_FeeAccount z) = Some f \<and>
    fee = uint (prm_StrideCommission (e_params env)) * x div 100 \<and> fee + reinvest = x \<and> 0 \<le> fee \<and> 0 \<le> reinvest \<and>
    c_outbox t = c_outbox c @ [msg] \<and>
    tx_Msgs msg = (if 0 < fee then [MsgSend (ica_Address w) (ica_Address f) [(hz_HostDenom z, fee)]] else []) @
      (if 0 < reinvest then [MsgSend (ica_Address w) (ica_Address d) [(hz_HostDenom z, reinvest)]] else []) \<and>
    GetCallbackData t k = Some cb \<and>
    cb_CallbackArgs cb = ReinvestArgs \<lparr>rcb_ReinvestAmount = (hz_HostDenom z, reinvest), rcb_HostZoneId = hz_ChainId z\<rparr> \<and>
    ica_frame c t"
proof -
  obtain z w d f fee reinvest fm rm seq where z: "GetHostZone c (q_ChainId query) = Some z"
      "registered (hz_WithdrawalAccount z) = Some w" "registered (hz_DelegationAccount z) = Some d" "registered (hz_FeeAccount z) = Some f"
    and s: "split_rewards (prm_StrideCommission (e_params env)) x = Ok (fee, reinvest)"
    and v: "ValidateDenom (hz_HostDenom z)" "0 \<le> fee" "0 \<le> reinvest"
    and m: "send_if_positive (ica_Address w) (ica_Address f) (hz_HostDenom z, fee) = Ok fm"
      "send_if_positive (ica_Address w) (ica_Address d) (hz_HostDenom z, reinvest) = Ok rm"
    and t: "SubmitTxsStrideEpoch env (hz_ConnectionId z) (fm @ rm) w ''reinvest''
      (Some (ReinvestArgs \<lparr>rcb_ReinvestAmount = (hz_HostDenom z, reinvest), rcb_HostZoneId = hz_ChainId z\<rparr>)) c = (Ok seq, t)"
    using run x unfolding WithdrawalBalanceCallback_def Let_def
    by (auto simp: go_bind_eq_Ok go_gets_eq go_found_eq go_lift_eq go_wrap_eq_Ok go_ret_eq NewCoin_Ok split: option.splits if_splits)
  obtain tmo where t': "SubmitTxs env (hz_ConnectionId z) (fm @ rm) w tmo ''reinvest''
      (Some (ReinvestArgs \<lparr>rcb_ReinvestAmount = (hz_HostDenom z, reinvest), rcb_HostZoneId = hz_ChainId z\<rparr>)) c = (Ok seq, t)"
    using t by (rule SubmitTxsStrideEpoch_OkE)
  obtain msg ch where msg: "tx_Msgs msg = fm @ rm"
      "t = SetCallbackData \<lparr>cb_CallbackKey = PacketID (''icacontroller-'' @ tx_Owner msg) ch seq,
          cb_PortId = ''icacontroller-'' @ tx_Owner msg, cb_ChannelId = ch, cb_Sequence = seq, cb_CallbackId = ''reinvest'',
          cb_CallbackArgs = ReinvestArgs \<lparr>rcb_ReinvestAmount = (hz_HostDenom z, reinvest), rcb_HostZoneId = hz_ChainId z\<rparr>\<rparr>
        (c\<lparr>c_outbox := c_outbox c @ [msg]\<rparr>)"
    using t' by (rule SubmitTxs_OkE) simp
  have fr: "ica_frame c t" by (rule SubmitTxs_frame [OF t'])
  note sr = split_rewards_Ok [OF s less_imp_le [OF x(2)]]
  have out: "c_outbox t = c_outbox c @ [msg]" by (simp add: msg(2))
  have msgs: "tx_Msgs msg = (if 0 < fee then [MsgSend (ica_Address w) (ica_Address f) [(hz_HostDenom z, fee)]] else []) @
      (if 0 < reinvest then [MsgSend (ica_Address w) (ica_Address d) [(hz_HostDenom z, reinvest)]] else [])"
    using m v by (simp add: msg(1) send_if_positive_eq)
  have "GetCallbackData t (PacketID (''icacontroller-'' @ tx_Owner msg) ch seq) = Some \<lparr>cb_CallbackKey = PacketID (''icacontroller-'' @ tx_Owner msg) ch seq,
          cb_PortId = ''icacontroller-'' @ tx_Owner msg, cb_ChannelId = ch, cb_Sequence = seq, cb_CallbackId = ''reinvest'',
          cb_CallbackArgs = ReinvestArgs \<lparr>rcb_ReinvestAmount = (hz_HostDenom z, reinvest), rcb_HostZoneId = hz_ChainId z\<rparr>\<rparr>"
    by (simp add: msg(2))
  with z sr(1,2) v(2,3) out msgs fr show ?thesis
    by (intro exI conjI) (assumption | simp)+
qed

lemma WithdrawalBalance_sends:
  assumes "WithdrawalBalanceCallback env iq args query c = (Ok (), t)" "UnmarshalAmountFromBalanceQuery iq args = Ok x" "0 < x"
  shows "length (c_outbox t) = length (c_outbox c) + 1"
  using rewards_split_spec [OF assms] by auto

text \<open>When the withdrawal account of a zone is known to hold a positive balance and the
  callback succeeds, one transaction is sent that moves exactly that balance: the commission,
  rounded down, to the fee account and the rest to the delegation account, never a coin of zero. The
  callback stored with it carries the reinvested part. Bank, records, zones and queries stay.\<close>

theorem rewards_split_exactly:
  assumes run: "WithdrawalBalanceCallback env iq args query c = (Ok (), t)"
    and x: "UnmarshalAmountFromBalanceQuery iq args = Ok x" "0 < x"
  shows "\<exists>z w d f fee reinvest msg k cb. GetHostZone c (q_ChainId query) = Some z \<and>
    registered (hz_WithdrawalAccount z) = Some w \<and> registered (hz_DelegationAccount z) = Some d \<and> registered (hz_FeeAccount z) = Some f \<and>
    fee = uint (prm_StrideCommission (e_params env)) * x div 100 \<and> fee + reinvest = x \<and> 0 \<le> fee \<and> 0 \<le> reinvest \<and>
    c_outbox t = c_outbox c @ [msg] \<and>
    tx_Msgs msg = (if 0 < fee then [MsgSend (ica_Address w) (ica_Address f) [(hz_HostDenom z, fee)]] else []) @
      (if 0 < reinvest then [MsgSend (ica_Address w) (ica_Address d) [(hz_HostDenom z, reinvest)]] else []) \<and>
    GetCallbackData t k = Some cb \<and>
    cb_CallbackArgs cb = ReinvestArgs \<lparr>rcb_ReinvestAmount = (hz_HostDenom z, reinvest), rcb_HostZoneId = hz_ChainId z\<rparr> \<and>
    ica_frame c t"
  using assms by (rule rewards_split_spec)

section \<open>Only proved responses act\<close>

text \<open>Property C18. A response to a key query changes more than removing the query only if its value is
  proved: the host chain's consensus state one block above the response's height is known, and the
  Merkle proof shows the non-empty value under the queried key in the queried store, and the query has
  not expired. A response without a query is ignored.\<close>

theorem only_proved_responses_act:
  assumes run: "SubmitQueryResponse env iq msg c = (r, t)" and q: "GetQuery c (sq_QueryId msg) = Some query"
    and key: "last (split_slash (q_QueryType query)) = ''key''" and acts: "t \<noteq> c" "t \<noteq> DeleteQuery (q_Id query) c"
  shows "sq_Result msg \<noteq> '''' \<and> 0 \<le> e_blockTime env \<and> word_of_int (e_blockTime env) \<le> q_Ttl query \<and>
    (\<exists>h conn root proofOps pf. ToUint64E (sq_Height msg) = Ok h \<and> sq_ProofOps msg = Some proofOps \<and>
      e_GetConnection env (q_ConnectionId query) = Some conn \<and>
      iq_GetClientConsensusState iq (conn_ClientId conn) (iq_ParseChainID iq (q_ChainId query), h + 1) = Some (TendermintConsensus root) \<and>
      iq_ConvertProofs iq proofOps = Some pf \<and>
      iq_VerifyMembership iq pf (iq_ProofSpecs iq (conn_ClientId conn)) root
        [split_slash (q_QueryType query) ! 1, PathEscape (q_Request query)] (sq_Result msg))"
proof -
  have v: "VerifyKeyProof env iq msg query = Ok ()"
    using run q acts(1) by (cases "VerifyKeyProof env iq msg query") (auto simp: SubmitQueryResponse_def go_defs)
  have rest: "sq_Result msg \<noteq> ''''" "0 \<le> e_blockTime env" "word_of_int (e_blockTime env) \<le> q_Ttl query"
    using run q acts v by (auto simp: SubmitQueryResponse_def go_defs ToUint64E_def split: if_splits)
  obtain proofOps h where p: "sq_ProofOps msg = Some proofOps" "ToUint64E (sq_Height msg) = Ok h"
    using v key by (cases "sq_ProofOps msg"; cases "ToUint64E (sq_Height msg)") (auto simp: VerifyKeyProof_def Let_def)
  obtain conn where c: "e_GetConnection env (q_ConnectionId query) = Some conn"
    using v key p by (cases "e_GetConnection env (q_ConnectionId query)") (auto simp: VerifyKeyProof_def Let_def)
  let ?cons = "iq_GetClientConsensusState iq (conn_ClientId conn) (iq_ParseChainID iq (q_ChainId query), h + 1)"
  obtain cons where cons: "?cons = Some cons"
    using v key p c by (cases ?cons) (auto simp: VerifyKeyProof_def Let_def)
  obtain cl where cl: "e_GetClientState env (conn_ClientId conn) = Some cl"
    using v key p c cons by (cases "e_GetClientState env (conn_ClientId conn)") (auto simp: VerifyKeyProof_def Let_def)
  obtain root i n where root: "cons = TendermintConsensus root" "cl = TendermintClient i n"
    using v key p c cons cl by (cases cons; cases cl) (auto simp: VerifyKeyProof_def Let_def)
  obtain pf where "iq_ConvertProofs iq proofOps = Some pf"
      "iq_VerifyMembership iq pf (iq_ProofSpecs iq (conn_ClientId conn)) root
        [split_slash (q_QueryType query) ! 1, PathEscape (q_Request query)] (sq_Result msg)"
    using v key p c cons cl root rest(1) by (auto simp: VerifyKeyProof_def Let_def split: if_split_asm option.split_asm)
  with p c cons root have "\<exists>h conn root proofOps pf. ToUint64E (sq_Height msg) = Ok h \<and> sq_ProofOps msg = Some proofOps \<and>
      e_GetConnection env (q_ConnectionId query) = Some conn \<and>
      iq_GetClientConsensusState iq (conn_ClientId conn) (iq_ParseChainID iq (q_ChainId query), h + 1) = Some (TendermintConsensus root) \<and>
      iq_ConvertProofs iq proofOps = Some pf \<and>
      iq_VerifyMembership iq pf (iq_ProofSpecs iq (conn_ClientId conn)) root
        [split_slash (q_QueryType query) ! 1, PathEscape (q_Request query)] (sq_Result msg)"
    by blast
  with rest show ?thesis by blast
qed

section \<open>A balance of 1005 is reported\<close>

definition demo_icq_env :: icq_env where
  "demo_icq_env = \<lparr>iq_DecodeInt = (\<lambda>s. if s = ''b'' then Some 1005 else None), iq_DecodeCoin = (\<lambda>_. None),
     iq_DecodeValidator = (\<lambda>_. None), iq_DecodeDelegation = (\<lambda>_. None), iq_ParseChainID = (\<lambda>_. 0),
     iq_GetClientConsensusState = (\<lambda>i h. if h = (0, 42) then Some (TendermintConsensus ''root'') else None),
     iq_ProofSpecs = (\<lambda>_. ''specs''), iq_ConvertProofs = Some,
     iq_VerifyMembership = (\<lambda>p sp r path v. p = ''ok'' \<and> path = [''bank'', ''%02bal'']),
     iq_VerifyNonMembership = (\<lambda>_ _ _ _. False)\<rparr>"

definition demo_query :: Query where
  "demo_query = \<lparr>q_Id = ''q'', q_ConnectionId = ''connection-0'', q_ChainId = ''GAIA'', q_QueryType = ''store/bank/key'',
     q_Request = char_of (2::nat) # ''bal'', q_CallbackId = ''withdrawalbalance'', q_Ttl = 1950, q_RequestSent = True\<rparr>"

definition demo_response :: MsgSubmitQueryResponse where
  "demo_response = \<lparr>sq_QueryId = ''q'', sq_Result = ''b'', sq_ProofOps = Some ''ok'', sq_Height = 41\<rparr>"

definition query_chain :: chain where
  "query_chain = SetQuery demo_query (demo_chain [demo_validator ''v1'' 1 500])"

lemma query_chain_simps [simp]:
  "GetHostZone (SetQuery q c) = GetHostZone c" "GetEpochTracker (SetQuery q c) = GetEpochTracker c"
  "GetHostZone (DeleteQuery i c) = GetHostZone c" "GetEpochTracker (DeleteQuery i c) = GetEpochTracker c"
  "c_outbox (DeleteQuery i c) = c_outbox c"
  by (simp_all add: fun_eq_iff GetHostZone_def GetEpochTracker_def SetQuery_def DeleteQuery_def)

lemma GetQuery_Set: "GetQuery (SetQuery q c) i = (if i = q_Id q then Some q else GetQuery c i)"
  by (simp add: GetQuery_def SetQuery_def)

lemma balance_run:
  assumes "GetHostZone c ''GAIA'' = Some (demo_zone vs)" "GetEpochTracker c STRIDE_EPOCH = Some (demo_tracker STRIDE_EPOCH)"
  shows "\<exists>t. WithdrawalBalanceCallback demo_env demo_icq_env ''b'' demo_query c = (Ok (), t)"
proof -
  have d: "UnmarshalAmountFromBalanceQuery demo_icq_env ''b'' = Ok 1005"
    by (simp add: UnmarshalAmountFromBalanceQuery_def demo_icq_env_def)
  have acc: "registered (hz_WithdrawalAccount (demo_zone vs)) = Some \<lparr>ica_Address = ''cosmos1withdrawal'', ica_Target = ICAAccountType_WITHDRAWAL\<rparr>"
    "registered (hz_DelegationAccount (demo_zone vs)) = Some \<lparr>ica_Address = ''cosmos1delegation'', ica_Target = ICAAccountType_DELEGATION\<rparr>"
    "registered (hz_FeeAccount (demo_zone vs)) = Some \<lparr>ica_Address = ''cosmos1fee'', ica_Target = ICAAccountType_FEE\<rparr>"
    "hz_ConnectionId (demo_zone vs) = ''connection-0''"
    by (simp_all add: demo_zone_def demo_account_def registered_def)
  have "Dec_Quo (NewDec 10) (NewDec 100) = Ok (10 * 10 ^ 16)" by (rule Dec_Quo_percent) auto
  moreover have "chopPrecisionAndRound (10 * 10 ^ 16 * (1005 * precisionReuse)) = 1005 * 10 ^ 17"
    using chopPrecisionAndRound_exact [of "1005 * 10 ^ 17"] by (simp add: mult.assoc)
  ultimately have s: "split_rewards (prm_StrideCommission (e_params demo_env)) 1005 = Ok (100, 905)"
    by (simp add: split_rewards_def DefaultParams_def ToInt64E_def ZeroDec_def OneDec_def precisionReuse_def Dec_Mul_def NewDecFromInt_def
        Let_def Dec_TruncateInt_def truncate_nonneg NewIntFromBigInt_eq Int_Sub_eq Int_Add_eq fits_def)
  have vd: "ValidateDenom ''uatom''" by (simp add: ValidateDenom_def denom_letter_def denom_char_def)
  have tm: "GetICATimeoutNanos demo_env c STRIDE_EPOCH = Ok 1800"
    using assms(2) by (simp add: GetICATimeoutNanos_def demo_tracker_def demo_env_def DefaultParams_def Let_def)
  obtain t where sub: "SubmitTxs demo_env ''connection-0'' [MsgSend ''cosmos1withdrawal'' ''cosmos1fee'' [(''uatom'', 100)],
      MsgSend ''cosmos1withdrawal'' ''cosmos1delegation'' [(''uatom'', 905)]]
      \<lparr>ica_Address = ''cosmos1withdrawal'', ica_Target = ICAAccountType_WITHDRAWAL\<rparr> 1800 ''reinvest''
      (Some (ReinvestArgs \<lparr>rcb_ReinvestAmount = (''uatom'', 905), rcb_HostZoneId = ''GAIA''\<rparr>)) c =
      (Ok (word_of_nat (length (c_outbox c) + 1)), t)"
    using demo_SubmitTxs_Ok by blast
  have "q_ChainId demo_query = ''GAIA''" by (simp add: demo_query_def)
  then show ?thesis
    unfolding WithdrawalBalanceCallback_def Let_def
    using assms(1) d acc s vd tm sub
    by (simp add: go_bind_def go_gets_def go_found_def go_lift_def go_wrap_def go_ret_def NewCoin_def send_if_positive_eq
        SubmitTxsStrideEpoch_def SubmitTxsEpoch_def)
qed

theorem rewards_split_exactly_witness:
  "\<exists>t msg. WithdrawalBalanceCallback demo_env demo_icq_env ''b'' demo_query (demo_chain [demo_validator ''v1'' 1 500]) = (Ok (), t) \<and>
     c_outbox t = [msg] \<and> tx_Msgs msg = [MsgSend ''cosmos1withdrawal'' ''cosmos1fee'' [(''uatom'', 100)],
       MsgSend ''cosmos1withdrawal'' ''cosmos1delegation'' [(''uatom'', 905)]]"
proof -
  let ?c = "demo_chain [demo_validator ''v1'' 1 500]"
  obtain t where run: "WithdrawalBalanceCallback demo_env demo_icq_env ''b'' demo_query ?c = (Ok (), t)"
    using balance_run [of ?c] by auto
  have d: "UnmarshalAmountFromBalanceQuery demo_icq_env ''b'' = Ok 1005"
    by (simp add: UnmarshalAmountFromBalanceQuery_def demo_icq_env_def)
  have o: "c_outbox ?c = []" by (simp add: demo_chain_def empty_chain_def SetEpochTracker_def)
  have z: "GetHostZone ?c (q_ChainId demo_query) = Some (demo_zone [demo_validator ''v1'' 1 500])" by (simp add: demo_query_def)
  have p: "uint (prm_StrideCommission (e_params demo_env)) * 1005 div 100 = 100" by (simp add: DefaultParams_def)
  have acc: "registered (hz_WithdrawalAccount (demo_zone vs)) = Some \<lparr>ica_Address = ''cosmos1withdrawal'', ica_Target = ICAAccountType_WITHDRAWAL\<rparr>"
    "registered (hz_DelegationAccount (demo_zone vs)) = Some \<lparr>ica_Address = ''cosmos1delegation'', ica_Target = ICAAccountType_DELEGATION\<rparr>"
    "registered (hz_FeeAccount (demo_zone vs)) = Some \<lparr>ica_Address = ''cosmos1fee'', ica_Target = ICAAccountType_FEE\<rparr>" for vs
    by (simp_all add: demo_zone_def demo_account_def registered_def)
  from rewards_split_exactly [OF run d] obtain reinvest msg where "100 + reinvest = (1005::int)" "c_outbox t = [msg]"
    "tx_Msgs msg = [MsgSend ''cosmos1withdrawal'' ''cosmos1fee'' [(''uatom'', 100)]] @
      (if 0 < reinvest then [MsgSend ''cosmos1withdrawal'' ''cosmos1delegation'' [(''uatom'', reinvest)]] else [])"
    unfolding z p o by (auto simp: acc)
  moreover from this(1) have "reinvest = 905" by simp
  ultimately show ?thesis using run by auto
qed

theorem only_proved_responses_act_witness:
  "\<exists>t. SubmitQueryResponse demo_env demo_icq_env demo_response query_chain = (Ok (), t) \<and> length (c_outbox t) = 1 \<and>
     iq_VerifyMembership demo_icq_env ''ok'' ''specs'' ''root'' [''bank'', ''%02bal''] ''b''"
proof -
  let ?c = "demo_chain [demo_validator ''v1'' 1 500]" and ?d = "DeleteQuery (q_Id demo_query) query_chain"
  have o: "c_outbox query_chain = []" "c_outbox ?d = []"
    by (simp_all add: query_chain_def demo_chain_def empty_chain_def SetEpochTracker_def)
  have q: "GetQuery query_chain (sq_QueryId demo_response) = Some demo_query"
    by (simp add: query_chain_def GetQuery_Set demo_query_def demo_response_def)
  have pe: "PathEscape (q_Request demo_query) = ''%02bal''" by (simp add: PathEscape_def demo_query_def path_plain_def hex_digit_def) code_simp
  have sp: "split_slash (q_QueryType demo_query) = [''store'', ''bank'', ''key'']" by (simp add: demo_query_def)
  have v: "VerifyKeyProof demo_env demo_icq_env demo_response demo_query = Ok ()"
    unfolding VerifyKeyProof_def sp pe Let_def
    by (simp add: demo_response_def demo_env_def demo_icq_env_def demo_query_def ToUint64E_def)
  obtain t where w: "WithdrawalBalanceCallback demo_env demo_icq_env ''b'' demo_query ?d = (Ok (), t)"
    using balance_run [of ?d] by (auto simp: query_chain_def)
  have b: "e_blockTime demo_env = 1900" by (simp add: demo_env_def)
  have run: "SubmitQueryResponse demo_env demo_icq_env demo_response query_chain = (Ok (), t)"
    unfolding SubmitQueryResponse_def go_bind_def go_gets_def go_lift_def go_modify_def q
    using v w by (simp add: b ToUint64E_def InvokeCallback_def HasICQCallback_def CallICQCallback_def)
      (simp add: demo_query_def demo_response_def)
  have x: "UnmarshalAmountFromBalanceQuery demo_icq_env ''b'' = Ok 1005"
    by (simp add: UnmarshalAmountFromBalanceQuery_def demo_icq_env_def)
  have out: "length (c_outbox t) = 1"
    using WithdrawalBalance_sends [OF w x] o by simp
  then have n: "t \<noteq> query_chain" "t \<noteq> ?d" using o by auto
  have "last (split_slash (q_QueryType demo_query)) = ''key''" by (simp add: sp)
  from only_proved_responses_act [OF run q this n] show ?thesis
    using run out unfolding sp pe by (auto simp: demo_icq_env_def demo_response_def)
qed

end
