(* ===== verification/Registration.thy ===== *)
theory Registration
  imports Queries
begin

text \<open>
  Registering a host zone (\<open>x/stakeibc/keeper/msg_server_register_host_zone.go\<close>) and
  restoring a closed interchain account
  (\<open>x/stakeibc/keeper/msg_server_restore_interchain_account.go\<close>), with the safe creation of
  module accounts of \<open>utils/module_account.go\<close>.

  The auth module's accounts are a parameter; that the account of the zone is stored there is not
  part of the chain state. The application version string of a channel is left out, since nothing
  but the ICA controller reads it.
\<close>

section \<open>Module accounts\<close>

definition CanCreateModuleAccountAtAddr :: "env \<Rightarrow> address \<Rightarrow> unit res" where
  "CanCreateModuleAccountAtAddr env addr =
     (case e_GetAccount env addr of
        None \<Rightarrow> Ok ()
      | Some existingAcct \<Rightarrow>
          if acc_Sequence existingAcct \<noteq> 0 \<or> acc_HasPubKey existingAcct then Err Plain
          else if acc_Type existingAcct \<in> {BaseAccount, DelayedVestingAccount, ContinuousVestingAccount,
            BaseVestingAccount, PeriodicVestingAccount, PermanentLockedAccount} then Ok ()
          else Err Plain)"

definition CreateModuleAccount :: "env \<Rightarrow> address \<Rightarrow> unit res" where
  "CreateModuleAccount env addr = rbind (CanCreateModuleAccountAtAddr env addr) (\<lambda>_. Ok ())"

definition NewZoneAddress :: "env \<Rightarrow> string \<Rightarrow> address" where
  "NewZoneAddress env chainId = e_ModuleAddress env ''stakeibc'' (''zone'' @ chainId)"

section \<open>Registering\<close>

record MsgRegisterHostZone =
  mrh_ConnectionId :: string
  mrh_Bech32Prefix :: string
  mrh_HostDenom :: denom
  mrh_IbcDenom :: denom
  mrh_Creator :: string
  mrh_TransferChannelId :: string
  mrh_UnbondingFrequency :: uint64
  mrh_MinRedemptionRate :: "Dec option"
  mrh_MaxRedemptionRate :: "Dec option"

definition ValidateAdminAddress :: "string set \<Rightarrow> string \<Rightarrow> unit res" where
  "ValidateAdminAddress Admins a = rguard (a \<in> Admins) (Sdk ErrInvalidAddress)"

text \<open>\<open>ValidateIBCDenom\<close> is a function of the IBC transfer application.\<close>

definition MsgRegisterHostZone_ValidateBasic ::
  "env \<Rightarrow> string set \<Rightarrow> (denom \<Rightarrow> bool) \<Rightarrow> MsgRegisterHostZone \<Rightarrow> unit res" where
  "MsgRegisterHostZone_ValidateBasic env Admins ValidateIBCDenom msg =
     (let req = Sdk ErrInvalidRequest; mn = mrh_MinRedemptionRate msg; mx = mrh_MaxRedemptionRate msg in
     rbind (rguard (res_ok (sdk_AccAddressFromBech32 env (mrh_Creator msg))) (Sdk ErrInvalidAddress)) (\<lambda>_.
     rbind (ValidateAdminAddress Admins (mrh_Creator msg)) (\<lambda>_.
     rbind (rguard (mrh_HostDenom msg \<noteq> '''') req) (\<lambda>_.
     rbind (rguard (ValidateDenom (mrh_HostDenom msg)) Plain) (\<lambda>_.
     rbind (rguard (mrh_IbcDenom msg \<noteq> '''') req) (\<lambda>_.
     rbind (rguard (HasPrefix (mrh_IbcDenom msg) ''ibc'') req) (\<lambda>_.
     rbind (rguard (ValidateIBCDenom (mrh_IbcDenom msg)) Plain) (\<lambda>_.
     rbind (rguard (\<not> list_all is_space (mrh_Bech32Prefix msg)) req) (\<lambda>_.
     rbind (rguard (mrh_ConnectionId msg \<noteq> '''') req) (\<lambda>_.
     rbind (rguard (HasPrefix (mrh_ConnectionId msg) ''connection'') req) (\<lambda>_.
     rbind (rguard (mrh_TransferChannelId msg \<noteq> '''') req) (\<lambda>_.
     rbind (rguard (HasPrefix (mrh_TransferChannelId msg) ''channel'') req) (\<lambda>_.
     rbind (rguard (\<not> mrh_UnbondingFrequency msg < 1) req) (\<lambda>_.
     rbind (rguard (case mn of Some m \<Rightarrow> \<not> m < 0 | None \<Rightarrow> True) req) (\<lambda>_.
     rbind (rguard (case mx of Some m \<Rightarrow> \<not> m < 0 | None \<Rightarrow> True) req) (\<lambda>_.
     rguard (case (mn, mx) of (Some a, Some b) \<Rightarrow> \<not> (a \<noteq> 0 \<and> b \<noteq> 0 \<and> b \<le> a) | _ \<Rightarrow> True) req))))))))))))))))"

text \<open>\<open>sdk.NewDecWithPrec(int64(x), 2)\<close>.\<close>

definition rate_or_default :: "Dec option \<Rightarrow> uint64 \<Rightarrow> Dec option" where
  "rate_or_default rate percent =
     (case rate of
        Some m \<Rightarrow> if m = 0 then Some (sint percent * 10 ^ 16) else Some m
      | None \<Rightarrow> Some (sint percent * 10 ^ 16))"

definition zone_conflict :: "MsgRegisterHostZone \<Rightarrow> HostZone \<Rightarrow> bool" where
  "zone_conflict msg hostZone \<longleftrightarrow>
     hz_HostDenom hostZone = mrh_HostDenom msg \<or> hz_ConnectionId hostZone = mrh_ConnectionId msg \<or>
     hz_TransferChannelId hostZone = mrh_TransferChannelId msg \<or> hz_Bech32Prefix hostZone = mrh_Bech32Prefix msg"

definition new_zone :: "env \<Rightarrow> MsgRegisterHostZone \<Rightarrow> string \<Rightarrow> HostZone" where
  "new_zone env msg chainId =
     \<lparr>hz_ChainId = chainId, hz_ConnectionId = mrh_ConnectionId msg, hz_Bech32Prefix = mrh_Bech32Prefix msg,
      hz_TransferChannelId = mrh_TransferChannelId msg, hz_Validators = [], hz_BlacklistedValidators = [],
      hz_WithdrawalAccount = None, hz_FeeAccount = None, hz_DelegationAccount = None, hz_RedemptionAccount = None,
      hz_IbcDenom = mrh_IbcDenom msg, hz_HostDenom = mrh_HostDenom msg,
      hz_LastRedemptionRate = NewDec 1, hz_RedemptionRate = NewDec 1,
      hz_UnbondingFrequency = mrh_UnbondingFrequency msg, hz_StakedBal = 0,
      hz_Address = e_EncodeBech32 env ''stride'' (NewZoneAddress env chainId), hz_Halted = False,
      hz_MinRedemptionRate = rate_or_default (mrh_MinRedemptionRate msg) (prm_DefaultMinRedemptionRateThreshold (e_params env)),
      hz_MaxRedemptionRate = rate_or_default (mrh_MaxRedemptionRate msg) (prm_DefaultMaxRedemptionRateThreshold (e_params env))\<rparr>"

definition register_account :: "env \<Rightarrow> HostZone \<Rightarrow> ICAAccountType \<Rightarrow> (chain, unit) go" where
  "register_account env zone accountType =
     go_wrap (StakeIBCErr ErrFailedToRegisterHostZone) (go_lift (e_RegisterInterchainAccount env (hz_ConnectionId zone)
       (FormatICAAccountOwner (hz_ChainId zone) accountType)))"

text \<open>The records a new zone needs on its first day.\<close>

definition new_zone_records :: "HostZone \<Rightarrow> (chain, unit) go" where
  "new_zone_records zone =
     go_bind (go_gets (\<lambda>c. GetEpochTracker c DAY_EPOCH)) (\<lambda>found.
     go_bind (go_found found (StakeIBCErr ErrEpochNotFound)) (\<lambda>dayEpochTracker.
     go_bind (go_gets (\<lambda>c. GetEpochUnbondingRecord (c_records c) (et_EpochNumber dayEpochTracker))) (\<lambda>found.
     go_bind (go_found found (RecordsErr ErrEpochUnbondingRecordNotFound)) (\<lambda>epochUnbondingRecord.
     let hostZoneUnbonding = \<lparr>hzu_StTokenAmount = 0, hzu_NativeTokenAmount = 0, hzu_Denom = hz_HostDenom zone,
           hzu_HostZoneId = hz_ChainId zone, hzu_UnbondingTime = 0, hzu_Status = UNBONDING_QUEUE,
           hzu_UserRedemptionRecords = []\<rparr> in
     go_bind (go_gets (\<lambda>c. AddHostZoneToEpochUnbondingRecord (c_records c) (eur_EpochNumber epochUnbondingRecord)
       (hz_ChainId zone) hostZoneUnbonding)) (\<lambda>updated.
     case updated of
       None \<Rightarrow> go_panic
     | Some updatedEpochUnbondingRecord \<Rightarrow>
         go_bind (go_modify (mod_records (SetEpochUnbondingRecord updatedEpochUnbondingRecord))) (\<lambda>_.
         go_bind (go_gets (\<lambda>c. GetEpochTracker c STRIDE_EPOCH)) (\<lambda>found.
         go_bind (go_found found (StakeIBCErr ErrEpochNotFound)) (\<lambda>strideEpochTracker.
         go_bind (on_records (AppendDepositRecord \<lparr>dr_Id = 0, dr_Amount = 0, dr_Denom = hz_HostDenom zone,
           dr_HostZoneId = hz_ChainId zone, dr_Status = TRANSFER_QUEUE,
           dr_DepositEpochNumber = et_EpochNumber strideEpochTracker, dr_Source = STRIDE\<rparr>)) (\<lambda>_.
         go_ret ())))))))))"

definition RegisterHostZone :: "env \<Rightarrow> MsgRegisterHostZone \<Rightarrow> (chain, unit) go" where
  "RegisterHostZone env msg =
     (let failed = StakeIBCErr ErrFailedToRegisterHostZone in
     go_bind (go_found (e_GetConnection env (mrh_ConnectionId msg)) failed) (\<lambda>connectionEnd.
     go_bind (go_wrap failed (go_lift (GetChainID env (mrh_ConnectionId msg)))) (\<lambda>chainId.
     go_bind (go_gets (\<lambda>c. GetHostZone c chainId)) (\<lambda>found.
     go_bind (go_guard (found = None) failed) (\<lambda>_.
     go_bind (go_gets GetAllHostZone) (\<lambda>hostZones.
     go_bind (go_guard (\<not> list_ex (zone_conflict msg) hostZones) failed) (\<lambda>_.
     go_bind (go_lift (CreateModuleAccount env (NewZoneAddress env chainId))) (\<lambda>_.
     let zone = new_zone env msg chainId in
     go_bind (go_modify (SetHostZone zone)) (\<lambda>_.
     go_bind (register_account env zone ICAAccountType_DELEGATION) (\<lambda>_.
     go_bind (register_account env zone ICAAccountType_FEE) (\<lambda>_.
     go_bind (register_account env zone ICAAccountType_WITHDRAWAL) (\<lambda>_.
     go_bind (register_account env zone ICAAccountType_REDEMPTION) (\<lambda>_.
     new_zone_records zone)))))))))))))"

section \<open>Restoring an interchain account\<close>

record MsgRestoreInterchainAccount =
  mri_ChainId :: string
  mri_AccountType :: ICAAccountType

text \<open>The epochs in which the zone's unbonding has the status.\<close>

definition epochs_in_status :: "records_state \<Rightarrow> string \<Rightarrow> HostZoneUnbonding_Status \<Rightarrow> uint64 list" where
  "epochs_in_status s chainId status =
     map eur_EpochNumber (filter (\<lambda>r.
       case GetHostZoneUnbondingByChainId s (eur_EpochNumber r) chainId of
         None \<Rightarrow> False | Some h \<Rightarrow> hzu_Status h = status) (GetAllEpochUnbondingRecord s))"

definition revert_deposits :: "string \<Rightarrow> records_state \<Rightarrow> records_state" where
  "revert_deposits chainId s =
     fold (\<lambda>d s. if dr_HostZoneId d = chainId \<and> dr_Status d = DELEGATION_IN_PROGRESS
                 then SetDepositRecord (d\<lparr>dr_Status := DELEGATION_QUEUE\<rparr>) s else s) (GetAllDepositRecord s) s"

definition RestoreInterchainAccount :: "env \<Rightarrow> MsgRestoreInterchainAccount \<Rightarrow> (chain, unit) go" where
  "RestoreInterchainAccount env msg =
     go_bind (go_gets (\<lambda>c. GetHostZone c (mri_ChainId msg))) (\<lambda>found.
     go_bind (go_found found (StakeIBCErr ErrInvalidHostZone)) (\<lambda>hostZone.
     go_bind (go_found (e_GetConnection env (hz_ConnectionId hostZone)) (Sdk ErrInvalidRequest)) (\<lambda>connectionEnd.
     let owner = FormatICAAccountOwner (mri_ChainId msg) (mri_AccountType msg) in
     go_bind (go_lift (NewControllerPortID owner)) (\<lambda>portID.
     go_bind (go_found (e_GetInterchainAccountAddress env (hz_ConnectionId hostZone) portID)
       (StakeIBCErr ErrInvalidInterchainAccountAddress)) (\<lambda>_.
     go_bind (go_lift (e_RegisterInterchainAccount env (hz_ConnectionId hostZone) owner)) (\<lambda>_.
     if mri_AccountType msg = ICAAccountType_DELEGATION then
       let chainId = hz_ChainId hostZone in
       go_bind (go_modify (mod_records (revert_deposits chainId))) (\<lambda>_.
       go_bind (go_gets (\<lambda>c. (epochs_in_status (c_records c) chainId UNBONDING_IN_PROGRESS,
                             epochs_in_status (c_records c) chainId EXIT_TRANSFER_IN_PROGRESS))) (\<lambda>(pendingUnbonding, pendingTransfer).
       go_bind (on_records (SetHostZoneUnbondings chainId pendingUnbonding UNBONDING_QUEUE)) (\<lambda>_.
       on_records (SetHostZoneUnbondings chainId pendingTransfer EXIT_TRANSFER_QUEUE))))
     else go_ret ()))))))"

end
