(* ===== verification/Books.thy ===== *)
theory Books
  imports Registration
begin

text \<open>
  What every operation of \<open>x/stakeibc\<close> keeps of the host zones, whatever it returns: the
  books of a zone balance (its staked balance is the sum of what its validators hold) and no two
  zones share a denom, a connection, a transfer channel or an address prefix.

  The operations fall into two groups: those that leave the zones alone, and those that write one
  back; for the second the step is \<open>zone_written\<close>. The property at the end is the invariant
  over all transactions, packets, query responses and epochs, in any order.
\<close>

section \<open>The invariant\<close>

definition zone_id :: "HostZone \<Rightarrow> denom \<times> string \<times> string \<times> string" where
  "zone_id z = (hz_HostDenom z, hz_ConnectionId z, hz_TransferChannelId z, hz_Bech32Prefix z)"

definition apart :: "HostZone \<Rightarrow> HostZone \<Rightarrow> bool" where
  "apart z z' \<longleftrightarrow> hz_HostDenom z \<noteq> hz_HostDenom z' \<and> hz_ConnectionId z \<noteq> hz_ConnectionId z' \<and>
     hz_TransferChannelId z \<noteq> hz_TransferChannelId z' \<and> hz_Bech32Prefix z \<noteq> hz_Bech32Prefix z'"

definition zones_sound :: "chain \<Rightarrow> bool" where
  "zones_sound c \<longleftrightarrow> zones_wf c \<and> (\<forall>k z. GetHostZone c k = Some z \<longrightarrow> balanced z) \<and>
     (\<forall>k k' z z'. GetHostZone c k = Some z \<longrightarrow> GetHostZone c k' = Some z' \<longrightarrow> k \<noteq> k' \<longrightarrow> apart z z')"

lemma apart_id: "zone_id z = zone_id w \<Longrightarrow> zone_id z' = zone_id w' \<Longrightarrow> apart z z' \<longleftrightarrow> apart w w'"
  by (auto simp: zone_id_def apart_def)

lemma zones_sound_cong: "c_hostZones t = c_hostZones c \<Longrightarrow> zones_sound t \<longleftrightarrow> zones_sound c"
  by (simp add: zones_sound_def zones_wf_def GetHostZone_def)

lemma zones_soundD:
  assumes "zones_sound c" "GetHostZone c k = Some z"
  shows "hz_ChainId z = k" "balanced z"
  using assms zones.get_key [of c k z] by (auto simp: zones_sound_def)

lemma zones_sound_frame [simp]:
  "zones_sound (mod_records f c) = zones_sound c" "zones_sound (c\<lparr>c_records := s\<rparr>) = zones_sound c"
  "zones_sound (c\<lparr>c_bank := b\<rparr>) = zones_sound c" "zones_sound (SetCallbackData d c) = zones_sound c"
  "zones_sound (RemoveCallbackData k c) = zones_sound c" "zones_sound (c\<lparr>c_outbox := ob\<rparr>) = zones_sound c"
  "zones_sound (SetQuery q c) = zones_sound c" "zones_sound (SetEpochTracker e c) = zones_sound c"
  "zones_sound (DeleteQuery i c) = zones_sound c"
  by (rule zones_sound_cong, simp add: DeleteQuery_def)+

text \<open>A zone written back with the same identity and balanced books.\<close>

definition zone_written :: "HostZone \<Rightarrow> HostZone \<Rightarrow> bool" where
  "zone_written z z' \<longleftrightarrow> hz_ChainId z' = hz_ChainId z \<and> zone_id z' = zone_id z \<and> (balanced z \<longrightarrow> balanced z')"

lemma zone_written_refl [simp]: "zone_written z z"
  by (simp add: zone_written_def)

lemma zone_written_trans: "zone_written a b \<Longrightarrow> zone_written b c \<Longrightarrow> zone_written a c"
  by (auto simp: zone_written_def)

lemma zone_written_balanced: "zone_written z z' \<Longrightarrow> balanced z \<Longrightarrow> balanced z'"
  by (simp add: zone_written_def)

lemma zones_sound_Set:
  assumes "zones_sound c" "GetHostZone c (hz_ChainId z') = Some z" "zone_id z' = zone_id z" "balanced z'"
  shows "zones_sound (SetHostZone z' c)"
proof -
  have "zones_wf (SetHostZone z' c)" using assms(1) by (simp add: zones_sound_def zones.wf_put)
  moreover have "apart w w'" if g: "GetHostZone (SetHostZone z' c) k = Some w" "GetHostZone (SetHostZone z' c) k' = Some w'"
    "k \<noteq> k'" for k k' w w'
  proof -
    have "\<exists>u. GetHostZone c k = Some u \<and> zone_id u = zone_id w" "\<exists>u. GetHostZone c k' = Some u \<and> zone_id u = zone_id w'"
      using g(1,2) assms(2,3) by (auto split: if_splits)
    then show ?thesis using assms(1) g(3) apart_id unfolding zones_sound_def by metis
  qed
  ultimately show ?thesis
    using assms(1,4) unfolding zones_sound_def by (auto split: if_splits)
qed

lemma zones_sound_write:
  assumes "zones_sound c" "GetHostZone c k = Some z" "zone_written z z'"
  shows "zones_sound (SetHostZone z' c)"
  using assms zones_soundD [OF assms(1,2)] by (intro zones_sound_Set [OF assms(1)]) (auto simp: zone_written_def)

section \<open>Operations that leave the zones alone\<close>

lemma keeps_zones:
  assumes "\<And>zs. keeps (\<lambda>c. c_hostZones c = zs) m"
  shows "keeps zones_sound m"
  using assms unfolding keeps_def by (metis zones_sound_cong)

lemma zones_ica:
  "keeps (\<lambda>c. c_hostZones c = zs) (SubmitTxs env conn msgs acc tmo cbId args)"
  "keeps (\<lambda>c. c_hostZones c = zs) (SubmitTxsEpoch env conn msgs acc ep cbId args)"
  "keeps (\<lambda>c. c_hostZones c = zs) (SubmitTxsStrideEpoch env conn msgs acc cbId args)"
  "keeps (\<lambda>c. c_hostZones c = zs) (SubmitTxsDayEpoch env conn msgs acc cbId args)"
  "keeps (\<lambda>c. c_hostZones c = zs) (MakeRequest env m i k conn qt q ttl)"
proof -
  show *: "keeps (\<lambda>c. c_hostZones c = zs) (SubmitTxs env conn msgs acc tmo cbId args)" for conn msgs acc tmo cbId args
    by (rule keepsI) (auto dest!: SubmitTxs_frame simp: ica_frame_def)
  show "keeps (\<lambda>c. c_hostZones c = zs) (SubmitTxsEpoch env conn msgs acc ep cbId args)"
    "keeps (\<lambda>c. c_hostZones c = zs) (SubmitTxsStrideEpoch env conn msgs acc cbId args)"
    "keeps (\<lambda>c. c_hostZones c = zs) (SubmitTxsDayEpoch env conn msgs acc cbId args)"
    unfolding SubmitTxsStrideEpoch_def SubmitTxsDayEpoch_def SubmitTxsEpoch_def by (intro keeps_flow *)+
  show "keeps (\<lambda>c. c_hostZones c = zs) (MakeRequest env m i k conn qt q ttl)"
    unfolding MakeRequest_def by (intro keeps_flow) simp_all
qed

lemmas zones_flow = keeps_flow keeps_on_bank keeps_on_records keeps_status zones_ica

lemma zones_users:
  "(\<And>a c. c_hostZones (hook a c) = c_hostZones c) \<Longrightarrow> keeps (\<lambda>c. c_hostZones c = zs) (LiquidStake env hook msg)"
  "keeps (\<lambda>c. c_hostZones c = zs) (RedeemStake env rmsg)"
  "keeps (\<lambda>c. c_hostZones c = zs) (ClaimUndelegatedTokens env cmsg)"
  "keeps (\<lambda>c. c_hostZones c = zs) (RebalanceValidators env k n)"
  "keeps (\<lambda>c. c_hostZones c = zs) (ClearBalance env k' amt ch)"
  "keeps (\<lambda>c. c_hostZones c = zs) (RestoreInterchainAccount env imsg)"
  unfolding LiquidStake_def RedeemStake_def ClaimUndelegatedTokens_def RebalanceValidators_def ClearBalance_def
    RestoreInterchainAccount_def Let_def
  by (intro zones_flow; simp)+

lemma zones_day:
  "keeps (\<lambda>c. c_hostZones c = zs) (InitiateAllHostZoneUnbondings env n)"
  "keeps (\<lambda>c. c_hostZones c = zs) (SweepAllUnbondedTokens env)"
  "keeps (\<lambda>c. c_hostZones c = zs) (go_modify (CreateEpochUnbondingRecord n))"
  unfolding InitiateAllHostZoneUnbondings_def initiate_unbonding_def SubmitHostZoneUnbondingMsg_def
    SweepAllUnbondedTokens_def SweepAllUnbondedTokensForHostZone_def CreateEpochUnbondingRecord_def Let_def
  by (intro zones_flow; simp)+

lemma zones_deposits:
  "keeps (\<lambda>c. c_hostZones c = zs) (CreateDepositRecordsForEpoch n)"
  "keeps (\<lambda>c. c_hostZones c = zs) (TransferExistingDepositsToHostZones env n ds)"
  "keeps (\<lambda>c. c_hostZones c = zs) (StakeExistingDepositsOnHostZones env n ds)"
  "keeps (\<lambda>c. c_hostZones c = zs) (SetWithdrawalAddress env)"
  "keeps (\<lambda>c. c_hostZones c = zs) (ReinvestRewards env)"
  unfolding CreateDepositRecordsForEpoch_def TransferExistingDepositsToHostZones_def transfer_deposit_def
    records_Transfer_def StakeExistingDepositsOnHostZones_def stake_deposit_def DelegateOnHost_def
    SetWithdrawalAddress_def SetWithdrawalAddressOnHost_def ReinvestRewards_def UpdateWithdrawalBalance_def Let_def
  by (intro zones_flow; simp)+

lemma zones_rewards:
  assumes "\<And>a c. c_hostZones (hook a c) = c_hostZones c"
  shows "keeps (\<lambda>c. c_hostZones c = zs) (AllocateHostZoneReward env hook bals)"
  unfolding AllocateHostZoneReward_def LiquidStakeRewardCollectorBalance_def liquid_stake_token_def
    SweepStTokensFromRewardCollToFeeColl_def Let_def
  by (intro zones_flow zones_users(1) assms; simp)

lemma zones_tracker: "keeps (\<lambda>c. c_hostZones c = zs) (UpdateEpochTracker e)"
  unfolding UpdateEpochTracker_def Let_def by (intro zones_flow; simp)

lemma zones_queries:
  "keeps (\<lambda>c. c_hostZones c = zs) (WithdrawalBalanceCallback env iq args q)"
  "keeps (\<lambda>c. c_hostZones c = zs) (FeeBalanceCallback env iq args q)"
  "keeps (\<lambda>c. c_hostZones c = zs) (require_buffer_window env)"
  "keeps (\<lambda>c. c_hostZones c = zs) (QueryDelegationsIcq env z a)"
  "keeps (\<lambda>c. c_hostZones c = zs) (QueryValidatorExchangeRate env k v)"
  "keeps (\<lambda>c. c_hostZones c = zs) (go_modify (DeleteQuery i))"
  unfolding WithdrawalBalanceCallback_def FeeBalanceCallback_def require_buffer_window_def QueryDelegationsIcq_def
    QueryValidatorExchangeRate_def DeleteQuery_def Let_def
  by (intro zones_flow; simp)+

lemma zones_callbacks:
  "keeps (\<lambda>c. c_hostZones c = zs) (RedemptionCallback_ack st a3)"
  "keeps (\<lambda>c. c_hostZones c = zs) (ReinvestCallback_ack env st a4)"
  "keeps (\<lambda>c. c_hostZones c = zs) (BurnTokens env z n)"
  "keeps (\<lambda>c. c_hostZones c = zs) (records_CallICACallback ae i p ar args)"
  unfolding RedemptionCallback_ack_def ReinvestCallback_ack_def BurnTokens_def records_CallICACallback_def Let_def
    unmarshal_failure_def
  by (intro zones_flow keeps_intros; simp)+

section \<open>Operations that write a zone back\<close>

lemma written_stake:
  "hz_StakedBal z' - total_delegation (hz_Validators z') = hz_StakedBal z - total_delegation (hz_Validators z) \<Longrightarrow>
   hz_ChainId z' = hz_ChainId z \<Longrightarrow> zone_id z' = zone_id z \<Longrightarrow> zone_written z z'"
  by (auto simp: zone_written_def balanced_def)

lemma update_redemption_rate_sound:
  assumes "update_redemption_rate ds z c = (r, t)" "zones_sound c" "GetHostZone c (hz_ChainId z) = Some z0"
    and "zone_id z = zone_id z0" "balanced z"
  shows "zones_sound t \<and> (\<forall>k w0. GetHostZone c k = Some w0 \<longrightarrow> (\<exists>w. GetHostZone t k = Some w \<and> zone_id w = zone_id w0))"
proof -
  have *: "zones_sound (SetHostZone z' c) \<and> (\<forall>k w0. GetHostZone c k = Some w0 \<longrightarrow>
      (\<exists>w. GetHostZone (SetHostZone z' c) k = Some w \<and> zone_id w = zone_id w0))"
    if "z' = z\<lparr>hz_LastRedemptionRate := x, hz_RedemptionRate := y\<rparr>" for z' x y
    using that assms(2-5) zones_sound_Set [OF assms(2), of z' z0] by (auto simp: zone_id_def balanced_def)
  have "t = c \<or> (\<exists>x y. t = SetHostZone (z\<lparr>hz_LastRedemptionRate := x, hz_RedemptionRate := y\<rparr>) c)"
    using assms(1) by (cases r) (auto simp: update_redemption_rate_def go_simps split: if_splits)
  then show ?thesis using * assms(2) by auto
qed

lemma UpdateRedemptionRates_sound: "keeps zones_sound (UpdateRedemptionRates ds)"
proof (rule keepsI)
  fix c r t
  assume c: "zones_sound c" and run: "UpdateRedemptionRates ds c = (r, t)"
  let ?J = "\<lambda>c'. zones_sound c' \<and> (\<forall>k w0. GetHostZone c k = Some w0 \<longrightarrow>
      (\<exists>w. GetHostZone c' k = Some w \<and> zone_id w = zone_id w0))"
  have loop: "for_each (update_redemption_rate ds) (GetAllActiveHostZone c) c = (r, t)"
    using run by (simp add: UpdateRedemptionRates_def go_bind_def go_gets_def)
  have "?J t"
  proof (rule for_each_invariant [where I = ?J, OF _ _ loop])
    fix z c1 r1 t1
    assume z: "z \<in> set (GetAllActiveHostZone c)" and J: "?J c1" and s: "update_redemption_rate ds z c1 = (r1, t1)"
    have g: "GetHostZone c (hz_ChainId z) = Some z"
      using z c by (simp add: active_iff zones_sound_def zones.listing_iff)
    then obtain w where w: "GetHostZone c1 (hz_ChainId z) = Some w" "zone_id w = zone_id z" using J by blast
    from update_redemption_rate_sound [OF s _ w(1)] w(2) J zones_soundD(2) [OF c g]
    have t1: "zones_sound t1"
      "\<forall>k w0. GetHostZone c1 k = Some w0 \<longrightarrow> (\<exists>w. GetHostZone t1 k = Some w \<and> zone_id w = zone_id w0)" by auto
    have "\<exists>w. GetHostZone t1 k = Some w \<and> zone_id w = zone_id w0" if h: "GetHostZone c k = Some w0" for k w0
    proof -
      obtain w1 where "GetHostZone c1 k = Some w1" "zone_id w1 = zone_id w0" using J h by blast
      with t1(2) show ?thesis by metis
    qed
    with t1(1) show "?J t1" by blast
  qed (use c in auto)
  then show "zones_sound t" ..
qed

lemma delegate_split_written:
  assumes "delegate_split sd z c = (Ok z', t)"
  shows "t = SetHostZone z' c" "zone_written z z'"
proof -
  from assms have add: "AddDelegationToValidator (z\<lparr>hz_StakedBal := hz_StakedBal z + sd_Amount sd\<rparr>) (sd_Validator sd) (sd_Amount sd) = Ok (Some z')"
    and t: "t = SetHostZone z' c"
    by (auto simp: delegate_split_def go_simps split: option.splits)
  from add show "zone_written z z'"
    by (rule AddDelegation_SomeE) (auto intro!: written_stake simp: zone_id_def)
  show "t = SetHostZone z' c" by (rule t)
qed

lemma delegate_loop_sound:
  assumes "for_acc delegate_split sds z c = (r, t)" "zones_sound c" "GetHostZone c (hz_ChainId z) = Some z"
  shows "zones_sound t"
  using assms
proof (induction sds arbitrary: z c)
  case (Cons sd sds)
  obtain r1 t1 where s: "delegate_split sd z c = (r1, t1)" by fastforce
  show ?case
  proof (cases r1)
    case (Ok z1)
    with s have s': "delegate_split sd z c = (Ok z1, t1)" by simp
    note d = delegate_split_written [OF s']
    have "zones_sound t1" unfolding d(1) using Cons.prems(2,3) d(2) by (rule zones_sound_write)
    moreover have "GetHostZone t1 (hz_ChainId z1) = Some z1" by (simp add: d(1))
    ultimately show ?thesis using Cons.IH Cons.prems(1) s' by simp
  qed (use s delegate_split_fail [OF s] Cons.prems in auto)
qed simp

lemma DelegateCallback_sound: "keeps zones_sound (DelegateCallback_ack st args)"
proof (rule keepsI)
  fix c r t
  assume c: "zones_sound c" and run: "DelegateCallback_ack st args c = (r, t)"
  show "zones_sound t"
  proof (cases "GetHostZone c (dcb_HostZoneId args)")
    case None
    with run c show ?thesis by (auto simp: DelegateCallback_ack_def go_bind_def go_gets_def go_found_def)
  next
    case (Some z)
    have g: "GetHostZone c (hz_ChainId z) = Some z" using zones_soundD [OF c Some] Some by simp
    have loop: "zones_sound t1" if "for_acc delegate_split sds z c = (r1, t1)" for sds r1 t1
      using delegate_loop_sound [OF that c g] .
    show ?thesis
      using run c loop Some
      by (auto simp: DelegateCallback_ack_def go_bind_def go_gets_def go_found_def go_ret_def go_modify_def
          split: option.splits AckResponseStatus.splits prod.splits res.splits)
  qed
qed

lemma undelegate_splits_written: "undelegate_splits us z = Ok z' \<Longrightarrow> zone_written z z'"
  by (erule undelegate_splits_OkE) (auto intro!: written_stake simp: zone_id_def)

lemma UndelegateCallback_sound: "keeps zones_sound (UndelegateCallback_ack env st rs args)"
proof (rule keepsI)
  fix c r t
  assume c: "zones_sound c" and run: "UndelegateCallback_ack env st rs args c = (r, t)"
  have rest: "keeps zones_sound (go_bind (go_lift (GetLatestCompletionTime rs)) (\<lambda>latestCompletionTime.
      go_bind (on_records (UpdateHostZoneUnbondings latestCompletionTime k args)) (\<lambda>stTokenBurnAmount.
      go_bind (BurnTokens env z stTokenBurnAmount) (\<lambda>_. on_records (SetHostZoneUnbondings k es st')))))" for k z es st'
    by (intro zones_flow keeps_zones [OF zones_callbacks(3)]) simp_all
  have upd: "zones_sound t1" if z: "GetHostZone c k = Some z" and u: "UpdateDelegationBalances z args c = (r1, t1)" for k z r1 t1
    using u zones_sound_write [OF c z] c
    by (cases r1) (auto simp: UpdateDelegationBalances_def go_simps dest!: undelegate_splits_written)
  show "zones_sound t"
  proof (cases "st = AckResponseStatus_SUCCESS \<and> (\<exists>z. GetHostZone c (ucb_HostZoneId args) = Some z)")
    case True
    then obtain z where z: "GetHostZone c (ucb_HostZoneId args) = Some z" and st: "st = AckResponseStatus_SUCCESS" by blast
    obtain r1 t1 where u: "UpdateDelegationBalances z args c = (r1, t1)" by fastforce
    note t1 = upd [OF z u]
    show ?thesis
    proof (cases r1)
      case (Ok x)
      with run z st u have "go_bind (go_lift (GetLatestCompletionTime rs)) (\<lambda>latestCompletionTime.
        go_bind (on_records (UpdateHostZoneUnbondings latestCompletionTime (ucb_HostZoneId args) args)) (\<lambda>stTokenBurnAmount.
        go_bind (BurnTokens env z stTokenBurnAmount) (\<lambda>_. on_records (SetHostZoneUnbondings (ucb_HostZoneId args)
          (ucb_EpochUnbondingRecordIds args) EXIT_TRANSFER_QUEUE)))) t1 = (r, t)"
        by (simp add: UndelegateCallback_ack_def go_bind_def [of "go_gets _"] go_bind_def [of "go_found _ _"]
            go_bind_def [of "UpdateDelegationBalances _ _"] go_gets_def go_found_def Let_def)
      from keepsD [OF rest this t1] show ?thesis .
    qed (use run z st u t1 in \<open>auto simp: UndelegateCallback_ack_def go_bind_def go_gets_def go_found_def Let_def\<close>)
  next
    case False
    then show ?thesis
      using run c by (cases st) (auto simp: UndelegateCallback_ack_def go_bind_def go_gets_def go_found_def Let_def
          on_records_def go_ret_def split: option.splits prod.splits)
  qed
qed

lemma RebalanceCallback_sound: "keeps zones_sound (RebalanceCallback_ack st args)"
proof (rule keepsI)
  fix c r t
  assume c: "zones_sound c" and run: "RebalanceCallback_ack st args c = (r, t)"
  have "zones_sound (SetHostZone (z\<lparr>hz_Validators := vs\<rparr>) c)"
    if "GetHostZone c k = Some z" "apply_rebalancings rs (hz_Validators z) = Ok vs" for k z rs vs
    using that(1) apply_rebalancings_Ok [OF that(2)]
    by (intro zones_sound_write [OF c]) (auto intro!: written_stake simp: zone_id_def)
  then show "zones_sound t"
    using run c by (cases st; cases r) (auto simp: RebalanceCallback_ack_def go_simps split: option.splits)
qed

lemma set_ica_account_written: "zone_written z (set_ica_account k p a z)"
  by (rule written_stake) (auto simp: set_ica_account_def zone_id_def Let_def)

lemma OnChanOpenAck_sound: "keeps zones_sound (stakeibc_OnChanOpenAck env p)"
proof (rule keepsI)
  fix c r t
  assume c: "zones_sound c" and run: "stakeibc_OnChanOpenAck env p c = (r, t)"
  have "zones_sound (SetHostZone (set_ica_account k p a z) c)" if "GetHostZone c k' = Some z" for k k' a z
    using zones_sound_write [OF c that set_ica_account_written] .
  then show "zones_sound t"
    using run c by (auto simp: stakeibc_OnChanOpenAck_def Let_def go_bind_def go_gets_def go_ret_def go_modify_def
        split: option.splits res.splits)
qed

text \<open>Running an operation from a state: \<open>leads c I m\<close> says that \<open>m\<close> leaves
  \<open>c\<close> in a state with \<open>I\<close>. The rules walk over the reads at the start of a
  handler and collect what they returned.\<close>

definition leads :: "'s \<Rightarrow> ('s \<Rightarrow> bool) \<Rightarrow> ('s, 'a) go \<Rightarrow> bool" where
  "leads c I m \<longleftrightarrow> (\<forall>r t. m c = (r, t) \<longrightarrow> I t)"

lemma leads_keeps: "(\<And>c. I c \<Longrightarrow> leads c I m) \<Longrightarrow> keeps I m"
  by (auto simp: leads_def keeps_def)

lemma keeps_leads: "keeps I m \<Longrightarrow> I c \<Longrightarrow> leads c I m"
  by (auto simp: leads_def keeps_def)

lemma leads_end: "I c \<Longrightarrow> leads c I (go_ret x)" "I c \<Longrightarrow> leads c I (go_fail e)" "I c \<Longrightarrow> leads c I go_panic"
  "I (h c) \<Longrightarrow> leads c I (go_modify h)"
  by (auto simp: leads_def go_simps)

lemma leads_bind:
  "leads c I (f (g c)) \<Longrightarrow> leads c I (go_bind (go_gets g) f)"
  "I c \<Longrightarrow> (\<And>v. x = Some v \<Longrightarrow> leads c I (f' v)) \<Longrightarrow> leads c I (go_bind (go_found x e) f')"
  "I c \<Longrightarrow> (\<And>v. y = Ok v \<Longrightarrow> leads c I (f'' v)) \<Longrightarrow> leads c I (go_bind (go_lift y) f'')"
  "I c \<Longrightarrow> (b \<Longrightarrow> leads c I (h ())) \<Longrightarrow> leads c I (go_bind (go_guard b e) h)"
  "I c \<Longrightarrow> (\<And>r t. m c = (r, t) \<Longrightarrow> t = c) \<Longrightarrow> (\<And>v. leads c I (k v)) \<Longrightarrow> leads c I (go_bind m k)"
  "leads (u c) I (h ()) \<Longrightarrow> leads c I (go_bind (go_modify u) h)"
  by (auto simp: leads_def go_bind_def go_gets_def go_found_def go_lift_def go_guard_def go_modify_def
      split: option.splits res.splits prod.splits if_splits)

lemma leads_cases:
  "(b \<Longrightarrow> leads c I m) \<Longrightarrow> (\<not> b \<Longrightarrow> leads c I n) \<Longrightarrow> leads c I (if b then m else n)"
  "leads c I m' \<Longrightarrow> (\<And>v. x = Some v \<Longrightarrow> leads c I (f v)) \<Longrightarrow> leads c I (case x of None \<Rightarrow> m' | Some v \<Rightarrow> f v)"
  "(\<And>a b. p = (a, b) \<Longrightarrow> leads c I (g a b)) \<Longrightarrow> leads c I (case p of (a, b) \<Rightarrow> g a b)"
  by (auto split: option.splits prod.splits)

lemmas leads_rules = leads_end leads_bind(1-4) leads_cases

text \<open>The validator a query response is about.\<close>

lemma GetValidator_index:
  "GetValidatorFromAddress vs a = Some (v, i) \<Longrightarrow> i < length vs \<and> vs ! i = v"
  by (induction vs arbitrary: i) (auto split: if_splits)

lemma total_delegation_update:
  "i < length vs \<Longrightarrow> total_delegation (vs[i := v]) = total_delegation vs - val_DelegationAmt (vs ! i) + val_DelegationAmt v"
proof (induction vs arbitrary: i)
  case (Cons w vs)
  then show ?case by (cases i) auto
qed simp

lemma validator_written:
  assumes "GetValidatorFromAddress (hz_Validators z) a = Some (v, i)"
    and "val_DelegationAmt v' = val_DelegationAmt v + x"
    and "z' = z\<lparr>hz_StakedBal := hz_StakedBal z + x, hz_Validators := (hz_Validators z)[i := v']\<rparr>"
  shows "zone_written z z'"
  using GetValidator_index [OF assms(1)] assms(2,3)
  by (intro written_stake) (auto simp: zone_id_def total_delegation_update)

lemma require_buffer_window_Ok: "require_buffer_window env c = (r, t) \<Longrightarrow> t = c"
  using keepsD [of "\<lambda>c'. c' = c" "require_buffer_window env" c r t]
  unfolding require_buffer_window_def by (auto intro!: keeps_flow)

lemma ValidatorExchangeRateCallback_sound: "keeps zones_sound (ValidatorExchangeRateCallback env iq args q)"
proof (rule leads_keeps)
  fix c
  assume c: "zones_sound c"
  have q: "keeps zones_sound (go_wrap e (QueryDelegationsIcq env z a))" for e z a
    by (intro keeps_wrap keeps_zones zones_queries)
  have w: "zones_sound (SetHostZone (z\<lparr>hz_Validators := (hz_Validators z)[i := v\<lparr>val_InternalExchangeRate := x\<rparr>]\<rparr>) c)"
    if "GetHostZone c k = Some z" "GetValidatorFromAddress (hz_Validators z) a = Some (v, i)" for k z a v i x
    using validator_written [OF that(2), of "v\<lparr>val_InternalExchangeRate := x\<rparr>" 0]
    by (intro zones_sound_write [OF c that(1)]) simp
  show "leads c zones_sound (ValidatorExchangeRateCallback env iq args q)"
    unfolding ValidatorExchangeRateCallback_def Let_def
    by (intro leads_rules leads_bind(5) leads_bind(6) keeps_leads [OF q] w c; (erule require_buffer_window_Ok)?; simp)
qed

lemma slash_validator_Ok:
  "slash_validator env n v = Ok (v', x) \<Longrightarrow> val_DelegationAmt v' = val_DelegationAmt v - x"
  by (auto simp: slash_validator_def go_simps split: if_splits res.splits)

lemma DelegatorSharesCallback_sound: "keeps zones_sound (DelegatorSharesCallback env iq args q)"
proof (rule leads_keeps)
  fix c
  assume c: "zones_sound c"
  have up: "zones_sound (SetHostZone (z\<lparr>hz_StakedBal := hz_StakedBal z + x,
      hz_Validators := (hz_Validators z)[i := v\<lparr>val_DelegationAmt := val_DelegationAmt v + x\<rparr>]\<rparr>) c)"
    if "GetHostZone c k = Some z" "GetValidatorFromAddress (hz_Validators z) a = Some (v, i)" for k z a v i x
    using validator_written [OF that(2), of "v\<lparr>val_DelegationAmt := val_DelegationAmt v + x\<rparr>" x]
    by (intro zones_sound_write [OF c that(1)]) simp
  have down: "zones_sound (SetHostZone (z\<lparr>hz_StakedBal := hz_StakedBal z - x, hz_Validators := (hz_Validators z)[i := v']\<rparr>) c)"
    if "GetHostZone c k = Some z" "GetValidatorFromAddress (hz_Validators z) a = Some (v, i)"
      "slash_validator env n v = Ok (v', x)" for k z a v i v' x n
    using validator_written [OF that(2), of v' "- x"] slash_validator_Ok [OF that(3)]
    by (intro zones_sound_write [OF c that(1)]) simp
  show "leads c zones_sound (DelegatorSharesCallback env iq args q)"
    unfolding DelegatorSharesCallback_def
    by (intro leads_rules leads_bind(5) c)
      (erule require_buffer_window_Ok, clarsimp simp only: Int_Add_Ok, erule (1) up,
       clarsimp simp only: Int_Sub_Ok prod.inject, erule (2) down)
qed

section \<open>Administration\<close>

lemma AddValidator_sound: "keeps zones_sound (AddValidatorToHostZone env k v g)"
proof (rule leads_keeps)
  fix c
  assume c: "zones_sound c"
  have w: "zones_sound (SetHostZone (z\<lparr>hz_Validators := hz_Validators z @ [\<lparr>val_Name = n, val_Address = a,
      val_DelegationAmt = 0, val_Weight = x, val_InternalExchangeRate = None\<rparr>]\<rparr>) c)"
    if "GetHostZone c k = Some z" for z n a x
    by (intro zones_sound_write [OF c that] written_stake) (simp_all add: zone_id_def)
  show "leads c zones_sound (AddValidatorToHostZone env k v g)"
    unfolding AddValidatorToHostZone_def Let_def
    by (intro leads_rules leads_bind(5) w c) (auto simp: go_wrap_def go_lift_def split: res.splits)
qed

lemma DeleteValidator_sound: "keeps zones_sound (DeleteValidator k a)"
  unfolding DeleteValidator_def
proof (intro keeps_wrap leads_keeps)
  fix c
  assume c: "zones_sound c"
  have w: "zones_sound (SetHostZone (z\<lparr>hz_Validators := vs\<rparr>) c)"
    if "GetHostZone c k = Some z" "remove_validator a (hz_Validators z) = Ok vs" for z vs
    using remove_validator_Ok [OF that(2)]
    by (intro zones_sound_write [OF c that(1)] written_stake) (auto simp: zone_id_def)
  show "leads c zones_sound (RemoveValidatorFromHostZone k a)"
    unfolding RemoveValidatorFromHostZone_def by (intro leads_rules w c)
qed

lemma ChangeValidatorWeight_sound: "keeps zones_sound (ChangeValidatorWeight env k a w)"
proof (rule leads_keeps)
  fix c
  assume c: "zones_sound c"
  have w: "zones_sound (SetHostZone (z\<lparr>hz_Validators := vs\<rparr>) c)"
    if "GetHostZone c k = Some z" "set_weight sp a w (hz_Validators z) = Ok vs" for z vs sp
    using set_weight_Ok [OF that(2)]
    by (intro zones_sound_write [OF c that(1)] written_stake) (auto simp: zone_id_def total_delegation_def)
  show "leads c zones_sound (ChangeValidatorWeight env k a w)"
    unfolding ChangeValidatorWeight_def by (intro leads_rules w c)
qed

text \<open>A new zone is apart from all others, since a conflict is refused.\<close>

lemma zones_sound_new:
  assumes c: "zones_sound c" and new: "GetHostZone c k = None" "\<not> list_ex (zone_conflict msg) (GetAllHostZone c)"
  shows "zones_sound (SetHostZone (new_zone env msg k) c)"
proof -
  let ?z = "new_zone env msg k"
  have wf: "zones_wf c" using c by (simp add: zones_sound_def)
  have apart: "apart z ?z \<and> apart ?z z" if h: "GetHostZone c k' = Some z" for k' z
  proof -
    have "z \<in> set (GetAllHostZone c)" using h zones.get_key [OF wf h] zones.listing_iff [OF wf] by simp
    then have "\<not> zone_conflict msg z" using new(2) by (auto simp: list_ex_iff)
    then show ?thesis by (auto simp: zone_conflict_def apart_def new_zone_def)
  qed
  have z: "hz_ChainId ?z = k" "balanced ?z" by (simp_all add: new_zone_def balanced_def)
  have "zones_wf (SetHostZone ?z c)" using wf by (rule zones.wf_put)
  then show ?thesis using c apart z unfolding zones_sound_def by (auto split: if_splits)
qed

lemma new_zone_records_keeps: "keeps (\<lambda>c. c_hostZones c = zs) (new_zone_records z)"
  unfolding new_zone_records_def Let_def by (intro zones_flow; simp)

lemma RegisterHostZone_sound: "keeps zones_sound (RegisterHostZone env msg)"
proof (rule leads_keeps)
  fix c
  assume c: "zones_sound c"
  have tail: "keeps zones_sound (go_bind (register_account env z a1) (\<lambda>_. go_bind (register_account env z a2) (\<lambda>_.
      go_bind (register_account env z a3) (\<lambda>_. go_bind (register_account env z a4) (\<lambda>_. new_zone_records z)))))" for z a1 a2 a3 a4
    unfolding register_account_def by (intro keeps_flow keeps_zones new_zone_records_keeps)
  show "leads c zones_sound (RegisterHostZone env msg)"
    unfolding RegisterHostZone_def Let_def
    by (intro leads_rules leads_bind(5) leads_bind(6) keeps_leads [OF tail] zones_sound_new c)
      (auto simp: go_wrap_def go_lift_def split: res.splits)
qed

section \<open>Packets, responses and epochs\<close>

lemma stakeibc_callback_sound: "keeps zones_sound (stakeibc_CallICACallback env ae i ar args)"
  unfolding stakeibc_CallICACallback_def Let_def unmarshal_failure_def
  by (cases args; simp only: CallbackArgs.case;
      intro keeps_if keeps_basic keeps_on_records DelegateCallback_sound UndelegateCallback_sound RebalanceCallback_sound
        keeps_zones [OF zones_callbacks(1)] keeps_zones [OF zones_callbacks(2)]; simp)

lemma CallICACallback_sound: "keeps zones_sound (CallICACallback env ae h i p ar args)"
  by (cases h) (simp_all add: stakeibc_callback_sound keeps_zones [OF zones_callbacks(4)])

lemma packets_sound:
  "keeps zones_sound (stakeibc_OnAcknowledgementPacket env ae p ack)"
  "keeps zones_sound (stakeibc_OnTimeoutPacket env ae p)"
  "keeps zones_sound (records_OnAcknowledgementPacket env ae p ack)"
  "keeps zones_sound (records_OnTimeoutPacket env ae p)"
  unfolding stakeibc_OnAcknowledgementPacket_def stakeibc_OnTimeoutPacket_def records_OnAcknowledgementPacket_def
    records_OnTimeoutPacket_def CallRegisteredICACallback_def Let_def
  by (intro keeps_flow CallICACallback_sound; simp)+

lemma SubmitQueryResponse_sound: "keeps zones_sound (SubmitQueryResponse env iq msg)"
  unfolding SubmitQueryResponse_def InvokeCallback_def CallICQCallback_def
  by (intro keeps_flow ValidatorExchangeRateCallback_sound DelegatorSharesCallback_sound
      keeps_zones [OF zones_queries(1)] keeps_zones [OF zones_queries(2)])
    simp

lemma EndBlocker_sound: "zones_sound c \<Longrightarrow> zones_sound (snd (icq_EndBlocker c))"
proof -
  have "zones_sound (fold (\<lambda>q. SetQuery (q\<lparr>q_RequestSent := True\<rparr>)) qs c) = zones_sound c" for qs
    by (induction qs arbitrary: c) simp_all
  then show "zones_sound c \<Longrightarrow> ?thesis" by (simp add: icq_EndBlocker_def Let_def)
qed

lemma epochs_sound:
  assumes "\<And>a c. c_hostZones (hook a c) = c_hostZones c"
  shows "keeps zones_sound (stakeibc_BeforeEpochStart env hook bals e)"
  unfolding stakeibc_BeforeEpochStart_def day_epoch_def stride_epoch_def process_deposits_def at_interval_def Let_def
  by (intro keeps_flow keeps_zones [OF zones_tracker] keeps_zones [OF zones_day(1)] keeps_zones [OF zones_day(2)]
      keeps_zones [OF zones_day(3)] keeps_zones [OF zones_deposits(1)] keeps_zones [OF zones_deposits(2)]
      keeps_zones [OF zones_deposits(3)] keeps_zones [OF zones_deposits(4)] keeps_zones [OF zones_deposits(5)]
      keeps_zones [OF zones_rewards] UpdateRedemptionRates_sound assms) simp_all

section \<open>All operations\<close>

text \<open>One operation of the module, whatever it returns: a transaction of a user or an
  administrator, a packet of the IBC stack, a query response, the end of a block, the start of an
  epoch. Environments may differ from step to step, as block times, channels and parameters do.
  The hook of liquid staking belongs to \<open>x/claim\<close>, which has no access to the zones.\<close>

inductive stakeibc_step :: "chain \<Rightarrow> chain \<Rightarrow> bool" where
  liquid_stake: "(\<And>a c. c_hostZones (hook a c) = c_hostZones c) \<Longrightarrow> LiquidStake env hook lmsg c = (r, t) \<Longrightarrow> stakeibc_step c t"
| redeem: "RedeemStake env rmsg c = (r, t) \<Longrightarrow> stakeibc_step c t"
| claim: "ClaimUndelegatedTokens env cmsg c = (r, t) \<Longrightarrow> stakeibc_step c t"
| rebalance: "RebalanceValidators env k n c = (r, t) \<Longrightarrow> stakeibc_step c t"
| clear: "ClearBalance env k amt ch c = (r, t) \<Longrightarrow> stakeibc_step c t"
| register: "RegisterHostZone env hmsg c = (r, t) \<Longrightarrow> stakeibc_step c t"
| restore: "RestoreInterchainAccount env imsg c = (r, t) \<Longrightarrow> stakeibc_step c t"
| add_validators: "AddValidators env k vs c = (r, t) \<Longrightarrow> stakeibc_step c t"
| propose_validators: "AddValidatorsProposal env k vs c = (r, t) \<Longrightarrow> stakeibc_step c t"
| delete_validator: "DeleteValidator k a c = (r, t) \<Longrightarrow> stakeibc_step c t"
| change_weight: "ChangeValidatorWeight env k a w c = (r, t) \<Longrightarrow> stakeibc_step c t"
| update_rate: "QueryValidatorExchangeRate env k v c = (r, t) \<Longrightarrow> stakeibc_step c t"
| open_ack: "stakeibc_OnChanOpenAck env port c = (r, t) \<Longrightarrow> stakeibc_step c t"
| ack: "stakeibc_OnAcknowledgementPacket env ae p a' c = (r, t) \<Longrightarrow> stakeibc_step c t"
| timeout: "stakeibc_OnTimeoutPacket env ae p c = (r, t) \<Longrightarrow> stakeibc_step c t"
| transfer_ack: "records_OnAcknowledgementPacket env ae p a' c = (r, t) \<Longrightarrow> stakeibc_step c t"
| transfer_timeout: "records_OnTimeoutPacket env ae p c = (r, t) \<Longrightarrow> stakeibc_step c t"
| response: "SubmitQueryResponse env iq qmsg c = (r, t) \<Longrightarrow> stakeibc_step c t"
| end_block: "icq_EndBlocker c = (es, t) \<Longrightarrow> stakeibc_step c t"
| epoch: "(\<And>a c. c_hostZones (hook a c) = c_hostZones c) \<Longrightarrow>
    stakeibc_BeforeEpochStart env hook bals e c = (r, t) \<Longrightarrow> stakeibc_step c t"

lemmas transactions_sound = keeps_zones [OF zones_users(1)] keeps_zones [OF zones_users(2)] keeps_zones [OF zones_users(3)]
  keeps_zones [OF zones_users(4)] keeps_zones [OF zones_users(5)] keeps_zones [OF zones_users(6)]
  keeps_zones [OF zones_queries(5)] RegisterHostZone_sound DeleteValidator_sound ChangeValidatorWeight_sound
  OnChanOpenAck_sound packets_sound SubmitQueryResponse_sound epochs_sound

lemma AddValidators_sound:
  "keeps zones_sound (AddValidators env k vs)" "keeps zones_sound (AddValidatorsProposal env k vs)"
  unfolding AddValidators_def AddValidatorsProposal_def by (intro keeps_for_each AddValidator_sound)+

lemma stakeibc_step_sound: "stakeibc_step c t \<Longrightarrow> zones_sound c \<Longrightarrow> zones_sound t"
proof (induction rule: stakeibc_step.induct)
  case (end_block c es t)
  then show ?case using EndBlocker_sound [of c] by simp
qed (erule keepsD [rotated], assumption, intro transactions_sound AddValidators_sound, assumption?)+

lemma stakeibc_steps_sound: "stakeibc_step\<^sup>*\<^sup>* c t \<Longrightarrow> zones_sound c \<Longrightarrow> zones_sound t"
  by (induction rule: rtranclp_induct) (auto intro: stakeibc_step_sound)

lemma zones_sound_empty: "c_hostZones c = [] \<Longrightarrow> zones_sound c"
  using zones_sound_cong [of c empty_chain]
  by (simp add: zones_sound_def GetHostZone_def empty_chain_def) (simp add: zones_wf_def)

text \<open>Property C22. The books of the host zones balance, and the zones stay apart: from a chain
  whose zones are sound, one without zones for instance, whatever transactions, packets, query
  responses and epochs follow, in any order and with any outcome, the staked balance of every zone
  is the sum of what its validators hold, a zone is stored under its chain id, and no two zones
  share a host denom, a connection, a transfer channel or an address prefix, so that no two zones
  mint the same liquid token.\<close>

theorem zones_stay_sound:
  assumes "stakeibc_step\<^sup>*\<^sup>* c t" "zones_sound c" "GetHostZone t k = Some z"
  shows "hz_StakedBal z = total_delegation (hz_Validators z) \<and> hz_ChainId z = k \<and>
    (\<forall>k' z'. GetHostZone t k' = Some z' \<and> k' \<noteq> k \<longrightarrow> apart z z' \<and>
      StAssetDenomFromHostZoneDenom (hz_HostDenom z) \<noteq> StAssetDenomFromHostZoneDenom (hz_HostDenom z'))"
proof -
  note t = stakeibc_steps_sound [OF assms(1,2)]
  have "apart z z'" if "GetHostZone t k' = Some z'" "k' \<noteq> k" for k' z'
    using t assms(3) that unfolding zones_sound_def by blast
  moreover have "apart z z' \<Longrightarrow> StAssetDenomFromHostZoneDenom (hz_HostDenom z) \<noteq> StAssetDenomFromHostZoneDenom (hz_HostDenom z')" for z'
    by (simp add: apart_def StAssetDenomFromHostZoneDenom_def)
  ultimately show ?thesis using zones_soundD [OF t assms(3)] unfolding balanced_def by blast
qed

section \<open>A concrete registration\<close>

definition register_chain :: chain where
  "register_chain = mod_records (SetEpochUnbondingRecord \<lparr>eur_EpochNumber = 3, eur_HostZoneUnbondings = []\<rparr>)
     (SetEpochTracker (demo_tracker STRIDE_EPOCH) (SetEpochTracker (demo_tracker DAY_EPOCH) empty_chain))"

definition register_msg :: MsgRegisterHostZone where
  "register_msg = \<lparr>mrh_ConnectionId = ''connection-0'', mrh_Bech32Prefix = ''cosmos'', mrh_HostDenom = ''uatom'',
     mrh_IbcDenom = ''ibc/atom'', mrh_Creator = ''stride1admin'', mrh_TransferChannelId = ''channel-0'',
     mrh_UnbondingFrequency = 3, mrh_MinRedemptionRate = None, mrh_MaxRedemptionRate = None\<rparr>"

definition registered_chain :: chain where
  "registered_chain = snd (RegisterHostZone demo_env register_msg register_chain)"

lemma register_run:
  "fst (RegisterHostZone demo_env register_msg register_chain) = Ok ()"
  "map_option hz_HostDenom (GetHostZone registered_chain ''GAIA'') = Some ''uatom''"
  by code_simp+

theorem zones_stay_sound_witness:
  "\<exists>z. stakeibc_step\<^sup>*\<^sup>* register_chain registered_chain \<and> GetHostZone registered_chain ''GAIA'' = Some z \<and>
     hz_HostDenom z = ''uatom'' \<and> hz_StakedBal z = total_delegation (hz_Validators z)"
proof -
  obtain z where z: "GetHostZone registered_chain ''GAIA'' = Some z" "hz_HostDenom z = ''uatom''"
    using register_run(2) by auto
  have step: "stakeibc_step\<^sup>*\<^sup>* register_chain registered_chain"
    using stakeibc_step.register [of demo_env register_msg register_chain "Ok ()" registered_chain] register_run(1)
    by (simp add: registered_chain_def prod_eq_iff r_into_rtranclp)
  have "zones_sound register_chain"
    by (rule zones_sound_empty) (simp add: register_chain_def empty_chain_def)
  from zones_stay_sound [OF step this z(1)] step z show ?thesis by blast
qed

end
