(* ===== verification/Vesting.thy ===== *)
theory Vesting
  imports Coins
begin

text \<open>
  \<open>x/claim/vesting/types\<close>: the vesting accounts airdrop claims are paid into
  (\<open>vesting_account.go\<close>, \<open>period.go\<close>), with the linear schedule of
  \<open>utils.GetVestedCoinsAt\<close>.

  A claim of the first three months is a period of the claimant's account: its coins are released
  linearly over the period's length. \<open>GetVestedCoins\<close> adds up what the periods have released,
  \<open>LockedCoins\<close> is what the bank refuses to send, and the two \<open>Track\<close> operations book
  delegations to free and vesting coins. Times of day are nanoseconds, the start, length and end of
  a period are \<open>int64\<close> seconds.

  Shown here: on an account a sequence of grants builds, the schedule never panics, releases more
  and more and never more than was granted, and everything at the end time; what is locked plus
  what is released is what was granted; booking a delegation and its return keeps the total.
\<close>

section \<open>Data\<close>

record Period =
  vp_StartTime :: int
  vp_Length :: int
  vp_Amount :: coins
  vp_ActionType :: int

record base_account =
  ba_Address :: string
  ba_PubKey :: "string option"
  ba_AccountNumber :: uint64
  ba_Sequence :: uint64

record BaseVesting =
  bva_BaseAccount :: base_account
  bva_OriginalVesting :: coins
  bva_DelegatedFree :: coins
  bva_DelegatedVesting :: coins
  bva_EndTime :: int

record StridePeriodicVesting =
  pva_Base :: BaseVesting
  pva_VestingPeriods :: "Period list"

definition unix :: "int \<Rightarrow> int" where
  "unix t = t div 10 ^ 9"

section \<open>Helpers of utils.go\<close>

definition Max64 :: "int \<Rightarrow> int \<Rightarrow> int" where
  "Max64 i j = (if i > j then i else j)"

definition Min64 :: "int \<Rightarrow> int \<Rightarrow> int" where
  "Min64 i j = (if i < j then i else j)"

definition vested_coin :: "Dec \<Rightarrow> denom \<times> int \<Rightarrow> (denom \<times> int) res" where
  "vested_coin portion ovc =
     rbind (Int_Int64 (snd ovc)) (\<lambda>amount.
     rbind (Dec_Mul (NewDec amount) portion) (\<lambda>d.
     rbind (Dec_RoundInt d) (\<lambda>vestedAmt. NewCoin (fst ovc) vestedAmt)))"

definition GetVestedCoinsAt :: "int \<Rightarrow> int \<Rightarrow> int \<Rightarrow> coins \<Rightarrow> coins res" where
  "GetVestedCoinsAt vAt vStart vLength vCoins =
     (if vAt < 0 \<or> vStart < 0 \<or> vLength < 0 then Ok []
      else
        let vEnd = int64_wrap (vStart + vLength) in
        if vAt \<le> vStart then Ok []
        else if vAt \<ge> vEnd then Ok vCoins
        else
          rbind (Dec_Quo (NewDec (vAt - vStart)) (NewDec vLength)) (\<lambda>portion.
          res_acc (\<lambda>ovc vestedCoins. rbind (vested_coin portion ovc) (\<lambda>c. Ok (vestedCoins @ [c]))) vCoins []))"

section \<open>The base vesting account\<close>

definition NewBaseVestingAccount :: "base_account \<Rightarrow> coins \<Rightarrow> int \<Rightarrow> BaseVesting" where
  "NewBaseVestingAccount baseAccount originalVesting endTime =
     \<lparr>bva_BaseAccount = baseAccount, bva_OriginalVesting = originalVesting, bva_DelegatedFree = [],
      bva_DelegatedVesting = [], bva_EndTime = endTime\<rparr>"

definition LockedCoinsFromVesting :: "BaseVesting \<Rightarrow> coins \<Rightarrow> coins res" where
  "LockedCoinsFromVesting bva vestingCoins =
     rbind (Coins_Min vestingCoins (bva_DelegatedVesting bva)) (\<lambda>m. Coins_Sub vestingCoins m)"

text \<open>The updates \<open>if !x.IsZero() { ... }\<close> of the two delegated amounts.\<close>

definition add_vesting :: "denom \<Rightarrow> int \<Rightarrow> BaseVesting \<Rightarrow> BaseVesting res" where
  "add_vesting d x bva =
     (if x \<noteq> 0 then
        rbind (NewCoin d x) (\<lambda>xCoin.
        rbind (Coins_Add (bva_DelegatedVesting bva) [xCoin]) (\<lambda>dv. Ok (bva\<lparr>bva_DelegatedVesting := dv\<rparr>)))
      else Ok bva)"

definition add_free :: "denom \<Rightarrow> int \<Rightarrow> BaseVesting \<Rightarrow> BaseVesting res" where
  "add_free d y bva =
     (if y \<noteq> 0 then
        rbind (NewCoin d y) (\<lambda>yCoin.
        rbind (Coins_Add (bva_DelegatedFree bva) [yCoin]) (\<lambda>df. Ok (bva\<lparr>bva_DelegatedFree := df\<rparr>)))
      else Ok bva)"

definition sub_free :: "denom \<Rightarrow> int \<Rightarrow> BaseVesting \<Rightarrow> BaseVesting res" where
  "sub_free d x bva =
     (if x \<noteq> 0 then
        rbind (NewCoin d x) (\<lambda>xCoin.
        rbind (Coins_Sub (bva_DelegatedFree bva) [xCoin]) (\<lambda>df. Ok (bva\<lparr>bva_DelegatedFree := df\<rparr>)))
      else Ok bva)"

definition sub_vesting :: "denom \<Rightarrow> int \<Rightarrow> BaseVesting \<Rightarrow> BaseVesting res" where
  "sub_vesting d y bva =
     (if y \<noteq> 0 then
        rbind (NewCoin d y) (\<lambda>yCoin.
        rbind (Coins_Sub (bva_DelegatedVesting bva) [yCoin]) (\<lambda>dv. Ok (bva\<lparr>bva_DelegatedVesting := dv\<rparr>)))
      else Ok bva)"

definition track_delegation_coin ::
  "coins \<Rightarrow> coins \<Rightarrow> denom \<times> int \<Rightarrow> BaseVesting \<Rightarrow> BaseVesting res" where
  "track_delegation_coin balance vestingCoins coin bva =
     rbind (AmountOf balance (fst coin)) (\<lambda>baseAmt.
     rbind (AmountOf vestingCoins (fst coin)) (\<lambda>vestingAmt.
     rbind (AmountOf (bva_DelegatedVesting bva) (fst coin)) (\<lambda>delVestingAmt.
     if snd coin = 0 \<or> baseAmt < snd coin then Panic
     else
       rbind (Int_Sub vestingAmt delVestingAmt) (\<lambda>diff.
       let x = min (max diff 0) (snd coin) in
       rbind (Int_Sub (snd coin) x) (\<lambda>y.
       rbind (add_vesting (fst coin) x bva) (\<lambda>bva. add_free (fst coin) y bva))))))"

definition bva_TrackDelegation :: "BaseVesting \<Rightarrow> coins \<Rightarrow> coins \<Rightarrow> coins \<Rightarrow> BaseVesting res" where
  "bva_TrackDelegation bva balance vestingCoins amount =
     res_acc (track_delegation_coin balance vestingCoins) amount bva"

definition track_undelegation_coin :: "denom \<times> int \<Rightarrow> BaseVesting \<Rightarrow> BaseVesting res" where
  "track_undelegation_coin coin bva =
     (if snd coin = 0 then Panic
      else
        rbind (AmountOf (bva_DelegatedFree bva) (fst coin)) (\<lambda>delegatedFree.
        rbind (AmountOf (bva_DelegatedVesting bva) (fst coin)) (\<lambda>delegatedVesting.
        let x = min delegatedFree (snd coin) in
        rbind (Int_Sub (snd coin) x) (\<lambda>rest.
        let y = min delegatedVesting rest in
        rbind (sub_free (fst coin) x bva) (\<lambda>bva. sub_vesting (fst coin) y bva)))))"

definition TrackUndelegation :: "BaseVesting \<Rightarrow> coins \<Rightarrow> BaseVesting res" where
  "TrackUndelegation bva amount = res_acc track_undelegation_coin amount bva"

definition GetOriginalVesting :: "BaseVesting \<Rightarrow> coins" where
  "GetOriginalVesting bva = bva_OriginalVesting bva"

definition GetDelegatedFree :: "BaseVesting \<Rightarrow> coins" where
  "GetDelegatedFree bva = bva_DelegatedFree bva"

definition GetDelegatedVesting :: "BaseVesting \<Rightarrow> coins" where
  "GetDelegatedVesting bva = bva_DelegatedVesting bva"

definition GetEndTime :: "BaseVesting \<Rightarrow> int" where
  "GetEndTime bva = bva_EndTime bva"

text \<open>\<open>BaseAccount.Validate\<close> of the auth module is a parameter.\<close>

definition bva_Validate :: "(base_account \<Rightarrow> unit res) \<Rightarrow> BaseVesting \<Rightarrow> unit res" where
  "bva_Validate base_validate bva =
     rbind (Coins_IsAllLTE (bva_DelegatedVesting bva) (bva_OriginalVesting bva)) (\<lambda>ok.
     if \<not> ok then Err Plain else base_validate (bva_BaseAccount bva))"

section \<open>Periods\<close>

definition Period_Duration :: "Period \<Rightarrow> int" where
  "Period_Duration p = int64_wrap (vp_Length p * 10 ^ 9)"

definition TotalLength :: "Period list \<Rightarrow> int" where
  "TotalLength ps = foldl (\<lambda>total period. int64_wrap (total + vp_Length period)) 0 ps"

definition TotalDuration :: "Period list \<Rightarrow> int" where
  "TotalDuration ps = int64_wrap (TotalLength ps * 10 ^ 9)"

definition TotalAmount :: "Period list \<Rightarrow> coins res" where
  "TotalAmount ps = res_acc (\<lambda>period total. Coins_Add total (vp_Amount period)) ps []"

section \<open>The periodic vesting account\<close>

definition NewStridePeriodicVestingAccountRaw ::
  "BaseVesting \<Rightarrow> int \<Rightarrow> Period list \<Rightarrow> StridePeriodicVesting" where
  "NewStridePeriodicVestingAccountRaw bva startTime periods = \<lparr>pva_Base = bva, pva_VestingPeriods = periods\<rparr>"

text \<open>Without a period the account returned has no base account (a nil pointer): \<open>None\<close>.\<close>

definition NewStridePeriodicVestingAccount ::
  "base_account \<Rightarrow> coins \<Rightarrow> Period list \<Rightarrow> StridePeriodicVesting option" where
  "NewStridePeriodicVestingAccount baseAcc originalVesting periods =
     (if periods = [] then None
      else
        let endTime = foldl (\<lambda>e p. Max64 e (int64_wrap (vp_StartTime p + vp_Length p))) 0 periods in
        Some \<lparr>pva_Base = \<lparr>bva_BaseAccount = baseAcc, bva_OriginalVesting = originalVesting,
                bva_DelegatedFree = [], bva_DelegatedVesting = [], bva_EndTime = endTime\<rparr>,
              pva_VestingPeriods = periods\<rparr>)"

definition AddNewGrant :: "Period \<Rightarrow> StridePeriodicVesting \<Rightarrow> StridePeriodicVesting res" where
  "AddNewGrant grantedPeriod pva =
     rbind (Coins_Add (bva_OriginalVesting (pva_Base pva)) (vp_Amount grantedPeriod)) (\<lambda>original.
     Ok \<lparr>pva_Base = (pva_Base pva)
           \<lparr>bva_EndTime := Max64 (bva_EndTime (pva_Base pva))
              (int64_wrap (vp_Length grantedPeriod + vp_StartTime grantedPeriod)),
            bva_OriginalVesting := original\<rparr>,
         pva_VestingPeriods = pva_VestingPeriods pva @ [grantedPeriod]\<rparr>)"

definition GetVestedCoins :: "StridePeriodicVesting \<Rightarrow> int \<Rightarrow> coins res" where
  "GetVestedCoins pva blockTime =
     (case pva_VestingPeriods pva of
        [] \<Rightarrow> Ok []
      | p # _ \<Rightarrow>
          if unix blockTime \<le> vp_StartTime p then Ok []
          else if unix blockTime \<ge> bva_EndTime (pva_Base pva) then Ok (bva_OriginalVesting (pva_Base pva))
          else res_acc (\<lambda>period vestedCoins.
              rbind (GetVestedCoinsAt (unix blockTime) (vp_StartTime period) (vp_Length period) (vp_Amount period))
                (\<lambda>cs. Coins_Add vestedCoins cs))
            (pva_VestingPeriods pva) [])"

definition GetVestingCoins :: "StridePeriodicVesting \<Rightarrow> int \<Rightarrow> coins res" where
  "GetVestingCoins pva blockTime =
     rbind (GetVestedCoins pva blockTime) (\<lambda>vested. Coins_Sub (bva_OriginalVesting (pva_Base pva)) vested)"

definition LockedCoins :: "StridePeriodicVesting \<Rightarrow> int \<Rightarrow> coins res" where
  "LockedCoins pva blockTime =
     rbind (GetVestingCoins pva blockTime) (\<lambda>vesting. LockedCoinsFromVesting (pva_Base pva) vesting)"

definition pva_TrackDelegation ::
  "StridePeriodicVesting \<Rightarrow> int \<Rightarrow> coins \<Rightarrow> coins \<Rightarrow> StridePeriodicVesting res" where
  "pva_TrackDelegation pva blockTime balance amount =
     rbind (GetVestingCoins pva blockTime) (\<lambda>vesting.
     rbind (bva_TrackDelegation (pva_Base pva) balance vesting amount) (\<lambda>bva. Ok (pva\<lparr>pva_Base := bva\<rparr>)))"

definition GetStartTime :: "StridePeriodicVesting \<Rightarrow> int res" where
  "GetStartTime pva = (case pva_VestingPeriods pva of [] \<Rightarrow> Panic | p # _ \<Rightarrow> Ok (vp_StartTime p))"

definition GetVestingPeriods :: "StridePeriodicVesting \<Rightarrow> Period list" where
  "GetVestingPeriods pva = pva_VestingPeriods pva"

definition pva_Validate :: "(base_account \<Rightarrow> unit res) \<Rightarrow> StridePeriodicVesting \<Rightarrow> unit res" where
  "pva_Validate base_validate pva =
     rbind (GetStartTime pva) (\<lambda>startTime.
     if startTime \<ge> GetEndTime (pva_Base pva) then Err Plain
     else
       let endTime = foldl (\<lambda>e p. int64_wrap (e + vp_Length p)) startTime (pva_VestingPeriods pva) in
       rbind (TotalAmount (pva_VestingPeriods pva)) (\<lambda>originalVesting.
       if endTime \<noteq> bva_EndTime (pva_Base pva) then Err Plain
       else
         rbind (Coins_IsEqual originalVesting (bva_OriginalVesting (pva_Base pva))) (\<lambda>same.
         if \<not> same then Err Plain else bva_Validate base_validate (pva_Base pva))))"

section \<open>The linear schedule\<close>

lemma chop_nonneg_mono: "d \<le> d' \<Longrightarrow> chop_nonneg d \<le> chop_nonneg d'"
proof -
  let ?P = precisionReuse
  assume le: "d \<le> d'"
  then consider (less) "d div ?P < d' div ?P" | (same) "d div ?P = d' div ?P"
    using zdiv_mono1 [of d d' ?P] by fastforce
  then show ?thesis
  proof cases
    case less
    then show ?thesis using chop_nonneg_cases [of d] chop_nonneg_cases [of d'] by linarith
  next
    case same
    with le have "d mod ?P \<le> d' mod ?P"
      by (smt (verit) div_mult_mod_eq)
    with same show ?thesis by (simp add: chop_nonneg_def Let_def)
  qed
qed

text \<open>The share of a period that is released at second \<open>t\<close>, and the amount of it.\<close>

definition portion_at :: "int \<Rightarrow> Period \<Rightarrow> Dec" where
  "portion_at t p = chop_nonneg ((t - vp_StartTime p) * (precisionReuse * precisionReuse) div vp_Length p)"

definition released :: "int \<Rightarrow> Period \<Rightarrow> int \<Rightarrow> int" where
  "released t p a =
     (if t \<le> vp_StartTime p then 0
      else if t \<ge> vp_StartTime p + vp_Length p then a
      else chop_nonneg (a * portion_at t p))"

definition period_ok :: "Period \<Rightarrow> bool" where
  "period_ok p \<longleftrightarrow> 0 \<le> vp_StartTime p \<and> 0 \<le> vp_Length p \<and> vp_StartTime p + vp_Length p < 2 ^ 63
     \<and> Coins_IsValid (vp_Amount p) \<and> (\<forall>c\<in>set (vp_Amount p). snd c < 2 ^ 63)"

lemma portion_bounds:
  assumes "vp_StartTime p \<le> t" "t \<le> vp_StartTime p + vp_Length p" "0 < vp_Length p"
  shows "0 \<le> portion_at t p" "portion_at t p \<le> precisionReuse"
proof -
  let ?P = precisionReuse
  define X where "X = (t - vp_StartTime p) * (?P * ?P) div vp_Length p"
  have "0 \<le> X" using assms by (simp add: X_def pos_imp_zdiv_nonneg_iff)
  then show "0 \<le> portion_at t p" by (simp add: portion_at_def X_def [symmetric] chop_nonneg_ge_0)
  have "(t - vp_StartTime p) * (?P * ?P) \<le> vp_Length p * (?P * ?P)" using assms by (intro mult_right_mono) auto
  then have "X \<le> ?P * ?P"
    unfolding X_def using assms(3) zdiv_mono1 [of _ "vp_Length p * (?P * ?P)" "vp_Length p"] by simp
  then have "2 * X < 2 * (?P * ?P) + ?P" using precisionReuse_pos(1) by linarith
  then show "portion_at t p \<le> ?P" by (simp add: portion_at_def X_def [symmetric] chop_nonneg_le)
qed

lemma portion_mono: "t \<le> t' \<Longrightarrow> 0 < vp_Length p \<Longrightarrow> portion_at t p \<le> portion_at t' p"
  unfolding portion_at_def by (intro chop_nonneg_mono zdiv_mono1 mult_right_mono) auto

lemma scaled_bounds:
  assumes "0 \<le> a" "0 \<le> q" "q \<le> precisionReuse"
  shows "0 \<le> chop_nonneg (a * q)" "chop_nonneg (a * q) \<le> a"
proof -
  show "0 \<le> chop_nonneg (a * q)" using assms by (simp add: chop_nonneg_ge_0)
  have "a * q \<le> a * precisionReuse" using assms by (intro mult_left_mono) auto
  then have "2 * (a * q) < 2 * (a * precisionReuse) + precisionReuse"
    using precisionReuse_pos(1) by linarith
  then show "chop_nonneg (a * q) \<le> a" by (rule chop_nonneg_le)
qed

lemma released_bounds:
  assumes "period_ok p" "0 \<le> a"
  shows "0 \<le> released t p a" "released t p a \<le> a"
  using assms portion_bounds [of p t] scaled_bounds [of a "portion_at t p"]
  by (auto simp: released_def)

lemma released_mono:
  assumes "period_ok p" "0 \<le> a" "t \<le> t'"
  shows "released t p a \<le> released t' p a"
proof (cases "vp_StartTime p < t \<and> t' < vp_StartTime p + vp_Length p")
  case True
  with assms have "a * portion_at t p \<le> a * portion_at t' p"
    by (intro mult_left_mono portion_mono) auto
  then show ?thesis using True assms(3) by (simp add: released_def chop_nonneg_mono)
next
  case False
  with assms show ?thesis
    using released_bounds [OF assms(1,2), of t] released_bounds [OF assms(1,2), of t']
    by (fastforce simp: released_def [of t'] released_def [of t] split: if_splits)
qed

lemma amt_scaled:
  "distinct (map fst cs) \<Longrightarrow> f 0 = 0 \<Longrightarrow> amt (map (\<lambda>c. (fst c, f (snd c))) cs) d = f (amt cs d)"
  by (induction cs) (auto simp: amt_notin image_image)

lemma vested_coin_eq:
  assumes "0 \<le> snd c" "snd c < 2 ^ 63" "ValidateDenom (fst c)" "0 \<le> q" "q \<le> precisionReuse"
  shows "vested_coin q c = Ok (fst c, chop_nonneg (snd c * q))"
proof -
  have "snd c * q \<le> 2 ^ 63 * precisionReuse" using assms by (intro mult_mono) auto
  moreover have "0 \<le> snd c * q" using assms by simp
  ultimately have "fits_dec (snd c * q)" by (simp add: fits_dec_def precisionReuse_def)
  then have "Dec_Mul (NewDec (snd c)) q = Ok (snd c * q)"
    using Dec_Mul_int [of "snd c" q] by (simp add: Dec_Mul_Ok NewDec_def NewDecFromInt_def)
  moreover have "Dec_RoundInt (snd c * q) = Ok (chop_nonneg (snd c * q))"
    using scaled_bounds [OF assms(1,4,5)] assms(2) \<open>0 \<le> snd c * q\<close>
    by (simp add: Dec_RoundInt_Ok chopPrecisionAndRound_nonneg fits_def)
  ultimately show ?thesis
    using assms scaled_bounds [OF assms(1,4,5)]
    by (simp add: vested_coin_def Int_Int64_def is_int64_def NewCoin_def)
qed

lemma collect_map:
  "(\<And>c. c \<in> set cs \<Longrightarrow> f c = Ok (g c)) \<Longrightarrow>
   res_acc (\<lambda>c out. rbind (f c) (\<lambda>x. Ok (out @ [x]))) cs out = Ok (out @ map g cs)"
  by (induction cs arbitrary: out) auto

lemma portion_quo:
  assumes "vp_StartTime p < t" "t < vp_StartTime p + vp_Length p"
  shows "Dec_Quo (NewDec (t - vp_StartTime p)) (NewDec (vp_Length p)) = Ok (portion_at t p)"
proof -
  let ?P = precisionReuse and ?e = "t - vp_StartTime p" and ?l = "vp_Length p"
  have l: "0 < ?l" "0 < ?e" using assms by auto
  have "big_quo (NewDec ?e * (?P * ?P)) (NewDec ?l) = (?e * (?P * ?P)) * ?P div (?l * ?P)"
    using l by (simp add: NewDec_def big_quo_pos ac_simps)
  also have "\<dots> = ?e * (?P * ?P) div ?l" by (rule div_mult_mult2) simp
  finally have q: "big_quo (NewDec ?e * (?P * ?P)) (NewDec ?l) = ?e * (?P * ?P) div ?l" .
  have "0 \<le> ?e * (?P * ?P) div ?l" using l by (simp add: pos_imp_zdiv_nonneg_iff)
  then show ?thesis
    using q portion_bounds [of p t] assms l
    by (auto simp: Dec_Quo_Ok portion_at_def chopPrecisionAndRound_nonneg NewDec_def fits_dec_def precisionReuse_def)
qed

text \<open>\<open>GetVestedCoinsAt\<close> computes the schedule, coin by coin.\<close>

definition coins_nonneg :: "coins \<Rightarrow> bool" where
  "coins_nonneg cs \<longleftrightarrow> sorted_wrt (<) (map fst cs) \<and> (\<forall>c\<in>set cs. 0 \<le> snd c \<and> ValidateDenom (fst c))"

lemma IsValid_nonneg: "Coins_IsValid cs \<Longrightarrow> coins_nonneg cs"
  by (auto simp: coins_nonneg_def dest: IsValid_pos IsValid_denom IsValid_sorted)

lemma GetVestedCoinsAt_schedule:
  assumes "period_ok p"
  shows "\<exists>cs. GetVestedCoinsAt t (vp_StartTime p) (vp_Length p) (vp_Amount p) = Ok cs \<and> coins_nonneg cs
    \<and> (\<forall>d. amt cs d = released t p (amt (vp_Amount p) d))"
proof (cases "vp_StartTime p < t \<and> t < vp_StartTime p + vp_Length p")
  case True
  let ?q = "portion_at t p" and ?cs = "vp_Amount p"
  have q: "0 \<le> ?q" "?q \<le> precisionReuse" using True portion_bounds [of p t] by auto
  have v: "Coins_IsValid ?cs" and a: "0 \<le> snd c" "snd c < 2 ^ 63" "ValidateDenom (fst c)" if "c \<in> set ?cs" for c
    using assms that by (auto simp: period_ok_def dest: IsValid_pos IsValid_denom)
  define g where "g = (\<lambda>c :: denom \<times> int. (fst c, chop_nonneg (snd c * ?q)))"
  have "res_acc (\<lambda>c out. rbind (vested_coin ?q c) (\<lambda>x. Ok (out @ [x]))) ?cs [] = Ok (map g ?cs)"
    using collect_map [of ?cs "vested_coin ?q" g "[]"] vested_coin_eq [OF a q] by (simp add: g_def)
  moreover have "int64_wrap (vp_StartTime p + vp_Length p) = vp_StartTime p + vp_Length p"
    using assms by (intro int64_wrap_id) (simp add: period_ok_def is_int64_def)
  ultimately have "GetVestedCoinsAt t (vp_StartTime p) (vp_Length p) ?cs = Ok (map g ?cs)"
    using True assms portion_quo [of p t] by (simp add: GetVestedCoinsAt_def Let_def period_ok_def)
  moreover have "Coins_IsValid ?cs" using assms by (simp add: period_ok_def)
  then have "sorted_wrt (<) (map fst ?cs)" by (rule IsValid_sorted)
  then have "sorted_wrt (<) (map fst (map g ?cs))" "distinct (map fst ?cs)"
    by (simp_all add: g_def comp_def strictly_sorted_distinct)
  then have "coins_nonneg (map g ?cs)" "amt (map g ?cs) d = released t p (amt ?cs d)" for d
    using a scaled_bounds(1) [OF _ q] True amt_scaled [of ?cs "\<lambda>x. chop_nonneg (x * ?q)" d]
    by (auto simp: coins_nonneg_def g_def released_def chop_nonneg_def)
  ultimately show ?thesis by blast
next
  case False
  have "int64_wrap (vp_StartTime p + vp_Length p) = vp_StartTime p + vp_Length p"
    using assms by (intro int64_wrap_id) (simp add: period_ok_def is_int64_def)
  with False assms show ?thesis
    by (auto simp: GetVestedCoinsAt_def Let_def period_ok_def released_def coins_nonneg_def
        dest: IsValid_pos IsValid_denom IsValid_sorted)
qed

section \<open>Accounts built from grants\<close>

definition granted :: "Period list \<Rightarrow> denom \<Rightarrow> int" where
  "granted ps d = sum_list (map (\<lambda>p. amt (vp_Amount p) d) ps)"

definition vesting_ok :: "StridePeriodicVesting \<Rightarrow> bool" where
  "vesting_ok pva \<longleftrightarrow>
     (let ps = pva_VestingPeriods pva; bva = pva_Base pva in
      ps \<noteq> [] \<and> list_all period_ok ps \<and> Coins_IsValid (bva_OriginalVesting bva)
      \<and> bva_EndTime bva = Max ((\<lambda>p. vp_StartTime p + vp_Length p) ` set ps)
      \<and> Coins_IsValid (bva_DelegatedVesting bva) \<and> Coins_IsValid (bva_DelegatedFree bva))
      \<and> (\<forall>d. amt (bva_OriginalVesting (pva_Base pva)) d = granted (pva_VestingPeriods pva) d
           \<and> granted (pva_VestingPeriods pva) d < 2 ^ 256)"

lemma granted_simps [simp]:
  "granted [] d = 0" "granted (p # ps) d = amt (vp_Amount p) d + granted ps d"
  "granted (ps @ qs) d = granted ps d + granted qs d"
  by (simp_all add: granted_def)

lemma period_ok_amt: "period_ok p \<Longrightarrow> Coins_IsValid (vp_Amount p) \<and> 0 \<le> amt (vp_Amount p) d"
  by (simp add: period_ok_def IsValid_amt_nonneg)

lemma granted_nonneg: "list_all period_ok ps \<Longrightarrow> 0 \<le> granted ps d"
  by (induction ps) (auto dest: period_ok_amt [of _ d])

definition total_released :: "int \<Rightarrow> Period list \<Rightarrow> denom \<Rightarrow> int" where
  "total_released t ps d = sum_list (map (\<lambda>p. released t p (amt (vp_Amount p) d)) ps)"

lemma total_released_bounds:
  assumes "list_all period_ok ps"
  shows "0 \<le> total_released t ps d" "total_released t ps d \<le> granted ps d"
proof -
  have b: "0 \<le> released t p (amt (vp_Amount p) d)" "released t p (amt (vp_Amount p) d) \<le> amt (vp_Amount p) d"
    if "p \<in> set ps" for p
    using assms that period_ok_amt [of p d] released_bounds by (auto simp: list_all_iff)
  then show "0 \<le> total_released t ps d" unfolding total_released_def by (intro sum_list_map_nonneg)
  show "total_released t ps d \<le> granted ps d"
    unfolding total_released_def granted_def using b(2) by (intro sum_list_mono)
qed

lemma total_released_mono:
  assumes "list_all period_ok ps" "t \<le> t'"
  shows "total_released t ps d \<le> total_released t' ps d"
  unfolding total_released_def using assms period_ok_amt [of _ d]
  by (intro sum_list_mono released_mono) (auto simp: list_all_iff)

lemma Coins_Add_total:
  assumes "Coins_IsValid a" "coins_nonneg b" "\<And>d. amt a d + amt b d < 2 ^ 256"
  shows "Coins_Add a b = Ok (coins_sum a b)" "Coins_IsValid (coins_sum a b)"
proof -
  have a0: "0 \<le> amt a d" for d by (rule IsValid_amt_nonneg) (rule assms)
  have b0: "0 \<le> amt b d" for d using assms(2) by (intro amt_nonneg) (simp add: coins_nonneg_def)
  have "fits (amt a d)" "fits (amt b d)" "fits (amt a d + amt b d)" for d
    using a0 [of d] b0 [of d] assms(3) [of d] by (simp_all add: fits_def)
  then show "Coins_Add a b = Ok (coins_sum a b)"
    unfolding Coins_Add_def using assms(1,2) by (intro Coins_safeAdd_total) (auto simp: IsValid_sorted coins_nonneg_def)
  show "Coins_IsValid (coins_sum a b)"
    using a0 b0 assms(1,2) by (intro coins_sum_valid) (auto simp: coins_nonneg_def dest: IsValid_denom)
qed

lemma vest_loop:
  assumes "list_all period_ok ps" "Coins_IsValid acc" "\<And>d. amt acc d + granted ps d < 2 ^ 256"
  shows "\<exists>cs. res_acc (\<lambda>p vested. rbind (GetVestedCoinsAt t (vp_StartTime p) (vp_Length p) (vp_Amount p))
      (\<lambda>cs. Coins_Add vested cs)) ps acc = Ok cs \<and> Coins_IsValid cs
    \<and> (\<forall>d. amt cs d = amt acc d + total_released t ps d)"
  using assms
proof (induction ps arbitrary: acc)
  case (Cons p ps)
  then have p: "period_ok p" and ps: "list_all period_ok ps" by auto
  obtain cs where cs: "GetVestedCoinsAt t (vp_StartTime p) (vp_Length p) (vp_Amount p) = Ok cs" "coins_nonneg cs"
    and amt: "\<And>d. amt cs d = released t p (amt (vp_Amount p) d)"
    using GetVestedCoinsAt_schedule [OF p] by blast
  have le: "amt cs d \<le> amt (vp_Amount p) d" for d
    unfolding amt using p period_ok_amt by (intro released_bounds) auto
  have lt: "amt acc d + amt cs d + granted ps d < 2 ^ 256" for d
    using Cons.prems(3) [of d] le [of d] by simp
  then have "amt acc d + amt cs d < 2 ^ 256" for d
    using granted_nonneg [OF ps, of d] lt [of d] by linarith
  note add = Coins_Add_total [OF Cons.prems(2) cs(2) this]
  have "amt (coins_sum acc cs) d + granted ps d < 2 ^ 256" for d using lt [of d] by simp
  from Cons.IH [OF ps add(2) this] add(1) cs(1) show ?case
    by (auto simp: total_released_def amt)
qed (simp add: total_released_def)

text \<open>What an account has released at second \<open>t\<close>.\<close>

definition schedule :: "StridePeriodicVesting \<Rightarrow> int \<Rightarrow> denom \<Rightarrow> int" where
  "schedule pva t d =
     (if t \<le> vp_StartTime (hd (pva_VestingPeriods pva)) then 0
      else if t \<ge> bva_EndTime (pva_Base pva) then granted (pva_VestingPeriods pva) d
      else total_released t (pva_VestingPeriods pva) d)"

lemma schedule_bounds:
  assumes "vesting_ok pva"
  shows "0 \<le> schedule pva t d" "schedule pva t d \<le> granted (pva_VestingPeriods pva) d"
    "t \<le> t' \<Longrightarrow> schedule pva t d \<le> schedule pva t' d"
proof -
  have ok: "list_all period_ok (pva_VestingPeriods pva)" using assms by (simp add: vesting_ok_def Let_def)
  note b = total_released_bounds [OF ok] granted_nonneg [OF ok] total_released_mono [OF ok]
  show "0 \<le> schedule pva t d" "schedule pva t d \<le> granted (pva_VestingPeriods pva) d"
    "t \<le> t' \<Longrightarrow> schedule pva t d \<le> schedule pva t' d"
    using b(1,2) [of t d] b(4) [of t t' d] b(1,2) [of t' d] b(3) [of d] by (auto simp: schedule_def)
qed

lemma GetVestedCoins_schedule:
  assumes "vesting_ok pva"
  shows "\<exists>cs. GetVestedCoins pva now = Ok cs \<and> Coins_IsValid cs \<and> (\<forall>d. amt cs d = schedule pva (unix now) d)"
proof -
  obtain p ps where ps: "pva_VestingPeriods pva = p # ps"
    using assms by (cases "pva_VestingPeriods pva") (auto simp: vesting_ok_def Let_def)
  have "list_all period_ok (p # ps)" "\<And>d. amt [] d + granted (p # ps) d < 2 ^ 256"
    using assms by (simp_all add: vesting_ok_def Let_def ps)
  from vest_loop [OF this(1) _ this(2), of "unix now"] assms show ?thesis
    by (fastforce simp: GetVestedCoins_def ps schedule_def vesting_ok_def Let_def)
qed

lemma GetVestingCoins_total:
  assumes "vesting_ok pva"
  shows "\<exists>cs. GetVestingCoins pva now = Ok cs \<and> Coins_IsValid cs
    \<and> (\<forall>d. amt cs d = granted (pva_VestingPeriods pva) d - schedule pva (unix now) d)"
proof -
  obtain v where v: "GetVestedCoins pva now = Ok v" "Coins_IsValid v" "\<And>d. amt v d = schedule pva (unix now) d"
    using GetVestedCoins_schedule [OF assms] by blast
  have o: "Coins_IsValid (bva_OriginalVesting (pva_Base pva))"
    "\<And>d. amt (bva_OriginalVesting (pva_Base pva)) d = granted (pva_VestingPeriods pva) d"
    "\<And>d. fits (amt (bva_OriginalVesting (pva_Base pva)) d)"
    using assms granted_nonneg [of "pva_VestingPeriods pva"] by (auto simp: vesting_ok_def Let_def fits_def)
  have "amt v d \<le> amt (bva_OriginalVesting (pva_Base pva)) d" for d
    using v(3) o(2) schedule_bounds [OF assms] by simp
  from Coins_Sub_total [OF o(1) v(2) this o(3)] v o(2) show ?thesis
    by (auto simp: GetVestingCoins_def)
qed

text \<open>What is locked: the vesting coins that are not delegated.\<close>

lemma LockedCoins_total:
  assumes "vesting_ok pva"
  shows "\<exists>cs. LockedCoins pva now = Ok cs \<and> Coins_IsValid cs
    \<and> (\<forall>d. amt cs d = max 0 (granted (pva_VestingPeriods pva) d - schedule pva (unix now) d
         - amt (bva_DelegatedVesting (pva_Base pva)) d))"
proof -
  let ?dv = "bva_DelegatedVesting (pva_Base pva)"
  obtain v where v: "GetVestingCoins pva now = Ok v" "Coins_IsValid v"
    and av: "\<And>d. amt v d = granted (pva_VestingPeriods pva) d - schedule pva (unix now) d"
    using GetVestingCoins_total [OF assms] by blast
  have dv: "Coins_IsValid ?dv" using assms by (simp add: vesting_ok_def Let_def)
  obtain m where m: "Coins_Min v ?dv = Ok m" "Coins_IsValid m" "\<And>d. amt m d = min (amt v d) (amt ?dv d)"
    using Coins_Min_total [OF v(2) dv] by blast
  have "granted (pva_VestingPeriods pva) d < 2 ^ 256" for d using assms by (simp add: vesting_ok_def)
  then have "fits (amt v d)" for d
    using schedule_bounds(1,2) [OF assms, of "unix now" d] by (smt (verit) fits_def av)
  with Coins_Sub_total [OF v(2) m(2)] m(3) obtain r where
    "Coins_Sub v m = Ok r" "Coins_IsValid r" "\<And>d. amt r d = amt v d - amt m d" by auto
  then show ?thesis
    using v(1) m(1,3) by (auto simp: LockedCoins_def LockedCoinsFromVesting_def av min_def max_def)
qed

text \<open>Property C25. The release of a vesting account, for any account whose end time and original amount
  are those of its periods. The computation never panics; it releases the linear schedule of the
  periods, which only grows with time, never exceeds what was granted and is all of it from the end
  time on; and the coins the bank locks are what is not yet released and not delegated, so that at
  the end time nothing is locked.
\<close>

theorem vesting_schedule:
  assumes "vesting_ok pva" "now \<le> later"
  shows "\<exists>v v' l. GetVestedCoins pva now = Ok v \<and> GetVestedCoins pva later = Ok v' \<and> LockedCoins pva now = Ok l
    \<and> (\<forall>d. amt v d = schedule pva (unix now) d \<and> amt v d \<le> amt v' d
         \<and> amt v' d \<le> amt (GetOriginalVesting (pva_Base pva)) d
         \<and> amt l d = max 0 (amt (GetOriginalVesting (pva_Base pva)) d - amt v d
                             - amt (GetDelegatedVesting (pva_Base pva)) d))
    \<and> (GetEndTime (pva_Base pva) \<le> unix now \<and> vp_StartTime (hd (GetVestingPeriods pva)) < unix now \<longrightarrow>
         v = GetOriginalVesting (pva_Base pva) \<and> l = [])"
proof -
  let ?b = "pva_Base pva"
  have orig: "\<And>d. amt (bva_OriginalVesting ?b) d = granted (pva_VestingPeriods pva) d"
    and ov: "Coins_IsValid (bva_OriginalVesting ?b)" and dv: "\<And>d. 0 \<le> amt (bva_DelegatedVesting ?b) d"
    using assms(1) IsValid_amt_nonneg by (auto simp: vesting_ok_def Let_def)
  obtain v where v: "GetVestedCoins pva now = Ok v" "Coins_IsValid v" "\<And>d. amt v d = schedule pva (unix now) d"
    using GetVestedCoins_schedule [OF assms(1)] by blast
  obtain v' where v': "GetVestedCoins pva later = Ok v'" "\<And>d. amt v' d = schedule pva (unix later) d"
    using GetVestedCoins_schedule [OF assms(1)] by blast
  obtain l where l: "LockedCoins pva now = Ok l" "Coins_IsValid l"
    "\<And>d. amt l d = max 0 (granted (pva_VestingPeriods pva) d - schedule pva (unix now) d - amt (bva_DelegatedVesting ?b) d)"
    using LockedCoins_total [OF assms(1)] by blast
  have "unix now \<le> unix later" unfolding unix_def using assms(2) by (intro zdiv_mono1) auto
  then have step: "amt v d \<le> amt v' d" "amt v' d \<le> amt (bva_OriginalVesting ?b) d" for d
    unfolding v(3) v'(2) orig using assms(1) by (intro schedule_bounds; simp)+
  have "v = bva_OriginalVesting ?b \<and> l = []"
    if "bva_EndTime ?b \<le> unix now" "vp_StartTime (hd (pva_VestingPeriods pva)) < unix now"
  proof
    have s: "schedule pva (unix now) d = granted (pva_VestingPeriods pva) d" for d
      using that by (simp add: schedule_def)
    show "v = bva_OriginalVesting ?b" using v(2,3) ov s orig by (intro IsValid_ext) auto
    show "l = []" using l(2,3) dv s by (intro IsValid_ext) auto
  qed
  then show ?thesis
    using v v' l step orig
    by (intro exI [of _ v] exI [of _ v'] exI [of _ l])
      (simp add: GetOriginalVesting_def GetDelegatedVesting_def GetEndTime_def GetVestingPeriods_def)
qed

text \<open>Accounts made of grants satisfy the invariant.\<close>

definition grant_all :: "Period list \<Rightarrow> StridePeriodicVesting \<Rightarrow> StridePeriodicVesting res" where
  "grant_all ps pva = res_acc AddNewGrant ps pva"

lemma end_wrap: "period_ok p \<Longrightarrow> int64_wrap (vp_StartTime p + vp_Length p) = vp_StartTime p + vp_Length p"
  by (intro int64_wrap_id) (simp add: period_ok_def is_int64_def)

lemma first_grant_ok:
  assumes "period_ok p" "\<And>d. amt (vp_Amount p) d < 2 ^ 256"
  shows "\<exists>pva. NewStridePeriodicVestingAccount base (vp_Amount p) [p] = Some pva \<and> vesting_ok pva
    \<and> pva_VestingPeriods pva = [p]"
  using assms end_wrap [OF assms(1)]
  by (auto simp: NewStridePeriodicVestingAccount_def vesting_ok_def Let_def period_ok_def Max64_def)

lemma AddNewGrant_ok:
  assumes "vesting_ok pva" "period_ok p" "\<And>d. granted (pva_VestingPeriods pva) d + amt (vp_Amount p) d < 2 ^ 256"
  shows "\<exists>pva'. AddNewGrant p pva = Ok pva' \<and> vesting_ok pva' \<and> pva_VestingPeriods pva' = pva_VestingPeriods pva @ [p]"
proof -
  let ?b = "pva_Base pva" and ?ps = "pva_VestingPeriods pva"
  have o: "Coins_IsValid (bva_OriginalVesting ?b)" "\<And>d. amt (bva_OriginalVesting ?b) d = granted ?ps d"
    and e: "bva_EndTime ?b = Max ((\<lambda>p. vp_StartTime p + vp_Length p) ` set ?ps)" and ne: "?ps \<noteq> []"
    using assms(1) by (auto simp: vesting_ok_def Let_def)
  have "coins_nonneg (vp_Amount p)" using assms(2) by (simp add: period_ok_def IsValid_nonneg)
  note add = Coins_Add_total [OF o(1) this]
  have lt: "amt (bva_OriginalVesting ?b) d + amt (vp_Amount p) d < 2 ^ 256" for d using assms(3) o(2) by simp
  have m: "Max64 (bva_EndTime ?b) (int64_wrap (vp_Length p + vp_StartTime p)) =
      Max ((\<lambda>p. vp_StartTime p + vp_Length p) ` set (?ps @ [p]))"
    using e ne end_wrap [OF assms(2)] by (simp add: Max64_def Max_insert add.commute max_def)
  show ?thesis
    using assms add [OF lt] o m lt by (auto simp: AddNewGrant_def vesting_ok_def Let_def add.commute)
qed

text \<open>Accounts are built by a first grant and any number of further ones, as the claims of
  a user do. Every such account satisfies the invariant the schedule needs, as long as the granted
  totals stay within 256 bits; in particular its end time is the latest end of a grant and its
  original amount their sum.
\<close>

theorem grants_keep_schedule:
  assumes "list_all period_ok (p # ps)" "\<And>d. granted (p # ps) d < 2 ^ 256"
  shows "\<exists>pva pva'. NewStridePeriodicVestingAccount base (vp_Amount p) [p] = Some pva \<and> grant_all ps pva = Ok pva'
    \<and> vesting_ok pva' \<and> GetVestingPeriods pva' = p # ps"
proof -
  have "\<exists>pva'. grant_all qs pva = Ok pva' \<and> vesting_ok pva' \<and> pva_VestingPeriods pva' = pva_VestingPeriods pva @ qs"
    if "vesting_ok pva" "list_all period_ok qs" "\<And>d. granted (pva_VestingPeriods pva @ qs) d < 2 ^ 256" for pva qs
    using that
  proof (induction qs arbitrary: pva)
    case (Cons q qs)
    have q: "granted (pva_VestingPeriods pva) d + amt (vp_Amount q) d < 2 ^ 256" for d
      using Cons.prems(3) [of d] granted_nonneg [of qs d] Cons.prems(2) by simp
    obtain pva1 where 1: "AddNewGrant q pva = Ok pva1" "vesting_ok pva1"
      "pva_VestingPeriods pva1 = pva_VestingPeriods pva @ [q]"
      using AddNewGrant_ok [OF Cons.prems(1) _ q] Cons.prems(2) by auto
    have "granted (pva_VestingPeriods pva1 @ qs) d < 2 ^ 256" for d using Cons.prems(3) [of d] 1(3) by simp
    from Cons.IH [OF 1(2) _ this] Cons.prems(2) 1 show ?case by (auto simp: grant_all_def)
  qed (simp add: grant_all_def)
  note grow = this
  have "amt (vp_Amount p) d < 2 ^ 256" for d using assms(2) [of d] assms(1) granted_nonneg [of ps d] by simp
  with first_grant_ok [of p base] assms(1) obtain pva where
    "NewStridePeriodicVestingAccount base (vp_Amount p) [p] = Some pva" "vesting_ok pva" "pva_VestingPeriods pva = [p]"
    by auto
  with grow [of pva ps] assms show ?thesis by (auto simp: GetVestingPeriods_def)
qed

text \<open>Validation rejects accounts with overlapping grants. \<open>Validate\<close> expects the end
  time to be the first start time plus the sum of all lengths, while \<open>AddNewGrant\<close> keeps the
  latest end: an account whose second grant starts before the first one has ended, which is how two
  claims within the first three months are booked, is refused.
\<close>

theorem overlapping_grants_fail_validation:
  assumes "vesting_ok pva" "GetVestingPeriods pva = [p]" "AddNewGrant q pva = Ok pva'" "period_ok q"
    and "vp_StartTime q < vp_StartTime p + vp_Length p" "0 < vp_Length q"
    and "vp_StartTime p + vp_Length p + vp_Length q < 2 ^ 63"
  shows "pva_Validate base_validate pva' \<noteq> Ok u"
proof -
  have ps: "pva_VestingPeriods pva = [p]" and e: "bva_EndTime (pva_Base pva) = vp_StartTime p + vp_Length p"
    and p: "period_ok p"
    using assms(1,2) by (auto simp: vesting_ok_def Let_def GetVestingPeriods_def)
  have ps': "pva_VestingPeriods pva' = [p, q]"
    and "bva_EndTime (pva_Base pva') = Max64 (vp_StartTime p + vp_Length p) (vp_StartTime q + vp_Length q)"
    using assms(3) e ps end_wrap [OF assms(4)] by (auto simp: AddNewGrant_def go_simps add.commute)
  then have "bva_EndTime (pva_Base pva') \<noteq> vp_StartTime p + vp_Length p + vp_Length q"
    using assms(5,6) by (simp add: Max64_def)
  moreover have "int64_wrap (vp_StartTime p + vp_Length p + vp_Length q) = vp_StartTime p + vp_Length p + vp_Length q"
    using assms(7) p assms(4) by (intro int64_wrap_id) (simp add: is_int64_def period_ok_def)
  ultimately show ?thesis
    using end_wrap [OF p] ps' by (auto simp: pva_Validate_def GetStartTime_def go_simps Let_def split: if_splits)
qed

section \<open>Delegations\<close>

definition delegated_ok :: "BaseVesting \<Rightarrow> bool" where
  "delegated_ok bva \<longleftrightarrow> Coins_IsValid (bva_DelegatedFree bva) \<and> Coins_IsValid (bva_DelegatedVesting bva)"

abbreviation (input) free :: "BaseVesting \<Rightarrow> denom \<Rightarrow> int" where "free bva \<equiv> amt (bva_DelegatedFree bva)"
abbreviation (input) vest :: "BaseVesting \<Rightarrow> denom \<Rightarrow> int" where "vest bva \<equiv> amt (bva_DelegatedVesting bva)"

text \<open>The part of a delegation that is taken from vesting coins, the \<open>X\<close> of the comment.\<close>

definition from_vesting :: "int \<Rightarrow> int \<Rightarrow> int \<Rightarrow> int" where
  "from_vesting v dv d = min (max (v - dv) 0) d"

lemma Coins_Add_single:
  assumes "Coins_Add cs [(k, x)] = Ok r" "Coins_IsValid cs" "ValidateDenom k" "0 \<le> x"
  shows "Coins_IsValid r" "amt r d = amt cs d + (if d = k then x else 0)"
proof -
  have r: "r = coins_sum cs [(k, x)]" using assms(1) by (simp add: Coins_Add_def Coins_safeAdd_Ok)
  have "0 \<le> amt cs d" for d using assms(2) by (rule IsValid_amt_nonneg)
  then show "Coins_IsValid r" unfolding r using assms by (intro coins_sum_valid) (auto dest: IsValid_denom)
  show "amt r d = amt cs d + (if d = k then x else 0)" by (simp add: r)
qed

lemma Coins_Sub_single_total:
  assumes "Coins_IsValid cs" "ValidateDenom k" "0 < x" "x \<le> amt cs k" "\<And>d. fits (amt cs d)"
  shows "\<exists>r. Coins_Sub cs [(k, x)] = Ok r \<and> Coins_IsValid r \<and> (\<forall>d. amt r d = amt cs d - (if d = k then x else 0))"
proof -
  have "amt [(k, x)] d \<le> amt cs d" for d using assms(1,4) IsValid_amt_nonneg [of cs d] by auto
  from Coins_Sub_total [OF assms(1) _ this assms(5)] assms(2,3) show ?thesis
    by (auto simp: IsValid_single eq_commute)
qed

lemma track_delegation_coin_Ok:
  assumes "track_delegation_coin bal v c bva = Ok bva'" "delegated_ok bva" "sorted_wrt (<) (map fst v)"
    and "ValidateDenom (fst c)" "0 < snd c"
  defines "x \<equiv> from_vesting (amt v (fst c)) (vest bva (fst c)) (snd c)"
  shows "delegated_ok bva'" "bva_OriginalVesting bva' = bva_OriginalVesting bva"
    "vest bva' d = vest bva d + (if d = fst c then x else 0)"
    "free bva' d = free bva d + (if d = fst c then snd c - x else 0)"
proof -
  have x: "0 \<le> x" "0 \<le> snd c - x" using assms(5) by (auto simp: x_def from_vesting_def)
  have ok: "Coins_IsValid (bva_DelegatedFree bva)" "Coins_IsValid (bva_DelegatedVesting bva)"
    using assms(2) by (simp_all add: delegated_ok_def)
  obtain bva1 where 1: "add_vesting (fst c) x bva = Ok bva1" and 2: "add_free (fst c) (snd c - x) bva1 = Ok bva'"
    using assms(1,3,4,5) IsValid_sorted [OF ok(2)]
    by (auto simp: track_delegation_coin_def go_simps Let_def AmountOf_amt split: if_splits
        simp flip: from_vesting_def x_def)
  have b1: "Coins_IsValid (bva_DelegatedVesting bva1)" "bva_DelegatedFree bva1 = bva_DelegatedFree bva"
      "bva_OriginalVesting bva1 = bva_OriginalVesting bva" "vest bva1 d = vest bva d + (if d = fst c then x else 0)" for d
    using 1 ok x(1) assms(4) Coins_Add_single [of "bva_DelegatedVesting bva" "fst c" x]
    by (auto simp: add_vesting_def go_simps split: if_splits)
  then show "delegated_ok bva'" "bva_OriginalVesting bva' = bva_OriginalVesting bva"
    "vest bva' d = vest bva d + (if d = fst c then x else 0)"
    "free bva' d = free bva d + (if d = fst c then snd c - x else 0)"
    using 2 ok x(2) assms(4) Coins_Add_single [of "bva_DelegatedFree bva" "fst c" "snd c - x"]
    by (auto simp: add_free_def go_simps delegated_ok_def split: if_splits)
qed

lemma track_undelegation_coin_total:
  assumes "delegated_ok bva" "ValidateDenom (fst c)" "0 < snd c" "fits (snd c)"
    and "\<And>d. fits (free bva d)" "\<And>d. fits (vest bva d)"
  defines "x \<equiv> min (free bva (fst c)) (snd c)"
  defines "y \<equiv> min (vest bva (fst c)) (snd c - x)"
  shows "\<exists>bva'. track_undelegation_coin c bva = Ok bva' \<and> delegated_ok bva'
    \<and> bva_OriginalVesting bva' = bva_OriginalVesting bva
    \<and> (\<forall>d. free bva' d = free bva d - (if d = fst c then x else 0)
         \<and> vest bva' d = vest bva d - (if d = fst c then y else 0))"
proof -
  have ok: "Coins_IsValid (bva_DelegatedFree bva)" "Coins_IsValid (bva_DelegatedVesting bva)"
    using assms(1) by (simp_all add: delegated_ok_def)
  have nn: "0 \<le> free bva (fst c)" "0 \<le> vest bva (fst c)" using ok IsValid_amt_nonneg by blast+
  have x: "0 \<le> x" "x \<le> free bva (fst c)" and y: "0 \<le> y" "y \<le> vest bva (fst c)"
    using nn assms(3) by (auto simp: x_def y_def)
  have "fits (snd c - x)" using assms(3,4) x by (simp add: fits_def x_def)
  then have run: "track_undelegation_coin c bva =
      rbind (sub_free (fst c) x bva) (\<lambda>bva1. sub_vesting (fst c) y bva1)"
    using assms(2,3) IsValid_sorted [OF ok(1)] IsValid_sorted [OF ok(2)]
    by (simp add: track_undelegation_coin_def AmountOf_amt Let_def Int_Sub_eq x_def [symmetric] y_def [symmetric])
  have free1: "\<exists>df. (x \<noteq> 0 \<longrightarrow> Coins_Sub (bva_DelegatedFree bva) [(fst c, x)] = Ok df) \<and> Coins_IsValid df
      \<and> (x = 0 \<longrightarrow> df = bva_DelegatedFree bva) \<and> (\<forall>d. amt df d = free bva d - (if d = fst c then x else 0))"
    using Coins_Sub_single_total [OF ok(1) assms(2) _ x(2) assms(5)] ok(1) x(1) by (cases "x = 0") auto
  have vest1: "\<exists>dv. (y \<noteq> 0 \<longrightarrow> Coins_Sub (bva_DelegatedVesting bva) [(fst c, y)] = Ok dv) \<and> Coins_IsValid dv
      \<and> (y = 0 \<longrightarrow> dv = bva_DelegatedVesting bva) \<and> (\<forall>d. amt dv d = vest bva d - (if d = fst c then y else 0))"
    using Coins_Sub_single_total [OF ok(2) assms(2) _ y(2) assms(6)] ok(2) y(1) by (cases "y = 0") auto
  from free1 vest1 show ?thesis
    unfolding run sub_free_def sub_vesting_def NewCoin_def
    using x(1) y(1) assms(2) by (cases "x = 0"; cases "y = 0") (auto simp: delegated_ok_def)
qed

lemma TrackDelegation_Ok:
  assumes "bva_TrackDelegation bva bal v amount = Ok bva'" "delegated_ok bva" "sorted_wrt (<) (map fst v)"
    and "Coins_IsValid amount"
  shows "delegated_ok bva' \<and> bva_OriginalVesting bva' = bva_OriginalVesting bva \<and>
    (\<forall>d. vest bva' d = vest bva d + from_vesting (amt v d) (vest bva d) (amt amount d)
      \<and> free bva' d + vest bva' d = free bva d + vest bva d + amt amount d)"
  using assms unfolding bva_TrackDelegation_def
proof (induction amount arbitrary: bva)
  case Nil
  then show ?case by (simp add: from_vesting_def)
next
  case (Cons c cs)
  have c: "ValidateDenom (fst c)" "0 < snd c" "Coins_IsValid cs"
    using Cons.prems(4) by (simp_all add: Coins_IsValid_def)
  have notin: "amt cs (fst c) = 0"
    using Cons.prems(4) by (intro amt_notin) (auto simp: Coins_IsValid_def)
  obtain b1 where 1: "track_delegation_coin bal v c bva = Ok b1"
    and 2: "res_acc (track_delegation_coin bal v) cs b1 = Ok bva'"
    using Cons.prems(1) by (auto simp: go_simps)
  note s = track_delegation_coin_Ok [OF 1 Cons.prems(2,3) c(1,2)]
  have z: "from_vesting a dv 0 = 0" for a dv by (simp add: from_vesting_def)
  have IH: "delegated_ok bva'" "bva_OriginalVesting bva' = bva_OriginalVesting b1"
    "\<And>d. vest bva' d = vest b1 d + from_vesting (amt v d) (vest b1 d) (amt cs d)"
    "\<And>d. free bva' d + vest bva' d = free b1 d + vest b1 d + amt cs d"
    using Cons.IH [OF 2 s(1) Cons.prems(3) c(3)] by blast+
  have "vest bva' d = vest bva d + from_vesting (amt v d) (vest bva d) (amt (c # cs) d)
      \<and> free bva' d + vest bva' d = free bva d + vest bva d + amt (c # cs) d" for d
    using IH(3,4) [of d] s(3,4) [of d] notin z by (cases "d = fst c") simp_all
  with IH(1,2) s(2) show ?case by metis
qed

lemma TrackUndelegation_total:
  assumes "delegated_ok bva" "Coins_IsValid amount" "\<And>d. free bva d < 2 ^ 256" "\<And>d. vest bva d < 2 ^ 256"
    and "\<And>d. amt amount d < 2 ^ 256"
  shows "\<exists>bva'. TrackUndelegation bva amount = Ok bva' \<and> delegated_ok bva' \<and>
    bva_OriginalVesting bva' = bva_OriginalVesting bva \<and>
    (\<forall>d. free bva' d = free bva d - min (free bva d) (amt amount d)
      \<and> vest bva' d = vest bva d - min (vest bva d) (amt amount d - min (free bva d) (amt amount d)))"
  using assms unfolding TrackUndelegation_def
proof (induction amount arbitrary: bva)
  case Nil
  then have "0 \<le> free bva d" "0 \<le> vest bva d" for d using IsValid_amt_nonneg by (auto simp: delegated_ok_def)
  with Nil show ?case by (simp add: min_absorb2)
next
  case (Cons c cs)
  have c: "ValidateDenom (fst c)" "0 < snd c" "Coins_IsValid cs"
    using Cons.prems(2) by (simp_all add: Coins_IsValid_def)
  have notin: "amt cs (fst c) = 0"
    using Cons.prems(2) by (intro amt_notin) (auto simp: Coins_IsValid_def)
  have nn: "0 \<le> free bva d" "0 \<le> vest bva d" for d
    using Cons.prems(1) IsValid_amt_nonneg by (auto simp: delegated_ok_def)
  then have f: "fits (free bva d)" "fits (vest bva d)" for d using Cons.prems(3,4) by (auto simp: fits_def)
  have "fits (snd c)" using Cons.prems(5) [of "fst c"] c(2) notin by (simp add: fits_def)
  from track_undelegation_coin_total [OF Cons.prems(1) c(1,2) this f]
  obtain b1 where 1: "track_undelegation_coin c bva = Ok b1" "delegated_ok b1"
    "bva_OriginalVesting b1 = bva_OriginalVesting bva"
    and s: "\<And>d. free b1 d = free bva d - (if d = fst c then min (free bva (fst c)) (snd c) else 0)"
      "\<And>d. vest b1 d = vest bva d - (if d = fst c then min (vest bva (fst c)) (snd c - min (free bva (fst c)) (snd c)) else 0)"
    by blast
  have lt: "free b1 d < 2 ^ 256" "vest b1 d < 2 ^ 256" "amt cs d < 2 ^ 256" for d
    using Cons.prems(3,4,5) [of d] nn [of d] s [of d] c(2) notin by (auto split: if_splits)
  have nn1: "0 \<le> free b1 d" "0 \<le> vest b1 d" for d
    using 1(2) IsValid_amt_nonneg by (auto simp: delegated_ok_def)
  from Cons.IH [OF 1(2) c(3) lt] obtain b2 where
    2: "res_acc track_undelegation_coin cs b1 = Ok b2" "delegated_ok b2"
      "bva_OriginalVesting b2 = bva_OriginalVesting b1"
      "\<And>d. free b2 d = free b1 d - min (free b1 d) (amt cs d)
        \<and> vest b2 d = vest b1 d - min (vest b1 d) (amt cs d - min (free b1 d) (amt cs d))"
    by blast
  have "free b2 d = free bva d - min (free bva d) (amt (c # cs) d)
      \<and> vest b2 d = vest bva d - min (vest bva d) (amt (c # cs) d - min (free bva d) (amt (c # cs) d))" for d
    using 2(4) [of d] s [of d] nn1 [of d] notin by (cases "d = fst c") (simp_all add: min_absorb2)
  with 1 2 show ?case by auto
qed

text \<open>Delegations of a vesting account. Delegating books to vesting coins as much as is
  still vesting and not delegated yet, and the rest to free coins; the total of the two grows by the
  delegation. Returning the same coins never panics and brings the total back, whatever the two
  parts are.
\<close>

theorem delegation_round_trip:
  assumes "vesting_ok pva" "Coins_IsValid amount" "pva_TrackDelegation pva now balance amount = Ok pva'"
    and "\<And>d. amt (GetDelegatedFree (pva_Base pva)) d + amt (GetDelegatedVesting (pva_Base pva)) d + amt amount d < 2 ^ 256"
  defines "b \<equiv> pva_Base pva" and "b' \<equiv> pva_Base pva'"
  shows "vesting_ok pva' \<and> (\<exists>b''. TrackUndelegation b' amount = Ok b'' \<and>
    (\<forall>d. amt (GetDelegatedVesting b') d = amt (GetDelegatedVesting b) d
           + from_vesting (amt (GetOriginalVesting b) d - schedule pva (unix now) d) (amt (GetDelegatedVesting b) d) (amt amount d)
      \<and> amt (GetDelegatedFree b') d + amt (GetDelegatedVesting b') d
          = amt (GetDelegatedFree b) d + amt (GetDelegatedVesting b) d + amt amount d
      \<and> amt (GetDelegatedFree b'') d + amt (GetDelegatedVesting b'') d
          = amt (GetDelegatedFree b) d + amt (GetDelegatedVesting b) d))"
proof -
  obtain v where v: "GetVestingCoins pva now = Ok v" "Coins_IsValid v"
    and av: "\<And>d. amt v d = granted (pva_VestingPeriods pva) d - schedule pva (unix now) d"
    using GetVestingCoins_total [OF assms(1)] by blast
  have ok: "delegated_ok b" and orig: "\<And>d. amt (bva_OriginalVesting b) d = granted (pva_VestingPeriods pva) d"
    using assms(1) by (simp_all add: vesting_ok_def delegated_ok_def Let_def b_def)
  have 1: "bva_TrackDelegation b balance v amount = Ok b'" and pva': "pva' = pva\<lparr>pva_Base := b'\<rparr>"
    using assms(3) v(1) by (auto simp: pva_TrackDelegation_def go_simps b_def b'_def)
  from TrackDelegation_Ok [OF 1 ok IsValid_sorted [OF v(2)] assms(2)]
  have d: "delegated_ok b'" "bva_OriginalVesting b' = bva_OriginalVesting b"
    "\<And>d. vest b' d = vest b d + from_vesting (amt v d) (vest b d) (amt amount d)"
    "\<And>d. free b' d + vest b' d = free b d + vest b d + amt amount d" by blast+
  have nn: "0 \<le> free b' d" "0 \<le> vest b' d" "0 \<le> free b d" "0 \<le> vest b d" "0 \<le> amt amount d" for d
    using ok d(1) assms(2) IsValid_amt_nonneg by (auto simp: delegated_ok_def)
  have "free b' d < 2 ^ 256" "vest b' d < 2 ^ 256" "amt amount d < 2 ^ 256" for d
    using nn [of d] d(4) [of d] assms(4) [of d]
    by (simp_all add: b_def GetDelegatedFree_def GetDelegatedVesting_def)
  from TrackUndelegation_total [OF d(1) assms(2) this] obtain b'' where
    u: "TrackUndelegation b' amount = Ok b''" "\<And>d. free b'' d = free b' d - min (free b' d) (amt amount d)"
      "\<And>d. vest b'' d = vest b' d - min (vest b' d) (amt amount d - min (free b' d) (amt amount d))" by blast
  have "free b'' d + vest b'' d = free b d + vest b d" for d
    using u(2,3) [of d] d(4) [of d] nn [of d] by (auto simp: min_def)
  moreover have "bva_EndTime b' = bva_EndTime b"
    using 1 unfolding bva_TrackDelegation_def
    by (induction amount arbitrary: b)
      (auto simp: go_simps track_delegation_coin_def add_vesting_def add_free_def Let_def split: if_splits)
  then have "vesting_ok pva'"
    using assms(1) d(1,2) by (simp add: pva' vesting_ok_def Let_def delegated_ok_def b_def)
  ultimately show ?thesis
    using u(1) d(3,4) av orig by (auto simp: GetDelegatedFree_def GetDelegatedVesting_def GetOriginalVesting_def)
qed

section \<open>A concrete account\<close>

definition demo_period :: Period where
  "demo_period = \<lparr>vp_StartTime = 1000, vp_Length = 7776000, vp_Amount = [(''ustrd'', 900)], vp_ActionType = 1\<rparr>"

definition demo_base :: base_account where
  "demo_base = \<lparr>ba_Address = ''stride1user'', ba_PubKey = None, ba_AccountNumber = 7, ba_Sequence = 0\<rparr>"

definition demo_vesting :: StridePeriodicVesting where
  "demo_vesting =
     \<lparr>pva_Base = \<lparr>bva_BaseAccount = demo_base, bva_OriginalVesting = [(''ustrd'', 900)], bva_DelegatedFree = [],
        bva_DelegatedVesting = [], bva_EndTime = 7777000\<rparr>, pva_VestingPeriods = [demo_period]\<rparr>"

lemma demo_denom: "ValidateDenom ''ustrd''"
  by code_simp

lemma demo_period_ok: "period_ok demo_period"
  by (simp add: period_ok_def demo_period_def IsValid_single demo_denom)

lemma demo_vesting_ok: "vesting_ok demo_vesting"
  using demo_period_ok
  by (simp add: vesting_ok_def demo_vesting_def IsValid_single demo_denom) (simp add: demo_period_def)

text \<open>A third of the way two thirds of the 900 tokens are locked.\<close>

theorem vesting_schedule_witness:
  "vesting_ok demo_vesting \<and> (2593000 * 10 ^ 9 :: int) \<le> 7777000 * 10 ^ 9 \<and>
   (\<exists>v v' l. GetVestedCoins demo_vesting (2593000 * 10 ^ 9) = Ok v \<and> GetVestedCoins demo_vesting (7777000 * 10 ^ 9) = Ok v'
     \<and> LockedCoins demo_vesting (2593000 * 10 ^ 9) = Ok l \<and> amt v ''ustrd'' \<le> amt v' ''ustrd'') \<and>
   LockedCoins demo_vesting (2593000 * 10 ^ 9) = Ok [(''ustrd'', 600)]"
proof -
  have "LockedCoins demo_vesting (2593000 * 10 ^ 9) = Ok [(''ustrd'', 600)]" by code_simp
  then show ?thesis
    using demo_vesting_ok vesting_schedule [of demo_vesting "2593000 * 10 ^ 9" "7777000 * 10 ^ 9"] by auto
qed

theorem grants_keep_schedule_witness:
  "\<exists>pva pva'. NewStridePeriodicVestingAccount demo_base (vp_Amount demo_period) [demo_period] = Some pva
     \<and> grant_all [demo_period\<lparr>vp_StartTime := 5000\<rparr>] pva = Ok pva' \<and> vesting_ok pva'
     \<and> GetVestingPeriods pva' = [demo_period, demo_period\<lparr>vp_StartTime := 5000\<rparr>]"
proof -
  have "period_ok (demo_period\<lparr>vp_StartTime := 5000\<rparr>)"
    using demo_period_ok by (simp add: period_ok_def demo_period_def)
  moreover have "granted [demo_period, demo_period\<lparr>vp_StartTime := 5000\<rparr>] d < 2 ^ 256" for d
    by (simp add: demo_period_def)
  ultimately show ?thesis
    using grants_keep_schedule [of demo_period "[demo_period\<lparr>vp_StartTime := 5000\<rparr>]" demo_base] demo_period_ok by simp
qed

theorem overlapping_grants_fail_validation_witness:
  "\<exists>pva'. AddNewGrant (demo_period\<lparr>vp_StartTime := 5000\<rparr>) demo_vesting = Ok pva'
     \<and> pva_Validate (\<lambda>_. Ok ()) pva' \<noteq> Ok ()"
proof -
  let ?q = "demo_period\<lparr>vp_StartTime := 5000\<rparr>"
  have q: "period_ok ?q" using demo_period_ok by (simp add: period_ok_def demo_period_def)
  have "granted (pva_VestingPeriods demo_vesting) d + amt (vp_Amount ?q) d < 2 ^ 256" for d
    by (simp add: demo_vesting_def demo_period_def)
  from AddNewGrant_ok [OF demo_vesting_ok q this] obtain pva' where "AddNewGrant ?q demo_vesting = Ok pva'" by blast
  moreover have "GetVestingPeriods demo_vesting = [demo_period]" by (simp add: GetVestingPeriods_def demo_vesting_def)
  ultimately show ?thesis
    using overlapping_grants_fail_validation [of demo_vesting demo_period ?q pva' "\<lambda>_. Ok ()" "()"] demo_vesting_ok q
    by (auto simp: demo_period_def)
qed

theorem delegation_round_trip_witness:
  "\<exists>pva'. pva_TrackDelegation demo_vesting (2593000 * 10 ^ 9) [(''ustrd'', 900)] [(''ustrd'', 700)] = Ok pva'
     \<and> bva_DelegatedVesting (pva_Base pva') = [(''ustrd'', 600)] \<and> vesting_ok pva'
     \<and> (\<exists>b''. TrackUndelegation (pva_Base pva') [(''ustrd'', 700)] = Ok b'')"
proof -
  let ?r = "pva_TrackDelegation demo_vesting (2593000 * 10 ^ 9) [(''ustrd'', 900)] [(''ustrd'', 700)]"
  define pva' where "pva' = demo_vesting\<lparr>pva_Base := (pva_Base demo_vesting)
    \<lparr>bva_DelegatedVesting := [(''ustrd'', 600)], bva_DelegatedFree := [(''ustrd'', 100)]\<rparr>\<rparr>"
  have r: "?r = Ok pva'" unfolding pva'_def by code_simp
  have "amt (GetDelegatedFree (pva_Base demo_vesting)) d + amt (GetDelegatedVesting (pva_Base demo_vesting)) d
      + amt [(''ustrd'', 700)] d < 2 ^ 256" for d
    by (simp add: demo_vesting_def GetDelegatedFree_def GetDelegatedVesting_def)
  from delegation_round_trip [OF demo_vesting_ok _ r this] r show ?thesis
    by (auto simp: IsValid_single demo_denom) (simp add: pva'_def)
qed

end
