(* ===== verification/Claim.thy ===== *)
theory Claim
  imports LiquidStaking Vesting "HOL-Library.Sublist"
begin

text \<open>
  \<open>x/claim\<close>: airdrops (\<open>keeper/claim.go\<close>, \<open>hooks.go\<close>, \<open>msg_server.go\<close>,
  \<open>abci.go\<close>, \<open>genesis.go\<close>, \<open>grpc_query.go\<close> and the messages of
  \<open>types/msgs.go\<close>).

  An airdrop has a distributor account that holds its pool, and claim records that give each user a
  weight. A user claims a share of the pool for each of three actions, freely, by delegating and by
  liquid staking (the hooks); claims of the first three months vest. Every epoch of an airdrop after
  these resets the records, so that what is left can be claimed again.

  The store of the module holds the parameters (the airdrops), the claim records under the airdrop's
  identifier followed by the user's address, and the total weights under the identifier. The
  prefixes keep the three apart; nothing separates an identifier from the address after it, which
  the model keeps. Beside it the state has the epoch timers, the bank and the accounts. Parameters
  of the model are the bech32 and JSON codecs, the clock of the machine (\<open>time.Since\<close>), and
  the reading of a floating-point weight.
\<close>

section \<open>Data\<close>

type_synonym Action = int

definition ACTION_FREE :: Action where "ACTION_FREE = 0"
definition ACTION_LIQUID_STAKE :: Action where "ACTION_LIQUID_STAKE = 1"
definition ACTION_DELEGATE_STAKE :: Action where "ACTION_DELEGATE_STAKE = 2"

record Airdrop =
  ad_AirdropIdentifier :: string
  ad_ChainId :: string
  ad_AirdropStartTime :: int
  ad_AirdropDuration :: int
  ad_ClaimDenom :: denom
  ad_DistributorAddress :: string
  ad_ClaimedSoFar :: int
  ad_AutopilotEnabled :: bool

record ClaimRecord =
  cr_AirdropIdentifier :: string
  cr_Address :: string
  cr_Weight :: Dec
  cr_ActionCompleted :: "bool list"

text \<open>\<open>ClaimRecord{}\<close>, whose weight is nil and never read.\<close>

definition no_record :: ClaimRecord where
  "no_record = \<lparr>cr_AirdropIdentifier = '''', cr_Address = '''', cr_Weight = 0, cr_ActionCompleted = []\<rparr>"

datatype claim_account = BaseAcc base_account | VestingAcc StridePeriodicVesting | OtherAcc

record claim_state =
  cl_params :: "Airdrop list option"
  cl_records :: "(string, ClaimRecord) kvstore"
  cl_weights :: "(string, Dec) kvstore"
  cl_epochs :: epoch_store
  cl_bank :: bank
  cl_accounts :: "address \<Rightarrow> claim_account option"
  cl_nextAccountNumber :: uint64

text \<open>\<open>ce_ParseWeight\<close> is \<open>strconv.ParseFloat\<close>, \<open>Sprintf("%.10f")\<close> and
  \<open>NewDecFromStr\<close> in a row: \<open>None\<close> when the first fails, \<open>Some None\<close> when the
  last does (infinity and NaN). \<open>ce_ParamsJSON\<close> tells whether the codec can print the
  parameters.\<close>

record claim_env =
  ce_env :: env
  ce_blockHeight :: int
  ce_clock :: int
  ce_ParamsJSON :: "Airdrop list \<Rightarrow> bool"
  ce_ParseWeight :: "string \<Rightarrow> Dec option option"

abbreviation (input) ce_blockTime :: "claim_env \<Rightarrow> int" where "ce_blockTime ce \<equiv> e_blockTime (ce_env ce)"

text \<open>\<open>Time.Sub\<close>: the difference as an \<open>int64\<close> of nanoseconds, saturated.\<close>

definition time_Sub :: "int \<Rightarrow> int \<Rightarrow> int" where
  "time_Sub t u = max (- (2 ^ 63)) (min (2 ^ 63 - 1) (t - u))"

definition month :: int where "month = 30 * 24 * 3600 * 10 ^ 9"

definition DefaultEpochDuration :: int where "DefaultEpochDuration = month"
definition DefaultVestingDurationForDelegateStake :: int where "DefaultVestingDurationForDelegateStake = 3 * month"
definition DefaultVestingDurationForLiquidStake :: int where "DefaultVestingDurationForLiquidStake = 3 * month"
definition DefaultVestingInitialPeriod :: int where "DefaultVestingInitialPeriod = 3 * month"

definition PercentageForFree :: Dec where "PercentageForFree = 20 * 10 ^ 16"
definition PercentageForStake :: Dec where "PercentageForStake = 20 * 10 ^ 16"
definition PercentageForLiquidStake :: Dec where "PercentageForLiquidStake = 60 * 10 ^ 16"

section \<open>Parameters\<close>

definition claim_GetParams :: "(claim_state, Airdrop list) go" where
  "claim_GetParams s = (case cl_params s of None \<Rightarrow> (Err Plain, s) | Some params \<Rightarrow> (Ok params, s))"

definition claim_SetParams :: "claim_env \<Rightarrow> Airdrop list \<Rightarrow> (claim_state, unit) go" where
  "claim_SetParams ce params =
     (if ce_ParamsJSON ce params then go_modify (\<lambda>s. s\<lparr>cl_params := Some params\<rparr>) else go_fail Plain)"

definition GetAirdropByDistributor :: "string \<Rightarrow> (claim_state, Airdrop option) go" where
  "GetAirdropByDistributor distributor =
     go_bind (must claim_GetParams) (\<lambda>params.
     if distributor = '''' then go_ret None
     else go_ret (List.find (\<lambda>a. ad_DistributorAddress a = distributor) params))"

definition GetAirdropByIdentifier :: "string \<Rightarrow> (claim_state, Airdrop option) go" where
  "GetAirdropByIdentifier airdropIdentifier =
     go_bind (must claim_GetParams) (\<lambda>params.
     if airdropIdentifier = '''' then go_ret None
     else go_ret (List.find (\<lambda>a. ad_AirdropIdentifier a = airdropIdentifier) params))"

definition GetAirdropByChainId :: "string \<Rightarrow> (claim_state, Airdrop option) go" where
  "GetAirdropByChainId chainId =
     go_bind (must claim_GetParams) (\<lambda>params.
     if chainId = '''' then go_ret None
     else go_ret (List.find (\<lambda>a. ad_ChainId a = chainId) params))"

definition GetAirdropIds :: "(claim_state, string list) go" where
  "GetAirdropIds = go_bind (must claim_GetParams) (\<lambda>params. go_ret (map ad_AirdropIdentifier params))"

definition GetAirdropDistributor :: "claim_env \<Rightarrow> string \<Rightarrow> (claim_state, address) go" where
  "GetAirdropDistributor ce airdropIdentifier =
     go_bind (GetAirdropByIdentifier airdropIdentifier) (\<lambda>airdrop.
     case airdrop of
       None \<Rightarrow> go_fail (Sdk ErrInvalidAddress)
     | Some airdrop \<Rightarrow> go_lift (sdk_AccAddressFromBech32 (ce_env ce) (ad_DistributorAddress airdrop)))"

definition GetAirdropClaimDenom :: "string \<Rightarrow> (claim_state, denom) go" where
  "GetAirdropClaimDenom airdropIdentifier =
     go_bind (GetAirdropByIdentifier airdropIdentifier) (\<lambda>airdrop.
     case airdrop of
       None \<Rightarrow> go_fail (Sdk ErrInvalidRequest)
     | Some airdrop \<Rightarrow> go_ret (ad_ClaimDenom airdrop))"

definition GetDistributorAccountBalance :: "claim_env \<Rightarrow> string \<Rightarrow> (claim_state, denom \<times> int) go" where
  "GetDistributorAccountBalance ce airdropIdentifier =
     go_bind (GetAirdropByIdentifier airdropIdentifier) (\<lambda>airdrop.
     case airdrop of
       None \<Rightarrow> go_fail (Sdk ErrInvalidAddress)
     | Some airdrop \<Rightarrow>
         go_bind (GetAirdropDistributor ce airdropIdentifier) (\<lambda>addr.
         go_gets (\<lambda>s. (ad_ClaimDenom airdrop, GetBalance (cl_bank s) addr (ad_ClaimDenom airdrop)))))"

section \<open>Claim records and weights\<close>

definition SetClaimRecord :: "claim_env \<Rightarrow> ClaimRecord \<Rightarrow> (claim_state, unit) go" where
  "SetClaimRecord ce claimRecord =
     go_bind (go_lift (sdk_AccAddressFromBech32 (ce_env ce) (cr_Address claimRecord))) (\<lambda>addr.
     go_modify (\<lambda>s. s\<lparr>cl_records := kv_set (cr_AirdropIdentifier claimRecord @ addr) claimRecord (cl_records s)\<rparr>))"

definition SetClaimRecords :: "claim_env \<Rightarrow> ClaimRecord list \<Rightarrow> (claim_state, unit) go" where
  "SetClaimRecords ce claimRecords = for_each (SetClaimRecord ce) claimRecords"

definition GetClaimRecord :: "claim_state \<Rightarrow> address \<Rightarrow> string \<Rightarrow> ClaimRecord" where
  "GetClaimRecord s addr airdropIdentifier =
     (case kv_get (cl_records s) (airdropIdentifier @ addr) of None \<Rightarrow> no_record | Some r \<Rightarrow> r)"

definition GetClaimRecords :: "claim_state \<Rightarrow> string \<Rightarrow> ClaimRecord list" where
  "GetClaimRecords s airdropIdentifier =
     kv_values (filter (\<lambda>e. HasPrefix (fst e) airdropIdentifier) (cl_records s))"

definition DeleteClaimRecord :: "address \<Rightarrow> string \<Rightarrow> claim_state \<Rightarrow> claim_state" where
  "DeleteClaimRecord addr airdropId s = s\<lparr>cl_records := kv_delete (airdropId @ addr) (cl_records s)\<rparr>"

definition clearInitialClaimables :: "string \<Rightarrow> claim_state \<Rightarrow> claim_state" where
  "clearInitialClaimables airdropIdentifier s =
     s\<lparr>cl_records := filter (\<lambda>e. \<not> HasPrefix (fst e) airdropIdentifier) (cl_records s)\<rparr>"

text \<open>A weight is stored printed and parsed back, which is taken to give it back.\<close>

definition SetTotalWeight :: "Dec \<Rightarrow> string \<Rightarrow> claim_state \<Rightarrow> claim_state" where
  "SetTotalWeight totalWeight airdropIdentifier s =
     s\<lparr>cl_weights := kv_set airdropIdentifier totalWeight (cl_weights s)\<rparr>"

definition DeleteTotalWeight :: "string \<Rightarrow> claim_state \<Rightarrow> claim_state" where
  "DeleteTotalWeight airdropIdentifier s = s\<lparr>cl_weights := kv_delete airdropIdentifier (cl_weights s)\<rparr>"

definition GetTotalWeight :: "claim_state \<Rightarrow> string \<Rightarrow> Dec" where
  "GetTotalWeight s airdropIdentifier =
     (case kv_get (cl_weights s) airdropIdentifier of None \<Rightarrow> ZeroDec | Some w \<Rightarrow> w)"

definition add_weight :: "ClaimRecord \<Rightarrow> (string, Dec) kvstore \<Rightarrow> (string, Dec) kvstore res" where
  "add_weight record weights =
     (let w = (case kv_get weights (cr_AirdropIdentifier record) of None \<Rightarrow> ZeroDec | Some w \<Rightarrow> w) in
      rbind (Dec_Add w (cr_Weight record)) (\<lambda>sum. Ok (kv_set (cr_AirdropIdentifier record) sum weights)))"

definition SetClaimRecordsWithWeights :: "claim_env \<Rightarrow> ClaimRecord list \<Rightarrow> (claim_state, unit) go" where
  "SetClaimRecordsWithWeights ce claimRecords =
     go_bind (go_lift (res_acc add_weight claimRecords [])) (\<lambda>weights.
     go_bind (for_each (\<lambda>e. go_modify (SetTotalWeight (snd e) (fst e))) weights) (\<lambda>_.
     SetClaimRecords ce claimRecords))"

definition ConvertAddressToStrideAddress :: "env \<Rightarrow> string \<Rightarrow> string" where
  "ConvertAddressToStrideAddress env a =
     (case e_DecodeBech32 env a of None \<Rightarrow> '''' | Some (_, bz) \<Rightarrow> e_EncodeBech32 env ''stride'' bz)"

text \<open>One line of an allocation file: a panic, a line that is skipped, or a record. The flags of the
  lines already taken are the second component.\<close>

definition allocation_line ::
  "claim_env \<Rightarrow> string \<Rightarrow> ClaimRecord list \<times> string set \<Rightarrow> (ClaimRecord list \<times> string set) res" where
  "allocation_line ce line acc =
     (let data = split_on (CHR '','') line in
      if data ! 0 = '''' then Ok acc
      else if length data < 2 then Panic
      else if data ! 1 = '''' then Ok acc
      else if length data < 3 then Panic
      else if data ! 2 = '''' then Ok acc
      else
        let airdropIdentifier = data ! 0; strideAddr = ConvertAddressToStrideAddress (ce_env ce) (data ! 1) in
        if strideAddr = '''' then Ok acc
        else
          (case ce_ParseWeight ce (data ! 2) of
             None \<Rightarrow> Ok acc
           | Some None \<Rightarrow> Panic
           | Some (Some weight) \<Rightarrow>
               if weight < 0 \<or> weight = 0 then Ok acc
               else if airdropIdentifier @ strideAddr \<in> snd acc then Ok acc
               else if \<not> res_ok (sdk_AccAddressFromBech32 (ce_env ce) strideAddr) then Ok acc
               else Ok (fst acc @ [\<lparr>cr_AirdropIdentifier = airdropIdentifier, cr_Address = strideAddr,
                          cr_Weight = weight, cr_ActionCompleted = [False, False, False]\<rparr>],
                        insert (airdropIdentifier @ strideAddr) (snd acc))))"

definition LoadAllocationData :: "claim_env \<Rightarrow> string \<Rightarrow> (claim_state, bool) go" where
  "LoadAllocationData ce allocationData =
     go_bind (go_lift (res_acc (allocation_line ce) (split_on (CHR ''\<newline>'') allocationData) ([], {}))) (\<lambda>acc.
     go_bind (must (SetClaimRecordsWithWeights ce (fst acc))) (\<lambda>_. go_ret True))"

text \<open>\<open>Has\<close> on a nil address, the one a failed decoding returns, panics.\<close>

definition unallocated_user ::
  "claim_env \<Rightarrow> claim_state \<Rightarrow> string \<Rightarrow> (string \<times> Dec option) \<Rightarrow> (string list \<times> Dec list) \<Rightarrow> (string list \<times> Dec list) res" where
  "unallocated_user ce s identifier uw acc =
     (let strideAddr = ConvertAddressToStrideAddress (ce_env ce) (fst uw) in
      rbind (case sdk_AccAddressFromBech32 (ce_env ce) strideAddr of
               Ok addr \<Rightarrow> Ok addr
             | Err _ \<Rightarrow> if list_all is_space strideAddr then Ok [] else Panic
             | Panic \<Rightarrow> Panic) (\<lambda>addr.
      if kv_get (cl_records s) (identifier @ addr) = None then
        (case snd uw of None \<Rightarrow> Panic | Some w \<Rightarrow> Ok (fst acc @ [fst uw], snd acc @ [w]))
      else Ok acc))"

definition GetUnallocatedUsers ::
  "claim_env \<Rightarrow> claim_state \<Rightarrow> string \<Rightarrow> string list \<Rightarrow> Dec list \<Rightarrow> (string list \<times> Dec list) res" where
  "GetUnallocatedUsers ce s identifier users weights =
     res_acc (unallocated_user ce s identifier)
       (zip users (map Some weights @ replicate (length users - length weights) None)) ([], [])"

section \<open>What can be claimed\<close>

definition GetAirdropDurationForAction :: "Action \<Rightarrow> int" where
  "GetAirdropDurationForAction action =
     (if action = ACTION_DELEGATE_STAKE then DefaultVestingDurationForDelegateStake div 10 ^ 9
      else if action = ACTION_LIQUID_STAKE then DefaultVestingDurationForLiquidStake div 10 ^ 9
      else 0)"

text \<open>The comparison is of seconds as floating-point numbers, which at this size agrees with the
  comparison of the nanoseconds.\<close>

definition IsInitialPeriodPassed :: "claim_env \<Rightarrow> string \<Rightarrow> (claim_state, bool) go" where
  "IsInitialPeriodPassed ce airdropIdentifier =
     go_bind (GetAirdropByIdentifier airdropIdentifier) (\<lambda>airdrop.
     case airdrop of
       None \<Rightarrow> go_ret False
     | Some airdrop \<Rightarrow>
         go_ret (time_Sub (ce_blockTime ce) (ad_AirdropStartTime airdrop) \<ge> DefaultVestingInitialPeriod))"

definition claim_amount :: "int \<Rightarrow> Dec \<Rightarrow> Dec \<Rightarrow> Dec \<Rightarrow> int res" where
  "claim_amount poolBal percentageForAction weight totalWeight =
     rbind (Int_Int64 poolBal) (\<lambda>pool.
     rbind (Dec_Mul (NewDec pool) percentageForAction) (\<lambda>d.
     rbind (Dec_Mul d weight) (\<lambda>d.
     rbind (Dec_Quo d totalWeight) (\<lambda>d. Dec_RoundInt d))))"

definition percentage_for :: "Action \<Rightarrow> Dec" where
  "percentage_for action =
     (if action = ACTION_DELEGATE_STAKE then PercentageForStake
      else if action = ACTION_LIQUID_STAKE then PercentageForLiquidStake
      else PercentageForFree)"

text \<open>\<open>claimRecord.ActionCompleted[action]\<close>, which panics out of range.\<close>

definition action_completed :: "ClaimRecord \<Rightarrow> Action \<Rightarrow> bool res" where
  "action_completed r action =
     (if 0 \<le> action \<and> action < int (length (cr_ActionCompleted r)) then Ok (cr_ActionCompleted r ! nat action)
      else Panic)"

definition GetClaimableAmountForAction ::
  "claim_env \<Rightarrow> address \<Rightarrow> Action \<Rightarrow> string \<Rightarrow> bool \<Rightarrow> (claim_state, coins) go" where
  "GetClaimableAmountForAction ce addr action airdropIdentifier includeClaimed =
     go_bind (go_gets (\<lambda>s. GetClaimRecord s addr airdropIdentifier)) (\<lambda>claimRecord.
     if cr_Address claimRecord = '''' then go_ret []
     else
       go_bind (if includeClaimed then go_ret False else go_lift (action_completed claimRecord action)) (\<lambda>done.
       if done then go_ret []
       else
         go_bind (GetAirdropByIdentifier airdropIdentifier) (\<lambda>found.
         case found of
           None \<Rightarrow> go_panic
         | Some airdrop \<Rightarrow>
             if ce_blockTime ce < ad_AirdropStartTime airdrop then go_ret []
             else
               go_bind (go_gets (\<lambda>s. GetTotalWeight s airdropIdentifier)) (\<lambda>totalWeight.
               go_bind (GetDistributorAccountBalance ce airdropIdentifier) (\<lambda>distributorAccountBalance.
               go_bind (go_lift (Int_Add (snd distributorAccountBalance) (ad_ClaimedSoFar airdrop))) (\<lambda>poolBal.
               go_bind (go_lift (claim_amount poolBal (percentage_for action) (cr_Weight claimRecord) totalWeight))
                 (\<lambda>claimableAmount.
               go_bind (go_lift (rbind (NewCoin (ad_ClaimDenom airdrop) claimableAmount) (\<lambda>c. NewCoins [c])))
                 (\<lambda>claimableCoins.
               if time_Sub (ce_blockTime ce) (ad_AirdropStartTime airdrop) > ad_AirdropDuration airdrop then go_ret []
               else go_ret claimableCoins))))))))"

definition GetUserVestings :: "claim_env \<Rightarrow> claim_state \<Rightarrow> address \<Rightarrow> (Period list \<times> coins) res" where
  "GetUserVestings ce s addr =
     (case cl_accounts s addr of
        Some (VestingAcc acc) \<Rightarrow>
          rbind (GetVestedCoins acc (ce_blockTime ce)) (\<lambda>vested. Ok (pva_VestingPeriods acc, vested))
      | _ \<Rightarrow> Ok ([], []))"

definition AreAllTrue :: "bool list \<Rightarrow> bool" where
  "AreAllTrue bools = list_all id bools"

definition GetClaimStatus :: "address \<Rightarrow> (claim_state, (string \<times> bool) list) go" where
  "GetClaimStatus addr =
     go_bind GetAirdropIds (\<lambda>airdropIdentifiers.
     for_acc (\<lambda>airdropId claimStatusList.
       go_bind (go_gets (\<lambda>s. GetClaimRecord s addr airdropId)) (\<lambda>claimRecord.
       if cr_Address claimRecord = '''' then go_ret claimStatusList
       else go_ret (claimStatusList @ [(airdropId, AreAllTrue (cr_ActionCompleted claimRecord))]))) airdropIdentifiers [])"

definition CurrentAirdropRound :: "claim_env \<Rightarrow> int \<Rightarrow> int" where
  "CurrentAirdropRound ce start =
     (let timePassed = time_Sub (ce_clock ce) start in
      if timePassed < 3 * month then 1 else 1 + 1 + (timePassed - 3 * month) div month)"

record ClaimMetadata =
  cmd_AirdropIdentifier :: string
  cmd_CurrentRound :: string
  cmd_CurrentRoundStart :: int
  cmd_CurrentRoundEnd :: int

definition claim_metadata :: "claim_env \<Rightarrow> EpochInfo list \<Rightarrow> string \<Rightarrow> ClaimMetadata" where
  "claim_metadata ce epochs airdropId =
     (let (currentRoundStart, absoluteStartTime, duration) =
        foldl (\<lambda>r epoch. if TrimPrefix (ei_Identifier epoch) ''airdrop-'' = airdropId
                then (ei_CurrentEpochStartTime epoch, ei_StartTime epoch, ei_Duration epoch) else r)
          (zero_time, zero_time, 0) epochs in
      \<lparr>cmd_AirdropIdentifier = airdropId, cmd_CurrentRound = Itoa (CurrentAirdropRound ce absoluteStartTime),
       cmd_CurrentRoundStart = currentRoundStart, cmd_CurrentRoundEnd = currentRoundStart + duration\<rparr>)"

definition GetClaimMetadata :: "claim_env \<Rightarrow> (claim_state, ClaimMetadata list) go" where
  "GetClaimMetadata ce =
     go_bind GetAirdropIds (\<lambda>airdropIdentifiers.
     go_bind (go_gets (\<lambda>s. AllEpochInfos (cl_epochs s))) (\<lambda>epochs.
     go_ret (map (claim_metadata ce epochs) airdropIdentifiers)))"

text \<open>The loop ranges over the indices of the sorted keys of \<open>Action_name\<close>, which are the keys.\<close>

definition GetUserTotalClaimable :: "claim_env \<Rightarrow> address \<Rightarrow> string \<Rightarrow> bool \<Rightarrow> (claim_state, coins) go" where
  "GetUserTotalClaimable ce addr airdropIdentifier includeClaimed =
     go_bind (go_gets (\<lambda>s. GetClaimRecord s addr airdropIdentifier)) (\<lambda>claimRecord.
     if cr_Address claimRecord = '''' then go_ret []
     else
       for_acc (\<lambda>action totalClaimable.
         go_bind (GetClaimableAmountForAction ce addr action airdropIdentifier includeClaimed) (\<lambda>claimableForAction.
         if claimableForAction \<noteq> [] then go_lift (Coins_Add totalClaimable claimableForAction)
         else go_ret totalClaimable)) [0, 1, 2] [])"

definition GetAirdropIdentifiersForUser :: "claim_state \<Rightarrow> address \<Rightarrow> string list" where
  "GetAirdropIdentifiersForUser s addr =
     (case cl_params s of
        None \<Rightarrow> []
      | Some params \<Rightarrow>
          filter (\<lambda>i. kv_get (cl_records s) (i @ addr) \<noteq> None) (map ad_AirdropIdentifier params))"

section \<open>Claiming\<close>

definition claim_SetAccount :: "address \<Rightarrow> claim_account \<Rightarrow> claim_state \<Rightarrow> claim_state" where
  "claim_SetAccount addr acc s = s\<lparr>cl_accounts := (cl_accounts s)(addr \<mapsto> acc)\<rparr>"

text \<open>The auth module's \<open>NewAccountWithAddress\<close>: a base account with the next number; only the
  counter is written.\<close>

definition NewAccountWithAddress :: "claim_env \<Rightarrow> address \<Rightarrow> (claim_state, claim_account) go" where
  "NewAccountWithAddress ce addr =
     go_bind (go_gets cl_nextAccountNumber) (\<lambda>n.
     go_bind (go_modify (\<lambda>s. s\<lparr>cl_nextAccountNumber := n + 1\<rparr>)) (\<lambda>_.
     go_ret (BaseAcc \<lparr>ba_Address = e_EncodeBech32 (ce_env ce) ''stride'' addr, ba_PubKey = None,
       ba_AccountNumber = n, ba_Sequence = 0\<rparr>)))"

text \<open>The bank asks a vesting account for its locked coins before it takes any from it.\<close>

definition on_claim_bank :: "(bank, 'a) go \<Rightarrow> (claim_state, 'a) go" where
  "on_claim_bank m s = (case m (cl_bank s) of (r, b) \<Rightarrow> (r, s\<lparr>cl_bank := b\<rparr>))"

definition claim_SendCoins :: "claim_env \<Rightarrow> address \<Rightarrow> address \<Rightarrow> coins \<Rightarrow> (claim_state, unit) go" where
  "claim_SendCoins ce fromAddr toAddr amount =
     go_bind (go_gets (\<lambda>s. cl_accounts s fromAddr)) (\<lambda>acc.
     let be = e_bank (ce_env ce) in
     go_bind (case acc of
         Some (VestingAcc pva) \<Rightarrow>
           go_bind (go_lift (LockedCoins pva (ce_blockTime ce))) (\<lambda>locked.
           go_ret (be\<lparr>be_locked := (be_locked be)(fromAddr := (\<lambda>d. case Coins_Find locked d of None \<Rightarrow> 0 | Some x \<Rightarrow> x))\<rparr>))
       | _ \<Rightarrow> go_ret be) (\<lambda>be.
     on_claim_bank (SendCoins be fromAddr toAddr amount)))"

definition IncrementClaimedSoFar :: "claim_env \<Rightarrow> string \<Rightarrow> int \<Rightarrow> (claim_state, unit) go" where
  "IncrementClaimedSoFar ce identifier amount =
     go_bind (must claim_GetParams) (\<lambda>params.
     if amount < 0 then go_fail (ClaimErr ErrClaimInvalidAmount)
     else
       go_bind (go_lift (res_acc (\<lambda>airdrop newAirdrops.
           rbind (if ad_AirdropIdentifier airdrop = identifier
                  then rbind (Int_Add (ad_ClaimedSoFar airdrop) amount) (\<lambda>x. Ok (airdrop\<lparr>ad_ClaimedSoFar := x\<rparr>))
                  else Ok airdrop) (\<lambda>airdrop. Ok (newAirdrops @ [airdrop]))) params [])) (\<lambda>newAirdrops.
       claim_SetParams ce newAirdrops))"

definition ResetClaimedSoFar :: "claim_env \<Rightarrow> string \<Rightarrow> (claim_state, unit) go" where
  "ResetClaimedSoFar ce airdropIdentifier =
     go_bind (must claim_GetParams) (\<lambda>params.
     claim_SetParams ce (map (\<lambda>a. if ad_AirdropIdentifier a = airdropIdentifier then a\<lparr>ad_ClaimedSoFar := 0\<rparr> else a) params))"

definition AfterClaim :: "claim_env \<Rightarrow> string \<Rightarrow> int \<Rightarrow> (claim_state, unit) go" where
  "AfterClaim ce airdropIdentifier claimAmount =
     go_bind (GetAirdropByIdentifier airdropIdentifier) (\<lambda>airdrop.
     case airdrop of
       None \<Rightarrow> go_fail (Sdk ErrInvalidRequest)
     | Some _ \<Rightarrow> IncrementClaimedSoFar ce airdropIdentifier claimAmount)"

text \<open>The vesting of a claim of the first three months: a grant to the account, which is turned
  into a vesting account first if it is a base account.\<close>

definition vest_claim :: "claim_env \<Rightarrow> address \<Rightarrow> Action \<Rightarrow> coins \<Rightarrow> (claim_state, unit) go" where
  "vest_claim ce addr action claimableAmount =
     go_bind (go_gets (\<lambda>s. cl_accounts s addr)) (\<lambda>acc.
     let period = \<lparr>vp_StartTime = unix (ce_blockTime ce), vp_Length = GetAirdropDurationForAction action,
                   vp_Amount = claimableAmount, vp_ActionType = action\<rparr> in
     case acc of
       Some (VestingAcc strideVestingAcc) \<Rightarrow>
         go_bind (go_lift (AddNewGrant period strideVestingAcc)) (\<lambda>acc'.
         go_modify (claim_SetAccount addr (VestingAcc acc')))
     | _ \<Rightarrow>
         go_bind (NewAccountWithAddress ce addr) (\<lambda>baseAccount.
         case baseAccount of
           BaseAcc base \<Rightarrow>
             (case NewStridePeriodicVestingAccount base claimableAmount [period] of
                None \<Rightarrow> go_panic
              | Some vestingAcc \<Rightarrow> go_modify (claim_SetAccount addr (VestingAcc vestingAcc)))
         | _ \<Rightarrow> go_fail (Sdk ErrInvalidRequest)))"

definition can_claim :: "claim_account option \<Rightarrow> bool" where
  "can_claim acc = (case acc of Some (BaseAcc _) \<Rightarrow> True | Some (VestingAcc _) \<Rightarrow> True | _ \<Rightarrow> False)"

text \<open>The part of \<open>ClaimCoinsForAction\<close> after the amount is known not to be empty.\<close>

definition pay_claim :: "claim_env \<Rightarrow> address \<Rightarrow> Action \<Rightarrow> string \<Rightarrow> bool \<Rightarrow> coins \<Rightarrow> (claim_state, coins) go" where
  "pay_claim ce addr action airdropIdentifier isPassed claimableAmount =
     go_bind (go_gets (\<lambda>s. GetClaimRecord s addr airdropIdentifier)) (\<lambda>claimRecord.
     go_bind (go_gets (\<lambda>s. cl_accounts s addr)) (\<lambda>acc.
     go_bind (go_guard (can_claim acc) (ClaimErr ErrClaimInvalidAccount)) (\<lambda>_.
     go_bind (if isPassed then go_ret () else vest_claim ce addr action claimableAmount) (\<lambda>_.
     go_bind (GetAirdropDistributor ce airdropIdentifier) (\<lambda>distributor.
     go_bind (claim_SendCoins ce distributor addr claimableAmount) (\<lambda>_.
     go_bind (SetClaimRecord ce
       (claimRecord\<lparr>cr_ActionCompleted := (cr_ActionCompleted claimRecord)[nat action := True]\<rparr>)) (\<lambda>_.
     go_bind (GetAirdropByIdentifier airdropIdentifier) (\<lambda>found.
     case found of
       None \<Rightarrow> go_fail (Sdk ErrInvalidRequest)
     | Some airdrop \<Rightarrow>
         go_bind (go_lift (AmountOf claimableAmount (ad_ClaimDenom airdrop))) (\<lambda>amount.
         go_bind (AfterClaim ce airdropIdentifier amount) (\<lambda>_.
         go_ret claimableAmount))))))))))"

definition ClaimCoinsForAction :: "claim_env \<Rightarrow> address \<Rightarrow> Action \<Rightarrow> string \<Rightarrow> (claim_state, coins) go" where
  "ClaimCoinsForAction ce addr action airdropIdentifier =
     go_bind (IsInitialPeriodPassed ce airdropIdentifier) (\<lambda>isPassed.
     if airdropIdentifier = '''' then go_fail (Sdk ErrInvalidRequest)
     else
       go_bind (GetClaimableAmountForAction ce addr action airdropIdentifier False) (\<lambda>claimableAmount.
       if claimableAmount = [] then go_ret claimableAmount
       else pay_claim ce addr action airdropIdentifier isPassed claimableAmount))"

definition ClaimAllCoinsForAction :: "claim_env \<Rightarrow> address \<Rightarrow> Action \<Rightarrow> (claim_state, coins) go" where
  "ClaimAllCoinsForAction ce addr action =
     go_bind (go_gets (\<lambda>s. GetAirdropIdentifiersForUser s addr)) (\<lambda>airdropIdentifiers.
     for_acc (\<lambda>airdropIdentifier totalClaimable.
       go_bind (ClaimCoinsForAction ce addr action airdropIdentifier) (\<lambda>claimable.
       go_lift (Coins_Add totalClaimable claimable))) airdropIdentifiers [])"

section \<open>The life of an airdrop\<close>

record MsgCreateAirdrop =
  mca_Distributor :: string
  mca_Identifier :: string
  mca_ChainId :: string
  mca_Denom :: denom
  mca_StartTime :: uint64
  mca_Duration :: uint64
  mca_AutopilotEnabled :: bool

definition MsgCreateAirdrop_ValidateBasic :: "claim_env \<Rightarrow> MsgCreateAirdrop \<Rightarrow> unit res" where
  "MsgCreateAirdrop_ValidateBasic ce msg =
     (if \<not> res_ok (sdk_AccAddressFromBech32 (ce_env ce) (mca_Distributor msg)) then Err (Sdk ErrInvalidAddress)
      else if mca_Identifier msg = '''' then Err (Sdk ErrInvalidRequest)
      else if mca_ChainId msg = '''' then Err (Sdk ErrInvalidRequest)
      else if mca_Denom msg = '''' then Err (Sdk ErrInvalidRequest)
      else if mca_StartTime msg = 0 then Err (Sdk ErrInvalidRequest)
      else if mca_Duration msg = 0 then Err (Sdk ErrInvalidRequest)
      else Ok ())"

fun airdrop_conflict :: "MsgCreateAirdrop \<Rightarrow> Airdrop list \<Rightarrow> unit res" where
  "airdrop_conflict msg [] = Ok ()"
| "airdrop_conflict msg (airdrop # airdrops) =
     (if ad_AirdropIdentifier airdrop = mca_Identifier msg then Err (ClaimErr ErrAirdropAlreadyExists)
      else if ad_ChainId airdrop = mca_ChainId msg then Err (ClaimErr ErrAirdropChainIdAlreadyExists)
      else airdrop_conflict msg airdrops)"

text \<open>The duration is multiplied as a \<open>uint64\<close> and then read as an \<open>int64\<close>.\<close>

definition new_airdrop :: "MsgCreateAirdrop \<Rightarrow> Airdrop" where
  "new_airdrop msg =
     \<lparr>ad_AirdropIdentifier = mca_Identifier msg, ad_ChainId = mca_ChainId msg,
      ad_AirdropStartTime = sint (mca_StartTime msg) * 10 ^ 9,
      ad_AirdropDuration = sint (mca_Duration msg * 1000000000),
      ad_ClaimDenom = mca_Denom msg, ad_DistributorAddress = mca_Distributor msg, ad_ClaimedSoFar = 0,
      ad_AutopilotEnabled = mca_AutopilotEnabled msg\<rparr>"

definition CreateAirdropAndEpoch :: "claim_env \<Rightarrow> MsgCreateAirdrop \<Rightarrow> (claim_state, unit) go" where
  "CreateAirdropAndEpoch ce msg =
     go_bind (must claim_GetParams) (\<lambda>params.
     go_bind (go_lift (MsgCreateAirdrop_ValidateBasic ce msg)) (\<lambda>_.
     go_bind (go_lift (airdrop_conflict msg params)) (\<lambda>_.
     let airdrop = new_airdrop msg in
     go_bind (go_modify (\<lambda>s. s\<lparr>cl_epochs := SetEpochInfo
       \<lparr>ei_Identifier = ''airdrop-'' @ mca_Identifier msg, ei_StartTime = ad_AirdropStartTime airdrop + 60 * 10 ^ 9,
        ei_Duration = DefaultEpochDuration, ei_CurrentEpoch = 0, ei_CurrentEpochStartTime = zero_time,
        ei_EpochCountingStarted = False, ei_CurrentEpochStartHeight = 0\<rparr> (cl_epochs s)\<rparr>)) (\<lambda>_.
     claim_SetParams ce (params @ [airdrop])))))"

definition DeleteAirdropAndEpoch :: "claim_env \<Rightarrow> string \<Rightarrow> (claim_state, unit) go" where
  "DeleteAirdropAndEpoch ce identifier =
     go_bind (must claim_GetParams) (\<lambda>params.
     go_bind (go_modify (\<lambda>s. s\<lparr>cl_epochs := DeleteEpochInfo (''airdrop-'' @ identifier) (cl_epochs s)\<rparr>)) (\<lambda>_.
     claim_SetParams ce (filter (\<lambda>a. ad_AirdropIdentifier a \<noteq> identifier) params)))"

definition EndAirdrop :: "claim_env \<Rightarrow> string \<Rightarrow> (claim_state, unit) go" where
  "EndAirdrop ce airdropIdentifier =
     go_bind (go_modify (clearInitialClaimables airdropIdentifier)) (\<lambda>_.
     go_bind (go_modify (DeleteTotalWeight airdropIdentifier)) (\<lambda>_.
     DeleteAirdropAndEpoch ce airdropIdentifier))"

definition ResetClaimStatus :: "claim_env \<Rightarrow> string \<Rightarrow> (claim_state, unit) go" where
  "ResetClaimStatus ce airdropIdentifier =
     go_bind (IsInitialPeriodPassed ce airdropIdentifier) (\<lambda>passed.
     if passed then
       go_bind (go_gets (\<lambda>s. GetClaimRecords s airdropIdentifier)) (\<lambda>records.
       go_bind (SetClaimRecords ce (map (\<lambda>r. r\<lparr>cr_ActionCompleted := [False, False, False]\<rparr>) records)) (\<lambda>_.
       ResetClaimedSoFar ce airdropIdentifier))
     else go_ret ())"

definition claim_EndBlocker :: "claim_env \<Rightarrow> (claim_state, unit) go" where
  "claim_EndBlocker ce =
     (if ce_blockHeight ce mod 1000 = 0 then
        go_bind (must claim_GetParams) (\<lambda>params.
        for_each (\<lambda>airdrop.
          if time_Sub (ce_blockTime ce) (ad_AirdropStartTime airdrop) > ad_AirdropDuration airdrop
          then must (EndAirdrop ce (ad_AirdropIdentifier airdrop))
          else go_ret ()) params)
      else go_ret ())"

definition UpdateAirdropAddress :: "claim_env \<Rightarrow> string \<Rightarrow> string \<Rightarrow> string \<Rightarrow> (claim_state, unit) go" where
  "UpdateAirdropAddress ce existingStrideAddress newStrideAddress airdropId =
     go_bind (GetAirdropByIdentifier airdropId) (\<lambda>found.
     case found of
       None \<Rightarrow> go_fail (ClaimErr ErrAirdropNotFound)
     | Some airdrop \<Rightarrow>
         go_bind (go_wrap (Sdk ErrInvalidAddress) (go_lift (sdk_AccAddressFromBech32 (ce_env ce) newStrideAddress))) (\<lambda>_.
         go_bind (go_wrap (ClaimErr ErrClaimNotFound)
           (go_lift (sdk_AccAddressFromBech32 (ce_env ce) existingStrideAddress))) (\<lambda>existingAccAddress.
         go_bind (go_gets (\<lambda>s. GetClaimRecord s existingAccAddress (ad_AirdropIdentifier airdrop))) (\<lambda>claimRecord.
         if cr_Address claimRecord = '''' then go_fail (ClaimErr ErrClaimNotFound)
         else
           go_bind (go_wrap (ClaimErr ErrModifyingClaimRecord)
             (SetClaimRecord ce (claimRecord\<lparr>cr_Address := newStrideAddress\<rparr>))) (\<lambda>_.
           go_modify (DeleteClaimRecord existingAccAddress (ad_AirdropIdentifier airdrop)))))))"

section \<open>Hooks\<close>

text \<open>\<open>CacheContext\<close>: what a call writes is kept only when it succeeds.\<close>

definition cached :: "('s, 'a) go \<Rightarrow> ('s, 'a) go" where
  "cached m s = (case m s of (Ok x, t) \<Rightarrow> (Ok x, t) | (r, _) \<Rightarrow> (r, s))"

definition claim_AfterDelegationModified :: "claim_env \<Rightarrow> address \<Rightarrow> (claim_state, unit) go" where
  "claim_AfterDelegationModified ce delAddr =
     go_bind (go_gets (\<lambda>s. GetAirdropIdentifiersForUser s delAddr)) (\<lambda>identifiers.
     for_each (\<lambda>identifier.
       go_bind (cached (ClaimCoinsForAction ce delAddr ACTION_DELEGATE_STAKE identifier)) (\<lambda>_. go_ret ())) identifiers)"

definition claim_AfterLiquidStake :: "claim_env \<Rightarrow> address \<Rightarrow> (claim_state, unit) go" where
  "claim_AfterLiquidStake ce addr =
     go_bind (go_gets (\<lambda>s. GetAirdropIdentifiersForUser s addr)) (\<lambda>identifiers.
     for_each (\<lambda>identifier.
       go_bind (go_try (cached (ClaimCoinsForAction ce addr ACTION_LIQUID_STAKE identifier))) (\<lambda>_. go_ret ())) identifiers)"

definition claim_AfterEpochEnd :: "claim_env \<Rightarrow> EpochInfo \<Rightarrow> (claim_state, unit) go" where
  "claim_AfterEpochEnd ce epochInfo =
     (if HasPrefix (ei_Identifier epochInfo) ''airdrop-'' then
        let airdropIdentifier = TrimPrefix (ei_Identifier epochInfo) ''airdrop-'' in
        go_bind (GetAirdropByIdentifier airdropIdentifier) (\<lambda>airdrop.
        if airdrop \<noteq> None then go_bind (go_try (ResetClaimStatus ce airdropIdentifier)) (\<lambda>_. go_ret ())
        else go_ret ())
      else go_ret ())"

definition claim_hooks :: "claim_env \<Rightarrow> claim_state EpochHooks" where
  "claim_hooks ce = \<lparr>hook_AfterEpochEnd = claim_AfterEpochEnd ce, hook_BeforeEpochStart = (\<lambda>_. go_ret ())\<rparr>"

section \<open>Messages\<close>

record MsgSetAirdropAllocations =
  msa_Allocator :: string
  msa_AirdropIdentifier :: string
  msa_Users :: "string list"
  msa_Weights :: "Dec list"

definition MsgSetAirdropAllocations_ValidateBasic :: "claim_env \<Rightarrow> MsgSetAirdropAllocations \<Rightarrow> unit res" where
  "MsgSetAirdropAllocations_ValidateBasic ce msg =
     (if \<not> res_ok (sdk_AccAddressFromBech32 (ce_env ce) (msa_Allocator msg)) then Err (Sdk ErrInvalidAddress)
      else if msa_AirdropIdentifier msg = '''' then Err (Sdk ErrInvalidRequest)
      else if length (msa_Users msg) = 0 then Err (Sdk ErrInvalidRequest)
      else if length (msa_Weights msg) = 0 then Err (Sdk ErrInvalidRequest)
      else if length (msa_Users msg) \<noteq> length (msa_Weights msg) then Err (Sdk ErrInvalidRequest)
      else if list_ex (\<lambda>user. let strideAddr = ConvertAddressToStrideAddress (ce_env ce) user in
          strideAddr = '''' \<or> \<not> res_ok (sdk_AccAddressFromBech32 (ce_env ce) strideAddr)) (msa_Users msg)
        then Err (Sdk ErrInvalidAddress)
      else if list_ex (\<lambda>weight. weight = NewDec 0) (msa_Weights msg) then Err (Sdk ErrInvalidRequest)
      else Ok ())"

definition allocation_record :: "string \<Rightarrow> string \<times> Dec \<Rightarrow> ClaimRecord" where
  "allocation_record identifier uw =
     \<lparr>cr_AirdropIdentifier = identifier, cr_Address = fst uw, cr_Weight = snd uw,
      cr_ActionCompleted = [False, False, False]\<rparr>"

definition SetAirdropAllocations :: "claim_env \<Rightarrow> MsgSetAirdropAllocations \<Rightarrow> (claim_state, unit) go" where
  "SetAirdropAllocations ce msg =
     go_bind (go_gets (\<lambda>s. GetTotalWeight s (msa_AirdropIdentifier msg))) (\<lambda>totalWeight.
     go_bind (GetAirdropDistributor ce (msa_AirdropIdentifier msg)) (\<lambda>airdropDistributor.
     go_bind (go_lift (sdk_AccAddressFromBech32 (ce_env ce) (msa_Allocator msg))) (\<lambda>addr.
     go_bind (go_guard (addr = airdropDistributor) (Sdk ErrInvalidAddress)) (\<lambda>_.
     go_bind (\<lambda>s. (GetUnallocatedUsers ce s (msa_AirdropIdentifier msg) (msa_Users msg) (msa_Weights msg), s)) (\<lambda>uws.
     let records = map (allocation_record (msa_AirdropIdentifier msg)) (zip (fst uws) (snd uws)) in
     go_bind (go_lift (res_acc (\<lambda>w total. Dec_Add total w) (snd uws) totalWeight)) (\<lambda>totalWeight.
     go_bind (go_modify (SetTotalWeight totalWeight (msa_AirdropIdentifier msg))) (\<lambda>_.
     SetClaimRecords ce records)))))))"

definition MsgClaimFreeAmount_ValidateBasic :: "claim_env \<Rightarrow> string \<Rightarrow> unit res" where
  "MsgClaimFreeAmount_ValidateBasic ce user =
     rguard (res_ok (sdk_AccAddressFromBech32 (ce_env ce) user)) (Sdk ErrInvalidAddress)"

definition ClaimFreeAmount :: "claim_env \<Rightarrow> string \<Rightarrow> (claim_state, coins) go" where
  "ClaimFreeAmount ce user =
     go_bind (go_lift (sdk_AccAddressFromBech32 (ce_env ce) user)) (\<lambda>addr.
     ClaimAllCoinsForAction ce addr ACTION_FREE)"

definition CreateAirdrop :: "claim_env \<Rightarrow> MsgCreateAirdrop \<Rightarrow> (claim_state, unit) go" where
  "CreateAirdrop ce msg =
     go_bind (go_lift (sdk_AccAddressFromBech32 (ce_env ce) (mca_Distributor msg))) (\<lambda>_.
     go_bind (GetAirdropByDistributor (mca_Distributor msg)) (\<lambda>airdrop.
     go_bind (go_guard (airdrop = None) (ClaimErr ErrDistributorAlreadyExists)) (\<lambda>_.
     CreateAirdropAndEpoch ce msg)))"

record MsgDeleteAirdrop =
  mda_Distributor :: string
  mda_Identifier :: string

definition MsgDeleteAirdrop_ValidateBasic :: "claim_env \<Rightarrow> MsgDeleteAirdrop \<Rightarrow> unit res" where
  "MsgDeleteAirdrop_ValidateBasic ce msg =
     (if \<not> res_ok (sdk_AccAddressFromBech32 (ce_env ce) (mda_Distributor msg)) then Err (Sdk ErrInvalidAddress)
      else if mda_Identifier msg = '''' then Err (Sdk ErrInvalidRequest)
      else Ok ())"

definition DeleteAirdrop :: "claim_env \<Rightarrow> MsgDeleteAirdrop \<Rightarrow> (claim_state, unit) go" where
  "DeleteAirdrop ce msg =
     go_bind (go_lift (sdk_AccAddressFromBech32 (ce_env ce) (mda_Distributor msg))) (\<lambda>addr.
     go_bind (GetAirdropDistributor ce (mda_Identifier msg)) (\<lambda>distributor.
     go_bind (go_guard (addr = distributor) (Sdk ErrInvalidAddress)) (\<lambda>_.
     DeleteAirdropAndEpoch ce (mda_Identifier msg))))"

section \<open>Genesis\<close>

record claim_GenesisState =
  cg_Params :: "Airdrop list"
  cg_ClaimRecords :: "ClaimRecord list"

definition claim_DefaultGenesis :: claim_GenesisState where
  "claim_DefaultGenesis = \<lparr>cg_Params = [], cg_ClaimRecords = []\<rparr>"

definition claim_InitGenesis :: "claim_env \<Rightarrow> claim_GenesisState \<Rightarrow> (claim_state, unit) go" where
  "claim_InitGenesis ce genState =
     go_bind (must (claim_SetParams ce (cg_Params genState))) (\<lambda>_.
     must (SetClaimRecordsWithWeights ce (cg_ClaimRecords genState)))"

definition claim_ExportGenesis :: "(claim_state, claim_GenesisState) go" where
  "claim_ExportGenesis =
     go_bind (must claim_GetParams) (\<lambda>params.
     go_gets (\<lambda>s. claim_DefaultGenesis\<lparr>cg_Params := params, cg_ClaimRecords := GetClaimRecords s ''''\<rparr>))"

section \<open>Queries\<close>

definition query_ClaimRecord :: "claim_env \<Rightarrow> string \<Rightarrow> string \<Rightarrow> (claim_state, ClaimRecord) go" where
  "query_ClaimRecord ce address' airdropIdentifier =
     go_bind (go_lift (sdk_AccAddressFromBech32 (ce_env ce) address')) (\<lambda>addr.
     go_gets (\<lambda>s. GetClaimRecord s addr airdropIdentifier))"

definition query_DistributorAccountBalance :: "claim_env \<Rightarrow> string \<Rightarrow> (claim_state, coins) go" where
  "query_DistributorAccountBalance ce airdropIdentifier =
     go_bind (GetDistributorAccountBalance ce airdropIdentifier) (\<lambda>bal. go_lift (NewCoins [bal]))"

definition query_ClaimableForAction :: "claim_env \<Rightarrow> string \<Rightarrow> Action \<Rightarrow> string \<Rightarrow> (claim_state, coins) go" where
  "query_ClaimableForAction ce address' action airdropIdentifier =
     go_bind (go_lift (sdk_AccAddressFromBech32 (ce_env ce) address')) (\<lambda>addr.
     GetClaimableAmountForAction ce addr action airdropIdentifier False)"

definition query_TotalClaimable :: "claim_env \<Rightarrow> string \<Rightarrow> string \<Rightarrow> bool \<Rightarrow> (claim_state, coins) go" where
  "query_TotalClaimable ce address' airdropIdentifier includeClaimed =
     go_bind (go_lift (sdk_AccAddressFromBech32 (ce_env ce) address')) (\<lambda>addr.
     GetUserTotalClaimable ce addr airdropIdentifier includeClaimed)"

definition query_UserVestings :: "claim_env \<Rightarrow> string \<Rightarrow> (claim_state, Period list \<times> coins) go" where
  "query_UserVestings ce address' =
     go_bind (go_lift (sdk_AccAddressFromBech32 (ce_env ce) address')) (\<lambda>addr.
     (\<lambda>s. (GetUserVestings ce s addr, s)))"

definition query_ClaimStatus :: "claim_env \<Rightarrow> string \<Rightarrow> (claim_state, (string \<times> bool) list) go" where
  "query_ClaimStatus ce address' =
     go_bind (go_lift (sdk_AccAddressFromBech32 (ce_env ce) address')) (\<lambda>addr. GetClaimStatus addr)"

section \<open>Reading the state\<close>

definition find_airdrop :: "claim_state \<Rightarrow> string \<Rightarrow> Airdrop option" where
  "find_airdrop s i =
     (case cl_params s of
        None \<Rightarrow> None
      | Some params \<Rightarrow> if i = '''' then None else List.find (\<lambda>a. ad_AirdropIdentifier a = i) params)"

lemma claim_GetParams_Ok [go_simps]: "claim_GetParams s = (Ok ps, t) \<longleftrightarrow> t = s \<and> cl_params s = Some ps"
  by (auto simp: claim_GetParams_def split: option.splits)

lemma claim_SetParams_Ok [go_simps]:
  "claim_SetParams ce ps s = (Ok u, t) \<longleftrightarrow> ce_ParamsJSON ce ps \<and> t = s\<lparr>cl_params := Some ps\<rparr>"
  by (auto simp: claim_SetParams_def go_simps go_modify_def go_fail_def)

lemma GetAirdropByIdentifier_eq:
  "GetAirdropByIdentifier i s = (if cl_params s = None then Panic else Ok (find_airdrop s i), s)"
  by (auto simp: GetAirdropByIdentifier_def go_bind_def must_def claim_GetParams_def go_ret_def find_airdrop_def
      split: option.splits)

lemma GetAirdropByIdentifier_Ok [go_simps]:
  "GetAirdropByIdentifier i s = (Ok a, t) \<longleftrightarrow> t = s \<and> cl_params s \<noteq> None \<and> a = find_airdrop s i"
  by (auto simp: GetAirdropByIdentifier_eq split: if_splits)

lemma GetAirdropDistributor_Ok [go_simps]:
  "GetAirdropDistributor ce i s = (Ok d, t) \<longleftrightarrow> t = s \<and>
     (\<exists>a. find_airdrop s i = Some a \<and> sdk_AccAddressFromBech32 (ce_env ce) (ad_DistributorAddress a) = Ok d)"
  by (auto simp: GetAirdropDistributor_def go_bind_eq_Ok GetAirdropByIdentifier_Ok go_fail_eq go_lift_eq find_airdrop_def
      split: option.splits)

lemma GetDistributorAccountBalance_Ok [go_simps]:
  "GetDistributorAccountBalance ce i s = (Ok c, t) \<longleftrightarrow> t = s \<and>
     (\<exists>a d. find_airdrop s i = Some a \<and> sdk_AccAddressFromBech32 (ce_env ce) (ad_DistributorAddress a) = Ok d \<and>
        c = (ad_ClaimDenom a, bk_balance (cl_bank s) d (ad_ClaimDenom a)))"
  by (auto simp: GetDistributorAccountBalance_def go_bind_eq_Ok GetAirdropByIdentifier_Ok GetAirdropDistributor_Ok go_fail_eq
      go_gets_eq GetBalance_def find_airdrop_def split: option.splits)

lemma action_completed_Ok [go_simps]:
  "action_completed r a = Ok b \<longleftrightarrow>
     0 \<le> a \<and> nat a < length (cr_ActionCompleted r) \<and> b = cr_ActionCompleted r ! nat a"
  by (auto simp: action_completed_def)

text \<open>What can be claimed is a function of the record, the total weight, the airdrop, the balance of
  its distributor and the time.\<close>

definition claimable ::
  "claim_env \<Rightarrow> ClaimRecord \<Rightarrow> Airdrop \<Rightarrow> Dec \<Rightarrow> (string \<Rightarrow> int res) \<Rightarrow> Action \<Rightarrow> coins res" where
  "claimable ce r a totalWeight balance action =
     (if ce_blockTime ce < ad_AirdropStartTime a then Ok []
      else
        rbind (balance (ad_DistributorAddress a)) (\<lambda>bal.
        rbind (Int_Add bal (ad_ClaimedSoFar a)) (\<lambda>poolBal.
        rbind (claim_amount poolBal (percentage_for action) (cr_Weight r) totalWeight) (\<lambda>x.
        rbind (rbind (NewCoin (ad_ClaimDenom a) x) (\<lambda>c. NewCoins [c])) (\<lambda>cs.
        if time_Sub (ce_blockTime ce) (ad_AirdropStartTime a) > ad_AirdropDuration a then Ok [] else Ok cs)))))"

definition claimable_for :: "claim_env \<Rightarrow> claim_state \<Rightarrow> address \<Rightarrow> Action \<Rightarrow> string \<Rightarrow> bool \<Rightarrow> coins res" where
  "claimable_for ce s addr action i includeClaimed =
     (let r = GetClaimRecord s addr i in
      if cr_Address r = '''' then Ok []
      else rbind (if includeClaimed then Ok False else action_completed r action) (\<lambda>done.
        if done then Ok []
        else if cl_params s = None then Panic
        else case find_airdrop s i of
            None \<Rightarrow> Panic
          | Some a \<Rightarrow> claimable ce r a (GetTotalWeight s i)
              (\<lambda>d. rbind (sdk_AccAddressFromBech32 (ce_env ce) d) (\<lambda>addr. Ok (bk_balance (cl_bank s) addr (ad_ClaimDenom a)))) action))"

lemma GetDistributorAccountBalance_eq:
  "find_airdrop s i = Some a \<Longrightarrow> GetDistributorAccountBalance ce i s =
     (rbind (sdk_AccAddressFromBech32 (ce_env ce) (ad_DistributorAddress a))
        (\<lambda>addr. Ok (ad_ClaimDenom a, bk_balance (cl_bank s) addr (ad_ClaimDenom a))), s)"
  by (auto simp: GetDistributorAccountBalance_def GetAirdropDistributor_def go_bind_def GetAirdropByIdentifier_eq go_lift_def
      go_gets_def GetBalance_def find_airdrop_def split: option.splits res.splits)

lemma go_lift_bind: "go_bind (go_lift x) f s = (case x of Ok v \<Rightarrow> f v s | Err e \<Rightarrow> (Err e, s) | Panic \<Rightarrow> (Panic, s))"
  by (simp add: go_bind_def go_lift_def)

lemma GetClaimableAmountForAction_eq:
  "GetClaimableAmountForAction ce addr action i includeClaimed s = (claimable_for ce s addr action i includeClaimed, s)"
proof (cases "cr_Address (GetClaimRecord s addr i) = ''''")
  case True
  then show ?thesis by (simp add: GetClaimableAmountForAction_def claimable_for_def go_bind_def go_gets_def go_ret_def)
next
  case False
  let ?r = "GetClaimRecord s addr i"
  let ?done = "if includeClaimed then Ok False else action_completed ?r action"
  define rest where "rest b = (if b then go_ret [] else
         go_bind (GetAirdropByIdentifier i) (\<lambda>found.
         case found of
           None \<Rightarrow> go_panic
         | Some airdrop \<Rightarrow>
             if ce_blockTime ce < ad_AirdropStartTime airdrop then go_ret []
             else
               go_bind (go_gets (\<lambda>s. GetTotalWeight s i)) (\<lambda>totalWeight.
               go_bind (GetDistributorAccountBalance ce i) (\<lambda>distributorAccountBalance.
               go_bind (go_lift (Int_Add (snd distributorAccountBalance) (ad_ClaimedSoFar airdrop))) (\<lambda>poolBal.
               go_bind (go_lift (claim_amount poolBal (percentage_for action) (cr_Weight ?r) totalWeight))
                 (\<lambda>claimableAmount.
               go_bind (go_lift (rbind (NewCoin (ad_ClaimDenom airdrop) claimableAmount) (\<lambda>c. NewCoins [c])))
                 (\<lambda>claimableCoins.
               if time_Sub (ce_blockTime ce) (ad_AirdropStartTime airdrop) > ad_AirdropDuration airdrop then go_ret []
               else go_ret claimableCoins)))))))" for b
  have "GetClaimableAmountForAction ce addr action i includeClaimed s = go_bind (go_lift ?done) rest s"
    using False by (simp add: GetClaimableAmountForAction_def go_bind_def go_gets_def go_lift_def go_ret_def rest_def [abs_def])
  moreover have "rest b s = ((if b then Ok [] else if cl_params s = None then Panic
        else case find_airdrop s i of None \<Rightarrow> Panic
          | Some a \<Rightarrow> claimable ce ?r a (GetTotalWeight s i)
              (\<lambda>d. rbind (sdk_AccAddressFromBech32 (ce_env ce) d) (\<lambda>addr. Ok (bk_balance (cl_bank s) addr (ad_ClaimDenom a)))) action), s)" for b
  proof (cases "b \<or> cl_params s = None \<or> find_airdrop s i = None")
    case True
    then show ?thesis
      by (auto simp: rest_def go_bind_def GetAirdropByIdentifier_eq go_ret_def go_panic_def)
  next
    case False
    then obtain a ps where a: "find_airdrop s i = Some a" and ps: "cl_params s = Some ps" "\<not> b" by auto
    show ?thesis
      using ps by (simp add: rest_def go_bind_def GetAirdropByIdentifier_eq GetDistributorAccountBalance_eq [OF a] a go_gets_def
          go_ret_def go_lift_def claimable_def rbind_def split: res.splits)
  qed
  ultimately show ?thesis
    using False by (cases ?done) (simp_all add: claimable_for_def Let_def go_lift_bind)
qed

section \<open>What a claim does\<close>

lemma vest_claim_frame:
  assumes "vest_claim ce addr action cs s = (r, t)"
  shows "cl_params t = cl_params s \<and> cl_records t = cl_records s \<and> cl_weights t = cl_weights s
    \<and> cl_epochs t = cl_epochs s \<and> cl_bank t = cl_bank s \<and> (\<forall>a. a \<noteq> addr \<longrightarrow> cl_accounts t a = cl_accounts s a)"
  using assms
  by (auto simp: vest_claim_def NewAccountWithAddress_def go_defs claim_SetAccount_def Let_def
      split: option.splits claim_account.splits res.splits prod.splits)

text \<open>A successful transfer of one coin moves it, whatever is locked.\<close>

lemma SendCoins_moves:
  assumes "SendCoins be from to [(d, x)] b = (Ok u, b')"
  shows "b' = bank_move from to d x b" "x \<le> bk_balance b from d" "fits (bk_balance (bank_add from d (- x) b) to d + x)"
  using assms
  by (auto simp: SendCoins_def subUnlockedCoins_def subUnlockedCoin_def addCoins_def addCoin_def go_defs GetBalance_def Let_def
      bank_move_def bank_add_def setBalance_def Int_Add_eq Coins_IsValid_def split: if_splits)

lemma on_claim_bank_eq [go_simps]:
  "on_claim_bank m s = (r, t) \<longleftrightarrow> (\<exists>b. m (cl_bank s) = (r, b) \<and> t = s\<lparr>cl_bank := b\<rparr>)"
  by (auto simp: on_claim_bank_def split: prod.splits)

lemma claim_SendCoins_moves:
  assumes "claim_SendCoins ce from to [(d, x)] s = (Ok u, t)"
  shows "t = s\<lparr>cl_bank := bank_move from to d x (cl_bank s)\<rparr>"
  using assms
  by (auto simp: claim_SendCoins_def go_simps Let_def split: option.splits claim_account.splits
      dest!: SendCoins_moves(1))

text \<open>Early returns, inverted.\<close>

lemma branch_Ok:
  "(if b then go_fail e else m) s = (Ok x, t) \<longleftrightarrow> \<not> b \<and> m s = (Ok x, t)"
  "(case v of None \<Rightarrow> go_fail e | Some y \<Rightarrow> f y) s = (Ok x, t) \<longleftrightarrow> (\<exists>y. v = Some y \<and> f y s = (Ok x, t))"
  "(if b then go_ret z else m) s = (Ok x, t) \<longleftrightarrow> (b \<and> x = z \<and> t = s) \<or> (\<not> b \<and> m s = (Ok x, t))"
  "(if b then m else go_ret z) s = (Ok x, t) \<longleftrightarrow> (b \<and> m s = (Ok x, t)) \<or> (\<not> b \<and> x = z \<and> t = s)"
  "go_guard b e s = (Ok u, t) \<longleftrightarrow> b \<and> t = s"
  "(if b then Panic else Ok y) = Ok z \<longleftrightarrow> \<not> b \<and> z = y"
  by (auto simp: go_fail_def go_ret_def go_guard_def split: option.splits)

definition initial_passed :: "claim_env \<Rightarrow> claim_state \<Rightarrow> string \<Rightarrow> bool" where
  "initial_passed ce s i =
     (case find_airdrop s i of
        None \<Rightarrow> False
      | Some a \<Rightarrow> time_Sub (ce_blockTime ce) (ad_AirdropStartTime a) \<ge> DefaultVestingInitialPeriod)"

lemma IsInitialPeriodPassed_eq:
  "IsInitialPeriodPassed ce i s = (if cl_params s = None then Panic else Ok (initial_passed ce s i), s)"
  by (auto simp: IsInitialPeriodPassed_def go_bind_def GetAirdropByIdentifier_eq go_ret_def initial_passed_def
      split: option.splits)

lemma SetClaimRecord_Ok [go_simps]:
  "SetClaimRecord ce r s = (Ok u, t) \<longleftrightarrow>
     (\<exists>addr. sdk_AccAddressFromBech32 (ce_env ce) (cr_Address r) = Ok addr \<and>
        t = s\<lparr>cl_records := kv_set (cr_AirdropIdentifier r @ addr) r (cl_records s)\<rparr>)"
  by (auto simp: SetClaimRecord_def go_bind_eq_Ok go_lift_eq go_modify_eq)

definition add_claimed :: "string \<Rightarrow> int \<Rightarrow> Airdrop list \<Rightarrow> Airdrop list" where
  "add_claimed i x ps =
     map (\<lambda>a. if ad_AirdropIdentifier a = i then a\<lparr>ad_ClaimedSoFar := ad_ClaimedSoFar a + x\<rparr> else a) ps"

lemma IncrementClaimedSoFar_Ok:
  assumes "IncrementClaimedSoFar ce i x s = (Ok u, t)"
  shows "\<exists>ps. cl_params s = Some ps \<and> 0 \<le> x \<and> t = s\<lparr>cl_params := Some (add_claimed i x ps)\<rparr>"
proof -
  have loop: "res_acc (\<lambda>airdrop newAirdrops.
           rbind (if ad_AirdropIdentifier airdrop = i
                  then rbind (Int_Add (ad_ClaimedSoFar airdrop) x) (\<lambda>x. Ok (airdrop\<lparr>ad_ClaimedSoFar := x\<rparr>))
                  else Ok airdrop) (\<lambda>airdrop. Ok (newAirdrops @ [airdrop]))) ps acc = Ok qs \<Longrightarrow>
      qs = acc @ add_claimed i x ps" for ps qs acc
    by (induction ps arbitrary: acc) (fastforce simp: add_claimed_def go_simps split: if_splits)+
  show ?thesis
    using assms loop [of _ "[]"] by (auto simp: IncrementClaimedSoFar_def go_simps split: if_splits)
qed

lemma find_add_claimed:
  "List.find (\<lambda>a. ad_AirdropIdentifier a = j) (add_claimed i x ps) =
     map_option (\<lambda>a. if j = i then a\<lparr>ad_ClaimedSoFar := ad_ClaimedSoFar a + x\<rparr> else a)
       (List.find (\<lambda>a. ad_AirdropIdentifier a = j) ps)"
  by (induction ps) (auto simp: add_claimed_def)

text \<open>The record of the user under the airdrop carries its own key.\<close>

definition filed :: "claim_env \<Rightarrow> string \<Rightarrow> address \<Rightarrow> ClaimRecord \<Rightarrow> bool" where
  "filed ce i addr r \<longleftrightarrow> cr_AirdropIdentifier r = i \<and> sdk_AccAddressFromBech32 (ce_env ce) (cr_Address r) = Ok addr"

lemma filed_Address: "filed ce i addr r \<Longrightarrow> cr_Address r \<noteq> ''''"
  by (auto simp: filed_def sdk_AccAddressFromBech32_def)

definition complete :: "Action \<Rightarrow> ClaimRecord \<Rightarrow> ClaimRecord" where
  "complete action r = r\<lparr>cr_ActionCompleted := (cr_ActionCompleted r)[nat action := True]\<rparr>"

text \<open>The state after a claim of \<open>x\<close> tokens, apart from the accounts.\<close>

definition claimed ::
  "string \<Rightarrow> address \<Rightarrow> Action \<Rightarrow> Airdrop \<Rightarrow> address \<Rightarrow> int \<Rightarrow> ClaimRecord \<Rightarrow> claim_state \<Rightarrow> claim_state \<Rightarrow> bool" where
  "claimed i addr action a distributor x r s t \<longleftrightarrow>
     (\<exists>ps. cl_params s = Some ps \<and> cl_params t = Some (add_claimed i x ps)) \<and>
     cl_records t = kv_set (i @ addr) (complete action r) (cl_records s) \<and>
     cl_bank t = bank_move distributor addr (ad_ClaimDenom a) x (cl_bank s) \<and>
     cl_weights t = cl_weights s \<and> cl_epochs t = cl_epochs s \<and>
     (\<forall>a. a \<noteq> addr \<longrightarrow> cl_accounts t a = cl_accounts s a)"

lemma AfterClaim_Ok:
  "AfterClaim ce i x s = (Ok u, t) \<Longrightarrow>
     find_airdrop s i \<noteq> None \<and> (\<exists>ps. cl_params s = Some ps \<and> 0 \<le> x \<and> t = s\<lparr>cl_params := Some (add_claimed i x ps)\<rparr>)"
  by (auto simp: AfterClaim_def go_bind_eq_Ok GetAirdropByIdentifier_Ok go_fail_eq split: option.splits
      dest!: IncrementClaimedSoFar_Ok)

lemma claimable_for_Ok:
  assumes "claimable_for ce s addr action i False = Ok cs" "cs \<noteq> []"
  shows "\<exists>a x. find_airdrop s i = Some a \<and> cs = [(ad_ClaimDenom a, x)] \<and> 0 < x \<and> ValidateDenom (ad_ClaimDenom a)
    \<and> 0 \<le> action \<and> nat action < length (cr_ActionCompleted (GetClaimRecord s addr i))
    \<and> \<not> cr_ActionCompleted (GetClaimRecord s addr i) ! nat action"
  using assms
  by (auto simp: claimable_for_def claimable_def Let_def go_simps NewCoins_single split: if_splits option.splits)

lemma find_airdrop_cong: "cl_params t = cl_params s \<Longrightarrow> find_airdrop t i = find_airdrop s i"
  by (simp add: find_airdrop_def)

lemma pay_claim_Ok:
  assumes "pay_claim ce addr action i isPassed cs s = (Ok cs', t)" "cs = [(ad_ClaimDenom a, x)]" "0 < x"
    and "find_airdrop s i = Some a" "filed ce i addr (GetClaimRecord s addr i)"
  shows "cs' = cs \<and> can_claim (cl_accounts s addr) \<and>
    (\<exists>distributor. sdk_AccAddressFromBech32 (ce_env ce) (ad_DistributorAddress a) = Ok distributor \<and>
       claimed i addr action a distributor x (GetClaimRecord s addr i) s t)"
proof -
  let ?r = "GetClaimRecord s addr i"
  obtain s1 distributor s1' s2 s3 a3 amount where
    can: "can_claim (cl_accounts s addr)" and cs': "cs' = cs"
    and vest: "(if isPassed then go_ret () else vest_claim ce addr action cs) s = (Ok (), s1)"
    and dist: "GetAirdropDistributor ce i s1 = (Ok distributor, s1')"
    and send': "claim_SendCoins ce distributor addr cs s1' = (Ok (), s2)"
    and set: "SetClaimRecord ce (complete action ?r) s2 = (Ok (), s3)"
    and found: "find_airdrop s3 i = Some a3" and amount: "AmountOf cs (ad_ClaimDenom a3) = Ok amount"
    and after: "AfterClaim ce i amount s3 = (Ok (), t)"
    using assms(1) unfolding pay_claim_def complete_def
    by (auto simp: go_bind_eq_Ok go_gets_eq go_ret_eq go_lift_eq branch_Ok(2,5) GetAirdropByIdentifier_Ok)
  have send: "claim_SendCoins ce distributor addr cs s1 = (Ok (), s2)"
    using send' dist by (simp add: GetAirdropDistributor_Ok)
  have f1: "cl_params s1 = cl_params s" "cl_records s1 = cl_records s" "cl_weights s1 = cl_weights s"
    "cl_epochs s1 = cl_epochs s" "cl_bank s1 = cl_bank s" "\<And>b. b \<noteq> addr \<Longrightarrow> cl_accounts s1 b = cl_accounts s b"
    using vest vest_claim_frame [of ce addr action cs s "Ok ()" s1] by (auto simp: go_ret_def split: if_splits)
  have a: "find_airdrop s1 i = Some a" using assms(4) find_airdrop_cong [OF f1(1)] by simp
  have s2: "s2 = s1\<lparr>cl_bank := bank_move distributor addr (ad_ClaimDenom a) x (cl_bank s1)\<rparr>"
    using send unfolding assms(2) by (rule claim_SendCoins_moves)
  have s3: "s3 = s2\<lparr>cl_records := kv_set (i @ addr) (complete action ?r) (cl_records s2)\<rparr>"
    using set assms(5) by (auto simp: SetClaimRecord_Ok complete_def filed_def)
  have "find_airdrop s3 i = Some a" using a find_airdrop_cong [of s3 s1] by (simp add: s2 s3)
  then have "a3 = a" using found by simp
  then have "amount = x" using amount assms(2) by (auto simp: AmountOf_amt split: if_splits)
  with AfterClaim_Ok [OF after] dist a f1 s2 s3 show ?thesis
    by (auto simp: can cs' claimed_def GetAirdropDistributor_Ok)
qed

lemma ClaimCoins_Ok:
  assumes claim: "ClaimCoinsForAction ce addr action i s = (Ok cs, t)" and ne: "cs \<noteq> []"
    and filed: "filed ce i addr (GetClaimRecord s addr i)"
  shows "\<exists>a distributor x. find_airdrop s i = Some a \<and>
    sdk_AccAddressFromBech32 (ce_env ce) (ad_DistributorAddress a) = Ok distributor \<and>
    claimable_for ce s addr action i False = Ok cs \<and> cs = [(ad_ClaimDenom a, x)] \<and> 0 < x \<and>
    can_claim (cl_accounts s addr) \<and> 0 \<le> action \<and> nat action < length (cr_ActionCompleted (GetClaimRecord s addr i)) \<and>
    \<not> cr_ActionCompleted (GetClaimRecord s addr i) ! nat action \<and>
    claimed i addr action a distributor x (GetClaimRecord s addr i) s t"
proof -
  obtain cs0 where cl: "claimable_for ce s addr action i False = Ok cs0" and cs0: "cs0 \<noteq> []"
    and pay: "pay_claim ce addr action i (initial_passed ce s i) cs0 s = (Ok cs, t)"
    using claim ne unfolding ClaimCoinsForAction_def
    by (auto simp: go_bind_eq_Ok branch_Ok IsInitialPeriodPassed_eq GetClaimableAmountForAction_eq)
  obtain a x where a: "find_airdrop s i = Some a" "cs0 = [(ad_ClaimDenom a, x)]" "0 < x"
    and act: "0 \<le> action" "nat action < length (cr_ActionCompleted (GetClaimRecord s addr i))"
      "\<not> cr_ActionCompleted (GetClaimRecord s addr i) ! nat action"
    using claimable_for_Ok [OF cl cs0] by blast
  from pay_claim_Ok [OF pay a(2,3,1) filed] cl a act show ?thesis by auto
qed

lemma GetClaimRecord_claimed:
  "claimed i addr action a distributor x r s t \<Longrightarrow>
   GetClaimRecord t b i = (if b = addr then complete action r else GetClaimRecord s b i)"
  by (auto simp: claimed_def GetClaimRecord_def)

lemma find_airdrop_claimed:
  "claimed i addr action a distributor x r s t \<Longrightarrow> find_airdrop t j =
     map_option (\<lambda>a. if j = i then a\<lparr>ad_ClaimedSoFar := ad_ClaimedSoFar a + x\<rparr> else a) (find_airdrop s j)"
  by (auto simp: claimed_def find_airdrop_def find_add_claimed)

text \<open>Property C23. A claim pays once. A successful claim that is not empty pays exactly the claimable
  amount of the action from the distributor's account to the user, adds it to what the airdrop has
  paid out, marks the action on the user's record and touches no other record, weight or timer.
  Claiming the same action again, at any later block, pays nothing and changes nothing, until the
  record is reset.
\<close>

theorem claim_pays_once:
  assumes "ClaimCoinsForAction ce addr action i s = (Ok cs, t)" "cs \<noteq> []"
    and "filed ce i addr (GetClaimRecord s addr i)"
  shows "\<exists>a distributor x. find_airdrop s i = Some a \<and> cs = [(ad_ClaimDenom a, x)] \<and> 0 < x
    \<and> GetClaimableAmountForAction ce addr action i False s = (Ok cs, s)
    \<and> sdk_AccAddressFromBech32 (ce_env ce) (ad_DistributorAddress a) = Ok distributor
    \<and> cl_bank t = bank_move distributor addr (ad_ClaimDenom a) x (cl_bank s)
    \<and> find_airdrop t i = Some (a\<lparr>ad_ClaimedSoFar := ad_ClaimedSoFar a + x\<rparr>)
    \<and> cl_records t = kv_set (i @ addr) (complete action (GetClaimRecord s addr i)) (cl_records s)
    \<and> cl_weights t = cl_weights s \<and> cl_epochs t = cl_epochs s
    \<and> (\<forall>ce'. ClaimCoinsForAction ce' addr action i t = (Ok [], t))"
proof -
  let ?r = "GetClaimRecord s addr i"
  obtain a distributor x where a: "find_airdrop s i = Some a"
    and d: "sdk_AccAddressFromBech32 (ce_env ce) (ad_DistributorAddress a) = Ok distributor"
    and cl: "claimable_for ce s addr action i False = Ok cs" and cs: "cs = [(ad_ClaimDenom a, x)]" "0 < x"
    and act: "0 \<le> action" "nat action < length (cr_ActionCompleted ?r)"
    and st: "claimed i addr action a distributor x ?r s t"
    using ClaimCoins_Ok [OF assms] by blast
  have rt: "GetClaimRecord t addr i = complete action ?r" using GetClaimRecord_claimed [OF st, of addr] by simp
  have again: "claimable_for ce' t addr action i False = Ok []" for ce'
    using act by (simp add: claimable_for_def Let_def rt complete_def action_completed_def nat_less_iff)
  have "i \<noteq> ''''" "cl_params t \<noteq> None" using a st by (auto simp: find_airdrop_def claimed_def split: option.splits)
  then have "ClaimCoinsForAction ce' addr action i t = (Ok [], t)" for ce'
    using again by (simp add: ClaimCoinsForAction_def go_bind_def IsInitialPeriodPassed_eq GetClaimableAmountForAction_eq go_ret_def)
  with a d cl cs st find_airdrop_claimed [OF st, of i] show ?thesis
    by (auto simp: claimed_def GetClaimableAmountForAction_eq)
qed

lemma action_completed_complete:
  "b \<noteq> action \<Longrightarrow> 0 \<le> action \<Longrightarrow> action_completed (complete action r) b = action_completed r b"
  by (auto simp: action_completed_def complete_def nth_list_update)

text \<open>Claims do not get in each other's way. What is claimable is a share of the balance of
  the distributor plus what has been paid out, so a claim leaves it alone: for every other user, and
  for every other action of the same user, the claimable amount of the airdrop is the same before
  and after, in whatever block it is asked for. Nobody gains by claiming first.
\<close>

theorem claims_do_not_interfere:
  assumes "ClaimCoinsForAction ce addr action i s = (Ok cs, t)"
    and "cs \<noteq> [] \<Longrightarrow> filed ce i addr (GetClaimRecord s addr i)"
    and "GetAirdropDistributor ce i s \<noteq> (Ok addr, s)"
    and "addr' \<noteq> addr \<or> action' \<noteq> action" and "e_DecodeBech32 (ce_env ce') = e_DecodeBech32 (ce_env ce)"
  shows "fst (GetClaimableAmountForAction ce' addr' action' i includeClaimed t) =
    fst (GetClaimableAmountForAction ce' addr' action' i includeClaimed s)"
proof (cases "cs = []")
  case True
  with assms(1) have "t = s"
    unfolding ClaimCoinsForAction_def
    by (auto simp: go_bind_eq_Ok branch_Ok IsInitialPeriodPassed_eq GetClaimableAmountForAction_eq pay_claim_def go_ret_eq
        split: if_splits option.splits)
  then show ?thesis by simp
next
  case False
  let ?r = "GetClaimRecord s addr i"
  have filed: "filed ce i addr ?r" using False assms(2) by simp
  obtain a distributor x where a: "find_airdrop s i = Some a"
    and d: "sdk_AccAddressFromBech32 (ce_env ce) (ad_DistributorAddress a) = Ok distributor"
    and x: "0 < x" "0 \<le> action" and st: "claimed i addr action a distributor x ?r s t"
    using ClaimCoins_Ok [OF assms(1) False filed] by blast
  have ne: "distributor \<noteq> addr" using assms(3) a d by (auto simp: GetAirdropDistributor_Ok)
  have dec: "sdk_AccAddressFromBech32 (ce_env ce') u = sdk_AccAddressFromBech32 (ce_env ce) u" for u
    by (simp add: sdk_AccAddressFromBech32_def assms(5))
  define a' where "a' = a\<lparr>ad_ClaimedSoFar := ad_ClaimedSoFar a + x\<rparr>"
  have at: "find_airdrop t i = Some a'" using find_airdrop_claimed [OF st, of i] a by (simp add: a'_def)
  have bal: "bk_balance (cl_bank t) distributor (ad_ClaimDenom a) = bk_balance (cl_bank s) distributor (ad_ClaimDenom a) - x"
    using st ne by (simp add: claimed_def bk_balance_move)
  have w: "GetTotalWeight t i = GetTotalWeight s i" using st by (simp add: claimed_def GetTotalWeight_def)
  have same: "claimable ce' (GetClaimRecord t addr' i) a' (GetTotalWeight t i)
      (\<lambda>d. rbind (sdk_AccAddressFromBech32 (ce_env ce') d) (\<lambda>u. Ok (bk_balance (cl_bank t) u (ad_ClaimDenom a')))) action' =
    claimable ce' (GetClaimRecord s addr' i) a (GetTotalWeight s i)
      (\<lambda>d. rbind (sdk_AccAddressFromBech32 (ce_env ce') d) (\<lambda>u. Ok (bk_balance (cl_bank s) u (ad_ClaimDenom a)))) action'"
    using GetClaimRecord_claimed [OF st, of addr'] bal
    by (simp add: claimable_def a'_def dec d w complete_def Int_Add_eq)
  have rec: "cr_Address (GetClaimRecord t addr' i) = cr_Address (GetClaimRecord s addr' i)"
    "action_completed (GetClaimRecord t addr' i) action' = action_completed (GetClaimRecord s addr' i) action'"
    using GetClaimRecord_claimed [OF st, of addr'] assms(4) x(2) action_completed_complete [of action' action ?r]
    by (auto simp: complete_def)
  obtain ps pt where "cl_params s = Some ps" "cl_params t = Some pt" using st by (auto simp: claimed_def)
  then show ?thesis
    unfolding GetClaimableAmountForAction_eq claimable_for_def Let_def rec at a using same by (simp cong: if_cong)
qed

section \<open>How much can be claimed\<close>

lemma claim_amount_bound:
  assumes "claim_amount pool c w T = Ok n" "0 \<le> pool" "0 \<le> c" "0 \<le> w" "0 < T"
  defines "P \<equiv> precisionReuse"
  shows "2 * (P * T) * n \<le> 2 * pool * c * w + (P + T + P * T)" "0 \<le> n"
proof -
  have P: "0 < P" by (simp add: P_def)
  define m where "m = chop_nonneg (pool * c * w)"
  define X where "X = m * (P * P) div T"
  define q where "q = chop_nonneg X"
  have m0: "0 \<le> m" using assms by (simp add: m_def chop_nonneg_ge_0)
  have X0: "0 \<le> X" using m0 P assms(5) by (simp add: X_def pos_imp_zdiv_nonneg_iff)
  have q0: "0 \<le> q" using X0 by (simp add: q_def chop_nonneg_ge_0)
  have 1: "chopPrecisionAndRound (NewDec pool * c) = pool * c"
    using Dec_Mul_int [of pool c] by (simp add: NewDec_def NewDecFromInt_def)
  have 2: "chopPrecisionAndRound (pool * c * w) = m"
    using assms(2-4) by (simp add: m_def chopPrecisionAndRound_nonneg)
  have 3: "big_quo (m * (P * P)) T = X" using m0 P assms(5) by (simp add: X_def big_quo_pos)
  have 4: "chopPrecisionAndRound X = q" using X0 by (simp add: q_def chopPrecisionAndRound_nonneg)
  have "n = chopPrecisionAndRound (chopPrecisionAndRound (big_quo (chopPrecisionAndRound
      (chopPrecisionAndRound (NewDec pool * c) * w) * (P * P)) T))"
    using assms(1) unfolding claim_amount_def P_def
    by (elim rbind_eq_Ok [THEN iffD1, elim_format] exE conjE)
      (simp only: Dec_Mul_Ok Dec_Quo_Ok Dec_RoundInt_Ok Int_Int64_Ok)
  then have n: "n = chop_nonneg q" using q0 unfolding 1 2 3 4 by (simp add: chopPrecisionAndRound_nonneg)
  then show "0 \<le> n" using q0 by (simp add: chop_nonneg_ge_0)
  have bm: "2 * (m * P) \<le> 2 * (pool * c * w) + P" unfolding m_def P_def by (rule chop_nonneg_bounds)
  have bX: "X * T \<le> m * (P * P)" unfolding X_def using assms(5) by (rule div_bounds)
  have bq: "2 * (q * P) \<le> 2 * X + P" unfolding q_def P_def by (rule chop_nonneg_bounds)
  have bn: "2 * (n * P) \<le> 2 * q + P" unfolding n P_def by (rule chop_nonneg_bounds)
  have "(2 * (n * P)) * (P * T) \<le> (2 * q + P) * (P * T)" using bn P assms(5) by (intro mult_right_mono) auto
  also have "\<dots> = (2 * (q * P)) * T + P * P * T" by (simp add: algebra_simps)
  also have "\<dots> \<le> (2 * X + P) * T + P * P * T"
    using mult_right_mono [OF bq, of T] assms(5) by simp
  also have "\<dots> = 2 * (X * T) + P * T + P * P * T" by (simp add: algebra_simps)
  also have "\<dots> \<le> (2 * (m * P)) * P + P * T + P * P * T" using bX by (simp add: algebra_simps)
  also have "\<dots> \<le> (2 * (pool * c * w) + P) * P + P * T + P * P * T"
    using mult_right_mono [OF bm, of P] P by simp
  finally have "(2 * (P * T) * n) * P \<le> (2 * pool * c * w + (P + T + P * T)) * P" by (simp add: algebra_simps)
  then show "2 * (P * T) * n \<le> 2 * pool * c * w + (P + T + P * T)" using P by (simp only: mult_le_cancel_right)
qed

definition pool_of :: "claim_state \<Rightarrow> Airdrop \<Rightarrow> address \<Rightarrow> int" where
  "pool_of s a distributor = bk_balance (cl_bank s) distributor (ad_ClaimDenom a) + ad_ClaimedSoFar a"

lemma claimable_bound:
  assumes "claimable_for ce s addr action i True = Ok cs" "find_airdrop s i = Some a"
    and "sdk_AccAddressFromBech32 (ce_env ce) (ad_DistributorAddress a) = Ok distributor"
    and "0 \<le> pool_of s a distributor" "0 \<le> cr_Weight (GetClaimRecord s addr i)" "0 < GetTotalWeight s i"
  defines "P \<equiv> precisionReuse" and "T \<equiv> GetTotalWeight s i"
  shows "2 * (P * T) * amt cs (ad_ClaimDenom a) \<le>
    2 * pool_of s a distributor * percentage_for action * cr_Weight (GetClaimRecord s addr i) + (P + T + P * T)"
proof (cases "cs = []")
  case True
  have "0 \<le> percentage_for action"
    by (simp add: percentage_for_def PercentageForFree_def PercentageForStake_def PercentageForLiquidStake_def)
  then have "0 \<le> 2 * pool_of s a distributor * percentage_for action * cr_Weight (GetClaimRecord s addr i)"
    using assms(4,5) by simp
  moreover have "0 \<le> P + T + P * T" using assms(6) by (simp add: P_def T_def)
  ultimately show ?thesis using True by simp
next
  case False
  have c0: "0 \<le> percentage_for action"
    by (simp add: percentage_for_def PercentageForFree_def PercentageForStake_def PercentageForLiquidStake_def)
  obtain n where n: "claim_amount (pool_of s a distributor) (percentage_for action)
      (cr_Weight (GetClaimRecord s addr i)) (GetTotalWeight s i) = Ok n" "cs = [(ad_ClaimDenom a, n)]"
    using assms(1,2,3) False
    by (auto simp: claimable_for_def claimable_def Let_def go_simps pool_of_def NewCoins_single split: if_splits)
  show ?thesis
    unfolding P_def T_def using claim_amount_bound(1) [OF n(1) assms(4) c0 assms(5,6)] n(2) by simp
qed

lemma GetUserTotalClaimable_reads:
  assumes "GetUserTotalClaimable ce addr i b s = (r, t)"
  shows "t = s"
proof -
  have body: "u = s" if "go_bind (GetClaimableAmountForAction ce addr action i b) (\<lambda>claimableForAction.
      if claimableForAction \<noteq> [] then go_lift (Coins_Add acc claimableForAction) else go_ret acc) s' = (q, u)" "s' = s"
    for action acc s' q u
    using that by (auto simp: go_bind_def GetClaimableAmountForAction_eq go_lift_def go_ret_def split: res.splits if_splits)
  show ?thesis
  proof (cases "cr_Address (GetClaimRecord s addr i) = ''''")
    case False
    with assms have "for_acc (\<lambda>action totalClaimable. go_bind (GetClaimableAmountForAction ce addr action i b)
        (\<lambda>claimableForAction. if claimableForAction \<noteq> [] then go_lift (Coins_Add totalClaimable claimableForAction)
          else go_ret totalClaimable)) [0, 1, 2] [] s = (r, t)"
      by (simp add: GetUserTotalClaimable_def go_bind_def go_gets_def)
    from for_acc_invariant [where I = "\<lambda>u. u = s", OF _ _ this] body show ?thesis by blast
  qed (use assms in \<open>simp add: GetUserTotalClaimable_def go_bind_def go_gets_def go_ret_def\<close>)
qed

lemma GetUserTotalClaimable_Ok:
  assumes "GetUserTotalClaimable ce addr i True s = (Ok tot, t)" "cr_Address (GetClaimRecord s addr i) \<noteq> ''''"
  shows "\<exists>c0 c1 c2. claimable_for ce s addr 0 i True = Ok c0 \<and> claimable_for ce s addr 1 i True = Ok c1 \<and>
    claimable_for ce s addr 2 i True = Ok c2 \<and> (\<forall>d. amt tot d = amt c0 d + amt c1 d + amt c2 d)"
proof -
  define f where "f = (\<lambda>action totalClaimable.
         go_bind (GetClaimableAmountForAction ce addr action i True) (\<lambda>claimableForAction.
         if claimableForAction \<noteq> [] then go_lift (Coins_Add totalClaimable claimableForAction)
         else go_ret totalClaimable))"
  have step: "\<exists>c. claimable_for ce s addr action i True = Ok c \<and> (\<forall>d. amt r d = amt acc d + amt c d) \<and> u = s"
    if "f action acc s = (Ok r, u)" for action acc r u
    using that by (auto simp: f_def go_bind_eq_Ok GetClaimableAmountForAction_eq go_ret_eq go_lift_eq Coins_Add_def
        split: if_splits dest!: Coins_safeAdd_Ok)
  have "for_acc f [0, 1, 2] [] s = (Ok tot, t)"
    using assms by (simp add: GetUserTotalClaimable_def f_def go_bind_eq_Ok go_gets_eq)
  then obtain r0 u0 r1 u1 where "f 0 [] s = (Ok r0, u0)" "f 1 r0 u0 = (Ok r1, u1)" "f 2 r1 u1 = (Ok tot, t)"
    by (auto split: prod.splits res.splits)
  with step [of 0 "[]" r0 u0] step [of 1 r0 r1] step [of 2 r1 tot] show ?thesis by auto
qed

text \<open>Property C24. An airdrop is solvent up to rounding. If the weights of a group of users sum up to no
  more than the total weight, which is at least one, then everything these users can claim, for all
  three actions together and whether or not they have claimed before, is at most the pool plus three
  tokens per user: each of the three roundings can give away at most one token.
\<close>

theorem airdrop_is_solvent:
  assumes "find_airdrop s i = Some a"
    and "sdk_AccAddressFromBech32 (ce_env ce) (ad_DistributorAddress a) = Ok distributor"
    and "0 \<le> pool_of s a distributor" "OneDec \<le> GetTotalWeight s i"
    and "list_all (\<lambda>u. 0 \<le> cr_Weight (GetClaimRecord s u i) \<and> cr_Address (GetClaimRecord s u i) \<noteq> '''' \<and>
           GetUserTotalClaimable ce u i True s = (Ok (due u), s)) users"
    and "(\<Sum>u\<leftarrow>users. cr_Weight (GetClaimRecord s u i)) \<le> GetTotalWeight s i"
  shows "(\<Sum>u\<leftarrow>users. amt (due u) (ad_ClaimDenom a)) \<le> pool_of s a distributor + 3 * int (length users)"
proof -
  let ?P = precisionReuse and ?T = "GetTotalWeight s i" and ?A = "pool_of s a distributor"
  let ?w = "\<lambda>u. cr_Weight (GetClaimRecord s u i)" and ?d = "ad_ClaimDenom a"
  have PT: "0 < ?P" "0 < ?T" "0 < ?P * ?T" using assms(4) by (simp_all add: OneDec_def precisionReuse_def)
  have c: "percentage_for 0 + percentage_for 1 + percentage_for 2 = ?P"
    by (simp add: percentage_for_def ACTION_DELEGATE_STAKE_def ACTION_LIQUID_STAKE_def PercentageForFree_def
        PercentageForStake_def PercentageForLiquidStake_def precisionReuse_def)
  have one: "2 * (?P * ?T) * amt (due u) ?d \<le> 2 * ?A * ?P * ?w u + 3 * (?P + ?T + ?P * ?T)" if u: "u \<in> set users" for u
  proof -
    have w: "0 \<le> ?w u" and tot: "GetUserTotalClaimable ce u i True s = (Ok (due u), s)"
      and ad: "cr_Address (GetClaimRecord s u i) \<noteq> ''''"
      using assms(5) u by (simp_all add: list_all_iff)
    obtain c0 c1 c2 where cs: "claimable_for ce s u 0 i True = Ok c0" "claimable_for ce s u 1 i True = Ok c1"
        "claimable_for ce s u 2 i True = Ok c2" and amt: "amt (due u) ?d = amt c0 ?d + amt c1 ?d + amt c2 ?d"
      using GetUserTotalClaimable_Ok [OF tot ad] by blast
    note b = claimable_bound [OF _ assms(1,2,3) w PT(2)]
    have "2 * (?P * ?T) * amt (due u) ?d \<le>
        2 * ?A * (percentage_for 0 + percentage_for 1 + percentage_for 2) * ?w u + 3 * (?P + ?T + ?P * ?T)"
      using b [OF cs(1)] b [OF cs(2)] b [OF cs(3)] unfolding amt by (simp only: distrib_left distrib_right)
    then show ?thesis unfolding c .
  qed
  have "2 * (?P * ?T) * (\<Sum>u\<leftarrow>us. amt (due u) ?d) \<le>
      2 * ?A * ?P * (\<Sum>u\<leftarrow>us. ?w u) + int (length us) * (3 * (?P + ?T + ?P * ?T))" if "set us \<subseteq> set users" for us
    using that
  proof (induction us)
    case (Cons u us)
    with one [of u] show ?case by (simp add: distrib_left distrib_right)
  qed simp
  from this [of users] have "2 * (?P * ?T) * (\<Sum>u\<leftarrow>users. amt (due u) ?d) \<le>
      2 * ?A * ?P * (\<Sum>u\<leftarrow>users. ?w u) + int (length users) * (3 * (?P + ?T + ?P * ?T))" by simp
  also have "\<dots> \<le> 2 * ?A * ?P * ?T + int (length users) * (3 * (2 * (?P * ?T)))"
  proof (intro add_mono mult_left_mono)
    show "?P + ?T + ?P * ?T \<le> 2 * (?P * ?T)"
      using assms(4) mult_left_mono [of ?P ?T ?P] PT by (simp add: OneDec_def precisionReuse_def)
  qed (use assms(3,6) PT in auto)
  also have "\<dots> = 2 * (?P * ?T) * (?A + 3 * int (length users))" by (simp add: algebra_simps)
  finally show ?thesis using PT(3) by (simp only: mult_le_cancel_left)
qed

section \<open>Allocations\<close>

definition weight_in :: "string \<Rightarrow> ClaimRecord \<Rightarrow> Dec" where
  "weight_in i r = (if cr_AirdropIdentifier r = i then cr_Weight r else 0)"

definition record_weights :: "(string, ClaimRecord) kvstore \<Rightarrow> string \<Rightarrow> Dec" where
  "record_weights m i = (\<Sum>r\<leftarrow>kv_values m. weight_in i r)"

lemma record_weights_fresh:
  "kv_get m k = None \<Longrightarrow> record_weights (kv_set k r m) i = record_weights m i + weight_in i r"
  by (induction m) (auto simp: record_weights_def kv_values_def kv_get_def split: if_splits)

text \<open>The bech32 codec gives back the bytes of an account address it encodes.\<close>

definition bech32_ok :: "env \<Rightarrow> bool" where
  "bech32_ok env \<longleftrightarrow> (\<forall>u addr. sdk_AccAddressFromBech32 env u = Ok addr \<longrightarrow>
     sdk_AccAddressFromBech32 env (e_EncodeBech32 env ''stride'' addr) = Ok addr)"

lemma convert_own_address:
  assumes "bech32_ok env" "sdk_AccAddressFromBech32 env u = Ok addr"
  shows "ConvertAddressToStrideAddress env u = e_EncodeBech32 env ''stride'' addr"
    "sdk_AccAddressFromBech32 env (ConvertAddressToStrideAddress env u) = Ok addr"
proof -
  have "e_DecodeBech32 env u = Some (''stride'', addr)"
    using assms(2) by (auto simp: sdk_AccAddressFromBech32_def go_simps split: if_splits option.splits)
  then show *: "ConvertAddressToStrideAddress env u = e_EncodeBech32 env ''stride'' addr"
    by (simp add: ConvertAddressToStrideAddress_def)
  show "sdk_AccAddressFromBech32 env (ConvertAddressToStrideAddress env u) = Ok addr"
    unfolding * using assms by (simp add: bech32_ok_def)
qed

lemma unallocated_Ok:
  assumes "res_acc (unallocated_user ce s i) uws acc = Ok (us, ws)" "length (fst acc) = length (snd acc)"
  shows "length us = length ws \<and> (\<exists>vs. us = fst acc @ vs \<and> subseq vs (map fst uws) \<and>
    (\<forall>u\<in>set vs. \<forall>addr. sdk_AccAddressFromBech32 (ce_env ce) (ConvertAddressToStrideAddress (ce_env ce) u) = Ok addr \<longrightarrow>
       kv_get (cl_records s) (i @ addr) = None))"
  using assms
proof (induction uws arbitrary: acc)
  case (Cons uw uws)
  obtain acc1 where 1: "unallocated_user ce s i uw acc = Ok acc1"
    and 2: "res_acc (unallocated_user ce s i) uws acc1 = Ok (us, ws)"
    using Cons.prems(1) by (auto simp: go_simps)
  consider (skip) "acc1 = acc"
    | (take) w where "acc1 = (fst acc @ [fst uw], snd acc @ [w])"
        "\<And>addr. sdk_AccAddressFromBech32 (ce_env ce) (ConvertAddressToStrideAddress (ce_env ce) (fst uw)) = Ok addr \<Longrightarrow>
           kv_get (cl_records s) (i @ addr) = None"
    using 1 by (auto simp: unallocated_user_def Let_def go_simps split: if_splits option.splits res.splits)
  then show ?case
  proof cases
    case skip
    with Cons.IH [OF 2] Cons.prems(2) show ?thesis by (auto intro: subseq_Cons')
  next
    case take
    then have "length (fst acc1) = length (snd acc1)" using Cons.prems(2) by simp
    from Cons.IH [OF 2 this] obtain vs where "length us = length ws" "us = fst acc1 @ vs" "subseq vs (map fst uws)"
      "\<forall>u\<in>set vs. \<forall>addr. sdk_AccAddressFromBech32 (ce_env ce) (ConvertAddressToStrideAddress (ce_env ce) u) = Ok addr \<longrightarrow>
         kv_get (cl_records s) (i @ addr) = None" by blast
    with take show ?thesis by (intro conjI exI [of _ "fst uw # vs"]) auto
  qed
qed simp

lemma SetClaimRecords_fresh:
  assumes "SetClaimRecords ce (map (allocation_record i) uws) s = (Ok u, t)" "bech32_ok (ce_env ce)"
    and "distinct (map (\<lambda>uw. ConvertAddressToStrideAddress (ce_env ce) (fst uw)) uws)"
    and "\<And>uw addr. uw \<in> set uws \<Longrightarrow> sdk_AccAddressFromBech32 (ce_env ce) (fst uw) = Ok addr \<Longrightarrow>
           kv_get (cl_records s) (i @ addr) = None"
  shows "record_weights (cl_records t) j = record_weights (cl_records s) j + (if j = i then (\<Sum>uw\<leftarrow>uws. snd uw) else 0)
    \<and> cl_weights t = cl_weights s"
  using assms unfolding SetClaimRecords_def
proof (induction uws arbitrary: s)
  case (Cons uw uws)
  obtain s1 where 1: "SetClaimRecord ce (allocation_record i uw) s = (Ok (), s1)"
    and 2: "for_each (SetClaimRecord ce) (map (allocation_record i) uws) s1 = (Ok u, t)"
    using Cons.prems(1) by (auto split: prod.splits res.splits)
  obtain addr where addr: "sdk_AccAddressFromBech32 (ce_env ce) (fst uw) = Ok addr"
    and s1: "s1 = s\<lparr>cl_records := kv_set (i @ addr) (allocation_record i uw) (cl_records s)\<rparr>"
    using 1 by (auto simp: SetClaimRecord_Ok allocation_record_def)
  have none: "kv_get (cl_records s) (i @ addr) = None" using Cons.prems(4) [of uw addr] addr by simp
  have "kv_get (cl_records s1) (i @ addr') = None"
    if "vw \<in> set uws" "sdk_AccAddressFromBech32 (ce_env ce) (fst vw) = Ok addr'" for vw addr'
  proof -
    have "addr' \<noteq> addr"
      using that Cons.prems(3) convert_own_address(1) [OF Cons.prems(2)] addr by force
    then show ?thesis using Cons.prems(4) [of vw addr'] that by (simp add: s1)
  qed
  from Cons.IH [OF 2 Cons.prems(2) _ this] Cons.prems(3) record_weights_fresh [OF none]
  show ?case by (simp add: s1 weight_in_def allocation_record_def)
qed simp

text \<open>Allocations keep the books. If every airdrop's total weight is the sum of the weights
  of its records, a successful \<open>SetAirdropAllocations\<close> for users with different addresses keeps
  it so, for all airdrops: users that have a record already are left out of both, the others are
  added to both.
\<close>

theorem allocations_keep_weights:
  assumes "SetAirdropAllocations ce msg s = (Ok u, t)" "bech32_ok (ce_env ce)"
    and "distinct (map (ConvertAddressToStrideAddress (ce_env ce)) (msa_Users msg))"
    and "length (msa_Users msg) = length (msa_Weights msg)"
    and "\<And>i. GetTotalWeight s i = record_weights (cl_records s) i"
  shows "GetTotalWeight t i = record_weights (cl_records t) i"
proof -
  let ?i = "msa_AirdropIdentifier msg"
  obtain us ws total where
    un: "GetUnallocatedUsers ce s ?i (msa_Users msg) (msa_Weights msg) = Ok (us, ws)"
    and tot: "res_acc (\<lambda>w total. Dec_Add total w) ws (GetTotalWeight s ?i) = Ok total"
    and set: "SetClaimRecords ce (map (allocation_record ?i) (zip us ws)) (SetTotalWeight total ?i s) = (Ok u, t)"
    using assms(1)
    by (auto simp: SetAirdropAllocations_def go_bind_eq_Ok go_gets_eq GetAirdropDistributor_Ok go_lift_eq go_guard_eq
        go_modify_eq split: if_splits)
  have sum: "res_acc (\<lambda>w total. Dec_Add total w) ws a = Ok b \<Longrightarrow> b = a + sum_list ws" for a b ws
    by (induction ws arbitrary: a) (fastforce simp: go_simps)+
  have uw: "length us = length ws" and sub: "subseq us (msa_Users msg)"
    and fresh: "\<And>u addr. u \<in> set us \<Longrightarrow>
      sdk_AccAddressFromBech32 (ce_env ce) (ConvertAddressToStrideAddress (ce_env ce) u) = Ok addr \<Longrightarrow>
      kv_get (cl_records s) (?i @ addr) = None"
    using unallocated_Ok [OF un [unfolded GetUnallocatedUsers_def]] assms(4) by auto
  have dist: "distinct (map (\<lambda>uw. ConvertAddressToStrideAddress (ce_env ce) (fst uw)) (zip us ws))"
  proof -
    have "distinct xs" if "subseq xs ys" "distinct ys" for xs ys :: "string list"
      using that by induction (auto dest: list_emb_set)
    from this [OF subseq_map [OF sub] assms(3)] uw
    have "distinct (map (ConvertAddressToStrideAddress (ce_env ce)) (map fst (zip us ws)))" by simp
    then show ?thesis by (simp only: map_map comp_def)
  qed
  have none: "kv_get (cl_records (SetTotalWeight total ?i s)) (?i @ addr) = None"
    if "uw \<in> set (zip us ws)" "sdk_AccAddressFromBech32 (ce_env ce) (fst uw) = Ok addr" for uw addr
  proof -
    have "fst uw \<in> set us" using that(1) by (metis prod.collapse set_zip_leftD)
    from fresh [OF this convert_own_address(2) [OF assms(2) that(2)]] show ?thesis by (simp add: SetTotalWeight_def)
  qed
  from SetClaimRecords_fresh [OF set assms(2) dist none, where j = i] sum [OF tot] uw assms(5) show ?thesis
    by (auto simp: SetTotalWeight_def GetTotalWeight_def map_snd_zip [unfolded comp_def] simp flip: map_map)
qed

section \<open>Moving and clearing records\<close>

lemma kv_get_filter: "kv_get (filter (\<lambda>e. P (fst e)) m) k = (if P k then kv_get m k else None)"
  by (induction m) (auto simp: kv_get_def)

text \<open>Moving a claim to another address. With an existing airdrop, two valid addresses and a
  record under the first, \<open>UpdateAirdropAddress\<close> succeeds and files the record under the new
  address with its weight and completed actions, in place of whatever was there, and removes it from
  the old one; no other record changes. If the two addresses are the same, the removal comes last:
  the user's record is gone.
\<close>

theorem UpdateAirdropAddress_moves:
  assumes "find_airdrop s i = Some a" "sdk_AccAddressFromBech32 (ce_env ce) new = Ok addr'"
    and "sdk_AccAddressFromBech32 (ce_env ce) old = Ok addr" "filed ce i addr (GetClaimRecord s addr i)"
  shows "\<exists>t. UpdateAirdropAddress ce old new i s = (Ok (), t)
    \<and> (addr' \<noteq> addr \<longrightarrow> GetClaimRecord t addr' i = (GetClaimRecord s addr i)\<lparr>cr_Address := new\<rparr>)
    \<and> GetClaimRecord t addr i = no_record
    \<and> (\<forall>j b. j @ b \<noteq> i @ addr \<and> j @ b \<noteq> i @ addr' \<longrightarrow> GetClaimRecord t b j = GetClaimRecord s b j)"
proof -
  let ?r = "GetClaimRecord s addr i"
  have id: "ad_AirdropIdentifier a = i" "cl_params s \<noteq> None"
    using assms(1) by (auto simp: find_airdrop_def find_Some_iff split: option.splits if_splits)
  define t where "t = s\<lparr>cl_records := kv_delete (i @ addr) (kv_set (i @ addr') (?r\<lparr>cr_Address := new\<rparr>) (cl_records s))\<rparr>"
  have "UpdateAirdropAddress ce old new i s = (Ok (), t)"
    using assms id filed_Address [OF assms(4)]
    by (auto simp: UpdateAirdropAddress_def go_bind_def GetAirdropByIdentifier_eq go_wrap_def go_lift_def go_gets_def
        SetClaimRecord_def go_modify_def DeleteClaimRecord_def t_def filed_def)
  then show ?thesis by (auto simp: t_def GetClaimRecord_def)
qed

text \<open>Ending an airdrop clears too much. \<open>clearInitialClaimables\<close> deletes every record
  whose key starts with the identifier of the airdrop, and nothing ends an identifier in a key: the
  records of every airdrop whose identifier continues the one that ended are deleted with it, while
  their total weight stays.
\<close>

theorem EndAirdrop_clears_extensions:
  assumes "EndAirdrop ce i s = (Ok u, t)"
  shows "GetClaimRecord t addr (i @ rest) = no_record
    \<and> (rest \<noteq> [] \<longrightarrow> GetTotalWeight t (i @ rest) = GetTotalWeight s (i @ rest) \<and>
         find_airdrop t (i @ rest) = find_airdrop s (i @ rest))
    \<and> GetTotalWeight t i = ZeroDec \<and> find_airdrop t i = None
    \<and> (\<not> HasPrefix (j @ addr) i \<longrightarrow> GetClaimRecord t addr j = GetClaimRecord s addr j)"
proof -
  have find: "List.find (\<lambda>a. ad_AirdropIdentifier a = k) (filter (\<lambda>a. ad_AirdropIdentifier a \<noteq> i) ps) =
      (if k = i then None else List.find (\<lambda>a. ad_AirdropIdentifier a = k) ps)" for k ps
    by (induction ps) (auto simp: find_None_iff)
  obtain ps where ps: "cl_params s = Some ps"
    and t: "cl_records t = filter (\<lambda>e. \<not> HasPrefix (fst e) i) (cl_records s)"
      "cl_weights t = kv_delete i (cl_weights s)" "cl_params t = Some (filter (\<lambda>a. ad_AirdropIdentifier a \<noteq> i) ps)"
    using assms
    by (auto simp: EndAirdrop_def DeleteAirdropAndEpoch_def go_simps clearInitialClaimables_def DeleteTotalWeight_def)
  then show ?thesis
    by (simp add: GetClaimRecord_def kv_get_filter [of "\<lambda>k. \<not> HasPrefix k i"] GetTotalWeight_def find_airdrop_def find)
qed

section \<open>A concrete airdrop\<close>

definition demo_distributor :: address where "demo_distributor = ''distributor_account_''"
definition demo_user1 :: address where "demo_user1 = ''airdrop_user_number1''"
definition demo_user2 :: address where "demo_user2 = ''airdrop_user_number2''"

definition demo_airdrop :: Airdrop where
  "demo_airdrop = \<lparr>ad_AirdropIdentifier = ''gaia'', ad_ChainId = ''GAIA'', ad_AirdropStartTime = 0,
     ad_AirdropDuration = 36 * month, ad_ClaimDenom = ''ustrd'', ad_DistributorAddress = ''stride1'' @ demo_distributor,
     ad_ClaimedSoFar = 0, ad_AutopilotEnabled = True\<rparr>"

definition demo_claim_record :: "address \<Rightarrow> Dec \<Rightarrow> ClaimRecord" where
  "demo_claim_record u w = \<lparr>cr_AirdropIdentifier = ''gaia'', cr_Address = ''stride1'' @ u, cr_Weight = w,
     cr_ActionCompleted = [False, False, False]\<rparr>"

definition demo_claim_env :: claim_env where
  "demo_claim_env = \<lparr>ce_env = demo_env, ce_blockHeight = 1000, ce_clock = 2000, ce_ParamsJSON = (\<lambda>_. True),
     ce_ParseWeight = (\<lambda>_. None)\<rparr>"

definition demo_claim_state :: claim_state where
  "demo_claim_state = \<lparr>cl_params = Some [demo_airdrop],
     cl_records = [(''gaia'' @ demo_user1, demo_claim_record demo_user1 (OneDec div 4)),
       (''gaia'' @ demo_user2, demo_claim_record demo_user2 (3 * OneDec div 4))],
     cl_weights = [(''gaia'', OneDec)], cl_epochs = [],
     cl_bank = \<lparr>bk_balance = (\<lambda>a d. if a = demo_distributor \<and> d = ''ustrd'' then 1000 else 0), bk_supply = (\<lambda>_. 1000)\<rparr>,
     cl_accounts = (\<lambda>a. if a = demo_user1 then Some (BaseAcc demo_base) else None), cl_nextAccountNumber = 8\<rparr>"

lemma demo_claim_filed: "filed demo_claim_env ''gaia'' demo_user1 (GetClaimRecord demo_claim_state demo_user1 ''gaia'')"
  unfolding filed_def by code_simp

lemma demo_claim_run:
  "fst (ClaimCoinsForAction demo_claim_env demo_user1 ACTION_LIQUID_STAKE ''gaia'' demo_claim_state) = Ok [(''ustrd'', 150)]"
  by code_simp

theorem claim_pays_once_witness:
  "\<exists>t. ClaimCoinsForAction demo_claim_env demo_user1 ACTION_LIQUID_STAKE ''gaia'' demo_claim_state = (Ok [(''ustrd'', 150)], t)
     \<and> cl_bank t = bank_move demo_distributor demo_user1 ''ustrd'' 150 (cl_bank demo_claim_state)
     \<and> ClaimCoinsForAction demo_claim_env demo_user1 ACTION_LIQUID_STAKE ''gaia'' t = (Ok [], t)"
proof -
  obtain t where t: "ClaimCoinsForAction demo_claim_env demo_user1 ACTION_LIQUID_STAKE ''gaia'' demo_claim_state
      = (Ok [(''ustrd'', 150)], t)"
    using demo_claim_run by (metis prod.collapse)
  have d: "sdk_AccAddressFromBech32 (ce_env demo_claim_env) (ad_DistributorAddress demo_airdrop) = Ok demo_distributor"
    by code_simp
  have a: "find_airdrop demo_claim_state ''gaia'' = Some demo_airdrop" by code_simp
  from claim_pays_once [OF t _ demo_claim_filed] t d a show ?thesis by auto
qed

theorem claims_do_not_interfere_witness:
  "\<exists>t. ClaimCoinsForAction demo_claim_env demo_user1 ACTION_LIQUID_STAKE ''gaia'' demo_claim_state = (Ok [(''ustrd'', 150)], t)
     \<and> fst (GetClaimableAmountForAction demo_claim_env demo_user2 ACTION_FREE ''gaia'' False t) = Ok [(''ustrd'', 150)]"
proof -
  obtain t where t: "ClaimCoinsForAction demo_claim_env demo_user1 ACTION_LIQUID_STAKE ''gaia'' demo_claim_state
      = (Ok [(''ustrd'', 150)], t)"
    using demo_claim_run by (metis prod.collapse)
  have d: "fst (GetAirdropDistributor demo_claim_env ''gaia'' demo_claim_state) = Ok demo_distributor" by code_simp
  then have ne: "GetAirdropDistributor demo_claim_env ''gaia'' demo_claim_state \<noteq> (Ok demo_user1, demo_claim_state)"
    by (auto simp: demo_distributor_def demo_user1_def)
  have "fst (GetClaimableAmountForAction demo_claim_env demo_user2 ACTION_FREE ''gaia'' False demo_claim_state) = Ok [(''ustrd'', 150)]"
    by code_simp
  with claims_do_not_interfere [OF t demo_claim_filed ne, of demo_user2 ACTION_FREE demo_claim_env False] t show ?thesis
    by (auto simp: demo_user1_def demo_user2_def)
qed

definition demo_due :: "address \<Rightarrow> coins" where
  "demo_due u = (if u = demo_user1 then [(''ustrd'', 250)] else [(''ustrd'', 750)])"

theorem airdrop_is_solvent_witness:
  "(\<Sum>u\<leftarrow>[demo_user1, demo_user2]. amt (demo_due u) ''ustrd'') \<le> pool_of demo_claim_state demo_airdrop demo_distributor + 6"
proof -
  have a: "find_airdrop demo_claim_state ''gaia'' = Some demo_airdrop" by code_simp
  have d: "sdk_AccAddressFromBech32 (ce_env demo_claim_env) (ad_DistributorAddress demo_airdrop) = Ok demo_distributor"
    by code_simp
  have run: "fst (GetUserTotalClaimable demo_claim_env demo_user1 ''gaia'' True demo_claim_state) = Ok [(''ustrd'', 250)]"
    "fst (GetUserTotalClaimable demo_claim_env demo_user2 ''gaia'' True demo_claim_state) = Ok [(''ustrd'', 750)]"
    by code_simp+
  have st: "snd (GetUserTotalClaimable demo_claim_env u ''gaia'' True demo_claim_state) = demo_claim_state" for u
    by (rule GetUserTotalClaimable_reads [OF prod.collapse [symmetric]])
  have ne: "demo_user2 \<noteq> demo_user1" by code_simp
  have tot: "GetUserTotalClaimable demo_claim_env u ''gaia'' True demo_claim_state = (Ok (demo_due u), demo_claim_state)"
    if "u = demo_user1 \<or> u = demo_user2" for u
    using that run st [of u] ne by (auto simp: demo_due_def prod_eq_iff)
  have w: "cr_Weight (GetClaimRecord demo_claim_state demo_user1 ''gaia'') = OneDec div 4"
    "cr_Weight (GetClaimRecord demo_claim_state demo_user2 ''gaia'') = 3 * OneDec div 4"
    "cr_Address (GetClaimRecord demo_claim_state demo_user1 ''gaia'') \<noteq> ''''"
    "cr_Address (GetClaimRecord demo_claim_state demo_user2 ''gaia'') \<noteq> ''''"
    "GetTotalWeight demo_claim_state ''gaia'' = OneDec" "pool_of demo_claim_state demo_airdrop demo_distributor = 1000"
    by code_simp+
  from airdrop_is_solvent [OF a d, where users = "[demo_user1, demo_user2]" and due = demo_due] tot w show ?thesis
    by (simp add: OneDec_def precisionReuse_def demo_airdrop_def)
qed

lemma demo_bech32: "bech32_ok demo_env"
  by (auto simp: bech32_ok_def sdk_AccAddressFromBech32_def demo_env_def is_space_def go_simps split: if_splits list.splits)

definition demo_allocations :: MsgSetAirdropAllocations where
  "demo_allocations = \<lparr>msa_Allocator = ''stride1'' @ demo_distributor, msa_AirdropIdentifier = ''gaia'',
     msa_Users = [''stride1'' @ demo_user1, ''stride1another_user_0000001''], msa_Weights = [OneDec, 2 * OneDec]\<rparr>"

theorem allocations_keep_weights_witness:
  "\<exists>t. SetAirdropAllocations demo_claim_env demo_allocations demo_claim_state = (Ok (), t)
     \<and> GetTotalWeight t ''gaia'' = record_weights (cl_records t) ''gaia'' \<and> GetTotalWeight t ''gaia'' = 3 * OneDec"
proof -
  have run: "fst (SetAirdropAllocations demo_claim_env demo_allocations demo_claim_state) = Ok ()"
    and w: "GetTotalWeight (snd (SetAirdropAllocations demo_claim_env demo_allocations demo_claim_state)) ''gaia'' = 3 * OneDec"
    by code_simp+
  obtain t where t: "SetAirdropAllocations demo_claim_env demo_allocations demo_claim_state = (Ok (), t)"
    using run by (metis prod.collapse)
  have books: "GetTotalWeight demo_claim_state i = record_weights (cl_records demo_claim_state) i" for i
    by (simp add: demo_claim_state_def GetTotalWeight_def kv_get_def record_weights_def kv_values_def weight_in_def
        demo_claim_record_def OneDec_def precisionReuse_def ZeroDec_def)
  have "distinct (map (ConvertAddressToStrideAddress (ce_env demo_claim_env)) (msa_Users demo_allocations))"
    "length (msa_Users demo_allocations) = length (msa_Weights demo_allocations)" by code_simp+
  moreover have "bech32_ok (ce_env demo_claim_env)" using demo_bech32 by (simp add: demo_claim_env_def)
  ultimately show ?thesis using allocations_keep_weights [OF t _ _ _ books] t w by auto
qed

text \<open>The same user twice in one message: the weight is counted twice, the record is filed once.\<close>

lemma duplicate_user_counts_twice:
  "let msg = demo_allocations\<lparr>msa_Users := [''stride1another_user_0000001'', ''stride1another_user_0000001'']\<rparr>;
       (r, t) = SetAirdropAllocations demo_claim_env msg demo_claim_state in
   r = Ok () \<and> MsgSetAirdropAllocations_ValidateBasic demo_claim_env msg = Ok () \<and>
   GetTotalWeight t ''gaia'' = 4 * OneDec \<and> record_weights (cl_records t) ''gaia'' = 3 * OneDec"
  by code_simp

theorem UpdateAirdropAddress_moves_witness:
  "(\<exists>t. UpdateAirdropAddress demo_claim_env (''stride1'' @ demo_user1) (''stride1'' @ demo_distributor) ''gaia'' demo_claim_state = (Ok (), t)
     \<and> cr_Weight (GetClaimRecord t demo_distributor ''gaia'') = OneDec div 4) \<and>
   (\<exists>t. UpdateAirdropAddress demo_claim_env (''stride1'' @ demo_user1) (''stride1'' @ demo_user1) ''gaia'' demo_claim_state = (Ok (), t)
     \<and> GetClaimRecord t demo_user1 ''gaia'' = no_record)"
proof -
  have a: "find_airdrop demo_claim_state ''gaia'' = Some demo_airdrop" by code_simp
  have u: "sdk_AccAddressFromBech32 (ce_env demo_claim_env) (''stride1'' @ demo_user1) = Ok demo_user1" by code_simp
  have d: "sdk_AccAddressFromBech32 (ce_env demo_claim_env) (''stride1'' @ demo_distributor) = Ok demo_distributor" by code_simp
  have w: "cr_Weight (GetClaimRecord demo_claim_state demo_user1 ''gaia'') = OneDec div 4" "demo_distributor \<noteq> demo_user1"
    by code_simp+
  show ?thesis
    using UpdateAirdropAddress_moves [OF a d u demo_claim_filed] UpdateAirdropAddress_moves [OF a u u demo_claim_filed] w by auto
qed

text \<open>A second airdrop \<open>gaia2\<close> loses its record when \<open>gaia\<close> ends.\<close>

definition two_airdrops :: claim_state where
  "two_airdrops = demo_claim_state\<lparr>cl_params := Some [demo_airdrop, demo_airdrop\<lparr>ad_AirdropIdentifier := ''gaia2''\<rparr>],
     cl_records := [(''gaia2'' @ demo_user1, (demo_claim_record demo_user1 OneDec)\<lparr>cr_AirdropIdentifier := ''gaia2''\<rparr>)],
     cl_weights := [(''gaia'', OneDec), (''gaia2'', OneDec)]\<rparr>"

theorem EndAirdrop_clears_extensions_witness:
  "\<exists>t. EndAirdrop demo_claim_env ''gaia'' two_airdrops = (Ok (), t) \<and>
     cr_Weight (GetClaimRecord two_airdrops demo_user1 ''gaia2'') = OneDec \<and>
     GetClaimRecord t demo_user1 ''gaia2'' = no_record \<and> GetTotalWeight t ''gaia2'' = OneDec"
proof -
  have "fst (EndAirdrop demo_claim_env ''gaia'' two_airdrops) = Ok ()" by code_simp
  then obtain t where t: "EndAirdrop demo_claim_env ''gaia'' two_airdrops = (Ok (), t)" by (metis prod.collapse)
  have w: "GetTotalWeight two_airdrops ''gaia2'' = OneDec" "cr_Weight (GetClaimRecord two_airdrops demo_user1 ''gaia2'') = OneDec"
    by code_simp+
  show ?thesis using EndAirdrop_clears_extensions [OF t, of demo_user1 "''2''"] t w by auto
qed

end
