(* ===== verification/Autopilot.thy ===== *)
theory Autopilot
  imports RateLimit Claim
begin

text \<open>
  \<open>x/autopilot\<close>: actions carried by the memo of an IBC transfer
  (\<open>module_ibc.go\<close>, \<open>keeper/liquidstake.go\<close>, \<open>keeper/airdrop.go\<close>,
  \<open>types/parser.go\<close>, \<open>types/params.go\<close>).

  The middleware sits above the transfer application. It reads the memo, or the receiver when there
  is none; a packet without autopilot data goes through unchanged. With it, the packet is passed
  down with the receiver named in the memo, and if the transfer succeeds the tokens are liquid
  staked (\<open>x/stakeibc\<close>) or the sender's airdrop claim is moved to a Stride address
  (\<open>x/claim\<close>).

  Here the components meet: the state is the one of stakeibc and the one of claim, over one bank;
  the hook liquid staking ends with is claim's. The wrapped application, the packet codec and the
  JSON decoding of the memo are parameters. \<open>core_RecvPacket\<close> is the part of the IBC core that
  drops the writes of a callback whose acknowledgement is an error.
\<close>

section \<open>Data\<close>

record StakeibcPacketMetadata =
  spm_Action :: string
  spm_StrideAddress :: string

record ClaimPacketMetadata =
  cpm_StrideAddress :: string

record RawAutopilot =
  ra_Receiver :: string
  ra_Stakeibc :: "StakeibcPacketMetadata option"
  ra_Claim :: "ClaimPacketMetadata option"

datatype ModuleRoutingInfo = StakeibcRoute StakeibcPacketMetadata | ClaimRoute ClaimPacketMetadata

record PacketForwardMetadata =
  pfm_Receiver :: string
  pfm_RoutingInfo :: ModuleRoutingInfo

record autopilot_Params =
  ap_StakeibcActive :: bool
  ap_ClaimActive :: bool

definition autopilot_DefaultParams :: autopilot_Params where
  "autopilot_DefaultParams = \<lparr>ap_StakeibcActive = False, ap_ClaimActive = True\<rparr>"

record TransferData = FungibleTokenPacketData +
  td_Sender :: string
  td_Receiver :: string
  td_Memo :: string

record world =
  w_chain :: chain
  w_claim :: claim_state
  w_autopilot :: autopilot_Params

text \<open>\<open>ae_UnmarshalMetadata\<close>: \<open>None\<close> for a memo that is not JSON of the expected shape,
  \<open>Some None\<close> for one without an \<open>autopilot\<close> field.\<close>

record autopilot_env =
  ae_ibc :: ibc_env
  ae_claim :: claim_env
  ae_UnmarshalData :: "string \<Rightarrow> TransferData res"
  ae_MarshalData :: "TransferData \<Rightarrow> string res"
  ae_UnmarshalMetadata :: "string \<Rightarrow> RawAutopilot option option"

abbreviation (input) ae_env :: "autopilot_env \<Rightarrow> env" where "ae_env ae \<equiv> ce_env (ae_claim ae)"

definition MaxMemoCharLength :: nat where "MaxMemoCharLength = 256"

definition transfer_PortID :: string where "transfer_PortID = ''transfer''"

definition on_chain :: "(chain, 'a) go \<Rightarrow> (world, 'a) go" where
  "on_chain m w = (case m (w_chain w) of (r, c) \<Rightarrow> (r, w\<lparr>w_chain := c\<rparr>))"

text \<open>The claim module works on the same bank.\<close>

definition on_claim :: "(claim_state, 'a) go \<Rightarrow> (world, 'a) go" where
  "on_claim m w =
     (case m ((w_claim w)\<lparr>cl_bank := c_bank (w_chain w)\<rparr>) of
        (r, s) \<Rightarrow> (r, w\<lparr>w_chain := (w_chain w)\<lparr>c_bank := cl_bank s\<rparr>, w_claim := s\<rparr>))"

section \<open>The memo\<close>

definition StakeibcPacketMetadata_Validate :: "env \<Rightarrow> StakeibcPacketMetadata \<Rightarrow> unit res" where
  "StakeibcPacketMetadata_Validate env m =
     rbind (sdk_AccAddressFromBech32 env (spm_StrideAddress m)) (\<lambda>_.
     if spm_Action m \<noteq> ''LiquidStake'' then Err (AutopilotErr ErrUnsupportedStakeibcAction) else Ok ())"

definition ClaimPacketMetadata_Validate :: "env \<Rightarrow> ClaimPacketMetadata \<Rightarrow> unit res" where
  "ClaimPacketMetadata_Validate env m =
     rbind (sdk_AccAddressFromBech32 env (cpm_StrideAddress m)) (\<lambda>_. Ok ())"

fun RoutingInfo_Validate :: "env \<Rightarrow> ModuleRoutingInfo \<Rightarrow> unit res" where
  "RoutingInfo_Validate env (StakeibcRoute m) = StakeibcPacketMetadata_Validate env m"
| "RoutingInfo_Validate env (ClaimRoute m) = ClaimPacketMetadata_Validate env m"

text \<open>The variables \<open>moduleCount\<close> and \<open>routingInfo\<close> after the two \<open>if\<close>s.\<close>

definition routes :: "RawAutopilot \<Rightarrow> nat \<times> ModuleRoutingInfo option" where
  "routes raw =
     (let r0 = (0, None);
          r1 = (case ra_Stakeibc raw of None \<Rightarrow> r0 | Some m \<Rightarrow> (fst r0 + 1, Some (StakeibcRoute m))) in
      case ra_Claim raw of None \<Rightarrow> r1 | Some m \<Rightarrow> (fst r1 + 1, Some (ClaimRoute m)))"

definition ParsePacketMetadata :: "autopilot_env \<Rightarrow> string \<Rightarrow> PacketForwardMetadata option res" where
  "ParsePacketMetadata ae metadata =
     (case ae_UnmarshalMetadata ae metadata of
        None \<Rightarrow> Ok None
      | Some None \<Rightarrow> Ok None
      | Some (Some raw) \<Rightarrow>
          if \<not> res_ok (sdk_AccAddressFromBech32 (ae_env ae) (ra_Receiver raw)) then Err (AutopilotErr ErrInvalidPacketMetadata)
          else
            (case routes raw of
               (moduleCount, routingInfo) \<Rightarrow>
                 if moduleCount \<noteq> 1 then Err (AutopilotErr ErrInvalidPacketMetadata)
                 else
                   (case routingInfo of
                      None \<Rightarrow> Panic
                    | Some info \<Rightarrow>
                        rbind (RoutingInfo_Validate (ae_env ae) info) (\<lambda>_.
                        Ok (Some \<lparr>pfm_Receiver = ra_Receiver raw, pfm_RoutingInfo = info\<rparr>)))))"

section \<open>The actions\<close>

definition RunLiquidStake :: "autopilot_env \<Rightarrow> address \<Rightarrow> denom \<times> int \<Rightarrow> (world, unit) go" where
  "RunLiquidStake ae addr token =
     (let msg = \<lparr>mls_Creator = e_EncodeBech32 (ae_env ae) ''stride'' addr, mls_Amount = snd token, mls_HostDenom = fst token\<rparr> in
      go_bind (go_lift (MsgLiquidStake_ValidateBasic (ae_env ae) msg)) (\<lambda>_.
      go_wrap (Sdk ErrInsufficientFunds)
        (go_bind (on_chain (LiquidStake (ae_env ae) (\<lambda>_ c. c) msg)) (\<lambda>_.
         go_bind (go_lift (sdk_AccAddressFromBech32 (ae_env ae) (mls_Creator msg))) (\<lambda>staker.
         on_claim (claim_AfterLiquidStake (ae_claim ae) staker))))))"

definition TryLiquidStaking :: "autopilot_env \<Rightarrow> Packet \<Rightarrow> TransferData \<Rightarrow> StakeibcPacketMetadata \<Rightarrow> (world, unit) go" where
  "TryLiquidStaking ae packet newData packetMetadata =
     go_bind (go_gets w_autopilot) (\<lambda>params.
     go_bind (go_guard (ap_StakeibcActive params) (AutopilotErr ErrPacketForwardingInactive)) (\<lambda>_.
     go_bind (go_guard (\<not> ReceiverChainIsSource (pkt_SourcePort packet) (pkt_SourceChannel packet) (pd_Denom newData)) Plain) (\<lambda>_.
     go_bind (go_found (NewIntFromString (ae_ibc ae) (pd_Amount newData)) Plain) (\<lambda>amount.
     go_bind (go_lift (NewCoin (pd_Denom newData) amount)) (\<lambda>token.
     let prefixedDenom = GetDenomPrefix (pkt_DestPort packet) (pkt_DestChannel packet) @ pd_Denom newData;
         ibcDenom = IBCDenom (ae_ibc ae) (ParseDenomTrace (ae_ibc ae) prefixedDenom) in
     go_bind (go_wrap Plain (\<lambda>w. (GetHostZoneFromHostDenom (w_chain w) (fst token), w))) (\<lambda>hostZone.
     go_bind (go_guard (hz_IbcDenom hostZone = ibcDenom) Plain) (\<lambda>_.
     go_bind (go_wrap (Sdk ErrInvalidAddress) (go_lift (sdk_AccAddressFromBech32 (ae_env ae) (spm_StrideAddress packetMetadata))))
       (\<lambda>strideAddress. RunLiquidStake ae strideAddress token))))))))"

definition TryUpdateAirdropClaim :: "autopilot_env \<Rightarrow> Packet \<Rightarrow> TransferData \<Rightarrow> ClaimPacketMetadata \<Rightarrow> (world, unit) go" where
  "TryUpdateAirdropClaim ae packet data packetMetadata =
     go_bind (go_gets w_autopilot) (\<lambda>params.
     go_bind (go_guard (ap_ClaimActive params) Plain) (\<lambda>_.
     go_bind (go_guard (pkt_DestPort packet = transfer_PortID) Plain) (\<lambda>_.
     go_bind (go_gets (\<lambda>w. GetHostZoneFromTransferChannelID (w_chain w) (pkt_DestChannel packet))) (\<lambda>found.
     go_bind (go_found found (StakeIBCErr ErrHostZoneNotFound)) (\<lambda>hostZone.
     let senderStrideAddress = ConvertAddressToStrideAddress (ae_env ae) (td_Sender data) in
     go_bind (go_guard (senderStrideAddress \<noteq> '''') (Sdk ErrInvalidAddress)) (\<lambda>_.
     go_bind (on_claim (GetAirdropByChainId (hz_ChainId hostZone))) (\<lambda>found.
     go_bind (go_found found (ClaimErr ErrAirdropNotFound)) (\<lambda>airdrop.
     go_bind (go_guard (ad_AutopilotEnabled airdrop) Plain) (\<lambda>_.
     on_claim (UpdateAirdropAddress (ae_claim ae) senderStrideAddress (cpm_StrideAddress packetMetadata)
       (ad_AirdropIdentifier airdrop)))))))))))"

section \<open>The middleware\<close>

fun ack_Success :: "Acknowledgement \<Rightarrow> bool" where
  "ack_Success (ErrorAck _) = False"
| "ack_Success (AppAck _) = True"

text \<open>An error of an action is the acknowledgement, its absence the one of the transfer.\<close>

definition ack_of :: "Acknowledgement \<Rightarrow> (world, unit) go \<Rightarrow> (world, Acknowledgement) go" where
  "ack_of ack m = go_bind (go_try m) (\<lambda>r. case r of Err e \<Rightarrow> go_ret (ErrorAck e) | _ \<Rightarrow> go_ret ack)"

definition route_packet ::
  "autopilot_env \<Rightarrow> Packet \<Rightarrow> TransferData \<Rightarrow> ModuleRoutingInfo \<Rightarrow> Acknowledgement \<Rightarrow> (world, Acknowledgement) go" where
  "route_packet ae packet newData info ack =
     go_bind (go_gets w_autopilot) (\<lambda>autopilotParams.
     case info of
       StakeibcRoute routingInfo \<Rightarrow>
         if \<not> ap_StakeibcActive autopilotParams then go_ret (ErrorAck (AutopilotErr ErrPacketForwardingInactive))
         else ack_of ack (TryLiquidStaking ae packet newData routingInfo)
     | ClaimRoute routingInfo \<Rightarrow>
         if \<not> ap_ClaimActive autopilotParams then go_ret (ErrorAck (AutopilotErr ErrPacketForwardingInactive))
         else ack_of ack (TryUpdateAirdropClaim ae packet newData routingInfo))"

definition forward_packet ::
  "autopilot_env \<Rightarrow> (Packet \<Rightarrow> (world, Acknowledgement) go) \<Rightarrow> Packet \<Rightarrow> TransferData \<Rightarrow> PacketForwardMetadata \<Rightarrow>
   (world, Acknowledgement) go" where
  "forward_packet ae app packet data packetForwardMetadata =
     (let newData = data\<lparr>td_Receiver := pfm_Receiver packetForwardMetadata\<rparr> in
      case ae_MarshalData ae newData of
        Err e \<Rightarrow> go_ret (ErrorAck e)
      | Panic \<Rightarrow> go_panic
      | Ok bz \<Rightarrow>
          go_bind (app (packet\<lparr>pkt_Data := bz\<rparr>)) (\<lambda>ack.
          if \<not> ack_Success ack then go_ret ack
          else route_packet ae packet newData (pfm_RoutingInfo packetForwardMetadata) ack))"

definition autopilot_OnRecvPacket ::
  "autopilot_env \<Rightarrow> (Packet \<Rightarrow> (world, Acknowledgement) go) \<Rightarrow> Packet \<Rightarrow> (world, Acknowledgement) go" where
  "autopilot_OnRecvPacket ae app packet =
     (case ae_UnmarshalData ae (pkt_Data packet) of
        Err e \<Rightarrow> go_ret (ErrorAck e)
      | Panic \<Rightarrow> go_panic
      | Ok data \<Rightarrow>
          if length (td_Memo data) > MaxMemoCharLength then go_ret (ErrorAck (AutopilotErr ErrInvalidMemoSize))
          else if length (td_Receiver data) > MaxMemoCharLength then go_ret (ErrorAck (AutopilotErr ErrInvalidMemoSize))
          else
            let metadata = (if td_Memo data \<noteq> '''' then td_Memo data else td_Receiver data) in
            if res_ok (sdk_AccAddressFromBech32 (ae_env ae) (td_Receiver data)) \<and> td_Memo data = '''' then app packet
            else
              (case ParsePacketMetadata ae metadata of
                 Err e \<Rightarrow> go_ret (ErrorAck e)
               | Panic \<Rightarrow> go_panic
               | Ok None \<Rightarrow> app packet
               | Ok (Some packetForwardMetadata) \<Rightarrow> forward_packet ae app packet data packetForwardMetadata))"

definition core_RecvPacket :: "(Packet \<Rightarrow> ('s, Acknowledgement) go) \<Rightarrow> Packet \<Rightarrow> ('s, Acknowledgement) go" where
  "core_RecvPacket cbs packet s =
     (case cbs packet s of
        (Ok ack, t) \<Rightarrow> if ack_Success ack then (Ok ack, t) else (Ok ack, s)
      | (r, _) \<Rightarrow> (r, s))"

section \<open>Parameters and genesis\<close>

definition autopilot_GetParams :: "world \<Rightarrow> autopilot_Params" where
  "autopilot_GetParams w = w_autopilot w"

definition autopilot_SetParams :: "autopilot_Params \<Rightarrow> world \<Rightarrow> world" where
  "autopilot_SetParams params w = w\<lparr>w_autopilot := params\<rparr>"

definition autopilot_InitGenesis :: "autopilot_Params \<Rightarrow> world \<Rightarrow> world" where
  "autopilot_InitGenesis genState w = autopilot_SetParams genState w"

definition autopilot_ExportGenesis :: "world \<Rightarrow> autopilot_Params" where
  "autopilot_ExportGenesis w = autopilot_GetParams w"

section \<open>What the memo can say\<close>

text \<open>Property C26. The memo parser accepts exactly the well-formed memos. Routing information comes out
  only of a memo with an autopilot field, a receiver that is an account address of the chain, one
  and only one module, a Stride address that is one too, and, for liquid staking, the one action
  there is; the result is that receiver and that module. A memo that cannot be read or has no
  autopilot field gives nothing, and every other memo is an error.
\<close>

theorem ParsePacketMetadata_accepts:
  "ParsePacketMetadata ae metadata = Ok (Some md) \<longleftrightarrow>
     (\<exists>raw. ae_UnmarshalMetadata ae metadata = Some (Some raw) \<and> pfm_Receiver md = ra_Receiver raw
       \<and> res_ok (sdk_AccAddressFromBech32 (ae_env ae) (ra_Receiver raw))
       \<and> (case pfm_RoutingInfo md of
            StakeibcRoute m \<Rightarrow> ra_Stakeibc raw = Some m \<and> ra_Claim raw = None \<and> spm_Action m = ''LiquidStake''
              \<and> res_ok (sdk_AccAddressFromBech32 (ae_env ae) (spm_StrideAddress m))
          | ClaimRoute m \<Rightarrow> ra_Claim raw = Some m \<and> ra_Stakeibc raw = None
              \<and> res_ok (sdk_AccAddressFromBech32 (ae_env ae) (cpm_StrideAddress m))))"
  by (cases md) (auto simp: ParsePacketMetadata_def routes_def Let_def StakeibcPacketMetadata_Validate_def
      ClaimPacketMetadata_Validate_def go_simps res_ok_iff split: option.splits if_splits ModuleRoutingInfo.splits)

text \<open>Ordinary transfers are left alone. A packet whose memo and receiver are not too long
  and that has no memo and an account address as receiver, or a memo or receiver without autopilot
  data, is handed to the next application as it is, and the answer handed back.
\<close>

theorem plain_packets_pass_through:
  assumes "ae_UnmarshalData ae (pkt_Data packet) = Ok data"
    and "length (td_Memo data) \<le> 256" "length (td_Receiver data) \<le> 256"
    and "td_Memo data = '''' \<and> res_ok (sdk_AccAddressFromBech32 (ae_env ae) (td_Receiver data)) \<or>
      (\<forall>raw. ae_UnmarshalMetadata ae (if td_Memo data = '''' then td_Receiver data else td_Memo data) \<noteq> Some (Some raw))"
  shows "autopilot_OnRecvPacket ae app packet = app packet"
proof -
  define m where "m = (if td_Memo data = '''' then td_Receiver data else td_Memo data)"
  have m: "(if td_Memo data \<noteq> '''' then td_Memo data else td_Receiver data) = m" by (simp add: m_def)
  have "ParsePacketMetadata ae m = Ok None"
    if "\<not> (td_Memo data = '''' \<and> res_ok (sdk_AccAddressFromBech32 (ae_env ae) (td_Receiver data)))"
    using that assms(4) unfolding m_def [symmetric] by (auto simp: ParsePacketMetadata_def split: option.splits)
  with assms(1-3) show ?thesis by (auto simp: autopilot_OnRecvPacket_def MaxMemoCharLength_def Let_def m)
qed

section \<open>What a forwarded packet does\<close>

lemma on_chain_eq [go_simps]: "on_chain m w = (r, w') \<longleftrightarrow> (\<exists>c. m (w_chain w) = (r, c) \<and> w' = w\<lparr>w_chain := c\<rparr>)"
  by (auto simp: on_chain_def split: prod.splits)

lemma ack_of_Success:
  "ack_of ack m w = (Ok (AppAck a), t) \<Longrightarrow> ack_Success ack \<Longrightarrow> m w = (Ok (), t) \<and> ack = AppAck a"
  by (cases "m w"; cases "fst (m w)") (auto simp: ack_of_def go_bind_def go_try_def go_ret_def)

lemma core_RecvPacket_cases:
  assumes "core_RecvPacket cbs packet s = (Ok ack, t)"
  shows "ack_Success ack \<and> cbs packet s = (Ok ack, t) \<or> \<not> ack_Success ack \<and> t = s"
  using assms by (auto simp: core_RecvPacket_def split: prod.splits res.splits if_splits)

text \<open>What a liquid stake takes from the staker and gives to him, in the bank.\<close>

lemma LiquidStake_pays:
  assumes "LiquidStake env (\<lambda>_ c. c) msg c = (Ok u, t)" "bank_ok (e_bank env) (c_bank c)"
  shows "\<exists>z user zaddr st. GetHostZoneFromHostDenom c (mls_HostDenom msg) = Ok z \<and>
    sdk_AccAddressFromBech32 env (mls_Creator msg) = Ok user \<and> sdk_AccAddressFromBech32 env (hz_Address z) = Ok zaddr \<and>
    mls_Amount msg \<le> bk_balance (c_bank c) user (hz_IbcDenom z) \<and>
    (\<forall>a d. bk_balance (c_bank t) a d = bk_balance (c_bank c) a d +
      (if a = zaddr \<and> d = hz_IbcDenom z then mls_Amount msg else 0) -
      (if a = user \<and> d = hz_IbcDenom z then mls_Amount msg else 0) +
      (if a = user \<and> d = ''st'' @ mls_HostDenom msg then st else 0))"
proof -
  from assms(1) obtain z user zaddr tr dep q coins stCoins b1 b2 b3 where
    r: "GetHostZoneFromHostDenom c (mls_HostDenom msg) = Ok z" "sdk_AccAddressFromBech32 env (mls_Creator msg) = Ok user"
      "sdk_AccAddressFromBech32 env (hz_Address z) = Ok zaddr" "mls_Amount msg \<le> bk_balance (c_bank c) user (hz_IbcDenom z)"
    and send: "NewCoins [(hz_IbcDenom z, mls_Amount msg)] = Ok coins"
      "SendCoins (e_bank env) user zaddr coins (c_bank c) = (Ok (), b1)"
    and mint: "NewCoins [(StAssetDenomFromHostZoneDenom (mls_HostDenom msg), chopPrecisionAndTruncate q)] = Ok stCoins"
      "MintCoins (e_bank env) ''stakeibc'' stCoins b1 = (Ok (), b2)"
      "SendCoinsFromModuleToAccount (e_bank env) ''stakeibc'' user stCoins b2 = (Ok (), b3)"
    and t: "t = mod_records (SetDepositRecord (dep\<lparr>dr_Amount := dr_Amount dep + mls_Amount msg\<rparr>)) (c\<lparr>c_bank := b3\<rparr>)"
    by (rule LiquidStake_Ok) blast
  note locked = bank_ok_locked [OF assms(2)]
  have "bk_balance b1 a d = bk_balance (bank_move user zaddr (hz_IbcDenom z) (mls_Amount msg) (c_bank c)) a d" for a d
    using SendCoins_Ok(1) [OF send(2,1) locked] by simp
  with mint_to_account_Ok [OF mint(2,3,1) locked] r t show ?thesis
    by (intro exI [of _ z] exI [of _ user] exI [of _ zaddr] exI [of _ "chopPrecisionAndTruncate q"])
      (auto simp: bk_balance_move StAssetDenomFromHostZoneDenom_def mod_records_def)
qed

lemma TryLiquidStaking_Ok:
  assumes "TryLiquidStaking ae packet newData ri w = (Ok u, t)"
  shows "\<exists>amount addr c. NewIntFromString (ae_ibc ae) (pd_Amount newData) = Some amount \<and> 0 < amount \<and>
    sdk_AccAddressFromBech32 (ae_env ae) (spm_StrideAddress ri) = Ok addr \<and>
    LiquidStake (ae_env ae) (\<lambda>_ c. c) \<lparr>mls_Creator = e_EncodeBech32 (ae_env ae) ''stride'' addr, mls_Amount = amount,
      mls_HostDenom = pd_Denom newData\<rparr> (w_chain w) = (Ok (), c) \<and>
    (\<exists>staker. sdk_AccAddressFromBech32 (ae_env ae) (e_EncodeBech32 (ae_env ae) ''stride'' addr) = Ok staker \<and>
       on_claim (claim_AfterLiquidStake (ae_claim ae) staker) (w\<lparr>w_chain := c\<rparr>) = (Ok (), t))"
proof -
  obtain amount token addr where amount: "NewIntFromString (ae_ibc ae) (pd_Amount newData) = Some amount"
    and token: "NewCoin (pd_Denom newData) amount = Ok token"
    and addr: "sdk_AccAddressFromBech32 (ae_env ae) (spm_StrideAddress ri) = Ok addr"
    and run: "RunLiquidStake ae addr token w = (Ok (), t)"
    using assms
    by (auto simp: TryLiquidStaking_def go_bind_eq_Ok go_gets_eq branch_Ok(5) go_found_eq go_lift_eq go_wrap_eq_Ok Let_def
        split: option.splits)
  have "token = (pd_Denom newData, amount)" using token by (simp add: NewCoin_Ok)
  with run amount addr show ?thesis
    by (auto simp: RunLiquidStake_def Let_def go_bind_eq_Ok go_lift_eq go_wrap_eq_Ok on_chain_eq
        MsgLiquidStake_ValidateBasic_def split: res.splits if_splits)
qed

text \<open>A packet that asks for liquid staking and is answered with success was transferred to
  the receiver in the memo, and then liquid staked in the name of the other address in the memo, the
  Stride address: the tokens are taken from the account of that address, whether or not it is the
  receiver who got the transferred ones, and the liquid tokens go to it. A packet answered with an
  error leaves the whole state as it was.
\<close>

theorem autopilot_stakes_for_stride_address:
  assumes "core_RecvPacket (autopilot_OnRecvPacket ae app) packet w = (Ok ack, t)"
    and "ae_UnmarshalData ae (pkt_Data packet) = Ok data" "td_Memo data \<noteq> ''''"
    and "ParsePacketMetadata ae (td_Memo data) = Ok (Some \<lparr>pfm_Receiver = receiver, pfm_RoutingInfo = StakeibcRoute ri\<rparr>)"
    and "\<And>p. bank_ok (e_bank (ae_env ae)) (c_bank (w_chain (snd (app p w))))"
    and "bech32_ok (ae_env ae)"
  shows "case ack of
    ErrorAck e \<Rightarrow> t = w
  | AppAck a \<Rightarrow> \<exists>bz w1 amount staker z zaddr st c.
      ae_MarshalData ae (data\<lparr>td_Receiver := receiver\<rparr>) = Ok bz \<and> app (packet\<lparr>pkt_Data := bz\<rparr>) w = (Ok (AppAck a), w1) \<and>
      NewIntFromString (ae_ibc ae) (pd_Amount data) = Some amount \<and> 0 < amount \<and>
      sdk_AccAddressFromBech32 (ae_env ae) (spm_StrideAddress ri) = Ok staker \<and>
      GetHostZoneFromHostDenom (w_chain w1) (pd_Denom data) = Ok z \<and>
      sdk_AccAddressFromBech32 (ae_env ae) (hz_Address z) = Ok zaddr \<and>
      amount \<le> bk_balance (c_bank (w_chain w1)) staker (hz_IbcDenom z) \<and>
      (\<forall>u d. bk_balance (c_bank c) u d = bk_balance (c_bank (w_chain w1)) u d +
        (if u = zaddr \<and> d = hz_IbcDenom z then amount else 0) - (if u = staker \<and> d = hz_IbcDenom z then amount else 0) +
        (if u = staker \<and> d = ''st'' @ pd_Denom data then st else 0)) \<and>
      on_claim (claim_AfterLiquidStake (ae_claim ae) staker) (w1\<lparr>w_chain := c\<rparr>) = (Ok (), t)"
proof (cases ack)
  case (ErrorAck e)
  with core_RecvPacket_cases [OF assms(1)] show ?thesis by simp
next
  case (AppAck a)
  let ?d = "data\<lparr>td_Receiver := receiver\<rparr>"
  let ?md = "\<lparr>pfm_Receiver = receiver, pfm_RoutingInfo = StakeibcRoute ri\<rparr>"
  have "autopilot_OnRecvPacket ae app packet w = (Ok (AppAck a), t)"
    using core_RecvPacket_cases [OF assms(1)] AppAck by simp
  then have fwd: "forward_packet ae app packet data ?md w = (Ok (AppAck a), t)"
    using assms(2-4) by (auto simp: autopilot_OnRecvPacket_def Let_def go_ret_def split: if_splits)
  obtain bz ack1 w1 where bz: "ae_MarshalData ae ?d = Ok bz" and app: "app (packet\<lparr>pkt_Data := bz\<rparr>) w = (Ok ack1, w1)"
    and ok: "ack_Success ack1" and route: "route_packet ae packet ?d (StakeibcRoute ri) ack1 w1 = (Ok (AppAck a), t)"
    using fwd by (auto simp: forward_packet_def Let_def go_bind_eq_Ok go_ret_eq go_panic_eq split: res.splits if_splits)
  have "ack_of ack1 (TryLiquidStaking ae packet ?d ri) w1 = (Ok (AppAck a), t)"
    using route by (auto simp: route_packet_def go_bind_eq_Ok go_gets_eq go_ret_eq split: if_splits)
  from ack_of_Success [OF this ok] have ack1: "ack1 = AppAck a" and run: "TryLiquidStaking ae packet ?d ri w1 = (Ok (), t)"
    by auto
  obtain amount addr c staker where amount: "NewIntFromString (ae_ibc ae) (pd_Amount data) = Some amount" "0 < amount"
    and addr: "sdk_AccAddressFromBech32 (ae_env ae) (spm_StrideAddress ri) = Ok addr"
    and stake: "LiquidStake (ae_env ae) (\<lambda>_ c. c) \<lparr>mls_Creator = e_EncodeBech32 (ae_env ae) ''stride'' addr,
      mls_Amount = amount, mls_HostDenom = pd_Denom data\<rparr> (w_chain w1) = (Ok (), c)"
    and staker: "sdk_AccAddressFromBech32 (ae_env ae) (e_EncodeBech32 (ae_env ae) ''stride'' addr) = Ok staker"
      "on_claim (claim_AfterLiquidStake (ae_claim ae) staker) (w1\<lparr>w_chain := c\<rparr>) = (Ok (), t)"
    using TryLiquidStaking_Ok [OF run] by auto
  have eq: "staker = addr" using staker(1) addr assms(6) by (auto simp: bech32_ok_def)
  have "bank_ok (e_bank (ae_env ae)) (c_bank (w_chain w1))"
    using assms(5) [of "packet\<lparr>pkt_Data := bz\<rparr>"] app by simp
  note pays = LiquidStake_pays [OF stake this]
  obtain z user zaddr st where z: "GetHostZoneFromHostDenom (w_chain w1) (pd_Denom data) = Ok z"
    and user: "sdk_AccAddressFromBech32 (ae_env ae) (e_EncodeBech32 (ae_env ae) ''stride'' addr) = Ok user"
    and zaddr: "sdk_AccAddressFromBech32 (ae_env ae) (hz_Address z) = Ok zaddr"
    and funds: "amount \<le> bk_balance (c_bank (w_chain w1)) user (hz_IbcDenom z)"
    and bal: "\<forall>u d. bk_balance (c_bank c) u d = bk_balance (c_bank (w_chain w1)) u d +
        (if u = zaddr \<and> d = hz_IbcDenom z then amount else 0) - (if u = user \<and> d = hz_IbcDenom z then amount else 0) +
        (if u = user \<and> d = ''st'' @ pd_Denom data then st else 0)"
    using pays by (simp only: MsgLiquidStake.simps) blast
  have "user = addr" using user staker(1) eq by simp
  with staker(2) z zaddr funds bal amount addr bz app ack1 AppAck eq show ?thesis
    by (simp only: Acknowledgement.case) blast
qed

section \<open>A packet on the small instance\<close>

definition demo_world :: world where
  "demo_world = \<lparr>w_chain = staking_chain, w_claim = demo_claim_state,
     w_autopilot = \<lparr>ap_StakeibcActive = True, ap_ClaimActive = True\<rparr>\<rparr>"

definition demo_memo :: RawAutopilot where
  "demo_memo = \<lparr>ra_Receiver = ''stride1bbbbbbbbbbbbbbbbbbbb'',
     ra_Stakeibc = Some \<lparr>spm_Action = ''LiquidStake'', spm_StrideAddress = demo_user\<rparr>, ra_Claim = None\<rparr>"

definition demo_transfer :: "string \<Rightarrow> TransferData" where
  "demo_transfer memo = \<lparr>pd_Denom = ''uatom'', pd_Amount = ''300'', td_Sender = ''cosmos1cccccccccccccccccccc'',
     td_Receiver = ''stride1bbbbbbbbbbbbbbbbbbbb'', td_Memo = memo\<rparr>"

definition demo_autopilot_env :: autopilot_env where
  "demo_autopilot_env = \<lparr>ae_ibc = \<lparr>ParseDenomTrace = (\<lambda>d. \<lparr>trace_Path = ''transfer/channel-0'', trace_BaseDenom = ''uatom''\<rparr>),
       IBCDenom = (\<lambda>_. ''ibc/atom''), UnmarshalPacketData = (\<lambda>_. Err Plain), NewIntFromString = (\<lambda>_. Some 300)\<rparr>,
     ae_claim = demo_claim_env, ae_UnmarshalData = (\<lambda>bz. Ok (demo_transfer bz)), ae_MarshalData = (\<lambda>d. Ok (td_Memo d)),
     ae_UnmarshalMetadata = (\<lambda>m. if m = ''stake'' then Some (Some demo_memo) else None)\<rparr>"

definition demo_packet :: "string \<Rightarrow> Packet" where
  "demo_packet memo = \<lparr>pkt_SourcePort = ''transfer'', pkt_SourceChannel = ''channel-5'', pkt_DestPort = ''transfer'',
     pkt_DestChannel = ''channel-0'', pkt_Data = memo\<rparr>"

text \<open>A transfer application that gives the receiver his 300 vouchers.\<close>

definition demo_transfer_app :: "Packet \<Rightarrow> (world, Acknowledgement) go" where
  "demo_transfer_app p w = (Ok (AppAck ''ok''), w\<lparr>w_chain := (w_chain w)\<lparr>c_bank :=
     \<lparr>bk_balance = (\<lambda>a d. bk_balance (c_bank (w_chain w)) a d +
        (if a = ''bbbbbbbbbbbbbbbbbbbb'' \<and> d = ''ibc/atom'' then 300 else 0)), bk_supply = bk_supply (c_bank (w_chain w))\<rparr>\<rparr>\<rparr>)"

theorem plain_packets_pass_through_witness:
  "autopilot_OnRecvPacket demo_autopilot_env demo_transfer_app (demo_packet ''hello'') = demo_transfer_app (demo_packet ''hello'')"
  by (rule plain_packets_pass_through [where data = "demo_transfer ''hello''"])
    (simp_all add: demo_autopilot_env_def demo_packet_def demo_transfer_def)

lemma demo_packet_run:
  "fst (core_RecvPacket (autopilot_OnRecvPacket demo_autopilot_env demo_transfer_app) (demo_packet ''stake'') demo_world)
     = Ok (AppAck ''ok'')"
  by code_simp

lemma demo_packet_parses:
  "ParsePacketMetadata demo_autopilot_env ''stake'' = Ok (Some \<lparr>pfm_Receiver = ''stride1bbbbbbbbbbbbbbbbbbbb'',
     pfm_RoutingInfo = StakeibcRoute \<lparr>spm_Action = ''LiquidStake'', spm_StrideAddress = demo_user\<rparr>\<rparr>)"
  by code_simp

theorem autopilot_stakes_for_stride_address_witness:
  "\<exists>t c. core_RecvPacket (autopilot_OnRecvPacket demo_autopilot_env demo_transfer_app) (demo_packet ''stake'') demo_world
       = (Ok (AppAck ''ok''), t) \<and>
     bk_balance (c_bank c) ''bbbbbbbbbbbbbbbbbbbb'' ''ibc/atom'' = 300 \<and>
     bk_balance (c_bank c) ''aaaaaaaaaaaaaaaaaaaa'' ''ibc/atom'' = 700 \<and>
     on_claim (claim_AfterLiquidStake demo_claim_env ''aaaaaaaaaaaaaaaaaaaa'')
       ((snd (demo_transfer_app (demo_packet ''stake'') demo_world))\<lparr>w_chain := c\<rparr>) = (Ok (), t)"
proof -
  obtain t where t: "core_RecvPacket (autopilot_OnRecvPacket demo_autopilot_env demo_transfer_app) (demo_packet ''stake'') demo_world
       = (Ok (AppAck ''ok''), t)"
    using demo_packet_run by (metis prod.collapse)
  have env [simp]: "ae_claim demo_autopilot_env = demo_claim_env" "ce_env demo_claim_env = ChainState.demo_env"
    by (simp_all add: demo_autopilot_env_def demo_claim_env_def)
  have data: "ae_UnmarshalData demo_autopilot_env (pkt_Data (demo_packet ''stake'')) = Ok (demo_transfer ''stake'')"
      "td_Memo (demo_transfer ''stake'') = ''stake''" "pd_Denom (demo_transfer ''stake'') = ''uatom''"
      "\<And>d. ae_MarshalData demo_autopilot_env d = Ok (td_Memo d)" "\<And>x. NewIntFromString (ae_ibc demo_autopilot_env) x = Some 300"
    by (simp_all add: demo_autopilot_env_def demo_packet_def demo_transfer_def)
  have bank: "bank_ok (e_bank ChainState.demo_env) (c_bank (w_chain (snd (demo_transfer_app p demo_world))))" for p
    using staking_bank_ok by (auto simp: demo_transfer_app_def demo_world_def bank_ok_def)
  define w1 where "w1 = snd (demo_transfer_app (demo_packet ''stake'') demo_world)"
  have app: "demo_transfer_app p demo_world = (Ok (AppAck ''ok''), w1)" for p
    by (simp add: demo_transfer_app_def w1_def)
  have w1: "GetHostZoneFromHostDenom (w_chain w1) ''uatom'' = Ok (demo_zone [demo_validator ''v1'' 1 500])"
      "bk_balance (c_bank (w_chain w1)) ''aaaaaaaaaaaaaaaaaaaa'' ''ibc/atom'' = 1000"
      "bk_balance (c_bank (w_chain w1)) ''bbbbbbbbbbbbbbbbbbbb'' ''ibc/atom'' = 300"
    using staking_chain_simps(2)
    by (simp_all add: w1_def demo_transfer_app_def demo_world_def staking_bank GetHostZoneFromHostDenom_def last_match_def
        GetAllHostZone_def)
  note result = autopilot_stakes_for_stride_address [OF t data(1), unfolded data(2), OF _ demo_packet_parses, unfolded env,
      OF _ bank demo_bech32]
  obtain c st where
    "\<forall>u d. bk_balance (c_bank c) u d = bk_balance (c_bank (w_chain w1)) u d +
        (if u = ''zzzzzzzzzzzzzzzzzzzz'' \<and> d = ''ibc/atom'' then 300 else 0) -
        (if u = ''aaaaaaaaaaaaaaaaaaaa'' \<and> d = ''ibc/atom'' then 300 else 0) +
        (if u = ''aaaaaaaaaaaaaaaaaaaa'' \<and> d = ''stuatom'' then st else 0)"
    and "on_claim (claim_AfterLiquidStake demo_claim_env ''aaaaaaaaaaaaaaaaaaaa'') (w1\<lparr>w_chain := c\<rparr>) = (Ok (), t)"
    using result by (simp add: data app w1 demo_addresses cong: if_cong) blast
  with t w1 show ?thesis unfolding w1_def [symmetric] by (intro exI [of _ t] exI [of _ c]) simp
qed

end
