(* ===== verification/ArchwaySdk.thy ===== *)
theory ArchwaySdk
  imports Coins "HOL-Library.Product_Lexorder"
begin

text \<open>
  What the Archway modules (\<open>deps/archway-main/x\<close>) share: the parameters of their model, and
  the parts of their SDK (version 0.45, vendored beside them) that differ from the one of the
  staking chain. \<open>Coins.Add\<close> is a merge of two sorted lists there; \<open>Coins_Add45_amt\<close> shows
  that it computes the same sums. \<open>SplitCoins\<close> (\<open>pkg/coins.go\<close>) is proved to lose nothing.
\<close>

section \<open>Parameters\<close>

record ContractInfo =
  ci_Creator :: string
  ci_Admin :: string

text \<open>The bech32 codec, the module accounts, the contracts of \<open>x/wasm\<close>, the gas multiplier of its
  register and the context of the block: its height, its time in nanoseconds since the epoch and
  the limit of its gas meter.\<close>

record arch_env =
  ae_DecodeBech32 :: "string \<Rightarrow> (string \<times> address) option"
  ae_EncodeBech32 :: "string \<Rightarrow> address \<Rightarrow> string"
  ae_bank :: bank_env
  ae_GetContractInfo :: "address \<Rightarrow> ContractInfo option"
  ae_GasMultiplier :: uint64
  ae_blockHeight :: int
  ae_blockTime :: int
  ae_blockGasLimit :: uint64

definition Bech32Prefix :: string where "Bech32Prefix = ''archway''"

definition arch_VerifyAddressFormat :: "address \<Rightarrow> bool" where
  "arch_VerifyAddressFormat bz \<longleftrightarrow> bz \<noteq> [] \<and> length bz \<le> 255"

definition arch_AccAddressFromBech32 :: "arch_env \<Rightarrow> string \<Rightarrow> address res" where
  "arch_AccAddressFromBech32 env addr =
     (if list_all is_space addr then Err Plain
      else case ae_DecodeBech32 env addr of
        None \<Rightarrow> Err Plain
      | Some (hrp, bz) \<Rightarrow>
          if hrp \<noteq> Bech32Prefix then Err Plain
          else if \<not> arch_VerifyAddressFormat bz then Err (Sdk ErrUnknownAddress) else Ok bz)"

definition AccAddress_String :: "arch_env \<Rightarrow> address \<Rightarrow> string" where
  "AccAddress_String env aa = (if aa = [] then '''' else ae_EncodeBech32 env Bech32Prefix aa)"

text \<open>\<open>panic(fmt.Errorf(...))\<close> on a parsing error.\<close>

definition res_must :: "'a res \<Rightarrow> 'a res" where
  "res_must r = (case r of Err _ \<Rightarrow> Panic | _ \<Rightarrow> r)"

lemma res_must_eq [go_simps]: "res_must r = Ok x \<longleftrightarrow> r = Ok x" "res_must r \<noteq> Err e"
  by (cases r; simp add: res_must_def)+

text \<open>What the code relies on of the codec: an encoded address is decoded to itself.\<close>

definition arch_bech32_ok :: "arch_env \<Rightarrow> bool" where
  "arch_bech32_ok env \<longleftrightarrow> (\<forall>bz. arch_VerifyAddressFormat bz \<longrightarrow>
     arch_AccAddressFromBech32 env (AccAddress_String env bz) = Ok bz)"

section \<open>Coins\<close>

definition removeZeroCoins :: "coins \<Rightarrow> coins" where
  "removeZeroCoins cs = filter (\<lambda>c. snd c \<noteq> 0) cs"

definition Coin_Add :: "denom \<times> int \<Rightarrow> denom \<times> int \<Rightarrow> (denom \<times> int) res" where
  "Coin_Add coin coinB =
     (if fst coin \<noteq> fst coinB then Panic
      else rbind (Int_Add (snd coin) (snd coinB)) (\<lambda>x. Ok (fst coin, x)))"

definition Coin_Sub :: "denom \<times> int \<Rightarrow> denom \<times> int \<Rightarrow> (denom \<times> int) res" where
  "Coin_Sub coin coinB =
     (if fst coin \<noteq> fst coinB then Panic
      else rbind (Int_Sub (snd coin) (snd coinB)) (\<lambda>x. if x < 0 then Panic else Ok (fst coin, x)))"

fun merge_coins :: "coins \<Rightarrow> coins \<Rightarrow> coins res" where
  "merge_coins [] bs = Ok (removeZeroCoins bs)"
| "merge_coins (a # as) [] = Ok (removeZeroCoins (a # as))"
| "merge_coins (a # as) (b # bs) =
     (if fst a < fst b then rbind (merge_coins as (b # bs)) (\<lambda>sum. Ok (removeZeroCoins [a] @ sum))
      else if fst a = fst b then
        rbind (Coin_Add a b) (\<lambda>c. rbind (merge_coins as bs) (\<lambda>sum. Ok (removeZeroCoins [c] @ sum)))
      else rbind (merge_coins (a # as) bs) (\<lambda>sum. Ok (removeZeroCoins [b] @ sum)))"

definition Coins_Add45 :: "coins \<Rightarrow> coins \<Rightarrow> coins res" where
  "Coins_Add45 coins coinsB =
     (if \<not> sorted (map fst coins) \<or> \<not> sorted (map fst coinsB) then Panic else merge_coins coins coinsB)"

definition Coins_Sub45 :: "coins \<Rightarrow> coins \<Rightarrow> coins res" where
  "Coins_Sub45 coins coinsB =
     rbind (Coins_Add45 coins (Coins_negative coinsB)) (\<lambda>diff.
     if list_ex (\<lambda>c. snd c < 0) diff then Panic else Ok diff)"

definition NewDecFromUint64 :: "uint64 \<Rightarrow> Dec" where
  "NewDecFromUint64 v = NewDecFromInt (uint v)"

definition split_coin :: "Dec \<Rightarrow> denom \<times> int \<Rightarrow> coins \<times> coins \<Rightarrow> (coins \<times> coins) res" where
  "split_coin ratio coin stacks =
     rbind (Dec_Mul (NewDecFromInt (snd coin)) ratio) (\<lambda>share.
     rbind (Dec_TruncateInt share) (\<lambda>amount.
     rbind (Coin_Sub coin (fst coin, amount)) (\<lambda>stack2Coin.
     rbind (Coins_Add45 (fst stacks) [(fst coin, amount)]) (\<lambda>stack1.
     rbind (Coins_Add45 (snd stacks) [stack2Coin]) (\<lambda>stack2.
     Ok (stack1, stack2))))))"

definition SplitCoins :: "coins \<Rightarrow> Dec \<Rightarrow> (coins \<times> coins) res" where
  "SplitCoins coins ratio = res_acc (split_coin ratio) coins ([], [])"

text \<open>\<open>Coins.IsZero\<close>: no coin, or none with an amount.\<close>

definition Coins_IsZero :: "coins \<Rightarrow> bool" where
  "Coins_IsZero cs = list_all (\<lambda>c. snd c = 0) cs"

section \<open>Sums\<close>

lemma amt_removeZero [simp]: "amt (removeZeroCoins cs) d = amt cs d"
  by (simp add: removeZeroCoins_def)

lemma removeZero_subset: "set (removeZeroCoins cs) \<subseteq> set cs"
  by (auto simp: removeZeroCoins_def)

lemma removeZero_sorted: "sorted_wrt (<) (map fst cs) \<Longrightarrow> sorted_wrt (<) (map fst (removeZeroCoins cs))"
  by (simp add: removeZeroCoins_def sorted_wrt_map sorted_wrt_filter)

lemma Coin_Add_Ok [go_simps]:
  "Coin_Add a b = Ok c \<longleftrightarrow> fst a = fst b \<and> Int_Add (snd a) (snd b) = Ok (snd c) \<and> fst c = fst a"
  by (cases c) (auto simp: Coin_Add_def go_simps)

lemma merge_Ok:
  "merge_coins a b = Ok r \<Longrightarrow>
   amt r d = amt a d + amt b d \<and> fst ` set r \<subseteq> fst ` set a \<union> fst ` set b \<and> (\<forall>c\<in>set r. snd c \<noteq> 0)"
proof (induction a b arbitrary: r rule: merge_coins.induct)
  case (3 a as b bs)
  consider (less) s where "fst a < fst b" "merge_coins as (b # bs) = Ok s" "r = removeZeroCoins [a] @ s"
    | (same) c s where "fst a = fst b" "Coin_Add a b = Ok c" "merge_coins as bs = Ok s"
        "r = removeZeroCoins [c] @ s"
    | (greater) s where "fst b < fst a" "merge_coins (a # as) bs = Ok s" "r = removeZeroCoins [b] @ s"
    using "3.prems" by (cases "fst a < fst b"; cases "fst a = fst b") (auto simp: go_simps)
  then show ?case
  proof cases
    case less
    with "3.IH"(1) [OF less(1,2)] show ?thesis
      by (auto simp: removeZeroCoins_def)
  next
    case same
    with "3.IH"(2) [OF _ same(1) same(3)] show ?thesis
      by (auto simp: removeZeroCoins_def go_simps)
  next
    case greater
    have ng: "\<not> fst a < fst b" "fst a \<noteq> fst b" using greater(1) by order+
    with greater "3.IH"(3) [OF ng greater(2)] show ?thesis
      by (auto simp: removeZeroCoins_def)
  qed
qed (auto simp: removeZeroCoins_def)

lemma merge_sorted:
  "merge_coins a b = Ok r \<Longrightarrow> sorted_wrt (<) (map fst a) \<Longrightarrow> sorted_wrt (<) (map fst b) \<Longrightarrow>
   sorted_wrt (<) (map fst r)"
proof (induction a b arbitrary: r rule: merge_coins.induct)
  case (3 a as b bs)
  have sub: "d \<in> fst ` set as' \<union> fst ` set bs'"
    if "merge_coins as' bs' = Ok s" "d \<in> fst ` set s" for as' bs' s d
    using merge_Ok [OF that(1), of d] that(2) by blast
  consider (less) s where "fst a < fst b" "merge_coins as (b # bs) = Ok s" "r = removeZeroCoins [a] @ s"
    | (same) c s where "fst a = fst b" "Coin_Add a b = Ok c" "merge_coins as bs = Ok s"
        "r = removeZeroCoins [c] @ s"
    | (greater) s where "fst b < fst a" "merge_coins (a # as) bs = Ok s" "r = removeZeroCoins [b] @ s"
    using "3.prems" by (cases "fst a < fst b"; cases "fst a = fst b") (auto simp: go_simps)
  then show ?case
  proof cases
    case less
    then have "sorted_wrt (<) (map fst s)" using "3.IH"(1) [OF less(1,2)] "3.prems" by simp
    moreover have "fst a < d" if "d \<in> fst ` set s" for d
      using sub [OF less(2) that] "3.prems" less(1) by force
    ultimately show ?thesis using less by (auto simp: removeZeroCoins_def)
  next
    case same
    then have "sorted_wrt (<) (map fst s)" using "3.IH"(2) [OF _ same(1) same(3)] "3.prems" by simp
    moreover have "fst a < d" if "d \<in> fst ` set s" for d
      using sub [OF same(3) that] "3.prems" same(1) by force
    ultimately show ?thesis using same by (auto simp: removeZeroCoins_def go_simps)
  next
    case greater
    have ng: "\<not> fst a < fst b" "fst a \<noteq> fst b" using greater(1) by order+
    then have "sorted_wrt (<) (map fst s)" using "3.IH"(3) [OF ng greater(2)] "3.prems" by simp
    moreover have "fst b < d" if "d \<in> fst ` set s" for d
      using sub [OF greater(2) that] "3.prems" greater(1) by force
    ultimately show ?thesis using greater ng by (auto simp: removeZeroCoins_def)
  qed
qed (simp_all add: removeZero_sorted)

text \<open>A sorted list without zero amounts is determined by its amounts.\<close>

lemma sorted_nonzero_mem:
  assumes "sorted_wrt (<) (map fst cs)" "\<And>c. c \<in> set cs \<Longrightarrow> snd c \<noteq> 0"
  shows "(d, x) \<in> set cs \<longleftrightarrow> x = amt cs d \<and> x \<noteq> 0"
proof
  assume m: "(d, x) \<in> set cs"
  with assms(2) have "x \<noteq> 0" by force
  moreover have "amt cs (fst (d, x)) = snd (d, x)"
    using m by (intro amt_distinct strictly_sorted_distinct assms(1))
  ultimately show "x = amt cs d \<and> x \<noteq> 0" by simp
next
  assume x: "x = amt cs d \<and> x \<noteq> 0"
  then have "d \<in> fst ` set cs" using amt_notin by metis
  then obtain y where y: "(d, y) \<in> set cs" by force
  then have "amt cs (fst (d, y)) = snd (d, y)"
    by (intro amt_distinct strictly_sorted_distinct assms(1))
  with x y show "(d, x) \<in> set cs" by simp
qed

lemma sorted_nonzero_ext:
  assumes s: "sorted_wrt (<) (map fst cs)" "sorted_wrt (<) (map fst cs')"
    and nz: "\<And>c. c \<in> set cs \<Longrightarrow> snd c \<noteq> 0" "\<And>c. c \<in> set cs' \<Longrightarrow> snd c \<noteq> 0"
    and eq: "\<And>d. amt cs d = amt cs' d"
  shows "cs = cs'"
proof -
  have "e \<in> set cs \<longleftrightarrow> e \<in> set cs'" for e
    using sorted_nonzero_mem [OF s(1) nz(1), of "fst e" "snd e"]
      sorted_nonzero_mem [OF s(2) nz(2), of "fst e" "snd e"] by (simp add: eq)
  then have "set cs = set cs'" by blast
  moreover have "distinct (map fst cs)" "distinct (map fst cs')" "sorted (map fst cs)" "sorted (map fst cs')"
    using s strict_sorted_iff by blast+
  ultimately show ?thesis
    by (metis map_sorted_distinct_set_unique Un_absorb distinct_map)
qed

lemma coins_sum_unique:
  assumes "sorted_wrt (<) (map fst r)" "\<And>c. c \<in> set r \<Longrightarrow> snd c \<noteq> 0" "\<And>d. amt r d = amt a d + amt b d"
  shows "r = coins_sum a b"
  using assms coins_sum_mem by (intro sorted_nonzero_ext coins_sum_sorted) auto

lemma Coins_Add45_Ok:
  assumes "Coins_Add45 a b = Ok r" "sorted_wrt (<) (map fst a)" "sorted_wrt (<) (map fst b)"
  shows "r = coins_sum a b"
proof (rule coins_sum_unique)
  from assms(1) have m: "merge_coins a b = Ok r" by (simp add: Coins_Add45_def split: if_splits)
  show "sorted_wrt (<) (map fst r)" using merge_sorted [OF m assms(2,3)] .
  show "snd c \<noteq> 0" if "c \<in> set r" for c using merge_Ok [OF m] that by blast
  show "amt r d = amt a d + amt b d" for d using merge_Ok [OF m] by blast
qed

lemma merge_total:
  "sorted_wrt (<) (map fst a) \<Longrightarrow> sorted_wrt (<) (map fst b) \<Longrightarrow> (\<And>d. fits (amt a d + amt b d)) \<Longrightarrow>
   \<exists>r. merge_coins a b = Ok r"
proof (induction a b rule: merge_coins.induct)
  case (3 a as b bs)
  note s = "3.prems"(1,2) and f = "3.prems"(3)
  have zero: "amt as (fst a) = 0" "amt bs (fst b) = 0"
    using s by (intro amt_notin; force)+
  consider (less) "fst a < fst b" | (same) "fst a = fst b" | (greater) "fst b < fst a"
    by (rule linorder_cases)
  then show ?case
  proof cases
    case less
    then have "fst a \<notin> fst ` set (b # bs)" using s by fastforce
    then have z: "amt (b # bs) (fst a) = 0" by (rule amt_notin)
    have "fits (amt as d + amt (b # bs) d)" for d
      using f [of d] z zero by (cases "d = fst a") (simp_all add: fits_def)
    with "3.IH"(1) [OF less] s obtain r where "merge_coins as (b # bs) = Ok r" by auto
    with less show ?thesis by simp
  next
    case same
    have "fits (snd a + snd b)" using f [of "fst a"] zero same by simp
    then obtain c where "Coin_Add a b = Ok c" using same by (simp add: Coin_Add_def Int_Add_eq)
    moreover have "fits (amt as d + amt bs d)" for d
      using f [of d] zero same by (cases "d = fst a") (simp_all add: fits_def)
    with "3.IH"(2) [OF _ same] s same obtain r where "merge_coins as bs = Ok r" by auto
    ultimately show ?thesis using same by simp
  next
    case greater
    then have "fst b \<notin> fst ` set (a # as)" using s by fastforce
    then have z: "amt (a # as) (fst b) = 0" by (rule amt_notin)
    have "fits (amt (a # as) d + amt bs d)" for d
      using f [of d] z zero by (cases "d = fst b") (simp_all add: fits_def)
    moreover have ng: "\<not> fst a < fst b" "fst a \<noteq> fst b" using greater by order+
    ultimately obtain r where "merge_coins (a # as) bs = Ok r" using "3.IH"(3) [OF ng] s by auto
    with ng show ?thesis by simp
  qed
qed simp_all

lemma Coins_Add45_total:
  assumes "sorted_wrt (<) (map fst a)" "sorted_wrt (<) (map fst b)" "\<And>d. fits (amt a d + amt b d)"
  shows "Coins_Add45 a b = Ok (coins_sum a b)"
proof -
  obtain r where "merge_coins a b = Ok r" using merge_total [OF assms] by blast
  then have "Coins_Add45 a b = Ok r" using assms(1,2) strict_sorted_iff by (auto simp: Coins_Add45_def)
  with Coins_Add45_Ok [OF this assms(1,2)] show ?thesis by simp
qed

text \<open>On valid lists the merge of this SDK and the map of the newer one give the same coins.\<close>

lemma Coins_Add45_Add:
  assumes "Coins_IsValid a" "Coins_IsValid b" "\<And>d. fits (amt a d + amt b d)"
  shows "Coins_Add45 a b = Coins_Add a b"
proof -
  have nn: "0 \<le> amt a d" "0 \<le> amt b d" for d using assms IsValid_amt_nonneg by blast+
  have "fits (amt a d)" "fits (amt b d)" for d
    using assms(3) [of d] nn [of d] unfolding fits_def by linarith+
  then show ?thesis
    using assms by (simp add: Coins_Add_def Coins_Add45_total Coins_safeAdd_total IsValid_sorted)
qed

lemma Coins_Add45_valid:
  assumes "Coins_Add45 a b = Ok r" "Coins_IsValid a" "Coins_IsValid b"
  shows "Coins_IsValid r" "amt r d = amt a d + amt b d"
proof -
  have r: "r = coins_sum a b" using Coins_Add45_Ok [OF assms(1)] assms(2,3) by (simp add: IsValid_sorted)
  then show "amt r d = amt a d + amt b d" by simp
  have "0 \<le> amt a d + amt b d" for d using assms IsValid_amt_nonneg by (simp add: add_nonneg_nonneg)
  moreover have "ValidateDenom (fst c)" if "c \<in> set a \<union> set b" for c
    using that assms(2,3) by (auto intro: IsValid_denom)
  ultimately show "Coins_IsValid r" unfolding r by (rule coins_sum_valid)
qed

lemma Coins_Add45_valid_total:
  assumes "Coins_IsValid a" "Coins_IsValid b" "\<And>d. fits (amt a d + amt b d)"
  obtains r where "Coins_Add45 a b = Ok r" "Coins_IsValid r" "\<And>d. amt r d = amt a d + amt b d"
proof -
  have "Coins_Add45 a b = Ok (coins_sum a b)" using assms by (simp add: Coins_Add45_total IsValid_sorted)
  with Coins_Add45_valid [OF this assms(1,2)] that show thesis by blast
qed

lemma Coins_Sub45_total:
  assumes "Coins_IsValid a" "Coins_IsValid b" "\<And>d. amt b d \<le> amt a d" "\<And>d. fits (amt a d)"
  obtains r where "Coins_Sub45 a b = Ok r" "Coins_IsValid r" "\<And>d. amt r d = amt a d - amt b d"
proof -
  let ?r = "coins_sum a (Coins_negative b)"
  have nn: "0 \<le> amt a d" "0 \<le> amt b d" for d using assms IsValid_amt_nonneg by blast+
  have f: "fits (amt a d + amt (Coins_negative b) d)" for d
    using assms(3,4) [of d] nn [of d] unfolding fits_def by simp
  have "Coins_Add45 a (Coins_negative b) = Ok ?r"
    using assms f by (intro Coins_Add45_total) (auto simp: IsValid_sorted)
  moreover have v: "Coins_IsValid ?r"
  proof (rule coins_sum_valid)
    show "0 \<le> amt a d + amt (Coins_negative b) d" for d using assms(3) [of d] by simp
    show "ValidateDenom (fst c)" if "c \<in> set a \<union> set (Coins_negative b)" for c
      using that assms(1,2) by (auto simp: Coins_negative_def Coins_IsValid_def list_all_iff)
  qed
  then have "\<not> list_ex (\<lambda>c. snd c < 0) ?r" by (fastforce simp: list_ex_iff dest: IsValid_pos)
  ultimately have "Coins_Sub45 a b = Ok ?r" by (simp add: Coins_Sub45_def)
  with v that show thesis by simp
qed

lemma Coins_Sub45_Ok:
  fixes d :: denom
  assumes "Coins_Sub45 a b = Ok r" "Coins_IsValid a" "Coins_IsValid b"
  shows "amt r d = amt a d - amt b d" "Coins_IsValid r"
proof -
  have add: "Coins_Add45 a (Coins_negative b) = Ok r" and nn: "\<And>c. c \<in> set r \<Longrightarrow> 0 \<le> snd c"
    using assms(1) by (auto simp: Coins_Sub45_def go_simps list_ex_iff not_less split: if_splits)
  have r: "r = coins_sum a (Coins_negative b)"
    using Coins_Add45_Ok [OF add] assms(2,3) by (simp add: IsValid_sorted)
  then show "amt r d = amt a d - amt b d" by simp
  have "0 \<le> amt a e + amt (Coins_negative b) e" for e
    using amt_nonneg [of r e] nn r by simp
  moreover have "ValidateDenom (fst c)" if "c \<in> set a \<union> set (Coins_negative b)" for c
    using that assms(2,3) by (auto simp: Coins_negative_def Coins_IsValid_def list_all_iff)
  ultimately show "Coins_IsValid r" unfolding r by (rule coins_sum_valid)
qed

lemma IsZero_valid [simp]: "Coins_IsValid cs \<Longrightarrow> Coins_IsZero cs \<longleftrightarrow> cs = []"
  by (cases cs) (auto simp: Coins_IsZero_def Coins_IsValid_def)

lemma Coins_Add45_coin:
  assumes "Coins_IsValid a" "ValidateDenom d" "0 \<le> x" "\<And>e. fits (amt a e + (if d = e then x else 0))"
  obtains r where "Coins_Add45 a [(d, x)] = Ok r" "Coins_IsValid r"
    "\<And>e. amt r e = amt a e + (if d = e then x else 0)"
proof -
  have "Coins_Add45 a [(d, x)] = Ok (coins_sum a [(d, x)])"
  proof (rule Coins_Add45_total)
    show "fits (amt a e + amt [(d, x)] e)" for e using assms(4) [of e] by (simp split: if_splits)
  qed (simp_all add: assms(1) IsValid_sorted)
  moreover have "Coins_IsValid (coins_sum a [(d, x)])"
  proof (rule coins_sum_valid)
    show "0 \<le> amt a e + amt [(d, x)] e" for e
      using IsValid_amt_nonneg [OF assms(1), of e] assms(3) by simp
    show "ValidateDenom (fst c)" if "c \<in> set a \<union> set [(d, x)]" for c
      using that assms(1,2) by (auto intro: IsValid_denom)
  qed
  ultimately show thesis using that by simp
qed

section \<open>Splitting coins\<close>

text \<open>The share of an amount: within the amount, and within a unit of the exact share. 255 bits are
  enough for the product not to overflow.\<close>

lemma split_share_bounds:
  assumes "0 \<le> x" "x < 2 ^ 255" "0 \<le> ratio" "ratio \<le> OneDec"
  obtains y where "Dec_Mul (NewDecFromInt x) ratio = Ok (x * ratio)" "Dec_TruncateInt (x * ratio) = Ok y"
    "y = x * ratio div OneDec" "0 \<le> y" "y \<le> x"
proof -
  let ?y = "x * ratio div OneDec"
  have pos: "0 \<le> x * ratio" using assms by simp
  have le: "x * ratio \<le> x * OneDec" using assms by (simp add: mult_left_mono)
  have "x * ratio div OneDec \<le> x * OneDec div OneDec" using le by (intro zdiv_mono1) (simp_all add: OneDec_def)
  then have y: "0 \<le> ?y" "?y \<le> x" using pos by (simp_all add: OneDec_def pos_imp_zdiv_nonneg_iff)
  have "x * OneDec \<le> 2 ^ 255 * OneDec" using assms by (simp add: OneDec_def)
  also have "\<dots> < 2 ^ 315" by (simp add: OneDec_def precisionReuse_def)
  finally have "fits_dec (x * ratio)" using pos le by (simp add: fits_dec_def)
  then have "Dec_Mul (NewDecFromInt x) ratio = Ok (x * ratio)" by (simp add: Dec_Mul_Ok Dec_Mul_int)
  moreover have "fits ?y" using y assms(2) by (simp add: fits_def)
  then have "Dec_TruncateInt (x * ratio) = Ok ?y"
    using pos by (simp add: Dec_TruncateInt_Ok truncate_nonneg OneDec_def)
  ultimately show thesis using that y by blast
qed

lemma split_coin_ok:
  assumes v: "Coins_IsValid s1" "Coins_IsValid s2" "ValidateDenom d"
    and x: "0 < x" "x < 2 ^ 255" and r: "0 \<le> ratio" "ratio \<le> OneDec"
    and new: "amt s1 d = 0" "amt s2 d = 0" and f: "\<And>e. amt s1 e < 2 ^ 255" "\<And>e. amt s2 e < 2 ^ 255"
  obtains t1 t2 where "split_coin ratio (d, x) (s1, s2) = Ok (t1, t2)" "Coins_IsValid t1" "Coins_IsValid t2"
    "\<And>e. amt t1 e = amt s1 e + (if d = e then x * ratio div OneDec else 0)"
    "\<And>e. amt t2 e = amt s2 e + (if d = e then x - x * ratio div OneDec else 0)"
proof -
  obtain y where y: "Dec_Mul (NewDecFromInt x) ratio = Ok (x * ratio)" "Dec_TruncateInt (x * ratio) = Ok y"
    "y = x * ratio div OneDec" "0 \<le> y" "y \<le> x"
    using split_share_bounds [of x ratio] x r by fastforce
  have nn: "0 \<le> amt s1 e" "0 \<le> amt s2 e" for e using v IsValid_amt_nonneg by blast+
  have "fits (amt s1 e + (if d = e then y else 0))" "fits (amt s2 e + (if d = e then x - y else 0))" for e
    using f [of e] nn [of e] new x(2) y(4,5) by (cases "d = e"; simp add: fits_def)+
  then obtain t1 t2 where t: "Coins_Add45 s1 [(d, y)] = Ok t1" "Coins_IsValid t1"
      "\<And>e. amt t1 e = amt s1 e + (if d = e then y else 0)"
    "Coins_Add45 s2 [(d, x - y)] = Ok t2" "Coins_IsValid t2"
      "\<And>e. amt t2 e = amt s2 e + (if d = e then x - y else 0)"
    using Coins_Add45_coin [OF v(1,3) y(4)] Coins_Add45_coin [OF v(2,3), of "x - y"] y(5)
    by (metis diff_ge_0_iff_ge)
  have "Coin_Sub (d, x) (d, y) = Ok (d, x - y)"
    using y x(2) by (simp add: Coin_Sub_def Int_Sub_eq fits_def)
  then have "split_coin ratio (d, x) (s1, s2) = Ok (t1, t2)"
    using y(1,2) t(1,4) by (simp add: split_coin_def)
  with t that y(3) show thesis by auto
qed

lemma split_loop:
  assumes "Coins_IsValid cs" "\<And>d. amt cs d < 2 ^ 255" "0 \<le> ratio" "ratio \<le> OneDec"
    and "Coins_IsValid s1" "Coins_IsValid s2" "\<And>d. amt s1 d < 2 ^ 255" "\<And>d. amt s2 d < 2 ^ 255"
    and "\<And>d. d \<in> fst ` set cs \<Longrightarrow> amt s1 d = 0 \<and> amt s2 d = 0"
  shows "\<exists>t1 t2. res_acc (split_coin ratio) cs (s1, s2) = Ok (t1, t2) \<and> Coins_IsValid t1 \<and> Coins_IsValid t2 \<and>
    (\<forall>d. amt t1 d = amt s1 d + amt cs d * ratio div OneDec \<and>
         amt t2 d = amt s2 d + (amt cs d - amt cs d * ratio div OneDec))"
  using assms
proof (induction cs arbitrary: s1 s2)
  case (Cons c cs)
  obtain d x where c: "c = (d, x)" by (cases c)
  have hd: "0 < x" "ValidateDenom d" "Coins_IsValid cs" and notin: "d \<notin> fst ` set cs"
    using Cons.prems(1) unfolding c by (auto simp: Coins_IsValid_def)
  then have z: "amt cs d = 0" by (intro amt_notin)
  with Cons.prems(2) [of d] c have xb: "x < 2 ^ 255" by simp
  have tl: "amt cs e < 2 ^ 255" for e using Cons.prems(2) [of e] z c hd by (cases "d = e") auto
  have new: "amt s1 d = 0" "amt s2 d = 0" using Cons.prems(9) [of d] c by auto
  obtain t1 t2 where t: "split_coin ratio (d, x) (s1, s2) = Ok (t1, t2)" "Coins_IsValid t1" "Coins_IsValid t2"
    "\<And>e. amt t1 e = amt s1 e + (if d = e then x * ratio div OneDec else 0)"
    "\<And>e. amt t2 e = amt s2 e + (if d = e then x - x * ratio div OneDec else 0)"
    using split_coin_ok [OF Cons.prems(5,6) hd(2,1) xb Cons.prems(3,4) new Cons.prems(7,8)] by metis
  have y: "0 \<le> x * ratio div OneDec" "x * ratio div OneDec \<le> x"
    using split_share_bounds [of x ratio] hd(1) xb Cons.prems(3,4) by (metis less_imp_le)+
  have b: "amt t1 e < 2 ^ 255" "amt t2 e < 2 ^ 255" for e
    using t(4,5) [of e] Cons.prems(7,8) [of e] new y xb by (cases "d = e"; simp)+
  have n: "e \<in> fst ` set cs \<Longrightarrow> amt t1 e = 0 \<and> amt t2 e = 0" for e
    using t(4,5) [of e] Cons.prems(9) [of e] notin c by (cases "d = e") auto
  obtain u1 u2 where u: "res_acc (split_coin ratio) cs (t1, t2) = Ok (u1, u2)" "Coins_IsValid u1" "Coins_IsValid u2"
    "\<And>e. amt u1 e = amt t1 e + amt cs e * ratio div OneDec"
    "\<And>e. amt u2 e = amt t2 e + (amt cs e - amt cs e * ratio div OneDec)"
    using Cons.IH [OF hd(3) tl Cons.prems(3,4) t(2,3) b n] by blast
  have "amt u1 e = amt s1 e + amt (c # cs) e * ratio div OneDec \<and>
      amt u2 e = amt s2 e + (amt (c # cs) e - amt (c # cs) e * ratio div OneDec)" for e
    using u(4,5) [of e] t(4,5) [of e] z c by (cases "d = e") simp_all
  with u(1-3) t(1) c show ?case by simp
qed simp

theorem SplitCoins_ok:
  assumes "Coins_IsValid cs" "\<And>d. amt cs d < 2 ^ 255" "0 \<le> ratio" "ratio \<le> OneDec"
  obtains s1 s2 where "SplitCoins cs ratio = Ok (s1, s2)" "Coins_IsValid s1" "Coins_IsValid s2"
    "\<And>d. amt s1 d = amt cs d * ratio div OneDec" "\<And>d. amt s1 d + amt s2 d = amt cs d"
  using split_loop [OF assms, of "[]" "[]"] unfolding SplitCoins_def by auto

section \<open>A concrete environment\<close>

definition demo_arch :: arch_env where
  "demo_arch =
     \<lparr>ae_DecodeBech32 = (\<lambda>s. if HasPrefix s ''archway1'' then Some (''archway'', drop 8 s) else None),
      ae_EncodeBech32 = (\<lambda>hrp bz. hrp @ ''1'' @ bz),
      ae_bank = \<lparr>be_locked = (\<lambda>_ _. 0),
        be_module = (\<lambda>m. if m = ''rewards'' then Some ''R'' else if m = ''treasury'' then Some ''T''
          else if m = ''fee_collector'' then Some ''F'' else if m = ''photosynthesis'' then Some ''P'' else None),
        be_minter = (\<lambda>_. False), be_burner = (\<lambda>_. False), be_blocked = (\<lambda>_. False)\<rparr>,
      ae_GetContractInfo = (\<lambda>_. Some \<lparr>ci_Creator = ''archway1o'', ci_Admin = ''archway1o''\<rparr>),
      ae_GasMultiplier = 1, ae_blockHeight = 5, ae_blockTime = 0, ae_blockGasLimit = 100\<rparr>"

lemma demo_arch_bech32: "arch_bech32_ok demo_arch"
  by (auto simp: arch_bech32_ok_def arch_AccAddressFromBech32_def AccAddress_String_def demo_arch_def Bech32Prefix_def
      HasPrefix_def is_space_def arch_VerifyAddressFormat_def)

end
