(* ===== verification/IndexStore.thy ===== *)
theory IndexStore
  imports ArchwaySdk
begin

text \<open>
  A store with a secondary index, the pattern of the Archway keepers
  (\<open>state_tx_info.go\<close>, \<open>state_contract_op.go\<close>, \<open>state_tx_rewards.go\<close>,
  \<open>state_rewards_record.go\<close>): items under their id, and for every item an entry with an empty
  value under the key of its group followed by the id. The members of a group are read by walking
  the entries with the group's prefix; an entry without an item is a panic.

  Group and id have a fixed width (or carry their length), so that the concatenated key is modelled
  by the pair of the two, ordered lexicographically as the bytes are. \<open>indexed_store\<close> is the
  contract: in a well-formed state a group reads as its items in the order of their ids and never
  panics, and removing a group leaves the others alone. The keepers interpret it on their own
  operations.
\<close>

type_synonym ('g, 'k) index = "('g \<times> 'k, unit) kvstore"

definition idx_ids :: "('g, 'k) index \<Rightarrow> 'g \<Rightarrow> 'k list" where
  "idx_ids ix g = map (snd \<circ> fst) (filter (\<lambda>e. fst (fst e) = g) ix)"

definition idx_items :: "('k, 'v) kvstore \<Rightarrow> 'k list \<Rightarrow> 'v list res" where
  "idx_items m ids =
     res_acc (\<lambda>k out. case kv_get m k of None \<Rightarrow> Panic | Some v \<Rightarrow> Ok (out @ [v])) ids []"

text \<open>Every item has its entry and every entry its item.\<close>

definition index_ok ::
  "('v \<Rightarrow> 'g) \<Rightarrow> ('k::linorder, 'v) kvstore \<Rightarrow> ('g::linorder, 'k) index \<Rightarrow> bool" where
  "index_ok grp m ix \<longleftrightarrow> kv_sorted ix \<and>
     (\<forall>g k. kv_get ix (g, k) = Some () \<longleftrightarrow> (\<exists>v. kv_get m k = Some v \<and> grp v = g))"

lemma index_okD:
  assumes "index_ok grp m ix"
  shows "kv_sorted ix" "((g, k), ()) \<in> set ix \<longleftrightarrow> (\<exists>v. kv_get m k = Some v \<and> grp v = g)"
  using assms by (auto simp: index_ok_def kv_get_iff_mem)

lemma index_ok_Nil [simp]: "index_ok grp [] []"
  by (simp add: index_ok_def)

lemma index_ok_insert:
  assumes "index_ok grp m ix" "kv_get m k = None \<or> (\<exists>w. kv_get m k = Some w \<and> grp w = grp v)"
  shows "index_ok grp (kv_set k v m) (kv_set (grp v, k) () ix)"
  using assms by (auto simp: index_ok_def)

lemma index_ok_update:
  assumes "index_ok grp m ix" "kv_get m k = Some w" "grp w = grp v"
  shows "index_ok grp (kv_set k v m) ix"
  using assms by (auto simp: index_ok_def)

lemma index_ok_delete:
  assumes "index_ok grp m ix" "kv_get m k = None \<or> (\<exists>w. kv_get m k = Some w \<and> grp w = g)"
  shows "index_ok grp (kv_delete k m) (kv_delete (g, k) ix)"
  using assms by (auto simp: index_ok_def)

section \<open>Reading a group\<close>

lemma idx_ids_iff: "index_ok grp m ix \<Longrightarrow> k \<in> set (idx_ids ix g) \<longleftrightarrow> (\<exists>v. kv_get m k = Some v \<and> grp v = g)"
  by (force simp: idx_ids_def simp flip: index_okD(2))

lemma idx_ids_sorted:
  assumes "kv_sorted (ix :: ('g::linorder, 'k::linorder) index)"
  shows "sorted_wrt (<) (idx_ids ix g)"
proof -
  let ?es = "filter (\<lambda>e. fst (fst e) = g) ix"
  have "sorted_wrt (\<lambda>e e'. fst e < fst e') ?es"
    using assms by (simp add: kv_sorted_def sorted_wrt_map sorted_wrt_filter)
  then have "sorted_wrt (\<lambda>e e'. snd (fst e) < snd (fst e')) ?es"
    by (rule sorted_wrt_mono_rel [rotated]) (auto simp: less_prod_def)
  then show ?thesis by (simp add: idx_ids_def sorted_wrt_map)
qed

lemma idx_items_total:
  assumes "\<And>k. k \<in> set ks \<Longrightarrow> kv_get m k \<noteq> None"
  shows "idx_items m ks = Ok (map (\<lambda>k. the (kv_get m k)) ks)"
proof -
  have "res_acc (\<lambda>k out. case kv_get m k of None \<Rightarrow> Panic | Some v \<Rightarrow> Ok (out @ [v])) ks out =
      Ok (out @ map (\<lambda>k. the (kv_get m k)) ks)" for out
    using assms by (induction ks arbitrary: out) (force split: option.splits)+
  then show ?thesis by (simp add: idx_items_def)
qed

definition group_items :: "('k::linorder, 'v) kvstore \<Rightarrow> ('g, 'k) index \<Rightarrow> 'g \<Rightarrow> 'v list" where
  "group_items m ix g = map (\<lambda>k. the (kv_get m k)) (idx_ids ix g)"

lemma group_total:
  "index_ok grp m ix \<Longrightarrow> idx_items m (idx_ids ix g) = Ok (group_items m ix g)"
  unfolding group_items_def by (rule idx_items_total) (auto simp: idx_ids_iff)

lemma group_mem:
  assumes "index_ok grp m ix" "kv_keyed key m"
  shows "v \<in> set (group_items m ix g) \<longleftrightarrow> kv_get m (key v) = Some v \<and> grp v = g"
  using assms by (force simp: group_items_def idx_ids_iff dest: kv_keyed_get)

lemma group_sorted:
  assumes "index_ok grp m ix" "kv_keyed key m"
  shows "sorted_wrt (<) (map key (group_items m ix g))"
proof -
  have "key (the (kv_get m k)) = k" if "k \<in> set (idx_ids ix g)" for k
    using that assms by (auto simp: idx_ids_iff dest: kv_keyed_get)
  then have "map key (group_items m ix g) = idx_ids ix g"
    by (simp add: group_items_def comp_def map_idI)
  then show ?thesis using assms by (simp add: idx_ids_sorted index_okD)
qed

text \<open>Deleting the members of a group, then its entries.\<close>

lemma fold_delete_get:
  "kv_get (fold kv_delete ks m) k = (if k \<in> set ks then None else kv_get m k)"
  by (induction ks arbitrary: m) auto

lemma fold_delete_sorted [simp]: "kv_sorted m \<Longrightarrow> kv_sorted (fold kv_delete ks m)"
  by (induction ks arbitrary: m) auto

lemma fold_delete_keyed [simp]: "kv_keyed key m \<Longrightarrow> kv_keyed key (fold kv_delete ks m)"
  by (induction ks arbitrary: m) auto

lemma index_ok_delete_group:
  assumes "index_ok grp m ix"
  shows "index_ok grp (fold kv_delete (idx_ids ix g) m) (fold kv_delete (map (Pair g) (idx_ids ix g)) ix)"
proof -
  have "kv_get (fold kv_delete (map (Pair g) (idx_ids ix g)) ix) (g', k) = Some () \<longleftrightarrow>
      (\<exists>v. kv_get (fold kv_delete (idx_ids ix g) m) k = Some v \<and> grp v = g')" for g' k
  proof -
    have mem: "(g', k) \<in> set (map (Pair g) (idx_ids ix g)) \<longleftrightarrow> g' = g \<and> k \<in> set (idx_ids ix g)" by auto
    have "kv_get ix (g', k) = Some () \<longleftrightarrow> (\<exists>v. kv_get m k = Some v \<and> grp v = g')"
      using assms by (simp add: index_ok_def)
    then show ?thesis unfolding fold_delete_get mem by (auto simp: idx_ids_iff [OF assms])
  qed
  then show ?thesis using index_okD(1) [OF assms] by (simp add: index_ok_def)
qed

lemma delete_group_get:
  assumes "index_ok grp m ix"
  shows "kv_get (fold kv_delete (idx_ids ix g) m) k =
    (case kv_get m k of None \<Rightarrow> None | Some v \<Rightarrow> if grp v = g then None else Some v)"
  using assms by (auto simp: fold_delete_get idx_ids_iff split: option.splits)

text \<open>An import sets the entries of all items again.\<close>

lemma index_import_get:
  "kv_get (fold (\<lambda>v. kv_set (grp v, key v) ()) vs ix) e = Some () \<longleftrightarrow>
     (\<exists>v\<in>set vs. e = (grp v, key v)) \<or> kv_get ix e = Some ()"
  by (induction vs arbitrary: ix) auto

lemma index_import_sorted: "kv_sorted ix \<Longrightarrow> kv_sorted (fold (\<lambda>v. kv_set (grp v, key v) ()) vs ix)"
  by (induction vs arbitrary: ix) auto

lemma index_import:
  fixes ix :: "('g::linorder, 'k::linorder) index"
  assumes ok: "index_ok grp m ix" and keyed: "kv_keyed key m"
  shows "fold (\<lambda>v. kv_set (grp v, key v) ()) (kv_values m) [] = ix" (is "?t = ix")
proof (rule kv_ext)
  show "kv_sorted ?t" by (rule index_import_sorted) simp
  show "kv_sorted ix" using ok by (simp add: index_ok_def)
  fix e :: "'g \<times> 'k"
  obtain g k where e: "e = (g, k)" by (cases e)
  have "kv_get ?t e = Some () \<longleftrightarrow> (\<exists>v\<in>set (kv_values m). e = (grp v, key v))"
    by (simp add: index_import_get)
  also have "\<dots> \<longleftrightarrow> (\<exists>v. kv_get m k = Some v \<and> grp v = g)"
    using keyed kv_keyed_get [OF keyed] unfolding e Bex_def kv_keyed_values_iff [OF keyed] by auto
  also have "\<dots> \<longleftrightarrow> kv_get ix e = Some ()" using ok by (simp add: index_ok_def e)
  finally show "kv_get ?t e = kv_get ix e"
    by (cases "kv_get ?t e"; cases "kv_get ix e") auto
qed

section \<open>The contract of an indexed store\<close>

locale indexed_store =
  fixes key :: "'v \<Rightarrow> 'k::linorder"
    and grp :: "'v \<Rightarrow> 'g"
    and get :: "'s \<Rightarrow> 'k \<Rightarrow> 'v option"
    and by_group :: "'s \<Rightarrow> 'g \<Rightarrow> 'v list res"
    and del_group :: "'g \<Rightarrow> 's \<Rightarrow> 's"
    and wf :: "'s \<Rightarrow> bool"
  assumes by_group_total: "wf s \<Longrightarrow> \<exists>vs. by_group s g = Ok vs"
    and by_group_mem: "wf s \<Longrightarrow> by_group s g = Ok vs \<Longrightarrow> v \<in> set vs \<longleftrightarrow> get s (key v) = Some v \<and> grp v = g"
    and by_group_sorted: "wf s \<Longrightarrow> by_group s g = Ok vs \<Longrightarrow> sorted_wrt (<) (map key vs)"
    and get_key: "wf s \<Longrightarrow> get s k = Some v \<Longrightarrow> key v = k"
    and get_del_group: "wf s \<Longrightarrow> get (del_group g s) k =
      (case get s k of None \<Rightarrow> None | Some v \<Rightarrow> if grp v = g then None else Some v)"
    and wf_del_group: "wf s \<Longrightarrow> wf (del_group g s)"
begin

lemma by_group_distinct: "wf s \<Longrightarrow> by_group s g = Ok vs \<Longrightarrow> distinct (map key vs)"
  using by_group_sorted strict_sorted_iff by blast

text \<open>A group is determined by what can be read of it.\<close>

lemma by_group_eqI:
  assumes wf: "wf s" and sorted: "sorted_wrt (<) (map key ws)"
    and mem: "\<And>v. v \<in> set ws \<longleftrightarrow> get s (key v) = Some v \<and> grp v = g"
  shows "by_group s g = Ok ws"
proof -
  obtain vs where vs: "by_group s g = Ok vs" using by_group_total wf by metis
  have "set vs = set ws" using by_group_mem [OF wf vs] mem by blast
  moreover have "sorted (map key vs)" "sorted (map key ws)" "distinct (map key vs)" "distinct (map key ws)"
    using by_group_sorted [OF wf vs] sorted strict_sorted_iff by blast+
  ultimately have "vs = ws"
    by (metis map_sorted_distinct_set_unique Un_absorb distinct_map)
  with vs show ?thesis by simp
qed

lemma by_group_cong:
  assumes wf: "wf s" "wf t" and same: "\<And>v. grp v = g \<Longrightarrow> get s (key v) = Some v \<longleftrightarrow> get t (key v) = Some v"
  shows "by_group s g = by_group t g"
proof -
  obtain ws where ws: "by_group t g = Ok ws" using by_group_total wf by metis
  then have "by_group s g = Ok ws"
    using by_group_sorted [OF wf(2) ws] by_group_mem [OF wf(2) ws] same by (intro by_group_eqI wf) blast+
  with ws show ?thesis by simp
qed

lemma deleted_group: "wf s \<Longrightarrow> by_group (del_group g s) g = Ok []"
proof -
  assume wf: "wf s"
  then obtain vs where vs: "by_group (del_group g s) g = Ok vs" using by_group_total wf_del_group by blast
  have "v \<notin> set vs" for v
    using by_group_mem [OF wf_del_group [OF wf] vs] wf by (auto simp: get_del_group split: option.splits)
  then have "vs = []" by (cases vs) auto
  with vs show ?thesis by simp
qed

lemma other_groups: "wf s \<Longrightarrow> g' \<noteq> g \<Longrightarrow> by_group (del_group g s) g' = by_group s g'"
  by (rule by_group_cong) (auto simp: wf_del_group get_del_group split: option.splits if_splits)

end

end
