(* ===== verification/Tracking.thy ===== *)
theory Tracking
  imports IndexStore
begin

text \<open>
  Archway's \<open>x/tracking\<close> (\<open>deps/archway-main/x/tracking\<close>): the gas used by contracts.

  The ante handler opens an entry for every transaction, \<open>x/wasm\<close> reports each contract
  operation, which is filed under the current transaction, and the end blocker sums the gas of a
  transaction's operations. \<open>x/rewards\<close> reads a block's entries to share its rewards, and
  removes them later.

  Transactions are indexed by block, operations by transaction; both indexes satisfy
  \<open>indexed_store\<close>. Heights are \<open>int64\<close> values, stored as \<open>uint64\<close> in the index.
\<close>

section \<open>Data\<close>

record TxInfo =
  ti_Id :: uint64
  ti_Height :: int
  ti_TotalGas :: uint64

type_synonym ContractOperation = int

definition CONTRACT_OPERATION_UNSPECIFIED :: ContractOperation where "CONTRACT_OPERATION_UNSPECIFIED = 0"
definition CONTRACT_OPERATION_INSTANTIATION :: ContractOperation where "CONTRACT_OPERATION_INSTANTIATION = 1"
definition CONTRACT_OPERATION_EXECUTION :: ContractOperation where "CONTRACT_OPERATION_EXECUTION = 2"
definition CONTRACT_OPERATION_QUERY :: ContractOperation where "CONTRACT_OPERATION_QUERY = 3"
definition CONTRACT_OPERATION_MIGRATE :: ContractOperation where "CONTRACT_OPERATION_MIGRATE = 4"
definition CONTRACT_OPERATION_IBC :: ContractOperation where "CONTRACT_OPERATION_IBC = 5"
definition CONTRACT_OPERATION_SUDO :: ContractOperation where "CONTRACT_OPERATION_SUDO = 6"
definition CONTRACT_OPERATION_REPLY :: ContractOperation where "CONTRACT_OPERATION_REPLY = 7"

record ContractOperationInfo =
  oi_Id :: uint64
  oi_TxId :: uint64
  oi_ContractAddress :: string
  oi_OperationType :: ContractOperation
  oi_VmGas :: uint64
  oi_SdkGas :: uint64

record ContractGasRecord =
  gr_OperationId :: uint64
  gr_ContractAddress :: string
  gr_VMGas :: uint64
  gr_SDKGas :: uint64

record tracking_state =
  tr_TxInfoID :: uint64
  tr_TxInfos :: "(uint64, TxInfo) kvstore"
  tr_BlockIndex :: "(uint64, uint64) index"
  tr_OpInfoID :: uint64
  tr_OpInfos :: "(uint64, ContractOperationInfo) kvstore"
  tr_TxIndex :: "(uint64, uint64) index"

definition fresh_tracking :: tracking_state where
  "fresh_tracking = \<lparr>tr_TxInfoID = 0, tr_TxInfos = [], tr_BlockIndex = [],
     tr_OpInfoID = 0, tr_OpInfos = [], tr_TxIndex = []\<rparr>"

definition block_key :: "int \<Rightarrow> uint64" where
  "block_key height = word_of_int height"

definition HasGasUsage :: "TxInfo \<Rightarrow> bool" where
  "HasGasUsage m \<longleftrightarrow> ti_TotalGas m > 0"

definition GasUsed :: "ContractOperationInfo \<Rightarrow> uint64 \<times> bool" where
  "GasUsed m = (let gasUsed = oi_VmGas m + oi_SdkGas m in (gasUsed, gasUsed > 0))"

definition op_MustGetContractAddress :: "arch_env \<Rightarrow> ContractOperationInfo \<Rightarrow> address res" where
  "op_MustGetContractAddress env m = res_must (arch_AccAddressFromBech32 env (oi_ContractAddress m))"

definition TxInfo_Validate :: "TxInfo \<Rightarrow> unit res" where
  "TxInfo_Validate m = rguard (ti_Id m \<noteq> 0) Plain"

definition OpInfo_Validate :: "arch_env \<Rightarrow> ContractOperationInfo \<Rightarrow> unit res" where
  "OpInfo_Validate env m =
     (if oi_Id m = 0 then Err Plain
      else if oi_TxId m = 0 then Err Plain
      else if \<not> res_ok (arch_AccAddressFromBech32 env (oi_ContractAddress m)) then Err Plain
      else if \<not> (0 \<le> oi_OperationType m \<and> oi_OperationType m \<le> 7) then Err Plain
      else Ok ())"

section \<open>Transactions\<close>

definition SetTxInfo :: "TxInfo \<Rightarrow> tracking_state \<Rightarrow> tracking_state" where
  "SetTxInfo obj s = s\<lparr>tr_TxInfos := kv_set (ti_Id obj) obj (tr_TxInfos s)\<rparr>"

definition setBlockIndex :: "int \<Rightarrow> uint64 \<Rightarrow> tracking_state \<Rightarrow> tracking_state" where
  "setBlockIndex height i s = s\<lparr>tr_BlockIndex := kv_set (block_key height, i) () (tr_BlockIndex s)\<rparr>"

definition tx_setLastID :: "uint64 \<Rightarrow> tracking_state \<Rightarrow> tracking_state" where
  "tx_setLastID i s = s\<lparr>tr_TxInfoID := i\<rparr>"

definition tx_nextID :: "tracking_state \<Rightarrow> uint64" where
  "tx_nextID s = tr_TxInfoID s + 1"

definition GetCurrentTxID :: "tracking_state \<Rightarrow> uint64" where
  "GetCurrentTxID s = tr_TxInfoID s"

definition CreateEmptyTxInfo :: "arch_env \<Rightarrow> tracking_state \<Rightarrow> TxInfo \<times> tracking_state" where
  "CreateEmptyTxInfo env s =
     (let obj = \<lparr>ti_Id = tx_nextID s, ti_Height = ae_blockHeight env, ti_TotalGas = 0\<rparr> in
      (obj, tx_setLastID (ti_Id obj) (setBlockIndex (ae_blockHeight env) (ti_Id obj) (SetTxInfo obj s))))"

definition GetTxInfo :: "tracking_state \<Rightarrow> uint64 \<Rightarrow> TxInfo option" where
  "GetTxInfo s i = kv_get (tr_TxInfos s) i"

definition GetTxInfosByBlock :: "tracking_state \<Rightarrow> int \<Rightarrow> TxInfo list res" where
  "GetTxInfosByBlock s height = idx_items (tr_TxInfos s) (idx_ids (tr_BlockIndex s) (block_key height))"

definition DeleteTxInfosByBlock :: "int \<Rightarrow> tracking_state \<Rightarrow> uint64 list \<times> tracking_state" where
  "DeleteTxInfosByBlock height s =
     (let removedIDs = idx_ids (tr_BlockIndex s) (block_key height) in
      (removedIDs,
       s\<lparr>tr_TxInfos := fold kv_delete removedIDs (tr_TxInfos s),
         tr_BlockIndex := fold kv_delete (map (Pair (block_key height)) removedIDs) (tr_BlockIndex s)\<rparr>))"

definition tx_Import :: "uint64 \<Rightarrow> TxInfo list \<Rightarrow> tracking_state \<Rightarrow> tracking_state" where
  "tx_Import lastID objs s =
     tx_setLastID lastID (fold (\<lambda>obj s. setBlockIndex (ti_Height obj) (ti_Id obj) (SetTxInfo obj s)) objs s)"

definition tx_Export :: "tracking_state \<Rightarrow> uint64 \<times> TxInfo list" where
  "tx_Export s = (tx_nextID s - 1, kv_values (tr_TxInfos s))"

section \<open>Contract operations\<close>

definition setContractOpInfo :: "ContractOperationInfo \<Rightarrow> tracking_state \<Rightarrow> tracking_state" where
  "setContractOpInfo obj s = s\<lparr>tr_OpInfos := kv_set (oi_Id obj) obj (tr_OpInfos s)\<rparr>"

definition setTxIndex :: "uint64 \<Rightarrow> uint64 \<Rightarrow> tracking_state \<Rightarrow> tracking_state" where
  "setTxIndex txID i s = s\<lparr>tr_TxIndex := kv_set (txID, i) () (tr_TxIndex s)\<rparr>"

definition op_setLastID :: "uint64 \<Rightarrow> tracking_state \<Rightarrow> tracking_state" where
  "op_setLastID i s = s\<lparr>tr_OpInfoID := i\<rparr>"

definition op_getNextID :: "tracking_state \<Rightarrow> uint64" where
  "op_getNextID s = tr_OpInfoID s + 1"

definition CreateContractOpInfo ::
  "arch_env \<Rightarrow> uint64 \<Rightarrow> address \<Rightarrow> ContractOperation \<Rightarrow> uint64 \<Rightarrow> uint64 \<Rightarrow> tracking_state \<Rightarrow>
   ContractOperationInfo \<times> tracking_state" where
  "CreateContractOpInfo env txID contractAddr opType vmGas sdkGas s =
     (let obj = \<lparr>oi_Id = op_getNextID s, oi_TxId = txID, oi_ContractAddress = AccAddress_String env contractAddr,
                 oi_OperationType = opType, oi_VmGas = vmGas, oi_SdkGas = sdkGas\<rparr> in
      (obj, op_setLastID (oi_Id obj) (setTxIndex (oi_TxId obj) (oi_Id obj) (setContractOpInfo obj s))))"

definition GetContractOpInfo :: "tracking_state \<Rightarrow> uint64 \<Rightarrow> ContractOperationInfo option" where
  "GetContractOpInfo s i = kv_get (tr_OpInfos s) i"

definition GetContractOpInfoByTxID :: "tracking_state \<Rightarrow> uint64 \<Rightarrow> ContractOperationInfo list res" where
  "GetContractOpInfoByTxID s txID = idx_items (tr_OpInfos s) (idx_ids (tr_TxIndex s) txID)"

definition DeleteContractOpsByTxID :: "uint64 \<Rightarrow> tracking_state \<Rightarrow> uint64 list \<times> tracking_state" where
  "DeleteContractOpsByTxID txID s =
     (let removedIDs = idx_ids (tr_TxIndex s) txID in
      (removedIDs,
       s\<lparr>tr_OpInfos := fold kv_delete removedIDs (tr_OpInfos s),
         tr_TxIndex := fold kv_delete (map (Pair txID) removedIDs) (tr_TxIndex s)\<rparr>))"

definition op_Import :: "uint64 \<Rightarrow> ContractOperationInfo list \<Rightarrow> tracking_state \<Rightarrow> tracking_state" where
  "op_Import lastID objs s =
     op_setLastID lastID (fold (\<lambda>obj s. setTxIndex (oi_TxId obj) (oi_Id obj) (setContractOpInfo obj s)) objs s)"

definition op_Export :: "tracking_state \<Rightarrow> uint64 \<times> ContractOperationInfo list" where
  "op_Export s = (op_getNextID s - 1, kv_values (tr_OpInfos s))"

definition DeleteTxInfosCascade :: "int \<Rightarrow> tracking_state \<Rightarrow> tracking_state" where
  "DeleteTxInfosCascade height s =
     (let (txIDs, t) = DeleteTxInfosByBlock height s in
      fold (\<lambda>txID u. snd (DeleteContractOpsByTxID txID u)) txIDs t)"

section \<open>The keeper\<close>

definition TrackNewTx :: "arch_env \<Rightarrow> tracking_state \<Rightarrow> tracking_state" where
  "TrackNewTx env s = snd (CreateEmptyTxInfo env s)"

definition TrackNewContractOperation ::
  "arch_env \<Rightarrow> address \<Rightarrow> ContractOperation \<Rightarrow> uint64 \<Rightarrow> uint64 \<Rightarrow> tracking_state \<Rightarrow> tracking_state" where
  "TrackNewContractOperation env contractAddr opType vmGasConsumed sdkGasConsumed s =
     snd (CreateContractOpInfo env (GetCurrentTxID s) contractAddr opType vmGasConsumed sdkGasConsumed s)"

definition add_op_gas :: "ContractOperationInfo list \<Rightarrow> TxInfo \<Rightarrow> TxInfo" where
  "add_op_gas ops txInfo =
     fold (\<lambda>contractOp tx. tx\<lparr>ti_TotalGas := ti_TotalGas tx + (oi_VmGas contractOp + oi_SdkGas contractOp)\<rparr>)
       ops txInfo"

definition FinalizeBlockTxTracking :: "arch_env \<Rightarrow> (tracking_state, unit) go" where
  "FinalizeBlockTxTracking env =
     go_bind (\<lambda>s. (GetTxInfosByBlock s (ae_blockHeight env), s)) (\<lambda>txInfos.
     for_each (\<lambda>txInfo.
       go_bind (\<lambda>s. (GetContractOpInfoByTxID s (ti_Id txInfo), s)) (\<lambda>ops.
       go_modify (SetTxInfo (add_op_gas ops txInfo)))) txInfos)"

definition GetBlockTrackingInfo ::
  "tracking_state \<Rightarrow> int \<Rightarrow> (TxInfo \<times> ContractOperationInfo list) list res" where
  "GetBlockTrackingInfo s height =
     rbind (GetTxInfosByBlock s height) (\<lambda>txInfos.
     res_acc (\<lambda>txInfo txs. rbind (GetContractOpInfoByTxID s (ti_Id txInfo)) (\<lambda>ops. Ok (txs @ [(txInfo, ops)])))
       txInfos [])"

definition RemoveBlockTrackingInfo :: "int \<Rightarrow> tracking_state \<Rightarrow> tracking_state" where
  "RemoveBlockTrackingInfo height s = DeleteTxInfosCascade height s"

definition FromWasmVMGas :: "arch_env \<Rightarrow> uint64 \<Rightarrow> uint64" where
  "FromWasmVMGas env source = source div ae_GasMultiplier env"

text \<open>The operations \<open>x/wasm\<close> reports, in the order of its \<open>iota\<close>.\<close>

definition operation_type :: "uint64 \<Rightarrow> ContractOperation" where
  "operation_type op =
     (if op = 2 then CONTRACT_OPERATION_QUERY
      else if op = 0 then CONTRACT_OPERATION_INSTANTIATION
      else if op = 1 then CONTRACT_OPERATION_EXECUTION
      else if op = 3 then CONTRACT_OPERATION_MIGRATE
      else if op = 4 then CONTRACT_OPERATION_SUDO
      else if op = 5 then CONTRACT_OPERATION_REPLY
      else if op \<in> set [11, 10, 9, 8, 6, 7] then CONTRACT_OPERATION_IBC
      else CONTRACT_OPERATION_UNSPECIFIED)"

definition IngestGasRecord :: "arch_env \<Rightarrow> ContractGasRecord list \<Rightarrow> (tracking_state, unit) go" where
  "IngestGasRecord env records =
     for_each (\<lambda>record.
       go_bind (go_wrap Plain (go_lift (arch_AccAddressFromBech32 env (gr_ContractAddress record)))) (\<lambda>contractAddr.
       go_modify (TrackNewContractOperation env contractAddr (operation_type (gr_OperationId record))
         (FromWasmVMGas env (gr_VMGas record)) (gr_SDKGas record)))) records"

definition GetGasCalculationFn :: "string \<Rightarrow> (uint64 \<Rightarrow> uint64 \<times> uint64 \<Rightarrow> uint64 \<times> uint64) res" where
  "GetGasCalculationFn contractAddrBz = Ok (\<lambda>operationID gasConsumptionInfo. gasConsumptionInfo)"

definition CalculateUpdatedGas :: "ContractGasRecord \<Rightarrow> (uint64 \<times> uint64) res" where
  "CalculateUpdatedGas record =
     rbind (GetGasCalculationFn (gr_ContractAddress record)) (\<lambda>gasCalcFn.
     Ok (gasCalcFn (gr_OperationId record) (gr_VMGas record, gr_SDKGas record)))"

definition BlockGasTracking ::
  "arch_env \<Rightarrow> unit option \<Rightarrow> tracking_state \<Rightarrow> (TxInfo \<times> ContractOperationInfo list) list res" where
  "BlockGasTracking env request s =
     (case request of None \<Rightarrow> Err Plain | Some _ \<Rightarrow> GetBlockTrackingInfo s (ae_blockHeight env))"

definition tracking_EndBlocker :: "arch_env \<Rightarrow> (tracking_state, unit) go" where
  "tracking_EndBlocker env = FinalizeBlockTxTracking env"

section \<open>Genesis\<close>

record tracking_genesis =
  tg_TxInfoLastId :: uint64
  tg_TxInfos :: "TxInfo list"
  tg_ContractOpInfoLastId :: uint64
  tg_ContractOpInfos :: "ContractOperationInfo list"

definition tracking_ExportGenesis :: "tracking_state \<Rightarrow> tracking_genesis" where
  "tracking_ExportGenesis s =
     \<lparr>tg_TxInfoLastId = fst (tx_Export s), tg_TxInfos = snd (tx_Export s),
      tg_ContractOpInfoLastId = fst (op_Export s), tg_ContractOpInfos = snd (op_Export s)\<rparr>"

definition tracking_InitGenesis :: "tracking_genesis \<Rightarrow> tracking_state \<Rightarrow> tracking_state" where
  "tracking_InitGenesis g s =
     op_Import (tg_ContractOpInfoLastId g) (tg_ContractOpInfos g) (tx_Import (tg_TxInfoLastId g) (tg_TxInfos g) s)"

text \<open>The loops keep the greatest id and the set of ids seen.\<close>

definition validate_txs :: "TxInfo list \<Rightarrow> (uint64 \<times> uint64 set) res" where
  "validate_txs txInfos =
     res_acc (\<lambda>txInfo (idMax, idSet).
       rbind (TxInfo_Validate txInfo) (\<lambda>_.
       if ti_Id txInfo \<in> idSet then Err Plain
       else Ok (max (ti_Id txInfo) idMax, insert (ti_Id txInfo) idSet))) txInfos (0, {})"

definition validate_ops :: "arch_env \<Rightarrow> uint64 set \<Rightarrow> ContractOperationInfo list \<Rightarrow> (uint64 \<times> uint64 set) res" where
  "validate_ops env txIDSet opInfos =
     res_acc (\<lambda>opInfo (idMax, idSet).
       rbind (OpInfo_Validate env opInfo) (\<lambda>_.
       if oi_Id opInfo \<in> idSet then Err Plain
       else if oi_TxId opInfo \<notin> txIDSet then Err Plain
       else Ok (max (oi_Id opInfo) idMax, insert (oi_Id opInfo) idSet))) opInfos (0, {})"

definition tracking_Validate :: "arch_env \<Rightarrow> tracking_genesis \<Rightarrow> unit res" where
  "tracking_Validate env m =
     rbind (validate_txs (tg_TxInfos m)) (\<lambda>(txIDMax, txIDSet).
     if tg_TxInfoLastId m < txIDMax then Err Plain
     else rbind (validate_ops env txIDSet (tg_ContractOpInfos m)) (\<lambda>(opIDMax, _).
     if tg_ContractOpInfoLastId m < opIDMax then Err Plain else Ok ()))"

section \<open>The invariant\<close>

text \<open>Both indexes match their stores and no id lies above the last one given out.\<close>

abbreviation ti_block :: "TxInfo \<Rightarrow> uint64" where "ti_block v \<equiv> block_key (ti_Height v)"

definition txs_ok :: "tracking_state \<Rightarrow> bool" where
  "txs_ok s \<longleftrightarrow> kv_keyed ti_Id (tr_TxInfos s) \<and> index_ok ti_block (tr_TxInfos s) (tr_BlockIndex s)"

definition ops_ok :: "tracking_state \<Rightarrow> bool" where
  "ops_ok s \<longleftrightarrow> kv_keyed oi_Id (tr_OpInfos s) \<and> index_ok oi_TxId (tr_OpInfos s) (tr_TxIndex s)"

definition tracking_inv :: "tracking_state \<Rightarrow> bool" where
  "tracking_inv s \<longleftrightarrow> txs_ok s \<and> ops_ok s \<and>
     (\<forall>i. GetTxInfo s i \<noteq> None \<longrightarrow> i \<le> tr_TxInfoID s) \<and> (\<forall>i. GetContractOpInfo s i \<noteq> None \<longrightarrow> i \<le> tr_OpInfoID s)"

lemma block_key_sint [simp]: "block_key (sint w) = w"
  by (simp add: block_key_def)

lemma block_key_inj:
  assumes "is_int64 h" "is_int64 h'" "block_key h = block_key h'"
  shows "h = h'"
proof -
  have "sint (block_key x) = x" if "is_int64 x" for x
    using that by (simp add: block_key_def is_int64_def sint_sbintrunc' signed_take_bit_int_eq_self)
  with assms show ?thesis by metis
qed

interpretation tx_items: item_store ti_Id kv_get "\<lambda>v. kv_set (ti_Id v) v" kv_delete kv_values "kv_keyed ti_Id"
  by (rule item_store_kv)

interpretation txs: indexed_store ti_Id ti_block GetTxInfo "\<lambda>s g. GetTxInfosByBlock s (sint g)"
  "\<lambda>g s. snd (DeleteTxInfosByBlock (sint g) s)" txs_ok
proof unfold_locales
  fix s :: tracking_state and g k :: uint64 and v :: TxInfo and vs
  assume wf: "txs_ok s"
  then have ok: "kv_keyed ti_Id (tr_TxInfos s)" "index_ok ti_block (tr_TxInfos s) (tr_BlockIndex s)"
    by (simp_all add: txs_ok_def)
  have all: "GetTxInfosByBlock s (sint g) = Ok (group_items (tr_TxInfos s) (tr_BlockIndex s) g)"
    using group_total [OF ok(2)] by (simp add: GetTxInfosByBlock_def)
  then show "\<exists>vs. GetTxInfosByBlock s (sint g) = Ok vs" by blast
  show "GetTxInfosByBlock s (sint g) = Ok vs \<Longrightarrow>
      v \<in> set vs \<longleftrightarrow> GetTxInfo s (ti_Id v) = Some v \<and> ti_block v = g"
    using group_mem [OF ok(2,1)] all by (auto simp: GetTxInfo_def)
  show "GetTxInfosByBlock s (sint g) = Ok vs \<Longrightarrow> sorted_wrt (<) (map ti_Id vs)"
    using group_sorted [OF ok(2,1)] all by auto
  show "GetTxInfo s k = Some v \<Longrightarrow> ti_Id v = k"
    using kv_keyed_get [OF ok(1)] by (auto simp: GetTxInfo_def)
  show "GetTxInfo (snd (DeleteTxInfosByBlock (sint g) s)) k =
      (case GetTxInfo s k of None \<Rightarrow> None | Some v \<Rightarrow> if ti_block v = g then None else Some v)"
    using delete_group_get [OF ok(2)] by (simp add: GetTxInfo_def DeleteTxInfosByBlock_def Let_def)
  show "txs_ok (snd (DeleteTxInfosByBlock (sint g) s))"
    using ok index_ok_delete_group [OF ok(2)] by (simp add: txs_ok_def DeleteTxInfosByBlock_def Let_def)
qed

interpretation ops: indexed_store oi_Id oi_TxId GetContractOpInfo GetContractOpInfoByTxID
  "\<lambda>txID s. snd (DeleteContractOpsByTxID txID s)" ops_ok
proof unfold_locales
  fix s :: tracking_state and g k :: uint64 and v :: ContractOperationInfo and vs
  assume wf: "ops_ok s"
  then have ok: "kv_keyed oi_Id (tr_OpInfos s)" "index_ok oi_TxId (tr_OpInfos s) (tr_TxIndex s)"
    by (simp_all add: ops_ok_def)
  have all: "GetContractOpInfoByTxID s g = Ok (group_items (tr_OpInfos s) (tr_TxIndex s) g)"
    using group_total [OF ok(2)] by (simp add: GetContractOpInfoByTxID_def)
  then show "\<exists>vs. GetContractOpInfoByTxID s g = Ok vs" by blast
  show "GetContractOpInfoByTxID s g = Ok vs \<Longrightarrow>
      v \<in> set vs \<longleftrightarrow> GetContractOpInfo s (oi_Id v) = Some v \<and> oi_TxId v = g"
    using group_mem [OF ok(2,1)] all by (auto simp: GetContractOpInfo_def)
  show "GetContractOpInfoByTxID s g = Ok vs \<Longrightarrow> sorted_wrt (<) (map oi_Id vs)"
    using group_sorted [OF ok(2,1)] all by auto
  show "GetContractOpInfo s k = Some v \<Longrightarrow> oi_Id v = k"
    using kv_keyed_get [OF ok(1)] by (auto simp: GetContractOpInfo_def)
  show "GetContractOpInfo (snd (DeleteContractOpsByTxID g s)) k =
      (case GetContractOpInfo s k of None \<Rightarrow> None | Some v \<Rightarrow> if oi_TxId v = g then None else Some v)"
    using delete_group_get [OF ok(2)] by (simp add: GetContractOpInfo_def DeleteContractOpsByTxID_def Let_def)
  show "ops_ok (snd (DeleteContractOpsByTxID g s))"
    using ok index_ok_delete_group [OF ok(2)] by (simp add: ops_ok_def DeleteContractOpsByTxID_def Let_def)
qed

text \<open>The group key of a height read back as a signed number is the height's own.\<close>

lemma GetTxInfosByBlock_key: "GetTxInfosByBlock s h = GetTxInfosByBlock s (sint (block_key h))"
  by (simp add: GetTxInfosByBlock_def)

lemma DeleteTxInfosByBlock_key: "DeleteTxInfosByBlock h s = DeleteTxInfosByBlock (sint (block_key h)) s"
  by (simp add: DeleteTxInfosByBlock_def)

lemma tracking_invD:
  assumes "tracking_inv s"
  shows "txs_ok s" "ops_ok s" "GetTxInfo s i \<noteq> None \<Longrightarrow> i \<le> tr_TxInfoID s"
    "GetContractOpInfo s i \<noteq> None \<Longrightarrow> i \<le> tr_OpInfoID s"
  using assms by (auto simp: tracking_inv_def)

lemma fresh_tracking_inv: "tracking_inv fresh_tracking"
  by (simp add: fresh_tracking_def tracking_inv_def txs_ok_def ops_ok_def GetTxInfo_def GetContractOpInfo_def)

lemma next_id: "i < - 1 \<Longrightarrow> i < i + (1::uint64)"
proof -
  assume "i < - 1"
  then have "uint i < 2 ^ 64 - 1" by (simp add: word_less_def unsigned_minus_1_eq_mask mask_eq_exp_minus_1)
  then have "uint (i + 1) = uint i + 1" by (simp add: uint_plus_if')
  then show ?thesis by (simp add: word_less_def)
qed

text \<open>A new entry under the next id, in a store without it.\<close>

lemma TrackNewTx_eq:
  "TrackNewTx env s =
     (let i = tr_TxInfoID s + 1; obj = \<lparr>ti_Id = i, ti_Height = ae_blockHeight env, ti_TotalGas = 0\<rparr> in
      s\<lparr>tr_TxInfoID := i, tr_TxInfos := kv_set (ti_Id obj) obj (tr_TxInfos s),
        tr_BlockIndex := kv_set (ti_block obj, i) () (tr_BlockIndex s)\<rparr>)"
  by (simp add: TrackNewTx_def CreateEmptyTxInfo_def Let_def tx_nextID_def SetTxInfo_def setBlockIndex_def tx_setLastID_def)

lemma TrackNewContractOperation_eq:
  "TrackNewContractOperation env addr ty vm sdk s =
     (let i = tr_OpInfoID s + 1;
          obj = \<lparr>oi_Id = i, oi_TxId = tr_TxInfoID s, oi_ContractAddress = AccAddress_String env addr,
                 oi_OperationType = ty, oi_VmGas = vm, oi_SdkGas = sdk\<rparr> in
      s\<lparr>tr_OpInfoID := i, tr_OpInfos := kv_set (oi_Id obj) obj (tr_OpInfos s),
        tr_TxIndex := kv_set (oi_TxId obj, i) () (tr_TxIndex s)\<rparr>)"
  by (simp add: TrackNewContractOperation_def CreateContractOpInfo_def Let_def op_getNextID_def GetCurrentTxID_def
      setContractOpInfo_def setTxIndex_def op_setLastID_def)

lemma TrackNewTx_inv:
  assumes inv: "tracking_inv s" and room: "tr_TxInfoID s < - 1"
  shows "tracking_inv (TrackNewTx env s)"
proof -
  let ?i = "tr_TxInfoID s + 1"
  have lt: "tr_TxInfoID s < ?i" using room by (rule next_id)
  then have new: "kv_get (tr_TxInfos s) ?i = None"
    using tracking_invD(3) [OF inv, of ?i] by (force simp: GetTxInfo_def)
  define obj where "obj = \<lparr>ti_Id = ?i, ti_Height = ae_blockHeight env, ti_TotalGas = 0\<rparr>"
  have eq: "TrackNewTx env s = s\<lparr>tr_TxInfoID := ?i, tr_TxInfos := kv_set (ti_Id obj) obj (tr_TxInfos s),
      tr_BlockIndex := kv_set (ti_block obj, ?i) () (tr_BlockIndex s)\<rparr>" and i: "ti_Id obj = ?i"
    by (simp_all add: TrackNewTx_eq Let_def obj_def)
  have "i \<le> ?i" if "GetTxInfo (TrackNewTx env s) i \<noteq> None" for i
    using that lt tracking_invD(3) [OF inv, of i] unfolding eq i by (fastforce simp: GetTxInfo_def split: if_splits)
  moreover have "GetContractOpInfo (TrackNewTx env s) = GetContractOpInfo s" "ops_ok (TrackNewTx env s)"
    using tracking_invD(2) [OF inv] by (simp_all add: eq GetContractOpInfo_def ops_ok_def fun_eq_iff)
  moreover have "txs_ok (TrackNewTx env s)"
    using tracking_invD(1) [OF inv] new index_ok_insert [of ti_block "tr_TxInfos s" "tr_BlockIndex s" ?i obj]
    by (simp add: txs_ok_def eq) (simp add: i)
  moreover have "tr_OpInfoID (TrackNewTx env s) = tr_OpInfoID s" "tr_TxInfoID (TrackNewTx env s) = ?i"
    by (simp_all add: eq)
  ultimately show ?thesis using tracking_invD(4) [OF inv] by (simp add: tracking_inv_def)
qed

lemma TrackNewContractOperation_inv:
  assumes inv: "tracking_inv s" and room: "tr_OpInfoID s < - 1"
  shows "tracking_inv (TrackNewContractOperation env addr ty vm sdk s)" (is "tracking_inv ?t")
proof -
  let ?i = "tr_OpInfoID s + 1"
  have lt: "tr_OpInfoID s < ?i" using room by (rule next_id)
  then have new: "kv_get (tr_OpInfos s) ?i = None"
    using tracking_invD(4) [OF inv, of ?i] by (force simp: GetContractOpInfo_def)
  define obj where "obj = \<lparr>oi_Id = ?i, oi_TxId = tr_TxInfoID s, oi_ContractAddress = AccAddress_String env addr,
                 oi_OperationType = ty, oi_VmGas = vm, oi_SdkGas = sdk\<rparr>"
  have eq: "?t = s\<lparr>tr_OpInfoID := ?i, tr_OpInfos := kv_set (oi_Id obj) obj (tr_OpInfos s),
      tr_TxIndex := kv_set (oi_TxId obj, ?i) () (tr_TxIndex s)\<rparr>" and i: "oi_Id obj = ?i"
    by (simp_all add: TrackNewContractOperation_eq Let_def obj_def)
  have "i \<le> ?i" if "GetContractOpInfo ?t i \<noteq> None" for i
    using that lt tracking_invD(4) [OF inv, of i] unfolding eq i by (fastforce simp: GetContractOpInfo_def split: if_splits)
  moreover have "GetTxInfo ?t = GetTxInfo s" "txs_ok ?t"
    using tracking_invD(1) [OF inv] by (simp_all add: eq GetTxInfo_def txs_ok_def fun_eq_iff)
  moreover have "ops_ok ?t"
    using tracking_invD(2) [OF inv] new index_ok_insert [of oi_TxId "tr_OpInfos s" "tr_TxIndex s" ?i obj]
    by (simp add: ops_ok_def eq) (simp add: i)
  moreover have "tr_OpInfoID ?t = ?i" "tr_TxInfoID ?t = tr_TxInfoID s" by (simp_all add: eq)
  ultimately show ?thesis using tracking_invD(3) [OF inv] by (simp add: tracking_inv_def)
qed

section \<open>The end blocker\<close>

definition finalized :: "tracking_state \<Rightarrow> TxInfo \<Rightarrow> TxInfo" where
  "finalized s tx = add_op_gas (group_items (tr_OpInfos s) (tr_TxIndex s) (ti_Id tx)) tx"

lemma ops_group: "ops_ok s \<Longrightarrow>
  GetContractOpInfoByTxID s i = Ok (group_items (tr_OpInfos s) (tr_TxIndex s) i)"
  using group_total [of oi_TxId "tr_OpInfos s" "tr_TxIndex s" i]
  by (simp add: GetContractOpInfoByTxID_def ops_ok_def)

lemma add_op_gas_keeps [simp]: "ti_Id (add_op_gas ops tx) = ti_Id tx" "ti_Height (add_op_gas ops tx) = ti_Height tx"
  by (induction ops arbitrary: tx) (auto simp: add_op_gas_def)

lemma add_op_gas_sum:
  "ti_TotalGas (add_op_gas ops tx) = ti_TotalGas tx + sum_list (map (\<lambda>op. oi_VmGas op + oi_SdkGas op) ops)"
  by (induction ops arbitrary: tx) (simp_all add: add_op_gas_def add.assoc)

lemma finalized_keeps [simp]: "ti_Id (finalized s tx) = ti_Id tx" "ti_Height (finalized s tx) = ti_Height tx"
  by (simp_all add: finalized_def)

lemma finalize_loop:
  assumes "ops_ok s" "tr_OpInfos t = tr_OpInfos s" "tr_TxIndex t = tr_TxIndex s"
  shows "for_each (\<lambda>txInfo.
       go_bind (\<lambda>s. (GetContractOpInfoByTxID s (ti_Id txInfo), s)) (\<lambda>ops.
       go_modify (SetTxInfo (add_op_gas ops txInfo)))) txs t =
     (Ok (), t\<lparr>tr_TxInfos := fold (\<lambda>v. kv_set (ti_Id v) v) (map (finalized s) txs) (tr_TxInfos t)\<rparr>)"
  using assms(2,3)
proof (induction txs arbitrary: t)
  case (Cons tx txs)
  have "ops_ok t" using assms(1) Cons.prems by (simp add: ops_ok_def)
  then have g: "GetContractOpInfoByTxID t (ti_Id tx) = Ok (group_items (tr_OpInfos s) (tr_TxIndex s) (ti_Id tx))"
    using Cons.prems by (simp add: ops_group)
  show ?case
    using Cons.IH [of "SetTxInfo (finalized s tx) t"] Cons.prems
    by (simp add: go_bind_def g go_modify_def SetTxInfo_def flip: finalized_def)
qed simp

lemma Finalize_eq:
  assumes "tracking_inv s" "GetTxInfosByBlock s (ae_blockHeight env) = Ok txs"
  shows "FinalizeBlockTxTracking env s =
    (Ok (), s\<lparr>tr_TxInfos := fold (\<lambda>v. kv_set (ti_Id v) v) (map (finalized s) txs) (tr_TxInfos s)\<rparr>)"
  using finalize_loop [of s s txs] assms tracking_invD(2) [OF assms(1)]
  by (simp add: FinalizeBlockTxTracking_def go_bind_def)

definition ops_of :: "tracking_state \<Rightarrow> uint64 \<Rightarrow> ContractOperationInfo list" where
  "ops_of s i = group_items (tr_OpInfos s) (tr_TxIndex s) i"

lemma block_info:
  assumes "ops_ok s" "GetTxInfosByBlock s h = Ok txs"
  shows "GetBlockTrackingInfo s h = Ok (map (\<lambda>tx. (tx, ops_of s (ti_Id tx))) txs)"
proof -
  have "res_acc (\<lambda>txInfo out. rbind (GetContractOpInfoByTxID s (ti_Id txInfo)) (\<lambda>ops. Ok (out @ [(txInfo, ops)])))
      xs out = Ok (out @ map (\<lambda>tx. (tx, ops_of s (ti_Id tx))) xs)" for xs :: "TxInfo list" and out
    by (induction xs arbitrary: out) (simp_all add: ops_group [OF assms(1)] ops_of_def)
  then show ?thesis using assms(2) by (simp add: GetBlockTrackingInfo_def)
qed

lemma block_total: "txs_ok s \<Longrightarrow> \<exists>txs. GetTxInfosByBlock s h = Ok txs"
  using txs.by_group_total [of s "block_key h"] by (simp add: GetTxInfosByBlock_key [of s h])

text \<open>Writing transactions back under their ids, in their blocks.\<close>

lemma update_txs_ok:
  assumes "txs_ok s" and "\<And>v. v \<in> set vs \<Longrightarrow> \<exists>w. GetTxInfo s (ti_Id v) = Some w \<and> ti_block w = ti_block v"
  shows "txs_ok (s\<lparr>tr_TxInfos := fold (\<lambda>v. kv_set (ti_Id v) v) vs (tr_TxInfos s)\<rparr>)"
  using assms
proof (induction vs arbitrary: s)
  case (Cons v vs)
  let ?s = "s\<lparr>tr_TxInfos := kv_set (ti_Id v) v (tr_TxInfos s)\<rparr>"
  obtain w where w: "GetTxInfo s (ti_Id v) = Some w" "ti_block w = ti_block v" using Cons.prems(2) by auto
  have "txs_ok ?s"
    using Cons.prems(1) w index_ok_update [of ti_block "tr_TxInfos s" "tr_BlockIndex s" "ti_Id v" w v]
    by (simp add: txs_ok_def GetTxInfo_def)
  moreover have "\<exists>w. GetTxInfo ?s (ti_Id u) = Some w \<and> ti_block w = ti_block u" if "u \<in> set vs" for u
    using Cons.prems(2) [of u] that w by (auto simp: GetTxInfo_def)
  ultimately have "txs_ok (?s\<lparr>tr_TxInfos := fold (\<lambda>v. kv_set (ti_Id v) v) vs (tr_TxInfos ?s)\<rparr>)"
    by (rule Cons.IH)
  then show ?case by simp
qed simp

lemma update_txs_get:
  assumes "distinct (map ti_Id vs)"
  shows "GetTxInfo (s\<lparr>tr_TxInfos := fold (\<lambda>v. kv_set (ti_Id v) v) vs (tr_TxInfos s)\<rparr>) (ti_Id v) = Some v \<longleftrightarrow>
    v \<in> set vs \<or> (ti_Id v \<notin> ti_Id ` set vs \<and> GetTxInfo s (ti_Id v) = Some v)"
  using tx_items.get_fold_put_distinct [OF assms, of "tr_TxInfos s" v] by (simp add: GetTxInfo_def)

lemma update_txs_dom:
  "kv_get (fold (\<lambda>v. kv_set (ti_Id v) v) vs m) i \<noteq> None \<longleftrightarrow> i \<in> ti_Id ` set vs \<or> kv_get m i \<noteq> None"
  by (induction vs arbitrary: m) auto

text \<open>
  The end blocker never panics; afterwards the block's entries are the same but for their gas, to
  which the gas of their operations was added, and the other blocks are as before.
\<close>

lemma Finalize_blocks:
  assumes inv: "tracking_inv s" and txs: "GetTxInfosByBlock s (ae_blockHeight env) = Ok txs"
  obtains t where "FinalizeBlockTxTracking env s = (Ok (), t)" "tracking_inv t"
    "GetTxInfosByBlock t (ae_blockHeight env) = Ok (map (finalized s) txs)"
    "\<And>h. block_key h \<noteq> block_key (ae_blockHeight env) \<Longrightarrow> GetTxInfosByBlock t h = GetTxInfosByBlock s h"
    "\<And>i. ops_of t i = ops_of s i"
proof -
  let ?g = "block_key (ae_blockHeight env)"
  let ?vs = "map (finalized s) txs"
  define t where "t = s\<lparr>tr_TxInfos := fold (\<lambda>v. kv_set (ti_Id v) v) ?vs (tr_TxInfos s)\<rparr>"
  have wf: "txs_ok s" "ops_ok s" using inv tracking_invD by blast+
  have txs': "GetTxInfosByBlock s (sint ?g) = Ok txs" using txs by (simp add: GetTxInfosByBlock_key [symmetric])
  note mem = txs.by_group_mem [OF wf(1) txs'] and srt = txs.by_group_sorted [OF wf(1) txs']
  have keys: "map ti_Id ?vs = map ti_Id txs" "ti_Id ` set ?vs = ti_Id ` set txs" by (simp_all add: image_image)
  have dist: "distinct (map ti_Id ?vs)" using srt strict_sorted_iff unfolding keys by blast
  have member: "GetTxInfo t (ti_Id v) = Some v \<longleftrightarrow>
      v \<in> set ?vs \<or> (ti_Id v \<notin> ti_Id ` set txs \<and> GetTxInfo s (ti_Id v) = Some v)" for v
    using update_txs_get [OF dist, of s v] unfolding keys(2) by (simp add: t_def)
  have wft: "txs_ok t"
    unfolding t_def by (rule update_txs_ok [OF wf(1)]) (auto simp: mem)
  have upd: "tr_OpInfos t = tr_OpInfos s" "tr_TxIndex t = tr_TxIndex s" "tr_OpInfoID t = tr_OpInfoID s"
    "tr_TxInfoID t = tr_TxInfoID s" by (simp_all add: t_def)
  have "GetTxInfo t i \<noteq> None \<longleftrightarrow> GetTxInfo s i \<noteq> None" for i
  proof -
    have "GetTxInfo s i \<noteq> None" if i: "i \<in> ti_Id ` set txs"
    proof -
      obtain w where "w \<in> set txs" "i = ti_Id w" using i by blast
      with mem [of w] show ?thesis by simp
    qed
    moreover have "GetTxInfo t i \<noteq> None \<longleftrightarrow> i \<in> ti_Id ` set txs \<or> GetTxInfo s i \<noteq> None"
      using update_txs_dom [of ?vs "tr_TxInfos s" i] unfolding keys(2) by (simp add: GetTxInfo_def t_def)
    ultimately show ?thesis by blast
  qed
  then have "tracking_inv t"
    using inv wft upd unfolding tracking_inv_def GetContractOpInfo_def ops_ok_def by simp
  moreover have "GetTxInfosByBlock t (sint ?g) = Ok ?vs"
  proof (rule txs.by_group_eqI [OF wft])
    show "sorted_wrt (<) (map ti_Id ?vs)" using srt unfolding keys .
    show "v \<in> set ?vs \<longleftrightarrow> GetTxInfo t (ti_Id v) = Some v \<and> ti_block v = ?g" for v
    proof -
      have "ti_block v = ?g" if "v \<in> set ?vs"
      proof -
        obtain w where "w \<in> set txs" "v = finalized s w" using \<open>v \<in> set ?vs\<close> unfolding set_map by (rule imageE)
        with mem [of w] show ?thesis by simp
      qed
      moreover have "ti_Id v \<in> ti_Id ` set txs" if "GetTxInfo s (ti_Id v) = Some v" "ti_block v = ?g"
        using mem [of v] that by blast
      ultimately show ?thesis unfolding member by blast
    qed
  qed
  moreover have "GetTxInfosByBlock t h = GetTxInfosByBlock s h" if "block_key h \<noteq> ?g" for h
    unfolding GetTxInfosByBlock_key [of t h] GetTxInfosByBlock_key [of s h]
  proof (rule txs.by_group_cong [OF wft wf(1)])
    fix v assume v: "ti_block v = block_key h"
    have "v \<notin> set ?vs"
    proof
      assume "v \<in> set ?vs"
      then obtain w where "w \<in> set txs" "v = finalized s w" unfolding set_map by (rule imageE)
      with mem [of w] v \<open>block_key h \<noteq> ?g\<close> show False by simp
    qed
    moreover have "ti_Id v \<notin> ti_Id ` set txs" if sv: "GetTxInfo s (ti_Id v) = Some v"
    proof
      assume "ti_Id v \<in> ti_Id ` set txs"
      then obtain w where w: "w \<in> set txs" "ti_Id v = ti_Id w" by (rule imageE) blast
      with mem [of w] sv have "w = v" "ti_block w = ?g" by simp_all
      with v \<open>block_key h \<noteq> ?g\<close> show False by simp
    qed
    ultimately show "GetTxInfo t (ti_Id v) = Some v \<longleftrightarrow> GetTxInfo s (ti_Id v) = Some v"
      unfolding member by blast
  qed
  ultimately show thesis
    using that [of t] Finalize_eq [OF inv txs] upd
    by (simp add: t_def [symmetric] ops_of_def flip: GetTxInfosByBlock_key)
qed

section \<open>Removing a block\<close>

abbreviation del_ops :: "uint64 list \<Rightarrow> tracking_state \<Rightarrow> tracking_state" where
  "del_ops is s \<equiv> fold (\<lambda>txID u. snd (DeleteContractOpsByTxID txID u)) is s"

lemma del_ops_fields:
  "tr_TxInfos (del_ops is s) = tr_TxInfos s" "tr_BlockIndex (del_ops is s) = tr_BlockIndex s"
  "tr_TxInfoID (del_ops is s) = tr_TxInfoID s" "tr_OpInfoID (del_ops is s) = tr_OpInfoID s"
  by (induction "is" arbitrary: s) (auto simp: DeleteContractOpsByTxID_def Let_def)

lemma del_ops_ok: "ops_ok s \<Longrightarrow> ops_ok (del_ops is s)"
  by (induction "is" arbitrary: s) (auto intro: ops.wf_del_group)

lemma del_ops_get:
  "ops_ok s \<Longrightarrow> GetContractOpInfo (del_ops is s) k =
     (case GetContractOpInfo s k of None \<Rightarrow> None | Some v \<Rightarrow> if oi_TxId v \<in> set is then None else Some v)"
proof (induction "is" arbitrary: s)
  case (Cons i "is")
  from Cons.IH [OF ops.wf_del_group [OF Cons.prems, of i]] show ?case
    by (simp add: ops.get_del_group [OF Cons.prems] split: option.splits)
qed (simp split: option.splits)

lemma del_ops_other:
  assumes "ops_ok s" "i \<notin> set is"
  shows "GetContractOpInfoByTxID (del_ops is s) i = GetContractOpInfoByTxID s i"
  using assms by (intro ops.by_group_cong del_ops_ok) (auto simp: del_ops_get split: option.splits)

lemma Remove_fields:
  fixes s h
  defines "ids \<equiv> idx_ids (tr_BlockIndex s) (block_key h)" and "u \<equiv> snd (DeleteTxInfosByBlock h s)"
  shows "RemoveBlockTrackingInfo h s = del_ops ids u" "tr_OpInfos u = tr_OpInfos s" "tr_TxIndex u = tr_TxIndex s"
    "tr_TxInfoID u = tr_TxInfoID s" "tr_OpInfoID u = tr_OpInfoID s"
  by (simp_all add: RemoveBlockTrackingInfo_def DeleteTxInfosCascade_def DeleteTxInfosByBlock_def Let_def ids_def u_def)

lemma Remove_inv:
  assumes inv: "tracking_inv s"
  shows "tracking_inv (RemoveBlockTrackingInfo h s)"
proof -
  define ids u where "ids = idx_ids (tr_BlockIndex s) (block_key h)" and "u = snd (DeleteTxInfosByBlock h s)"
  note f = Remove_fields [of h s, folded ids_def u_def]
  have wf: "txs_ok u" "ops_ok u"
    using txs.wf_del_group [OF tracking_invD(1) [OF inv], of "block_key h"] tracking_invD(2) [OF inv] f(2,3)
    by (simp_all add: u_def ops_ok_def flip: DeleteTxInfosByBlock_key)
  have get_u: "GetTxInfo u i = (case GetTxInfo s i of None \<Rightarrow> None | Some v \<Rightarrow> if ti_block v = block_key h then None else Some v)" for i
    using txs.get_del_group [OF tracking_invD(1) [OF inv], of "block_key h" i]
    by (simp add: u_def flip: DeleteTxInfosByBlock_key)
  have "GetTxInfo (del_ops ids u) i \<noteq> None \<Longrightarrow> GetTxInfo s i \<noteq> None" for i
    using get_u [of i] by (auto simp: GetTxInfo_def [of "del_ops ids u"] GetTxInfo_def [of u] del_ops_fields split: option.splits)
  moreover have "GetContractOpInfo u = GetContractOpInfo s" by (simp add: fun_eq_iff GetContractOpInfo_def f(2))
  then have "GetContractOpInfo (del_ops ids u) i \<noteq> None \<Longrightarrow> GetContractOpInfo s i \<noteq> None" for i
    by (auto simp: del_ops_get [OF wf(2)] split: option.splits)
  ultimately show ?thesis
    using wf tracking_invD(3,4) [OF inv] del_ops_ok [OF wf(2), of ids] unfolding f(1) tracking_inv_def
    by (auto simp: del_ops_fields f(4,5) txs_ok_def)
qed

lemma Remove_blocks:
  assumes inv: "tracking_inv s"
  shows "GetBlockTrackingInfo (RemoveBlockTrackingInfo h s) h = Ok []"
    and "block_key h' \<noteq> block_key h \<Longrightarrow>
      GetBlockTrackingInfo (RemoveBlockTrackingInfo h s) h' = GetBlockTrackingInfo s h'"
proof -
  define ids u where "ids = idx_ids (tr_BlockIndex s) (block_key h)" and "u = snd (DeleteTxInfosByBlock h s)"
  note f = Remove_fields [of h s, folded ids_def u_def]
  let ?t = "RemoveBlockTrackingInfo h s"
  have s_ok: "txs_ok s" "ops_ok s" using inv by (rule tracking_invD)+
  moreover have "ops_ok u" using s_ok(2) by (simp add: ops_ok_def f(2,3))
  moreover have "ops_ok ?t" using Remove_inv [OF inv] by (rule tracking_invD)
  ultimately have wf: "txs_ok s" "ops_ok s" "ops_ok u" "ops_ok ?t" by blast+
  have same: "GetTxInfosByBlock ?t x = GetTxInfosByBlock u x" for x
    by (simp add: f(1) GetTxInfosByBlock_def del_ops_fields)
  have u: "u = snd (DeleteTxInfosByBlock (sint (block_key h)) s)"
    unfolding u_def by (simp add: DeleteTxInfosByBlock_key [of h])
  have "GetTxInfosByBlock ?t h = Ok []"
    unfolding same using txs.deleted_group [OF wf(1), of "block_key h"] by (simp add: u flip: GetTxInfosByBlock_key)
  with block_info [OF wf(4)] show "GetBlockTrackingInfo ?t h = Ok []" by fastforce
  assume ne: "block_key h' \<noteq> block_key h"
  have txs: "GetTxInfosByBlock ?t h' = GetTxInfosByBlock s h'"
    unfolding same using txs.other_groups [OF wf(1) ne] by (simp add: u flip: GetTxInfosByBlock_key)
  obtain vs where vs: "GetTxInfosByBlock s h' = Ok vs" using block_total [OF wf(1)] by blast
  have "ops_of ?t (ti_Id v) = ops_of s (ti_Id v)" if v: "v \<in> set vs" for v
  proof -
    have "GetTxInfo s (ti_Id v) = Some v" "ti_block v = block_key h'"
      using txs.by_group_mem [OF wf(1), of "block_key h'" vs v] vs v by (simp_all flip: GetTxInfosByBlock_key)
    then have "ti_Id v \<notin> set ids"
      using wf(1) ne by (simp add: ids_def txs_ok_def idx_ids_iff [of ti_block "tr_TxInfos s"] GetTxInfo_def)
    then have "GetContractOpInfoByTxID ?t (ti_Id v) = GetContractOpInfoByTxID u (ti_Id v)"
      unfolding f(1) by (rule del_ops_other [OF wf(3)])
    also have "\<dots> = GetContractOpInfoByTxID s (ti_Id v)" by (simp add: GetContractOpInfoByTxID_def f(2,3))
    finally show ?thesis using ops_group [OF wf(4)] ops_group [OF wf(2)] by (simp add: ops_of_def)
  qed
  then show "GetBlockTrackingInfo ?t h' = GetBlockTrackingInfo s h'"
    using block_info [OF wf(4)] block_info [OF wf(2) vs] txs vs by simp
qed

section \<open>Reachable states\<close>

lemma Ingest_inv:
  "tracking_inv s \<Longrightarrow> uint (tr_OpInfoID s) + int (length records) < 2 ^ 64 \<Longrightarrow>
   IngestGasRecord env records s = (r, t) \<Longrightarrow> tracking_inv t"
proof (induction records arbitrary: s)
  case (Cons rec records)
  show ?case
  proof (cases "arch_AccAddressFromBech32 env (gr_ContractAddress rec)")
    case (Ok addr)
    define u where "u = TrackNewContractOperation env addr (operation_type (gr_OperationId rec))
      (FromWasmVMGas env (gr_VMGas rec)) (gr_SDKGas rec) s"
    have small: "uint (tr_OpInfoID s) + 1 < 2 ^ 64" using Cons.prems(2) by simp
    then have "tr_OpInfoID s < - 1" by (simp add: word_less_def unsigned_minus_1_eq_mask mask_eq_exp_minus_1)
    then have inv: "tracking_inv u" unfolding u_def by (rule TrackNewContractOperation_inv [OF Cons.prems(1)])
    have "tr_OpInfoID u = tr_OpInfoID s + 1" by (simp add: u_def TrackNewContractOperation_eq Let_def)
    then have room: "uint (tr_OpInfoID u) + int (length records) < 2 ^ 64"
      using Cons.prems(2) small by (simp add: uint_plus_if')
    have "IngestGasRecord env records u = (r, t)"
      using Cons.prems(3) Ok by (simp add: IngestGasRecord_def go_defs u_def)
    then show ?thesis by (rule Cons.IH [OF inv room])
  qed (use Cons.prems in \<open>auto simp: IngestGasRecord_def go_defs\<close>)
qed (simp add: IngestGasRecord_def)

lemma EndBlocker_inv:
  assumes "tracking_inv s" "tracking_EndBlocker env s = (r, t)"
  shows "tracking_inv t" "r = Ok ()"
proof -
  obtain vs where "GetTxInfosByBlock s (ae_blockHeight env) = Ok vs"
    using block_total [OF tracking_invD(1) [OF assms(1)]] by blast
  from Finalize_blocks [OF assms(1) this] assms(2) show "tracking_inv t" "r = Ok ()"
    unfolding tracking_EndBlocker_def by (metis Pair_inject)+
qed

text \<open>What the chain can do with the module from an empty state: open a transaction, report
  operations (also with a failure), end a block, remove one. Ids do not wrap.\<close>

inductive tracked :: "tracking_state \<Rightarrow> bool" where
  tracked_start: "tracked fresh_tracking"
| tracked_tx: "tracked s \<Longrightarrow> tr_TxInfoID s < - 1 \<Longrightarrow> tracked (TrackNewTx env s)"
| tracked_ops: "tracked s \<Longrightarrow> uint (tr_OpInfoID s) + int (length records) < 2 ^ 64 \<Longrightarrow>
    IngestGasRecord env records s = (r, t) \<Longrightarrow> tracked t"
| tracked_end: "tracked s \<Longrightarrow> tracking_EndBlocker env s = (r, t) \<Longrightarrow> tracked t"
| tracked_remove: "tracked s \<Longrightarrow> tracked (RemoveBlockTrackingInfo h s)"

lemma tracked_inv: "tracked s \<Longrightarrow> tracking_inv s"
proof (induction rule: tracked.induct)
  case (tracked_ops s records env r t)
  then show ?case using Ingest_inv by blast
qed (auto intro: fresh_tracking_inv TrackNewTx_inv EndBlocker_inv Remove_inv)

section \<open>Genesis\<close>

lemma tx_import_fields:
  "fold (\<lambda>obj s. setBlockIndex (ti_Height obj) (ti_Id obj) (SetTxInfo obj s)) objs s =
     s\<lparr>tr_TxInfos := fold (\<lambda>v. kv_set (ti_Id v) v) objs (tr_TxInfos s),
       tr_BlockIndex := fold (\<lambda>v. kv_set (ti_block v, ti_Id v) ()) objs (tr_BlockIndex s)\<rparr>"
  by (induction objs arbitrary: s) (simp_all add: setBlockIndex_def SetTxInfo_def)

lemma op_import_fields:
  "fold (\<lambda>obj s. setTxIndex (oi_TxId obj) (oi_Id obj) (setContractOpInfo obj s)) objs s =
     s\<lparr>tr_OpInfos := fold (\<lambda>v. kv_set (oi_Id v) v) objs (tr_OpInfos s),
       tr_TxIndex := fold (\<lambda>v. kv_set (oi_TxId v, oi_Id v) ()) objs (tr_TxIndex s)\<rparr>"
  by (induction objs arbitrary: s) (simp_all add: setTxIndex_def setContractOpInfo_def)

lemma tracking_genesis_roundtrip:
  assumes "tracking_inv s"
  shows "tracking_InitGenesis (tracking_ExportGenesis s) fresh_tracking = s"
proof -
  have ok: "kv_keyed ti_Id (tr_TxInfos s)" "index_ok ti_block (tr_TxInfos s) (tr_BlockIndex s)"
    "kv_keyed oi_Id (tr_OpInfos s)" "index_ok oi_TxId (tr_OpInfos s) (tr_TxIndex s)"
    using tracking_invD(1,2) [OF assms] by (simp_all add: txs_ok_def ops_ok_def)
  show ?thesis
    by (simp add: tracking_InitGenesis_def tracking_ExportGenesis_def tx_Import_def op_Import_def tx_Export_def op_Export_def
        tx_setLastID_def op_setLastID_def tx_nextID_def op_getNextID_def tx_import_fields op_import_fields fresh_tracking_def
        kv_import [OF ok(1)] kv_import [OF ok(3)] index_import [OF ok(2,1)] index_import [OF ok(4,3)])
qed

section \<open>Properties\<close>

text \<open>Property C34. The end blocker of \<open>x/tracking\<close> never panics in a state the chain can reach, so it
  cannot halt the chain, and adds to every transaction of the block exactly the gas of the contract
  operations filed under it, leaving the operations and all other blocks as they were.\<close>

theorem EndBlocker_adds_gas:
  assumes "tracked s"
  shows "\<exists>txs t. GetBlockTrackingInfo s (ae_blockHeight env) = Ok txs \<and> tracking_EndBlocker env s = (Ok (), t) \<and>
    GetBlockTrackingInfo t (ae_blockHeight env) =
      Ok (map (\<lambda>(tx, ops). (tx\<lparr>ti_TotalGas := ti_TotalGas tx + (\<Sum>op\<leftarrow>ops. oi_VmGas op + oi_SdkGas op)\<rparr>, ops)) txs) \<and>
    (\<forall>h. block_key h \<noteq> block_key (ae_blockHeight env) \<longrightarrow> GetBlockTrackingInfo t h = GetBlockTrackingInfo s h)"
proof -
  have inv: "tracking_inv s" using assms by (rule tracked_inv)
  obtain vs where vs: "GetTxInfosByBlock s (ae_blockHeight env) = Ok vs"
    using block_total [OF tracking_invD(1) [OF inv]] by blast
  obtain t where t: "FinalizeBlockTxTracking env s = (Ok (), t)" "tracking_inv t"
    "GetTxInfosByBlock t (ae_blockHeight env) = Ok (map (finalized s) vs)"
    "\<And>h. block_key h \<noteq> block_key (ae_blockHeight env) \<Longrightarrow> GetTxInfosByBlock t h = GetTxInfosByBlock s h"
    "\<And>i. ops_of t i = ops_of s i"
    by (rule Finalize_blocks [OF inv vs]) (rule that)
  have wf: "txs_ok s" "ops_ok s" "ops_ok t" using tracking_invD(1,2) [OF inv] tracking_invD(2) [OF t(2)] by blast+
  have "finalized s tx = tx\<lparr>ti_TotalGas := ti_TotalGas tx + (\<Sum>op\<leftarrow>ops_of s (ti_Id tx). oi_VmGas op + oi_SdkGas op)\<rparr>" for tx
    using add_op_gas_sum [of "ops_of s (ti_Id tx)" tx] finalized_keeps [of s tx]
    by (intro TxInfo.equality) (simp_all add: finalized_def ops_of_def)
  then have "GetBlockTrackingInfo t (ae_blockHeight env) =
      Ok (map (\<lambda>(tx, ops). (tx\<lparr>ti_TotalGas := ti_TotalGas tx + (\<Sum>op\<leftarrow>ops. oi_VmGas op + oi_SdkGas op)\<rparr>, ops))
        (map (\<lambda>tx. (tx, ops_of s (ti_Id tx))) vs))"
    using block_info [OF wf(3) t(3)] by (simp add: t(5) comp_def)
  moreover have "GetBlockTrackingInfo t h = GetBlockTrackingInfo s h" if "block_key h \<noteq> block_key (ae_blockHeight env)" for h
  proof -
    obtain ws where "GetTxInfosByBlock s h = Ok ws" using block_total [OF wf(1)] by blast
    with block_info [OF wf(3), of h ws] block_info [OF wf(2), of h ws] t(4) [OF that] show ?thesis by (simp add: t(5))
  qed
  ultimately show ?thesis
    using block_info [OF wf(2) vs] t(1) unfolding tracking_EndBlocker_def by blast
qed

text \<open>A transaction of block 5 with two operations.\<close>

definition demo_tracking :: tracking_state where
  "demo_tracking = snd (IngestGasRecord demo_arch
     [\<lparr>gr_OperationId = 1, gr_ContractAddress = ''archway1c'', gr_VMGas = 30, gr_SDKGas = 12\<rparr>,
      \<lparr>gr_OperationId = 2, gr_ContractAddress = ''archway1d'', gr_VMGas = 5, gr_SDKGas = 3\<rparr>]
     (TrackNewTx demo_arch fresh_tracking))"

lemma demo_tracked: "tracked demo_tracking"
proof -
  have "tracked (TrackNewTx demo_arch fresh_tracking)"
    by (rule tracked_tx [OF tracked_start]) (simp add: fresh_tracking_def word_gt_0)
  then show ?thesis
    unfolding demo_tracking_def
    by (rule tracked_ops [OF _ _ surjective_pairing]) (simp add: fresh_tracking_def TrackNewTx_eq Let_def)
qed

theorem EndBlocker_adds_gas_witness:
  "\<exists>t. tracking_EndBlocker demo_arch demo_tracking = (Ok (), t) \<and>
     (\<exists>tx ops. GetBlockTrackingInfo t 5 = Ok [(tx, ops)] \<and> ti_TotalGas tx = 50)"
proof -
  have info: "map_res (map (\<lambda>(tx, ops). (ti_Id tx, ti_TotalGas tx, map (\<lambda>op. oi_VmGas op + oi_SdkGas op) ops)))
      (GetBlockTrackingInfo demo_tracking 5) = Ok [(1, 0, [42, 8])]" by code_simp
  have h: "ae_blockHeight demo_arch = 5" by (simp add: demo_arch_def)
  from EndBlocker_adds_gas [OF demo_tracked, of demo_arch] obtain txs t where
    txs: "GetBlockTrackingInfo demo_tracking 5 = Ok txs" and t: "tracking_EndBlocker demo_arch demo_tracking = (Ok (), t)"
    and after: "GetBlockTrackingInfo t 5 = Ok (map (\<lambda>(tx, ops).
      (tx\<lparr>ti_TotalGas := ti_TotalGas tx + (\<Sum>op\<leftarrow>ops. oi_VmGas op + oi_SdkGas op)\<rparr>, ops)) txs)"
    unfolding h by blast
  from info txs obtain tx ops where "txs = [(tx, ops)]" "ti_TotalGas tx = 0" "map (\<lambda>op. oi_VmGas op + oi_SdkGas op) ops = [42, 8]"
    by (auto simp: res.map)
  with after t show ?thesis by simp
qed

text \<open>Removing a block's tracking removes all of it, its transactions with their operations,
  and nothing of any other block.\<close>

theorem removal_is_exact:
  assumes "tracked s" "is_int64 h" "is_int64 h'" "h' \<noteq> h"
  shows "GetBlockTrackingInfo (RemoveBlockTrackingInfo h s) h = Ok [] \<and>
    GetBlockTrackingInfo (RemoveBlockTrackingInfo h s) h' = GetBlockTrackingInfo s h'"
  using Remove_blocks [OF tracked_inv [OF assms(1)]] block_key_inj assms(2-) by blast

theorem removal_is_exact_witness:
  "GetBlockTrackingInfo (RemoveBlockTrackingInfo 4 demo_tracking) 5 = GetBlockTrackingInfo demo_tracking 5 \<and>
   GetBlockTrackingInfo (RemoveBlockTrackingInfo 5 demo_tracking) 5 = Ok []"
  using removal_is_exact [OF demo_tracked, of 4 5] removal_is_exact [OF demo_tracked, of 5 4]
  by (simp add: is_int64_def)

text \<open>The genesis exported from a reachable state of \<open>x/tracking\<close>, imported into an empty
  one, gives that state back, with both indexes and the counters of ids.\<close>

theorem tracking_export_import:
  assumes "tracked s"
  shows "tracking_InitGenesis (tracking_ExportGenesis s) fresh_tracking = s"
  by (rule tracking_genesis_roundtrip [OF tracked_inv [OF assms]])

theorem tracking_export_import_witness:
  "tracking_InitGenesis (tracking_ExportGenesis demo_tracking) fresh_tracking = demo_tracking"
  by (rule tracking_export_import [OF demo_tracked])

end
