(* ===== verification/Rewards.thy ===== *)
theory Rewards
  imports Tracking
begin

text \<open>
  Archway's \<open>x/rewards\<close> (\<open>deps/archway-main/x/rewards\<close>): contracts earn a share of the
  transaction fees and of the inflation.

  The ante handler sends a part of the fees of a contract transaction to the rewards pool and
  tracks it (\<open>ante/fee_deduction.go\<close>); the bank keeper wrapped around \<open>x/mint\<close> does the
  same with minted coins (\<open>mintbankkeeper\<close>). The end blocker shares what a block has brought
  among its contracts by the gas they used, as records for their rewards addresses, and sends the
  rest to the treasury (\<open>keeper/distribution.go\<close>); the owner of an address withdraws its
  records (\<open>keeper/withdraw.go\<close>). Contract metadata, flat fees and the minimum consensus fee
  belong to the module too.

  The state holds the module's stores, the state of \<open>x/tracking\<close> and the bank. Go maps are
  kept sorted by key: their iteration order is not fixed in the code, and what is computed from them
  is a sum. Events are left out, as is \<open>RewardsPool\<close>, which lists the balances of a module
  account.
\<close>

section \<open>Data\<close>

record ContractMetadata =
  cm_ContractAddress :: string
  cm_OwnerAddress :: string
  cm_RewardsAddress :: string
  cm_MinimumRewardAmount :: uint64
  cm_LiquidityTokenAddress :: string
  cm_LiquidStakeInterval :: uint64
  cm_RedemptionInterval :: uint64
  cm_RewardsWithdrawalInterval :: uint64
  cm_RedemptionAddress :: string
  cm_RedemptionRateThreshold :: uint64
  cm_RedemptionIntervalThreshold :: uint64
  cm_MaximumThreshold :: uint64
  cm_ArchwayRewardFundsTransferAddress :: string
  cm_LiquidityProviderAddress :: string
  cm_LiquidityProviderCommission :: uint64
  cm_AirdropDuration :: uint64
  cm_AirdropRecipientAddress :: string
  cm_AirdropVestingPeriod :: uint64

definition empty_metadata :: ContractMetadata where
  "empty_metadata = \<lparr>cm_ContractAddress = '''', cm_OwnerAddress = '''', cm_RewardsAddress = '''',
     cm_MinimumRewardAmount = 0, cm_LiquidityTokenAddress = '''', cm_LiquidStakeInterval = 0,
     cm_RedemptionInterval = 0, cm_RewardsWithdrawalInterval = 0, cm_RedemptionAddress = '''',
     cm_RedemptionRateThreshold = 0, cm_RedemptionIntervalThreshold = 0, cm_MaximumThreshold = 0,
     cm_ArchwayRewardFundsTransferAddress = '''', cm_LiquidityProviderAddress = '''',
     cm_LiquidityProviderCommission = 0, cm_AirdropDuration = 0, cm_AirdropRecipientAddress = '''',
     cm_AirdropVestingPeriod = 0\<rparr>"

record BlockRewards =
  br_Height :: int
  br_InflationRewards :: "denom \<times> int"
  br_MaxGas :: uint64

record TxRewards =
  xr_TxId :: uint64
  xr_Height :: int
  xr_FeeRewards :: coins

record RewardsRecord =
  rr_Id :: uint64
  rr_RewardsAddress :: string
  rr_Rewards :: coins
  rr_CalculatedHeight :: int
  rr_CalculatedTime :: int

record rewards_params =
  rp_InflationRewardsRatio :: Dec
  rp_TxFeeRebateRatio :: Dec
  rp_MaxWithdrawRecords :: uint64

record rewards_state =
  rw_params :: rewards_params
  rw_metadata :: "(address, ContractMetadata) kvstore"
  rw_blockRewards :: "(uint64, BlockRewards) kvstore"
  rw_txRewards :: "(uint64, TxRewards) kvstore"
  rw_txIndex :: "(uint64, uint64) index"
  rw_minConsFee :: "(denom \<times> Dec) option"
  rw_recordID :: uint64
  rw_records :: "(uint64, RewardsRecord) kvstore"
  rw_addrIndex :: "(address, uint64) index"
  rw_flatFees :: "(address, denom \<times> int) kvstore"
  rw_tracking :: tracking_state
  rw_bank :: bank

definition ContractRewardCollector :: string where "ContractRewardCollector = ''rewards''"
definition TreasuryCollector :: string where "TreasuryCollector = ''treasury''"
definition FeeCollectorName :: string where "FeeCollectorName = ''fee_collector''"

text \<open>A call of the bank keeper.\<close>

definition rw_on_bank :: "(bank, 'a) go \<Rightarrow> (rewards_state, 'a) go" where
  "rw_on_bank m s = (let (r, b) = m (rw_bank s) in (r, s\<lparr>rw_bank := b\<rparr>))"

section \<open>Validation\<close>

definition HasOwnerAddress :: "ContractMetadata \<Rightarrow> bool" where
  "HasOwnerAddress m \<longleftrightarrow> cm_OwnerAddress m \<noteq> ''''"

definition HasRewardsAddress :: "ContractMetadata \<Rightarrow> bool" where
  "HasRewardsAddress m \<longleftrightarrow> cm_RewardsAddress m \<noteq> ''''"

definition meta_MustGetContractAddress :: "arch_env \<Rightarrow> ContractMetadata \<Rightarrow> address res" where
  "meta_MustGetContractAddress env m = res_must (arch_AccAddressFromBech32 env (cm_ContractAddress m))"

definition meta_MustGetRewardsAddress :: "arch_env \<Rightarrow> ContractMetadata \<Rightarrow> address res" where
  "meta_MustGetRewardsAddress env m = res_must (arch_AccAddressFromBech32 env (cm_RewardsAddress m))"

definition ContractMetadata_Validate :: "arch_env \<Rightarrow> bool \<Rightarrow> ContractMetadata \<Rightarrow> unit res" where
  "ContractMetadata_Validate env genesisValidation m =
     (if \<not> res_ok (arch_AccAddressFromBech32 env (cm_ContractAddress m)) then Err (Sdk ErrInvalidAddress)
      else if (genesisValidation \<or> cm_OwnerAddress m \<noteq> '''') \<and>
              \<not> res_ok (arch_AccAddressFromBech32 env (cm_OwnerAddress m)) then Err (Sdk ErrInvalidAddress)
      else if cm_RewardsAddress m \<noteq> '''' \<and>
              \<not> res_ok (arch_AccAddressFromBech32 env (cm_RewardsAddress m)) then Err (Sdk ErrInvalidAddress)
      else Ok ())"

definition ValidateCoin :: "denom \<times> int \<Rightarrow> unit res" where
  "ValidateCoin coin =
     (if \<not> ValidateDenom (fst coin) then Err Plain else if snd coin < 0 then Err Plain else Ok ())"

definition ValidateDecCoin :: "denom \<times> Dec \<Rightarrow> unit res" where
  "ValidateDecCoin coin =
     (if \<not> ValidateDenom (fst coin) then Err Plain else if snd coin < 0 then Err Plain else Ok ())"

definition block_HasRewards :: "BlockRewards \<Rightarrow> bool" where
  "block_HasRewards m \<longleftrightarrow> snd (br_InflationRewards m) \<noteq> 0"

definition HasGasLimit :: "BlockRewards \<Rightarrow> bool" where
  "HasGasLimit m \<longleftrightarrow> br_MaxGas m > 0"

definition BlockRewards_Validate :: "BlockRewards \<Rightarrow> unit res" where
  "BlockRewards_Validate m =
     (if br_Height m < 0 then Err Plain
      else if snd (br_InflationRewards m) \<noteq> 0 then ValidateCoin (br_InflationRewards m) else Ok ())"

definition tx_HasRewards :: "TxRewards \<Rightarrow> bool" where
  "tx_HasRewards m \<longleftrightarrow> \<not> Coins_IsZero (xr_FeeRewards m)"

definition TxRewards_Validate :: "TxRewards \<Rightarrow> unit res" where
  "TxRewards_Validate m =
     (if xr_TxId m \<le> 0 then Err Plain
      else if xr_Height m < 0 then Err Plain
      else res_acc (\<lambda>coin _. if snd coin = 0 then Err Plain else ValidateCoin coin) (xr_FeeRewards m) ())"

definition rr_MustGetRewardsAddress :: "arch_env \<Rightarrow> RewardsRecord \<Rightarrow> address res" where
  "rr_MustGetRewardsAddress env m = res_must (arch_AccAddressFromBech32 env (rr_RewardsAddress m))"

text \<open>The zero time is the first of January of the year one, in seconds before 1970.\<close>

definition time_IsZero :: "int \<Rightarrow> bool" where
  "time_IsZero t \<longleftrightarrow> t = - 62135596800 * 10 ^ 9"

definition RewardsRecord_Validate :: "arch_env \<Rightarrow> RewardsRecord \<Rightarrow> unit res" where
  "RewardsRecord_Validate env m =
     (if rr_Id m \<le> 0 then Err Plain
      else if \<not> res_ok (arch_AccAddressFromBech32 env (rr_RewardsAddress m)) then Err Plain
      else rbind (res_acc (\<lambda>coin _. ValidateCoin coin) (rr_Rewards m) ()) (\<lambda>_.
        if rr_CalculatedHeight m < 0 then Err Plain
        else if time_IsZero (rr_CalculatedTime m) then Err Plain else Ok ()))"

definition FlatFee_Validate :: "arch_env \<Rightarrow> string \<times> denom \<times> int \<Rightarrow> unit res" where
  "FlatFee_Validate env m =
     (if \<not> res_ok (arch_AccAddressFromBech32 env (fst m)) then Err (Sdk ErrInvalidAddress)
      else if \<not> res_ok (ValidateCoin (snd m)) then Err (Sdk ErrInvalidCoins) else Ok ())"

definition validateRatio :: "Dec \<Rightarrow> unit res" where
  "validateRatio v = (if v < 0 then Err Plain else if v \<ge> OneDec then Err Plain else Ok ())"

definition MaxWithdrawRecordsParamLimit :: uint64 where "MaxWithdrawRecordsParamLimit = 25000"
definition MaxRecordsQueryLimit :: uint64 where "MaxRecordsQueryLimit = 7500"

definition validateMaxWithdrawRecords :: "uint64 \<Rightarrow> unit res" where
  "validateMaxWithdrawRecords p =
     (if p = 0 then Err Plain else if p > MaxWithdrawRecordsParamLimit then Err Plain else Ok ())"

definition rewards_Params_Validate :: "rewards_params \<Rightarrow> unit res" where
  "rewards_Params_Validate m =
     rbind (validateRatio (rp_InflationRewardsRatio m)) (\<lambda>_.
     rbind (validateRatio (rp_TxFeeRebateRatio m)) (\<lambda>_.
     validateMaxWithdrawRecords (rp_MaxWithdrawRecords m)))"

definition rewards_DefaultParams :: rewards_params where
  "rewards_DefaultParams =
     \<lparr>rp_InflationRewardsRatio = 2 * 10 ^ 17, rp_TxFeeRebateRatio = 5 * 10 ^ 17,
      rp_MaxWithdrawRecords = MaxWithdrawRecordsParamLimit\<rparr>"

section \<open>Stores\<close>

definition GetContractMetadata :: "rewards_state \<Rightarrow> address \<Rightarrow> ContractMetadata option" where
  "GetContractMetadata s contractAddr = kv_get (rw_metadata s) contractAddr"

definition state_SetContractMetadata :: "address \<Rightarrow> ContractMetadata \<Rightarrow> rewards_state \<Rightarrow> rewards_state" where
  "state_SetContractMetadata contractAddr obj s = s\<lparr>rw_metadata := kv_set contractAddr obj (rw_metadata s)\<rparr>"

definition setBlockRewards :: "BlockRewards \<Rightarrow> rewards_state \<Rightarrow> rewards_state" where
  "setBlockRewards obj s = s\<lparr>rw_blockRewards := kv_set (block_key (br_Height obj)) obj (rw_blockRewards s)\<rparr>"

definition CreateBlockRewards :: "int \<Rightarrow> denom \<times> int \<Rightarrow> uint64 \<Rightarrow> rewards_state \<Rightarrow> rewards_state" where
  "CreateBlockRewards height rewards blockMaxGas s =
     setBlockRewards \<lparr>br_Height = height, br_InflationRewards = rewards, br_MaxGas = blockMaxGas\<rparr> s"

definition GetBlockRewards :: "rewards_state \<Rightarrow> int \<Rightarrow> BlockRewards option" where
  "GetBlockRewards s height = kv_get (rw_blockRewards s) (block_key height)"

definition DeleteBlockRewards :: "int \<Rightarrow> rewards_state \<Rightarrow> rewards_state" where
  "DeleteBlockRewards height s = s\<lparr>rw_blockRewards := kv_delete (block_key height) (rw_blockRewards s)\<rparr>"

definition setTxRewards :: "TxRewards \<Rightarrow> rewards_state \<Rightarrow> rewards_state" where
  "setTxRewards obj s = s\<lparr>rw_txRewards := kv_set (xr_TxId obj) obj (rw_txRewards s)\<rparr>"

definition xr_setBlockIndex :: "int \<Rightarrow> uint64 \<Rightarrow> rewards_state \<Rightarrow> rewards_state" where
  "xr_setBlockIndex height txID s = s\<lparr>rw_txIndex := kv_set (block_key height, txID) () (rw_txIndex s)\<rparr>"

definition CreateTxRewards :: "uint64 \<Rightarrow> int \<Rightarrow> coins \<Rightarrow> rewards_state \<Rightarrow> rewards_state" where
  "CreateTxRewards txID height rewards s =
     (let obj = \<lparr>xr_TxId = txID, xr_Height = height, xr_FeeRewards = rewards\<rparr> in
      xr_setBlockIndex (xr_Height obj) (xr_TxId obj) (setTxRewards obj s))"

definition GetTxRewards :: "rewards_state \<Rightarrow> uint64 \<Rightarrow> TxRewards option" where
  "GetTxRewards s txID = kv_get (rw_txRewards s) txID"

text \<open>Parsing an index key panics on a height past \<open>MaxInt64\<close>.\<close>

definition xr_block_ids :: "rewards_state \<Rightarrow> int \<Rightarrow> uint64 list res" where
  "xr_block_ids s height =
     (let ids = idx_ids (rw_txIndex s) (block_key height) in
      if ids \<noteq> [] \<and> uint (block_key height) > 2 ^ 63 - 1 then Panic else Ok ids)"

definition GetTxRewardsByBlock :: "rewards_state \<Rightarrow> int \<Rightarrow> TxRewards list res" where
  "GetTxRewardsByBlock s height = rbind (xr_block_ids s height) (idx_items (rw_txRewards s))"

definition deleteTxRewardsByBlock :: "int \<Rightarrow> (rewards_state, uint64 list) go" where
  "deleteTxRewardsByBlock height s =
     (case xr_block_ids s height of
        Ok removedTxIDs \<Rightarrow>
          (Ok removedTxIDs,
           s\<lparr>rw_txRewards := fold kv_delete removedTxIDs (rw_txRewards s),
             rw_txIndex := fold kv_delete (map (Pair (block_key height)) removedTxIDs) (rw_txIndex s)\<rparr>)
      | Err e \<Rightarrow> (Err e, s) | Panic \<Rightarrow> (Panic, s))"

definition DeleteBlockRewardsCascade :: "int \<Rightarrow> (rewards_state, unit) go" where
  "DeleteBlockRewardsCascade height =
     go_bind (go_modify (DeleteBlockRewards height)) (\<lambda>_.
     go_bind (deleteTxRewardsByBlock height) (\<lambda>_. go_ret ()))"

definition rr_getNextID :: "rewards_state \<Rightarrow> uint64" where
  "rr_getNextID s = rw_recordID s + 1"

definition rr_setLastID :: "uint64 \<Rightarrow> rewards_state \<Rightarrow> rewards_state" where
  "rr_setLastID i s = s\<lparr>rw_recordID := i\<rparr>"

definition setRewardsRecord :: "RewardsRecord \<Rightarrow> rewards_state \<Rightarrow> rewards_state" where
  "setRewardsRecord obj s = s\<lparr>rw_records := kv_set (rr_Id obj) obj (rw_records s)\<rparr>"

definition setAddressIndex :: "uint64 \<Rightarrow> address \<Rightarrow> rewards_state \<Rightarrow> rewards_state" where
  "setAddressIndex i rewardsAddr s = s\<lparr>rw_addrIndex := kv_set (rewardsAddr, i) () (rw_addrIndex s)\<rparr>"

definition CreateRewardsRecord ::
  "arch_env \<Rightarrow> address \<Rightarrow> coins \<Rightarrow> int \<Rightarrow> int \<Rightarrow> rewards_state \<Rightarrow> rewards_state" where
  "CreateRewardsRecord env rewardsAddr rewards calculatedHeight calculatedTime s =
     (let obj = \<lparr>rr_Id = rr_getNextID s, rr_RewardsAddress = AccAddress_String env rewardsAddr,
                 rr_Rewards = rewards, rr_CalculatedHeight = calculatedHeight,
                 rr_CalculatedTime = calculatedTime\<rparr> in
      rr_setLastID (rr_Id obj) (setAddressIndex (rr_Id obj) rewardsAddr (setRewardsRecord obj s)))"

definition GetRewardsRecord :: "rewards_state \<Rightarrow> uint64 \<Rightarrow> RewardsRecord option" where
  "GetRewardsRecord s i = kv_get (rw_records s) i"

definition GetRewardsRecordByRewardsAddress :: "rewards_state \<Rightarrow> address \<Rightarrow> RewardsRecord list res" where
  "GetRewardsRecordByRewardsAddress s rewardsAddr =
     idx_items (rw_records s) (idx_ids (rw_addrIndex s) rewardsAddr)"

text \<open>The first page: \<open>Paginate\<close> takes a limit of zero as a hundred.\<close>

definition GetRewardsRecordByRewardsAddressPaginated ::
  "rewards_state \<Rightarrow> address \<Rightarrow> uint64 \<Rightarrow> RewardsRecord list res" where
  "GetRewardsRecordByRewardsAddressPaginated s rewardsAddr limit =
     idx_items (rw_records s)
       (take (if limit = 0 then 100 else unat limit) (idx_ids (rw_addrIndex s) rewardsAddr))"

definition delete_record :: "arch_env \<Rightarrow> RewardsRecord \<Rightarrow> (rewards_state, unit) go" where
  "delete_record env obj =
     go_bind (go_modify (\<lambda>s. s\<lparr>rw_records := kv_delete (rr_Id obj) (rw_records s)\<rparr>)) (\<lambda>_.
     go_bind (go_lift (rr_MustGetRewardsAddress env obj)) (\<lambda>addr.
     go_modify (\<lambda>s. s\<lparr>rw_addrIndex := kv_delete (addr, rr_Id obj) (rw_addrIndex s)\<rparr>)))"

definition DeleteRewardsRecords :: "arch_env \<Rightarrow> RewardsRecord list \<Rightarrow> (rewards_state, unit) go" where
  "DeleteRewardsRecords env objs = for_each (delete_record env) objs"

definition flat_SetFee :: "address \<Rightarrow> denom \<times> int \<Rightarrow> rewards_state \<Rightarrow> rewards_state" where
  "flat_SetFee contractAddr feeCoin s = s\<lparr>rw_flatFees := kv_set contractAddr feeCoin (rw_flatFees s)\<rparr>"

definition GetFlatFee :: "rewards_state \<Rightarrow> address \<Rightarrow> (denom \<times> int) option" where
  "GetFlatFee s contractAddr = kv_get (rw_flatFees s) contractAddr"

definition RemoveFee :: "address \<Rightarrow> rewards_state \<Rightarrow> rewards_state" where
  "RemoveFee contractAddr s = s\<lparr>rw_flatFees := kv_delete contractAddr (rw_flatFees s)\<rparr>"

definition SetMinConsFee :: "denom \<times> Dec \<Rightarrow> rewards_state \<Rightarrow> rewards_state" where
  "SetMinConsFee feeCoin s = s\<lparr>rw_minConsFee := Some feeCoin\<rparr>"

definition GetMinConsensusFee :: "rewards_state \<Rightarrow> (denom \<times> Dec) option" where
  "GetMinConsensusFee s = rw_minConsFee s"

text \<open>The parameter store refuses an invalid parameter with a panic.\<close>

definition rewards_SetParams :: "rewards_params \<Rightarrow> (rewards_state, unit) go" where
  "rewards_SetParams params =
     (if res_ok (rewards_Params_Validate params) then go_modify (\<lambda>s. s\<lparr>rw_params := params\<rparr>) else go_panic)"

section \<open>Contract metadata and flat fees\<close>

definition UpdateContractMetadata :: "ContractMetadata \<Rightarrow> ContractMetadata \<Rightarrow> ContractMetadata" where
  "UpdateContractMetadata metaOld metaUpdates = metaOld\<lparr>
     cm_OwnerAddress := cm_OwnerAddress metaUpdates,
     cm_RewardsAddress := cm_RewardsAddress metaUpdates,
     cm_MinimumRewardAmount := cm_MinimumRewardAmount metaUpdates,
     cm_LiquidityTokenAddress := cm_LiquidityTokenAddress metaUpdates,
     cm_LiquidStakeInterval := cm_LiquidStakeInterval metaUpdates,
     cm_RedemptionInterval := cm_RedemptionInterval metaUpdates,
     cm_RewardsWithdrawalInterval := cm_RewardsWithdrawalInterval metaUpdates,
     cm_RedemptionAddress := cm_RedemptionAddress metaUpdates,
     cm_RedemptionRateThreshold := cm_RedemptionRateThreshold metaUpdates,
     cm_RedemptionIntervalThreshold := cm_RedemptionIntervalThreshold metaUpdates,
     cm_MaximumThreshold := cm_MaximumThreshold metaUpdates,
     cm_ArchwayRewardFundsTransferAddress := cm_ArchwayRewardFundsTransferAddress metaUpdates,
     cm_LiquidityProviderAddress := cm_LiquidityProviderAddress metaUpdates,
     cm_LiquidityProviderCommission := cm_LiquidityProviderCommission metaUpdates,
     cm_AirdropDuration := cm_AirdropDuration metaUpdates,
     cm_AirdropRecipientAddress := cm_AirdropRecipientAddress metaUpdates,
     cm_AirdropVestingPeriod := cm_AirdropVestingPeriod metaUpdates\<rparr>"

text \<open>The check of the sender is commented out in the source.\<close>

definition SetContractMetadata ::
  "arch_env \<Rightarrow> address \<Rightarrow> address \<Rightarrow> ContractMetadata \<Rightarrow> (rewards_state, unit) go" where
  "SetContractMetadata env senderAddr contractAddr metaUpdates =
     (case ae_GetContractInfo env contractAddr of
        None \<Rightarrow> go_fail (RewardsErr ErrContractNotFound)
      | Some contractInfo \<Rightarrow>
          go_bind (go_gets (\<lambda>s. case GetContractMetadata s contractAddr of None \<Rightarrow> empty_metadata | Some m \<Rightarrow> m)) (\<lambda>metaOld.
          go_modify (state_SetContractMetadata contractAddr (UpdateContractMetadata metaOld metaUpdates))))"

definition SetFlatFee :: "arch_env \<Rightarrow> address \<Rightarrow> string \<times> denom \<times> int \<Rightarrow> (rewards_state, unit) go" where
  "SetFlatFee env senderAddr feeUpdate =
     go_bind (go_lift (res_must (arch_AccAddressFromBech32 env (fst feeUpdate)))) (\<lambda>contractAddr.
     go_bind (go_gets (\<lambda>s. GetContractMetadata s contractAddr)) (\<lambda>contractInfo.
     case contractInfo of
       None \<Rightarrow> go_fail (RewardsErr ErrMetadataNotFound)
     | Some contractInfo \<Rightarrow>
         if cm_OwnerAddress contractInfo \<noteq> AccAddress_String env senderAddr
         then go_fail (RewardsErr ErrRewardsUnauthorized)
         else if snd (snd feeUpdate) = 0 then go_modify (RemoveFee contractAddr)
         else go_modify (flat_SetFee contractAddr (snd feeUpdate))))"

section \<open>Tracking of rewards\<close>

definition TrackFeeRebatesRewards :: "arch_env \<Rightarrow> coins \<Rightarrow> rewards_state \<Rightarrow> rewards_state" where
  "TrackFeeRebatesRewards env rewards s =
     CreateTxRewards (GetCurrentTxID (rw_tracking s)) (ae_blockHeight env) rewards s"

definition TrackInflationRewards :: "arch_env \<Rightarrow> denom \<times> int \<Rightarrow> rewards_state \<Rightarrow> rewards_state" where
  "TrackInflationRewards env rewards s =
     CreateBlockRewards (ae_blockHeight env) rewards (ae_blockGasLimit env) s"

definition calculateMinConsensusFeeAmt :: "Dec \<Rightarrow> Dec \<Rightarrow> Dec \<Rightarrow> Dec res" where
  "calculateMinConsensusFeeAmt blockRewards gasLimit txFeeRatio =
     rbind (Dec_Sub txFeeRatio OneDec) (\<lambda>r.
     rbind (Dec_Mul gasLimit r) (\<lambda>g.
     rbind (Dec_Quo blockRewards g) (\<lambda>q. Ok (- q))))"

definition UpdateMinConsensusFee :: "denom \<times> int \<Rightarrow> (rewards_state, unit) go" where
  "UpdateMinConsensusFee inflationRewards =
     (if snd inflationRewards = 0 then go_ret ()
      else go_bind (go_gets (\<lambda>s. rp_TxFeeRebateRatio (rw_params s))) (\<lambda>txFeeRebateRatio.
        go_bind (go_lift (calculateMinConsensusFeeAmt (NewDecFromInt (snd inflationRewards))
          (NewDecFromUint64 2000000) txFeeRebateRatio)) (\<lambda>feeAmt.
        if feeAmt \<le> 0 then go_ret ()
        else go_modify (SetMinConsFee (fst inflationRewards, feeAmt)))))"

text \<open>The bank keeper \<open>x/mint\<close> is given (\<open>mintbankkeeper\<close>).\<close>

definition mint_SendCoinsFromModuleToModule ::
  "arch_env \<Rightarrow> string \<Rightarrow> string \<Rightarrow> coins \<Rightarrow> (rewards_state, unit) go" where
  "mint_SendCoinsFromModuleToModule env senderModule recipientModule amount =
     go_bind (go_gets (\<lambda>s. rp_InflationRewardsRatio (rw_params s))) (\<lambda>ratio.
     if recipientModule \<noteq> FeeCollectorName \<or> ratio = 0
     then rw_on_bank (SendCoinsFromModuleToModule (ae_bank env) senderModule recipientModule amount)
     else
       go_bind (go_lift (SplitCoins amount ratio)) (\<lambda>(dappRewards, stakingRewards).
       go_bind (if stakingRewards \<noteq> []
         then rw_on_bank (SendCoinsFromModuleToModule (ae_bank env) senderModule recipientModule stakingRewards)
         else go_ret ()) (\<lambda>_.
       go_bind (if dappRewards \<noteq> []
         then rw_on_bank (SendCoinsFromModuleToModule (ae_bank env) senderModule ContractRewardCollector dappRewards)
         else go_ret ()) (\<lambda>_.
       case dappRewards of
         [coin] \<Rightarrow> go_bind (go_modify (TrackInflationRewards env coin)) (\<lambda>_. UpdateMinConsensusFee coin)
       | _ \<Rightarrow> go_panic))))"

definition mint_SendCoinsFromModuleToAccount ::
  "arch_env \<Rightarrow> string \<Rightarrow> address \<Rightarrow> coins \<Rightarrow> (rewards_state, unit) go" where
  "mint_SendCoinsFromModuleToAccount env senderModule recipientAddr amount =
     rw_on_bank (SendCoinsFromModuleToAccount (ae_bank env) senderModule recipientAddr amount)"

definition mintbank_MintCoins :: "arch_env \<Rightarrow> string \<Rightarrow> coins \<Rightarrow> (rewards_state, unit) go" where
  "mintbank_MintCoins env name amount = rw_on_bank (MintCoins (ae_bank env) name amount)"

section \<open>Ante handlers\<close>

text \<open>The messages the handlers look into. \<open>MsgExec\<close> of \<open>x/authz\<close> wraps messages, of which
  one may fail to decode.\<close>

datatype arch_msg = MsgExecuteContract string | MsgMigrateContract | MsgExec "arch_msg option list" | OtherMsg

record fee_tx =
  ft_Fee :: coins
  ft_Gas :: uint64
  ft_FeePayer :: address
  ft_FeeGranter :: "address option"
  ft_Msgs :: "arch_msg list"

text \<open>\<open>x/auth\<close> and \<open>x/feegrant\<close>: whether an account exists, and whether a grant lets the
  payer use the granter's coins (\<open>None\<close> when the module is off).\<close>

record ante_env =
  an_env :: arch_env
  an_HasAccount :: "address \<Rightarrow> bool"
  an_UseGrantedFees :: "(address \<Rightarrow> address \<Rightarrow> coins \<Rightarrow> unit res) option"

definition is_wasm_msg :: "arch_msg \<Rightarrow> bool" where
  "is_wasm_msg msg = (case msg of MsgExecuteContract _ \<Rightarrow> True | MsgMigrateContract \<Rightarrow> True | _ \<Rightarrow> False)"

definition deductFees :: "arch_env \<Rightarrow> arch_msg list \<Rightarrow> address \<Rightarrow> coins \<Rightarrow> (rewards_state, unit) go" where
  "deductFees env msgs acc fees =
     (if \<not> Coins_IsValid fees then go_fail (Sdk ErrInsufficientFee)
      else go_bind (go_gets (\<lambda>s. rp_TxFeeRebateRatio (rw_params s))) (\<lambda>rebateRatio.
        if rebateRatio = 0 \<or> \<not> list_ex is_wasm_msg msgs
        then go_wrap (Sdk ErrInsufficientFunds)
          (rw_on_bank (SendCoinsFromAccountToModule (ae_bank env) acc FeeCollectorName fees))
        else
          go_bind (go_lift (SplitCoins fees rebateRatio)) (\<lambda>(rewardsFees, authFees).
          go_bind (if authFees \<noteq> []
            then go_wrap (Sdk ErrInsufficientFunds)
              (rw_on_bank (SendCoinsFromAccountToModule (ae_bank env) acc FeeCollectorName authFees))
            else go_ret ()) (\<lambda>_.
          go_bind (if rewardsFees \<noteq> []
            then go_wrap (Sdk ErrInsufficientFunds)
              (rw_on_bank (SendCoinsFromAccountToModule (ae_bank env) acc ContractRewardCollector rewardsFees))
            else go_ret ()) (\<lambda>_.
          go_modify (TrackFeeRebatesRewards env rewardsFees))))))"

text \<open>A transaction without fees is \<open>None\<close>.\<close>

definition fee_account :: "ante_env \<Rightarrow> fee_tx \<Rightarrow> address res" where
  "fee_account an tx =
     (case ft_FeeGranter tx of
        None \<Rightarrow> Ok (ft_FeePayer tx)
      | Some feeGranter \<Rightarrow>
          (case an_UseGrantedFees an of
             None \<Rightarrow> Err (Sdk ErrInvalidRequest)
           | Some UseGrantedFees \<Rightarrow>
               if feeGranter = ft_FeePayer tx then Ok feeGranter
               else rbind (UseGrantedFees feeGranter (ft_FeePayer tx) (ft_Fee tx)) (\<lambda>_. Ok feeGranter)))"

definition DeductFee_AnteHandle :: "ante_env \<Rightarrow> fee_tx option \<Rightarrow> (rewards_state, unit) go" where
  "DeductFee_AnteHandle an tx =
     (case tx of
        None \<Rightarrow> go_fail (Sdk ErrTxDecode)
      | Some feeTx \<Rightarrow>
          if be_module (ae_bank (an_env an)) FeeCollectorName = None then go_fail Plain
          else go_bind (go_lift (fee_account an feeTx)) (\<lambda>deductFeesFrom.
            if \<not> an_HasAccount an deductFeesFrom then go_fail (Sdk ErrUnknownAddress)
            else if \<not> Coins_IsZero (ft_Fee feeTx)
            then deductFees (an_env an) (ft_Msgs feeTx) deductFeesFrom (ft_Fee feeTx)
            else go_ret ()))"

function getContractFlatFees :: "arch_env \<Rightarrow> rewards_state \<Rightarrow> arch_msg \<Rightarrow> coins res"
  and wrapped_flat_fees :: "arch_env \<Rightarrow> rewards_state \<Rightarrow> arch_msg option list \<Rightarrow> coins \<Rightarrow> coins res" where
  "getContractFlatFees env s (MsgExecuteContract contract) =
     rbind (arch_AccAddressFromBech32 env contract) (\<lambda>ca.
     case GetFlatFee s ca of Some fee \<Rightarrow> NewCoins [fee] | None \<Rightarrow> Ok [])"
| "getContractFlatFees env s (MsgExec msgs) = wrapped_flat_fees env s msgs []"
| "getContractFlatFees env s MsgMigrateContract = Ok []"
| "getContractFlatFees env s OtherMsg = Ok []"
| "wrapped_flat_fees env s [] flatfees = Ok flatfees"
| "wrapped_flat_fees env s (None # msgs) flatfees = Err (Sdk ErrUnauthorized)"
| "wrapped_flat_fees env s (Some wrappedMsg # msgs) flatfees =
     rbind (getContractFlatFees env s wrappedMsg) (\<lambda>fees.
     rbind (Coins_Add45 flatfees fees) (wrapped_flat_fees env s msgs))"
  by pat_completeness auto
termination
  by (relation "measure (case_sum (\<lambda>(_, _, m). size m) (\<lambda>(_, _, ms, _). size_list (size_option size) ms))") auto

definition min_fee :: "(denom \<times> Dec) option \<Rightarrow> uint64 \<Rightarrow> coins res" where
  "min_fee gasUnitPrice gas =
     (case gasUnitPrice of
        None \<Rightarrow> Ok []
      | Some price \<Rightarrow>
          let txGasLimit = NewDecFromUint64 gas in
          if txGasLimit = 0 then Err (Sdk ErrInvalidRequest)
          else rbind (Dec_Mul (snd price) txGasLimit) (\<lambda>x.
            rbind (Dec_RoundInt x) (\<lambda>amount. Coins_Add45 [] [(fst price, amount)])))"

definition MinFee_AnteHandle :: "arch_env \<Rightarrow> fee_tx option \<Rightarrow> bool \<Rightarrow> rewards_state \<Rightarrow> unit res" where
  "MinFee_AnteHandle env tx simulate s =
     (if simulate then Ok ()
      else case tx of
        None \<Rightarrow> Err (Sdk ErrTxDecode)
      | Some feeTx \<Rightarrow>
          rbind (min_fee (GetMinConsensusFee s) (ft_Gas feeTx)) (\<lambda>minFee.
          rbind (res_acc (\<lambda>m expectedFees. rbind (getContractFlatFees env s m) (Coins_Add45 expectedFees))
            (ft_Msgs feeTx) minFee) (\<lambda>expectedFees.
          if Coins_IsZero expectedFees then Ok ()
          else rbind (Coins_IsAllGTE (ft_Fee feeTx) expectedFees) (\<lambda>enough.
            if enough then Ok () else Err (Sdk ErrInsufficientFee)))))"

section \<open>Distribution\<close>

record contract_distr =
  cd_ContractAddress :: address
  cd_Metadata :: "ContractMetadata option"
  cd_BlockGasUsed :: uint64
  cd_TxGasUsed :: "(uint64, uint64) kvstore"
  cd_FeeRewards :: coins
  cd_InflationaryRewards :: "denom \<times> int"

record block_distr =
  bd_Height :: int
  bd_Txs :: "(uint64, uint64) kvstore"
  bd_Contracts :: "(string, contract_distr) kvstore"
  bd_RewardsTotal :: coins
  bd_RewardsDistributed :: coins

definition new_contract_distr ::
  "arch_env \<Rightarrow> rewards_state \<Rightarrow> ContractOperationInfo \<Rightarrow> contract_distr res" where
  "new_contract_distr env s contractOp =
     rbind (op_MustGetContractAddress env contractOp) (\<lambda>addr.
     Ok \<lparr>cd_ContractAddress = addr, cd_Metadata = GetContractMetadata s addr, cd_BlockGasUsed = 0,
         cd_TxGasUsed = [], cd_FeeRewards = [], cd_InflationaryRewards = ('''', 0)\<rparr>)"

definition add_gas :: "ContractOperationInfo \<Rightarrow> uint64 \<Rightarrow> contract_distr \<Rightarrow> contract_distr" where
  "add_gas contractOp opGasUsed c =
     (let txGasUsed = (case kv_get (cd_TxGasUsed c) (oi_TxId contractOp) of None \<Rightarrow> 0 | Some g \<Rightarrow> g) in
      c\<lparr>cd_BlockGasUsed := cd_BlockGasUsed c + opGasUsed,
        cd_TxGasUsed := kv_set (oi_TxId contractOp) (txGasUsed + opGasUsed) (cd_TxGasUsed c)\<rparr>)"

definition estimate_op ::
  "arch_env \<Rightarrow> rewards_state \<Rightarrow> ContractOperationInfo \<Rightarrow> (string, contract_distr) kvstore \<Rightarrow>
   (string, contract_distr) kvstore res" where
  "estimate_op env s contractOp contracts =
     (let (opGasUsed, opEligible) = GasUsed contractOp in
      if \<not> opEligible then Ok contracts
      else rbind (case kv_get contracts (oi_ContractAddress contractOp) of
                    Some c \<Rightarrow> Ok c
                  | None \<Rightarrow> new_contract_distr env s contractOp) (\<lambda>c.
        Ok (kv_set (oi_ContractAddress contractOp) (add_gas contractOp opGasUsed c) contracts)))"

definition estimateBlockGasUsage :: "arch_env \<Rightarrow> rewards_state \<Rightarrow> int \<Rightarrow> block_distr res" where
  "estimateBlockGasUsage env s height =
     rbind (GetBlockTrackingInfo (rw_tracking s) height) (\<lambda>txs.
     rbind (res_acc (\<lambda>(_, ops). res_acc (estimate_op env s) ops) txs []) (\<lambda>contracts.
     Ok \<lparr>bd_Height = height, bd_Txs = fold (\<lambda>(info, _). kv_set (ti_Id info) (ti_TotalGas info)) txs [],
         bd_Contracts = contracts, bd_RewardsTotal = [], bd_RewardsDistributed = []\<rparr>))"

text \<open>The share of an amount that the gas used of a total has earned.\<close>

definition gas_share :: "denom \<times> int \<Rightarrow> uint64 \<Rightarrow> uint64 \<Rightarrow> (denom \<times> int) res" where
  "gas_share coin gasUsed gasTotal =
     rbind (Dec_Quo (NewDecFromUint64 gasUsed) (NewDecFromUint64 gasTotal)) (\<lambda>rewardsShare.
     rbind (Dec_Mul (NewDecFromInt (snd coin)) rewardsShare) (\<lambda>x.
     rbind (Dec_TruncateInt x) (\<lambda>amount. NewCoin (fst coin) amount)))"

definition contract_fees ::
  "(uint64, uint64) kvstore \<Rightarrow> (uint64, coins) kvstore \<Rightarrow> uint64 \<times> uint64 \<Rightarrow> coins \<Rightarrow> coins res" where
  "contract_fees txs txsRewards usage feeRewards =
     (case kv_get txsRewards (fst usage) of
        None \<Rightarrow> Ok feeRewards
      | Some txFees \<Rightarrow>
          res_acc (\<lambda>feeCoin rewards.
            rbind (gas_share feeCoin (snd usage) (case kv_get txs (fst usage) of None \<Rightarrow> 0 | Some g \<Rightarrow> g)) (\<lambda>reward.
            Coins_Add45 rewards [reward])) txFees feeRewards)"

definition estimate_contract ::
  "(uint64, uint64) kvstore \<Rightarrow> (uint64, coins) kvstore \<Rightarrow> BlockRewards option \<Rightarrow> contract_distr \<Rightarrow> contract_distr res" where
  "estimate_contract txs txsRewards inflation c =
     rbind (case inflation of
        None \<Rightarrow> Ok (cd_InflationaryRewards c)
      | Some blockRewards \<Rightarrow> gas_share (br_InflationRewards blockRewards) (cd_BlockGasUsed c) (br_MaxGas blockRewards))
       (\<lambda>inflationRewards.
     rbind (res_acc (contract_fees txs txsRewards) (cd_TxGasUsed c) (cd_FeeRewards c)) (\<lambda>feeRewards.
     Ok (c\<lparr>cd_InflationaryRewards := inflationRewards, cd_FeeRewards := feeRewards\<rparr>)))"

text \<open>The rewards of a block: inflation first, then those of its transactions.\<close>

definition inflation_total :: "rewards_state \<Rightarrow> int \<Rightarrow> coins" where
  "inflation_total s height =
     (case GetBlockRewards s height of
        Some blockRewards \<Rightarrow> if block_HasRewards blockRewards then [br_InflationRewards blockRewards] else []
      | None \<Rightarrow> [])"

definition inflation_eligible :: "rewards_state \<Rightarrow> int \<Rightarrow> BlockRewards option" where
  "inflation_eligible s height =
     (case GetBlockRewards s height of
        Some blockRewards \<Rightarrow>
          if block_HasRewards blockRewards \<and> HasGasLimit blockRewards then Some blockRewards else None
      | None \<Rightarrow> None)"

definition txs_rewards :: "rewards_state \<Rightarrow> (uint64, uint64) kvstore \<Rightarrow> (uint64, coins) kvstore" where
  "txs_rewards s txs =
     fold (\<lambda>(txID, _) m.
       case GetTxRewards s txID of
         Some txRewards \<Rightarrow> if tx_HasRewards txRewards then kv_set txID (xr_FeeRewards txRewards) m else m
       | None \<Rightarrow> m) txs []"

definition estimateBlockRewards :: "rewards_state \<Rightarrow> block_distr \<Rightarrow> block_distr res" where
  "estimateBlockRewards s d =
     rbind (Coins_Add45 (bd_RewardsTotal d) (inflation_total s (bd_Height d))) (\<lambda>total0.
     rbind (res_acc (\<lambda>(_, fees) total. Coins_Add45 total fees) (txs_rewards s (bd_Txs d)) total0) (\<lambda>total.
     rbind (res_acc (\<lambda>(addr, c) cs.
         rbind (estimate_contract (bd_Txs d) (txs_rewards s (bd_Txs d)) (inflation_eligible s (bd_Height d)) c) (\<lambda>c'.
         Ok (cs @ [(addr, c')]))) (bd_Contracts d) []) (\<lambda>contracts.
     Ok (d\<lparr>bd_RewardsTotal := total, bd_Contracts := contracts\<rparr>))))"

definition has_record :: "contract_distr \<Rightarrow> bool" where
  "has_record c \<longleftrightarrow>
     \<not> (Coins_IsZero (cd_FeeRewards c) \<and> snd (cd_InflationaryRewards c) = 0) \<and>
     (case cd_Metadata c of None \<Rightarrow> False | Some m \<Rightarrow> HasRewardsAddress m)"

definition record_address :: "arch_env \<Rightarrow> contract_distr \<Rightarrow> address res" where
  "record_address env c = (case cd_Metadata c of None \<Rightarrow> Panic | Some m \<Rightarrow> meta_MustGetRewardsAddress env m)"

definition create_record :: "arch_env \<Rightarrow> contract_distr \<Rightarrow> coins \<Rightarrow> (rewards_state, coins) go" where
  "create_record env c distributed =
     go_bind (go_lift (record_address env c)) (\<lambda>rewardsAddr.
     go_bind (go_lift (Coins_Add45 [] [cd_InflationaryRewards c])) (\<lambda>inflation.
     go_bind (go_lift (Coins_Add45 inflation (cd_FeeRewards c))) (\<lambda>rewards.
     go_bind (go_modify (CreateRewardsRecord env rewardsAddr rewards (ae_blockHeight env) (ae_blockTime env))) (\<lambda>_.
     go_lift (Coins_Add45 distributed rewards)))))"

definition createRewardsRecords :: "arch_env \<Rightarrow> block_distr \<Rightarrow> (rewards_state, block_distr) go" where
  "createRewardsRecords env d =
     (let contractStates = sort_key (\<lambda>c. AccAddress_String env (cd_ContractAddress c))
            (filter has_record (kv_values (bd_Contracts d))) in
      go_bind (for_acc (create_record env) contractStates (bd_RewardsDistributed d)) (\<lambda>distributed.
      go_ret (d\<lparr>bd_RewardsDistributed := distributed\<rparr>)))"

definition cleanupRewardsPool :: "arch_env \<Rightarrow> block_distr \<Rightarrow> (rewards_state, unit) go" where
  "cleanupRewardsPool env d =
     go_bind (go_lift (Coins_Sub45 (bd_RewardsTotal d) (bd_RewardsDistributed d))) (\<lambda>rewardsLeftovers.
     if rewardsLeftovers = [] then go_ret ()
     else must (rw_on_bank (SendCoinsFromModuleToModule (ae_bank env) ContractRewardCollector TreasuryCollector
       rewardsLeftovers)))"

definition cleanupTracking :: "int \<Rightarrow> (rewards_state, unit) go" where
  "cleanupTracking height =
     (let heightToPrune = int64_wrap (height - 10) in
      if heightToPrune \<le> 0 then go_ret ()
      else go_bind (go_modify (\<lambda>s. s\<lparr>rw_tracking := RemoveBlockTrackingInfo heightToPrune (rw_tracking s)\<rparr>)) (\<lambda>_.
        DeleteBlockRewardsCascade heightToPrune))"

definition AllocateBlockRewards :: "arch_env \<Rightarrow> int \<Rightarrow> (rewards_state, unit) go" where
  "AllocateBlockRewards env height =
     go_bind (\<lambda>s. (estimateBlockGasUsage env s height, s)) (\<lambda>d0.
     go_bind (\<lambda>s. (estimateBlockRewards s d0, s)) (\<lambda>d1.
     go_bind (createRewardsRecords env d1) (\<lambda>d2.
     go_bind (cleanupRewardsPool env d2) (\<lambda>_.
     cleanupTracking height))))"

definition rewards_EndBlocker :: "arch_env \<Rightarrow> (rewards_state, unit) go" where
  "rewards_EndBlocker env = AllocateBlockRewards env (ae_blockHeight env)"

section \<open>Withdrawal\<close>

definition sum_rewards :: "RewardsRecord list \<Rightarrow> coins res" where
  "sum_rewards records = res_acc (\<lambda>record total. Coins_Add45 total (rr_Rewards record)) records []"

definition withdrawRewardsByRecords :: "arch_env \<Rightarrow> address \<Rightarrow> RewardsRecord list \<Rightarrow> (rewards_state, coins) go" where
  "withdrawRewardsByRecords env rewardsAddr records =
     go_bind (go_lift (sum_rewards records)) (\<lambda>totalRewards.
     go_bind (if \<not> Coins_IsZero totalRewards
       then must (rw_on_bank (SendCoinsFromModuleToAccount (ae_bank env) ContractRewardCollector rewardsAddr totalRewards))
       else go_ret ()) (\<lambda>_.
     go_bind (DeleteRewardsRecords env records) (\<lambda>_. go_ret totalRewards)))"

definition WithdrawRewardsByRecordsLimit :: "arch_env \<Rightarrow> address \<Rightarrow> uint64 \<Rightarrow> (rewards_state, coins \<times> nat) go" where
  "WithdrawRewardsByRecordsLimit env rewardsAddr recordsLimit =
     go_bind (go_gets (\<lambda>s. rp_MaxWithdrawRecords (rw_params s))) (\<lambda>recordsLimitMax.
     let limit = (if recordsLimit = 0 then recordsLimitMax else recordsLimit) in
     if limit > recordsLimitMax then go_fail (RewardsErr ErrRewardsInvalidRequest)
     else go_bind (go_wrap (RewardsErr ErrInternal)
         (\<lambda>s. (GetRewardsRecordByRewardsAddressPaginated s rewardsAddr limit, s))) (\<lambda>records.
       go_bind (withdrawRewardsByRecords env rewardsAddr records) (\<lambda>paid.
       go_ret (paid, length records))))"

definition check_record :: "rewards_state \<Rightarrow> string \<Rightarrow> uint64 \<Rightarrow> RewardsRecord list \<Rightarrow> RewardsRecord list res" where
  "check_record s rewardsAddrStr i records =
     (case GetRewardsRecord s i of
        None \<Rightarrow> Err (RewardsErr ErrRewardsInvalidRequest)
      | Some record \<Rightarrow>
          if rr_RewardsAddress record \<noteq> rewardsAddrStr then Err (RewardsErr ErrRewardsInvalidRequest)
          else Ok (records @ [record]))"

definition WithdrawRewardsByRecordIDs :: "arch_env \<Rightarrow> address \<Rightarrow> uint64 list \<Rightarrow> (rewards_state, coins \<times> nat) go" where
  "WithdrawRewardsByRecordIDs env rewardsAddr recordIDs =
     go_bind (go_gets (\<lambda>s. rp_MaxWithdrawRecords (rw_params s))) (\<lambda>maxRecords.
     if of_nat (length recordIDs) > maxRecords then go_fail (RewardsErr ErrRewardsInvalidRequest)
     else go_bind (\<lambda>s. (res_acc (check_record s (AccAddress_String env rewardsAddr)) recordIDs [], s)) (\<lambda>records.
       go_bind (withdrawRewardsByRecords env rewardsAddr records) (\<lambda>paid.
       go_ret (paid, length records))))"

section \<open>Messages\<close>

record MsgSetContractMetadata =
  mscm_SenderAddress :: string
  mscm_Metadata :: ContractMetadata

datatype withdraw_mode = RecordsLimit uint64 | RecordIds "uint64 list"

record MsgWithdrawRewards =
  mwr_RewardsAddress :: string
  mwr_Mode :: "withdraw_mode option"

record MsgSetFlatFee =
  msff_SenderAddress :: string
  msff_ContractAddress :: string
  msff_FlatFeeAmount :: "denom \<times> int"

definition MsgSetContractMetadata_ValidateBasic :: "arch_env \<Rightarrow> MsgSetContractMetadata \<Rightarrow> unit res" where
  "MsgSetContractMetadata_ValidateBasic env m =
     (if \<not> res_ok (arch_AccAddressFromBech32 env (mscm_SenderAddress m)) then Err (Sdk ErrInvalidAddress)
      else ContractMetadata_Validate env False (mscm_Metadata m))"

definition MsgWithdrawRewards_ValidateBasic :: "arch_env \<Rightarrow> MsgWithdrawRewards \<Rightarrow> unit res" where
  "MsgWithdrawRewards_ValidateBasic env m =
     (if \<not> res_ok (arch_AccAddressFromBech32 env (mwr_RewardsAddress m)) then Err (Sdk ErrInvalidAddress)
      else case mwr_Mode m of
        None \<Rightarrow> Err (Sdk ErrInvalidRequest)
      | Some (RecordsLimit _) \<Rightarrow> Ok ()
      | Some (RecordIds ids) \<Rightarrow>
          if ids = [] then Err (Sdk ErrInvalidRequest)
          else rbind (res_acc (\<lambda>i idsSet.
            if i = 0 then Err (Sdk ErrInvalidRequest)
            else if i \<in> idsSet then Err (Sdk ErrInvalidRequest) else Ok (insert i idsSet)) ids {}) (\<lambda>_. Ok ()))"

definition MsgSetFlatFee_ValidateBasic :: "arch_env \<Rightarrow> MsgSetFlatFee \<Rightarrow> unit res" where
  "MsgSetFlatFee_ValidateBasic env m =
     (if \<not> res_ok (arch_AccAddressFromBech32 env (msff_SenderAddress m)) then Err (Sdk ErrInvalidAddress)
      else if \<not> res_ok (arch_AccAddressFromBech32 env (msff_ContractAddress m)) then Err (Sdk ErrInvalidAddress)
      else Ok ())"

definition msg_SetContractMetadata :: "arch_env \<Rightarrow> MsgSetContractMetadata option \<Rightarrow> (rewards_state, unit) go" where
  "msg_SetContractMetadata env request =
     (case request of
        None \<Rightarrow> go_fail Plain
      | Some m \<Rightarrow>
          go_bind (go_lift (arch_AccAddressFromBech32 env (mscm_SenderAddress m))) (\<lambda>senderAddr.
          go_bind (go_lift (arch_AccAddressFromBech32 env (cm_ContractAddress (mscm_Metadata m)))) (\<lambda>contractAddr.
          SetContractMetadata env senderAddr contractAddr (mscm_Metadata m))))"

definition msg_WithdrawRewards :: "arch_env \<Rightarrow> MsgWithdrawRewards option \<Rightarrow> (rewards_state, nat \<times> coins) go" where
  "msg_WithdrawRewards env request =
     (case request of
        None \<Rightarrow> go_fail Plain
      | Some m \<Rightarrow>
          go_bind (go_lift (arch_AccAddressFromBech32 env (mwr_RewardsAddress m))) (\<lambda>rewardsAddr.
          go_bind (case mwr_Mode m of
              Some (RecordsLimit limit) \<Rightarrow> go_wrap Plain (WithdrawRewardsByRecordsLimit env rewardsAddr limit)
            | Some (RecordIds ids) \<Rightarrow> go_wrap Plain (WithdrawRewardsByRecordIDs env rewardsAddr ids)
            | None \<Rightarrow> go_fail Plain) (\<lambda>(totalRewards, recordsUsed).
          go_ret (recordsUsed, totalRewards))))"

definition msg_SetFlatFee :: "arch_env \<Rightarrow> MsgSetFlatFee option \<Rightarrow> (rewards_state, unit) go" where
  "msg_SetFlatFee env request =
     (case request of
        None \<Rightarrow> go_fail Plain
      | Some m \<Rightarrow>
          go_bind (go_lift (arch_AccAddressFromBech32 env (msff_SenderAddress m))) (\<lambda>senderAddress.
          go_bind (go_lift (arch_AccAddressFromBech32 env (msff_ContractAddress m))) (\<lambda>_.
          SetFlatFee env senderAddress (msff_ContractAddress m, msff_FlatFeeAmount m))))"

section \<open>Queries and the invariant\<close>

definition query_Params :: "unit option \<Rightarrow> rewards_state \<Rightarrow> rewards_params res" where
  "query_Params request s = (case request of None \<Rightarrow> Err Plain | Some _ \<Rightarrow> Ok (rw_params s))"

definition query_ContractMetadata :: "arch_env \<Rightarrow> string option \<Rightarrow> rewards_state \<Rightarrow> ContractMetadata res" where
  "query_ContractMetadata env request s =
     (case request of
        None \<Rightarrow> Err Plain
      | Some contractAddress \<Rightarrow>
          (case arch_AccAddressFromBech32 env contractAddress of
             Ok contractAddr \<Rightarrow> (case GetContractMetadata s contractAddr of None \<Rightarrow> Err Plain | Some meta \<Rightarrow> Ok meta)
           | _ \<Rightarrow> Err Plain))"

definition BlockRewardsTracking ::
  "arch_env \<Rightarrow> unit option \<Rightarrow> rewards_state \<Rightarrow> (BlockRewards option \<times> TxRewards list) res" where
  "BlockRewardsTracking env request s =
     (case request of
        None \<Rightarrow> Err Plain
      | Some _ \<Rightarrow>
          rbind (GetTxRewardsByBlock s (ae_blockHeight env)) (\<lambda>txRewards.
          Ok (GetBlockRewards s (ae_blockHeight env), txRewards)))"

text \<open>\<open>MulInt64\<close> with the gas limit read as a signed number.\<close>

definition Dec_MulInt64 :: "Dec \<Rightarrow> int \<Rightarrow> Dec res" where
  "Dec_MulInt64 d i = (if BitLen (d * i) > maxDecBitLen then Panic else Ok (d * i))"

definition EstimateTxFees :: "arch_env \<Rightarrow> (uint64 \<times> string) option \<Rightarrow> rewards_state \<Rightarrow> coins res" where
  "EstimateTxFees env request s =
     (case request of
        None \<Rightarrow> Err Plain
      | Some (gasLimit, contractAddress) \<Rightarrow>
          rbind (case GetMinConsensusFee s of
              None \<Rightarrow> Ok []
            | Some minConsFee \<Rightarrow>
                rbind (Dec_MulInt64 (snd minConsFee) (sint gasLimit)) (\<lambda>x.
                rbind (Dec_RoundInt x) (\<lambda>amount. Ok [(fst minConsFee, amount)]))) (\<lambda>fees.
          rbind (if contractAddress = '''' then Ok fees
            else case arch_AccAddressFromBech32 env contractAddress of
                Ok contractAddr \<Rightarrow>
                  Ok (case GetFlatFee s contractAddr of None \<Rightarrow> fees | Some flatFee \<Rightarrow> fees @ [flatFee])
              | _ \<Rightarrow> Err Plain) NewCoins))"

definition OutstandingRewards :: "arch_env \<Rightarrow> string option \<Rightarrow> rewards_state \<Rightarrow> (coins \<times> nat) res" where
  "OutstandingRewards env request s =
     (case request of
        None \<Rightarrow> Err Plain
      | Some rewardsAddress \<Rightarrow>
          (case arch_AccAddressFromBech32 env rewardsAddress of
             Ok rewardsAddr \<Rightarrow>
               rbind (GetRewardsRecordByRewardsAddress s rewardsAddr) (\<lambda>records.
               rbind (sum_rewards records) (\<lambda>totalRewards. Ok (totalRewards, length records)))
           | _ \<Rightarrow> Err Plain))"

definition GetRewardsRecords :: "rewards_state \<Rightarrow> address \<Rightarrow> uint64 option \<Rightarrow> RewardsRecord list res" where
  "GetRewardsRecords s rewardsAddr pageLimit =
     (let limit = (case pageLimit of None \<Rightarrow> MaxRecordsQueryLimit | Some l \<Rightarrow> l) in
      if limit > MaxRecordsQueryLimit then Err (RewardsErr ErrRewardsInvalidRequest)
      else GetRewardsRecordByRewardsAddressPaginated s rewardsAddr limit)"

definition query_FlatFee :: "arch_env \<Rightarrow> string option \<Rightarrow> rewards_state \<Rightarrow> (denom \<times> int) res" where
  "query_FlatFee env request s =
     (case request of
        None \<Rightarrow> Err Plain
      | Some contractAddress \<Rightarrow>
          (case arch_AccAddressFromBech32 env contractAddress of
             Ok contractAddr \<Rightarrow> (case GetFlatFee s contractAddr of None \<Rightarrow> Err Plain | Some fee \<Rightarrow> Ok fee)
           | _ \<Rightarrow> Err Plain))"

text \<open>Whether the invariant is broken; \<open>poolCurrent\<close> is what the bank lists for the module
  account.\<close>

definition ModuleAccountBalanceInvariant :: "coins \<Rightarrow> rewards_state \<Rightarrow> bool res" where
  "ModuleAccountBalanceInvariant poolCurrent s =
     rbind (sum_rewards (kv_values (rw_records s))) (\<lambda>poolExpected.
     rbind (Coins_IsEqual poolExpected poolCurrent) (\<lambda>eq. Ok (\<not> eq)))"

section \<open>Genesis\<close>

record rewards_genesis =
  rg_Params :: rewards_params
  rg_ContractsMetadata :: "ContractMetadata list"
  rg_BlockRewards :: "BlockRewards list"
  rg_TxRewards :: "TxRewards list"
  rg_MinConsensusFee :: "(denom \<times> Dec) option"
  rg_RewardsRecordLastId :: uint64
  rg_RewardsRecords :: "RewardsRecord list"
  rg_FlatFees :: "(string \<times> denom \<times> int) list"

definition rewards_ExportGenesis :: "arch_env \<Rightarrow> rewards_state \<Rightarrow> rewards_genesis" where
  "rewards_ExportGenesis env s =
     \<lparr>rg_Params = rw_params s, rg_ContractsMetadata = kv_values (rw_metadata s),
      rg_BlockRewards = kv_values (rw_blockRewards s), rg_TxRewards = kv_values (rw_txRewards s),
      rg_MinConsensusFee = GetMinConsensusFee s, rg_RewardsRecordLastId = rr_getNextID s - 1,
      rg_RewardsRecords = kv_values (rw_records s),
      rg_FlatFees = map (\<lambda>(addr, coin). (AccAddress_String env addr, coin)) (rw_flatFees s)\<rparr>"

definition rewards_InitGenesis :: "arch_env \<Rightarrow> rewards_genesis \<Rightarrow> (rewards_state, unit) go" where
  "rewards_InitGenesis env g =
     go_bind (rewards_SetParams (rg_Params g)) (\<lambda>_.
     go_bind (for_each (\<lambda>obj.
       go_bind (go_lift (meta_MustGetContractAddress env obj)) (\<lambda>addr.
       go_modify (state_SetContractMetadata addr obj))) (rg_ContractsMetadata g)) (\<lambda>_.
     go_bind (for_each (\<lambda>obj. go_modify (setBlockRewards obj)) (rg_BlockRewards g)) (\<lambda>_.
     go_bind (for_each (\<lambda>obj. go_modify (\<lambda>s. xr_setBlockIndex (xr_Height obj) (xr_TxId obj) (setTxRewards obj s)))
       (rg_TxRewards g)) (\<lambda>_.
     go_bind (for_each (\<lambda>obj.
       go_bind (go_modify (setRewardsRecord obj)) (\<lambda>_.
       go_bind (go_lift (rr_MustGetRewardsAddress env obj)) (\<lambda>addr.
       go_modify (setAddressIndex (rr_Id obj) addr)))) (rg_RewardsRecords g)) (\<lambda>_.
     go_bind (go_modify (rr_setLastID (rg_RewardsRecordLastId g))) (\<lambda>_.
     go_bind (for_each (\<lambda>flatFee.
       go_bind (go_lift (res_must (arch_AccAddressFromBech32 env (fst flatFee)))) (\<lambda>addr.
       go_modify (flat_SetFee addr (snd flatFee)))) (rg_FlatFees g)) (\<lambda>_.
     case rg_MinConsensusFee g of
       None \<Rightarrow> go_ret ()
     | Some fee \<Rightarrow> if 0 < snd fee then go_modify (SetMinConsFee fee) else go_ret ())))))))"

text \<open>A loop that validates its items and refuses a key seen before.\<close>

definition validate_all :: "('a \<Rightarrow> unit res) \<Rightarrow> ('a \<Rightarrow> 'k) \<Rightarrow> 'a list \<Rightarrow> 'k set res" where
  "validate_all validate key objs =
     res_acc (\<lambda>obj seen.
       rbind (validate obj) (\<lambda>_. if key obj \<in> seen then Err Plain else Ok (insert (key obj) seen))) objs {}"

definition rewards_genesis_Validate :: "arch_env \<Rightarrow> rewards_genesis \<Rightarrow> unit res" where
  "rewards_genesis_Validate env m =
     rbind (rewards_Params_Validate (rg_Params m)) (\<lambda>_.
     rbind (validate_all (ContractMetadata_Validate env True) cm_ContractAddress (rg_ContractsMetadata m)) (\<lambda>contractAddrSet.
     rbind (validate_all BlockRewards_Validate br_Height (rg_BlockRewards m)) (\<lambda>heightSet.
     rbind (validate_all (\<lambda>txRewards. rbind (TxRewards_Validate txRewards) (\<lambda>_. rguard (xr_Height txRewards \<in> heightSet) Plain))
       xr_TxId (rg_TxRewards m)) (\<lambda>_.
     rbind (case rg_MinConsensusFee m of
         None \<Rightarrow> Ok () | Some fee \<Rightarrow> if snd fee = 0 then Ok () else ValidateDecCoin fee) (\<lambda>_.
     rbind (validate_all (RewardsRecord_Validate env) rr_Id (rg_RewardsRecords m)) (\<lambda>_.
     if rg_RewardsRecordLastId m < fold max (map rr_Id (rg_RewardsRecords m)) 0 then Err Plain
     else rbind (validate_all (\<lambda>fee. if fst fee \<notin> contractAddrSet then Err Plain else FlatFee_Validate env fee)
       fst (rg_FlatFees m)) (\<lambda>_. Ok ())))))))"

end
