(* ===== verification/RewardsPool.thy ===== *)
theory RewardsPool
  imports Rewards
begin

text \<open>
  What Archway's reward module promises: its pool holds exactly what its records owe.

  The lemmas follow a reward through the module: the fees a transaction pays and the coins that are
  minted are split without loss, the end blocker turns what a block has brought into records and
  sends the rest to the treasury, a withdrawal pays the records it deletes. The shares are rounded,
  so the end blocker is also shown to fail: when the rounded shares of a block add up to more than
  the block has brought, it panics.
\<close>

section \<open>Coins in the bank\<close>

lemma subUnlocked_loop:
  "for_each (subUnlockedCoin env addr) cs b = (Ok u, b') \<Longrightarrow>
   bk_balance b' a d = bk_balance b a d - (if a = addr then amt cs d else 0)"
proof (induction cs arbitrary: b)
  case (Cons c cs)
  obtain b1 where b1: "subUnlockedCoin env addr c b = (Ok (), b1)"
    and rest: "for_each (subUnlockedCoin env addr) cs b1 = (Ok u, b')"
    using Cons.prems by (auto split: prod.splits res.splits)
  have "b1 = bank_add addr (fst c) (- snd c) b"
    using b1 by (auto simp: subUnlockedCoin_def go_defs GetBalance_def bank_add_def Let_def split: if_splits)
  with Cons.IH [OF rest] show ?case by (cases "a = addr") auto
qed auto

lemma addCoin_loop:
  "for_each (addCoin addr) cs b = (Ok u, b') \<Longrightarrow>
   bk_balance b' a d = bk_balance b a d + (if a = addr then amt cs d else 0)"
proof (induction cs arbitrary: b)
  case (Cons c cs)
  obtain b1 where b1: "addCoin addr c b = (Ok (), b1)" and rest: "for_each (addCoin addr) cs b1 = (Ok u, b')"
    using Cons.prems by (auto split: prod.splits res.splits)
  have "b1 = bank_add addr (fst c) (snd c) b"
    using b1 by (auto simp: addCoin_def go_defs GetBalance_def bank_add_def Int_Add_eq split: if_splits)
  with Cons.IH [OF rest] show ?case by (cases "a = addr") auto
qed auto

lemma SendCoins_amt:
  assumes "SendCoins env from to cs b = (Ok u, b')"
  shows "bk_balance b' a d =
    bk_balance b a d + (if a = to then amt cs d else 0) - (if a = from then amt cs d else 0)"
  using assms by (auto simp: SendCoins_def subUnlockedCoins_def addCoins_def go_simps go_fail_def split: if_splits
      dest!: subUnlocked_loop [where a = a and d = d] addCoin_loop [where a = a and d = d])

lemma rw_on_bank_Ok [go_simps]:
  "rw_on_bank m s = (r, t) \<longleftrightarrow> (\<exists>b. m (rw_bank s) = (r, b) \<and> t = s\<lparr>rw_bank := b\<rparr>)"
  by (auto simp: rw_on_bank_def split: prod.splits)

section \<open>What the records owe\<close>

definition records_amt :: "rewards_state \<Rightarrow> denom \<Rightarrow> int" where
  "records_amt s d = sum_list (map (\<lambda>r. amt (rr_Rewards r) d) (kv_values (rw_records s)))"

definition pool_amt :: "arch_env \<Rightarrow> rewards_state \<Rightarrow> denom \<Rightarrow> int" where
  "pool_amt env s d =
     (case be_module (ae_bank env) ContractRewardCollector of
        None \<Rightarrow> 0 | Some acc \<Rightarrow> GetBalance (rw_bank s) acc d)"

lemma sum_kv_set_new:
  "kv_get m k = None \<Longrightarrow> sum_list (map f (kv_values (kv_set k v m))) = f v + (sum_list (map f (kv_values m)) :: int)"
proof (induction m)
  case (Cons e m)
  obtain k' v' where e: "e = (k', v')" by (cases e)
  have "k' \<noteq> k" "kv_get m k = None" using Cons.prems unfolding e by (auto simp: kv_get_def split: if_splits)
  with Cons.IH show ?case unfolding e by (auto simp: kv_values_def)
qed (simp add: kv_values_def)

lemma kv_delete_notin: "kv_get m k = None \<Longrightarrow> kv_delete k m = m"
  by (auto simp: kv_get_def kv_delete_def map_of_eq_None_iff filter_id_conv)

lemma sum_kv_delete:
  assumes "kv_sorted m" "kv_get m k = Some v"
  shows "sum_list (map f (kv_values (kv_delete k m))) = (sum_list (map f (kv_values m)) :: int) - f v"
  using assms
proof (induction m)
  case (Cons e m)
  have m: "kv_sorted m" and above: "\<forall>x\<in>set m. fst e < fst x" using Cons.prems(1) by (auto simp: kv_sorted_def)
  show ?case
  proof (cases "fst e = k")
    case True
    have "kv_get m k = None" using above True by (auto simp: kv_get_def map_of_eq_None_iff)
    then have "kv_delete k m = m" by (rule kv_delete_notin)
    with True Cons.prems(2) show ?thesis by (cases e) (simp add: kv_delete_def kv_values_def kv_get_def)
  next
    case False
    then have "kv_get m k = Some v" using Cons.prems(2) by (cases e) (simp add: kv_get_def)
    from Cons.IH [OF m this] False show ?thesis by (simp add: kv_delete_def kv_values_def)
  qed
qed simp

text \<open>The records, their index and their ids: every record has an address that can be read and valid
  coins.\<close>

definition rr_group :: "arch_env \<Rightarrow> RewardsRecord \<Rightarrow> address" where
  "rr_group env r = (case arch_AccAddressFromBech32 env (rr_RewardsAddress r) of Ok a \<Rightarrow> a | _ \<Rightarrow> [])"

definition record_ok :: "arch_env \<Rightarrow> RewardsRecord \<Rightarrow> bool" where
  "record_ok env r \<longleftrightarrow> res_ok (arch_AccAddressFromBech32 env (rr_RewardsAddress r)) \<and> Coins_IsValid (rr_Rewards r)"

definition records_ok :: "arch_env \<Rightarrow> rewards_state \<Rightarrow> bool" where
  "records_ok env s \<longleftrightarrow> kv_keyed rr_Id (rw_records s) \<and> index_ok (rr_group env) (rw_records s) (rw_addrIndex s) \<and>
     (\<forall>i r. GetRewardsRecord s i = Some r \<longrightarrow> record_ok env r \<and> i \<le> rw_recordID s)"

lemma records_okD:
  assumes "records_ok env s"
  shows "kv_keyed rr_Id (rw_records s)" "index_ok (rr_group env) (rw_records s) (rw_addrIndex s)"
    "GetRewardsRecord s i = Some r \<Longrightarrow> record_ok env r" "GetRewardsRecord s i = Some r \<Longrightarrow> i \<le> rw_recordID s"
  using assms by (auto simp: records_ok_def)

lemma record_ok_address:
  "record_ok env r \<Longrightarrow> arch_AccAddressFromBech32 env (rr_RewardsAddress r) = Ok (rr_group env r)"
  by (cases "arch_AccAddressFromBech32 env (rr_RewardsAddress r)") (auto simp: record_ok_def rr_group_def)

lemma CreateRewardsRecord_eq:
  "CreateRewardsRecord env a rewards h time s =
     (let i = rw_recordID s + 1;
          obj = \<lparr>rr_Id = i, rr_RewardsAddress = AccAddress_String env a, rr_Rewards = rewards,
                 rr_CalculatedHeight = h, rr_CalculatedTime = time\<rparr> in
      s\<lparr>rw_recordID := i, rw_records := kv_set (rr_Id obj) obj (rw_records s),
        rw_addrIndex := kv_set (a, i) () (rw_addrIndex s)\<rparr>)"
  by (simp add: CreateRewardsRecord_def rr_getNextID_def rr_setLastID_def setAddressIndex_def setRewardsRecord_def Let_def)

lemma CreateRewardsRecord_ok:
  fixes h time :: int
  assumes ok: "records_ok env s" and room: "rw_recordID s < - 1" and codec: "arch_bech32_ok env"
    and a: "arch_VerifyAddressFormat a" and v: "Coins_IsValid rewards"
  defines "t \<equiv> CreateRewardsRecord env a rewards h time s"
  shows "records_ok env t" "records_amt t d = records_amt s d + amt rewards d"
    "rw_recordID t = rw_recordID s + 1" "rw_bank t = rw_bank s"
proof -
  let ?i = "rw_recordID s + 1"
  define obj where "obj = \<lparr>rr_Id = ?i, rr_RewardsAddress = AccAddress_String env a, rr_Rewards = rewards,
                 rr_CalculatedHeight = h, rr_CalculatedTime = time\<rparr>"
  have t: "t = s\<lparr>rw_recordID := ?i, rw_records := kv_set (rr_Id obj) obj (rw_records s),
      rw_addrIndex := kv_set (a, ?i) () (rw_addrIndex s)\<rparr>"
    by (simp add: t_def CreateRewardsRecord_eq Let_def obj_def)
  have i: "rr_Id obj = ?i" by (simp add: obj_def)
  have lt: "rw_recordID s < ?i" using room by (rule next_id)
  have new: "kv_get (rw_records s) ?i = None"
  proof (cases "kv_get (rw_records s) ?i")
    case (Some r)
    then have "?i \<le> rw_recordID s" using records_okD(4) [OF ok] by (simp add: GetRewardsRecord_def)
    with lt show ?thesis by simp
  qed
  have dec: "arch_AccAddressFromBech32 env (AccAddress_String env a) = Ok a"
    using codec a by (simp add: arch_bech32_ok_def)
  then have obj: "rr_group env obj = a" "record_ok env obj"
    using v by (simp_all add: obj_def rr_group_def record_ok_def)
  have "index_ok (rr_group env) (kv_set ?i obj (rw_records s)) (kv_set (rr_group env obj, ?i) () (rw_addrIndex s))"
    using records_okD(2) [OF ok] new by (intro index_ok_insert) auto
  moreover have "record_ok env r \<and> j \<le> ?i" if "GetRewardsRecord t j = Some r" for j r
  proof (cases "j = ?i")
    case True
    with that obj(2) show ?thesis by (simp add: t i GetRewardsRecord_def)
  next
    case False
    with that have "GetRewardsRecord s j = Some r" by (simp add: t i GetRewardsRecord_def)
    with records_okD(3,4) [OF ok this] lt show ?thesis by simp
  qed
  ultimately show "records_ok env t"
    using records_okD(1) [OF ok] obj(1) unfolding records_ok_def by (simp add: t) (simp add: i)
  show "records_amt t d = records_amt s d + amt rewards d"
    using sum_kv_set_new [OF new, of "\<lambda>r. amt (rr_Rewards r) d" obj] by (simp add: records_amt_def t i) (simp add: obj_def)
  show "rw_recordID t = ?i" "rw_bank t = rw_bank s" by (simp_all add: t)
qed

lemma AccAddressFromBech32_verify: "arch_AccAddressFromBech32 env str = Ok a \<Longrightarrow> arch_VerifyAddressFormat a"
  by (auto simp: arch_AccAddressFromBech32_def split: if_splits option.splits)

section \<open>Shares and totals are valid coins\<close>

definition coin_ok :: "denom \<times> int \<Rightarrow> bool" where
  "coin_ok c \<longleftrightarrow> snd c = 0 \<or> (0 < snd c \<and> ValidateDenom (fst c))"

definition distr_ok :: "contract_distr \<Rightarrow> bool" where
  "distr_ok c \<longleftrightarrow> Coins_IsValid (cd_FeeRewards c) \<and> coin_ok (cd_InflationaryRewards c)"

lemma Add45_coin_valid:
  assumes "Coins_Add45 a [c] = Ok r" "Coins_IsValid a" "coin_ok c"
  shows "Coins_IsValid r" "amt r d = amt a d + (if fst c = d then snd c else 0)"
proof -
  have r: "r = coins_sum a [c]" using Coins_Add45_Ok [OF assms(1)] assms(2) by (simp add: IsValid_sorted)
  then show "amt r d = amt a d + (if fst c = d then snd c else 0)" by simp
  show "Coins_IsValid r"
  proof (cases "snd c = 0")
    case True
    have "coins_sum a [c] = a"
    proof (rule coins_sum_unique [symmetric])
      show "sorted_wrt (<) (map fst a)" using assms(2) by (rule IsValid_sorted)
      show "snd x \<noteq> 0" if "x \<in> set a" for x using IsValid_pos [OF assms(2) that] by simp
      show "amt a e = amt a e + amt [c] e" for e using True by simp
    qed
    with r assms(2) show ?thesis by simp
  next
    case False
    then have c: "0 < snd c" "ValidateDenom (fst c)" using assms(3) by (auto simp: coin_ok_def)
    show ?thesis unfolding r
    proof (rule coins_sum_valid)
      show "0 \<le> amt a e + amt [c] e" for e using IsValid_amt_nonneg [OF assms(2), of e] c by simp
      show "ValidateDenom (fst x)" if "x \<in> set a \<union> set [c]" for x
        using that c assms(2) by (auto intro: IsValid_denom)
    qed
  qed
qed

lemma gas_share_ok: "gas_share coin g G = Ok c \<Longrightarrow> coin_ok c \<and> fst c = fst coin"
  by (auto simp: gas_share_def go_simps coin_ok_def)

lemma contract_fees_valid:
  assumes "contract_fees txs rewards usage fees = Ok r" "Coins_IsValid fees"
  shows "Coins_IsValid r"
proof -
  have "res_acc (\<lambda>feeCoin out. rbind (gas_share feeCoin g G) (\<lambda>reward. Coins_Add45 out [reward])) cs a = Ok r \<Longrightarrow>
      Coins_IsValid a \<Longrightarrow> Coins_IsValid r" for cs a g G
  proof (induction cs arbitrary: a)
    case (Cons c cs)
    then obtain x b where x: "gas_share c g G = Ok x" "Coins_Add45 a [x] = Ok b" and
      rest: "res_acc (\<lambda>feeCoin out. rbind (gas_share feeCoin g G) (\<lambda>reward. Coins_Add45 out [reward])) cs b = Ok r"
      by (auto simp: go_simps)
    then have "Coins_IsValid b" using Add45_coin_valid(1) [OF x(2) Cons.prems(2)] gas_share_ok by blast
    with Cons.IH [OF rest] show ?case .
  qed simp
  with assms show ?thesis by (auto simp: contract_fees_def split: option.splits)
qed

lemma estimate_contract_ok:
  assumes "estimate_contract txs rewards inflation c = Ok c'" "distr_ok c"
  shows "distr_ok c'"
proof -
  obtain i f where i: "(case inflation of None \<Rightarrow> Ok (cd_InflationaryRewards c)
      | Some br \<Rightarrow> gas_share (br_InflationRewards br) (cd_BlockGasUsed c) (br_MaxGas br)) = Ok i"
    and f: "res_acc (contract_fees txs rewards) (cd_TxGasUsed c) (cd_FeeRewards c) = Ok f"
    and c': "c' = c\<lparr>cd_InflationaryRewards := i, cd_FeeRewards := f\<rparr>"
    using assms(1) by (auto simp: estimate_contract_def go_simps)
  have "res_acc (contract_fees txs rewards) us a = Ok f \<Longrightarrow> Coins_IsValid a \<Longrightarrow> Coins_IsValid f" for us a
    by (induction us arbitrary: a) (auto simp: go_simps dest: contract_fees_valid)
  with f assms(2) have "Coins_IsValid f" by (auto simp: distr_ok_def)
  moreover have "coin_ok i" using i assms(2) by (auto simp: distr_ok_def dest: gas_share_ok split: option.splits)
  ultimately show ?thesis by (simp add: distr_ok_def c')
qed

section \<open>Creating the records of a block\<close>

lemma create_record_step:
  assumes ok: "records_ok env s" and room: "rw_recordID s < - 1" and codec: "arch_bech32_ok env"
    and c: "distr_ok c" and v: "Coins_IsValid paid" and run: "create_record env c paid s = (Ok paid', t)"
  shows "records_ok env t" "rw_recordID t = rw_recordID s + 1" "rw_bank t = rw_bank s" "Coins_IsValid paid'"
    "amt paid' d - amt paid d = records_amt t d - records_amt s d"
proof -
  obtain a infl rewards where a: "record_address env c = Ok a"
    and infl: "Coins_Add45 [] [cd_InflationaryRewards c] = Ok infl"
    and rewards: "Coins_Add45 infl (cd_FeeRewards c) = Ok rewards"
    and t: "t = CreateRewardsRecord env a rewards (ae_blockHeight env) (ae_blockTime env) s"
    and paid': "Coins_Add45 paid rewards = Ok paid'"
    using run by (auto simp: create_record_def go_simps)
  have "Coins_IsValid infl" using Add45_coin_valid(1) [OF infl] c by (simp add: distr_ok_def)
  then have vr: "Coins_IsValid rewards" using Coins_Add45_valid(1) [OF rewards] c by (simp add: distr_ok_def)
  have "arch_VerifyAddressFormat a"
    using a by (auto simp: record_address_def meta_MustGetRewardsAddress_def go_simps split: option.splits
        intro: AccAddressFromBech32_verify)
  note new = CreateRewardsRecord_ok [OF ok room codec this vr, of "ae_blockHeight env" "ae_blockTime env", folded t]
  show "records_ok env t" "rw_recordID t = rw_recordID s + 1" "rw_bank t = rw_bank s" by (fact new)+
  show "Coins_IsValid paid'" "amt paid' d - amt paid d = records_amt t d - records_amt s d"
    using Coins_Add45_valid [OF paid' v vr] new(2) [of d] by simp_all
qed

lemma create_records_loop:
  assumes "arch_bech32_ok env" "for_acc (create_record env) cs paid s = (Ok paid', t)"
    and "records_ok env s" "\<And>c. c \<in> set cs \<Longrightarrow> distr_ok c" "Coins_IsValid paid"
    and "uint (rw_recordID s) + int (length cs) < 2 ^ 64"
  shows "records_ok env t \<and> rw_bank t = rw_bank s \<and> Coins_IsValid paid' \<and>
    amt paid' d - amt paid d = records_amt t d - records_amt s d"
  using assms(2-)
proof (induction cs arbitrary: paid s)
  case (Cons c cs)
  obtain paid1 s1 where step: "create_record env c paid s = (Ok paid1, s1)"
    and rest: "for_acc (create_record env) cs paid1 s1 = (Ok paid', t)"
    using Cons.prems(1) by (auto split: prod.splits res.splits)
  have small: "uint (rw_recordID s) + 1 < 2 ^ 64" using Cons.prems(5) by simp
  then have room: "rw_recordID s < - 1" by (simp add: word_less_def unsigned_minus_1_eq_mask mask_eq_exp_minus_1)
  note one = create_record_step [OF Cons.prems(2) room assms(1) Cons.prems(3) [of c] Cons.prems(4) step]
  have "uint (rw_recordID s1) + int (length cs) < 2 ^ 64"
    using Cons.prems(5) small one(2) by (simp add: uint_plus_if')
  from Cons.IH [OF rest one(1) Cons.prems(3) one(4) this] one(3) one(5) [of d] show ?case by simp
qed auto

section \<open>What a block has brought\<close>

definition rewards_coins_ok :: "rewards_state \<Rightarrow> bool" where
  "rewards_coins_ok s \<longleftrightarrow>
     (\<forall>h br. kv_get (rw_blockRewards s) h = Some br \<longrightarrow> coin_ok (br_InflationRewards br)) \<and>
     (\<forall>i x. GetTxRewards s i = Some x \<longrightarrow> Coins_IsValid (xr_FeeRewards x))"

definition fee_amt :: "rewards_state \<Rightarrow> uint64 \<Rightarrow> denom \<Rightarrow> int" where
  "fee_amt s i d = (case GetTxRewards s i of None \<Rightarrow> 0 | Some x \<Rightarrow> amt (xr_FeeRewards x) d)"

text \<open>The inflation tracked for a block and the fees tracked for its transactions.\<close>

definition pending_amt :: "rewards_state \<Rightarrow> int \<Rightarrow> denom \<Rightarrow> int" where
  "pending_amt s h d = amt (inflation_total s h) d +
     (case GetTxInfosByBlock (rw_tracking s) h of
        Ok txs \<Rightarrow> sum_list (map (\<lambda>tx. fee_amt s (ti_Id tx) d) txs) | _ \<Rightarrow> 0)"

lemma fold_kv_set_ascending:
  "sorted_wrt (<) (map k xs) \<Longrightarrow> (\<forall>e\<in>set m. \<forall>x\<in>set xs. fst e < k x) \<Longrightarrow>
   fold (\<lambda>x. kv_set (k x) (v x)) xs m = m @ map (\<lambda>x. (k x, v x)) xs"
proof (induction xs arbitrary: m)
  case (Cons x xs)
  have "kv_set (k x) (v x) m = m @ [(k x, v x)]" using Cons.prems(2) by (intro kv_set_last) simp
  moreover have "\<forall>e\<in>set (m @ [(k x, v x)]). \<forall>y\<in>set xs. fst e < k y" using Cons.prems by auto
  ultimately show ?case using Cons.IH [of "m @ [(k x, v x)]"] Cons.prems(1) by simp
qed simp

lemma txs_rewards_sum:
  fixes txs :: "(uint64 \<times> uint64) list"
  assumes "distinct (map fst txs)" "rewards_coins_ok s"
  shows "sum_list (map (\<lambda>cs. amt cs d) (kv_values (txs_rewards s txs))) = sum_list (map (\<lambda>e. fee_amt s (fst e) d) txs)"
    and "\<And>e. e \<in> set (txs_rewards s txs) \<Longrightarrow> Coins_IsValid (snd e)"
proof -
  define f where "f = (\<lambda>(txID, _ :: uint64) m. case GetTxRewards s txID of
         Some txRewards \<Rightarrow> if tx_HasRewards txRewards then kv_set txID (xr_FeeRewards txRewards) m else m
       | None \<Rightarrow> m)"
  have valid: "Coins_IsValid (xr_FeeRewards x)" if "GetTxRewards s i = Some x" for i x
    using assms(2) that by (auto simp: rewards_coins_ok_def)
  have one: "sum_list (map (\<lambda>cs. amt cs d) (kv_values (f e m))) = sum_list (map (\<lambda>cs. amt cs d) (kv_values m)) + fee_amt s (fst e) d"
    if new: "kv_get m (fst e) = None" for e m
  proof (cases "GetTxRewards s (fst e)")
    case (Some x)
    show ?thesis
    proof (cases "tx_HasRewards x")
      case True
      with Some show ?thesis by (simp add: f_def case_prod_beta fee_amt_def sum_kv_set_new [OF new])
    next
      case False
      then have "xr_FeeRewards x = []" using valid [OF Some] by (simp add: tx_HasRewards_def)
      with Some False show ?thesis by (simp add: f_def case_prod_beta fee_amt_def)
    qed
  qed (simp add: f_def case_prod_beta fee_amt_def)
  have dom: "kv_get (f e m) i = None" if "kv_get m i = None" "i \<noteq> fst e" for e m i
    using that by (simp add: f_def case_prod_beta split: option.splits)
  have "sum_list (map (\<lambda>cs. amt cs d) (kv_values (fold f xs m))) =
      sum_list (map (\<lambda>cs. amt cs d) (kv_values m)) + sum_list (map (\<lambda>e. fee_amt s (fst e) d) xs)"
    if "distinct (map fst xs)" "\<forall>e\<in>set xs. kv_get m (fst e) = None" for xs m
    using that
  proof (induction xs arbitrary: m)
    case (Cons e xs)
    have "kv_get (f e m) (fst x) = None" if x: "x \<in> set xs" for x
    proof (rule dom)
      show "kv_get m (fst x) = None" using Cons.prems(2) x by simp
      show "fst x \<noteq> fst e" using Cons.prems(1) x by (metis distinct.simps(2) image_eqI list.set_map list.simps(9))
    qed
    with Cons.IH [of "f e m"] Cons.prems one [of m e] show ?case by simp
  qed simp
  from this [of txs "[]"] assms(1)
  show "sum_list (map (\<lambda>cs. amt cs d) (kv_values (txs_rewards s txs))) = sum_list (map (\<lambda>e. fee_amt s (fst e) d) txs)"
    by (simp add: txs_rewards_def f_def kv_values_def)
  have "\<forall>e\<in>set (fold f xs m). Coins_IsValid (snd e)" if "\<forall>e\<in>set m. Coins_IsValid (snd e)" for xs m
    using that
  proof (induction xs arbitrary: m)
    case (Cons e xs)
    have "\<forall>c\<in>set (f e m). Coins_IsValid (snd c)"
    proof (cases "GetTxRewards s (fst e)")
      case (Some x)
      have "set (f e m) \<subseteq> insert (fst e, xr_FeeRewards x) (set m)"
        using Some set_kv_set_subset [of "fst e" "xr_FeeRewards x" m] by (auto simp: f_def case_prod_beta)
      with Cons.prems valid [OF Some] show ?thesis by auto
    qed (use Cons.prems in \<open>simp add: f_def case_prod_beta\<close>)
    with Cons.IH [of "f e m"] show ?case by simp
  qed simp
  from this [of "[]" txs] show "Coins_IsValid (snd e)" if "e \<in> set (txs_rewards s txs)" for e
    using that by (simp add: txs_rewards_def f_def)
qed

lemma total_loop:
  assumes "res_acc (\<lambda>(_, fees) total. Coins_Add45 total fees) m total0 = Ok r" "Coins_IsValid total0"
    "\<And>e. e \<in> set m \<Longrightarrow> Coins_IsValid (snd e)"
  shows "Coins_IsValid r \<and> amt r d = amt total0 d + sum_list (map (\<lambda>cs. amt cs d) (kv_values m))"
  using assms
proof (induction m arbitrary: total0)
  case (Cons e m)
  then obtain t1 where t1: "Coins_Add45 total0 (snd e) = Ok t1"
    and rest: "res_acc (\<lambda>(_, fees) total. Coins_Add45 total fees) m t1 = Ok r"
    by (cases e) (auto simp: go_simps)
  note v = Coins_Add45_valid [OF t1 Cons.prems(2) Cons.prems(3) [of e]]
  from Cons.IH [OF rest v(1) Cons.prems(3)] v(2) [of d] show ?case by (simp add: kv_values_def)
qed (simp add: kv_values_def)

lemma estimate_op_ok:
  assumes "estimate_op env s contractOp m = Ok m'" "\<forall>e\<in>set m. distr_ok (snd e)"
  shows "\<forall>e\<in>set m'. distr_ok (snd e)"
proof (cases "snd (GasUsed contractOp)")
  case True
  then obtain c where c: "(case kv_get m (oi_ContractAddress contractOp) of
        Some c \<Rightarrow> Ok c | None \<Rightarrow> new_contract_distr env s contractOp) = Ok c"
    and m': "m' = kv_set (oi_ContractAddress contractOp) (add_gas contractOp (fst (GasUsed contractOp)) c) m"
    using assms(1) by (auto simp: estimate_op_def case_prod_beta go_simps)
  have "distr_ok c"
    using c assms(2) by (auto simp: new_contract_distr_def go_simps distr_ok_def coin_ok_def kv_get_def
        split: option.splits dest!: map_of_SomeD)
  then have "distr_ok (add_gas contractOp g c)" for g by (simp add: distr_ok_def add_gas_def Let_def)
  with assms(2) set_kv_set_subset [of "oi_ContractAddress contractOp" _ m] show ?thesis
    unfolding m' by fastforce
qed (use assms in \<open>simp add: estimate_op_def case_prod_beta\<close>)

lemma estimate_ops_ok:
  "res_acc (estimate_op env s) ops m = Ok m' \<Longrightarrow> \<forall>e\<in>set m. distr_ok (snd e) \<Longrightarrow> \<forall>e\<in>set m'. distr_ok (snd e)"
  by (induction ops arbitrary: m) (auto simp: go_simps dest: estimate_op_ok)

lemma estimate_txs_ok:
  "res_acc (\<lambda>(_, ops). res_acc (estimate_op env s) ops) txs m = Ok m' \<Longrightarrow> \<forall>e\<in>set m. distr_ok (snd e) \<Longrightarrow>
   \<forall>e\<in>set m'. distr_ok (snd e)"
proof (induction txs arbitrary: m)
  case (Cons tx txs)
  then obtain m1 where "res_acc (estimate_op env s) (snd tx) m = Ok m1"
    and "res_acc (\<lambda>(_, ops). res_acc (estimate_op env s) ops) txs m1 = Ok m'"
    by (cases tx) (auto simp: go_simps)
  with Cons.IH [of m1] estimate_ops_ok Cons.prems(2) show ?case by blast
qed simp

lemma gas_usage:
  assumes inv: "tracking_inv (rw_tracking s)" and est: "estimateBlockGasUsage env s h = Ok d0"
  obtains txs where "GetTxInfosByBlock (rw_tracking s) h = Ok txs" "distinct (map ti_Id txs)"
    "bd_Txs d0 = map (\<lambda>tx. (ti_Id tx, ti_TotalGas tx)) txs" "bd_Height d0 = h" "bd_RewardsTotal d0 = []"
    "bd_RewardsDistributed d0 = []" "\<forall>e\<in>set (bd_Contracts d0). distr_ok (snd e)"
proof -
  let ?tr = "rw_tracking s"
  obtain txs where txs: "GetTxInfosByBlock ?tr h = Ok txs" using block_total tracking_invD(1) [OF inv] by blast
  have info: "GetBlockTrackingInfo ?tr h = Ok (map (\<lambda>tx. (tx, ops_of ?tr (ti_Id tx))) txs)"
    using block_info [OF tracking_invD(2) [OF inv] txs] .
  have srt: "sorted_wrt (<) (map ti_Id txs)"
    using txs.by_group_sorted [OF tracking_invD(1) [OF inv], of "block_key h" txs] txs
    by (simp flip: GetTxInfosByBlock_key)
  obtain contracts where run: "res_acc (\<lambda>(_, ops). res_acc (estimate_op env s) ops)
      (map (\<lambda>tx. (tx, ops_of ?tr (ti_Id tx))) txs) [] = Ok contracts"
    and d0: "d0 = \<lparr>bd_Height = h, bd_Txs = fold (\<lambda>(info, _). kv_set (ti_Id info) (ti_TotalGas info))
        (map (\<lambda>tx. (tx, ops_of ?tr (ti_Id tx))) txs) [],
      bd_Contracts = contracts, bd_RewardsTotal = [], bd_RewardsDistributed = []\<rparr>"
    using est by (auto simp: estimateBlockGasUsage_def info go_simps)
  have "fold (\<lambda>(info, _). kv_set (ti_Id info) (ti_TotalGas info)) (map (\<lambda>tx. (tx, ops_of ?tr (ti_Id tx))) txs) [] =
      map (\<lambda>tx. (ti_Id tx, ti_TotalGas tx)) txs"
    using fold_kv_set_ascending [OF srt, of "[]" ti_TotalGas] by (simp add: fold_map comp_def)
  moreover have "distinct (map ti_Id txs)" using srt strict_sorted_iff by blast
  ultimately show thesis using that txs d0 estimate_txs_ok [OF run] by simp
qed

lemma contracts_loop:
  "res_acc (\<lambda>(addr, c) cs. rbind (g c) (\<lambda>c'. Ok (cs @ [(addr, c')]))) m out = Ok r \<Longrightarrow>
   (\<And>c c'. g c = Ok c' \<Longrightarrow> distr_ok c \<Longrightarrow> distr_ok c') \<Longrightarrow>
   \<forall>e\<in>set m. distr_ok (snd e) \<Longrightarrow> \<forall>e\<in>set out. distr_ok (snd e) \<Longrightarrow>
   (\<forall>e\<in>set r. distr_ok (snd e)) \<and> length r = length out + length m"
proof (induction m arbitrary: out)
  case (Cons e m)
  then obtain c' where c': "g (snd e) = Ok c'"
    and rest: "res_acc (\<lambda>(addr, c) cs. rbind (g c) (\<lambda>c'. Ok (cs @ [(addr, c')]))) m (out @ [(fst e, c')]) = Ok r"
    by (cases e) (auto simp: go_simps)
  have "distr_ok c'" using Cons.prems(2) [OF c'] Cons.prems(3) by simp
  with Cons.IH [OF rest Cons.prems(2)] Cons.prems(3,4) show ?case by auto
qed simp

lemma block_rewards:
  assumes inv: "tracking_inv (rw_tracking s)" and coins: "rewards_coins_ok s"
    and est: "estimateBlockGasUsage env s h = Ok d0" "estimateBlockRewards s d0 = Ok d1"
  shows "Coins_IsValid (bd_RewardsTotal d1)" "amt (bd_RewardsTotal d1) d = pending_amt s h d"
    "bd_RewardsDistributed d1 = []" "\<forall>e\<in>set (bd_Contracts d1). distr_ok (snd e)"
    "length (bd_Contracts d1) = length (bd_Contracts d0)"
proof -
  obtain txs where txs: "GetTxInfosByBlock (rw_tracking s) h = Ok txs" "distinct (map ti_Id txs)"
    "bd_Txs d0 = map (\<lambda>tx. (ti_Id tx, ti_TotalGas tx)) txs" "bd_Height d0 = h" "bd_RewardsTotal d0 = []"
    "bd_RewardsDistributed d0 = []" "\<forall>e\<in>set (bd_Contracts d0). distr_ok (snd e)"
    by (rule gas_usage [OF inv est(1)]) (rule that)
  let ?m = "txs_rewards s (bd_Txs d0)"
  obtain total0 tot cs where total0: "Coins_Add45 [] (inflation_total s h) = Ok total0"
    and tot: "res_acc (\<lambda>(_, fees) total. Coins_Add45 total fees) ?m total0 = Ok tot"
    and cs: "res_acc (\<lambda>(addr, c) cs. rbind (estimate_contract (bd_Txs d0) ?m (inflation_eligible s h) c) (\<lambda>c'.
         Ok (cs @ [(addr, c')]))) (bd_Contracts d0) [] = Ok cs"
    and d1: "d1 = d0\<lparr>bd_RewardsTotal := tot, bd_Contracts := cs\<rparr>"
    using est(2) txs(4,5) by (auto simp: estimateBlockRewards_def go_simps)
  have infl: "inflation_total s h = [] \<or> (\<exists>c. inflation_total s h = [c] \<and> coin_ok c)"
    using coins by (auto simp: inflation_total_def GetBlockRewards_def rewards_coins_ok_def split: option.splits
        simp del: split_paired_Ex)
  then have t0: "Coins_IsValid total0" "amt total0 d = amt (inflation_total s h) d"
    using total0 Add45_coin_valid [OF _ IsValid_Nil] by (auto simp: Coins_Add45_def removeZeroCoins_def)
  have dist: "distinct (map fst (bd_Txs d0))" using txs(2,3) by (simp add: comp_def)
  have fees: "sum_list (map (\<lambda>cs. amt cs d) (kv_values ?m)) = sum_list (map (\<lambda>tx. fee_amt s (ti_Id tx) d) txs)"
    using txs_rewards_sum(1) [OF dist coins, of d] txs(3) by (simp add: comp_def)
  note loop = total_loop [OF tot t0(1) txs_rewards_sum(2) [OF dist coins], of d]
  then show "Coins_IsValid (bd_RewardsTotal d1)" "amt (bd_RewardsTotal d1) d = pending_amt s h d"
    using t0(2) fees txs(1) by (auto simp: d1 pending_amt_def)
  show "bd_RewardsDistributed d1 = []" by (simp add: d1 txs(6))
  show "\<forall>e\<in>set (bd_Contracts d1). distr_ok (snd e)" "length (bd_Contracts d1) = length (bd_Contracts d0)"
    using contracts_loop [OF cs _ txs(7)] estimate_contract_ok by (auto simp: d1)
qed

section \<open>The end blocker\<close>

lemma pool_amt_cong: "rw_bank t = rw_bank s \<Longrightarrow> pool_amt env t = pool_amt env s"
  by (simp add: pool_amt_def fun_eq_iff split: option.split)

text \<open>The module's own invariant, \<open>module-account-balance\<close>: the pool holds what the records owe,
  and during a block also what the block has brought so far.\<close>

definition rewards_ok :: "arch_env \<Rightarrow> rewards_state \<Rightarrow> bool" where
  "rewards_ok env s \<longleftrightarrow> records_ok env s \<and> rewards_coins_ok s \<and> tracking_inv (rw_tracking s)"

definition pool_backed :: "arch_env \<Rightarrow> int \<Rightarrow> rewards_state \<Rightarrow> bool" where
  "pool_backed env h s \<longleftrightarrow> (\<forall>d. pool_amt env s d = records_amt s d + pending_amt s h d)"

definition accounts_ok :: "arch_env \<Rightarrow> bool" where
  "accounts_ok env \<longleftrightarrow> arch_bech32_ok env \<and>
     be_module (ae_bank env) ContractRewardCollector \<noteq> None \<and>
     be_module (ae_bank env) TreasuryCollector \<noteq> be_module (ae_bank env) ContractRewardCollector \<and>
     be_module (ae_bank env) FeeCollectorName \<noteq> be_module (ae_bank env) ContractRewardCollector"

lemma cleanupTracking_frame:
  assumes "cleanupTracking h s = (r, t)"
  shows "rw_bank t = rw_bank s" "rw_records t = rw_records s" "rw_addrIndex t = rw_addrIndex s" "rw_recordID t = rw_recordID s"
  using assms
  by (auto simp: cleanupTracking_def DeleteBlockRewardsCascade_def deleteTxRewardsByBlock_def DeleteBlockRewards_def Let_def
      go_defs split: if_splits res.splits prod.splits)

lemma cleanupPool:
  assumes acc: "accounts_ok env" and run: "cleanupRewardsPool env d s = (Ok (), t)"
    and v: "Coins_IsValid (bd_RewardsTotal d)" "Coins_IsValid (bd_RewardsDistributed d)"
  shows "pool_amt env t x = pool_amt env s x - (amt (bd_RewardsTotal d) x - amt (bd_RewardsDistributed d) x)"
    "rw_records t = rw_records s" "rw_addrIndex t = rw_addrIndex s" "rw_recordID t = rw_recordID s"
proof -
  obtain left where left: "Coins_Sub45 (bd_RewardsTotal d) (bd_RewardsDistributed d) = Ok left"
    and send: "(if left = [] then go_ret () else must (rw_on_bank (SendCoinsFromModuleToModule (ae_bank env)
       ContractRewardCollector TreasuryCollector left))) s = (Ok (), t)"
    using run by (auto simp: cleanupRewardsPool_def go_simps)
  have amt: "amt left x = amt (bd_RewardsTotal d) x - amt (bd_RewardsDistributed d) x"
    by (rule Coins_Sub45_Ok(1) [OF left v])
  have "pool_amt env t x = pool_amt env s x - amt left x \<and> rw_records t = rw_records s \<and>
      rw_addrIndex t = rw_addrIndex s \<and> rw_recordID t = rw_recordID s"
  proof (cases "left = []")
    case True
    with send show ?thesis by (simp add: go_ret_def)
  next
    case False
    then obtain ra ta b where ra: "be_module (ae_bank env) ContractRewardCollector = Some ra"
      and ta: "be_module (ae_bank env) TreasuryCollector = Some ta"
      and b: "SendCoins (ae_bank env) ra ta left (rw_bank s) = (Ok (), b)" and t: "t = s\<lparr>rw_bank := b\<rparr>"
      using send by (auto simp: go_simps SendCoinsFromModuleToModule_def split: option.splits)
    have "ra \<noteq> ta" using acc ra ta by (auto simp: accounts_ok_def)
    with SendCoins_amt [OF b, of ra x] ra t show ?thesis by (simp add: pool_amt_def GetBalance_def)
  qed
  with amt show "pool_amt env t x = pool_amt env s x - (amt (bd_RewardsTotal d) x - amt (bd_RewardsDistributed d) x)"
    "rw_records t = rw_records s" "rw_addrIndex t = rw_addrIndex s" "rw_recordID t = rw_recordID s" by simp_all
qed

lemma AllocateBlockRewards_pool:
  assumes acc: "accounts_ok env" and ok: "rewards_ok env s" and backed: "pool_backed env h s"
    and est: "estimateBlockGasUsage env s h = Ok d0" and room: "uint (rw_recordID s) + int (length (bd_Contracts d0)) < 2 ^ 64"
    and run: "AllocateBlockRewards env h s = (Ok (), t)"
  shows "records_ok env t" "pool_amt env t d = records_amt t d"
proof -
  have inv: "records_ok env s" "rewards_coins_ok s" "tracking_inv (rw_tracking s)"
    using ok by (simp_all add: rewards_ok_def)
  obtain d1 d2 u w where d1: "estimateBlockRewards s d0 = Ok d1" and d2: "createRewardsRecords env d1 s = (Ok d2, u)"
    and w: "cleanupRewardsPool env d2 u = (Ok (), w)" and t: "cleanupTracking h w = (Ok (), t)"
    using run est by (auto simp: AllocateBlockRewards_def go_simps)
  note br = block_rewards [OF inv(3,2) est d1]
  define cs where "cs = sort_key (\<lambda>c. AccAddress_String env (cd_ContractAddress c)) (filter has_record (kv_values (bd_Contracts d1)))"
  obtain paid where loop: "for_acc (create_record env) cs [] s = (Ok paid, u)"
    and d2_eq: "d2 = d1\<lparr>bd_RewardsDistributed := paid\<rparr>"
    using d2 br(3) by (auto simp: createRewardsRecords_def cs_def go_simps)
  have "length cs \<le> length (bd_Contracts d0)"
    using br(5) by (simp add: cs_def kv_values_def le_trans [OF length_filter_le])
  with room have room': "uint (rw_recordID s) + int (length cs) < 2 ^ 64" by linarith
  have "distr_ok c" if "c \<in> set cs" for c using that br(4) by (auto simp: cs_def kv_values_def)
  moreover have "arch_bech32_ok env" using acc by (simp add: accounts_ok_def)
  ultimately have made: "records_ok env u \<and> rw_bank u = rw_bank s \<and> Coins_IsValid paid \<and>
      amt paid d - amt [] d = records_amt u d - records_amt s d"
    by (intro create_records_loop [OF _ loop inv(1) _ IsValid_Nil room']) auto
  have v: "Coins_IsValid (bd_RewardsTotal d2)" "Coins_IsValid (bd_RewardsDistributed d2)"
    using made br(1) by (simp_all add: d2_eq)
  note clean = cleanupPool(1) [OF acc w v, of d] cleanupPool(2-4) [OF acc w v]
  note frame = cleanupTracking_frame [OF t]
  show "records_ok env t"
    using made clean frame by (simp add: records_ok_def GetRewardsRecord_def)
  have "pool_amt env t d = pool_amt env w d" using pool_amt_cong [OF frame(1)] by simp
  moreover have "records_amt t d = records_amt u d" using frame(2) clean(2) by (simp add: records_amt_def)
  moreover have "pool_amt env u d = pool_amt env s d" using made pool_amt_cong [of u s] by simp
  ultimately show "pool_amt env t d = records_amt t d"
    using clean(1) made backed br(2) [of d] by (simp add: pool_backed_def d2_eq)
qed

section \<open>Withdrawal\<close>

definition stored :: "rewards_state \<Rightarrow> RewardsRecord list \<Rightarrow> bool" where
  "stored s rs \<longleftrightarrow> distinct (map rr_Id rs) \<and> (\<forall>r\<in>set rs. GetRewardsRecord s (rr_Id r) = Some r)"

lemma delete_record_step:
  assumes ok: "records_ok env s" and r: "GetRewardsRecord s (rr_Id r) = Some r"
  obtains t where "delete_record env r s = (Ok (), t)" "records_ok env t" "rw_bank t = rw_bank s"
    "\<And>d. records_amt t d = records_amt s d - amt (rr_Rewards r) d"
    "\<And>i. GetRewardsRecord t i = (if i = rr_Id r then None else GetRewardsRecord s i)"
proof -
  define t where "t = s\<lparr>rw_records := kv_delete (rr_Id r) (rw_records s),
    rw_addrIndex := kv_delete (rr_group env r, rr_Id r) (rw_addrIndex s)\<rparr>"
  have "record_ok env r" using records_okD(3) [OF ok r] .
  then have run: "delete_record env r s = (Ok (), t)"
    by (simp add: delete_record_def go_defs rr_MustGetRewardsAddress_def record_ok_address res_must_def t_def)
  have keyed: "kv_keyed rr_Id (rw_records s)" and ix: "index_ok (rr_group env) (rw_records s) (rw_addrIndex s)"
    using ok by (rule records_okD)+
  have get: "GetRewardsRecord t i = (if i = rr_Id r then None else GetRewardsRecord s i)" for i
    by (simp add: t_def GetRewardsRecord_def)
  have "index_ok (rr_group env) (rw_records t) (rw_addrIndex t)"
    using index_ok_delete [OF ix, of "rr_Id r" "rr_group env r"] r by (simp add: t_def GetRewardsRecord_def)
  moreover have "record_ok env x \<and> i \<le> rw_recordID t" if "GetRewardsRecord t i = Some x" for i x
  proof -
    have "GetRewardsRecord s i = Some x" using that unfolding get by (simp split: if_splits)
    moreover have "rw_recordID t = rw_recordID s" by (simp add: t_def)
    ultimately show ?thesis using records_okD(3,4) [OF ok] by simp
  qed
  ultimately have "records_ok env t" using keyed by (simp add: records_ok_def t_def)
  moreover have "records_amt t d = records_amt s d - amt (rr_Rewards r) d" for d
    using sum_kv_delete [of "rw_records s" "rr_Id r" r "\<lambda>r. amt (rr_Rewards r) d"] keyed r
    by (simp add: records_amt_def t_def GetRewardsRecord_def kv_keyed_def)
  ultimately show thesis using that [of t] run get by (simp add: t_def)
qed

lemma delete_records:
  assumes "records_ok env s" "stored s rs" "DeleteRewardsRecords env rs s = (r, t)"
  shows "r = Ok () \<and> records_ok env t \<and> rw_bank t = rw_bank s \<and>
    (\<forall>d. records_amt t d = records_amt s d - sum_list (map (\<lambda>r. amt (rr_Rewards r) d) rs)) \<and>
    (\<forall>i. GetRewardsRecord t i = (if i \<in> rr_Id ` set rs then None else GetRewardsRecord s i))"
  using assms
proof (induction rs arbitrary: s)
  case (Cons x rs)
  have x: "GetRewardsRecord s (rr_Id x) = Some x" using Cons.prems(2) by (simp add: stored_def)
  obtain u where u: "delete_record env x s = (Ok (), u)" "records_ok env u" "rw_bank u = rw_bank s"
    "\<And>d. records_amt u d = records_amt s d - amt (rr_Rewards x) d"
    "\<And>i. GetRewardsRecord u i = (if i = rr_Id x then None else GetRewardsRecord s i)"
    by (rule delete_record_step [OF Cons.prems(1) x]) (rule that)
  have "stored u rs"
    unfolding stored_def u(5)
  proof (intro conjI ballI)
    show "distinct (map rr_Id rs)" using Cons.prems(2) by (simp add: stored_def)
    fix y assume y: "y \<in> set rs"
    then have "rr_Id y \<noteq> rr_Id x"
      using Cons.prems(2) unfolding stored_def by (metis distinct.simps(2) image_eqI list.set_map list.simps(9))
    with y Cons.prems(2) show "(if rr_Id y = rr_Id x then None else GetRewardsRecord s (rr_Id y)) = Some y"
      by (simp add: stored_def)
  qed
  moreover have "DeleteRewardsRecords env rs u = (r, t)"
    using Cons.prems(3) u(1) by (simp add: DeleteRewardsRecords_def)
  ultimately have IH: "r = Ok () \<and> records_ok env t \<and> rw_bank t = rw_bank u \<and>
      (\<forall>d. records_amt t d = records_amt u d - sum_list (map (\<lambda>r. amt (rr_Rewards r) d) rs)) \<and>
      (\<forall>i. GetRewardsRecord t i = (if i \<in> rr_Id ` set rs then None else GetRewardsRecord u i))"
    by (rule Cons.IH [OF u(2)])
  then have "records_amt t d = records_amt s d - sum_list (map (\<lambda>r. amt (rr_Rewards r) d) (x # rs))" for d
    using u(4) [of d] by simp
  moreover have "GetRewardsRecord t i = (if i \<in> rr_Id ` set (x # rs) then None else GetRewardsRecord s i)" for i
    using IH u(5) [of i] by (cases "i = rr_Id x") simp_all
  ultimately show ?case using IH u(3) by simp
qed (simp add: DeleteRewardsRecords_def)

lemma sum_rewards_ok:
  assumes "sum_rewards rs = Ok tot" "\<And>r. r \<in> set rs \<Longrightarrow> Coins_IsValid (rr_Rewards r)"
  shows "Coins_IsValid tot \<and> (\<forall>d. amt tot d = sum_list (map (\<lambda>r. amt (rr_Rewards r) d) rs))"
proof -
  have "res_acc (\<lambda>record total. Coins_Add45 total (rr_Rewards record)) xs a = Ok tot \<Longrightarrow> Coins_IsValid a \<Longrightarrow>
      (\<And>r. r \<in> set xs \<Longrightarrow> Coins_IsValid (rr_Rewards r)) \<Longrightarrow>
      Coins_IsValid tot \<and> (\<forall>d. amt tot d = amt a d + sum_list (map (\<lambda>r. amt (rr_Rewards r) d) xs))"
    for xs :: "RewardsRecord list" and a
  proof (induction xs arbitrary: a)
    case (Cons x xs)
    then obtain b where b: "Coins_Add45 a (rr_Rewards x) = Ok b"
      and rest: "res_acc (\<lambda>record total. Coins_Add45 total (rr_Rewards record)) xs b = Ok tot"
      by (auto simp: go_simps)
    have v: "Coins_IsValid (rr_Rewards x)" using Cons.prems(3) by simp
    note add = Coins_Add45_valid [OF b Cons.prems(2) v]
    show ?case using Cons.IH [OF rest add(1)] Cons.prems(3) add(2) by simp
  qed simp
  from this [of rs "[]"] assms show ?thesis by (simp add: sum_rewards_def)
qed

lemma withdraw_records:
  assumes ok: "records_ok env s" and st: "stored s rs" and a: "be_module (ae_bank env) ContractRewardCollector \<noteq> Some a"
    and run: "withdrawRewardsByRecords env a rs s = (Ok paid, t)"
  shows "records_ok env t" "amt paid d = sum_list (map (\<lambda>r. amt (rr_Rewards r) d) rs)"
    "records_amt t d = records_amt s d - amt paid d" "pool_amt env t d = pool_amt env s d - amt paid d"
    "GetBalance (rw_bank t) a d = GetBalance (rw_bank s) a d + amt paid d"
    "GetRewardsRecord t i = (if i \<in> rr_Id ` set rs then None else GetRewardsRecord s i)"
proof -
  obtain u where paid: "sum_rewards rs = Ok paid"
    and send: "(if \<not> Coins_IsZero paid then must (rw_on_bank (SendCoinsFromModuleToAccount (ae_bank env)
        ContractRewardCollector a paid)) else go_ret ()) s = (Ok (), u)"
    and del: "DeleteRewardsRecords env rs u = (Ok (), t)"
    using run by (auto simp: withdrawRewardsByRecords_def go_simps)
  have "Coins_IsValid (rr_Rewards r)" if "r \<in> set rs" for r
    using records_okD(3) [OF ok] st that by (auto simp: stored_def record_ok_def)
  note p = sum_rewards_ok [OF paid this]
  have u: "\<exists>b. u = s\<lparr>rw_bank := b\<rparr>" and bal: "pool_amt env u d = pool_amt env s d - amt paid d"
    "GetBalance (rw_bank u) a d = GetBalance (rw_bank s) a d + amt paid d"
  proof -
    have "(\<exists>b. u = s\<lparr>rw_bank := b\<rparr>) \<and> pool_amt env u d = pool_amt env s d - amt paid d \<and>
      GetBalance (rw_bank u) a d = GetBalance (rw_bank s) a d + amt paid d"
    proof (cases "paid = []")
      case True
      with send p have "u = s" by (simp add: go_ret_def Coins_IsZero_def)
      moreover have "s = s\<lparr>rw_bank := rw_bank s\<rparr>" by simp
      ultimately show ?thesis using True by (metis amt_simps(1) add.right_neutral diff_zero)
    next
      case False
      then obtain ra b where ra: "be_module (ae_bank env) ContractRewardCollector = Some ra"
        and b: "SendCoins (ae_bank env) ra a paid (rw_bank s) = (Ok (), b)" and u: "u = s\<lparr>rw_bank := b\<rparr>"
        using send p by (auto simp: go_simps SendCoinsFromModuleToAccount_def go_fail_def split: option.splits if_splits)
      have "ra \<noteq> a" using a ra by simp
      with SendCoins_amt [OF b, of ra d] SendCoins_amt [OF b, of a d] ra u show ?thesis
        by (auto simp: pool_amt_def GetBalance_def)
    qed
    then show "\<exists>b. u = s\<lparr>rw_bank := b\<rparr>" "pool_amt env u d = pool_amt env s d - amt paid d"
      "GetBalance (rw_bank u) a d = GetBalance (rw_bank s) a d + amt paid d" by blast+
  qed
  then have same: "records_ok env u" "stored u rs" "records_amt u d = records_amt s d" "GetRewardsRecord u i = GetRewardsRecord s i"
    using ok st by (auto simp: records_ok_def stored_def records_amt_def GetRewardsRecord_def)
  note d = delete_records [OF same(1,2) del]
  show "records_ok env t" using d by blast
  show "amt paid d = sum_list (map (\<lambda>r. amt (rr_Rewards r) d) rs)" using p by blast
  show "records_amt t d = records_amt s d - amt paid d" using d p same(3) by simp
  have bank: "rw_bank t = rw_bank u" using d by blast
  show "pool_amt env t d = pool_amt env s d - amt paid d" using bal(1) pool_amt_cong [OF bank] by simp
  show "GetBalance (rw_bank t) a d = GetBalance (rw_bank s) a d + amt paid d" using bal(2) bank by simp
  show "GetRewardsRecord t i = (if i \<in> rr_Id ` set rs then None else GetRewardsRecord s i)" using d same(4) by simp
qed

text \<open>The records a message names are stored and have different ids; those of a limit are the first of
  the address.\<close>

lemma ids_records:
  assumes "res_acc (check_record s str) is out = Ok rs"
  shows "\<exists>xs. rs = out @ xs \<and> map Some xs = map (GetRewardsRecord s) is \<and> (\<forall>r\<in>set xs. rr_RewardsAddress r = str)"
  using assms
proof (induction "is" arbitrary: out)
  case (Cons i "is")
  then obtain r where r: "GetRewardsRecord s i = Some r" "rr_RewardsAddress r = str"
    and rest: "res_acc (check_record s str) is (out @ [r]) = Ok rs"
    by (auto simp: go_simps check_record_def [of s str i] split: option.splits if_splits)
  from Cons.IH [OF rest] obtain xs where "rs = (out @ [r]) @ xs" "map Some xs = map (GetRewardsRecord s) is"
    "\<forall>r\<in>set xs. rr_RewardsAddress r = str" by blast
  with r show ?case by (intro exI [of _ "r # xs"]) simp
qed simp

lemma ids_stored:
  assumes ok: "records_ok env s" and run: "res_acc (check_record s str) is [] = Ok rs" and dist: "distinct is"
  shows "stored s rs" "map rr_Id rs = is" "\<forall>r\<in>set rs. rr_RewardsAddress r = str"
proof -
  have rs: "map Some rs = map (GetRewardsRecord s) is" and str: "\<forall>r\<in>set rs. rr_RewardsAddress r = str"
    using ids_records [OF run] by auto
  have key: "GetRewardsRecord s i = Some r \<Longrightarrow> rr_Id r = i" for i r
    using kv_keyed_get [OF records_okD(1) [OF ok]] by (auto simp: GetRewardsRecord_def)
  have len: "length rs = length is" using rs by (metis length_map)
  have nth: "GetRewardsRecord s (is ! k) = Some (rs ! k)" if "k < length rs" for k
    using rs that len by (metis nth_map)
  show ids: "map rr_Id rs = is"
    using len nth key by (intro nth_equalityI) auto
  show "stored s rs"
    using ids dist nth key len unfolding stored_def by (metis in_set_conv_nth)
  show "\<forall>r\<in>set rs. rr_RewardsAddress r = str" by (rule str)
qed

lemma limit_stored:
  assumes ok: "records_ok env s" and run: "GetRewardsRecordByRewardsAddressPaginated s a limit = Ok rs"
  shows "stored s rs" "\<forall>r\<in>set rs. rr_group env r = a"
proof -
  let ?ids = "idx_ids (rw_addrIndex s) a"
  have ix: "index_ok (rr_group env) (rw_records s) (rw_addrIndex s)" and keyed: "kv_keyed rr_Id (rw_records s)"
    using ok by (rule records_okD)+
  obtain n where n: "idx_items (rw_records s) (take n ?ids) = Ok rs"
    using run by (auto simp: GetRewardsRecordByRewardsAddressPaginated_def)
  have mem: "k \<in> set (take n ?ids) \<Longrightarrow> \<exists>v. kv_get (rw_records s) k = Some v \<and> rr_group env v = a" for k
    using idx_ids_iff [OF ix] in_set_takeD by metis
  then have rs: "rs = map (\<lambda>k. the (kv_get (rw_records s) k)) (take n ?ids)"
    using idx_items_total [of "take n ?ids" "rw_records s"] n by fastforce
  have item: "rr_Id (the (kv_get (rw_records s) k)) = k" if "k \<in> set (take n ?ids)" for k
    using mem [OF that] kv_keyed_get [OF keyed] by force
  then have ids: "map rr_Id rs = take n ?ids" by (simp add: rs comp_def map_idI)
  have "distinct ?ids" using idx_ids_sorted [OF index_okD(1) [OF ix], of a] strict_sorted_iff by blast
  then have "distinct (map rr_Id rs)" unfolding ids by (rule distinct_take)
  moreover have "GetRewardsRecord s (rr_Id r) = Some r" if r: "r \<in> set rs" for r
  proof -
    obtain k where k: "k \<in> set (take n ?ids)" "r = the (kv_get (rw_records s) k)" using r unfolding rs by auto
    with item [OF k(1)] mem [OF k(1)] show ?thesis by (auto simp: GetRewardsRecord_def)
  qed
  ultimately show "stored s rs" by (simp add: stored_def)
  show "\<forall>r\<in>set rs. rr_group env r = a" using mem by (force simp: rs)
qed

lemma validate_ids: "res_acc (\<lambda>i idsSet. if i = 0 then Err e else if i \<in> idsSet then Err e' else Ok (insert i idsSet)) is S = Ok S' \<Longrightarrow>
  distinct is \<and> set is \<inter> S = {}"
  by (induction "is" arbitrary: S) (fastforce simp: go_simps split: if_splits)+

end
