(* ===== verification/Payouts.thy ===== *)
theory Payouts
  imports RewardsPool
begin

text \<open>
  The theorems on Archway's reward module: the end of a block keeps the pool equal to what the
  records owe, a withdrawal pays its records once, shares of realistic amounts stay within what a
  block has brought, what a block pays is the sum of these shares, and a sum that exceeds what the
  block has brought stops the chain.
\<close>

section \<open>Shares of the gas\<close>

text \<open>A share is rounded to the nearest 18th decimal place, so it exceeds the exact quotient by at
  most half of one.\<close>

lemma gas_share_bound:
  assumes "gas_share (d, A) g G = Ok c" "0 \<le> A"
  obtains q where "0 \<le> q" "2 * q * uint G \<le> 2 * uint g * precisionReuse + uint G"
    "snd c * precisionReuse \<le> A * q" "0 < uint G"
proof -
  let ?P = precisionReuse
  have P: "0 < ?P" by (simp add: precisionReuse_def)
  obtain q where q: "Dec_Quo (NewDecFromUint64 g) (NewDecFromUint64 G) = Ok q"
    and c: "snd c = chopPrecisionAndTruncate (chopPrecisionAndRound (NewDecFromInt A * q))"
    using assms(1) by (auto simp: gas_share_def go_simps)
  have G: "0 < uint G" using q P by (auto simp: go_simps NewDecFromUint64_def NewDecFromInt_def order.strict_iff_order)
  have "big_quo (uint g * ?P * (?P * ?P)) (uint G * ?P) = uint g * ?P * (?P * ?P) div (uint G * ?P)"
    using G P by (intro big_quo_pos) simp_all
  also have "\<dots> = uint g * ?P * ?P div uint G"
    using P div_mult_mult2 [of ?P "uint g * ?P * ?P" "uint G"] by (simp add: ac_simps)
  finally have q': "q = chop_nonneg (uint g * ?P * ?P div uint G)"
    using q G P by (simp add: go_simps NewDecFromUint64_def NewDecFromInt_def chopPrecisionAndRound_nonneg pos_imp_zdiv_nonneg_iff)
  have q0: "0 \<le> q" unfolding q' using G P by (intro chop_nonneg_ge_0) (simp add: pos_imp_zdiv_nonneg_iff)
  have "2 * (q * ?P) \<le> 2 * (uint g * ?P * ?P div uint G) + ?P"
    unfolding q' by (rule chop_nonneg_bounds)
  then have "2 * (q * ?P) * uint G \<le> (2 * (uint g * ?P * ?P div uint G) + ?P) * uint G"
    using G by (intro mult_right_mono) simp_all
  also have "\<dots> = 2 * ((uint g * ?P * ?P div uint G) * uint G) + ?P * uint G" by (simp add: algebra_simps)
  also have "\<dots> \<le> 2 * (uint g * ?P * ?P) + ?P * uint G"
    using G pos_mod_sign [of "uint G" "uint g * ?P * ?P"]
      minus_mod_eq_div_mult [of "uint g * ?P * ?P" "uint G", symmetric] by linarith
  finally have "(2 * q * uint G) * ?P \<le> (2 * uint g * ?P + uint G) * ?P" by (simp add: algebra_simps)
  then have b: "2 * q * uint G \<le> 2 * uint g * ?P + uint G" using P mult_le_cancel_right_pos by blast
  have "snd c * ?P \<le> A * q" unfolding c Dec_Mul_int using assms(2) q0 by (intro truncate_le) simp
  with q0 b G show thesis using that by blast
qed

lemma gas_shares_sum:
  assumes "list_all2 (\<lambda>g c. gas_share (d, A) g G = Ok c) gs cs" "0 \<le> A"
  obtains q where "0 \<le> q" "2 * q * uint G \<le> 2 * sum_list (map uint gs) * precisionReuse + int (length gs) * uint G"
    "sum_list (map snd cs) * precisionReuse \<le> A * q"
  using assms
proof (induction gs cs arbitrary: thesis rule: list_all2_induct)
  case Nil
  show ?case by (rule Nil(1) [of 0]) simp_all
next
  case (Cons g gs c cs)
  obtain q where q: "0 \<le> q" "2 * q * uint G \<le> 2 * sum_list (map uint gs) * precisionReuse + int (length gs) * uint G"
    "sum_list (map snd cs) * precisionReuse \<le> A * q"
    by (rule Cons.IH [OF _ assms(2)]) (rule that)
  obtain r where r: "0 \<le> r" "2 * r * uint G \<le> 2 * uint g * precisionReuse + uint G" "snd c * precisionReuse \<le> A * r"
    by (rule gas_share_bound [OF Cons.hyps(1) assms(2)]) (rule that)
  show ?case by (rule Cons.prems(1) [of "q + r"]) (use q r in \<open>simp_all add: algebra_simps\<close>)
qed

text \<open>The shares that contracts get of an amount for their parts of the gas add up to at
  most the amount, as long as the amount times the number of contracts stays below two whole
  tokens of 18 decimals.\<close>

theorem gas_shares_within_amount:
  assumes shares: "list_all2 (\<lambda>g c. gas_share (d, A) g G = Ok c) gs cs"
    and gas: "sum_list (map uint gs) \<le> uint G" and A: "0 \<le> A" "A * int (length gs) < 2 * 10 ^ 18"
  shows "sum_list (map snd cs) \<le> A"
proof (cases "gs = []")
  case True
  with shares A show ?thesis by simp
next
  case False
  let ?P = precisionReuse and ?n = "int (length gs)"
  have P: "?P = 10 ^ 18" by (simp add: precisionReuse_def)
  obtain g c where "g \<in> set gs" "gas_share (d, A) g G = Ok c"
    using shares False by (cases gs; cases cs) auto
  then have G: "0 < uint G" using gas_share_bound [OF _ A(1)] by metis
  obtain q where q: "0 \<le> q" "2 * q * uint G \<le> 2 * sum_list (map uint gs) * ?P + ?n * uint G"
    "sum_list (map snd cs) * ?P \<le> A * q"
    by (rule gas_shares_sum [OF shares A(1)]) (rule that)
  have "2 * sum_list (map uint gs) * ?P \<le> 2 * uint G * ?P" using gas by (simp add: P)
  with q(2) have "2 * q * uint G \<le> 2 * uint G * ?P + ?n * uint G" by (rule order_trans [OF _ add_right_mono])
  then have "(2 * q) * uint G \<le> (2 * ?P + ?n) * uint G" by (simp add: algebra_simps)
  then have "2 * q \<le> 2 * ?P + ?n" using G mult_le_cancel_right_pos by blast
  then have "A * (2 * q) \<le> A * (2 * ?P + ?n)" using A(1) by (rule mult_left_mono)
  with q(3) A(2) have "2 * (sum_list (map snd cs) * ?P) < 2 * (A * ?P) + 2 * ?P" by (simp add: algebra_simps P)
  then have "sum_list (map snd cs) * ?P < (A + 1) * ?P" by (simp add: algebra_simps)
  then show ?thesis by (simp add: P)
qed

theorem gas_shares_within_amount_witness:
  "sum_list (map snd [(''stake'', 333333), (''stake'', 666666)]) \<le> (1000000::int)"
  by (rule gas_shares_within_amount [where d = "''stake''" and gs = "[1, 2]" and G = 3]) (simp, code_simp+)

section \<open>The end of a block\<close>

text \<open>A block with one transaction of three contract calls, and what it has brought: the inflation of
  the block and the part of the fees that is rebated, both in the pool.\<close>

definition demo_metadata :: "string \<Rightarrow> ContractMetadata" where
  "demo_metadata c = empty_metadata\<lparr>cm_ContractAddress := ''archway1'' @ c, cm_OwnerAddress := ''archway1o'',
     cm_RewardsAddress := ''archway1u''\<rparr>"

definition demo_calls :: tracking_state where
  "demo_calls = snd (IngestGasRecord demo_arch
     [\<lparr>gr_OperationId = 1, gr_ContractAddress = ''archway1c'', gr_VMGas = 10, gr_SDKGas = 0\<rparr>,
      \<lparr>gr_OperationId = 2, gr_ContractAddress = ''archway1d'', gr_VMGas = 10, gr_SDKGas = 0\<rparr>,
      \<lparr>gr_OperationId = 3, gr_ContractAddress = ''archway1e'', gr_VMGas = 20, gr_SDKGas = 20\<rparr>]
     (TrackNewTx demo_arch fresh_tracking))"

definition demo_rewards :: "int \<Rightarrow> denom \<Rightarrow> int \<Rightarrow> rewards_state" where
  "demo_rewards infl feeDenom fee =
     \<lparr>rw_params = rewards_DefaultParams,
      rw_metadata = [(''c'', demo_metadata ''c''), (''d'', demo_metadata ''d''), (''e'', demo_metadata ''e'')],
      rw_blockRewards = [(5, \<lparr>br_Height = 5, br_InflationRewards = (''stake'', infl), br_MaxGas = 100\<rparr>)],
      rw_txRewards = [(1, \<lparr>xr_TxId = 1, xr_Height = 5, xr_FeeRewards = [(feeDenom, fee)]\<rparr>)],
      rw_txIndex = [((5, 1), ())], rw_minConsFee = None, rw_recordID = 0, rw_records = [], rw_addrIndex = [],
      rw_flatFees = [], rw_tracking = snd (tracking_EndBlocker demo_arch demo_calls),
      rw_bank = \<lparr>bk_balance = (\<lambda>a d. if a \<noteq> ''R'' then 0
        else (if d = ''stake'' then infl else 0) + (if d = feeDenom then fee else 0)), bk_supply = (\<lambda>_. 0)\<rparr>\<rparr>"

lemma demo_calls_tracked: "tracked demo_calls"
proof -
  have "tracked (TrackNewTx demo_arch fresh_tracking)"
    by (rule tracked_tx [OF tracked_start]) (simp add: fresh_tracking_def word_gt_0)
  then show ?thesis
    unfolding demo_calls_def
    by (rule tracked_ops [OF _ _ surjective_pairing]) (simp add: fresh_tracking_def TrackNewTx_eq Let_def)
qed

lemma demo_accounts: "accounts_ok demo_arch"
proof -
  have "map (be_module (ae_bank demo_arch)) [ContractRewardCollector, TreasuryCollector, FeeCollectorName] =
    [Some ''R'', Some ''T'', Some ''F'']" by code_simp
  with demo_arch_bech32 show ?thesis by (simp add: accounts_ok_def)
qed

lemma demo_rewards_ok:
  assumes pos: "0 < infl" "0 < fee" "ValidateDenom d"
  shows "rewards_ok demo_arch (demo_rewards infl d fee)"
proof -
  have inv: "tracking_inv (snd (tracking_EndBlocker demo_arch demo_calls))"
    by (rule tracked_inv [OF tracked_end [OF demo_calls_tracked surjective_pairing]])
  have "ValidateDenom ''stake''" by code_simp
  with pos inv show ?thesis
    by (auto simp: rewards_ok_def records_ok_def rewards_coins_ok_def demo_rewards_def GetRewardsRecord_def GetTxRewards_def
        coin_ok_def Coins_IsValid_def kv_get_def index_ok_def split: if_splits)
qed

lemma demo_rewards_backed: "0 < infl \<Longrightarrow> pool_backed demo_arch 5 (demo_rewards infl d fee)"
proof -
  assume pos: "0 < infl"
  have "map_res (map ti_Id) (GetTxInfosByBlock (snd (tracking_EndBlocker demo_arch demo_calls)) 5) = Ok [1]" by code_simp
  then obtain tx where "GetTxInfosByBlock (snd (tracking_EndBlocker demo_arch demo_calls)) 5 = Ok [tx]" "ti_Id tx = 1"
    by (cases "GetTxInfosByBlock (snd (tracking_EndBlocker demo_arch demo_calls)) 5") (auto simp: res.map)
  moreover have "be_module (ae_bank demo_arch) ContractRewardCollector = Some ''R''" by code_simp
  ultimately show ?thesis
    using pos by (simp add: pool_backed_def pool_amt_def demo_rewards_def GetBalance_def records_amt_def kv_values_def pending_amt_def
        inflation_total_def GetBlockRewards_def block_HasRewards_def fee_amt_def GetTxRewards_def kv_get_def block_key_def)
qed
lemma sum_rewards_total:
  assumes "\<And>r. r \<in> set rs \<Longrightarrow> Coins_IsValid (rr_Rewards r)"
    and "\<And>d. sum_list (map (\<lambda>r. amt (rr_Rewards r) d) rs) < 2 ^ 255"
  obtains tot where "sum_rewards rs = Ok tot" "Coins_IsValid tot" "\<And>d. amt tot d = sum_list (map (\<lambda>r. amt (rr_Rewards r) d) rs)"
proof -
  have "\<exists>tot. res_acc (\<lambda>record total. Coins_Add45 total (rr_Rewards record)) xs a = Ok tot"
    if "Coins_IsValid a" "\<And>r. r \<in> set xs \<Longrightarrow> Coins_IsValid (rr_Rewards r)"
      "\<And>d. amt a d + sum_list (map (\<lambda>r. amt (rr_Rewards r) d) xs) < 2 ^ 255" for a xs
    using that
  proof (induction xs arbitrary: a)
    case (Cons x xs)
    have nn: "0 \<le> sum_list (map (\<lambda>r. amt (rr_Rewards r) d) xs)" for d
      using Cons.prems(2) by (intro sum_list_nonneg) (auto intro: IsValid_amt_nonneg)
    have "fits (amt a d + amt (rr_Rewards x) d)" for d
      using Cons.prems(3) [of d] nn [of d] IsValid_amt_nonneg [OF Cons.prems(1), of d]
        IsValid_amt_nonneg [OF Cons.prems(2), of x d] by (simp add: fits_def)
    then obtain b where b: "Coins_Add45 a (rr_Rewards x) = Ok b" "Coins_IsValid b" "\<And>d. amt b d = amt a d + amt (rr_Rewards x) d"
      using Coins_Add45_valid_total [OF Cons.prems(1) Cons.prems(2), of x] by auto
    have "amt b d + sum_list (map (\<lambda>r. amt (rr_Rewards r) d) xs) < 2 ^ 255" for d
      using Cons.prems(3) [of d] b(3) by (simp add: add.assoc)
    with Cons.IH [OF b(2)] Cons.prems(2) b(1) show ?case by simp
  qed simp
  from this [of "[]" rs] assms obtain tot where tot: "sum_rewards rs = Ok tot" by (auto simp: sum_rewards_def)
  with sum_rewards_ok [OF tot assms(1)] that show thesis by blast
qed

lemma Coins_IsEqual_refl: "Coins_IsEqual cs cs = Ok True"
proof -
  have "res_acc (\<lambda>p all. if \<not> all then Ok False else if fst (fst p) \<noteq> fst (snd p) then Panic
      else Ok (snd (fst p) = snd (snd p))) (zip xs xs) True = Ok True" for xs :: coins
    by (induction xs) simp_all
  then show ?thesis by (simp add: Coins_IsEqual_def)
qed

lemma valid_coins_ext: "Coins_IsValid a \<Longrightarrow> Coins_IsValid b \<Longrightarrow> (\<And>d. amt a d = amt b d) \<Longrightarrow> a = b"
  using IsValid_pos by (intro sorted_nonzero_ext IsValid_sorted) fastforce+

lemma records_valid:
  assumes ok: "records_ok env s" and r: "r \<in> set (kv_values (rw_records s))"
  shows "Coins_IsValid (rr_Rewards r)"
proof -
  have "kv_sorted (rw_records s)" using records_okD(1) [OF ok] by (simp add: kv_keyed_def)
  with r obtain i where "GetRewardsRecord s i = Some r"
    by (auto simp: kv_values_def GetRewardsRecord_def kv_get_def kv_sorted_def strict_sorted_iff)
  then show ?thesis using records_okD(3) [OF ok] by (auto simp: record_ok_def)
qed

text \<open>When the pool is the sum of the records the module's own invariant holds.\<close>

lemma invariant_holds:
  assumes ok: "records_ok env s" and pool: "\<And>d. pool_amt env s d = records_amt s d"
    and v: "Coins_IsValid poolCurrent" and cur: "\<And>d. amt poolCurrent d = pool_amt env s d"
    and fit: "\<And>d. pool_amt env s d < 2 ^ 255"
  shows "ModuleAccountBalanceInvariant poolCurrent s = Ok False"
proof -
  have "sum_list (map (\<lambda>r. amt (rr_Rewards r) d) (kv_values (rw_records s))) = pool_amt env s d" for d
    by (simp add: pool records_amt_def)
  then obtain tot where tot: "sum_rewards (kv_values (rw_records s)) = Ok tot" "Coins_IsValid tot"
      "\<And>d. amt tot d = pool_amt env s d"
    using sum_rewards_total [of "kv_values (rw_records s)"] records_valid [OF ok] fit by metis
  have "tot = poolCurrent" by (rule valid_coins_ext [OF tot(2) v]) (simp add: tot(3) cur)
  with tot(1) show ?thesis by (simp add: ModuleAccountBalanceInvariant_def Coins_IsEqual_refl)
qed

text \<open>Property C30. If before the end of a block the rewards pool holds what the records owe and what the
  block has brought, then afterwards it holds exactly what the records owe: every share has become a
  record, the remainder has gone to the treasury, and the module's invariant
  \<open>module-account-balance\<close> is not broken.\<close>

theorem end_block_keeps_pool:
  assumes acc: "accounts_ok env" and ok: "rewards_ok env s" and backed: "pool_backed env (ae_blockHeight env) s"
    and room: "estimateBlockGasUsage env s (ae_blockHeight env) = Ok usage"
      "uint (rw_recordID s) + int (length (bd_Contracts usage)) < 2 ^ 64"
    and run: "rewards_EndBlocker env s = (Ok (), t)"
  shows "(\<forall>d. pool_amt env t d = records_amt t d) \<and>
    (\<forall>poolCurrent. Coins_IsValid poolCurrent \<and> (\<forall>d. amt poolCurrent d = pool_amt env t d \<and> pool_amt env t d < 2 ^ 255) \<longrightarrow>
       ModuleAccountBalanceInvariant poolCurrent t = Ok False)"
proof -
  note pool = AllocateBlockRewards_pool [OF acc ok backed room run [unfolded rewards_EndBlocker_def]]
  then show ?thesis using invariant_holds [OF pool(1,2)] by blast
qed

definition demo_block :: rewards_state where
  "demo_block = snd (rewards_EndBlocker demo_arch (demo_rewards 1000 ''stake'' 600))"

lemma demo_height: "ae_blockHeight demo_arch = 5"
  by (simp add: demo_arch_def)

theorem end_block_keeps_pool_witness:
  "fst (rewards_EndBlocker demo_arch (demo_rewards 1000 ''stake'' 600)) = Ok () \<and>
   pool_amt demo_arch demo_block ''stake'' = records_amt demo_block ''stake'' \<and>
   records_amt demo_block ''stake'' = 1200 \<and>
   GetBalance (rw_bank demo_block) ''T'' ''stake'' = 400"
proof -
  have "(case rewards_EndBlocker demo_arch (demo_rewards 1000 ''stake'' 600) of (r, t) \<Rightarrow>
      (r, records_amt t ''stake'', GetBalance (rw_bank t) ''T'' ''stake'')) = (Ok (), 1200, 400)"
    by code_simp
  then have run: "fst (rewards_EndBlocker demo_arch (demo_rewards 1000 ''stake'' 600)) = Ok ()"
      "records_amt demo_block ''stake'' = 1200" "GetBalance (rw_bank demo_block) ''T'' ''stake'' = 400"
    by (simp_all add: demo_block_def split: prod.splits)
  have "map_res (\<lambda>d. length (bd_Contracts d)) (estimateBlockGasUsage demo_arch (demo_rewards 1000 ''stake'' 600) 5) = Ok 3" by code_simp
  then obtain usage where u: "estimateBlockGasUsage demo_arch (demo_rewards 1000 ''stake'' 600) 5 = Ok usage" "length (bd_Contracts usage) = 3"
    by (cases "estimateBlockGasUsage demo_arch (demo_rewards 1000 ''stake'' 600) 5") (auto simp: res.map)
  have stake: "ValidateDenom ''stake''" by code_simp
  have id: "rw_recordID (demo_rewards 1000 ''stake'' 600) = 0" by (simp add: demo_rewards_def)
  have "\<forall>d. pool_amt demo_arch demo_block d = records_amt demo_block d"
    using end_block_keeps_pool [of demo_arch "demo_rewards 1000 ''stake'' 600" usage "demo_block"] run u id
      demo_accounts demo_rewards_ok [of 1000 600 "''stake''"] stake demo_rewards_backed [of 1000 "''stake''" 600]
    by (simp add: demo_height demo_block_def prod_eq_iff)
  with run show ?thesis by blast
qed

section \<open>What the contracts have earned\<close>

text \<open>What a contract has earned, stated on the gas alone: its share of the inflation, by its part
  of the block's gas limit, and of the rebate of every transaction, by its part of that
  transaction's gas. A quotient of gas is rounded half to even to 18 decimals, and what it yields is
  cut to whole tokens.\<close>

definition rounded_share :: "int \<Rightarrow> uint64 \<Rightarrow> uint64 \<Rightarrow> int" where
  "rounded_share A g G = A * chop_nonneg (uint g * precisionReuse * precisionReuse div uint G) div precisionReuse"

definition inflation_due :: "rewards_state \<Rightarrow> int \<Rightarrow> uint64 \<Rightarrow> denom \<Rightarrow> int" where
  "inflation_due s h g d =
     (case GetBlockRewards s h of None \<Rightarrow> 0
      | Some br \<Rightarrow> if HasGasLimit br \<and> fst (br_InflationRewards br) = d
          then rounded_share (snd (br_InflationRewards br)) g (br_MaxGas br) else 0)"

definition rebate_due :: "rewards_state \<Rightarrow> (uint64, uint64) kvstore \<Rightarrow> denom \<Rightarrow> uint64 \<times> uint64 \<Rightarrow> int" where
  "rebate_due s txs d usage =
     (case kv_get txs (fst usage) of None \<Rightarrow> 0
      | Some gas \<Rightarrow> rounded_share (fee_amt s (fst usage) d) (snd usage) gas)"

definition contract_due :: "rewards_state \<Rightarrow> block_distr \<Rightarrow> denom \<Rightarrow> contract_distr \<Rightarrow> int" where
  "contract_due s u d c =
     inflation_due s (bd_Height u) (cd_BlockGasUsed c) d + sum_list (map (rebate_due s (bd_Txs u) d) (cd_TxGasUsed c))"

text \<open>The sum over the contracts that have an address to be rewarded at.\<close>

definition block_due :: "rewards_state \<Rightarrow> block_distr \<Rightarrow> denom \<Rightarrow> int" where
  "block_due s u d = sum_list (map (contract_due s u d)
     (filter (\<lambda>c. case cd_Metadata c of None \<Rightarrow> False | Some m \<Rightarrow> HasRewardsAddress m) (kv_values (bd_Contracts u))))"

lemma rounded_share_0 [simp]: "rounded_share 0 g G = 0"
  by (simp add: rounded_share_def)

lemma gas_share_value:
  assumes "gas_share coin g G = Ok c" "0 \<le> snd coin"
  shows "c = (fst coin, rounded_share (snd coin) g G)"
proof -
  let ?P = precisionReuse
  have P: "0 < ?P" by (simp add: precisionReuse_def)
  obtain q where q: "Dec_Quo (NewDecFromUint64 g) (NewDecFromUint64 G) = Ok q"
    and c: "c = (fst coin, chopPrecisionAndTruncate (chopPrecisionAndRound (NewDecFromInt (snd coin) * q)))"
    using assms(1) by (auto simp: gas_share_def go_simps)
  have G: "0 < uint G" using q P by (auto simp: go_simps NewDecFromUint64_def NewDecFromInt_def order.strict_iff_order)
  have "big_quo (uint g * ?P * (?P * ?P)) (uint G * ?P) = uint g * ?P * (?P * ?P) div (uint G * ?P)"
    using G P by (intro big_quo_pos) simp_all
  also have "\<dots> = uint g * ?P * ?P div uint G"
    using P div_mult_mult2 [of ?P "uint g * ?P * ?P" "uint G"] by (simp add: ac_simps)
  finally have q': "q = chop_nonneg (uint g * ?P * ?P div uint G)"
    using q G P by (simp add: go_simps NewDecFromUint64_def NewDecFromInt_def chopPrecisionAndRound_nonneg pos_imp_zdiv_nonneg_iff)
  have "0 \<le> q" unfolding q' using G P by (intro chop_nonneg_ge_0) (simp add: pos_imp_zdiv_nonneg_iff)
  with assms(2) show ?thesis unfolding c Dec_Mul_int by (simp add: truncate_nonneg rounded_share_def q')
qed

lemma shares_amt:
  assumes "res_acc (\<lambda>feeCoin rewards. rbind (gas_share feeCoin g G) (\<lambda>reward. Coins_Add45 rewards [reward])) cs a = Ok r"
    and "sorted_wrt (<) (map fst cs)" "\<And>c. c \<in> set cs \<Longrightarrow> 0 < snd c" "Coins_IsValid a"
  shows "Coins_IsValid r \<and> amt r d = amt a d + rounded_share (amt cs d) g G"
  using assms
proof (induction cs arbitrary: a)
  case (Cons c cs)
  obtain x b where x: "gas_share c g G = Ok x" "Coins_Add45 a [x] = Ok b"
    and rest: "res_acc (\<lambda>feeCoin rewards. rbind (gas_share feeCoin g G) (\<lambda>reward. Coins_Add45 rewards [reward])) cs b = Ok r"
    using Cons.prems(1) by (auto simp: go_simps)
  have "0 \<le> snd c" using Cons.prems(3) [of c] by simp
  note xv = gas_share_value [OF x(1) this]
  have b: "Coins_IsValid b" "amt b d = amt a d + (if fst x = d then snd x else 0)"
    using Add45_coin_valid [OF x(2) Cons.prems(4)] gas_share_ok [OF x(1)] by blast+
  have rest0: "amt cs d = 0" if "fst c = d" using Cons.prems(2) that by (intro amt_notin) fastforce
  show ?case
    using Cons.IH [OF rest _ _ b(1)] Cons.prems(2,3) b(2) rest0 by (cases "fst c = d") (simp_all add: xv)
qed simp

lemma txs_rewards_get:
  "kv_get (txs_rewards s txs) i =
     (case GetTxRewards s i of None \<Rightarrow> None
      | Some x \<Rightarrow> if i \<in> fst ` set txs \<and> tx_HasRewards x then Some (xr_FeeRewards x) else None)"
proof -
  define f where "f = (\<lambda>(txID, _ :: uint64) m. case GetTxRewards s txID of
         Some txRewards \<Rightarrow> if tx_HasRewards txRewards then kv_set txID (xr_FeeRewards txRewards) m else m
       | None \<Rightarrow> m)"
  have "kv_get (fold f xs m) i = (case GetTxRewards s i of None \<Rightarrow> kv_get m i
      | Some x \<Rightarrow> if i \<in> fst ` set xs \<and> tx_HasRewards x then Some (xr_FeeRewards x) else kv_get m i)" for xs m
  proof (induction xs arbitrary: m)
    case (Cons e xs)
    then show ?case by (cases e) (auto simp: f_def split: option.splits)
  qed (simp split: option.splits)
  from this [of txs "[]"] show ?thesis by (simp add: txs_rewards_def f_def split: option.splits)
qed

lemma contract_fees_amt:
  assumes "contract_fees txs (txs_rewards s txs) usage fees = Ok r" "rewards_coins_ok s" "Coins_IsValid fees"
  shows "Coins_IsValid r \<and> amt r d = amt fees d + rebate_due s txs d usage"
proof -
  have valid: "Coins_IsValid (xr_FeeRewards x)" if "GetTxRewards s i = Some x" for i x
    using assms(2) that by (auto simp: rewards_coins_ok_def)
  show ?thesis
  proof (cases "kv_get (txs_rewards s txs) (fst usage)")
    case None
    have "rebate_due s txs d usage = 0"
    proof (cases "kv_get txs (fst usage)")
      case (Some gas)
      then have "fst usage \<in> fst ` set txs" by (metis kv_get_def map_of_SomeD fst_conv image_eqI)
      with None have "fee_amt s (fst usage) d = 0"
        using valid [of "fst usage"] by (auto simp: txs_rewards_get fee_amt_def tx_HasRewards_def split: option.splits if_splits)
      then show ?thesis by (simp add: rebate_due_def split: option.split)
    qed (simp add: rebate_due_def)
    with None assms show ?thesis by (simp add: contract_fees_def)
  next
    case (Some fs)
    then obtain x where x: "GetTxRewards s (fst usage) = Some x" "fs = xr_FeeRewards x" "fst usage \<in> fst ` set txs"
      by (auto simp: txs_rewards_get split: option.splits if_splits)
    then obtain gas where gas: "kv_get txs (fst usage) = Some gas"
      by (cases "kv_get txs (fst usage)") (auto simp: kv_get_def map_of_eq_None_iff)
    have v: "Coins_IsValid fs" using valid x by simp
    from assms(1) Some gas
    have "res_acc (\<lambda>feeCoin rewards. rbind (gas_share feeCoin (snd usage) gas) (\<lambda>reward. Coins_Add45 rewards [reward])) fs fees = Ok r"
      by (simp add: contract_fees_def)
    from shares_amt [OF this IsValid_sorted [OF v] IsValid_pos [OF v] assms(3), of d] x gas show ?thesis
      by (simp add: rebate_due_def fee_amt_def)
  qed
qed

definition unpaid :: "contract_distr \<Rightarrow> bool" where
  "unpaid c \<longleftrightarrow> cd_FeeRewards c = [] \<and> cd_InflationaryRewards c = ('''', 0)"

definition own_amt :: "contract_distr \<Rightarrow> denom \<Rightarrow> int" where
  "own_amt c d = amt (cd_FeeRewards c) d + amt [cd_InflationaryRewards c] d"

lemma estimate_contract_due:
  assumes "estimate_contract (bd_Txs u) (txs_rewards s (bd_Txs u)) (inflation_eligible s (bd_Height u)) c = Ok c'"
    and "rewards_coins_ok s" "unpaid c"
  shows "own_amt c' d = contract_due s u d c" "cd_Metadata c' = cd_Metadata c"
proof -
  let ?txs = "bd_Txs u"
  obtain i f where i: "(case inflation_eligible s (bd_Height u) of None \<Rightarrow> Ok (cd_InflationaryRewards c)
      | Some br \<Rightarrow> gas_share (br_InflationRewards br) (cd_BlockGasUsed c) (br_MaxGas br)) = Ok i"
    and f: "res_acc (contract_fees ?txs (txs_rewards s ?txs)) (cd_TxGasUsed c) [] = Ok f"
    and c': "c' = c\<lparr>cd_InflationaryRewards := i, cd_FeeRewards := f\<rparr>"
    using assms(1,3) by (auto simp: estimate_contract_def unpaid_def go_simps)
  have "Coins_IsValid f \<and> amt f d = amt a d + sum_list (map (rebate_due s ?txs d) us)"
    if "res_acc (contract_fees ?txs (txs_rewards s ?txs)) us a = Ok f" "Coins_IsValid a" for us a
    using that
  proof (induction us arbitrary: a)
    case (Cons x us)
    then obtain b where b: "contract_fees ?txs (txs_rewards s ?txs) x a = Ok b"
      and rest: "res_acc (contract_fees ?txs (txs_rewards s ?txs)) us b = Ok f" by (auto simp: go_simps)
    from contract_fees_amt [OF b assms(2) Cons.prems(2), of d] Cons.IH [OF rest] show ?case by simp
  qed simp
  from this [OF f] have "amt f d = sum_list (map (rebate_due s ?txs d) (cd_TxGasUsed c))" by simp
  moreover have "amt [i] d = inflation_due s (bd_Height u) (cd_BlockGasUsed c) d"
  proof (cases "inflation_eligible s (bd_Height u)")
    case None
    with i assms(3) have "i = ('''', 0)" by (simp add: unpaid_def)
    with None show ?thesis
      by (auto simp: inflation_eligible_def inflation_due_def block_HasRewards_def split: option.splits if_splits)
  next
    case (Some br)
    then have br: "GetBlockRewards s (bd_Height u) = Some br" "HasGasLimit br"
      by (auto simp: inflation_eligible_def split: option.splits if_splits)
    then have "0 \<le> snd (br_InflationRewards br)"
      using assms(2) by (force simp: rewards_coins_ok_def coin_ok_def GetBlockRewards_def)
    with i Some br gas_share_value [of "br_InflationRewards br" "cd_BlockGasUsed c" "br_MaxGas br" i] show ?thesis
      by (simp add: inflation_due_def)
  qed
  ultimately show "own_amt c' d = contract_due s u d c" "cd_Metadata c' = cd_Metadata c"
    by (simp_all add: own_amt_def contract_due_def c' del: amt_simps(2))
qed

lemma estimate_ops_unpaid:
  assumes "res_acc (\<lambda>(_, ops). res_acc (estimate_op env s) ops) txs m = Ok m'" "\<forall>e\<in>set m. unpaid (snd e)"
  shows "\<forall>e\<in>set m'. unpaid (snd e)"
proof -
  have op: "\<forall>e\<in>set m'. unpaid (snd e)" if step: "estimate_op env s x m = Ok m'" and all: "\<forall>e\<in>set m. unpaid (snd e)" for x m m'
  proof (cases "snd (GasUsed x)")
    case True
    then obtain c where c: "(case kv_get m (oi_ContractAddress x) of
          Some c \<Rightarrow> Ok c | None \<Rightarrow> new_contract_distr env s x) = Ok c"
      and m': "m' = kv_set (oi_ContractAddress x) (add_gas x (fst (GasUsed x)) c) m"
      using step by (auto simp: estimate_op_def case_prod_beta go_simps)
    have "unpaid c"
      using c all by (auto simp: new_contract_distr_def go_simps unpaid_def kv_get_def
          split: option.splits dest!: map_of_SomeD)
    then have "unpaid (add_gas x g c)" for g by (simp add: unpaid_def add_gas_def Let_def)
    with all set_kv_set_subset [of "oi_ContractAddress x" _ m] show ?thesis
      unfolding m' by fastforce
  qed (use step all in \<open>simp add: estimate_op_def case_prod_beta\<close>)
  have ops: "\<forall>e\<in>set m'. unpaid (snd e)" if "res_acc (estimate_op env s) xs m = Ok m'" "\<forall>e\<in>set m. unpaid (snd e)" for xs m m'
    using that by (induction xs arbitrary: m) (auto simp: go_simps dest: op)
  from assms show ?thesis
  proof (induction txs arbitrary: m)
    case (Cons tx txs)
    then obtain m1 where "res_acc (estimate_op env s) (snd tx) m = Ok m1"
      and "res_acc (\<lambda>(_, ops). res_acc (estimate_op env s) ops) txs m1 = Ok m'"
      by (cases tx) (auto simp: go_simps)
    with Cons.IH [of m1] ops Cons.prems(2) show ?case by blast
  qed simp
qed

lemma contracts_values:
  "res_acc (\<lambda>(addr, c) cs. rbind (g c) (\<lambda>c'. Ok (cs @ [(addr, c')]))) m out = Ok r \<Longrightarrow>
   \<exists>r'. r = out @ r' \<and> list_all2 (\<lambda>c c'. g c = Ok c') (kv_values m) (kv_values r')"
proof (induction m arbitrary: out)
  case (Cons e m)
  then obtain c' where c': "g (snd e) = Ok c'"
    and rest: "res_acc (\<lambda>(addr, c) cs. rbind (g c) (\<lambda>c'. Ok (cs @ [(addr, c')]))) m (out @ [(fst e, c')]) = Ok r"
    by (cases e) (auto simp: go_simps)
  obtain r' where "r = (out @ [(fst e, c')]) @ r'" "list_all2 (\<lambda>c c'. g c = Ok c') (kv_values m) (kv_values r')"
    using Cons.IH [OF rest] by blast
  with c' show ?case by (intro exI [of _ "(fst e, c') # r'"]) (simp add: kv_values_def)
qed (simp add: kv_values_def)

lemma block_due_own:
  assumes est: "estimateBlockGasUsage env s h = Ok d0" "estimateBlockRewards s d0 = Ok d1" and coins: "rewards_coins_ok s"
  shows "sum_list (map (\<lambda>c. own_amt c d) (filter has_record (kv_values (bd_Contracts d1)))) = block_due s d0 d"
proof -
  have unpaid: "\<forall>e\<in>set (bd_Contracts d0). unpaid (snd e)"
  proof -
    obtain txs where "res_acc (\<lambda>(_ :: TxInfo, ops). res_acc (estimate_op env s) ops) txs [] = Ok (bd_Contracts d0)"
      using est(1) by (auto simp: estimateBlockGasUsage_def go_simps)
    then show ?thesis by (rule estimate_ops_unpaid) simp
  qed
  have all: "list_all2 (\<lambda>c c'. estimate_contract (bd_Txs d0) (txs_rewards s (bd_Txs d0)) (inflation_eligible s (bd_Height d0)) c = Ok c')
      (kv_values (bd_Contracts d0)) (kv_values (bd_Contracts d1))"
    using est(2) by (fastforce simp: estimateBlockRewards_def go_simps dest: contracts_values)
  define P where "P = (\<lambda>c :: contract_distr. case cd_Metadata c of None \<Rightarrow> False | Some m \<Rightarrow> HasRewardsAddress m)"
  have one: "(if has_record c' then own_amt c' d else 0) = (if P c then contract_due s d0 d c else 0)"
    if run: "estimate_contract (bd_Txs d0) (txs_rewards s (bd_Txs d0)) (inflation_eligible s (bd_Height d0)) c = Ok c'"
      and u: "unpaid c" for c c'
  proof -
    note e = estimate_contract_due [OF run coins u]
    have "own_amt c' d = 0" if "Coins_IsZero (cd_FeeRewards c')" "snd (cd_InflationaryRewards c') = 0"
    proof -
      have "amt cs d = 0" if "Coins_IsZero cs" for cs using that by (induction cs) (auto simp: Coins_IsZero_def)
      with that show ?thesis by (simp add: own_amt_def)
    qed
    then show ?thesis using e by (auto simp: has_record_def P_def split: option.splits)
  qed
  have u: "unpaid c" if "c \<in> set (kv_values (bd_Contracts d0))" for c using unpaid that by (auto simp: kv_values_def)
  have "list_all2 (\<lambda>c c'. (if has_record c' then own_amt c' d else 0) = (if P c then contract_due s d0 d c else 0))
      (kv_values (bd_Contracts d0)) (kv_values (bd_Contracts d1))"
    by (rule list.rel_mono_strong [OF all]) (rule one [OF _ u])
  then have "sum_list (map (\<lambda>c'. if has_record c' then own_amt c' d else 0) (kv_values (bd_Contracts d1))) =
      sum_list (map (\<lambda>c. if P c then contract_due s d0 d c else 0) (kv_values (bd_Contracts d0)))"
    by (induction rule: list_all2_induct) simp_all
  then show ?thesis by (simp add: sum_list_map_filter' P_def block_due_def)
qed

lemma create_records_amt:
  assumes "for_acc (create_record env) cs paid s = (Ok paid', t)" "\<And>c. c \<in> set cs \<Longrightarrow> distr_ok c" "Coins_IsValid paid"
  shows "Coins_IsValid paid' \<and> amt paid' d = amt paid d + sum_list (map (\<lambda>c. own_amt c d) cs)"
  using assms
proof (induction cs arbitrary: paid s)
  case (Cons c cs)
  obtain paid1 s1 where step: "create_record env c paid s = (Ok paid1, s1)"
    and rest: "for_acc (create_record env) cs paid1 s1 = (Ok paid', t)"
    using Cons.prems(1) by (auto split: prod.splits res.splits)
  obtain infl rewards where infl: "Coins_Add45 [] [cd_InflationaryRewards c] = Ok infl"
    and rewards: "Coins_Add45 infl (cd_FeeRewards c) = Ok rewards"
    and paid1: "Coins_Add45 paid rewards = Ok paid1"
    using step by (auto simp: create_record_def go_simps)
  have c: "distr_ok c" using Cons.prems(2) by simp
  have vi: "Coins_IsValid infl" "amt infl d = amt [cd_InflationaryRewards c] d"
    using Add45_coin_valid [OF infl] c by (simp_all add: distr_ok_def)
  then have vr: "Coins_IsValid rewards" "amt rewards d = own_amt c d"
    using Coins_Add45_valid [OF rewards] c by (simp_all add: distr_ok_def own_amt_def)
  note p = Coins_Add45_valid [OF paid1 Cons.prems(3) vr(1)]
  from Cons.IH [OF rest Cons.prems(2) p(1)] p(2) [of d] vr(2) show ?case by simp
qed simp

lemma Coins_Add45_no_Err: "Coins_Add45 a b \<noteq> Err e"
proof -
  have "merge_coins a b \<noteq> Err e"
    by (induction a b rule: merge_coins.induct) (auto simp: Coin_Add_def go_simps)
  then show ?thesis by (simp add: Coins_Add45_def)
qed

lemma gas_share_no_Err: "gas_share c g G \<noteq> Err e"
  by (simp add: gas_share_def go_simps)

lemma estimateBlockRewards_no_Err: "estimateBlockRewards s u \<noteq> Err e"
proof -
  have "contract_fees txs m us a \<noteq> Err e'" for txs m us a e'
    unfolding contract_fees_def
    by (cases "kv_get m (fst us)") (auto simp: go_simps Coins_Add45_no_Err gas_share_no_Err intro!: res_acc_no_Err)
  then have fees: "res_acc (contract_fees txs m) us a \<noteq> Err e'" for txs m us a e' by (rule res_acc_no_Err)
  have "estimate_contract txs m i c \<noteq> Err e'" for txs m i c e'
    using fees by (cases i) (auto simp: estimate_contract_def go_simps gas_share_no_Err)
  then have "res_acc (\<lambda>(addr :: string, c) cs. rbind (estimate_contract txs m i c) (\<lambda>c'. Ok (cs @ [(addr, c')]))) xs a \<noteq> Err e'"
    for txs m i xs a e' by (intro res_acc_no_Err) (auto simp: go_simps split: prod.splits)
  moreover have "res_acc (\<lambda>(_ :: uint64, fees) total. Coins_Add45 total fees) xs a \<noteq> Err e'" for xs a e'
    by (intro res_acc_no_Err) (auto simp: Coins_Add45_no_Err split: prod.splits)
  ultimately show ?thesis by (auto simp: estimateBlockRewards_def go_simps Coins_Add45_no_Err)
qed

lemma createRewardsRecords_no_Err: "createRewardsRecords env u s \<noteq> (Err e, t)"
proof -
  have "create_record env c paid s \<noteq> (Err e, t)" for c paid s e t
    by (auto simp: create_record_def record_address_def meta_MustGetRewardsAddress_def go_simps Coins_Add45_no_Err
        split: option.splits)
  then have "for_acc (create_record env) cs a s \<noteq> (Err e, t)" for cs a s e t by (rule for_acc_no_Err)
  then show ?thesis by (auto simp: createRewardsRecords_def Let_def go_simps)
qed

lemma cleanup_treasury:
  assumes acc: "accounts_ok env" and run: "cleanupRewardsPool env u s = (Ok (), t)"
    and v: "Coins_IsValid (bd_RewardsTotal u)" "Coins_IsValid (bd_RewardsDistributed u)"
    and a: "be_module (ae_bank env) TreasuryCollector = Some a"
  shows "bk_balance (rw_bank t) a d = bk_balance (rw_bank s) a d + (amt (bd_RewardsTotal u) d - amt (bd_RewardsDistributed u) d)"
proof -
  obtain left where left: "Coins_Sub45 (bd_RewardsTotal u) (bd_RewardsDistributed u) = Ok left"
    and send: "(if left = [] then go_ret () else must (rw_on_bank (SendCoinsFromModuleToModule (ae_bank env)
       ContractRewardCollector TreasuryCollector left))) s = (Ok (), t)"
    using run by (auto simp: cleanupRewardsPool_def go_simps)
  have amt: "amt left d = amt (bd_RewardsTotal u) d - amt (bd_RewardsDistributed u) d"
    by (rule Coins_Sub45_Ok(1) [OF left v])
  show ?thesis
  proof (cases "left = []")
    case True
    with send amt show ?thesis by (simp add: go_ret_def)
  next
    case False
    then obtain ra b where ra: "be_module (ae_bank env) ContractRewardCollector = Some ra"
      and b: "SendCoins (ae_bank env) ra a left (rw_bank s) = (Ok (), b)" and t: "t = s\<lparr>rw_bank := b\<rparr>"
      using send a by (auto simp: go_simps SendCoinsFromModuleToModule_def split: option.splits)
    have "ra \<noteq> a" using acc ra a by (auto simp: accounts_ok_def)
    with SendCoins_amt [OF b, of a d] t amt show ?thesis by simp
  qed
qed

text \<open>Property C32. What a block pays is what the contracts have earned by their gas, every share
  rounded on its own. If the end of the block succeeds, the records grow in every denom by exactly
  the sum of these shares, the sum is at most what the block has brought, and the treasury gets the
  difference. If in some denom the rounded shares of the contracts together exceed what the block has
  brought, the end blocker panics, which stops the chain: no remainder can be
  negative.\<close>

theorem rounded_shares_pay_or_halt:
  assumes acc: "accounts_ok env" and ok: "rewards_ok env s"
    and est: "estimateBlockGasUsage env s (ae_blockHeight env) = Ok d0"
    and room: "uint (rw_recordID s) + int (length (bd_Contracts d0)) < 2 ^ 64"
    and run: "rewards_EndBlocker env s = (r, t)"
  shows "(r = Ok () \<longrightarrow> (\<forall>d. records_amt t d = records_amt s d + block_due s d0 d \<and>
      block_due s d0 d \<le> pending_amt s (ae_blockHeight env) d \<and>
      pool_amt env t d = pool_amt env s d - (pending_amt s (ae_blockHeight env) d - block_due s d0 d) \<and>
      (\<forall>a. be_module (ae_bank env) TreasuryCollector = Some a \<longrightarrow> GetBalance (rw_bank t) a d =
         GetBalance (rw_bank s) a d + (pending_amt s (ae_blockHeight env) d - block_due s d0 d)))) \<and>
    ((\<exists>d. pending_amt s (ae_blockHeight env) d < block_due s d0 d) \<longrightarrow> r = Panic)"
proof -
  let ?h = "ae_blockHeight env"
  have inv: "records_ok env s" "rewards_coins_ok s" "tracking_inv (rw_tracking s)" and codec: "arch_bech32_ok env"
    using ok acc by (simp_all add: rewards_ok_def accounts_ok_def)
  note run = run [unfolded rewards_EndBlocker_def]
  have made: "Coins_IsValid (bd_RewardsTotal d2) \<and> Coins_IsValid (bd_RewardsDistributed d2) \<and> rw_bank u = rw_bank s \<and>
      amt (bd_RewardsTotal d2) d = pending_amt s ?h d \<and> amt (bd_RewardsDistributed d2) d = block_due s d0 d \<and>
      records_amt u d = records_amt s d + block_due s d0 d"
    if d1: "estimateBlockRewards s d0 = Ok d1" and d2: "createRewardsRecords env d1 s = (Ok d2, u)" for d1 d2 u d
  proof -
    note br = block_rewards [OF inv(3,2) est d1]
    define cs where "cs = sort_key (\<lambda>c. AccAddress_String env (cd_ContractAddress c)) (filter has_record (kv_values (bd_Contracts d1)))"
    obtain paid where loop: "for_acc (create_record env) cs [] s = (Ok paid, u)"
      and d2_eq: "d2 = d1\<lparr>bd_RewardsDistributed := paid\<rparr>"
      using d2 br(3) by (auto simp: createRewardsRecords_def cs_def go_simps)
    have "length cs \<le> length (bd_Contracts d0)"
      using br(5) by (simp add: cs_def kv_values_def le_trans [OF length_filter_le])
    with room have room': "uint (rw_recordID s) + int (length cs) < 2 ^ 64" by linarith
    have c: "distr_ok c" if "c \<in> set cs" for c using that br(4) by (auto simp: cs_def kv_values_def)
    have "mset (map (\<lambda>c. own_amt c d) cs) = mset (map (\<lambda>c. own_amt c d) (filter has_record (kv_values (bd_Contracts d1))))"
      by (simp add: cs_def)
    then have "sum_list (map (\<lambda>c. own_amt c d) cs) = block_due s d0 d"
      using block_due_own [OF est d1 inv(2), of d] by (metis sum_mset_sum_list)
    then have "Coins_IsValid paid \<and> amt paid d = block_due s d0 d"
      using create_records_amt [OF loop c IsValid_Nil, of d] by simp
    moreover have "rw_bank u = rw_bank s \<and> amt paid d - amt [] d = records_amt u d - records_amt s d"
      using create_records_loop [OF codec loop inv(1) c IsValid_Nil room'] by blast
    ultimately show ?thesis using br(1) br(2) [of d] by (simp add: d2_eq)
  qed
  have "records_amt t d = records_amt s d + block_due s d0 d \<and> block_due s d0 d \<le> pending_amt s ?h d \<and>
      pool_amt env t d = pool_amt env s d - (pending_amt s ?h d - block_due s d0 d) \<and>
      (\<forall>a. be_module (ae_bank env) TreasuryCollector = Some a \<longrightarrow> GetBalance (rw_bank t) a d =
         GetBalance (rw_bank s) a d + (pending_amt s ?h d - block_due s d0 d))" if r: "r = Ok ()" for d
  proof -
    obtain d1 d2 u w where d1: "estimateBlockRewards s d0 = Ok d1" and d2: "createRewardsRecords env d1 s = (Ok d2, u)"
      and w: "cleanupRewardsPool env d2 u = (Ok (), w)" and t: "cleanupTracking ?h w = (Ok (), t)"
      using run est r by (auto simp: AllocateBlockRewards_def go_simps)
    note m = made [OF d1 d2, of d]
    then have v: "Coins_IsValid (bd_RewardsTotal d2)" "Coins_IsValid (bd_RewardsDistributed d2)" by simp_all
    note clean = cleanupPool [OF acc w v] and frame = cleanupTracking_frame [OF t]
    obtain left where "Coins_Sub45 (bd_RewardsTotal d2) (bd_RewardsDistributed d2) = Ok left"
      using w by (auto simp: cleanupRewardsPool_def go_simps)
    from Coins_Sub45_Ok(1) [OF this v, of d] Coins_Sub45_Ok(2) [OF this v] IsValid_amt_nonneg [of left d] m
    have "block_due s d0 d \<le> pending_amt s ?h d" by simp
    moreover have "records_amt t d = records_amt u d" using frame(2) clean(2) by (simp add: records_amt_def)
    moreover have "pool_amt env t d = pool_amt env w d" "pool_amt env u d = pool_amt env s d"
      using pool_amt_cong [OF frame(1)] m pool_amt_cong [of u s] by simp_all
    ultimately show ?thesis
      using m clean(1) [of d] cleanup_treasury [OF acc w v _, of _ d] by (auto simp: GetBalance_def frame(1))
  qed
  moreover have "r = Panic" if over: "pending_amt s ?h d < block_due s d0 d" for d
  proof (cases r)
    case (Ok x)
    then show ?thesis using calculation [of d] over by simp
  next
    case (Err e)
    then have "(\<exists>d1. estimateBlockRewards s d0 = Ok d1 \<and> (\<exists>d2 u. createRewardsRecords env d1 s = (Ok d2, u) \<and>
        (cleanupRewardsPool env d2 u = (Err e, t) \<or> (\<exists>w. cleanupRewardsPool env d2 u = (Ok (), w)))))"
      using run est by (auto simp: AllocateBlockRewards_def go_simps estimateBlockRewards_no_Err createRewardsRecords_no_Err)
    then obtain d1 d2 u left where d1: "estimateBlockRewards s d0 = Ok d1" and d2: "createRewardsRecords env d1 s = (Ok d2, u)"
      and left: "Coins_Sub45 (bd_RewardsTotal d2) (bd_RewardsDistributed d2) = Ok left"
      by (auto simp: cleanupRewardsPool_def go_simps Coins_Sub45_def Coins_Add45_no_Err split: if_splits)
    note m = made [OF d1 d2, of d]
    with Coins_Sub45_Ok(1) [OF left, of d] Coins_Sub45_Ok(2) [OF left] IsValid_amt_nonneg [of left d] over show ?thesis by simp
  qed
  ultimately show ?thesis by blast
qed

text \<open>Three contracts that used a sixth, a sixth and two thirds of the gas of a transaction get shares
  that are all rounded up: of a rebate of six whole tokens of 18 decimals they would get six
  units more than there is.\<close>

theorem rounded_shares_pay_or_halt_witness:
  "accounts_ok demo_arch \<and> rewards_ok demo_arch (demo_rewards 1000 ''aweth'' (6 * 10 ^ 18)) \<and>
   pool_backed demo_arch 5 (demo_rewards 1000 ''aweth'' (6 * 10 ^ 18)) \<and>
   fst (rewards_EndBlocker demo_arch (demo_rewards 1000 ''aweth'' (6 * 10 ^ 18))) = Panic"
proof -
  let ?s = "demo_rewards 1000 ''aweth'' (6 * 10 ^ 18)"
  have a: "ValidateDenom ''aweth''" by code_simp
  have "map_res (\<lambda>u. (length (bd_Contracts u), block_due ?s u ''aweth'')) (estimateBlockGasUsage demo_arch ?s 5) =
    Ok (3, 6 * 10 ^ 18 + 6)" by code_simp
  then obtain u where u: "estimateBlockGasUsage demo_arch ?s 5 = Ok u" "length (bd_Contracts u) = 3"
      "block_due ?s u ''aweth'' = 6 * 10 ^ 18 + 6"
    by (cases "estimateBlockGasUsage demo_arch ?s 5") (auto simp: res.map)
  have p: "pending_amt ?s 5 ''aweth'' = 6 * 10 ^ 18" by code_simp
  have id: "rw_recordID ?s = 0" by (simp add: demo_rewards_def)
  obtain r t where run: "rewards_EndBlocker demo_arch ?s = (r, t)" by (cases "rewards_EndBlocker demo_arch ?s")
  have over: "\<exists>d. pending_amt ?s (ae_blockHeight demo_arch) d < block_due ?s u d"
    using p u(3) by (intro exI [of _ "''aweth''"]) (simp add: demo_height)
  have "rewards_ok demo_arch ?s" using a by (simp add: demo_rewards_ok)
  then have "r = Panic"
    using over rounded_shares_pay_or_halt [OF demo_accounts _ _ _ run, of u] u(1,2) id by (simp add: demo_height)
  with a run show ?thesis by (simp add: demo_accounts demo_rewards_ok demo_rewards_backed)
qed

section \<open>Withdrawal\<close>

text \<open>The records a withdrawal message names.\<close>

lemma withdraw_msg_records:
  assumes ok: "records_ok env s" and codec: "arch_bech32_ok env"
    and basic: "MsgWithdrawRewards_ValidateBasic env m = Ok ()"
    and a: "arch_AccAddressFromBech32 env (mwr_RewardsAddress m) = Ok a"
    and run: "msg_WithdrawRewards env (Some m) s = (Ok (n, paid), t)"
  obtains rs where "stored s rs" "length rs = n" "\<forall>r\<in>set rs. rr_group env r = a"
    "withdrawRewardsByRecords env a rs s = (Ok paid, t)"
proof (cases "mwr_Mode m")
  case None
  with run a show thesis by (simp add: msg_WithdrawRewards_def go_defs)
next
  case (Some mode)
  have a_ok: "arch_VerifyAddressFormat a" by (rule AccAddressFromBech32_verify [OF a])
  show thesis
  proof (cases mode)
    case (RecordsLimit limit)
    with run a Some obtain l rs where rs: "GetRewardsRecordByRewardsAddressPaginated s a l = Ok rs"
      "withdrawRewardsByRecords env a rs s = (Ok paid, t)" "length rs = n"
      by (auto simp: msg_WithdrawRewards_def WithdrawRewardsByRecordsLimit_def go_simps Let_def go_fail_def split: if_splits)
    with limit_stored [OF ok rs(1)] that show thesis by blast
  next
    case (RecordIds ids)
    with run a Some obtain rs where rs: "res_acc (check_record s (AccAddress_String env a)) ids [] = Ok rs"
      "withdrawRewardsByRecords env a rs s = (Ok paid, t)" "length rs = n"
      by (auto simp: msg_WithdrawRewards_def WithdrawRewardsByRecordIDs_def go_simps go_fail_def split: if_splits)
    have "distinct ids"
      using basic Some RecordIds
      by (auto simp: MsgWithdrawRewards_ValidateBasic_def go_simps split: if_splits dest!: validate_ids)
    note st = ids_stored [OF ok rs(1) this]
    have "rr_group env r = a" if "r \<in> set rs" for r
      using codec a_ok st(3) that by (simp add: rr_group_def arch_bech32_ok_def)
    with st(1) rs that show thesis by blast
  qed
qed

text \<open>Property C31. A withdrawal that succeeds pays a set of different records of the address exactly once:
  it moves their sum from the pool to the address, deletes them and no other record, and the pool
  keeps exactly what the remaining records owe.\<close>

theorem withdrawal_pays_its_records:
  assumes ok: "records_ok env s" and acc: "accounts_ok env"
    and basic: "MsgWithdrawRewards_ValidateBasic env m = Ok ()"
    and a: "arch_AccAddressFromBech32 env (mwr_RewardsAddress m) = Ok a" "be_module (ae_bank env) ContractRewardCollector \<noteq> Some a"
    and run: "msg_WithdrawRewards env (Some m) s = (Ok (n, paid), t)"
  shows "\<exists>rs. length rs = n \<and> distinct (map rr_Id rs) \<and>
      (\<forall>r\<in>set rs. GetRewardsRecord s (rr_Id r) = Some r \<and> rr_group env r = a) \<and>
      (\<forall>i. GetRewardsRecord t i = (if i \<in> rr_Id ` set rs then None else GetRewardsRecord s i)) \<and>
      (\<forall>d. amt paid d = (\<Sum>r\<leftarrow>rs. amt (rr_Rewards r) d) \<and>
        GetBalance (rw_bank t) a d = GetBalance (rw_bank s) a d + amt paid d \<and>
        pool_amt env t d - records_amt t d = pool_amt env s d - records_amt s d)"
proof -
  have codec: "arch_bech32_ok env" using acc by (simp add: accounts_ok_def)
  obtain rs where rs: "stored s rs" "length rs = n" "\<forall>r\<in>set rs. rr_group env r = a"
    "withdrawRewardsByRecords env a rs s = (Ok paid, t)"
    by (rule withdraw_msg_records [OF ok codec basic a(1) run]) (rule that)
  note w = withdraw_records [OF ok rs(1) a(2) rs(4)]
  have "pool_amt env t d - records_amt t d = pool_amt env s d - records_amt s d" for d
    using w(3,4) [of d] by simp
  with w(2,5,6) rs show ?thesis unfolding stored_def by (intro exI [of _ rs]) blast
qed

definition demo_withdraw :: MsgWithdrawRewards where
  "demo_withdraw = \<lparr>mwr_RewardsAddress = ''archway1u'', mwr_Mode = Some (RecordIds [3, 1])\<rparr>"

definition demo_owed :: rewards_state where
  "demo_owed = fold (\<lambda>n. CreateRewardsRecord demo_arch ''u'' [(''stake'', n)] 5 0) [200, 200, 800] (demo_rewards 1000 ''stake'' 600)"

lemma demo_owed_records: "records_ok demo_arch demo_owed"
proof -
  have stake: "ValidateDenom ''stake''" by code_simp
  have next_ok: "records_ok demo_arch (CreateRewardsRecord demo_arch ''u'' [(''stake'', n)] 5 0 s)"
      "rw_recordID (CreateRewardsRecord demo_arch ''u'' [(''stake'', n)] 5 0 s) = rw_recordID s + 1"
    if "0 < n" "records_ok demo_arch s" "rw_recordID s < 10" for n s
  proof -
    have "arch_VerifyAddressFormat ''u''" by code_simp
    moreover have "Coins_IsValid [(''stake'', n)]" using stake that(1) by (simp add: Coins_IsValid_def)
    moreover have "rw_recordID s < - 1" using that(3) by (rule less_trans) simp
    ultimately show "records_ok demo_arch (CreateRewardsRecord demo_arch ''u'' [(''stake'', n)] 5 0 s)"
      using that(2) demo_arch_bech32 by (intro CreateRewardsRecord_ok)
    show "rw_recordID (CreateRewardsRecord demo_arch ''u'' [(''stake'', n)] 5 0 s) = rw_recordID s + 1"
      by (simp add: CreateRewardsRecord_eq Let_def)
  qed
  have start: "records_ok demo_arch (demo_rewards 1000 ''stake'' 600)" "rw_recordID (demo_rewards 1000 ''stake'' 600) = 0"
    using demo_rewards_ok [OF _ _ stake, of 1000 600] by (simp_all add: rewards_ok_def demo_rewards_def)
  show ?thesis by (simp add: demo_owed_def next_ok start)
qed

theorem withdrawal_pays_its_records_witness:
  "\<exists>t paid. msg_WithdrawRewards demo_arch (Some demo_withdraw) demo_owed = (Ok (2, paid), t) \<and>
     amt paid ''stake'' = 1000 \<and> GetBalance (rw_bank t) ''u'' ''stake'' = 1000 \<and>
     pool_amt demo_arch t ''stake'' - records_amt t ''stake'' = pool_amt demo_arch demo_owed ''stake'' - records_amt demo_owed ''stake''"
proof -
  have "(case msg_WithdrawRewards demo_arch (Some demo_withdraw) demo_owed of (r, t) \<Rightarrow>
      (r, GetBalance (rw_bank demo_owed) ''u'' ''stake'')) = (Ok (2, [(''stake'', 1000)]), 0)" by code_simp
  then obtain t where t: "msg_WithdrawRewards demo_arch (Some demo_withdraw) demo_owed = (Ok (2, [(''stake'', 1000)]), t)"
    and before: "GetBalance (rw_bank demo_owed) ''u'' ''stake'' = 0"
    by (auto split: prod.splits)
  have basic: "MsgWithdrawRewards_ValidateBasic demo_arch demo_withdraw = Ok ()" by code_simp
  have a: "arch_AccAddressFromBech32 demo_arch (mwr_RewardsAddress demo_withdraw) = Ok ''u''"
    "be_module (ae_bank demo_arch) ContractRewardCollector = Some ''R''" by code_simp+
  have other: "be_module (ae_bank demo_arch) ContractRewardCollector \<noteq> Some ''u''" by (simp add: a(2))
  have all: "\<forall>d. GetBalance (rw_bank t) ''u'' d = GetBalance (rw_bank demo_owed) ''u'' d + amt [(''stake'', 1000)] d \<and>
      pool_amt demo_arch t d - records_amt t d = pool_amt demo_arch demo_owed d - records_amt demo_owed d"
    using withdrawal_pays_its_records [OF demo_owed_records demo_accounts basic a(1) other t] by blast
  have "GetBalance (rw_bank t) ''u'' ''stake'' = 1000"
    using all [rule_format, of "''stake''"] before by simp
  moreover note all [rule_format, THEN conjunct2, of "''stake''"]
  ultimately show ?thesis using t by (intro exI [of _ t] exI [of _ "[(''stake'', 1000)]"]) simp
qed
section \<open>Fees\<close>

lemma SendToModule_amt:
  assumes "rw_on_bank (SendCoinsFromAccountToModule (ae_bank env) acc m cs) s = (Ok (), t)"
  obtains a where "be_module (ae_bank env) m = Some a" "\<exists>b. t = s\<lparr>rw_bank := b\<rparr>"
    "\<And>x d. GetBalance (rw_bank t) x d = GetBalance (rw_bank s) x d + (if x = a then amt cs d else 0) - (if x = acc then amt cs d else 0)"
proof -
  obtain a b where a: "be_module (ae_bank env) m = Some a" and b: "SendCoins (ae_bank env) acc a cs (rw_bank s) = (Ok (), b)"
    and t: "t = s\<lparr>rw_bank := b\<rparr>"
    using assms by (auto simp: go_simps SendCoinsFromAccountToModule_def split: option.splits)
  show thesis by (rule that [OF a]) (use t SendCoins_amt [OF b] in \<open>auto simp: GetBalance_def\<close>)
qed

text \<open>A transfer that is left out when there is nothing to send.\<close>

lemma send_unless_empty:
  assumes "(if cs \<noteq> [] then go_wrap e (rw_on_bank (SendCoinsFromAccountToModule (ae_bank env) acc m cs)) else go_ret ()) s = (Ok (), t)"
    and "be_module (ae_bank env) m = Some a"
  shows "\<exists>b. t = s\<lparr>rw_bank := b\<rparr>"
    "GetBalance (rw_bank t) x d = GetBalance (rw_bank s) x d + (if x = a then amt cs d else 0) - (if x = acc then amt cs d else 0)"
proof -
  have "(\<exists>b. t = s\<lparr>rw_bank := b\<rparr>) \<and> GetBalance (rw_bank t) x d =
      GetBalance (rw_bank s) x d + (if x = a then amt cs d else 0) - (if x = acc then amt cs d else 0)"
  proof (cases "cs = []")
    case True
    with assms(1) have "t = s" by (simp add: go_ret_def)
    with True show ?thesis by (simp add: exI [of _ "rw_bank s"])
  next
    case False
    with assms(1) have "rw_on_bank (SendCoinsFromAccountToModule (ae_bank env) acc m cs) s = (Ok (), t)"
      by (auto simp: go_simps)
    then show ?thesis by (rule SendToModule_amt) (use assms(2) in auto)
  qed
  then show "\<exists>b. t = s\<lparr>rw_bank := b\<rparr>"
    "GetBalance (rw_bank t) x d = GetBalance (rw_bank s) x d + (if x = a then amt cs d else 0) - (if x = acc then amt cs d else 0)"
    by blast+
qed

text \<open>The part of a fee that is rebated to contracts.\<close>

definition rebate :: "rewards_state \<Rightarrow> arch_msg list \<Rightarrow> coins \<Rightarrow> denom \<Rightarrow> int" where
  "rebate s msgs fees d =
     (if list_ex is_wasm_msg msgs then amt fees d * rp_TxFeeRebateRatio (rw_params s) div OneDec else 0)"

text \<open>A transaction pays exactly its fees: the rebate of each denom, rounded down, goes to the
  rewards pool and is tracked for the transaction in the same amount, the rest to the fee collector,
  and no other account changes.\<close>

theorem fees_are_split_without_loss:
  assumes acc: "accounts_ok env" "be_module (ae_bank env) FeeCollectorName = Some f"
      "be_module (ae_bank env) ContractRewardCollector = Some r" "a \<noteq> f" "a \<noteq> r"
    and params: "rewards_Params_Validate (rw_params s) = Ok ()" and small: "\<And>d. amt fees d < 2 ^ 255"
    and run: "deductFees env msgs a fees s = (Ok (), t)"
  shows "(\<forall>x d. GetBalance (rw_bank t) x d = GetBalance (rw_bank s) x d +
      (if x = a then - amt fees d else if x = r then rebate s msgs fees d
       else if x = f then amt fees d - rebate s msgs fees d else 0)) \<and>
    (list_ex is_wasm_msg msgs \<and> rp_TxFeeRebateRatio (rw_params s) \<noteq> 0 \<longrightarrow>
      (\<forall>d. fee_amt t (GetCurrentTxID (rw_tracking s)) d = rebate s msgs fees d))"
proof -
  have fr: "f \<noteq> r" using acc by (auto simp: accounts_ok_def)
  have v: "Coins_IsValid fees" using run by (auto simp: deductFees_def go_simps go_fail_def split: if_splits)
  let ?ratio = "rp_TxFeeRebateRatio (rw_params s)"
  have ratio: "0 \<le> ?ratio" "?ratio \<le> OneDec"
    using params by (auto simp: rewards_Params_Validate_def validateRatio_def go_simps split: if_splits)
  show ?thesis
  proof (cases "?ratio = 0 \<or> \<not> list_ex is_wasm_msg msgs")
    case True
    then have z: "rebate s msgs fees d = 0" for d by (auto simp: rebate_def)
    have "rw_on_bank (SendCoinsFromAccountToModule (ae_bank env) a FeeCollectorName fees) s = (Ok (), t)"
      using run v True by (auto simp: deductFees_def go_simps)
    then show ?thesis
    proof (rule SendToModule_amt)
      fix f' assume "be_module (ae_bank env) FeeCollectorName = Some f'"
        and bal: "\<And>x d. GetBalance (rw_bank t) x d = GetBalance (rw_bank s) x d +
          (if x = f' then amt fees d else 0) - (if x = a then amt fees d else 0)"
      then show ?thesis using True z fr acc(2,4,5) by auto
    qed
  next
    case False
    obtain s1 s2 where split: "SplitCoins fees ?ratio = Ok (s1, s2)" "Coins_IsValid s1" "Coins_IsValid s2"
      and s1: "\<And>d. amt s1 d = amt fees d * ?ratio div OneDec" and s2: "\<And>d. amt s1 d + amt s2 d = amt fees d"
      by (rule SplitCoins_ok [OF v small ratio]) (rule that)
    obtain u w where u: "(if s2 \<noteq> [] then go_wrap (Sdk ErrInsufficientFunds)
          (rw_on_bank (SendCoinsFromAccountToModule (ae_bank env) a FeeCollectorName s2)) else go_ret ()) s = (Ok (), u)"
      and w: "(if s1 \<noteq> [] then go_wrap (Sdk ErrInsufficientFunds)
          (rw_on_bank (SendCoinsFromAccountToModule (ae_bank env) a ContractRewardCollector s1)) else go_ret ()) u = (Ok (), w)"
      and t: "t = TrackFeeRebatesRewards env s1 w"
      using run v False split(1) by (auto simp: deductFees_def go_simps)
    note bu = send_unless_empty [OF u acc(2)] and bw = send_unless_empty [OF w acc(3)]
    have reb: "rebate s msgs fees d = amt s1 d" "amt s2 d = amt fees d - amt s1 d" for d
      using False s1 [of d] s2 [of d] by (simp_all add: rebate_def)
    have tr: "rw_tracking w = rw_tracking s" using bu(1) bw(1) by auto
    have bank: "rw_bank t = rw_bank w" and fee: "fee_amt t (GetCurrentTxID (rw_tracking w)) d = amt s1 d" for d
      by (simp_all add: t TrackFeeRebatesRewards_def CreateTxRewards_def xr_setBlockIndex_def setTxRewards_def Let_def
          fee_amt_def GetTxRewards_def)
    have "GetBalance (rw_bank t) x d = GetBalance (rw_bank s) x d +
      (if x = a then - amt fees d else if x = r then rebate s msgs fees d
       else if x = f then amt fees d - rebate s msgs fees d else 0)" for x d
      using bu(2) [of x d] bw(2) [of x d] reb [of d] fr acc(4,5) by (auto simp: bank)
    with fee tr reb(1) show ?thesis by auto
  qed
qed
definition demo_payer :: rewards_state where
  "demo_payer = (demo_rewards 1000 ''stake'' 600)\<lparr>rw_bank := \<lparr>bk_balance = (\<lambda>a d. if a = ''u'' \<and> d = ''stake'' then 5000 else 0),
     bk_supply = (\<lambda>_. 0)\<rparr>\<rparr>"

theorem fees_are_split_without_loss_witness:
  "\<exists>t. deductFees demo_arch [MsgExecuteContract ''archway1c''] ''u'' [(''stake'', 1001)] demo_payer = (Ok (), t) \<and>
     GetBalance (rw_bank t) ''R'' ''stake'' = 500 \<and> GetBalance (rw_bank t) ''F'' ''stake'' = 501 \<and>
     GetBalance (rw_bank t) ''u'' ''stake'' = 3999"
proof -
  have "fst (deductFees demo_arch [MsgExecuteContract ''archway1c''] ''u'' [(''stake'', 1001)] demo_payer) = Ok ()" by code_simp
  then obtain t where t: "deductFees demo_arch [MsgExecuteContract ''archway1c''] ''u'' [(''stake'', 1001)] demo_payer = (Ok (), t)"
    by (auto simp: prod_eq_iff)
  have env: "map (be_module (ae_bank demo_arch)) [FeeCollectorName, ContractRewardCollector] = [Some ''F'', Some ''R'']" by code_simp
  have params: "rewards_Params_Validate (rw_params demo_payer) = Ok ()"
    "rebate demo_payer [MsgExecuteContract ''archway1c''] [(''stake'', 1001)] ''stake'' = 500" by code_simp+
  have small: "amt [(''stake'', 1001)] d < 2 ^ 255" for d by simp
  have bal: "GetBalance (rw_bank demo_payer) x ''stake'' = (if x = ''u'' then 5000 else 0)" for x
    by (simp add: demo_payer_def GetBalance_def)
  have "\<forall>x d. GetBalance (rw_bank t) x d = GetBalance (rw_bank demo_payer) x d +
      (if x = ''u'' then - amt [(''stake'', 1001)] d
       else if x = ''R'' then rebate demo_payer [MsgExecuteContract ''archway1c''] [(''stake'', 1001)] d
       else if x = ''F'' then amt [(''stake'', 1001)] d - rebate demo_payer [MsgExecuteContract ''archway1c''] [(''stake'', 1001)] d
       else 0)"
    using fees_are_split_without_loss [of demo_arch "''F''" "''R''" "''u''" demo_payer "[(''stake'', 1001)]"
        "[MsgExecuteContract ''archway1c'']" t] demo_accounts env params(1) small t by simp
  then show ?thesis using t bal params(2) by (intro exI [of _ t]) simp
qed

section \<open>Metadata\<close>

text \<open>Property C33. Anybody can take over a contract's rewards: a metadata message from any account succeeds
  for every existing contract, whoever owns it, replaces its rewards address and its owner, and then
  only the new owner can set the contract's flat fee.\<close>

theorem metadata_can_be_taken_over:
  assumes contract: "arch_AccAddressFromBech32 env (cm_ContractAddress meta) = Ok c" "ae_GetContractInfo env c = Some info"
    and sender: "arch_AccAddressFromBech32 env sender = Ok a" "AccAddress_String env a = cm_OwnerAddress meta"
  shows "\<exists>t m. msg_SetContractMetadata env (Some \<lparr>mscm_SenderAddress = sender, mscm_Metadata = meta\<rparr>) s = (Ok (), t) \<and>
    GetContractMetadata t c = Some m \<and> cm_RewardsAddress m = cm_RewardsAddress meta \<and>
    (\<forall>c'. c' \<noteq> c \<longrightarrow> GetContractMetadata t c' = GetContractMetadata s c') \<and>
    (\<forall>coin b. fst (SetFlatFee env b (cm_ContractAddress meta, coin) t) =
       (if AccAddress_String env b = cm_OwnerAddress meta then Ok () else Err (RewardsErr ErrRewardsUnauthorized)))"
proof -
  let ?old = "case GetContractMetadata s c of None \<Rightarrow> empty_metadata | Some m \<Rightarrow> m"
  define m where "m = UpdateContractMetadata ?old meta"
  define t where "t = state_SetContractMetadata c m s"
  have "msg_SetContractMetadata env (Some \<lparr>mscm_SenderAddress = sender, mscm_Metadata = meta\<rparr>) s = (Ok (), t)"
    using contract sender by (simp add: msg_SetContractMetadata_def SetContractMetadata_def go_defs t_def m_def)
  moreover have get: "GetContractMetadata t c' = (if c' = c then Some m else GetContractMetadata s c')" for c'
    by (simp add: t_def GetContractMetadata_def state_SetContractMetadata_def)
  moreover have m: "cm_RewardsAddress m = cm_RewardsAddress meta" "cm_OwnerAddress m = cm_OwnerAddress meta"
    by (simp_all add: m_def UpdateContractMetadata_def)
  moreover have "fst (SetFlatFee env b (cm_ContractAddress meta, coin) t) =
      (if AccAddress_String env b = cm_OwnerAddress meta then Ok () else Err (RewardsErr ErrRewardsUnauthorized))" for b coin
    using contract m(2) by (auto simp: SetFlatFee_def go_defs res_must_def get)
  ultimately show ?thesis by (intro exI [of _ t] exI [of _ m]) simp
qed

theorem metadata_can_be_taken_over_witness:
  "GetContractMetadata demo_payer ''c'' = Some (demo_metadata ''c'') \<and> cm_OwnerAddress (demo_metadata ''c'') = ''archway1o'' \<and>
   (\<exists>t m. msg_SetContractMetadata demo_arch (Some \<lparr>mscm_SenderAddress = ''archway1x'',
        mscm_Metadata = (demo_metadata ''c'')\<lparr>cm_OwnerAddress := ''archway1x'', cm_RewardsAddress := ''archway1x''\<rparr>\<rparr>) demo_payer = (Ok (), t) \<and>
      GetContractMetadata t ''c'' = Some m \<and> cm_RewardsAddress m = ''archway1x'')"
proof -
  let ?meta = "(demo_metadata ''c'')\<lparr>cm_OwnerAddress := ''archway1x'', cm_RewardsAddress := ''archway1x''\<rparr>"
  have "arch_AccAddressFromBech32 demo_arch (cm_ContractAddress ?meta) = Ok ''c''"
    "arch_AccAddressFromBech32 demo_arch ''archway1x'' = Ok ''x''" "AccAddress_String demo_arch ''x'' = cm_OwnerAddress ?meta"
    by code_simp+
  moreover have "ae_GetContractInfo demo_arch ''c'' = Some \<lparr>ci_Creator = ''archway1o'', ci_Admin = ''archway1o''\<rparr>"
    by (simp add: demo_arch_def)
  ultimately have "\<exists>t m. msg_SetContractMetadata demo_arch (Some \<lparr>mscm_SenderAddress = ''archway1x'', mscm_Metadata = ?meta\<rparr>) demo_payer = (Ok (), t) \<and>
      GetContractMetadata t ''c'' = Some m \<and> cm_RewardsAddress m = cm_RewardsAddress ?meta"
    using metadata_can_be_taken_over by blast
  then show ?thesis by (simp add: demo_payer_def demo_rewards_def GetContractMetadata_def kv_get_def demo_metadata_def)
qed

end
