(* ===== verification/Photosynthesis.thy ===== *)
theory Photosynthesis
  imports Rewards Records
begin

text \<open>
  Archway's \<open>x/photosynthesis\<close> (\<open>deps/archway-main/x/photosynthesis\<close>): the contract
  chain's side of liquid staking. A message that anybody can send runs four tasks, each at most once
  per interval: book the rewards of the contracts, file them as pending deposits, add the deposits
  up and share the liquidity, and redeem (\<open>keeper/keeper.go\<close>).

  The module keeps everything in one store under text prefixes. Two of them overlap,
  \<open>redeem_token\<close> and \<open>redeem_token_ratio\<close>: they are one byte store here. The others
  are stores of their own, with values as bytes where the code reads them as bytes. A prefix store
  panics when it sets an empty key. The keeper reads the stores of \<open>x/rewards\<close>, which are part
  of the state.

  Logs and events are left out. The time since the last run is compared in whole minutes without the
  rounding of \<open>Duration.Minutes\<close> to a float, which could only matter in the last microsecond of
  an interval of more than a month.
\<close>

section \<open>Data\<close>

record photo_params =
  pp_LiquidStakingInterval :: int
  pp_ArchLiquidStakeInterval :: int
  pp_RedemptionRateQueryInterval :: int
  pp_RedemptionRateThreshold :: int
  pp_RedemptionIntervalThreshold :: int
  pp_RewardsWithdrawalInterval :: int

record liquid_deposit =
  ld_ContractAddress :: string
  ld_Amount :: int
  ld_Status :: string

record photo_contract =
  pc_Address :: string
  pc_LiquidityProviderAddress :: string
  pc_RewardsAddress :: string
  pc_MinimumRewardAmount :: uint64
  pc_LiquidStakeInterval :: uint64
  pc_RedemptionRateThreshold :: int
  pc_RedemptionIntervalThreshold :: uint64
  pc_RewardsWithdrawalInterval :: uint64

record photo_state =
  ph_params :: photo_params
  ph_times :: "(string, uint64) kvstore"
  ph_queue :: "(string, liquid_deposit) kvstore"
  ph_deposits :: "(string, liquid_deposit list) kvstore"
  ph_total :: "string option"
  ph_cumulative :: "(denom \<times> int) option"
  ph_latestRedemption :: "uint64 option"
  ph_distributions :: "(string, string) kvstore"
  ph_withdrawals :: "(string, string) kvstore"
  ph_stakes :: "(string, string) kvstore"
  ph_stakeRatios :: "(string, string) kvstore"
  ph_liquidityLog :: "(string, string) kvstore"
  ph_redeemedLog :: "(string, string) kvstore"
  ph_redeem :: "(string, string) kvstore"
  ph_rewards :: rewards_state

definition LastLiquidStakingDAppRewardsTimeKey :: string where
  "LastLiquidStakingDAppRewardsTimeKey = ''last_liquid_staking_dapp_rewards_time''"
definition LastArchLiquidStakeIntervalTimeKey :: string where
  "LastArchLiquidStakeIntervalTimeKey = ''last_arch_liquid_stake_interval_time''"
definition LastRedemptionRateQueryTimeKey :: string where
  "LastRedemptionRateQueryTimeKey = ''last_redemption_rate_query_time''"
definition LastRewardsWithdrawalTimeKey :: string where
  "LastRewardsWithdrawalTimeKey = ''last_rewards_withdrawal_time''"

text \<open>What \<open>redeem_token_ratio\<close> adds to \<open>redeem_token\<close>.\<close>

definition ratio_suffix :: string where "ratio_suffix = ''_ratio''"

definition photo_set :: "string \<Rightarrow> 'v \<Rightarrow> (string, 'v) kvstore \<Rightarrow> (string, 'v) kvstore res" where
  "photo_set key v m = (if key = '''' then Panic else Ok (kv_set key v m))"

section \<open>The standard library\<close>

text \<open>\<open>big.Int.Bytes\<close>, of the absolute value, and \<open>SetBytes\<close>.\<close>

fun nat_bytes :: "nat \<Rightarrow> string" where
  "nat_bytes n = (if n = 0 then [] else nat_bytes (n div 256) @ [char_of (n mod 256)])"

declare nat_bytes.simps [simp del]

definition BigInt_Bytes :: "int \<Rightarrow> string" where
  "BigInt_Bytes x = nat_bytes (nat \<bar>x\<bar>)"

definition SetBytes :: "string \<Rightarrow> int" where
  "SetBytes bz = int (foldl (\<lambda>n c. 256 * n + of_char c) 0 bz)"

definition is_decimal_digit :: "char \<Rightarrow> bool" where
  "is_decimal_digit c \<longleftrightarrow> CHR ''0'' \<le> c \<and> c \<le> CHR ''9''"

text \<open>\<open>strconv.ParseInt\<close> of base 10 and 64 bits, and \<open>Atoi\<close>.\<close>

definition split_sign :: "string \<Rightarrow> bool \<times> string" where
  "split_sign s = (case s of [] \<Rightarrow> (False, [])
     | c # cs \<Rightarrow> if c = CHR ''-'' then (True, cs) else if c = CHR ''+'' then (False, cs) else (False, s))"

definition ParseInt :: "string \<Rightarrow> int option" where
  "ParseInt s =
     (let (neg, ds) = split_sign s; v = (if neg then - int (undecimal ds) else int (undecimal ds)) in
      if ds = [] \<or> \<not> list_all is_decimal_digit ds \<or> \<not> is_int64 v then None else Some v)"

text \<open>\<open>big.Int.SetString\<close> of base 0: a sign, a prefix for the base, digits with single
  underscores between them. The previous character is a digit, an underscore or something else.\<close>

datatype scan_prev = ScanDigit | ScanSep | ScanOther

definition digit_value :: "char \<Rightarrow> nat" where
  "digit_value c =
     (if CHR ''0'' \<le> c \<and> c \<le> CHR ''9'' then of_char c - 48
      else if CHR ''a'' \<le> c \<and> c \<le> CHR ''z'' then of_char c - 87
      else if CHR ''A'' \<le> c \<and> c \<le> CHR ''Z'' then of_char c - 55 else 64)"

text \<open>The value, the number of digits, whether a separator is misplaced, and the rest.\<close>

fun scan_digits :: "nat \<Rightarrow> string \<Rightarrow> scan_prev \<Rightarrow> nat \<Rightarrow> nat \<Rightarrow> bool \<Rightarrow> nat \<times> nat \<times> bool \<times> string" where
  "scan_digits b [] prev k v bad = (v, k, bad \<or> prev = ScanSep, [])"
| "scan_digits b (ch # cs) prev k v bad =
     (if ch = CHR ''_'' then scan_digits b cs ScanSep k v (bad \<or> prev \<noteq> ScanDigit)
      else if digit_value ch \<ge> b then (v, k, bad \<or> prev = ScanSep, ch # cs)
      else scan_digits b cs ScanDigit (k + 1) (v * b + digit_value ch) bad)"

definition scan_nat :: "string \<Rightarrow> nat option" where
  "scan_nat s =
     (let (b, octal, ds, prev) =
        (case s of
           c # c' # cs \<Rightarrow>
             if c \<noteq> CHR ''0'' then (10, False, s, ScanOther)
             else if c' \<in> set ''bB'' then (2, False, cs, ScanDigit)
             else if c' \<in> set ''oO'' then (8, False, cs, ScanDigit)
             else if c' \<in> set ''xX'' then (16, False, cs, ScanDigit)
             else (8, True, c' # cs, ScanDigit)
         | _ \<Rightarrow> (10, False, s, ScanOther));
        (v, n, bad, rest) = scan_digits b ds prev 0 0 False in
      if rest \<noteq> [] then None
      else if n = 0 then (if octal then Some 0 else None)
      else if bad then None else Some v)"

definition big_SetString :: "string \<Rightarrow> int option" where
  "big_SetString s =
     (let (neg, ds) = split_sign s in
      case scan_nat ds of None \<Rightarrow> None | Some n \<Rightarrow> Some (if neg then - int n else int n))"

definition NewIntFromString :: "string \<Rightarrow> int option" where
  "NewIntFromString s =
     (case big_SetString s of None \<Rightarrow> None | Some i \<Rightarrow> if BitLen i > 256 then None else Some i)"

text \<open>\<open>Dec.String\<close>, \<open>MarshalJSON\<close>, \<open>NewDecFromStr\<close> and \<open>UnmarshalJSON\<close>, the
  last on strings without escapes, which are all that is stored.\<close>

definition Dec_String :: "Dec \<Rightarrow> string" where
  "Dec_String d =
     (let bzInt = decimal (nat \<bar>d\<bar>); inputSize = length bzInt in
      (if d < 0 then ''-'' else []) @
      (if inputSize \<le> 18 then ''0.'' @ replicate (18 - inputSize) CHR ''0'' @ bzInt
       else take (inputSize - 18) bzInt @ ''.'' @ drop (inputSize - 18) bzInt))"

definition Dec_MarshalJSON :: "Dec \<Rightarrow> string" where
  "Dec_MarshalJSON d = CHR 0x22 # Dec_String d @ [CHR 0x22]"

definition big_SetString10 :: "string \<Rightarrow> int option" where
  "big_SetString10 s =
     (let (neg, ds) = split_sign s in
      if ds = [] \<or> \<not> list_all is_decimal_digit ds then None
      else Some (if neg then - int (undecimal ds) else int (undecimal ds)))"

definition NewDecFromStr :: "string \<Rightarrow> Dec res" where
  "NewDecFromStr str =
     (let (neg, body) = (case str of c # cs \<Rightarrow> if c = CHR ''-'' then (True, cs) else (False, str) | [] \<Rightarrow> (False, []));
          parts = split_on CHR ''.'' body;
          whole = hd parts;
          frac = (if length parts = 2 then parts ! 1 else []) in
      if body = [] then Err Plain
      else if length parts > 2 then Err Plain
      else if length parts = 2 \<and> (frac = [] \<or> whole = []) then Err Plain
      else if length frac > 18 then Err Plain
      else case big_SetString10 (whole @ frac @ replicate (18 - length frac) CHR ''0'') of
          None \<Rightarrow> Err Plain
        | Some combined \<Rightarrow> if BitLen combined > 315 then Err Plain else Ok (if neg then - combined else combined))"

definition Dec_UnmarshalJSON :: "string \<Rightarrow> Dec res" where
  "Dec_UnmarshalJSON bz =
     (if length bz \<ge> 2 \<and> hd bz = CHR 0x22 \<and> last bz = CHR 0x22 \<and> CHR 0x22 \<notin> set (butlast (tl bz))
      then NewDecFromStr (butlast (tl bz)) else Err Plain)"

text \<open>\<open>Dec.Marshal\<close> and \<open>Unmarshal\<close>; no bytes are a decimal without a value.\<close>

definition Dec_Marshal :: "Dec \<Rightarrow> string" where
  "Dec_Marshal d = Itoa d"

definition Dec_Unmarshal :: "string \<Rightarrow> Dec option res" where
  "Dec_Unmarshal bz =
     (if bz = [] then Ok None
      else case big_SetString bz of
          None \<Rightarrow> Err Plain
        | Some i \<Rightarrow> if BitLen i > 315 then Err Plain else Ok (Some i))"

definition dec_text :: "Dec option \<Rightarrow> string" where
  "dec_text d = (case d of None \<Rightarrow> ''<nil>'' | Some x \<Rightarrow> Dec_String x)"

text \<open>\<open>time.Format\<close> with \<open>RFC3339\<close> in UTC: the civil date of a day, counted from the first
  of March of the year zero.\<close>

definition civil_date :: "int \<Rightarrow> int \<times> int \<times> int" where
  "civil_date days =
     (let z = days + 719468; era = z div 146097; doe = z mod 146097;
          yoe = (doe - doe div 1460 + doe div 36524 - doe div 146096) div 365;
          doy = doe - (365 * yoe + yoe div 4 - yoe div 100);
          mp = (5 * doy + 2) div 153; d = doy - (153 * mp + 2) div 5 + 1;
          m = (if mp < 10 then mp + 3 else mp - 9) in
      (yoe + era * 400 + (if m \<le> 2 then 1 else 0), m, d))"

definition pad :: "nat \<Rightarrow> int \<Rightarrow> string" where
  "pad w n = (let ds = decimal (nat n) in replicate (w - length ds) CHR ''0'' @ ds)"

definition RFC3339 :: "int \<Rightarrow> string" where
  "RFC3339 t =
     (let secs = t div 10 ^ 9; (y, m, d) = civil_date (secs div 86400); sod = secs mod 86400 in
      (if y < 0 then ''-'' @ pad 4 (- y) else pad 4 y) @ ''-'' @ pad 2 m @ ''-'' @ pad 2 d @ ''T'' @
      pad 2 (sod div 3600) @ '':'' @ pad 2 (sod div 60 mod 60) @ '':'' @ pad 2 (sod mod 60) @ ''Z'')"

definition no_time :: int where "no_time = - 62135596800 * 10 ^ 9"

text \<open>\<open>time.Time.Sub\<close> saturates.\<close>

definition Time_Sub :: "int \<Rightarrow> int \<Rightarrow> int" where
  "Time_Sub t u = max (- (2 ^ 63)) (min (2 ^ 63 - 1) (t - u))"
section \<open>Times\<close>

definition SetLastProcessingTime :: "string \<Rightarrow> int \<Rightarrow> photo_state \<Rightarrow> photo_state" where
  "SetLastProcessingTime key t s = s\<lparr>ph_times := kv_set key (word_of_int (t div 10 ^ 9)) (ph_times s)\<rparr>"

definition GetLastProcessingTime :: "photo_state \<Rightarrow> string \<Rightarrow> int res" where
  "GetLastProcessingTime s key =
     (case kv_get (ph_times s) key of None \<Rightarrow> Err Plain | Some lastTimeUnix \<Rightarrow> Ok (sint lastTimeUnix * 10 ^ 9))"

definition ShouldProcessTask :: "arch_env \<Rightarrow> photo_state \<Rightarrow> string \<Rightarrow> int \<Rightarrow> bool" where
  "ShouldProcessTask env s key intervalInMinutes =
     (case GetLastProcessingTime s key of
        Ok lastProcessedTime \<Rightarrow> Time_Sub (ae_blockTime env) lastProcessedTime \<ge> intervalInMinutes * (60 * 10 ^ 9)
      | _ \<Rightarrow> True)"

section \<open>Contracts\<close>

definition metadatas :: "photo_state \<Rightarrow> ContractMetadata list" where
  "metadatas s = kv_values (rw_metadata (ph_rewards s))"

definition GetContractStakeData :: "photo_state \<Rightarrow> string \<Rightarrow> int res" where
  "GetContractStakeData s contractAddr =
     (case kv_get (ph_stakes s) contractAddr of None \<Rightarrow> Ok 0 | Some bz \<Rightarrow> NewIntFromBigInt (SetBytes bz))"

definition SetContractStakeData :: "string \<Rightarrow> int \<Rightarrow> (photo_state, unit) go" where
  "SetContractStakeData contractAddr stake =
     go_bind (go_gets ph_stakes) (\<lambda>m.
     go_bind (go_lift (photo_set contractAddr (BigInt_Bytes stake) m)) (\<lambda>m'. go_modify (ph_stakes_update (\<lambda>_. m'))))"

definition AddContractStake :: "string \<Rightarrow> int \<Rightarrow> (photo_state, unit) go" where
  "AddContractStake contractAddr amount =
     go_bind (\<lambda>s. (GetContractStakeData s contractAddr, s)) (\<lambda>currentStake.
     go_bind (go_lift (Int_Add currentStake amount)) (\<lambda>newStake. SetContractStakeData contractAddr newStake))"

definition ResetContractStakes :: "photo_state \<Rightarrow> photo_state" where
  "ResetContractStakes s = s\<lparr>ph_stakes := []\<rparr>"

definition GetContractStake :: "arch_env \<Rightarrow> photo_state \<Rightarrow> address \<Rightarrow> int res" where
  "GetContractStake env s address = GetContractStakeData s (AccAddress_String env address)"

section \<open>Deposits\<close>

definition CreateContractLiquidStakeDepositRecord :: "arch_env \<Rightarrow> int \<Rightarrow> address \<Rightarrow> liquid_deposit" where
  "CreateContractLiquidStakeDepositRecord env amount rewardAddress =
     \<lparr>ld_ContractAddress = AccAddress_String env rewardAddress, ld_Amount = amount, ld_Status = ''pending''\<rparr>"

definition EnqueueLiquidStakeRecord :: "liquid_deposit \<Rightarrow> (photo_state, unit) go" where
  "EnqueueLiquidStakeRecord record =
     go_bind (go_gets ph_queue) (\<lambda>m.
     go_bind (go_lift (photo_set (ld_ContractAddress record) record m)) (\<lambda>m'. go_modify (ph_queue_update (\<lambda>_. m'))))"

definition GetContractLiquidStakeDeposits :: "photo_state \<Rightarrow> string \<Rightarrow> liquid_deposit list" where
  "GetContractLiquidStakeDeposits s contractAddr =
     (case kv_get (ph_deposits s) contractAddr of None \<Rightarrow> [] | Some depositRecords \<Rightarrow> depositRecords)"

definition SetContractLiquidStakeDeposits :: "string \<Rightarrow> liquid_deposit list \<Rightarrow> (photo_state, unit) go" where
  "SetContractLiquidStakeDeposits contractAddr newRecords =
     go_bind (go_gets (\<lambda>s. GetContractLiquidStakeDeposits s contractAddr)) (\<lambda>existingRecords.
     go_bind (go_gets ph_deposits) (\<lambda>m.
     go_bind (go_lift (photo_set contractAddr (existingRecords @ newRecords) m)) (\<lambda>m'.
     go_modify (ph_deposits_update (\<lambda>_. m')))))"

definition SetTotalLiquidStakeData :: "int \<Rightarrow> photo_state \<Rightarrow> photo_state" where
  "SetTotalLiquidStakeData totalLiquidStake s = s\<lparr>ph_total := Some (BigInt_Bytes totalLiquidStake)\<rparr>"

definition GetTotalLiquidStakeData :: "photo_state \<Rightarrow> int res" where
  "GetTotalLiquidStakeData s = (case ph_total s of None \<Rightarrow> Ok 0 | Some bz \<Rightarrow> NewIntFromBigInt (SetBytes bz))"

definition photo_ResetTotalLiquidStake :: "photo_state \<Rightarrow> photo_state" where
  "photo_ResetTotalLiquidStake s = s\<lparr>ph_total := Some (BigInt_Bytes 0)\<rparr>"

definition is_pending :: "liquid_deposit \<Rightarrow> bool" where
  "is_pending record \<longleftrightarrow> ld_Status record = ''pending''"

definition complete_deposit :: "liquid_deposit \<Rightarrow> liquid_deposit" where
  "complete_deposit record = record\<lparr>ld_Status := ''completed''\<rparr>"

text \<open>The stake of one contract. The records that are marked completed are appended: the store keeps
  the pending ones.\<close>

definition total_of_contract :: "ContractMetadata \<Rightarrow> int \<Rightarrow> (photo_state, int) go" where
  "total_of_contract meta totalLiquidStake =
     go_bind (go_gets (\<lambda>s. GetContractLiquidStakeDeposits s (cm_RewardsAddress meta))) (\<lambda>depositRecords.
     go_bind (go_lift (res_acc (\<lambda>record stake. if is_pending record then Int_Add stake (ld_Amount record) else Ok stake)
       depositRecords 0)) (\<lambda>contractLiquidStake.
     let updatedRecords = map complete_deposit (filter is_pending depositRecords) in
     go_bind (if updatedRecords \<noteq> [] then SetContractLiquidStakeDeposits (cm_RewardsAddress meta) updatedRecords
       else go_ret ()) (\<lambda>_.
     go_lift (Int_Add totalLiquidStake contractLiquidStake))))"

definition GetTotalLiquidStake :: "(photo_state, int) go" where
  "GetTotalLiquidStake =
     go_bind (go_gets metadatas) (\<lambda>metas.
     go_bind (for_acc total_of_contract metas 0) (\<lambda>totalLiquidStake.
     go_bind (go_modify (SetTotalLiquidStakeData totalLiquidStake)) (\<lambda>_.
     go_ret totalLiquidStake)))"

definition ResetCompletedDepositRecords :: "string \<Rightarrow> (photo_state, unit) go" where
  "ResetCompletedDepositRecords contractAddr =
     go_bind (go_gets (\<lambda>s. GetContractLiquidStakeDeposits s contractAddr)) (\<lambda>depositRecords.
     SetContractLiquidStakeDeposits contractAddr (filter (\<lambda>record. ld_Status record \<noteq> ''completed'') depositRecords))"

definition ResetAllCompletedDepositRecords :: "(photo_state, unit) go" where
  "ResetAllCompletedDepositRecords =
     go_bind (go_gets metadatas) (\<lambda>metas.
     for_each (\<lambda>meta. ResetCompletedDepositRecords (cm_RewardsAddress meta)) metas)"

section \<open>Booked rewards\<close>

text \<open>A Go map of numbers, zero where nothing is stored.\<close>

definition map_val :: "(string, int) kvstore \<Rightarrow> string \<Rightarrow> int" where
  "map_val m k = (case kv_get m k of None \<Rightarrow> 0 | Some n \<Rightarrow> n)"

definition map_add :: "string \<Rightarrow> int \<Rightarrow> (string, int) kvstore \<Rightarrow> (string, int) kvstore" where
  "map_add k n m = kv_set k (int64_wrap (map_val m k + n)) m"

definition cumulate :: "string \<Rightarrow> (string, int) kvstore \<Rightarrow> (string, int) kvstore" where
  "cumulate data rewardMap =
     (let fields = split_on CHR '','' data in
      if length fields < 2 then rewardMap
      else case ParseInt (fields ! 1) of None \<Rightarrow> rewardMap | Some amount \<Rightarrow> map_add (fields ! 0) amount rewardMap)"

definition GetCumulativeRewardAmount :: "photo_state \<Rightarrow> (string, int) kvstore" where
  "GetCumulativeRewardAmount s = fold cumulate (kv_values (ph_distributions s)) []"

definition count_records :: "string \<Rightarrow> (string, int) kvstore \<times> (string, int) kvstore \<Rightarrow> (string, int) kvstore \<times> (string, int) kvstore" where
  "count_records data maps =
     (let fields = split_on CHR '','' data; (rewardMap, rewardRecords) = maps in
      if length fields < 2 then maps
      else case ParseInt (fields ! 1) of
          None \<Rightarrow> maps
        | Some amount \<Rightarrow>
            let rewardMap' = map_add (fields ! 0) amount rewardMap in
            if length fields \<ge> 3
            then (case ParseInt (fields ! 2) of
                    None \<Rightarrow> (rewardMap', rewardRecords)
                  | Some records \<Rightarrow> (rewardMap', map_add (fields ! 0) records rewardRecords))
            else (rewardMap', rewardRecords))"

definition GetTotalRewardRecords :: "photo_state \<Rightarrow> (string, int) kvstore \<times> (string, int) kvstore" where
  "GetTotalRewardRecords s = fold count_records (kv_values (ph_distributions s)) ([], [])"

definition AddRewardsDistributionToDapps :: "arch_env \<Rightarrow> string \<Rightarrow> photo_state \<Rightarrow> photo_state" where
  "AddRewardsDistributionToDapps env data s =
     s\<lparr>ph_distributions := kv_set (Itoa (ae_blockHeight env)) data (ph_distributions s)\<rparr>"

definition AddRewardsWithdrawalToDapps :: "arch_env \<Rightarrow> string \<Rightarrow> photo_state \<Rightarrow> photo_state" where
  "AddRewardsWithdrawalToDapps env data s =
     s\<lparr>ph_withdrawals := kv_set (Itoa (ae_blockHeight env)) data (ph_withdrawals s)\<rparr>"
section \<open>Tasks\<close>

text \<open>The rewards of a contract become a pending deposit when they reach its minimum. A negative amount is
  compared as a large \<open>uint64\<close>.\<close>

definition deposit_rewards :: "arch_env \<Rightarrow> (string, int) kvstore \<Rightarrow> ContractMetadata \<Rightarrow> (photo_state, unit) go" where
  "deposit_rewards env rewardMap meta =
     (if cm_MinimumRewardAmount meta > 0 \<and> cm_RewardsAddress meta \<noteq> ''''
      then case kv_get rewardMap (cm_RewardsAddress meta) of
          None \<Rightarrow> go_ret ()
        | Some amount \<Rightarrow>
            if (word_of_int amount :: uint64) \<ge> cm_MinimumRewardAmount meta
            then go_bind (go_lift (meta_MustGetRewardsAddress env meta)) (\<lambda>addr.
              SetContractLiquidStakeDeposits (cm_RewardsAddress meta)
                [CreateContractLiquidStakeDepositRecord env amount addr])
            else go_ret ()
      else go_ret ())"

definition handleLiquidStakingDAppRewards :: "arch_env \<Rightarrow> (photo_state, unit) go" where
  "handleLiquidStakingDAppRewards env =
     go_bind (go_gets GetCumulativeRewardAmount) (\<lambda>rewardMap.
     go_bind (go_gets metadatas) (\<lambda>metas. for_each (deposit_rewards env rewardMap) metas))"

text \<open>The stakes of the contracts by rewards address, and their total.\<close>

definition add_stake ::
  "arch_env \<Rightarrow> photo_state \<Rightarrow> ContractMetadata \<Rightarrow> (string, int) kvstore \<times> int \<Rightarrow> ((string, int) kvstore \<times> int) res" where
  "add_stake env s meta acc =
     rbind (meta_MustGetRewardsAddress env meta) (\<lambda>addr.
     rbind (GetContractStake env s addr) (\<lambda>contractStake.
     if contractStake > 0
     then rbind (Int_Add (snd acc) contractStake) (\<lambda>totalStake.
       Ok (kv_set (cm_RewardsAddress meta) contractStake (fst acc), totalStake))
     else Ok acc))"

definition distribute_to :: "int \<Rightarrow> int \<Rightarrow> string \<times> int \<Rightarrow> (photo_state, unit) go" where
  "distribute_to liquidityAmount totalStake = (\<lambda>(contractAddr, contractStake).
     go_bind (go_lift (Dec_Quo (NewDecFromInt contractStake) (NewDecFromInt totalStake))) (\<lambda>stakeProportion.
     go_bind (go_lift (rbind (Dec_MulInt64 stakeProportion liquidityAmount) Dec_TruncateInt)) (\<lambda>tokens.
     go_bind (go_lift (Int_Int64 tokens)) (\<lambda>amount.
     go_bind (go_gets ph_liquidityLog) (\<lambda>m.
     go_bind (go_lift (photo_set contractAddr (contractAddr @ '','' @ Itoa amount) m)) (\<lambda>m'.
     go_bind (go_modify (ph_liquidityLog_update (\<lambda>_. m'))) (\<lambda>_.
     go_modify (\<lambda>s. s\<lparr>ph_stakeRatios := kv_set contractAddr (Dec_String stakeProportion) (ph_stakeRatios s)\<rparr>))))))))"

definition DistributeLiquidity :: "arch_env \<Rightarrow> int \<Rightarrow> (photo_state, unit) go" where
  "DistributeLiquidity env liquidityAmount =
     go_bind (\<lambda>s. (res_acc (add_stake env s) (metadatas s) ([], 0), s)) (\<lambda>(cumulativeStakes, totalStake).
     if totalStake = 0 then go_ret ()
     else for_each (distribute_to liquidityAmount totalStake) cumulativeStakes)"

definition handleArchLiquidStakeInterval :: "arch_env \<Rightarrow> (photo_state, unit) go" where
  "handleArchLiquidStakeInterval env =
     go_bind GetTotalLiquidStake (\<lambda>totalLiquidStake.
     go_bind (go_lift (Int_Int64 totalLiquidStake)) (DistributeLiquidity env))"

definition QueryRedemptionRate :: "int res" where "QueryRedemptionRate = Ok 105"

definition GetLatestRedemptionTime :: "photo_state \<Rightarrow> int" where
  "GetLatestRedemptionTime s =
     (case ph_latestRedemption s of None \<Rightarrow> no_time | Some t \<Rightarrow> sint t * 10 ^ 9)"

definition GetTimeSinceLatestRedemption :: "arch_env \<Rightarrow> photo_state \<Rightarrow> int" where
  "GetTimeSinceLatestRedemption env s = big_quo (Time_Sub (ae_blockTime env) (GetLatestRedemptionTime s)) (10 ^ 9)"

definition GetCumulativeLiquidityAmount :: "photo_state \<Rightarrow> int res" where
  "GetCumulativeLiquidityAmount s = (case ph_cumulative s of None \<Rightarrow> Err Plain | Some coin \<Rightarrow> Ok (snd coin))"

definition RedeemLiquidTokens :: "denom \<times> int \<Rightarrow> int res" where
  "RedeemLiquidTokens amount = Ok (snd amount)"

definition getRedeemedTokensAmount :: int where "getRedeemedTokensAmount = 500000"

definition add_provider_stake ::
  "arch_env \<Rightarrow> photo_state \<Rightarrow> ContractMetadata \<Rightarrow> (string, int) kvstore \<times> int \<Rightarrow> ((string, int) kvstore \<times> int) res" where
  "add_provider_stake env s meta acc =
     rbind (meta_MustGetRewardsAddress env meta) (\<lambda>addr.
     rbind (GetContractStake env s addr) (\<lambda>contractStake.
     rbind (Int_Add (snd acc) contractStake) (\<lambda>totalStake.
     Ok (kv_set (cm_LiquidityProviderAddress meta) contractStake (fst acc), totalStake))))"

definition redeem_to :: "int \<Rightarrow> string \<times> int \<Rightarrow> (photo_state, unit) go" where
  "redeem_to totalStake = (\<lambda>(contractAddr, stake).
     go_bind (go_lift (Dec_Quo (NewDecFromInt stake) (NewDecFromInt totalStake))) (\<lambda>stakeProportion.
     go_bind (go_lift (rbind (Dec_MulInt64 stakeProportion getRedeemedTokensAmount) Dec_TruncateInt)) (\<lambda>tokens.
     go_bind (go_lift (Int_Int64 tokens)) (\<lambda>amount.
     go_bind (go_gets ph_redeemedLog) (\<lambda>m.
     go_bind (go_lift (photo_set contractAddr (contractAddr @ '','' @ Itoa amount) m)) (\<lambda>m'.
     go_modify (ph_redeemedLog_update (\<lambda>_. m'))))))))"

definition DistributeRedeemedTokens :: "arch_env \<Rightarrow> (photo_state, unit) go" where
  "DistributeRedeemedTokens env =
     go_bind (\<lambda>s. (res_acc (add_provider_stake env s) (metadatas s) ([], 0), s)) (\<lambda>(cumulativeStakes, totalStake).
     if totalStake = 0 then go_ret () else for_each (redeem_to totalStake) cumulativeStakes)"

text \<open>Errors are logged and end the task.\<close>

definition handleRedemptionRateQuery :: "arch_env \<Rightarrow> (photo_state, unit) go" where
  "handleRedemptionRateQuery env =
     go_bind (go_lift QueryRedemptionRate) (\<lambda>redemptionRate.
     go_bind (go_gets (\<lambda>s. (GetTimeSinceLatestRedemption env s \<ge> pp_RedemptionIntervalThreshold (ph_params s),
         GetCumulativeLiquidityAmount s))) (\<lambda>(due, cumLiquidityAmount).
     if redemptionRate \<ge> 14 \<and> due
     then case cumLiquidityAmount of
         Ok amount \<Rightarrow>
           go_bind (go_lift (rbind (Int_Int64 amount) (\<lambda>a. RedeemLiquidTokens ('''', a)))) (\<lambda>_.
           DistributeRedeemedTokens env)
       | _ \<Rightarrow> go_ret ()
     else go_ret ()))"

text \<open>Every contract with a withdrawal interval is booked all records of all contracts, on top of what
  the contracts before it were booked in the same run; the entry of a block is the last one.\<close>

definition book_rewards ::
  "arch_env \<Rightarrow> RewardsRecord list \<Rightarrow> (string, int) kvstore \<times> (string, int) kvstore \<Rightarrow> ContractMetadata \<Rightarrow> coins \<Rightarrow>
   (photo_state, coins) go" where
  "book_rewards env records maps meta totalRewards =
     (if cm_RewardsWithdrawalInterval meta > 0
      then go_bind (go_lift (res_acc (\<lambda>record total. Coins_Add45 total (rr_Rewards record)) records totalRewards)) (\<lambda>totalRewards'.
        if \<not> Coins_IsZero totalRewards'
        then go_bind (go_lift (rbind (AmountOf totalRewards' ''uarch'') Int_Int64)) (\<lambda>amount.
          let addr = cm_RewardsAddress meta;
              data = addr @ '','' @ Itoa (int64_wrap (amount - map_val (fst maps) addr)) @ '','' @
                Itoa (int64_wrap (int (length records) - map_val (snd maps) addr)) @ '','' @
                RFC3339 (if records = [] then no_time else rr_CalculatedTime (last records)) @ '','' @
                Itoa (if records = [] then 0 else rr_CalculatedHeight (last records)) in
          go_bind (go_modify (AddRewardsDistributionToDapps env data)) (\<lambda>_.
          go_bind (go_modify (AddRewardsWithdrawalToDapps env data)) (\<lambda>_. go_ret totalRewards')))
        else go_ret totalRewards')
      else go_ret totalRewards)"

definition handleRewardsWithdrawal :: "arch_env \<Rightarrow> (photo_state, unit) go" where
  "handleRewardsWithdrawal env =
     go_bind (go_gets (\<lambda>s. (kv_values (rw_records (ph_rewards s)), GetTotalRewardRecords s, metadatas s))) (\<lambda>(records, maps, metas).
     go_bind (for_acc (book_rewards env records maps) metas []) (\<lambda>_. go_ret ()))"

definition run_task :: "arch_env \<Rightarrow> string \<Rightarrow> (photo_params \<Rightarrow> int) \<Rightarrow> (photo_state, unit) go \<Rightarrow> (photo_state, unit) go" where
  "run_task env key interval handler =
     go_bind (go_gets (\<lambda>s. ShouldProcessTask env s key (interval (ph_params s)))) (\<lambda>due.
     if due then go_bind handler (\<lambda>_. go_modify (SetLastProcessingTime key (ae_blockTime env))) else go_ret ())"

definition HandleLiquidStakingDAppRewardsTask :: "arch_env \<Rightarrow> (photo_state, unit) go" where
  "HandleLiquidStakingDAppRewardsTask env =
     run_task env LastLiquidStakingDAppRewardsTimeKey pp_LiquidStakingInterval (handleLiquidStakingDAppRewards env)"

definition HandleArchLiquidStakeIntervalTask :: "arch_env \<Rightarrow> (photo_state, unit) go" where
  "HandleArchLiquidStakeIntervalTask env =
     run_task env LastArchLiquidStakeIntervalTimeKey pp_ArchLiquidStakeInterval (handleArchLiquidStakeInterval env)"

definition HandleRedemptionRateQueryTask :: "arch_env \<Rightarrow> (photo_state, unit) go" where
  "HandleRedemptionRateQueryTask env =
     run_task env LastRedemptionRateQueryTimeKey pp_RedemptionRateQueryInterval (handleRedemptionRateQuery env)"

definition HandleRewardsWithdrawalTask :: "arch_env \<Rightarrow> (photo_state, unit) go" where
  "HandleRewardsWithdrawalTask env =
     run_task env LastRewardsWithdrawalTimeKey pp_RewardsWithdrawalInterval (handleRewardsWithdrawal env)"

definition CronJobTriggerTasks :: "arch_env \<Rightarrow> (photo_state, unit) go" where
  "CronJobTriggerTasks env =
     go_bind (HandleLiquidStakingDAppRewardsTask env) (\<lambda>_.
     go_bind (HandleArchLiquidStakeIntervalTask env) (\<lambda>_.
     go_bind (HandleRedemptionRateQueryTask env) (\<lambda>_.
     HandleRewardsWithdrawalTask env)))"
section \<open>Ratios and redemptions\<close>

definition SetStakeRatio :: "address \<Rightarrow> Dec \<Rightarrow> (photo_state, unit) go" where
  "SetStakeRatio contractAddr stakeRatio =
     go_bind (go_gets ph_stakeRatios) (\<lambda>m.
     go_bind (go_lift (photo_set contractAddr (Dec_MarshalJSON stakeRatio) m)) (\<lambda>m'.
     go_modify (ph_stakeRatios_update (\<lambda>_. m'))))"

definition GetStakeRatio :: "photo_state \<Rightarrow> address \<Rightarrow> Dec res" where
  "GetStakeRatio s contractAddr =
     (case kv_get (ph_stakeRatios s) contractAddr of None \<Rightarrow> Err Plain | Some bz \<Rightarrow> Dec_UnmarshalJSON bz)"

definition GetAllStakeRatios :: "arch_env \<Rightarrow> photo_state \<Rightarrow> (string \<times> string) list res" where
  "GetAllStakeRatios env s =
     res_acc (\<lambda>(contractAddrBytes, bz) stakeRatios.
       rbind (Dec_UnmarshalJSON bz) (\<lambda>stakeRatio.
       Ok (stakeRatios @ [(AccAddress_String env contractAddrBytes, Dec_String stakeRatio)]))) (ph_stakeRatios s) []"

definition SetRedeemTokenData :: "address \<Rightarrow> int \<Rightarrow> (photo_state, unit) go" where
  "SetRedeemTokenData contractAddr amount =
     go_bind (go_gets ph_redeem) (\<lambda>m.
     go_bind (go_lift (photo_set contractAddr (BigInt_Bytes amount) m)) (\<lambda>m'. go_modify (ph_redeem_update (\<lambda>_. m'))))"

definition GetRedeemTokenData :: "photo_state \<Rightarrow> address \<Rightarrow> int res" where
  "GetRedeemTokenData s contractAddr =
     (case kv_get (ph_redeem s) contractAddr of None \<Rightarrow> Err Plain | Some bz \<Rightarrow> NewIntFromBigInt (SetBytes bz))"

definition GetTotalRedemptionAmount :: "photo_state \<Rightarrow> int res" where
  "GetTotalRedemptionAmount s =
     res_acc (\<lambda>bz totalRedeemAmount. rbind (NewIntFromBigInt (SetBytes bz)) (Int_Add totalRedeemAmount))
       (kv_values (ph_redeem s)) 0"

definition add_redeemed ::
  "arch_env \<Rightarrow> string \<times> string \<Rightarrow> (string, int) kvstore \<times> int \<Rightarrow> ((string, int) kvstore \<times> int) res" where
  "add_redeemed env = (\<lambda>(contractAddrBytes, bz) (redeemAmounts, totalRedeemAmount).
     rbind (NewIntFromBigInt (SetBytes bz)) (\<lambda>amount.
     rbind (Int_Add totalRedeemAmount amount) (\<lambda>totalRedeemAmount'.
     Ok (kv_set (AccAddress_String env contractAddrBytes) amount redeemAmounts, totalRedeemAmount'))))"

definition SetRedeemTokenRatio :: "address \<Rightarrow> Dec \<Rightarrow> (photo_state, unit) go" where
  "SetRedeemTokenRatio contractAddr redeemRatio =
     (if contractAddr = '''' then go_panic
      else go_modify (\<lambda>s. s\<lparr>ph_redeem := kv_set (ratio_suffix @ contractAddr) (Dec_Marshal redeemRatio) (ph_redeem s)\<rparr>))"

definition ComputeRedeemTokenRatios :: "arch_env \<Rightarrow> (photo_state, unit) go" where
  "ComputeRedeemTokenRatios env =
     go_bind (\<lambda>s. (res_acc (add_redeemed env) (ph_redeem s) ([], 0), s)) (\<lambda>(redeemAmounts, totalRedeemAmount).
     if totalRedeemAmount = 0 then go_ret ()
     else for_each (\<lambda>(contractAddrStr, amount).
       go_bind (go_lift (Dec_Quo (NewDecFromInt amount) (NewDecFromInt totalRedeemAmount))) (\<lambda>redeemRatio.
       case arch_AccAddressFromBech32 env contractAddrStr of
         Ok contractAddr \<Rightarrow> SetRedeemTokenRatio contractAddr redeemRatio
       | _ \<Rightarrow> go_ret ())) redeemAmounts)"

definition GetRedeemTokenRatio :: "photo_state \<Rightarrow> address \<Rightarrow> Dec option res" where
  "GetRedeemTokenRatio s contractAddr =
     (case kv_get (ph_redeem s) (ratio_suffix @ contractAddr) of None \<Rightarrow> Err Plain | Some bz \<Rightarrow> Dec_Unmarshal bz)"

definition GetAllRedeemTokenRatios :: "arch_env \<Rightarrow> photo_state \<Rightarrow> (string \<times> string) list res" where
  "GetAllRedeemTokenRatios env s =
     res_acc (\<lambda>(key, bz) redeemRatios.
       rbind (Dec_Unmarshal bz) (\<lambda>redeemRatio.
       Ok (redeemRatios @ [(AccAddress_String env (drop (length ratio_suffix) key), dec_text redeemRatio)])))
       (filter (\<lambda>(key, _). HasPrefix key ratio_suffix) (ph_redeem s)) []"

definition ClearRedeemTokenData :: "photo_state \<Rightarrow> photo_state" where
  "ClearRedeemTokenData s = s\<lparr>ph_redeem := []\<rparr>"

section \<open>Messages and queries\<close>

datatype photo_msg =
    MsgExecuteCronTasks string
  | MsgResetTotalLiquidStake string
  | MsgResetAllCompletedDepositRecords string
  | MsgSetRedeemTokenData string string string
  | MsgClearRedeemTokenData string

definition photo_creator :: "photo_msg \<Rightarrow> string" where
  "photo_creator m = (case m of MsgExecuteCronTasks c \<Rightarrow> c | MsgResetTotalLiquidStake c \<Rightarrow> c
     | MsgResetAllCompletedDepositRecords c \<Rightarrow> c | MsgSetRedeemTokenData c _ _ \<Rightarrow> c | MsgClearRedeemTokenData c \<Rightarrow> c)"

definition photo_ValidateBasic :: "arch_env \<Rightarrow> photo_msg \<Rightarrow> unit res" where
  "photo_ValidateBasic env m =
     (if \<not> res_ok (arch_AccAddressFromBech32 env (photo_creator m)) then Err (Sdk ErrInvalidAddress)
      else case m of
          MsgSetRedeemTokenData _ contractAddress amount \<Rightarrow>
            if \<not> res_ok (arch_AccAddressFromBech32 env contractAddress) then Err (Sdk ErrInvalidAddress)
            else if NewIntFromString amount = None then Err (Sdk ErrInvalidRequest) else Ok ()
        | _ \<Rightarrow> Ok ())"

definition msg_SetRedeemTokenData :: "arch_env \<Rightarrow> string \<Rightarrow> string \<Rightarrow> (photo_state, unit) go" where
  "msg_SetRedeemTokenData env contractAddress amountStr =
     go_bind (go_lift (arch_AccAddressFromBech32 env contractAddress)) (\<lambda>contractAddr.
     case NewIntFromString amountStr of
       None \<Rightarrow> go_fail Plain
     | Some amount \<Rightarrow> if \<not> amount > 0 then go_fail Plain else SetRedeemTokenData contractAddr amount)"

definition photo_handle :: "arch_env \<Rightarrow> photo_msg \<Rightarrow> (photo_state, unit) go" where
  "photo_handle env m =
     (case m of
        MsgExecuteCronTasks _ \<Rightarrow> CronJobTriggerTasks env
      | MsgResetTotalLiquidStake _ \<Rightarrow> go_modify photo_ResetTotalLiquidStake
      | MsgResetAllCompletedDepositRecords _ \<Rightarrow> ResetAllCompletedDepositRecords
      | MsgSetRedeemTokenData _ contractAddress amount \<Rightarrow> msg_SetRedeemTokenData env contractAddress amount
      | MsgClearRedeemTokenData _ \<Rightarrow> go_modify ClearRedeemTokenData)"

text \<open>The handler of the older interface knows three of the messages.\<close>

definition photo_NewHandler :: "arch_env \<Rightarrow> photo_msg \<Rightarrow> (photo_state, unit) go" where
  "photo_NewHandler env m =
     (case m of
        MsgExecuteCronTasks _ \<Rightarrow> photo_handle env m
      | MsgResetTotalLiquidStake _ \<Rightarrow> photo_handle env m
      | MsgResetAllCompletedDepositRecords _ \<Rightarrow> photo_handle env m
      | _ \<Rightarrow> go_fail Plain)"

definition photo_AnteHandler :: "arch_env \<Rightarrow> photo_msg list \<Rightarrow> unit res" where
  "photo_AnteHandler env msgs =
     res_acc (\<lambda>m _. case m of
         MsgExecuteCronTasks creator \<Rightarrow>
           if \<not> res_ok (arch_AccAddressFromBech32 env creator) then Err (Sdk ErrInvalidAddress) else Ok ()
       | _ \<Rightarrow> Err (Sdk ErrUnknownRequest)) msgs ()"

definition photo_query_TotalLiquidStake :: "photo_state \<Rightarrow> string res" where
  "photo_query_TotalLiquidStake s = rbind (GetTotalLiquidStakeData s) (\<lambda>totalStake. Ok (Itoa totalStake))"

definition photo_query_DepositRecords :: "arch_env \<Rightarrow> string \<Rightarrow> photo_state \<Rightarrow> liquid_deposit list res" where
  "photo_query_DepositRecords env contractAddress s =
     rbind (arch_AccAddressFromBech32 env contractAddress) (\<lambda>contractAddr.
     Ok (GetContractLiquidStakeDeposits s (AccAddress_String env contractAddr)))"

definition photo_query_StakeRatio :: "arch_env \<Rightarrow> string \<Rightarrow> photo_state \<Rightarrow> (string \<times> string) res" where
  "photo_query_StakeRatio env contractAddress s =
     (if contractAddress = '''' then Err Plain
      else rbind (arch_AccAddressFromBech32 env contractAddress) (\<lambda>contractAddr.
        rbind (GetStakeRatio s contractAddr) (\<lambda>stakeRatio. Ok (contractAddress, Dec_String stakeRatio))))"

definition photo_query_RedeemTokenRatios :: "arch_env \<Rightarrow> unit option \<Rightarrow> photo_state \<Rightarrow> (string \<times> string) list res" where
  "photo_query_RedeemTokenRatios env req s = (case req of None \<Rightarrow> Err Plain | Some _ \<Rightarrow> GetAllRedeemTokenRatios env s)"

definition photo_query_TotalRedemptionAmount :: "photo_state \<Rightarrow> string res" where
  "photo_query_TotalRedemptionAmount s = rbind (GetTotalRedemptionAmount s) (\<lambda>totalAmount. Ok (Itoa totalAmount))"
section \<open>Parameters, genesis and invariants\<close>

definition validatePositiveInt64 :: "int \<Rightarrow> unit res" where
  "validatePositiveInt64 v = (if v \<le> 0 then Err Plain else Ok ())"

definition photo_Params_Validate :: "photo_params \<Rightarrow> unit res" where
  "photo_Params_Validate p =
     rbind (validatePositiveInt64 (pp_LiquidStakingInterval p)) (\<lambda>_.
     rbind (validatePositiveInt64 (pp_ArchLiquidStakeInterval p)) (\<lambda>_.
     rbind (validatePositiveInt64 (pp_RedemptionRateQueryInterval p)) (\<lambda>_.
     rbind (validatePositiveInt64 (pp_RedemptionRateThreshold p)) (\<lambda>_.
     rbind (validatePositiveInt64 (pp_RedemptionIntervalThreshold p)) (\<lambda>_.
     validatePositiveInt64 (pp_RewardsWithdrawalInterval p))))))"

definition photo_DefaultParams :: photo_params where
  "photo_DefaultParams = \<lparr>pp_LiquidStakingInterval = 2, pp_ArchLiquidStakeInterval = 3, pp_RedemptionRateQueryInterval = 1,
     pp_RedemptionRateThreshold = 105, pp_RedemptionIntervalThreshold = 30, pp_RewardsWithdrawalInterval = 1\<rparr>"

text \<open>The parameter store refuses an invalid parameter with a panic.\<close>

definition photo_SetParams :: "photo_params \<Rightarrow> (photo_state, unit) go" where
  "photo_SetParams params =
     (if res_ok (photo_Params_Validate params) then go_modify (ph_params_update (\<lambda>_. params)) else go_panic)"

record photo_genesis =
  pg_Params :: photo_params
  pg_DepositRecords :: "liquid_deposit list"
  pg_Contracts :: "photo_contract list"

definition liquid_deposit_Validate :: "arch_env \<Rightarrow> liquid_deposit \<Rightarrow> unit res" where
  "liquid_deposit_Validate env dr =
     (if \<not> res_ok (arch_AccAddressFromBech32 env (ld_ContractAddress dr)) then Err Plain
      else if ld_Amount dr \<le> 0 then Err Plain
      else if ld_Status dr = '''' then Err Plain else Ok ())"

definition photo_contract_Validate :: "arch_env \<Rightarrow> photo_contract \<Rightarrow> unit res" where
  "photo_contract_Validate env c =
     (if \<not> res_ok (arch_AccAddressFromBech32 env (pc_Address c)) then Err Plain
      else if \<not> res_ok (arch_AccAddressFromBech32 env (pc_LiquidityProviderAddress c)) then Err Plain
      else if \<not> res_ok (arch_AccAddressFromBech32 env (pc_RewardsAddress c)) then Err Plain
      else if pc_MinimumRewardAmount c = 0 then Err Plain else Ok ())"

definition photo_genesis_Validate :: "arch_env \<Rightarrow> photo_genesis \<Rightarrow> unit res" where
  "photo_genesis_Validate env g =
     rbind (photo_Params_Validate (pg_Params g)) (\<lambda>_.
     rbind (res_acc (\<lambda>record _. liquid_deposit_Validate env record) (pg_DepositRecords g) ()) (\<lambda>_.
     res_acc (\<lambda>contract _. photo_contract_Validate env contract) (pg_Contracts g) ()))"

definition photo_InitGenesis :: "arch_env \<Rightarrow> photo_genesis \<Rightarrow> (photo_state, unit) go" where
  "photo_InitGenesis env g =
     go_bind (photo_SetParams (pg_Params g)) (\<lambda>_.
     for_each (\<lambda>record.
       go_bind (go_lift (res_must (arch_AccAddressFromBech32 env (ld_ContractAddress record)))) (\<lambda>contractAddr.
       SetContractLiquidStakeDeposits (AccAddress_String env contractAddr) [record])) (pg_DepositRecords g))"

text \<open>The wire format of a deposit (\<open>DepositRecord.Marshal\<close>): fields that are not empty, each with
  its tag, lengths and amounts as varints.\<close>

fun varint :: "nat \<Rightarrow> string" where
  "varint n = (if n < 128 then [char_of n] else char_of (n mod 128 + 128) # varint (n div 128))"

declare varint.simps [simp del]

definition liquid_deposit_Marshal :: "liquid_deposit \<Rightarrow> string" where
  "liquid_deposit_Marshal m =
     (if ld_ContractAddress m = '''' then '''' else char_of (10::nat) # varint (length (ld_ContractAddress m)) @ ld_ContractAddress m) @
     (if ld_Amount m = 0 then '''' else char_of (16::nat) # varint (nat (ld_Amount m mod 2 ^ 64))) @
     (if ld_Status m = '''' then '''' else char_of (26::nat) # varint (length (ld_Status m)) @ ld_Status m)"

text \<open>The export decodes the list stored for an address as if it were one deposit: the first field of
  a deposit is its address, the first field of a list is a deposit, so the bytes of the last one become
  the address. The second prefix the export reads, \<open>contract_\<close>, is a prefix of
  \<open>contract_stake\<close>: the stakes are decoded as contracts, by the generated codec.\<close>

definition list_as_deposit :: "liquid_deposit list \<Rightarrow> liquid_deposit" where
  "list_as_deposit records =
     \<lparr>ld_ContractAddress = (if records = [] then '''' else liquid_deposit_Marshal (last records)), ld_Amount = 0, ld_Status = ''''\<rparr>"

definition photo_ExportGenesis :: "(string \<Rightarrow> photo_contract option) \<Rightarrow> photo_state \<Rightarrow> photo_genesis res" where
  "photo_ExportGenesis UnmarshalContract s =
     rbind (res_acc (\<lambda>bz contracts.
         case UnmarshalContract bz of None \<Rightarrow> Panic | Some contract \<Rightarrow> Ok (contracts @ [contract]))
       (kv_values (ph_stakes s)) []) (\<lambda>contracts.
     Ok \<lparr>pg_Params = ph_params s, pg_DepositRecords = map list_as_deposit (kv_values (ph_deposits s)), pg_Contracts = contracts\<rparr>)"

text \<open>Whether the invariants are broken; the first one changes the state.\<close>

definition LiquidStakeInvariant :: "(photo_state, bool) go" where
  "LiquidStakeInvariant = go_bind GetTotalLiquidStake (\<lambda>totalLiquidStake. go_ret (totalLiquidStake < 0))"

definition RewardRecordsInvariant :: "photo_state \<Rightarrow> bool" where
  "RewardRecordsInvariant s = list_ex (\<lambda>(address, amount). amount < 0) (fst (GetTotalRewardRecords s))"

end
