(* ===== verification/Cron.thy ===== *)
theory Cron
  imports Photosynthesis RewardsPool
begin

text \<open>
  The theorems on \<open>x/photosynthesis\<close>: how the tasks book rewards and deposits, what a second run
  does, and how far the module gets: in no reachable state has liquidity been shared.
\<close>

section \<open>What the tasks leave alone\<close>

lemma Set_deposits_eq:
  "SetContractLiquidStakeDeposits a new s =
     (if a = '''' then (Panic, s)
      else (Ok (), s\<lparr>ph_deposits := kv_set a (GetContractLiquidStakeDeposits s a @ new) (ph_deposits s)\<rparr>))"
  by (simp add: SetContractLiquidStakeDeposits_def go_defs photo_set_def)

lemma keeps_deposits [keeps_intros]:
  "(\<And>s d. I s \<Longrightarrow> I (s\<lparr>ph_deposits := d\<rparr>)) \<Longrightarrow> keeps I (SetContractLiquidStakeDeposits a new)"
  by (rule keepsI) (auto simp: Set_deposits_eq split: if_splits)

text \<open>A property that does not look at deposits, the total, the booked rewards and the times.\<close>

definition unbooked :: "(photo_state \<Rightarrow> bool) \<Rightarrow> bool" where
  "unbooked I \<longleftrightarrow> (\<forall>s d n. I s \<longrightarrow> I (s\<lparr>ph_deposits := d\<rparr>) \<and> I (s\<lparr>ph_total := n\<rparr>)) \<and>
     (\<forall>s d. I s \<longrightarrow> I (s\<lparr>ph_distributions := d\<rparr>) \<and> I (s\<lparr>ph_withdrawals := d\<rparr>)) \<and>
     (\<forall>s d. I s \<longrightarrow> I (s\<lparr>ph_times := d\<rparr>))"

lemma unbookedD:
  assumes "unbooked I" "I s"
  shows "I (s\<lparr>ph_deposits := d\<rparr>)" "I (s\<lparr>ph_total := n\<rparr>)" "I (s\<lparr>ph_distributions := w\<rparr>)"
    "I (s\<lparr>ph_withdrawals := w\<rparr>)" "I (s\<lparr>ph_times := u\<rparr>)"
  using assms by (simp_all add: unbooked_def)

lemma keeps_dapp_rewards:
  assumes "unbooked I" shows "keeps I (handleLiquidStakingDAppRewards env)"
  unfolding handleLiquidStakingDAppRewards_def deposit_rewards_def by (intro keeps_intros unbookedD [OF assms])

lemma keeps_total:
  assumes "unbooked I" shows "keeps I GetTotalLiquidStake"
  unfolding GetTotalLiquidStake_def total_of_contract_def SetTotalLiquidStakeData_def
  by (intro keeps_intros unbookedD [OF assms])

lemma keeps_withdrawal:
  assumes "unbooked I" shows "keeps I (handleRewardsWithdrawal env)"
  unfolding handleRewardsWithdrawal_def book_rewards_def AddRewardsDistributionToDapps_def AddRewardsWithdrawalToDapps_def
  by (intro keeps_intros unbookedD [OF assms])

lemma keeps_reset:
  assumes "unbooked I" shows "keeps I ResetAllCompletedDepositRecords"
  unfolding ResetAllCompletedDepositRecords_def ResetCompletedDepositRecords_def by (intro keeps_intros unbookedD [OF assms])

lemma keeps_task:
  assumes "unbooked I" "keeps I handler" shows "keeps I (run_task env key interval handler)"
  unfolding run_task_def SetLastProcessingTime_def by (intro keeps_intros unbookedD [OF assms(1)] assms(2))

section \<open>How far the module gets\<close>

text \<open>No stake, no liquidity: what the distribution of liquidity and of redeemed tokens starts from.\<close>

definition dry :: "photo_state \<Rightarrow> bool" where
  "dry s \<longleftrightarrow> ph_stakes s = [] \<and> ph_cumulative s = None \<and> ph_liquidityLog s = [] \<and> ph_redeemedLog s = [] \<and>
     ph_stakeRatios s = []"

lemma dry_unbooked: "unbooked dry"
  by (simp add: unbooked_def dry_def)

lemma no_stakes: "ph_stakes s = [] \<Longrightarrow> res_acc (add_stake env s) metas acc = Ok acc' \<Longrightarrow> acc' = acc"
  by (induction metas arbitrary: acc)
    (auto simp: go_simps add_stake_def GetContractStake_def GetContractStakeData_def)

lemma keeps_dry_distribute: "keeps dry (DistributeLiquidity env n)"
proof (rule keepsI)
  fix s r t
  assume s: "dry s" and run: "DistributeLiquidity env n s = (r, t)"
  have "t = s"
    using run no_stakes [of s env "metadatas s" "([], 0)"] s
    by (auto simp: DistributeLiquidity_def go_defs dry_def split: res.splits if_splits)
  with s show "dry t" by simp
qed

lemma keeps_dry_redeem: "keeps dry (handleRedemptionRateQuery env)"
  by (rule keepsI)
    (auto simp: handleRedemptionRateQuery_def go_defs dry_def GetCumulativeLiquidityAmount_def QueryRedemptionRate_def split: if_splits)

lemma keeps_dry_cron: "keeps dry (CronJobTriggerTasks env)"
  unfolding CronJobTriggerTasks_def HandleLiquidStakingDAppRewardsTask_def HandleArchLiquidStakeIntervalTask_def
    HandleRedemptionRateQueryTask_def HandleRewardsWithdrawalTask_def handleArchLiquidStakeInterval_def
  by (intro keeps_intros keeps_task keeps_dapp_rewards keeps_total keeps_withdrawal keeps_dry_distribute keeps_dry_redeem
      dry_unbooked)

lemma keeps_dry_handle: "keeps dry (photo_handle env m)"
proof -
  have "keeps dry (msg_SetRedeemTokenData env c a)" for c a
    unfolding msg_SetRedeemTokenData_def SetRedeemTokenData_def by (intro keeps_intros) (simp add: dry_def)
  moreover have "keeps dry (go_modify photo_ResetTotalLiquidStake)" "keeps dry (go_modify ClearRedeemTokenData)"
    by (intro keeps_intros, simp add: dry_def photo_ResetTotalLiquidStake_def ClearRedeemTokenData_def)+
  ultimately show ?thesis
    by (cases m) (simp_all add: photo_handle_def keeps_dry_cron keeps_reset dry_unbooked)
qed

text \<open>The states the module can reach: from an import into an empty store by messages, changes of
  parameters and checks of the invariant, while \<open>x/rewards\<close> changes in any way.\<close>

definition photo_empty :: "rewards_state \<Rightarrow> photo_state" where
  "photo_empty rewards =
     \<lparr>ph_params = photo_DefaultParams, ph_times = [], ph_queue = [], ph_deposits = [], ph_total = None, ph_cumulative = None,
      ph_latestRedemption = None, ph_distributions = [], ph_withdrawals = [], ph_stakes = [], ph_stakeRatios = [],
      ph_liquidityLog = [], ph_redeemedLog = [], ph_redeem = [], ph_rewards = rewards\<rparr>"

inductive photo_reachable :: "photo_state \<Rightarrow> bool" where
  genesis: "photo_InitGenesis env g (photo_empty rewards) = (Ok (), s) \<Longrightarrow> photo_reachable s"
| message: "photo_reachable s \<Longrightarrow> photo_ValidateBasic env m = Ok () \<Longrightarrow> photo_handle env m s = (Ok (), t) \<Longrightarrow> photo_reachable t"
| governance: "photo_reachable s \<Longrightarrow> photo_SetParams params s = (Ok (), t) \<Longrightarrow> photo_reachable t"
| crisis: "photo_reachable s \<Longrightarrow> LiquidStakeInvariant s = (r, t) \<Longrightarrow> photo_reachable t"
| rewards: "photo_reachable s \<Longrightarrow> photo_reachable (s\<lparr>ph_rewards := rewards\<rparr>)"

lemma keeps_dry_params: "keeps dry (photo_SetParams params)"
  unfolding photo_SetParams_def by (intro keeps_intros) (simp add: dry_def)

text \<open>Property C35. Liquidity never reaches a contract: in every reachable state no contract has a stake, no
  liquid tokens are known, and neither liquidity nor redeemed tokens have been distributed, whatever
  is deposited, booked and redeemed and however often the tasks run.\<close>

theorem liquidity_never_arrives:
  assumes "photo_reachable s"
  shows "ph_stakes s = [] \<and> ph_cumulative s = None \<and> ph_liquidityLog s = [] \<and> ph_redeemedLog s = []"
proof -
  have "dry s"
    using assms
  proof (induction rule: photo_reachable.induct)
    case (genesis env g rewards s)
    have "keeps dry (photo_InitGenesis env g)"
      unfolding photo_InitGenesis_def by (intro keeps_intros keeps_dry_params unbookedD [OF dry_unbooked])
    then show ?case using genesis by (rule keepsD) (simp add: dry_def photo_empty_def)
  next
    case (message s env m t)
    from keepsD [OF keeps_dry_handle message.hyps(3) message.IH] show ?case .
  next
    case (governance s params t)
    from keepsD [OF keeps_dry_params governance.hyps(2) governance.IH] show ?case .
  next
    case (crisis s r t)
    have "keeps dry LiquidStakeInvariant"
      unfolding LiquidStakeInvariant_def by (intro keeps_intros keeps_total dry_unbooked)
    from keepsD [OF this crisis.hyps(2) crisis.IH] show ?case .
  qed (simp add: dry_def)
  then show ?thesis by (simp add: dry_def)
qed
section \<open>Booked rewards\<close>

text \<open>What one entry of the store adds to the rewards of an address.\<close>

definition booked :: "string \<Rightarrow> string \<Rightarrow> int" where
  "booked data a =
     (let fields = split_on CHR '','' data in
      if length fields < 2 then 0
      else case ParseInt (fields ! 1) of None \<Rightarrow> 0 | Some amount \<Rightarrow> if fields ! 0 = a then amount else 0)"

lemma map_val_add: "map_val (map_add k n m) a = (if a = k then int64_wrap (map_val m k + n) else map_val m a)"
  by (simp add: map_val_def map_add_def)

lemma int64_wrap_add: "int64_wrap (int64_wrap x + y) = int64_wrap (x + y)"
  unfolding int64_wrap_def by (simp add: mod_simps algebra_simps)

lemma int64_wrap_add2: "int64_wrap (x + int64_wrap y) = int64_wrap (x + y)"
  using int64_wrap_add [of y x] by (simp add: add.commute)

lemma cumulate_val: "is_int64 (map_val m a) \<Longrightarrow> map_val (cumulate data m) a = int64_wrap (map_val m a + booked data a)"
  by (auto simp: cumulate_def booked_def map_val_add Let_def split: option.split)

lemma cumulate_all:
  "is_int64 (map_val m a) \<Longrightarrow>
   map_val (fold cumulate xs m) a = int64_wrap (map_val m a + sum_list (map (\<lambda>data. booked data a) xs))"
proof (induction xs arbitrary: m)
  case (Cons x xs)
  have "is_int64 (map_val (cumulate x m) a)" using cumulate_val [OF Cons.prems] by simp
  from Cons.IH [OF this] show ?case by (simp add: cumulate_val [OF Cons.prems] int64_wrap_add add.assoc)
qed simp

lemma fst_count_records: "fst (fold count_records xs (m, r)) = fold cumulate xs m"
proof (induction xs arbitrary: m r)
  case (Cons x xs)
  have "fst (count_records x (m, r)) = cumulate x m"
    by (auto simp: count_records_def cumulate_def Let_def split: option.split)
  then obtain r' where "count_records x (m, r) = (cumulate x m, r')" by (cases "count_records x (m, r)") auto
  with Cons.IH show ?case by simp
qed simp

lemma GetTotalRewardRecords_amounts: "fst (GetTotalRewardRecords s) = GetCumulativeRewardAmount s"
  by (simp add: GetTotalRewardRecords_def GetCumulativeRewardAmount_def fst_count_records)

lemma cumulative_val:
  "map_val (GetCumulativeRewardAmount s) a = int64_wrap (sum_list (map (\<lambda>data. booked data a) (kv_values (ph_distributions s))))"
proof -
  have "map_val [] a = 0" by (simp add: map_val_def kv_get_def)
  with cumulate_all [of "[]" a] show ?thesis by (simp add: GetCumulativeRewardAmount_def is_int64_def)
qed

text \<open>A number that is printed is read back, and separators of numbers separate fields.\<close>

lemma split_on_sep: "sep \<notin> set xs \<Longrightarrow> split_on sep (xs @ sep # ys) = xs # split_on sep ys"
  by (induction xs) auto

lemma split_on_ne: "split_on sep xs \<noteq> []"
  by (induction xs) (auto split: list.split)

lemma digit_char_cases: "n < 10 \<Longrightarrow> digit_char n \<in> set ''0123456789''"
proof -
  have "\<forall>n\<in>set [0..<10]. digit_char n \<in> set ''0123456789''" by code_simp
  then show "n < 10 \<Longrightarrow> digit_char n \<in> set ''0123456789''" by simp
qed

lemma decimal_digits: "set (decimal n) \<subseteq> set ''0123456789''"
proof (induction n rule: decimal.induct)
  case (1 n)
  then show ?case
    using digit_char_cases [of n] digit_char_cases [of "n mod 10"] by (subst decimal.simps) auto
qed

lemma decimal_ne: "decimal n \<noteq> []"
  by (subst decimal.simps) simp

lemma Itoa_no_comma: "CHR '','' \<notin> set (Itoa n)"
  using decimal_digits [of "nat n"] decimal_digits [of "nat (- n)"] by (auto simp: Itoa_def)

lemma ParseInt_Itoa: "is_int64 n \<Longrightarrow> ParseInt (Itoa n) = Some n"
proof -
  assume n: "is_int64 n"
  have digits: "list_all is_decimal_digit (decimal m)" for m
    using decimal_digits [of m] by (auto simp: list_all_iff is_decimal_digit_def less_eq_char_def)
  have "split_sign (decimal m) = (False, decimal m)" for m
    using decimal_digits [of m] decimal_ne [of m] by (cases "decimal m") (auto simp: split_sign_def)
  then show ?thesis
    using n digits decimal_ne [of "nat n"] decimal_ne [of "nat (- n)"]
    by (auto simp: ParseInt_def Itoa_def split_sign_def)
qed

lemma booked_entry:
  assumes "is_int64 n" "CHR '','' \<notin> set a"
  shows "booked (a @ '','' @ Itoa n @ '','' @ rest) b = (if a = b then n else 0)"
proof -
  have "split_on CHR '','' (a @ '','' @ Itoa n @ '','' @ rest) = a # Itoa n # split_on CHR '','' rest"
    by (simp add: split_on_sep assms(2) Itoa_no_comma)
  then show ?thesis by (simp add: booked_def ParseInt_Itoa assms(1) Let_def)
qed

text \<open>The loop over the contracts: each one with an interval adds all records once more and overwrites
  the entry of the block.\<close>

definition withdrawing :: "photo_state \<Rightarrow> ContractMetadata list" where
  "withdrawing s = filter (\<lambda>meta. cm_RewardsWithdrawalInterval meta > 0) (metadatas s)"

definition entry_text ::
  "RewardsRecord list \<Rightarrow> (string, int) kvstore \<times> (string, int) kvstore \<Rightarrow> ContractMetadata \<Rightarrow> int \<Rightarrow> string" where
  "entry_text records maps meta amount =
     cm_RewardsAddress meta @ '','' @ Itoa (int64_wrap (amount - map_val (fst maps) (cm_RewardsAddress meta))) @ '','' @
     Itoa (int64_wrap (int (length records) - map_val (snd maps) (cm_RewardsAddress meta))) @ '','' @
     RFC3339 (if records = [] then no_time else rr_CalculatedTime (last records)) @ '','' @
     Itoa (if records = [] then 0 else rr_CalculatedHeight (last records))"

lemma book_rewards_eq:
  "book_rewards env records maps meta totalRewards =
     (if cm_RewardsWithdrawalInterval meta > 0
      then go_bind (go_lift (res_acc (\<lambda>record total. Coins_Add45 total (rr_Rewards record)) records totalRewards)) (\<lambda>c.
        if \<not> Coins_IsZero c
        then go_bind (go_lift (rbind (AmountOf c ''uarch'') Int_Int64)) (\<lambda>amount.
          go_bind (go_modify (AddRewardsDistributionToDapps env (entry_text records maps meta amount))) (\<lambda>_.
          go_bind (go_modify (AddRewardsWithdrawalToDapps env (entry_text records maps meta amount))) (\<lambda>_. go_ret c)))
        else go_ret c)
      else go_ret totalRewards)"
  unfolding book_rewards_def entry_text_def Let_def ..

lemma book_rewards_step:
  assumes v: "\<And>r. r \<in> set records \<Longrightarrow> Coins_IsValid (rr_Rewards r)" "Coins_IsValid paid"
    and run: "book_rewards env records maps meta paid s = (Ok paid', t)"
  shows "Coins_IsValid paid'"
    "amt paid' d = amt paid d + (if cm_RewardsWithdrawalInterval meta > 0 then \<Sum>r\<leftarrow>records. amt (rr_Rewards r) d else 0)"
    "ph_distributions t = (if cm_RewardsWithdrawalInterval meta > 0 \<and> paid' \<noteq> []
       then kv_set (Itoa (ae_blockHeight env)) (entry_text records maps meta (amt paid' ''uarch'')) (ph_distributions s)
       else ph_distributions s)"
    "cm_RewardsWithdrawalInterval meta > 0 \<Longrightarrow> is_int64 (amt paid' ''uarch'')"
proof -
  have add: "res_acc (\<lambda>record total. Coins_Add45 total (rr_Rewards record)) rs c = Ok c' \<Longrightarrow> Coins_IsValid c \<Longrightarrow>
      set rs \<subseteq> set records \<Longrightarrow> Coins_IsValid c' \<and> (\<forall>d. amt c' d = amt c d + (\<Sum>r\<leftarrow>rs. amt (rr_Rewards r) d))" for rs c c'
  proof (induction rs arbitrary: c)
    case (Cons r rs)
    then obtain b where b: "Coins_Add45 c (rr_Rewards r) = Ok b"
      and rest: "res_acc (\<lambda>record total. Coins_Add45 total (rr_Rewards record)) rs b = Ok c'" by (auto simp: go_simps)
    have "Coins_IsValid (rr_Rewards r)" using Cons.prems(3) v(1) by simp
    note s = Coins_Add45_valid [OF b Cons.prems(2) this]
    show ?case using Cons.IH [OF rest s(1)] Cons.prems(3) s(2) by simp
  qed simp
  have "Coins_IsValid paid' \<and>
      amt paid' d = amt paid d + (if cm_RewardsWithdrawalInterval meta > 0 then \<Sum>r\<leftarrow>records. amt (rr_Rewards r) d else 0) \<and>
      ph_distributions t = (if cm_RewardsWithdrawalInterval meta > 0 \<and> paid' \<noteq> []
         then kv_set (Itoa (ae_blockHeight env)) (entry_text records maps meta (amt paid' ''uarch'')) (ph_distributions s)
         else ph_distributions s) \<and>
      (cm_RewardsWithdrawalInterval meta > 0 \<longrightarrow> is_int64 (amt paid' ''uarch''))"
  proof (cases "cm_RewardsWithdrawalInterval meta > 0")
    case False
    with run have "paid' = paid" "t = s" by (simp_all add: book_rewards_eq go_ret_def)
    with False v(2) show ?thesis by simp
  next
    case True
    obtain c u where c: "res_acc (\<lambda>record total. Coins_Add45 total (rr_Rewards record)) records paid = Ok c"
      and u: "(if \<not> Coins_IsZero c
        then go_bind (go_lift (rbind (AmountOf c ''uarch'') Int_Int64)) (\<lambda>amount.
          go_bind (go_modify (AddRewardsDistributionToDapps env (entry_text records maps meta amount))) (\<lambda>_.
          go_bind (go_modify (AddRewardsWithdrawalToDapps env (entry_text records maps meta amount))) (\<lambda>_. go_ret c)))
        else go_ret c) s = (Ok paid', t)"
      using run True by (auto simp: book_rewards_eq go_bind_eq_Ok go_lift_def)
    note a = add [OF c v(2) subset_refl]
    have "paid' = c" using u by (cases "c = []") (auto simp: go_simps Coins_IsZero_def split: if_splits)
    show ?thesis
    proof (cases "c = []")
      case empty: True
      then have "t = s" using u by (simp add: go_ret_def)
      with a empty True show ?thesis by (simp add: \<open>paid' = c\<close> is_int64_def)
    next
      case False
      have "\<not> Coins_IsZero c" using a False IsValid_pos [of c "hd c"] by (cases c) (auto simp: Coins_IsZero_def)
      then obtain n where n: "AmountOf c ''uarch'' = Ok n" "is_int64 n"
        and t: "t = AddRewardsWithdrawalToDapps env (entry_text records maps meta n)
          (AddRewardsDistributionToDapps env (entry_text records maps meta n) s)"
        using u by (auto simp: go_simps)
      have "n = amt c ''uarch''" using n(1) a by (simp add: AmountOf_amt IsValid_sorted split: if_splits)
      with n(2) a False True t show ?thesis
        by (simp add: \<open>paid' = c\<close> AddRewardsDistributionToDapps_def AddRewardsWithdrawalToDapps_def)
    qed
  qed
  then show "Coins_IsValid paid'"
    "amt paid' d = amt paid d + (if cm_RewardsWithdrawalInterval meta > 0 then \<Sum>r\<leftarrow>records. amt (rr_Rewards r) d else 0)"
    "ph_distributions t = (if cm_RewardsWithdrawalInterval meta > 0 \<and> paid' \<noteq> []
       then kv_set (Itoa (ae_blockHeight env)) (entry_text records maps meta (amt paid' ''uarch'')) (ph_distributions s)
       else ph_distributions s)"
    "cm_RewardsWithdrawalInterval meta > 0 \<Longrightarrow> is_int64 (amt paid' ''uarch'')" by blast+
qed
lemma kv_set_again: "kv_set k v (kv_set k w m) = kv_set k v m"
  by (induction m) auto

lemma valid_zero: "Coins_IsValid c \<Longrightarrow> (\<And>d. amt c d \<le> 0) \<Longrightarrow> c = []"
proof (rule ccontr)
  assume v: "Coins_IsValid c" and z: "\<And>d. amt c d \<le> 0" and "c \<noteq> []"
  then obtain x xs where c: "c = x # xs" by (cases c) auto
  have "amt c (fst x) = snd x"
    using v c by (intro amt_distinct strictly_sorted_distinct IsValid_sorted) simp_all
  with z [of "fst x"] IsValid_pos [OF v, of x] c show False by simp
qed

lemma book_rewards_loop:
  fixes metas :: "ContractMetadata list"
  assumes v: "\<And>r. r \<in> set records \<Longrightarrow> Coins_IsValid (rr_Rewards r)" "Coins_IsValid paid"
    and run: "for_acc (book_rewards env records maps) metas paid s = (Ok paid', t)"
  defines "ws \<equiv> filter (\<lambda>meta. cm_RewardsWithdrawalInterval meta > 0) metas"
    and "owed \<equiv> \<lambda>d. \<Sum>r\<leftarrow>records. amt (rr_Rewards r) d"
  shows "Coins_IsValid paid'" "amt paid' d = amt paid d + int (length ws) * owed d" "ws = [] \<Longrightarrow> paid' = paid"
    "ph_distributions t = (if ws \<noteq> [] \<and> paid' \<noteq> []
       then kv_set (Itoa (ae_blockHeight env)) (entry_text records maps (last ws) (amt paid' ''uarch'')) (ph_distributions s)
       else ph_distributions s)"
    "ws \<noteq> [] \<Longrightarrow> is_int64 (amt paid' ''uarch'')"
proof -
  have owed0: "0 \<le> owed d" for d
    unfolding owed_def using v(1) by (intro sum_list_nonneg) (auto intro: IsValid_amt_nonneg)
  have "Coins_IsValid paid' \<and> (\<forall>d. amt paid' d = amt paid d + int (length ws) * owed d) \<and> (ws = [] \<longrightarrow> paid' = paid) \<and>
    ph_distributions t = (if ws \<noteq> [] \<and> paid' \<noteq> []
       then kv_set (Itoa (ae_blockHeight env)) (entry_text records maps (last ws) (amt paid' ''uarch'')) (ph_distributions s)
       else ph_distributions s) \<and> (ws \<noteq> [] \<longrightarrow> is_int64 (amt paid' ''uarch''))"
    using v(2) run unfolding ws_def
  proof (induction metas arbitrary: paid s)
    case (Cons meta metas)
    let ?ws = "filter (\<lambda>meta. cm_RewardsWithdrawalInterval meta > 0) metas"
    obtain paid1 s1 where step: "book_rewards env records maps meta paid s = (Ok paid1, s1)"
      and rest: "for_acc (book_rewards env records maps) metas paid1 s1 = (Ok paid', t)"
      using Cons.prems(2) by (auto split: prod.splits res.splits)
    note st = book_rewards_step [OF v(1) Cons.prems(1) step]
    note IH = Cons.IH [OF st(1) rest]
    show ?case
    proof (cases "cm_RewardsWithdrawalInterval meta > 0")
      case False
      then have same: "paid1 = paid" "s1 = s" using step by (simp_all add: book_rewards_eq go_ret_def)
      have f: "filter (\<lambda>meta. cm_RewardsWithdrawalInterval meta > 0) (meta # metas) = ?ws" using False by simp
      show ?thesis using IH unfolding f same .
    next
      case True
      have amt: "amt paid' d = amt paid d + int (length (meta # ?ws)) * owed d" for d
        using IH st(2) [of d] True by (simp add: algebra_simps owed_def)
      show ?thesis
      proof (cases "?ws = []")
        case empty: True
        with IH st True amt show ?thesis by simp
      next
        case ne: False
        have "paid1 = []" if "paid' = []"
        proof (rule valid_zero [OF st(1)])
          fix d
          have "amt paid' d = amt paid1 d + int (length ?ws) * owed d" using IH by blast
          moreover have "0 \<le> int (length ?ws) * owed d" using owed0 [of d] by simp
          ultimately show "amt paid1 d \<le> 0" using that by simp
        qed
        with IH st(3) True ne amt show ?thesis by (auto simp: kv_set_again)
      qed
    qed
  qed simp
  then show "Coins_IsValid paid'" "amt paid' d = amt paid d + int (length ws) * owed d" "ws = [] \<Longrightarrow> paid' = paid"
    "ph_distributions t = (if ws \<noteq> [] \<and> paid' \<noteq> []
       then kv_set (Itoa (ae_blockHeight env)) (entry_text records maps (last ws) (amt paid' ''uarch'')) (ph_distributions s)
       else ph_distributions s)"
    "ws \<noteq> [] \<Longrightarrow> is_int64 (amt paid' ''uarch'')" by blast+
qed

lemma int64_wrap_replace: "int64_wrap (int64_wrap (n - int64_wrap x) + x) = int64_wrap n"
proof -
  have "int64_wrap (int64_wrap (n - int64_wrap x) + x) = int64_wrap (n - int64_wrap x + x)" by (rule int64_wrap_add)
  also have "\<dots> = int64_wrap n" unfolding int64_wrap_def by (simp add: mod_simps algebra_simps)
  finally show ?thesis .
qed

text \<open>Property C36. Booking the rewards credits one address per block: the last contract with a withdrawal
  interval is booked the outstanding rewards of all contracts, once for every contract that has an
  interval, whatever was booked for it before; every other address keeps what it had.\<close>

theorem rewards_are_booked_to_the_last:
  assumes valid: "\<And>r. r \<in> set (kv_values (rw_records (ph_rewards s))) \<Longrightarrow> Coins_IsValid (rr_Rewards r)"
    and owed: "(\<Sum>r\<leftarrow>kv_values (rw_records (ph_rewards s)). amt (rr_Rewards r) ''uarch'') = n" "0 < n"
    and some: "withdrawing s \<noteq> []" and comma: "CHR '','' \<notin> set (cm_RewardsAddress (last (withdrawing s)))"
    and fresh: "kv_get (ph_distributions s) (Itoa (ae_blockHeight env)) = None"
    and run: "handleRewardsWithdrawal env s = (Ok (), t)"
  shows "map_val (GetCumulativeRewardAmount t) a =
    (if a = cm_RewardsAddress (last (withdrawing s)) then int (length (withdrawing s)) * n
     else map_val (GetCumulativeRewardAmount s) a)"
proof -
  let ?ws = "withdrawing s" and ?recs = "kv_values (rw_records (ph_rewards s))" and ?maps = "GetTotalRewardRecords s"
  let ?addr = "cm_RewardsAddress (last ?ws)" and ?sum = "\<lambda>a. sum_list (map (\<lambda>data. booked data a) (kv_values (ph_distributions s)))"
  obtain paid where loop: "for_acc (book_rewards env ?recs ?maps) (metadatas s) [] s = (Ok paid, t)"
    using run by (auto simp: handleRewardsWithdrawal_def go_simps)
  note l = book_rewards_loop [OF valid IsValid_Nil loop, folded withdrawing_def]
  have paid: "amt paid ''uarch'' = int (length ?ws) * n" using l(2) [of "''uarch''"] owed(1) by simp
  then have "paid \<noteq> []" using owed(2) some by auto
  define x where "x = int64_wrap (amt paid ''uarch'' - map_val (fst ?maps) ?addr)"
  obtain rest where entry: "ph_distributions t = kv_set (Itoa (ae_blockHeight env)) (?addr @ '','' @ Itoa x @ '','' @ rest) (ph_distributions s)"
    using l(4) some \<open>paid \<noteq> []\<close> by (auto simp: entry_text_def x_def)
  have "booked (?addr @ '','' @ Itoa x @ '','' @ rest) a = (if ?addr = a then x else 0)"
    by (rule booked_entry) (simp_all add: x_def comma)
  then have val: "map_val (GetCumulativeRewardAmount t) a = int64_wrap ((if ?addr = a then x else 0) + ?sum a)"
    by (simp add: cumulative_val entry sum_kv_set_new [OF fresh])
  show ?thesis
  proof (cases "a = ?addr")
    case True
    have "x = int64_wrap (amt paid ''uarch'' - int64_wrap (?sum a))"
      by (simp add: x_def GetTotalRewardRecords_amounts cumulative_val True)
    then have "map_val (GetCumulativeRewardAmount t) a = int64_wrap (amt paid ''uarch'')"
      using val True by (simp add: int64_wrap_replace)
    with l(5) [OF _ some] paid True show ?thesis by simp
  next
    case False
    with val show ?thesis by (simp add: cumulative_val)
  qed
qed
section \<open>Deposits\<close>

text \<open>The rewards that are due for a contract, and the deposits a run files for an address.\<close>

definition due_amount :: "photo_state \<Rightarrow> ContractMetadata \<Rightarrow> int option" where
  "due_amount s meta =
     (if cm_MinimumRewardAmount meta > 0 \<and> cm_RewardsAddress meta \<noteq> ''''
      then case kv_get (GetCumulativeRewardAmount s) (cm_RewardsAddress meta) of
          None \<Rightarrow> None
        | Some amount \<Rightarrow> if (word_of_int amount :: uint64) \<ge> cm_MinimumRewardAmount meta then Some amount else None
      else None)"

definition normalized :: "arch_env \<Rightarrow> string \<Rightarrow> string" where
  "normalized env a = (case arch_AccAddressFromBech32 env a of Ok b \<Rightarrow> AccAddress_String env b | _ \<Rightarrow> a)"

definition filed :: "arch_env \<Rightarrow> photo_state \<Rightarrow> ContractMetadata list \<Rightarrow> string \<Rightarrow> liquid_deposit list" where
  "filed env s metas a =
     concat (map (\<lambda>meta. case due_amount s meta of
         None \<Rightarrow> []
       | Some amount \<Rightarrow>
           if cm_RewardsAddress meta = a
           then [\<lparr>ld_ContractAddress = normalized env a, ld_Amount = amount, ld_Status = ''pending''\<rparr>]
           else []) metas)"

lemma Get_deposits_set [simp]:
  "GetContractLiquidStakeDeposits (s\<lparr>ph_deposits := kv_set a d m\<rparr>) b =
     (if b = a then d else GetContractLiquidStakeDeposits (s\<lparr>ph_deposits := m\<rparr>) b)"
  by (simp add: GetContractLiquidStakeDeposits_def)

lemma Get_deposits_same [simp]:
  "GetContractLiquidStakeDeposits (s\<lparr>ph_deposits := ph_deposits s\<rparr>) b = GetContractLiquidStakeDeposits s b"
  "GetContractLiquidStakeDeposits (s\<lparr>ph_total := n\<rparr>) b = GetContractLiquidStakeDeposits s b"
  by (simp_all add: GetContractLiquidStakeDeposits_def)

lemma deposit_rewards_step:
  assumes "deposit_rewards env (GetCumulativeRewardAmount s0) meta s = (Ok (), t)"
  shows "\<exists>d. t = s\<lparr>ph_deposits := d\<rparr>"
    "GetContractLiquidStakeDeposits t a = GetContractLiquidStakeDeposits s a @ filed env s0 [meta] a"
proof -
  have "(\<exists>d. t = s\<lparr>ph_deposits := d\<rparr>) \<and>
    GetContractLiquidStakeDeposits t a = GetContractLiquidStakeDeposits s a @ filed env s0 [meta] a"
  proof (cases "due_amount s0 meta")
    case None
    then have "t = s"
      using assms by (auto simp: deposit_rewards_def due_amount_def go_ret_def split: if_splits option.splits)
    with None show ?thesis by (auto simp: filed_def intro!: exI [of _ "ph_deposits s"])
  next
    case (Some amount)
    then obtain b where b: "meta_MustGetRewardsAddress env meta = Ok b" and ne: "cm_RewardsAddress meta \<noteq> ''''"
      and t: "SetContractLiquidStakeDeposits (cm_RewardsAddress meta) [CreateContractLiquidStakeDepositRecord env amount b] s = (Ok (), t)"
      using assms by (auto simp: deposit_rewards_def due_amount_def go_simps split: if_splits option.splits)
    have "arch_AccAddressFromBech32 env (cm_RewardsAddress meta) = Ok b"
      using b by (auto simp: meta_MustGetRewardsAddress_def res_must_def split: res.splits)
    with t ne Some show ?thesis
      by (auto simp: Set_deposits_eq filed_def normalized_def CreateContractLiquidStakeDepositRecord_def)
  qed
  then show "\<exists>d. t = s\<lparr>ph_deposits := d\<rparr>"
    "GetContractLiquidStakeDeposits t a = GetContractLiquidStakeDeposits s a @ filed env s0 [meta] a" by blast+
qed

lemma deposit_rewards_loop:
  "for_each (deposit_rewards env (GetCumulativeRewardAmount s0)) metas s = (Ok (), t) \<Longrightarrow>
   (\<exists>d. t = s\<lparr>ph_deposits := d\<rparr>) \<and>
   (\<forall>a. GetContractLiquidStakeDeposits t a = GetContractLiquidStakeDeposits s a @ filed env s0 metas a)"
proof (induction metas arbitrary: s)
  case (Cons meta metas)
  obtain u where u: "deposit_rewards env (GetCumulativeRewardAmount s0) meta s = (Ok (), u)"
    and rest: "for_each (deposit_rewards env (GetCumulativeRewardAmount s0)) metas u = (Ok (), t)"
    using Cons.prems by (auto split: prod.splits res.splits)
  note st = deposit_rewards_step [OF u]
  from Cons.IH [OF rest] st show ?case by (auto simp: filed_def)
next
  case Nil
  then show ?case by (auto simp: filed_def intro!: exI [of _ "ph_deposits s"])
qed

lemma filed_cong:
  "GetCumulativeRewardAmount t = GetCumulativeRewardAmount s \<Longrightarrow> filed env t metas a = filed env s metas a"
proof -
  assume "GetCumulativeRewardAmount t = GetCumulativeRewardAmount s"
  then have "due_amount t = due_amount s" by (simp add: due_amount_def fun_eq_iff)
  then show ?thesis by (simp add: filed_def)
qed

lemma dapp_rewards_run:
  assumes "handleLiquidStakingDAppRewards env s = (Ok (), t)"
  shows "GetContractLiquidStakeDeposits t a = GetContractLiquidStakeDeposits s a @ filed env s (metadatas s) a"
    "GetCumulativeRewardAmount t = GetCumulativeRewardAmount s" "metadatas t = metadatas s"
proof -
  have loop: "for_each (deposit_rewards env (GetCumulativeRewardAmount s)) (metadatas s) s = (Ok (), t)"
    using assms by (auto simp: handleLiquidStakingDAppRewards_def go_simps)
  then obtain d where "t = s\<lparr>ph_deposits := d\<rparr>" using deposit_rewards_loop [OF loop] by blast
  then show "GetCumulativeRewardAmount t = GetCumulativeRewardAmount s" "metadatas t = metadatas s"
    by (simp_all add: GetCumulativeRewardAmount_def metadatas_def)
  show "GetContractLiquidStakeDeposits t a = GetContractLiquidStakeDeposits s a @ filed env s (metadatas s) a"
    using deposit_rewards_loop [OF loop] by blast
qed

text \<open>Property C37. A run of the rewards task files, for every contract whose booked rewards reach its minimum,
  one pending deposit of everything ever booked for its address, and nothing else. Since filing does
  not use the booked rewards up, the next run files the same deposits again.\<close>

theorem rewards_are_filed_again:
  assumes first: "handleLiquidStakingDAppRewards env s = (Ok (), t)" and second: "handleLiquidStakingDAppRewards env t = (Ok (), u)"
  shows "GetContractLiquidStakeDeposits t a = GetContractLiquidStakeDeposits s a @ filed env s (metadatas s) a \<and>
    GetContractLiquidStakeDeposits u a = GetContractLiquidStakeDeposits s a @ filed env s (metadatas s) a @ filed env s (metadatas s) a"
proof -
  note r1 = dapp_rewards_run [OF first] and r2 = dapp_rewards_run [OF second]
  show ?thesis by (simp add: r2(1) r1 filed_cong [OF r1(2)])
qed

text \<open>What is pending for an address. Adding the deposits up depends on nothing else, and does not
  change it.\<close>

definition pending :: "photo_state \<Rightarrow> string \<Rightarrow> liquid_deposit list" where
  "pending s a = filter is_pending (GetContractLiquidStakeDeposits s a)"

definition contract_total :: "(string \<Rightarrow> liquid_deposit list) \<Rightarrow> ContractMetadata \<Rightarrow> int \<Rightarrow> int res" where
  "contract_total p meta n =
     rbind (res_acc (\<lambda>record stake. Int_Add stake (ld_Amount record)) (p (cm_RewardsAddress meta)) 0) (\<lambda>c.
     if p (cm_RewardsAddress meta) \<noteq> [] \<and> cm_RewardsAddress meta = '''' then Panic else Int_Add n c)"

lemma sum_pending:
  "res_acc (\<lambda>record stake. if is_pending record then Int_Add stake (ld_Amount record) else Ok stake) ds n =
   res_acc (\<lambda>record stake. Int_Add stake (ld_Amount record)) (filter is_pending ds) n"
proof (induction ds arbitrary: n)
  case (Cons d ds)
  then show ?case by (cases "Int_Add n (ld_Amount d)") auto
qed simp

lemma not_pending_complete [simp]: "filter is_pending (map complete_deposit ds) = []"
  by (simp add: filter_empty_conv is_pending_def complete_deposit_def)

lemma total_step:
  "fst (total_of_contract meta n s) = contract_total (pending s) meta n"
  "pending (snd (total_of_contract meta n s)) = pending s"
  "ph_rewards (snd (total_of_contract meta n s)) = ph_rewards s"
  by (auto simp: total_of_contract_def contract_total_def go_defs sum_pending pending_def [abs_def] Set_deposits_eq Let_def
      fun_eq_iff split: res.splits prod.splits)

lemma pending_total_loop:
  "fst (for_acc total_of_contract metas n s) = res_acc (contract_total (pending s)) metas n \<and>
   pending (snd (for_acc total_of_contract metas n s)) = pending s \<and>
   ph_rewards (snd (for_acc total_of_contract metas n s)) = ph_rewards s"
proof (induction metas arbitrary: n s)
  case (Cons meta metas)
  obtain r u where u: "total_of_contract meta n s = (r, u)" by (cases "total_of_contract meta n s")
  with total_step [of meta n s] have "contract_total (pending s) meta n = r" "pending u = pending s"
    "ph_rewards u = ph_rewards s" by simp_all
  with u Cons.IH [of _ u] show ?case by (cases r) auto
qed simp

lemma GetTotal_run:
  "fst (GetTotalLiquidStake s) = res_acc (contract_total (pending s)) (metadatas s) 0"
  "pending (snd (GetTotalLiquidStake s)) = pending s"
  "metadatas (snd (GetTotalLiquidStake s)) = metadatas s"
  using pending_total_loop [of "metadatas s" 0 s]
  by (auto simp: GetTotalLiquidStake_def go_defs SetTotalLiquidStakeData_def pending_def [abs_def] metadatas_def
      split: res.splits prod.splits)

definition due_total :: "(string \<Rightarrow> liquid_deposit list) \<Rightarrow> ContractMetadata list \<Rightarrow> int" where
  "due_total p metas = (\<Sum>meta\<leftarrow>metas. \<Sum>d\<leftarrow>p (cm_RewardsAddress meta). ld_Amount d)"

lemma amounts_Ok: "res_acc (\<lambda>record stake. Int_Add stake (ld_Amount record)) ds n = Ok m \<Longrightarrow> m = n + (\<Sum>d\<leftarrow>ds. ld_Amount d)"
  by (induction ds arbitrary: n) (fastforce simp: go_simps)+

lemma total_Ok: "res_acc (contract_total p) metas n = Ok m \<Longrightarrow> m = n + due_total p metas"
proof (induction metas arbitrary: n)
  case (Cons meta metas)
  obtain k where "contract_total p meta n = Ok k" "res_acc (contract_total p) metas k = Ok m"
    using Cons.prems by (auto simp: go_simps)
  moreover from this(1) amounts_Ok have "k = n + (\<Sum>d\<leftarrow>p (cm_RewardsAddress meta). ld_Amount d)"
    by (fastforce simp: contract_total_def go_simps split: if_splits)
  ultimately show ?case using Cons.IH [of k] by (simp add: due_total_def)
qed (simp add: due_total_def)

text \<open>Property C38. The stake of a run is the sum of what is pending for the rewards addresses of the contracts,
  an address counted once for every contract that names it. The run marks nothing as done: the same
  deposits stay pending, and the next run counts them all again.\<close>

theorem deposits_are_counted_again:
  assumes run: "GetTotalLiquidStake s = (Ok n, t)"
  shows "n = due_total (pending s) (metadatas s) \<and> pending t = pending s \<and> fst (GetTotalLiquidStake t) = Ok n"
proof -
  have r: "res_acc (contract_total (pending s)) (metadatas s) 0 = Ok n" "pending t = pending s" "metadatas t = metadatas s"
    using GetTotal_run [of s] run by simp_all
  from total_Ok [OF r(1)] show ?thesis by (simp add: GetTotal_run r)
qed

lemma reset_run:
  "ResetCompletedDepositRecords a s = (Ok (), t) \<Longrightarrow>
   (\<exists>d. t = s\<lparr>ph_deposits := d\<rparr>) \<and>
   (\<forall>b. GetContractLiquidStakeDeposits t b = GetContractLiquidStakeDeposits s b @
      (if b = a then filter (\<lambda>record. ld_Status record \<noteq> ''completed'') (GetContractLiquidStakeDeposits s b) else []))"
  by (auto simp: ResetCompletedDepositRecords_def go_defs Set_deposits_eq split: if_splits)

lemma reset_loop:
  "for_each (\<lambda>meta. ResetCompletedDepositRecords (cm_RewardsAddress meta)) metas s = (Ok (), t) \<Longrightarrow>
   distinct (map cm_RewardsAddress metas) \<Longrightarrow>
   (\<exists>d. t = s\<lparr>ph_deposits := d\<rparr>) \<and>
   (\<forall>b. GetContractLiquidStakeDeposits t b = GetContractLiquidStakeDeposits s b @
      (if b \<in> cm_RewardsAddress ` set metas
       then filter (\<lambda>record. ld_Status record \<noteq> ''completed'') (GetContractLiquidStakeDeposits s b) else []))"
proof (induction metas arbitrary: s)
  case (Cons meta metas)
  obtain u where u: "ResetCompletedDepositRecords (cm_RewardsAddress meta) s = (Ok (), u)"
    and rest: "for_each (\<lambda>meta. ResetCompletedDepositRecords (cm_RewardsAddress meta)) metas u = (Ok (), t)"
    using Cons.prems(1) by (auto split: prod.splits res.splits)
  from Cons.IH [OF rest] reset_run [OF u] Cons.prems(2) show ?case by auto
next
  case Nil
  then show ?case by (auto intro!: exI [of _ "ph_deposits s"])
qed

lemma pending_not_completed:
  "filter is_pending (filter (\<lambda>record. ld_Status record \<noteq> ''completed'') ds) = filter is_pending ds"
  by (induction ds) (auto simp: is_pending_def)

lemma due_total_twice: "due_total (\<lambda>a. p a @ p a) metas = 2 * due_total p metas"
  by (induction metas) (simp_all add: due_total_def)

lemma due_total_cong:
  "(\<And>meta. meta \<in> set metas \<Longrightarrow> p (cm_RewardsAddress meta) = q (cm_RewardsAddress meta)) \<Longrightarrow> due_total p metas = due_total q metas"
  unfolding due_total_def by (intro arg_cong [of _ _ sum_list] map_cong) auto

text \<open>Resetting the completed records removes none of them. It appends the records that are not
  completed to themselves: every pending deposit is there twice, and the next total is twice what it
  would have been.\<close>

theorem reset_doubles_pending:
  assumes reset: "ResetAllCompletedDepositRecords s = (Ok (), t)" and dist: "distinct (map cm_RewardsAddress (metadatas s))"
    and before: "GetTotalLiquidStake s = (Ok n, s')" and after: "GetTotalLiquidStake t = (Ok m, t')"
  shows "(\<forall>meta\<in>set (metadatas s). GetContractLiquidStakeDeposits t (cm_RewardsAddress meta) =
      GetContractLiquidStakeDeposits s (cm_RewardsAddress meta) @
      filter (\<lambda>record. ld_Status record \<noteq> ''completed'') (GetContractLiquidStakeDeposits s (cm_RewardsAddress meta))) \<and>
    m = 2 * n"
proof -
  have loop: "for_each (\<lambda>meta. ResetCompletedDepositRecords (cm_RewardsAddress meta)) (metadatas s) s = (Ok (), t)"
    using reset by (simp add: ResetAllCompletedDepositRecords_def go_defs)
  note l = reset_loop [OF loop dist]
  have metas: "metadatas t = metadatas s" using l by (auto simp: metadatas_def)
  have "res_acc (contract_total (pending t)) (metadatas s) 0 = Ok m" using GetTotal_run(1) [of t] after metas by simp
  then have "m = due_total (pending t) (metadatas s)" using total_Ok by fastforce
  also have "\<dots> = due_total (\<lambda>a. pending s a @ pending s a) (metadatas s)"
    using l by (intro due_total_cong) (simp add: pending_def pending_not_completed del: filter_filter)
  also have "\<dots> = 2 * due_total (pending s) (metadatas s)" by (rule due_total_twice)
  also have "res_acc (contract_total (pending s)) (metadatas s) 0 = Ok n" using GetTotal_run(1) [of s] before by simp
  then have "due_total (pending s) (metadatas s) = n" using total_Ok by fastforce
  finally have "m = 2 * n" .
  with l show ?thesis by simp
qed

section \<open>Contracts without a rewards address\<close>

text \<open>Operations that succeed or panic, and never return an error.\<close>

definition no_Err :: "('s, 'a) go \<Rightarrow> bool" where
  "no_Err m \<longleftrightarrow> (\<forall>s e. fst (m s) \<noteq> Err e)"

lemma no_Err_basic: "no_Err (go_ret x)" "no_Err (go_gets f)" "no_Err (go_modify h)" "(\<And>e. r \<noteq> Err e) \<Longrightarrow> no_Err (go_lift r)"
  by (simp_all add: no_Err_def go_defs split: res.splits)

lemma no_Err_bind: "no_Err m \<Longrightarrow> (\<And>x. no_Err (f x)) \<Longrightarrow> no_Err (go_bind m f)"
  by (auto simp: no_Err_def go_bind_def split: prod.splits res.splits) (metis fst_conv)+

lemma no_Err_for_each: "(\<And>x. no_Err (f x)) \<Longrightarrow> no_Err (for_each f xs)"
proof -
  assume f: "\<And>x. no_Err (f x)"
  have "fst (for_each f xs s) \<noteq> Err e" for s e
  proof (induction xs arbitrary: s)
    case (Cons x xs)
    from f [of x] have "fst (f x s) \<noteq> Err e" by (simp add: no_Err_def)
    with Cons.IH show ?case by (auto split: prod.splits res.splits)
  qed simp
  then show ?thesis by (simp add: no_Err_def)
qed

lemma no_Err_if: "(b \<Longrightarrow> no_Err m) \<Longrightarrow> (\<not> b \<Longrightarrow> no_Err n) \<Longrightarrow> no_Err (if b then m else n)"
  by simp

lemma no_Err_option: "no_Err m \<Longrightarrow> (\<And>x. no_Err (f x)) \<Longrightarrow> no_Err (case v of None \<Rightarrow> m | Some x \<Rightarrow> f x)"
  by (cases v) simp_all

lemma res_acc_Panic:
  assumes "\<And>x a e. f x a \<noteq> Err e" "x \<in> set xs" "\<And>a. f x a = Panic"
  shows "res_acc f xs a = Panic"
  using assms(2)
proof (induction xs arbitrary: a)
  case (Cons y ys)
  show ?case
  proof (cases "f y a")
    case (Ok b)
    with assms(3) [of a] Cons.prems have "x \<in> set ys" by auto
    with Cons.IH Ok show ?thesis by simp
  qed (use assms(1) in auto)
qed simp

lemma must_no_Err: "res_must r \<noteq> Err e"
  by (cases r) (simp_all add: res_must_def)

lemma no_Err_deposits: "no_Err (SetContractLiquidStakeDeposits a new)"
  by (simp add: no_Err_def Set_deposits_eq)

lemma no_Err_dapp_rewards: "no_Err (handleLiquidStakingDAppRewards env)"
  unfolding handleLiquidStakingDAppRewards_def deposit_rewards_def meta_MustGetRewardsAddress_def
  by (intro no_Err_bind no_Err_basic no_Err_for_each no_Err_if no_Err_option no_Err_deposits must_no_Err)

lemma add_stake_no_Err: "add_stake env s meta acc \<noteq> Err e"
  by (auto simp: add_stake_def rbind_eq_Err meta_MustGetRewardsAddress_def must_no_Err GetContractStake_def
      GetContractStakeData_def Int_no_Err split: option.splits if_splits)

lemma total_no_Err: "fst (GetTotalLiquidStake s) \<noteq> Err e"
proof -
  have "res_acc (\<lambda>record stake. Int_Add stake (ld_Amount record)) ds n \<noteq> Err e" for ds n e
    by (rule res_acc_no_Err) (simp add: Int_no_Err)
  then have "contract_total p meta n \<noteq> Err e" for p meta n e
    by (auto simp: contract_total_def rbind_eq_Err Int_no_Err split: if_splits)
  then show ?thesis by (simp add: GetTotal_run res_acc_no_Err)
qed

text \<open>The stake task, once a contract has no valid rewards address.\<close>

lemma stake_task_panics:
  assumes "meta \<in> set (metadatas s)" "\<not> res_ok (arch_AccAddressFromBech32 env (cm_RewardsAddress meta))"
  shows "fst (handleArchLiquidStakeInterval env s) = Panic"
proof (cases "GetTotalLiquidStake s")
  case (Pair r t)
  show ?thesis
  proof (cases r)
    case (Ok n)
    have "meta \<in> set (metadatas t)" using GetTotal_run(3) [of s] Pair assms(1) by simp
    moreover have "add_stake env t meta acc = Panic" for acc
      using assms(2) by (auto simp: add_stake_def meta_MustGetRewardsAddress_def res_must_def split: res.splits)
    ultimately have "res_acc (add_stake env t) (metadatas t) acc = Panic" for acc
      by (intro res_acc_Panic [where x = meta] add_stake_no_Err)
    with Pair Ok show ?thesis
      by (auto simp: handleArchLiquidStakeInterval_def DistributeLiquidity_def go_defs Int_Int64_def)
  qed (use Pair total_no_Err [of s] in \<open>auto simp: handleArchLiquidStakeInterval_def go_defs\<close>)
qed

definition same_duties :: "photo_state \<Rightarrow> photo_state \<Rightarrow> bool" where
  "same_duties s t \<longleftrightarrow> metadatas t = metadatas s \<and> ph_params t = ph_params s \<and>
     kv_get (ph_times t) LastArchLiquidStakeIntervalTimeKey = kv_get (ph_times s) LastArchLiquidStakeIntervalTimeKey"

lemma dapp_task_run:
  assumes first: "HandleLiquidStakingDAppRewardsTask env s = (r, u)"
  shows "r = Panic \<or> (r = Ok () \<and> same_duties s u)"
proof (cases "handleLiquidStakingDAppRewards env s")
  case (Pair q v)
  have key: "LastArchLiquidStakeIntervalTimeKey \<noteq> LastLiquidStakingDAppRewardsTimeKey" by code_simp
  show ?thesis
  proof (cases q)
    case (Ok x)
    then have run: "handleLiquidStakingDAppRewards env s = (Ok (), v)" using Pair by simp
    then obtain d where "v = s\<lparr>ph_deposits := d\<rparr>"
      using deposit_rewards_loop by (fastforce simp: handleLiquidStakingDAppRewards_def go_simps)
    with run first key show ?thesis
      by (auto simp: HandleLiquidStakingDAppRewardsTask_def run_task_def go_defs SetLastProcessingTime_def metadatas_def
          same_duties_def split: if_splits)
  next
    case (Err e)
    with Pair no_Err_dapp_rewards [of env] show ?thesis unfolding no_Err_def by (metis fst_conv)
  next
    case Panic
    with Pair first show ?thesis
      by (auto simp: HandleLiquidStakingDAppRewardsTask_def run_task_def go_defs same_duties_def split: if_splits)
  qed
qed

text \<open>Property C39. A contract whose metadata names no valid rewards address, which \<open>x/rewards\<close> allows, stops
  the module: whoever sends the message, it panics whenever the staking task is due. As a message that
  panics changes nothing, the task stays due, and no task runs again.\<close>

theorem missing_address_stops_cron:
  assumes contract: "meta \<in> set (metadatas s)" "\<not> res_ok (arch_AccAddressFromBech32 env (cm_RewardsAddress meta))"
    and due: "ShouldProcessTask env s LastArchLiquidStakeIntervalTimeKey (pp_ArchLiquidStakeInterval (ph_params s))"
  shows "fst (CronJobTriggerTasks env s) = Panic"
proof -
  obtain r u where first: "HandleLiquidStakingDAppRewardsTask env s = (r, u)"
    by (cases "HandleLiquidStakingDAppRewardsTask env s")
  show ?thesis
  proof (cases "r = Panic")
    case False
    with dapp_task_run [OF first] have u: "r = Ok ()" "same_duties s u" by auto
    then have "ShouldProcessTask env u LastArchLiquidStakeIntervalTimeKey (pp_ArchLiquidStakeInterval (ph_params u))"
      using due by (simp add: ShouldProcessTask_def GetLastProcessingTime_def same_duties_def)
    moreover have "fst (handleArchLiquidStakeInterval env u) = Panic"
      using stake_task_panics [of meta u env] contract u by (simp add: same_duties_def)
    ultimately have "fst (HandleArchLiquidStakeIntervalTask env u) = Panic"
      by (auto simp: HandleArchLiquidStakeIntervalTask_def run_task_def go_defs split: prod.splits)
    with first u show ?thesis by (auto simp: CronJobTriggerTasks_def go_bind_def split: prod.splits)
  qed (simp add: CronJobTriggerTasks_def go_bind_def first)
qed

section \<open>Export\<close>

text \<open>The bytes of a deposit start with the tag of a field.\<close>

lemma deposit_bytes:
  "liquid_deposit_Marshal d = [] \<or> (\<exists>c cs. liquid_deposit_Marshal d = c # cs \<and> of_char c < (33::nat))"
  by (simp add: liquid_deposit_Marshal_def)

lemma exported_deposit_rejected:
  assumes "\<And>c cs. of_char c < (33::nat) \<Longrightarrow> ae_DecodeBech32 env (c # cs) = None"
  shows "arch_AccAddressFromBech32 env (ld_ContractAddress (list_as_deposit ds)) = Err Plain"
  using deposit_bytes [of "last ds"] assms
  by (auto simp: list_as_deposit_def arch_AccAddressFromBech32_def)

text \<open>Property C40. Once there is a deposit, an export cannot be imported: the lists of deposits are decoded as
  single deposits, so that the bytes of a deposit become an address, which no decoder of addresses
  takes. The validation of the exported genesis fails, and the import of it panics.\<close>

theorem export_cannot_be_imported:
  assumes decoder: "\<And>c cs. of_char c < (33::nat) \<Longrightarrow> ae_DecodeBech32 env (c # cs) = None"
    and deposits: "ph_deposits s \<noteq> []" and run: "photo_ExportGenesis UnmarshalContract s = Ok g"
  shows "photo_genesis_Validate env g \<noteq> Ok () \<and> fst (photo_InitGenesis env g t) = Panic"
proof -
  obtain ds rest where g: "pg_DepositRecords g = list_as_deposit ds # rest"
    using deposits run by (cases "ph_deposits s") (auto simp: photo_ExportGenesis_def kv_values_def go_simps)
  note bad = exported_deposit_rejected [where env = env, OF decoder, of ds]
  have "photo_genesis_Validate env g \<noteq> Ok ()"
    by (auto simp: photo_genesis_Validate_def g liquid_deposit_Validate_def bad go_simps)
  moreover have "fst (photo_InitGenesis env g t) = Panic"
    by (auto simp: photo_InitGenesis_def photo_SetParams_def g bad go_defs res_must_def)
  ultimately show ?thesis ..
qed
section \<open>A concrete state\<close>

definition demo_dapp :: "string \<Rightarrow> ContractMetadata" where
  "demo_dapp addr = empty_metadata\<lparr>cm_RewardsAddress := addr, cm_MinimumRewardAmount := 100, cm_RewardsWithdrawalInterval := 1\<rparr>"

definition demo_store :: "string \<Rightarrow> rewards_state" where
  "demo_store addr =
     \<lparr>rw_params = rewards_DefaultParams, rw_metadata = [(''c'', demo_dapp ''archway1u''), (''d'', demo_dapp addr)],
      rw_blockRewards = [], rw_txRewards = [], rw_txIndex = [], rw_minConsFee = None, rw_recordID = 1,
      rw_records = [(1, \<lparr>rr_Id = 1, rr_RewardsAddress = ''archway1u'', rr_Rewards = [(''uarch'', 500)],
        rr_CalculatedHeight = 4, rr_CalculatedTime = 0\<rparr>)],
      rw_addrIndex = [], rw_flatFees = [], rw_tracking = fresh_tracking,
      rw_bank = \<lparr>bk_balance = (\<lambda>_ _. 0), bk_supply = (\<lambda>_. 0)\<rparr>\<rparr>"

definition demo_deposit :: liquid_deposit where
  "demo_deposit = \<lparr>ld_ContractAddress = ''archway1u'', ld_Amount = 7, ld_Status = ''pending''\<rparr>"

definition demo_genesis :: photo_genesis where
  "demo_genesis = \<lparr>pg_Params = photo_DefaultParams, pg_DepositRecords = [demo_deposit], pg_Contracts = []\<rparr>"

definition demo_photo :: "string \<Rightarrow> photo_state" where
  "demo_photo addr = snd (photo_InitGenesis demo_arch demo_genesis (photo_empty (demo_store addr)))"

lemma demo_reachable: "photo_reachable (demo_photo ''archway1v'')"
proof (rule photo_reachable.genesis)
  have "fst (photo_InitGenesis demo_arch demo_genesis (photo_empty (demo_store ''archway1v''))) = Ok ()" by code_simp
  then show "photo_InitGenesis demo_arch demo_genesis (photo_empty (demo_store ''archway1v'')) = (Ok (), demo_photo ''archway1v'')"
    by (simp add: demo_photo_def prod_eq_iff)
qed

lemma liquidity_never_arrives_witness:
  "case CronJobTriggerTasks demo_arch (demo_photo ''archway1v'') of (r, t) \<Rightarrow>
     r = Ok () \<and> ph_stakes t = [] \<and> ph_cumulative t = None \<and> ph_liquidityLog t = [] \<and> ph_redeemedLog t = []"
proof -
  obtain r t where run: "CronJobTriggerTasks demo_arch (demo_photo ''archway1v'') = (r, t)"
    by (cases "CronJobTriggerTasks demo_arch (demo_photo ''archway1v'')")
  have "fst (CronJobTriggerTasks demo_arch (demo_photo ''archway1v'')) = Ok ()" by code_simp
  with run have r: "r = Ok ()" by simp
  have "photo_ValidateBasic demo_arch (MsgExecuteCronTasks ''archway1u'') = Ok ()" by code_simp
  moreover have "photo_handle demo_arch (MsgExecuteCronTasks ''archway1u'') (demo_photo ''archway1v'') = (Ok (), t)"
    using run r by (simp add: photo_handle_def)
  ultimately have "photo_reachable t" by (rule photo_reachable.message [OF demo_reachable])
  then show ?thesis using liquidity_never_arrives [of t] run r by simp
qed

lemma rewards_are_booked_to_the_last_witness:
  "case handleRewardsWithdrawal demo_arch (demo_photo ''archway1v'') of (r, t) \<Rightarrow>
     r = Ok () \<and> map_val (GetCumulativeRewardAmount t) ''archway1v'' = 1000"
proof -
  let ?s = "demo_photo ''archway1v''"
  obtain r t where run: "handleRewardsWithdrawal demo_arch ?s = (r, t)" by (cases "handleRewardsWithdrawal demo_arch ?s")
  have "fst (handleRewardsWithdrawal demo_arch ?s) = Ok ()" by code_simp
  with run have r: "r = Ok ()" by simp
  have "list_all (\<lambda>r. Coins_IsValid (rr_Rewards r)) (kv_values (rw_records (ph_rewards ?s))) \<and>
    (\<Sum>r\<leftarrow>kv_values (rw_records (ph_rewards ?s)). amt (rr_Rewards r) ''uarch'') = 500 \<and>
    map cm_RewardsAddress (withdrawing ?s) = [''archway1u'', ''archway1v''] \<and>
    kv_get (ph_distributions ?s) (Itoa (ae_blockHeight demo_arch)) = None"
    by code_simp
  moreover from this have "withdrawing ?s \<noteq> []" "length (withdrawing ?s) = 2"
    "cm_RewardsAddress (last (withdrawing ?s)) = ''archway1v''"
    by (auto simp: length_map [of cm_RewardsAddress, symmetric] last_map [of _ cm_RewardsAddress, symmetric] simp del: length_map)
  ultimately show ?thesis
    using rewards_are_booked_to_the_last [of ?s 500 demo_arch t "''archway1v''"] run r by (simp add: list_all_iff)
qed

lemma deposits_are_counted_again_witness:
  "case GetTotalLiquidStake (demo_photo ''archway1v'') of (r, t) \<Rightarrow> r = Ok 7 \<and> fst (GetTotalLiquidStake t) = Ok 7"
proof -
  let ?s = "demo_photo ''archway1v''"
  obtain r t where run: "GetTotalLiquidStake ?s = (r, t)" by (cases "GetTotalLiquidStake ?s")
  have "fst (GetTotalLiquidStake ?s) = Ok 7" by code_simp
  with run have "r = Ok 7" by simp
  with run deposits_are_counted_again [of ?s 7 t] show ?thesis by simp
qed

lemma reset_doubles_pending_witness:
  "case ResetAllCompletedDepositRecords (demo_photo ''archway1v'') of (r, t) \<Rightarrow> r = Ok () \<and>
     (case GetTotalLiquidStake (demo_photo ''archway1v'') of (n, _) \<Rightarrow> case GetTotalLiquidStake t of (m, _) \<Rightarrow> n = Ok 7 \<and> m = Ok 14)"
proof -
  let ?s = "demo_photo ''archway1v''"
  obtain r t where run: "ResetAllCompletedDepositRecords ?s = (r, t)" by (cases "ResetAllCompletedDepositRecords ?s")
  obtain n s' where before: "GetTotalLiquidStake ?s = (n, s')" by (cases "GetTotalLiquidStake ?s")
  obtain m t' where after: "GetTotalLiquidStake t = (m, t')" by (cases "GetTotalLiquidStake t")
  have "case ResetAllCompletedDepositRecords ?s of (r, t) \<Rightarrow> r = Ok () \<and> fst (GetTotalLiquidStake ?s) = Ok 7 \<and>
    res_ok (fst (GetTotalLiquidStake t)) \<and> distinct (map cm_RewardsAddress (metadatas ?s))" by code_simp
  with run before after have h: "r = Ok ()" "n = Ok 7" "res_ok m" "distinct (map cm_RewardsAddress (metadatas ?s))" by simp_all
  from h(3) obtain k where k: "m = Ok k" by (cases m) auto
  from reset_doubles_pending [of ?s t 7 s' k t'] h k run before after have "k = 14" by simp
  with h k run before after show ?thesis by simp
qed

lemma missing_address_stops_cron_witness: "fst (CronJobTriggerTasks demo_arch (demo_photo '''')) = Panic"
proof (rule missing_address_stops_cron)
  have "demo_dapp '''' = last (metadatas (demo_photo ''''))" "metadatas (demo_photo '''') \<noteq> []" by code_simp+
  then show "demo_dapp '''' \<in> set (metadatas (demo_photo ''''))" by simp
  show "\<not> res_ok (arch_AccAddressFromBech32 demo_arch (cm_RewardsAddress (demo_dapp '''')))" by code_simp
  show "ShouldProcessTask demo_arch (demo_photo '''') LastArchLiquidStakeIntervalTimeKey
    (pp_ArchLiquidStakeInterval (ph_params (demo_photo '''')))" by code_simp
qed

lemma export_cannot_be_imported_witness:
  "case photo_ExportGenesis (\<lambda>_. None) (demo_photo ''archway1v'') of
     Ok g \<Rightarrow> photo_genesis_Validate demo_arch g \<noteq> Ok () \<and> fst (photo_InitGenesis demo_arch g (photo_empty (demo_store ''archway1v''))) = Panic
   | _ \<Rightarrow> False"
proof -
  let ?s = "demo_photo ''archway1v''"
  have "res_ok (photo_ExportGenesis (\<lambda>_. None) ?s)" and ne: "ph_deposits ?s \<noteq> []" by code_simp+
  then obtain g where g: "photo_ExportGenesis (\<lambda>_. None) ?s = Ok g" by (cases "photo_ExportGenesis (\<lambda>_. None) ?s") auto
  have "ae_DecodeBech32 demo_arch (c # cs) = None" if "of_char c < (33::nat)" for c cs
    using that by (auto simp: demo_arch_def HasPrefix_def)
  from export_cannot_be_imported [OF this ne g] g show ?thesis by simp
qed

definition demo_booked :: photo_state where
  "demo_booked = (demo_photo ''archway1v'')\<lparr>ph_distributions := [(''5'', ''archway1v,1000,1,0001-01-01T00:00:00Z,4'')]\<rparr>"

lemma rewards_are_filed_again_witness:
  "case handleLiquidStakingDAppRewards demo_arch demo_booked of (r, t) \<Rightarrow> r = Ok () \<and>
     (case handleLiquidStakingDAppRewards demo_arch t of (q, u) \<Rightarrow> q = Ok () \<and>
        map ld_Amount (GetContractLiquidStakeDeposits u ''archway1v'') = [1000, 1000])"
proof -
  let ?f = "handleLiquidStakingDAppRewards demo_arch"
  obtain r t where first: "?f demo_booked = (r, t)" by (cases "?f demo_booked")
  obtain q u where second: "?f t = (q, u)" by (cases "?f t")
  have "case ?f demo_booked of (r, t) \<Rightarrow> r = Ok () \<and> fst (?f t) = Ok ()" by code_simp
  with first second have "r = Ok ()" "q = Ok ()" by simp_all
  moreover have "map ld_Amount (filed demo_arch demo_booked (metadatas demo_booked) ''archway1v'') = [1000]"
    "GetContractLiquidStakeDeposits demo_booked ''archway1v'' = []" by code_simp+
  ultimately show ?thesis
    using rewards_are_filed_again [of demo_arch demo_booked t u "''archway1v''"] first second by simp
qed

end
