(* ===== verification/Migrations.thy ===== *)
theory Migrations
  imports Books Claim
begin

text \<open>
  The store migrations of the upgrade that changed amounts from machine integers to
  \<open>sdk.Int\<close>: \<open>x/claim/migrations/v2\<close>, \<open>x/icacallbacks/migrations/v2\<close>,
  \<open>x/records/migrations/v2\<close> and \<open>x/stakeibc/migrations/v2\<close>. Each walks over a store,
  decodes every value with its old type, converts it and stores it under the same key. The theorems
  say what is kept (amounts, zones, callbacks in flight) and what is not: the records of the
  unbonding epochs lose their epoch.

  The values of the old stores are bytes, and the generated decoders of the old types are parameters.
  The enumerations of the old types have the names and numbers of the new ones.
\<close>

section \<open>The old types\<close>

record old_deposit =
  od_Id :: uint64
  od_Amount :: int
  od_Denom :: denom
  od_HostZoneId :: string
  od_Status :: DepositRecord_Status
  od_DepositEpochNumber :: uint64
  od_Source :: DepositRecord_Source

record old_unbonding =
  ou_StTokenAmount :: uint64
  ou_NativeTokenAmount :: uint64
  ou_Denom :: denom
  ou_HostZoneId :: string
  ou_UnbondingTime :: uint64
  ou_Status :: HostZoneUnbonding_Status
  ou_UserRedemptionRecords :: "string list"

record old_epoch_unbonding =
  oe_EpochNumber :: uint64
  oe_HostZoneUnbondings :: "old_unbonding list"

record old_redemption =
  or_Id :: string
  or_Sender :: address
  or_Receiver :: address
  or_Amount :: uint64
  or_Denom :: denom
  or_HostZoneId :: string
  or_EpochNumber :: uint64
  or_ClaimIsPending :: bool

record old_validator =
  ov_Name :: string
  ov_Address :: address
  ov_CommissionRate :: uint64
  ov_DelegationAmt :: uint64
  ov_Weight :: uint64
  ov_InternalExchangeRate :: "ValidatorExchangeRate option"

record old_zone =
  oz_ChainId :: string
  oz_ConnectionId :: string
  oz_Bech32Prefix :: string
  oz_TransferChannelId :: string
  oz_Validators :: "old_validator list"
  oz_BlacklistedValidators :: "old_validator list"
  oz_WithdrawalAccount :: "ICAAccount option"
  oz_FeeAccount :: "ICAAccount option"
  oz_DelegationAccount :: "ICAAccount option"
  oz_RedemptionAccount :: "ICAAccount option"
  oz_IbcDenom :: denom
  oz_HostDenom :: denom
  oz_LastRedemptionRate :: Dec
  oz_RedemptionRate :: Dec
  oz_UnbondingFrequency :: uint64
  oz_StakedBal :: uint64
  oz_Address :: address

record old_split =
  os_Validator :: address
  os_Amount :: uint64

record old_delegate =
  olg_HostZoneId :: string
  olg_DepositRecordId :: uint64
  olg_SplitDelegations :: "old_split list"

record old_undelegate =
  oud_HostZoneId :: string
  oud_SplitDelegations :: "old_split list"
  oud_EpochUnbondingRecordIds :: "uint64 list"

record old_rebalancing =
  ob_SrcValidator :: address
  ob_DstValidator :: address
  ob_Amt :: uint64

record old_rebalance =
  obc_HostZoneId :: string
  obc_Rebalancings :: "old_rebalancing list"

record old_airdrop =
  oa_AirdropIdentifier :: string
  oa_AirdropStartTime :: int
  oa_AirdropDuration :: int
  oa_ClaimDenom :: denom
  oa_DistributorAddress :: string
  oa_ClaimedSoFar :: int

text \<open>A callback in flight with its arguments as bytes.\<close>

record raw_callback =
  rcd_CallbackKey :: string
  rcd_PortId :: string
  rcd_ChannelId :: string
  rcd_Sequence :: uint64
  rcd_CallbackId :: string
  rcd_CallbackArgs :: string

section \<open>Conversions\<close>

definition convertToNewDepositRecord :: "old_deposit \<Rightarrow> DepositRecord" where
  "convertToNewDepositRecord d =
     \<lparr>dr_Id = od_Id d, dr_Amount = od_Amount d, dr_Denom = od_Denom d, dr_HostZoneId = od_HostZoneId d,
      dr_Status = od_Status d, dr_DepositEpochNumber = od_DepositEpochNumber d, dr_Source = od_Source d\<rparr>"

definition convertToNewHostZoneUnbonding :: "old_unbonding \<Rightarrow> HostZoneUnbonding" where
  "convertToNewHostZoneUnbonding u =
     \<lparr>hzu_StTokenAmount = uint (ou_StTokenAmount u), hzu_NativeTokenAmount = uint (ou_NativeTokenAmount u),
      hzu_Denom = ou_Denom u, hzu_HostZoneId = ou_HostZoneId u, hzu_UnbondingTime = ou_UnbondingTime u,
      hzu_Status = ou_Status u, hzu_UserRedemptionRecords = ou_UserRedemptionRecords u\<rparr>"

text \<open>The new record starts empty, and only its list is filled.\<close>

definition convertToNewEpochUnbondingRecord :: "old_epoch_unbonding \<Rightarrow> EpochUnbondingRecord" where
  "convertToNewEpochUnbondingRecord e =
     \<lparr>eur_EpochNumber = 0, eur_HostZoneUnbondings = map convertToNewHostZoneUnbonding (oe_HostZoneUnbondings e)\<rparr>"

definition convertToNewUserRedemptionRecord :: "old_redemption \<Rightarrow> UserRedemptionRecord" where
  "convertToNewUserRedemptionRecord r =
     \<lparr>urr_Id = or_Id r, urr_Sender = or_Sender r, urr_Receiver = or_Receiver r, urr_Amount = uint (or_Amount r),
      urr_Denom = or_Denom r, urr_HostZoneId = or_HostZoneId r, urr_EpochNumber = or_EpochNumber r,
      urr_ClaimIsPending = or_ClaimIsPending r\<rparr>"

definition convertToNewValidator :: "old_validator \<Rightarrow> Validator" where
  "convertToNewValidator v =
     \<lparr>val_Name = ov_Name v, val_Address = ov_Address v, val_DelegationAmt = uint (ov_DelegationAmt v),
      val_Weight = ov_Weight v, val_InternalExchangeRate = ov_InternalExchangeRate v\<rparr>"

definition convertToNewICAAccount :: "ICAAccount option \<Rightarrow> ICAAccount option" where
  "convertToNewICAAccount a =
     (case a of None \<Rightarrow> None | Some acc \<Rightarrow> Some \<lparr>ica_Address = ica_Address acc, ica_Target = ica_Target acc\<rparr>)"

text \<open>The bounds of the redemption rate are new, and nil decimals are stored as zero.\<close>

definition convertToNewHostZone :: "old_zone \<Rightarrow> HostZone" where
  "convertToNewHostZone z =
     \<lparr>hz_ChainId = oz_ChainId z, hz_ConnectionId = oz_ConnectionId z, hz_Bech32Prefix = oz_Bech32Prefix z,
      hz_TransferChannelId = oz_TransferChannelId z, hz_Validators = map convertToNewValidator (oz_Validators z),
      hz_BlacklistedValidators = map convertToNewValidator (oz_BlacklistedValidators z),
      hz_WithdrawalAccount = convertToNewICAAccount (oz_WithdrawalAccount z),
      hz_FeeAccount = convertToNewICAAccount (oz_FeeAccount z),
      hz_DelegationAccount = convertToNewICAAccount (oz_DelegationAccount z),
      hz_RedemptionAccount = convertToNewICAAccount (oz_RedemptionAccount z),
      hz_IbcDenom = oz_IbcDenom z, hz_HostDenom = oz_HostDenom z, hz_LastRedemptionRate = oz_LastRedemptionRate z,
      hz_RedemptionRate = oz_RedemptionRate z, hz_UnbondingFrequency = oz_UnbondingFrequency z,
      hz_StakedBal = uint (oz_StakedBal z), hz_Address = oz_Address z, hz_Halted = False,
      hz_MinRedemptionRate = Some 0, hz_MaxRedemptionRate = Some 0\<rparr>"

definition convert_split :: "old_split \<Rightarrow> SplitDelegation" where
  "convert_split s = \<lparr>sd_Validator = os_Validator s, sd_Amount = uint (os_Amount s)\<rparr>"

definition convertDelegateCallback :: "old_delegate \<Rightarrow> DelegateCallback" where
  "convertDelegateCallback c =
     \<lparr>dcb_HostZoneId = olg_HostZoneId c, dcb_DepositRecordId = olg_DepositRecordId c,
      dcb_SplitDelegations = map convert_split (olg_SplitDelegations c)\<rparr>"

definition convertUndelegateCallback :: "old_undelegate \<Rightarrow> UndelegateCallback" where
  "convertUndelegateCallback c =
     \<lparr>ucb_HostZoneId = oud_HostZoneId c, ucb_SplitDelegations = map convert_split (oud_SplitDelegations c),
      ucb_EpochUnbondingRecordIds = oud_EpochUnbondingRecordIds c\<rparr>"

definition convertRebalanceCallback :: "old_rebalance \<Rightarrow> RebalanceCallback" where
  "convertRebalanceCallback c =
     \<lparr>rbcb_HostZoneId = obc_HostZoneId c,
      rbcb_Rebalancings = map (\<lambda>r. \<lparr>rb_SrcValidator = ob_SrcValidator r, rb_DstValidator = ob_DstValidator r,
        rb_Amt = uint (ob_Amt r)\<rparr>) (obc_Rebalancings c)\<rparr>"

text \<open>A new airdrop has a chain id and a flag for \<open>x/autopilot\<close>, which start empty.\<close>

definition convertToNewAirdrop :: "old_airdrop \<Rightarrow> Airdrop" where
  "convertToNewAirdrop a =
     \<lparr>ad_AirdropIdentifier = oa_AirdropIdentifier a, ad_ChainId = '''', ad_AirdropStartTime = oa_AirdropStartTime a,
      ad_AirdropDuration = oa_AirdropDuration a, ad_ClaimDenom = oa_ClaimDenom a,
      ad_DistributorAddress = oa_DistributorAddress a, ad_ClaimedSoFar = oa_ClaimedSoFar a, ad_AutopilotEnabled = False\<rparr>"

definition convertToNewClaimParams :: "old_airdrop list \<Rightarrow> Airdrop list" where
  "convertToNewClaimParams oldParams = map convertToNewAirdrop oldParams"

section \<open>The walks over the stores\<close>

text \<open>The codecs: the decoders of the old types, and the encoder of the new callback arguments.\<close>

record migration_codec =
  mc_deposit :: "string \<Rightarrow> old_deposit option"
  mc_redemption :: "string \<Rightarrow> old_redemption option"
  mc_unbonding :: "string \<Rightarrow> old_epoch_unbonding option"
  mc_zone :: "string \<Rightarrow> old_zone option"
  mc_callback :: "string \<Rightarrow> raw_callback option"
  mc_delegate :: "string \<Rightarrow> old_delegate option"
  mc_undelegate :: "string \<Rightarrow> old_undelegate option"
  mc_rebalance :: "string \<Rightarrow> old_rebalance option"
  mc_args :: "CallbackArgs \<Rightarrow> string"
  mc_airdrops :: "string \<Rightarrow> old_airdrop list option"

definition migrate_store :: "(string \<Rightarrow> 'b option) \<Rightarrow> ('b \<Rightarrow> 'c res) \<Rightarrow> ('k, string) kvstore \<Rightarrow> ('k, 'c) kvstore res" where
  "migrate_store decode convert m =
     res_acc (\<lambda>(key, bz) acc.
       case decode bz of None \<Rightarrow> Err Plain | Some old \<Rightarrow> rbind (convert old) (\<lambda>new. Ok (acc @ [(key, new)]))) m []"

definition convertCallbackData :: "migration_codec \<Rightarrow> raw_callback \<Rightarrow> raw_callback res" where
  "convertCallbackData mc c =
     rbind
       (if rcd_CallbackId c = ''delegate'' then
          (case mc_delegate mc (rcd_CallbackArgs c) of
             None \<Rightarrow> Err (StakeIBCErr ErrUnmarshalFailure)
           | Some old \<Rightarrow> Ok (mc_args mc (DelegateArgs (convertDelegateCallback old))))
        else if rcd_CallbackId c = ''undelegate'' then
          (case mc_undelegate mc (rcd_CallbackArgs c) of
             None \<Rightarrow> Err (StakeIBCErr ErrUnmarshalFailure)
           | Some old \<Rightarrow> Ok (mc_args mc (UndelegateArgs (convertUndelegateCallback old))))
        else if rcd_CallbackId c = ''rebalance'' then
          (case mc_rebalance mc (rcd_CallbackArgs c) of
             None \<Rightarrow> Err (StakeIBCErr ErrUnmarshalFailure)
           | Some old \<Rightarrow> Ok (mc_args mc (RebalanceArgs (convertRebalanceCallback old))))
        else Ok (rcd_CallbackArgs c)) (\<lambda>newCallbackArgs.
     Ok \<lparr>rcd_CallbackKey = rcd_CallbackKey c, rcd_PortId = rcd_PortId c, rcd_ChannelId = rcd_ChannelId c,
        rcd_Sequence = rcd_Sequence c, rcd_CallbackId = rcd_CallbackId c, rcd_CallbackArgs = newCallbackArgs\<rparr>)"

definition migrateCallbacks :: "migration_codec \<Rightarrow> (string, string) kvstore \<Rightarrow> (string, raw_callback) kvstore res" where
  "migrateCallbacks mc m = migrate_store (mc_callback mc) (convertCallbackData mc) m"

definition migrateHostZone :: "migration_codec \<Rightarrow> (string, string) kvstore \<Rightarrow> (string, HostZone) kvstore res" where
  "migrateHostZone mc m = migrate_store (mc_zone mc) (\<lambda>z. Ok (convertToNewHostZone z)) m"

definition migrateClaimParams :: "migration_codec \<Rightarrow> string \<Rightarrow> Airdrop list res" where
  "migrateClaimParams mc bz =
     (case mc_airdrops mc bz of None \<Rightarrow> Err Plain | Some oldParams \<Rightarrow> Ok (convertToNewClaimParams oldParams))"

text \<open>The three stores of \<open>x/records\<close>, and the counter that is not touched.\<close>

record old_records =
  orc_deposits :: "(uint64, string) kvstore"
  orc_depositCount :: uint64
  orc_redemptions :: "(string, string) kvstore"
  orc_unbondings :: "(uint64, string) kvstore"

definition migrateDepositRecord :: "migration_codec \<Rightarrow> (uint64, string) kvstore \<Rightarrow> (uint64, DepositRecord) kvstore res" where
  "migrateDepositRecord mc m = migrate_store (mc_deposit mc) (\<lambda>d. Ok (convertToNewDepositRecord d)) m"

definition migrateUserRedemptionRecord ::
  "migration_codec \<Rightarrow> (string, string) kvstore \<Rightarrow> (string, UserRedemptionRecord) kvstore res" where
  "migrateUserRedemptionRecord mc m = migrate_store (mc_redemption mc) (\<lambda>r. Ok (convertToNewUserRedemptionRecord r)) m"

definition migrateEpochUnbondingRecord ::
  "migration_codec \<Rightarrow> (uint64, string) kvstore \<Rightarrow> (uint64, EpochUnbondingRecord) kvstore res" where
  "migrateEpochUnbondingRecord mc m = migrate_store (mc_unbonding mc) (\<lambda>e. Ok (convertToNewEpochUnbondingRecord e)) m"

definition records_MigrateStore :: "migration_codec \<Rightarrow> old_records \<Rightarrow> records_state res" where
  "records_MigrateStore mc old =
     rbind (migrateDepositRecord mc (orc_deposits old)) (\<lambda>deposits.
     rbind (migrateUserRedemptionRecord mc (orc_redemptions old)) (\<lambda>redemptions.
     rbind (migrateEpochUnbondingRecord mc (orc_unbondings old)) (\<lambda>unbondings.
     Ok \<lparr>rs_deposits = deposits, rs_depositCount = orc_depositCount old, rs_unbondings = unbondings,
        rs_redemptions = redemptions\<rparr>)))"

section \<open>What a walk keeps\<close>

lemma migrate_store_rel:
  assumes "migrate_store decode convert m = Ok t"
  shows "list_all2 (\<lambda>e e'. fst e' = fst e \<and> (\<exists>old. decode (snd e) = Some old \<and> convert old = Ok (snd e'))) m t"
proof -
  have "\<exists>t'. t = acc @ t' \<and> list_all2 (\<lambda>e e'. fst e' = fst e \<and> (\<exists>old. decode (snd e) = Some old \<and> convert old = Ok (snd e'))) m t'"
    if "res_acc (\<lambda>(key, bz) acc.
       case decode bz of None \<Rightarrow> Err Plain | Some old \<Rightarrow> rbind (convert old) (\<lambda>new. Ok (acc @ [(key, new)]))) m acc = Ok t" for acc
    using that
  proof (induction m arbitrary: acc)
    case (Cons e m)
    obtain key bz where e: "e = (key, bz)" by (cases e)
    obtain old new where step: "decode bz = Some old" "convert old = Ok new"
      and rest: "res_acc (\<lambda>(key, bz) acc.
       case decode bz of None \<Rightarrow> Err Plain | Some old \<Rightarrow> rbind (convert old) (\<lambda>new. Ok (acc @ [(key, new)]))) m (acc @ [(key, new)]) = Ok t"
      using Cons.prems by (auto simp: e go_simps split: option.splits)
    from Cons.IH [OF rest] obtain t' where "t = acc @ (key, new) # t'"
      "list_all2 (\<lambda>e e'. fst e' = fst e \<and> (\<exists>old. decode (snd e) = Some old \<and> convert old = Ok (snd e'))) m t'" by auto
    with step show ?case by (intro exI [of _ "(key, new) # t'"]) (auto simp: e)
  qed simp
  from this [of "[]"] assms show ?thesis by (simp add: migrate_store_def)
qed

lemma migrate_store_total:
  assumes "map (\<lambda>e. (fst e, decode (snd e))) m = map (\<lambda>e. (fst e, Some (snd e))) zs" "\<And>z. convert z = Ok (f z)"
  shows "migrate_store decode convert m = Ok (map (\<lambda>e. (fst e, f (snd e))) zs)"
proof -
  have "res_acc (\<lambda>(key, bz) acc.
       case decode bz of None \<Rightarrow> Err Plain | Some old \<Rightarrow> rbind (convert old) (\<lambda>new. Ok (acc @ [(key, new)]))) m acc =
    Ok (acc @ map (\<lambda>e. (fst e, f (snd e))) zs)" for acc
    using assms(1)
  proof (induction m arbitrary: acc zs)
    case (Cons e m)
    then obtain z zs' where "zs = z # zs'" by (cases zs) auto
    with Cons.prems Cons.IH [of zs'] show ?case by (cases e) (auto simp: assms(2))
  qed simp
  from this [of "[]"] show ?thesis by (simp add: migrate_store_def)
qed

lemma migrate_store_keys: "migrate_store decode convert m = Ok t \<Longrightarrow> map fst t = map fst m"
proof (drule migrate_store_rel)
  show "list_all2 (\<lambda>e e'. fst e' = fst e \<and> (\<exists>old. decode (snd e) = Some old \<and> convert old = Ok (snd e'))) m t \<Longrightarrow>
    map fst t = map fst m" by (induction rule: list_all2_induct) auto
qed

lemma migrate_store_values:
  assumes "migrate_store decode convert m = Ok t" "v \<in> set (kv_values t)" shows "\<exists>old. convert old = Ok v"
  using migrate_store_rel [OF assms(1)] assms(2)
  by (induction rule: list_all2_induct) (auto simp: kv_values_def)

section \<open>Unbonding records lose their epoch\<close>

lemma migrated_epochs:
  assumes "records_MigrateStore mc old = Ok t"
  shows "r \<in> set (GetAllEpochUnbondingRecord t) \<Longrightarrow> eur_EpochNumber r = 0"
    "map fst (rs_unbondings t) = map fst (orc_unbondings old)"
proof -
  have m: "migrate_store (mc_unbonding mc) (\<lambda>e. Ok (convertToNewEpochUnbondingRecord e)) (orc_unbondings old) = Ok (rs_unbondings t)"
    using assms by (auto simp: records_MigrateStore_def migrateEpochUnbondingRecord_def go_simps)
  show "map fst (rs_unbondings t) = map fst (orc_unbondings old)" by (rule migrate_store_keys [OF m])
  show "r \<in> set (GetAllEpochUnbondingRecord t) \<Longrightarrow> eur_EpochNumber r = 0"
    using migrate_store_values [OF m, of r]
    by (auto simp: GetAllEpochUnbondingRecord_def convertToNewEpochUnbondingRecord_def)
qed

lemma no_epoch_zero:
  "map fst (rs_unbondings t) = map fst m \<Longrightarrow> 0 \<notin> fst ` set m \<Longrightarrow> GetEpochUnbondingRecord t 0 = None"
proof -
  assume "map fst (rs_unbondings t) = map fst m" "0 \<notin> fst ` set m"
  then have "0 \<notin> fst ` set (rs_unbondings t)" by (metis list.set_map)
  then show ?thesis by (simp add: GetEpochUnbondingRecord_def kv_get_def map_of_eq_None_iff)
qed

lemma res_acc_skip: "(\<And>x. x \<in> set xs \<Longrightarrow> f x a = Ok a) \<Longrightarrow> res_acc f xs a = Ok a"
  by (induction xs) auto

lemma fold_skip: "(\<And>x. x \<in> set xs \<Longrightarrow> f x s = s) \<Longrightarrow> fold f xs s = s"
  by (induction xs) auto

text \<open>Property C28. After the migration the queued unbondings of every zone are stuck: each record of an epoch is still
  filed under it but says that its epoch is zero, and everything that walks over the records looks
  for that one. Nothing is undelegated, nothing that has been unbonded is swept, no record is cleaned
  up, and no redemption succeeds until the day has its own new record.\<close>

theorem migrated_unbondings_stall:
  assumes run: "records_MigrateStore mc old = Ok (c_records c)" and epochs: "0 \<notin> fst ` set (orc_unbondings old)"
  shows "GetHostZoneUnbondingMsgs c zone = Ok nothing_to_unbond \<and>
    SweepAllUnbondedTokensForHostZone env zone (GetAllEpochUnbondingRecord (c_records c)) c = (Ok (True, 0), c) \<and>
    CleanupEpochUnbondingRecords n (c_records c) = c_records c \<and>
    fst (RedeemStake env msg c) \<noteq> Ok ()"
proof -
  let ?t = "c_records c"
  note zero = migrated_epochs(1) [OF run]
  have none: "GetEpochUnbondingRecord ?t 0 = None" by (rule no_epoch_zero [OF migrated_epochs(2) [OF run] epochs])
  then have chain: "GetHostZoneUnbondingByChainId ?t 0 k = None" for k by (simp add: GetHostZoneUnbondingByChainId_def)
  have "res_acc (queued_unbonding ?t (hz_ChainId zone)) (GetAllEpochUnbondingRecord ?t) (0, []) = Ok (0, [])"
    by (rule res_acc_skip) (simp add: queued_unbonding_def zero chain)
  then have msgs: "GetHostZoneUnbondingMsgs c zone = Ok nothing_to_unbond" by (simp add: GetHostZoneUnbondingMsgs_def)
  have "res_acc (swept_unbonding env ?t zone) (GetAllEpochUnbondingRecord ?t) (0, []) = Ok (0, [])"
    by (rule res_acc_skip) (simp add: swept_unbonding_def zero chain)
  then have sweep: "SweepAllUnbondedTokensForHostZone env zone (GetAllEpochUnbondingRecord ?t) c = (Ok (True, 0), c)"
    by (simp add: SweepAllUnbondedTokensForHostZone_def go_defs)
  have "RemoveEpochUnbondingRecord 0 ?t = ?t"
    using none by (simp add: RemoveEpochUnbondingRecord_def GetEpochUnbondingRecord_def kv_get_def kv_delete_def
        map_of_eq_None_iff image_iff filter_id_conv)
  then have clean: "CleanupEpochUnbondingRecords n ?t = ?t"
    unfolding CleanupEpochUnbondingRecords_def by (intro fold_skip) (simp add: zero)
  have "fst (RedeemStake env msg c) \<noteq> Ok ()"
  proof
    assume "fst (RedeemStake env msg c) = Ok ()"
    then obtain t where "RedeemStake env msg c = (Ok (), t)" by (cases "RedeemStake env msg c") auto
    then obtain z :: HostZone and tr :: EpochTracker and r :: EpochUnbondingRecord and h :: HostZoneUnbonding
      where "GetEpochUnbondingRecord ?t (et_EpochNumber tr) = Some r"
      "GetHostZoneUnbondingByChainId ?t (eur_EpochNumber r) (hz_ChainId z) = Some h"
      by (elim RedeemStake_Ok) (rule that)
    moreover from this(1) have "r \<in> set (GetAllEpochUnbondingRecord ?t)"
      by (force simp: GetEpochUnbondingRecord_def GetAllEpochUnbondingRecord_def kv_get_def kv_values_def dest: map_of_SomeD)
    ultimately show False using zero [of r] chain by simp
  qed
  with msgs sweep clean show ?thesis by simp
qed

section \<open>Zones stay sound\<close>

text \<open>The books of the old zones, added up without the wrapping of their type, and their identities.\<close>

definition old_balanced :: "old_zone \<Rightarrow> bool" where
  "old_balanced z \<longleftrightarrow> uint (oz_StakedBal z) = (\<Sum>v\<leftarrow>oz_Validators z. uint (ov_DelegationAmt v))"

definition old_apart :: "old_zone \<Rightarrow> old_zone \<Rightarrow> bool" where
  "old_apart z z' \<longleftrightarrow> oz_HostDenom z \<noteq> oz_HostDenom z' \<and> oz_ConnectionId z \<noteq> oz_ConnectionId z' \<and>
     oz_TransferChannelId z \<noteq> oz_TransferChannelId z' \<and> oz_Bech32Prefix z \<noteq> oz_Bech32Prefix z'"

definition old_zones_sound :: "(string, old_zone) kvstore \<Rightarrow> bool" where
  "old_zones_sound zs \<longleftrightarrow> kv_keyed oz_ChainId zs \<and> (\<forall>e\<in>set zs. old_balanced (snd e)) \<and>
     (\<forall>e\<in>set zs. \<forall>e'\<in>set zs. fst e \<noteq> fst e' \<longrightarrow> old_apart (snd e) (snd e'))"

lemma kv_keyed_map:
  assumes "kv_keyed key m" "\<And>v. key' (f v) = key v" shows "kv_keyed key' (map (\<lambda>e. (fst e, f (snd e))) m)"
  using assms by (auto simp: kv_keyed_def kv_sorted_def comp_def)

lemma kv_get_map: "kv_get (map (\<lambda>e. (fst e, f (snd e))) m) k = map_option f (kv_get m k)"
  by (induction m) (auto simp: kv_get_def)

lemma converted_balanced: "old_balanced z \<Longrightarrow> balanced (convertToNewHostZone z)"
  by (simp add: old_balanced_def balanced_def convertToNewHostZone_def convertToNewValidator_def total_delegation_def comp_def)

lemma converted_apart: "apart (convertToNewHostZone z) (convertToNewHostZone z') \<longleftrightarrow> old_apart z z'"
  by (simp add: apart_def old_apart_def convertToNewHostZone_def)

lemma migrated_zones:
  assumes decoded: "map (\<lambda>e. (fst e, mc_zone mc (snd e))) m = map (\<lambda>e. (fst e, Some (snd e))) zs"
  shows "migrateHostZone mc m = Ok (map (\<lambda>e. (fst e, convertToNewHostZone (snd e))) zs)"
  unfolding migrateHostZone_def by (rule migrate_store_total [OF decoded]) simp

text \<open>Property C27. Migrating host zones whose books balance gives zones that satisfy the invariant of the module: every
  staked balance is the sum of the delegations of the validators, now as unbounded integers, zones
  are filed under their chain id, and no two share a denom, connection, channel or prefix.\<close>

theorem migration_keeps_books:
  assumes decoded: "map (\<lambda>e. (fst e, mc_zone mc (snd e))) m = map (\<lambda>e. (fst e, Some (snd e))) zs"
    and sound: "old_zones_sound zs"
  shows "\<exists>zones. migrateHostZone mc m = Ok zones \<and> zones_sound (c\<lparr>c_hostZones := zones\<rparr>)"
proof -
  let ?zones = "map (\<lambda>e. (fst e, convertToNewHostZone (snd e))) zs"
  have mem: "(k, z) \<in> set zs" if "kv_get zs k = Some z" for k z
    using that by (simp add: kv_get_def map_of_SomeD)
  have "kv_keyed hz_ChainId ?zones"
    using sound by (intro kv_keyed_map [where key = oz_ChainId]) (auto simp: old_zones_sound_def convertToNewHostZone_def)
  moreover have "balanced z" if "kv_get ?zones k = Some z" for k z
    using that sound mem by (fastforce simp: kv_get_map old_zones_sound_def intro: converted_balanced)
  moreover have "apart z z'" if g: "kv_get ?zones k = Some z" "kv_get ?zones k' = Some z'" "k \<noteq> k'" for k k' z z'
  proof -
    obtain w w' where w: "kv_get zs k = Some w" "kv_get zs k' = Some w'" "z = convertToNewHostZone w" "z' = convertToNewHostZone w'"
      using g by (auto simp: kv_get_map)
    have "old_apart (snd (k, w)) (snd (k', w'))"
      using sound mem [OF w(1)] mem [OF w(2)] g(3) unfolding old_zones_sound_def by (metis fst_conv)
    then show ?thesis by (simp add: w converted_apart)
  qed
  ultimately have "zones_sound (c\<lparr>c_hostZones := ?zones\<rparr>)"
    unfolding zones_sound_def zones_wf_def GetHostZone_def by simp
  with migrated_zones [OF decoded] show ?thesis by blast
qed

text \<open>Callbacks in flight: what the new decoder reads from the migrated arguments is what the old one read,
  with the amounts as integers, and the callback is found under its key as before.\<close>

theorem migrated_callbacks_decode:
  assumes decode: "\<And>args. decode_args (mc_args mc args) = Some args"
    and run: "convertCallbackData mc c = Ok c'"
  shows "rcd_CallbackKey c' = rcd_CallbackKey c" "rcd_CallbackId c' = rcd_CallbackId c"
    "rcd_CallbackId c = ''delegate'' \<Longrightarrow> \<exists>old. mc_delegate mc (rcd_CallbackArgs c) = Some old \<and>
       decode_args (rcd_CallbackArgs c') = Some (DelegateArgs (convertDelegateCallback old))"
    "rcd_CallbackId c = ''undelegate'' \<Longrightarrow> \<exists>old. mc_undelegate mc (rcd_CallbackArgs c) = Some old \<and>
       decode_args (rcd_CallbackArgs c') = Some (UndelegateArgs (convertUndelegateCallback old))"
    "rcd_CallbackId c = ''rebalance'' \<Longrightarrow> \<exists>old. mc_rebalance mc (rcd_CallbackArgs c) = Some old \<and>
       decode_args (rcd_CallbackArgs c') = Some (RebalanceArgs (convertRebalanceCallback old))"
  using run decode by (auto simp: convertCallbackData_def go_simps split: option.splits if_splits)

section \<open>A concrete migration\<close>

definition demo_old_unbonding :: old_unbonding where
  "demo_old_unbonding = \<lparr>ou_StTokenAmount = 600, ou_NativeTokenAmount = 600, ou_Denom = ''uatom'', ou_HostZoneId = ''GAIA'',
     ou_UnbondingTime = 0, ou_Status = UNBONDING_QUEUE, ou_UserRedemptionRecords = []\<rparr>"

definition demo_old_zone :: "string \<Rightarrow> old_zone" where
  "demo_old_zone i = \<lparr>oz_ChainId = i, oz_ConnectionId = ''connection-'' @ i, oz_Bech32Prefix = i, oz_TransferChannelId = ''channel-'' @ i,
     oz_Validators = map (\<lambda>d. \<lparr>ov_Name = ''v'', ov_Address = ''v'', ov_CommissionRate = 0, ov_DelegationAmt = d, ov_Weight = 1,
       ov_InternalExchangeRate = None\<rparr>) [300, 200],
     oz_BlacklistedValidators = [], oz_WithdrawalAccount = None, oz_FeeAccount = None, oz_DelegationAccount = None,
     oz_RedemptionAccount = None, oz_IbcDenom = ''ibc/'' @ i, oz_HostDenom = ''u'' @ i, oz_LastRedemptionRate = OneDec,
     oz_RedemptionRate = OneDec, oz_UnbondingFrequency = 3, oz_StakedBal = 500, oz_Address = ''zone''\<rparr>"

definition demo_codec :: migration_codec where
  "demo_codec = \<lparr>mc_deposit = (\<lambda>_. None), mc_redemption = (\<lambda>_. None),
     mc_unbonding = (\<lambda>_. Some \<lparr>oe_EpochNumber = 3, oe_HostZoneUnbondings = [demo_old_unbonding]\<rparr>),
     mc_zone = (\<lambda>bz. Some (demo_old_zone bz)), mc_callback = (\<lambda>_. None), mc_delegate = (\<lambda>_. None), mc_undelegate = (\<lambda>_. None),
     mc_rebalance = (\<lambda>_. None), mc_args = (\<lambda>_. []), mc_airdrops = (\<lambda>_. None)\<rparr>"

definition demo_old_records :: old_records where
  "demo_old_records = \<lparr>orc_deposits = [], orc_depositCount = 0, orc_redemptions = [], orc_unbondings = [(3, ''record'')]\<rparr>"

definition migrated_records :: records_state where
  "migrated_records = \<lparr>rs_deposits = [], rs_depositCount = 0, rs_unbondings = [(3, \<lparr>eur_EpochNumber = 0,
     eur_HostZoneUnbondings = [demo_hzu ''GAIA'' 600 UNBONDING_QUEUE]\<rparr>)], rs_redemptions = []\<rparr>"

definition migrated_chain :: chain where
  "migrated_chain = staking_chain\<lparr>c_records := migrated_records\<rparr>"

theorem migrated_unbondings_stall_witness:
  "GetEpochUnbondingRecord (c_records migrated_chain) 3 \<noteq> None \<and>
   GetHostZoneUnbondingMsgs migrated_chain (demo_zone [demo_validator ''v1'' 1 500]) = Ok nothing_to_unbond \<and>
   fst (RedeemStake ChainState.demo_env demo_redemption migrated_chain) \<noteq> Ok ()"
proof -
  have "records_MigrateStore demo_codec demo_old_records = Ok (c_records migrated_chain)"
    "GetEpochUnbondingRecord (c_records migrated_chain) 3 \<noteq> None" "0 \<notin> fst ` set (orc_unbondings demo_old_records)"
    by code_simp+
  with migrated_unbondings_stall [of demo_codec demo_old_records migrated_chain "demo_zone [demo_validator ''v1'' 1 500]" ChainState.demo_env 0 demo_redemption]
  show ?thesis by blast
qed

theorem migration_keeps_books_witness:
  "\<exists>zones. migrateHostZone demo_codec [(''gaia'', ''gaia''), (''osmo'', ''osmo'')] = Ok zones \<and>
     zones_sound (empty_chain\<lparr>c_hostZones := zones\<rparr>)"
proof (rule migration_keeps_books)
  show "map (\<lambda>e. (fst e, mc_zone demo_codec (snd e))) [(''gaia'', ''gaia''), (''osmo'', ''osmo'')] =
    map (\<lambda>e. (fst e, Some (snd e))) [(''gaia'', demo_old_zone ''gaia''), (''osmo'', demo_old_zone ''osmo'')]" by code_simp
  show "old_zones_sound [(''gaia'', demo_old_zone ''gaia''), (''osmo'', demo_old_zone ''osmo'')]"
    by code_simp
qed

end
