(* ===== verification/Upgrades.thy ===== *)
theory Upgrades
  imports Migrations Autopilot Mint
begin

text \<open>
  The upgrade handlers of the chain (\<open>app/upgrades\<close>): \<open>v3\<close> creates the first airdrops, \<open>v5\<close>
  migrates the stores, \<open>v6\<close> resets the claims, \<open>v7\<close> adds the hour epoch, the bounds of
  redemption rates and a payment, \<open>v8\<close> resets the claims again and replaces the unofficial airdrops,
  \<open>v9\<close> fills in what the migration of airdrops left empty. The last step of every handler,
  \<open>RunMigrations\<close> of the SDK's module manager, is a parameter, as is the allocation data.
\<close>

section \<open>v3 and v6\<close>

definition airdropDistributors :: "string list" where
  "airdropDistributors =
     [''stride1cpvl8yf848karqauyhr5jzw6d9n9lnuuu974ev'', ''stride1fmh0ysk5nt9y2cj8hddms5ffj2dhys55xkkjwz'',
      ''stride1zlu2l3lx5tqvzspvjwsw9u0e907kelhqae3yhk'', ''stride14k9g9zpgaycpey9840nnpa66l4nd6lu7g7t74c'',
      ''stride12pum4adk5dhp32d90f8g8gfwujm0gwxqnrdlum'']"

definition airdropIdentifiers :: "string list" where
  "airdropIdentifiers = [''stride'', ''gaia'', ''osmosis'', ''juno'', ''stars'']"

definition airdropChainIds :: "string list" where
  "airdropChainIds = [''stride-1'', ''cosmoshub-4'', ''osmosis-1'', ''juno-1'', ''stargaze-1'']"

definition DefaultClaimDenom :: denom where "DefaultClaimDenom = ''ustrd''"

text \<open>Three years of twelve months of thirty days, in seconds.\<close>

definition AirdropDuration :: uint64 where "AirdropDuration = 24 * 30 * 12 * 3 * 3600"

definition v3_upgrade :: "claim_env \<Rightarrow> string \<Rightarrow> (claim_state, unit) go \<Rightarrow> (claim_state, unit) go" where
  "v3_upgrade ce allocations RunMigrations =
     go_bind RunMigrations (\<lambda>_.
     go_bind (for_each (\<lambda>(distributor, identifier, chainId).
       CreateAirdropAndEpoch ce \<lparr>mca_Distributor = distributor, mca_Identifier = identifier, mca_ChainId = chainId,
         mca_Denom = DefaultClaimDenom, mca_StartTime = word_of_int (ce_blockTime ce div 10 ^ 9),
         mca_Duration = AirdropDuration, mca_AutopilotEnabled = False\<rparr>)
       (zip airdropDistributors (zip airdropIdentifiers airdropChainIds))) (\<lambda>_.
     go_bind (LoadAllocationData ce allocations) (\<lambda>_. go_ret ())))"

definition reset_claims :: "claim_env \<Rightarrow> (claim_state, unit) go" where
  "reset_claims ce = for_each (\<lambda>claimType. go_wrap Plain (ResetClaimStatus ce claimType)) airdropIdentifiers"

definition v6_upgrade :: "claim_env \<Rightarrow> (claim_state, unit) go \<Rightarrow> (claim_state, unit) go" where
  "v6_upgrade ce RunMigrations = go_bind (reset_claims ce) (\<lambda>_. RunMigrations)"

section \<open>v5\<close>

record old_app =
  oap_queries :: "(string, Query) kvstore"
  oap_claimParams :: string
  oap_callbacks :: "(string, string) kvstore"
  oap_records :: old_records
  oap_zones :: "(string, string) kvstore"

record new_app =
  nap_queries :: "(string, Query) kvstore"
  nap_params :: Params
  nap_airdrops :: "Airdrop list"
  nap_callbacks :: "(string, raw_callback) kvstore"
  nap_records :: records_state
  nap_zones :: "(string, HostZone) kvstore"

definition StaleQueryId :: string where
  "StaleQueryId = ''60b8e09dc7a65938cd6e6e5728b8aa0ca3726ffbe5511946a4f08ced316174ab''"

definition v5_changes :: "migration_codec \<Rightarrow> old_app \<Rightarrow> new_app res" where
  "v5_changes mc old =
     rbind (migrateClaimParams mc (oap_claimParams old)) (\<lambda>airdrops.
     rbind (migrateCallbacks mc (oap_callbacks old)) (\<lambda>callbacks.
     rbind (records_MigrateStore mc (oap_records old)) (\<lambda>records.
     rbind (migrateHostZone mc (oap_zones old)) (\<lambda>zones.
     Ok \<lparr>nap_queries = kv_delete StaleQueryId (oap_queries old), nap_params = DefaultParams, nap_airdrops = airdrops,
        nap_callbacks = callbacks, nap_records = records, nap_zones = zones\<rparr>))))"

section \<open>v7\<close>

record ica_host_params =
  ihp_HostEnabled :: bool
  ihp_AllowMessages :: "string list"

record v7_state =
  v7_epochs :: epoch_store
  v7_mint :: mint_state
  v7_icahost :: ica_host_params
  v7_params :: Params
  v7_chain :: chain

text \<open>\<open>Time.Truncate\<close> counts from the zero time.\<close>

definition Truncate :: "int \<Rightarrow> int \<Rightarrow> int" where
  "Truncate t d = t - (t - zero_time) mod d"

definition hour :: int where "hour = 3600 * 10 ^ 9"

definition AddHourEpoch :: "env \<Rightarrow> int \<Rightarrow> epoch_store \<Rightarrow> epoch_store" where
  "AddHourEpoch env blockHeight st =
     (let startTime = Truncate (e_blockTime env) hour in
      SetEpochInfo \<lparr>ei_Identifier = HOUR_EPOCH, ei_StartTime = startTime, ei_Duration = hour, ei_CurrentEpoch = 0,
        ei_CurrentEpochStartTime = startTime, ei_EpochCountingStarted = False, ei_CurrentEpochStartHeight = blockHeight\<rparr> st)"

definition IncreaseStrideInflation :: "mint_state \<Rightarrow> mint_state" where
  "IncreaseStrideInflation s = SetMinter \<lparr>mn_EpochProvisions = NewDec 1078767123\<rparr> s"

definition AddICAHostAllowMessages :: ica_host_params where
  "AddICAHostAllowMessages =
     \<lparr>ihp_HostEnabled = True,
      ihp_AllowMessages =
        [''/cosmos.bank.v1beta1.MsgSend'', ''/cosmos.bank.v1beta1.MsgMultiSend'', ''/cosmos.staking.v1beta1.MsgDelegate'',
         ''/cosmos.staking.v1beta1.MsgUndelegate'', ''/cosmos.staking.v1beta1.MsgBeginRedelegate'',
         ''/cosmos.distribution.v1beta1.MsgWithdrawDelegatorReward'', ''/cosmos.distribution.v1beta1.MsgSetWithdrawAddress'',
         ''/ibc.applications.transfer.v1.MsgTransfer'', ''/cosmos.gov.v1beta1.MsgVote'', ''/stride.stakeibc.MsgLiquidStake'',
         ''/stride.stakeibc.MsgRedeemStake'', ''/stride.stakeibc.MsgClaimUndelegatedTokens'']\<rparr>"

definition NewDecWithPrec2 :: "int \<Rightarrow> Dec" where "NewDecWithPrec2 i = i * 10 ^ 16"

definition safe_zone :: "Params \<Rightarrow> HostZone \<Rightarrow> HostZone" where
  "safe_zone params hostZone =
     hostZone\<lparr>hz_MinRedemptionRate := Some (NewDecWithPrec2 (sint (prm_DefaultMinRedemptionRateThreshold params))),
       hz_MaxRedemptionRate := Some (NewDecWithPrec2 (sint (prm_DefaultMaxRedemptionRateThreshold params))), hz_Halted := False\<rparr>"

definition AddRedemptionRateSafetyChecks :: "chain \<Rightarrow> chain" where
  "AddRedemptionRateSafetyChecks c = fold (\<lambda>hostZone. SetHostZone (safe_zone DefaultParams hostZone)) (GetAllHostZone c) c"

definition ModifyJunoUnbondingFrequency :: "(chain, unit) go" where
  "ModifyJunoUnbondingFrequency =
     go_bind (go_gets (\<lambda>c. GetHostZone c ''juno-1'')) (\<lambda>found.
     go_bind (go_found found (StakeIBCErr ErrHostZoneNotFound)) (\<lambda>junoHostZone.
     go_modify (SetHostZone (junoHostZone\<lparr>hz_UnbondingFrequency := 5\<rparr>))))"

definition IncentiveProgramAddress :: string where
  "IncentiveProgramAddress = ''stride1tlxk4as9sgpqkh42cfaxqja0mdj6qculqshy0gg3glazmrnx3y8s8gsvqk''"

definition StrideFoundationAddress_F4 :: string where
  "StrideFoundationAddress_F4 = ''stride1yz3mp7c2m739nftfrv5r3h6j64aqp95f3degpf''"

definition STRDProp153SendAmount :: int where "STRDProp153SendAmount = 3000000000000"

definition ExecuteProp153 :: "env \<Rightarrow> (chain, unit) go" where
  "ExecuteProp153 env =
     go_bind (go_lift (sdk_AccAddressFromBech32 env IncentiveProgramAddress)) (\<lambda>incentiveProgramAddress.
     go_bind (go_lift (sdk_AccAddressFromBech32 env StrideFoundationAddress_F4)) (\<lambda>strideFoundationAddress.
     go_bind (go_lift (NewCoin ''ustrd'' STRDProp153SendAmount)) (\<lambda>amount.
     go_bind (go_lift (NewCoins [amount])) (\<lambda>coins.
     on_bank (SendCoins (e_bank env) incentiveProgramAddress strideFoundationAddress coins)))))"

definition CreateRewardCollectorModuleAccount :: "env \<Rightarrow> unit res" where
  "CreateRewardCollectorModuleAccount env =
     CreateModuleAccount env (e_ModuleAddress env ''reward_collector'' ''reward_collector'')"

definition on_v7_chain :: "(chain, 'a) go \<Rightarrow> (v7_state, 'a) go" where
  "on_v7_chain m s = (case m (v7_chain s) of (r, c) \<Rightarrow> (r, s\<lparr>v7_chain := c\<rparr>))"

definition v7_changes :: "env \<Rightarrow> int \<Rightarrow> (v7_state, unit) go" where
  "v7_changes env blockHeight =
     go_bind (go_modify (v7_epochs_update (AddHourEpoch env blockHeight))) (\<lambda>_.
     go_bind (go_modify (v7_mint_update IncreaseStrideInflation)) (\<lambda>_.
     go_bind (go_modify (\<lambda>s. s\<lparr>v7_icahost := AddICAHostAllowMessages\<rparr>)) (\<lambda>_.
     go_bind (go_modify (\<lambda>s. s\<lparr>v7_params := DefaultParams, v7_chain := AddRedemptionRateSafetyChecks (v7_chain s)\<rparr>)) (\<lambda>_.
     go_bind (go_wrap Plain (on_v7_chain ModifyJunoUnbondingFrequency)) (\<lambda>_.
     go_bind (go_wrap Plain (on_v7_chain (ExecuteProp153 env))) (\<lambda>_.
     go_wrap Plain (go_lift (CreateRewardCollectorModuleAccount env))))))))"

definition v7_upgrade :: "env \<Rightarrow> int \<Rightarrow> (v7_state, unit) go \<Rightarrow> (v7_state, unit) go" where
  "v7_upgrade env blockHeight RunMigrations = go_bind (v7_changes env blockHeight) (\<lambda>_. RunMigrations)"

section \<open>v8 and v9\<close>

definition EvmosAirdrop :: MsgCreateAirdrop where
  "EvmosAirdrop =
     \<lparr>mca_Distributor = ''stride10dy5pmc2fq7fnmufjfschkfrxaqnpykl6ezy5j'', mca_Identifier = ''evmos'',
      mca_ChainId = ''evmos_9001-2'', mca_Denom = DefaultClaimDenom, mca_StartTime = 1680537600,
      mca_Duration = AirdropDuration, mca_AutopilotEnabled = True\<rparr>"

definition v8_claims :: "claim_env \<Rightarrow> string \<Rightarrow> (claim_state, unit) go" where
  "v8_claims ce allocations =
     go_bind (reset_claims ce) (\<lambda>_.
     go_bind (go_wrap Plain claim_GetParams) (\<lambda>claimParams.
     go_bind (go_wrap Plain (claim_SetParams ce
       (filter (\<lambda>existingAirdrop. ad_AirdropIdentifier existingAirdrop \<in> set airdropIdentifiers) claimParams))) (\<lambda>_.
     go_bind (CreateAirdropAndEpoch ce EvmosAirdrop) (\<lambda>_.
     go_bind (LoadAllocationData ce allocations) (\<lambda>_. go_ret ())))))"

definition v8_upgrade :: "claim_env \<Rightarrow> string \<Rightarrow> (world, unit) go \<Rightarrow> (world, unit) go" where
  "v8_upgrade ce allocations RunMigrations =
     go_bind (on_claim (v8_claims ce allocations)) (\<lambda>_.
     go_bind (go_modify (\<lambda>w. w\<lparr>w_autopilot := autopilot_DefaultParams\<rparr>)) (\<lambda>_. RunMigrations))"

definition AirdropChainIds :: "string \<Rightarrow> string option" where
  "AirdropChainIds = map_of (zip airdropIdentifiers airdropChainIds @ [(''evmos'', ''evmos_9001-2'')])"

definition add_fields :: "Airdrop \<Rightarrow> Airdrop" where
  "add_fields airdrop =
     (case AirdropChainIds (ad_AirdropIdentifier airdrop) of
        None \<Rightarrow> airdrop
      | Some chainId \<Rightarrow> airdrop\<lparr>ad_ChainId := chainId, ad_AutopilotEnabled := (ad_AirdropIdentifier airdrop = ''evmos'')\<rparr>)"

definition AddFieldsToAirdropType :: "claim_env \<Rightarrow> (claim_state, unit) go" where
  "AddFieldsToAirdropType ce =
     go_bind (go_wrap Plain claim_GetParams) (\<lambda>claimParams.
     go_wrap Plain (claim_SetParams ce (map add_fields claimParams)))"

definition v9_upgrade :: "claim_env \<Rightarrow> (claim_state, unit) go \<Rightarrow> (claim_state, unit) go" where
  "v9_upgrade ce RunMigrations = go_bind (go_wrap Plain (AddFieldsToAirdropType ce)) (\<lambda>_. RunMigrations)"

section \<open>What v7 leaves behind\<close>

lemma on_v7_chain_eq [go_simps]:
  "on_v7_chain m s = (r, t) \<longleftrightarrow> (\<exists>c. m (v7_chain s) = (r, c) \<and> t = s\<lparr>v7_chain := c\<rparr>)"
  by (auto simp: on_v7_chain_def split: prod.splits)

lemma zones_rewritten:
  assumes wf: "zones_wf c" and g: "\<And>z. hz_ChainId (g z) = hz_ChainId z"
  shows "GetHostZone (fold (\<lambda>z. SetHostZone (g z)) (GetAllHostZone c) c) k = Some z' \<longleftrightarrow> (\<exists>z. GetHostZone c k = Some z \<and> z' = g z)"
    "zones_wf (fold (\<lambda>z. SetHostZone (g z)) (GetAllHostZone c) c)"
proof -
  let ?t = "fold SetHostZone (map g (filter (\<lambda>_. True) (GetAllHostZone c))) c"
  have eq: "fold (\<lambda>z. SetHostZone (g z)) (GetAllHostZone c) c = ?t" by (simp add: fold_map comp_def)
  have wft: "zones_wf ?t" by (rule zones.wf_fold_put [OF wf])
  have mem: "x \<in> set (GetAllHostZone ?t) \<longleftrightarrow> (\<exists>v\<in>set (GetAllHostZone c). x = g v)" for x
    using zones.mem_update_some [OF wf, where g = g and P = "\<lambda>_. True"] g by simp
  have get: "GetHostZone d k = Some z \<longleftrightarrow> z \<in> set (GetAllHostZone d) \<and> hz_ChainId z = k" if "zones_wf d" for d z
    using zones.listing_iff [OF that, of z] zones.get_key [OF that, of k z] by auto
  show "GetHostZone (fold (\<lambda>z. SetHostZone (g z)) (GetAllHostZone c) c) k = Some z' \<longleftrightarrow> (\<exists>z. GetHostZone c k = Some z \<and> z' = g z)"
    unfolding eq get [OF wft] get [OF wf] mem using g by auto
  show "zones_wf (fold (\<lambda>z. SetHostZone (g z)) (GetAllHostZone c) c)" unfolding eq by (rule wft)
qed

lemma safe_zone_simps [simp]:
  "hz_ChainId (safe_zone p z) = hz_ChainId z" "zone_id (safe_zone p z) = zone_id z" "balanced (safe_zone p z) = balanced z"
  by (simp_all add: safe_zone_def zone_id_def balanced_def)

lemma SafetyChecks_sound:
  assumes "zones_sound c"
  shows "zones_sound (AddRedemptionRateSafetyChecks c)"
    "GetHostZone (AddRedemptionRateSafetyChecks c) k = Some z' \<Longrightarrow> \<exists>z. z' = safe_zone DefaultParams z"
proof -
  have wf: "zones_wf c" using assms by (simp add: zones_sound_def)
  note r = zones_rewritten [OF wf, where g = "safe_zone DefaultParams", folded AddRedemptionRateSafetyChecks_def]
  have get: "GetHostZone (AddRedemptionRateSafetyChecks c) k = Some z' \<longleftrightarrow> (\<exists>z. GetHostZone c k = Some z \<and> z' = safe_zone DefaultParams z)"
    for k z' by (rule r) simp
  have "zones_wf (AddRedemptionRateSafetyChecks c)" by (rule r(2)) simp
  moreover have "apart (safe_zone p z) (safe_zone p z') = apart z z'" for p z z' by (rule apart_id) simp_all
  ultimately show "zones_sound (AddRedemptionRateSafetyChecks c)"
    using assms by (auto simp: zones_sound_def get)
  show "GetHostZone (AddRedemptionRateSafetyChecks c) k = Some z' \<Longrightarrow> \<exists>z. z' = safe_zone DefaultParams z"
    by (auto simp: get)
qed

lemma SafetyChecks_bank: "c_bank (AddRedemptionRateSafetyChecks c) = c_bank c"
proof -
  have "c_bank (fold (\<lambda>z. SetHostZone (f z)) zs c) = c_bank c" for f zs by (induction zs arbitrary: c) simp_all
  then show ?thesis by (simp add: AddRedemptionRateSafetyChecks_def)
qed

lemma safe_zone_bounds:
  assumes "e_params env = DefaultParams" "hz_MinRedemptionRate z = Some (9 * 10 ^ 17)" "hz_MaxRedemptionRate z = Some (15 * 10 ^ 17)"
  shows "IsRedemptionRateWithinSafetyBounds env z =
    (if 9 * 10 ^ 17 \<le> hz_RedemptionRate z \<and> hz_RedemptionRate z \<le> 15 * 10 ^ 17 then Ok True
     else Err (StakeIBCErr ErrRedemptionRateOutsideSafetyBounds))"
proof -
  have "Dec_Quo (NewDec 90) (NewDec 100) = Ok (9 * 10 ^ 17)" "Dec_Quo (NewDec 150) (NewDec 100) = Ok (15 * 10 ^ 17)" by code_simp+
  then show ?thesis
    by (auto simp: IsRedemptionRateWithinSafetyBounds_def assms DefaultParams_def)
qed

lemma Truncate_bounds: "0 < d \<Longrightarrow> Truncate t d \<le> t \<and> t < Truncate t d + d"
  by (simp add: Truncate_def)

text \<open>After the changes of v7 no zone is halted, and a zone passes the safety check exactly when its
  redemption rate is between 0.9 and 1.5. Zones stay sound and timers on schedule, with a new
  timer of one hour that starts at the hour of the upgrade and runs through it. Exactly the amount of
  the proposal moves between the two accounts.\<close>

theorem v7_bounds_every_zone:
  assumes sound: "zones_sound (v7_chain s)" and timers: "timers_ok n (v7_epochs s)" "0 \<le> n"
    and locked: "0 \<le> be_locked (e_bank env) a ''ustrd''"
    and program: "sdk_AccAddressFromBech32 env IncentiveProgramAddress = Ok a"
    and run: "v7_changes env height s = (Ok (), t)"
  shows "zones_sound (v7_chain t) \<and> timers_ok n (v7_epochs t) \<and>
    (\<forall>z\<in>set (GetAllHostZone (v7_chain t)). \<not> hz_Halted z \<and>
       IsRedemptionRateWithinSafetyBounds (env\<lparr>e_params := v7_params t\<rparr>) z =
         (if 9 * 10 ^ 17 \<le> hz_RedemptionRate z \<and> hz_RedemptionRate z \<le> 15 * 10 ^ 17 then Ok True
          else Err (StakeIBCErr ErrRedemptionRateOutsideSafetyBounds))) \<and>
    (\<exists>e. GetEpochInfo (v7_epochs t) HOUR_EPOCH = Some e \<and> ei_StartTime e \<le> e_blockTime env \<and>
       e_blockTime env < ei_StartTime e + ei_Duration e) \<and>
    (\<exists>b. sdk_AccAddressFromBech32 env StrideFoundationAddress_F4 = Ok b \<and>
       c_bank (v7_chain t) = bank_move a b ''ustrd'' STRDProp153SendAmount (c_bank (v7_chain s)))"
proof -
  let ?c1 = "AddRedemptionRateSafetyChecks (v7_chain s)"
  obtain juno b coins bk where t: "GetHostZone ?c1 ''juno-1'' = Some juno" "sdk_AccAddressFromBech32 env StrideFoundationAddress_F4 = Ok b"
    "NewCoins [(''ustrd'', STRDProp153SendAmount)] = Ok coins"
    "SendCoins (e_bank env) a b coins (c_bank (v7_chain s)) = (Ok (), bk)"
    "v7_chain t = (SetHostZone (juno\<lparr>hz_UnbondingFrequency := 5\<rparr>) ?c1)\<lparr>c_bank := bk\<rparr>"
    "v7_epochs t = AddHourEpoch env height (v7_epochs s)" "v7_params t = DefaultParams"
    using run program
    by (auto simp: v7_changes_def ModifyJunoUnbondingFrequency_def ExecuteProp153_def go_simps NewCoin_Ok SafetyChecks_bank on_bank_eq split: option.splits)
  let ?juno = "juno\<lparr>hz_UnbondingFrequency := 5\<rparr>"
  have juno: "hz_ChainId juno = ''juno-1''"
    using SafetyChecks_sound(1) [OF sound] t(1) zones.get_key by (auto simp: zones_sound_def)
  have sound': "zones_sound (SetHostZone ?juno ?c1)"
  proof (rule zones_sound_Set [OF SafetyChecks_sound(1) [OF sound]])
    show "GetHostZone ?c1 (hz_ChainId ?juno) = Some juno" using t(1) juno by simp
    show "balanced ?juno"
      using zones_soundD(2) [OF SafetyChecks_sound(1) [OF sound] t(1)] by (simp add: balanced_def)
  qed (simp add: zone_id_def)
  have safe: "\<not> hz_Halted z \<and> hz_MinRedemptionRate z = Some (9 * 10 ^ 17) \<and> hz_MaxRedemptionRate z = Some (15 * 10 ^ 17)"
    if z: "z \<in> set (GetAllHostZone (v7_chain t))" for z
  proof -
    have "zones_wf (v7_chain t)" using sound' by (simp add: t zones_sound_def)
    with z have "GetHostZone (SetHostZone ?juno ?c1) (hz_ChainId z) = Some z" by (simp add: zones.listing_iff t)
    then have "(z = ?juno) \<or> GetHostZone ?c1 (hz_ChainId z) = Some z" by (auto simp: zones.get_put split: if_splits)
    with t(1) SafetyChecks_sound(2) [OF sound] obtain w where "z = safe_zone DefaultParams w \<or> z = (safe_zone DefaultParams w)\<lparr>hz_UnbondingFrequency := 5\<rparr>"
      by blast
    then show ?thesis by (auto simp: safe_zone_def NewDecWithPrec2_def DefaultParams_def)
  qed
  have hour: "timers_ok n (v7_epochs t)"
    unfolding t AddHourEpoch_def Let_def using timers by (intro timers_ok_Set) (simp_all add: on_schedule_def)
  have "bk = bank_move a b ''ustrd'' STRDProp153SendAmount (c_bank (v7_chain s))"
    by (rule SendCoins_Ok(1) [OF t(4,3) locked])
  moreover have "0 < hour" by (simp add: hour_def)
  ultimately show ?thesis
    using sound' hour safe safe_zone_bounds [of "env\<lparr>e_params := DefaultParams\<rparr>"] Truncate_bounds [of hour "e_blockTime env"]
    by (auto simp: t AddHourEpoch_def Let_def epochs.get_put)
qed

section \<open>What v8 leaves behind\<close>

text \<open>An airdrop as it was, or with its counter of claimed tokens reset.\<close>

definition same_airdrop :: "Airdrop \<Rightarrow> Airdrop \<Rightarrow> bool" where
  "same_airdrop a b \<longleftrightarrow> b = a \<or> b = a\<lparr>ad_ClaimedSoFar := 0\<rparr>"

lemma same_airdrop_facts:
  "same_airdrop a a" "same_airdrop a b \<Longrightarrow> ad_AirdropIdentifier b = ad_AirdropIdentifier a"
  "same_airdrop a b \<Longrightarrow> same_airdrop a (b\<lparr>ad_ClaimedSoFar := 0\<rparr>)"
  by (auto simp: same_airdrop_def)

definition evolves :: "Airdrop list \<Rightarrow> epoch_store \<Rightarrow> bank \<Rightarrow> claim_state \<Rightarrow> bool" where
  "evolves old epochs b s \<longleftrightarrow> (\<exists>ps. cl_params s = Some ps \<and> list_all2 same_airdrop old ps) \<and> cl_epochs s = epochs \<and> cl_bank s = b"

lemma keeps_records:
  assumes "\<And>s rs. I s \<Longrightarrow> I (s\<lparr>cl_records := rs\<rparr>)" shows "keeps I (SetClaimRecords ce rs)"
  unfolding SetClaimRecords_def SetClaimRecord_def by (intro keeps_intros assms)

lemma keeps_reset_so_far: "keeps (evolves old epochs b) (ResetClaimedSoFar ce i)"
proof (rule keepsI)
  fix s r t
  assume s: "evolves old epochs b s" and run: "ResetClaimedSoFar ce i s = (r, t)"
  obtain ps where ps: "cl_params s = Some ps" "list_all2 same_airdrop old ps" using s by (auto simp: evolves_def)
  have "list_all2 same_airdrop old (map (\<lambda>a. if ad_AirdropIdentifier a = i then a\<lparr>ad_ClaimedSoFar := 0\<rparr> else a) ps)"
    using ps(2) by (auto simp: list_all2_conv_all_nth same_airdrop_facts)
  moreover have "t = s \<or> t = s\<lparr>cl_params := Some (map (\<lambda>a. if ad_AirdropIdentifier a = i then a\<lparr>ad_ClaimedSoFar := 0\<rparr> else a) ps)\<rparr>"
    using run ps(1) by (auto simp: ResetClaimedSoFar_def go_defs must_def claim_GetParams_def claim_SetParams_def split: if_splits)
  ultimately show "evolves old epochs b t" using s by (auto simp: evolves_def)
qed

lemma keeps_initial_period: "keeps I (IsInitialPeriodPassed ce i)"
  by (rule keepsI) (auto simp: IsInitialPeriodPassed_def go_bind_def GetAirdropByIdentifier_eq go_ret_def
      split: if_splits option.splits)

lemma keeps_reset_claims: "keeps (evolves old epochs b) (reset_claims ce)"
  unfolding reset_claims_def ResetClaimStatus_def
  by (intro keeps_intros keeps_initial_period keeps_reset_so_far keeps_records) (simp add: evolves_def)

lemma keeps_allocation:
  "keeps (\<lambda>s. cl_params s = ps \<and> cl_epochs s = epochs \<and> cl_bank s = b) (LoadAllocationData ce data)"
  unfolding LoadAllocationData_def SetClaimRecordsWithWeights_def
  by (intro keeps_intros keeps_records) (simp_all add: SetTotalWeight_def)

lemma evolves_official:
  "list_all2 same_airdrop old ps \<Longrightarrow>
   list_all2 same_airdrop (filter (\<lambda>a. ad_AirdropIdentifier a \<in> ids) old) (filter (\<lambda>a. ad_AirdropIdentifier a \<in> ids) ps)"
  by (induction rule: list_all2_induct) (auto simp: same_airdrop_facts)

text \<open>Property C29. v8 keeps exactly the five official airdrops, with at most their counters reset, and adds the one for
  evmos. No token moves. The airdrops that are dropped leave their timers behind: of the timers only
  the new one is added.\<close>

theorem v8_replaces_airdrops:
  assumes params: "cl_params s = Some old" and run: "v8_claims ce allocations s = (Ok (), t)"
  shows "(\<exists>ps. cl_params t = Some (ps @ [new_airdrop EvmosAirdrop]) \<and>
      list_all2 same_airdrop (filter (\<lambda>a. ad_AirdropIdentifier a \<in> set airdropIdentifiers) old) ps) \<and>
    (\<forall>i. i \<noteq> ''airdrop-evmos'' \<longrightarrow> GetEpochInfo (cl_epochs t) i = GetEpochInfo (cl_epochs s) i) \<and>
    cl_bank t = cl_bank s"
proof -
  let ?official = "filter (\<lambda>a. ad_AirdropIdentifier a \<in> set airdropIdentifiers)"
  obtain s1 ps s2 d where reset: "reset_claims ce s = (Ok (), s1)" and ps: "cl_params s1 = Some ps"
    and add: "CreateAirdropAndEpoch ce EvmosAirdrop (s1\<lparr>cl_params := Some (?official ps)\<rparr>) = (Ok (), s2)"
    and load: "LoadAllocationData ce allocations s2 = (Ok d, t)"
    using run by (auto simp: v8_claims_def go_simps)
  have "evolves old (cl_epochs s) (cl_bank s) s"
    using params by (simp add: evolves_def list_all2_refl same_airdrop_facts)
  from keepsD [OF keeps_reset_claims reset this] ps
  have s1: "list_all2 same_airdrop (?official old) (?official ps)" "cl_epochs s1 = cl_epochs s" "cl_bank s1 = cl_bank s"
    by (auto simp: evolves_def intro: evolves_official)
  have s2: "cl_params s2 = Some (?official ps @ [new_airdrop EvmosAirdrop])" "cl_bank s2 = cl_bank s"
    "\<exists>e. ei_Identifier e = ''airdrop-evmos'' \<and> cl_epochs s2 = SetEpochInfo e (cl_epochs s)"
  proof -
    have "mca_Identifier EvmosAirdrop = ''evmos''" by (simp add: EvmosAirdrop_def)
    with add s1 show "cl_params s2 = Some (?official ps @ [new_airdrop EvmosAirdrop])" "cl_bank s2 = cl_bank s"
      "\<exists>e. ei_Identifier e = ''airdrop-evmos'' \<and> cl_epochs s2 = SetEpochInfo e (cl_epochs s)"
      by (auto simp: CreateAirdropAndEpoch_def go_simps Let_def intro: exI [where P = "\<lambda>e. _ e \<and> SetEpochInfo _ _ = SetEpochInfo e _", OF conjI, OF _ refl])
  qed
  have "cl_params t = cl_params s2 \<and> cl_epochs t = cl_epochs s2 \<and> cl_bank t = cl_bank s2"
    using keepsD [OF keeps_allocation load] by simp
  with s1 s2 show ?thesis by (auto simp: epochs.get_put)
qed

section \<open>What v9 leaves behind\<close>

lemma v9_fields:
  assumes "AddFieldsToAirdropType ce s = (Ok (), t)" "cl_params s = Some ps"
  shows "cl_params t = Some (map add_fields ps)"
  using assms by (auto simp: AddFieldsToAirdropType_def go_simps)

lemma AirdropChainIds_inj: "AirdropChainIds i = Some c \<Longrightarrow> AirdropChainIds j = Some c \<Longrightarrow> i = j"
proof -
  let ?chains = "zip airdropIdentifiers airdropChainIds @ [(''evmos'', ''evmos_9001-2'')]"
  have "list_all (\<lambda>e. list_all (\<lambda>e'. snd e = snd e' \<longrightarrow> fst e = fst e') ?chains) ?chains" by code_simp
  then show "AirdropChainIds i = Some c \<Longrightarrow> AirdropChainIds j = Some c \<Longrightarrow> i = j"
    unfolding AirdropChainIds_def list_all_iff by (metis fst_conv map_of_SomeD snd_conv)
qed

lemma AirdropChainIds_ne: "AirdropChainIds i = Some c \<Longrightarrow> c \<noteq> []"
proof -
  let ?chains = "zip airdropIdentifiers airdropChainIds @ [(''evmos'', ''evmos_9001-2'')]"
  have "list_all (\<lambda>e. snd e \<noteq> []) ?chains" by code_simp
  then show "AirdropChainIds i = Some c \<Longrightarrow> c \<noteq> []"
    unfolding AirdropChainIds_def list_all_iff by (metis map_of_SomeD snd_conv)
qed

lemma find_unique: "a \<in> set xs \<Longrightarrow> P a \<Longrightarrow> (\<And>x. x \<in> set xs \<Longrightarrow> P x \<Longrightarrow> x = a) \<Longrightarrow> List.find P xs = Some a"
proof (induction xs)
  case (Cons x xs)
  show ?case
  proof (cases "P x")
    case True
    then have "x = a" by (rule Cons.prems(3) [OF list.set_intros(1)])
    with True show ?thesis by simp
  next
    case False
    with Cons.prems(1,2) have "a \<in> set xs" by auto
    with Cons.prems(2,3) have "List.find P xs = Some a" by (intro Cons.IH) simp_all
    with False show ?thesis by simp
  qed
qed simp

text \<open>After v5 no airdrop has a chain id, and none is found by one. After v9 each is found by the chain of its
  identifier, with its terms as they were, as long as only the airdrops of the list exist.\<close>

theorem v9_airdrops_found_by_chain:
  assumes run: "AddFieldsToAirdropType ce s = (Ok (), t)" and params: "cl_params s = Some ps"
    and listed: "\<And>a. a \<in> set ps \<Longrightarrow> AirdropChainIds (ad_AirdropIdentifier a) \<noteq> None"
    and dist: "distinct (map ad_AirdropIdentifier ps)"
    and a: "a \<in> set ps" "AirdropChainIds (ad_AirdropIdentifier a) = Some c"
  shows "fst (GetAirdropByChainId c t) =
    Ok (Some (a\<lparr>ad_ChainId := c, ad_AutopilotEnabled := (ad_AirdropIdentifier a = ''evmos'')\<rparr>))"
proof -
  have new: "add_fields a = a\<lparr>ad_ChainId := c, ad_AutopilotEnabled := (ad_AirdropIdentifier a = ''evmos'')\<rparr>"
    by (simp add: add_fields_def a)
  have "List.find (\<lambda>x. ad_ChainId x = c) (map add_fields ps) = Some (add_fields a)"
  proof (rule find_unique)
    fix x assume x: "x \<in> set (map add_fields ps)" "ad_ChainId x = c"
    then obtain b where b: "b \<in> set ps" "x = add_fields b" by auto
    with listed [OF b(1)] x(2) have "AirdropChainIds (ad_AirdropIdentifier b) = Some c" by (auto simp: add_fields_def)
    with a have "ad_AirdropIdentifier b = ad_AirdropIdentifier a" by (blast intro: AirdropChainIds_inj)
    with dist a(1) b show "x = add_fields a" by (auto simp: distinct_map inj_on_def)
  next
    show "add_fields a \<in> set (map add_fields ps)" using a(1) by simp
    show "ad_ChainId (add_fields a) = c" by (simp add: new)
  qed
  moreover have "c \<noteq> []" by (rule AirdropChainIds_ne [OF a(2)])
  ultimately show ?thesis using v9_fields [OF run params] new
    by (simp add: GetAirdropByChainId_def go_defs must_def claim_GetParams_def)
qed

section \<open>A concrete upgrade\<close>

definition upgrade_env :: env where
  "upgrade_env = ChainState.demo_env\<lparr>e_DecodeBech32 := (\<lambda>s. Some (takeWhile (\<lambda>ch. ch \<noteq> CHR ''1'') s, take 20 (drop 7 s)))\<rparr>"

definition upgrade_claim_env :: "int \<Rightarrow> claim_env" where
  "upgrade_claim_env time = demo_claim_env\<lparr>ce_env := upgrade_env\<lparr>e_blockTime := time * 10 ^ 9\<rparr>\<rparr>"

definition unofficial_airdrop :: MsgCreateAirdrop where
  "unofficial_airdrop = EvmosAirdrop\<lparr>mca_Identifier := ''unofficial'', mca_ChainId := ''test-1'', mca_StartTime := 1670000000\<rparr>"

text \<open>The airdrops of v3, and one more.\<close>

definition before_v8 :: claim_state where
  "before_v8 = snd (go_bind (v3_upgrade (upgrade_claim_env 1670000000) [] (go_ret ()))
     (\<lambda>_. CreateAirdropAndEpoch (upgrade_claim_env 1670000000) unofficial_airdrop)
     (demo_claim_state\<lparr>cl_params := Some [], cl_records := [], cl_weights := []\<rparr>))"

theorem v8_replaces_airdrops_witness:
  "\<exists>old t. cl_params before_v8 = Some old \<and> map ad_AirdropIdentifier old = airdropIdentifiers @ [''unofficial''] \<and>
     v8_claims (upgrade_claim_env 1680000000) [] before_v8 = (Ok (), t) \<and>
     map_option (map ad_AirdropIdentifier) (cl_params t) = Some (airdropIdentifiers @ [''evmos'']) \<and>
     GetEpochInfo (cl_epochs t) ''airdrop-unofficial'' \<noteq> None \<and> cl_bank t = cl_bank before_v8"
proof -
  have run: "(case v8_claims (upgrade_claim_env 1680000000) [] before_v8 of (r, t) \<Rightarrow> r = Ok () \<and>
     map_option (map ad_AirdropIdentifier) (cl_params t) = Some (airdropIdentifiers @ [''evmos'']))"
    by code_simp
  have old: "map_option (map ad_AirdropIdentifier) (cl_params before_v8) = Some (airdropIdentifiers @ [''unofficial''])"
    "GetEpochInfo (cl_epochs before_v8) ''airdrop-unofficial'' \<noteq> None" by code_simp+
  obtain t where t: "v8_claims (upgrade_claim_env 1680000000) [] before_v8 = (Ok (), t)"
    "map_option (map ad_AirdropIdentifier) (cl_params t) = Some (airdropIdentifiers @ [''evmos''])"
    using run by (auto split: prod.splits)
  obtain ps where ps: "cl_params before_v8 = Some ps" "map ad_AirdropIdentifier ps = airdropIdentifiers @ [''unofficial'']"
    using old(1) by auto
  from v8_replaces_airdrops [OF ps(1) t(1)] old(2) ps t show ?thesis by auto
qed

text \<open>The changes of v7 on a chain with one halted zone.\<close>

definition before_v7 :: v7_state where
  "before_v7 = \<lparr>v7_epochs = [], v7_mint = mint_loaded, v7_icahost = \<lparr>ihp_HostEnabled = False, ihp_AllowMessages = []\<rparr>,
     v7_params = DefaultParams,
     v7_chain = (SetHostZone ((demo_zone [demo_validator ''v1'' 1 500])\<lparr>hz_ChainId := ''juno-1'', hz_Halted := True\<rparr>) empty_chain)
       \<lparr>c_bank := \<lparr>bk_balance = (\<lambda>a d. if d = ''ustrd'' then 5 * 10 ^ 12 else 0), bk_supply = (\<lambda>_. 0)\<rparr>\<rparr>\<rparr>"

lemma v7_run:
  "case v7_changes upgrade_env 77 before_v7 of (r, t) \<Rightarrow>
     r = Ok () \<and> map hz_Halted (GetAllHostZone (v7_chain t)) = [False] \<and> map hz_UnbondingFrequency (GetAllHostZone (v7_chain t)) = [5]"
  by code_simp

end
