(* ===== verification/Spec2Isabelle.thy ===== *)
theory Spec2Isabelle
  imports RateLimit Mint Books Autopilot Payouts Cron Upgrades
begin

text \<open>
  A verification of the two chains in this repository: the liquid staking chain, whose Go modules
  are under \<open>src/x\<close>, and the contract chain with the rewards that are staked there, whose
  modules are under \<open>src/deps/archway-main/x\<close>. Both are modelled as functions and proved
  correct, with the parts of the SDK they compute with.

  \<^bold>\<open>The program.\<close> A user sends tokens of a host chain over IBC and liquid stakes them
  (\<open>x/stakeibc\<close>): he gets liquid tokens minted at the redemption rate of the host zone, the
  staked amount goes into a deposit record (\<open>x/records\<close>). Timers (\<open>x/epochs\<close>) drive the
  rest: deposits are transferred to the host chain and delegated there through interchain accounts,
  rewards are collected and reinvested, the redemption rate is updated, redemptions are unbonded and
  swept, users claim what was unbonded. Every transaction on the host chain is answered later by an
  acknowledgement or a timeout, which \<open>x/icacallbacks\<close> routes to the callback stored with it;
  balances and exchange rates come back through \<open>x/interchainquery\<close> with a Merkle proof.
  Around this core: transfers are limited per channel and hour (\<open>x/ratelimit\<close>) and can carry
  a liquid stake or a change of an airdrop address in their memo (\<open>x/autopilot\<close>); airdrops are
  paid into vesting accounts when a user has acted (\<open>x/claim\<close>); \<open>x/mint\<close> inflates the
  chain's own token.

  The contract chain tracks the gas of every contract operation (\<open>x/tracking\<close>) and shares the
  inflation and a part of the fees of a block among its contracts by it (\<open>x/rewards\<close>), as
  records that the owner of a rewards address withdraws. Its module \<open>x/photosynthesis\<close> is meant to
  have these rewards staked: a message runs four tasks that book the rewards of the contracts, file
  them as deposits, total the deposits and share the liquidity, and redeem.

  \<^bold>\<open>How it is modelled.\<close> A Go function over a store is a HOL function that returns a result
  (\<open>Ok\<close>, an error sentinel, or \<open>Panic\<close>) and the state it leaves, on every path; early
  returns, ignored errors and panics are branches of the definition. Structs are records with
  prefixed field names, stores are association lists sorted by key, as the iterators walk them,
  \<open>uint64\<close> values are 64-bit words, \<open>int64\<close> values wrap explicitly, \<open>sdk.Int\<close> and
  \<open>sdk.Dec\<close> are integers with the library's overflow panics. Definitions carry the names of the
  Go functions; where two modules share a name it is prefixed by the module.

  \<^item> \<open>Prelude\<close>: results, errors, the \<open>go\<close> functions, their loops and the calculus
    \<open>keeps\<close> (what a function leaves intact whatever it returns). \<open>KVStore\<close>: stores, and
    the locales \<open>item_store\<close> and \<open>genesis_store\<close> every keeper interprets on its own
    operations. \<open>SdkMath\<close>, \<open>Bank\<close>, \<open>Coins\<close>: \<open>cosmossdk.io/math\<close>, the
    bank keeper and \<open>sdk.Coins\<close> of the vendored SDK.
  \<^item> \<open>Epochs\<close> (\<open>x/epochs\<close>): the begin blocker refines an abstract clock, timers stay
    on schedule under any hooks and catch up after an outage.
  \<^item> \<open>RateLimit\<close> (\<open>x/ratelimit\<close>): flows stay within quota in every reachable state,
    refused packets have no effect, genesis round trip.
  \<^item> \<open>Records\<close> (\<open>x/records\<close>) and \<open>ChainState\<close>: the three record stores; the
    state of \<open>x/stakeibc\<close> with host zones, trackers, callback data, queries and the outbox of
    interchain transactions.
  \<^item> \<open>EpochWindow\<close>, \<open>HostZones\<close>, \<open>ValidatorSelection\<close>, \<open>Ica\<close>: buffer
    windows and timeouts, validator sets, target delegations, submission of transactions.
  \<^item> \<open>LiquidStaking\<close>, \<open>Unbondings\<close>, \<open>Callbacks\<close>, \<open>Acknowledgements\<close>,
    \<open>Deposits\<close>, \<open>Queries\<close>, \<open>Registration\<close> (\<open>x/stakeibc/keeper\<close>,
    \<open>x/icacallbacks\<close>, \<open>x/interchainquery\<close>): each step of the life of a deposit and of a
    redemption, with what it moves and what it leaves alone; acknowledgements are handled once and
    claims settle once in every interleaving.
  \<^item> \<open>Books\<close>: the invariant that spans them, over all transactions, packets, query responses
    and epochs in any order: the staked balance of a zone is the sum of its validators'
    delegations, and zones stay distinct.
  \<^item> \<open>Mint\<close> (\<open>x/mint\<close>): the distribution pays out exactly what is minted, inflation is
    bounded by the reduction factor between two settings of the parameters, and the run ends in a
    panic when provisions fall below one token.
  \<^item> \<open>Vesting\<close>, \<open>Claim\<close> (\<open>x/claim\<close>): the release schedule of vesting accounts,
    airdrop claims that pay once, do not interfere and are solvent.
  \<^item> \<open>Autopilot\<close> (\<open>x/autopilot\<close>): the memo parser and the middleware, over the joint
    state of staking and claims.
  \<^item> \<open>ArchwaySdk\<close>, \<open>IndexStore\<close>: the older SDK the contract chain is built on
    (\<open>deps/archway-main/pkg\<close>, addresses and \<open>sdk.Coins\<close>), and stores with an index
    by group, with a locale that \<open>Tracking\<close> interprets three times.
  \<^item> \<open>Tracking\<close> (\<open>x/tracking\<close>): blocks, transactions and operations stay linked, gas is
    added up exactly, pruning and the genesis round trip.
  \<^item> \<open>Rewards\<close>, \<open>RewardsPool\<close>, \<open>Payouts\<close> (\<open>x/rewards\<close>): the model, the
    accounting of the rewards pool, and its theorems: the end of a block keeps the pool equal to what
    the records owe, withdrawals pay once, fees are split without loss, a block pays exactly
    the rounded shares of its contracts, which stay within an amount below a bound, and stops the
    chain when they exceed what it has brought.
  \<^item> \<open>Photosynthesis\<close>, \<open>Cron\<close> (\<open>x/photosynthesis\<close>): the model, with the text formats
    its stores hold, and its theorems, which mostly show where it departs from its purpose: what each
    task books, files and counts, again on every run, and that no liquidity arrives in any reachable
    state.

  \<^item> \<open>Migrations\<close> (\<open>x/*/migrations/v2\<close>), \<open>Upgrades\<close> (\<open>app/upgrades\<close>): the
    conversion of the stores from machine integers, which keeps the books of the zones and loses the
    epochs of the unbonding records, and the handlers of the upgrades v3 to v9, with what they do to
    zones, timers and airdrops.

  \<^bold>\<open>Properties.\<close> The blocks that begin with \<open>Property C\<close> and a number are the main
  theorems; the theorem after such a block states it over the definitions of the model, and a closed
  instance named after it with the suffix \<open>witness\<close> applies it to a concrete state. Some of
  them describe what the code does where that differs from what it means to do: weights that wrap,
  airdrops that clear each other's records, accounts that fail their own validation, deposits that are counted on every run.

  \<^bold>\<open>Parameters and bounds.\<close> Code that is not in the repository is an argument: IBC clients
  and channels, bech32 and JSON codecs, Merkle proofs, the accounts of the auth module, and the
  applications below a middleware. No definition uses fuel: loops run over lists, the two searches
  that do not recurse on structure have termination proofs by a measure. Where a theorem needs
  amounts to fit the 256 bits of \<open>sdk.Int\<close> it says so.

  \<^bold>\<open>Not modelled.\<close> Events, telemetry and logs; protobuf and amino encodings, which are taken to
  be inverse to each other except where \<open>x/photosynthesis\<close> decodes one message as another; the
  command lines; gRPC pagination; the wiring in \<open>app\<close>; the
  allocation tables of the airdrops, which are data; the third-party chain and the relayers under
  \<open>deps/evmos\<close>, \<open>deps/relayer\<close> and \<open>deps/relayerv1\<close>; deployment scripts.
\<close>

end
